(* ===== verification/Prelude.thy ===== *)
theory Prelude
  imports Main "HOL-Library.Word" "HOL-Library.Monad_Syntax"
begin

text \<open>
  Shared vocabulary of the development.

  \<^item> Fixed-width integers: \<open>uint8_t\<close>, \<open>uint16_t\<close>, \<open>uint32_t\<close>, \<open>uint64_t\<close> are words of that
    width, so that \<open>+\<close> and \<open>-\<close> wrap around as they do in the code.
  \<^item> C arrays: \<open>T a[N]\<close> is a function from indices together with the size \<open>N\<close> at every
    access.  An access at a constant index is plain application; an access whose index is
    computed from guest data goes through \<open>aread\<close>, \<open>awrite\<close>, \<open>rd\<close> or \<open>wr\<close>, whose value
    \<open>None\<close> stands for an access outside the array (undefined behaviour in the code).
  \<^item> Byte memory: \<open>ld n m a\<close> is \<open>memcpy(&v, m + a, n)\<close> into a zeroed 32-bit \<open>v\<close> on a
    little-endian host, \<open>st n m a v\<close> is \<open>memcpy(m + a, &v, n)\<close>.
\<close>

unbundle bit_operations_syntax

named_theorems dev_simps \<open>unfoldings of handlers that component proofs share\<close>
named_theorems inv_intros \<open>one operation keeps one component's invariant\<close>

section \<open>Machine integers\<close>

type_synonym u8 = "8 word"
type_synonym u16 = "16 word"
type_synonym u32 = "32 word"
type_synonym u64 = "64 word"

text \<open>The C test \<open>x & (1 << n)\<close> at the constants the code writes out.\<close>

lemma tst_exp: "(w AND 2 ^ n = 0) \<longleftrightarrow> \<not> bit (w :: 'a::len word) n"
  by (rule and_exp_eq_0_iff_not_bit)

lemma tst_1: "(w AND 1 = 0) \<longleftrightarrow> \<not> bit (w :: 'a::len word) 0"
  using tst_exp [of w 0] by simp

lemma tst_2: "(w AND 2 = 0) \<longleftrightarrow> \<not> bit (w :: 'a::len word) 1"
  using tst_exp [of w 1] by simp

lemma tst_4: "(w AND 4 = 0) \<longleftrightarrow> \<not> bit (w :: 'a::len word) 2"
  using tst_exp [of w 2] by simp

lemma tst_8: "(w AND 8 = 0) \<longleftrightarrow> \<not> bit (w :: 'a::len word) 3"
  using tst_exp [of w 3] by simp

lemma tst_16: "(w AND 16 = 0) \<longleftrightarrow> \<not> bit (w :: 'a::len word) 4"
  using tst_exp [of w 4] by simp

lemma tst_32: "(w AND 32 = 0) \<longleftrightarrow> \<not> bit (w :: 'a::len word) 5"
  using tst_exp [of w 5] by simp

lemma tst_64: "(w AND 64 = 0) \<longleftrightarrow> \<not> bit (w :: 'a::len word) 6"
  using tst_exp [of w 6] by simp

lemma tst_128: "(w AND 128 = 0) \<longleftrightarrow> \<not> bit (w :: 'a::len word) 7"
  using tst_exp [of w 7] by simp

lemmas tst_bits = tst_1 tst_2 tst_4 tst_8 tst_16 tst_32 tst_64 tst_128

lemma less_8_cases:
  fixes n :: nat
  shows "n < 8 \<longleftrightarrow> n = 0 \<or> n = 1 \<or> n = 2 \<or> n = 3 \<or> n = 4 \<or> n = 5 \<or> n = 6 \<or> n = 7"
  by arith

text \<open>Two words are equal when they agree on the bits below their width.\<close>

lemma bit_eqI8:
  fixes a b :: u8
  assumes "\<And>n. n < 8 \<Longrightarrow> bit a n = bit b n"
  shows "a = b"
  using assms by (intro bit_word_eqI) simp

lemma bit_eqI32:
  fixes a b :: u32
  assumes "\<And>n. n < 32 \<Longrightarrow> bit a n = bit b n"
  shows "a = b"
  using assms by (intro bit_word_eqI) simp

text \<open>Masking with \<open>2 ^ n - 1\<close> is reduction modulo \<open>2 ^ n\<close>.\<close>

lemma unat_and_mask: "unat (w AND mask n) = unat (w :: 'a::len word) mod 2 ^ n"
  by (metis take_bit_eq_mask take_bit_eq_mod unsigned_take_bit_eq)

lemma unat_and_mask_less: "unat (w AND mask n) < 2 ^ n" for w :: "'a::len word"
  by (simp add: unat_and_mask)

text \<open>The range of a word of each width.\<close>

lemma unat_u8 [simp]: "unat (w :: u8) < 256"
  using unsigned_less [of w, where ?'a = nat] by simp

lemma unat_u16 [simp]: "unat (w :: u16) < 65536"
  using unsigned_less [of w, where ?'a = nat] by simp

lemma unat_u32 [simp]: "unat (w :: u32) < 4294967296"
  using unsigned_less [of w, where ?'a = nat] by simp

text \<open>Byte and half-word masks as \<open>take_bit\<close>.\<close>

lemma and_FF: "w AND 0xFF = take_bit 8 (w :: 'a::len word)"
  by (simp add: take_bit_eq_mask mask_eq_exp_minus_1)

lemma and_FFFF: "w AND 0xFFFF = take_bit 16 (w :: 'a::len word)"
  by (simp add: take_bit_eq_mask mask_eq_exp_minus_1)

lemma bit_FF00: "bit (0xFF00 :: u16) n \<longleftrightarrow> 8 \<le> n \<and> n < 16"
proof -
  have "(0xFF00 :: u16) = push_bit 8 (mask 8)" by code_simp
  then show ?thesis by (simp only: bit_push_bit_iff bit_mask_iff) auto
qed

lemma ucast_8_32 [simp]: "ucast (ucast (x :: u8) :: u32) = x"
  by (rule bit_word_eqI) (simp add: bit_ucast_iff)

lemma ucast_16_32 [simp]: "ucast (ucast (x :: u16) :: u32) = x"
  by (rule bit_word_eqI) (simp add: bit_ucast_iff)

text \<open>What every step of a sequence of operations keeps, the sequence keeps.\<close>

lemma fold_inv: "P s \<Longrightarrow> (\<And>x s. P s \<Longrightarrow> P (f x s)) \<Longrightarrow> P (fold f xs s)"
  by (induction xs arbitrary: s) auto

section \<open>Arrays\<close>

type_synonym 'a arr = "nat \<Rightarrow> 'a"
type_synonym bytes = "nat \<Rightarrow> u8"

definition aread :: "nat \<Rightarrow> 'a arr \<Rightarrow> nat \<Rightarrow> 'a option" where
  "aread N a i = (if i < N then Some (a i) else None)"

definition awrite :: "nat \<Rightarrow> 'a arr \<Rightarrow> nat \<Rightarrow> 'a \<Rightarrow> 'a arr option" where
  "awrite N a i v = (if i < N then Some (a(i := v)) else None)"

lemma aread_in [simp]: "i < N \<Longrightarrow> aread N a i = Some (a i)"
  by (simp add: aread_def)

lemma awrite_in [simp]: "i < N \<Longrightarrow> awrite N a i v = Some (a(i := v))"
  by (simp add: awrite_def)

lemma aread_eq_None [simp]: "aread N a i = None \<longleftrightarrow> N \<le> i"
  by (simp add: aread_def)

lemma awrite_eq_None [simp]: "awrite N a i v = None \<longleftrightarrow> N \<le> i"
  by (simp add: awrite_def)

lemma aread_Some_iff: "aread N a i = Some v \<longleftrightarrow> i < N \<and> v = a i"
  by (auto simp: aread_def)

lemma awrite_Some_iff: "awrite N a i v = Some b \<longleftrightarrow> i < N \<and> b = a(i := v)"
  by (auto simp: awrite_def)

section \<open>Little-endian loads and stores\<close>

primrec ld :: "nat \<Rightarrow> bytes \<Rightarrow> nat \<Rightarrow> u32" where
  "ld 0 m a = 0"
| "ld (Suc n) m a = ucast (m a) OR push_bit 8 (ld n m (Suc a))"

primrec st :: "nat \<Rightarrow> bytes \<Rightarrow> nat \<Rightarrow> u32 \<Rightarrow> bytes" where
  "st 0 m a v = m"
| "st (Suc n) m a v = st n (m(a := ucast v)) (Suc a) (drop_bit 8 v)"

lemma bit_ld:
  "bit (ld n m a) i \<longleftrightarrow> i < 32 \<and> i div 8 < n \<and> bit (m (a + i div 8)) (i mod 8)"
proof (induction n arbitrary: a i)
  case 0
  then show ?case by simp
next
  case (Suc n)
  show ?case
  proof (cases "i < 8")
    case True
    then show ?thesis
      by (auto simp: bit_or_iff bit_ucast_iff bit_push_bit_iff)
  next
    case False
    then obtain j where j: "i = j + 8" by (metis add.commute le_add_diff_inverse not_less)
    have nb: "\<not> bit (m a) i" using False bit_imp_le_length [of "m a" i] by auto
    have d: "i div 8 = Suc (j div 8)" "i mod 8 = j mod 8" by (simp_all add: j)
    show ?thesis
      using nb by (auto simp: bit_or_iff bit_ucast_iff bit_push_bit_iff Suc.IH d) (auto simp: j)
  qed
qed

lemma st_apply:
  "st n m a v i = (if a \<le> i \<and> i < a + n then ucast (drop_bit (8 * (i - a)) v) else m i)"
proof (induction n arbitrary: m a v i)
  case 0
  then show ?case by auto
next
  case (Suc n)
  show ?case
  proof (cases "i = a")
    case True
    then show ?thesis by (simp add: Suc.IH)
  next
    case False
    then show ?thesis
      by (cases "a < i") (auto simp: Suc.IH algebra_simps Suc_diff_Suc
          simp flip: mult_Suc_right)
  qed
qed

lemma st_other [simp]: "i < a \<or> a + n \<le> i \<Longrightarrow> st n m a v i = m i"
  by (auto simp: st_apply)

lemma ld_cong: "(\<And>i. a \<le> i \<Longrightarrow> i < a + n \<Longrightarrow> m i = m' i) \<Longrightarrow> ld n m a = ld n m' a"
  by (induction n arbitrary: a) auto

text \<open>A load after a store: the value stored, or what was there when they do not meet.\<close>

lemma ld_st_same: "n \<le> 4 \<Longrightarrow> ld n (st n m a v) a = take_bit (8 * n) v"
proof (rule bit_eqI32)
  fix i :: nat
  assume "i < 32" and "n \<le> 4"
  then have "i div 8 < n \<longleftrightarrow> i < 8 * n" by arith
  moreover have "i mod 8 + 8 * (i div 8) = i" by simp
  ultimately show "bit (ld n (st n m a v) a) i = bit (take_bit (8 * n) v) i"
    using \<open>i < 32\<close>
    by (auto simp: bit_ld st_apply bit_ucast_iff bit_drop_bit_eq bit_take_bit_iff)
qed

lemma ld_st_disjoint:
  "b + k \<le> a \<or> a + n \<le> b \<Longrightarrow> ld k (st n m a v) b = ld k m b"
  by (rule ld_cong) auto

lemma take_bit_32 [simp]: "take_bit 32 (v :: u32) = v"
  by (rule bit_word_eqI) (simp add: bit_take_bit_iff)

lemma ld4_st4 [simp]: "ld 4 (st 4 m a v) a = v"
  by (simp add: ld_st_same)

lemma ld_zeros [simp]: "ld n (\<lambda>_. 0) a = 0"
  by (induction n arbitrary: a) simp_all

lemma ld_bound: "n \<le> 4 \<Longrightarrow> take_bit (8 * n) (ld n m a) = ld n m a"
proof (rule bit_eqI32)
  fix i :: nat
  assume "i < 32" and "n \<le> 4"
  then have "i div 8 < n \<longleftrightarrow> i < 8 * n" by arith
  then show "bit (take_bit (8 * n) (ld n m a)) i = bit (ld n m a) i"
    by (auto simp: bit_take_bit_iff bit_ld)
qed

text \<open>The checked accesses to an array of \<open>N\<close> bytes.\<close>

definition rd :: "nat \<Rightarrow> nat \<Rightarrow> bytes \<Rightarrow> nat \<Rightarrow> u32 option" where
  "rd N n m a = (if a + n \<le> N then Some (ld n m a) else None)"

definition wr :: "nat \<Rightarrow> nat \<Rightarrow> bytes \<Rightarrow> nat \<Rightarrow> u32 \<Rightarrow> bytes option" where
  "wr N n m a v = (if a + n \<le> N then Some (st n m a v) else None)"

lemma rd_in [simp]: "a + n \<le> N \<Longrightarrow> rd N n m a = Some (ld n m a)"
  by (simp add: rd_def)

lemma wr_in [simp]: "a + n \<le> N \<Longrightarrow> wr N n m a v = Some (st n m a v)"
  by (simp add: wr_def)

lemma rd_eq_None [simp]: "rd N n m a = None \<longleftrightarrow> N < a + n"
  by (auto simp: rd_def)

lemma wr_eq_None [simp]: "wr N n m a v = None \<longleftrightarrow> N < a + n"
  by (auto simp: wr_def)

text \<open>\<open>memcpy\<close> and \<open>memset\<close> of a whole range.\<close>

definition copy_bytes :: "nat \<Rightarrow> bytes \<Rightarrow> nat \<Rightarrow> bytes \<Rightarrow> nat \<Rightarrow> bytes" where
  "copy_bytes n src s dst d = (\<lambda>i. if d \<le> i \<and> i < d + n then src (s + (i - d)) else dst i)"

definition fill_bytes :: "nat \<Rightarrow> u8 \<Rightarrow> bytes \<Rightarrow> nat \<Rightarrow> bytes" where
  "fill_bytes n v dst d = (\<lambda>i. if d \<le> i \<and> i < d + n then v else dst i)"

text \<open>Writing a list of bytes (an initialiser or a string literal) at an offset.\<close>

primrec put_list :: "u8 list \<Rightarrow> bytes \<Rightarrow> nat \<Rightarrow> bytes" where
  "put_list [] m a = m"
| "put_list (x # xs) m a = put_list xs (m(a := x)) (Suc a)"

lemma put_list_apply:
  "put_list xs m a i = (if a \<le> i \<and> i < a + length xs then xs ! (i - a) else m i)"
proof (induction xs arbitrary: m a i)
  case Nil
  then show ?case by auto
next
  case (Cons x xs)
  then show ?case
    by (cases "i = a") (auto simp: Suc_diff_Suc nth_Cons')
qed

text \<open>The bytes of a C string literal, without its terminator.\<close>

definition ascii :: "string \<Rightarrow> u8 list" where
  "ascii = map of_char"

lemma length_ascii [simp]: "length (ascii s) = length s"
  by (simp add: ascii_def)

text \<open>\<open>tolower\<close> and \<open>toupper\<close> of the C locale.\<close>

definition to_lower :: "u8 \<Rightarrow> u8" where
  "to_lower b = (if 0x41 \<le> b \<and> b \<le> 0x5A then b + 0x20 else b)"

definition to_upper :: "u8 \<Rightarrow> u8" where
  "to_upper b = (if 0x61 \<le> b \<and> b \<le> 0x7A then b - 0x20 else b)"

text \<open>The bytes of \<open>m\<close> from \<open>a\<close>, as a list (the contents of a buffer).\<close>

definition get_list :: "nat \<Rightarrow> bytes \<Rightarrow> nat \<Rightarrow> u8 list" where
  "get_list n m a = map (\<lambda>i. m (a + i)) [0..<n]"

lemma length_get_list [simp]: "length (get_list n m a) = n"
  by (simp add: get_list_def)

lemma get_list_put_list [simp]: "get_list (length xs) (put_list xs m a) a = xs"
  by (rule nth_equalityI) (auto simp: get_list_def put_list_apply)

text \<open>Iterating a state transformer, as a counted loop whose body ignores the counter.\<close>

lemma funpow_add_apply: "(f ^^ (m + n)) x = (f ^^ m) ((f ^^ n) x)"
  by (simp add: funpow_add)

end
