(* ===== verification/Pic.thy ===== *)
theory Pic
  imports Prelude
begin

text \<open>
  The dual 8259A interrupt controller of \<open>src/src/xbox/pic.hpp\<close>: one chip (\<open>Pic8259\<close>), the
  master/slave pair (\<open>PicPair\<close>) and the port and CPU callbacks.  Interrupt lines are \<open>nat\<close>
  (the code's \<open>int line\<close> is never negative where it is shifted by); \<open>highest_pending\<close> keeps the
  code's \<open>-1\<close>.  Then the interface the CPU uses (\<open>irq_check\<close>, \<open>irq_ack\<close>) as a locale, and the
  pair as its instance.
\<close>

section \<open>One 8259A\<close>

record pic8259 =
  irr :: u8
  imr :: u8
  isr :: u8
  vector_base :: u8
  icw3 :: u8
  icw4_needed :: bool
  auto_eoi :: bool
  read_isr :: bool
  init_step :: nat
  single_mode :: bool

definition pic_new :: pic8259 where
  "pic_new = \<lparr>irr = 0, imr = 0xFF, isr = 0, vector_base = 0, icw3 = 0, icw4_needed = False,
     auto_eoi = False, read_isr = False, init_step = 0, single_mode = False\<rparr>"

definition line_bit :: "nat \<Rightarrow> u8" where
  "line_bit l = push_bit l 1"

definition pic_raise :: "nat \<Rightarrow> pic8259 \<Rightarrow> pic8259" where
  "pic_raise line p = p\<lparr>irr := irr p OR line_bit line\<rparr>"

definition pic_lower :: "nat \<Rightarrow> pic8259 \<Rightarrow> pic8259" where
  "pic_lower line p = p\<lparr>irr := irr p AND NOT (line_bit line)\<rparr>"

definition pending_bits :: "pic8259 \<Rightarrow> u8" where
  "pending_bits p = irr p AND NOT (imr p) AND NOT (isr p)"

definition pic_has_pending :: "pic8259 \<Rightarrow> bool" where
  "pic_has_pending p \<longleftrightarrow> pending_bits p \<noteq> 0"

definition highest_pending :: "pic8259 \<Rightarrow> int" where
  "highest_pending p =
     (let bits = pending_bits p in
      if bits = 0 then -1
      else case find (\<lambda>i. bits AND line_bit i \<noteq> 0) [0..<8] of
             Some i \<Rightarrow> int i
           | None \<Rightarrow> -1)"

definition pic_ack :: "pic8259 \<Rightarrow> u8 \<times> pic8259" where
  "pic_ack p =
     (let line = highest_pending p in
      if line < 0 then (vector_base p, p)
      else let b = line_bit (nat line);
               p1 = p\<lparr>irr := irr p AND NOT b\<rparr>;
               p2 = p1\<lparr>isr := isr p1 OR b\<rparr>;
               p3 = (if auto_eoi p2 then p2\<lparr>isr := isr p2 AND NOT b\<rparr> else p2)
           in (vector_base p3 + of_int line, p3))"

definition pic_eoi :: "pic8259 \<Rightarrow> pic8259" where
  "pic_eoi p =
     (case find (\<lambda>i. isr p AND line_bit i \<noteq> 0) [0..<8] of
        Some i \<Rightarrow> p\<lparr>isr := isr p AND NOT (line_bit i)\<rparr>
      | None \<Rightarrow> p)"

definition eoi_specific :: "nat \<Rightarrow> pic8259 \<Rightarrow> pic8259" where
  "eoi_specific line p = p\<lparr>isr := isr p AND NOT (line_bit line)\<rparr>"

text \<open>Port 0 of the chip: ICW1, OCW2 (end of interrupt) and OCW3 (read select).\<close>

definition pic_write_cmd :: "u8 \<Rightarrow> pic8259 \<Rightarrow> pic8259" where
  "pic_write_cmd val p =
     (if val AND 0x10 \<noteq> 0 then
        p\<lparr>init_step := 1, irr := 0, isr := 0, imr := 0,
          icw4_needed := (val AND 0x01 \<noteq> 0), single_mode := (val AND 0x02 \<noteq> 0),
          read_isr := False\<rparr>
      else if val AND 0x18 = 0 then
        let cmd = drop_bit 5 val AND 7 in
        if cmd = 1 then pic_eoi p
        else if cmd = 3 then eoi_specific (unat (val AND 7)) p
        else p
      else if val AND 0x18 = 0x08 then
        if val AND 0x02 \<noteq> 0 then p\<lparr>read_isr := (val AND 0x01 \<noteq> 0)\<rparr> else p
      else p)"

text \<open>Port 1: ICW2, ICW3, ICW4 while initialising, otherwise the mask register.\<close>

definition pic_write_data :: "u8 \<Rightarrow> pic8259 \<Rightarrow> pic8259" where
  "pic_write_data val p =
     (if init_step p = 1 then
        p\<lparr>vector_base := val AND 0xF8,
          init_step := (if single_mode p then (if icw4_needed p then 3 else 0) else 2)\<rparr>
      else if init_step p = 2 then
        p\<lparr>icw3 := val, init_step := (if icw4_needed p then 3 else 0)\<rparr>
      else if init_step p = 3 then
        p\<lparr>auto_eoi := (val AND 0x02 \<noteq> 0), init_step := 0\<rparr>
      else p\<lparr>imr := val\<rparr>)"

definition pic_write :: "nat \<Rightarrow> u8 \<Rightarrow> pic8259 \<Rightarrow> pic8259" where
  "pic_write port_off val p =
     (if port_off = 0 then pic_write_cmd val p else pic_write_data val p)"

definition pic_read :: "nat \<Rightarrow> pic8259 \<Rightarrow> u8" where
  "pic_read port_off p =
     (if port_off = 0 then (if read_isr p then isr p else irr p) else imr p)"

section \<open>The master/slave pair\<close>

record pic_pair =
  master :: pic8259
  slave :: pic8259

definition pic_pair_new :: pic_pair where
  "pic_pair_new = \<lparr>master = pic_new, slave = pic_new\<rparr>"

definition raise_irq :: "nat \<Rightarrow> pic_pair \<Rightarrow> pic_pair" where
  "raise_irq irq pp =
     (if irq < 8 then pp\<lparr>master := pic_raise irq (master pp)\<rparr>
      else pp\<lparr>slave := pic_raise (irq - 8) (slave pp), master := pic_raise 2 (master pp)\<rparr>)"

definition lower_irq :: "nat \<Rightarrow> pic_pair \<Rightarrow> pic_pair" where
  "lower_irq irq pp =
     (if irq < 8 then pp\<lparr>master := pic_lower irq (master pp)\<rparr>
      else let s = pic_lower (irq - 8) (slave pp) in
           if pic_has_pending s then pp\<lparr>slave := s\<rparr>
           else pp\<lparr>slave := s, master := pic_lower 2 (master pp)\<rparr>)"

definition pair_has_pending :: "pic_pair \<Rightarrow> bool" where
  "pair_has_pending pp =
     (if \<not> pic_has_pending (master pp) then False
      else if pending_bits (master pp) = line_bit 2 then pic_has_pending (slave pp)
      else True)"

definition pair_ack :: "pic_pair \<Rightarrow> u8 \<times> pic_pair" where
  "pair_ack pp =
     (let line = highest_pending (master pp) in
      if line = 2 \<and> pic_has_pending (slave pp) then
        let m = master pp;
            m1 = m\<lparr>irr := irr m AND NOT (line_bit 2)\<rparr>;
            m2 = m1\<lparr>isr := isr m1 OR line_bit 2\<rparr>;
            m3 = (if auto_eoi m2 then m2\<lparr>isr := isr m2 AND NOT (line_bit 2)\<rparr> else m2);
            (v, s) = pic_ack (slave pp)
        in (v, pp\<lparr>master := m3, slave := s\<rparr>)
      else if line = 2 \<and> \<not> pic_has_pending (slave pp) then
        let m = (master pp)\<lparr>irr := irr (master pp) AND NOT (line_bit 2)\<rparr> in
        if \<not> pic_has_pending m then (vector_base m, pp\<lparr>master := m\<rparr>)
        else let (v, m') = pic_ack m in (v, pp\<lparr>master := m'\<rparr>)
      else let (v, m') = pic_ack (master pp) in (v, pp\<lparr>master := m'\<rparr>))"

text \<open>The I/O port callbacks (ports 0x20-0x21 and 0xA0-0xA1).\<close>

definition pic_master_read :: "u16 \<Rightarrow> pic_pair \<Rightarrow> u32" where
  "pic_master_read port pp = ucast (pic_read (unat (port AND 1)) (master pp))"

definition pic_master_write :: "u16 \<Rightarrow> u32 \<Rightarrow> pic_pair \<Rightarrow> pic_pair" where
  "pic_master_write port val pp =
     pp\<lparr>master := pic_write (unat (port AND 1)) (ucast val) (master pp)\<rparr>"

definition pic_slave_read :: "u16 \<Rightarrow> pic_pair \<Rightarrow> u32" where
  "pic_slave_read port pp = ucast (pic_read (unat (port AND 1)) (slave pp))"

definition pic_slave_write :: "u16 \<Rightarrow> u32 \<Rightarrow> pic_pair \<Rightarrow> pic_pair" where
  "pic_slave_write port val pp =
     pp\<lparr>slave := pic_write (unat (port AND 1)) (ucast val) (slave pp)\<rparr>"

definition pic_irq_check :: "pic_pair \<Rightarrow> bool" where
  "pic_irq_check pp = pair_has_pending pp"

definition pic_irq_ack :: "pic_pair \<Rightarrow> u8 \<times> pic_pair" where
  "pic_irq_ack pp = pair_ack pp"

section \<open>What one chip does\<close>

text \<open>A line is requested when it is in IRR, unmasked and not in service.\<close>

definition requested :: "pic8259 \<Rightarrow> nat \<Rightarrow> bool" where
  "requested p l \<longleftrightarrow> l < 8 \<and> bit (irr p) l \<and> \<not> bit (imr p) l \<and> \<not> bit (isr p) l"

lemma bit_line_bit [simp]: "bit (line_bit l) n \<longleftrightarrow> n = l \<and> n < 8"
  by (auto simp: line_bit_def bit_push_bit_iff bit_1_iff simp del: push_bit_of_1)

lemma and_line_bit: "w AND line_bit l \<noteq> 0 \<longleftrightarrow> l < 8 \<and> bit w l" for w :: u8
proof -
  have "w AND line_bit l = 0 \<longleftrightarrow> (\<forall>n. \<not> (n = l \<and> n < 8 \<and> bit w n))"
    by (auto simp: bit_eq_iff bit_and_iff)
  then show ?thesis by auto
qed

lemma bit_pending_bits: "bit (pending_bits p) l \<longleftrightarrow> requested p l"
  using bit_imp_le_length [of "irr p" l]
  by (auto simp: pending_bits_def requested_def bit_and_iff bit_not_iff)

lemma has_pending_iff: "pic_has_pending p \<longleftrightarrow> (\<exists>l. requested p l)"
proof -
  have "pic_has_pending p \<longleftrightarrow> (\<exists>l. bit (pending_bits p) l)"
    using bit_imp_le_length [of "pending_bits p"]
    by (auto simp: pic_has_pending_def bit_eq_iff)
  then show ?thesis by (simp add: bit_pending_bits)
qed

lemma find_upt_Some:
  "find P [0..<n] = Some i \<longleftrightarrow> i < n \<and> P i \<and> (\<forall>j<i. \<not> P j)"
  by (auto simp: find_Some_iff)

lemma find_upt_None: "find P [0..<n] = None \<longleftrightarrow> (\<forall>i<n. \<not> P i)"
  by (auto simp: find_None_iff)

lemma highest_pending_eq:
  "highest_pending p = int l \<longleftrightarrow> requested p l \<and> (\<forall>j<l. \<not> requested p j)"
proof (cases "pending_bits p = 0")
  case True
  then have "\<not> requested p l" by (metis bit_0_eq bit_pending_bits bot_apply bot_bool_def)
  with True show ?thesis by (simp add: highest_pending_def)
next
  case False
  then have ex: "\<exists>l<8. requested p l"
    using has_pending_iff by (auto simp: pic_has_pending_def requested_def)
  then have "find (\<lambda>i. pending_bits p AND line_bit i \<noteq> 0) [0..<8] \<noteq> None"
    unfolding find_upt_None and_line_bit bit_pending_bits by blast
  then obtain i where i: "find (\<lambda>i. pending_bits p AND line_bit i \<noteq> 0) [0..<8] = Some i"
    by blast
  then have "highest_pending p = int i"
    using False by (simp add: highest_pending_def)
  moreover from i have "requested p i \<and> (\<forall>j<i. \<not> requested p j)"
    by (auto simp: find_upt_Some and_line_bit bit_pending_bits)
  ultimately show ?thesis
    by (auto dest: linorder_neqE_nat)
qed

lemma highest_pending_neg: "highest_pending p < 0 \<longleftrightarrow> \<not> pic_has_pending p"
proof -
  have "highest_pending p = -1 \<or> (\<exists>l. highest_pending p = int l)"
    by (auto simp: highest_pending_def Let_def split: option.splits)
  then show ?thesis
  proof
    assume h: "highest_pending p = -1"
    have "\<not> requested p l" for l
    proof (induction l rule: less_induct)
      case (less l)
      then show ?case using highest_pending_eq [of p l] h by auto
    qed
    with h show ?thesis by (simp add: has_pending_iff)
  next
    assume "\<exists>l. highest_pending p = int l"
    then obtain l where l: "highest_pending p = int l" by blast
    with highest_pending_eq have "requested p l" by blast
    with l show ?thesis by (auto simp: has_pending_iff)
  qed
qed

lemma pending_least:
  assumes "pic_has_pending p"
  obtains l where "requested p l" and "\<forall>j<l. \<not> requested p j" and "highest_pending p = int l"
proof -
  from assms have "\<not> highest_pending p < 0" by (simp add: highest_pending_neg)
  then obtain l where "highest_pending p = int l" by (meson nonneg_int_cases not_less)
  then show ?thesis using that highest_pending_eq by blast
qed

lemma set_then_clear:
  assumes "\<not> bit (w :: u8) l"
  shows "(w OR line_bit l) AND NOT (line_bit l) = w"
  by (rule bit_eqI8) (use assms in \<open>auto simp: bit_and_iff bit_or_iff bit_not_iff\<close>)

lemma pic_ack_at:
  assumes "highest_pending p = int l"
  shows "pic_ack p =
    (vector_base p + of_nat l,
     p\<lparr>irr := irr p AND NOT (line_bit l),
       isr := (if auto_eoi p then isr p else isr p OR line_bit l)\<rparr>)"
proof -
  have "\<not> bit (isr p) l" using assms highest_pending_eq by (auto simp: requested_def)
  then show ?thesis
    using assms by (auto simp: pic_ack_def Let_def set_then_clear)
qed

lemma pic_ack_idle: "\<not> pic_has_pending p \<Longrightarrow> pic_ack p = (vector_base p, p)"
  by (simp add: pic_ack_def highest_pending_neg)

text \<open>An invariant of the chip: the initialisation sequence is at a step that exists, and the
  vector base is a multiple of eight.\<close>

definition pic_ok :: "pic8259 \<Rightarrow> bool" where
  "pic_ok p \<longleftrightarrow> init_step p \<le> 3 \<and> vector_base p AND 7 = 0"

lemma pic_ok_new [inv_intros]: "pic_ok pic_new"
  by (simp add: pic_ok_def pic_new_def)

lemma pic_ok_raise [inv_intros]: "pic_ok p \<Longrightarrow> pic_ok (pic_raise l p)"
  by (simp add: pic_ok_def pic_raise_def)

lemma pic_ok_lower [inv_intros]: "pic_ok p \<Longrightarrow> pic_ok (pic_lower l p)"
  by (simp add: pic_ok_def pic_lower_def)

lemma pic_ok_ack [inv_intros]: "pic_ok p \<Longrightarrow> pic_ok (snd (pic_ack p))"
  by (simp add: pic_ok_def pic_ack_def Let_def)

lemma pic_ok_write [inv_intros]: "pic_ok p \<Longrightarrow> pic_ok (pic_write off v p)"
  by (auto simp: pic_ok_def pic_write_def pic_write_cmd_def pic_write_data_def Let_def
      pic_eoi_def eoi_specific_def ac_simps split: option.splits)


section \<open>What the pair promises\<close>

text \<open>Interrupt request \<open>i\<close> is deliverable: on the master directly (line 2 is the cascade, not a
  request of its own), on the slave when the cascade line is requested too.\<close>

definition deliverable :: "pic_pair \<Rightarrow> nat \<Rightarrow> bool" where
  "deliverable pp i \<longleftrightarrow>
     (if i < 8 then i \<noteq> 2 \<and> requested (master pp) i
      else requested (slave pp) (i - 8) \<and> requested (master pp) 2)"

text \<open>The priority order of the pair: 0, 1, 8, ..., 15, 3, ..., 7.\<close>

definition irq_rank :: "nat \<Rightarrow> nat" where
  "irq_rank i = (if i < 2 then i else if i < 8 then i + 8 else i - 6)"

definition irq_vector :: "pic_pair \<Rightarrow> nat \<Rightarrow> u8" where
  "irq_vector pp i =
     (if i < 8 then vector_base (master pp) + of_nat i
      else vector_base (slave pp) + of_nat (i - 8))"

lemma requested_ack:
  assumes "highest_pending p = int l"
  shows "requested (snd (pic_ack p)) j \<longleftrightarrow> requested p j \<and> j \<noteq> l"
  using assms by (auto simp: pic_ack_at requested_def bit_and_iff bit_or_iff bit_not_iff)

lemma only_cascade:
  "pending_bits p = line_bit 2 \<longleftrightarrow> requested p 2 \<and> (\<forall>j. j \<noteq> 2 \<longrightarrow> \<not> requested p j)"
proof
  assume "pending_bits p = line_bit 2"
  then have "bit (pending_bits p) j \<longleftrightarrow> j = 2" for j
    by auto
  then show "requested p 2 \<and> (\<forall>j. j \<noteq> 2 \<longrightarrow> \<not> requested p j)"
    by (simp add: bit_pending_bits)
next
  assume "requested p 2 \<and> (\<forall>j. j \<noteq> 2 \<longrightarrow> \<not> requested p j)"
  then show "pending_bits p = line_bit 2"
    by (intro bit_word_eqI) (metis bit_line_bit bit_pending_bits numeral_less_iff requested_def)
qed

lemma requested_8: "requested p l \<Longrightarrow> l < 8"
  by (simp add: requested_def)

lemma pair_has_pending_iff: "pair_has_pending pp \<longleftrightarrow> (\<exists>i. deliverable pp i)"
proof
  assume h: "pair_has_pending pp"
  show "\<exists>i. deliverable pp i"
  proof (cases "pending_bits (master pp) = line_bit 2")
    case True
    with h obtain l where l: "requested (slave pp) l"
      by (auto simp: pair_has_pending_def has_pending_iff split: if_splits)
    have "deliverable pp (l + 8)"
      using True l by (simp add: deliverable_def only_cascade)
    then show ?thesis ..
  next
    case False
    with h obtain l where "requested (master pp) l" "l \<noteq> 2"
      by (auto simp: pair_has_pending_def has_pending_iff only_cascade split: if_splits)
    then have "deliverable pp l" by (simp add: deliverable_def requested_8)
    then show ?thesis ..
  qed
next
  assume "\<exists>i. deliverable pp i"
  then show "pair_has_pending pp"
    by (auto simp: deliverable_def pair_has_pending_def has_pending_iff only_cascade
        split: if_splits)
qed

text \<open>The requests and the interrupts in service of the pair, by number; line 2 of the master is the cascade.\<close>

definition irq_request :: "pic_pair \<Rightarrow> nat \<Rightarrow> bool" where
  "irq_request pp j \<longleftrightarrow> (if j < 8 then bit (irr (master pp)) j else bit (irr (slave pp)) (j - 8))"

definition irq_in_service :: "pic_pair \<Rightarrow> nat \<Rightarrow> bool" where
  "irq_in_service pp j \<longleftrightarrow> (if j < 8 then bit (isr (master pp)) j else bit (isr (slave pp)) (j - 8))"

definition irq_auto_eoi :: "pic_pair \<Rightarrow> nat \<Rightarrow> bool" where
  "irq_auto_eoi pp j \<longleftrightarrow> auto_eoi (if j < 8 then master pp else slave pp)"

text \<open>Request \<open>i\<close> is taken, and is in service unless its chip ends interrupts by itself; every other request
  stays, and nothing else comes into or out of service.\<close>

definition takes_only :: "pic_pair \<Rightarrow> nat \<Rightarrow> pic_pair \<Rightarrow> bool" where
  "takes_only pp i pp' \<longleftrightarrow>
     (\<forall>j < 16. j \<noteq> 2 \<longrightarrow> (irq_request pp' j \<longleftrightarrow> irq_request pp j \<and> j \<noteq> i)
        \<and> (irq_in_service pp' j \<longleftrightarrow> irq_in_service pp j \<or> j = i \<and> \<not> irq_auto_eoi pp j))
     \<and> imr (master pp') = imr (master pp) \<and> imr (slave pp') = imr (slave pp)"

text \<open>Acknowledging serves the deliverable request of highest priority and removes it.\<close>

definition acks :: "pic_pair \<Rightarrow> nat \<Rightarrow> bool" where
  "acks pp i \<longleftrightarrow> deliverable pp i \<and> (\<forall>j. deliverable pp j \<longrightarrow> irq_rank i \<le> irq_rank j)
     \<and> fst (pair_ack pp) = irq_vector pp i \<and> takes_only pp i (snd (pair_ack pp))
     \<and> (\<forall>j. deliverable (snd (pair_ack pp)) j \<longrightarrow> deliverable pp j \<and> j \<noteq> i)"

lemma takes_only_master:
  assumes "highest_pending m = int l" and "l < 8" and "l \<noteq> 2"
    and "\<And>j. j \<noteq> 2 \<Longrightarrow> bit (irr m) j = bit (irr (master pp)) j"
    and "isr m = isr (master pp)" "imr m = imr (master pp)" "auto_eoi m = auto_eoi (master pp)"
  shows "takes_only pp l (pp\<lparr>master := snd (pic_ack m)\<rparr>)"
  using assms
  by (auto simp: takes_only_def pic_ack_at irq_request_def irq_in_service_def irq_auto_eoi_def bit_and_iff bit_or_iff
      bit_not_iff)

lemma acks_slave:
  assumes h: "highest_pending (master pp) = 2" and s: "pic_has_pending (slave pp)"
  shows "\<exists>i. acks pp i"
proof -
  from s obtain l where l: "requested (slave pp) l" "\<forall>j<l. \<not> requested (slave pp) j"
      "highest_pending (slave pp) = int l"
    by (rule pending_least)
  have m: "requested (master pp) 2" "\<forall>j<2. \<not> requested (master pp) j"
    using highest_pending_eq [of "master pp" 2] h by auto
  have "deliverable pp (l + 8)" using l m by (simp add: deliverable_def)
  moreover have "irq_rank (l + 8) \<le> irq_rank j" if "deliverable pp j" for j
    using that l m requested_8 [OF l(1)]
    by (auto simp: deliverable_def irq_rank_def not_less [symmetric] split: if_splits)
  moreover have "fst (pair_ack pp) = irq_vector pp (l + 8)"
    using h s l by (simp add: pair_ack_def Let_def pic_ack_at irq_vector_def)
  moreover have "takes_only pp (l + 8) (snd (pair_ack pp))"
    using h s l requested_8 [OF l(1)]
    by (auto simp: pair_ack_def Let_def pic_ack_at takes_only_def irq_request_def irq_in_service_def irq_auto_eoi_def
        bit_and_iff bit_or_iff bit_not_iff)
  moreover have "deliverable pp j \<and> j \<noteq> l + 8" if "deliverable (snd (pair_ack pp)) j" for j
    using that h s l m
    by (auto simp: pair_ack_def Let_def pic_ack_at deliverable_def requested_def
        bit_and_iff bit_or_iff bit_not_iff split: if_splits)
  ultimately show ?thesis unfolding acks_def by blast
qed

lemma requested_drop_cascade:
  "requested (p\<lparr>irr := irr p AND NOT (line_bit 2)\<rparr>) j \<longleftrightarrow> requested p j \<and> j \<noteq> 2"
  by (auto simp: requested_def bit_and_iff bit_not_iff)

lemma acks_spurious_cascade:
  assumes h: "highest_pending (master pp) = 2" and s: "\<not> pic_has_pending (slave pp)"
    and p: "pair_has_pending pp"
  shows "\<exists>i. acks pp i"
proof -
  define m where "m = (master pp)\<lparr>irr := irr (master pp) AND NOT (line_bit 2)\<rparr>"
  have nos: "\<not> requested (slave pp) j" for j using s by (auto simp: has_pending_iff)
  have r: "requested m j \<longleftrightarrow> requested (master pp) j \<and> j \<noteq> 2" for j
    unfolding m_def by (rule requested_drop_cascade)
  have "pic_has_pending m"
    using p nos by (auto simp: pair_has_pending_iff has_pending_iff r deliverable_def split: if_splits)
  then obtain l where l: "requested m l" "\<forall>j<l. \<not> requested m j" "highest_pending m = int l"
    by (rule pending_least)
  have dl: "deliverable pp j \<longleftrightarrow> requested m j" for j
    using nos requested_8 by (auto simp: deliverable_def r)
  have ack: "pair_ack pp = (fst (pic_ack m), pp\<lparr>master := snd (pic_ack m)\<rparr>)"
    using h s \<open>pic_has_pending m\<close> by (simp add: pair_ack_def Let_def m_def split: prod.splits)
  have lo: "\<not> requested (master pp) j" if "j < 2" for j
    using highest_pending_eq [of "master pp" 2] h that by auto
  have "irq_rank l \<le> irq_rank j" if "deliverable pp j" for j
    using that l requested_8 [of m j] requested_8 [OF l(1)] lo [of l] lo [of j]
    by (auto simp: dl irq_rank_def r not_less [symmetric])
  moreover have "fst (pair_ack pp) = irq_vector pp l"
    using l requested_8 [OF l(1)] by (simp add: ack pic_ack_at irq_vector_def m_def)
  moreover have "takes_only pp l (snd (pair_ack pp))"
    unfolding ack snd_conv
  proof (rule takes_only_master [OF l(3) requested_8 [OF l(1)]])
    show "l \<noteq> 2" using l(1) r by blast
    show "bit (irr m) j = bit (irr (master pp)) j" if "j \<noteq> 2" for j
      using that bit_imp_le_length [of "irr (master pp)" j] by (auto simp: m_def bit_and_iff bit_not_iff)
  qed (simp_all add: m_def)
  moreover have "deliverable pp j \<and> j \<noteq> l" if "deliverable (snd (pair_ack pp)) j" for j
    using that nos l(3) requested_8 [of _ j]
    by (auto simp: ack deliverable_def requested_ack r split: if_splits)
  ultimately show ?thesis using l dl unfolding acks_def by blast
qed

lemma acks_master:
  assumes h: "highest_pending (master pp) \<noteq> 2" and p: "pair_has_pending pp"
  shows "\<exists>i. acks pp i"
proof -
  have "pic_has_pending (master pp)"
    using p by (simp add: pair_has_pending_def split: if_splits)
  then obtain l where l: "requested (master pp) l" "\<forall>j<l. \<not> requested (master pp) j"
      "highest_pending (master pp) = int l"
    by (rule pending_least)
  have l2: "l \<noteq> 2" "l < 8" using h l requested_8 by auto
  have ack: "pair_ack pp = (fst (pic_ack (master pp)), pp\<lparr>master := snd (pic_ack (master pp))\<rparr>)"
    using h by (simp add: pair_ack_def Let_def split: prod.splits)
  have "deliverable pp l" using l l2 by (simp add: deliverable_def)
  moreover have "irq_rank l \<le> irq_rank j" if "deliverable pp j" for j
  proof -
    have "l \<le> (if j < 8 then j else 2)"
      using that l by (auto simp: deliverable_def not_less [symmetric] split: if_splits)
    with l2 that show ?thesis
      by (auto simp: irq_rank_def deliverable_def split: if_splits)
  qed
  moreover have "fst (pair_ack pp) = irq_vector pp l"
    using l l2 by (simp add: ack pic_ack_at irq_vector_def)
  moreover have "takes_only pp l (snd (pair_ack pp))"
    unfolding ack snd_conv by (rule takes_only_master [OF l(3)]) (use l2 in simp_all)
  moreover have "deliverable pp j \<and> j \<noteq> l" if "deliverable (snd (pair_ack pp)) j" for j
    using that l l2 by (auto simp: ack deliverable_def requested_ack split: if_splits)
  ultimately show ?thesis unfolding acks_def by blast
qed

lemma acks_exists: "pair_has_pending pp \<Longrightarrow> \<exists>i. acks pp i"
  using acks_slave acks_spurious_cascade acks_master by blast

section \<open>The interface to the processor\<close>

text \<open>What the processor's run loop relies on: \<open>irq_check\<close> says whether some request is
  deliverable, \<open>irq_ack\<close> returns the vector of one of highest priority and takes it off the
  deliverable ones.\<close>

locale irq_controller =
  fixes check :: "'s \<Rightarrow> bool"
    and ack :: "'s \<Rightarrow> u8 \<times> 's"
    and ready :: "'s \<Rightarrow> nat set"
    and rank :: "nat \<Rightarrow> nat"
    and vector :: "'s \<Rightarrow> nat \<Rightarrow> u8"
  assumes check_ready: "check s \<longleftrightarrow> ready s \<noteq> {}"
    and finite_ready: "finite (ready s)"
    and ack_serves: "check s \<Longrightarrow>
      \<exists>i \<in> ready s. (\<forall>j \<in> ready s. rank i \<le> rank j) \<and> fst (ack s) = vector s i
        \<and> ready (snd (ack s)) \<subseteq> ready s - {i}"
begin

lemma ack_shrinks: "check s \<Longrightarrow> card (ready (snd (ack s))) < card (ready s)"
proof -
  assume "check s"
  from ack_serves [OF this] obtain i where "i \<in> ready s" "ready (snd (ack s)) \<subseteq> ready s - {i}"
    by blast
  then show ?thesis
    by (meson Diff_subset card_Diff1_less card_mono finite_Diff finite_ready order_le_less_trans)
qed

text \<open>Acknowledging again and again, with no new request, comes to an end.\<close>

lemma ack_drains: "\<exists>n \<le> card (ready s). \<not> check (((\<lambda>s. snd (ack s)) ^^ n) s)"
proof (induction "card (ready s)" arbitrary: s rule: less_induct)
  case less
  show ?case
  proof (cases "check s")
    case False
    then show ?thesis by (intro exI [of _ 0]) simp
  next
    case True
    from ack_shrinks [OF this] less obtain n where
      "n \<le> card (ready (snd (ack s)))" "\<not> check (((\<lambda>s. snd (ack s)) ^^ n) (snd (ack s)))"
      by blast
    then show ?thesis using ack_shrinks [OF True]
      by (intro exI [of _ "Suc n"]) (simp del: funpow.simps add: funpow_Suc_right)
  qed
qed

end

definition ready_irqs :: "pic_pair \<Rightarrow> nat set" where
  "ready_irqs pp = {i. deliverable pp i}"

lemma ready_irqs_16: "ready_irqs pp \<subseteq> {0..<16}"
  using requested_8 [of "slave pp"] by (fastforce simp: ready_irqs_def deliverable_def split: if_splits)

interpretation pair_irq: irq_controller pic_irq_check pic_irq_ack ready_irqs irq_rank irq_vector
proof
  fix s
  show "pic_irq_check s \<longleftrightarrow> ready_irqs s \<noteq> {}"
    by (simp add: pic_irq_check_def pair_has_pending_iff ready_irqs_def)
  show "finite (ready_irqs s)"
    using ready_irqs_16 by (rule finite_subset) simp
  assume "pic_irq_check s"
  then obtain i where "acks s i" using acks_exists by (auto simp: pic_irq_check_def)
  then show "\<exists>i \<in> ready_irqs s. (\<forall>j \<in> ready_irqs s. irq_rank i \<le> irq_rank j)
      \<and> fst (pic_irq_ack s) = irq_vector s i
      \<and> ready_irqs (snd (pic_irq_ack s)) \<subseteq> ready_irqs s - {i}"
    by (intro bexI [of _ i]) (auto simp: acks_def ready_irqs_def pic_irq_ack_def)
qed


section \<open>Properties\<close>

text \<open>C20: Whenever the pair reports a pending interrupt, acknowledging it returns the vector of a
  deliverable request of the highest priority (0, 1, 8 to 15, 3 to 7), never a spurious one, and takes exactly
  that request: its bit in IRR is cleared and its bit in ISR set unless its chip ends interrupts by itself, every
  other request bit and in-service bit, the cascade line apart, and the masks are as before, and nothing
  becomes deliverable that was not.\<close>

theorem pair_ack_serves_highest:
  assumes "pic_irq_check pp"
  shows "\<exists>i. deliverable pp i \<and> (\<forall>j. deliverable pp j \<longrightarrow> irq_rank i \<le> irq_rank j)
    \<and> fst (pic_irq_ack pp) = irq_vector pp i \<and> takes_only pp i (snd (pic_irq_ack pp))
    \<and> (\<forall>j. deliverable (snd (pic_irq_ack pp)) j \<longrightarrow> deliverable pp j \<and> j \<noteq> i)"
  using acks_exists assms unfolding acks_def pic_irq_check_def pic_irq_ack_def by blast

definition pair_demo :: pic_pair where
  "pair_demo = raise_irq 14 (raise_irq 6
     \<lparr>master = pic_new\<lparr>imr := 0, vector_base := 0x30\<rparr>,
      slave = pic_new\<lparr>imr := 0, vector_base := 0x38\<rparr>\<rparr>)"

lemma pair_demo_check: "pic_irq_check pair_demo"
  by code_simp

theorem pair_ack_serves_highest_witness:
  "\<exists>i. deliverable pair_demo i \<and> (\<forall>j. deliverable pair_demo j \<longrightarrow> irq_rank i \<le> irq_rank j)
    \<and> fst (pic_irq_ack pair_demo) = irq_vector pair_demo i \<and> takes_only pair_demo i (snd (pic_irq_ack pair_demo))"
  using pair_ack_serves_highest [OF pair_demo_check] by blast

text \<open>With no new request, at most 16 acknowledgements leave nothing pending.\<close>
theorem pair_acks_drain:
  "\<exists>n. n \<le> 16 \<and> \<not> pic_irq_check (((\<lambda>s. snd (pic_irq_ack s)) ^^ n) pp)"
proof -
  have "card (ready_irqs pp) \<le> 16"
    using card_mono [OF _ ready_irqs_16] by simp
  then show ?thesis using pair_irq.ack_drains [of pp] by (meson order_trans)
qed

text \<open>The four initialisation words, whatever the state before, leave the chip with the
  vector base of ICW2, the mode of ICW4, an empty IRR, ISR and IMR, and out of initialisation.\<close>
theorem pic_init_sequence:
  assumes "bit w1 4" and "bit w1 0" and "\<not> bit w1 1"
  shows "pic_write 1 w4 (pic_write 1 w3 (pic_write 1 w2 (pic_write 0 w1 p))) =
    p\<lparr>irr := 0, isr := 0, imr := 0, vector_base := w2 AND 0xF8, icw3 := w3,
      icw4_needed := True, auto_eoi := bit w4 1, read_isr := False, init_step := 0,
      single_mode := False\<rparr>"
  using assms by (simp add: pic_write_def pic_write_cmd_def pic_write_data_def tst_bits)

theorem pic_init_sequence_example:
  "pic_write 1 0x01 (pic_write 1 0x04 (pic_write 1 0x30 (pic_write 0 0x11 pic_new))) =
    pic_new\<lparr>irr := 0, isr := 0, imr := 0, vector_base := 0x30 AND 0xF8, icw3 := 0x04,
      icw4_needed := True, auto_eoi := bit (0x01 :: u8) 1, read_isr := False, init_step := 0,
      single_mode := False\<rparr>"
  by (rule pic_init_sequence) simp_all

text \<open>A second slave request waits: acknowledging the first clears the cascade bit of the master,
  and after both end-of-interrupt commands the slave's other request is still pending there but
  the pair does not report it until a line is raised again.\<close>

definition pair_two_slave :: pic_pair where
  "pair_two_slave = raise_irq 9 (raise_irq 8
     \<lparr>master = pic_new\<lparr>imr := 0\<rparr>, slave = pic_new\<lparr>imr := 0\<rparr>\<rparr>)"

lemma second_slave_request_stuck:
  "let pp = pic_master_write 0x20 0x20 (pic_slave_write 0xA0 0x20 (snd (pic_irq_ack pair_two_slave)))
   in pic_has_pending (slave pp) \<and> \<not> pic_irq_check pp"
  by code_simp

end
