(* ===== verification/Pit.thy ===== *)
theory Pit
  imports Pic
begin

text \<open>
  The 8254 timer of \<open>src/src/xbox/pit.hpp\<close>: the three channels, the tick of channel 0 (which
  raises IRQ 0 of the pair of \<open>Pic\<close>) and the port callbacks (0x40 to 0x43).  The code's
  \<open>PicPair *pic\<close> is the pair passed along.  \<open>tick\<close> tests \<open>enabled\<close> once, before its loop, as the
  code does.
\<close>

section \<open>State and operations\<close>

record pit_channel =
  reload :: u16
  pcount :: u16
  pmode :: u8
  access :: u8
  lo_written :: bool
  lo_read :: bool
  enabled :: bool
  latch_val :: u16
  latched :: bool
  pout :: bool

definition pit_channel_new :: pit_channel where
  "pit_channel_new = \<lparr>reload = 0, pcount = 0, pmode = 0, access = 0, lo_written = False,
     lo_read = False, enabled = False, latch_val = 0, latched = False, pout = False\<rparr>"

text \<open>\<open>reload = val ? val : 65536\<close> stored in 16 bits.\<close>

definition load_count :: "u16 \<Rightarrow> pit_channel \<Rightarrow> pit_channel" where
  "load_count val c =
     (let r = (if val \<noteq> 0 then val else 65536) in
      c\<lparr>reload := r, pcount := r, enabled := True, pout := False\<rparr>)"

record pit_state =
  ch :: "pit_channel arr"

definition pit_new :: pit_state where
  "pit_new = \<lparr>ch = (\<lambda>_. pit_channel_new)\<rparr>"

text \<open>The body of the tick loop, on channel 0 and the interrupt controller.\<close>

fun pit_step :: "pit_channel \<times> pic_pair \<Rightarrow> pit_channel \<times> pic_pair" where
  "pit_step (c, pic) =
     (let c = (if pcount c = 0 then c\<lparr>pcount := reload c\<rparr> else c);
          c = c\<lparr>pcount := pcount c - 1\<rparr> in
      if pcount c \<noteq> 0 then (c, pic)
      else if pmode c = 0 then (c\<lparr>pout := True, enabled := False\<rparr>, raise_irq 0 pic)
      else if pmode c = 2 then (c\<lparr>pcount := reload c\<rparr>, raise_irq 0 pic)
      else if pmode c = 3 then
        (c\<lparr>pout := \<not> pout c, pcount := reload c\<rparr>, raise_irq 0 pic)
      else (c, pic))"

definition pit_tick :: "nat \<Rightarrow> pit_state \<times> pic_pair \<Rightarrow> pit_state \<times> pic_pair" where
  "pit_tick n sp =
     (let (s, pic) = sp in
      if \<not> enabled (ch s 0) then sp
      else let (c', pic') = (pit_step ^^ n) (ch s 0, pic) in (s\<lparr>ch := (ch s)(0 := c')\<rparr>, pic'))"

definition pit_io_read :: "u16 \<Rightarrow> pit_state \<Rightarrow> u32 \<times> pit_state" where
  "pit_io_read port s =
     (let i = uint port - 0x40 in
      if i < 0 \<or> i > 2 then (0, s)
      else
        let k = nat i; c = ch s k; val = (if latched c then latch_val c else pcount c) in
        if access c = 1 then (ucast (val AND 0xFF), s)
        else if access c = 2 then (ucast (drop_bit 8 val AND 0xFF), s)
        else if access c = 3 then
          if \<not> lo_read c then
            (ucast (val AND 0xFF), s\<lparr>ch := (ch s)(k := c\<lparr>lo_read := True\<rparr>)\<rparr>)
          else
            (ucast (drop_bit 8 val AND 0xFF),
             s\<lparr>ch := (ch s)(k := c\<lparr>lo_read := False, latched := False\<rparr>)\<rparr>)
        else (0, s))"

definition pit_control :: "u32 \<Rightarrow> pit_state \<Rightarrow> pit_state" where
  "pit_control val s =
     (let ch_sel = unat (drop_bit 6 val AND 3);
          acc = drop_bit 4 val AND 3;
          mode = drop_bit 1 val AND 7;
          c = ch s ch_sel in
      if ch_sel = 3 then s
      else if acc = 0 then s\<lparr>ch := (ch s)(ch_sel := c\<lparr>latch_val := pcount c, latched := True\<rparr>)\<rparr>
      else s\<lparr>ch := (ch s)(ch_sel := c\<lparr>access := ucast acc, pmode := ucast (mode AND 3),
             lo_written := False, lo_read := False, enabled := False\<rparr>)\<rparr>)"

definition lo_byte_set :: "u16 \<Rightarrow> u32 \<Rightarrow> u16" where
  "lo_byte_set r val = (r AND 0xFF00) OR ucast (val AND 0xFF)"

definition hi_byte_set :: "u16 \<Rightarrow> u32 \<Rightarrow> u16" where
  "hi_byte_set r val = ucast (push_bit 8 (val AND 0xFF)) OR (r AND 0xFF)"

definition pit_io_write :: "u16 \<Rightarrow> u32 \<Rightarrow> pit_state \<Rightarrow> pit_state" where
  "pit_io_write port val s =
     (if port = 0x43 then pit_control val s
      else
        let i = uint port - 0x40 in
        if i < 0 \<or> i > 2 then s
        else
          let k = nat i; c = ch s k;
              c' = (if access c = 1 then load_count (lo_byte_set (reload c) val) c
                    else if access c = 2 then load_count (hi_byte_set (reload c) val) c
                    else if access c = 3 then
                      if \<not> lo_written c then
                        c\<lparr>reload := lo_byte_set (reload c) val, lo_written := True\<rparr>
                      else
                        let c1 = c\<lparr>reload := hi_byte_set (reload c) val, lo_written := False\<rparr>
                        in load_count (reload c1) c1
                    else c)
          in s\<lparr>ch := (ch s)(k := c')\<rparr>)"

section \<open>Lemmas\<close>

text \<open>The number of ticks a reload value stands for: zero is 65536.\<close>

definition pit_period :: "u16 \<Rightarrow> nat" where
  "pit_period r = (if r = 0 then 65536 else unat r)"

lemma pit_period_range: "0 < pit_period r" "pit_period r \<le> 65536"
  using unat_u16 [of r] by (auto simp: pit_period_def unat_gt_0 less_imp_le)

lemma pit_period_word: "of_nat (pit_period r) = r"
  by (simp add: pit_period_def)

lemma load_count_fields:
  "reload (load_count v c) = v" "pcount (load_count v c) = v" "enabled (load_count v c)"
  "pmode (load_count v c) = pmode c" "\<not> pout (load_count v c)"
  by (auto simp: load_count_def Let_def)

declare pit_step.simps [simp del]

lemma raise_irq_idem: "raise_irq i (raise_irq i pp) = raise_irq i pp"
  by (simp add: raise_irq_def pic_raise_def or.assoc)

lemma word16_minus_eq_0: "of_nat n = (0 :: u16) \<longleftrightarrow> n mod 65536 = 0"
  using word_of_nat_eq_0_iff [where 'a = 16] by (simp add: dvd_eq_mod_eq_0)

lemma pit_step_at:
  "pit_step (c, pic) =
    (let w = (if pcount c = 0 then reload c else pcount c) - 1;
         c = c\<lparr>pcount := w\<rparr> in
      if w \<noteq> 0 then (c, pic)
      else if pmode c = 0 then (c\<lparr>pout := True, enabled := False\<rparr>, raise_irq 0 pic)
      else if pmode c = 2 then (c\<lparr>pcount := reload c\<rparr>, raise_irq 0 pic)
      else if pmode c = 3 then
        (c\<lparr>pout := \<not> pout c, pcount := reload c\<rparr>, raise_irq 0 pic)
      else (c, pic))"
  by (simp add: pit_step.simps Let_def)

text \<open>One step of the loop in a periodic mode, in terms of the ticks that remain.\<close>

lemma pit_step_count:
  assumes m: "pmode c = 2 \<or> pmode c = 3" and k: "0 < k" "k \<le> pit_period (reload c)"
    and c: "pcount c = of_nat k"
  shows "pit_step (c, pic) =
    (if k = 1 then (c\<lparr>pcount := reload c, pout := (if pmode c = 3 then \<not> pout c else pout c)\<rparr>,
                    raise_irq 0 pic)
     else (c\<lparr>pcount := of_nat (k - 1)\<rparr>, pic))"
proof -
  have kb: "k \<le> 65536" using k pit_period_range(2) order_trans by blast
  have w: "(if pcount c = 0 then reload c else pcount c) = of_nat k"
  proof (cases "pcount c = 0")
    case True
    then have "k mod 65536 = 0" using c word16_minus_eq_0 by metis
    with k(1) kb have k65536: "k = 65536" by (simp add: mod_eq_0_iff_dvd dvd_imp_le antisym)
    with k(2) have "pit_period (reload c) = 65536"
      using pit_period_range(2) [of "reload c"] by simp
    then have "reload c = of_nat k"
      using k65536 pit_period_word [of "reload c"] by simp
    with True show ?thesis by simp
  next
    case False
    then show ?thesis using c by simp
  qed
  have dec: "of_nat k - 1 = (of_nat (k - 1) :: u16)"
    using k(1) by (simp add: of_nat_diff)
  have z: "(of_nat (k - 1) :: u16) = 0 \<longleftrightarrow> k = 1"
  proof -
    have "k - 1 < 65536" using k(1) kb by simp
    then have "(k - 1) mod 65536 = k - 1" by simp
    then show ?thesis using k(1) word16_minus_eq_0 [of "k - 1"] by linarith
  qed
  show ?thesis
    unfolding pit_step_at Let_def w dec z using m by (cases "k = 1") auto
qed

lemma pit_steps_within:
  assumes m: "pmode c = 2 \<or> pmode c = 3" and c: "pcount c = reload c"
    and n: "n < pit_period (reload c)"
  shows "(pit_step ^^ n) (c, pic) = (c\<lparr>pcount := of_nat (pit_period (reload c) - n)\<rparr>, pic)"
  using n
proof (induction n)
  case 0
  then show ?case using c by (simp add: pit_period_word)
next
  case (Suc n)
  define k where "k = pit_period (reload c) - n"
  have k: "0 < k" "k \<le> pit_period (reload c)" "k \<noteq> 1" "k - 1 = pit_period (reload c) - Suc n"
    using Suc.prems by (auto simp: k_def)
  have "(pit_step ^^ Suc n) (c, pic) = pit_step (c\<lparr>pcount := of_nat k\<rparr>, pic)"
    using Suc by (simp only: funpow.simps o_apply k_def)
  also have "\<dots> = (c\<lparr>pcount := of_nat (k - 1)\<rparr>, pic)"
    using pit_step_count [of "c\<lparr>pcount := of_nat k\<rparr>" k pic] m k(1,2,3) by simp
  finally show ?case by (simp only: k)
qed

lemma pit_steps_period:
  assumes m: "pmode c = 2 \<or> pmode c = 3" and c: "pcount c = reload c"
  shows "(pit_step ^^ pit_period (reload c)) (c, pic) =
    (c\<lparr>pout := (if pmode c = 3 then \<not> pout c else pout c)\<rparr>, raise_irq 0 pic)"
proof -
  obtain n where n: "pit_period (reload c) = Suc n"
    using pit_period_range(1) gr0_implies_Suc by blast
  have "(pit_step ^^ n) (c, pic) = (c\<lparr>pcount := of_nat (pit_period (reload c) - n)\<rparr>, pic)"
    using n by (intro pit_steps_within [OF m c]) simp
  then have "(pit_step ^^ Suc n) (c, pic) = pit_step (c\<lparr>pcount := of_nat 1\<rparr>, pic)"
    using n by simp
  also have "\<dots> = (c\<lparr>pout := (if pmode c = 3 then \<not> pout c else pout c)\<rparr>, raise_irq 0 pic)"
    using m c n by (subst pit_step_count [where k = 1]) auto
  finally show ?thesis by (simp add: n)
qed


lemma pit_steps_many:
  assumes m: "pmode c = 2 \<or> pmode c = 3" and c: "pcount c = reload c"
  shows "(pit_step ^^ (q * pit_period (reload c))) (c, pic) =
    (c\<lparr>pout := (if pmode c = 3 \<and> odd q then \<not> pout c else pout c)\<rparr>,
     if q = 0 then pic else raise_irq 0 pic)"
proof (induction q)
  case 0
  then show ?case by simp
next
  case (Suc q)
  define d where "d = c\<lparr>pout := (if pmode c = 3 \<and> odd q then \<not> pout c else pout c)\<rparr>"
  have d: "pmode d = pmode c" "pcount d = reload d" "reload d = reload c"
    using c by (simp_all add: d_def)
  have "Suc q * pit_period (reload c) = pit_period (reload c) + q * pit_period (reload c)"
    by simp
  then have "(pit_step ^^ (Suc q * pit_period (reload c))) (c, pic) =
      (pit_step ^^ pit_period (reload d)) (d, if q = 0 then pic else raise_irq 0 pic)"
    by (simp only: funpow_add_apply Suc.IH d(3) d_def [symmetric])
  also have "\<dots> = (d\<lparr>pout := (if pmode d = 3 then \<not> pout d else pout d)\<rparr>,
      raise_irq 0 (if q = 0 then pic else raise_irq 0 pic))"
    using m d by (intro pit_steps_period) simp_all
  finally show ?case by (auto simp: d_def raise_irq_idem)
qed

lemma pit_steps_any:
  assumes m: "pmode c = 2 \<or> pmode c = 3" and c: "pcount c = reload c"
    and P: "P = pit_period (reload c)"
  shows "(pit_step ^^ n) (c, pic) =
    (c\<lparr>pcount := of_nat (P - n mod P),
       pout := (if pmode c = 3 \<and> odd (n div P) then \<not> pout c else pout c)\<rparr>,
     if P \<le> n then raise_irq 0 pic else pic)"
proof -
  have P0: "0 < P" using P pit_period_range(1) by simp
  define d where "d = c\<lparr>pout := (if pmode c = 3 \<and> odd (n div P) then \<not> pout c else pout c)\<rparr>"
  have d: "pmode d = pmode c" "pcount d = reload d" "reload d = reload c"
    using c by (simp_all add: d_def)
  have "(pit_step ^^ (n mod P + n div P * P)) (c, pic) =
      (pit_step ^^ (n mod P)) (d, if n div P = 0 then pic else raise_irq 0 pic)"
    using pit_steps_many [OF m c, of "n div P" pic]
    by (simp only: funpow_add_apply P d_def)
  also have "\<dots> = (d\<lparr>pcount := of_nat (P - n mod P)\<rparr>,
      if n div P = 0 then pic else raise_irq 0 pic)"
    using pit_steps_within [of d "n mod P"] m d P P0 by simp
  finally show ?thesis using P0 by (simp add: d_def div_eq_0_iff not_less)
qed

section \<open>Properties\<close>

text \<open>Channel 0 in a periodic mode (2 or 3), started with reload value \<open>r\<close> (0 standing for
  65536), raises IRQ 0 exactly when a whole period has passed: after any number \<open>n\<close> of ticks the
  counter, the output of mode 3 and the interrupt controller are what \<open>n mod period\<close> and
  \<open>n div period\<close> say.\<close>
theorem pit_periodic_tick:
  assumes "enabled (ch s 0)" and "pmode (ch s 0) = 2 \<or> pmode (ch s 0) = 3"
    and "pcount (ch s 0) = reload (ch s 0)"
  shows "pit_tick n (s, pic) =
    (let c = ch s 0; P = pit_period (reload c) in
     (s\<lparr>ch := (ch s)(0 := c\<lparr>pcount := of_nat (P - n mod P),
        pout := (if pmode c = 3 \<and> odd (n div P) then \<not> pout c else pout c)\<rparr>)\<rparr>,
      if P \<le> n then raise_irq 0 pic else pic))"
  using assms by (simp add: pit_tick_def pit_steps_any [OF _ _ refl] Let_def)

definition pit_demo :: pit_state where
  "pit_demo = pit_io_write 0x40 0 (pit_io_write 0x40 3 (pit_io_write 0x43 0x34 pit_new))"

lemma pit_demo_fields:
  "enabled (ch pit_demo 0) \<and> pmode (ch pit_demo 0) = 2 \<and> reload (ch pit_demo 0) = 3
   \<and> pcount (ch pit_demo 0) = 3"
  by code_simp

theorem pit_periodic_tick_witness:
  "pit_tick 7 (pit_demo, pic_pair_new) =
    (let c = ch pit_demo 0; P = pit_period (reload c) in
     (pit_demo\<lparr>ch := (ch pit_demo)(0 := c\<lparr>pcount := of_nat (P - 7 mod P),
        pout := (if pmode c = 3 \<and> odd (7 div P) then \<not> pout c else pout c)\<rparr>)\<rparr>,
      if P \<le> 7 then raise_irq 0 pic_pair_new else pic_pair_new))"
  by (rule pit_periodic_tick) (simp_all add: pit_demo_fields)

lemma lo_hi_byte: "hi_byte_set (lo_byte_set r lo) hi = ucast ((lo AND 0xFF) OR push_bit 8 (hi AND 0xFF))"
  unfolding hi_byte_set_def lo_byte_set_def and_FF
  by (rule bit_word_eqI)
    (auto simp: bit_or_iff bit_and_iff bit_ucast_iff bit_push_bit_iff bit_take_bit_iff bit_FF00)

text \<open>A channel's port: neither the control port nor another channel's.\<close>

lemma pit_port:
  assumes "k < 3"
  shows "(0x40 + of_nat k :: u16) \<noteq> 0x43" and "uint (0x40 + of_nat k :: u16) = 0x40 + int k"
proof -
  from assms have "k = 0 \<or> k = 1 \<or> k = 2" by arith
  then show "(0x40 + of_nat k :: u16) \<noteq> 0x43" and "uint (0x40 + of_nat k :: u16) = 0x40 + int k"
    by auto
qed

lemma pit_write_two:
  assumes k: "k < 3" and a: "access (ch s k) = 3" "\<not> lo_written (ch s k)"
  shows "pit_io_write (0x40 + of_nat k) hi (pit_io_write (0x40 + of_nat k) lo s) =
    s\<lparr>ch := (ch s)(k := load_count (ucast ((lo AND 0xFF) OR push_bit 8 (hi AND 0xFF)))
      ((ch s k)\<lparr>lo_written := False\<rparr>))\<rparr>"
  using assms
  by (simp add: pit_io_write_def pit_port Let_def lo_hi_byte load_count_def del: of_nat_numeral)

lemma pit_read_two:
  assumes k: "k < 3" and a: "access (ch s k) = 3" "\<not> lo_read (ch s k)" "\<not> latched (ch s k)"
  shows "fst (pit_io_read (0x40 + of_nat k) s) = ucast (pcount (ch s k) AND 0xFF)"
    and "fst (pit_io_read (0x40 + of_nat k) (snd (pit_io_read (0x40 + of_nat k) s))) =
      ucast (drop_bit 8 (pcount (ch s k)) AND 0xFF)"
  using assms by (simp_all add: pit_io_read_def pit_port Let_def del: of_nat_numeral)

text \<open>A control word with access mode 3 (low byte, then high byte) for channel \<open>k\<close>, then two
  byte writes and two byte reads at the channel's port: the reads give back the two bytes, the
  channel runs in the mode programmed and its counter is the 16-bit value of the two bytes.\<close>
theorem pit_program_roundtrip:
  assumes "k < 3" and "port = 0x40 + of_nat k"
    and "drop_bit 4 cw AND 3 = 3" and "drop_bit 6 cw AND 3 = (of_nat k :: u32)"
    and "\<not> latched (ch s k)"
  shows "let s1 = pit_io_write port hi (pit_io_write port lo (pit_io_write 0x43 cw s));
             (r1, s2) = pit_io_read port s1;
             (r2, s3) = pit_io_read port s2
         in enabled (ch s1 k) \<and> pmode (ch s1 k) = ucast (drop_bit 1 cw AND 3)
            \<and> pcount (ch s1 k) = ucast ((lo AND 0xFF) OR push_bit 8 (hi AND 0xFF))
            \<and> r1 = lo AND 0xFF \<and> r2 = hi AND 0xFF"
proof -
  let ?v = "ucast ((lo AND 0xFF) OR push_bit 8 (hi AND 0xFF)) :: u16"
  define s0 where "s0 = pit_io_write 0x43 cw s"
  define s1 where "s1 = pit_io_write port hi (pit_io_write port lo s0)"
  have k3: "unat (of_nat k :: u32) = k"
    using assms(1) by (simp add: unat_of_nat)
  have s0: "access (ch s0 k) = 3" "\<not> lo_written (ch s0 k)" "\<not> lo_read (ch s0 k)"
    "\<not> latched (ch s0 k)" "pmode (ch s0 k) = ucast (drop_bit 1 cw AND 3)"
    using assms(1,3,4,5)
    by (simp_all add: s0_def pit_io_write_def pit_control_def Let_def k3 and.assoc)
  have s1: "s1 = s0\<lparr>ch := (ch s0)(k := load_count ?v ((ch s0 k)\<lparr>lo_written := False\<rparr>))\<rparr>"
    unfolding s1_def assms(2) using pit_write_two [OF assms(1) s0(1,2)] .
  have f: "access (ch s1 k) = 3" "\<not> lo_read (ch s1 k)" "\<not> latched (ch s1 k)" "pcount (ch s1 k) = ?v"
    "enabled (ch s1 k)" "pmode (ch s1 k) = ucast (drop_bit 1 cw AND 3)"
    using s0 unfolding s1 by (simp_all add: load_count_def Let_def)
  have lo: "ucast (?v AND 0xFF) = lo AND 0xFF" and hi: "ucast (drop_bit 8 ?v AND 0xFF) = hi AND 0xFF"
    unfolding and_FF
    by (auto intro!: bit_word_eqI
        simp: bit_or_iff bit_ucast_iff bit_push_bit_iff bit_take_bit_iff bit_drop_bit_eq)
  note r = pit_read_two [OF assms(1) f(1,2,3), folded assms(2), unfolded f(4) lo hi]
  show ?thesis
    unfolding Let_def case_prod_beta s0_def [symmetric] s1_def [symmetric]
    using f(4,5,6) r by blast
qed

theorem pit_program_roundtrip_example:
  "let s1 = pit_io_write 0x42 0x12 (pit_io_write 0x42 0x34 (pit_io_write 0x43 0xB6 pit_new));
       (r1, s2) = pit_io_read 0x42 s1;
       (r2, s3) = pit_io_read 0x42 s2
   in enabled (ch s1 2) \<and> pmode (ch s1 2) = ucast (drop_bit 1 (0xB6 :: u32) AND 3)
      \<and> pcount (ch s1 2) = ucast (((0x34 :: u32) AND 0xFF) OR push_bit 8 (0x12 AND 0xFF))
      \<and> r1 = 0x34 AND 0xFF \<and> r2 = 0x12 AND 0xFF"
  by (rule pit_program_roundtrip) (simp_all add: pit_new_def pit_channel_new_def)

end
