(* ===== verification/Address_Map.thy ===== *)
theory Address_Map
  imports Prelude
begin

text \<open>
  The physical address map (\<open>src/src/xbox/address_map.hpp\<close>), the size of guest memory
  (\<open>src/src/cpu/executor.hpp\<close>) and the RAM mirror at 0x0C000000 (\<open>src/src/xbox/ram_mirror.hpp\<close>),
  which reads and writes guest memory modulo 64 MB.
\<close>

section \<open>Constants\<close>

abbreviation RAM_SIZE_RETAIL :: u32 where "RAM_SIZE_RETAIL \<equiv> 0x04000000"
abbreviation RAM_SIZE_DEVKIT :: u32 where "RAM_SIZE_DEVKIT \<equiv> 0x08000000"
abbreviation RAM_MIRROR_BASE :: u32 where "RAM_MIRROR_BASE \<equiv> 0x0C000000"
abbreviation RAM_MIRROR_SIZE :: u32 where "RAM_MIRROR_SIZE \<equiv> 0x08000000"
abbreviation FLASH_BASE :: u32 where "FLASH_BASE \<equiv> 0xF0000000"
abbreviation FLASH_SIZE :: u32 where "FLASH_SIZE \<equiv> 0x00100000"
abbreviation NV2A_BASE :: u32 where "NV2A_BASE \<equiv> 0xFD000000"
abbreviation NV2A_SIZE :: u32 where "NV2A_SIZE \<equiv> 0x01000000"
abbreviation APU_BASE :: u32 where "APU_BASE \<equiv> 0xFE800000"
abbreviation APU_SIZE :: u32 where "APU_SIZE \<equiv> 0x00400000"
abbreviation IOAPIC_BASE :: u32 where "IOAPIC_BASE \<equiv> 0xFEC00000"
abbreviation IOAPIC_SIZE :: u32 where "IOAPIC_SIZE \<equiv> 0x00001000"
abbreviation USB0_BASE :: u32 where "USB0_BASE \<equiv> 0xFED00000"
abbreviation USB0_SIZE :: u32 where "USB0_SIZE \<equiv> 0x00001000"
abbreviation USB1_BASE :: u32 where "USB1_BASE \<equiv> 0xFED08000"
abbreviation USB1_SIZE :: u32 where "USB1_SIZE \<equiv> 0x00001000"
abbreviation BIOS_BASE :: u32 where "BIOS_BASE \<equiv> 0xFF000000"
abbreviation BIOS_SIZE :: u32 where "BIOS_SIZE \<equiv> 0x01000000"

text \<open>Bytes of guest memory the executor maps.\<close>

abbreviation GUEST_RAM_SIZE :: nat where "GUEST_RAM_SIZE \<equiv> 0x08000000"

section \<open>The RAM mirror\<close>

definition mirror_off :: "u32 \<Rightarrow> nat" where
  "mirror_off pa = unat ((pa - RAM_MIRROR_BASE) AND (RAM_SIZE_RETAIL - 1))"

definition ram_mirror_read :: "u32 \<Rightarrow> nat \<Rightarrow> bytes \<Rightarrow> u32 option" where
  "ram_mirror_read pa n ram = rd GUEST_RAM_SIZE n ram (mirror_off pa)"

definition ram_mirror_write :: "u32 \<Rightarrow> u32 \<Rightarrow> nat \<Rightarrow> bytes \<Rightarrow> bytes option" where
  "ram_mirror_write pa val n ram = wr GUEST_RAM_SIZE n ram (mirror_off pa) val"

lemma mirror_off_eq: "mirror_off pa = unat (pa - RAM_MIRROR_BASE) mod 0x4000000"
  using unat_and_mask [of "pa - RAM_MIRROR_BASE" 26]
  by (simp add: mirror_off_def mask_eq_exp_minus_1)

lemma mirror_off_less: "mirror_off pa < 0x4000000"
  by (simp add: mirror_off_eq)

text \<open>An access of at most four bytes through the mirror stays inside guest memory.\<close>

lemma ram_mirror_in:
  assumes "n \<le> 4"
  shows "ram_mirror_read pa n ram = Some (ld n ram (mirror_off pa))"
    and "ram_mirror_write pa val n ram = Some (st n ram (mirror_off pa) val)"
  using assms mirror_off_less [of pa] by (simp_all add: ram_mirror_read_def ram_mirror_write_def)

end
