(* ===== verification/Ioapic.thy ===== *)
theory Ioapic
  imports Address_Map
begin

text \<open>
  The I/O APIC of \<open>src/src/xbox/ioapic.hpp\<close>: 64 registers behind an index register
  (offset 0x00) and a window (offset 0x10).
\<close>

section \<open>State and operations\<close>

abbreviation IOAPIC_ID :: nat where "IOAPIC_ID \<equiv> 0x00"
abbreviation IOAPIC_VER :: nat where "IOAPIC_VER \<equiv> 0x01"
abbreviation IOAPIC_ARB :: nat where "IOAPIC_ARB \<equiv> 0x02"
abbreviation REDIR_BASE :: nat where "REDIR_BASE \<equiv> 0x10"
abbreviation MAX_IRQS :: nat where "MAX_IRQS \<equiv> 24"
abbreviation REG_COUNT :: nat where "REG_COUNT \<equiv> REDIR_BASE + MAX_IRQS * 2"
abbreviation VERSION_82093AA :: u32 where "VERSION_82093AA \<equiv> 0x00170011"
abbreviation ENTRY_MASKED :: u32 where "ENTRY_MASKED \<equiv> 0x00010000"
abbreviation ID_FIELD_MASK :: u32 where "ID_FIELD_MASK \<equiv> 0x0F000000"
abbreviation ENTRY_DEST_MASK :: u32 where "ENTRY_DEST_MASK \<equiv> 0xFF000000"
abbreviation ENTRY_RO_MASK :: u32 where "ENTRY_RO_MASK \<equiv> push_bit 12 1 OR push_bit 14 1"

record ioapic_state =
  ioregsel :: u32
  io_regs :: "u32 arr"

definition ioapic_new :: ioapic_state where
  "ioapic_new = \<lparr>ioregsel = 0,
     io_regs = (\<lambda>i. if i = IOAPIC_VER then VERSION_82093AA
       else if REDIR_BASE \<le> i \<and> i < REG_COUNT \<and> even (i - REDIR_BASE) then ENTRY_MASKED
       else 0)\<rparr>"

definition ioapic_read :: "u32 \<Rightarrow> ioapic_state \<Rightarrow> u32" where
  "ioapic_read pa s =
     (let off = pa - IOAPIC_BASE; i = unat (ioregsel s) in
      if off = 0 then ioregsel s
      else if off = 0x10 \<and> i < REG_COUNT then io_regs s i
      else 0)"

definition ioapic_write :: "u32 \<Rightarrow> u32 \<Rightarrow> ioapic_state \<Rightarrow> ioapic_state" where
  "ioapic_write pa val s =
     (let off = pa - IOAPIC_BASE; idx = unat (ioregsel s); set = (\<lambda>v. s\<lparr>io_regs := (io_regs s)(idx := v)\<rparr>) in
      if off = 0 then s\<lparr>ioregsel := val AND 0xFF\<rparr>
      else if off = 0x10 then
        if REG_COUNT \<le> idx then s
        else if idx = IOAPIC_ID then set (val AND ID_FIELD_MASK)
        else if idx = IOAPIC_VER \<or> idx = IOAPIC_ARB then s
        else if REDIR_BASE \<le> idx then
          if even (idx - REDIR_BASE) then
            set ((val AND NOT ENTRY_RO_MASK) OR (io_regs s idx AND ENTRY_RO_MASK))
          else set (val AND ENTRY_DEST_MASK)
        else set val
      else s)"

section \<open>Invariant and properties\<close>

text \<open>The writable bits of each register.\<close>

definition ioapic_mask :: "nat \<Rightarrow> u32" where
  "ioapic_mask i =
     (if REG_COUNT \<le> i then 0
      else if i = IOAPIC_ID then ID_FIELD_MASK
      else if i = IOAPIC_VER \<or> i = IOAPIC_ARB then 0
      else if REDIR_BASE \<le> i then (if even i then NOT ENTRY_RO_MASK else ENTRY_DEST_MASK)
      else -1)"

text \<open>What holds of the registers whatever the guest writes: the version is fixed, and bits that
  cannot be written are as at reset.\<close>

definition ioapic_ok :: "ioapic_state \<Rightarrow> bool" where
  "ioapic_ok s \<longleftrightarrow> unat (ioregsel s) < 256
     \<and> (\<forall>i. io_regs s i AND NOT (ioapic_mask i) = io_regs ioapic_new i AND NOT (ioapic_mask i))"

lemma ioapic_ok_new [inv_intros]: "ioapic_ok ioapic_new"
  by (simp add: ioapic_ok_def) (simp add: ioapic_new_def)

lemma ioapic_new_ro: "io_regs ioapic_new i AND NOT (ioapic_mask i) =
    (if i = IOAPIC_VER then VERSION_82093AA else 0)"
  by (simp add: ioapic_new_def ioapic_mask_def)

lemma even_redir: "16 \<le> i \<Longrightarrow> even (i - 16) \<longleftrightarrow> even (i :: nat)"
  by simp

text \<open>The value a window write leaves: the writable bits come from the value written.\<close>

lemma ioapic_window_write:
  assumes ok: "ioapic_ok s" and i: "i = unat (ioregsel s)" and pa: "pa = IOAPIC_BASE + 0x10"
  shows "ioapic_write pa val s =
    s\<lparr>io_regs := (io_regs s)(i := (val AND ioapic_mask i) OR (io_regs s i AND NOT (ioapic_mask i)))\<rparr>"
proof -
  have ro: "io_regs s i AND NOT (ioapic_mask i) = (if i = IOAPIC_VER then VERSION_82093AA else 0)"
    using ok ioapic_new_ro by (simp add: ioapic_ok_def)
  have all: "s\<lparr>io_regs := (io_regs s)(j := v)\<rparr> = s" if "io_regs s j = v" for j v
    using that by (metis fun_upd_triv ioapic_state.surjective ioapic_state.update_convs(2))
  show ?thesis
  proof (cases "64 \<le> i \<or> i = 1 \<or> i = 2")
    case True
    then have "ioapic_mask i = 0" by (auto simp: ioapic_mask_def)
    moreover have "ioapic_write pa val s = s"
      using True unfolding ioapic_write_def Let_def pa i [symmetric] by auto
    ultimately show ?thesis by (simp add: all)
  next
    case False
    then show ?thesis
      using ro unfolding ioapic_write_def Let_def pa i [symmetric]
      by (auto simp: ioapic_mask_def)
  qed
qed

lemma mask_mix: "((v AND m) OR (w AND NOT m)) AND NOT m = w AND NOT (m :: u32)"
  by (rule bit_word_eqI) (auto simp: bit_or_iff bit_and_iff bit_not_iff)

lemma byte_less_256: "unat (v AND 0xFF :: u32) < 256"
  using unat_and_mask_less [of v 8] by (simp add: mask_eq_exp_minus_1)

lemma ioapic_ok_write [inv_intros]:
  assumes "ioapic_ok s"
  shows "ioapic_ok (ioapic_write pa v s)"
proof -
  consider "pa = IOAPIC_BASE" | "pa = IOAPIC_BASE + 0x10"
    | "pa - IOAPIC_BASE \<noteq> 0" "pa - IOAPIC_BASE \<noteq> 0x10"
    by (metis add.commute diff_add_cancel right_minus_eq)
  then show ?thesis
  proof cases
    case 1
    then show ?thesis using assms by (simp add: ioapic_ok_def ioapic_write_def Let_def byte_less_256)
  next
    case 2
    show ?thesis
      unfolding ioapic_window_write [OF assms refl 2]
      using assms by (simp add: ioapic_ok_def mask_mix)
  next
    case 3
    then show ?thesis using assms by (simp add: ioapic_write_def Let_def)
  qed
qed

text \<open>Whatever a guest writes to the I/O APIC, in any order, the registers keep every bit that
  the register map declares read-only: the version, the arbitration register, the delivery
  status and remote IRR bits of each redirection entry, the reserved bits of its high word.\<close>
theorem ioapic_read_only_bits:
  "ioapic_ok (fold (\<lambda>(pa, v). ioapic_write pa v) ws ioapic_new)"
  by (rule fold_inv) (auto intro: ioapic_ok_write ioapic_ok_new)

text \<open>Selecting register \<open>i\<close> and writing \<open>v\<close> to the window makes a read of the window return
  the writable bits of \<open>v\<close> over the register's fixed bits, and no other register changes.\<close>
theorem ioapic_window_roundtrip:
  assumes "ioapic_ok s" and "i < REG_COUNT"
  shows "let s1 = ioapic_write IOAPIC_BASE (of_nat i) s;
             s2 = ioapic_write (IOAPIC_BASE + 0x10) v s1
         in ioapic_read (IOAPIC_BASE + 0x10) s2 =
              (v AND ioapic_mask i) OR (io_regs ioapic_new i AND NOT (ioapic_mask i))
            \<and> (\<forall>j. j \<noteq> i \<longrightarrow> io_regs s2 j = io_regs s j)"
proof -
  define s1 where "s1 = ioapic_write IOAPIC_BASE (of_nat i) s"
  have "unat (of_nat i AND 0xFF :: u32) = i"
    using assms(2) unat_and_mask [of "of_nat i :: u32" 8]
    by (simp add: mask_eq_exp_minus_1 unat_of_nat)
  then have s1: "i = unat (ioregsel s1)" "io_regs s1 = io_regs s"
    by (simp_all add: s1_def ioapic_write_def Let_def)
  have ok: "ioapic_ok s1" unfolding s1_def using assms(1) by (rule ioapic_ok_write)
  show ?thesis
    using assms s1(2) ok unfolding s1_def [symmetric] Let_def ioapic_window_write [OF ok s1(1) refl]
    by (simp add: ioapic_read_def Let_def s1(1) [symmetric]) (simp add: ioapic_ok_def)
qed

theorem ioapic_window_roundtrip_example:
  "let s1 = ioapic_write IOAPIC_BASE (of_nat 16) ioapic_new;
       s2 = ioapic_write (IOAPIC_BASE + 0x10) 0xFFFFFFFF s1
   in ioapic_read (IOAPIC_BASE + 0x10) s2 =
        (0xFFFFFFFF AND ioapic_mask 16) OR (io_regs ioapic_new 16 AND NOT (ioapic_mask 16))
      \<and> (\<forall>j. j \<noteq> 16 \<longrightarrow> io_regs s2 j = io_regs ioapic_new j)"
  by (rule ioapic_window_roundtrip [OF ioapic_ok_new]) simp

end
