(* ===== verification/Legacy.thy ===== *)
theory Legacy
  imports Pic
begin

text \<open>
  The small port devices: system port B, the debug console and the POST port
  (\<open>src/src/xbox/misc_io.hpp\<close>), the ACPI registers (\<open>src/src/xbox/acpi.hpp\<close>) and the CMOS clock
  with the edge/level registers (\<open>src/src/xbox/cmos.hpp\<close>).  What the debug console prints is the
  list of characters written so far.
\<close>

section \<open>System port B, POST code, debug console\<close>

record misc_state =
  sysctl :: u8
  post_code :: u8
  sysctl_reads :: u32
  console :: "u8 list"

abbreviation REFRESH_TOGGLE :: u8 where "REFRESH_TOGGLE \<equiv> 0x10"

definition misc_new :: misc_state where
  "misc_new = \<lparr>sysctl = 0x20, post_code = 0, sysctl_reads = 0, console = []\<rparr>"

definition sysctl_read :: "misc_state \<Rightarrow> u32 \<times> misc_state" where
  "sysctl_read s =
     (let s = s\<lparr>sysctl := sysctl s XOR REFRESH_TOGGLE, sysctl_reads := sysctl_reads s + 1\<rparr>
      in (ucast (sysctl s), s))"

definition sysctl_write :: "u32 \<Rightarrow> misc_state \<Rightarrow> misc_state" where
  "sysctl_write val s = s\<lparr>sysctl := (sysctl s AND 0xFC) OR ucast (val AND 0x03)\<rparr>"

definition debug_console_read :: u32 where
  "debug_console_read = 0xE9"

definition debug_console_write :: "u32 \<Rightarrow> misc_state \<Rightarrow> misc_state" where
  "debug_console_write val s = s\<lparr>console := console s @ [ucast (val AND 0xFF)]\<rparr>"

definition post_code_read :: "misc_state \<Rightarrow> u32" where
  "post_code_read s = ucast (post_code s)"

definition post_code_write :: "u32 \<Rightarrow> misc_state \<Rightarrow> misc_state" where
  "post_code_write val s = s\<lparr>post_code := ucast (val AND 0xFF)\<rparr>"

section \<open>ACPI\<close>

record acpi_state =
  acpi_pmtmr :: u32
  pm1a_sts :: u16
  pm1a_en :: u16
  pm1a_cnt :: u16
  gpe0_sts :: u8
  gpe0_en :: u8

definition acpi_new :: acpi_state where
  "acpi_new = \<lparr>acpi_pmtmr = 0, pm1a_sts = 0, pm1a_en = 0, pm1a_cnt = 0, gpe0_sts = 0, gpe0_en = 0\<rparr>"

definition acpi_tick :: "u32 \<Rightarrow> acpi_state \<Rightarrow> acpi_state" where
  "acpi_tick n s = s\<lparr>acpi_pmtmr := acpi_pmtmr s + n\<rparr>"

definition acpi_pm1a_read :: "u16 \<Rightarrow> acpi_state \<Rightarrow> u32" where
  "acpi_pm1a_read port s =
     (if port = 0x8000 then ucast (pm1a_sts s)
      else if port = 0x8001 then ucast (pm1a_en s)
      else 0)"

definition acpi_pm1a_write :: "u16 \<Rightarrow> u32 \<Rightarrow> acpi_state \<Rightarrow> acpi_state" where
  "acpi_pm1a_write port val s =
     (if port = 0x8000 then s\<lparr>pm1a_sts := pm1a_sts s AND NOT (ucast val)\<rparr>
      else if port = 0x8001 then s\<lparr>pm1a_en := ucast val\<rparr>
      else s)"

definition acpi_pmtmr_read :: "acpi_state \<Rightarrow> u32" where
  "acpi_pmtmr_read s = acpi_pmtmr s"

definition acpi_gpe0_read :: "u16 \<Rightarrow> acpi_state \<Rightarrow> u32" where
  "acpi_gpe0_read port s = (if port = 0x80C0 then ucast (gpe0_sts s) else ucast (gpe0_en s))"

definition acpi_gpe0_write :: "u16 \<Rightarrow> u32 \<Rightarrow> acpi_state \<Rightarrow> acpi_state" where
  "acpi_gpe0_write port val s =
     (if port = 0x80C0 then s\<lparr>gpe0_sts := gpe0_sts s AND NOT (ucast val)\<rparr>
      else s\<lparr>gpe0_en := ucast val\<rparr>)"

section \<open>CMOS clock\<close>

record cmos_state =
  selected_reg :: u8
  cmos_regs :: "u8 arr"
  period_ticks :: u32
  tick_counter :: u32
  elcr :: "u8 arr"

definition cmos_zero :: cmos_state where
  "cmos_zero = \<lparr>selected_reg = 0, cmos_regs = (\<lambda>_. 0), period_ticks = 0, tick_counter = 0,
     elcr = (\<lambda>_. 0)\<rparr>"

definition cmos_init :: "cmos_state \<Rightarrow> cmos_state" where
  "cmos_init s = s\<lparr>cmos_regs := (\<lambda>_. 0)(0x0A := 0x26, 0x0B := 0x02, 0x0D := 0x80)\<rparr>"

definition cmos_tick :: "cmos_state \<Rightarrow> bool \<times> cmos_state" where
  "cmos_tick s =
     (if period_ticks s = 0 then (False, s)
      else
        let s = s\<lparr>tick_counter := tick_counter s + 1\<rparr> in
        if tick_counter s \<ge> period_ticks s then
          (True, s\<lparr>tick_counter := 0,
             cmos_regs := (cmos_regs s)(0x0C := (cmos_regs s 0x0C OR 0x40) OR 0x80)\<rparr>)
        else (False, s))"

definition update_period :: "cmos_state \<Rightarrow> cmos_state" where
  "update_period s =
     (let periodic_enabled = cmos_regs s 0x0B AND 0x40 \<noteq> 0;
          rate = cmos_regs s 0x0A AND 0x0F in
      if \<not> periodic_enabled then s\<lparr>period_ticks := 0, tick_counter := 0\<rparr>
      else if rate = 0 then s\<lparr>period_ticks := 0\<rparr>
      else s\<lparr>period_ticks := 8, tick_counter := 0\<rparr>)"

definition cmos_io_read :: "u16 \<Rightarrow> cmos_state \<Rightarrow> u32 \<times> cmos_state" where
  "cmos_io_read port s =
     (if port = 0x70 then (ucast (selected_reg s), s)
      else if port = 0x71 then
        let reg = unat (selected_reg s AND 0x7F); val = cmos_regs s reg in
        (ucast val, if reg = 0x0C then s\<lparr>cmos_regs := (cmos_regs s)(0x0C := 0)\<rparr> else s)
      else (0xFF, s))"

definition cmos_io_write :: "u16 \<Rightarrow> u32 \<Rightarrow> cmos_state \<Rightarrow> cmos_state" where
  "cmos_io_write port val s =
     (if port = 0x70 then s\<lparr>selected_reg := ucast (val AND 0xFF)\<rparr>
      else if port = 0x71 then
        let reg = unat (selected_reg s AND 0x7F);
            s = s\<lparr>cmos_regs := (cmos_regs s)(reg := ucast (val AND 0xFF))\<rparr> in
        if reg = 0x0A \<or> reg = 0x0B then update_period s else s
      else s)"

text \<open>Ports 0x4D0 and 0x4D1; the array has two bytes.\<close>

definition elcr_io_read :: "u16 \<Rightarrow> cmos_state \<Rightarrow> u32 option" where
  "elcr_io_read port s =
     (if port < 0x4D0 then None else map_option ucast (aread 2 (elcr s) (unat port - 0x4D0)))"

definition elcr_io_write :: "u16 \<Rightarrow> u32 \<Rightarrow> cmos_state \<Rightarrow> cmos_state option" where
  "elcr_io_write port val s =
     (if port < 0x4D0 then None
      else map_option (\<lambda>e. s\<lparr>elcr := e\<rparr>)
        (awrite 2 (elcr s) (unat port - 0x4D0) (ucast (val AND 0xFF))))"

section \<open>Lemmas\<close>

text \<open>The index of a CMOS access is inside the 128-byte array.\<close>

lemma cmos_index: "unat (selected_reg s AND 0x7F) < 128"
  using unat_and_mask_less [of "selected_reg s" 7] by (simp add: mask_eq_exp_minus_1)

text \<open>The periodic timer is off, or fires every eighth tick and its counter is below eight.\<close>

definition cmos_ok :: "cmos_state \<Rightarrow> bool" where
  "cmos_ok s \<longleftrightarrow> (period_ticks s = 0 \<or> period_ticks s = 8) \<and> unat (tick_counter s) < 8"

lemma cmos_ok_init [inv_intros]: "cmos_ok (cmos_init cmos_zero)"
  by (simp add: cmos_ok_def cmos_init_def cmos_zero_def)

lemma cmos_ok_update [inv_intros]: "cmos_ok s \<Longrightarrow> cmos_ok (update_period s)"
  by (auto simp: cmos_ok_def update_period_def Let_def)

lemma cmos_ok_regs [inv_intros]: "cmos_ok s \<Longrightarrow> cmos_ok (s\<lparr>cmos_regs := r\<rparr>)"
  by (simp add: cmos_ok_def)

lemma cmos_ok_read [inv_intros]: "cmos_ok s \<Longrightarrow> cmos_ok (snd (cmos_io_read port s))"
  by (auto simp: cmos_io_read_def Let_def intro: cmos_ok_regs)

lemma cmos_ok_write [inv_intros]: "cmos_ok s \<Longrightarrow> cmos_ok (cmos_io_write port val s)"
  by (auto simp: cmos_io_write_def Let_def intro: cmos_ok_regs cmos_ok_update)
    (simp_all add: cmos_ok_def)

lemma cmos_tick_running:
  assumes "period_ticks s = 8" and "unat (tick_counter s) = k" and "k < 8"
  shows "cmos_tick s =
    (if k = 7 then (True, s\<lparr>tick_counter := 0,
       cmos_regs := (cmos_regs s)(0x0C := (cmos_regs s 0x0C OR 0x40) OR 0x80)\<rparr>)
     else (False, s\<lparr>tick_counter := of_nat (Suc k)\<rparr>))"
proof -
  have t: "tick_counter s + 1 = of_nat (Suc k)" using assms(2) by auto
  have "(8 :: u32) \<le> of_nat (Suc k) \<longleftrightarrow> k = 7"
    using assms(3) by (auto simp add: word_le_nat_alt unat_of_nat simp del: of_nat_Suc)
  then show ?thesis
    using assms(1) by (simp add: cmos_tick_def Let_def t del: of_nat_Suc)
qed

lemma cmos_ok_tick [inv_intros]:
  assumes "cmos_ok s"
  shows "cmos_ok (snd (cmos_tick s))"
proof (cases "period_ticks s = 0")
  case True
  with assms show ?thesis by (simp add: cmos_tick_def)
next
  case False
  with assms have p: "period_ticks s = 8" and t: "unat (tick_counter s) < 8"
    by (auto simp: cmos_ok_def)
  have "unat (of_nat (Suc (unat (tick_counter s))) :: u32) = Suc (unat (tick_counter s))"
    using t by (simp add: unat_of_nat del: of_nat_Suc)
  then show ?thesis
    using t by (simp add: cmos_tick_running [OF p refl t] cmos_ok_def p del: of_nat_Suc)
qed


lemma cmos_ticks_running:
  assumes "period_ticks s = 8" and "tick_counter s = 0"
  shows "period_ticks (((\<lambda>s. snd (cmos_tick s)) ^^ n) s) = 8
    \<and> unat (tick_counter (((\<lambda>s. snd (cmos_tick s)) ^^ n) s)) = n mod 8"
proof (induction n)
  case 0
  then show ?case using assms by simp
next
  case (Suc n)
  let ?t = "((\<lambda>s. snd (cmos_tick s)) ^^ n) s"
  have k: "n mod 8 < 8" by simp
  have "Suc n mod 8 = (if n mod 8 = 7 then 0 else Suc (n mod 8))" by (simp add: mod_Suc)
  moreover have "unat (of_nat (Suc (n mod 8)) :: u32) = Suc (n mod 8)"
    by (simp add: unat_of_nat del: of_nat_Suc)
  ultimately show ?case
    using cmos_tick_running [of ?t "n mod 8"] Suc k by (simp del: of_nat_Suc)
qed

section \<open>Properties\<close>

text \<open>Once register B enables the periodic interrupt with a non-zero rate in register A, the
  clock asks for IRQ 8 on every eighth tick and on no other.\<close>
theorem cmos_periodic_rate:
  assumes "selected_reg s AND 0x7F = 0x0B" and "bit v 6" and "cmos_regs s 0x0A AND 0x0F \<noteq> 0"
  shows "fst (cmos_tick (((\<lambda>s. snd (cmos_tick s)) ^^ n) (cmos_io_write 0x71 v s)))
    \<longleftrightarrow> 8 dvd Suc n"
proof -
  let ?s = "cmos_io_write 0x71 v s"
  let ?t = "((\<lambda>s. snd (cmos_tick s)) ^^ n) ?s"
  have "bit (ucast (v AND 0xFF) :: u8) 6"
    using assms(2) by (simp add: and_FF bit_ucast_iff bit_take_bit_iff)
  then have "period_ticks ?s = 8" "tick_counter ?s = 0"
    using assms(1,3) by (simp_all add: cmos_io_write_def update_period_def Let_def tst_64)
  from cmos_ticks_running [OF this, of n]
  have t: "period_ticks ?t = 8" "unat (tick_counter ?t) = n mod 8" by simp_all
  have "fst (cmos_tick ?t) \<longleftrightarrow> n mod 8 = 7"
    using cmos_tick_running [OF t] by simp
  also have "\<dots> \<longleftrightarrow> 8 dvd Suc n" by presburger
  finally show ?thesis .
qed

theorem cmos_periodic_rate_example:
  "fst (cmos_tick (((\<lambda>s. snd (cmos_tick s)) ^^ 15)
     (cmos_io_write 0x71 0x42 (cmos_io_write 0x70 0x0B (cmos_init cmos_zero)))))
   \<longleftrightarrow> 8 dvd Suc 15"
  by (rule cmos_periodic_rate) (simp_all add: cmos_io_write_def cmos_init_def tst_64)

text \<open>The ACPI status registers are write-one-to-clear: after a write of \<open>v\<close> a status bit is
  set exactly if it was set and \<open>v\<close> has it clear; the enable registers hold what is written.\<close>
theorem acpi_write_one_to_clear:
  "(bit (acpi_pm1a_read 0x8000 (acpi_pm1a_write 0x8000 v s)) n
      \<longleftrightarrow> bit (acpi_pm1a_read 0x8000 s) n \<and> \<not> bit v n)
   \<and> (bit (acpi_gpe0_read 0x80C0 (acpi_gpe0_write 0x80C0 v s)) n
      \<longleftrightarrow> bit (acpi_gpe0_read 0x80C0 s) n \<and> \<not> bit v n)
   \<and> acpi_pm1a_read 0x8001 (acpi_pm1a_write 0x8001 v s) = v AND 0xFFFF
   \<and> acpi_gpe0_read 0x80C1 (acpi_gpe0_write 0x80C1 v s) = v AND 0xFF"
  unfolding and_FF and_FFFF
  by (auto intro!: bit_word_eqI simp: acpi_pm1a_read_def acpi_pm1a_write_def acpi_gpe0_read_def
      acpi_gpe0_write_def bit_ucast_iff bit_and_iff bit_not_iff bit_take_bit_iff
      dest: bit_imp_le_length)

end
