(* ===== verification/Pci.thy ===== *)
theory Pci
  imports Prelude
begin

text \<open>
  PCI configuration space (\<open>src/src/xbox/pci.hpp\<close>): the address port 0xCF8, the data ports 0xCFC
  to 0xCFF and the Xbox device table.  \<open>config[bus][dev][fn]\<close> is the 256-byte array of a function.
\<close>

section \<open>State and operations\<close>

abbreviation CFG_VENDOR_ID :: nat where "CFG_VENDOR_ID \<equiv> 0x00"
abbreviation CFG_DEVICE_ID :: nat where "CFG_DEVICE_ID \<equiv> 0x02"
abbreviation CFG_REVISION :: nat where "CFG_REVISION \<equiv> 0x08"
abbreviation CFG_PROG_IF :: nat where "CFG_PROG_IF \<equiv> 0x09"
abbreviation CFG_SUBCLASS :: nat where "CFG_SUBCLASS \<equiv> 0x0A"
abbreviation CFG_CLASS_CODE :: nat where "CFG_CLASS_CODE \<equiv> 0x0B"
abbreviation CFG_HEADER_TYPE :: nat where "CFG_HEADER_TYPE \<equiv> 0x0E"
abbreviation CFG_BAR0 :: nat where "CFG_BAR0 \<equiv> 0x10"
abbreviation CFG_BAR1 :: nat where "CFG_BAR1 \<equiv> 0x14"
abbreviation CFG_BAR4 :: nat where "CFG_BAR4 \<equiv> 0x20"
abbreviation CFG_SUBSYSTEM_VID :: nat where "CFG_SUBSYSTEM_VID \<equiv> 0x2C"
abbreviation CFG_SUBSYSTEM_ID :: nat where "CFG_SUBSYSTEM_ID \<equiv> 0x2E"
abbreviation CFG_INTERRUPT_LINE :: nat where "CFG_INTERRUPT_LINE \<equiv> 0x3C"
abbreviation CFG_INTERRUPT_PIN :: nat where "CFG_INTERRUPT_PIN \<equiv> 0x3D"
abbreviation CFG_PRIMARY_BUS :: nat where "CFG_PRIMARY_BUS \<equiv> 0x18"
abbreviation CFG_SECONDARY_BUS :: nat where "CFG_SECONDARY_BUS \<equiv> 0x19"
abbreviation CFG_SUBORDINATE_BUS :: nat where "CFG_SUBORDINATE_BUS \<equiv> 0x1A"

record pci_state =
  config_address :: u32
  config :: "nat \<Rightarrow> nat \<Rightarrow> nat \<Rightarrow> bytes"

definition pci_zero :: pci_state where
  "pci_zero = \<lparr>config_address = 0, config = (\<lambda>_ _ _ _. 0)\<rparr>"

text \<open>Update of one function's configuration space.\<close>

definition upd_config :: "nat \<Rightarrow> nat \<Rightarrow> nat \<Rightarrow> (bytes \<Rightarrow> bytes) \<Rightarrow> pci_state \<Rightarrow> pci_state" where
  "upd_config bus dev fn f s =
     s\<lparr>config := (config s)(bus := (config s bus)(dev := (config s bus dev)(fn :=
       f (config s bus dev fn))))\<rparr>"

definition set_id ::
  "nat \<Rightarrow> nat \<Rightarrow> nat \<Rightarrow> u16 \<Rightarrow> u16 \<Rightarrow> u8 \<Rightarrow> u8 \<Rightarrow> u8 \<Rightarrow> u8 \<Rightarrow> pci_state \<Rightarrow> pci_state" where
  "set_id bus dev fn vendor device cls subcls progif revision =
     upd_config bus dev fn (\<lambda>c. (st 2 (st 2 c 0x00 (ucast vendor)) 0x02 (ucast device))
       (0x08 := revision, 0x09 := progif, 0x0A := subcls, 0x0B := cls))"

definition set_bar :: "nat \<Rightarrow> nat \<Rightarrow> nat \<Rightarrow> nat \<Rightarrow> u32 \<Rightarrow> pci_state \<Rightarrow> pci_state" where
  "set_bar bus dev fn bar_offset val = upd_config bus dev fn (\<lambda>c. st 4 c bar_offset val)"

definition set_irq :: "nat \<Rightarrow> nat \<Rightarrow> nat \<Rightarrow> u8 \<Rightarrow> u8 \<Rightarrow> pci_state \<Rightarrow> pci_state" where
  "set_irq bus dev fn line pin = upd_config bus dev fn
     (\<lambda>c. c(CFG_INTERRUPT_LINE := line, CFG_INTERRUPT_PIN := pin))"

definition set_subsystem :: "nat \<Rightarrow> nat \<Rightarrow> nat \<Rightarrow> u16 \<Rightarrow> u16 \<Rightarrow> pci_state \<Rightarrow> pci_state" where
  "set_subsystem bus dev fn svid sid = upd_config bus dev fn
     (\<lambda>c. st 2 (st 2 c CFG_SUBSYSTEM_VID (ucast svid)) CFG_SUBSYSTEM_ID (ucast sid))"

definition init_xbox_devices :: "pci_state \<Rightarrow> pci_state" where
  "init_xbox_devices s0 = fold (\<lambda>f. f)
    [set_id 0 0 0 0x10DE 0x02A5 0x06 0x00 0x00 0xB1,
     set_id 0 1 0 0x10DE 0x01B2 0x06 0x01 0x00 0xB1,
     set_id 0 1 1 0x10DE 0x01B4 0x0C 0x05 0x00 0xB1,
     set_bar 0 1 1 CFG_BAR1 0xC001,
     set_irq 0 1 1 11 1,
     set_id 0 2 0 0x10DE 0x02A0 0x03 0x00 0x00 0xA1,
     set_bar 0 2 0 CFG_BAR0 0xFD000000,
     set_irq 0 2 0 3 1,
     set_id 0 3 0 0x10DE 0x01B0 0x04 0x01 0x00 0xB1,
     set_bar 0 3 0 CFG_BAR0 0xFE800000,
     set_irq 0 3 0 5 1,
     set_id 0 4 0 0x10DE 0x01C2 0x0C 0x03 0x10 0xB1,
     set_bar 0 4 0 CFG_BAR0 0xFED00000,
     set_irq 0 4 0 1 1,
     set_id 0 5 0 0x10DE 0x01C2 0x0C 0x03 0x10 0xB1,
     set_bar 0 5 0 CFG_BAR0 0xFED08000,
     set_irq 0 5 0 9 1,
     set_id 0 9 0 0x10DE 0x01BC 0x01 0x01 0x8A 0xB1,
     set_bar 0 9 0 CFG_BAR4 0xFF61,
     set_irq 0 9 0 14 1,
     set_id 0 30 0 0x10DE 0x01B7 0x06 0x04 0x00 0xB1,
     upd_config 0 30 0 (\<lambda>c. c(CFG_HEADER_TYPE := 0x01, CFG_PRIMARY_BUS := 0,
       CFG_SECONDARY_BUS := 1, CFG_SUBORDINATE_BUS := 1)),
     set_id 1 0 0 0x10DE 0x02A0 0x03 0x00 0x00 0xA1,
     set_bar 1 0 0 CFG_BAR0 0xFD000000] s0"

definition pci_io_write_cf8 :: "u32 \<Rightarrow> pci_state \<Rightarrow> pci_state" where
  "pci_io_write_cf8 val s = s\<lparr>config_address := val\<rparr>"

definition pci_io_read_cf8 :: "pci_state \<Rightarrow> u32" where
  "pci_io_read_cf8 s = config_address s"

text \<open>The fields of the address register.\<close>

definition cfg_bus :: "u32 \<Rightarrow> nat" where "cfg_bus a = unat (drop_bit 16 a AND 0xFF)"
definition cfg_dev :: "u32 \<Rightarrow> nat" where "cfg_dev a = unat (drop_bit 11 a AND 0x1F)"
definition cfg_fn :: "u32 \<Rightarrow> nat" where "cfg_fn a = unat (drop_bit 8 a AND 0x07)"

definition cfg_off :: "u32 \<Rightarrow> u16 \<Rightarrow> int" where
  "cfg_off a port = uint (a AND 0xFC) + (uint port - 0xCFC)"

definition pci_io_read_cfc :: "u16 \<Rightarrow> nat \<Rightarrow> pci_state \<Rightarrow> u32 option" where
  "pci_io_read_cfc port n s =
     (let a = config_address s; off = cfg_off a port;
          c = config s (cfg_bus a) (cfg_dev a) (cfg_fn a) in
      if a AND 0x80000000 = 0 then Some 0xFFFFFFFF
      else if cfg_bus a > 1 \<or> cfg_dev a \<ge> 32 \<or> off + int n > 256 then Some 0xFFFFFFFF
      else if ld 2 c CFG_VENDOR_ID = 0 then Some 0xFFFFFFFF
      else if off < 0 then None
      else rd 256 n c (nat off))"

definition pci_io_write_cfc :: "u16 \<Rightarrow> u32 \<Rightarrow> nat \<Rightarrow> pci_state \<Rightarrow> pci_state option" where
  "pci_io_write_cfc port val n s =
     (let a = config_address s; off = cfg_off a port;
          c = config s (cfg_bus a) (cfg_dev a) (cfg_fn a) in
      if a AND 0x80000000 = 0 then Some s
      else if cfg_bus a > 1 \<or> cfg_dev a \<ge> 32 \<or> off + int n > 256 then Some s
      else if off < 0 then None
      else do {
        c' \<leftarrow> wr 256 n c (nat off) val;
        Some (upd_config (cfg_bus a) (cfg_dev a) (cfg_fn a) (\<lambda>_. c') s)
      })"

section \<open>Lemmas\<close>

lemma config_upd [simp]:
  "config (upd_config b d f g s) b' d' f' =
    (if b' = b \<and> d' = d \<and> f' = f then g (config s b d f) else config s b' d' f')"
  by (simp add: upd_config_def)

lemma config_address_upd [simp]: "config_address (upd_config b d f g s) = config_address s"
  by (simp add: upd_config_def)

lemma cfg_dev_less: "cfg_dev a < 32"
  using unat_and_mask_less [of "drop_bit 11 a" 5] by (simp add: cfg_dev_def mask_eq_exp_minus_1)

lemma cfg_fn_less: "cfg_fn a < 8"
  using unat_and_mask_less [of "drop_bit 8 a" 3] by (simp add: cfg_fn_def mask_eq_exp_minus_1)

lemma cfg_off_nonneg: "0xCFC \<le> port \<Longrightarrow> 0 \<le> cfg_off a port"
  by (simp add: cfg_off_def word_le_def)

text \<open>Through the four data ports the configuration arrays are never left.\<close>

lemma pci_cfc_total:
  assumes "0xCFC \<le> port"
  shows "pci_io_read_cfc port n s \<noteq> None" and "pci_io_write_cfc port val n s \<noteq> None"
  using cfg_off_nonneg [OF assms, of "config_address s"]
  by (auto simp: pci_io_read_cfc_def pci_io_write_cfc_def Let_def wr_def rd_def)

text \<open>The function present at an address: its vendor word is not zero.\<close>

definition pci_present :: "nat \<Rightarrow> nat \<Rightarrow> nat \<Rightarrow> pci_state \<Rightarrow> bool" where
  "pci_present b d f s \<longleftrightarrow> ld 2 (config s b d f) CFG_VENDOR_ID \<noteq> 0"

text \<open>The places of the Xbox device table.\<close>

definition xbox_slots :: "(nat \<times> nat \<times> nat) set" where
  "xbox_slots = {(0,0,0), (0,1,0), (0,1,1), (0,2,0), (0,3,0), (0,4,0), (0,5,0), (0,9,0),
     (0,30,0), (1,0,0)}"

lemma ld2_zero [simp]: "ld 2 (\<lambda>_. 0) a = 0"
  by (simp add: numeral_2_eq_2)

lemma ld2_simp: "ld 2 m a = ucast (m a) OR push_bit 8 (ucast (m (Suc a)))"
  by (simp add: numeral_2_eq_2)

lemma st2_simp: "st 2 m a v = m(a := ucast v, Suc a := ucast (drop_bit 8 v))"
  by (simp add: numeral_2_eq_2)

lemma st4_other [simp]: "i < a \<Longrightarrow> st 4 m a v i = m i"
  by simp

lemma pci_table_present:
  "pci_present b d f (init_xbox_devices pci_zero) \<longleftrightarrow> (b, d, f) \<in> xbox_slots"
  unfolding pci_present_def ld2_simp init_xbox_devices_def
  by (simp add: set_id_def set_bar_def set_irq_def pci_zero_def xbox_slots_def st2_simp)

lemma pci_table_vendor:
  "(b, d, f) \<in> xbox_slots \<Longrightarrow> ld 2 (config (init_xbox_devices pci_zero) b d f) 0 = 0x10DE"
  unfolding ld2_simp init_xbox_devices_def
  by (auto simp: set_id_def set_bar_def set_irq_def pci_zero_def xbox_slots_def st2_simp)

lemma xbox_slots_bus: "(b, d, f) \<in> xbox_slots \<Longrightarrow> b \<le> 1"
  by (auto simp: xbox_slots_def)

section \<open>Properties\<close>

text \<open>A configuration read through the data ports returns what the last write of the same
  width to the same address put there, and the write leaves every other function unchanged.\<close>
theorem pci_config_roundtrip:
  assumes "config_address s = a" and "bit a 31" and "cfg_bus a \<le> 1" and "0xCFC \<le> port"
    and "cfg_off a port + int n \<le> 256" and "2 \<le> cfg_off a port" and "n \<le> 4"
    and "pci_present (cfg_bus a) (cfg_dev a) (cfg_fn a) s"
  shows "\<exists>s'. pci_io_write_cfc port val n s = Some s'
    \<and> pci_io_read_cfc port n s' = Some (take_bit (8 * n) val)
    \<and> (\<forall>b d f. (b, d, f) \<noteq> (cfg_bus a, cfg_dev a, cfg_fn a) \<longrightarrow> config s' b d f = config s b d f)"
proof -
  have e: "a AND 0x80000000 \<noteq> 0"
    using assms(2) tst_exp [of a 31] by simp
  let ?c = "config s (cfg_bus a) (cfg_dev a) (cfg_fn a)"
  let ?o = "nat (cfg_off a port)"
  have o: "?o + n \<le> 256" "0 \<le> cfg_off a port" "\<not> cfg_off a port + int n > 256" "2 \<le> ?o"
    using assms(5,6) by auto
  define s' where "s' = upd_config (cfg_bus a) (cfg_dev a) (cfg_fn a) (\<lambda>_. st n ?c ?o val) s"
  have w: "pci_io_write_cfc port val n s = Some s'"
    using assms(3) e o cfg_dev_less [of a]
    by (simp add: pci_io_write_cfc_def Let_def assms(1) s'_def not_le)
  have "ld 2 (st n ?c ?o val) CFG_VENDOR_ID = ld 2 ?c CFG_VENDOR_ID"
    using o(4) by (intro ld_st_disjoint) simp
  then have "pci_io_read_cfc port n s' = Some (take_bit (8 * n) val)"
    using assms(3,7,8) e o cfg_dev_less [of a]
    by (simp add: pci_io_read_cfc_def Let_def assms(1) s'_def pci_present_def not_le ld_st_same)
  then show ?thesis using w by (auto simp: s'_def)
qed

definition pci_demo :: pci_state where
  "pci_demo = pci_io_write_cf8 0x80001010 (init_xbox_devices pci_zero)"

lemma pci_demo_simps:
  "config_address pci_demo = 0x80001010" "config pci_demo = config (init_xbox_devices pci_zero)"
  by (simp_all add: pci_demo_def pci_io_write_cf8_def)

lemma pci_demo_fields:
  "bit (0x80001010 :: u32) 31" "cfg_bus 0x80001010 = 0" "cfg_dev 0x80001010 = 2"
  "cfg_fn 0x80001010 = 0" "cfg_off 0x80001010 0xCFC = 0x10"
  "bit (0x80000900 :: u32) 31" "(0x80000900 :: u32) AND 0xFC = 0"
  by code_simp+

theorem pci_config_roundtrip_witness:
  "\<exists>s'. pci_io_write_cfc 0xCFC 0x12345678 4 pci_demo = Some s'
    \<and> pci_io_read_cfc 0xCFC 4 s' = Some (take_bit (8 * 4) 0x12345678)
    \<and> (\<forall>b d f. (b, d, f) \<noteq> (cfg_bus 0x80001010, cfg_dev 0x80001010, cfg_fn 0x80001010)
         \<longrightarrow> config s' b d f = config pci_demo b d f)"
proof (rule pci_config_roundtrip [OF pci_demo_simps(1)])
  show "pci_present (cfg_bus 0x80001010) (cfg_dev 0x80001010) (cfg_fn 0x80001010) pci_demo"
    using pci_table_present [of 0 2 0]
    unfolding pci_present_def pci_demo_simps pci_demo_fields by (simp add: xbox_slots_def)
qed (simp_all add: pci_demo_fields)

text \<open>Enumerating the bus finds exactly the ten functions of the device table: a read of the
  vendor word of any bus, device and function returns the all-ones word for an absent one, and
  a present function's vendor (0x10DE) otherwise.\<close>
theorem pci_enumerate:
  assumes "bit a 31" and "a AND 0xFC = 0"
  shows "pci_io_read_cfc 0xCFC 2 (pci_io_write_cf8 a (init_xbox_devices pci_zero)) =
    Some (if (cfg_bus a, cfg_dev a, cfg_fn a) \<in> xbox_slots then 0x10DE else 0xFFFFFFFF)"
proof -
  let ?s = "pci_io_write_cf8 a (init_xbox_devices pci_zero)"
  let ?slot = "(cfg_bus a, cfg_dev a, cfg_fn a)"
  have e: "a AND 0x80000000 \<noteq> 0" "cfg_off a 0xCFC = 0" "\<not> 32 \<le> cfg_dev a"
    using assms tst_exp [of a 31] cfg_dev_less [of a] by (simp_all add: cfg_off_def)
  have c: "config_address ?s = a" "config ?s = config (init_xbox_devices pci_zero)"
    by (simp_all add: pci_io_write_cf8_def)
  show ?thesis
  proof (cases "?slot \<in> xbox_slots")
    case True
    then show ?thesis
      using e xbox_slots_bus [OF True] pci_table_vendor [OF True]
      by (simp add: pci_io_read_cfc_def Let_def c)
  next
    case False
    then have "ld 2 (config (init_xbox_devices pci_zero) (cfg_bus a) (cfg_dev a) (cfg_fn a)) 0 = 0"
      using pci_table_present unfolding pci_present_def by blast
    with False e show ?thesis by (simp add: pci_io_read_cfc_def Let_def c)
  qed
qed

theorem pci_enumerate_example:
  "pci_io_read_cfc 0xCFC 2 (pci_io_write_cf8 0x80000900 (init_xbox_devices pci_zero)) =
    Some (if (cfg_bus 0x80000900, cfg_dev 0x80000900, cfg_fn 0x80000900) \<in> xbox_slots
          then 0x10DE else 0xFFFFFFFF)"
  by (rule pci_enumerate) (fact pci_demo_fields)+

end
