(* ===== verification/Usb.thy ===== *)
theory Usb
  imports Prelude
begin

text \<open>
  The OHCI host controllers of \<open>src/src/xbox/usb.hpp\<close>: 64 registers, the frame tick and the MMIO
  callbacks.
\<close>

section \<open>State and operations\<close>

abbreviation OHCI_REVISION :: nat where "OHCI_REVISION \<equiv> 0x00"
abbreviation OHCI_CONTROL :: nat where "OHCI_CONTROL \<equiv> 0x04"
abbreviation OHCI_COMMAND_STATUS :: nat where "OHCI_COMMAND_STATUS \<equiv> 0x08"
abbreviation OHCI_INTERRUPT_STATUS :: nat where "OHCI_INTERRUPT_STATUS \<equiv> 0x0C"
abbreviation OHCI_INTERRUPT_ENABLE :: nat where "OHCI_INTERRUPT_ENABLE \<equiv> 0x10"
abbreviation OHCI_INTERRUPT_DISABLE :: nat where "OHCI_INTERRUPT_DISABLE \<equiv> 0x14"
abbreviation OHCI_FM_INTERVAL :: nat where "OHCI_FM_INTERVAL \<equiv> 0x34"
abbreviation OHCI_FM_REMAINING :: nat where "OHCI_FM_REMAINING \<equiv> 0x38"
abbreviation OHCI_FM_NUMBER :: nat where "OHCI_FM_NUMBER \<equiv> 0x3C"
abbreviation OHCI_RH_DESCRIPTOR_A :: nat where "OHCI_RH_DESCRIPTOR_A \<equiv> 0x48"
abbreviation OHCI_RH_STATUS :: nat where "OHCI_RH_STATUS \<equiv> 0x50"
abbreviation OHCI_RH_PORT_STATUS0 :: nat where "OHCI_RH_PORT_STATUS0 \<equiv> 0x54"
abbreviation CTRL_HCFS_MASK :: u32 where "CTRL_HCFS_MASK \<equiv> 0xC0"
abbreviation CTRL_HCFS_OPER :: u32 where "CTRL_HCFS_OPER \<equiv> 0x80"
abbreviation OHCI_INTR_SF :: u32 where "OHCI_INTR_SF \<equiv> 0x00000004"
abbreviation OHCI_INTR_FNO :: u32 where "OHCI_INTR_FNO \<equiv> 0x00000020"
abbreviation FM_INTERVAL_DEFAULT :: u32 where "FM_INTERVAL_DEFAULT \<equiv> 0x27782EDF"
abbreviation FM_REMAINING_MIDFRAME :: u32 where "FM_REMAINING_MIDFRAME \<equiv> 0x2710"
abbreviation PORT_STATUS_W_MASK :: u32 where "PORT_STATUS_W_MASK \<equiv> 0x001F0000"

record ohci_state =
  ohci_regs :: "u32 arr"
  num_ports :: u32
  frame_counter :: u32

definition ohci_zero :: ohci_state where
  "ohci_zero = \<lparr>ohci_regs = (\<lambda>_. 0), num_ports = 2, frame_counter = 0\<rparr>"

definition ohci_init :: "u32 \<Rightarrow> ohci_state \<Rightarrow> ohci_state" where
  "ohci_init ports s =
     \<lparr>ohci_regs = (\<lambda>_. 0)(OHCI_REVISION div 4 := 0x110, OHCI_CONTROL div 4 := 0,
        OHCI_FM_INTERVAL div 4 := FM_INTERVAL_DEFAULT,
        OHCI_RH_DESCRIPTOR_A div 4 := ports AND 0xFF),
      num_ports = ports, frame_counter = 0\<rparr>"

definition tick_frame :: "ohci_state \<Rightarrow> ohci_state" where
  "tick_frame s =
     (let ctrl = ohci_regs s (OHCI_CONTROL div 4) in
      if ctrl AND CTRL_HCFS_MASK \<noteq> CTRL_HCFS_OPER then s
      else
        let old_fn = ohci_regs s (OHCI_FM_NUMBER div 4);
            fn = (old_fn + 1) AND 0xFFFF;
            r = (ohci_regs s)(OHCI_FM_NUMBER div 4 := fn);
            i = OHCI_INTERRUPT_STATUS div 4;
            r = (if (old_fn XOR fn) AND 0x8000 \<noteq> 0 then r(i := r i OR OHCI_INTR_FNO) else r);
            r = r(i := r i OR OHCI_INTR_SF)
        in s\<lparr>ohci_regs := r, frame_counter := frame_counter s + 1\<rparr>)"

definition ohci_read :: "u32 \<Rightarrow> ohci_state \<Rightarrow> u32" where
  "ohci_read pa s =
     (let off = unat (pa AND 0xFFF) in
      if off \<ge> 256 then 0
      else if off = OHCI_FM_REMAINING then FM_REMAINING_MIDFRAME
      else ohci_regs s (off div 4))"

definition ohci_write :: "u32 \<Rightarrow> u32 \<Rightarrow> ohci_state \<Rightarrow> ohci_state" where
  "ohci_write pa val s =
     (let off = unat (pa AND 0xFFF); i = off div 4;
          upd = (\<lambda>j v s. s\<lparr>ohci_regs := (ohci_regs s)(j := v)\<rparr>) in
      if off \<ge> 256 then s
      else if off = OHCI_COMMAND_STATUS then
        let s = (if val AND 1 \<noteq> 0 then ohci_init (num_ports s) s else s)
        in upd i (ohci_regs s i OR (val AND NOT 1)) s
      else if off = OHCI_INTERRUPT_STATUS then upd i (ohci_regs s i AND NOT val) s
      else if off = OHCI_INTERRUPT_DISABLE then
        upd (OHCI_INTERRUPT_ENABLE div 4) (ohci_regs s (OHCI_INTERRUPT_ENABLE div 4) AND NOT val) s
      else if off = OHCI_INTERRUPT_ENABLE then upd i (ohci_regs s i OR val) s
      else if off = OHCI_RH_STATUS then upd i val s
      else if OHCI_RH_PORT_STATUS0 \<le> off \<and>
              of_nat off < of_nat OHCI_RH_PORT_STATUS0 + num_ports s * 4 then
        upd i (val AND PORT_STATUS_W_MASK) s
      else upd i val s)"

section \<open>Lemmas\<close>

definition operational :: "ohci_state \<Rightarrow> bool" where
  "operational s \<longleftrightarrow> ohci_regs s (OHCI_CONTROL div 4) AND CTRL_HCFS_MASK = CTRL_HCFS_OPER"

definition frame_number :: "ohci_state \<Rightarrow> nat" where
  "frame_number s = unat (ohci_regs s (OHCI_FM_NUMBER div 4))"

definition intr_status :: "ohci_state \<Rightarrow> u32" where
  "intr_status s = ohci_regs s (OHCI_INTERRUPT_STATUS div 4)"

lemma tick_frame_idle: "\<not> operational s \<Longrightarrow> tick_frame s = s"
  by (simp add: tick_frame_def operational_def)

lemma frame_succ:
  assumes "unat (w :: u32) < 65536"
  shows "unat ((w + 1) AND 0xFFFF) = Suc (unat w) mod 65536"
proof -
  have "unat (w + 1) = Suc (unat w)"
    using assms by (simp add: unat_word_ariths)
  then show ?thesis
    using unat_and_mask [of "w + 1" 16] by (simp add: mask_eq_exp_minus_1)
qed

lemma bit_unat: "bit w n = odd (unat w div 2 ^ n)" for w :: "'a::len word"
proof -
  have "bit (unat w) n = bit w n" by (simp add: bit_unsigned_iff)
  then show ?thesis by (simp add: bit_iff_odd [of "unat w"])
qed

lemma odd_div_15: "a < 65536 \<Longrightarrow> odd (a div 32768) \<longleftrightarrow> 32768 \<le> (a :: nat)"
  by (cases "a < 32768") (simp_all add: le_div_geq not_less)

lemma mod_15: "a < 65536 \<Longrightarrow> (a :: nat) mod 32768 = (if a < 32768 then a else a - 32768)"
  by (cases "a < 32768") (simp_all add: le_mod_geq not_less)

lemma bit15_step:
  assumes "(a :: nat) < 65536"
  shows "odd (a div 32768) \<noteq> odd (Suc a mod 65536 div 32768) \<longleftrightarrow> a mod 32768 = 32767"
proof -
  have "Suc a mod 65536 = (if a = 65535 then 0 else Suc a)" using assms by simp
  moreover have "a \<noteq> 65535 \<Longrightarrow> Suc a < 65536" using assms by simp
  ultimately show ?thesis
    using assms odd_div_15 [of "Suc a"] by (auto simp: odd_div_15 mod_15)
qed

lemma frame_bit15:
  assumes "unat (w :: u32) < 65536"
  shows "(w XOR ((w + 1) AND 0xFFFF)) AND 0x8000 \<noteq> 0 \<longleftrightarrow> unat w mod 32768 = 32767"
proof -
  have "bit w 15 \<noteq> bit ((w + 1) AND 0xFFFF) 15 \<longleftrightarrow>
      odd (unat w div 32768) \<noteq> odd (Suc (unat w) mod 65536 div 32768)"
    by (simp add: bit_unat frame_succ [OF assms])
  also have "\<dots> \<longleftrightarrow> unat w mod 32768 = 32767"
    using assms by (rule bit15_step)
  finally show ?thesis
    using tst_exp [of "w XOR ((w + 1) AND 0xFFFF)" 15] by (simp add: bit_xor_iff)
qed

lemma tick_frame_step:
  assumes "operational s" and "frame_number s < 65536"
  shows "operational (tick_frame s)"
    and "frame_number (tick_frame s) = Suc (frame_number s) mod 65536"
    and "bit (intr_status (tick_frame s)) 5 \<longleftrightarrow>
      bit (intr_status s) 5 \<or> frame_number s mod 32768 = 32767"
    and "bit (intr_status (tick_frame s)) 2"
  using assms frame_bit15 [of "ohci_regs s (OHCI_FM_NUMBER div 4)"]
    frame_succ [of "ohci_regs s (OHCI_FM_NUMBER div 4)"]
    bit_numeral_word_iff [where 'a = 32]
  by (simp_all add: tick_frame_def operational_def frame_number_def intr_status_def Let_def
      bit_or_iff)

section \<open>Properties\<close>

text \<open>While the controller is operational, \<open>n\<close> frame ticks advance the frame number by \<open>n\<close>
  modulo 65536, and the frame-number-overflow interrupt is pending afterwards exactly if it was
  before or bit 15 of the frame number has changed in between.\<close>
theorem ohci_frame_overflow:
  assumes "operational s" and "frame_number s < 65536"
  shows "operational ((tick_frame ^^ n) s)
    \<and> frame_number ((tick_frame ^^ n) s) = (frame_number s + n) mod 65536
    \<and> (bit (intr_status ((tick_frame ^^ n) s)) 5 \<longleftrightarrow>
         bit (intr_status s) 5 \<or> n \<ge> 32768 - frame_number s mod 32768)"
proof (induction n)
  case 0
  have "\<not> 32768 \<le> frame_number s mod 32768" by (simp add: not_le)
  then show ?case using assms by simp
next
  case (Suc n)
  let ?t = "(tick_frame ^^ n) s"
  have f: "frame_number ?t < 65536" "operational ?t" using Suc by simp_all
  have m: "frame_number ?t mod 32768 = (frame_number s mod 32768 + n) mod 32768"
    using Suc by (simp add: mod_mod_cancel mod_add_left_eq)
  have "Suc (frame_number ?t) mod 65536 = (frame_number s + Suc n) mod 65536"
    using Suc by (simp add: mod_Suc_eq)
  moreover have "bit (intr_status ?t) 5 \<or> frame_number ?t mod 32768 = 32767 \<longleftrightarrow>
      bit (intr_status s) 5 \<or> Suc n \<ge> 32768 - frame_number s mod 32768"
    using Suc mod_less_divisor [of 32768 "frame_number s"] unfolding m by (auto simp: mod_Suc)
  ultimately show ?case
    using tick_frame_step [OF f(2,1)] by simp
qed

definition ohci_demo :: ohci_state where
  "ohci_demo = ohci_write 0x3C 0x7FFE (ohci_write 0x04 0x80 (ohci_init 2 ohci_zero))"

lemma ohci_demo_fields: "operational ohci_demo" "frame_number ohci_demo < 65536"
  by (simp_all add: ohci_demo_def operational_def frame_number_def ohci_write_def ohci_init_def)

theorem ohci_frame_overflow_example:
  "operational ((tick_frame ^^ 2) ohci_demo)
    \<and> frame_number ((tick_frame ^^ 2) ohci_demo) = (frame_number ohci_demo + 2) mod 65536
    \<and> (bit (intr_status ((tick_frame ^^ 2) ohci_demo)) 5 \<longleftrightarrow>
         bit (intr_status ohci_demo) 5 \<or> 2 \<ge> 32768 - frame_number ohci_demo mod 32768)"
  by (rule ohci_frame_overflow [OF ohci_demo_fields])

end
