(* ===== verification/Flash.thy ===== *)
theory Flash
  imports Address_Map
begin

text \<open>
  The flash ROM and the hidden boot ROM (\<open>src/src/xbox/flash.hpp\<close>): the 1 MB array, the command
  state machine (read array, ID, status, program, erase) and the file loaders.  A file is its
  list of bytes, or \<open>None\<close> when it cannot be opened; short reads are not modelled.
\<close>

section \<open>State and operations\<close>

abbreviation FLASH_READ_ARRAY :: u8 where "FLASH_READ_ARRAY \<equiv> 0xFF"
abbreviation FLASH_READ_ID :: u8 where "FLASH_READ_ID \<equiv> 0x90"
abbreviation FLASH_READ_STATUS :: u8 where "FLASH_READ_STATUS \<equiv> 0x70"
abbreviation FLASH_CLEAR_STATUS :: u8 where "FLASH_CLEAR_STATUS \<equiv> 0x50"
abbreviation FLASH_BYTE_PROGRAM :: u8 where "FLASH_BYTE_PROGRAM \<equiv> 0x40"
abbreviation FLASH_ERASE_SETUP :: u8 where "FLASH_ERASE_SETUP \<equiv> 0x20"
abbreviation FLASH_ERASE_CONFIRM :: u8 where "FLASH_ERASE_CONFIRM \<equiv> 0xD0"
abbreviation SR_READY :: u8 where "SR_READY \<equiv> 0x80"
abbreviation MFG_SST :: u8 where "MFG_SST \<equiv> 0xBF"
abbreviation DEV_SST49LF040 :: u8 where "DEV_SST49LF040 \<equiv> 0x52"
abbreviation MCPX_ROM_SIZE :: nat where "MCPX_ROM_SIZE \<equiv> 512"
abbreviation FLASH_BYTES :: nat where "FLASH_BYTES \<equiv> 0x100000"

record flash_state =
  data :: bytes
  mcpx_rom :: bytes
  mcpx_loaded :: bool
  flash_mode :: u8
  status_reg :: u8

definition flash_new :: flash_state where
  "flash_new = \<lparr>data = (\<lambda>_. 0xFF), mcpx_rom = (\<lambda>_. 0xFF), mcpx_loaded = False,
     flash_mode = 0, status_reg = SR_READY\<rparr>"

definition load_bios :: "u8 list option \<Rightarrow> flash_state \<Rightarrow> bool \<times> flash_state" where
  "load_bios file s =
     (case file of
        None \<Rightarrow> (False, s)
      | Some bs \<Rightarrow>
          if length bs = 256 * 1024 then
            let d = put_list bs (data s) 0;
                d = copy_bytes 0x40000 d 0 d 0x40000;
                d = copy_bytes 0x40000 d 0 d 0x80000;
                d = copy_bytes 0x40000 d 0 d 0xC0000
            in (True, s\<lparr>data := d\<rparr>)
          else if length bs = FLASH_BYTES then (True, s\<lparr>data := put_list bs (data s) 0\<rparr>)
          else (False, s))"

definition load_mcpx :: "u8 list option \<Rightarrow> flash_state \<Rightarrow> bool \<times> flash_state" where
  "load_mcpx file s =
     (case file of
        None \<Rightarrow> (False, s)
      | Some bs \<Rightarrow>
          if length bs \<noteq> MCPX_ROM_SIZE then (False, s)
          else (True, s\<lparr>mcpx_rom := put_list bs (mcpx_rom s) 0, mcpx_loaded := True\<rparr>))"

definition flash_off :: "u32 \<Rightarrow> nat" where
  "flash_off pa = unat ((pa - FLASH_BASE) AND (FLASH_SIZE - 1))"

definition flash_read :: "u32 \<Rightarrow> nat \<Rightarrow> flash_state \<Rightarrow> u32 option" where
  "flash_read pa n s =
     (let off = unat (pa - 0xFFFFFE00) in
      if mcpx_loaded s \<and> pa \<ge> 0xFFFFFE00 \<and> off + n \<le> MCPX_ROM_SIZE then
        rd MCPX_ROM_SIZE n (mcpx_rom s) off
      else if flash_mode s = 2 then Some (ucast (status_reg s))
      else if flash_mode s = 1 then
        let low = (pa - FLASH_BASE) AND (FLASH_SIZE - 1) AND 0xFFFF in
        Some (if low = 0 then ucast MFG_SST else if low = 1 then ucast DEV_SST49LF040 else 0)
      else rd FLASH_BYTES n (data s) (flash_off pa))"

definition flash_write :: "u32 \<Rightarrow> u32 \<Rightarrow> flash_state \<Rightarrow> flash_state" where
  "flash_write pa val s =
     (let cmd = ucast val; off = flash_off pa in
      if flash_mode s = 3 then
        s\<lparr>data := (if off < FLASH_BYTES then (data s)(off := data s off AND cmd) else data s),
          status_reg := SR_READY, flash_mode := 0\<rparr>
      else if flash_mode s = 4 then
        if cmd = FLASH_ERASE_CONFIRM then
          let sector_base = (off div 0x1000) * 0x1000; sector_end = sector_base + 0x1000 in
          s\<lparr>data := (if sector_end \<le> FLASH_BYTES then fill_bytes 0x1000 0xFF (data s) sector_base
                     else data s),
            status_reg := SR_READY, flash_mode := 0\<rparr>
        else s\<lparr>flash_mode := 0\<rparr>
      else if cmd = FLASH_READ_ARRAY then s\<lparr>flash_mode := 0\<rparr>
      else if cmd = FLASH_READ_ID then s\<lparr>flash_mode := 1\<rparr>
      else if cmd = FLASH_READ_STATUS then s\<lparr>flash_mode := 2\<rparr>
      else if cmd = FLASH_CLEAR_STATUS then s\<lparr>status_reg := SR_READY, flash_mode := 0\<rparr>
      else if cmd = FLASH_BYTE_PROGRAM then s\<lparr>flash_mode := 3\<rparr>
      else if cmd = FLASH_ERASE_SETUP then s\<lparr>flash_mode := 4\<rparr>
      else s)"

section \<open>Lemmas\<close>

lemma flash_off_eq: "flash_off pa = unat (pa - FLASH_BASE) mod 0x100000"
  using unat_and_mask [of "pa - FLASH_BASE" 20]
  by (simp add: flash_off_def mask_eq_exp_minus_1)

lemma flash_off_less: "flash_off pa < 0x100000"
  by (simp add: flash_off_eq)

text \<open>The BIOS alias at 0xFF000000 reaches the same byte: the two bases agree modulo 1 MB.\<close>

lemma unat_add_mult: "unat (x + 0x100000 * k) mod 0x100000 = unat (x :: u32) mod 0x100000"
proof -
  have "unat (x + 0x100000 * k) mod 0x100000 = (unat x + 0x100000 * unat k) mod 0x100000"
    by (simp add: unat_word_ariths mod_mod_cancel mod_add_right_eq
        del: mod_mult_self1 mod_mult_self2 mod_mult_self3 mod_mult_self4)
  then show ?thesis by simp
qed

lemma flash_off_add: "flash_off (pa + 0x100000 * k) = flash_off pa"
  using unat_add_mult [of "pa - FLASH_BASE" k] by (simp add: flash_off_eq diff_add_eq)

lemma flash_off_mod: "flash_off pa = unat pa mod 0x100000"
  using unat_add_mult [of "pa - FLASH_BASE" "0xF00"] by (simp add: flash_off_eq)

text \<open>The mode register of the command interface names one of its five modes.\<close>

definition flash_ok :: "flash_state \<Rightarrow> bool" where
  "flash_ok s \<longleftrightarrow> flash_mode s \<le> 4"

lemma flash_ok_new [inv_intros]: "flash_ok flash_new"
  by (simp add: flash_ok_def flash_new_def)

lemma flash_ok_write [inv_intros]: "flash_ok s \<Longrightarrow> flash_ok (flash_write pa v s)"
  by (auto simp: flash_ok_def flash_write_def Let_def)

lemma sector_in:
  assumes "off < 0x100000"
  shows "off div 0x1000 * 0x1000 + 0x1000 \<le> (0x100000 :: nat)"
proof -
  have "off div 0x1000 < 0x100" using assms by (simp add: div_less_iff_less_mult)
  then show ?thesis by linarith
qed

lemma sector_iff:
  "off div 0x1000 * 0x1000 \<le> i \<and> i < off div 0x1000 * 0x1000 + 0x1000
    \<longleftrightarrow> i div 0x1000 = off div (0x1000 :: nat)"
proof
  assume h: "off div 0x1000 * 0x1000 \<le> i \<and> i < off div 0x1000 * 0x1000 + 0x1000"
  then show "i div 0x1000 = off div 0x1000" by (intro div_nat_eqI) simp_all
next
  assume "i div 0x1000 = off div (0x1000 :: nat)"
  then show "off div 0x1000 * 0x1000 \<le> i \<and> i < off div 0x1000 * 0x1000 + 0x1000"
    using div_mult_mod_eq [of i "0x1000"] mod_less_divisor [of "0x1000" i] by linarith
qed

section \<open>Properties\<close>

text \<open>The byte-program sequence at any address changes one byte, to the bitwise and of what
  it held and the data written, and returns to read mode; the sector-erase sequence sets the
  4 KB sector of the address to 0xFF and changes no other byte.\<close>
theorem flash_program_erase:
  assumes "flash_mode s < 3"
  shows "flash_mode (flash_write pa v (flash_write pb 0x40 s)) = 0
    \<and> data (flash_write pa v (flash_write pb 0x40 s)) =
        (data s)(flash_off pa := data s (flash_off pa) AND ucast v)
    \<and> flash_mode (flash_write pa 0xD0 (flash_write pb 0x20 s)) = 0
    \<and> data (flash_write pa 0xD0 (flash_write pb 0x20 s)) =
        (\<lambda>i. if i div 0x1000 = flash_off pa div 0x1000 then 0xFF else data s i)"
proof -
  have m: "flash_mode s \<noteq> 3" "flash_mode s \<noteq> 4" using assms by auto
  have p: "flash_write pb 0x40 s = s\<lparr>flash_mode := 3\<rparr>" "flash_write pb 0x20 s = s\<lparr>flash_mode := 4\<rparr>"
    using m by (simp_all add: flash_write_def)
  show ?thesis
    unfolding p using flash_off_less [of pa] sector_in [OF flash_off_less [of pa]]
    by (simp add: flash_write_def Let_def fill_bytes_def sector_iff)
qed

theorem flash_program_erase_witness:
  "flash_mode (flash_write 0xFF000123 0x5A (flash_write 0 0x40 flash_new)) = 0
    \<and> data (flash_write 0xFF000123 0x5A (flash_write 0 0x40 flash_new)) =
        (data flash_new)(flash_off 0xFF000123 := data flash_new (flash_off 0xFF000123) AND ucast (0x5A :: u32))
    \<and> flash_mode (flash_write 0xFF000123 0xD0 (flash_write 0 0x20 flash_new)) = 0
    \<and> data (flash_write 0xFF000123 0xD0 (flash_write 0 0x20 flash_new)) =
        (\<lambda>i. if i div 0x1000 = flash_off 0xFF000123 div 0x1000 then 0xFF else data flash_new i)"
  by (rule flash_program_erase) (simp add: flash_new_def)

text \<open>A 256 KB image fills the array four times over.\<close>

lemma quarter:
  assumes "i < (0x100000 :: nat)"
  obtains r where "r < 0x40000" "i mod 0x40000 = r"
    "i = r \<or> i = 0x40000 + r \<or> i = 0x80000 + r \<or> i = 0xC0000 + r"
proof (rule that)
  show "i mod 0x40000 < 0x40000" by simp
  have "i div 0x40000 < 4" using assms by (simp add: div_less_iff_less_mult)
  then have "i div 0x40000 = 0 \<or> i div 0x40000 = 1 \<or> i div 0x40000 = 2 \<or> i div 0x40000 = 3"
    by linarith
  then show "i = i mod 0x40000 \<or> i = 0x40000 + i mod 0x40000 \<or> i = 0x80000 + i mod 0x40000
      \<or> i = 0xC0000 + i mod 0x40000"
    using div_mult_mod_eq [of i "0x40000"] by linarith
qed (rule refl)

definition four_copies :: "bytes \<Rightarrow> bytes" where
  "four_copies d =
     (let d = copy_bytes 0x40000 d 0 d 0x40000;
          d = copy_bytes 0x40000 d 0 d 0x80000
      in copy_bytes 0x40000 d 0 d 0xC0000)"

lemma four_copies_mod:
  assumes "i < 0x100000"
  shows "four_copies d i = d (i mod 0x40000)"
proof -
  from assms obtain r where r: "r < 0x40000" and m: "i mod 0x40000 = r"
    and i: "i = r \<or> i = 0x40000 + r \<or> i = 0x80000 + r \<or> i = 0xC0000 + r"
    by (rule quarter)
  from i have "four_copies d i = d r"
    using r by (elim disjE) (simp_all add: four_copies_def copy_bytes_def)
  then show ?thesis by (simp only: m)
qed

lemma load_bios_mirror:
  assumes "length bs = 256 * 1024" and "i < FLASH_BYTES"
  shows "data (snd (load_bios (Some bs) s)) i = bs ! (i mod 0x40000)"
proof -
  have "data (snd (load_bios (Some bs) s)) = four_copies (put_list bs (data s) 0)"
    using assms(1) by (simp add: load_bios_def four_copies_def Let_def)
  moreover have "i mod 0x40000 < length bs" using assms(1) by simp
  ultimately show ?thesis
    by (simp only: four_copies_mod [OF assms(2)] put_list_apply) simp
qed

text \<open>After loading a 256 KB BIOS image, a byte read at any address of the flash window or of
  its alias below 4 GB, with the command interface in read mode and no boot ROM loaded, returns
  the byte of the image at the address modulo 256 KB.\<close>
theorem bios_image_visible:
  assumes "length bs = 256 * 1024" and "flash_mode s = 0" and "\<not> mcpx_loaded s"
  shows "flash_read pa 1 (snd (load_bios (Some bs) s)) =
    Some (ucast (bs ! (unat (pa AND 0x3FFFF))))"
proof -
  have "unat (pa AND 0x3FFFF) = flash_off pa mod 0x40000"
    using unat_and_mask [of pa 18]
    by (simp add: flash_off_mod mask_eq_exp_minus_1 mod_mod_cancel)
  then show ?thesis
    using assms flash_off_less [of pa] load_bios_mirror [OF assms(1), of "flash_off pa" s]
    by (simp add: flash_read_def Let_def load_bios_def)
qed

theorem bios_image_visible_witness:
  "flash_read 0xFFFFFFF0 1 (snd (load_bios (Some (replicate (256 * 1024) 0xEA)) flash_new)) =
    Some (ucast (replicate (256 * 1024) (0xEA :: u8) ! (unat ((0xFFFFFFF0 :: u32) AND 0x3FFFF))))"
  by (rule bios_image_visible) (simp_all only: length_replicate, simp_all add: flash_new_def)

end
