(* ===== verification/Smbus.thy ===== *)
theory Smbus
  imports Pic
begin

text \<open>
  The SMBus controller (\<open>src/src/xbox/smbus.hpp\<close>): sixteen byte registers, the 256-byte EEPROM, the
  block-transfer FIFO and the system management controller behind it.  A transaction raises
  IRQ 11 of the pair of \<open>Pic\<close> (the code's \<open>pic\<close> pointer, never null once set up).
\<close>

section \<open>State and operations\<close>

abbreviation SMB_STATUS :: nat where "SMB_STATUS \<equiv> 0x00"
abbreviation SMB_CONTROL :: nat where "SMB_CONTROL \<equiv> 0x02"
abbreviation SMB_ADDRESS :: nat where "SMB_ADDRESS \<equiv> 0x04"
abbreviation SMB_DATA :: nat where "SMB_DATA \<equiv> 0x06"
abbreviation SMB_COMMAND :: nat where "SMB_COMMAND \<equiv> 0x08"
abbreviation SMB_FIFO :: nat where "SMB_FIFO \<equiv> 0x09"
abbreviation STAT_DONE :: u8 where "STAT_DONE \<equiv> 0x10"
abbreviation GE_RW_BLOCK :: u8 where "GE_RW_BLOCK \<equiv> 5"
abbreviation PROTO_MASK :: u8 where "PROTO_MASK \<equiv> 0x07"
abbreviation SMB_IRQ :: nat where "SMB_IRQ \<equiv> 11"
abbreviation DEV_SMC :: u8 where "DEV_SMC \<equiv> 0x10"
abbreviation DEV_EEPROM :: u8 where "DEV_EEPROM \<equiv> 0x54"
abbreviation DEV_VIDENC_TV :: u8 where "DEV_VIDENC_TV \<equiv> 0x45"
abbreviation DEV_VIDENC_XC :: u8 where "DEV_VIDENC_XC \<equiv> 0x6A"

record smbus_state =
  smb_regs :: bytes
  eeprom :: bytes
  fifo :: bytes
  fifo_pos :: nat
  fifo_len :: nat
  smc_fan_mode :: u8
  smc_fan_speed :: u8
  smc_led_mode :: u8
  smc_led_states :: u8
  smc_scratch :: u8
  smc_reset_eject :: u8

definition init_eeprom :: bytes where
  "init_eeprom = (put_list [0x30, 0x30, 0x30, 0x30, 0x30, 0x30, 0x30, 0x30, 0x30, 0x30, 0x30, 0x30]
      ((\<lambda>_. 0)(0x2C := 0x01)) 0x34)
     (0x40 := 0x00, 0x41 := 0x50, 0x42 := 0xF2, 0x43 := 0x00, 0x44 := 0x00, 0x45 := 0x01,
      0x58 := 0x00, 0x59 := 0x01, 0x5A := 0x40, 0x5B := 0x00,
      0x4C := 0x00, 0x4D := 0x01, 0x4E := 0x80, 0x4F := 0x00,
      0x50 := 0x00, 0x54 := 0x01, 0xE8 := 0x01,
      0xEC := 0x00, 0xED := 0x00, 0xEE := 0x00, 0xEF := 0x00, 0xFC := 0x01)"

definition smbus_new :: smbus_state where
  "smbus_new = \<lparr>smb_regs = (\<lambda>_. 0), eeprom = init_eeprom, fifo = (\<lambda>_. 0), fifo_pos = 0,
     fifo_len = 0, smc_fan_mode = 0, smc_fan_speed = 20, smc_led_mode = 0, smc_led_states = 0x01,
     smc_scratch = 0, smc_reset_eject = 0\<rparr>"

definition smbus_io_read :: "u16 \<Rightarrow> smbus_state \<Rightarrow> u32 \<times> smbus_state" where
  "smbus_io_read port s =
     (let r = unat (port AND 0xF) in
      if r = SMB_FIFO then
        if fifo_pos s < fifo_len s then
          (ucast (fifo s (fifo_pos s)), s\<lparr>fifo_pos := fifo_pos s + 1\<rparr>)
        else (0, s)
      else (ucast (smb_regs s r), s))"

definition set_data :: "u8 \<Rightarrow> smbus_state \<Rightarrow> smbus_state" where
  "set_data v s = s\<lparr>smb_regs := (smb_regs s)(SMB_DATA := v)\<rparr>"

text \<open>The EEPROM at address 0x54: block read into the FIFO, byte read and write.\<close>

definition smb_eeprom :: "bool \<Rightarrow> u8 \<Rightarrow> u8 \<Rightarrow> smbus_state \<Rightarrow> smbus_state" where
  "smb_eeprom is_read cmd proto s =
     (if proto = GE_RW_BLOCK then
        let len = unat (smb_regs s SMB_DATA); block_len = (if len > 32 then 32 else len) in
        if is_read then
          s\<lparr>fifo_pos := 0, fifo_len := block_len,
            fifo := (\<lambda>i. if i < block_len
              then (if unat cmd + i < 256 then eeprom s (unat cmd + i) else 0) else fifo s i)\<rparr>
        else s
      else if is_read then set_data (eeprom s (unat cmd)) s
      else s\<lparr>eeprom := (eeprom s)(unat cmd := smb_regs s SMB_DATA)\<rparr>)"

text \<open>The system management controller at address 0x10.\<close>

definition smc_read :: "u8 \<Rightarrow> smbus_state \<Rightarrow> u8" where
  "smc_read cmd s =
     (if cmd = 0x01 then 0xD0
      else if cmd = 0x03 then 0x60
      else if cmd = 0x04 then 0x07
      else if cmd = 0x06 then smc_fan_speed s
      else if cmd = 0x09 then 40
      else if cmd = 0x0A then 35
      else if cmd = 0x0E then smc_scratch s
      else if cmd = 0x0F then 0x05
      else 0)"

definition smc_write :: "u8 \<Rightarrow> u8 \<Rightarrow> smbus_state \<Rightarrow> smbus_state" where
  "smc_write cmd v s =
     (if cmd = 0x05 then s\<lparr>smc_fan_mode := v\<rparr>
      else if cmd = 0x06 then s\<lparr>smc_fan_speed := v\<rparr>
      else if cmd = 0x07 then s\<lparr>smc_led_mode := v\<rparr>
      else if cmd = 0x08 then s\<lparr>smc_led_states := v\<rparr>
      else if cmd = 0x0E then s\<lparr>smc_scratch := v\<rparr>
      else if cmd = 0x19 then s\<lparr>smc_reset_eject := v\<rparr>
      else s)"

text \<open>A write of the control register runs the transaction the other registers describe.\<close>

definition smb_transact :: "u32 \<Rightarrow> smbus_state \<Rightarrow> smbus_state" where
  "smb_transact val s0 =
     (let r = (smb_regs s0)(SMB_CONTROL := ucast val);
          s = s0\<lparr>smb_regs := r(SMB_STATUS := r SMB_STATUS OR STAT_DONE)\<rparr>;
          dev_addr = drop_bit 1 (smb_regs s SMB_ADDRESS);
          is_read = (smb_regs s SMB_ADDRESS AND 1 \<noteq> 0);
          cmd = smb_regs s SMB_COMMAND;
          proto = ucast val AND PROTO_MASK in
      if dev_addr = DEV_EEPROM then smb_eeprom is_read cmd proto s
      else if dev_addr = DEV_SMC then
        if is_read then set_data (smc_read cmd s) s
        else smc_write cmd (smb_regs s SMB_DATA) s
      else if dev_addr = DEV_VIDENC_TV \<or> dev_addr = DEV_VIDENC_XC then
        if is_read then set_data 0 s else s
      else s)"

fun smbus_io_write :: "u16 \<Rightarrow> u32 \<Rightarrow> smbus_state \<times> pic_pair \<Rightarrow> smbus_state \<times> pic_pair" where
  "smbus_io_write port val (s, pic) =
     (let r = unat (port AND 0xF) in
      if r = SMB_STATUS then
        let s = s\<lparr>smb_regs := (smb_regs s)(r := smb_regs s r AND NOT (ucast val))\<rparr> in
        (s, if smb_regs s r AND STAT_DONE = 0 then lower_irq SMB_IRQ pic else pic)
      else if r = SMB_CONTROL then (smb_transact val s, raise_irq SMB_IRQ pic)
      else (s\<lparr>smb_regs := (smb_regs s)(r := ucast val)\<rparr>, pic))"

section \<open>Lemmas\<close>

lemma smb_reg_index: "unat (port AND 0xF :: u16) < 16"
  using unat_and_mask_less [of port 4] by (simp add: mask_eq_exp_minus_1)

text \<open>The FIFO is read inside its 32 bytes.\<close>

definition smbus_ok :: "smbus_state \<Rightarrow> bool" where
  "smbus_ok s \<longleftrightarrow> fifo_pos s \<le> fifo_len s \<and> fifo_len s \<le> 32"

lemma smbus_ok_new [inv_intros]: "smbus_ok smbus_new"
  by (simp add: smbus_ok_def smbus_new_def)

lemma smbus_ok_read [inv_intros]: "smbus_ok s \<Longrightarrow> smbus_ok (snd (smbus_io_read port s))"
  by (auto simp: smbus_ok_def smbus_io_read_def Let_def)

lemma smbus_ok_transact: "smbus_ok s \<Longrightarrow> smbus_ok (smb_transact val s)"
  by (simp add: smbus_ok_def smb_transact_def smb_eeprom_def smc_write_def set_data_def Let_def)

lemma smbus_ok_write [inv_intros]: "smbus_ok s \<Longrightarrow> smbus_ok (fst (smbus_io_write port val (s, pic)))"
  using smbus_ok_transact by (simp add: Let_def) (simp add: smbus_ok_def)

text \<open>A transaction as a driver programs it: address, command, data, control.\<close>

definition smb_xfer :: "u8 \<Rightarrow> u8 \<Rightarrow> u8 \<Rightarrow> u32 \<Rightarrow> smbus_state \<times> pic_pair \<Rightarrow> smbus_state \<times> pic_pair"
  where
  "smb_xfer a cmd d ctl = smbus_io_write 0xC002 ctl \<circ> smbus_io_write 0xC006 (ucast d)
     \<circ> smbus_io_write 0xC008 (ucast cmd) \<circ> smbus_io_write 0xC004 (ucast a)"

lemma smb_xfer_state:
  "smb_xfer a cmd d ctl (s, pic) =
    (smb_transact ctl (s\<lparr>smb_regs := (smb_regs s)(SMB_ADDRESS := a, SMB_COMMAND := cmd, SMB_DATA := d)\<rparr>),
     raise_irq SMB_IRQ pic)"
  by (simp add: smb_xfer_def)

definition eeprom_write :: "u8 \<Rightarrow> u8 \<Rightarrow> smbus_state \<times> pic_pair \<Rightarrow> smbus_state \<times> pic_pair" where
  "eeprom_write cmd d = smb_xfer 0xA8 cmd d 0x0A"

definition eeprom_read :: "u8 \<Rightarrow> smbus_state \<times> pic_pair \<Rightarrow> smbus_state \<times> pic_pair" where
  "eeprom_read cmd = smb_xfer 0xA9 cmd 0 0x0A"

lemma eeprom_write_eeprom:
  "eeprom (fst (eeprom_write cmd d (s, pic))) = (eeprom s)(unat cmd := d)"
  by (simp add: eeprom_write_def smb_xfer_state smb_transact_def smb_eeprom_def)

lemma eeprom_read_data:
  "smb_regs (fst (eeprom_read cmd (s, pic))) SMB_DATA = eeprom s (unat cmd)"
  "eeprom (fst (eeprom_read cmd (s, pic))) = eeprom s"
  by (simp_all add: eeprom_read_def smb_xfer_state smb_transact_def smb_eeprom_def set_data_def)

text \<open>Reading the FIFO port \<open>n\<close> times.\<close>

fun read_fifo :: "nat \<Rightarrow> smbus_state \<Rightarrow> u32 list \<times> smbus_state" where
  "read_fifo 0 s = ([], s)"
| "read_fifo (Suc n) s =
    (let r = smbus_io_read 0xC009 s; rest = read_fifo n (snd r) in (fst r # fst rest, snd rest))"

lemma read_fifo_values:
  "fst (read_fifo n s) =
    map (\<lambda>i. if fifo_pos s + i < fifo_len s then ucast (fifo s (fifo_pos s + i)) else 0) [0..<n]"
proof (induction n arbitrary: s)
  case 0
  then show ?case by simp
next
  case (Suc n)
  show ?case
    unfolding upt_conv_Cons [OF zero_less_Suc] map_Suc_upt [symmetric]
    by (auto simp: smbus_io_read_def Let_def Suc)
qed

section \<open>Properties\<close>

text \<open>A byte written to the EEPROM through the registers is what a byte read of the same offset
  returns, a read of another offset returns what was there, and each transaction leaves the
  completion bit set and IRQ 11 requested.\<close>
theorem eeprom_roundtrip:
  "smb_regs (fst (eeprom_read c' (eeprom_write c d sp))) SMB_DATA =
     (if c' = c then d else eeprom (fst sp) (unat c'))
   \<and> bit (smb_regs (fst (eeprom_write c d sp)) SMB_STATUS) 4
   \<and> bit (irr (slave (snd (eeprom_write c d sp)))) 3"
proof -
  obtain s pic where sp: "sp = (s, pic)" by fastforce
  obtain s1 p1 where w: "eeprom_write c d sp = (s1, p1)" by fastforce
  have e: "eeprom s1 = (eeprom s)(unat c := d)"
    using eeprom_write_eeprom [of c d s pic] w sp by simp
  have "bit (smb_regs s1 SMB_STATUS) 4 \<and> bit (irr (slave p1)) 3"
    using w sp
    by (auto simp: eeprom_write_def smb_xfer_state smb_transact_def smb_eeprom_def raise_irq_def
        pic_raise_def bit_or_iff)
  then show ?thesis
    unfolding w using e by (auto simp: sp eeprom_read_data word_unat_eq_iff [symmetric])
qed

text \<open>A block read of \<open>len\<close> bytes from EEPROM offset \<open>c\<close> fills the FIFO, and \<open>n\<close> reads of the
  FIFO port return the EEPROM bytes from \<open>c\<close> on, at most 32 and none past its end, then zeros.\<close>
theorem eeprom_block_read:
  "fst (read_fifo n (fst (smb_xfer 0xA9 c len 0x0D (s, pic)))) =
    map (\<lambda>i. if i < min 32 (unat len) \<and> unat c + i < 256 then ucast (eeprom s (unat c + i)) else 0)
      [0..<n]"
  by (simp add: read_fifo_values smb_xfer_state smb_transact_def smb_eeprom_def Let_def min_def)

text \<open>The FIFO is never read outside its 32 bytes: its position and length stay in range under
  any sequence of port writes and reads.\<close>
theorem smbus_fifo_in_range:
  "smbus_ok (fold (\<lambda>(w, port, val) s. if w then fst (smbus_io_write port val (s, pic))
      else snd (smbus_io_read port s)) ops smbus_new)"
  by (rule fold_inv) (auto intro: smbus_ok_write smbus_ok_read smbus_ok_new
      simp del: smbus_io_write.simps)

end
