(* ===== verification/Ide.thy ===== *)
theory Ide
  imports Prelude
begin

text \<open>
  The dual-channel ATA controller (\<open>src/src/xbox/ide.hpp\<close>): task-file registers, PIO transfers
  through the 512-byte sector buffer, ATAPI packets and the bus-master registers.  A disk image
  is the array of its bytes with its size, or absent.
\<close>

section \<open>State\<close>

abbreviation TF_ERR_FEAT :: nat where "TF_ERR_FEAT \<equiv> 1"
abbreviation TF_SECT_COUNT :: nat where "TF_SECT_COUNT \<equiv> 2"
abbreviation TF_LBA_LOW :: nat where "TF_LBA_LOW \<equiv> 3"
abbreviation TF_LBA_MID :: nat where "TF_LBA_MID \<equiv> 4"
abbreviation TF_LBA_HIGH :: nat where "TF_LBA_HIGH \<equiv> 5"
abbreviation TF_DEVICE :: nat where "TF_DEVICE \<equiv> 6"
abbreviation TF_STAT_CMD :: nat where "TF_STAT_CMD \<equiv> 7"
abbreviation TF_ALT_CTL :: nat where "TF_ALT_CTL \<equiv> 8"
abbreviation ATA_DRDY_DSC :: u8 where "ATA_DRDY_DSC \<equiv> 0x50"
abbreviation ATA_DRDY_DSC_DRQ :: u8 where "ATA_DRDY_DSC_DRQ \<equiv> 0x58"
abbreviation ATA_DRDY_DSC_ERR :: u8 where "ATA_DRDY_DSC_ERR \<equiv> 0x51"
abbreviation ATA_ABRT :: u8 where "ATA_ABRT \<equiv> 0x04"
abbreviation SECTOR_SIZE :: nat where "SECTOR_SIZE \<equiv> 512"

record ide_channel =
  tf :: bytes
  present :: bool
  is_atapi :: bool
  identify :: bytes
  data_buf :: bytes
  data_pos :: u16
  data_len :: u16
  sectors_left :: u8
  packet_buf :: bytes
  packet_pos :: u8
  awaiting_packet :: bool
  bm_cmd :: u8
  bm_status :: u8
  bm_prdt :: u32
  image_data :: "bytes option"
  image_size :: nat

definition ide_channel_new :: ide_channel where
  "ide_channel_new = \<lparr>tf = (\<lambda>_. 0)(TF_ERR_FEAT := 0x01, TF_SECT_COUNT := 0x01, TF_LBA_LOW := 0x01,
       TF_STAT_CMD := ATA_DRDY_DSC),
     present = False, is_atapi = False, identify = (\<lambda>_. 0), data_buf = (\<lambda>_. 0), data_pos = 0,
     data_len = 0, sectors_left = 0, packet_buf = (\<lambda>_. 0), packet_pos = 0,
     awaiting_packet = False, bm_cmd = 0, bm_status = 0x60, bm_prdt = 0, image_data = None,
     image_size = 0\<rparr>"

definition set_tf :: "nat \<Rightarrow> u8 \<Rightarrow> ide_channel \<Rightarrow> ide_channel" where
  "set_tf i v c = c\<lparr>tf := (tf c)(i := v)\<rparr>"

section \<open>Sectors\<close>

definition lba28 :: "ide_channel \<Rightarrow> u32" where
  "lba28 c = ((ucast (tf c TF_LBA_LOW) OR push_bit 8 (ucast (tf c TF_LBA_MID)))
     OR push_bit 16 (ucast (tf c TF_LBA_HIGH))) OR push_bit 24 (ucast (tf c TF_DEVICE AND 0x0F))"

text \<open>The sector lies inside the image: \<open>off + SECTOR_SIZE <= image_size\<close> in 64 bits.\<close>

definition in_image :: "u32 \<Rightarrow> ide_channel \<Rightarrow> bool" where
  "in_image lba c \<longleftrightarrow> unat lba * SECTOR_SIZE + SECTOR_SIZE \<le> image_size c"

definition load_sector :: "u32 \<Rightarrow> ide_channel \<Rightarrow> ide_channel" where
  "load_sector lba c =
     c\<lparr>data_buf := (case image_data c of
          Some img \<Rightarrow>
            if in_image lba c then copy_bytes SECTOR_SIZE img (unat lba * SECTOR_SIZE) (data_buf c) 0
            else fill_bytes SECTOR_SIZE 0 (data_buf c) 0
        | None \<Rightarrow> fill_bytes SECTOR_SIZE 0 (data_buf c) 0),
       data_pos := 0, data_len := of_nat SECTOR_SIZE\<rparr>"

definition store_sector :: "u32 \<Rightarrow> ide_channel \<Rightarrow> ide_channel" where
  "store_sector lba c =
     (case image_data c of
        Some img \<Rightarrow>
          if in_image lba c then
            c\<lparr>image_data := Some (copy_bytes SECTOR_SIZE (data_buf c) 0 img (unat lba * SECTOR_SIZE))\<rparr>
          else c
      | None \<Rightarrow> c)"

definition advance_sector :: "ide_channel \<Rightarrow> ide_channel" where
  "advance_sector c =
     (let lba = lba28 c + 1 in
      c\<lparr>tf := (tf c)(TF_LBA_LOW := ucast (lba AND 0xFF),
          TF_LBA_MID := ucast (drop_bit 8 lba AND 0xFF),
          TF_LBA_HIGH := ucast (drop_bit 16 lba AND 0xFF),
          TF_DEVICE := (tf c TF_DEVICE AND 0xF0) OR ucast (drop_bit 24 lba AND 0x0F))\<rparr>)"

section \<open>The identify blocks and the initial state\<close>

text \<open>\<open>w[i] = v\<close> on the identify block seen as 16-bit words.\<close>

definition put_word :: "nat \<Rightarrow> u16 \<Rightarrow> bytes \<Rightarrow> bytes" where
  "put_word i v m = m(2 * i := ucast v, 2 * i + 1 := ucast (drop_bit 8 v))"

text \<open>An ATA string: padded with blanks to \<open>n\<close> bytes, the two bytes of each word swapped.\<close>

definition set_ata_string :: "nat \<Rightarrow> u8 list \<Rightarrow> nat \<Rightarrow> bytes \<Rightarrow> bytes" where
  "set_ata_string w src n =
     (let buf = take n src @ replicate (n - length src) 0x20 in
      fold (\<lambda>i. put_word (w + i) (push_bit 8 (ucast (buf ! (2 * i))) OR ucast (buf ! (2 * i + 1))))
        [0..<n div 2])"

definition init_hdd_identify :: bytes where
  "init_hdd_identify = fold (\<lambda>f. f)
     [put_word 0 0x0040, put_word 1 16383, put_word 3 16, put_word 6 63,
      set_ata_string 27 (ascii ''XBOX HDD'') 40,
      set_ata_string 10 (ascii ''0123456789'') 20,
      set_ata_string 23 (ascii ''1.00'') 8,
      put_word 47 0x8010, put_word 49 0x0200, put_word 53 0x0006, put_word 60 0x5C10,
      put_word 61 0x0097, put_word 80 0x007E, put_word 83 0x4000, put_word 88 0x003F] (\<lambda>_. 0)"

definition init_dvd_identify :: bytes where
  "init_dvd_identify = fold (\<lambda>f. f)
     [put_word 0 0x8580,
      set_ata_string 27 (ascii ''XBOX DVD'') 40,
      set_ata_string 10 (ascii ''0000000001'') 20,
      set_ata_string 23 (ascii ''1.00'') 8,
      put_word 49 0x0200, put_word 80 0x007E] (\<lambda>_. 0)"

record ide_state =
  primary :: ide_channel
  secondary :: ide_channel

definition ide_new :: ide_state where
  "ide_new = \<lparr>primary = ide_channel_new\<lparr>present := True, identify := init_hdd_identify\<rparr>,
     secondary = ide_channel_new\<lparr>present := True, is_atapi := True, identify := init_dvd_identify,
       tf := (tf ide_channel_new)(TF_LBA_MID := 0x14, TF_LBA_HIGH := 0xEB)\<rparr>\<rparr>"

section \<open>Data port\<close>

text \<open>What a read does when the buffer is drained: the next sector, or the end of the transfer.\<close>

definition read_done :: "ide_channel \<Rightarrow> ide_channel" where
  "read_done c =
     (if sectors_left c > 0 then
        let c = c\<lparr>sectors_left := sectors_left c - 1\<rparr> in
        if sectors_left c > 0 then
          let c = advance_sector c in
          set_tf TF_STAT_CMD ATA_DRDY_DSC_DRQ (load_sector (lba28 c) c)
        else set_tf TF_STAT_CMD ATA_DRDY_DSC c
      else set_tf TF_STAT_CMD ATA_DRDY_DSC c)"

definition ide_data_read :: "ide_channel \<Rightarrow> u32 \<times> ide_channel" where
  "ide_data_read c0 =
     (if data_len c0 = 0 then (0, c0)
      else
        let p = unat (data_pos c0);
            w = (if p + 1 < SECTOR_SIZE then ld 2 (data_buf c0) p else 0);
            c = c0\<lparr>data_pos := data_pos c0 + 2, data_len := data_len c0 - 2\<rparr> in
        (w, if data_len c = 0 then read_done c else c))"

definition scsi_exec :: "ide_channel \<Rightarrow> ide_channel" where
  "scsi_exec c =
     (let scsi_op = packet_buf c 0;
          ok = (\<lambda>c. set_tf TF_ERR_FEAT 0 (set_tf TF_STAT_CMD ATA_DRDY_DSC_DRQ c)) in
      if scsi_op = 0x00 then set_tf TF_ERR_FEAT 0 (set_tf TF_STAT_CMD ATA_DRDY_DSC c)
      else if scsi_op = 0x12 then
        let b = (fill_bytes 36 0 (data_buf c) 0)(0 := 0x05, 1 := 0x80, 2 := 0x00, 3 := 0x21, 4 := 31);
            b = put_list (ascii ''XBOX    '') b 8;
            b = put_list (ascii ''DVD             '') b 16;
            b = put_list (ascii ''1.00'') b 32
        in ok (c\<lparr>data_buf := b, data_pos := 0, data_len := 36\<rparr>)
      else if scsi_op = 0x5A then
        ok (c\<lparr>data_buf := (fill_bytes 8 0 (data_buf c) 0)(1 := 6), data_pos := 0, data_len := 8\<rparr>)
      else set_tf TF_ERR_FEAT ATA_ABRT (set_tf TF_STAT_CMD ATA_DRDY_DSC_ERR c))"

definition ide_packet_write :: "u32 \<Rightarrow> ide_channel \<Rightarrow> ide_channel" where
  "ide_packet_write val c =
     (let p = unat (packet_pos c);
          c = (if p + 1 < 12 then
                 c\<lparr>packet_buf := (packet_buf c)(p := ucast val, p + 1 := ucast (drop_bit 8 val))\<rparr>
               else c);
          c = c\<lparr>packet_pos := packet_pos c + 2\<rparr> in
      if packet_pos c \<ge> 12 then scsi_exec (c\<lparr>awaiting_packet := False\<rparr>) else c)"

text \<open>What a write does when the buffer is full: the sector goes to the image.\<close>

definition write_done :: "ide_channel \<Rightarrow> ide_channel" where
  "write_done c0 =
     (let c = store_sector (lba28 c0) c0 in
      if sectors_left c > 0 then
        let c = c\<lparr>sectors_left := sectors_left c - 1\<rparr> in
        if sectors_left c > 0 then
          let c = advance_sector c in
          set_tf TF_STAT_CMD ATA_DRDY_DSC_DRQ
            (c\<lparr>data_buf := fill_bytes SECTOR_SIZE 0 (data_buf c) 0, data_pos := 0,
               data_len := of_nat SECTOR_SIZE\<rparr>)
        else set_tf TF_STAT_CMD ATA_DRDY_DSC c
      else set_tf TF_STAT_CMD ATA_DRDY_DSC c)"

definition ide_data_write :: "u32 \<Rightarrow> ide_channel \<Rightarrow> ide_channel" where
  "ide_data_write val c0 =
     (if awaiting_packet c0 then ide_packet_write val c0
      else if data_len c0 = 0 then c0
      else
        let p = unat (data_pos c0);
            c = (if p + 1 < SECTOR_SIZE then c0\<lparr>data_buf := st 2 (data_buf c0) p val\<rparr> else c0);
            c = c\<lparr>data_pos := data_pos c + 2, data_len := data_len c - 2\<rparr> in
        if data_len c = 0 then write_done c else c)"

section \<open>Commands and control\<close>

definition sector_count :: "ide_channel \<Rightarrow> u8" where
  "sector_count c = (if tf c TF_SECT_COUNT = 0 then 1 else tf c TF_SECT_COUNT)"

definition ide_identify :: "ide_channel \<Rightarrow> ide_channel" where
  "ide_identify c = set_tf TF_ERR_FEAT 0 (set_tf TF_STAT_CMD ATA_DRDY_DSC_DRQ
     (c\<lparr>data_buf := copy_bytes SECTOR_SIZE (identify c) 0 (data_buf c) 0, data_pos := 0,
        data_len := of_nat SECTOR_SIZE, sectors_left := 0\<rparr>))"

definition ide_command :: "u8 \<Rightarrow> ide_channel \<Rightarrow> ide_channel" where
  "ide_command v c =
     (let drq = (\<lambda>c. set_tf TF_ERR_FEAT 0 (set_tf TF_STAT_CMD ATA_DRDY_DSC_DRQ c));
          abort = (\<lambda>c. set_tf TF_ERR_FEAT ATA_ABRT (set_tf TF_STAT_CMD ATA_DRDY_DSC_ERR c)) in
      if v = 0xEC \<or> v = 0xA1 then ide_identify c
      else if v = 0xA0 then
        if \<not> is_atapi c then abort c
        else set_tf TF_SECT_COUNT 0x01 (drq (c\<lparr>awaiting_packet := True, packet_pos := 0,
               packet_buf := fill_bytes 12 0 (packet_buf c) 0\<rparr>))
      else if v = 0x20 then
        let c = c\<lparr>sectors_left := sector_count c\<rparr>;
            c = load_sector (lba28 c) c in
        drq (c\<lparr>sectors_left := sectors_left c - 1\<rparr>)
      else if v = 0x30 then
        drq (c\<lparr>sectors_left := sector_count c,
               data_buf := fill_bytes SECTOR_SIZE 0 (data_buf c) 0, data_pos := 0,
               data_len := of_nat SECTOR_SIZE\<rparr>)
      else if v = 0xEF \<or> v = 0x91 \<or> v = 0xE7 then
        set_tf TF_ERR_FEAT 0 (set_tf TF_STAT_CMD ATA_DRDY_DSC c)
      else abort c)"

definition ide_control :: "u8 \<Rightarrow> ide_channel \<Rightarrow> ide_channel" where
  "ide_control v c =
     (let c = set_tf TF_ALT_CTL v c in
      if v AND 0x04 = 0 then c
      else c\<lparr>tf := (tf c)(TF_STAT_CMD := ATA_DRDY_DSC, TF_ERR_FEAT := 0x01, TF_SECT_COUNT := 0x01,
               TF_LBA_LOW := 0x01,
               TF_LBA_MID := (if is_atapi c then 0x14 else 0x00),
               TF_LBA_HIGH := (if is_atapi c then 0xEB else 0x00),
               TF_DEVICE := 0x00),
             awaiting_packet := False\<rparr>)"

section \<open>Port callbacks\<close>

datatype ide_port = Primary nat | Secondary nat | Nowhere

definition ide_decode :: "u16 \<Rightarrow> ide_port" where
  "ide_decode port =
     (if 0x1F0 \<le> port \<and> port \<le> 0x1F7 then Primary (unat (port - 0x1F0))
      else if port = 0x3F6 then Primary 8
      else if 0x170 \<le> port \<and> port \<le> 0x177 then Secondary (unat (port - 0x170))
      else if port = 0x376 then Secondary 8
      else Nowhere)"

definition ide_chan_read :: "nat \<Rightarrow> ide_channel \<Rightarrow> u32 \<times> ide_channel" where
  "ide_chan_read reg c =
     (if \<not> present c then (0, c)
      else if reg = 0 then ide_data_read c
      else if reg = 7 \<or> reg = 8 then (ucast (tf c TF_STAT_CMD), c)
      else if 1 \<le> reg \<and> reg \<le> 6 then (ucast (tf c reg), c)
      else (0xFF, c))"

definition ide_chan_write :: "nat \<Rightarrow> u32 \<Rightarrow> ide_channel \<Rightarrow> ide_channel" where
  "ide_chan_write reg val c =
     (if \<not> present c then c
      else if reg = 0 then ide_data_write val c
      else if 1 \<le> reg \<and> reg \<le> 6 then set_tf reg (ucast val) c
      else if reg = 7 then ide_command (ucast val) c
      else if reg = 8 then ide_control (ucast val) c
      else c)"

definition ide_io_read :: "u16 \<Rightarrow> ide_state \<Rightarrow> u32 \<times> ide_state" where
  "ide_io_read port s =
     (case ide_decode port of
        Primary r \<Rightarrow> (let (v, c) = ide_chan_read r (primary s) in (v, s\<lparr>primary := c\<rparr>))
      | Secondary r \<Rightarrow> (let (v, c) = ide_chan_read r (secondary s) in (v, s\<lparr>secondary := c\<rparr>))
      | Nowhere \<Rightarrow> (0xFF, s))"

definition ide_io_write :: "u16 \<Rightarrow> u32 \<Rightarrow> ide_state \<Rightarrow> ide_state" where
  "ide_io_write port val s =
     (case ide_decode port of
        Primary r \<Rightarrow> s\<lparr>primary := ide_chan_write r val (primary s)\<rparr>
      | Secondary r \<Rightarrow> s\<lparr>secondary := ide_chan_write r val (secondary s)\<rparr>
      | Nowhere \<Rightarrow> s)"

section \<open>Bus-master registers\<close>

definition bm_chan_read :: "u16 \<Rightarrow> nat \<Rightarrow> ide_channel \<Rightarrow> u32" where
  "bm_chan_read off n c =
     (let reg = off AND 0x07 in
      if reg = 0 then ucast (bm_cmd c)
      else if reg = 2 then ucast (bm_status c)
      else if reg = 4 then
        if n \<ge> 4 then bm_prdt c
        else drop_bit (unat (off AND 3) * 8) (bm_prdt c) AND 0xFF
      else 0)"

definition bm_chan_write :: "u16 \<Rightarrow> u32 \<Rightarrow> nat \<Rightarrow> ide_channel \<Rightarrow> ide_channel" where
  "bm_chan_write off val n c =
     (let reg = off AND 0x07 in
      if reg = 0 then
        let c = c\<lparr>bm_cmd := ucast (val AND 0x09)\<rparr> in
        if val AND 0x01 = 0 then c\<lparr>bm_status := bm_status c AND NOT 0x01\<rparr> else c
      else if reg = 2 then
        let w1c = ucast (val AND 0x06);
            s = bm_status c AND NOT w1c in
        c\<lparr>bm_status := (s AND NOT 0x60) OR ucast (val AND 0x60)\<rparr>
      else if reg = 4 then
        if n \<ge> 4 then c\<lparr>bm_prdt := val AND 0xFFFFFFFC\<rparr> else c
      else c)"

definition ide_bm_read :: "u16 \<Rightarrow> nat \<Rightarrow> ide_state \<Rightarrow> u32" where
  "ide_bm_read port n s =
     (let off = port AND 0x0F in
      if off < 8 then bm_chan_read off n (primary s) else bm_chan_read off n (secondary s))"

definition ide_bm_write :: "u16 \<Rightarrow> u32 \<Rightarrow> nat \<Rightarrow> ide_state \<Rightarrow> ide_state" where
  "ide_bm_write port val n s =
     (let off = port AND 0x0F in
      if off < 8 then s\<lparr>primary := bm_chan_write off val n (primary s)\<rparr>
      else s\<lparr>secondary := bm_chan_write off val n (secondary s)\<rparr>)"


section \<open>A sector through the data port\<close>

text \<open>The channel with \<open>k\<close> of the 256 words of its buffer transferred.\<close>

definition at_word :: "nat \<Rightarrow> ide_channel \<Rightarrow> ide_channel" where
  "at_word k c = c\<lparr>data_pos := of_nat (2 * k), data_len := of_nat (SECTOR_SIZE - 2 * k)\<rparr>"

lemma word16_small: "n < 65536 \<Longrightarrow> (of_nat n :: u16) = 0 \<longleftrightarrow> n = 0"
  using word_of_nat_eq_0_iff [where 'a = 16, of n] by (auto dest: dvd_imp_le)

lemma at_word_len: "k \<le> 256 \<Longrightarrow> data_len (at_word k c) = 0 \<longleftrightarrow> k = 256"
  unfolding at_word_def using word16_small [of "512 - 2 * k"] by (auto simp del: of_nat_diff)

lemma at_word_pos: "k \<le> 256 \<Longrightarrow> unat (data_pos (at_word k c)) = 2 * k"
  unfolding at_word_def by (simp add: unat_of_nat del: of_nat_mult)

lemma at_word_step:
  assumes "k < 256"
  shows "(at_word k c)\<lparr>data_pos := data_pos (at_word k c) + 2,
    data_len := data_len (at_word k c) - 2\<rparr> = at_word (Suc k) c"
proof -
  have "(of_nat (512 - 2 * k) :: u16) - 2 = of_nat (512 - 2 * k - 2)"
    using assms by (subst of_nat_diff) auto
  moreover have "512 - 2 * k - 2 = 512 - 2 * Suc k" by simp
  ultimately show ?thesis by (simp add: at_word_def del: of_nat_diff)
qed

lemma at_word_other [simp]:
  "data_buf (at_word k c) = data_buf c" "tf (at_word k c) = tf c"
  "awaiting_packet (at_word k c) = awaiting_packet c" "sectors_left (at_word k c) = sectors_left c"
  "image_data (at_word k c) = image_data c" "image_size (at_word k c) = image_size c"
  "present (at_word k c) = present c"
  by (simp_all add: at_word_def)

lemma ide_data_read_at:
  assumes "k < 256"
  shows "ide_data_read (at_word k c) =
    (ld 2 (data_buf c) (2 * k),
     if k = 255 then read_done (at_word 256 c) else at_word (Suc k) c)"
  using assms at_word_len [of k c] at_word_len [of "Suc k" c] at_word_pos [of k c]
  by (simp add: ide_data_read_def Let_def at_word_step)

lemma ide_data_write_at:
  assumes "k < 256" and "\<not> awaiting_packet c"
  shows "ide_data_write v (at_word k c) =
    (if k = 255 then write_done (at_word 256 (c\<lparr>data_buf := st 2 (data_buf c) (2 * k) v\<rparr>))
     else at_word (Suc k) (c\<lparr>data_buf := st 2 (data_buf c) (2 * k) v\<rparr>))"
proof -
  let ?c = "c\<lparr>data_buf := st 2 (data_buf c) (2 * k) v\<rparr>"
  have eq: "at_word (Suc k) ?c = (at_word k c)\<lparr>data_buf := st 2 (data_buf c) (2 * k) v,
      data_pos := data_pos (at_word k c) + 2, data_len := data_len (at_word k c) - 2\<rparr>"
    using at_word_step [OF assms(1), of ?c] by (simp add: at_word_def)
  have "ide_data_write v (at_word k c) =
    (if data_len (at_word (Suc k) ?c) = 0 then write_done (at_word (Suc k) ?c)
     else at_word (Suc k) ?c)"
    using assms at_word_len [of k c] at_word_pos [of k c]
    by (simp add: ide_data_write_def Let_def eq)
  then show ?thesis
    using assms(1) at_word_len [of "Suc k" ?c] by auto
qed

text \<open>Reading \<open>n\<close> words, writing a list of words.\<close>

fun read_words :: "nat \<Rightarrow> ide_channel \<Rightarrow> u32 list \<times> ide_channel" where
  "read_words 0 c = ([], c)"
| "read_words (Suc n) c =
     (let r = ide_data_read c; rest = read_words n (snd r) in (fst r # fst rest, snd rest))"

definition write_words :: "u32 list \<Rightarrow> ide_channel \<Rightarrow> ide_channel" where
  "write_words ws c = fold ide_data_write ws c"

lemma read_words_add:
  "read_words (m + n) c =
    (fst (read_words m c) @ fst (read_words n (snd (read_words m c))),
     snd (read_words n (snd (read_words m c))))"
  by (induction m arbitrary: c) (simp_all add: Let_def)

definition buf_words :: "bytes \<Rightarrow> u32 list" where
  "buf_words b = map (\<lambda>i. ld 2 b (2 * i)) [0..<256]"

lemma read_words_rest:
  assumes "k < 256"
  shows "read_words (256 - k) (at_word k c) =
    (map (\<lambda>i. ld 2 (data_buf c) (2 * i)) [k..<256], read_done (at_word 256 c))"
  using assms
proof (induction "256 - k" arbitrary: k)
  case 0
  then show ?case by simp
next
  case (Suc n)
  show ?case
  proof (cases "k = 255")
    case True
    then show ?thesis using ide_data_read_at [of 255 c] by (simp add: Let_def numeral_eq_Suc)
  next
    case False
    with Suc have k: "Suc k < 256" "256 - k = Suc (256 - Suc k)" by auto
    have ih: "read_words (256 - Suc k) (at_word (Suc k) c) =
        (map (\<lambda>i. ld 2 (data_buf c) (2 * i)) [Suc k..<256], read_done (at_word 256 c))"
      using Suc k by (intro Suc.hyps(1)) auto
    have "[k..<256] = k # [Suc k..<256]" using Suc.prems by (rule upt_conv_Cons)
    then show ?thesis
      unfolding k(2) read_words.simps using False Suc.prems ih
      by (simp add: Let_def ide_data_read_at)
  qed
qed

lemma read_words_sector:
  "read_words 256 (at_word 0 c) = (buf_words (data_buf c), read_done (at_word 256 c))"
  using read_words_rest [of 0 c] by (simp add: buf_words_def)

primrec put_words :: "nat \<Rightarrow> u32 list \<Rightarrow> bytes \<Rightarrow> bytes" where
  "put_words k [] b = b"
| "put_words k (w # ws) b = put_words (Suc k) ws (st 2 b (2 * k) w)"

lemma ld_put_words:
  "ld 2 (put_words k ws b) (2 * i) =
    (if k \<le> i \<and> i < k + length ws then take_bit 16 (ws ! (i - k)) else ld 2 b (2 * i))"
proof (induction ws arbitrary: k b i)
  case Nil
  then show ?case by auto
next
  case (Cons w ws)
  have "ld 2 (st 2 b (2 * k) w) (2 * i) = (if i = k then take_bit 16 w else ld 2 b (2 * i))"
  proof (cases "i = k")
    case True
    then show ?thesis using ld_st_same [of 2 b "2 * k" w] by simp
  next
    case False
    then have "2 * i + 2 \<le> 2 * k \<or> 2 * k + 2 \<le> 2 * i" by arith
    with False show ?thesis using ld_st_disjoint by simp
  qed
  then show ?case by (auto simp: Cons nth_Cons' Suc_diff_Suc)
qed

lemma write_words_rest:
  assumes "k + length ws = 256" and "ws \<noteq> []" and "\<not> awaiting_packet c"
  shows "write_words ws (at_word k c) =
    write_done (at_word 256 (c\<lparr>data_buf := put_words k ws (data_buf c)\<rparr>))"
  using assms
proof (induction ws arbitrary: k c)
  case Nil
  then show ?case by simp
next
  case (Cons w ws)
  show ?case
  proof (cases "ws = []")
    case True
    with Cons.prems have "k = 255" by simp
    with True Cons.prems show ?thesis
      by (simp add: write_words_def ide_data_write_at)
  next
    case False
    with Cons.prems have k: "k < 256" "k \<noteq> 255" by (auto simp: neq_Nil_conv)
    let ?c = "c\<lparr>data_buf := st 2 (data_buf c) (2 * k) w\<rparr>"
    have "write_words (w # ws) (at_word k c) = write_words ws (at_word (Suc k) ?c)"
      using k Cons.prems by (simp add: write_words_def ide_data_write_at)
    also have "\<dots> = write_done (at_word 256 (?c\<lparr>data_buf := put_words (Suc k) ws (data_buf ?c)\<rparr>))"
      using Cons.prems False by (intro Cons.IH) auto
    finally show ?thesis by simp
  qed
qed


section \<open>Commands over the data port\<close>

lemma bit_15: "bit (15 :: int) i \<longleftrightarrow> i < 4"
proof -
  have "(15 :: int) = mask 4" by (simp add: mask_eq_exp_minus_1)
  then show ?thesis by (simp only: bit_mask_iff) auto
qed

lemma bit_240: "bit (240 :: int) i \<longleftrightarrow> 4 \<le> i \<and> i < 8"
proof -
  have "(240 :: int) = push_bit 4 (mask 4)" by code_simp
  then show ?thesis by (simp only: bit_push_bit_iff bit_mask_iff) auto
qed

text \<open>The address counts sectors modulo 2^28.\<close>

lemma bit_lba28:
  "bit (lba28 c) i \<longleftrightarrow>
    (if i < 8 then bit (tf c 3) i else if i < 16 then bit (tf c 4) (i - 8)
     else if i < 24 then bit (tf c 5) (i - 16) else i < 28 \<and> bit (tf c 6) (i - 24))"
  using bit_imp_le_length [of "tf c 3" i] bit_imp_le_length [of "tf c 4" "i - 8"]
    bit_imp_le_length [of "tf c 5" "i - 16"]
  by (auto simp: lba28_def bit_or_iff bit_ucast_iff bit_push_bit_iff bit_and_iff
      bit_15)

lemma lba28_advance: "lba28 (advance_sector c) = take_bit 28 (lba28 c + 1)"
  by (rule bit_eqI32)
    (auto simp: bit_lba28 advance_sector_def Let_def bit_or_iff bit_and_iff bit_ucast_iff and_FF
      bit_take_bit_iff bit_drop_bit_eq bit_15 bit_240)


lemma lba28_set_tf [simp]: "i \<notin> {3, 4, 5, 6} \<Longrightarrow> lba28 (set_tf i v c) = lba28 c"
  by (auto simp: lba28_def set_tf_def)

lemma set_tf_other [simp]:
  "data_buf (set_tf i v c) = data_buf c" "image_data (set_tf i v c) = image_data c"
  "image_size (set_tf i v c) = image_size c" "sectors_left (set_tf i v c) = sectors_left c"
  "awaiting_packet (set_tf i v c) = awaiting_packet c" "data_len (set_tf i v c) = data_len c"
  "data_pos (set_tf i v c) = data_pos c" "present (set_tf i v c) = present c"
  "tf (set_tf i v c) = (tf c)(i := v)"
  by (simp_all add: set_tf_def)

lemma lba28_tf: "tf c = tf d \<Longrightarrow> lba28 c = lba28 d"
  by (simp add: lba28_def)

lemma lba28_other_regs: "(\<forall>i \<in> {3, 4, 5, 6}. tf c i = tf d i) \<Longrightarrow> lba28 c = lba28 d"
  by (simp add: lba28_def)

lemma load_sector_other [simp]:
  "tf (load_sector l c) = tf c" "image_data (load_sector l c) = image_data c"
  "image_size (load_sector l c) = image_size c" "sectors_left (load_sector l c) = sectors_left c"
  "awaiting_packet (load_sector l c) = awaiting_packet c" "present (load_sector l c) = present c"
  by (simp_all add: load_sector_def)

lemma advance_other [simp]:
  "image_data (advance_sector c) = image_data c" "image_size (advance_sector c) = image_size c"
  "sectors_left (advance_sector c) = sectors_left c" "data_buf (advance_sector c) = data_buf c"
  "data_len (advance_sector c) = data_len c" "present (advance_sector c) = present c"
  "awaiting_packet (advance_sector c) = awaiting_packet c"
  by (simp_all add: advance_sector_def Let_def)

text \<open>The 256 words of sector \<open>l\<close> of an image: zero outside it.\<close>

definition sector_words :: "bytes option \<Rightarrow> nat \<Rightarrow> u32 \<Rightarrow> u32 list" where
  "sector_words img n l =
     (case img of
        Some m \<Rightarrow> if unat l * SECTOR_SIZE + SECTOR_SIZE \<le> n
          then map (\<lambda>i. ld 2 m (unat l * SECTOR_SIZE + 2 * i)) [0..<256] else replicate 256 0
      | None \<Rightarrow> replicate 256 0)"

lemma ld_copy:
  "2 * i + 2 \<le> n \<Longrightarrow> ld 2 (copy_bytes n src s dst 0) (2 * i) = ld 2 src (s + 2 * i)"
  by (simp add: numeral_2_eq_2 copy_bytes_def)

lemma ld_fill_zeros: "2 * i + 2 \<le> n \<Longrightarrow> ld 2 (fill_bytes n 0 dst 0) (2 * i) = 0"
  by (simp add: numeral_2_eq_2 fill_bytes_def)

lemma buf_words_load:
  "buf_words (data_buf (load_sector l c)) = sector_words (image_data c) (image_size c) l"
  by (rule nth_equalityI)
    (auto simp: buf_words_def load_sector_def sector_words_def in_image_def ld_copy ld_fill_zeros
      split: option.splits)

text \<open>A channel about to transfer sector \<open>l\<close>, with \<open>m\<close> sectors left.\<close>

definition sector_ready :: "ide_channel \<Rightarrow> bool" where
  "sector_ready c \<longleftrightarrow> at_word 0 c = c
     \<and> buf_words (data_buf c) = sector_words (image_data c) (image_size c) (lba28 c)"

lemma sector_ready_load:
  "sector_ready (set_tf TF_STAT_CMD s (load_sector (lba28 c) c))"
proof -
  have "at_word 0 (set_tf TF_STAT_CMD s (load_sector (lba28 c) c)) =
      set_tf TF_STAT_CMD s (load_sector (lba28 c) c)"
    by (simp add: at_word_def set_tf_def load_sector_def)
  then show ?thesis
    by (simp add: sector_ready_def buf_words_load) (simp add: lba28_def)
qed

lemma u8_le_1: "(x :: u8) \<le> 1 \<longleftrightarrow> x = 0 \<or> x = 1"
proof -
  have "x \<le> 1 \<longleftrightarrow> unat x = 0 \<or> unat x = 1" by (auto simp: word_le_nat_alt)
  then show ?thesis by (metis unsigned_0 unsigned_1 word_unat_eq_iff)
qed

lemma u8_minus_1_pos: "1 < (x :: u8) \<Longrightarrow> 0 < x \<and> 0 < x - 1"
  using u8_le_1 [of x] by (metis diff_eq_eq add_0 not_le word_gt_0)

lemma read_done_last:
  "sectors_left c \<le> 1 \<Longrightarrow> data_len (read_done c) = data_len c \<and> tf (read_done c) TF_STAT_CMD = ATA_DRDY_DSC"
  unfolding u8_le_1 by (auto simp: read_done_def Let_def)

lemma read_done_more:
  assumes "1 < sectors_left c"
  shows "read_done c = (let d = advance_sector (c\<lparr>sectors_left := sectors_left c - 1\<rparr>)
    in set_tf TF_STAT_CMD ATA_DRDY_DSC_DRQ (load_sector (lba28 d) d))"
  using u8_minus_1_pos [OF assms] by (simp add: read_done_def Let_def)

text \<open>Draining a sector: the words of the sector; then the next sector while more than one is left,
  otherwise the end of the transfer.\<close>

lemma read_sector:
  assumes "sector_ready c"
  shows "read_words 256 c =
    (sector_words (image_data c) (image_size c) (lba28 c), read_done (at_word 256 c))"
  using assms read_words_sector [of c] by (simp add: sector_ready_def)

lemma read_sector_more:
  assumes "1 < sectors_left c"
  shows "sector_ready (read_done (at_word 256 c))"
    and "sectors_left (read_done (at_word 256 c)) = sectors_left c - 1"
    and "lba28 (read_done (at_word 256 c)) = take_bit 28 (lba28 c + 1)"
    and "image_data (read_done (at_word 256 c)) = image_data c"
    and "image_size (read_done (at_word 256 c)) = image_size c"
proof -
  define e where "e = at_word 256 c"
  define d where "d = advance_sector (e\<lparr>sectors_left := sectors_left e - 1\<rparr>)"
  have e: "sectors_left e = sectors_left c" "image_data e = image_data c" "image_size e = image_size c"
    "tf e = tf c"
    unfolding e_def by (rule at_word_other)+
  have r: "read_done e = set_tf TF_STAT_CMD ATA_DRDY_DSC_DRQ (load_sector (lba28 d) d)"
    using read_done_more [of e] assms e by (simp add: d_def Let_def)
  have "lba28 d = take_bit 28 (lba28 (e\<lparr>sectors_left := sectors_left e - 1\<rparr>) + 1)"
    unfolding d_def by (rule lba28_advance)
  also have "lba28 (e\<lparr>sectors_left := sectors_left e - 1\<rparr>) = lba28 c"
    using e by (intro lba28_tf) simp
  finally have l: "lba28 d = take_bit 28 (lba28 c + 1)" .
  have l2: "lba28 (load_sector (lba28 d) d) = lba28 d" by (rule lba28_tf) simp
  show "sector_ready (read_done (at_word 256 c))"
    unfolding e_def [symmetric] r by (rule sector_ready_load)
  show "sectors_left (read_done (at_word 256 c)) = sectors_left c - 1"
    "image_data (read_done (at_word 256 c)) = image_data c"
    "image_size (read_done (at_word 256 c)) = image_size c"
    unfolding e_def [symmetric] r by (simp_all add: d_def e)
  show "lba28 (read_done (at_word 256 c)) = take_bit 28 (lba28 c + 1)"
    unfolding e_def [symmetric] r using l l2 by simp
qed

lemma take_bit28_lba [simp]: "take_bit 28 (lba28 c) = lba28 c"
  by (rule bit_eqI32) (auto simp: bit_take_bit_iff bit_lba28 dest: bit_imp_le_length)

lemma take_bit28_add: "take_bit 28 (take_bit 28 a + b) = take_bit 28 (a + b :: u32)"
proof -
  have t: "unat (take_bit 28 (x + y :: u32)) = (unat x + unat y) mod 2 ^ 28" for x y
    unfolding take_bit_eq_mask unat_and_mask by (simp add: unat_word_ariths mod_mod_cancel)
  have "unat (take_bit 28 a) = unat a mod 2 ^ 28"
    unfolding take_bit_eq_mask unat_and_mask by simp
  then have "unat (take_bit 28 (take_bit 28 a + b)) = unat (take_bit 28 (a + b))"
    by (simp only: t mod_add_left_eq)
  then show ?thesis by (simp only: word_unat_eq_iff)
qed

lemma take_bit28_Suc:
  "take_bit 28 (take_bit 28 (l + 1) + of_nat j) = take_bit 28 (l + of_nat (Suc j) :: u32)"
  unfolding take_bit28_add by (simp add: ac_simps)

definition sectors_from :: "bytes option \<Rightarrow> nat \<Rightarrow> u32 \<Rightarrow> nat \<Rightarrow> u32 list" where
  "sectors_from img n l k = concat (map (\<lambda>j. sector_words img n (take_bit 28 (l + of_nat j))) [0..<k])"

lemma sectors_from_Suc:
  "sectors_from img n l (Suc k) =
    sector_words img n (take_bit 28 l) @ sectors_from img n (take_bit 28 (l + 1)) k"
  unfolding sectors_from_def upt_conv_Cons [OF zero_less_Suc] map_Suc_upt [symmetric]
  by (simp add: comp_def take_bit28_Suc del: of_nat_Suc)

lemma read_all_sectors:
  assumes "sector_ready c" and "unat (sectors_left c) = m"
  shows "fst (read_words (256 * max 1 m) c) =
      sectors_from (image_data c) (image_size c) (lba28 c) (max 1 m)
    \<and> data_len (snd (read_words (256 * max 1 m) c)) = 0
    \<and> tf (snd (read_words (256 * max 1 m) c)) TF_STAT_CMD = ATA_DRDY_DSC"
  using assms
proof (induction m arbitrary: c rule: less_induct)
  case (less m)
  note r = read_sector [OF less.prems(1)]
  show ?case
  proof (cases "m \<le> 1")
    case True
    then have "sectors_left c \<le> 1" using less.prems(2) by (simp add: word_le_nat_alt)
    from read_done_last [of "at_word 256 c"] this
    have "data_len (read_done (at_word 256 c)) = 0 \<and> tf (read_done (at_word 256 c)) TF_STAT_CMD = ATA_DRDY_DSC"
      by (simp add: at_word_len)
    moreover have "max 1 m = 1" using True by simp
    ultimately show ?thesis
      using r by (simp add: sectors_from_def)
  next
    case False
    then have one: "1 < sectors_left c" using less.prems(2) by (simp add: word_less_nat_alt)
    define d where "d = read_done (at_word 256 c)"
    note d = read_sector_more [OF one, folded d_def]
    have left: "unat (sectors_left d) = m - 1"
      using d(2) less.prems(2) False by (simp add: unat_sub_if')
    have mx: "max 1 m = Suc (max 1 (m - 1))" using False by simp
    have rw: "read_words (256 * max 1 m) c =
      (sector_words (image_data c) (image_size c) (lba28 c) @ fst (read_words (256 * max 1 (m - 1)) d),
       snd (read_words (256 * max 1 (m - 1)) d))"
      unfolding mx mult_Suc_right read_words_add r d_def by simp
    show ?thesis
      unfolding rw unfolding mx sectors_from_Suc
      using less.IH [OF _ d(1) left] False d(3,4,5) by simp
  qed
qed

lemma read_command_ready:
  "sector_ready (ide_command 0x20 c)" "lba28 (ide_command 0x20 c) = lba28 c"
  "image_data (ide_command 0x20 c) = image_data c" "image_size (ide_command 0x20 c) = image_size c"
  "sectors_left (ide_command 0x20 c) = sector_count c - 1"
proof -
  define d where "d = c\<lparr>sectors_left := sector_count c\<rparr>"
  define e where "e = (load_sector (lba28 d) d)\<lparr>sectors_left := sector_count c - 1\<rparr>"
  have cmd: "ide_command 0x20 c = set_tf TF_ERR_FEAT 0 (set_tf TF_STAT_CMD ATA_DRDY_DSC_DRQ e)"
    by (simp add: ide_command_def Let_def d_def e_def)
  have l: "lba28 d = lba28 c" "lba28 e = lba28 c"
    by (rule lba28_tf; simp add: d_def e_def)+
  show "lba28 (ide_command 0x20 c) = lba28 c" "sectors_left (ide_command 0x20 c) = sector_count c - 1"
    "image_data (ide_command 0x20 c) = image_data c" "image_size (ide_command 0x20 c) = image_size c"
    by (simp_all add: cmd l) (simp_all add: e_def d_def)
  have "at_word 0 (ide_command 0x20 c) = ide_command 0x20 c"
    by (simp add: cmd at_word_def set_tf_def e_def load_sector_def)
  moreover have "data_buf e = data_buf (load_sector (lba28 d) d)" "image_data e = image_data d"
    "image_size e = image_size d"
    by (simp_all add: e_def)
  ultimately show "sector_ready (ide_command 0x20 c)"
    by (simp add: sector_ready_def cmd buf_words_load l)
qed

text \<open>One sector written.\<close>

lemma write_command:
  assumes "tf c TF_SECT_COUNT = 1"
  shows "at_word 0 (ide_command 0x30 c) = ide_command 0x30 c" "lba28 (ide_command 0x30 c) = lba28 c"
    "image_data (ide_command 0x30 c) = image_data c" "image_size (ide_command 0x30 c) = image_size c"
    "awaiting_packet (ide_command 0x30 c) = awaiting_packet c" "sectors_left (ide_command 0x30 c) = 1"
  using assms by (simp_all add: lba28_def ide_command_def Let_def sector_count_def at_word_def set_tf_def)

lemma write_done_last:
  assumes "sectors_left e = 1" and "image_data e = Some img" and "in_image (lba28 e) e"
  shows "write_done e = set_tf TF_STAT_CMD ATA_DRDY_DSC (e\<lparr>sectors_left := 0,
    image_data := Some (copy_bytes SECTOR_SIZE (data_buf e) 0 img (unat (lba28 e) * SECTOR_SIZE))\<rparr>)"
  using assms by (simp add: write_done_def store_sector_def Let_def set_tf_def)

lemma ld_copy_to:
  "2 * i + 2 \<le> n \<Longrightarrow> ld 2 (copy_bytes n src 0 dst d) (d + 2 * i) = ld 2 src (2 * i)"
  by (simp add: numeral_2_eq_2 copy_bytes_def)

lemma copy_sector_other:
  assumes "i div SECTOR_SIZE \<noteq> k"
  shows "copy_bytes SECTOR_SIZE src 0 img (k * SECTOR_SIZE) i = img i"
proof -
  have "\<not> (k * 512 \<le> i \<and> i < k * 512 + 512)"
    using assms div_nat_eqI [of 512 k i] by (auto simp: mult.commute)
  then show ?thesis unfolding copy_bytes_def by meson
qed

lemma written_sector_words:
  assumes "unat l * SECTOR_SIZE + SECTOR_SIZE \<le> n" and "length ws = 256"
  shows "sector_words (Some (copy_bytes SECTOR_SIZE (put_words 0 ws b) 0 img (unat l * SECTOR_SIZE))) n l
    = map (take_bit 16) ws"
proof (rule nth_equalityI)
  show "length (sector_words (Some (copy_bytes 512 (put_words 0 ws b) 0 img (unat l * 512))) n l)
      = length (map (take_bit 16) ws)"
    using assms by (simp add: sector_words_def)
  fix i assume "i < length (sector_words (Some (copy_bytes 512 (put_words 0 ws b) 0 img (unat l * 512))) n l)"
  then have i: "i < 256" using assms(1) by (simp add: sector_words_def)
  then show "sector_words (Some (copy_bytes 512 (put_words 0 ws b) 0 img (unat l * 512))) n l ! i
      = map (take_bit 16) ws ! i"
    using assms ld_copy_to [of i 512 "put_words 0 ws b" img "unat l * 512"] ld_put_words [of 0 ws b i]
    by (simp add: sector_words_def)
qed

section \<open>Properties\<close>

text \<open>After a READ SECTORS command with a sector count \<open>k\<close> (zero counting as one) the data port
  delivers consecutive sectors of the image from the programmed LBA, modulo 2^28, and then drops
  DRQ; but it delivers \<open>k - 1\<close> of them when \<open>k\<close> is at least two, because the command and the first
  drain both decrement the count.  Only \<open>k = 1\<close> delivers all that was asked for.\<close>
theorem ide_read_sectors:
  assumes "k = unat (sector_count c)"
  shows "let r = read_words (256 * max 1 (k - 1)) (ide_command 0x20 c) in
    fst r = sectors_from (image_data c) (image_size c) (lba28 c) (max 1 (k - 1))
    \<and> data_len (snd r) = 0 \<and> tf (snd r) TF_STAT_CMD = ATA_DRDY_DSC"
proof -
  have "1 \<le> k" using assms by (auto simp: sector_count_def unat_gt_0 Suc_le_eq)
  then have "unat (sectors_left (ide_command 0x20 c)) = k - 1"
    using assms by (simp add: read_command_ready unat_sub_if')
  from read_all_sectors [OF read_command_ready(1) this]
  show ?thesis unfolding Let_def read_command_ready .
qed

definition ide_demo :: ide_channel where
  "ide_demo = ide_channel_new\<lparr>present := True, tf := (tf ide_channel_new)(TF_SECT_COUNT := 3),
     image_data := Some of_nat, image_size := 4096\<rparr>"

theorem ide_read_sectors_witness:
  "let r = read_words (256 * max 1 (3 - 1)) (ide_command 0x20 ide_demo) in
    fst r = sectors_from (image_data ide_demo) (image_size ide_demo) (lba28 ide_demo) (max 1 (3 - 1))
    \<and> data_len (snd r) = 0 \<and> tf (snd r) TF_STAT_CMD = ATA_DRDY_DSC"
  by (rule ide_read_sectors) (simp add: sector_count_def ide_demo_def)

text \<open>C29: A sector written with WRITE SECTORS is read back by READ SECTORS word for word, the bytes
  of the image outside the sector are unchanged, and the write ends with DRQ clear.\<close>
theorem ide_write_read_roundtrip:
  assumes "image_data c = Some img" and "in_image (lba28 c) c" and "tf c TF_SECT_COUNT = 1"
    and "\<not> awaiting_packet c" and "length ws = 256"
  shows "let c' = write_words ws (ide_command 0x30 c) in
    fst (read_words 256 (ide_command 0x20 c')) = map (take_bit 16) ws
    \<and> tf c' TF_STAT_CMD = ATA_DRDY_DSC
    \<and> (\<exists>img'. image_data c' = Some img' \<and> (\<forall>i. i div SECTOR_SIZE \<noteq> unat (lba28 c) \<longrightarrow> img' i = img i))"
proof -
  define d where "d = ide_command 0x30 c"
  note d = write_command [OF assms(3), folded d_def]
  define e where "e = at_word 256 (d\<lparr>data_buf := put_words 0 ws (data_buf d)\<rparr>)"
  have e: "image_data e = Some img" "image_size e = image_size c" "sectors_left e = 1"
    "data_buf e = put_words 0 ws (data_buf d)" "tf e = tf d"
    by (simp_all add: e_def d assms(1))
  have le: "lba28 e = lba28 c" using lba28_tf [of e d] e d by simp
  define img' where "img' = copy_bytes SECTOR_SIZE (data_buf e) 0 img (unat (lba28 c) * SECTOR_SIZE)"
  have "ws \<noteq> []" using assms(5) by auto
  then have "write_words ws d = write_done e"
    using write_words_rest [of 0 ws d] d assms(4,5) by (simp add: e_def)
  then have w: "write_words ws d =
      set_tf TF_STAT_CMD ATA_DRDY_DSC (e\<lparr>sectors_left := 0, image_data := Some img'\<rparr>)"
    using write_done_last [OF e(3,1)] assms(2) e(2) le by (simp add: in_image_def img'_def)
  define c' where "c' = write_words ws d"
  have f: "image_data c' = Some img'" "image_size c' = image_size c" "tf c' TF_STAT_CMD = ATA_DRDY_DSC"
    unfolding c'_def w by (simp_all add: e)
  have "lba28 (e\<lparr>sectors_left := 0, image_data := Some img'\<rparr>) = lba28 e" by (rule lba28_tf) simp
  then have lc: "lba28 c' = lba28 c" unfolding c'_def w by (simp add: le)
  have "fst (read_words 256 (ide_command 0x20 c')) = sector_words (Some img') (image_size c) (lba28 c)"
    unfolding read_sector [OF read_command_ready(1)] fst_conv read_command_ready f lc ..
  also have "\<dots> = map (take_bit 16) ws"
    unfolding img'_def e(4) using assms(2,5) by (intro written_sector_words) (simp_all add: in_image_def)
  finally show ?thesis
    using f copy_sector_other unfolding d_def [symmetric] c'_def [symmetric] Let_def img'_def by blast
qed

theorem ide_write_read_roundtrip_witness:
  "let c' = write_words (replicate 256 0xBEEF) (ide_command 0x30 (set_tf TF_SECT_COUNT 1 ide_demo)) in
    fst (read_words 256 (ide_command 0x20 c')) = map (take_bit 16) (replicate 256 0xBEEF)
    \<and> tf c' TF_STAT_CMD = ATA_DRDY_DSC
    \<and> (\<exists>img'. image_data c' = Some img' \<and>
        (\<forall>i. i div SECTOR_SIZE \<noteq> unat (lba28 (set_tf TF_SECT_COUNT 1 ide_demo)) \<longrightarrow> img' i = of_nat i))"
  by (rule ide_write_read_roundtrip)
    (simp_all add: ide_demo_def ide_channel_new_def in_image_def lba28_def)

end
