(* ===== verification/Apu.thy ===== *)
theory Apu
  imports Address_Map
begin

text \<open>
  The audio processor's registers and voice memory (\<open>src/src/xbox/apu.hpp\<close>).
\<close>

abbreviation PAPU_ISTS :: u32 where "PAPU_ISTS \<equiv> 0x1000"
abbreviation PAPU_FETFORCE1 :: u32 where "PAPU_FETFORCE1 \<equiv> 0x1504"
abbreviation PAPU_GPISTS :: u32 where "PAPU_GPISTS \<equiv> 0x3004"
abbreviation PAPU_EPISTS :: u32 where "PAPU_EPISTS \<equiv> 0x4004"
abbreviation APU_REG_COUNT :: nat where "APU_REG_COUNT \<equiv> 0x5000 div 4"
abbreviation MAX_VOICES :: nat where "MAX_VOICES \<equiv> 256"
abbreviation VOICE_SIZE_DWORDS :: nat where "VOICE_SIZE_DWORDS \<equiv> 32"
abbreviation VP_BASE :: u32 where "VP_BASE \<equiv> 0x20000"
abbreviation VP_SIZE :: u32 where "VP_SIZE \<equiv> 0x8000"

record apu_state =
  apu_regs :: "u32 arr"
  voices :: "u32 arr"

definition apu_new :: apu_state where
  "apu_new = \<lparr>apu_regs = (\<lambda>_. 0), voices = (\<lambda>_. 0)\<rparr>"

definition apu_read :: "u32 \<Rightarrow> apu_state \<Rightarrow> u32 option" where
  "apu_read pa s =
     (let off = pa - APU_BASE in
      if VP_BASE \<le> off \<and> off < VP_BASE + VP_SIZE then
        aread (MAX_VOICES * VOICE_SIZE_DWORDS) (voices s) (unat (off - VP_BASE) div 4)
      else if unat off div 4 \<ge> APU_REG_COUNT then Some 0
      else do {
        val \<leftarrow> aread APU_REG_COUNT (apu_regs s) (unat off div 4);
        Some (if off = PAPU_FETFORCE1 then val OR push_bit 7 1 else val)
      })"

definition apu_write :: "u32 \<Rightarrow> u32 \<Rightarrow> apu_state \<Rightarrow> apu_state option" where
  "apu_write pa val s =
     (let off = pa - APU_BASE; i = unat off div 4 in
      if VP_BASE \<le> off \<and> off < VP_BASE + VP_SIZE then
        map_option (\<lambda>v. s\<lparr>voices := v\<rparr>)
          (awrite (MAX_VOICES * VOICE_SIZE_DWORDS) (voices s) (unat (off - VP_BASE) div 4) val)
      else if i \<ge> APU_REG_COUNT then Some s
      else map_option (\<lambda>r. s\<lparr>apu_regs := r\<rparr>)
        (awrite APU_REG_COUNT (apu_regs s) i
          (if off = PAPU_ISTS \<or> off = PAPU_GPISTS \<or> off = PAPU_EPISTS then apu_regs s i AND NOT val
           else val)))"

section \<open>Lemmas\<close>

definition in_voices :: "u32 \<Rightarrow> bool" where
  "in_voices off \<longleftrightarrow> VP_BASE \<le> off \<and> off < VP_BASE + VP_SIZE"

lemma voice_index: "in_voices off \<Longrightarrow> unat (off - VP_BASE) div 4 < MAX_VOICES * VOICE_SIZE_DWORDS"
  by (auto simp: in_voices_def word_le_nat_alt word_less_nat_alt unat_sub_if' div_less_iff_less_mult)

text \<open>No address makes the audio registers or the voice memory be accessed outside their arrays,
  and a read of the address written returns the value written in voice memory and in every
  ordinary register, with the idle bit 7 forced in FETFORCE1; the three status registers are
  write-one-to-clear; addresses past the register space read as zero.\<close>
theorem apu_write_read:
  "\<exists>s'. apu_write pa val s = Some s' \<and> apu_read pa s' = Some
     (let off = pa - APU_BASE in
      if in_voices off then val
      else if unat off div 4 \<ge> APU_REG_COUNT then 0
      else if off = PAPU_ISTS \<or> off = PAPU_GPISTS \<or> off = PAPU_EPISTS
        then apu_regs s (unat off div 4) AND NOT val
      else if off = PAPU_FETFORCE1 then val OR push_bit 7 1
      else val)"
proof -
  define off where "off = pa - APU_BASE"
  show ?thesis
    unfolding apu_write_def apu_read_def Let_def off_def [symmetric] in_voices_def [symmetric]
    using voice_index [of off] by (cases "in_voices off"; cases "unat off div 4 \<ge> APU_REG_COUNT") auto
qed

end
