(* ===== verification/Pgraph.thy ===== *)
theory Pgraph
  imports Prelude
begin

text \<open>
  The shadow of the 3D engine's state (\<open>src/src/xbox/pgraph.hpp\<close>): the method register file, the
  streaming uploads of vertex programs and constants, and the counters.  Floats are the 32 bits
  the methods carry.
\<close>

section \<open>State and operations\<close>

abbreviation NV097_SET_BEGIN_END :: u32 where "NV097_SET_BEGIN_END \<equiv> 0x17FC"
abbreviation NV097_SET_SURFACE_FORMAT :: u32 where "NV097_SET_SURFACE_FORMAT \<equiv> 0x0208"
abbreviation NV097_SET_SURFACE_PITCH :: u32 where "NV097_SET_SURFACE_PITCH \<equiv> 0x020C"
abbreviation NV097_SET_SURFACE_CLIP_HORIZONTAL :: u32 where "NV097_SET_SURFACE_CLIP_HORIZONTAL \<equiv> 0x0200"
abbreviation NV097_SET_SURFACE_CLIP_VERTICAL :: u32 where "NV097_SET_SURFACE_CLIP_VERTICAL \<equiv> 0x0204"
abbreviation NV097_PROGRAM_LOAD :: u32 where "NV097_PROGRAM_LOAD \<equiv> 0x1E9C"
abbreviation NV097_PROGRAM_START :: u32 where "NV097_PROGRAM_START \<equiv> 0x1EA0"
abbreviation NV097_CONSTANT_LOAD :: u32 where "NV097_CONSTANT_LOAD \<equiv> 0x1EA4"
abbreviation NV097_CONSTANT_START :: u32 where "NV097_CONSTANT_START \<equiv> 0x0B80"
abbreviation NV097_CLEAR_SURFACE :: u32 where "NV097_CLEAR_SURFACE \<equiv> 0x1D94"
abbreviation PG_REG_COUNT :: nat where "PG_REG_COUNT \<equiv> 2048"

record pgraph_state =
  pg_regs :: "u32 arr"
  vs_program_load :: u32
  vs_program :: "u32 arr"
  vs_program_write_pos :: u32
  vs_const_load :: u32
  vs_constants :: "nat \<Rightarrow> nat \<Rightarrow> u32"
  vs_const_write_pos :: u32
  draw_count :: u32
  clear_count :: u32
  total_methods :: u32
  clear_color_count :: u32
  clear_depth_count :: u32

definition pgraph_new :: pgraph_state where
  "pgraph_new = \<lparr>pg_regs = (\<lambda>_. 0), vs_program_load = 0, vs_program = (\<lambda>_. 0),
     vs_program_write_pos = 0, vs_const_load = 0, vs_constants = (\<lambda>_ _. 0), vs_const_write_pos = 0,
     draw_count = 0, clear_count = 0, total_methods = 0, clear_color_count = 0,
     clear_depth_count = 0\<rparr>"

definition pg_reg :: "u32 \<Rightarrow> pgraph_state \<Rightarrow> u32" where
  "pg_reg m s = pg_regs s (unat m div 4)"

definition set_pg_reg :: "u32 \<Rightarrow> u32 \<Rightarrow> pgraph_state \<Rightarrow> pgraph_state" where
  "set_pg_reg m v s = s\<lparr>pg_regs := (pg_regs s)(unat m div 4 := v)\<rparr>"

definition surface_color_format :: "pgraph_state \<Rightarrow> u32" where
  "surface_color_format s = pg_reg NV097_SET_SURFACE_FORMAT s AND 0xF"
definition surface_zeta_format :: "pgraph_state \<Rightarrow> u32" where
  "surface_zeta_format s = drop_bit 4 (pg_reg NV097_SET_SURFACE_FORMAT s) AND 0xF"
definition surface_type :: "pgraph_state \<Rightarrow> u32" where
  "surface_type s = drop_bit 8 (pg_reg NV097_SET_SURFACE_FORMAT s) AND 0xF"
definition surface_aa_mode :: "pgraph_state \<Rightarrow> u32" where
  "surface_aa_mode s = drop_bit 12 (pg_reg NV097_SET_SURFACE_FORMAT s) AND 0xF"
definition surface_width_log2 :: "pgraph_state \<Rightarrow> u32" where
  "surface_width_log2 s = drop_bit 16 (pg_reg NV097_SET_SURFACE_FORMAT s) AND 0xF"
definition surface_height_log2 :: "pgraph_state \<Rightarrow> u32" where
  "surface_height_log2 s = drop_bit 20 (pg_reg NV097_SET_SURFACE_FORMAT s) AND 0xF"
definition surface_color_pitch :: "pgraph_state \<Rightarrow> u32" where
  "surface_color_pitch s = pg_reg NV097_SET_SURFACE_PITCH s AND 0xFFFF"
definition surface_zeta_pitch :: "pgraph_state \<Rightarrow> u32" where
  "surface_zeta_pitch s = drop_bit 16 (pg_reg NV097_SET_SURFACE_PITCH s)"
definition surface_clip_x :: "pgraph_state \<Rightarrow> u32" where
  "surface_clip_x s = pg_reg NV097_SET_SURFACE_CLIP_HORIZONTAL s AND 0xFFFF"
definition surface_clip_width :: "pgraph_state \<Rightarrow> u32" where
  "surface_clip_width s = drop_bit 16 (pg_reg NV097_SET_SURFACE_CLIP_HORIZONTAL s)"
definition surface_clip_y :: "pgraph_state \<Rightarrow> u32" where
  "surface_clip_y s = pg_reg NV097_SET_SURFACE_CLIP_VERTICAL s AND 0xFFFF"
definition surface_clip_height :: "pgraph_state \<Rightarrow> u32" where
  "surface_clip_height s = drop_bit 16 (pg_reg NV097_SET_SURFACE_CLIP_VERTICAL s)"

definition handle_method :: "u32 \<Rightarrow> u32 \<Rightarrow> pgraph_state \<Rightarrow> pgraph_state" where
  "handle_method method data s0 =
     (let s = s0\<lparr>total_methods := total_methods s0 + 1\<rparr> in
      if method = NV097_SET_BEGIN_END then
        let s = (if pg_reg NV097_SET_BEGIN_END s = 0 \<and> data \<noteq> 0
                 then s\<lparr>draw_count := draw_count s + 1\<rparr> else s)
        in set_pg_reg method data s
      else if method = NV097_CLEAR_SURFACE then
        let s = set_pg_reg method data s;
            s = s\<lparr>clear_count := clear_count s + 1\<rparr>;
            s = (if data AND 0xF0 \<noteq> 0 then s\<lparr>clear_color_count := clear_color_count s + 1\<rparr> else s)
        in (if data AND 0x03 \<noteq> 0 then s\<lparr>clear_depth_count := clear_depth_count s + 1\<rparr> else s)
      else if method = NV097_PROGRAM_LOAD then
        set_pg_reg method data (s\<lparr>vs_program_load := data, vs_program_write_pos := data * 4\<rparr>)
      else if method = NV097_CONSTANT_LOAD then
        set_pg_reg method data (s\<lparr>vs_const_load := data, vs_const_write_pos := data * 4\<rparr>)
      else if NV097_PROGRAM_START \<le> method \<and> method < NV097_PROGRAM_START + 136 * 4 * 4 then
        let idx = unat (vs_program_write_pos s);
            s = (if idx < 136 * 4 then s\<lparr>vs_program := (vs_program s)(idx := data)\<rparr> else s)
        in s\<lparr>vs_program_write_pos := vs_program_write_pos s + 1\<rparr>
      else if NV097_CONSTANT_START \<le> method \<and> method < NV097_CONSTANT_START + 192 * 4 * 4 then
        let idx = unat (vs_const_write_pos s);
            s = (if idx < 192 * 4 then
                   s\<lparr>vs_constants := (vs_constants s)(idx div 4 :=
                     (vs_constants s (idx div 4))(idx mod 4 := data))\<rparr>
                 else s)
        in s\<lparr>vs_const_write_pos := vs_const_write_pos s + 1\<rparr>
      else if unat method div 4 < PG_REG_COUNT then set_pg_reg method data s
      else s)"

definition handle_methods :: "(u32 \<times> u32) list \<Rightarrow> pgraph_state \<Rightarrow> pgraph_state" where
  "handle_methods ms = fold (\<lambda>(m, d). handle_method m d) ms"

section \<open>Lemmas\<close>

text \<open>A method in the program-upload range that is not one of the special methods.\<close>

definition program_method :: "u32 \<Rightarrow> bool" where
  "program_method m \<longleftrightarrow> NV097_PROGRAM_START \<le> m \<and> m < NV097_PROGRAM_START + 136 * 4 * 4
     \<and> m \<noteq> NV097_CONSTANT_LOAD"

lemma handle_program:
  assumes "program_method m"
  shows "handle_method m d s =
    s\<lparr>total_methods := total_methods s + 1,
      vs_program := (if unat (vs_program_write_pos s) < 544
        then (vs_program s)(unat (vs_program_write_pos s) := d) else vs_program s),
      vs_program_write_pos := vs_program_write_pos s + 1\<rparr>"
proof -
  have "m \<noteq> NV097_SET_BEGIN_END" "m \<noteq> NV097_CLEAR_SURFACE" "m \<noteq> NV097_PROGRAM_LOAD"
    using assms by (auto simp: program_method_def)
  then show ?thesis
    using assms by (simp add: handle_method_def Let_def program_method_def)
qed

lemma upload_program:
  assumes "\<forall>x \<in> set ms. program_method (fst x)" and "unat (vs_program_write_pos s) = p"
    and "p + length ms \<le> 544"
  shows "vs_program (handle_methods ms s) =
      (\<lambda>i. if p \<le> i \<and> i < p + length ms then snd (ms ! (i - p)) else vs_program s i)
    \<and> unat (vs_program_write_pos (handle_methods ms s)) = p + length ms"
  using assms
proof (induction ms arbitrary: s p)
  case Nil
  then show ?case by (auto simp: handle_methods_def fun_eq_iff)
next
  case (Cons x ms)
  obtain m d where x: "x = (m, d)" by fastforce
  define t where "t = handle_method m d s"
  have pm: "program_method m" using Cons.prems(1) x by simp
  have p: "p < 544" using Cons.prems(3) by simp
  have t: "vs_program t = (vs_program s)(p := d)" "unat (vs_program_write_pos t) = Suc p"
    using handle_program [OF pm, of d s] Cons.prems(2) p
    by (simp_all add: t_def unat_word_ariths)
  have step: "handle_methods (x # ms) s = handle_methods ms t"
    by (simp add: handle_methods_def x t_def)
  have "vs_program (handle_methods ms t) =
      (\<lambda>i. if Suc p \<le> i \<and> i < Suc p + length ms then snd (ms ! (i - Suc p)) else vs_program t i)
    \<and> unat (vs_program_write_pos (handle_methods ms t)) = Suc p + length ms"
    using Cons.prems t(2) by (intro Cons.IH) auto
  then show ?case
    unfolding step by (auto simp: t x fun_eq_iff nth_Cons' Suc_diff_Suc)
qed

text \<open>The rising edges of a sequence of values, from a previous value.\<close>

fun rises :: "u32 \<Rightarrow> u32 list \<Rightarrow> nat" where
  "rises v [] = 0"
| "rises v (d # ds) = (if v = 0 \<and> d \<noteq> 0 then 1 else 0) + rises d ds"

lemma begin_end_reg:
  assumes "m \<noteq> NV097_SET_BEGIN_END" and "4 dvd unat m"
  shows "pg_reg NV097_SET_BEGIN_END (handle_method m d s) = pg_reg NV097_SET_BEGIN_END s"
    and "draw_count (handle_method m d s) = draw_count s"
proof -
  have "unat m div 4 \<noteq> 0x17FC div 4"
  proof
    assume "unat m div 4 = 0x17FC div 4"
    then have "unat m = 0x17FC" using assms(2) by auto
    then have "unat m = unat (0x17FC :: u32)" by simp
    then show False using assms(1) by (simp only: word_unat_eq_iff)
  qed
  then show "pg_reg NV097_SET_BEGIN_END (handle_method m d s) = pg_reg NV097_SET_BEGIN_END s"
    and "draw_count (handle_method m d s) = draw_count s"
    using assms(1) by (simp_all add: handle_method_def Let_def pg_reg_def set_pg_reg_def)
qed

section \<open>Properties\<close>

text \<open>The draw counter counts the rising edges of SET_BEGIN_END in any sequence of aligned
  methods: each begin with a non-zero primitive after an end, whatever comes in between.\<close>
theorem draw_count_rises:
  assumes "\<forall>(m, d) \<in> set ms. 4 dvd unat m"
  shows "draw_count (handle_methods ms s) = draw_count s +
    of_nat (rises (pg_reg NV097_SET_BEGIN_END s) (map snd (filter (\<lambda>(m, d). m = NV097_SET_BEGIN_END) ms)))"
  using assms
proof (induction ms arbitrary: s)
  case Nil
  then show ?case by (simp add: handle_methods_def)
next
  case (Cons x ms)
  obtain m d where x: "x = (m, d)" by fastforce
  have step: "handle_methods (x # ms) s = handle_methods ms (handle_method m d s)"
    by (simp add: handle_methods_def x)
  have ih: "draw_count (handle_methods ms t) = draw_count t +
    of_nat (rises (pg_reg NV097_SET_BEGIN_END t) (map snd (filter (\<lambda>(m, d). m = NV097_SET_BEGIN_END) ms)))" for t
    using Cons by simp
  show ?case
  proof (cases "m = NV097_SET_BEGIN_END")
    case True
    then show ?thesis
      unfolding step ih
      by (simp add: x handle_method_def Let_def pg_reg_def set_pg_reg_def)
  next
    case False
    then show ?thesis
      using begin_end_reg [OF False] Cons.prems unfolding step ih by (simp add: x)
  qed
qed

theorem draw_count_rises_example:
  "draw_count (handle_methods [(0x17FC, 5), (0x1818, 9), (0x17FC, 0), (0x17FC, 4)] pgraph_new) =
    draw_count pgraph_new + of_nat (rises (pg_reg NV097_SET_BEGIN_END pgraph_new)
      (map snd (filter (\<lambda>(m, d). m = NV097_SET_BEGIN_END)
        [(0x17FC, 5), (0x1818, 9), (0x17FC, 0), (0x17FC, 4)])))"
  by (rule draw_count_rises) simp

text \<open>A vertex program uploaded from slot \<open>n\<close> on, word by word and within the 136 slots, is in
  the program store exactly where it was asked to be, and no other word of it changes.\<close>
theorem vertex_program_upload:
  assumes "n < 136" and "\<forall>x \<in> set ms. program_method (fst x)" and "4 * n + length ms \<le> 544"
  shows "vs_program (handle_methods ms (handle_method NV097_PROGRAM_LOAD (of_nat n) s)) =
    (\<lambda>i. if 4 * n \<le> i \<and> i < 4 * n + length ms then snd (ms ! (i - 4 * n)) else vs_program s i)"
proof -
  let ?t = "handle_method NV097_PROGRAM_LOAD (of_nat n) s"
  have "unat (of_nat n * 4 :: u32) = 4 * n"
    using assms(1) by (simp add: unat_word_ariths unat_of_nat)
  then have "unat (vs_program_write_pos ?t) = 4 * n" "vs_program ?t = vs_program s"
    by (simp_all add: handle_method_def Let_def set_pg_reg_def)
  with upload_program [OF assms(2) _ assms(3), of ?t] show ?thesis by (auto simp: fun_eq_iff)
qed

theorem vertex_program_upload_example:
  "vs_program (handle_methods [(0x1EA0, 7), (0x1EA8, 8)] (handle_method NV097_PROGRAM_LOAD (of_nat 3) pgraph_new)) =
    (\<lambda>i. if 4 * 3 \<le> i \<and> i < 4 * 3 + length [(0x1EA0, 7), (0x1EA8 :: u32, 8 :: u32)]
      then snd ([(0x1EA0 :: u32, 7), (0x1EA8, 8)] ! (i - 4 * 3)) else vs_program pgraph_new i)"
  by (rule vertex_program_upload) (simp_all add: program_method_def)

end
