(* ===== verification/Nv2a.thy ===== *)
theory Nv2a
  imports Address_Map Pic
begin

text \<open>
  The graphics chip's register file (\<open>src/src/xbox/nv2a.hpp\<close>): the register blocks, the timer and
  vertical-blank tick, the aggregation of the block interrupts into PMC_INTR_0 and the PCI
  interrupt line (\<open>update_irq\<close>, with the callback of \<open>src/src/xbox/setup.hpp\<close> that drives IRQ 3), and
  the MMIO callbacks.  The PFIFO pusher is in \<open>Nv2aFifo\<close>.

  The code's \<open>pramin_ram\<close> is null or guest memory, and \<open>fastmem_nv2a\<close> is null or the place of the
  chip in the executor's address window; both become flags, and the memory is part of the
  environment \<open>nv_env\<close> together with the interrupt controller and the wake-up signal of the
  pusher thread.  Diagnostic output is left out.
\<close>

section \<open>Register offsets\<close>

abbreviation PMC_BOOT_0 :: nat where "PMC_BOOT_0 \<equiv> 0x000"
abbreviation PMC_INTR_0 :: nat where "PMC_INTR_0 \<equiv> 0x100"
abbreviation PMC_INTR_EN :: nat where "PMC_INTR_EN \<equiv> 0x140"
abbreviation PMC_ENABLE :: nat where "PMC_ENABLE \<equiv> 0x200"
abbreviation NV2A_CHIP_ID :: u32 where "NV2A_CHIP_ID \<equiv> 0x02A000A1"
abbreviation PMC_INTR_PFIFO :: u32 where "PMC_INTR_PFIFO \<equiv> 0x100"
abbreviation PMC_INTR_PVIDEO :: u32 where "PMC_INTR_PVIDEO \<equiv> 0x10000"
abbreviation PMC_INTR_PTIMER :: u32 where "PMC_INTR_PTIMER \<equiv> 0x100000"
abbreviation PMC_INTR_PCRTC :: u32 where "PMC_INTR_PCRTC \<equiv> 0x1000000"
abbreviation PMC_INTR_PBUS :: u32 where "PMC_INTR_PBUS \<equiv> 0x10000000"
abbreviation BLK_INTR :: nat where "BLK_INTR \<equiv> 0x100"
abbreviation BLK_INTR_EN :: nat where "BLK_INTR_EN \<equiv> 0x140"
abbreviation PBUS_FBIO_RAM :: nat where "PBUS_FBIO_RAM \<equiv> 0x218"
abbreviation PFIFO_RUNOUT_STATUS :: nat where "PFIFO_RUNOUT_STATUS \<equiv> 0x0400"
abbreviation PFIFO_RAMFC :: nat where "PFIFO_RAMFC \<equiv> 0x0214"
abbreviation CACHE1_PUSH0 :: nat where "CACHE1_PUSH0 \<equiv> 0x1200"
abbreviation CACHE1_PUSH1 :: nat where "CACHE1_PUSH1 \<equiv> 0x1204"
abbreviation CACHE1_STATUS :: nat where "CACHE1_STATUS \<equiv> 0x1214"
abbreviation CACHE1_DMA_PUSH :: nat where "CACHE1_DMA_PUSH \<equiv> 0x1220"
abbreviation CACHE1_DMA_STATE :: nat where "CACHE1_DMA_STATE \<equiv> 0x1228"
abbreviation CACHE1_DMA_INSTANCE :: nat where "CACHE1_DMA_INSTANCE \<equiv> 0x122C"
abbreviation CACHE1_DMA_PUT :: nat where "CACHE1_DMA_PUT \<equiv> 0x1240"
abbreviation CACHE1_DMA_GET :: nat where "CACHE1_DMA_GET \<equiv> 0x1244"
abbreviation CACHE1_REF :: nat where "CACHE1_REF \<equiv> 0x1248"
abbreviation CACHE1_DMA_SUBROUTINE :: nat where "CACHE1_DMA_SUBROUTINE \<equiv> 0x124C"
abbreviation STATUS_IDLE :: u32 where "STATUS_IDLE \<equiv> 0x10"
abbreviation PTIMER_NUM :: nat where "PTIMER_NUM \<equiv> 0x200"
abbreviation PTIMER_DEN :: nat where "PTIMER_DEN \<equiv> 0x210"
abbreviation PTIMER_TIME_0 :: nat where "PTIMER_TIME_0 \<equiv> 0x400"
abbreviation PTIMER_TIME_1 :: nat where "PTIMER_TIME_1 \<equiv> 0x410"
abbreviation PTIMER_ALARM_0 :: nat where "PTIMER_ALARM_0 \<equiv> 0x420"
abbreviation PFB_CFG0 :: nat where "PFB_CFG0 \<equiv> 0x200"
abbreviation PGRAPH_FIFO :: nat where "PGRAPH_FIFO \<equiv> 0x720"
abbreviation PCRTC_RASTER :: nat where "PCRTC_RASTER \<equiv> 0x808"
abbreviation NTSC_TOTAL_LINES :: nat where "NTSC_TOTAL_LINES \<equiv> 525"
abbreviation PRAMDAC_NVPLL :: nat where "PRAMDAC_NVPLL \<equiv> 0x500"
abbreviation PRAMDAC_MPLL :: nat where "PRAMDAC_MPLL \<equiv> 0x504"
abbreviation PRAMDAC_VPLL :: nat where "PRAMDAC_VPLL \<equiv> 0x508"
abbreviation PRAMDAC_FP_DEBUG0 :: nat where "PRAMDAC_FP_DEBUG0 \<equiv> 0x600"
abbreviation PMC_COUNT :: nat where "PMC_COUNT \<equiv> 0x100"
abbreviation PBUS_COUNT :: nat where "PBUS_COUNT \<equiv> 0x100"
abbreviation PFIFO_COUNT :: nat where "PFIFO_COUNT \<equiv> 0x800"
abbreviation PVIDEO_COUNT :: nat where "PVIDEO_COUNT \<equiv> 0x280"
abbreviation PTIMER_COUNT :: nat where "PTIMER_COUNT \<equiv> 0x200"
abbreviation PFB_COUNT :: nat where "PFB_COUNT \<equiv> 0x180"
abbreviation PGRAPH_COUNT :: nat where "PGRAPH_COUNT \<equiv> 0x800"
abbreviation PCRTC_COUNT :: nat where "PCRTC_COUNT \<equiv> 0x400"
abbreviation PRAMDAC_COUNT :: nat where "PRAMDAC_COUNT \<equiv> 0x400"
abbreviation PRAMIN_SIZE :: nat where "PRAMIN_SIZE \<equiv> 0x100000"
abbreviation NS_PER_TICK :: u64 where "NS_PER_TICK \<equiv> 800"
abbreviation VBLANK_PERIOD :: u32 where "VBLANK_PERIOD \<equiv> 600"

section \<open>State\<close>

record nv2a_state =
  pmc_regs :: "u32 arr"
  pbus_regs :: "u32 arr"
  pfifo_regs :: "u32 arr"
  pvideo_regs :: "u32 arr"
  ptimer_regs :: "u32 arr"
  pfb_regs :: "u32 arr"
  pgraph_regs :: "u32 arr"
  pcrtc_regs :: "u32 arr"
  pramdac_regs :: "u32 arr"
  pramin :: bytes
  pramin_ram :: bool
  pramin_ram_base :: u32
  pramin_ram_size :: u32
  ptimer_ns :: u64
  pbus_pci_mirror :: bytes
  vblank_counter :: u32
  diag_methods :: u32
  diag_dwords :: u32
  diag_jumps :: u32
  diag_calls :: u32
  fifo_get :: u32
  fifo_get_valid :: bool
  gpu_shader_get :: u32
  notifier_ctx :: "u32 arr"
  fastmem_nv2a :: bool

record nv_env =
  nv :: nv2a_state
  nv_pic :: pic_pair
  nv_ram :: bytes
  notified :: bool

definition pci_mirror_init :: bytes where
  "pci_mirror_init = fold (\<lambda>f. f)
     [\<lambda>m. st 2 m 0x00 0x10DE, \<lambda>m. st 2 m 0x02 0x02A0, \<lambda>m. st 2 m 0x04 0x0007, \<lambda>m. st 2 m 0x06 0x00B0,
      \<lambda>m. m(0x08 := 0xA1, 0x09 := 0x00, 0x0A := 0x00, 0x0B := 0x03, 0x0E := 0x00),
      \<lambda>m. st 4 m 0x10 0xFD000000, \<lambda>m. st 4 m 0x14 0xF0000000,
      \<lambda>m. m(0x3C := 3, 0x3D := 1)] (\<lambda>_. 0)"

definition nv2a_new :: nv2a_state where
  "nv2a_new = \<lparr>
     pmc_regs = (\<lambda>_. 0)(PMC_BOOT_0 div 4 := NV2A_CHIP_ID, 0x044 div 4 := NV2A_CHIP_ID,
       PMC_ENABLE div 4 := 0xFFFFFFFF),
     pbus_regs = (\<lambda>_. 0)(PBUS_FBIO_RAM div 4 := 3),
     pfifo_regs = (\<lambda>_. 0)(CACHE1_STATUS div 4 := STATUS_IDLE, PFIFO_RUNOUT_STATUS div 4 := STATUS_IDLE),
     pvideo_regs = (\<lambda>_. 0),
     ptimer_regs = (\<lambda>_. 0)(PTIMER_NUM div 4 := 1, PTIMER_DEN div 4 := 1),
     pfb_regs = (\<lambda>_. 0)(PFB_CFG0 div 4 := 0x03070103),
     pgraph_regs = (\<lambda>_. 0)(PGRAPH_FIFO div 4 := 1),
     pcrtc_regs = (\<lambda>_. 0),
     pramdac_regs = (\<lambda>_. 0)(PRAMDAC_NVPLL div 4 := 0x00011C01, PRAMDAC_MPLL div 4 := 0x00011801,
       PRAMDAC_VPLL div 4 := 0x00031801),
     pramin = (\<lambda>_. 0), pramin_ram = False, pramin_ram_base = 0, pramin_ram_size = 0,
     ptimer_ns = 0, pbus_pci_mirror = pci_mirror_init, vblank_counter = 0, diag_methods = 0,
     diag_dwords = 0, diag_jumps = 0, diag_calls = 0, fifo_get = 0, fifo_get_valid = False,
     gpu_shader_get = 0, notifier_ctx = (\<lambda>_. 0), fastmem_nv2a = False\<rparr>"

section \<open>Interrupts and the timer\<close>

text \<open>The interrupt line of the chip: PIC IRQ 3.\<close>

definition nv2a_irq_callback :: "bool \<Rightarrow> pic_pair \<Rightarrow> pic_pair" where
  "nv2a_irq_callback level pic = (if level then raise_irq 3 pic else lower_irq 3 pic)"

text \<open>One block's contribution to PMC_INTR_0.\<close>

definition aggregate :: "u32 \<Rightarrow> u32 arr \<Rightarrow> u32 \<Rightarrow> u32" where
  "aggregate m regs pending =
     (if regs (BLK_INTR div 4) AND regs (BLK_INTR_EN div 4) \<noteq> 0 then pending OR m
      else pending AND NOT m)"

definition update_irq :: "nv_env \<Rightarrow> nv_env" where
  "update_irq e =
     (let n = nv e;
          pending = pmc_regs n (PMC_INTR_0 div 4);
          pending = aggregate PMC_INTR_PFIFO (pfifo_regs n) pending;
          pending = aggregate PMC_INTR_PCRTC (pcrtc_regs n) pending;
          pending = aggregate PMC_INTR_PTIMER (ptimer_regs n) pending;
          pending = aggregate PMC_INTR_PVIDEO (pvideo_regs n) pending;
          pending = aggregate PMC_INTR_PBUS (pbus_regs n) pending;
          level = (pending \<noteq> 0 \<and> pmc_regs n (PMC_INTR_EN div 4) AND 1 \<noteq> 0);
          w = unat NV2A_BASE;
          ram = nv_ram e in
      e\<lparr>nv := n\<lparr>pmc_regs := (pmc_regs n)(PMC_INTR_0 div 4 := pending)\<rparr>,
        nv_pic := nv2a_irq_callback level (nv_pic e),
        nv_ram := (if fastmem_nv2a n then
            st 4 (st 4 (st 4 ram (w + 0x000100) pending)
              (w + 0x600100) (pcrtc_regs n (BLK_INTR div 4)))
              (w + 0x600140) (pcrtc_regs n (BLK_INTR_EN div 4))
          else ram)\<rparr>)"

definition nv_tick_timer :: "nv_env \<Rightarrow> nv_env" where
  "nv_tick_timer e =
     (let n = nv e;
          n = n\<lparr>ptimer_ns := ptimer_ns n + NS_PER_TICK\<rparr>;
          alarm_lo = ptimer_regs n (PTIMER_ALARM_0 div 4);
          time_lo = ucast (ptimer_ns n AND 0xFFFFFFE0);
          i = BLK_INTR div 4;
          n = (if alarm_lo \<noteq> 0 \<and> time_lo \<ge> alarm_lo
               then n\<lparr>ptimer_regs := (ptimer_regs n)(i := ptimer_regs n i OR 1)\<rparr> else n);
          n = n\<lparr>vblank_counter := vblank_counter n + 1\<rparr>;
          n = (if vblank_counter n \<ge> VBLANK_PERIOD then
                 let n = n\<lparr>vblank_counter := 0\<rparr> in
                 if pcrtc_regs n (BLK_INTR_EN div 4) AND 1 \<noteq> 0 \<and> pcrtc_regs n i AND 1 = 0
                 then n\<lparr>pcrtc_regs := (pcrtc_regs n)(i := pcrtc_regs n i OR 1)\<rparr> else n
               else n)
      in update_irq (e\<lparr>nv := n\<rparr>))"

section \<open>Reads\<close>

definition nv_block :: "nat \<Rightarrow> u32 arr \<Rightarrow> nat \<Rightarrow> u32" where
  "nv_block N regs r = (if r div 4 < N then regs (r div 4) else 0)"

definition nv_raster :: "nv2a_state \<Rightarrow> u32" where
  "nv_raster n = (vblank_counter n * of_nat NTSC_TOTAL_LINES) div VBLANK_PERIOD"

text \<open>The channel control area: the larger of the two GET positions.\<close>

definition nv_user_read :: "nat \<Rightarrow> nv2a_state \<Rightarrow> u32" where
  "nv_user_read chan_off n =
     (if chan_off = 0x44 then
        let fg = (if fifo_get_valid n then fifo_get n else pfifo_regs n (CACHE1_DMA_PUT div 4));
            sg = gpu_shader_get n
        in (if sg > fg then sg else fg)
      else if chan_off = 0x40 then pfifo_regs n (CACHE1_DMA_PUT div 4)
      else if chan_off = 0x48 then pfifo_regs n (CACHE1_REF div 4)
      else 0)"

definition nv_pramin_read :: "nat \<Rightarrow> nv_env \<Rightarrow> u32 option" where
  "nv_pramin_read r e =
     (let n = nv e in
      if pramin_ram n \<and> r + 4 \<le> unat (pramin_ram_size n) then
        rd GUEST_RAM_SIZE 4 (nv_ram e) (unat (pramin_ram_base n) + r)
      else if r + 3 < PRAMIN_SIZE then rd PRAMIN_SIZE 4 (pramin n) r
      else Some 0)"

definition nv2a_read :: "u32 \<Rightarrow> nv_env \<Rightarrow> u32 option" where
  "nv2a_read pa e =
     (let off = unat (pa - NV2A_BASE); n = nv e in
      if off < 0x001000 then Some (nv_block PMC_COUNT (pmc_regs n) off)
      else if off < 0x002000 then
        let r = off - 0x001000 in
        if r \<ge> 0x800 \<and> r < 0x900 then rd 256 4 (pbus_pci_mirror n) (r - 0x800)
        else Some (nv_block PBUS_COUNT (pbus_regs n) r)
      else if off < 0x004000 then
        let r = off - 0x002000 in
        if r = CACHE1_DMA_STATE then
          Some (if pfifo_regs n (CACHE1_DMA_PUSH div 4) AND 1 \<noteq> 0 \<and>
              pfifo_regs n (CACHE1_DMA_GET div 4) \<noteq> pfifo_regs n (CACHE1_DMA_PUT div 4)
            then 1 else 0)
        else Some (nv_block PFIFO_COUNT (pfifo_regs n) r)
      else if off \<ge> 0x008000 \<and> off < 0x009000 then
        Some (nv_block PVIDEO_COUNT (pvideo_regs n) (off - 0x008000))
      else if off \<ge> 0x009000 \<and> off < 0x00A000 then
        let r = off - 0x009000 in
        if r = PTIMER_TIME_0 then Some (ucast (ptimer_ns n AND 0xFFFFFFE0))
        else if r = PTIMER_TIME_1 then Some (ucast (drop_bit 32 (ptimer_ns n)))
        else Some (nv_block PTIMER_COUNT (ptimer_regs n) r)
      else if off \<ge> 0x100000 \<and> off < 0x101000 then
        let r = off - 0x100000 in
        if r div 4 < PFB_COUNT then
          Some (if r \<ge> 0x400 then pfb_regs n (r div 4) AND NOT 0x00010000 else pfb_regs n (r div 4))
        else Some 0
      else if off \<ge> 0x400000 \<and> off < 0x402000 then
        Some (nv_block PGRAPH_COUNT (pgraph_regs n) (off - 0x400000))
      else if off \<ge> 0x600000 \<and> off < 0x601000 then
        let r = off - 0x600000 in
        if r = PCRTC_RASTER then Some (nv_raster n)
        else Some (nv_block PCRTC_COUNT (pcrtc_regs n) r)
      else if off \<ge> 0x680000 \<and> off < 0x681000 then
        let r = off - 0x680000 in
        if r = PRAMDAC_FP_DEBUG0 then Some 0x00000101
        else Some (nv_block PRAMDAC_COUNT (pramdac_regs n) r)
      else if off \<ge> 0x700000 \<and> off < 0x800000 then nv_pramin_read (off - 0x700000) e
      else if off \<ge> 0x800000 then Some (nv_user_read (off mod 0x10000) n)
      else Some 0)"

section \<open>Writes\<close>

definition upd_block :: "nat \<Rightarrow> u32 arr \<Rightarrow> nat \<Rightarrow> u32 \<Rightarrow> u32 arr" where
  "upd_block N regs r v = (if r div 4 < N then regs(r div 4 := v) else regs)"

definition upd_pfifo :: "nat \<Rightarrow> u32 \<Rightarrow> nv_env \<Rightarrow> nv_env" where
  "upd_pfifo r v e = e\<lparr>nv := (nv e)\<lparr>pfifo_regs := (pfifo_regs (nv e))(r div 4 := v)\<rparr>\<rparr>"

text \<open>Push is active: both enable bits.\<close>

definition enable_push :: "nv_env \<Rightarrow> nv_env" where
  "enable_push e =
     (let e = upd_pfifo CACHE1_DMA_PUSH (pfifo_regs (nv e) (CACHE1_DMA_PUSH div 4) OR 1) e
      in upd_pfifo CACHE1_PUSH0 (pfifo_regs (nv e) (CACHE1_PUSH0 div 4) OR 1) e)"

text \<open>The saved channel context: its offset in instance memory, and PUT and GET loaded from it.\<close>

definition ramfc_ctx_off :: "nv2a_state \<Rightarrow> u32" where
  "ramfc_ctx_off n =
     push_bit 4 (drop_bit 12 (pfifo_regs n (PFIFO_RAMFC div 4)) AND 0x1FFF)
       + (pfifo_regs n (CACHE1_PUSH1 div 4) AND 0x1F) * 64"

definition ramfc_load :: "nv_env \<Rightarrow> nv_env option" where
  "ramfc_load e =
     (let n = nv e; ctx_off = ramfc_ctx_off n; ram_addr = pramin_ram_base n + ctx_off;
          in_ram = (pramin_ram n \<and> ram_addr + 64 \<le> pramin_ram_base n + pramin_ram_size n) in
      do {
        put0 \<leftarrow> (if in_ram then rd GUEST_RAM_SIZE 4 (nv_ram e) (unat ram_addr) else Some 0);
        get0 \<leftarrow> (if in_ram then rd GUEST_RAM_SIZE 4 (nv_ram e) (unat ram_addr + 4) else Some 0);
        let fallback = (put0 = 0 \<and> get0 = 0 \<and> unat ctx_off + 64 \<le> PRAMIN_SIZE);
        put \<leftarrow> (if fallback then rd PRAMIN_SIZE 4 (pramin n) (unat ctx_off) else Some put0);
        get \<leftarrow> (if fallback then rd PRAMIN_SIZE 4 (pramin n) (unat ctx_off + 4) else Some get0);
        Some (if put \<noteq> 0 \<or> get \<noteq> 0
              then enable_push (upd_pfifo CACHE1_DMA_GET get (upd_pfifo CACHE1_DMA_PUT put e))
              else e)
      })"

definition nv_pfifo_write :: "nat \<Rightarrow> u32 \<Rightarrow> nv_env \<Rightarrow> nv_env option" where
  "nv_pfifo_write r val e =
     (let n = nv e in
      if r = BLK_INTR then
        Some (update_irq (upd_pfifo r (pfifo_regs n (r div 4) AND NOT val) e))
      else
        let e = e\<lparr>nv := n\<lparr>pfifo_regs := upd_block PFIFO_COUNT (pfifo_regs n) r val\<rparr>\<rparr>;
            e = (if r = BLK_INTR_EN then update_irq e else e);
            e = (if r = CACHE1_DMA_PUT then enable_push e else e) in
        do {
          e \<leftarrow> (if r = CACHE1_PUSH1 \<or> (r = CACHE1_PUSH0 \<and> val AND 1 \<noteq> 0) then ramfc_load e
                else Some e);
          Some (if r = CACHE1_DMA_PUT \<or> r = CACHE1_PUSH0 \<or> r = CACHE1_DMA_PUSH \<or> r = CACHE1_DMA_GET
                then e\<lparr>notified := True\<rparr> else e)
        })"

definition nv_pramin_write :: "nat \<Rightarrow> u32 \<Rightarrow> nv_env \<Rightarrow> nv_env option" where
  "nv_pramin_write r val e =
     (let n = nv e in
      if pramin_ram n \<and> r + 4 \<le> unat (pramin_ram_size n) then
        map_option (\<lambda>m. e\<lparr>nv_ram := m\<rparr>)
          (wr GUEST_RAM_SIZE 4 (nv_ram e) (unat (pramin_ram_base n) + r) val)
      else if r + 3 < PRAMIN_SIZE then
        map_option (\<lambda>m. e\<lparr>nv := n\<lparr>pramin := m\<rparr>\<rparr>) (wr PRAMIN_SIZE 4 (pramin n) r val)
      else Some e)"

definition nv_user_write :: "nat \<Rightarrow> u32 \<Rightarrow> nv_env \<Rightarrow> nv_env" where
  "nv_user_write chan_off val e =
     (if chan_off = 0x40 then (enable_push (upd_pfifo CACHE1_DMA_PUT val e))\<lparr>notified := True\<rparr>
      else e)"

definition nv_pmc_write :: "nat \<Rightarrow> u32 \<Rightarrow> nv_env \<Rightarrow> nv_env" where
  "nv_pmc_write off val e =
     (let n = nv e in
      if off = PMC_INTR_0 then
        update_irq (e\<lparr>nv := n\<lparr>pmc_regs := (pmc_regs n)(off div 4 := pmc_regs n (off div 4) AND NOT val)\<rparr>\<rparr>)
      else
        let e = e\<lparr>nv := n\<lparr>pmc_regs := upd_block PMC_COUNT (pmc_regs n) off val\<rparr>\<rparr> in
        if off = PMC_INTR_EN then update_irq e else e)"

definition nv_pbus_write :: "nat \<Rightarrow> u32 \<Rightarrow> nv_env \<Rightarrow> nv_env option" where
  "nv_pbus_write r val e =
     (let n = nv e in
      if r = BLK_INTR then
        Some (update_irq (e\<lparr>nv := n\<lparr>pbus_regs := (pbus_regs n)(r div 4 := pbus_regs n (r div 4) AND NOT val)\<rparr>\<rparr>))
      else if r \<ge> 0x800 \<and> r < 0x900 then
        map_option (\<lambda>m. e\<lparr>nv := n\<lparr>pbus_pci_mirror := m\<rparr>\<rparr>) (wr 256 4 (pbus_pci_mirror n) (r - 0x800) val)
      else Some (e\<lparr>nv := n\<lparr>pbus_regs := upd_block PBUS_COUNT (pbus_regs n) r val\<rparr>\<rparr>))"

text \<open>The blocks that share one shape: write-one-to-clear status, enable, plain registers.\<close>

definition nv_pvideo_write :: "nat \<Rightarrow> u32 \<Rightarrow> nv_env \<Rightarrow> nv_env" where
  "nv_pvideo_write r val e =
     (let n = nv e in
      if r = BLK_INTR then
        update_irq (e\<lparr>nv := n\<lparr>pvideo_regs := (pvideo_regs n)(r div 4 := pvideo_regs n (r div 4) AND NOT val)\<rparr>\<rparr>)
      else
        let e = e\<lparr>nv := n\<lparr>pvideo_regs := upd_block PVIDEO_COUNT (pvideo_regs n) r val\<rparr>\<rparr> in
        if r = BLK_INTR_EN then update_irq e else e)"

definition nv_ptimer_write :: "nat \<Rightarrow> u32 \<Rightarrow> nv_env \<Rightarrow> nv_env" where
  "nv_ptimer_write r val e =
     (let n = nv e in
      if r = BLK_INTR then
        update_irq (e\<lparr>nv := n\<lparr>ptimer_regs := (ptimer_regs n)(r div 4 := ptimer_regs n (r div 4) AND NOT val)\<rparr>\<rparr>)
      else
        let e = e\<lparr>nv := n\<lparr>ptimer_regs := upd_block PTIMER_COUNT (ptimer_regs n) r val\<rparr>\<rparr> in
        if r = BLK_INTR_EN then update_irq e else e)"

definition nv_pgraph_write :: "nat \<Rightarrow> u32 \<Rightarrow> nv_env \<Rightarrow> nv_env" where
  "nv_pgraph_write r val e =
     (let n = nv e in
      if r = BLK_INTR then
        update_irq (e\<lparr>nv := n\<lparr>pgraph_regs := (pgraph_regs n)(r div 4 := pgraph_regs n (r div 4) AND NOT val)\<rparr>\<rparr>)
      else if r = 0xB10 then e
      else
        let e = e\<lparr>nv := n\<lparr>pgraph_regs := upd_block PGRAPH_COUNT (pgraph_regs n) r val\<rparr>\<rparr> in
        if r = BLK_INTR_EN then update_irq e else e)"

definition nv_pcrtc_write :: "nat \<Rightarrow> u32 \<Rightarrow> nv_env \<Rightarrow> nv_env" where
  "nv_pcrtc_write r val e =
     (let n = nv e in
      if r = BLK_INTR then
        update_irq (e\<lparr>nv := n\<lparr>pcrtc_regs := (pcrtc_regs n)(r div 4 := pcrtc_regs n (r div 4) AND NOT val)\<rparr>\<rparr>)
      else
        let e = e\<lparr>nv := n\<lparr>pcrtc_regs := upd_block PCRTC_COUNT (pcrtc_regs n) r val\<rparr>\<rparr> in
        if r = BLK_INTR_EN then update_irq e else e)"

definition nv2a_write :: "u32 \<Rightarrow> u32 \<Rightarrow> nv_env \<Rightarrow> nv_env option" where
  "nv2a_write pa val e =
     (let off = unat (pa - NV2A_BASE); n = nv e in
      if off < 0x001000 then Some (nv_pmc_write off val e)
      else if off < 0x002000 then nv_pbus_write (off - 0x001000) val e
      else if off < 0x004000 then nv_pfifo_write (off - 0x002000) val e
      else if off \<ge> 0x008000 \<and> off < 0x009000 then Some (nv_pvideo_write (off - 0x008000) val e)
      else if off \<ge> 0x009000 \<and> off < 0x00A000 then Some (nv_ptimer_write (off - 0x009000) val e)
      else if off \<ge> 0x100000 \<and> off < 0x101000 then
        Some (e\<lparr>nv := n\<lparr>pfb_regs := upd_block PFB_COUNT (pfb_regs n) (off - 0x100000) val\<rparr>\<rparr>)
      else if off \<ge> 0x400000 \<and> off < 0x402000 then Some (nv_pgraph_write (off - 0x400000) val e)
      else if off \<ge> 0x600000 \<and> off < 0x601000 then Some (nv_pcrtc_write (off - 0x600000) val e)
      else if off \<ge> 0x680000 \<and> off < 0x681000 then
        Some (e\<lparr>nv := n\<lparr>pramdac_regs := upd_block PRAMDAC_COUNT (pramdac_regs n) (off - 0x680000) val\<rparr>\<rparr>)
      else if off \<ge> 0x700000 \<and> off < 0x800000 then nv_pramin_write (off - 0x700000) val e
      else if off \<ge> 0x800000 then Some (nv_user_write (off mod 0x10000) val e)
      else Some e)"


section \<open>Interrupt aggregation\<close>

text \<open>A block asks for an interrupt: some status bit is set and enabled.\<close>

definition asks :: "u32 arr \<Rightarrow> bool" where
  "asks regs \<longleftrightarrow> regs (BLK_INTR div 4) AND regs (BLK_INTR_EN div 4) \<noteq> 0"

lemma bit_aggregate:
  assumes "k < 32"
  shows "bit (aggregate (2 ^ k) regs p) j \<longleftrightarrow> (if j = k then asks regs else bit p j)"
  using assms bit_imp_le_length [of p j]
  by (auto simp: aggregate_def asks_def bit_or_iff bit_and_iff bit_not_iff bit_exp_iff)

lemmas bit_aggregates =
  bit_aggregate [of 8, simplified] bit_aggregate [of 24, simplified] bit_aggregate [of 20, simplified]
  bit_aggregate [of 16, simplified] bit_aggregate [of 28, simplified]

definition irq_consistent :: "nv2a_state \<Rightarrow> bool" where
  "irq_consistent n \<longleftrightarrow>
     (let p = pmc_regs n (PMC_INTR_0 div 4) in
      (bit p 8 \<longleftrightarrow> asks (pfifo_regs n)) \<and> (bit p 24 \<longleftrightarrow> asks (pcrtc_regs n))
      \<and> (bit p 20 \<longleftrightarrow> asks (ptimer_regs n)) \<and> (bit p 16 \<longleftrightarrow> asks (pvideo_regs n))
      \<and> (bit p 28 \<longleftrightarrow> asks (pbus_regs n)) \<and> pbus_regs n (BLK_INTR div 4) = 0)"

lemma update_irq_nv:
  "nv (update_irq e) = (nv e)\<lparr>pmc_regs := (pmc_regs (nv e))(PMC_INTR_0 div 4 :=
     aggregate PMC_INTR_PBUS (pbus_regs (nv e)) (aggregate PMC_INTR_PVIDEO (pvideo_regs (nv e))
       (aggregate PMC_INTR_PTIMER (ptimer_regs (nv e)) (aggregate PMC_INTR_PCRTC (pcrtc_regs (nv e))
         (aggregate PMC_INTR_PFIFO (pfifo_regs (nv e)) (pmc_regs (nv e) (PMC_INTR_0 div 4)))))))\<rparr>"
  by (simp add: update_irq_def Let_def)

lemma update_irq_consistent:
  "pbus_regs (nv e) (BLK_INTR div 4) = 0 \<Longrightarrow> irq_consistent (nv (update_irq e))"
  by (simp add: irq_consistent_def update_irq_nv bit_aggregates)

lemma update_irq_line:
  "bit (irr (master (nv_pic (update_irq e)))) 3 \<longleftrightarrow>
    pmc_regs (nv (update_irq e)) (PMC_INTR_0 div 4) \<noteq> 0
      \<and> bit (pmc_regs (nv (update_irq e)) (PMC_INTR_EN div 4)) 0"
  by (simp add: update_irq_nv)
    (simp add: update_irq_def Let_def nv2a_irq_callback_def raise_irq_def lower_irq_def pic_raise_def
      pic_lower_def bit_or_iff bit_and_iff bit_not_iff tst_bits)

lemma asks_upd [simp]: "i \<noteq> 0x40 \<Longrightarrow> i \<noteq> 0x50 \<Longrightarrow> asks (r(i := v)) = asks r"
  by (simp add: asks_def)

lemma asks_zero: "r (BLK_INTR div 4) = 0 \<Longrightarrow> \<not> asks r"
  by (simp add: asks_def)

text \<open>A register write at an aligned offset that is neither the status nor the enable register.\<close>

lemma div4_neq:
  assumes "4 dvd r" and "r \<noteq> 4 * k"
  shows "r div 4 \<noteq> (k :: nat)"
  using assms by auto

lemma upd_block_at: "upd_block N regs r v i = (if i = r div 4 \<and> r div 4 < N then v else regs i)"
  by (simp add: upd_block_def)

lemma asks_upd_block:
  assumes "4 dvd r" and "r \<noteq> BLK_INTR" and "r \<noteq> BLK_INTR_EN"
  shows "asks (upd_block N regs r v) = asks regs"
  using div4_neq [OF assms(1), of "0x40"] div4_neq [OF assms(1), of "0x50"] assms(2,3)
  by (simp add: asks_def upd_block_at)

text \<open>Operations that leave the interrupt registers alone.\<close>

definition same_irq :: "nv2a_state \<Rightarrow> nv2a_state \<Rightarrow> bool" where
  "same_irq n m \<longleftrightarrow> pmc_regs n (PMC_INTR_0 div 4) = pmc_regs m (PMC_INTR_0 div 4)
     \<and> asks (pfifo_regs n) = asks (pfifo_regs m) \<and> asks (pcrtc_regs n) = asks (pcrtc_regs m)
     \<and> asks (ptimer_regs n) = asks (ptimer_regs m) \<and> asks (pvideo_regs n) = asks (pvideo_regs m)
     \<and> pbus_regs n (BLK_INTR div 4) = pbus_regs m (BLK_INTR div 4)"

lemma same_irq_consistent: "irq_consistent n \<Longrightarrow> same_irq n m \<Longrightarrow> irq_consistent m"
  using asks_zero by (auto simp: irq_consistent_def same_irq_def Let_def)

lemma same_irq_refl [simp]: "same_irq n n"
  by (simp add: same_irq_def)

lemma same_irq_trans: "same_irq a b \<Longrightarrow> same_irq b c \<Longrightarrow> same_irq a c"
  by (simp add: same_irq_def)

lemma same_irq_pfifo:
  "r div 4 \<noteq> 0x40 \<Longrightarrow> r div 4 \<noteq> 0x50 \<Longrightarrow> same_irq (nv e) (nv (upd_pfifo r v e))"
  by (simp add: same_irq_def upd_pfifo_def)

lemma same_irq_enable_push: "same_irq (nv e) (nv (enable_push e))"
  unfolding enable_push_def Let_def
  by (rule same_irq_trans; rule same_irq_pfifo; simp)

lemma same_irq_ramfc_load:
  assumes "ramfc_load e = Some e'"
  shows "same_irq (nv e) (nv e')"
proof -
  have "same_irq (nv e) (nv (enable_push (upd_pfifo CACHE1_DMA_GET g (upd_pfifo CACHE1_DMA_PUT p e))))" for p g
    by (rule same_irq_trans [OF _ same_irq_enable_push], rule same_irq_trans; rule same_irq_pfifo; simp)
  then show ?thesis
    using assms by (auto simp: ramfc_load_def Let_def split: bind_splits if_splits)
qed


lemma irq_consistent_pbus: "irq_consistent n \<Longrightarrow> pbus_regs n (BLK_INTR div 4) = 0"
  by (simp add: irq_consistent_def Let_def)

lemma pfifo_write_consistent:
  assumes ok: "irq_consistent (nv e)" and al: "4 dvd r" and w: "nv_pfifo_write r val e = Some e'"
  shows "irq_consistent (nv e')"
proof (cases "r = BLK_INTR")
  case True
  then show ?thesis
    using w irq_consistent_pbus [OF ok]
    by (auto simp: nv_pfifo_write_def upd_pfifo_def intro!: update_irq_consistent)
next
  case False
  define e1 where "e1 = e\<lparr>nv := (nv e)\<lparr>pfifo_regs := upd_block PFIFO_COUNT (pfifo_regs (nv e)) r val\<rparr>\<rparr>"
  define e2 where "e2 = (if r = BLK_INTR_EN then update_irq e1 else e1)"
  define e3 where "e3 = (if r = CACHE1_DMA_PUT then enable_push e2 else e2)"
  have "irq_consistent (nv e2)"
  proof (cases "r = BLK_INTR_EN")
    case True
    then show ?thesis
      using irq_consistent_pbus [OF ok] by (simp add: e2_def e1_def update_irq_consistent)
  next
    case other: False
    have "same_irq (nv e) (nv e1)"
      using asks_upd_block [OF al False other] by (simp add: same_irq_def e1_def)
    then show ?thesis using same_irq_consistent [OF ok] other by (simp add: e2_def)
  qed
  then have e3: "irq_consistent (nv e3)"
    using same_irq_consistent same_irq_enable_push by (simp add: e3_def)
  have "do { f \<leftarrow> (if r = CACHE1_PUSH1 \<or> (r = CACHE1_PUSH0 \<and> val AND 1 \<noteq> 0) then ramfc_load e3
                else Some e3);
          Some (if r = CACHE1_DMA_PUT \<or> r = CACHE1_PUSH0 \<or> r = CACHE1_DMA_PUSH \<or> r = CACHE1_DMA_GET
                then f\<lparr>notified := True\<rparr> else f) } = Some e'"
    using w unfolding nv_pfifo_write_def Let_def if_not_P [OF False] e1_def [symmetric]
      e2_def [symmetric] e3_def [symmetric] .
  then obtain f where
    a: "(if r = CACHE1_PUSH1 \<or> (r = CACHE1_PUSH0 \<and> val AND 1 \<noteq> 0) then ramfc_load e3 else Some e3) = Some f"
    and b: "Some (if r = CACHE1_DMA_PUT \<or> r = CACHE1_PUSH0 \<or> r = CACHE1_DMA_PUSH \<or> r = CACHE1_DMA_GET
      then f\<lparr>notified := True\<rparr> else f) = Some e'"
    unfolding Option.bind_eq_Some_conv by blast
  from a have "ramfc_load e3 = Some f \<or> f = e3" by (simp split: if_splits)
  moreover from b have "nv e' = nv f" by (simp split: if_splits) (auto dest: arg_cong [of _ _ nv])
  ultimately obtain e4 where "ramfc_load e3 = Some e4 \<or> e4 = e3" "nv e' = nv e4" by blast
  then show ?thesis
    using e3 same_irq_consistent same_irq_ramfc_load by metis
qed

lemma pmc_write_consistent:
  assumes ok: "irq_consistent (nv e)" and al: "4 dvd off"
  shows "irq_consistent (nv (nv_pmc_write off val e))"
proof (cases "off = PMC_INTR_0 \<or> off = PMC_INTR_EN")
  case True
  then show ?thesis
    using irq_consistent_pbus [OF ok] by (auto simp: nv_pmc_write_def Let_def intro!: update_irq_consistent)
next
  case False
  then have "same_irq (nv e) (nv (nv_pmc_write off val e))"
    using div4_neq [OF al, of "0x40"] by (simp add: nv_pmc_write_def Let_def same_irq_def upd_block_at)
  then show ?thesis by (rule same_irq_consistent [OF ok])
qed

lemma pbus_write_consistent:
  assumes ok: "irq_consistent (nv e)" and al: "4 dvd r" and w: "nv_pbus_write r val e = Some e'"
  shows "irq_consistent (nv e')"
proof (cases "r = BLK_INTR")
  case True
  then show ?thesis
    using w irq_consistent_pbus [OF ok]
    by (auto simp: nv_pbus_write_def Let_def intro!: update_irq_consistent)
next
  case False
  then have "same_irq (nv e) (nv e')"
    using w div4_neq [OF al, of "0x40"]
    by (auto simp: nv_pbus_write_def Let_def same_irq_def upd_block_at split: if_splits)
  then show ?thesis by (rule same_irq_consistent [OF ok])
qed

text \<open>The four writers of one shape: a write of the status or enable register recomputes the
  aggregate, any other leaves the interrupt registers alone.\<close>

lemma simple_block_consistent:
  assumes ok: "irq_consistent (nv e)" and al: "4 dvd r"
  shows "irq_consistent (nv (nv_pvideo_write r val e))" "irq_consistent (nv (nv_ptimer_write r val e))"
    "irq_consistent (nv (nv_pgraph_write r val e))" "irq_consistent (nv (nv_pcrtc_write r val e))"
proof -
  note p = irq_consistent_pbus [OF ok]
  have u: "irq_consistent (nv (update_irq f))" if "pbus_regs (nv f) (BLK_INTR div 4) = 0" for f
    using that by (rule update_irq_consistent)
  show "irq_consistent (nv (nv_pvideo_write r val e))"
  proof (cases "r = BLK_INTR \<or> r = BLK_INTR_EN")
    case True
    then show ?thesis using p by (auto simp: nv_pvideo_write_def Let_def intro!: u)
  next
    case False
    then have "same_irq (nv e) (nv (nv_pvideo_write r val e))"
      using asks_upd_block [OF al] by (simp add: nv_pvideo_write_def Let_def same_irq_def)
    then show ?thesis by (rule same_irq_consistent [OF ok])
  qed
  show "irq_consistent (nv (nv_ptimer_write r val e))"
  proof (cases "r = BLK_INTR \<or> r = BLK_INTR_EN")
    case True
    then show ?thesis using p by (auto simp: nv_ptimer_write_def Let_def intro!: u)
  next
    case False
    then have "same_irq (nv e) (nv (nv_ptimer_write r val e))"
      using asks_upd_block [OF al] by (simp add: nv_ptimer_write_def Let_def same_irq_def)
    then show ?thesis by (rule same_irq_consistent [OF ok])
  qed
  show "irq_consistent (nv (nv_pgraph_write r val e))"
  proof (cases "r = BLK_INTR \<or> r = BLK_INTR_EN")
    case True
    then show ?thesis using p by (auto simp: nv_pgraph_write_def Let_def intro!: u)
  next
    case False
    then have "same_irq (nv e) (nv (nv_pgraph_write r val e))"
      by (simp add: nv_pgraph_write_def Let_def same_irq_def)
    then show ?thesis by (rule same_irq_consistent [OF ok])
  qed
  show "irq_consistent (nv (nv_pcrtc_write r val e))"
  proof (cases "r = BLK_INTR \<or> r = BLK_INTR_EN")
    case True
    then show ?thesis using p by (auto simp: nv_pcrtc_write_def Let_def intro!: u)
  next
    case False
    then have "same_irq (nv e) (nv (nv_pcrtc_write r val e))"
      using asks_upd_block [OF al] by (simp add: nv_pcrtc_write_def Let_def same_irq_def)
    then show ?thesis by (rule same_irq_consistent [OF ok])
  qed
qed

lemma pramin_write_same: "nv_pramin_write r val e = Some e' \<Longrightarrow> same_irq (nv e) (nv e')"
  by (auto simp: nv_pramin_write_def Let_def same_irq_def split: if_splits)

lemma user_write_same: "same_irq (nv e) (nv (nv_user_write r val e))"
proof (cases "r = 0x40")
  case True
  have "same_irq (nv e) (nv (enable_push (upd_pfifo CACHE1_DMA_PUT val e)))"
    by (rule same_irq_trans [OF _ same_irq_enable_push], rule same_irq_pfifo) simp_all
  then show ?thesis using True by (simp add: nv_user_write_def)
qed (simp add: nv_user_write_def)

lemma dvd4_diff: "4 dvd a \<Longrightarrow> 4 dvd b \<Longrightarrow> 4 dvd (a - b :: nat)"
  by (rule dvd_diff_nat)

lemma nv2a_write_consistent:
  assumes ok: "irq_consistent (nv e)" and al: "4 dvd unat (pa - NV2A_BASE)"
    and w: "nv2a_write pa val e = Some e'"
  shows "irq_consistent (nv e')"
proof -
  define off where "off = unat (pa - NV2A_BASE)"
  have d: "4 dvd off - 0x001000" "4 dvd off - 0x002000" "4 dvd off - 0x008000" "4 dvd off - 0x009000"
    "4 dvd off - 0x400000" "4 dvd off - 0x600000" "4 dvd off"
    using al unfolding off_def [symmetric] by (auto intro: dvd4_diff)
  note blocks = simple_block_consistent [OF ok] pmc_write_consistent [OF ok d(7)]
    pbus_write_consistent [OF ok d(1)] pfifo_write_consistent [OF ok d(2)]
  have pfb: "irq_consistent (nv (e\<lparr>nv := (nv e)\<lparr>pfb_regs := x\<rparr>\<rparr>))"
    "irq_consistent (nv (e\<lparr>nv := (nv e)\<lparr>pramdac_regs := x\<rparr>\<rparr>))" for x
    using ok by (simp_all add: irq_consistent_def)
  show ?thesis
    using w blocks d pfb ok same_irq_consistent [OF ok] pramin_write_same user_write_same
    unfolding nv2a_write_def Let_def off_def [symmetric]
    by (auto split: if_splits)
qed

lemma tick_timer_consistent:
  assumes "irq_consistent (nv e)"
  shows "irq_consistent (nv (nv_tick_timer e))"
  unfolding nv_tick_timer_def Let_def
  by (rule update_irq_consistent) (use irq_consistent_pbus [OF assms] in simp)

section \<open>The raster position\<close>

definition vblank_ok :: "nv2a_state \<Rightarrow> bool" where
  "vblank_ok n \<longleftrightarrow> unat (vblank_counter n) < 600"

lemma tick_timer_vblank:
  "vblank_counter (nv (nv_tick_timer e)) =
    (if vblank_counter (nv e) + 1 \<ge> VBLANK_PERIOD then 0 else vblank_counter (nv e) + 1)"
  by (simp add: nv_tick_timer_def Let_def update_irq_nv)

lemma nv_raster_less:
  assumes "vblank_ok n"
  shows "unat (nv_raster n) < NTSC_TOTAL_LINES"
proof -
  have "unat (vblank_counter n * 525) = unat (vblank_counter n) * 525"
    using assms by (simp add: unat_word_ariths vblank_ok_def)
  then have "unat (nv_raster n) = unat (vblank_counter n) * 525 div 600"
    by (simp add: nv_raster_def unat_div)
  then show ?thesis using assms by (simp add: vblank_ok_def div_less_iff_less_mult)
qed

lemma vblank_succ:
  assumes "unat (w :: u32) = k" and "k < 600"
  shows "w + 1 \<ge> VBLANK_PERIOD \<longleftrightarrow> k = 599" and "unat (w + 1) = Suc k"
proof -
  show u: "unat (w + 1) = Suc k" using assms by (simp add: unat_word_ariths)
  show "w + 1 \<ge> VBLANK_PERIOD \<longleftrightarrow> k = 599"
    using assms(2) by (auto simp: word_le_nat_alt u)
qed

lemma vblank_after:
  assumes "vblank_ok (nv e)"
  shows "unat (vblank_counter (nv ((nv_tick_timer ^^ n) e))) = (unat (vblank_counter (nv e)) + n) mod 600"
proof (induction n)
  case 0
  then show ?case using assms by (simp add: vblank_ok_def)
next
  case (Suc n)
  let ?k = "(unat (vblank_counter (nv e)) + n) mod 600"
  have k: "?k < 600" by simp
  have "Suc (unat (vblank_counter (nv e)) + n) mod 600 = (if ?k = 599 then 0 else Suc ?k)"
    by (simp add: mod_Suc)
  then show ?case
    using vblank_succ [OF Suc k] by (simp add: tick_timer_vblank)
qed

end
