(* ===== verification/Nv2aFifo.thy ===== *)
theory Nv2aFifo
  imports Nv2a
begin

text \<open>
  The PFIFO pusher of \<open>src/src/xbox/nv2a.hpp\<close> (\<open>resolve_dma_base\<close>, \<open>tick_fifo\<close>) and the drain loop of its
  thread (\<open>src/src/xbox/nv2a_thread.hpp\<close>).  A tick parses the push buffer from GET to PUT: jumps,
  calls, returns and methods, of which a few are executed.  Its loop is recursion on the words
  left of the budget.  An access of guest memory outside its \<open>N\<close> bytes makes the tick \<open>None\<close>.
\<close>

section \<open>DMA objects\<close>

text \<open>Flags and frame words of a DMA object in instance memory, at a byte offset.\<close>

definition dma_object :: "nat \<Rightarrow> nv_env \<Rightarrow> (u32 \<times> u32) option" where
  "dma_object off e =
     (let n = nv e;
          in_ram = (pramin_ram n \<and> off + 12 \<le> unat (pramin_ram_size n));
          a = unat (pramin_ram_base n) + off in
      do {
        flags0 \<leftarrow> (if in_ram then rd GUEST_RAM_SIZE 4 (nv_ram e) a else Some 0);
        frame0 \<leftarrow> (if in_ram then rd GUEST_RAM_SIZE 4 (nv_ram e) (a + 8) else Some 0);
        if flags0 = 0 \<and> frame0 = 0 \<and> off + 12 \<le> PRAMIN_SIZE then do {
          flags \<leftarrow> rd PRAMIN_SIZE 4 (pramin n) off;
          frame \<leftarrow> rd PRAMIN_SIZE 4 (pramin n) (off + 8);
          Some (flags, frame)
        } else Some (flags0, frame0)
      })"

definition dma_target :: "u32 \<times> u32 \<Rightarrow> u32" where
  "dma_target obj =
     (let (flags, frame) = obj in
      ((frame AND 0xFFFFF000) OR (drop_bit 20 flags AND 0xFFF)) AND 0x07FFFFFF)"

definition resolve_dma_base :: "nv_env \<Rightarrow> u32 option" where
  "resolve_dma_base e =
     (let inst_reg = pfifo_regs (nv e) (CACHE1_DMA_INSTANCE div 4);
          inst_addr = push_bit 4 (inst_reg AND 0xFFFF)
      in map_option dma_target (dma_object (unat inst_addr) e))"

section \<open>The pusher\<close>

abbreviation MAX_DWORDS_PER_TICK :: nat where "MAX_DWORDS_PER_TICK \<equiv> 256 * 1024"

text \<open>The loop's variables: the environment, \<open>get\<close> and \<open>consumed\<close>.\<close>

record fifo =
  fenv :: nv_env
  fget :: u32
  fconsumed :: nat

datatype loop_step = Continue fifo | Break fifo

definition fnv :: "(nv2a_state \<Rightarrow> nv2a_state) \<Rightarrow> fifo \<Rightarrow> fifo" where
  "fnv g f = f\<lparr>fenv := (fenv f)\<lparr>nv := g (nv (fenv f))\<rparr>\<rparr>"

definition set_pgraph :: "nat \<Rightarrow> u32 \<Rightarrow> fifo \<Rightarrow> fifo" where
  "set_pgraph r v = fnv (\<lambda>n. n\<lparr>pgraph_regs := (pgraph_regs n)(r div 4 := v)\<rparr>)"

definition set_subr :: "u32 \<Rightarrow> fifo \<Rightarrow> fifo" where
  "set_subr v = fnv (\<lambda>n. n\<lparr>pfifo_regs := (pfifo_regs n)(CACHE1_DMA_SUBROUTINE div 4 := v)\<rparr>)"

definition get_subr :: "fifo \<Rightarrow> u32" where
  "get_subr f = pfifo_regs (nv (fenv f)) (CACHE1_DMA_SUBROUTINE div 4)"

text \<open>NOTIFY: clear the status word of the notifier entry in guest memory.\<close>

definition fifo_notify_method :: "nat \<Rightarrow> nat \<Rightarrow> u32 \<Rightarrow> fifo \<Rightarrow> fifo option" where
  "fifo_notify_method N subchan notify_type f =
     (let inst = notifier_ctx (nv (fenv f)) subchan in
      if inst = 0 then Some f
      else do {
        obj \<leftarrow> dma_object (unat (push_bit 4 inst :: u32)) (fenv f);
        let entry_off = dma_target obj + notify_type * 16;
        if unat (entry_off + 16) \<le> N then
          map_option (\<lambda>m. f\<lparr>fenv := (fenv f)\<lparr>nv_ram := m\<rparr>\<rparr>)
            (wr N 4 (nv_ram (fenv f)) (unat entry_off + 12) 0)
        else Some f
      })"

text \<open>The methods the pusher executes itself; \<open>v\<close> is the first data word.\<close>

definition fifo_exec :: "nat \<Rightarrow> u32 \<Rightarrow> nat \<Rightarrow> u32 \<Rightarrow> fifo \<Rightarrow> fifo option" where
  "fifo_exec N method subchan v f =
     (if method = 0x14 then
        Some (fnv (\<lambda>n. n\<lparr>pfifo_regs := (pfifo_regs n)(CACHE1_REF div 4 := v)\<rparr>) f)
      else if method = 0x75C then Some (set_pgraph 0xB10 v f)
      else if method = 0x60 then
        Some (fnv (\<lambda>n. n\<lparr>notifier_ctx := (notifier_ctx n)(subchan := v)\<rparr>) f)
      else if method = 0x41 then fifo_notify_method N subchan v f
      else if method = 0x82 then Some (set_pgraph 0x208 v f)
      else if method = 0x83 then Some (set_pgraph 0x20C v f)
      else if method = 0x80 then Some (set_pgraph 0x200 v f)
      else Some f)"

definition executed :: "u32 \<Rightarrow> bool" where
  "executed method \<longleftrightarrow> method \<in> {0x14, 0x75C, 0x60, 0x41, 0x82, 0x83, 0x80}"

text \<open>A method command: \<open>f\<close> has GET past the header.\<close>

definition fifo_method :: "nat \<Rightarrow> u32 \<Rightarrow> u32 \<Rightarrow> fifo \<Rightarrow> loop_step option" where
  "fifo_method N dma_base hdr f =
     (let count = drop_bit 18 hdr AND 0x7FF;
          method = drop_bit 2 hdr AND 0x7FF;
          subchan = unat (drop_bit 13 hdr AND 0x7);
          skip = count * 4 in
      if unat (dma_base + fget f + skip) > N then Some (Break f)
      else do {
        f \<leftarrow> (if executed method \<and> count \<ge> 1 then do {
               v \<leftarrow> rd N 4 (nv_ram (fenv f)) (unat dma_base + unat (fget f));
               fifo_exec N method subchan v f
             } else Some f);
        let f = f\<lparr>fget := fget f + skip, fconsumed := fconsumed f + unat count\<rparr>;
        if method = 0x75C \<and> count \<ge> 1 then Some (Break f)
        else Some (Continue (fnv (\<lambda>n. n\<lparr>diag_methods := diag_methods n + count\<rparr>) f))
      })"

text \<open>One command: the header at GET, then its effect.\<close>

definition fifo_step :: "nat \<Rightarrow> u32 \<Rightarrow> fifo \<Rightarrow> loop_step option" where
  "fifo_step N dma_base f =
     (let phys = dma_base + fget f in
      if unat phys \<ge> N \<or> unat (phys + 4) > N then Some (Break f)
      else do {
        hdr \<leftarrow> rd N 4 (nv_ram (fenv f)) (unat phys);
        let f = f\<lparr>fget := fget f + 4, fconsumed := fconsumed f + 1\<rparr>;
        let jump = (\<lambda>target. fnv (\<lambda>n. n\<lparr>diag_jumps := diag_jumps n + 1\<rparr>) (f\<lparr>fget := target\<rparr>));
        if hdr = 0 then Some (Continue f)
        else if hdr AND 0xE0000003 = 0x20000000 then Some (Continue (jump (hdr AND 0x1FFFFFFF)))
        else if hdr AND 3 = 1 then Some (Continue (jump (hdr AND 0xFFFFFFFC)))
        else if hdr AND 3 = 2 then
          Some (Continue
            (if get_subr f AND 1 = 0 then
               fnv (\<lambda>n. n\<lparr>diag_calls := diag_calls n + 1\<rparr>)
                 ((set_subr ((fget f AND 0x1FFFFFFC) OR 1) f)\<lparr>fget := hdr AND 0xFFFFFFFC\<rparr>)
             else f))
        else if hdr = 0x00020000 then
          Some (Continue
            (if get_subr f AND 1 \<noteq> 0 then set_subr 0 (f\<lparr>fget := get_subr f AND 0x1FFFFFFC\<rparr>) else f))
        else if hdr AND 0xE0030003 = 0 \<or> hdr AND 0xE0030003 = 0x40000000 then
          fifo_method N dma_base hdr f
        else Some (Continue f)
      })"

lemma fifo_exec_consumed: "fifo_exec N m c v f = Some f' \<Longrightarrow> fconsumed f' = fconsumed f"
  by (auto simp: fifo_exec_def fifo_notify_method_def fnv_def set_pgraph_def Let_def
      split: if_splits bind_splits)

lemma fifo_step_progress:
  "fifo_step N b f = Some (Continue f') \<Longrightarrow> fconsumed f < fconsumed f'"
  by (auto simp: fifo_step_def fifo_method_def Let_def fnv_def set_subr_def
      dest!: fifo_exec_consumed split: if_splits bind_splits)

function fifo_loop :: "nat \<Rightarrow> u32 \<Rightarrow> u32 \<Rightarrow> fifo \<Rightarrow> fifo option" where
  "fifo_loop N dma_base put f =
     (if fget f = put \<or> fconsumed f \<ge> MAX_DWORDS_PER_TICK then Some f
      else case fifo_step N dma_base f of
        None \<Rightarrow> None
      | Some (Break f') \<Rightarrow> Some f'
      | Some (Continue f') \<Rightarrow> fifo_loop N dma_base put f')"
  by pat_completeness auto
termination
  by (relation "measure (\<lambda>(N, b, p, f). MAX_DWORDS_PER_TICK - fconsumed f)")
    (auto dest: fifo_step_progress)

declare fifo_loop.simps [simp del]

text \<open>After the loop: GET in the register and in the saved channel context.\<close>

definition fifo_finish :: "nat \<Rightarrow> u32 \<Rightarrow> fifo \<Rightarrow> nv_env option" where
  "fifo_finish N put f =
     (let e = fenv f; get = fget f; n = nv e;
          n = n\<lparr>diag_dwords := diag_dwords n + of_nat (fconsumed f), fifo_get := get,
            fifo_get_valid := True, pfifo_regs := (pfifo_regs n)(CACHE1_DMA_GET div 4 := get)\<rparr>;
          ram_addr = pramin_ram_base n + ramfc_ctx_off n + 4 in
      do {
        ram \<leftarrow> (if pramin_ram n \<and> ram_addr + 4 \<le> pramin_ram_base n + pramin_ram_size n
                then wr GUEST_RAM_SIZE 4 (nv_ram e) (unat ram_addr) get else Some (nv_ram e));
        Some (e\<lparr>nv_ram := ram,
          nv := (if get = put
                 then n\<lparr>pfifo_regs := (pfifo_regs n)(CACHE1_STATUS div 4 := STATUS_IDLE)\<rparr> else n)\<rparr>)
      })"

definition set_status :: "u32 \<Rightarrow> nv_env \<Rightarrow> nv_env" where
  "set_status v e = upd_pfifo CACHE1_STATUS v e"

definition tick_fifo :: "nat \<Rightarrow> nv_env \<Rightarrow> nv_env option" where
  "tick_fifo N e =
     (let n = nv e; put = pfifo_regs n (CACHE1_DMA_PUT div 4) in
      if pfifo_regs n (CACHE1_DMA_PUSH div 4) AND 1 = 0 then Some e
      else if pfifo_regs n (CACHE1_PUSH0 div 4) AND 1 = 0 then Some e
      else
        let n = (if \<not> fifo_get_valid n \<and> put \<noteq> 0
                 then n\<lparr>fifo_get := pfifo_regs n (CACHE1_DMA_GET div 4), fifo_get_valid := True\<rparr>
                 else n);
            e = e\<lparr>nv := n\<rparr> in
        if \<not> fifo_get_valid n then Some e
        else if fifo_get n = put then Some (set_status STATUS_IDLE e)
        else
          let e = set_status 0 e in
          do {
            dma_base \<leftarrow> resolve_dma_base e;
            f \<leftarrow> fifo_loop N dma_base put \<lparr>fenv = e, fget = fifo_get n, fconsumed = 0\<rparr>;
            fifo_finish N put f
          })"

section \<open>The drain loop of the pusher thread\<close>

definition needs_processing :: "nv_env \<Rightarrow> bool" where
  "needs_processing e \<longleftrightarrow>
     (let r = pfifo_regs (nv e) in
      r (CACHE1_DMA_PUSH div 4) AND 1 \<noteq> 0 \<and> r (CACHE1_PUSH0 div 4) AND 1 \<noteq> 0
      \<and> r (CACHE1_DMA_GET div 4) \<noteq> r (CACHE1_DMA_PUT div 4))"

text \<open>\<open>while (needs_processing() && !stop) tick_fifo(...)\<close>, with the stop request after \<open>k\<close> ticks.\<close>

primrec drain :: "nat \<Rightarrow> nat \<Rightarrow> nv_env \<Rightarrow> nv_env option" where
  "drain N 0 e = Some e"
| "drain N (Suc k) e = (if needs_processing e then do { e \<leftarrow> tick_fifo N e; drain N k e } else Some e)"


section \<open>Well-formed push buffers\<close>

definition is_method :: "u32 \<Rightarrow> bool" where
  "is_method hdr \<longleftrightarrow> hdr \<noteq> 0 \<and> (hdr AND 0xE0030003 = 0 \<or> hdr AND 0xE0030003 = 0x40000000)"

definition hdr_count :: "u32 \<Rightarrow> u32" where "hdr_count hdr = drop_bit 18 hdr AND 0x7FF"
definition hdr_method :: "u32 \<Rightarrow> u32" where "hdr_method hdr = drop_bit 2 hdr AND 0x7FF"

lemma is_method_kind:
  assumes "is_method hdr"
  shows "hdr AND 0xE0000003 \<noteq> 0x20000000" "hdr AND 3 \<noteq> 1" "hdr AND 3 \<noteq> 2" "hdr \<noteq> 0x00020000"
proof -
  let ?m = "hdr AND 0xE0030003"
  have m: "?m = 0 \<or> ?m = 0x40000000" using assms by (simp add: is_method_def)
  have "hdr AND 0xE0000003 = ?m AND 0xE0000003" "hdr AND 3 = ?m AND 3"
    by (simp_all add: and.assoc)
  with m show "hdr AND 0xE0000003 \<noteq> 0x20000000" "hdr AND 3 \<noteq> 1" "hdr AND 3 \<noteq> 2" by auto
  from m show "hdr \<noteq> 0x00020000" by auto
qed

text \<open>\<open>stream N b ram get n put\<close>: from \<open>get\<close> the buffer consists of \<open>n\<close> words of NOPs and method
  commands, inside memory, and ends at \<open>put\<close>.  The two methods with effects on the rest of
  the parse (the fence that stops a tick, and NOTIFY, which writes guest memory) are excluded.\<close>

inductive stream :: "nat \<Rightarrow> u32 \<Rightarrow> bytes \<Rightarrow> u32 \<Rightarrow> nat \<Rightarrow> u32 \<Rightarrow> bool" for N b ram where
  stream_end: "stream N b ram put 0 put"
| stream_nop: "stream N b ram get (Suc n) put"
    if "get \<noteq> put" and "unat (b + get) + 4 \<le> N" and "N < 2 ^ 32" and "ld 4 ram (unat (b + get)) = 0"
      and "stream N b ram (get + 4) n put"
| stream_method: "stream N b ram get (Suc (unat (hdr_count hdr) + n)) put"
    if "get \<noteq> put" and "unat (b + get) + 4 \<le> N" and "N < 2 ^ 32" and "ld 4 ram (unat (b + get)) = hdr"
      and "is_method hdr" and "hdr_method hdr \<noteq> 0x75C" and "hdr_method hdr \<noteq> 0x41"
      and "unat (b + (get + 4) + hdr_count hdr * 4) \<le> N" and "unat b + unat (get + 4) + 4 \<le> N"
      and "stream N b ram (get + 4 + hdr_count hdr * 4) n put"

text \<open>What the execution of the remaining methods leaves alone.\<close>

definition same_queue :: "nv_env \<Rightarrow> nv_env \<Rightarrow> bool" where
  "same_queue e e' \<longleftrightarrow> nv_ram e' = nv_ram e \<and> nv_pic e' = nv_pic e
     \<and> pramin_ram (nv e') = pramin_ram (nv e)
     \<and> pramin_ram_base (nv e') = pramin_ram_base (nv e)
     \<and> pramin_ram_size (nv e') = pramin_ram_size (nv e)
     \<and> (\<forall>r. r \<noteq> CACHE1_REF div 4 \<longrightarrow> pfifo_regs (nv e') r = pfifo_regs (nv e) r)
     \<and> same_irq (nv e) (nv e')"

lemma same_queue_refl [simp]: "same_queue e e"
  by (simp add: same_queue_def)

lemma same_queue_trans: "same_queue a b \<Longrightarrow> same_queue b c \<Longrightarrow> same_queue a c"
  by (auto simp: same_queue_def intro: same_irq_trans)

definition exec_pure :: "u32 \<Rightarrow> nat \<Rightarrow> u32 \<Rightarrow> fifo \<Rightarrow> fifo" where
  "exec_pure method subchan v f =
     (if method = 0x14 then fnv (\<lambda>n. n\<lparr>pfifo_regs := (pfifo_regs n)(CACHE1_REF div 4 := v)\<rparr>) f
      else if method = 0x75C then set_pgraph 0xB10 v f
      else if method = 0x60 then fnv (\<lambda>n. n\<lparr>notifier_ctx := (notifier_ctx n)(subchan := v)\<rparr>) f
      else if method = 0x82 then set_pgraph 0x208 v f
      else if method = 0x83 then set_pgraph 0x20C v f
      else if method = 0x80 then set_pgraph 0x200 v f
      else f)"

lemma fifo_exec_pure: "m \<noteq> 0x41 \<Longrightarrow> fifo_exec N m c v f = Some (exec_pure m c v f)"
  by (simp add: fifo_exec_def exec_pure_def)

lemma same_queue_fnv:
  assumes "same_queue (fenv f) ((fenv f)\<lparr>nv := g (nv (fenv f))\<rparr>)"
  shows "fget (fnv g f) = fget f \<and> fconsumed (fnv g f) = fconsumed f \<and> same_queue (fenv f) (fenv (fnv g f))"
  using assms by (simp add: fnv_def)

lemma same_queue_pgraph:
  "fget (set_pgraph r v f) = fget f \<and> fconsumed (set_pgraph r v f) = fconsumed f
    \<and> same_queue (fenv f) (fenv (set_pgraph r v f))"
  unfolding set_pgraph_def by (rule same_queue_fnv) (simp add: same_queue_def same_irq_def)

lemma exec_pure_stream:
  "fget (exec_pure m c v f) = fget f \<and> fconsumed (exec_pure m c v f) = fconsumed f
    \<and> same_queue (fenv f) (fenv (exec_pure m c v f))"
proof -
  have 1: "fget (fnv (\<lambda>n. n\<lparr>pfifo_regs := (pfifo_regs n)(CACHE1_REF div 4 := v)\<rparr>) f) = fget f
      \<and> fconsumed (fnv (\<lambda>n. n\<lparr>pfifo_regs := (pfifo_regs n)(CACHE1_REF div 4 := v)\<rparr>) f) = fconsumed f
      \<and> same_queue (fenv f) (fenv (fnv (\<lambda>n. n\<lparr>pfifo_regs := (pfifo_regs n)(CACHE1_REF div 4 := v)\<rparr>) f))"
    by (rule same_queue_fnv) (simp add: same_queue_def same_irq_def)
  have 2: "fget (fnv (\<lambda>n. n\<lparr>notifier_ctx := (notifier_ctx n)(c := v)\<rparr>) f) = fget f
      \<and> fconsumed (fnv (\<lambda>n. n\<lparr>notifier_ctx := (notifier_ctx n)(c := v)\<rparr>) f) = fconsumed f
      \<and> same_queue (fenv f) (fenv (fnv (\<lambda>n. n\<lparr>notifier_ctx := (notifier_ctx n)(c := v)\<rparr>) f))"
    by (rule same_queue_fnv) (simp add: same_queue_def same_irq_def)
  show ?thesis
    unfolding exec_pure_def using 1 2 same_queue_pgraph by simp
qed

lemma fifo_method_stream:
  assumes c: "unat (b + fget f + hdr_count hdr * 4) \<le> N" and m: "hdr_method hdr \<noteq> 0x75C" "hdr_method hdr \<noteq> 0x41"
    and a: "unat b + unat (fget f) + 4 \<le> N"
  shows "\<exists>f'. fifo_method N b hdr f = Some (Continue f') \<and> fget f' = fget f + hdr_count hdr * 4
    \<and> fconsumed f' = fconsumed f + unat (hdr_count hdr) \<and> same_queue (fenv f) (fenv f')"
proof -
  define f1 where "f1 = (if executed (hdr_method hdr) \<and> hdr_count hdr \<ge> 1
    then exec_pure (hdr_method hdr) (unat (drop_bit 13 hdr AND 0x7)) (ld 4 (nv_ram (fenv f)) (unat b + unat (fget f))) f
    else f)"
  have f1: "(if executed (hdr_method hdr) \<and> hdr_count hdr \<ge> 1 then do {
               v \<leftarrow> rd N 4 (nv_ram (fenv f)) (unat b + unat (fget f));
               fifo_exec N (hdr_method hdr) (unat (drop_bit 13 hdr AND 0x7)) v f
             } else Some f) = Some f1"
    using a m(2) by (simp add: f1_def fifo_exec_pure)
  have g: "fget f1 = fget f" "fconsumed f1 = fconsumed f" "same_queue (fenv f) (fenv f1)"
    using exec_pure_stream by (simp_all add: f1_def)
  define f2 where "f2 = f1\<lparr>fget := fget f1 + hdr_count hdr * 4, fconsumed := fconsumed f1 + unat (hdr_count hdr)\<rparr>"
  define f3 where "f3 = fnv (\<lambda>n. n\<lparr>diag_methods := diag_methods n + hdr_count hdr\<rparr>) f2"
  have "fifo_method N b hdr f = Some (Continue f3)"
  proof -
    have "\<not> N < unat (b + fget f + hdr_count hdr * 4)" using c by simp
    then show ?thesis
      unfolding fifo_method_def Let_def hdr_count_def [symmetric] hdr_method_def [symmetric] f1
      using m(1) by (simp add: f2_def f3_def)
  qed
  moreover have "fget f3 = fget f + hdr_count hdr * 4" "fconsumed f3 = fconsumed f + unat (hdr_count hdr)"
    using g by (simp_all add: f3_def f2_def fnv_def)
  moreover have "same_queue (fenv f1) (fenv f3)"
    by (simp add: f3_def f2_def fnv_def same_queue_def same_irq_def)
  ultimately show ?thesis using g(3) same_queue_trans by blast
qed

lemma in_ram_word:
  assumes "unat (phys :: u32) + 4 \<le> N" and "N < 2 ^ 32"
  shows "\<not> (unat phys \<ge> N \<or> unat (phys + 4) > N)"
proof -
  have "unat (phys + 4) = unat phys + 4" using assms by (simp add: unat_word_ariths)
  then show ?thesis using assms by simp
qed


lemma fifo_step_nop:
  assumes "unat (b + fget f) + 4 \<le> N" and "N < 2 ^ 32" and "ld 4 (nv_ram (fenv f)) (unat (b + fget f)) = 0"
  shows "fifo_step N b f = Some (Continue (f\<lparr>fget := fget f + 4, fconsumed := fconsumed f + 1\<rparr>))"
  using in_ram_word [OF assms(1,2)] assms by (simp add: fifo_step_def Let_def)

lemma fifo_step_method:
  assumes "unat (b + fget f) + 4 \<le> N" and "N < 2 ^ 32" and "ld 4 (nv_ram (fenv f)) (unat (b + fget f)) = hdr"
    and "is_method hdr"
  shows "fifo_step N b f = fifo_method N b hdr (f\<lparr>fget := fget f + 4, fconsumed := fconsumed f + 1\<rparr>)"
  using in_ram_word [OF assms(1,2)] assms is_method_kind [OF assms(4)]
  by (simp add: fifo_step_def Let_def) (auto simp: is_method_def)

lemma fifo_loop_stream:
  assumes "stream N b ram get n put"
  shows "fget f = get \<Longrightarrow> nv_ram (fenv f) = ram \<Longrightarrow> fconsumed f + n \<le> MAX_DWORDS_PER_TICK \<Longrightarrow>
    \<exists>f'. fifo_loop N b put f = Some f' \<and> fget f' = put \<and> same_queue (fenv f) (fenv f')"
  using assms
proof (induction arbitrary: f rule: stream.induct)
  case (stream_end put)
  then show ?case by (intro exI [of _ f]) (simp add: fifo_loop.simps)
next
  case (stream_nop get put n)
  let ?f = "f\<lparr>fget := fget f + 4, fconsumed := fconsumed f + 1\<rparr>"
  have s: "fifo_step N b f = Some (Continue ?f)"
    using stream_nop by (intro fifo_step_nop) simp_all
  have "\<exists>f'. fifo_loop N b put ?f = Some f' \<and> fget f' = put \<and> same_queue (fenv ?f) (fenv f')"
    using stream_nop.prems by (intro stream_nop.IH) simp_all
  then show ?case using s stream_nop by (simp add: fifo_loop.simps [of N b put f])
next
  case (stream_method get put hdr n)
  let ?f = "f\<lparr>fget := fget f + 4, fconsumed := fconsumed f + 1\<rparr>"
  have s: "fifo_step N b f = fifo_method N b hdr ?f"
    using stream_method by (intro fifo_step_method) simp_all
  obtain g where g: "fifo_method N b hdr ?f = Some (Continue g)"
      "fget g = get + 4 + hdr_count hdr * 4" "fconsumed g = fconsumed f + 1 + unat (hdr_count hdr)"
      "same_queue (fenv f) (fenv g)"
    using fifo_method_stream [of b ?f hdr N] stream_method by auto
  have "\<exists>f'. fifo_loop N b put g = Some f' \<and> fget f' = put \<and> same_queue (fenv g) (fenv f')"
  proof (rule stream_method.IH)
    show "fget g = get + 4 + hdr_count hdr * 4" by (rule g(2))
    show "nv_ram (fenv g) = ram" using g(4) stream_method.prems by (simp add: same_queue_def)
    show "fconsumed g + n \<le> MAX_DWORDS_PER_TICK" using g(3) stream_method.prems by simp
  qed
  then show ?case
    using s g(1,4) stream_method.prems stream_method.hyps(1) same_queue_trans
    by (simp add: fifo_loop.simps [of N b put f]) blast
qed

text \<open>A tick on an enabled queue whose position is valid.\<close>

definition push_enabled :: "nv2a_state \<Rightarrow> bool" where
  "push_enabled n \<longleftrightarrow> pfifo_regs n (CACHE1_DMA_PUSH div 4) AND 1 \<noteq> 0
     \<and> pfifo_regs n (CACHE1_PUSH0 div 4) AND 1 \<noteq> 0 \<and> fifo_get_valid n"

lemma tick_fifo_idle:
  assumes "push_enabled (nv e)" and "fifo_get (nv e) = pfifo_regs (nv e) (CACHE1_DMA_PUT div 4)"
  shows "tick_fifo N e = Some (set_status STATUS_IDLE e)"
  using assms by (simp add: tick_fifo_def push_enabled_def Let_def)

lemma tick_fifo_busy:
  assumes "push_enabled (nv e)" and "fifo_get (nv e) \<noteq> pfifo_regs (nv e) (CACHE1_DMA_PUT div 4)"
  shows "tick_fifo N e =
    (let e0 = set_status 0 e; put = pfifo_regs (nv e) (CACHE1_DMA_PUT div 4) in
     do {
       b \<leftarrow> resolve_dma_base e0;
       f \<leftarrow> fifo_loop N b put \<lparr>fenv = e0, fget = fifo_get (nv e), fconsumed = 0\<rparr>;
       fifo_finish N put f
     })"
  using assms by (simp add: tick_fifo_def push_enabled_def Let_def)

lemma fifo_finish_done:
  assumes "fget f = put"
    and "pramin_ram (nv (fenv f)) \<Longrightarrow> unat (pramin_ram_base (nv (fenv f)) + ramfc_ctx_off
      ((nv (fenv f))\<lparr>pfifo_regs := (pfifo_regs (nv (fenv f)))(CACHE1_DMA_GET div 4 := put)\<rparr>) + 4) + 4 \<le> GUEST_RAM_SIZE"
  shows "\<exists>e. fifo_finish N put f = Some e
    \<and> pfifo_regs (nv e) = (pfifo_regs (nv (fenv f)))(CACHE1_DMA_GET div 4 := put, CACHE1_STATUS div 4 := STATUS_IDLE)
    \<and> fifo_get (nv e) = put"
  using assms by (auto simp: fifo_finish_def Let_def ramfc_ctx_off_def wr_def)

text \<open>The saved context of any channel starts within 192 KB of the instance memory's base.\<close>

lemma ramfc_ctx_off_less: "unat (ramfc_ctx_off n) < 0x30000"
proof -
  define a where "a = drop_bit 12 (pfifo_regs n (PFIFO_RAMFC div 4)) AND 0x1FFF"
  define c where "c = pfifo_regs n (CACHE1_PUSH1 div 4) AND 0x1F"
  have a: "unat a < 0x2000"
    using unat_and_mask_less [of "drop_bit 12 (pfifo_regs n (PFIFO_RAMFC div 4))" 13]
    by (simp add: a_def mask_eq_exp_minus_1)
  have c: "unat c < 0x20"
    using unat_and_mask_less [of "pfifo_regs n (CACHE1_PUSH1 div 4)" 5]
    by (simp add: c_def mask_eq_exp_minus_1)
  have "push_bit 4 a = a * 16" by (simp add: push_bit_eq_mult)
  then have "unat (ramfc_ctx_off n) = unat a * 16 + unat c * 64"
    using a c unfolding ramfc_ctx_off_def a_def [symmetric] c_def [symmetric]
    by (simp add: unat_word_ariths)
  with a c show ?thesis by simp
qed

lemma ramfc_get_in_ram:
  assumes "unat (base :: u32) \<le> 0x07F00000"
  shows "unat (base + ramfc_ctx_off n + 4) + 4 \<le> GUEST_RAM_SIZE"
proof -
  have "unat (base + ramfc_ctx_off n + 4) = unat base + unat (ramfc_ctx_off n) + 4"
    using assms ramfc_ctx_off_less [of n] by (simp add: unat_word_ariths)
  then show ?thesis using assms ramfc_ctx_off_less [of n] by simp
qed

section \<open>Properties\<close>

text \<open>C22: A tick drains a well-formed push buffer completely: when GET to PUT is a stream of NOPs
  and method commands of at most 262144 words, inside memory, the tick ends with GET equal to
  PUT in the register, the status idle and nothing left for the pusher thread to process.\<close>
theorem tick_fifo_drains:
  assumes "push_enabled (nv e)" and "put = pfifo_regs (nv e) (CACHE1_DMA_PUT div 4)"
    and "fifo_get (nv e) \<noteq> put" and "resolve_dma_base (set_status 0 e) = Some b"
    and "stream N b (nv_ram e) (fifo_get (nv e)) n put" and "n \<le> MAX_DWORDS_PER_TICK"
    and "unat (pramin_ram_base (nv e)) \<le> 0x07F00000"
  shows "\<exists>e'. tick_fifo N e = Some e' \<and> pfifo_regs (nv e') (CACHE1_DMA_GET div 4) = put
    \<and> pfifo_regs (nv e') (CACHE1_DMA_PUT div 4) = put
    \<and> pfifo_regs (nv e') (CACHE1_STATUS div 4) = STATUS_IDLE \<and> \<not> needs_processing e'"
proof -
  let ?f0 = "\<lparr>fenv = set_status 0 e, fget = fifo_get (nv e), fconsumed = 0\<rparr>"
  have ram: "nv_ram (set_status 0 e) = nv_ram e" by (simp add: set_status_def upd_pfifo_def)
  obtain f where f: "fifo_loop N b put ?f0 = Some f" "fget f = put" "same_queue (set_status 0 e) (fenv f)"
    using fifo_loop_stream [OF assms(5), of ?f0] ram assms(6) by auto
  have "pramin_ram_base (nv (fenv f)) = pramin_ram_base (nv (set_status 0 e))"
    using f(3) by (simp only: same_queue_def)
  then have "unat (pramin_ram_base (nv (fenv f))) \<le> 0x07F00000"
    using assms(7) by (simp add: set_status_def upd_pfifo_def)
  then obtain e' where e': "fifo_finish N put f = Some e'"
      "pfifo_regs (nv e') = (pfifo_regs (nv (fenv f)))(CACHE1_DMA_GET div 4 := put, CACHE1_STATUS div 4 := STATUS_IDLE)"
    using fifo_finish_done [OF f(2)] ramfc_get_in_ram by blast
  have "tick_fifo N e = Some e'"
    using tick_fifo_busy [OF assms(1), of N] assms(2,3,4) f(1) e'(1) by (simp add: Let_def)
  moreover have "pfifo_regs (nv (fenv f)) (CACHE1_DMA_PUT div 4) = put"
    using f(3) assms(2) by (simp add: same_queue_def set_status_def upd_pfifo_def)
  ultimately show ?thesis using e'(2) by (simp add: needs_processing_def Let_def)
qed

text \<open>A small push buffer: a NOP, a SET_REFERENCE with one data word, a NOP.\<close>

definition fifo_demo :: nv_env where
  "fifo_demo = \<lparr>nv = nv2a_new\<lparr>fifo_get_valid := True, fifo_get := 0x1000, pramin_ram_base := 0x03FE0000,
       pfifo_regs := (\<lambda>_. 0)(CACHE1_DMA_PUSH div 4 := 1, CACHE1_PUSH0 div 4 := 1,
         CACHE1_DMA_PUT div 4 := 0x1010)\<rparr>,
     nv_pic = pic_pair_new,
     nv_ram = st 4 (st 4 (\<lambda>_. 0) 0x1004 0x00040050) 0x1008 0xCAFE, notified = False\<rparr>"

lemma fifo_demo_ram:
  "ld 4 (nv_ram fifo_demo) 0x1000 = 0" "ld 4 (nv_ram fifo_demo) 0x1004 = 0x00040050"
  "ld 4 (nv_ram fifo_demo) 0x100C = 0"
  by (simp_all add: fifo_demo_def ld_st_disjoint)

lemma fifo_demo_stream: "stream GUEST_RAM_SIZE 0 (nv_ram fifo_demo) 0x1000 4 0x1010"
proof -
  have h: "hdr_count 0x00040050 = 1" "hdr_method 0x00040050 = 0x14" "is_method 0x00040050"
    by (simp_all add: hdr_count_def hdr_method_def is_method_def)
  note r = fifo_demo_ram
  have "stream GUEST_RAM_SIZE 0 (nv_ram fifo_demo) 0x1010 0 0x1010" by (rule stream_end)
  then have "stream GUEST_RAM_SIZE 0 (nv_ram fifo_demo) 0x100C 1 0x1010"
    using stream_nop [of "0x100C" "0x1010" 0 GUEST_RAM_SIZE "nv_ram fifo_demo" 0] r by simp
  then have "stream GUEST_RAM_SIZE 0 (nv_ram fifo_demo) 0x1004 3 0x1010"
    using stream_method [of "0x1004" "0x1010" 0 GUEST_RAM_SIZE "nv_ram fifo_demo" "0x00040050" 1] r h
    by (simp add: numeral_3_eq_3)
  then show ?thesis
    using stream_nop [of "0x1000" "0x1010" 0 GUEST_RAM_SIZE "nv_ram fifo_demo" 3] r
    by simp
qed

lemma fifo_demo_fields:
  "push_enabled (nv fifo_demo)" "pfifo_regs (nv fifo_demo) (CACHE1_DMA_PUT div 4) = 0x1010"
  "fifo_get (nv fifo_demo) = 0x1000" "resolve_dma_base (set_status 0 fifo_demo) = Some 0"
  "pramin_ram_base (nv fifo_demo) = 0x03FE0000"
  by (simp_all add: fifo_demo_def push_enabled_def nv2a_new_def)
    (simp add: resolve_dma_base_def dma_object_def dma_target_def set_status_def upd_pfifo_def Let_def)

theorem tick_fifo_drains_witness:
  "\<exists>e'. tick_fifo GUEST_RAM_SIZE fifo_demo = Some e' \<and> pfifo_regs (nv e') (CACHE1_DMA_GET div 4) = 0x1010
    \<and> pfifo_regs (nv e') (CACHE1_DMA_PUT div 4) = 0x1010
    \<and> pfifo_regs (nv e') (CACHE1_STATUS div 4) = STATUS_IDLE \<and> \<not> needs_processing e'"
proof (rule tick_fifo_drains [OF fifo_demo_fields(1) fifo_demo_fields(2) [symmetric] _ fifo_demo_fields(4)])
  show "stream GUEST_RAM_SIZE 0 (nv_ram fifo_demo) (fifo_get (nv fifo_demo)) 4 0x1010"
    using fifo_demo_stream by (simp add: fifo_demo_fields)
qed (simp_all add: fifo_demo_fields)

text \<open>The drain loop of the pusher thread can spin for ever: after a guest write of the DMA_GET
  register, to anything but PUT, while the queue is drained, every tick returns without touching
  the register (the pusher keeps its own position), so there is always work left to process.\<close>
theorem drain_spins:
  assumes "push_enabled (nv e)" and "fifo_get (nv e) = pfifo_regs (nv e) (CACHE1_DMA_PUT div 4)"
    and "g \<noteq> pfifo_regs (nv e) (CACHE1_DMA_PUT div 4)"
  shows "\<exists>e1 e2. nv2a_write 0xFD003244 g e = Some e1 \<and> drain N k e1 = Some e2 \<and> needs_processing e2"
proof -
  define e1 where "e1 = e\<lparr>nv := (nv e)\<lparr>pfifo_regs := (pfifo_regs (nv e))(CACHE1_DMA_GET div 4 := g)\<rparr>, notified := True\<rparr>"
  have w: "nv2a_write 0xFD003244 g e = Some e1"
    by (simp add: nv2a_write_def nv_pfifo_write_def Let_def e1_def upd_block_def)
  define spin where "spin f \<longleftrightarrow> push_enabled (nv f) \<and> needs_processing f
    \<and> fifo_get (nv f) = pfifo_regs (nv f) (CACHE1_DMA_PUT div 4)" for f
  have s1: "spin e1"
    using assms by (simp add: spin_def e1_def push_enabled_def needs_processing_def)
  have step: "tick_fifo N f = Some (set_status STATUS_IDLE f) \<and> spin (set_status STATUS_IDLE f)" if "spin f" for f
    using that tick_fifo_idle [of f N]
    by (simp add: spin_def push_enabled_def needs_processing_def set_status_def upd_pfifo_def Let_def)
  have "\<exists>e2. drain N k f = Some e2 \<and> needs_processing e2" if "spin f" for f
    using that
  proof (induction k arbitrary: f)
    case 0
    then show ?case by (simp add: spin_def)
  next
    case (Suc k)
    then show ?case using step [OF Suc.prems] by (simp add: spin_def)
  qed
  then show ?thesis using w s1 by blast
qed

definition spin_demo :: nv_env where
  "spin_demo = fifo_demo\<lparr>nv := (nv fifo_demo)\<lparr>fifo_get := 0x1010\<rparr>\<rparr>"

theorem drain_spins_witness:
  "\<exists>e1 e2. nv2a_write 0xFD003244 0 spin_demo = Some e1 \<and> drain GUEST_RAM_SIZE 1000 e1 = Some e2
    \<and> needs_processing e2"
  by (rule drain_spins) (simp_all add: spin_demo_def fifo_demo_def push_enabled_def)

text \<open>A parse position that wraps around: the check of the command is made in 32 bits, the access
  with the sum of the two words, so a read four gigabytes past the buffer is made.\<close>

definition wrap_demo :: nv_env where
  "wrap_demo = fifo_demo\<lparr>nv := (nv fifo_demo)\<lparr>fifo_get := 0xFFFFF000,
       pramin := st 4 (\<lambda>_. 0) 8 0x1000\<rparr>,
     nv_ram := st 4 (\<lambda>_. 0) 0 0x00040050\<rparr>"

lemma wrapped_command_reads_outside: "tick_fifo GUEST_RAM_SIZE wrap_demo = None"
proof -
  have e: "push_enabled (nv wrap_demo)" "pfifo_regs (nv wrap_demo) (CACHE1_DMA_PUT div 4) = 0x1010"
    "fifo_get (nv wrap_demo) = 0xFFFFF000"
    by (simp_all add: wrap_demo_def fifo_demo_def push_enabled_def)
  define e0 where "e0 = set_status 0 wrap_demo"
  have ram: "nv_ram e0 = st 4 (\<lambda>_. 0) 0 0x00040050"
    by (simp add: e0_def wrap_demo_def set_status_def upd_pfifo_def)
  have b: "resolve_dma_base e0 = Some 0x1000"
    by (simp add: e0_def resolve_dma_base_def dma_object_def dma_target_def set_status_def
        upd_pfifo_def Let_def wrap_demo_def fifo_demo_def nv2a_new_def ld_st_disjoint)
  let ?f = "\<lparr>fenv = e0, fget = 0xFFFFF000, fconsumed = 0\<rparr>"
  have m: "is_method 0x00040050" by (simp add: is_method_def)
  have "fifo_step GUEST_RAM_SIZE 0x1000 ?f =
      fifo_method GUEST_RAM_SIZE 0x1000 0x00040050 (?f\<lparr>fget := fget ?f + 4, fconsumed := fconsumed ?f + 1\<rparr>)"
    using m ram by (intro fifo_step_method) simp_all
  also have "\<dots> = None"
    by (simp add: fifo_method_def Let_def executed_def rd_def)
  finally have "fifo_loop GUEST_RAM_SIZE 0x1000 0x1010 ?f = None"
    by (simp add: fifo_loop.simps)
  then show ?thesis
    using tick_fifo_busy [OF e(1), of GUEST_RAM_SIZE] b e(2,3) by (simp add: Let_def e0_def [symmetric])
qed

section \<open>Runs of the chip\<close>

text \<open>The pusher does not touch the interrupt registers.\<close>

definition out_fifo :: "loop_step \<Rightarrow> fifo" where
  "out_fifo r = (case r of Continue f \<Rightarrow> f | Break f \<Rightarrow> f)"

definition irq_kept :: "fifo \<Rightarrow> fifo \<Rightarrow> bool" where
  "irq_kept f g \<longleftrightarrow> same_irq (nv (fenv f)) (nv (fenv g))"

lemma irq_kept_trans: "irq_kept a b \<Longrightarrow> irq_kept b c \<Longrightarrow> irq_kept a c"
  using same_irq_trans by (simp add: irq_kept_def)

lemma irq_kept_refl [simp]: "irq_kept f f"
  by (simp add: irq_kept_def)

lemma irq_kept_fget [simp]:
  "irq_kept f (g\<lparr>fget := x\<rparr>) = irq_kept f g" "irq_kept f (g\<lparr>fconsumed := y\<rparr>) = irq_kept f g"
  by (simp_all add: irq_kept_def)

lemma irq_kept_subr: "irq_kept f (set_subr v f)"
  by (simp add: irq_kept_def set_subr_def fnv_def same_irq_def)

lemma irq_kept_diag:
  "irq_kept f (fnv (\<lambda>n. n\<lparr>diag_jumps := diag_jumps n + 1\<rparr>) g) = irq_kept f g"
  "irq_kept f (fnv (\<lambda>n. n\<lparr>diag_calls := diag_calls n + 1\<rparr>) g) = irq_kept f g"
  "irq_kept f (fnv (\<lambda>n. n\<lparr>diag_methods := diag_methods n + c\<rparr>) g) = irq_kept f g"
  by (simp_all add: irq_kept_def fnv_def same_irq_def)

lemma irq_kept_exec:
  assumes "fifo_exec N m c v f = Some g"
  shows "irq_kept f g"
proof (cases "m = 0x41")
  case True
  then have "fifo_notify_method N c v f = Some g" using assms by (simp add: fifo_exec_def)
  then show ?thesis
    by (auto simp: fifo_notify_method_def Let_def irq_kept_def split: if_splits bind_splits)
next
  case False
  then have "g = exec_pure m c v f" using assms fifo_exec_pure by simp
  then show ?thesis using exec_pure_stream by (simp add: irq_kept_def same_queue_def)
qed

lemma irq_kept_method:
  assumes "fifo_method N b hdr f = Some r"
  shows "irq_kept f (out_fifo r)"
  using assms irq_kept_exec
  by (auto simp: fifo_method_def Let_def out_fifo_def irq_kept_diag split: if_splits bind_splits)

lemma irq_kept_step:
  assumes "fifo_step N b f = Some r"
  shows "irq_kept f (out_fifo r)"
proof -
  define g where "g = f\<lparr>fget := fget f + 4, fconsumed := fconsumed f + 1\<rparr>"
  have g: "irq_kept f g" by (simp add: g_def)
  have s: "irq_kept f (set_subr v g)" for v using irq_kept_trans [OF g irq_kept_subr] .
  have "irq_kept f (g\<lparr>fget := x\<rparr>)" for x using g by simp
  then have s': "irq_kept f (set_subr v (g\<lparr>fget := x\<rparr>))" for v x
    using irq_kept_trans irq_kept_subr by blast
  have m: "irq_kept f (out_fifo r)" if "fifo_method N b hdr g = Some r" for hdr
    using irq_kept_trans [OF g irq_kept_method [OF that]] .
  show ?thesis
    using assms g s s' m unfolding fifo_step_def Let_def g_def [symmetric]
    by (auto simp: out_fifo_def irq_kept_diag set_subr_def [symmetric] split: if_splits bind_splits)
qed

lemma irq_kept_loop: "fifo_loop N b put f = Some g \<Longrightarrow> irq_kept f g"
proof (induction N b put f rule: fifo_loop.induct)
  case (1 N b put f)
  show ?case
  proof (cases "fget f = put \<or> fconsumed f \<ge> MAX_DWORDS_PER_TICK")
    case True
    then show ?thesis using 1(2) by (auto simp: fifo_loop.simps [of N b put f])
  next
    case False
    then obtain r where r: "fifo_step N b f = Some r"
      using 1(2) by (cases "fifo_step N b f") (simp_all add: fifo_loop.simps [of N b put f])
    show ?thesis
    proof (cases r)
      case (Continue h)
      then have "fifo_loop N b put h = Some g"
        using 1(2) False r by (simp add: fifo_loop.simps [of N b put f])
      then have "irq_kept h g" using 1(1) [OF False r Continue] by blast
      then show ?thesis using irq_kept_step [OF r] Continue irq_kept_trans by (auto simp: out_fifo_def)
    next
      case (Break h)
      then have "h = g" using 1(2) False r by (simp add: fifo_loop.simps [of N b put f])
      then show ?thesis using irq_kept_step [OF r] Break by (simp add: out_fifo_def)
    qed
  qed
qed

lemma fifo_finish_same:
  "fifo_finish N put f = Some e \<Longrightarrow> same_irq (nv (fenv f)) (nv e)"
  by (auto simp: fifo_finish_def Let_def same_irq_def split: if_splits bind_splits)

lemma set_status_same: "same_irq (nv e) (nv (set_status v e))"
  unfolding set_status_def by (rule same_irq_pfifo) simp_all

lemma tick_fifo_same:
  assumes "tick_fifo N e = Some e'"
  shows "same_irq (nv e) (nv e')"
proof -
  define n where "n = (if \<not> fifo_get_valid (nv e) \<and> pfifo_regs (nv e) (CACHE1_DMA_PUT div 4) \<noteq> 0
    then (nv e)\<lparr>fifo_get := pfifo_regs (nv e) (CACHE1_DMA_GET div 4), fifo_get_valid := True\<rparr> else nv e)"
  define d where "d = e\<lparr>nv := n\<rparr>"
  have d: "same_irq (nv e) (nv d)" by (simp add: d_def n_def same_irq_def)
  have st: "same_irq (nv e) (nv (set_status v d))" for v
    using same_irq_trans [OF d set_status_same] .
  have loop: "same_irq (nv e) (nv x)" if "fifo_loop N b put \<lparr>fenv = set_status 0 d, fget = g, fconsumed = 0\<rparr> = Some f"
      and "fifo_finish N put f = Some x" for b put g f x
    using irq_kept_loop [OF that(1)] fifo_finish_same [OF that(2)] same_irq_trans [OF st] same_irq_trans
    by (simp add: irq_kept_def) blast
  show ?thesis
    using assms d st loop unfolding tick_fifo_def Let_def n_def [symmetric] d_def [symmetric]
    by (auto split: if_splits bind_splits)
qed

definition nv_env_new :: nv_env where
  "nv_env_new = \<lparr>nv = nv2a_new, nv_pic = pic_pair_new, nv_ram = (\<lambda>_. 0), notified = False\<rparr>"

text \<open>Why only aligned writes: the dispatch by block compares the byte offset with the offset of the
  status and enable registers, the store uses the offset divided by four. A write at an odd
  offset therefore changes the enable register without recomputing PMC_INTR_0.\<close>

lemma unaligned_enable_lost:
  assumes "pfifo_regs (nv e) (BLK_INTR div 4) = 1"
  shows "\<exists>e'. nv2a_write (NV2A_BASE + 0x2141) 1 e = Some e' \<and> asks (pfifo_regs (nv e'))
    \<and> pmc_regs (nv e') = pmc_regs (nv e)"
  using assms
  by (simp add: nv2a_write_def nv_pfifo_write_def upd_block_def asks_def Let_def)

text \<open>The raster position a guest reads is always below the 525 lines of a frame: the vertical
  blank counter stays below its period, and returns to where it was after 600 ticks.\<close>
theorem raster_in_frame:
  assumes "vblank_ok (nv e)"
  shows "unat (nv_raster (nv ((nv_tick_timer ^^ n) e))) < NTSC_TOTAL_LINES
    \<and> unat (vblank_counter (nv ((nv_tick_timer ^^ n) e))) = (unat (vblank_counter (nv e)) + n) mod 600"
  using vblank_after [OF assms, of n] nv_raster_less [of "nv ((nv_tick_timer ^^ n) e)"]
  by (simp add: vblank_ok_def)

theorem raster_in_frame_example:
  "unat (nv_raster (nv ((nv_tick_timer ^^ 599) nv_env_new))) < NTSC_TOTAL_LINES
    \<and> unat (vblank_counter (nv ((nv_tick_timer ^^ 599) nv_env_new))) =
      (unat (vblank_counter (nv nv_env_new)) + 599) mod 600"
  by (rule raster_in_frame) (simp add: vblank_ok_def nv_env_new_def nv2a_new_def)

text \<open>Whenever the chip recomputes its interrupts, its line at the interrupt controller (IRQ 3)
  is requested exactly if PMC_INTR_0 is not zero and the master enable bit is set.\<close>
theorem nv2a_interrupt_line:
  "bit (irr (master (nv_pic (update_irq e)))) 3 \<longleftrightarrow>
    pmc_regs (nv (update_irq e)) (PMC_INTR_0 div 4) \<noteq> 0
      \<and> bit (pmc_regs (nv (update_irq e)) (PMC_INTR_EN div 4)) 0"
  by (rule update_irq_line)

text \<open>Aligned accesses of the register file never leave its arrays; unaligned ones can, at the last
  three bytes of the configuration-space mirror.\<close>

lemma pbus_mirror_end_outside: "nv2a_read (NV2A_BASE + 0x18FD) e = None"
  by (simp add: nv2a_read_def Let_def rd_def)

end
