(* ===== verification/Bus.thy ===== *)
theory Bus
  imports Prelude
begin

text \<open>
  The two buses between the processor and the devices: the memory-mapped regions of
  \<open>src/src/cpu/mmio.hpp\<close> (\<open>MmioMap\<close>) and the I/O port table of \<open>src/src/cpu/executor.hpp\<close> and
  \<open>src/src/cpu/executor.cpp\<close> (\<open>register_io\<close>, \<open>io_read\<close>, \<open>io_write\<close>).

  A handler is a function on the state \<open>'s\<close> of all devices (the \<open>user\<close> pointer of the code selects
  a part of it); it is \<open>None\<close> where the device accesses memory outside its arrays.  A null callback
  is \<open>None\<close> in the port table.  The used entries of the arrays are the lists below.
\<close>

section \<open>Memory-mapped regions\<close>

record 's mmio_region =
  m_base :: u32
  m_size :: u32
  m_read :: "u32 \<Rightarrow> nat \<Rightarrow> 's \<Rightarrow> (u32 \<times> 's) option"
  m_write :: "u32 \<Rightarrow> u32 \<Rightarrow> nat \<Rightarrow> 's \<Rightarrow> 's option"

abbreviation MMIO_MAX :: nat where "MMIO_MAX \<equiv> 32"
abbreviation BUS_FLOAT :: u32 where "BUS_FLOAT \<equiv> 0xFFFFFFFF"

definition mmio_add :: "'s mmio_region \<Rightarrow> 's mmio_region list \<Rightarrow> 's mmio_region list" where
  "mmio_add r rs = (if length rs < MMIO_MAX then rs @ [r] else rs)"

definition m_hit :: "'s mmio_region \<Rightarrow> u32 \<Rightarrow> bool" where
  "m_hit r pa \<longleftrightarrow> pa \<ge> m_base r \<and> pa - m_base r < m_size r"

fun mmio_read :: "'s mmio_region list \<Rightarrow> u32 \<Rightarrow> nat \<Rightarrow> 's \<Rightarrow> (u32 \<times> 's) option" where
  "mmio_read [] pa n s = Some (BUS_FLOAT, s)"
| "mmio_read (r # rs) pa n s = (if m_hit r pa then m_read r pa n s else mmio_read rs pa n s)"

fun mmio_write :: "'s mmio_region list \<Rightarrow> u32 \<Rightarrow> u32 \<Rightarrow> nat \<Rightarrow> 's \<Rightarrow> 's option" where
  "mmio_write [] pa val n s = Some s"
| "mmio_write (r # rs) pa val n s =
     (if m_hit r pa then m_write r pa val n s else mmio_write rs pa val n s)"

section \<open>I/O ports\<close>

record 's io_entry =
  io_port :: u16
  io_rd :: "(u16 \<Rightarrow> nat \<Rightarrow> 's \<Rightarrow> (u32 \<times> 's) option) option"
  io_wr :: "(u16 \<Rightarrow> u32 \<Rightarrow> nat \<Rightarrow> 's \<Rightarrow> 's option) option"

abbreviation MAX_IO_PORTS :: nat where "MAX_IO_PORTS \<equiv> 128"

text \<open>Registering past the end of the table fails the assertion.\<close>

definition register_io :: "'s io_entry \<Rightarrow> 's io_entry list \<Rightarrow> 's io_entry list option" where
  "register_io e es = (if length es < MAX_IO_PORTS then Some (es @ [e]) else None)"

fun io_read :: "'s io_entry list \<Rightarrow> u16 \<Rightarrow> nat \<Rightarrow> 's \<Rightarrow> (u32 \<times> 's) option" where
  "io_read [] port n s = Some (0xFFFFFFFF, s)"
| "io_read (e # es) port n s =
     (case (io_port e = port, io_rd e) of
        (True, Some f) \<Rightarrow> f port n s
      | _ \<Rightarrow> io_read es port n s)"

fun io_write :: "'s io_entry list \<Rightarrow> u16 \<Rightarrow> u32 \<Rightarrow> nat \<Rightarrow> 's \<Rightarrow> 's option" where
  "io_write [] port val n s = Some s"
| "io_write (e # es) port val n s =
     (case (io_port e = port, io_wr e) of
        (True, Some f) \<Rightarrow> f port val n s
      | _ \<Rightarrow> io_write es port val n s)"

section \<open>Decoding\<close>

text \<open>
  Both buses take the first entry that answers.  The contract of a well-configured bus is that at
  most one entry answers an address; then the order in which devices are attached is irrelevant.
\<close>

locale decoder =
  fixes hit :: "'e \<Rightarrow> 'a \<Rightarrow> bool"
    and table :: "'e list"
  assumes unique: "\<lbrakk>e \<in> set table; e' \<in> set table; hit e a; hit e' a\<rbrakk> \<Longrightarrow> e = e'"
begin

lemma find_hit:
  assumes "e \<in> set table" and "hit e a"
  shows "find (\<lambda>e. hit e a) table = Some e"
proof -
  obtain e' where e': "find (\<lambda>e. hit e a) table = Some e'"
    using assms by (cases "find (\<lambda>e. hit e a) table") (auto simp: find_None_iff)
  then have "e' \<in> set table" "hit e' a" by (auto simp: find_Some_iff in_set_conv_nth)
  with assms e' show ?thesis using unique by blast
qed

lemma find_reorder:
  assumes "set table' = set table"
  shows "find (\<lambda>e. hit e a) table' = find (\<lambda>e. hit e a) table"
proof (cases "find (\<lambda>e. hit e a) table'")
  case None
  then show ?thesis using assms by (metis find_None_iff)
next
  case (Some e)
  then have "e \<in> set table'" "hit e a" by (auto simp: find_Some_iff in_set_conv_nth)
  then show ?thesis using find_hit [of e a] assms Some by simp
qed

end

text \<open>Reads and writes as lookups.\<close>

lemma mmio_read_find:
  "mmio_read rs pa n s =
    (case find (\<lambda>r. m_hit r pa) rs of None \<Rightarrow> Some (BUS_FLOAT, s) | Some r \<Rightarrow> m_read r pa n s)"
  by (induction rs) auto

lemma mmio_write_find:
  "mmio_write rs pa val n s =
    (case find (\<lambda>r. m_hit r pa) rs of None \<Rightarrow> Some s | Some r \<Rightarrow> m_write r pa val n s)"
  by (induction rs) auto

definition io_rd_hit :: "'s io_entry \<Rightarrow> u16 \<Rightarrow> bool" where
  "io_rd_hit e port \<longleftrightarrow> io_port e = port \<and> io_rd e \<noteq> None"

definition io_wr_hit :: "'s io_entry \<Rightarrow> u16 \<Rightarrow> bool" where
  "io_wr_hit e port \<longleftrightarrow> io_port e = port \<and> io_wr e \<noteq> None"

lemma io_read_find:
  "io_read es port n s =
    (case find (\<lambda>e. io_rd_hit e port) es of
       None \<Rightarrow> Some (0xFFFFFFFF, s) | Some e \<Rightarrow> the (io_rd e) port n s)"
  by (induction es) (auto simp: io_rd_hit_def split: option.splits bool.splits)

lemma io_write_find:
  "io_write es port val n s =
    (case find (\<lambda>e. io_wr_hit e port) es of
       None \<Rightarrow> Some s | Some e \<Rightarrow> the (io_wr e) port val n s)"
  by (induction es) (auto simp: io_wr_hit_def split: option.splits bool.splits)

text \<open>A port table with distinct ports, and a map of disjoint windows, are decoders.\<close>

lemma distinct_ports_unique:
  "\<lbrakk>distinct (map io_port es); e \<in> set es; e' \<in> set es; io_port e = io_port e'\<rbrakk> \<Longrightarrow> e = e'"
  by (auto simp: distinct_map inj_on_def)

lemma m_hit_unat:
  "m_hit r pa \<longleftrightarrow> unat (m_base r) \<le> unat pa \<and> unat pa < unat (m_base r) + unat (m_size r)"
  by (auto simp: m_hit_def word_le_nat_alt word_less_nat_alt unat_sub)

text \<open>Windows in ascending, non-overlapping order.\<close>

fun windows_apart :: "(nat \<times> nat) list \<Rightarrow> bool" where
  "windows_apart (a # b # ws) \<longleftrightarrow> fst a + snd a \<le> fst b \<and> windows_apart (b # ws)"
| "windows_apart _ \<longleftrightarrow> True"

definition window :: "'s mmio_region \<Rightarrow> nat \<times> nat" where
  "window r = (unat (m_base r), unat (m_size r))"

lemma windows_apart_above:
  "windows_apart (w # ws) \<Longrightarrow> v \<in> set ws \<Longrightarrow> fst w + snd w \<le> fst v"
proof (induction ws arbitrary: w)
  case (Cons u us)
  then have "fst w + snd w \<le> fst u" and "windows_apart (u # us)" by auto
  then show ?case using Cons.IH [of u] Cons.prems by (cases "v = u") auto
qed simp

lemma windows_apart_tl: "windows_apart (w # ws) \<Longrightarrow> windows_apart ws"
  by (cases ws) auto

lemma windows_apart_unique:
  assumes "windows_apart (map window rs)" and "r \<in> set rs" and "r' \<in> set rs"
    and "m_hit r pa" and "m_hit r' pa"
  shows "r = r'"
  using assms
proof (induction rs)
  case (Cons q qs)
  have above: "fst (window q) + snd (window q) \<le> fst (window x)" if "x \<in> set qs" for x
    using windows_apart_above [OF Cons.prems(1) [simplified]] that by auto
  have apart: "\<not> (m_hit q pa \<and> m_hit x pa)" if "x \<in> set qs" for x
    using above [OF that] by (auto simp: m_hit_unat window_def)
  show ?case
    using Cons.prems Cons.IH [OF windows_apart_tl [of "window q"]] apart by auto
qed simp

end
