(* ===== verification/Setup.thy ===== *)
theory Setup
  imports Bus Address_Map Nv2aFifo Pgraph Pit Ioapic Legacy Pci Usb Flash Smbus Ide Apu
begin

text \<open>
  The machine of \<open>src/src/xbox/setup.hpp\<close>: all devices as one state, the two tables of \<open>xbox_setup\<close>
  that attach them to the buses, and the periodic callbacks.  The executor's fields that the setup
  fills (ports, tick and interrupt callbacks) are constants here; the RAM pointer is never null after
  a successful \<open>Executor::init\<close>.  The function-local \<open>static\<close> variables of the callback
  are fields of the state.
\<close>

section \<open>State\<close>

record xbox =
  hw_env :: nv_env
  hw_pgraph :: pgraph_state
  hw_apu :: apu_state
  hw_ide :: ide_state
  hw_usb0 :: ohci_state
  hw_usb1 :: ohci_state
  hw_ioapic :: ioapic_state
  hw_flash :: flash_state
  hw_pci :: pci_state
  hw_smbus :: smbus_state
  hw_pit :: pit_state
  hw_cmos :: cmos_state
  hw_misc :: misc_state
  hw_acpi :: acpi_state
  tick_accum :: u32
  last_push0 :: u32
  last_push1 :: u32
  last_inst :: u32

abbreviation hw_pic :: "xbox \<Rightarrow> pic_pair" where "hw_pic s \<equiv> nv_pic (hw_env s)"
abbreviation hw_ram :: "xbox \<Rightarrow> bytes" where "hw_ram s \<equiv> nv_ram (hw_env s)"

definition set_pic :: "pic_pair \<Rightarrow> xbox \<Rightarrow> xbox" where
  "set_pic p s = s\<lparr>hw_env := (hw_env s)\<lparr>nv_pic := p\<rparr>\<rparr>"

definition set_ram :: "bytes \<Rightarrow> xbox \<Rightarrow> xbox" where
  "set_ram m s = s\<lparr>hw_env := (hw_env s)\<lparr>nv_ram := m\<rparr>\<rparr>"

definition set_nv :: "nv2a_state \<Rightarrow> xbox \<Rightarrow> xbox" where
  "set_nv n s = s\<lparr>hw_env := (hw_env s)\<lparr>nv := n\<rparr>\<rparr>"

text \<open>The state after \<open>new XboxHardware()\<close> and the calls of \<open>xbox_setup\<close>; \<open>committed\<close> is
  \<open>exec.nv2a_committed_\<close>, the outcome of the host allocation.\<close>

definition xbox_setup :: "bool \<Rightarrow> xbox" where
  "xbox_setup committed =
     \<lparr>hw_env = \<lparr>nv = nv2a_new\<lparr>pramin_ram := True, pramin_ram_base := 0x03FE0000,
           pramin_ram_size := 16 * 4096, fastmem_nv2a := committed\<rparr>,
         nv_pic = pic_pair_new, nv_ram = (\<lambda>_. 0), notified = False\<rparr>,
      hw_pgraph = pgraph_new, hw_apu = apu_new, hw_ide = ide_new,
      hw_usb0 = ohci_init 2 ohci_zero, hw_usb1 = ohci_init 2 ohci_zero, hw_ioapic = ioapic_new,
      hw_flash = flash_new, hw_pci = init_xbox_devices pci_zero, hw_smbus = smbus_new,
      hw_pit = pit_new, hw_cmos = cmos_init cmos_zero, hw_misc = misc_new, hw_acpi = acpi_new,
      tick_accum = 0, last_push0 = 0, last_push1 = 0, last_inst = 0\<rparr>"

section \<open>The tables of the buses\<close>

text \<open>Handlers of one device as handlers of the machine.\<close>

definition nv_lift :: "(nv_env \<Rightarrow> nv_env option) \<Rightarrow> xbox \<Rightarrow> xbox option" where
  "nv_lift f s = map_option (\<lambda>e. s\<lparr>hw_env := e\<rparr>) (f (hw_env s))"

definition pure_rd :: "(xbox \<Rightarrow> u32) \<Rightarrow> xbox \<Rightarrow> (u32 \<times> xbox) option" where
  "pure_rd f s = Some (f s, s)"

definition opt_rd :: "(xbox \<Rightarrow> u32 option) \<Rightarrow> xbox \<Rightarrow> (u32 \<times> xbox) option" where
  "opt_rd f s = map_option (\<lambda>v. (v, s)) (f s)"

definition ram_mirror_region :: "xbox mmio_region" where
  "ram_mirror_region = \<lparr>m_base = RAM_MIRROR_BASE, m_size = RAM_MIRROR_SIZE,
     m_read = (\<lambda>pa n. opt_rd (\<lambda>s. ram_mirror_read pa n (hw_ram s))),
     m_write = (\<lambda>pa val n s. map_option (\<lambda>m. set_ram m s) (ram_mirror_write pa val n (hw_ram s)))\<rparr>"

definition flash_region :: "u32 \<Rightarrow> u32 \<Rightarrow> xbox mmio_region" where
  "flash_region base sz = \<lparr>m_base = base, m_size = sz,
     m_read = (\<lambda>pa n. opt_rd (\<lambda>s. flash_read pa n (hw_flash s))),
     m_write = (\<lambda>pa val n s. Some (s\<lparr>hw_flash := flash_write pa val (hw_flash s)\<rparr>))\<rparr>"

definition nv2a_region :: "xbox mmio_region" where
  "nv2a_region = \<lparr>m_base = NV2A_BASE, m_size = NV2A_SIZE,
     m_read = (\<lambda>pa n. opt_rd (\<lambda>s. nv2a_read pa (hw_env s))),
     m_write = (\<lambda>pa val n. nv_lift (nv2a_write pa val))\<rparr>"

definition apu_region :: "xbox mmio_region" where
  "apu_region = \<lparr>m_base = APU_BASE, m_size = APU_SIZE,
     m_read = (\<lambda>pa n. opt_rd (\<lambda>s. apu_read pa (hw_apu s))),
     m_write = (\<lambda>pa val n s. map_option (\<lambda>a. s\<lparr>hw_apu := a\<rparr>) (apu_write pa val (hw_apu s)))\<rparr>"

definition ioapic_region :: "xbox mmio_region" where
  "ioapic_region = \<lparr>m_base = IOAPIC_BASE, m_size = IOAPIC_SIZE,
     m_read = (\<lambda>pa n. pure_rd (\<lambda>s. ioapic_read pa (hw_ioapic s))),
     m_write = (\<lambda>pa val n s. Some (s\<lparr>hw_ioapic := ioapic_write pa val (hw_ioapic s)\<rparr>))\<rparr>"

definition usb0_region :: "xbox mmio_region" where
  "usb0_region = \<lparr>m_base = USB0_BASE, m_size = USB0_SIZE,
     m_read = (\<lambda>pa n. pure_rd (\<lambda>s. ohci_read pa (hw_usb0 s))),
     m_write = (\<lambda>pa val n s. Some (s\<lparr>hw_usb0 := ohci_write pa val (hw_usb0 s)\<rparr>))\<rparr>"

definition usb1_region :: "xbox mmio_region" where
  "usb1_region = \<lparr>m_base = USB1_BASE, m_size = USB1_SIZE,
     m_read = (\<lambda>pa n. pure_rd (\<lambda>s. ohci_read pa (hw_usb1 s))),
     m_write = (\<lambda>pa val n s. Some (s\<lparr>hw_usb1 := ohci_write pa val (hw_usb1 s)\<rparr>))\<rparr>"

definition xbox_mmio :: "xbox mmio_region list" where
  "xbox_mmio = fold mmio_add
     [ram_mirror_region, flash_region FLASH_BASE FLASH_SIZE, nv2a_region, apu_region, ioapic_region,
      usb0_region, usb1_region, flash_region BIOS_BASE BIOS_SIZE] []"

text \<open>The I/O ports.\<close>

abbreviation (input) port_handler ::
  "(u16 \<Rightarrow> nat \<Rightarrow> xbox \<Rightarrow> (u32 \<times> xbox) option) \<Rightarrow> (u16 \<Rightarrow> u32 \<Rightarrow> nat \<Rightarrow> xbox \<Rightarrow> xbox option) \<Rightarrow> u16 \<Rightarrow> xbox io_entry"
  where "port_handler r w p \<equiv> \<lparr>io_port = p, io_rd = Some r, io_wr = Some w\<rparr>"

definition pic_master_entry :: "u16 \<Rightarrow> xbox io_entry" where
  "pic_master_entry = port_handler (\<lambda>p n. pure_rd (\<lambda>s. pic_master_read p (hw_pic s)))
     (\<lambda>p val n s. Some (set_pic (pic_master_write p val (hw_pic s)) s))"

definition pic_slave_entry :: "u16 \<Rightarrow> xbox io_entry" where
  "pic_slave_entry = port_handler (\<lambda>p n. pure_rd (\<lambda>s. pic_slave_read p (hw_pic s)))
     (\<lambda>p val n s. Some (set_pic (pic_slave_write p val (hw_pic s)) s))"

definition pit_entry :: "u16 \<Rightarrow> xbox io_entry" where
  "pit_entry = port_handler
     (\<lambda>p n s. let (v, t) = pit_io_read p (hw_pit s) in Some (v, s\<lparr>hw_pit := t\<rparr>))
     (\<lambda>p val n s. Some (s\<lparr>hw_pit := pit_io_write p val (hw_pit s)\<rparr>))"

definition cmos_entry :: "u16 \<Rightarrow> xbox io_entry" where
  "cmos_entry = port_handler
     (\<lambda>p n s. let (v, t) = cmos_io_read p (hw_cmos s) in Some (v, s\<lparr>hw_cmos := t\<rparr>))
     (\<lambda>p val n s. Some (s\<lparr>hw_cmos := cmos_io_write p val (hw_cmos s)\<rparr>))"

definition elcr_entry :: "u16 \<Rightarrow> xbox io_entry" where
  "elcr_entry = port_handler (\<lambda>p n. opt_rd (\<lambda>s. elcr_io_read p (hw_cmos s)))
     (\<lambda>p val n s. map_option (\<lambda>c. s\<lparr>hw_cmos := c\<rparr>) (elcr_io_write p val (hw_cmos s)))"

definition sysctl_entry :: "u16 \<Rightarrow> xbox io_entry" where
  "sysctl_entry = port_handler
     (\<lambda>p n s. let (v, t) = sysctl_read (hw_misc s) in Some (v, s\<lparr>hw_misc := t\<rparr>))
     (\<lambda>p val n s. Some (s\<lparr>hw_misc := sysctl_write val (hw_misc s)\<rparr>))"

definition post_code_entry :: "u16 \<Rightarrow> xbox io_entry" where
  "post_code_entry = port_handler (\<lambda>p n. pure_rd (\<lambda>s. post_code_read (hw_misc s)))
     (\<lambda>p val n s. Some (s\<lparr>hw_misc := post_code_write val (hw_misc s)\<rparr>))"

definition debug_entry :: "u16 \<Rightarrow> xbox io_entry" where
  "debug_entry = port_handler (\<lambda>p n. pure_rd (\<lambda>s. debug_console_read))
     (\<lambda>p val n s. Some (s\<lparr>hw_misc := debug_console_write val (hw_misc s)\<rparr>))"

definition pci_cf8_entry :: "u16 \<Rightarrow> xbox io_entry" where
  "pci_cf8_entry = port_handler (\<lambda>p n. pure_rd (\<lambda>s. pci_io_read_cf8 (hw_pci s)))
     (\<lambda>p val n s. Some (s\<lparr>hw_pci := pci_io_write_cf8 val (hw_pci s)\<rparr>))"

definition pci_cfc_entry :: "u16 \<Rightarrow> xbox io_entry" where
  "pci_cfc_entry = port_handler (\<lambda>p n. opt_rd (\<lambda>s. pci_io_read_cfc p n (hw_pci s)))
     (\<lambda>p val n s. map_option (\<lambda>c. s\<lparr>hw_pci := c\<rparr>) (pci_io_write_cfc p val n (hw_pci s)))"

definition smbus_entry :: "u16 \<Rightarrow> xbox io_entry" where
  "smbus_entry = port_handler
     (\<lambda>p n s. let (v, t) = smbus_io_read p (hw_smbus s) in Some (v, s\<lparr>hw_smbus := t\<rparr>))
     (\<lambda>p val n s. let (t, pic) = smbus_io_write p val (hw_smbus s, hw_pic s) in
        Some (set_pic pic (s\<lparr>hw_smbus := t\<rparr>)))"

definition ide_entry :: "u16 \<Rightarrow> xbox io_entry" where
  "ide_entry = port_handler
     (\<lambda>p n s. let (v, t) = ide_io_read p (hw_ide s) in Some (v, s\<lparr>hw_ide := t\<rparr>))
     (\<lambda>p val n s. Some (s\<lparr>hw_ide := ide_io_write p val (hw_ide s)\<rparr>))"

definition ide_bm_entry :: "u16 \<Rightarrow> xbox io_entry" where
  "ide_bm_entry = port_handler (\<lambda>p n. pure_rd (\<lambda>s. ide_bm_read p n (hw_ide s)))
     (\<lambda>p val n s. Some (s\<lparr>hw_ide := ide_bm_write p val n (hw_ide s)\<rparr>))"

definition acpi_pm1a_entry :: "u16 \<Rightarrow> xbox io_entry" where
  "acpi_pm1a_entry = port_handler (\<lambda>p n. pure_rd (\<lambda>s. acpi_pm1a_read p (hw_acpi s)))
     (\<lambda>p val n s. Some (s\<lparr>hw_acpi := acpi_pm1a_write p val (hw_acpi s)\<rparr>))"

definition acpi_pmtmr_entry :: "u16 \<Rightarrow> xbox io_entry" where
  "acpi_pmtmr_entry p = \<lparr>io_port = p,
     io_rd = Some (\<lambda>p n. pure_rd (\<lambda>s. acpi_pmtmr_read (hw_acpi s))), io_wr = None\<rparr>"

definition acpi_gpe0_entry :: "u16 \<Rightarrow> xbox io_entry" where
  "acpi_gpe0_entry = port_handler (\<lambda>p n. pure_rd (\<lambda>s. acpi_gpe0_read p (hw_acpi s)))
     (\<lambda>p val n s. Some (s\<lparr>hw_acpi := acpi_gpe0_write p val (hw_acpi s)\<rparr>))"

text \<open>The entries in the order of registration, and the table that registering them gives.\<close>

definition port_list :: "xbox io_entry list" where
  "port_list =
     map pic_master_entry [0x20, 0x21] @ map pic_slave_entry [0xA0, 0xA1] @
     map pit_entry [0x40, 0x41, 0x42, 0x43] @ map cmos_entry [0x70, 0x71] @
     map elcr_entry [0x4D0, 0x4D1] @
     [sysctl_entry 0x61, post_code_entry 0x80, debug_entry 0xE9, pci_cf8_entry 0xCF8, pci_cfc_entry 0xCFC] @
     map (\<lambda>i. smbus_entry (0xC000 + of_nat i)) [0..<16] @
     map (\<lambda>i. ide_entry (0x1F0 + of_nat i)) [0..<8] @ [ide_entry 0x3F6] @
     map (\<lambda>i. ide_entry (0x170 + of_nat i)) [0..<8] @ [ide_entry 0x376] @
     map (\<lambda>i. ide_bm_entry (0xFF60 + of_nat i)) [0..<16] @
     map acpi_pm1a_entry [0x8000, 0x8001] @ [acpi_pmtmr_entry 0x8008] @
     map acpi_gpe0_entry [0x80C0, 0x80C1]"

primrec register_all :: "xbox io_entry list \<Rightarrow> xbox io_entry list \<Rightarrow> xbox io_entry list option" where
  "register_all [] t = Some t"
| "register_all (e # es) t = Option.bind (register_io e t) (register_all es)"

definition xbox_ports :: "xbox io_entry list option" where
  "xbox_ports = register_all port_list []"

section \<open>Decoding of the machine's addresses\<close>

lemmas region_defs = ram_mirror_region_def flash_region_def nv2a_region_def apu_region_def
  ioapic_region_def usb0_region_def usb1_region_def

lemma xbox_mmio_eq:
  "xbox_mmio = [ram_mirror_region, flash_region FLASH_BASE FLASH_SIZE, nv2a_region, apu_region,
     ioapic_region, usb0_region, usb1_region, flash_region BIOS_BASE BIOS_SIZE]"
  by (simp add: xbox_mmio_def mmio_add_def)

lemma xbox_windows_apart: "windows_apart (map window xbox_mmio)"
  by (simp add: xbox_mmio_eq window_def region_defs)

interpretation mmio_bus: decoder m_hit xbox_mmio
  by unfold_locales (rule windows_apart_unique [OF xbox_windows_apart])

lemmas entry_defs = pic_master_entry_def pic_slave_entry_def pit_entry_def cmos_entry_def elcr_entry_def
  sysctl_entry_def post_code_entry_def debug_entry_def pci_cf8_entry_def pci_cfc_entry_def smbus_entry_def
  ide_entry_def ide_bm_entry_def acpi_pm1a_entry_def acpi_pmtmr_entry_def acpi_gpe0_entry_def

definition port_numbers :: "u16 list" where
  "port_numbers =
     [0x20, 0x21, 0xA0, 0xA1, 0x40, 0x41, 0x42, 0x43, 0x70, 0x71, 0x4D0, 0x4D1, 0x61, 0x80, 0xE9, 0xCF8, 0xCFC] @
     map (\<lambda>i. 0xC000 + of_nat i) [0..<16] @ map (\<lambda>i. 0x1F0 + of_nat i) [0..<8] @ [0x3F6] @
     map (\<lambda>i. 0x170 + of_nat i) [0..<8] @ [0x376] @ map (\<lambda>i. 0xFF60 + of_nat i) [0..<16] @
     [0x8000, 0x8001, 0x8008, 0x80C0, 0x80C1]"

lemma io_ports_eq: "map io_port port_list = port_numbers"
  by (simp add: port_list_def port_numbers_def entry_defs comp_def)

lemma distinct_port_numbers: "distinct port_numbers"
  by code_simp

interpretation io_rd_bus: decoder io_rd_hit port_list
  by unfold_locales
    (auto simp: io_rd_hit_def intro: distinct_ports_unique distinct_port_numbers [folded io_ports_eq])

interpretation io_wr_bus: decoder io_wr_hit port_list
  by unfold_locales
    (auto simp: io_wr_hit_def intro: distinct_ports_unique distinct_port_numbers [folded io_ports_eq])

lemma register_all_fits:
  "length t + length es \<le> MAX_IO_PORTS \<Longrightarrow> register_all es t = Some (t @ es)"
  by (induction es arbitrary: t) (simp_all add: register_io_def)

lemma xbox_ports_eq: "xbox_ports = Some port_list"
proof -
  have "length port_list = length port_numbers" by (metis io_ports_eq length_map)
  then show ?thesis using register_all_fits [of "[]" port_list]
    by (simp add: xbox_ports_def port_numbers_def)
qed

text \<open>C24: The device windows do not meet, so whatever order the devices are attached in, an access
  reaches the device whose window holds the address; every other address floats: reads give all
  ones and writes are lost.\<close>
theorem mmio_decode:
  assumes "set ms = set xbox_mmio"
  shows "(\<forall>r \<in> set ms. m_hit r pa \<longrightarrow>
      mmio_read ms pa n s = m_read r pa n s \<and> mmio_write ms pa v n s = m_write r pa v n s)
    \<and> ((\<forall>r \<in> set ms. \<not> m_hit r pa) \<longrightarrow>
      mmio_read ms pa n s = Some (BUS_FLOAT, s) \<and> mmio_write ms pa v n s = Some s)"
proof (intro conjI impI ballI)
  fix r assume r: "r \<in> set ms" "m_hit r pa"
  then have "find (\<lambda>r. m_hit r pa) ms = Some r"
    using mmio_bus.find_reorder [OF assms] mmio_bus.find_hit assms by simp
  then show "mmio_read ms pa n s = m_read r pa n s" and "mmio_write ms pa v n s = m_write r pa v n s"
    by (simp_all add: mmio_read_find mmio_write_find)
next
  assume "\<forall>r \<in> set ms. \<not> m_hit r pa"
  then have "find (\<lambda>r. m_hit r pa) ms = None" by (simp add: find_None_iff)
  then show "mmio_read ms pa n s = Some (BUS_FLOAT, s)" and "mmio_write ms pa v n s = Some s"
    by (simp_all add: mmio_read_find mmio_write_find)
qed

theorem mmio_decode_witness:
  "mmio_read (rev xbox_mmio) 0xFFFFFFF0 1 (xbox_setup True) =
      m_read (flash_region BIOS_BASE BIOS_SIZE) 0xFFFFFFF0 1 (xbox_setup True)
   \<and> mmio_read (rev xbox_mmio) 0x10000000 4 (xbox_setup True) = m_read ram_mirror_region 0x10000000 4 (xbox_setup True)
   \<and> mmio_read (rev xbox_mmio) 0xFED01000 4 (xbox_setup True) = Some (BUS_FLOAT, xbox_setup True)"
proof -
  have s: "set (rev xbox_mmio) = set xbox_mmio" by simp
  have m: "flash_region BIOS_BASE BIOS_SIZE \<in> set (rev xbox_mmio)" "ram_mirror_region \<in> set (rev xbox_mmio)"
    by (simp_all add: xbox_mmio_eq)
  have h: "m_hit (flash_region BIOS_BASE BIOS_SIZE) 0xFFFFFFF0" "m_hit ram_mirror_region 0x10000000"
    by (simp_all add: m_hit_def region_defs)
  have f: "\<forall>r \<in> set (rev xbox_mmio). \<not> m_hit r 0xFED01000"
    by (simp add: xbox_mmio_eq m_hit_def region_defs)
  show ?thesis using mmio_decode [OF s] m h f by blast
qed

text \<open>The ports are all registered, each once, so a port access reaches the handler registered
  for it, and every other port floats; the bytes 1 to 3 of the PCI data register, which the
  PCI device decodes, are among those that float.\<close>
theorem io_decode:
  assumes "xbox_ports = Some t"
  shows "(\<forall>e \<in> set port_list.
      io_read t (io_port e) n s =
        (case io_rd e of Some f \<Rightarrow> f (io_port e) n s | None \<Rightarrow> Some (0xFFFFFFFF, s))
      \<and> io_write t (io_port e) v n s =
        (case io_wr e of Some f \<Rightarrow> f (io_port e) v n s | None \<Rightarrow> Some s))
    \<and> (\<forall>p. p \<notin> set port_numbers \<longrightarrow> io_read t p n s = Some (0xFFFFFFFF, s) \<and> io_write t p v n s = Some s)
    \<and> {0xCFD, 0xCFE, 0xCFF} \<inter> set port_numbers = {}"
proof (intro conjI ballI allI impI)
  have t: "t = port_list" using assms unfolding xbox_ports_eq by (rule option.inject [THEN iffD1, symmetric])
  fix e assume e: "e \<in> set port_list"
  have other: "e' = e" if "e' \<in> set port_list" "io_port e' = io_port e" for e'
    using distinct_ports_unique [OF distinct_port_numbers [folded io_ports_eq] that(1) e that(2)] .
  show "io_read t (io_port e) n s =
      (case io_rd e of Some f \<Rightarrow> f (io_port e) n s | None \<Rightarrow> Some (0xFFFFFFFF, s))"
  proof (cases "io_rd e")
    case None
    then have "find (\<lambda>x. io_rd_hit x (io_port e)) port_list = None"
      using other by (auto simp: find_None_iff io_rd_hit_def)
    then show ?thesis using None by (simp add: t io_read_find)
  next
    case (Some f)
    then show ?thesis using io_rd_bus.find_hit [OF e, of "io_port e"]
      by (simp add: t io_read_find io_rd_hit_def)
  qed
  show "io_write t (io_port e) v n s =
      (case io_wr e of Some f \<Rightarrow> f (io_port e) v n s | None \<Rightarrow> Some s)"
  proof (cases "io_wr e")
    case None
    then have "find (\<lambda>x. io_wr_hit x (io_port e)) port_list = None"
      using other by (auto simp: find_None_iff io_wr_hit_def)
    then show ?thesis using None by (simp add: t io_write_find)
  next
    case (Some f)
    then show ?thesis using io_wr_bus.find_hit [OF e, of "io_port e"]
      by (simp add: t io_write_find io_wr_hit_def)
  qed
next
  have t: "t = port_list" using assms unfolding xbox_ports_eq by (rule option.inject [THEN iffD1, symmetric])
  fix p assume "p \<notin> set port_numbers"
  then have "find (\<lambda>x. io_rd_hit x p) port_list = None" "find (\<lambda>x. io_wr_hit x p) port_list = None"
    by (auto simp: find_None_iff io_rd_hit_def io_wr_hit_def simp flip: io_ports_eq)
  then show "io_read t p n s = Some (0xFFFFFFFF, s)" and "io_write t p v n s = Some s"
    by (simp_all add: t io_read_find io_write_find)
next
  show "{0xCFD, 0xCFE, 0xCFF} \<inter> set port_numbers = {}" by code_simp
qed

theorem io_decode_witness:
  "\<exists>t. xbox_ports = Some t \<and> io_read t 0xCFD 1 (xbox_setup True) = Some (0xFFFFFFFF, xbox_setup True)
    \<and> io_read t 0x80 1 (xbox_setup True) = Some (0, xbox_setup True)"
proof -
  have p: "0xCFD \<notin> set port_numbers" by code_simp
  have e: "post_code_entry 0x80 \<in> set port_list" by (simp add: port_list_def)
  have v: "post_code_read (hw_misc (xbox_setup True)) = 0"
    by (simp add: xbox_setup_def post_code_read_def misc_new_def)
  note d = io_decode [OF xbox_ports_eq, where n = 1 and s = "xbox_setup True" and v = 0]
  have "io_read port_list 0x80 1 (xbox_setup True) = Some (0, xbox_setup True)"
    using conjunct1 [OF d, THEN bspec, OF e] v by (simp add: post_code_entry_def pure_rd_def)
  moreover have "io_read port_list 0xCFD 1 (xbox_setup True) = Some (0xFFFFFFFF, xbox_setup True)"
    using conjunct1 [OF conjunct2 [OF d]] p by blast
  ultimately show ?thesis using xbox_ports_eq by blast
qed

section \<open>The periodic callbacks\<close>

definition tick_pit :: "xbox \<Rightarrow> xbox" where
  "tick_pit s = (let (p, pic) = pit_tick 1 (hw_pit s, hw_pic s) in set_pic pic (s\<lparr>hw_pit := p\<rparr>))"

definition tick_usb :: "xbox \<Rightarrow> xbox" where
  "tick_usb s = s\<lparr>hw_usb0 := tick_frame (hw_usb0 s), hw_usb1 := tick_frame (hw_usb1 s)\<rparr>"

definition tick_rtc :: "xbox \<Rightarrow> xbox" where
  "tick_rtc s =
     (let (fire, c) = cmos_tick (hw_cmos s); s = s\<lparr>hw_cmos := c\<rparr> in
      if fire then set_pic (raise_irq 8 (hw_pic s)) s else s)"

text \<open>The committed register window of the NV2A: words at an offset from its base.\<close>

definition fm :: "nat \<Rightarrow> xbox \<Rightarrow> u32" where
  "fm a s = ld 4 (hw_ram s) (unat NV2A_BASE + a)"

definition set_fm :: "nat \<Rightarrow> u32 \<Rightarrow> xbox \<Rightarrow> xbox" where
  "set_fm a v s = set_ram (st 4 (hw_ram s) (unat NV2A_BASE + a) v) s"

definition pfifo_reg :: "nat \<Rightarrow> xbox \<Rightarrow> u32" where
  "pfifo_reg r s = pfifo_regs (nv (hw_env s)) (r div 4)"

definition set_pfifo :: "nat \<Rightarrow> u32 \<Rightarrow> xbox \<Rightarrow> xbox" where
  "set_pfifo r v s = s\<lparr>hw_env := upd_pfifo r v (hw_env s)\<rparr>"

text \<open>A new PUT seen in the window, with both enable bits.\<close>

definition sync_one_put :: "u32 \<Rightarrow> xbox \<Rightarrow> xbox" where
  "sync_one_put put s =
     (let s = set_pfifo CACHE1_DMA_PUT put s;
          s = set_pfifo CACHE1_PUSH0 (pfifo_reg CACHE1_PUSH0 s OR 1) s
      in set_pfifo CACHE1_DMA_PUSH (pfifo_reg CACHE1_DMA_PUSH s OR 1) s)"

definition sync_put :: "xbox \<Rightarrow> xbox" where
  "sync_put s =
     (let user_put = fm 0x800040 s;
          cur_put = pfifo_reg CACHE1_DMA_PUT s;
          s = (if user_put \<noteq> 0 \<and> user_put \<noteq> cur_put then sync_one_put user_put s else s);
          pfifo_put = fm (0x002000 + CACHE1_DMA_PUT) s
      in if pfifo_put \<noteq> 0 \<and> pfifo_put \<noteq> cur_put \<and> pfifo_put \<noteq> user_put
         then sync_one_put pfifo_put s else s)"

definition sync_push :: "xbox \<Rightarrow> xbox option" where
  "sync_push s =
     (let push0 = fm (0x002000 + CACHE1_PUSH0) s; push1 = fm (0x002000 + CACHE1_PUSH1) s in
      do {
        s \<leftarrow> (if push1 \<noteq> last_push1 s
              then nv_lift (nv2a_write (NV2A_BASE + 0x003204) push1) (s\<lparr>last_push1 := push1\<rparr>)
              else Some s);
        if push0 AND 1 \<noteq> 0 \<and> push0 \<noteq> last_push0 s
        then nv_lift (nv2a_write (NV2A_BASE + 0x003200) push0) (s\<lparr>last_push0 := push0\<rparr>)
        else Some s
      })"

definition sync_inst :: "xbox \<Rightarrow> xbox option" where
  "sync_inst s =
     (let ramfc = fm (0x002000 + PFIFO_RAMFC) s;
          inst = fm (0x002000 + CACHE1_DMA_INSTANCE) s;
          s = set_pfifo CACHE1_DMA_INSTANCE inst (set_pfifo PFIFO_RAMFC ramfc s);
          n = nv (hw_env s); size = unat (pramin_ram_size n); base = unat (pramin_ram_base n) in
      if pramin_ram n \<and> inst \<noteq> 0 \<and> inst \<noteq> last_inst s then
        if base + size \<le> GUEST_RAM_SIZE \<and> 0x700000 + size \<le> unat NV2A_SIZE
        then Some (set_ram (copy_bytes size (hw_ram s) (unat NV2A_BASE + 0x700000) (hw_ram s) base)
               (s\<lparr>last_inst := inst\<rparr>))
        else None
      else Some s)"

text \<open>What the guest reads without a fault: GET, REF, PUT and the status words.\<close>

definition sync_back :: "xbox \<Rightarrow> xbox" where
  "sync_back s =
     (let n = nv (hw_env s);
          get0 = (if fifo_get_valid n then fifo_get n else pfifo_reg CACHE1_DMA_PUT s);
          get_val = (if gpu_shader_get n > get0 then gpu_shader_get n else get0);
          ref_val = pfifo_reg CACHE1_REF s;
          put_reg = pfifo_reg CACHE1_DMA_PUT s;
          status_val = (if get_val = put_reg then STATUS_IDLE else 0);
          s = set_fm 0x800044 get_val s;
          s = set_fm (0x002000 + CACHE1_DMA_GET) get_val s;
          s = set_fm 0x800048 ref_val s;
          s = set_fm (0x002000 + CACHE1_REF) ref_val s;
          s = set_fm 0x400B10 ref_val s;
          s = set_fm (0x002000 + CACHE1_DMA_PUT) put_reg s;
          s = set_fm (0x002000 + CACHE1_STATUS) status_val s
      in set_fm (0x400000 + 0x0700) 0 s)"

definition sync_crtc_reg :: "nat \<Rightarrow> xbox \<Rightarrow> xbox" where
  "sync_crtc_reg r s =
     (let v = fm (0x600000 + r) s; n = nv (hw_env s) in
      if v \<noteq> pcrtc_regs n (r div 4) then set_nv (n\<lparr>pcrtc_regs := (pcrtc_regs n)(r div 4 := v)\<rparr>) s else s)"

definition sync_crtc_intr :: "xbox \<Rightarrow> xbox" where
  "sync_crtc_intr s =
     (let v = fm 0x600100 s; n = nv (hw_env s); i = BLK_INTR div 4 in
      if v \<noteq> 0 then
        let s = set_nv (n\<lparr>pcrtc_regs := (pcrtc_regs n)(i := pcrtc_regs n i AND NOT v)\<rparr>) s;
            s = set_fm 0x600100 0 s
        in s\<lparr>hw_env := update_irq (hw_env s)\<rparr>
      else s)"

abbreviation PCRTC_START :: nat where "PCRTC_START \<equiv> 0x800"
abbreviation PCRTC_CONFIG :: nat where "PCRTC_CONFIG \<equiv> 0x804"

definition sync_fastmem :: "xbox \<Rightarrow> xbox option" where
  "sync_fastmem s = do {
     s \<leftarrow> sync_push (sync_put s);
     s \<leftarrow> sync_inst s;
     Some (sync_crtc_intr (sync_crtc_reg PCRTC_CONFIG (sync_crtc_reg PCRTC_START (sync_back s))))
   }"

text \<open>The kernel's millisecond counter in guest memory.\<close>

abbreviation KE_TICK_ADDR :: nat where "KE_TICK_ADDR \<equiv> 0x81000"

definition tick_count :: "xbox \<Rightarrow> xbox" where
  "tick_count s =
     (let s = s\<lparr>tick_accum := tick_accum s + 1\<rparr> in
      if tick_accum s \<ge> 716 then
        set_ram (st 4 (hw_ram s) KE_TICK_ADDR (ld 4 (hw_ram s) KE_TICK_ADDR + 1)) (s\<lparr>tick_accum := 0\<rparr>)
      else s)"

definition tick_acpi :: "xbox \<Rightarrow> xbox" where
  "tick_acpi s = s\<lparr>hw_acpi := acpi_tick 4 (hw_acpi s)\<rparr>"

definition tick_nv2a :: "xbox \<Rightarrow> xbox" where
  "tick_nv2a s = s\<lparr>hw_env := nv_tick_timer (hw_env s)\<rparr>"

definition hw_tick_callback :: "xbox \<Rightarrow> xbox option" where
  "hw_tick_callback s = do {
     let s = tick_rtc (tick_usb (tick_nv2a (tick_pit s)));
     s \<leftarrow> (if fastmem_nv2a (nv (hw_env s)) then sync_fastmem s else Some s);
     s \<leftarrow> nv_lift (tick_fifo GUEST_RAM_SIZE) s;
     Some (tick_acpi (tick_count s))
   }"

definition hw_tick_burst_callback :: "xbox \<Rightarrow> xbox" where
  "hw_tick_burst_callback s = tick_acpi (tick_rtc (tick_usb (tick_pit s)))"

section \<open>The vertical blank in the committed window\<close>

text \<open>The chip's CRTC status is what the window shows, and PMC_INTR_0 agrees with the blocks.\<close>

definition crtc_shown :: "nv_env \<Rightarrow> bool" where
  "crtc_shown e \<longleftrightarrow> fastmem_nv2a (nv e) \<and> irq_consistent (nv e)
     \<and> ld 4 (nv_ram e) (unat NV2A_BASE + 0x600100) = pcrtc_regs (nv e) (BLK_INTR div 4)"

lemma update_irq_shown:
  assumes "fastmem_nv2a (nv e)" and "pbus_regs (nv e) (BLK_INTR div 4) = 0"
  shows "crtc_shown (update_irq e)"
  using assms update_irq_consistent [of e]
  by (simp add: crtc_shown_def update_irq_def Let_def ld_st_disjoint)

lemma tick_timer_frame:
  "fastmem_nv2a (nv (nv_tick_timer e)) = fastmem_nv2a (nv e)"
  by (simp add: nv_tick_timer_def update_irq_def Let_def)

text \<open>What a step must leave alone for that to stay so.\<close>

definition crtc_kept :: "nv_env \<Rightarrow> nv_env \<Rightarrow> bool" where
  "crtc_kept e e' \<longleftrightarrow> same_irq (nv e) (nv e') \<and> fastmem_nv2a (nv e') = fastmem_nv2a (nv e)
     \<and> pcrtc_regs (nv e') (BLK_INTR div 4) = pcrtc_regs (nv e) (BLK_INTR div 4)
     \<and> ld 4 (nv_ram e') (unat NV2A_BASE + 0x600100) = ld 4 (nv_ram e) (unat NV2A_BASE + 0x600100)"

lemma crtc_kept_shown: "crtc_kept e e' \<Longrightarrow> crtc_shown e \<Longrightarrow> crtc_shown e'"
  using same_irq_consistent by (auto simp: crtc_kept_def crtc_shown_def)

lemma crtc_kept_refl [simp]: "crtc_kept e e"
  by (simp add: crtc_kept_def)

lemma crtc_kept_trans: "crtc_kept a b \<Longrightarrow> crtc_kept b c \<Longrightarrow> crtc_kept a c"
  using same_irq_trans by (auto simp: crtc_kept_def)

lemma crtc_kept_pfifo:
  "r div 4 \<noteq> 0x40 \<Longrightarrow> r div 4 \<noteq> 0x50 \<Longrightarrow> crtc_kept e (upd_pfifo r v e)"
  using same_irq_pfifo [of r e v] by (simp add: crtc_kept_def) (simp add: upd_pfifo_def)

lemma crtc_kept_enable_push: "crtc_kept e (enable_push e)"
  unfolding enable_push_def Let_def
  by (rule crtc_kept_trans; rule crtc_kept_pfifo; simp)

lemma crtc_kept_ramfc_load:
  assumes "ramfc_load e = Some e'"
  shows "crtc_kept e e'"
proof -
  have "crtc_kept e (enable_push (upd_pfifo CACHE1_DMA_GET g (upd_pfifo CACHE1_DMA_PUT p e)))" for p g
    by (rule crtc_kept_trans [OF _ crtc_kept_enable_push], rule crtc_kept_trans; rule crtc_kept_pfifo; simp)
  then show ?thesis
    using assms by (auto simp: ramfc_load_def Let_def split: bind_splits if_splits)
qed

lemma crtc_kept_push_write:
  assumes "nv2a_write (NV2A_BASE + a) v e = Some e'" and "a = 0x003204 \<or> a = 0x003200"
  shows "crtc_kept e e'"
proof -
  define r :: nat where "r = unat a - 0x002000"
  have r: "r = 0x1204 \<or> r = 0x1200" using assms(2) by (auto simp: r_def)
  have w: "nv_pfifo_write r v e = Some e'"
    using assms by (auto simp: nv2a_write_def r_def Let_def)
  define e1 where "e1 = upd_pfifo r v e"
  have e1: "e\<lparr>nv := (nv e)\<lparr>pfifo_regs := upd_block PFIFO_COUNT (pfifo_regs (nv e)) r v\<rparr>\<rparr> = e1"
    using r by (auto simp: e1_def upd_pfifo_def upd_block_def)
  have k1: "crtc_kept e e1" unfolding e1_def using r by (intro crtc_kept_pfifo) auto
  have n: "crtc_kept a (b\<lparr>notified := True\<rparr>) = crtc_kept a b" for a b
    by (simp add: crtc_kept_def)
  from w r show ?thesis
    unfolding nv_pfifo_write_def Let_def e1
    using k1 crtc_kept_trans [OF k1 crtc_kept_ramfc_load]
    by (auto simp: n split: bind_splits if_splits)
qed

text \<open>The synchronisation steps before the CRTC status is read back.\<close>

lemma kept_set_pfifo:
  "r div 4 \<noteq> 0x40 \<Longrightarrow> r div 4 \<noteq> 0x50 \<Longrightarrow> crtc_kept (hw_env s) (hw_env (set_pfifo r v s))"
  by (simp add: set_pfifo_def crtc_kept_pfifo)

lemma kept_one_put: "crtc_kept (hw_env s) (hw_env (sync_one_put p s))"
  unfolding sync_one_put_def Let_def
  by (intro crtc_kept_trans [OF _ kept_set_pfifo]) simp_all

lemma kept_put: "crtc_kept (hw_env s) (hw_env (sync_put s))"
  using kept_one_put crtc_kept_trans [OF kept_one_put kept_one_put]
  by (simp add: sync_put_def Let_def)

lemma kept_push:
  assumes "sync_push s = Some s'"
  shows "crtc_kept (hw_env s) (hw_env s')"
proof -
  have one: "crtc_kept (hw_env u) (hw_env w)"
    if "nv_lift (nv2a_write (NV2A_BASE + a) v) u = Some w" "a = 0x003204 \<or> a = 0x003200" for a v u w
    using that crtc_kept_push_write [of a v "hw_env u"] by (auto simp: nv_lift_def)
  have two: "crtc_kept (hw_env u) (hw_env w)"
    if "nv_lift (nv2a_write (NV2A_BASE + a) v) (u\<lparr>last_push0 := p\<rparr>) = Some w
      \<or> nv_lift (nv2a_write (NV2A_BASE + a) v) (u\<lparr>last_push1 := p\<rparr>) = Some w"
      "a = 0x003204 \<or> a = 0x003200" for a v u w p
    using that one [of a v "u\<lparr>last_push0 := p\<rparr>"] one [of a v "u\<lparr>last_push1 := p\<rparr>"] by auto
  obtain u where u: "crtc_kept (hw_env s) (hw_env u)"
    and s': "(if fm (0x002000 + CACHE1_PUSH0) s AND 1 \<noteq> 0 \<and> fm (0x002000 + CACHE1_PUSH0) s \<noteq> last_push0 u
      then nv_lift (nv2a_write (NV2A_BASE + 0x003200) (fm (0x002000 + CACHE1_PUSH0) s))
        (u\<lparr>last_push0 := fm (0x002000 + CACHE1_PUSH0) s\<rparr>) else Some u) = Some s'"
    using assms two [of "0x003204"] unfolding sync_push_def Let_def Option.bind_eq_Some_conv
    by (metis crtc_kept_refl option.inject)
  from s' have "crtc_kept (hw_env u) (hw_env s')"
    using two [of "0x003200" _ _ u] by (auto split: if_splits)
  with u show ?thesis by (rule crtc_kept_trans)
qed

lemma kept_set_ram:
  assumes "\<And>i. unat NV2A_BASE + 0x600100 \<le> i \<Longrightarrow> i < unat NV2A_BASE + 0x600104 \<Longrightarrow> m i = hw_ram s i"
  shows "crtc_kept (hw_env s) (hw_env (set_ram m s))"
proof -
  have "ld 4 m (unat NV2A_BASE + 0x600100) = ld 4 (hw_ram s) (unat NV2A_BASE + 0x600100)"
    by (rule ld_cong) (use assms in simp)
  then show ?thesis by (simp add: crtc_kept_def set_ram_def)
qed

lemma kept_set_fm: "a + 4 \<le> 0x600100 \<or> 0x600104 \<le> a \<Longrightarrow> crtc_kept (hw_env s) (hw_env (set_fm a v s))"
  unfolding set_fm_def by (rule kept_set_ram) auto

lemma kept_inst:
  assumes "sync_inst s = Some s'"
  shows "crtc_kept (hw_env s) (hw_env s')"
proof -
  define u where "u = set_pfifo CACHE1_DMA_INSTANCE (fm (0x002000 + CACHE1_DMA_INSTANCE) s)
    (set_pfifo PFIFO_RAMFC (fm (0x002000 + PFIFO_RAMFC) s) s)"
  have u: "crtc_kept (hw_env s) (hw_env u)"
    unfolding u_def by (rule crtc_kept_trans; rule kept_set_pfifo; simp)
  have c: "crtc_kept (hw_env u) (hw_env (set_ram (copy_bytes n src a (hw_ram u) b) u))"
    if "b + n \<le> GUEST_RAM_SIZE" for n src a b
    by (rule kept_set_ram) (use that in \<open>simp add: copy_bytes_def\<close>)
  have c': "crtc_kept (hw_env u) (hw_env (set_ram (copy_bytes n src a (hw_ram u) b) (u\<lparr>last_inst := x\<rparr>)))"
    if "b + n \<le> GUEST_RAM_SIZE" for n src a b x
    using c [OF that] by (simp add: set_ram_def)
  show ?thesis
    using assms u crtc_kept_trans [OF u c'] unfolding sync_inst_def Let_def u_def [symmetric]
    by (auto split: if_splits)
qed

lemma kept_back: "crtc_kept (hw_env s) (hw_env (sync_back s))"
  unfolding sync_back_def Let_def
  by (intro crtc_kept_trans [OF _ kept_set_fm]) auto

lemma kept_crtc_reg:
  "r div 4 \<noteq> 0x40 \<Longrightarrow> r div 4 \<noteq> 0x50 \<Longrightarrow> crtc_kept (hw_env s) (hw_env (sync_crtc_reg r s))"
  by (simp add: sync_crtc_reg_def Let_def crtc_kept_def set_nv_def same_irq_def)

text \<open>The read-back takes the status the chip itself has just shown for the guest's acknowledgement.\<close>

lemma crtc_intr_cleared:
  assumes "crtc_shown (hw_env s)"
  shows "irq_consistent (nv (hw_env (sync_crtc_intr s))) \<and> \<not> asks (pcrtc_regs (nv (hw_env (sync_crtc_intr s))))"
proof -
  define v where "v = pcrtc_regs (nv (hw_env s)) (BLK_INTR div 4)"
  have fm: "fm 0x600100 s = v" using assms by (simp add: crtc_shown_def fm_def v_def)
  have c: "irq_consistent (nv (hw_env s))" using assms by (simp add: crtc_shown_def)
  have vv: "v AND NOT v = 0" by (rule bit_word_eqI) (simp add: bit_and_iff bit_not_iff)
  show ?thesis
  proof (cases "v = 0")
    case True
    then show ?thesis using c fm asks_zero by (simp add: sync_crtc_intr_def Let_def v_def)
  next
    case False
    define s1 where "s1 = set_fm 0x600100 0 (set_nv ((nv (hw_env s))\<lparr>pcrtc_regs :=
      (pcrtc_regs (nv (hw_env s)))(BLK_INTR div 4 := v AND NOT v)\<rparr>) s)"
    have s1: "sync_crtc_intr s = s1\<lparr>hw_env := update_irq (hw_env s1)\<rparr>"
      using fm False by (simp add: sync_crtc_intr_def Let_def s1_def v_def)
    have "pbus_regs (nv (hw_env s1)) (BLK_INTR div 4) = 0"
      using irq_consistent_pbus [OF c] by (simp add: s1_def set_fm_def set_ram_def set_nv_def)
    moreover have "\<not> asks (pcrtc_regs (nv (hw_env s1)))"
      by (rule asks_zero) (simp add: s1_def set_fm_def set_ram_def set_nv_def vv)
    ultimately show ?thesis
      using update_irq_consistent [of "hw_env s1"] by (simp add: s1 update_irq_nv)
  qed
qed

lemma tick_devices_env:
  "nv (hw_env (tick_rtc (tick_usb (tick_nv2a (tick_pit s))))) = nv (nv_tick_timer (hw_env (tick_pit s)))"
  "nv_ram (hw_env (tick_rtc (tick_usb (tick_nv2a (tick_pit s))))) = nv_ram (nv_tick_timer (hw_env (tick_pit s)))"
  by (simp_all add: tick_rtc_def tick_usb_def tick_nv2a_def set_pic_def Let_def split: prod.splits)

lemma tick_pit_env: "nv (hw_env (tick_pit s)) = nv (hw_env s)" "nv_ram (hw_env (tick_pit s)) = nv_ram (hw_env s)"
  by (simp_all add: tick_pit_def set_pic_def split: prod.splits)

lemma tick_timer_shown:
  assumes "irq_consistent (nv e)" and "fastmem_nv2a (nv e)"
  shows "crtc_shown (nv_tick_timer e)"
  unfolding nv_tick_timer_def Let_def
  by (rule update_irq_shown) (use assms irq_consistent_pbus [OF assms(1)] in simp_all)

lemma tick_count_env: "nv (hw_env (tick_acpi (tick_count s))) = nv (hw_env s)"
  by (simp add: tick_acpi_def tick_count_def set_ram_def Let_def)

section \<open>The interrupt summary of the chip\<close>

text \<open>Synchronising with the window keeps the summary right.\<close>

lemma crtc_kept_consistent: "crtc_kept e e' \<Longrightarrow> irq_consistent (nv e) \<Longrightarrow> irq_consistent (nv e')"
  using same_irq_consistent by (auto simp: crtc_kept_def)

lemma sync_crtc_intr_consistent:
  assumes "irq_consistent (nv (hw_env s))"
  shows "irq_consistent (nv (hw_env (sync_crtc_intr s)))"
  using assms irq_consistent_pbus [OF assms]
  by (auto simp: sync_crtc_intr_def Let_def set_fm_def set_ram_def set_nv_def intro!: update_irq_consistent)

lemma sync_fastmem_consistent:
  assumes "irq_consistent (nv (hw_env s))" and "sync_fastmem s = Some s'"
  shows "irq_consistent (nv (hw_env s'))"
proof -
  from assms(2) obtain a b where a: "sync_push (sync_put s) = Some a" and b: "sync_inst a = Some b"
    and s': "s' = sync_crtc_intr (sync_crtc_reg PCRTC_CONFIG (sync_crtc_reg PCRTC_START (sync_back b)))"
    unfolding sync_fastmem_def by (auto simp: Option.bind_eq_Some_conv)
  have "crtc_kept (hw_env s) (hw_env b)"
    using crtc_kept_trans [OF kept_put crtc_kept_trans [OF kept_push [OF a] kept_inst [OF b]]] .
  then have "crtc_kept (hw_env s) (hw_env (sync_crtc_reg PCRTC_CONFIG (sync_crtc_reg PCRTC_START (sync_back b))))"
    by (intro crtc_kept_trans [OF _ kept_crtc_reg] crtc_kept_trans [OF _ kept_back]) auto
  then show ?thesis
    unfolding s' using crtc_kept_consistent assms(1) sync_crtc_intr_consistent by blast
qed

lemma hw_tick_consistent:
  assumes "irq_consistent (nv (hw_env s))" and "hw_tick_callback s = Some s'"
  shows "irq_consistent (nv (hw_env s'))"
proof -
  define s1 where "s1 = tick_rtc (tick_usb (tick_nv2a (tick_pit s)))"
  have 1: "irq_consistent (nv (hw_env s1))"
    unfolding s1_def tick_devices_env by (rule tick_timer_consistent) (use assms(1) in \<open>simp add: tick_pit_env\<close>)
  from assms(2) obtain s2 s3 where s2: "s2 = s1 \<or> sync_fastmem s1 = Some s2"
    and s3: "nv_lift (tick_fifo GUEST_RAM_SIZE) s2 = Some s3" and s': "s' = tick_acpi (tick_count s3)"
    unfolding hw_tick_callback_def Let_def s1_def [symmetric]
    by (auto simp: Option.bind_eq_Some_conv split: if_splits)
  have "irq_consistent (nv (hw_env s2))" using s2 1 sync_fastmem_consistent by auto
  moreover have "same_irq (nv (hw_env s2)) (nv (hw_env s3))"
    using s3 tick_fifo_same by (auto simp: nv_lift_def)
  ultimately show ?thesis using same_irq_consistent by (auto simp: s' tick_count_env)
qed

lemma hw_burst_nv: "nv (hw_env (hw_tick_burst_callback s)) = nv (hw_env s)"
  by (simp add: hw_tick_burst_callback_def tick_acpi_def tick_rtc_def tick_usb_def tick_pit_def set_pic_def
      Let_def split: prod.splits)

text \<open>A step of the machine, as far as the chip can see it: an aligned write to its registers through
  the bus, a tick of the hardware (timer, the read-back of the committed window when there is one,
  the pusher), a burst tick, the wiring of its instance memory to guest memory by the kernel's
  \<open>MmClaimGpuInstanceMemory\<close> or the scheduler, and any step that leaves the chip's registers alone:
  a guest store to memory, the committed window of the chip included, an access to another device.\<close>

inductive hw_step :: "xbox \<Rightarrow> xbox \<Rightarrow> bool" where
  reg_write: "hw_step s s'" if "4 dvd unat (pa - NV2A_BASE)" and "m_write nv2a_region pa val n s = Some s'"
| ticked: "hw_step s s'" if "hw_tick_callback s = Some s'"
| burst: "hw_step s (hw_tick_burst_callback s)"
| wired: "hw_step s (set_nv ((nv (hw_env s))\<lparr>pramin_ram := True, pramin_ram_base := base, pramin_ram_size := sz\<rparr>) s)"
| elsewhere: "hw_step s s'" if "nv (hw_env s') = nv (hw_env s)"

lemma hw_step_consistent:
  assumes "hw_step s s'" and "irq_consistent (nv (hw_env s))"
  shows "irq_consistent (nv (hw_env s'))"
  using assms
proof cases
  case (reg_write pa val n)
  then show ?thesis using nv2a_write_consistent assms(2) by (auto simp: nv2a_region_def nv_lift_def)
next
  case ticked
  then show ?thesis using hw_tick_consistent assms(2) by blast
next
  case burst
  then show ?thesis using assms(2) by (simp add: hw_burst_nv)
next
  case (wired base sz)
  then show ?thesis using assms(2) by (simp add: set_nv_def irq_consistent_def)
next
  case elsewhere
  then show ?thesis using assms(2) by simp
qed

lemma xbox_setup_consistent: "irq_consistent (nv (hw_env (xbox_setup c)))"
  by (simp add: xbox_setup_def irq_consistent_def nv2a_new_def asks_def)

text \<open>C38: From the machine's start, with or without the register window of the NV2A committed in the
  guest's address space, in every state reached by aligned writes to the chip's registers, ticks of
  the hardware, the wiring of instance memory and anything the guest does to memory and to the other
  devices, PMC_INTR_0 shows exactly the blocks (PFIFO, CRTC, timer, video, bus) that have an enabled
  interrupt pending. A write to an unaligned address is not among the steps: it can change an enable
  register without updating the summary.\<close>
theorem pmc_intr_reachable:
  assumes "hw_step\<^sup>*\<^sup>* (xbox_setup committed) s"
  shows "let n = nv (hw_env s); p = pmc_regs n (PMC_INTR_0 div 4) in
    (bit p 8 \<longleftrightarrow> asks (pfifo_regs n)) \<and> (bit p 24 \<longleftrightarrow> asks (pcrtc_regs n))
    \<and> (bit p 20 \<longleftrightarrow> asks (ptimer_regs n)) \<and> (bit p 16 \<longleftrightarrow> asks (pvideo_regs n))
    \<and> (bit p 28 \<longleftrightarrow> asks (pbus_regs n))"
proof -
  from assms have "irq_consistent (nv (hw_env s))"
    by (induction rule: rtranclp_induct) (auto intro: hw_step_consistent xbox_setup_consistent)
  then show ?thesis by (simp add: irq_consistent_def Let_def)
qed

text \<open>A run on which an interrupt shows up: the guest sets and enables the timer's alarm, and the next
  tick finds it due.\<close>

lemma alarm_rings:
  "\<exists>a b s. m_write nv2a_region (NV2A_BASE + 0x9420) 0x20 4 (xbox_setup False) = Some a
    \<and> m_write nv2a_region (NV2A_BASE + 0x9140) 1 4 a = Some b
    \<and> hw_tick_callback b = Some s \<and> asks (ptimer_regs (nv (hw_env s)))"
proof -
  obtain a where a: "m_write nv2a_region (NV2A_BASE + 0x9420) 0x20 4 (xbox_setup False) = Some a"
    and na: "nv (hw_env a) = nv2a_new\<lparr>pramin_ram := True, pramin_ram_base := 0x03FE0000,
      pramin_ram_size := 16 * 4096, ptimer_regs := (ptimer_regs nv2a_new)(0x108 := 0x20)\<rparr>"
    by (simp add: nv2a_region_def nv_lift_def nv2a_write_def nv_ptimer_write_def upd_block_def Let_def
        xbox_setup_def nv2a_new_def)
  obtain b where b: "m_write nv2a_region (NV2A_BASE + 0x9140) 1 4 a = Some b"
    and nb: "ptimer_regs (nv (hw_env b)) 0x108 = 0x20" "ptimer_regs (nv (hw_env b)) 0x50 = 1" "ptimer_ns (nv (hw_env b)) = 0"
      "\<not> fastmem_nv2a (nv (hw_env b))" "pfifo_regs (nv (hw_env b)) (CACHE1_DMA_PUSH div 4) = 0"
    using na by (simp add: nv2a_region_def nv_lift_def nv2a_write_def nv_ptimer_write_def upd_block_def Let_def
        xbox_setup_def nv2a_new_def update_irq_nv)
  define c where "c = tick_rtc (tick_usb (tick_nv2a (tick_pit b)))"
  have c: "asks (ptimer_regs (nv (hw_env c)))" "\<not> fastmem_nv2a (nv (hw_env c))" "pfifo_regs (nv (hw_env c)) (CACHE1_DMA_PUSH div 4) = 0"
    using nb by (simp_all add: c_def tick_devices_env tick_pit_env nv_tick_timer_def update_irq_nv Let_def
        asks_def)
  then have "hw_tick_callback b = Some (tick_acpi (tick_count c))"
    unfolding hw_tick_callback_def Let_def c_def [symmetric]
    by (simp add: nv_lift_def tick_fifo_def Let_def)
  with a b c(1) show ?thesis by (auto simp: tick_count_env)
qed

theorem pmc_intr_reachable_witness:
  "\<exists>s. hw_step\<^sup>*\<^sup>* (xbox_setup False) s \<and> asks (ptimer_regs (nv (hw_env s)))
    \<and> bit (pmc_regs (nv (hw_env s)) (PMC_INTR_0 div 4)) 20"
proof -
  obtain a b s where run: "m_write nv2a_region (NV2A_BASE + 0x9420) 0x20 4 (xbox_setup False) = Some a"
    "m_write nv2a_region (NV2A_BASE + 0x9140) 1 4 a = Some b" "hw_tick_callback b = Some s"
    and rings: "asks (ptimer_regs (nv (hw_env s)))"
    using alarm_rings by blast
  have "hw_step (xbox_setup False) a" using reg_write [OF _ run(1)] by simp
  moreover have "hw_step a b" using reg_write [OF _ run(2)] by simp
  ultimately have r: "hw_step\<^sup>*\<^sup>* (xbox_setup False) s"
    using ticked [OF run(3)] by (blast intro: rtranclp.intros)
  show ?thesis using r rings pmc_intr_reachable [OF r] by (auto simp: Let_def)
qed

text \<open>With the register window of the NV2A committed in the guest's address space, no tick leaves
  a CRTC interrupt pending: the vertical blank that the timer has just raised is written to the
  window, read back from it as if the guest had acknowledged it, and withdrawn.\<close>
theorem fastmem_vblank_lost:
  assumes "fastmem_nv2a (nv (hw_env s))" and "irq_consistent (nv (hw_env s))"
    and "hw_tick_callback s = Some s'"
  shows "\<not> asks (pcrtc_regs (nv (hw_env s'))) \<and> \<not> bit (pmc_regs (nv (hw_env s')) (PMC_INTR_0 div 4)) 24"
proof -
  define s1 where "s1 = tick_rtc (tick_usb (tick_nv2a (tick_pit s)))"
  have shown: "crtc_shown (hw_env s1)"
    using tick_timer_shown [of "hw_env (tick_pit s)"] assms(1,2)
    by (simp add: s1_def crtc_shown_def tick_devices_env tick_pit_env)
  then have "fastmem_nv2a (nv (hw_env s1))" by (simp add: crtc_shown_def)
  with assms(3) obtain s2 s3 where s2: "sync_fastmem s1 = Some s2"
    and s3: "nv_lift (tick_fifo GUEST_RAM_SIZE) s2 = Some s3" and s': "s' = tick_acpi (tick_count s3)"
    unfolding hw_tick_callback_def Let_def s1_def [symmetric] by (auto simp: Option.bind_eq_Some_conv)
  from s2 obtain a b where a: "sync_push (sync_put s1) = Some a" and b: "sync_inst a = Some b"
    and s2': "s2 = sync_crtc_intr (sync_crtc_reg PCRTC_CONFIG (sync_crtc_reg PCRTC_START (sync_back b)))"
    unfolding sync_fastmem_def by (auto simp: Option.bind_eq_Some_conv)
  have "crtc_kept (hw_env s1) (hw_env b)"
    using crtc_kept_trans [OF kept_put crtc_kept_trans [OF kept_push [OF a] kept_inst [OF b]]] .
  then have "crtc_kept (hw_env s1) (hw_env (sync_crtc_reg PCRTC_CONFIG (sync_crtc_reg PCRTC_START (sync_back b))))"
    by (intro crtc_kept_trans [OF _ kept_crtc_reg] crtc_kept_trans [OF _ kept_back]) auto
  then have i2: "irq_consistent (nv (hw_env s2)) \<and> \<not> asks (pcrtc_regs (nv (hw_env s2)))"
    unfolding s2' by (intro crtc_intr_cleared crtc_kept_shown [OF _ shown])
  have "same_irq (nv (hw_env s2)) (nv (hw_env s3))"
    using s3 tick_fifo_same by (auto simp: nv_lift_def)
  with i2 show ?thesis
    by (auto simp: same_irq_def irq_consistent_def Let_def s' tick_count_env)
qed

text \<open>A machine one tick before the vertical blank, with the blank's interrupt enabled.\<close>

definition vblank_demo :: xbox where
  "vblank_demo =
     (let s = xbox_setup True; n = nv (hw_env s) in
      set_nv (n\<lparr>vblank_counter := 599, pcrtc_regs := (\<lambda>_. 0)(0x50 := 1)\<rparr>) s)"

lemma vblank_demo_quiet:
  "fastmem_nv2a (nv (hw_env vblank_demo))" "irq_consistent (nv (hw_env vblank_demo))"
  by (simp_all add: vblank_demo_def xbox_setup_def set_nv_def Let_def nv2a_new_def irq_consistent_def asks_def)

lemma vblank_demo_ticks: "\<exists>s'. hw_tick_callback vblank_demo = Some s'"
proof -
  define s1 where "s1 = tick_rtc (tick_usb (tick_nv2a (tick_pit vblank_demo)))"
  have n1: "fastmem_nv2a (nv (hw_env s1))" "pfifo_regs (nv (hw_env s1)) = pfifo_regs nv2a_new"
    by (simp_all add: s1_def tick_devices_env tick_pit_env nv_tick_timer_def update_irq_nv Let_def
        vblank_demo_def xbox_setup_def set_nv_def)
  have l1: "last_push1 s1 = 0" "last_inst s1 = 0"
    by (simp_all add: s1_def tick_rtc_def tick_usb_def tick_nv2a_def tick_pit_def set_pic_def Let_def
        vblank_demo_def xbox_setup_def set_nv_def split: prod.splits)
  have fm: "fm a s1 = 0" if "0x000104 \<le> a" "a + 4 \<le> 0x600100 \<or> 0x600144 \<le> a" for a
    using that
    by (auto simp: fm_def s1_def tick_devices_env tick_pit_env nv_tick_timer_def update_irq_def Let_def
        ld_st_disjoint vblank_demo_def xbox_setup_def set_nv_def)
  have put: "sync_put s1 = s1"
    by (simp add: sync_put_def fm Let_def)
  have push: "sync_push s1 = Some s1"
    by (simp add: sync_push_def fm Let_def l1)
  obtain b where b: "sync_inst s1 = Some b" "pfifo_regs (nv (hw_env b)) (CACHE1_DMA_PUSH div 4) = 0"
    by (auto simp: sync_inst_def fm Let_def n1 nv2a_new_def set_pfifo_def upd_pfifo_def)
  define s2 where "s2 = sync_crtc_intr (sync_crtc_reg PCRTC_CONFIG (sync_crtc_reg PCRTC_START (sync_back b)))"
  have "pfifo_regs (nv (hw_env s2)) = pfifo_regs (nv (hw_env b))"
    by (simp add: s2_def sync_crtc_intr_def sync_crtc_reg_def sync_back_def set_fm_def set_ram_def
        set_nv_def update_irq_nv Let_def)
  then have "tick_fifo GUEST_RAM_SIZE (hw_env s2) = Some (hw_env s2)"
    using b(2) by (simp add: tick_fifo_def Let_def)
  then show ?thesis
    using n1(1) put push b(1) unfolding hw_tick_callback_def Let_def s1_def [symmetric]
    by (simp add: sync_fastmem_def s2_def [symmetric] nv_lift_def)
qed

theorem fastmem_vblank_lost_witness:
  "\<exists>s'. hw_tick_callback vblank_demo = Some s' \<and> \<not> asks (pcrtc_regs (nv (hw_env s')))
    \<and> \<not> bit (pmc_regs (nv (hw_env s')) (PMC_INTR_0 div 4)) 24"
  using vblank_demo_ticks fastmem_vblank_lost [OF vblank_demo_quiet] by blast

section \<open>The millisecond counter\<close>

text \<open>A pusher with nothing to do.\<close>

definition fifo_quiet :: "nv2a_state \<Rightarrow> bool" where
  "fifo_quiet n \<longleftrightarrow> pfifo_regs n (CACHE1_DMA_PUSH div 4) AND 1 = 0
     \<or> pfifo_regs n (CACHE1_PUSH0 div 4) AND 1 = 0
     \<or> push_enabled n \<and> fifo_get n = pfifo_regs n (CACHE1_DMA_PUT div 4)"

lemma tick_fifo_quiet:
  assumes "fifo_quiet (nv e)"
  shows "\<exists>e'. tick_fifo N e = Some e' \<and> fifo_quiet (nv e') \<and> nv_ram e' = nv_ram e
    \<and> fastmem_nv2a (nv e') = fastmem_nv2a (nv e)"
proof (cases "push_enabled (nv e) \<and> fifo_get (nv e) = pfifo_regs (nv e) (CACHE1_DMA_PUT div 4)")
  case True
  then show ?thesis using tick_fifo_idle [of e N]
    by (simp add: set_status_def upd_pfifo_def fifo_quiet_def push_enabled_def)
next
  case False
  then have "tick_fifo N e = Some e" using assms by (auto simp: fifo_quiet_def tick_fifo_def Let_def)
  then show ?thesis using assms by simp
qed

text \<open>Machines whose register window of the NV2A is not committed, with a quiet pusher.\<close>

definition quiet_unmapped :: "xbox \<Rightarrow> bool" where
  "quiet_unmapped s \<longleftrightarrow> fifo_quiet (nv (hw_env s)) \<and> \<not> fastmem_nv2a (nv (hw_env s)) \<and> unat (tick_accum s) < 716"

lemma tick_devices_rest:
  "tick_accum (tick_rtc (tick_usb (tick_nv2a (tick_pit s)))) = tick_accum s"
  "hw_acpi (tick_rtc (tick_usb (tick_nv2a (tick_pit s)))) = hw_acpi s"
  by (simp_all add: tick_rtc_def tick_usb_def tick_nv2a_def tick_pit_def set_pic_def Let_def split: prod.splits)

lemma quiet_tick:
  assumes "quiet_unmapped s"
  shows "\<exists>s'. hw_tick_callback s = Some s' \<and> quiet_unmapped s'
    \<and> unat (tick_accum s') = (unat (tick_accum s) + 1) mod 716
    \<and> ld 4 (hw_ram s') KE_TICK_ADDR =
        ld 4 (hw_ram s) KE_TICK_ADDR + of_nat ((unat (tick_accum s) + 1) div 716)
    \<and> acpi_pmtmr (hw_acpi s') = acpi_pmtmr (hw_acpi s) + 4"
proof -
  define s1 where "s1 = tick_rtc (tick_usb (tick_nv2a (tick_pit s)))"
  have q: "fifo_quiet (nv (hw_env s1))" "\<not> fastmem_nv2a (nv (hw_env s1))"
    "hw_ram s1 = hw_ram s" "tick_accum s1 = tick_accum s" "hw_acpi s1 = hw_acpi s"
    using assms
    by (simp_all add: s1_def quiet_unmapped_def tick_devices_env tick_devices_rest tick_pit_env nv_tick_timer_def
        update_irq_def Let_def fifo_quiet_def push_enabled_def)
  obtain e where e: "tick_fifo GUEST_RAM_SIZE (hw_env s1) = Some e" "fifo_quiet (nv e)"
    "nv_ram e = hw_ram s" "\<not> fastmem_nv2a (nv e)"
    using tick_fifo_quiet [OF q(1)] q(2,3) by metis
  have t: "hw_tick_callback s = Some (tick_acpi (tick_count (s1\<lparr>hw_env := e\<rparr>)))"
    using q(2) e(1) unfolding hw_tick_callback_def Let_def s1_def [symmetric] by (simp add: nv_lift_def)
  have u: "unat (tick_accum s + 1) = unat (tick_accum s) + 1"
    using assms by (simp add: quiet_unmapped_def unat_word_ariths(1))
  have c: "tick_accum s + 1 \<ge> 716 \<longleftrightarrow> unat (tick_accum s) + 1 \<ge> 716"
    by (simp add: word_le_nat_alt u)
  have lt: "unat (tick_accum s) < 716" using assms by (simp add: quiet_unmapped_def)
  show ?thesis
  proof (cases "unat (tick_accum s) + 1 \<ge> 716")
    case True
    with lt have "unat (tick_accum s) + 1 = 716" by simp
    then show ?thesis using t e q(4,5) c True
      by (simp add: tick_acpi_def tick_count_def set_ram_def quiet_unmapped_def acpi_tick_def Let_def)
  next
    case False
    then show ?thesis using t e q(4,5) c u
      by (simp add: tick_acpi_def tick_count_def set_ram_def quiet_unmapped_def acpi_tick_def Let_def)
  qed
qed

primrec hw_ticks :: "nat \<Rightarrow> xbox \<Rightarrow> xbox option" where
  "hw_ticks 0 s = Some s"
| "hw_ticks (Suc n) s = Option.bind (hw_ticks n s) hw_tick_callback"

text \<open>C25: In a machine whose NV2A register window is not committed to memory, while the pusher has no work
  every tick succeeds, and after \<open>n\<close> of them the kernel's tick count in guest memory has advanced once per
  716 ticks and the ACPI timer by four per tick.\<close>
theorem ke_tick_count_rate:
  assumes "fifo_quiet (nv (hw_env s))" and "\<not> fastmem_nv2a (nv (hw_env s))" and "unat (tick_accum s) < 716"
  shows "\<exists>s'. hw_ticks n s = Some s'
    \<and> ld 4 (hw_ram s') KE_TICK_ADDR = ld 4 (hw_ram s) KE_TICK_ADDR + of_nat ((unat (tick_accum s) + n) div 716)
    \<and> unat (tick_accum s') = (unat (tick_accum s) + n) mod 716
    \<and> acpi_pmtmr (hw_acpi s') = acpi_pmtmr (hw_acpi s) + of_nat (4 * n)"
proof -
  have "\<exists>s'. hw_ticks n s = Some s' \<and> quiet_unmapped s'
    \<and> ld 4 (hw_ram s') KE_TICK_ADDR = ld 4 (hw_ram s) KE_TICK_ADDR + of_nat ((unat (tick_accum s) + n) div 716)
    \<and> unat (tick_accum s') = (unat (tick_accum s) + n) mod 716
    \<and> acpi_pmtmr (hw_acpi s') = acpi_pmtmr (hw_acpi s) + of_nat (4 * n)"
  proof (induction n)
    case 0
    then show ?case using assms by (simp add: quiet_unmapped_def)
  next
    case (Suc n)
    let ?m = "unat (tick_accum s) + n"
    have d: "(?m + 1) div 716 = ?m div 716 + (?m mod 716 + 1) div 716"
    proof -
      have "?m + 1 = (?m mod 716 + 1) + (?m div 716) * 716" by (simp add: mod_div_decomp)
      then show ?thesis
        by (metis div_mult_self1 add.commute zero_neq_numeral)
    qed
    from Suc obtain s1 where s1: "hw_ticks n s = Some s1" "quiet_unmapped s1"
      "ld 4 (hw_ram s1) KE_TICK_ADDR = ld 4 (hw_ram s) KE_TICK_ADDR + of_nat (?m div 716)"
      "unat (tick_accum s1) = ?m mod 716" "acpi_pmtmr (hw_acpi s1) = acpi_pmtmr (hw_acpi s) + of_nat (4 * n)"
      by blast
    show ?case
      using quiet_tick [OF s1(2)] s1 d by (auto simp: mod_Suc_eq)
  qed
  then show ?thesis by blast
qed

theorem ke_tick_count_rate_witness:
  "\<exists>s'. hw_ticks 1432 (xbox_setup False) = Some s' \<and> ld 4 (hw_ram s') KE_TICK_ADDR = 2"
proof -
  have q: "fifo_quiet (nv (hw_env (xbox_setup False)))" "\<not> fastmem_nv2a (nv (hw_env (xbox_setup False)))"
    and z: "ld 4 (hw_ram (xbox_setup False)) KE_TICK_ADDR = 0" and a: "tick_accum (xbox_setup False) = 0"
    by (simp_all add: xbox_setup_def nv2a_new_def fifo_quiet_def)
  show ?thesis using ke_tick_count_rate [OF q, of 1432] by (auto simp: z a)
qed

end
