(* ===== verification/Guest.thy ===== *)
theory Guest
  imports Setup
begin

text \<open>
  The processor's state (\<open>GuestContext\<close> of \<open>src/src/cpu/context.hpp\<close>), the software TLB
  (\<open>SoftTlb\<close> of \<open>src/src/cpu/trace_builder.hpp\<close>) and the machine the executor drives.  The host pointer
  \<open>fastmem_base\<close> is the guest memory of the machine; \<open>host_fpu\<close> is host state and left out.
\<close>

section \<open>The guest context\<close>

abbreviation STOP_NONE :: u32 where "STOP_NONE \<equiv> 0"
abbreviation STOP_PRIVILEGED :: u32 where "STOP_PRIVILEGED \<equiv> 1"
abbreviation STOP_PAGE_FAULT :: u32 where "STOP_PAGE_FAULT \<equiv> 2"
abbreviation STOP_DIVIDE_ERROR :: u32 where "STOP_DIVIDE_ERROR \<equiv> 3"
abbreviation STOP_INVALID_OPCODE :: u32 where "STOP_INVALID_OPCODE \<equiv> 4"

abbreviation (input) GP_EAX :: nat where "GP_EAX \<equiv> 0"
abbreviation (input) GP_ECX :: nat where "GP_ECX \<equiv> 1"
abbreviation (input) GP_EDX :: nat where "GP_EDX \<equiv> 2"
abbreviation (input) GP_EBX :: nat where "GP_EBX \<equiv> 3"
abbreviation (input) GP_ESP :: nat where "GP_ESP \<equiv> 4"
abbreviation (input) GP_EBP :: nat where "GP_EBP \<equiv> 5"
abbreviation (input) GP_ESI :: nat where "GP_ESI \<equiv> 6"
abbreviation (input) GP_EDI :: nat where "GP_EDI \<equiv> 7"

record guest_context =
  gp :: "u32 arr"
  eip :: u32
  eflags :: u32
  next_eip :: u32
  stop_reason :: u32
  cr0 :: u32
  cr2 :: u32
  cr3 :: u32
  cr4 :: u32
  gdtr_base :: u32
  gdtr_limit :: u16
  idtr_base :: u32
  idtr_limit :: u16
  virtual_if :: bool
  halted :: bool
  fs_base :: u32
  gs_base :: u32
  pf_error_code :: u32
  guest_fpu :: bytes
  sysenter_cs :: u32
  sysenter_esp :: u32
  sysenter_eip :: u32
  mtrr_physbase :: "u64 arr"
  mtrr_physmask :: "u64 arr"
  mtrr_fix64k :: u64
  mtrr_fix16k :: "u64 arr"
  mtrr_fix4k :: "u64 arr"
  mtrr_def_type :: u64
  dr :: "u32 arr"
  tr_sel :: u16
  ldtr_sel :: u16
  es_sel :: u16
  cs_sel :: u16
  ss_sel :: u16
  ds_sel :: u16
  fs_sel :: u16
  gs_sel :: u16

section \<open>The software TLB\<close>

abbreviation TLB_SIZE :: nat where "TLB_SIZE \<equiv> 256"
abbreviation TLB_MASK :: u32 where "TLB_MASK \<equiv> 0xFF"
abbreviation INVALID_TAG :: u32 where "INVALID_TAG \<equiv> 0xFFFFFFFF"

record tlb_entry =
  tag :: u32
  pa_page :: u32

record soft_tlb =
  read_tlb :: "tlb_entry arr"
  write_tlb :: "tlb_entry arr"

definition tlb_flush :: "soft_tlb \<Rightarrow> soft_tlb" where
  "tlb_flush t =
     \<lparr>read_tlb = (\<lambda>i. if i < TLB_SIZE then (read_tlb t i)\<lparr>tag := INVALID_TAG\<rparr> else read_tlb t i),
      write_tlb = (\<lambda>i. if i < TLB_SIZE then (write_tlb t i)\<lparr>tag := INVALID_TAG\<rparr> else write_tlb t i)\<rparr>"

definition tlb_index :: "u32 \<Rightarrow> nat" where
  "tlb_index vpn = unat (vpn AND TLB_MASK)"

definition drop_tag :: "nat \<Rightarrow> u32 \<Rightarrow> tlb_entry arr \<Rightarrow> tlb_entry arr" where
  "drop_tag i vpn a = (if tag (a i) = vpn then a(i := (a i)\<lparr>tag := INVALID_TAG\<rparr>) else a)"

definition tlb_flush_va :: "u32 \<Rightarrow> soft_tlb \<Rightarrow> soft_tlb" where
  "tlb_flush_va va t =
     (let vpn = drop_bit 12 va; idx = tlb_index vpn in
      t\<lparr>read_tlb := drop_tag idx vpn (read_tlb t), write_tlb := drop_tag idx vpn (write_tlb t)\<rparr>)"

section \<open>The machine\<close>

text \<open>The executor's context, TLB and devices; \<open>mmio\<close> is the null or valid pointer of the context.\<close>

record machine =
  ctx :: guest_context
  tlb :: soft_tlb
  hw :: xbox
  mmio :: "xbox mmio_region list option"

abbreviation ram :: "machine \<Rightarrow> bytes" where "ram m \<equiv> hw_ram (hw m)"
abbreviation reg :: "nat \<Rightarrow> machine \<Rightarrow> u32" where "reg r m \<equiv> gp (ctx m) r"

definition upd_ctx :: "(guest_context \<Rightarrow> guest_context) \<Rightarrow> machine \<Rightarrow> machine" where
  "upd_ctx f m = m\<lparr>ctx := f (ctx m)\<rparr>"

definition set_reg :: "nat \<Rightarrow> u32 \<Rightarrow> machine \<Rightarrow> machine" where
  "set_reg r v = upd_ctx (\<lambda>c. c\<lparr>gp := (gp c)(r := v)\<rparr>)"

definition set_mem :: "bytes \<Rightarrow> machine \<Rightarrow> machine" where
  "set_mem b m = m\<lparr>hw := set_ram b (hw m)\<rparr>"

text \<open>Memory as the code accesses it once an address is physical: \<open>None\<close> past its end.\<close>

definition ram_rd :: "nat \<Rightarrow> u32 \<Rightarrow> machine \<Rightarrow> u32 option" where
  "ram_rd n pa m = rd GUEST_RAM_SIZE n (ram m) (unat pa)"

definition ram_wr :: "nat \<Rightarrow> u32 \<Rightarrow> u32 \<Rightarrow> machine \<Rightarrow> machine option" where
  "ram_wr n pa v m = map_option (\<lambda>b. set_mem b m) (wr GUEST_RAM_SIZE n (ram m) (unat pa) v)"

text \<open>A device access on the bus; without a bus reads float.\<close>

definition bus_read :: "u32 \<Rightarrow> nat \<Rightarrow> machine \<Rightarrow> (u32 \<times> machine) option" where
  "bus_read pa n m =
     (case mmio m of
        None \<Rightarrow> Some (BUS_FLOAT, m)
      | Some rs \<Rightarrow> map_option (\<lambda>(v, h). (v, m\<lparr>hw := h\<rparr>)) (mmio_read rs pa n (hw m)))"

definition bus_write :: "u32 \<Rightarrow> u32 \<Rightarrow> nat \<Rightarrow> machine \<Rightarrow> machine option" where
  "bus_write pa v n m =
     (case mmio m of
        None \<Rightarrow> Some m
      | Some rs \<Rightarrow> map_option (\<lambda>h. m\<lparr>hw := h\<rparr>) (mmio_write rs pa v n (hw m)))"

text \<open>\<open>ctx.cr0 & 0x80000000\<close>\<close>

definition paging_enabled :: "machine \<Rightarrow> bool" where
  "paging_enabled m \<longleftrightarrow> cr0 (ctx m) AND 0x80000000 \<noteq> 0"

section \<open>Initialisation\<close>

text \<open>\<open>Executor::init\<close>: the context is cleared, its member initialisers included, and set up for
  protected mode without paging; the FPU has its default control words.\<close>

definition guest_context_init :: guest_context where
  "guest_context_init =
     \<lparr>gp = (\<lambda>_. 0), eip = 0, eflags = 0x00000002, next_eip = 0, stop_reason = 0, cr0 = 0x00000011, cr2 = 0,
      cr3 = 0, cr4 = 0, gdtr_base = 0, gdtr_limit = 0, idtr_base = 0, idtr_limit = 0, virtual_if = True,
      halted = False, fs_base = 0, gs_base = 0, pf_error_code = 0,
      guest_fpu = st 4 (st 2 (\<lambda>_. 0) 0 0x037F) 24 0x1F80, sysenter_cs = 0, sysenter_esp = 0,
      sysenter_eip = 0, mtrr_physbase = (\<lambda>_. 0), mtrr_physmask = (\<lambda>_. 0), mtrr_fix64k = 0,
      mtrr_fix16k = (\<lambda>_. 0), mtrr_fix4k = (\<lambda>_. 0), mtrr_def_type = 0, dr = (\<lambda>_. 0), tr_sel = 0,
      ldtr_sel = 0, es_sel = 0, cs_sel = 0, ss_sel = 0, ds_sel = 0, fs_sel = 0, gs_sel = 0\<rparr>"

definition executor_init :: "bool \<Rightarrow> machine" where
  "executor_init committed =
     \<lparr>ctx = guest_context_init,
      tlb = tlb_flush \<lparr>read_tlb = (\<lambda>_. \<lparr>tag = 0, pa_page = 0\<rparr>), write_tlb = (\<lambda>_. \<lparr>tag = 0, pa_page = 0\<rparr>)\<rparr>,
      hw = xbox_setup committed, mmio = Some xbox_mmio\<rparr>"

section \<open>Physical address aliases\<close>

abbreviation CONTIGUOUS_MEMORY_BASE :: u32 where "CONTIGUOUS_MEMORY_BASE \<equiv> 0x80000000"
abbreviation WRITE_COMBINED_BASE :: u32 where "WRITE_COMBINED_BASE \<equiv> 0xF0000000"

definition alias_pa :: "u32 \<Rightarrow> u32" where
  "alias_pa pa =
     (if pa \<ge> CONTIGUOUS_MEMORY_BASE \<and> pa < CONTIGUOUS_MEMORY_BASE + of_nat GUEST_RAM_SIZE
      then pa - CONTIGUOUS_MEMORY_BASE
      else if pa \<ge> WRITE_COMBINED_BASE \<and> pa < WRITE_COMBINED_BASE + of_nat GUEST_RAM_SIZE
      then pa - WRITE_COMBINED_BASE
      else pa)"

text \<open>An alias is chosen by the top five bits and keeps the others.\<close>

lemma window_top_bits:
  "pa \<ge> 0x80000000 \<and> pa < 0x88000000 \<longleftrightarrow> drop_bit 27 pa = 16"
  "pa \<ge> 0xF0000000 \<and> pa < 0xF8000000 \<longleftrightarrow> drop_bit 27 pa = 30" for pa :: u32
proof -
  have d: "drop_bit 27 pa = of_nat k \<longleftrightarrow> unat pa div 134217728 = k" if "k < 32" for k
  proof -
    have "unat (drop_bit 27 pa) = unat pa div 134217728" by (simp only: unat_drop_bit_eq) (simp add: drop_bit_eq_div)
    moreover have "unat (of_nat k :: u32) = k" using that by (simp add: unsigned_of_nat take_bit_nat_eq_self)
    ultimately show ?thesis by (metis word_unat_eq_iff)
  qed
  show "pa \<ge> 0x80000000 \<and> pa < 0x88000000 \<longleftrightarrow> drop_bit 27 pa = 16"
    using d [of 16] by (simp add: word_le_nat_alt word_less_nat_alt) linarith
  show "pa \<ge> 0xF0000000 \<and> pa < 0xF8000000 \<longleftrightarrow> drop_bit 27 pa = 30"
    using d [of 30] by (simp add: word_le_nat_alt word_less_nat_alt) linarith
qed

lemma minus_base:
  "drop_bit 27 pa = k \<Longrightarrow> pa - push_bit 27 k = take_bit 27 pa" for pa :: u32
  using bits_ident [of 27 pa] by (metis add_diff_cancel_left')

lemma alias_pa_eq:
  "alias_pa pa = (if drop_bit 27 pa = 16 \<or> drop_bit 27 pa = 30 then take_bit 27 pa else pa)"
  using window_top_bits [of pa] minus_base [of pa 16] minus_base [of pa 30]
  by (simp add: alias_pa_def push_bit_eq_mult)

end
