(* ===== verification/Lookup_Cache.thy ===== *)
theory Lookup_Cache
  imports Main
begin

text \<open>
  The contract of a direct-mapped cache in front of a slow lookup \<open>f\<close>: whatever the cache answers was put
  there, and a put makes its own key present.  The software TLB and the trace cache provide it; their
  clients need only that a sound cache (one that answers as \<open>f\<close> does) stays sound.
\<close>

definition cache_sound :: "('c \<Rightarrow> 'k \<Rightarrow> 'v option) \<Rightarrow> ('k \<Rightarrow> 'v option) \<Rightarrow> 'c \<Rightarrow> bool" where
  "cache_sound get f c \<longleftrightarrow> (\<forall>k v. get c k = Some v \<longrightarrow> f k = Some v)"

lemma cache_soundD: "cache_sound get f c \<Longrightarrow> get c k = Some v \<Longrightarrow> f k = Some v"
  by (simp add: cache_sound_def)

lemma cache_sound_mono:
  "cache_sound get f c \<Longrightarrow> (\<And>k v. f k = Some v \<Longrightarrow> g k = Some v) \<Longrightarrow> cache_sound get g c"
  by (auto simp: cache_sound_def)

locale lookup_cache =
  fixes get :: "'c \<Rightarrow> 'k \<Rightarrow> 'v option"
    and put :: "'k \<Rightarrow> 'v \<Rightarrow> 'c \<Rightarrow> 'c"
  assumes get_put_same: "get (put k v c) k = Some v"
    and get_put_other: "get (put k v c) k' = Some w \<Longrightarrow> k' \<noteq> k \<Longrightarrow> get c k' = Some w"
begin

lemma sound_put:
  assumes "cache_sound get f c" and "f k = Some v"
  shows "cache_sound get f (put k v c)"
  unfolding cache_sound_def
proof (intro allI impI)
  fix k' w
  assume w: "get (put k v c) k' = Some w"
  show "f k' = Some w"
  proof (cases "k' = k")
    case True
    then show ?thesis using w get_put_same assms(2) by simp
  next
    case False
    then show ?thesis using get_put_other [OF w] cache_soundD [OF assms(1)] by blast
  qed
qed

end

text \<open>A cache whose entries can be dropped one key at a time or all at once.\<close>

locale flushable_cache = lookup_cache +
  fixes drop_key :: "'b \<Rightarrow> 'a \<Rightarrow> 'a"
    and drop_all :: "'a \<Rightarrow> 'a"
  assumes get_drop: "get (drop_key k c) k' = Some w \<Longrightarrow> k' \<noteq> k \<and> get c k' = Some w"
    and get_drop_all: "get (drop_all c) k = None"
begin

text \<open>After a change of the slow lookup at one key, dropping that key restores soundness.\<close>

lemma sound_drop:
  assumes "cache_sound get f c" and "\<And>k'. k' \<noteq> k \<Longrightarrow> g k' = f k'"
  shows "cache_sound get g (drop_key k c)"
  using assms get_drop unfolding cache_sound_def by metis

lemma sound_drop_all: "cache_sound get g (drop_all c)"
  by (simp add: cache_sound_def get_drop_all)

end

end
