(* ===== verification/Paging.thy ===== *)
theory Paging
  imports Guest Lookup_Cache
begin

text \<open>
  Address translation: \<open>translate_va\<close> of \<open>src/src/cpu/executor.cpp\<close> and its copy \<open>translate_va_jit\<close> of
  \<open>src/src/cpu/jit_helpers.cpp\<close>.  The page-table walk with its accessed and dirty bits is one
  definition; \<open>None\<close> stands for a table entry read outside guest memory.
\<close>

section \<open>The walk\<close>

abbreviation GUEST_PAGE_SIZE :: u32 where "GUEST_PAGE_SIZE \<equiv> 0x1000"
abbreviation GUEST_PAGE_MASK :: u32 where "GUEST_PAGE_MASK \<equiv> 0xFFFFF000"
abbreviation PTE_PRESENT :: u32 where "PTE_PRESENT \<equiv> 0x01"
abbreviation PTE_RW :: u32 where "PTE_RW \<equiv> 0x02"
abbreviation PTE_ACCESSED :: u32 where "PTE_ACCESSED \<equiv> 0x20"
abbreviation PTE_DIRTY :: u32 where "PTE_DIRTY \<equiv> 0x40"
abbreviation PDE_PS :: u32 where "PDE_PS \<equiv> 0x80"
abbreviation PDE_4MB_BASE :: u32 where "PDE_4MB_BASE \<equiv> 0xFFC00000"
abbreviation PDE_4MB_OFF :: u32 where "PDE_4MB_OFF \<equiv> 0x003FFFFF"

text \<open>A fault with its P bit, or the physical address and the memory with the entries marked.\<close>

datatype walk = Fault bool | Page u32 bytes

definition mark_entry :: "bool \<Rightarrow> u32 \<Rightarrow> u32" where
  "mark_entry w e = (if w then e OR PTE_ACCESSED OR PTE_DIRTY else e OR PTE_ACCESSED)"

definition needs_mark :: "bool \<Rightarrow> u32 \<Rightarrow> bool" where
  "needs_mark w e \<longleftrightarrow> e AND PTE_ACCESSED = 0 \<or> (w \<and> e AND PTE_DIRTY = 0)"

definition page_walk :: "u32 \<Rightarrow> bytes \<Rightarrow> u32 \<Rightarrow> bool \<Rightarrow> walk option" where
  "page_walk c m va w =
     (let pdir_pa = alias_pa (c AND GUEST_PAGE_MASK);
          pdi = drop_bit 22 va AND 0x3FF;
          pti = drop_bit 12 va AND 0x3FF;
          pde_pa = pdir_pa + pdi * 4 in
      if pde_pa + 4 > of_nat GUEST_RAM_SIZE then Some (Fault False)
      else do {
        pde \<leftarrow> rd GUEST_RAM_SIZE 4 m (unat pde_pa);
        if pde AND PTE_PRESENT = 0 then Some (Fault False)
        else if pde AND PDE_PS \<noteq> 0 then
          let pa = alias_pa ((pde AND PDE_4MB_BASE) OR (va AND PDE_4MB_OFF)) in
          if w \<and> pde AND PTE_RW = 0 then Some (Fault True)
          else Some (Page pa (if needs_mark w pde then st 4 m (unat pde_pa) (mark_entry w pde) else m))
        else
          let pt_pa = alias_pa (pde AND GUEST_PAGE_MASK) + pti * 4 in
          if pt_pa + 4 > of_nat GUEST_RAM_SIZE then Some (Fault False)
          else do {
            pte \<leftarrow> rd GUEST_RAM_SIZE 4 m (unat pt_pa);
            if pte AND PTE_PRESENT = 0 then Some (Fault False)
            else if w \<and> pte AND PTE_RW = 0 then Some (Fault True)
            else
              let pa = alias_pa ((pte AND GUEST_PAGE_MASK) OR (va AND 0xFFF));
                  m = (if pde AND PTE_ACCESSED = 0 then st 4 m (unat pde_pa) (pde OR PTE_ACCESSED) else m);
                  m = (if needs_mark w pte then st 4 m (unat pt_pa) (mark_entry w pte) else m)
              in Some (Page pa m)
          }
      })"

section \<open>The software TLB in front of it\<close>

definition tlb_get :: "tlb_entry arr \<Rightarrow> u32 \<Rightarrow> u32 option" where
  "tlb_get a vpn = (let te = a (tlb_index vpn) in if tag te = vpn then Some (pa_page te) else None)"

definition tlb_put :: "u32 \<Rightarrow> u32 \<Rightarrow> tlb_entry arr \<Rightarrow> tlb_entry arr" where
  "tlb_put vpn p a = a(tlb_index vpn := \<lparr>tag = vpn, pa_page = p\<rparr>)"

definition tlb_side :: "bool \<Rightarrow> soft_tlb \<Rightarrow> tlb_entry arr" where
  "tlb_side w t = (if w then write_tlb t else read_tlb t)"

text \<open>A write hit fills both sides.\<close>

definition tlb_fill :: "u32 \<Rightarrow> u32 \<Rightarrow> bool \<Rightarrow> soft_tlb \<Rightarrow> soft_tlb" where
  "tlb_fill va pa w t =
     (let vpn = drop_bit 12 va; p = pa AND GUEST_PAGE_MASK in
      if w then t\<lparr>write_tlb := tlb_put vpn p (write_tlb t), read_tlb := tlb_put vpn p (read_tlb t)\<rparr>
      else t\<lparr>read_tlb := tlb_put vpn p (read_tlb t)\<rparr>)"

definition set_fault :: "u32 \<Rightarrow> bool \<Rightarrow> bool \<Rightarrow> guest_context \<Rightarrow> guest_context" where
  "set_fault va p_bit w c =
     c\<lparr>cr2 := va, pf_error_code := (if p_bit then 1 else 0) OR (if w then 2 else 0)\<rparr>"

text \<open>The value on a fault, \<open>~0u\<close>.\<close>

abbreviation PA_FAULT :: u32 where "PA_FAULT \<equiv> 0xFFFFFFFF"

definition translate_va :: "u32 \<Rightarrow> bool \<Rightarrow> machine \<Rightarrow> (u32 \<times> machine) option" where
  "translate_va va w m =
     (case tlb_get (tlb_side w (tlb m)) (drop_bit 12 va) of
        Some p \<Rightarrow> Some (p OR (va AND 0xFFF), m)
      | None \<Rightarrow>
          (case page_walk (cr3 (ctx m)) (ram m) va w of
             None \<Rightarrow> None
           | Some (Fault p) \<Rightarrow> Some (PA_FAULT, upd_ctx (set_fault va p w) m)
           | Some (Page pa b) \<Rightarrow> Some (pa, set_mem b (m\<lparr>tlb := tlb_fill va pa w (tlb m)\<rparr>))))"

text \<open>The copy for translated code also sets the stop reason on a fault.\<close>

definition translate_va_jit :: "u32 \<Rightarrow> bool \<Rightarrow> machine \<Rightarrow> (u32 \<times> machine) option" where
  "translate_va_jit va w m =
     (case tlb_get (tlb_side w (tlb m)) (drop_bit 12 va) of
        Some p \<Rightarrow> Some (p OR (va AND 0xFFF), m)
      | None \<Rightarrow>
          (case page_walk (cr3 (ctx m)) (ram m) va w of
             None \<Rightarrow> None
           | Some (Fault p) \<Rightarrow>
               Some (PA_FAULT, upd_ctx (\<lambda>c. (set_fault va p w c)\<lparr>stop_reason := STOP_PAGE_FAULT\<rparr>) m)
           | Some (Page pa b) \<Rightarrow> Some (pa, set_mem b (m\<lparr>tlb := tlb_fill va pa w (tlb m)\<rparr>))))"

section \<open>What the page tables say\<close>

text \<open>The reference: the translation the tables in memory give, in unbounded arithmetic and without
  the accessed and dirty bits.\<close>

definition pt_lookup :: "u32 \<Rightarrow> bytes \<Rightarrow> u32 \<Rightarrow> bool \<Rightarrow> u32 option" where
  "pt_lookup c m va w =
     (let pde_at = unat (alias_pa (push_bit 12 (drop_bit 12 c))) + 4 * unat (take_bit 10 (drop_bit 22 va));
          pde = ld 4 m pde_at in
      if GUEST_RAM_SIZE < pde_at + 4 \<or> \<not> bit pde 0 then None
      else if bit pde 7 then
        if w \<and> \<not> bit pde 1 then None
        else Some (alias_pa (push_bit 22 (drop_bit 22 pde) OR take_bit 22 va))
      else
        let pt_at = unat (alias_pa (push_bit 12 (drop_bit 12 pde))) + 4 * unat (take_bit 10 (drop_bit 12 va));
            pte = ld 4 m pt_at in
        if GUEST_RAM_SIZE < pt_at + 4 \<or> \<not> bit pte 0 \<or> (w \<and> \<not> bit pte 1) then None
        else Some (alias_pa (push_bit 12 (drop_bit 12 pte) OR take_bit 12 va)))"

section \<open>Masks and addresses\<close>

lemma and_high_mask:
  fixes w :: u32
  assumes "k + n = 32"
  shows "w AND push_bit k (mask n) = push_bit k (drop_bit k w)"
  using assms
  by (intro bit_word_eqI) (auto simp: bit_and_iff bit_push_bit_iff bit_mask_iff bit_drop_bit_eq)

lemma high_masks: "(0xFFFFF000 :: u32) = push_bit 12 (mask 20)" "(0xFFC00000 :: u32) = push_bit 22 (mask 10)"
  by code_simp+

lemma page_masks:
  fixes w :: u32
  shows "w AND 0xFFFFF000 = push_bit 12 (drop_bit 12 w)" "w AND 0xFFC00000 = push_bit 22 (drop_bit 22 w)"
    "w AND 0x003FFFFF = take_bit 22 w" "w AND 0x3FF = take_bit 10 w" "w AND 0xFFF = take_bit 12 w"
proof -
  show "w AND 0xFFFFF000 = push_bit 12 (drop_bit 12 w)" "w AND 0xFFC00000 = push_bit 22 (drop_bit 22 w)"
    unfolding high_masks by (rule and_high_mask, simp)+
qed (simp_all add: take_bit_eq_mask mask_eq_exp_minus_1)

lemma alias_offset:
  "alias_pa (push_bit 12 x OR take_bit 12 y) = alias_pa (push_bit 12 x) OR take_bit 12 y"
proof -
  have "drop_bit 27 (push_bit 12 x OR take_bit 12 y) = drop_bit 27 (push_bit 12 x)"
    by (rule bit_word_eqI) (auto simp: bit_drop_bit_eq bit_or_iff bit_take_bit_iff)
  moreover have "take_bit 27 (push_bit 12 x OR take_bit 12 y) = take_bit 27 (push_bit 12 x) OR take_bit 12 y"
    by (rule bit_word_eqI) (auto simp: bit_or_iff bit_take_bit_iff)
  ultimately show ?thesis by (simp add: alias_pa_eq)
qed

lemma alias_aligned: "take_bit 12 (alias_pa (push_bit 12 x)) = 0"
  by (rule bit_word_eqI) (auto simp: alias_pa_eq bit_take_bit_iff bit_push_bit_iff)

lemma aligned_unat:
  assumes "take_bit 12 (a :: u32) = 0"
  shows "4096 dvd unat a" and "unat a \<le> 0xFFFFF000"
proof -
  have "unat a mod 4096 = 0" using assms unat_and_mask [of a 12] by (simp add: take_bit_eq_mask)
  then show "4096 dvd unat a" by auto
  then obtain k where k: "unat a = 4096 * k" by auto
  moreover have "unat a < 4294967296" by simp
  ultimately show "unat a \<le> 0xFFFFF000" by simp
qed

text \<open>The address of a table entry, and the bounds check of the code on it.\<close>

lemma entry_unat:
  assumes "take_bit 12 (a :: u32) = 0"
  shows "unat (a + take_bit 10 i * 4) = unat a + 4 * unat (take_bit 10 i)"
proof -
  have i: "unat (take_bit 10 i) < 1024"
    using unat_and_mask_less [of i 10] by (simp add: take_bit_eq_mask)
  then have m: "unat (take_bit 10 i * 4) = 4 * unat (take_bit 10 i)"
    by (simp add: unat_word_ariths)
  show ?thesis
    using aligned_unat(2) [OF assms] i by (simp add: unat_word_ariths(1) m)
qed

lemma entry_outside:
  "(a :: u32) + 4 > of_nat GUEST_RAM_SIZE \<Longrightarrow> GUEST_RAM_SIZE < unat a + 4"
  using unat_u32 [of a] by (auto simp: word_less_nat_alt unat_word_ariths(1) mod_if split: if_splits)

text \<open>The two entries of a translation: where they are, as words and as numbers.\<close>

definition pde_addr :: "u32 \<Rightarrow> u32 \<Rightarrow> u32" where
  "pde_addr c va = alias_pa (push_bit 12 (drop_bit 12 c)) + take_bit 10 (drop_bit 22 va) * 4"

definition pte_addr :: "u32 \<Rightarrow> u32 \<Rightarrow> u32" where
  "pte_addr pde va = alias_pa (push_bit 12 (drop_bit 12 pde)) + take_bit 10 (drop_bit 12 va) * 4"

lemma entry_addr_unat:
  "unat (pde_addr c va) = unat (alias_pa (push_bit 12 (drop_bit 12 c))) + 4 * unat (take_bit 10 (drop_bit 22 va))"
  "unat (pte_addr d va) = unat (alias_pa (push_bit 12 (drop_bit 12 d))) + 4 * unat (take_bit 10 (drop_bit 12 va))"
  by (simp_all only: pde_addr_def pte_addr_def entry_unat [OF alias_aligned])

lemma entry_addr_aligned: "4 dvd unat (pde_addr c va)" "4 dvd unat (pte_addr d va)"
proof -
  have "4 dvd unat (alias_pa (push_bit 12 x))" for x
    using aligned_unat(1) [OF alias_aligned [of x]] by (rule dvd_trans [rotated]) simp
  then show "4 dvd unat (pde_addr c va)" "4 dvd unat (pte_addr d va)"
    unfolding entry_addr_unat by auto
qed

lemma page_walk_eq:
  "page_walk c m va w =
     (let a = pde_addr c va in
      if a + 4 > of_nat GUEST_RAM_SIZE then Some (Fault False)
      else do {
        pde \<leftarrow> rd GUEST_RAM_SIZE 4 m (unat a);
        if \<not> bit pde 0 then Some (Fault False)
        else if bit pde 7 then
          if w \<and> \<not> bit pde 1 then Some (Fault True)
          else Some (Page (alias_pa (push_bit 22 (drop_bit 22 pde) OR take_bit 22 va))
            (if needs_mark w pde then st 4 m (unat a) (mark_entry w pde) else m))
        else
          let b = pte_addr pde va in
          if b + 4 > of_nat GUEST_RAM_SIZE then Some (Fault False)
          else do {
            pte \<leftarrow> rd GUEST_RAM_SIZE 4 m (unat b);
            if \<not> bit pte 0 then Some (Fault False)
            else if w \<and> \<not> bit pte 1 then Some (Fault True)
            else
              let m = (if pde AND PTE_ACCESSED = 0 then st 4 m (unat a) (pde OR PTE_ACCESSED) else m);
                  m = (if needs_mark w pte then st 4 m (unat b) (mark_entry w pte) else m)
              in Some (Page (alias_pa (push_bit 12 (drop_bit 12 pte) OR take_bit 12 va)) m)
          }
      })"
  unfolding page_walk_def page_masks tst_bits Let_def pde_addr_def [symmetric] pte_addr_def [symmetric]
  by (simp only: not_not)

lemma pt_lookup_eq:
  "pt_lookup c m va w =
     (let a = unat (pde_addr c va); pde = ld 4 m a in
      if GUEST_RAM_SIZE < a + 4 \<or> \<not> bit pde 0 then None
      else if bit pde 7 then
        if w \<and> \<not> bit pde 1 then None
        else Some (alias_pa (push_bit 22 (drop_bit 22 pde) OR take_bit 22 va))
      else
        let b = unat (pte_addr pde va); pte = ld 4 m b in
        if GUEST_RAM_SIZE < b + 4 \<or> \<not> bit pte 0 \<or> (w \<and> \<not> bit pte 1) then None
        else Some (alias_pa (push_bit 12 (drop_bit 12 pte) OR take_bit 12 va)))"
  unfolding pt_lookup_def entry_addr_unat [symmetric] Let_def ..

text \<open>The walk finds what the tables say.\<close>

definition walk_result :: "walk \<Rightarrow> u32 option" where
  "walk_result r = (case r of Fault _ \<Rightarrow> None | Page pa _ \<Rightarrow> Some pa)"

lemma page_walk_lookup:
  assumes "page_walk c m va w = Some r"
  shows "walk_result r = pt_lookup c m va w"
  using assms entry_outside unfolding page_walk_eq pt_lookup_eq Let_def walk_result_def
  by (auto simp: rd_def split: if_splits bind_splits)

section \<open>Accessed and dirty bits do not change a translation\<close>

definition same_but_ad :: "bytes \<Rightarrow> bytes \<Rightarrow> bool" where
  "same_but_ad m m' \<longleftrightarrow>
     (\<forall>a n. 4 dvd a \<longrightarrow> n \<noteq> 5 \<longrightarrow> n \<noteq> 6 \<longrightarrow> bit (ld 4 m' a) n = bit (ld 4 m a) n)"

lemma same_but_ad_refl [simp]: "same_but_ad m m"
  by (simp add: same_but_ad_def)

lemma same_but_ad_trans: "same_but_ad a b \<Longrightarrow> same_but_ad b c \<Longrightarrow> same_but_ad a c"
  by (simp add: same_but_ad_def)

lemma same_but_ad_st:
  assumes "4 dvd b" and "\<And>n. n \<noteq> 5 \<Longrightarrow> n \<noteq> 6 \<Longrightarrow> bit v n = bit (ld 4 m b) n"
  shows "same_but_ad m (st 4 m b v)"
  unfolding same_but_ad_def
proof (intro allI impI)
  fix a n :: nat
  assume a: "4 dvd a" and n: "n \<noteq> 5" "n \<noteq> 6"
  show "bit (ld 4 (st 4 m b v) a) n = bit (ld 4 m a) n"
  proof (cases "a = b")
    case True
    then show ?thesis using assms(2) n by simp
  next
    case False
    obtain i j where "a = 4 * i" "b = 4 * j" using a assms(1) by (auto elim!: dvdE)
    with False have "a + 4 \<le> b \<or> b + 4 \<le> a" by auto
    then show ?thesis by (simp add: ld_st_disjoint)
  qed
qed

lemma bit_20: "bit (0x20 :: u32) n \<longleftrightarrow> n = 5" and bit_40: "bit (0x40 :: u32) n \<longleftrightarrow> n = 6"
  using bit_exp_iff [of 5 n, where ?'a = "32 word"] bit_exp_iff [of 6 n, where ?'a = "32 word"] by auto

lemma bit_accessed: "n \<noteq> 5 \<Longrightarrow> bit (e OR 0x20) n = bit (e :: u32) n"
  by (simp only: bit_or_iff bit_20) simp

lemma bit_mark_entry: "n \<noteq> 5 \<Longrightarrow> n \<noteq> 6 \<Longrightarrow> bit (mark_entry w e) n = bit e n"
  by (simp only: mark_entry_def bit_or_iff bit_20 bit_40 split: if_split) simp

lemma page_walk_ad:
  assumes "page_walk c m va w = Some (Page pa m')"
  shows "same_but_ad m m'"
proof -
  define a where "a = unat (pde_addr c va)"
  define pde where "pde = ld 4 m a"
  define b where "b = unat (pte_addr pde va)"
  define pte where "pte = ld 4 m b"
  define m1 where "m1 = (if pde AND PTE_ACCESSED = 0 then st 4 m a (pde OR PTE_ACCESSED) else m)"
  have al: "4 dvd a" "4 dvd b" by (simp_all add: a_def b_def entry_addr_aligned)
  have s1: "same_but_ad m m1"
    unfolding m1_def using al(1) by (auto intro!: same_but_ad_st bit_accessed simp: pde_def)
  have s2: "same_but_ad m1 (st 4 m1 b (mark_entry w pte))"
    using al(2) s1 by (intro same_but_ad_st) (simp_all add: bit_mark_entry same_but_ad_def pte_def)
  have big: "same_but_ad m (st 4 m a (mark_entry w pde))"
    using al(1) by (intro same_but_ad_st) (simp_all add: bit_mark_entry pde_def)
  show ?thesis
    using assms s1 same_but_ad_trans [OF s1 s2] big
    unfolding page_walk_eq Let_def a_def [symmetric] rd_def
    by (auto simp: pde_def [symmetric] b_def [symmetric] pte_def [symmetric] m1_def [symmetric]
        split: if_splits bind_splits)
qed

lemma pt_lookup_same_ad:
  assumes "same_but_ad m m'"
  shows "pt_lookup c m' va w = pt_lookup c m va w"
proof -
  have d: "drop_bit k (ld 4 m' a) = drop_bit k (ld 4 m a)" if "4 dvd a" "7 \<le> k" for a k
    using assms that by (intro bit_word_eqI) (simp add: bit_drop_bit_eq same_but_ad_def)
  have b: "bit (ld 4 m' a) n = bit (ld 4 m a) n" if "4 dvd a" "n \<noteq> 5" "n \<noteq> 6" for a n
    using assms that by (simp add: same_but_ad_def)
  have e: "pte_addr (ld 4 m' a) va = pte_addr (ld 4 m a) va" if "4 dvd a" for a
    using d [OF that, of 12] by (simp add: pte_addr_def)
  show ?thesis
    unfolding pt_lookup_eq Let_def
    using entry_addr_aligned by (simp add: b d e)
qed

section \<open>The TLB as a cache of the tables\<close>

text \<open>Page numbers are 20-bit words: the invalid tag is not one of them.\<close>

type_synonym vpn = "20 word"

definition vpn_of :: "u32 \<Rightarrow> vpn" where
  "vpn_of va = ucast (drop_bit 12 va)"

definition tlb_page :: "tlb_entry arr \<Rightarrow> vpn \<Rightarrow> u32 option" where
  "tlb_page a k = tlb_get a (ucast k)"

definition tlb_put_page :: "vpn \<Rightarrow> u32 \<Rightarrow> tlb_entry arr \<Rightarrow> tlb_entry arr" where
  "tlb_put_page k p a = tlb_put (ucast k) p a"

definition tlb_drop_page :: "vpn \<Rightarrow> tlb_entry arr \<Rightarrow> tlb_entry arr" where
  "tlb_drop_page k a = drop_tag (tlb_index (ucast k)) (ucast k) a"

definition tlb_drop_all :: "tlb_entry arr \<Rightarrow> tlb_entry arr" where
  "tlb_drop_all a = (\<lambda>i. if i < TLB_SIZE then (a i)\<lparr>tag := INVALID_TAG\<rparr> else a i)"

lemma ucast_vpn_of [simp]: "ucast (vpn_of va) = drop_bit 12 va"
proof (rule bit_word_eqI)
  fix n :: nat
  assume "n < LENGTH(32)"
  then show "bit (ucast (vpn_of va) :: u32) n = bit (drop_bit 12 va) n"
    using bit_imp_le_length [of va "12 + n"]
    by (auto simp: vpn_of_def bit_ucast_iff bit_drop_bit_eq)
qed

lemma ucast_vpn_inj [simp]: "(ucast (k :: vpn) :: u32) = ucast k' \<longleftrightarrow> k = k'"
proof
  assume eq: "(ucast k :: u32) = ucast k'"
  show "k = k'"
  proof (rule bit_word_eqI)
    fix n :: nat
    assume "n < LENGTH(20)"
    then show "bit k n = bit k' n" using arg_cong [OF eq, of "\<lambda>x. bit x n"] by (simp add: bit_ucast_iff)
  qed
qed simp

lemma ucast_vpn_valid [simp]: "(ucast (k :: vpn) :: u32) \<noteq> 0xFFFFFFFF"
proof
  assume "(ucast k :: u32) = 0xFFFFFFFF"
  then have "bit (ucast k :: u32) 31" by simp
  then show False using bit_imp_le_length [of k 31] by (auto simp: bit_ucast_iff)
qed

lemma ucast_vpn_valid' [simp]: "(0xFFFFFFFF :: u32) \<noteq> ucast (k :: vpn)"
  using ucast_vpn_valid [of k] by metis

lemma tlb_index_less [simp]: "tlb_index v < 256"
  using unat_and_mask_less [of v 8] by (simp add: tlb_index_def mask_eq_exp_minus_1)

lemma tlb_page_put: "tlb_page (tlb_put_page k p a) k' =
    (if k' = k then Some p
     else if tlb_index (ucast k') = tlb_index (ucast k) then None else tlb_page a k')"
  by (simp add: tlb_page_def tlb_get_def tlb_put_page_def tlb_put_def Let_def)

lemma tlb_page_drop: "tlb_page (tlb_drop_page k a) k' = (if k' = k then None else tlb_page a k')"
proof (cases "tag (a (tlb_index (ucast k))) = ucast k")
  case False
  then have "tlb_drop_page k a = a" by (simp add: tlb_drop_page_def drop_tag_def)
  moreover have "tlb_page a k = None" using False by (simp add: tlb_page_def tlb_get_def Let_def)
  ultimately show ?thesis by simp
next
  case True
  then have d: "tlb_drop_page k a = a(tlb_index (ucast k) := (a (tlb_index (ucast k)))\<lparr>tag := INVALID_TAG\<rparr>)"
    by (simp add: tlb_drop_page_def drop_tag_def)
  show ?thesis
  proof (cases "tlb_index (ucast k') = tlb_index (ucast k :: u32)")
    case True': True
    have "tlb_page a k' = None" if "k' \<noteq> k"
      using True that unfolding tlb_page_def tlb_get_def Let_def True' by simp
    then show ?thesis unfolding d using True' by (simp add: tlb_page_def tlb_get_def Let_def)
  next
    case False
    then have "k' \<noteq> k" by auto
    with False show ?thesis unfolding d by (simp add: tlb_page_def tlb_get_def Let_def)
  qed
qed

lemma tlb_page_drop_all: "tlb_page (tlb_drop_all a) k = None"
  by (simp add: tlb_page_def tlb_get_def tlb_drop_all_def Let_def)

interpretation tlb_cache: flushable_cache tlb_page tlb_put_page tlb_drop_page tlb_drop_all
  by unfold_locales (simp_all add: tlb_page_put tlb_page_drop tlb_page_drop_all split: if_splits)

text \<open>A translation is a page translation and an offset.\<close>

definition pt_page :: "u32 \<Rightarrow> bytes \<Rightarrow> bool \<Rightarrow> vpn \<Rightarrow> u32 option" where
  "pt_page c m w k = pt_lookup c m (push_bit 12 (ucast k)) w"

lemma bit_u32: "bit (w :: u32) n \<Longrightarrow> n < 32"
  using bit_imp_le_length [of w n] by simp

lemma page_va_parts:
  fixes va :: u32
  defines "pv \<equiv> push_bit 12 (drop_bit 12 va)"
  shows "drop_bit 22 pv = drop_bit 22 va" "drop_bit 12 pv = drop_bit 12 va" "take_bit 12 pv = 0"
    "take_bit 22 pv = push_bit 12 (take_bit 10 (drop_bit 12 va))"
    "take_bit 22 va = push_bit 12 (take_bit 10 (drop_bit 12 va)) OR take_bit 12 va"
proof -
  have pv: "bit pv n \<longleftrightarrow> 12 \<le> n \<and> bit va n" for n
    using bit_u32 [of va n] by (auto simp: pv_def bit_push_bit_iff bit_drop_bit_eq)
  show "drop_bit 22 pv = drop_bit 22 va"
    by (rule bit_word_eqI) (simp only: bit_drop_bit_eq pv comp_apply, simp)
  show "drop_bit 12 pv = drop_bit 12 va"
    by (rule bit_word_eqI) (simp only: bit_drop_bit_eq pv comp_apply, simp)
  show "take_bit 12 pv = 0"
    by (rule bit_word_eqI) (simp only: bit_take_bit_iff pv, simp)
  show "take_bit 22 pv = push_bit 12 (take_bit 10 (drop_bit 12 va))"
    by (rule bit_word_eqI, auto simp only: bit_take_bit_iff pv bit_push_bit_iff bit_drop_bit_eq
      comp_apply le_add_diff_inverse, simp)
  show "take_bit 22 va = push_bit 12 (take_bit 10 (drop_bit 12 va)) OR take_bit 12 va"
    by (rule bit_word_eqI, auto simp only: bit_take_bit_iff bit_or_iff bit_push_bit_iff bit_drop_bit_eq
      comp_apply le_add_diff_inverse, simp)
qed

lemma big_page_base:
  "push_bit 22 x OR push_bit 12 (take_bit 10 y) = push_bit 12 (push_bit 10 x OR take_bit 10 y)" for x :: u32
  by (rule bit_word_eqI) (auto simp: bit_push_bit_iff bit_or_iff bit_take_bit_iff)

lemma pt_lookup_page:
  "pt_lookup c m va w = map_option (\<lambda>p. p OR take_bit 12 va) (pt_page c m w (vpn_of va))"
proof -
  have big: "alias_pa (push_bit 22 x OR (push_bit 12 (take_bit 10 y) OR take_bit 12 va)) =
      alias_pa (push_bit 22 x OR push_bit 12 (take_bit 10 y)) OR take_bit 12 va" for x y
    by (simp only: or.assoc [symmetric] big_page_base alias_offset)
  define a where "a = unat (pde_addr c va)"
  have a': "unat (pde_addr c (push_bit 12 (drop_bit 12 va))) = a"
    by (simp add: a_def pde_addr_def page_va_parts(1))
  define pde where "pde = ld 4 m a"
  define b where "b = unat (pte_addr pde va)"
  have b': "unat (pte_addr pde (push_bit 12 (drop_bit 12 va))) = b"
    by (simp add: b_def pte_addr_def page_va_parts(2))
  show ?thesis
    unfolding pt_page_def pt_lookup_eq Let_def ucast_vpn_of a' a_def [symmetric] pde_def [symmetric]
      b' b_def [symmetric] page_va_parts(3-5)
    by (simp add: alias_offset big page_va_parts(2))
qed

lemma pt_page_aligned:
  assumes "pt_page c m w k = Some p"
  shows "take_bit 12 p = 0"
proof -
  define va :: u32 where "va = push_bit 12 (ucast k)"
  have va: "push_bit 12 (drop_bit 12 va) = va"
    unfolding va_def by (rule bit_word_eqI) (auto simp: bit_push_bit_iff bit_drop_bit_eq)
  have t: "take_bit 22 va = push_bit 12 (take_bit 10 (drop_bit 12 va))" "take_bit 12 va = 0"
    using page_va_parts(3,4) [of va] by (simp_all add: va)
  have "\<exists>x. p = alias_pa (push_bit 22 x OR take_bit 22 va) \<or> p = alias_pa (push_bit 12 x OR take_bit 12 va)"
    using assms unfolding pt_page_def pt_lookup_eq Let_def va_def [symmetric] by (simp split: if_splits) blast+
  then have "\<exists>z. p = alias_pa (push_bit 12 z)"
    by (simp only: t big_page_base or.right_neutral) blast
  then show ?thesis using alias_aligned by blast
qed

section \<open>Translation refines the tables\<close>

definition tlb_sound :: "u32 \<Rightarrow> bytes \<Rightarrow> soft_tlb \<Rightarrow> bool" where
  "tlb_sound c m t \<longleftrightarrow> cache_sound tlb_page (pt_page c m False) (read_tlb t)
     \<and> cache_sound tlb_page (pt_page c m True) (write_tlb t)"

lemma tlb_get_page: "tlb_get a (drop_bit 12 va) = tlb_page a (vpn_of va)"
  by (simp add: tlb_page_def)

lemma tlb_soundD: "tlb_sound c m t \<Longrightarrow> tlb_page (tlb_side w t) k = Some p \<Longrightarrow> pt_page c m w k = Some p"
  by (cases w) (auto simp: tlb_sound_def tlb_side_def dest: cache_soundD)

lemma pt_page_same_ad: "same_but_ad m m' \<Longrightarrow> pt_page c m' w k = pt_page c m w k"
  by (simp add: pt_page_def pt_lookup_same_ad)

text \<open>A page that may be written may be read.\<close>

lemma pt_lookup_write_read: "pt_lookup c m va True = Some p \<Longrightarrow> pt_lookup c m va False = Some p"
  unfolding pt_lookup_eq Let_def by (auto split: if_splits)

lemma pt_page_write_read: "pt_page c m True k = Some p \<Longrightarrow> pt_page c m False k = Some p"
  by (simp add: pt_page_def pt_lookup_write_read)

lemma page_of_pa:
  assumes "take_bit 12 p = 0"
  shows "(p OR take_bit 12 va) AND GUEST_PAGE_MASK = (p :: u32)"
proof -
  have p: "\<not> bit p n" if "n < 12" for n
    using arg_cong [OF assms, of "\<lambda>x. bit x n"] that by (simp add: bit_take_bit_iff)
  show ?thesis
    unfolding page_masks
  proof (rule bit_word_eqI)
    fix n :: nat
    assume "n < LENGTH(32)"
    then show "bit (push_bit 12 (drop_bit 12 (p OR take_bit 12 va))) n = bit p n"
      using p [of n] by (cases "n < 12") (auto simp: bit_push_bit_iff bit_drop_bit_eq bit_or_iff bit_take_bit_iff)
  qed
qed

lemma tlb_fill_sound:
  assumes s: "tlb_sound c m t" and l: "pt_lookup c m va w = Some pa"
  shows "tlb_sound c m (tlb_fill va pa w t)"
proof -
  obtain p where p: "pt_page c m w (vpn_of va) = Some p" and pa: "pa = p OR take_bit 12 va"
    using l by (auto simp: pt_lookup_page)
  have q: "pa AND GUEST_PAGE_MASK = p"
    unfolding pa by (rule page_of_pa) (rule pt_page_aligned [OF p])
  have f: "tlb_fill va pa w t = (if w
      then t\<lparr>write_tlb := tlb_put_page (vpn_of va) p (write_tlb t), read_tlb := tlb_put_page (vpn_of va) p (read_tlb t)\<rparr>
      else t\<lparr>read_tlb := tlb_put_page (vpn_of va) p (read_tlb t)\<rparr>)"
    by (simp add: tlb_fill_def q tlb_put_page_def Let_def)
  have r: "pt_page c m False (vpn_of va) = Some p"
    using p pt_page_write_read by (cases w) auto
  show ?thesis
    using s p r tlb_cache.sound_put by (auto simp: f tlb_sound_def)
qed

lemma walk_fault_bit:
  assumes "page_walk c m va w = Some (Fault p)"
  shows "p \<longleftrightarrow> pt_lookup c m va False \<noteq> None"
  using assms entry_outside unfolding page_walk_eq pt_lookup_eq Let_def
  by (auto simp: rd_def split: if_splits bind_splits)

lemma set_mem_simps [simp]:
  "ram (set_mem b m) = b" "ctx (set_mem b m) = ctx m" "tlb (set_mem b m) = tlb m" "mmio (set_mem b m) = mmio m"
  by (simp_all add: set_mem_def set_ram_def)

lemma upd_ctx_simps [simp]:
  "ctx (upd_ctx f m) = f (ctx m)" "tlb (upd_ctx f m) = tlb m" "hw (upd_ctx f m) = hw m" "mmio (upd_ctx f m) = mmio m"
  by (simp_all add: upd_ctx_def)

lemma set_fault_simps [simp]:
  "cr3 (set_fault va p w c) = cr3 c" "cr0 (set_fault va p w c) = cr0 c" "gp (set_fault va p w c) = gp c"
  by (simp_all add: set_fault_def)

lemma translate_va_spec:
  assumes "tlb_sound (cr3 (ctx m)) (ram m) (tlb m)" and "translate_va va w m = Some (pa, m')"
  shows "(case pt_lookup (cr3 (ctx m)) (ram m) va w of
        Some p \<Rightarrow> pa = p \<and> ctx m' = ctx m
      | None \<Rightarrow> pa = PA_FAULT \<and> m' = upd_ctx (set_fault va (pt_lookup (cr3 (ctx m)) (ram m) va False \<noteq> None) w) m)
    \<and> same_but_ad (ram m) (ram m')
    \<and> tlb_sound (cr3 (ctx m')) (ram m') (tlb m')"
proof (cases "tlb_page (tlb_side w (tlb m)) (vpn_of va)")
  case (Some p)
  then have l: "pt_lookup (cr3 (ctx m)) (ram m) va w = Some (p OR take_bit 12 va)"
    using tlb_soundD [OF assms(1)] by (simp add: pt_lookup_page)
  have "pa = p OR take_bit 12 va" "m' = m"
    using assms(2) Some by (simp_all add: translate_va_def tlb_get_page page_masks)
  with l show ?thesis using assms(1) by simp
next
  case None
  then obtain r where r: "page_walk (cr3 (ctx m)) (ram m) va w = Some r"
    using assms(2) by (auto simp: translate_va_def tlb_get_page split: option.splits)
  note l = page_walk_lookup [OF r]
  show ?thesis
  proof (cases r)
    case (Fault p)
    then show ?thesis
      using assms None r l walk_fault_bit [OF r [unfolded Fault]]
      by (auto simp: translate_va_def tlb_get_page walk_result_def)
  next
    case (Page pa' b)
    then have pa: "pa = pa'" "m' = set_mem b (m\<lparr>tlb := tlb_fill va pa' w (tlb m)\<rparr>)"
      using assms(2) None r Page by (auto simp: translate_va_def tlb_get_page)
    have l': "pt_lookup (cr3 (ctx m)) (ram m) va w = Some pa'" using l Page by (simp add: walk_result_def)
    have ad: "same_but_ad (ram m) b" using page_walk_ad r Page by blast
    have "tlb_sound (cr3 (ctx m)) b (tlb_fill va pa' w (tlb m))"
      using tlb_fill_sound [OF assms(1) l'] pt_page_same_ad [OF ad]
      by (simp add: tlb_sound_def cache_sound_def)
    then show ?thesis using l' ad by (simp add: pa)
  qed
qed

text \<open>C19: With a sound TLB a translation returns exactly what the page tables in memory say (or the
  fault value, with CR2 and the error code's present and write bits set), whether it hits or walks; the
  accessed and dirty bits it writes change no translation, and the TLB stays sound.\<close>
theorem translate_va_refines:
  assumes "tlb_sound (cr3 (ctx m)) (ram m) (tlb m)" and "translate_va va w m = Some (pa, m')"
  shows "(case pt_lookup (cr3 (ctx m)) (ram m) va w of
        Some p \<Rightarrow> pa = p \<and> ctx m' = ctx m
      | None \<Rightarrow> pa = PA_FAULT \<and> m' = upd_ctx (set_fault va (pt_lookup (cr3 (ctx m)) (ram m) va False \<noteq> None) w) m)
    \<and> (\<forall>c va w. pt_lookup c (ram m') va w = pt_lookup c (ram m) va w)
    \<and> tlb_sound (cr3 (ctx m')) (ram m') (tlb m')"
  using translate_va_spec [OF assms] pt_lookup_same_ad by blast

text \<open>A machine with an identity-mapped 4 MB page at 0 and a page table for the next 4 MB.\<close>

definition paging_demo :: machine where
  "paging_demo = (let m = executor_init False in
     set_mem (st 4 (st 4 (st 4 (\<lambda>_. 0) 0x1000 0x83) 0x1004 0x2003) 0x2000 0x00345001)
       (upd_ctx (\<lambda>c. c\<lparr>cr0 := 0x80000011, cr3 := 0x1000\<rparr>) m))"

lemma tlb_flush_sound: "tlb_sound c m (tlb_flush t)"
  using tlb_cache.sound_drop_all [where g = "pt_page c m False" and c = "read_tlb t"]
    tlb_cache.sound_drop_all [where g = "pt_page c m True" and c = "write_tlb t"]
  by (simp add: tlb_sound_def tlb_flush_def tlb_drop_all_def)

lemma paging_demo_simps:
  "cr3 (ctx paging_demo) = 0x1000" "tlb paging_demo = tlb (executor_init False)"
  "ram paging_demo = st 4 (st 4 (st 4 (\<lambda>_. 0) 0x1000 0x83) 0x1004 0x2003) 0x2000 0x00345001"
  by (simp_all add: paging_demo_def Let_def)

lemma paging_demo_sound: "tlb_sound (cr3 (ctx paging_demo)) (ram paging_demo) (tlb paging_demo)"
  by (simp add: paging_demo_simps executor_init_def tlb_flush_sound)

lemma tlb_side_flush: "tlb_side w (tlb_flush t) = tlb_drop_all (tlb_side w t)"
  by (simp add: tlb_side_def tlb_flush_def tlb_drop_all_def)

lemma demo_tlb_empty: "tlb_get (tlb_side w (tlb (executor_init b))) (drop_bit 12 va) = None"
  by (simp add: tlb_get_page executor_init_def tlb_side_flush tlb_page_drop_all)

lemma paging_demo_walk: "page_walk 0x1000 (ram paging_demo) 0x00400123 True = Some (Fault True)"
  by (simp add: paging_demo_simps page_walk_def Let_def alias_pa_def ld_st_disjoint)

lemma paging_demo_write_faults:
  "translate_va 0x00400123 True paging_demo =
    Some (PA_FAULT, upd_ctx (set_fault 0x00400123 True True) paging_demo)"
  unfolding translate_va_def paging_demo_simps(1,2) demo_tlb_empty by (simp add: paging_demo_walk)

lemma paging_demo_refuses: "pt_lookup 0x1000 (ram paging_demo) 0x00400123 True = None"
  using page_walk_lookup [OF paging_demo_walk] by (simp add: walk_result_def)

theorem translate_va_refines_witness:
  "upd_ctx (set_fault 0x00400123 True True) paging_demo =
    upd_ctx (set_fault 0x00400123 (pt_lookup 0x1000 (ram paging_demo) 0x00400123 False \<noteq> None) True) paging_demo"
  using conjunct1 [OF translate_va_refines [OF paging_demo_sound paging_demo_write_faults]]
  unfolding paging_demo_simps(1) paging_demo_refuses option.case by (rule conjunct2)

text \<open>A page directory in the last page of the address space: the bound check wraps around and the
  entry is read four gigabytes up.\<close>

lemma walk_wraps_outside: "page_walk 0xFFFFF000 m 0xFFC00000 w = None"
proof -
  have a: "pde_addr 0xFFFFF000 0xFFC00000 = 0xFFFFFFFC"
    by (simp add: pde_addr_def alias_pa_def)
  show ?thesis unfolding page_walk_eq Let_def a by (simp add: rd_def)
qed

text \<open>The copy for translated code is the same function, but that it sets the stop reason on
  exactly the accesses the tables do not allow.\<close>
theorem translate_va_jit_eq:
  assumes "tlb_sound (cr3 (ctx m)) (ram m) (tlb m)"
  shows "translate_va_jit va w m =
    map_option (\<lambda>(pa, m'). (pa, if pt_lookup (cr3 (ctx m)) (ram m) va w = None
        then upd_ctx (\<lambda>c. c\<lparr>stop_reason := STOP_PAGE_FAULT\<rparr>) m' else m')) (translate_va va w m)"
proof (cases "tlb_page (tlb_side w (tlb m)) (vpn_of va)")
  case (Some p)
  then show ?thesis using tlb_soundD [OF assms]
    by (simp add: translate_va_def translate_va_jit_def tlb_get_page pt_lookup_page)
next
  case None
  show ?thesis
  proof (cases "page_walk (cr3 (ctx m)) (ram m) va w")
    case None': None
    then show ?thesis using None by (simp add: translate_va_def translate_va_jit_def tlb_get_page)
  next
    case (Some r)
    then show ?thesis using None page_walk_lookup [OF Some]
      by (cases r)
        (auto simp: translate_va_def translate_va_jit_def tlb_get_page walk_result_def upd_ctx_def
          dest: sym [of "Some _"])
  qed
qed

theorem translate_va_jit_eq_example:
  "translate_va_jit 0x00400123 True paging_demo =
    Some (PA_FAULT, upd_ctx (\<lambda>c. c\<lparr>stop_reason := STOP_PAGE_FAULT\<rparr>)
      (upd_ctx (set_fault 0x00400123 True True) paging_demo))"
  using translate_va_jit_eq [OF paging_demo_sound, of "0x00400123" True] paging_demo_write_faults
  unfolding paging_demo_simps(1) paging_demo_refuses by simp

end
