(* ===== verification/Guest_Memory.thy ===== *)
theory Guest_Memory
  imports Paging
begin

text \<open>
  The helpers translated code calls for guest memory (\<open>src/src/cpu/jit_helpers.cpp\<close>): the device
  dispatch, reads and writes through translation, the stack helpers, ENTER, XLATB, IRETD and RETF.
  An operation is \<open>None\<close> when the code would touch memory outside the guest's.
\<close>

section \<open>Device dispatch\<close>

text \<open>A read merged into the low bytes of a register.\<close>

definition merge_reg :: "nat \<Rightarrow> u32 \<Rightarrow> u32 \<Rightarrow> u32" where
  "merge_reg n old val =
     (if n = 1 then (old AND 0xFFFFFF00) OR (val AND 0xFF)
      else if n = 2 then (old AND 0xFFFF0000) OR (val AND 0xFFFF)
      else val)"

definition mmio_dispatch_read :: "u32 \<Rightarrow> nat \<Rightarrow> nat \<Rightarrow> machine \<Rightarrow> machine option" where
  "mmio_dispatch_read pa dst n m = do {
     (val, m) \<leftarrow> (if unat pa < GUEST_RAM_SIZE then map_option (\<lambda>v. (v, m)) (ram_rd n pa m)
                 else bus_read pa n m);
     Some (set_reg dst (merge_reg n (reg dst m) val) m)
   }"

definition mmio_dispatch_write_imm :: "u32 \<Rightarrow> u32 \<Rightarrow> nat \<Rightarrow> machine \<Rightarrow> machine option" where
  "mmio_dispatch_write_imm pa val n m =
     (if unat pa < GUEST_RAM_SIZE then ram_wr n pa val m else bus_write pa val n m)"

definition mmio_dispatch_write :: "u32 \<Rightarrow> nat \<Rightarrow> nat \<Rightarrow> machine \<Rightarrow> machine option" where
  "mmio_dispatch_write pa src n m =
     (if unat pa < GUEST_RAM_SIZE then ram_wr n pa (reg src m) m else bus_write pa (reg src m) n m)"

section \<open>Reads and writes\<close>

text \<open>Faults are reported by the value; the stop reason is always cleared.\<close>

definition guest_translate :: "u32 \<Rightarrow> bool \<Rightarrow> machine \<Rightarrow> (u32 \<times> machine) option" where
  "guest_translate a w m =
     (if paging_enabled m then do {
        (pa, m) \<leftarrow> translate_va_jit a w m;
        Some (pa, upd_ctx (\<lambda>c. c\<lparr>stop_reason := 0\<rparr>) m)
      } else Some (a, m))"

definition guest_read :: "u32 \<Rightarrow> nat \<Rightarrow> machine \<Rightarrow> (u32 \<times> machine) option" where
  "guest_read a n m = do {
     (pa, m) \<leftarrow> guest_translate a False m;
     if pa = PA_FAULT then Some (0, m)
     else if unat pa < GUEST_RAM_SIZE then map_option (\<lambda>v. (v, m)) (ram_rd n pa m)
     else bus_read pa n m
   }"

definition guest_write :: "u32 \<Rightarrow> u32 \<Rightarrow> nat \<Rightarrow> machine \<Rightarrow> machine option" where
  "guest_write a val n m = do {
     (pa, m) \<leftarrow> guest_translate a True m;
     if pa = PA_FAULT then Some m
     else if unat pa < GUEST_RAM_SIZE then ram_wr n pa val m
     else bus_write pa val n m
   }"

definition read_guest_mem32 :: "u32 \<Rightarrow> machine \<Rightarrow> (u32 \<times> machine) option" where
  "read_guest_mem32 a = guest_read a 4"

definition write_guest_mem32 :: "u32 \<Rightarrow> u32 \<Rightarrow> machine \<Rightarrow> machine option" where
  "write_guest_mem32 a val = guest_write a val 4"

section \<open>The stack\<close>

text \<open>PUSHFD and POPFD reach memory only, never a device.\<close>

definition pushfd_helper :: "u32 \<Rightarrow> machine \<Rightarrow> machine option" where
  "pushfd_helper flags m =
     (let flags = (flags AND NOT 0x200) OR (if virtual_if (ctx m) then 0x200 else 0);
          esp = reg GP_ESP m - 4;
          m = set_reg GP_ESP esp m in
      do {
        (pa, m) \<leftarrow> guest_translate esp True m;
        if pa = PA_FAULT then Some m
        else if unat pa < GUEST_RAM_SIZE then ram_wr 4 pa flags m
        else Some m
      })"

definition popfd_helper :: "machine \<Rightarrow> (u32 \<times> machine) option" where
  "popfd_helper m =
     (let esp = reg GP_ESP m; m = set_reg GP_ESP (esp + 4) m in
      do {
        (pa, m) \<leftarrow> guest_translate esp False m;
        if pa = PA_FAULT then Some (0, m)
        else if unat pa < GUEST_RAM_SIZE then do {
          v \<leftarrow> ram_rd 4 pa m;
          Some (v, upd_ctx (\<lambda>c. c\<lparr>virtual_if := v AND 0x200 \<noteq> 0\<rparr>) m)
        } else Some (0, m)
      })"

definition call_mem_helper :: "u32 \<Rightarrow> u32 \<Rightarrow> machine \<Rightarrow> (u32 \<times> machine) option" where
  "call_mem_helper va retaddr m = do {
     (target, m) \<leftarrow> read_guest_mem32 va m;
     let esp = reg GP_ESP m - 4;
     m \<leftarrow> write_guest_mem32 esp retaddr (set_reg GP_ESP esp m);
     Some (target, m)
   }"

definition push_esp_helper :: "machine \<Rightarrow> machine option" where
  "push_esp_helper m =
     (let old = reg GP_ESP m; new = old - 4 in write_guest_mem32 new old (set_reg GP_ESP new m))"

definition pop_esp_helper :: "machine \<Rightarrow> machine option" where
  "pop_esp_helper m = do {
     (v, m) \<leftarrow> read_guest_mem32 (reg GP_ESP m) m;
     Some (set_reg GP_ESP v m)
   }"

text \<open>The helpers that take a physical address read zero where there is no bus.\<close>

definition pa_read32 :: "u32 \<Rightarrow> machine \<Rightarrow> (u32 \<times> machine) option" where
  "pa_read32 pa m =
     (if unat pa < GUEST_RAM_SIZE then map_option (\<lambda>v. (v, m)) (ram_rd 4 pa m)
      else if mmio m = None then Some (0, m) else bus_read pa 4 m)"

definition mov_esp_from_mem :: "u32 \<Rightarrow> machine \<Rightarrow> machine option" where
  "mov_esp_from_mem pa m = do { (v, m) \<leftarrow> pa_read32 pa m; Some (set_reg GP_ESP v m) }"

definition mov_esp_to_mem :: "u32 \<Rightarrow> machine \<Rightarrow> machine option" where
  "mov_esp_to_mem pa m = mmio_dispatch_write_imm pa (reg GP_ESP m) 4 m"

definition mov_highbyte_from_mem :: "u32 \<Rightarrow> nat \<Rightarrow> machine \<Rightarrow> machine" where
  "mov_highbyte_from_mem pa i m =
     (let byte = (if unat pa < GUEST_RAM_SIZE then ram m (unat pa) else 0) in
      set_reg i ((reg i m AND 0xFFFF00FF) OR push_bit 8 (ucast byte)) m)"

definition mov_highbyte_to_mem :: "u32 \<Rightarrow> nat \<Rightarrow> machine \<Rightarrow> machine" where
  "mov_highbyte_to_mem pa i m =
     (if unat pa < GUEST_RAM_SIZE then set_mem ((ram m)(unat pa := ucast (drop_bit 8 (reg i m)))) m else m)"

definition push_mem_helper :: "u32 \<Rightarrow> machine \<Rightarrow> machine option" where
  "push_mem_helper pa m = do {
     (v, m) \<leftarrow> pa_read32 pa m;
     let esp = reg GP_ESP m - 4;
     write_guest_mem32 esp v (set_reg GP_ESP esp m)
   }"

definition pop_mem_helper :: "u32 \<Rightarrow> machine \<Rightarrow> machine option" where
  "pop_mem_helper pa m = do {
     let esp = reg GP_ESP m;
     (v, m) \<leftarrow> read_guest_mem32 esp m;
     mmio_dispatch_write_imm pa v 4 (set_reg GP_ESP (esp + 4) m)
   }"

text \<open>PUSHAD stores eight words downwards, POPAD loads them upwards; ESP moves at the end.\<close>

primrec store_down :: "u32 \<Rightarrow> u32 list \<Rightarrow> machine \<Rightarrow> (u32 \<times> machine) option" where
  "store_down esp [] m = Some (esp, m)"
| "store_down esp (v # vs) m = do {
     m \<leftarrow> write_guest_mem32 (esp - 4) v m;
     store_down (esp - 4) vs m
   }"

definition pushad_helper :: "machine \<Rightarrow> machine option" where
  "pushad_helper m = do {
     (esp, m) \<leftarrow> store_down (reg GP_ESP m)
        (map (\<lambda>i. reg i m) [GP_EAX, GP_ECX, GP_EDX, GP_EBX, GP_ESP, GP_EBP, GP_ESI, GP_EDI]) m;
     Some (set_reg GP_ESP esp m)
   }"

text \<open>The slot of ESP is skipped.\<close>

primrec load_up :: "u32 \<Rightarrow> nat list \<Rightarrow> machine \<Rightarrow> (u32 \<times> machine) option" where
  "load_up esp [] m = Some (esp, m)"
| "load_up esp (i # is) m =
     (if i = GP_ESP then load_up (esp + 4) is m
      else do {
        (v, m) \<leftarrow> read_guest_mem32 esp m;
        load_up (esp + 4) is (set_reg i v m)
      })"

definition popad_helper :: "machine \<Rightarrow> machine option" where
  "popad_helper m = do {
     (esp, m) \<leftarrow> load_up (reg GP_ESP m)
        [GP_EDI, GP_ESI, GP_EBP, GP_ESP, GP_EBX, GP_EDX, GP_ECX, GP_EAX] m;
     Some (set_reg GP_ESP esp m)
   }"

section \<open>ENTER, XLATB and returns\<close>

text \<open>The copies of the enclosing frame pointers: EBP moves down as they are read.\<close>

primrec copy_frames :: "nat \<Rightarrow> u32 \<Rightarrow> machine \<Rightarrow> (u32 \<times> machine) option" where
  "copy_frames 0 esp m = Some (esp, m)"
| "copy_frames (Suc k) esp m = do {
     let m = set_reg GP_EBP (reg GP_EBP m - 4) m;
     (v, m) \<leftarrow> read_guest_mem32 (reg GP_EBP m) m;
     m \<leftarrow> write_guest_mem32 (esp - 4) v m;
     copy_frames k (esp - 4) m
   }"

definition enter_helper :: "u32 \<Rightarrow> u32 \<Rightarrow> machine \<Rightarrow> machine option" where
  "enter_helper alloc nesting m = do {
     let level = unat (nesting AND 0x1F);
     let frame = reg GP_ESP m - 4;
     m \<leftarrow> write_guest_mem32 frame (reg GP_EBP m) m;
     (esp, m) \<leftarrow> (if level > 0 then do {
         (esp, m) \<leftarrow> copy_frames (level - 1) frame m;
         m \<leftarrow> write_guest_mem32 (esp - 4) frame m;
         Some (esp - 4, m)
       } else Some (frame, m));
     Some (set_reg GP_ESP (esp - alloc) (set_reg GP_EBP frame m))
   }"

definition xlatb_helper :: "machine \<Rightarrow> (u32 \<times> machine) option" where
  "xlatb_helper m = do {
     let ea = reg GP_EBX m + (reg GP_EAX m AND 0xFF);
     (pa, m) \<leftarrow> guest_translate ea False m;
     if pa = PA_FAULT then Some (0, m)
     else if unat pa < GUEST_RAM_SIZE then Some (ucast (ram m (unat pa)), m)
     else if mmio m = None then Some (0xFF, m)
     else bus_read pa 1 m
   }"

abbreviation IRET_FLAGS_MASK :: u32 where "IRET_FLAGS_MASK \<equiv> 0x003F7FD5"

definition iret_helper :: "machine \<Rightarrow> machine option" where
  "iret_helper m = do {
     let esp = reg GP_ESP m;
     (new_eip, m) \<leftarrow> read_guest_mem32 esp m;
     (_, m) \<leftarrow> read_guest_mem32 (esp + 4) m;
     (flags, m) \<leftarrow> read_guest_mem32 (esp + 8) m;
     let m = set_reg GP_ESP (esp + 12) m;
     Some (upd_ctx (\<lambda>c. c\<lparr>next_eip := new_eip, eflags := (flags AND IRET_FLAGS_MASK) OR 0x02,
       virtual_if := flags AND 0x200 \<noteq> 0\<rparr>) m)
   }"

definition retf_helper :: "u32 \<Rightarrow> machine \<Rightarrow> machine option" where
  "retf_helper extra_pop m = do {
     let esp = reg GP_ESP m;
     (new_eip, m) \<leftarrow> read_guest_mem32 esp m;
     (new_cs, m) \<leftarrow> read_guest_mem32 (esp + 4) m;
     let m = set_reg GP_ESP (esp + 8 + extra_pop) m;
     Some (upd_ctx (\<lambda>c. c\<lparr>next_eip := new_eip, cs_sel := ucast new_cs\<rparr>) m)
   }"

section \<open>Memory without paging\<close>

text \<open>With paging off and inside guest memory the helpers are plain loads and stores.\<close>

definition flat :: "machine \<Rightarrow> bool" where
  "flat m \<longleftrightarrow> \<not> paging_enabled m"

definition in_ram :: "u32 \<Rightarrow> nat \<Rightarrow> bool" where
  "in_ram a n \<longleftrightarrow> 0 < n \<and> unat a + n \<le> GUEST_RAM_SIZE"

lemma in_ram_ok: "in_ram a n \<Longrightarrow> unat a < GUEST_RAM_SIZE \<and> a \<noteq> PA_FAULT"
  by (auto simp: in_ram_def)

lemma flat_kept [simp]:
  "flat (set_mem b m) = flat m" "flat (set_reg r v m) = flat m"
  by (simp_all add: flat_def paging_enabled_def set_reg_def)

lemma set_reg_simps [simp]:
  "ctx (set_reg r v m) = (ctx m)\<lparr>gp := (gp (ctx m))(r := v)\<rparr>" "tlb (set_reg r v m) = tlb m"
  "hw (set_reg r v m) = hw m" "mmio (set_reg r v m) = mmio m"
  by (simp_all add: set_reg_def)

lemma set_mem_merge [simp]: "set_mem b (set_mem a m) = set_mem b m"
  by (simp add: set_mem_def set_ram_def)

lemma set_mem_reg: "set_reg r v (set_mem b m) = set_mem b (set_reg r v m)"
  by (simp add: set_mem_def set_ram_def set_reg_def upd_ctx_def)

lemma set_mem_same [simp]: "set_mem (ram m) m = m"
  by (simp add: set_mem_def set_ram_def)

lemma guest_read_flat:
  "flat m \<Longrightarrow> in_ram a n \<Longrightarrow> guest_read a n m = Some (ld n (ram m) (unat a), m)"
  using in_ram_ok [of a n]
  by (simp add: guest_read_def guest_translate_def flat_def ram_rd_def in_ram_def)

lemma guest_write_flat:
  "flat m \<Longrightarrow> in_ram a n \<Longrightarrow> guest_write a v n m = Some (set_mem (st n (ram m) (unat a) v) m)"
  using in_ram_ok [of a n]
  by (simp add: guest_write_def guest_translate_def flat_def ram_wr_def in_ram_def)

lemmas mem32_flat = guest_read_flat [of _ _ 4, folded read_guest_mem32_def]
  guest_write_flat [of _ _ 4, folded write_guest_mem32_def]

section \<open>Stacks of words\<close>

text \<open>
  The contract of word-addressed memory that the stack helpers use: a load gives the last word stored
  at the address, whatever was stored further away.
\<close>

primrec push_words :: "('m \<Rightarrow> nat \<Rightarrow> u32 \<Rightarrow> 'm) \<Rightarrow> nat \<Rightarrow> u32 list \<Rightarrow> 'm \<Rightarrow> 'm" where
  "push_words store t [] m = m"
| "push_words store t (v # vs) m = push_words store (t - 4) vs (store m (t - 4) v)"

locale word_memory =
  fixes load :: "'m \<Rightarrow> nat \<Rightarrow> u32"
    and store :: "'m \<Rightarrow> nat \<Rightarrow> u32 \<Rightarrow> 'm"
  assumes load_store_same: "load (store m a v) a = v"
    and load_store_apart: "a + 4 \<le> b \<or> b + 4 \<le> a \<Longrightarrow> load (store m b v) a = load m a"
begin

text \<open>Pushing keeps the words above the top, and lays the words out downwards from it.\<close>

lemma load_above:
  "4 * length vs \<le> t \<Longrightarrow> t \<le> a \<Longrightarrow> load (push_words store t vs m) a = load m a"
  by (induction vs arbitrary: t m) (simp_all add: load_store_apart)

lemma load_pushed:
  "4 * length vs \<le> t \<Longrightarrow> i < length vs \<Longrightarrow> load (push_words store t vs m) (t - 4 * Suc i) = vs ! i"
proof (induction vs arbitrary: t m i)
  case (Cons v vs)
  show ?case
  proof (cases i)
    case 0
    then show ?thesis using load_above [of vs "t - 4" "t - 4"] Cons.prems(1) by (simp add: load_store_same)
  next
    case (Suc j)
    have "t - 4 * Suc i = (t - 4) - 4 * Suc j" by (simp add: Suc)
    then show ?thesis using Cons.IH [of "t - 4" j] Cons.prems Suc by simp
  qed
qed simp

end

interpretation ram_words: word_memory "\<lambda>m a. ld 4 m a" "\<lambda>m a v. st 4 m a v"
  by unfold_locales (auto simp: ld_st_disjoint)

abbreviation push_ram :: "nat \<Rightarrow> u32 list \<Rightarrow> bytes \<Rightarrow> bytes" where
  "push_ram \<equiv> push_words (\<lambda>m a v. st 4 m a v)"

text \<open>The bytes outside the words pushed.\<close>

lemma push_ram_other:
  "4 * length vs \<le> t \<Longrightarrow> i < t - 4 * length vs \<or> t \<le> i \<Longrightarrow> push_ram t vs m i = m i"
proof (induction vs arbitrary: t m)
  case (Cons v vs)
  have "push_ram (t - 4) vs (st 4 m (t - 4) v) i = st 4 m (t - 4) v i"
    by (rule Cons.IH) (use Cons.prems in auto)
  moreover have "st 4 m (t - 4) v i = m i" using Cons.prems by (auto simp: st_apply)
  ultimately show ?case by simp
qed simp

section \<open>PUSHAD and POPAD\<close>

lemma unat_sub4: "4 \<le> unat a \<Longrightarrow> unat (a - 4) = unat a - 4" for a :: u32
  by (subst unat_sub) (simp_all add: word_le_nat_alt)

lemma unat_add_small: "unat a + n < 2 ^ 32 \<Longrightarrow> n < 2 ^ 32 \<Longrightarrow> unat (a + of_nat n) = unat a + n" for a :: u32
  by (simp add: unat_word_ariths(1) unsigned_of_nat take_bit_nat_eq_self)

lemma store_down_flat:
  assumes "flat m" and "unat esp \<le> GUEST_RAM_SIZE" and "4 * length vs \<le> unat esp"
  shows "store_down esp vs m =
    Some (esp - of_nat (4 * length vs), set_mem (push_ram (unat esp) vs (ram m)) m)"
  using assms
proof (induction vs arbitrary: esp m)
  case (Cons v vs)
  have u: "unat (esp - 4) = unat esp - 4" using Cons.prems(3) by (intro unat_sub4) simp
  have "in_ram (esp - 4) 4" using Cons.prems u by (simp add: in_ram_def)
  then have w: "write_guest_mem32 (esp - 4) v m = Some (set_mem (st 4 (ram m) (unat esp - 4) v) m)"
    using mem32_flat(2) [OF Cons.prems(1)] by (simp add: u)
  show ?case
    using Cons.prems Cons.IH [of "set_mem (st 4 (ram m) (unat esp - 4) v) m" "esp - 4"] by (simp add: w u)
qed simp

lemma load_up_flat:
  assumes "flat m" and "unat esp + 4 * length rs \<le> GUEST_RAM_SIZE"
  shows "\<exists>g. load_up esp rs m = Some (esp + of_nat (4 * length rs), upd_ctx (\<lambda>c. c\<lparr>gp := g\<rparr>) m)
    \<and> (\<forall>r. r \<notin> set rs \<or> r = GP_ESP \<longrightarrow> g r = gp (ctx m) r)
    \<and> (distinct rs \<longrightarrow> (\<forall>j < length rs. rs ! j \<noteq> GP_ESP \<longrightarrow> g (rs ! j) = ld 4 (ram m) (unat esp + 4 * j)))"
  using assms
proof (induction rs arbitrary: esp m)
  case Nil
  show ?case by (rule exI [of _ "gp (ctx m)"]) (simp add: upd_ctx_def)
next
  case (Cons r rs)
  have u: "unat (esp + 4) = unat esp + 4" using unat_add_small [of esp 4] Cons.prems(2) by simp
  define m1 where "m1 = (if r = GP_ESP then m else set_reg r (ld 4 (ram m) (unat esp)) m)"
  have "in_ram esp 4" using Cons.prems(2) by (simp add: in_ram_def)
  then have l: "load_up esp (r # rs) m = load_up (esp + 4) rs m1"
    using mem32_flat(1) [OF Cons.prems(1)] by (simp add: m1_def)
  have fl: "flat m1" using Cons.prems(1) by (simp add: m1_def)
  obtain g where g: "load_up (esp + 4) rs m1 = Some (esp + 4 + of_nat (4 * length rs), upd_ctx (\<lambda>c. c\<lparr>gp := g\<rparr>) m1)"
    "\<forall>q. q \<notin> set rs \<or> q = GP_ESP \<longrightarrow> g q = gp (ctx m1) q"
    "distinct rs \<longrightarrow> (\<forall>j < length rs. rs ! j \<noteq> GP_ESP \<longrightarrow> g (rs ! j) = ld 4 (ram m1) (unat (esp + 4) + 4 * j))"
    using Cons.IH [OF fl, of "esp + 4"] u Cons.prems(2) by auto
  have m1: "upd_ctx (\<lambda>c. c\<lparr>gp := g\<rparr>) m1 = upd_ctx (\<lambda>c. c\<lparr>gp := g\<rparr>) m" "hw m1 = hw m"
    by (simp_all add: m1_def set_reg_def upd_ctx_def)
  have g2: "g q = gp (ctx m) q" if "q \<notin> set (r # rs) \<or> q = GP_ESP" for q
    using g(2) that by (auto simp: m1_def)
  have g3: "g ((r # rs) ! j) = ld 4 (ram m) (unat esp + 4 * j)"
    if "distinct (r # rs)" "j < length (r # rs)" "(r # rs) ! j \<noteq> GP_ESP" for j
  proof (cases j)
    case 0
    then show ?thesis using that g(2) by (simp add: m1_def)
  next
    case (Suc i)
    then show ?thesis using that g(3) m1(2) u by (simp add: add.assoc)
  qed
  show ?case
    unfolding l using g(1) g2 g3 by (intro exI [of _ g]) (simp add: m1(1) algebra_simps)
qed

text \<open>PUSHAD then POPAD, with the registers clobbered in between but the stack pointer where PUSHAD
  left it, restores all eight registers, and no byte outside the 32 below the stack pointer changes.\<close>
theorem pushad_popad:
  assumes "flat m" and "32 \<le> unat (reg GP_ESP m)" and "unat (reg GP_ESP m) \<le> GUEST_RAM_SIZE"
  shows "\<exists>m1. pushad_helper m = Some m1
    \<and> (\<forall>i. i < unat (reg GP_ESP m) - 32 \<or> unat (reg GP_ESP m) \<le> i \<longrightarrow> ram m1 i = ram m i)
    \<and> (\<forall>g. g GP_ESP = reg GP_ESP m1 \<longrightarrow>
        (\<exists>m2. popad_helper (upd_ctx (\<lambda>c. c\<lparr>gp := g\<rparr>) m1) = Some m2 \<and> (\<forall>r < 8. reg r m2 = reg r m)))"
proof -
  define t where "t = unat (reg GP_ESP m)"
  define vs where "vs = map (\<lambda>i. reg i m) [0, 1, 2, 3, 4, 5, 6, 7]"
  define b where "b = push_ram t vs (ram m)"
  define esp where "esp = reg GP_ESP m - 32"
  have esp: "unat esp = t - 32" using assms(2) unfolding esp_def t_def
    by (subst unat_sub) (simp_all add: word_le_nat_alt)
  define m1 where "m1 = set_reg GP_ESP esp (set_mem b m)"
  have p: "pushad_helper m = Some m1"
    using store_down_flat [OF assms(1,3), of vs] assms(2)
    by (simp add: pushad_helper_def m1_def b_def vs_def t_def esp_def)
  have other: "ram m1 i = ram m i" if "i < t - 32 \<or> t \<le> i" for i
    using push_ram_other [of vs t i "ram m"] that assms(2) by (simp add: m1_def b_def vs_def t_def)
  have pop: "\<exists>m2. popad_helper (upd_ctx (\<lambda>c. c\<lparr>gp := g\<rparr>) m1) = Some m2 \<and> (\<forall>r < 8. reg r m2 = reg r m)"
    if g: "g GP_ESP = reg GP_ESP m1" for g
  proof -
    define rs :: "nat list" where "rs = [7, 6, 5, 4, 3, 2, 1, 0]"
    define m1' where "m1' = upd_ctx (\<lambda>c. c\<lparr>gp := g\<rparr>) m1"
    have fl: "flat m1'" using assms(1) by (simp add: m1'_def m1_def flat_def paging_enabled_def)
    have "unat esp + 4 * length rs \<le> GUEST_RAM_SIZE" using esp assms(3) by (simp add: rs_def t_def)
    from load_up_flat [OF fl this] obtain h where h:
      "load_up esp rs m1' = Some (esp + 32, upd_ctx (\<lambda>c. c\<lparr>gp := h\<rparr>) m1')"
      "\<And>j. j < 8 \<Longrightarrow> rs ! j \<noteq> GP_ESP \<Longrightarrow> h (rs ! j) = ld 4 b (unat esp + 4 * j)"
      by (auto simp: rs_def m1'_def m1_def)
    have v: "ld 4 b (t - 4 * Suc i) = reg i m" if "i < 8" for i
      using ram_words.load_pushed [of vs t i "ram m"] that assms(2)
      by (auto simp: b_def vs_def t_def less_8_cases)
    have hv: "h r = reg r m" if "r < 8" "r \<noteq> GP_ESP" for r
    proof -
      have "rs ! (7 - r) = r" using that by (auto simp: rs_def less_8_cases)
      moreover have "t - 32 + 4 * (7 - r) = t - 4 * Suc r" using assms(2) that by (simp add: t_def)
      ultimately show ?thesis using h(2) [of "7 - r"] v [OF that(1)] that esp by simp
    qed
    have "popad_helper m1' = Some (set_reg GP_ESP (esp + 32) (upd_ctx (\<lambda>c. c\<lparr>gp := h\<rparr>) m1'))"
      using h(1) g by (simp add: popad_helper_def rs_def m1'_def m1_def)
    moreover have "\<forall>r < 8. reg r (set_reg GP_ESP (esp + 32) (upd_ctx (\<lambda>c. c\<lparr>gp := h\<rparr>) m1')) = reg r m"
      using hv by (simp add: esp_def)
    ultimately show ?thesis unfolding m1'_def by blast
  qed
  show ?thesis using p other pop unfolding t_def by blast
qed

definition stack_demo :: machine where
  "stack_demo = set_reg GP_EBX 7 (set_reg GP_ESP 0x1000 (executor_init False))"

lemma flat_init: "flat (executor_init b)"
  by (simp add: flat_def paging_enabled_def executor_init_def guest_context_init_def)

theorem pushad_popad_witness:
  "\<exists>m1. pushad_helper stack_demo = Some m1
    \<and> (\<exists>m2. popad_helper (upd_ctx (\<lambda>c. c\<lparr>gp := (\<lambda>_. 0)(GP_ESP := reg GP_ESP m1)\<rparr>) m1) = Some m2
          \<and> reg GP_EBX m2 = 7)"
proof -
  have "flat stack_demo" "32 \<le> unat (reg GP_ESP stack_demo)" "unat (reg GP_ESP stack_demo) \<le> GUEST_RAM_SIZE"
    "reg GP_EBX stack_demo = 7"
    by (simp_all add: stack_demo_def flat_init)
  note d = this
  obtain m1 where p: "pushad_helper stack_demo = Some m1"
    and q: "\<And>g. g GP_ESP = reg GP_ESP m1 \<Longrightarrow>
      \<exists>m2. popad_helper (upd_ctx (\<lambda>c. c\<lparr>gp := g\<rparr>) m1) = Some m2 \<and> (\<forall>r < 8. reg r m2 = reg r stack_demo)"
    using pushad_popad [OF d(1-3)] by blast
  show ?thesis using p q [of "(\<lambda>_. 0)(GP_ESP := reg GP_ESP m1)"] d(4) by auto
qed

end
