(* ===== verification/Interrupts.thy ===== *)
theory Interrupts
  imports Guest_Memory
begin

text \<open>
  Delivery of an interrupt or exception through the guest's IDT (\<open>Executor::deliver_interrupt\<close> of
  \<open>src/src/cpu/executor.cpp\<close>) and its return through \<open>iret_helper\<close> of \<open>src/src/cpu/jit_helpers.cpp\<close>.
\<close>

lemma unat_widen [simp]:
  "unat (ucast (x :: u8) :: u32) = unat x" "unat (ucast (y :: u16) :: u32) = unat y"
proof -
  have "unat x < 4294967296" by (rule less_trans [OF unat_u8]) simp
  moreover have "unat y < 4294967296" by (rule less_trans [OF unat_u16]) simp
  ultimately show "unat (ucast x :: u32) = unat x" "unat (ucast y :: u32) = unat y"
    by (simp_all only: unsigned_ucast_eq) (simp_all add: take_bit_eq_mod)
qed

section \<open>Delivery\<close>

definition halt :: "machine \<Rightarrow> machine" where
  "halt m = upd_ctx (\<lambda>c. c\<lparr>halted := True\<rparr>) m"

text \<open>The gate descriptor at a physical address: offset, selector and attributes.\<close>

record gate =
  handler :: u32
  selector :: u16
  type_attr :: u8

definition read_gate :: "bytes \<Rightarrow> nat \<Rightarrow> gate" where
  "read_gate b a =
     \<lparr>handler = push_bit 16 (ld 2 b (a + 6)) OR ld 2 b a, selector = ucast (ld 2 b (a + 2)),
      type_attr = b (a + 5)\<rparr>"

text \<open>One word of the frame; \<open>esp\<close> moves even when the push faults or falls outside memory.\<close>

definition push32 :: "u32 \<Rightarrow> u32 \<times> machine \<Rightarrow> (u32 \<times> machine) option" where
  "push32 val q =
     (let esp = fst q - 4; m = snd q in
      do {
        (pa, m) \<leftarrow> (if paging_enabled m then translate_va esp True m else Some (esp, m));
        if paging_enabled m \<and> pa = PA_FAULT then Some (esp, m)
        else if unat pa < GUEST_RAM_SIZE then map_option (\<lambda>m. (esp, m)) (ram_wr 4 pa val m)
        else Some (esp, m)
      })"

primrec push_frame :: "u32 list \<Rightarrow> u32 \<times> machine \<Rightarrow> (u32 \<times> machine) option" where
  "push_frame [] q = Some q"
| "push_frame (v # vs) q = Option.bind (push32 v q) (push_frame vs)"

definition saved_eflags :: "guest_context \<Rightarrow> u32" where
  "saved_eflags c = (eflags c AND NOT 0x200) OR (if virtual_if c then 0x200 else 0) OR 0x02"

text \<open>The code pushes the gate's selector where the interrupted CS belongs.\<close>

definition deliver_interrupt :: "u8 \<Rightarrow> u32 \<Rightarrow> u32 option \<Rightarrow> machine \<Rightarrow> machine option" where
  "deliver_interrupt vector return_eip error_code m =
     (let idt_offset = (ucast vector :: u32) * 8 in
      if idt_offset + 7 > ucast (idtr_limit (ctx m)) then Some (halt m)
      else
        let desc_addr = idtr_base (ctx m) + idt_offset in
        do {
          (desc_pa, m) \<leftarrow> (if paging_enabled m then translate_va desc_addr False m else Some (desc_addr, m));
          if paging_enabled m \<and> desc_pa = PA_FAULT then Some (halt m)
          else if desc_pa + 8 > of_nat GUEST_RAM_SIZE then Some (halt m)
          else if GUEST_RAM_SIZE < unat desc_pa + 8 then None
          else
            let g = read_gate (ram m) (unat desc_pa) in
            if type_attr g AND 0x80 = 0 then Some (halt m)
            else
              let flags = saved_eflags (ctx m);
                  esp = reg GP_ESP m;
                  frame_size = (if error_code = None then 12 else 16) in
              if esp < frame_size \<or> (\<not> paging_enabled m \<and> esp > of_nat GUEST_RAM_SIZE)
              then Some (halt m)
              else do {
                (esp, m) \<leftarrow> push_frame
                   ([flags, ucast (selector g), return_eip] @ (case error_code of None \<Rightarrow> [] | Some e \<Rightarrow> [e]))
                   (esp, m);
                let m = set_reg GP_ESP esp m;
                let m = (if type_attr g AND 0x0F = 0x0E
                         then upd_ctx (\<lambda>c. c\<lparr>virtual_if := False\<rparr>) m else m);
                Some (upd_ctx (\<lambda>c. c\<lparr>eip := handler g\<rparr>) m)
              }
        })"

section \<open>Without paging\<close>

lemma push_frame_flat:
  assumes "flat m" and "unat esp \<le> GUEST_RAM_SIZE" and "4 * length vs \<le> unat esp"
  shows "push_frame vs (esp, m) =
    Some (esp - of_nat (4 * length vs), set_mem (push_ram (unat esp) vs (ram m)) m)"
  using assms
proof (induction vs arbitrary: esp m)
  case (Cons v vs)
  have u: "unat (esp - 4) = unat esp - 4" using Cons.prems(3) by (intro unat_sub4) simp
  have "push32 v (esp, m) = Some (esp - 4, set_mem (st 4 (ram m) (unat esp - 4) v) m)"
    using Cons.prems u by (simp add: push32_def flat_def ram_wr_def Let_def)
  then show ?case
    using Cons.prems Cons.IH [of "set_mem (st 4 (ram m) (unat esp - 4) v) m" "esp - 4"] by (simp add: u)
qed simp

text \<open>A gate that can be taken: inside the limit and memory, present.\<close>

definition gate_at :: "u8 \<Rightarrow> machine \<Rightarrow> nat" where
  "gate_at vector m = unat (idtr_base (ctx m)) + 8 * unat vector"

definition gate_ok :: "u8 \<Rightarrow> machine \<Rightarrow> bool" where
  "gate_ok vector m \<longleftrightarrow> 8 * unat vector + 7 \<le> unat (idtr_limit (ctx m))
     \<and> gate_at vector m + 8 \<le> GUEST_RAM_SIZE
     \<and> bit (type_attr (read_gate (ram m) (gate_at vector m))) 7"

definition frame_words :: "u8 \<Rightarrow> u32 \<Rightarrow> u32 option \<Rightarrow> machine \<Rightarrow> u32 list" where
  "frame_words vector return_eip error_code m =
     [saved_eflags (ctx m), ucast (selector (read_gate (ram m) (gate_at vector m))), return_eip]
     @ (case error_code of None \<Rightarrow> [] | Some e \<Rightarrow> [e])"

lemma length_frame_words: "length (frame_words v r e m) = (if e = None then 3 else 4)"
  by (auto simp: frame_words_def split: option.splits)

lemma deliver_flat:
  assumes "flat m" and "gate_ok vector m" and "unat (reg GP_ESP m) \<le> GUEST_RAM_SIZE"
    and "4 * length (frame_words vector r e m) \<le> unat (reg GP_ESP m)"
  defines "g \<equiv> read_gate (ram m) (gate_at vector m)"
  shows "deliver_interrupt vector r e m =
    Some (upd_ctx (\<lambda>c. c\<lparr>gp := (gp c)(GP_ESP := reg GP_ESP m - of_nat (4 * length (frame_words vector r e m))),
          virtual_if := (if type_attr g AND 0x0F = 0x0E then False else virtual_if c), eip := handler g\<rparr>)
        (set_mem (push_ram (unat (reg GP_ESP m)) (frame_words vector r e m) (ram m)) m))"
proof -
  define off where "off = (ucast vector :: u32) * 8"
  have v: "unat vector < 256" by simp
  have v': "unat vector < 536870912" by (rule less_trans [OF unat_u8]) simp
  have off: "unat off = 8 * unat vector"
    using v' by (simp add: off_def unat_word_ariths)
  have base: "unat (idtr_base (ctx m) + off) = gate_at vector m"
    using assms(2) off by (simp add: gate_ok_def gate_at_def unat_word_ariths(1))
  have limit: "\<not> off + 7 > ucast (idtr_limit (ctx m))"
  proof -
    have "8 * unat vector + 7 < 4294967296" using v by linarith
    then have "unat (off + 7) = 8 * unat vector + 7" using off by (simp add: unat_word_ariths(1))
    then show ?thesis using assms(2) by (simp add: gate_ok_def word_less_nat_alt)
  qed
  have in_mem: "\<not> idtr_base (ctx m) + off + 8 > of_nat GUEST_RAM_SIZE"
    using assms(2) base by (simp add: gate_ok_def word_less_nat_alt unat_word_ariths(1))
  have present: "type_attr g AND 0x80 \<noteq> 0"
    using assms(2) by (simp add: gate_ok_def g_def tst_bits)
  have esp: "\<not> (reg GP_ESP m < (if e = None then 12 else 16) \<or> reg GP_ESP m > of_nat GUEST_RAM_SIZE)"
    using assms(3,4) by (auto simp: length_frame_words word_less_nat_alt split: if_splits)
  have pg: "\<not> paging_enabled m" using assms(1) by (simp add: flat_def)
  have fw: "[saved_eflags (ctx m), ucast (selector g), r] @ (case e of None \<Rightarrow> [] | Some e \<Rightarrow> [e])
      = frame_words vector r e m"
    by (simp add: frame_words_def g_def)
  have inside: "\<not> GUEST_RAM_SIZE < gate_at vector m + 8" using assms(2) by (simp add: gate_ok_def)
  define esp' where "esp' = reg GP_ESP m - of_nat (4 * length (frame_words vector r e m))"
  define m' where "m' = set_mem (push_ram (unat (reg GP_ESP m)) (frame_words vector r e m) (ram m)) m"
  have pf: "push_frame (frame_words vector r e m) (reg GP_ESP m, m) = Some (esp', m')"
    using push_frame_flat [OF assms(1,3,4)] by (simp add: esp'_def m'_def)
  have "deliver_interrupt vector r e m = Some
    (upd_ctx (\<lambda>c. c\<lparr>eip := handler g\<rparr>) (if type_attr g AND 0x0F = 0x0E
       then upd_ctx (\<lambda>c. c\<lparr>virtual_if := False\<rparr>) (set_reg GP_ESP esp' m') else set_reg GP_ESP esp' m'))"
    unfolding deliver_interrupt_def Let_def off_def [symmetric]
    using limit in_mem present esp pg inside pf
    by (simp del: append.simps append_Cons append_Nil push_frame.simps
        add: base g_def [symmetric] fw)
  then show ?thesis
    unfolding esp'_def [symmetric] m'_def [symmetric] upd_ctx_def set_reg_def by simp
qed

section \<open>Delivery and return\<close>

lemma iret_flat:
  assumes "flat m" and "unat (reg GP_ESP m) + 12 \<le> GUEST_RAM_SIZE"
  defines "t \<equiv> unat (reg GP_ESP m)"
  shows "iret_helper m = Some (upd_ctx (\<lambda>c. c\<lparr>gp := (gp c)(GP_ESP := reg GP_ESP m + 12),
      next_eip := ld 4 (ram m) t, eflags := (ld 4 (ram m) (t + 8) AND IRET_FLAGS_MASK) OR 0x02,
      virtual_if := ld 4 (ram m) (t + 8) AND 0x200 \<noteq> 0\<rparr>) m)"
proof -
  have u: "unat (reg GP_ESP m + 4) = t + 4" "unat (reg GP_ESP m + 8) = t + 8"
    using assms(2) unat_add_small [of "reg GP_ESP m" 4] unat_add_small [of "reg GP_ESP m" 8]
    by (simp_all add: t_def)
  have i: "in_ram (reg GP_ESP m) 4" "in_ram (reg GP_ESP m + 4) 4" "in_ram (reg GP_ESP m + 8) 4"
    using assms(2) u by (simp_all add: in_ram_def t_def)
  show ?thesis
    using mem32_flat(1) [OF assms(1)] i u
    by (simp add: iret_helper_def Let_def t_def [symmetric] upd_ctx_def set_reg_def)
qed

lemma saved_eflags_if: "saved_eflags c AND 0x200 \<noteq> 0 \<longleftrightarrow> virtual_if c"
  using tst_exp [of "saved_eflags c" 9]
  by (auto simp: saved_eflags_def bit_or_iff bit_and_iff bit_not_iff)

text \<open>Delivery and return together, with the flags as they come out.\<close>

lemma delivered_and_returned:
  assumes "flat m" and "gate_ok vector m" and "12 \<le> unat (reg GP_ESP m)"
    and "unat (reg GP_ESP m) \<le> GUEST_RAM_SIZE"
  shows "\<exists>m1 m2. deliver_interrupt vector r None m = Some m1 \<and> iret_helper m1 = Some m2
    \<and> eip (ctx m1) = handler (read_gate (ram m) (gate_at vector m))
    \<and> (virtual_if (ctx m1) \<longleftrightarrow> virtual_if (ctx m)
         \<and> type_attr (read_gate (ram m) (gate_at vector m)) AND 0x0F \<noteq> 0x0E)
    \<and> next_eip (ctx m2) = r \<and> gp (ctx m2) = gp (ctx m) \<and> virtual_if (ctx m2) = virtual_if (ctx m)
    \<and> eflags (ctx m2) = (saved_eflags (ctx m) AND IRET_FLAGS_MASK) OR 2
    \<and> (\<forall>k \<in> {0, 2, 4, 6, 7, 10, 11, 12, 13, 16, 17}. bit (eflags (ctx m2)) k = bit (eflags (ctx m)) k)"
proof -
  define t where "t = unat (reg GP_ESP m)"
  define fr where "fr = frame_words vector r None m"
  have fr: "length fr = 3" by (simp add: fr_def length_frame_words)
  obtain m1 where d: "deliver_interrupt vector r None m = Some m1" and g1: "gp (ctx m1) = (gp (ctx m))(GP_ESP := reg GP_ESP m - 12)"
    and e1: "eip (ctx m1) = handler (read_gate (ram m) (gate_at vector m))"
    and v1: "virtual_if (ctx m1) \<longleftrightarrow> virtual_if (ctx m)
      \<and> type_attr (read_gate (ram m) (gate_at vector m)) AND 0x0F \<noteq> 0x0E"
    and f1: "flat m1" and r1: "ram m1 = push_ram t fr (ram m)"
    using deliver_flat [OF assms(1,2,4), of r None] assms(1,3) fr
    by (auto simp: fr_def [symmetric] t_def [symmetric] flat_def paging_enabled_def)
  have esp: "unat (reg GP_ESP m1) = t - 12"
    using assms(3) unfolding g1 t_def by (simp add: unat_sub word_le_nat_alt)
  have w: "ld 4 (ram m1) (t - 4 * Suc i) = fr ! i" if "i < 3" for i
    unfolding r1 by (rule ram_words.load_pushed) (use that fr assms(3) in \<open>simp_all add: t_def\<close>)
  have w0: "ld 4 (ram m1) (t - 12) = r" using w [of 2] by (simp add: fr_def frame_words_def)
  have w8: "ld 4 (ram m1) (t - 12 + 8) = saved_eflags (ctx m)"
  proof -
    have "t - 12 + 8 = t - 4 * Suc 0" using assms(3) by (simp add: t_def)
    then show ?thesis using w [of 0] by (simp add: fr_def frame_words_def)
  qed
  have "unat (reg GP_ESP m1) + 12 \<le> GUEST_RAM_SIZE" using esp assms(3,4) by (simp add: t_def)
  from iret_flat [OF f1 this] obtain m2 where i: "iret_helper m1 = Some m2"
    and c2: "next_eip (ctx m2) = r" "gp (ctx m2) = gp (ctx m)" "virtual_if (ctx m2) = virtual_if (ctx m)"
      "eflags (ctx m2) = (saved_eflags (ctx m) AND IRET_FLAGS_MASK) OR 2"
    unfolding esp w0 w8 by (auto simp: g1 saved_eflags_if)
  have "bit (eflags (ctx m2)) k = bit (eflags (ctx m)) k" if "k \<in> {0, 2, 4, 6, 7, 10, 11, 12, 13, 16, 17}" for k
    using that unfolding c2(4) saved_eflags_def
    by (auto simp: bit_or_iff bit_and_iff bit_not_iff)
  then show ?thesis using d i e1 v1 c2 by blast
qed

text \<open>A frame with VM, RF or a privilege level in its flags: IRETD keeps them all.\<close>

lemma iret_keeps_privileged_flags:
  assumes "flat m" and "gate_ok vector m" and "12 \<le> unat (reg GP_ESP m)"
    and "unat (reg GP_ESP m) \<le> GUEST_RAM_SIZE" and "k \<in> {12, 13, 16, 17}"
  shows "\<exists>m1 m2. deliver_interrupt vector r None m = Some m1 \<and> iret_helper m1 = Some m2
    \<and> bit (eflags (ctx m2)) k = bit (eflags (ctx m)) k"
  using delivered_and_returned [OF assms(1-4), of r] assms(5) by blast

text \<open>C21: Without paging and with the twelve bytes below the stack pointer in RAM, an interrupt without an
  error code, taken through a present gate, enters its handler with interrupts masked exactly if it is an
  interrupt gate, and IRETD from there returns to the interrupted instruction with all registers, the stack
  pointer among them, the interrupt flag, the arithmetic flags and the direction flag as they were.  The
  interrupted flags are those of ring 0: VM, RF, VIF, VIP and the privilege level are clear.\<close>

theorem interrupt_iret:
  assumes "flat m" and "gate_ok vector m" and "12 \<le> unat (reg GP_ESP m)"
    and "unat (reg GP_ESP m) \<le> GUEST_RAM_SIZE" and "eflags (ctx m) AND 0x1B3000 = 0"
  shows "\<exists>m1 m2. deliver_interrupt vector r None m = Some m1 \<and> iret_helper m1 = Some m2
    \<and> eip (ctx m1) = handler (read_gate (ram m) (gate_at vector m))
    \<and> (virtual_if (ctx m1) \<longleftrightarrow> virtual_if (ctx m)
         \<and> type_attr (read_gate (ram m) (gate_at vector m)) AND 0x0F \<noteq> 0x0E)
    \<and> next_eip (ctx m2) = r \<and> gp (ctx m2) = gp (ctx m) \<and> virtual_if (ctx m2) = virtual_if (ctx m)
    \<and> (\<forall>k \<in> {0, 2, 4, 6, 7, 10, 11}. bit (eflags (ctx m2)) k = bit (eflags (ctx m)) k)"
  using delivered_and_returned [OF assms(1-4), of r] by blast

text \<open>A machine with an interrupt gate for vector 0x20.\<close>

definition gate_demo :: machine where
  "gate_demo = set_mem (st 4 (st 4 (\<lambda>_. 0) 0x5100 0x00081234) 0x5104 0x80018E00)
     (upd_ctx (\<lambda>c. c\<lparr>idtr_base := 0x5000, idtr_limit := 0x7FF, gp := (gp c)(GP_ESP := 0x8000)\<rparr>)
       (executor_init False))"

theorem interrupt_iret_witness:
  "\<exists>m1 m2. deliver_interrupt 0x20 0x1000 None gate_demo = Some m1 \<and> iret_helper m1 = Some m2
    \<and> \<not> virtual_if (ctx m1) \<and> next_eip (ctx m2) = 0x1000 \<and> virtual_if (ctx m2)"
proof -
  have c: "flat gate_demo" "unat (reg GP_ESP gate_demo) = 0x8000" "virtual_if (ctx gate_demo)"
    "gate_at 0x20 gate_demo = 0x5100"
    by (simp_all add: gate_demo_def flat_def paging_enabled_def executor_init_def guest_context_init_def gate_at_def)
  have a: "type_attr (read_gate (ram gate_demo) 0x5100) = 0x8E"
    by (simp add: gate_demo_def read_gate_def st_apply)
  have l: "unat (idtr_limit (ctx gate_demo)) = 0x7FF" by (simp add: gate_demo_def)
  have k: "gate_ok 0x20 gate_demo" using a l unfolding gate_ok_def c(4) by simp
  have s: "12 \<le> unat (reg GP_ESP gate_demo)" "unat (reg GP_ESP gate_demo) \<le> GUEST_RAM_SIZE"
    using c(2) by simp_all
  have f: "eflags (ctx gate_demo) AND 0x1B3000 = 0"
    by (simp add: gate_demo_def executor_init_def guest_context_init_def)
  obtain m1 m2 where m: "deliver_interrupt 0x20 0x1000 None gate_demo = Some m1" "iret_helper m1 = Some m2"
    and v: "virtual_if (ctx m1) \<longleftrightarrow> virtual_if (ctx gate_demo)
         \<and> type_attr (read_gate (ram gate_demo) (gate_at 0x20 gate_demo)) AND 0x0F \<noteq> 0x0E"
    and r: "next_eip (ctx m2) = 0x1000" "virtual_if (ctx m2) = virtual_if (ctx gate_demo)"
    using interrupt_iret [OF c(1) k s f, of "0x1000"] by blast
  have "\<not> virtual_if (ctx m1)" using v unfolding c(4) a by simp
  with m r c(3) show ?thesis by blast
qed

end
