(* ===== verification/String_Ops.thy ===== *)
theory String_Ops
  imports Guest_Memory
begin

text \<open>
  The string instructions MOVS, STOS, LODS, CMPS and SCAS with their repeat prefixes, and the flags of
  a subtraction (\<open>src/src/cpu/jit_helpers.cpp\<close>).
\<close>

section \<open>String instructions\<close>

definition elem_mask :: "nat \<Rightarrow> u32" where
  "elem_mask n = (if n = 1 then 0xFF else if n = 2 then 0xFFFF else 0xFFFFFFFF)"

definition elem_sign :: "nat \<Rightarrow> nat" where
  "elem_sign n = (if n = 1 then 7 else if n = 2 then 15 else 31)"

text \<open>Bit 0 of the folded byte: the parity of the result's low byte.\<close>

definition fold_parity :: "u32 \<Rightarrow> u8" where
  "fold_parity result =
     (let p = ucast result :: u8; p = p XOR drop_bit 4 p; p = p XOR drop_bit 2 p
      in p XOR drop_bit 1 p)"

definition flag_if :: "bool \<Rightarrow> nat \<Rightarrow> u32" where
  "flag_if b i = (if b then push_bit i 1 else 0)"

definition compute_sub_flags :: "u32 \<Rightarrow> u32 \<Rightarrow> nat \<Rightarrow> u32" where
  "compute_sub_flags a b n =
     (let a = a AND elem_mask n; b = b AND elem_mask n;
          result = (a - b) AND elem_mask n;
          sb = elem_sign n;
          sa = drop_bit sb a AND 1; sbb = drop_bit sb b AND 1; sr = drop_bit sb result AND 1
      in flag_if (a < b) 0
         OR flag_if (fold_parity result AND 1 = 0) 2
         OR flag_if ((a XOR b XOR result) AND 0x10 \<noteq> 0) 4
         OR flag_if (result = 0) 6
         OR flag_if (drop_bit sb result AND 1 \<noteq> 0) 7
         OR flag_if (sa \<noteq> sbb \<and> sa \<noteq> sr) 11)"

abbreviation ARITH_FLAGS_MASK :: u32 where "ARITH_FLAGS_MASK \<equiv> 0x8D5"

definition string_dir :: "u32 \<Rightarrow> nat \<Rightarrow> u32" where
  "string_dir fl n = (if fl AND 0x400 \<noteq> 0 then - of_nat n else of_nat n)"

definition add_reg :: "nat \<Rightarrow> u32 \<Rightarrow> machine \<Rightarrow> machine" where
  "add_reg i d m = set_reg i (reg i m + d) m"

text \<open>A repeated element: once, or while ECX is not zero.  No element changes ECX, so the loop runs
  as often as ECX says at the start.\<close>

primrec rep_loop :: "nat \<Rightarrow> (machine \<Rightarrow> machine option) \<Rightarrow> machine \<Rightarrow> machine option" where
  "rep_loop 0 f m = Some m"
| "rep_loop (Suc k) f m = do { m \<leftarrow> f m; rep_loop k f (set_reg GP_ECX (reg GP_ECX m - 1) m) }"

definition repeat_string :: "nat \<Rightarrow> (machine \<Rightarrow> machine option) \<Rightarrow> machine \<Rightarrow> machine option" where
  "repeat_string rep f m = (if rep = 0 then f m else rep_loop (unat (reg GP_ECX m)) f m)"

definition movs_one :: "u32 \<Rightarrow> nat \<Rightarrow> machine \<Rightarrow> machine option" where
  "movs_one fl n m = do {
     (v, m) \<leftarrow> guest_read (reg GP_ESI m) n m;
     m \<leftarrow> guest_write (reg GP_EDI m) v n m;
     Some (add_reg GP_EDI (string_dir fl n) (add_reg GP_ESI (string_dir fl n) m))
   }"

definition string_movs_helper :: "u32 \<Rightarrow> nat \<Rightarrow> nat \<Rightarrow> machine \<Rightarrow> (u32 \<times> machine) option" where
  "string_movs_helper fl n rep m =
     map_option (\<lambda>m. (fl, m)) (repeat_string rep (movs_one fl n) m)"

text \<open>STOS stores the value EAX had when it started.\<close>

definition stos_one :: "u32 \<Rightarrow> u32 \<Rightarrow> nat \<Rightarrow> machine \<Rightarrow> machine option" where
  "stos_one eax fl n m = do {
     m \<leftarrow> guest_write (reg GP_EDI m) eax n m;
     Some (add_reg GP_EDI (string_dir fl n) m)
   }"

definition string_stos_helper :: "u32 \<Rightarrow> nat \<Rightarrow> nat \<Rightarrow> machine \<Rightarrow> (u32 \<times> machine) option" where
  "string_stos_helper fl n rep m =
     map_option (\<lambda>m. (fl, m)) (repeat_string rep (stos_one (reg GP_EAX m) fl n) m)"

text \<open>Element sizes other than 1, 2 and 4 leave EAX alone.\<close>

definition lods_one :: "u32 \<Rightarrow> nat \<Rightarrow> machine \<Rightarrow> machine option" where
  "lods_one fl n m = do {
     (v, m) \<leftarrow> guest_read (reg GP_ESI m) n m;
     let m = (if n = 1 \<or> n = 2 \<or> n = 4 then set_reg GP_EAX (merge_reg n (reg GP_EAX m) v) m else m);
     Some (add_reg GP_ESI (string_dir fl n) m)
   }"

definition string_lods_helper :: "u32 \<Rightarrow> nat \<Rightarrow> nat \<Rightarrow> machine \<Rightarrow> (u32 \<times> machine) option" where
  "string_lods_helper fl n rep m =
     map_option (\<lambda>m. (fl, m)) (repeat_string rep (lods_one fl n) m)"

text \<open>The comparing instructions thread the flags \<open>rf\<close> and stop on ZF.\<close>

definition stop_rep :: "nat \<Rightarrow> u32 \<Rightarrow> bool" where
  "stop_rep rep rf \<longleftrightarrow> (rep = 1 \<and> rf AND 0x40 = 0) \<or> (rep = 2 \<and> rf AND 0x40 \<noteq> 0)"

primrec repc_loop ::
  "nat \<Rightarrow> nat \<Rightarrow> (u32 \<Rightarrow> machine \<Rightarrow> (u32 \<times> machine) option) \<Rightarrow> u32 \<Rightarrow> machine \<Rightarrow> (u32 \<times> machine) option" where
  "repc_loop 0 rep f rf m = Some (rf, m)"
| "repc_loop (Suc k) rep f rf m = do {
     (rf, m) \<leftarrow> f rf m;
     let m = set_reg GP_ECX (reg GP_ECX m - 1) m;
     if stop_rep rep rf then Some (rf, m) else repc_loop k rep f rf m
   }"

definition repeat_compare ::
  "nat \<Rightarrow> (u32 \<Rightarrow> machine \<Rightarrow> (u32 \<times> machine) option) \<Rightarrow> u32 \<Rightarrow> machine \<Rightarrow> (u32 \<times> machine) option" where
  "repeat_compare rep f rf m =
     (if rep = 0 then f rf m else repc_loop (unat (reg GP_ECX m)) rep f rf m)"

definition cmps_one :: "u32 \<Rightarrow> nat \<Rightarrow> u32 \<Rightarrow> machine \<Rightarrow> (u32 \<times> machine) option" where
  "cmps_one fl n rf m = do {
     (s, m) \<leftarrow> guest_read (reg GP_ESI m) n m;
     (d, m) \<leftarrow> guest_read (reg GP_EDI m) n m;
     let rf = (rf AND NOT ARITH_FLAGS_MASK) OR compute_sub_flags s d n;
     Some (rf, add_reg GP_EDI (string_dir fl n) (add_reg GP_ESI (string_dir fl n) m))
   }"

definition string_cmps_helper :: "u32 \<Rightarrow> nat \<Rightarrow> nat \<Rightarrow> machine \<Rightarrow> (u32 \<times> machine) option" where
  "string_cmps_helper fl n rep m = repeat_compare rep (cmps_one fl n) fl m"

definition scas_one :: "u32 \<Rightarrow> u32 \<Rightarrow> nat \<Rightarrow> u32 \<Rightarrow> machine \<Rightarrow> (u32 \<times> machine) option" where
  "scas_one eax fl n rf m = do {
     (d, m) \<leftarrow> guest_read (reg GP_EDI m) n m;
     let s = (if n = 1 then eax AND 0xFF else if n = 2 then eax AND 0xFFFF else if n = 4 then eax else 0);
     let rf = (rf AND NOT ARITH_FLAGS_MASK) OR compute_sub_flags s d n;
     Some (rf, add_reg GP_EDI (string_dir fl n) m)
   }"

definition string_scas_helper :: "u32 \<Rightarrow> nat \<Rightarrow> nat \<Rightarrow> machine \<Rightarrow> (u32 \<times> machine) option" where
  "string_scas_helper fl n rep m = repeat_compare rep (scas_one (reg GP_EAX m) fl n) fl m"


section \<open>The flags of a comparison\<close>

lemma elem_mask_take: "n \<in> {1, 2, 4} \<Longrightarrow> x AND elem_mask n = take_bit (8 * n) x"
  by (auto simp: elem_mask_def take_bit_eq_mask mask_eq_exp_minus_1)

lemma elem_sign_eq: "n \<in> {1, 2, 4} \<Longrightarrow> elem_sign n = 8 * n - 1"
  by (auto simp: elem_sign_def)

lemma bit_flag_if: "bit (flag_if c i) j \<longleftrightarrow> c \<and> i = j \<and> j < 32"
  by (auto simp: flag_if_def bit_exp_iff)

lemma drop_bit_odd: "drop_bit k x AND 1 = (if bit x k then 1 else 0)" for x :: u32
  by (simp add: and_one_eq bit_iff_odd_drop_bit mod_2_eq_odd)

lemma drop_bit_tests:
  fixes x y :: u32
  shows "drop_bit k x AND 1 \<noteq> 0 \<longleftrightarrow> bit x k"
    and "drop_bit k x AND 1 \<noteq> drop_bit k y AND 1 \<longleftrightarrow> bit x k \<noteq> bit y k"
  by (simp_all add: drop_bit_odd)

text \<open>The sign bit of a \<open>k\<close>-bit value.\<close>

lemma top_int:
  fixes U T P :: int
  assumes "U = (if b then P + T else T)" and "0 \<le> T" and "T < P"
  shows "U < 2 * P" and "b \<longleftrightarrow> P \<le> U"
  using assms by (cases b; simp)+

lemma top_bit:
  fixes x :: u32
  assumes "0 < k" and "k \<le> 32" and "take_bit k x = x"
  shows "uint x < 2 ^ k" and "bit x (k - 1) \<longleftrightarrow> 2 ^ (k - 1) \<le> uint x"
proof -
  obtain n where n: "k = Suc n" using assms(1) by (cases k) auto
  have u: "take_bit (Suc n) (uint x) = uint x"
    using assms(3) unfolding n by (metis unsigned_take_bit_eq)
  have s: "uint x = 2 ^ n * of_bool (bit (uint x) n) + take_bit n (uint x)"
    using take_bit_Suc_from_most [of n "uint x"] by (simp add: u)
  have l: "0 \<le> take_bit n (uint x)" "take_bit n (uint x) < 2 ^ n" by simp_all
  have b: "bit x n \<longleftrightarrow> bit (uint x) n" by (auto simp: bit_uint_iff dest: bit_u32)
  have c: "uint x = (if bit x n then 2 ^ n + take_bit n (uint x) else take_bit n (uint x))"
  proof (cases "bit x n")
    case True
    then have "(of_bool (bit (uint x) n) :: int) = 1" using b by simp
    then have "uint x = 2 ^ n * 1 + take_bit n (uint x)" using s by metis
    then show ?thesis using True by (metis mult.right_neutral)
  next
    case False
    then have "(of_bool (bit (uint x) n) :: int) = 0" using b by simp
    then have "uint x = 2 ^ n * 0 + take_bit n (uint x)" using s by metis
    then show ?thesis using False by (metis mult_zero_right add_0)
  qed
  have p: "(2 :: int) ^ k = 2 * 2 ^ n" "k - 1 = n" by (simp_all add: n)
  show "uint x < 2 ^ k" unfolding p by (rule top_int(1) [OF c l])
  show "bit x (k - 1) \<longleftrightarrow> 2 ^ (k - 1) \<le> uint x" unfolding p by (rule top_int(2) [OF c l])
qed

text \<open>The signed value of the low \<open>k\<close> bits.\<close>

definition signed_elem :: "nat \<Rightarrow> u32 \<Rightarrow> int" where
  "signed_elem k x = signed_take_bit (k - 1) (uint x)"

lemma signed_elem_eq:
  assumes "0 < k" and "k \<le> 32"
  shows "signed_elem k x = uint (take_bit k x) - (if bit (take_bit k x) (k - 1) then 2 ^ k else 0)"
  using assms less_le_trans [of "k - 1" k 32]
  by (simp add: signed_elem_def signed_take_bit_eq_take_bit_minus unsigned_take_bit_eq bit_take_bit_iff
      bit_uint_iff)

lemma signs_int:
  fixes X Y P R :: int
  assumes "0 \<le> X" and "X < 2 * P" and "0 \<le> Y" and "Y < 2 * P"
    and "R = (if Y \<le> X then X - Y else X - Y + 2 * P)"
  shows "((P \<le> R) \<noteq> (((P \<le> X) \<noteq> (P \<le> Y)) \<and> (P \<le> X) \<noteq> (P \<le> R)))
    \<longleftrightarrow> X - (if P \<le> X then 2 * P else 0) < Y - (if P \<le> Y then 2 * P else 0)"
  using assms by (cases "P \<le> X"; cases "P \<le> Y"; cases "Y \<le> X") auto

lemma diff_zero_int:
  fixes X Y M R :: int
  assumes "R = (if Y \<le> X then X - Y else X - Y + M)" and "0 \<le> X" and "Y < M"
  shows "R = 0 \<longleftrightarrow> X = Y"
  using assms by (cases "Y \<le> X") auto

lemma sub_signs:
  fixes a b :: u32
  assumes k: "0 < k" "k \<le> 32"
  defines "x \<equiv> take_bit k a" and "y \<equiv> take_bit k b"
  defines "r \<equiv> take_bit k (x - y)"
  shows "r = 0 \<longleftrightarrow> x = y"
    and "(bit r (k - 1) \<noteq> ((bit x (k - 1) \<noteq> bit y (k - 1)) \<and> bit x (k - 1) \<noteq> bit r (k - 1)))
      \<longleftrightarrow> signed_elem k a < signed_elem k b"
proof -
  have tx: "take_bit k x = x" and ty: "take_bit k y = y" and tr: "take_bit k r = r"
    by (simp_all add: x_def y_def r_def)
  note X = top_bit [OF k tx] and Y = top_bit [OF k ty] and R = top_bit [OF k tr]
  have "uint (x - y) = take_bit 32 (uint x - uint y)"
    by (simp add: uint_word_ariths take_bit_eq_mod)
  then have "uint r = take_bit k (take_bit 32 (uint x - uint y))"
    by (simp add: r_def unsigned_take_bit_eq)
  then have "uint r = (uint x - uint y) mod 2 ^ k"
    using k(2) by (simp add: take_bit_take_bit min_absorb1) (simp add: take_bit_eq_mod)
  also have "\<dots> = (if uint y \<le> uint x then uint x - uint y else uint x - uint y + 2 ^ k)"
  proof (cases "uint y \<le> uint x")
    case True
    have "(uint x - uint y) mod 2 ^ k = uint x - uint y"
      using True X(1) uint_ge_0 [of y] by (intro mod_pos_pos_trivial) linarith+
    then show ?thesis using True by simp
  next
    case False
    have "(uint x - uint y) mod 2 ^ k = (uint x - uint y + 2 ^ k) mod 2 ^ k" by simp
    also have "\<dots> = uint x - uint y + 2 ^ k"
      using False Y(1) uint_ge_0 [of x] by (intro mod_pos_pos_trivial) linarith+
    finally show ?thesis using False by simp
  qed
  finally have r: "uint r = (if uint y \<le> uint x then uint x - uint y else uint x - uint y + 2 ^ k)" .
  show "r = 0 \<longleftrightarrow> x = y"
  proof -
    have "r = 0 \<longleftrightarrow> uint r = 0" by (simp only: uint_0_iff)
    also have "\<dots> \<longleftrightarrow> uint x = uint y"
      by (rule diff_zero_int [OF r uint_ge_0 Y(1)])
    also have "\<dots> \<longleftrightarrow> x = y" by (simp only: word_uint_eq_iff)
    finally show ?thesis .
  qed
  define P :: int where "P = 2 ^ (k - 1)"
  have p: "(2 :: int) ^ k = 2 * P" using k(1) unfolding P_def by (cases k) simp_all
  show "(bit r (k - 1) \<noteq> ((bit x (k - 1) \<noteq> bit y (k - 1)) \<and> bit x (k - 1) \<noteq> bit r (k - 1)))
      \<longleftrightarrow> signed_elem k a < signed_elem k b"
    unfolding signed_elem_eq [OF k] x_def [symmetric] y_def [symmetric] X(2) Y(2) R(2) p P_def [symmetric]
    by (rule signs_int [OF uint_ge_0 X(1) [unfolded p] uint_ge_0 Y(1) [unfolded p] r [unfolded p]])
qed

text \<open>The flags of CMPS and SCAS compare the low \<open>8 n\<close> bits of their operands: ZF is equality, CF the
  unsigned order, SF different from OF the signed order, and no flag outside the arithmetic six is
  touched.\<close>
theorem compute_sub_flags_compare:
  assumes "n \<in> {1, 2, 4}"
  shows "(bit (compute_sub_flags a b n) 6 \<longleftrightarrow> take_bit (8 * n) a = take_bit (8 * n) b)
    \<and> (bit (compute_sub_flags a b n) 0 \<longleftrightarrow> take_bit (8 * n) a < take_bit (8 * n) b)
    \<and> (bit (compute_sub_flags a b n) 7 \<noteq> bit (compute_sub_flags a b n) 11
        \<longleftrightarrow> signed_elem (8 * n) a < signed_elem (8 * n) b)
    \<and> compute_sub_flags a b n AND NOT ARITH_FLAGS_MASK = 0"
proof -
  define x where "x = take_bit (8 * n) a"
  define y where "y = take_bit (8 * n) b"
  define r where "r = take_bit (8 * n) (x - y)"
  have k: "0 < 8 * n" "8 * n \<le> 32" using assms by auto
  note s = sub_signs [OF k, of a b, folded x_def y_def, folded r_def]
  have f: "bit (compute_sub_flags a b n) j \<longleftrightarrow> (x < y \<and> 0 = j \<and> j < 32)
      \<or> (fold_parity r AND 1 = 0 \<and> 2 = j \<and> j < 32)
      \<or> ((x XOR y XOR r) AND 0x10 \<noteq> 0 \<and> 4 = j \<and> j < 32) \<or> (r = 0 \<and> 6 = j \<and> j < 32)
      \<or> (bit r (8 * n - 1) \<and> 7 = j \<and> j < 32)
      \<or> (((bit x (8 * n - 1) \<noteq> bit y (8 * n - 1)) \<and> bit x (8 * n - 1) \<noteq> bit r (8 * n - 1)) \<and> 11 = j \<and> j < 32)" for j
    unfolding compute_sub_flags_def Let_def elem_mask_take [OF assms] x_def [symmetric] y_def [symmetric]
      r_def [symmetric] elem_sign_eq [OF assms] drop_bit_tests
    by (simp only: bit_or_iff bit_flag_if disj_assoc)
  have m: "compute_sub_flags a b n AND NOT ARITH_FLAGS_MASK = 0"
  proof (rule bit_word_eqI)
    fix j :: nat
    have "bit (compute_sub_flags a b n) j \<Longrightarrow> j \<in> {0, 2, 4, 6, 7, 11}" unfolding f by blast
    then show "bit (compute_sub_flags a b n AND NOT ARITH_FLAGS_MASK) j = bit (0 :: u32) j"
      by (auto simp: bit_and_iff bit_not_iff)
  qed
  show ?thesis using m s by (simp add: f x_def [symmetric] y_def [symmetric])
qed

theorem compute_sub_flags_compare_witness:
  "signed_elem 8 0x1FF < signed_elem 8 0 \<and> \<not> bit (compute_sub_flags 0x1FF 0 1) 0"
proof -
  have "signed_elem 8 0x1FF < signed_elem 8 0" by code_simp
  then show ?thesis using compute_sub_flags_compare [of 1 "0x1FF" 0] by simp
qed

section \<open>REP STOS and REP MOVS without paging\<close>

lemma upward: "\<not> bit fl 10 \<Longrightarrow> string_dir fl n = of_nat n"
  using tst_exp [of fl 10] by (simp add: string_dir_def)

text \<open>One element moves the index registers up and changes \<open>n\<close> bytes of memory.\<close>

definition string_step :: "bytes \<Rightarrow> nat list \<Rightarrow> nat \<Rightarrow> machine \<Rightarrow> machine" where
  "string_step b rs n m = fold (\<lambda>r. add_reg r (of_nat n)) rs (set_mem b m)"

lemma add_reg_simps [simp]:
  "ram (add_reg r d m) = ram m" "flat (add_reg r d m) = flat m"
  "reg q (add_reg r d m) = (if q = r then reg r m + d else reg q m)"
  by (simp_all add: add_reg_def)

lemma stos_one_flat:
  assumes "flat m" and "\<not> bit fl 10" and "in_ram (reg GP_EDI m) n"
  shows "stos_one eax fl n m =
    Some (string_step (st n (ram m) (unat (reg GP_EDI m)) eax) [GP_EDI] n m)"
  using guest_write_flat [OF assms(1,3)] upward [OF assms(2)] by (simp add: stos_one_def string_step_def)

lemma movs_one_flat:
  assumes "flat m" and "\<not> bit fl 10" and "in_ram (reg GP_ESI m) n" and "in_ram (reg GP_EDI m) n"
  shows "movs_one fl n m =
    Some (string_step (st n (ram m) (unat (reg GP_EDI m)) (ld n (ram m) (unat (reg GP_ESI m)))) [GP_ESI, GP_EDI] n m)"
  using guest_read_flat [OF assms(1,3)] guest_write_flat [OF assms(1,4)] upward [OF assms(2)]
  by (simp add: movs_one_def string_step_def)

lemma string_step_simps [simp]:
  "ram (string_step b rs n m) = b" "flat (string_step b rs n m) = flat m"
  by (induction rs arbitrary: b m rule: rev_induct) (simp_all add: string_step_def)

text \<open>Storing what was loaded copies the bytes.\<close>

lemma st_ld:
  assumes "n \<le> 4"
  shows "st n m d (ld n m s) i = (if d \<le> i \<and> i < d + n then m (s + (i - d)) else m i)"
proof (cases "d \<le> i \<and> i < d + n")
  case True
  define j where "j = i - d"
  have j: "j < n" using True by (auto simp: j_def)
  have "ucast (drop_bit (8 * j) (ld n m s)) = m (s + j)"
  proof (rule bit_eqI8)
    fix k :: nat
    assume "k < 8"
    then have "(8 * j + k) div 8 = j" "(8 * j + k) mod 8 = k" by simp_all
    then show "bit (ucast (drop_bit (8 * j) (ld n m s)) :: u8) k = bit (m (s + j)) k"
      using \<open>k < 8\<close> j assms by (simp add: bit_ucast_iff bit_drop_bit_eq bit_ld)
  qed
  then show ?thesis using True by (simp add: st_apply j_def)
next
  case False
  then show ?thesis by (simp only: st_apply if_False)
qed

lemma unat_add_nat: "unat (a :: u32) + n \<le> GUEST_RAM_SIZE \<Longrightarrow> unat (a + of_nat n) = unat a + n"
  by (rule unat_add_small) simp_all

lemma rep_stos:
  assumes "flat m" and "\<not> bit fl 10" and "0 < n" and "unat (reg GP_EDI m) + n * k \<le> GUEST_RAM_SIZE"
  defines "d \<equiv> unat (reg GP_EDI m)"
  shows "\<exists>m'. rep_loop k (stos_one eax fl n) m = Some m'
    \<and> reg GP_ECX m' = reg GP_ECX m - of_nat k \<and> reg GP_EDI m' = reg GP_EDI m + of_nat (n * k)
    \<and> (\<forall>i. ram m' i = (if d \<le> i \<and> i < d + n * k
          then ucast (drop_bit (8 * ((i - d) mod n)) eax) else ram m i))"
  using assms(1,4) unfolding d_def
proof (induction k arbitrary: m)
  case (Suc k)
  define a where "a = unat (reg GP_EDI m)"
  define b where "b = st n (ram m) a eax"
  define m1 where "m1 = set_reg GP_ECX (reg GP_ECX m - 1) (string_step b [GP_EDI] n m)"
  have in1: "in_ram (reg GP_EDI m) n" using Suc.prems(2) assms(3) by (simp add: in_ram_def)
  have c1: "flat m1" "ram m1 = b" "reg GP_ECX m1 = reg GP_ECX m - 1" "reg GP_EDI m1 = reg GP_EDI m + of_nat n"
    using Suc.prems(1) by (simp_all add: m1_def) (simp_all add: string_step_def)
  have u: "unat (reg GP_EDI m1) = a + n"
    using unat_add_nat [of "reg GP_EDI m" n] Suc.prems(2) by (simp add: c1 a_def)
  have "unat (reg GP_EDI m1) + n * k \<le> GUEST_RAM_SIZE" using Suc.prems(2) u by (simp add: a_def)
  from Suc.IH [OF c1(1) this] obtain m' where m': "rep_loop k (stos_one eax fl n) m1 = Some m'"
    "reg GP_ECX m' = reg GP_ECX m1 - of_nat k" "reg GP_EDI m' = reg GP_EDI m1 + of_nat (n * k)"
    "\<And>i. ram m' i = (if a + n \<le> i \<and> i < a + n + n * k
          then ucast (drop_bit (8 * ((i - (a + n)) mod n)) eax) else b i)"
    unfolding u c1(2) by blast
  have run: "rep_loop (Suc k) (stos_one eax fl n) m = Some m'"
    using stos_one_flat [OF Suc.prems(1) assms(2) in1] m'(1) by (simp add: m1_def b_def a_def)
      (simp add: string_step_def)
  have "ram m' i = (if a \<le> i \<and> i < a + n * Suc k then ucast (drop_bit (8 * ((i - a) mod n)) eax) else ram m i)" for i
  proof (cases "i < a + n")
    case True
    then show ?thesis by (auto simp: m'(4) b_def st_apply)
  next
    case False
    then have "(i - a) mod n = (i - (a + n)) mod n" by (simp add: le_mod_geq)
    then show ?thesis using False by (auto simp: m'(4) b_def st_apply)
  qed
  then show ?case using run m'(2,3) c1 by (intro exI [of _ m']) (simp add: a_def algebra_simps)
qed auto

text \<open>A forward copy is right when it does not overtake its source.\<close>

lemma rep_movs:
  assumes "flat m" and "\<not> bit fl 10" and "0 < n" and "n \<le> 4"
    and "unat (reg GP_ESI m) + n * k \<le> GUEST_RAM_SIZE" and "unat (reg GP_EDI m) + n * k \<le> GUEST_RAM_SIZE"
    and "unat (reg GP_EDI m) \<le> unat (reg GP_ESI m) \<or> unat (reg GP_ESI m) + n * k \<le> unat (reg GP_EDI m)"
  defines "s \<equiv> unat (reg GP_ESI m)" and "d \<equiv> unat (reg GP_EDI m)"
  shows "\<exists>m'. rep_loop k (movs_one fl n) m = Some m'
    \<and> reg GP_ECX m' = reg GP_ECX m - of_nat k
    \<and> reg GP_ESI m' = reg GP_ESI m + of_nat (n * k) \<and> reg GP_EDI m' = reg GP_EDI m + of_nat (n * k)
    \<and> (\<forall>i. ram m' i = (if d \<le> i \<and> i < d + n * k then ram m (s + (i - d)) else ram m i))"
  using assms(1,5-7) unfolding s_def d_def
proof (induction k arbitrary: m)
  case (Suc k)
  define s where "s = unat (reg GP_ESI m)"
  define d where "d = unat (reg GP_EDI m)"
  define b where "b = st n (ram m) d (ld n (ram m) s)"
  have b: "b i = (if d \<le> i \<and> i < d + n then ram m (s + (i - d)) else ram m i)" for i
    unfolding b_def by (rule st_ld) (rule assms(4))
  define m1 where "m1 = set_reg GP_ECX (reg GP_ECX m - 1) (string_step b [GP_ESI, GP_EDI] n m)"
  have in1: "in_ram (reg GP_ESI m) n" "in_ram (reg GP_EDI m) n"
    using Suc.prems(2,3) assms(3) by (simp_all add: in_ram_def)
  have c1: "flat m1" "ram m1 = b" "reg GP_ECX m1 = reg GP_ECX m - 1" "reg GP_ESI m1 = reg GP_ESI m + of_nat n"
    "reg GP_EDI m1 = reg GP_EDI m + of_nat n"
    using Suc.prems(1) by (simp_all add: m1_def) (simp_all add: string_step_def)
  have u: "unat (reg GP_ESI m1) = s + n" "unat (reg GP_EDI m1) = d + n"
    using unat_add_nat [of "reg GP_ESI m" n] unat_add_nat [of "reg GP_EDI m" n] Suc.prems(2,3)
    by (simp_all add: c1 s_def d_def)
  have fits: "s + n + n * k \<le> GUEST_RAM_SIZE" "d + n + n * k \<le> GUEST_RAM_SIZE"
    "d + n \<le> s + n \<or> s + n + n * k \<le> d + n"
    using Suc.prems(2-4) by (simp_all add: s_def d_def) linarith?
  obtain m' where m': "rep_loop k (movs_one fl n) m1 = Some m'" "reg GP_ECX m' = reg GP_ECX m1 - of_nat k"
    "reg GP_ESI m' = reg GP_ESI m1 + of_nat (n * k)" "reg GP_EDI m' = reg GP_EDI m1 + of_nat (n * k)"
    "\<And>i. ram m' i = (if d + n \<le> i \<and> i < d + n + n * k then b (s + n + (i - (d + n))) else b i)"
    using Suc.IH [OF c1(1)] fits unfolding u c1(2) by blast
  have run: "rep_loop (Suc k) (movs_one fl n) m = Some m'"
    using movs_one_flat [OF Suc.prems(1) assms(2) in1] m'(1) by (simp add: m1_def b_def s_def d_def)
      (simp add: string_step_def)
  have "ram m' i = (if d \<le> i \<and> i < d + n * Suc k then ram m (s + (i - d)) else ram m i)" for i
  proof (cases "d + n \<le> i \<and> i < d + n + n * k")
    case True
    then have "\<not> (d \<le> s + (i - d) \<and> s + (i - d) < d + n)"
      using Suc.prems(4) by (auto simp: s_def [symmetric] d_def [symmetric])
    moreover have "s + n + (i - (d + n)) = s + (i - d)" using True by simp
    ultimately show ?thesis using True by (auto simp: m'(5) b)
  next
    case False
    then show ?thesis by (auto simp: m'(5) b)
  qed
  then show ?case using run m'(2-4) c1 by (intro exI [of _ m']) (simp add: s_def d_def algebra_simps)
qed auto

text \<open>C27: Without paging, with the direction flag clear and the regions in memory, REP STOS fills the
  destination with ECX copies of the low bytes of EAX, and REP MOVS moves ECX elements to a destination
  that does not start inside the source behind its first byte; both end with ECX zero and the index
  registers past the last element, and change no other byte.\<close>
theorem rep_string:
  assumes "flat m" and "\<not> bit fl 10" and "n \<in> {1, 2, 4}" and "k = n * unat (reg GP_ECX m)"
    and "s = unat (reg GP_ESI m)" and "d = unat (reg GP_EDI m)"
    and "s + k \<le> GUEST_RAM_SIZE" and "d + k \<le> GUEST_RAM_SIZE" and "d \<le> s \<or> s + k \<le> d"
  shows "\<exists>m1 m2. string_stos_helper fl n 1 m = Some (fl, m1) \<and> string_movs_helper fl n 1 m = Some (fl, m2)
    \<and> reg GP_ECX m1 = 0 \<and> reg GP_ECX m2 = 0 \<and> reg GP_EDI m1 = reg GP_EDI m + of_nat k
    \<and> reg GP_EDI m2 = reg GP_EDI m + of_nat k \<and> reg GP_ESI m2 = reg GP_ESI m + of_nat k
    \<and> (\<forall>i. ram m1 i = (if d \<le> i \<and> i < d + k
          then ucast (drop_bit (8 * ((i - d) mod n)) (reg GP_EAX m)) else ram m i))
    \<and> (\<forall>i. ram m2 i = (if d \<le> i \<and> i < d + k then ram m (s + (i - d)) else ram m i))"
proof -
  have n: "0 < n" "n \<le> 4" using assms(3) by auto
  have k: "of_nat (unat (reg GP_ECX m)) = reg GP_ECX m" by simp
  from rep_stos [OF assms(1,2) n(1), of "unat (reg GP_ECX m)" "reg GP_EAX m"]
  obtain m1 where m1: "rep_loop (unat (reg GP_ECX m)) (stos_one (reg GP_EAX m) fl n) m = Some m1"
    "reg GP_ECX m1 = 0" "reg GP_EDI m1 = reg GP_EDI m + of_nat k"
    "\<forall>i. ram m1 i = (if d \<le> i \<and> i < d + k
          then ucast (drop_bit (8 * ((i - d) mod n)) (reg GP_EAX m)) else ram m i)"
    using assms(4,6,8) k by auto
  from rep_movs [OF assms(1,2) n, of "unat (reg GP_ECX m)"]
  obtain m2 where m2: "rep_loop (unat (reg GP_ECX m)) (movs_one fl n) m = Some m2"
    "reg GP_ECX m2 = 0" "reg GP_ESI m2 = reg GP_ESI m + of_nat k" "reg GP_EDI m2 = reg GP_EDI m + of_nat k"
    "\<forall>i. ram m2 i = (if d \<le> i \<and> i < d + k then ram m (s + (i - d)) else ram m i)"
    using assms(4-9) k by auto
  show ?thesis using m1 m2
    by (simp add: string_stos_helper_def string_movs_helper_def repeat_string_def)
qed

definition string_demo :: machine where
  "string_demo = set_mem ((\<lambda>_. 0)(0x2000 := 0x11, 0x2001 := 0x22))
     (set_reg GP_ECX 2 (set_reg GP_ESI 0x2000 (set_reg GP_EDI 0x1000 (executor_init False))))"

theorem rep_string_witness:
  "\<exists>m2. string_movs_helper 0 1 1 string_demo = Some (0, m2) \<and> ram m2 0x1001 = 0x22 \<and> reg GP_ECX m2 = 0"
proof -
  have r: "ram string_demo = (\<lambda>_. 0)(0x2000 := 0x11, 0x2001 := 0x22)"
    "reg GP_ECX string_demo = 2" "reg GP_ESI string_demo = 0x2000" "reg GP_EDI string_demo = 0x1000" "flat string_demo"
    by (simp_all add: string_demo_def flat_init)
  obtain m2 where m2: "string_movs_helper 0 1 1 string_demo = Some (0, m2)" "reg GP_ECX m2 = 0"
    "\<forall>i. ram m2 i = (if 0x1000 \<le> i \<and> i < 0x1000 + 2 then ram string_demo (0x2000 + (i - 0x1000)) else ram string_demo i)"
    using rep_string [OF r(5), of 0 1 2 "0x2000" "0x1000"] r(2-4) by auto
  have "ram m2 0x1001 = 0x22" unfolding m2(3) [rule_format] r(1) by simp
  with m2 show ?thesis by blast
qed

end
