(* ===== verification/Block_Copy.thy ===== *)
theory Block_Copy
  imports Guest_Memory
begin

text \<open>
  Block copies between the host and guest virtual memory (\<open>read_guest_block\<close> and \<open>write_guest_block\<close> of
  \<open>src/src/cpu/executor.cpp\<close>), page by page through translation.  The host buffer is the list of bytes
  copied so far; the size is a number below \<open>2 ^ 32\<close>.
\<close>

section \<open>The copies\<close>

text \<open>The executor's translation of an address: as it is without paging, \<open>None\<close> inside the result for a
  fault.\<close>

definition exec_translate :: "u32 \<Rightarrow> bool \<Rightarrow> machine \<Rightarrow> (u32 option \<times> machine) option" where
  "exec_translate va w m =
     (if paging_enabled m
      then map_option (\<lambda>(pa, m). (if pa = PA_FAULT then None else Some pa, m)) (translate_va va w m)
      else Some (Some va, m))"

text \<open>What is left of the page at an address, at most \<open>n\<close>.\<close>

definition page_chunk :: "u32 \<Rightarrow> nat \<Rightarrow> nat" where
  "page_chunk pa n = (let page_remain = unat (GUEST_PAGE_SIZE - (pa AND (GUEST_PAGE_SIZE - 1))) in
     if n < page_remain then n else page_remain)"

lemma page_offset: "unat (pa AND (GUEST_PAGE_SIZE - 1)) = unat pa mod 4096" for pa :: u32
  using unat_and_mask [of pa 12] by (simp add: mask_eq_exp_minus_1)

lemma page_chunk_eq: "page_chunk pa n = min n (4096 - unat pa mod 4096)"
proof -
  have "unat (GUEST_PAGE_SIZE - (pa AND (GUEST_PAGE_SIZE - 1))) = 4096 - unat pa mod 4096"
    by (subst unat_sub) (simp_all only: word_le_nat_alt page_offset, simp_all)
  then show ?thesis by (simp add: page_chunk_def Let_def min_def)
qed

lemma page_chunk_bounds: "page_chunk pa n \<le> n" "0 < n \<Longrightarrow> 0 < page_chunk pa n"
  by (simp_all add: page_chunk_eq)

function read_guest_block :: "u32 \<Rightarrow> nat \<Rightarrow> machine \<Rightarrow> (bool \<times> u8 list \<times> machine) option" where
  "read_guest_block va n m =
     (if n = 0 then Some (True, [], m)
      else case exec_translate va False m of
        None \<Rightarrow> None
      | Some (None, m) \<Rightarrow> Some (False, [], m)
      | Some (Some pa, m) \<Rightarrow>
          if GUEST_RAM_SIZE \<le> unat pa then Some (False, [], m)
          else let chunk = page_chunk pa n in
            if GUEST_RAM_SIZE < unat pa + chunk then None
            else map_option (\<lambda>(ok, bs, m'). (ok, get_list chunk (ram m) (unat pa) @ bs, m'))
              (read_guest_block (va + of_nat chunk) (n - chunk) m))"
  by pat_completeness auto
termination
proof (relation "measure (\<lambda>(_, n, _). n)")
  fix va :: u32 and n chunk :: nat and m m' :: machine and r p pa
  assume "n \<noteq> 0" "chunk = page_chunk pa n"
  then show "((va + of_nat chunk, n - chunk, m'), va, n, m) \<in> measure (\<lambda>(_, n, _). n)"
    using page_chunk_bounds [where pa = pa and n = n] by simp
qed simp

function write_guest_block :: "u32 \<Rightarrow> u8 list \<Rightarrow> machine \<Rightarrow> (bool \<times> machine) option" where
  "write_guest_block va buf m =
     (if buf = [] then Some (True, m)
      else case exec_translate va True m of
        None \<Rightarrow> None
      | Some (None, m) \<Rightarrow> Some (False, m)
      | Some (Some pa, m) \<Rightarrow>
          if GUEST_RAM_SIZE \<le> unat pa then Some (False, m)
          else let chunk = page_chunk pa (length buf) in
            if GUEST_RAM_SIZE < unat pa + chunk then None
            else write_guest_block (va + of_nat chunk) (drop chunk buf)
              (set_mem (put_list (take chunk buf) (ram m) (unat pa)) m))"
  by pat_completeness auto
termination
proof (relation "measure (\<lambda>(_, buf, _). length buf)")
  fix va :: u32 and buf :: "u8 list" and chunk :: nat and m m' :: machine and r p pa
  assume "buf \<noteq> []" "chunk = page_chunk pa (length buf)"
  then show "((va + of_nat chunk, drop chunk buf, set_mem (put_list (take chunk buf) (ram m') (unat pa)) m'), va, buf, m)
      \<in> measure (\<lambda>(_, buf, _). length buf)"
    using page_chunk_bounds [where pa = pa and n = "length buf"] by simp
qed simp

declare read_guest_block.simps [simp del] write_guest_block.simps [simp del]

text \<open>A chunk stays inside the page, hence inside memory.\<close>

lemma chunk_in_ram:
  assumes "unat pa < GUEST_RAM_SIZE"
  shows "unat pa + page_chunk pa n \<le> GUEST_RAM_SIZE"
proof -
  define q r where "q = unat pa div 4096" and "r = unat pa mod 4096"
  have "q < 32768" "r < 4096" "unat pa = 4096 * q + r"
    using assms by (simp_all add: q_def r_def less_mult_imp_div_less)
  moreover have "page_chunk pa n \<le> 4096 - r" by (simp add: page_chunk_eq r_def)
  ultimately show ?thesis by linarith
qed

lemma get_list_append: "get_list (a + b) m x = get_list a m x @ get_list b m (x + a)"
  by (rule nth_equalityI) (auto simp: get_list_def nth_append)

lemma put_list_append: "put_list (xs @ ys) m a = put_list ys (put_list xs m a) (a + length xs)"
  by (induction xs arbitrary: m a) simp_all

section \<open>Without paging\<close>

lemma exec_translate_flat: "flat m \<Longrightarrow> exec_translate va w m = Some (Some va, m)"
  by (simp add: exec_translate_def flat_def)

lemma next_chunk_unat:
  "unat va + n \<le> GUEST_RAM_SIZE \<Longrightarrow> unat (va + of_nat (page_chunk va n)) = unat va + page_chunk va n"
  using page_chunk_bounds(1) [of va n] by (intro unat_add_small) simp_all

lemma read_block_flat:
  assumes "flat m" and "unat va + n \<le> GUEST_RAM_SIZE"
  shows "read_guest_block va n m = Some (True, get_list n (ram m) (unat va), m)"
  using assms
proof (induction n arbitrary: va rule: less_induct)
  case (less n)
  show ?case
  proof (cases "n = 0")
    case True
    then show ?thesis by (simp add: read_guest_block.simps get_list_def)
  next
    case False
    define c where "c = page_chunk va n"
    have c: "0 < c" "c \<le> n" using page_chunk_bounds [where pa = va and n = n] False by (auto simp: c_def)
    have u: "unat (va + of_nat c) = unat va + c" using next_chunk_unat [OF less.prems(2)] by (simp add: c_def)
    have "read_guest_block (va + of_nat c) (n - c) m = Some (True, get_list (n - c) (ram m) (unat va + c), m)"
      using less.IH [of "n - c" "va + of_nat c"] less.prems c u by simp
    moreover have "get_list n (ram m) (unat va) = get_list c (ram m) (unat va) @ get_list (n - c) (ram m) (unat va + c)"
      using get_list_append [of c "n - c"] c by simp
    ultimately show ?thesis
      using False less.prems c
      by (subst read_guest_block.simps) (simp add: exec_translate_flat Let_def c_def [symmetric])
  qed
qed

lemma write_block_flat:
  assumes "flat m" and "unat va + length bs \<le> GUEST_RAM_SIZE"
  shows "write_guest_block va bs m = Some (True, set_mem (put_list bs (ram m) (unat va)) m)"
  using assms
proof (induction "length bs" arbitrary: va bs m rule: less_induct)
  case less
  show ?case
  proof (cases "bs = []")
    case True
    then show ?thesis by (simp add: write_guest_block.simps)
  next
    case False
    define c where "c = page_chunk va (length bs)"
    define m1 where "m1 = set_mem (put_list (take c bs) (ram m) (unat va)) m"
    have c: "0 < c" "c \<le> length bs"
      using page_chunk_bounds [where pa = va and n = "length bs"] False by (auto simp: c_def)
    have u: "unat (va + of_nat c) = unat va + c" using next_chunk_unat [OF less.prems(2)] by (simp add: c_def)
    have "write_guest_block (va + of_nat c) (drop c bs) m1 =
        Some (True, set_mem (put_list (drop c bs) (ram m1) (unat va + c)) m1)"
      using less.hyps [of "drop c bs" m1 "va + of_nat c"] less.prems c u by (simp add: m1_def)
    moreover have "put_list bs (ram m) (unat va) = put_list (drop c bs) (ram m1) (unat va + c)"
      using put_list_append [of "take c bs" "drop c bs" "ram m" "unat va"] c by (simp add: m1_def)
    ultimately show ?thesis
      using False less.prems c
      by (subst write_guest_block.simps)
        (simp add: exec_translate_flat Let_def c_def [symmetric] m1_def)
  qed
qed

section \<open>With paging\<close>

text \<open>Bytes that may differ in the accessed and dirty bits.\<close>

lemma same_but_ad_byte:
  assumes "same_but_ad m m'"
  shows "m' k OR 0x60 = m k OR 0x60"
proof (rule bit_eqI8)
  fix n :: nat
  assume n: "n < 8"
  define a j where "a = 4 * (k div 4)" and "j = 8 * (k mod 4) + n"
  have jd: "j div 8 = k mod 4" "j mod 8 = n" using n by (simp_all add: j_def)
  have b: "bit (ld 4 x a) j = bit (x k) n" for x
  proof -
    have "j < 32" "j div 8 < 4" using n jd by (simp_all add: j_def)
    moreover have "a + k mod 4 = k" by (simp add: a_def)
    ultimately show ?thesis unfolding bit_ld jd by simp
  qed
  show "bit (m' k OR 0x60) n = bit (m k OR 0x60) n"
  proof (cases "n = 5 \<or> n = 6")
    case True
    then show ?thesis by (auto simp: bit_or_iff)
  next
    case False
    then have "j \<noteq> 5" "j \<noteq> 6" using False jd(2) by auto
    then have "bit (m' k) n = bit (m k) n"
      using assms b [of m] b [of m'] by (simp add: same_but_ad_def a_def)
    then show ?thesis by (simp add: bit_or_iff)
  qed
qed

text \<open>The byte \<open>x\<close> that was read at \<open>k\<close>: the one in memory, but for the accessed and dirty bits where \<open>k\<close>
  is the address of a page-table entry can be, the first byte of an aligned double word.\<close>

definition read_as :: "bytes \<Rightarrow> nat \<Rightarrow> u8 \<Rightarrow> bool" where
  "read_as m k x \<longleftrightarrow> (if 4 dvd k then x OR 0x60 = m k OR 0x60 else x = m k)"

lemma same_but_ad_read:
  assumes "same_but_ad m m'"
  shows "read_as m k (m' k)"
proof (cases "4 dvd k")
  case True
  then show ?thesis using same_but_ad_byte [OF assms] by (simp add: read_as_def)
next
  case False
  have "m' k = m k"
  proof (rule bit_eqI8)
    fix n :: nat
    assume n: "n < 8"
    define a j where "a = 4 * (k div 4)" and "j = 8 * (k mod 4) + n"
    have k: "0 < k mod 4" "a + k mod 4 = k" using False by (simp_all add: dvd_eq_mod_eq_0 a_def)
    have j: "j div 8 = k mod 4" "j mod 8 = n" "j < 32" "8 \<le> j" using n k(1) by (simp_all add: j_def)
    have b: "bit (ld 4 x a) j = bit (x k) n" for x
      using j k(2) unfolding bit_ld by simp
    have "bit (ld 4 m' a) j = bit (ld 4 m a) j"
      using assms j(4) by (simp add: same_but_ad_def a_def)
    then show "bit (m' k) n = bit (m k) n" by (simp only: b)
  qed
  then show ?thesis using False by (simp add: read_as_def)
qed

text \<open>Within a page the translation of the next address is the next address.\<close>

lemma unat_or_offset:
  fixes p v :: u32
  assumes "take_bit 12 p = 0"
  shows "unat (p OR take_bit 12 v) = unat p + unat v mod 4096"
proof -
  have "p AND take_bit 12 v = 0"
  proof (rule bit_eqI32)
    fix n :: nat
    show "bit (p AND take_bit 12 v) n = bit 0 n"
      using arg_cong [OF assms, of "\<lambda>x. bit x n"] by (auto simp: bit_and_iff bit_take_bit_iff)
  qed
  then have "p OR take_bit 12 v = p + take_bit 12 v" by (simp only: disjunctive_add_eq_or)
  moreover have t: "unat (take_bit 12 v) = unat v mod 4096" using unat_and_mask [of v 12] by (simp add: take_bit_eq_mask)
  moreover have "unat p + unat v mod 4096 < 4294967296"
    using aligned_unat(2) [OF assms] mod_less_divisor [of 4096 "unat v"] by linarith
  ultimately show ?thesis by (simp add: unat_word_ariths(1))
qed

lemma page_step:
  fixes a i :: nat
  assumes "a mod 4096 + i < 4096"
  shows "(a + i) div 4096 = a div 4096" and "(a + i) mod 4096 = a mod 4096 + i"
proof -
  have e: "a + i = (a mod 4096 + i) + 4096 * (a div 4096)" using mod_mult_div_eq [of a 4096] by linarith
  show "(a + i) div 4096 = a div 4096" using assms div_mult_self2 [of 4096 "a mod 4096 + i" "a div 4096"] by (simp only: e [symmetric])
  show "(a + i) mod 4096 = a mod 4096 + i" using assms mod_mult_self2 [of "a mod 4096 + i" 4096 "a div 4096"] by (simp only: e [symmetric]) simp
qed

lemma pt_lookup_next:
  assumes "pt_lookup c m va w = Some pa" and "unat va mod 4096 + i < 4096"
  shows "pt_lookup c m (va + of_nat i) w = Some (pa + of_nat i)"
    and "unat (pa + of_nat i) = unat pa + i" and "unat pa mod 4096 = unat va mod 4096"
proof -
  obtain p where p: "pt_page c m w (vpn_of va) = Some p" and pa: "pa = p OR take_bit 12 va"
    using assms(1) by (auto simp: pt_lookup_page)
  note al = pt_page_aligned [OF p]
  have upa: "unat pa = unat p + unat va mod 4096" using unat_or_offset [OF al] pa by simp
  have wrap: "unat x + i < 4294967296" if "unat x mod 4096 = unat va mod 4096" for x :: u32
  proof -
    have "unat x div 4096 < 1048576" by (simp add: less_mult_imp_div_less)
    then show ?thesis using that assms(2) div_mult_mod_eq [of "unat x" 4096] by linarith
  qed
  have uva: "unat (va + of_nat i) = unat va + i" using wrap [of va] assms(2) by (intro unat_add_small) simp_all
  show m: "unat pa mod 4096 = unat va mod 4096"
    using aligned_unat(1) [OF al] upa by (auto elim!: dvdE)
  show un: "unat (pa + of_nat i) = unat pa + i"
    using wrap [OF m] assms(2) by (intro unat_add_small) simp_all
  have "(unat va + i) div 4096 = unat va div 4096"
    by (rule page_step(1) [OF assms(2)])
  then have "drop_bit 12 (va + of_nat i) = drop_bit 12 va"
    by (simp only: word_unat_eq_iff unat_drop_bit_eq uva) (simp add: drop_bit_eq_div)
  then have v: "vpn_of (va + of_nat i) = vpn_of va" by (simp add: vpn_of_def)
  have "(unat va + i) mod 4096 = unat va mod 4096 + i"
    by (rule page_step(2) [OF assms(2)])
  then have "p OR take_bit 12 (va + of_nat i) = pa + of_nat i"
    by (simp only: word_unat_eq_iff unat_or_offset [OF al] un upa uva)
  then show "pt_lookup c m (va + of_nat i) w = Some (pa + of_nat i)"
    using p by (simp add: pt_lookup_page v)
qed

lemma exec_translate_paged:
  assumes "paging_enabled m" and "tlb_sound (cr3 (ctx m)) (ram m) (tlb m)"
    and "exec_translate va w m = Some (r, m')"
  shows "(case r of Some pa \<Rightarrow> pt_lookup (cr3 (ctx m)) (ram m) va w = Some pa
        | None \<Rightarrow> \<forall>pa. pt_lookup (cr3 (ctx m)) (ram m) va w = Some pa \<longrightarrow> pa = PA_FAULT)
    \<and> same_but_ad (ram m) (ram m') \<and> tlb_sound (cr3 (ctx m)) (ram m') (tlb m')
    \<and> cr3 (ctx m') = cr3 (ctx m) \<and> paging_enabled m'"
proof -
  obtain pa where t: "translate_va va w m = Some (pa, m')" and r: "r = (if pa = PA_FAULT then None else Some pa)"
    using assms(1,3) by (auto simp: exec_translate_def)
  show ?thesis
    using translate_va_spec [OF assms(2) t] r assms(1)
    by (auto simp: paging_enabled_def split: option.splits)
qed

lemma read_block_paged_ad:
  assumes "paging_enabled m" and "tlb_sound (cr3 (ctx m)) (ram m) (tlb m)"
    and "same_but_ad b (ram m)" and "read_guest_block va n m = Some (ok, bs, m')"
  shows "(\<forall>i < length bs. \<exists>pa. pt_lookup (cr3 (ctx m)) b (va + of_nat i) False = Some pa
        \<and> unat pa < GUEST_RAM_SIZE \<and> read_as b (unat pa) (bs ! i))
    \<and> (if ok then length bs = n else length bs < n
        \<and> (\<forall>pa. pt_lookup (cr3 (ctx m)) b (va + of_nat (length bs)) False = Some pa \<longrightarrow> GUEST_RAM_SIZE \<le> unat pa))"
  using assms
proof (induction n arbitrary: va m bs ok m' rule: less_induct)
  case (less n)
  define c where "c = cr3 (ctx m)"
  show ?case
  proof (cases "n = 0")
    case True
    then show ?thesis using less.prems(4) by (simp add: read_guest_block.simps)
  next
    case False
    obtain r m1 where t: "exec_translate va False m = Some (r, m1)"
      using less.prems(4) False by (subst (asm) read_guest_block.simps) (auto split: option.splits)
    note sp = exec_translate_paged [OF less.prems(1,2) t]
    have l: "pt_lookup c (ram m) v False = pt_lookup c b v False" for v
      by (rule pt_lookup_same_ad [OF less.prems(3)])
    have ad: "same_but_ad b (ram m1)" using same_but_ad_trans [OF less.prems(3)] sp by blast
    show ?thesis
    proof (cases "\<exists>pa. r = Some pa \<and> unat pa < GUEST_RAM_SIZE")
      case False
      then have "ok = False \<and> bs = []"
        using less.prems(4) t \<open>n \<noteq> 0\<close>
        by (subst (asm) read_guest_block.simps) (auto split: option.splits if_splits)
      moreover have "GUEST_RAM_SIZE \<le> unat pa" if "pt_lookup c b va False = Some pa" for pa
        using sp False that l by (auto simp: c_def split: option.splits)
      ultimately show ?thesis using \<open>n \<noteq> 0\<close> by (auto simp: c_def)
    next
      case True
      then obtain pa where r: "r = Some pa" and pa: "unat pa < GUEST_RAM_SIZE" by blast
      define k where "k = page_chunk pa n"
      have k: "0 < k" "k \<le> n" using page_chunk_bounds [where pa = pa and n = n] \<open>n \<noteq> 0\<close> by (auto simp: k_def)
      have lv: "pt_lookup c b va False = Some pa" using sp r l by (simp add: c_def)
      have fits: "\<not> GUEST_RAM_SIZE < unat pa + k" using chunk_in_ram [OF pa, of n] by (simp add: k_def)
      have off: "unat pa mod 4096 = unat va mod 4096"
        using pt_lookup_next(3) [OF lv, of 0] by simp
      then have page: "unat va mod 4096 + i < 4096" if "i < k" for i
        using that off by (simp add: k_def page_chunk_eq) linarith
      obtain bs' where rec: "read_guest_block (va + of_nat k) (n - k) m1 = Some (ok, bs', m')"
        and bs: "bs = get_list k (ram m1) (unat pa) @ bs'"
        using less.prems(4) t r pa fits \<open>n \<noteq> 0\<close> unfolding k_def
        by (subst (asm) read_guest_block.simps) (auto simp: Let_def split: if_splits)
      have sp1: "paging_enabled m1" "tlb_sound (cr3 (ctx m1)) (ram m1) (tlb m1)" "cr3 (ctx m1) = c"
        using sp by (simp_all add: c_def)
      note IH = less.IH [OF _ sp1(1,2) ad rec, unfolded sp1(3)]
      have first: "\<exists>pa. pt_lookup c b (va + of_nat i) False = Some pa \<and> unat pa < GUEST_RAM_SIZE
          \<and> read_as b (unat pa) (bs ! i)" if "i < k" for i
        using pt_lookup_next(1,2) [OF lv page [OF that]] fits that same_but_ad_read [OF ad]
        by (simp add: bs nth_append get_list_def)
      have rest: "\<exists>pa. pt_lookup c b (va + of_nat i) False = Some pa \<and> unat pa < GUEST_RAM_SIZE
          \<and> read_as b (unat pa) (bs ! i)" if "k \<le> i" "i < length bs" for i
        using IH k that by (auto simp: bs nth_append add.assoc of_nat_diff dest!: spec [of _ "i - k"])
      have every: "\<forall>i < length bs. \<exists>pa. pt_lookup c b (va + of_nat i) False = Some pa
          \<and> unat pa < GUEST_RAM_SIZE \<and> read_as b (unat pa) (bs ! i)"
        using first rest by (meson not_less)
      moreover have "if ok then length bs = n else length bs < n
          \<and> (\<forall>pa. pt_lookup c b (va + of_nat (length bs)) False = Some pa \<longrightarrow> GUEST_RAM_SIZE \<le> unat pa)"
        using IH k by (auto simp: bs add.assoc)
      ultimately show ?thesis unfolding c_def by blast
    qed
  qed
qed

section \<open>What the copies promise\<close>

text \<open>C28: With paging on and a sound TLB a block read, across any number of pages, returns the bytes at
  the addresses the page tables give for each byte of the range, up to the accessed and dirty bits it
  sets on the way in entries of the page tables, which lie in the first byte of an aligned double word
  (every other byte is exactly the one in memory); when it fails, it stops at the first page that is not
  mapped to memory.\<close>
theorem read_guest_block_refines:
  assumes "paging_enabled m" and "tlb_sound (cr3 (ctx m)) (ram m) (tlb m)"
    and "read_guest_block va n m = Some (ok, bs, m')"
  shows "(\<forall>i < length bs. \<exists>pa. pt_lookup (cr3 (ctx m)) (ram m) (va + of_nat i) False = Some pa
        \<and> unat pa < GUEST_RAM_SIZE \<and> read_as (ram m) (unat pa) (bs ! i))
    \<and> (if ok then length bs = n else length bs < n
        \<and> (\<forall>pa. pt_lookup (cr3 (ctx m)) (ram m) (va + of_nat (length bs)) False = Some pa
              \<longrightarrow> GUEST_RAM_SIZE \<le> unat pa))"
  by (rule read_block_paged_ad [OF assms(1,2) same_but_ad_refl assms(3)])

lemma paging_demo_read_walk:
  "\<exists>b. page_walk 0x1000 (ram paging_demo) 0x00400124 False = Some (Page 0x00345124 b)"
  by (simp add: paging_demo_simps page_walk_def Let_def alias_pa_def ld_st_disjoint)

lemma paging_demo_read:
  "\<exists>bs m'. read_guest_block 0x00400124 4 paging_demo = Some (True, bs, m')"
proof -
  obtain b where b: "page_walk 0x1000 (ram paging_demo) 0x00400124 False = Some (Page 0x00345124 b)"
    using paging_demo_read_walk by blast
  have "paging_enabled paging_demo" by (simp add: paging_enabled_def paging_demo_def Let_def)
  then have "\<exists>m1. exec_translate 0x00400124 False paging_demo = Some (Some 0x00345124, m1)"
    unfolding exec_translate_def translate_va_def paging_demo_simps(1,2) demo_tlb_empty by (simp add: b)
  then show ?thesis
    by (subst read_guest_block.simps) (auto simp: page_chunk_eq read_guest_block.simps Let_def)
qed

theorem read_guest_block_refines_witness:
  "\<exists>bs m'. read_guest_block 0x00400124 4 paging_demo = Some (True, bs, m') \<and> length bs = 4
    \<and> (\<exists>pa. pt_lookup 0x1000 (ram paging_demo) 0x00400127 False = Some pa
        \<and> read_as (ram paging_demo) (unat pa) (bs ! 3))"
proof -
  obtain bs m' where r: "read_guest_block 0x00400124 4 paging_demo = Some (True, bs, m')"
    using paging_demo_read by blast
  have "paging_enabled paging_demo" by (simp add: paging_enabled_def paging_demo_def Let_def)
  note p = read_guest_block_refines [OF this paging_demo_sound r, unfolded paging_demo_simps(1)]
  then have l: "length bs = 4" by simp
  have "\<exists>pa. pt_lookup 0x1000 (ram paging_demo) (0x00400124 + of_nat 3) False = Some pa
        \<and> read_as (ram paging_demo) (unat pa) (bs ! 3)"
    using spec [OF conjunct1 [OF p], of 3] l by auto
  then show ?thesis using r l by auto
qed

text \<open>Without paging a block written inside memory is read back as it was, and nothing else changes.\<close>
theorem guest_block_roundtrip:
  assumes "flat m" and "unat va + length bs \<le> GUEST_RAM_SIZE"
  shows "\<exists>m'. write_guest_block va bs m = Some (True, m')
    \<and> read_guest_block va (length bs) m' = Some (True, bs, m')
    \<and> ctx m' = ctx m \<and> (\<forall>i. i < unat va \<or> unat va + length bs \<le> i \<longrightarrow> ram m' i = ram m i)"
  using assms
  by (simp add: write_block_flat read_block_flat) (auto simp: put_list_apply)

theorem guest_block_roundtrip_example:
  "\<exists>m'. write_guest_block 0x0FFE [1, 2, 3, 4] (executor_init False) = Some (True, m')
    \<and> read_guest_block 0x0FFE 4 m' = Some (True, [1, 2, 3, 4], m')"
proof -
  have "length [1, 2, 3, 4 :: u8] = 4" by simp
  then show ?thesis
    using guest_block_roundtrip [OF flat_init [of False], of "0x0FFE" "[1, 2, 3, 4]"] by (simp only:) auto
qed

end
