(* ===== verification/Code_Cache.thy ===== *)
theory Code_Cache
  imports Prelude
begin

text \<open>
  The memory translated code lives in: \<open>CodeCache\<close> of \<open>src/src/cpu/code_cache.hpp\<close> and the relative jumps
  patched into it (\<open>Emitter::patch_rel32\<close> of \<open>src/src/cpu/emitter.hpp\<close>).  A host pointer is a number, null is
  0; the sizes are far below \<open>2 ^ 64\<close>.
\<close>

section \<open>The bump allocator\<close>

abbreviation CODE_CACHE_BYTES :: nat where "CODE_CACHE_BYTES \<equiv> 32 * 1024 * 1024"
abbreviation HELPER_PAGE_BYTES :: nat where "HELPER_PAGE_BYTES \<equiv> 4096"
abbreviation THUNK_SLAB_BYTES :: nat where "THUNK_SLAB_BYTES \<equiv> 64 * 1024"

record code_cache =
  cc_base :: nat
  cc_cap :: nat
  cc_used :: nat
  helper_page :: nat
  thunk_base :: nat
  thunk_cap :: nat
  thunk_used :: nat

definition code_cache_new :: code_cache where
  "code_cache_new = \<lparr>cc_base = 0, cc_cap = 0, cc_used = 0, helper_page = 0, thunk_base = 0, thunk_cap = 0,
     thunk_used = 0\<rparr>"

text \<open>The executable memory is what the operating system gave, 0 for nothing.\<close>

definition cc_init :: "nat \<Rightarrow> nat \<Rightarrow> nat \<Rightarrow> nat \<Rightarrow> code_cache \<Rightarrow> bool \<times> code_cache" where
  "cc_init mem jit helper thunk c =
     (let c = c\<lparr>cc_base := mem\<rparr> in
      if mem = 0 then (False, c)
      else (True, c\<lparr>cc_cap := jit, cc_used := 0, helper_page := mem + jit, thunk_base := mem + jit + helper,
              thunk_cap := thunk, thunk_used := 0\<rparr>))"

definition cc_destroy :: "code_cache \<Rightarrow> code_cache" where
  "cc_destroy c = (if cc_base c \<noteq> 0 then c\<lparr>cc_base := 0\<rparr> else c)"

definition align16 :: "nat \<Rightarrow> nat" where
  "align16 n = 16 * ((n + 15) div 16)"

definition cc_alloc :: "nat \<Rightarrow> code_cache \<Rightarrow> nat option \<times> code_cache" where
  "cc_alloc n c =
     (let a = align16 (cc_used c) in
      if a + n > cc_cap c then (None, c) else (Some (cc_base c + a), c\<lparr>cc_used := a + n\<rparr>))"

definition cc_shrink_last :: "nat \<Rightarrow> nat \<Rightarrow> code_cache \<Rightarrow> code_cache" where
  "cc_shrink_last buf actual c = c\<lparr>cc_used := (buf - cc_base c) + align16 actual\<rparr>"

definition cc_alloc_thunk :: "nat \<Rightarrow> code_cache \<Rightarrow> nat option \<times> code_cache" where
  "cc_alloc_thunk n c =
     (let a = align16 (thunk_used c) in
      if a + n > thunk_cap c then (None, c) else (Some (thunk_base c + a), c\<lparr>thunk_used := a + n\<rparr>))"

definition cc_reset :: "code_cache \<Rightarrow> code_cache" where
  "cc_reset c = c\<lparr>cc_used := 0, thunk_used := 0\<rparr>"

definition cc_contains :: "nat \<Rightarrow> code_cache \<Rightarrow> bool" where
  "cc_contains p c \<longleftrightarrow> p \<ge> cc_base c \<and> p < cc_base c + cc_cap c + HELPER_PAGE_BYTES + thunk_cap c"

section \<open>Blocks do not overlap\<close>

lemma align16_bounds: "n \<le> align16 n" "align16 n < n + 16" "align16 n mod 16 = 0"
  unfolding align16_def by linarith+ simp

lemma align16_mono: "m \<le> n \<Longrightarrow> align16 m \<le> align16 n"
  by (simp add: align16_def div_le_mono)

lemma align16_align16 [simp]: "align16 (16 * k) = 16 * k"
  by (simp add: align16_def)

lemma cc_alloc_block:
  assumes "cc_alloc n c = (Some p, c')"
  shows "cc_base c + cc_used c \<le> p" "p + n = cc_base c + cc_used c'" "cc_used c' \<le> cc_cap c"
    "p = cc_base c + align16 (cc_used c)" "c' = c\<lparr>cc_used := cc_used c'\<rparr>"
  using assms align16_bounds(1) [of "cc_used c"] by (auto simp: cc_alloc_def Let_def split: if_splits)

lemma cc_alloc_fail: "cc_alloc n c = (None, c') \<Longrightarrow> c' = c \<and> cc_cap c < align16 (cc_used c) + n"
  by (auto simp: cc_alloc_def Let_def split: if_splits)

text \<open>Giving back the unused end of a block whose size is a multiple of 16.\<close>

lemma cc_shrink_block:
  assumes "cc_alloc (16 * k) c = (Some p, c')" and "n \<le> 16 * k"
  defines "c2 \<equiv> cc_shrink_last p n c'"
  shows "p + n \<le> cc_base c2 + cc_used c2" "cc_used c2 \<le> cc_used c'" "c2 = c\<lparr>cc_used := cc_used c2\<rparr>"
    "cc_used c \<le> cc_used c2"
proof -
  define a where "a = align16 (cc_used c)"
  have c': "c' = c\<lparr>cc_used := a + 16 * k\<rparr>" and p: "p = cc_base c + a"
    using assms(1) by (auto simp: cc_alloc_def Let_def a_def split: if_splits)
  have c2: "c2 = c\<lparr>cc_used := a + align16 n\<rparr>" by (simp add: c2_def cc_shrink_last_def c' p)
  have "n \<le> align16 n" "cc_used c \<le> a" by (simp_all add: a_def align16_bounds(1))
  moreover have "align16 n \<le> 16 * k" using align16_mono [OF assms(2)] by simp
  ultimately show "p + n \<le> cc_base c2 + cc_used c2" "cc_used c2 \<le> cc_used c'"
    "c2 = c\<lparr>cc_used := cc_used c2\<rparr>" "cc_used c \<le> cc_used c2"
    by (simp_all add: c2 c' p)
qed

section \<open>Relative jumps\<close>

text \<open>The 32-bit displacement counts from the end of its field.\<close>

definition patch_rel32 :: "nat \<Rightarrow> nat \<Rightarrow> bytes \<Rightarrow> bytes" where
  "patch_rel32 site target h = st 4 h site (of_nat target - of_nat (site + 4))"

definition jump_target :: "bytes \<Rightarrow> nat \<Rightarrow> int" where
  "jump_target h site = int (site + 4) + sint (ld 4 h site)"

lemma sint_diff:
  assumes "\<bar>int a - int b\<bar> < 2 ^ 31"
  shows "sint (of_nat a - of_nat b :: u32) = int a - int b"
proof -
  have "(of_nat a - of_nat b :: u32) = word_of_int (int a - int b)" by simp
  then show ?thesis using assms by (simp only: signed_of_int) (simp add: signed_take_bit_int_eq_self_iff, arith)
qed

lemma patch_rel32_jump:
  "\<bar>int target - int (site + 4)\<bar> < 2 ^ 31 \<Longrightarrow> jump_target (patch_rel32 site target h) site = int target"
  using sint_diff [of target "site + 4"] by (simp add: jump_target_def patch_rel32_def)

lemma jump_target_other:
  "site + 4 \<le> s \<or> s + 4 \<le> site \<Longrightarrow> jump_target (st 4 h s v) site = jump_target h site"
  by (simp add: jump_target_def ld_st_disjoint)

text \<open>A zero displacement falls through to the instruction after the jump.\<close>

lemma jump_target_zero: "jump_target (st 4 h site 0) site = int (site + 4)"
  by (simp add: jump_target_def)

end
