(* ===== verification/Traces.thy ===== *)
theory Traces
  imports Block_Copy Code_Cache
begin

text \<open>
  Translated traces: \<open>Trace\<close> and \<open>TraceCache\<close> of \<open>src/src/cpu/trace.hpp\<close>, \<open>TraceArena\<close> of
  \<open>src/src/cpu/trace_builder.hpp\<close>, and the executor's bookkeeping of them (\<open>src/src/cpu/executor.hpp\<close>,
  \<open>executor.cpp\<close>): write-protected code pages, invalidation, linking and unlinking.  A \<open>Trace*\<close> is an
  index into the arena's pool.
\<close>

section \<open>Traces\<close>

record link_slot =
  jmp_rel32 :: nat
  target_eip :: u32
  linked :: bool

record mem_site =
  host_offset :: u32
  site_eip :: u32
  patch_len :: u8

record trace =
  guest_eip :: u32
  code_pa :: u32
  host_code :: nat
  host_size :: nat
  valid :: bool
  links :: "link_slot list"
  mem_sites :: "mem_site list"

abbreviation MAX_LINKS :: nat where "MAX_LINKS \<equiv> 2"
abbreviation MAX_MEM_SITES :: nat where "MAX_MEM_SITES \<equiv> 256"

definition add_link :: "nat \<Rightarrow> u32 \<Rightarrow> trace \<Rightarrow> trace" where
  "add_link site tgt t =
     (if length (links t) < MAX_LINKS
      then t\<lparr>links := links t @ [\<lparr>jmp_rel32 = site, target_eip = tgt, linked = False\<rparr>]\<rparr> else t)"

definition add_mem_site :: "u32 \<Rightarrow> u32 \<Rightarrow> u8 \<Rightarrow> trace \<Rightarrow> trace" where
  "add_mem_site off geip plen t =
     (if length (mem_sites t) < MAX_MEM_SITES
      then t\<lparr>mem_sites := mem_sites t @ [\<lparr>host_offset = off, site_eip = geip, patch_len = plen\<rparr>]\<rparr> else t)"

text \<open>The first site at an offset, 0 if there is none; the first site of an instruction, \<open>~0u\<close> if none.\<close>

definition lookup_guest_eip :: "nat \<Rightarrow> trace \<Rightarrow> u32" where
  "lookup_guest_eip addr t =
     (let off = of_nat addr - of_nat (host_code t) in
      case find (\<lambda>s. host_offset s = off) (mem_sites t) of Some s \<Rightarrow> site_eip s | None \<Rightarrow> 0)"

definition lookup_host_offset :: "u32 \<Rightarrow> trace \<Rightarrow> u32" where
  "lookup_host_offset e t =
     (case find (\<lambda>s. site_eip s = e) (mem_sites t) of Some s \<Rightarrow> host_offset s | None \<Rightarrow> 0xFFFFFFFF)"

section \<open>The trace cache\<close>

abbreviation L1_SIZE :: nat where "L1_SIZE \<equiv> 32768"
abbreviation L2_SIZE :: nat where "L2_SIZE \<equiv> 2048"
abbreviation ARENA_CAP :: nat where "ARENA_CAP \<equiv> 65536"

type_synonym page_table = "nat option arr"
type_synonym page_map = "page_table option arr"

definition l1_index :: "u32 \<Rightarrow> nat" where
  "l1_index e = unat (drop_bit 12 e AND 0x7FFF)"

definition l2_index :: "u32 \<Rightarrow> nat" where
  "l2_index e = unat (drop_bit 1 (e AND 0xFFF))"

definition tcache_insert :: "trace arr \<Rightarrow> nat \<Rightarrow> page_map \<Rightarrow> page_map" where
  "tcache_insert pool t pm =
     (let l1 = l1_index (guest_eip (pool t)); l2 = l2_index (guest_eip (pool t));
          slots = (case pm l1 of Some s \<Rightarrow> s | None \<Rightarrow> (\<lambda>_. None)) in
      pm(l1 := Some (slots(l2 := Some t))))"

definition tcache_lookup :: "trace arr \<Rightarrow> u32 \<Rightarrow> page_map \<Rightarrow> nat option" where
  "tcache_lookup pool e pm =
     (case pm (l1_index e) of
        None \<Rightarrow> None
      | Some slots \<Rightarrow>
          (case slots (l2_index e) of
             Some t \<Rightarrow> if guest_eip (pool t) = e then Some t else None
           | None \<Rightarrow> None))"

definition tcache_invalidate :: "u32 \<Rightarrow> trace arr \<times> page_map \<Rightarrow> trace arr \<times> page_map" where
  "tcache_invalidate e c =
     (let (pool, pm) = c in
      case pm (l1_index e) of
        None \<Rightarrow> c
      | Some slots \<Rightarrow>
          (case slots (l2_index e) of
             Some t \<Rightarrow>
               if guest_eip (pool t) = e
               then (pool(t := (pool t)\<lparr>valid := False\<rparr>), pm(l1_index e := Some (slots(l2_index e := None))))
               else c
           | None \<Rightarrow> c))"

text \<open>Clearing goes over every slot; the page tables stay allocated.\<close>

definition clear_slot :: "nat \<Rightarrow> trace arr \<times> page_table \<Rightarrow> trace arr \<times> page_table" where
  "clear_slot j c =
     (let (pool, slots) = c in
      case slots j of Some t \<Rightarrow> (pool(t := (pool t)\<lparr>valid := False\<rparr>), slots(j := None)) | None \<Rightarrow> c)"

definition clear_page :: "nat \<Rightarrow> trace arr \<times> page_map \<Rightarrow> trace arr \<times> page_map" where
  "clear_page i c =
     (let (pool, pm) = c in
      case pm i of
        None \<Rightarrow> c
      | Some slots \<Rightarrow>
          let (pool, slots) = fold clear_slot [0..<L2_SIZE] (pool, slots) in (pool, pm(i := Some slots)))"

definition tcache_clear :: "trace arr \<times> page_map \<Rightarrow> trace arr \<times> page_map" where
  "tcache_clear c = fold clear_page [0..<L1_SIZE] c"

definition tcache_destroy :: "page_map \<Rightarrow> page_map" where
  "tcache_destroy pm = (\<lambda>i. if i < L1_SIZE then None else pm i)"

lemma l1_index_less [simp]: "l1_index e < 32768"
  using unat_and_mask_less [of "drop_bit 12 e" 15] by (simp add: l1_index_def mask_eq_exp_minus_1)

lemma l2_index_less [simp]: "l2_index e < 2048"
proof -
  have "unat (e AND 0xFFF) < 4096" using unat_and_mask_less [of e 12] by (simp add: mask_eq_exp_minus_1)
  moreover have "l2_index e = unat (e AND 0xFFF) div 2"
    by (simp only: l2_index_def unat_drop_bit_eq) (simp add: drop_bit_eq_div)
  ultimately show ?thesis by linarith
qed

text \<open>The cache as a flushable cache from addresses to traces, where a trace put in has the address as its
  own; whether a trace is still valid is the executor's business.\<close>

definition trace_get :: "trace arr \<times> page_map \<Rightarrow> u32 \<Rightarrow> nat option" where
  "trace_get c e = tcache_lookup (fst c) e (snd c)"

definition trace_put :: "u32 \<Rightarrow> nat \<Rightarrow> trace arr \<times> page_map \<Rightarrow> trace arr \<times> page_map" where
  "trace_put e t c =
     (let pool = (fst c)(t := (fst c t)\<lparr>guest_eip := e\<rparr>) in (pool, tcache_insert pool t (snd c)))"

lemma tcache_lookup_insert:
  "tcache_lookup pool e (tcache_insert pool t pm) =
     (if l1_index e = l1_index (guest_eip (pool t)) \<and> l2_index e = l2_index (guest_eip (pool t))
      then (if guest_eip (pool t) = e then Some t else None) else tcache_lookup pool e pm)"
  by (simp add: tcache_insert_def tcache_lookup_def Let_def split: option.splits)

lemma tcache_lookup_eip:
  "tcache_lookup (pool(t := (pool t)\<lparr>guest_eip := e\<rparr>)) e' pm =
     (case tcache_lookup pool e' pm of Some u \<Rightarrow> if u = t then None else Some u | None \<Rightarrow> None)" if "e' \<noteq> e"
  using that by (simp add: tcache_lookup_def split: option.splits)

lemma trace_get_put:
  "trace_get (trace_put e t c) e' =
     (if e' = e then Some t
      else if l1_index e' = l1_index e \<and> l2_index e' = l2_index e then None
      else case trace_get c e' of Some u \<Rightarrow> if u = t then None else Some u | None \<Rightarrow> None)"
  by (simp add: trace_get_def trace_put_def Let_def tcache_lookup_insert tcache_lookup_eip)

lemma trace_get_invalidate:
  "trace_get (tcache_invalidate e c) e' = (if e' = e then None else trace_get c e')"
proof (cases "trace_get c e")
  case None
  then have "tcache_invalidate e c = c"
    by (cases c) (auto simp: trace_get_def tcache_lookup_def tcache_invalidate_def split: option.splits)
  then show ?thesis using None by simp
next
  case (Some t)
  obtain pool pm where c: "c = (pool, pm)" by (cases c)
  obtain s where s: "pm (l1_index e) = Some s" "s (l2_index e) = Some t" "guest_eip (pool t) = e"
    using Some by (auto simp: trace_get_def tcache_lookup_def c split: option.splits if_splits)
  show ?thesis
    by (simp add: c s tcache_invalidate_def trace_get_def tcache_lookup_def split: option.split)
qed

lemma fold_upt_Suc: "fold f [0..<Suc n] s = f n (fold f [0..<n] s)"
  by simp

lemma clear_slots:
  "fold clear_slot [0..<n] (pool, slots) =
     (\<lambda>i. if \<exists>j < n. slots j = Some i then (pool i)\<lparr>valid := False\<rparr> else pool i,
      \<lambda>j. if j < n then None else slots j)"
proof (induction n)
  case (Suc n)
  show ?case
    unfolding fold_upt_Suc Suc
    by (cases "slots n") (auto simp: clear_slot_def fun_eq_iff less_Suc_eq)
qed simp

lemma clear_page_eq:
  "clear_page i (pool, pm) =
     (\<lambda>t. if \<exists>s j. pm i = Some s \<and> j < L2_SIZE \<and> s j = Some t then (pool t)\<lparr>valid := False\<rparr> else pool t,
      \<lambda>k. if k = i then map_option (\<lambda>s j. if j < L2_SIZE then None else s j) (pm i) else pm k)"
  by (cases "pm i") (auto simp: clear_page_def clear_slots fun_eq_iff)

lemma tcache_clear_upto:
  "fold clear_page [0..<n] (pool, pm) =
     (\<lambda>t. if \<exists>i < n. \<exists>s j. pm i = Some s \<and> j < L2_SIZE \<and> s j = Some t then (pool t)\<lparr>valid := False\<rparr> else pool t,
      \<lambda>i. if i < n then map_option (\<lambda>s j. if j < L2_SIZE then None else s j) (pm i) else pm i)"
proof (induction n)
  case (Suc n)
  show ?case
    unfolding fold_upt_Suc Suc clear_page_eq by (auto simp: fun_eq_iff less_Suc_eq)
qed simp

lemmas tcache_clear_eq = tcache_clear_upto [of L1_SIZE, folded tcache_clear_def]

lemma trace_get_clear: "trace_get (tcache_clear c) e = None"
  by (cases c) (simp add: tcache_clear_eq trace_get_def tcache_lookup_def split: option.split)

interpretation trace_cache: flushable_cache trace_get trace_put tcache_invalidate tcache_clear
  by unfold_locales
    (simp_all add: trace_get_put trace_get_invalidate trace_get_clear split: option.splits if_splits)

end
