(* ===== verification/Xbe_Heap.thy ===== *)
theory Xbe_Heap
  imports Address_Map
begin

text \<open>
  The state of the high-level kernel (\<open>XbeHeap\<close> of \<open>src/src/xbox/hle/hle_kernel.hpp\<close>): a bump allocator
  for guest memory, handles, the files of the host behind them, mount points, and the threads and
  deferred calls that wait to run.

  Host files are only read.  \<open>disk\<close> gives what the host has under a path, as the host resolves it;
  opening a directory as a file fails, as with the C runtime the code is written for.  A \<open>FILE*\<close> is the
  file's bytes with the position; closing it has no effect that is modelled.
\<close>

section \<open>Host files\<close>

datatype host_entry = Host_dir | Host_file "u8 list"

type_synonym disk = "u8 list \<Rightarrow> host_entry option"

record host_file =
  hf_fp :: "(u8 list \<times> nat) option"
  hf_size :: u64
  hf_path :: "u8 list"

text \<open>\<open>_strnicmp\<close>: at most \<open>n\<close> characters, up to the end of either string.\<close>

definition c_char :: "u8 list \<Rightarrow> u8" where
  "c_char s = (case s of [] \<Rightarrow> 0 | x # _ \<Rightarrow> x)"

primrec strnicmp_eq :: "nat \<Rightarrow> u8 list \<Rightarrow> u8 list \<Rightarrow> bool" where
  "strnicmp_eq 0 a b = True"
| "strnicmp_eq (Suc n) a b =
     (if to_lower (c_char a) \<noteq> to_lower (c_char b) then False
      else if c_char a = 0 then True
      else strnicmp_eq n (tl a) (tl b))"

section \<open>The heap\<close>

record pending_thread =
  start_routine :: u32
  start_context :: u32

record pending_dpc =
  dpc_routine :: u32
  dpc_context :: u32
  dpc_va :: u32
  dpc_timer_va :: u32

record mount_point =
  xbox_prefix :: "u8 list"
  host_dir :: "u8 list"

record xbe_heap =
  next_alloc :: u32
  heap_limit :: u32
  next_handle :: u32
  gpu_instance_base :: u32
  gpu_instance_size :: u32
  nv2a_linked :: bool
  pending_threads :: "pending_thread list"
  pending_dpcs :: "pending_dpc list"
  xbe_directory :: "u8 list"
  open_files :: "u32 \<Rightarrow> host_file option"
  mounts :: "mount_point list"
  cs_spins :: u32

text \<open>The constructor; \<open>cs_spins\<close> is the static counter \<open>spin_count\<close> of the handler.\<close>

definition new_heap :: xbe_heap where
  "new_heap = \<lparr>next_alloc = 0x01000000, heap_limit = of_nat GUEST_RAM_SIZE, next_handle = 0x100,
     gpu_instance_base = 0, gpu_instance_size = 0, nv2a_linked = False, pending_threads = [],
     pending_dpcs = [], xbe_directory = [], open_files = (\<lambda>_. None), mounts = [], cs_spins = 0\<rparr>"

definition heap_reset :: "xbe_heap \<Rightarrow> xbe_heap" where
  "heap_reset h = h\<lparr>open_files := (\<lambda>_. None), pending_threads := [], mounts := [], xbe_directory := [],
     next_alloc := 0x01000000, heap_limit := of_nat GUEST_RAM_SIZE, next_handle := 0x100\<rparr>"

text \<open>\<open>alloc\<close>: the address, 0 when there is no room.\<close>

definition align_up :: "u32 \<Rightarrow> u32 \<Rightarrow> u32" where
  "align_up align a = (a + align - 1) AND NOT (align - 1)"

definition heap_alloc :: "u32 \<Rightarrow> u32 \<Rightarrow> xbe_heap \<Rightarrow> u32 \<times> xbe_heap" where
  "heap_alloc sz align h =
     (let base = align_up align (next_alloc h) in
      if base + sz > heap_limit h then (0, h)
      else (base, h\<lparr>next_alloc := base + sz\<rparr>))"

definition take_handle :: "xbe_heap \<Rightarrow> u32 \<times> xbe_heap" where
  "take_handle h = (next_handle h, h\<lparr>next_handle := next_handle h + 1\<rparr>)"

section \<open>Paths\<close>

abbreviation CH_SLASH :: u8 where "CH_SLASH \<equiv> 0x2F"
abbreviation CH_BACKSLASH :: u8 where "CH_BACKSLASH \<equiv> 0x5C"

definition is_sep :: "u8 \<Rightarrow> bool" where
  "is_sep c \<longleftrightarrow> c = CH_SLASH \<or> c = CH_BACKSLASH"

text \<open>Everything before the last separator, \<open>.\<close> when there is none.\<close>

definition directory_of :: "u8 list \<Rightarrow> u8 list" where
  "directory_of p =
     (if list_ex is_sep p then rev (tl (dropWhile (\<lambda>c. \<not> is_sep c) (rev p))) else [0x2E])"

definition set_xbe_path :: "u8 list \<Rightarrow> xbe_heap \<Rightarrow> xbe_heap" where
  "set_xbe_path p h = h\<lparr>xbe_directory := directory_of p\<rparr>"

definition add_mount :: "u8 list \<Rightarrow> u8 list \<Rightarrow> xbe_heap \<Rightarrow> xbe_heap" where
  "add_mount prefix dir h = h\<lparr>mounts := mounts h @ [\<lparr>xbox_prefix = prefix, host_dir = dir\<rparr>]\<rparr>"

definition mount_drive :: "u8 list \<Rightarrow> u8 \<Rightarrow> u8 list \<Rightarrow> xbe_heap \<Rightarrow> xbe_heap" where
  "mount_drive nt_prefix letter dir h =
     add_mount [to_upper letter, 0x3A] dir (add_mount [to_lower letter, 0x3A] dir (add_mount nt_prefix dir h))"

definition mount_device :: "u8 list \<Rightarrow> u8 list \<Rightarrow> xbe_heap \<Rightarrow> xbe_heap" where
  "mount_device = add_mount"

text \<open>One mount point: a path it does not cover is left to the next one.\<close>

definition mount_path :: "mount_point \<Rightarrow> u8 list \<Rightarrow> u8 list option" where
  "mount_path mp p =
     (let n = length (xbox_prefix mp) in
      if strnicmp_eq n p (xbox_prefix mp) then
        if length p = n then Some (host_dir mp)
        else if is_sep (p ! n)
        then Some (host_dir mp @ CH_SLASH # map (\<lambda>c. if c = CH_BACKSLASH then CH_SLASH else c) (drop (n + 1) p))
        else None
      else None)"

fun translate_mounts :: "mount_point list \<Rightarrow> u8 list \<Rightarrow> u8 list" where
  "translate_mounts [] p = []"
| "translate_mounts (mp # ms) p = (case mount_path mp p of Some q \<Rightarrow> q | None \<Rightarrow> translate_mounts ms p)"

definition translate_path :: "xbe_heap \<Rightarrow> u8 list \<Rightarrow> u8 list" where
  "translate_path h p = translate_mounts (mounts h) p"

section \<open>Files\<close>

text \<open>The size as \<open>ftell\<close> gives it in a 32-bit \<open>long\<close>; past that it fails with -1.\<close>

definition file_size64 :: "u8 list \<Rightarrow> u64" where
  "file_size64 c = (if length c < 2 ^ 31 then of_nat (length c) else - 1)"

definition add_file :: "host_file \<Rightarrow> xbe_heap \<Rightarrow> u32 \<times> xbe_heap" where
  "add_file f h = (let (n, h) = take_handle h in (n, h\<lparr>open_files := (open_files h)(n := Some f)\<rparr>))"

definition open_host_file :: "disk \<Rightarrow> u8 list \<Rightarrow> xbe_heap \<Rightarrow> u32 \<times> xbe_heap" where
  "open_host_file d p h =
     (case d p of
        None \<Rightarrow> (0, h)
      | Some Host_dir \<Rightarrow> add_file \<lparr>hf_fp = None, hf_size = 0, hf_path = p\<rparr> h
      | Some (Host_file c) \<Rightarrow> add_file \<lparr>hf_fp = Some (c, 0), hf_size = file_size64 c, hf_path = p\<rparr> h)"

definition close_host_file :: "u32 \<Rightarrow> xbe_heap \<Rightarrow> bool \<times> xbe_heap" where
  "close_host_file n h =
     (case open_files h n of
        None \<Rightarrow> (False, h)
      | Some f \<Rightarrow> (True, h\<lparr>open_files := (open_files h)(n := None)\<rparr>))"

text \<open>\<open>_fseeki64(fp, pos, SEEK_SET)\<close>: a negative position is refused.\<close>

definition seek_file :: "u64 \<Rightarrow> host_file \<Rightarrow> host_file" where
  "seek_file pos f =
     (case hf_fp f of
        Some (c, at) \<Rightarrow> if sint pos < 0 then f else f\<lparr>hf_fp := Some (c, unat pos)\<rparr>
      | None \<Rightarrow> f)"

definition put_file :: "u32 \<Rightarrow> host_file \<Rightarrow> xbe_heap \<Rightarrow> xbe_heap" where
  "put_file n f h = h\<lparr>open_files := (open_files h)(n := Some f)\<rparr>"

end
