(* ===== verification/Trace_Links.thy ===== *)
theory Trace_Links
  imports Traces Xbe_Heap
begin

text \<open>
  The executor's bookkeeping of translated code (\<open>src/src/cpu/executor.hpp\<close>, \<open>executor.cpp\<close> and the end of
  \<open>TraceBuilder::build\<close> in \<open>trace_builder.cpp\<close>): building and caching a trace, write-protecting the pages it
  came from, linking exits to other traces, and invalidation when a protected page is written.  Decoding and
  emission are a parameter: what they leave in the buffer.
\<close>

section \<open>The executor\<close>

text \<open>Page protection is the operating system's; \<open>writable\<close> is what the code asked for last.\<close>

record executor =
  mach :: machine
  host_mem :: bytes
  cc :: code_cache
  pool :: "trace arr"
  arena_used :: nat
  page_map :: page_map
  code_bitmap :: bytes
  writable :: "nat \<Rightarrow> bool"
  hle_user :: xbe_heap

text \<open>The executor after it has started, with its code cache at \<open>mem\<close>.\<close>

definition executor_start :: "machine \<Rightarrow> nat \<Rightarrow> executor" where
  "executor_start m mem =
     \<lparr>mach = m, host_mem = (\<lambda>_. 0),
      cc = snd (cc_init mem CODE_CACHE_BYTES HELPER_PAGE_BYTES THUNK_SLAB_BYTES code_cache_new),
      pool = (\<lambda>_. \<lparr>guest_eip = 0, code_pa = 0, host_code = 0, host_size = 0, valid = False, links = [], mem_sites = []\<rparr>),
      arena_used = 0, page_map = (\<lambda>_. None), code_bitmap = (\<lambda>_. 0), writable = (\<lambda>_. True), hle_user = new_heap\<rparr>"

definition arena_alloc :: "executor \<Rightarrow> nat option \<times> executor" where
  "arena_alloc x =
     (if arena_used x < ARENA_CAP then (Some (arena_used x), x\<lparr>arena_used := arena_used x + 1\<rparr>) else (None, x))"

definition upd_trace :: "nat \<Rightarrow> (trace \<Rightarrow> trace) \<Rightarrow> executor \<Rightarrow> executor" where
  "upd_trace t f x = x\<lparr>pool := (pool x)(t := f (pool x t))\<rparr>"

section \<open>Building\<close>

text \<open>What decoding and emission leave: the code, and the pending links and memory sites in the emitter.\<close>

record emitted =
  em_code :: "u8 list"
  em_links :: "(nat \<times> u32) list"
  em_sites :: "(u32 \<times> u32 \<times> u8) list"

abbreviation MAX_TRACE_BYTES :: nat where "MAX_TRACE_BYTES \<equiv> 16 * 4096"

text \<open>The last two pending links are kept.\<close>

definition fill_trace :: "u32 \<Rightarrow> nat \<Rightarrow> emitted \<Rightarrow> trace \<Rightarrow> trace" where
  "fill_trace e buf em t =
     (let t = t\<lparr>guest_eip := e, code_pa := e, host_code := buf, host_size := length (em_code em), valid := True,
                links := []\<rparr>;
          start = length (em_links em) - MAX_LINKS;
          t = fold (\<lambda>(s, tgt). add_link s tgt) (drop start (em_links em)) t;
          t = t\<lparr>mem_sites := []\<rparr> in
      fold (\<lambda>(off, geip, plen). add_mem_site off geip plen) (em_sites em) t)"

definition build :: "(nat \<Rightarrow> emitted) \<Rightarrow> u32 \<Rightarrow> nat \<Rightarrow> executor \<Rightarrow> nat option \<times> executor" where
  "build emit e code_len x =
     (if code_len = 0 then (None, x)
      else let (buf, c) = cc_alloc MAX_TRACE_BYTES (cc x) in
        case buf of
          None \<Rightarrow> (None, x)
        | Some buf \<Rightarrow>
            let em = emit buf; x = x\<lparr>cc := c, host_mem := put_list (em_code em) (host_mem x) buf\<rparr> in
            case arena_alloc x of
              (None, x) \<Rightarrow> (None, x)
            | (Some t, x) \<Rightarrow>
                (Some t, upd_trace t (fill_trace e buf em)
                   (x\<lparr>cc := cc_shrink_last buf (length (em_code em)) (cc x)\<rparr>)))"

text \<open>The run loop flushes everything when a build fails.\<close>

definition clear_traces :: "executor \<Rightarrow> executor" where
  "clear_traces x = (let (p, pm) = tcache_clear (pool x, page_map x) in x\<lparr>pool := p, page_map := pm\<rparr>)"

definition flush_code :: "executor \<Rightarrow> executor" where
  "flush_code x = (clear_traces x)\<lparr>cc := cc_reset (cc x), arena_used := 0\<rparr>"

definition cache_trace :: "nat \<Rightarrow> executor \<Rightarrow> executor" where
  "cache_trace t x = x\<lparr>page_map := tcache_insert (pool x) t (page_map x)\<rparr>"

section \<open>Code pages\<close>

abbreviation CODE_PAGE_BITMAP_SIZE :: nat where "CODE_PAGE_BITMAP_SIZE \<equiv> 4096"

definition page_no :: "u32 \<Rightarrow> nat" where
  "page_no pa = unat (drop_bit 12 pa)"

definition is_code_page :: "u32 \<Rightarrow> executor \<Rightarrow> bool option" where
  "is_code_page pa x =
     map_option (\<lambda>b. drop_bit (page_no pa mod 8) b AND 1 \<noteq> 0)
       (aread CODE_PAGE_BITMAP_SIZE (code_bitmap x) (page_no pa div 8))"

definition set_code_page :: "u32 \<Rightarrow> executor \<Rightarrow> executor option" where
  "set_code_page pa x =
     (let i = page_no pa div 8 in
      map_option (\<lambda>b. x\<lparr>code_bitmap := b\<rparr>)
        (awrite CODE_PAGE_BITMAP_SIZE (code_bitmap x) i (code_bitmap x i OR push_bit (page_no pa mod 8) 1)))"

definition clear_code_page :: "u32 \<Rightarrow> executor \<Rightarrow> executor option" where
  "clear_code_page pa x =
     (let i = page_no pa div 8 in
      map_option (\<lambda>b. x\<lparr>code_bitmap := b\<rparr>)
        (awrite CODE_PAGE_BITMAP_SIZE (code_bitmap x) i (code_bitmap x i AND NOT (push_bit (page_no pa mod 8) 1))))"

definition protect_code_page :: "u32 \<Rightarrow> executor \<Rightarrow> executor option" where
  "protect_code_page pa x =
     (let page = pa AND GUEST_PAGE_MASK in
      do {
        c \<leftarrow> is_code_page page x;
        if c then Some x
        else do {
          x \<leftarrow> set_code_page page x;
          Some (x\<lparr>writable := (writable x)(page_no page := False)\<rparr>)
        }
      })"

section \<open>Links\<close>

text \<open>A pass over a trace's link slots that patches host code as it goes.\<close>

primrec each_link :: "(link_slot \<Rightarrow> bytes \<Rightarrow> link_slot \<times> bytes) \<Rightarrow> link_slot list \<Rightarrow> bytes \<Rightarrow> link_slot list \<times> bytes"
where
  "each_link f [] h = ([], h)"
| "each_link f (lk # lks) h = (let (lk, h) = f lk h; (lks, h) = each_link f lks h in (lk # lks, h))"

definition on_links :: "(link_slot \<Rightarrow> bytes \<Rightarrow> link_slot \<times> bytes) \<Rightarrow> nat \<Rightarrow> executor \<Rightarrow> executor" where
  "on_links f t x =
     (let (lks, h) = each_link f (links (pool x t)) (host_mem x) in
      (upd_trace t (\<lambda>tr. tr\<lparr>links := lks\<rparr>) x)\<lparr>host_mem := h\<rparr>)"

text \<open>Only exits to higher addresses are linked, to a valid trace in the cache.\<close>

definition link_one :: "executor \<Rightarrow> u32 \<Rightarrow> link_slot \<Rightarrow> bytes \<Rightarrow> link_slot \<times> bytes" where
  "link_one x e lk h =
     (if linked lk then (lk, h)
      else if target_eip lk \<le> e then (lk, h)
      else case tcache_lookup (pool x) (target_eip lk) (page_map x) of
        None \<Rightarrow> (lk, h)
      | Some tgt \<Rightarrow>
          if \<not> valid (pool x tgt) then (lk, h)
          else (lk\<lparr>linked := True\<rparr>, patch_rel32 (jmp_rel32 lk) (host_code (pool x tgt)) h))"

definition try_link_trace :: "nat \<Rightarrow> executor \<Rightarrow> executor" where
  "try_link_trace t x = on_links (link_one x (guest_eip (pool x t))) t x"

definition cut_link :: "link_slot \<Rightarrow> bytes \<Rightarrow> link_slot \<times> bytes" where
  "cut_link lk h = (lk\<lparr>linked := False\<rparr>, st 4 h (jmp_rel32 lk) 0)"

definition unlink_one :: "u32 \<Rightarrow> link_slot \<Rightarrow> bytes \<Rightarrow> link_slot \<times> bytes" where
  "unlink_one e lk h = (if linked lk \<and> target_eip lk = e then cut_link lk h else (lk, h))"

definition unlink_at :: "u32 \<Rightarrow> nat \<Rightarrow> executor \<Rightarrow> executor" where
  "unlink_at e i x = (if valid (pool x i) then on_links (unlink_one e) i x else x)"

definition unlink_trace :: "nat \<Rightarrow> executor \<Rightarrow> executor" where
  "unlink_trace t x = fold (unlink_at (guest_eip (pool x t))) [0..<arena_used x] x"

section \<open>Invalidation\<close>

definition cut_out :: "link_slot \<Rightarrow> bytes \<Rightarrow> link_slot \<times> bytes" where
  "cut_out lk h = (if linked lk then cut_link lk h else (lk, h))"

definition drop_trace :: "nat \<Rightarrow> executor \<Rightarrow> executor" where
  "drop_trace t x = upd_trace t (\<lambda>tr. tr\<lparr>valid := False\<rparr>) (on_links cut_out t (unlink_trace t x))"

definition drop_slot :: "u32 \<Rightarrow> page_table \<Rightarrow> nat \<Rightarrow> executor \<Rightarrow> executor" where
  "drop_slot page slots s x =
     (case slots s of
        None \<Rightarrow> x
      | Some t \<Rightarrow>
          if valid (pool x t) \<and> code_pa (pool x t) AND NOT 0xFFF = page then drop_trace t x else x)"

definition invalidate_code_page :: "u32 \<Rightarrow> executor \<Rightarrow> executor option" where
  "invalidate_code_page pa x =
     (let page = pa AND GUEST_PAGE_MASK in
      do {
        c \<leftarrow> is_code_page page x;
        if \<not> c then Some x
        else do {
          x \<leftarrow> clear_code_page page x;
          let x = x\<lparr>writable := (writable x)(page_no page := True)\<rparr>;
          case page_map x (l1_index page) of
            None \<Rightarrow> Some x
          | Some slots \<Rightarrow> Some (fold (drop_slot page slots) [0..<L2_SIZE] x)
        }
      })"

text \<open>Loading guest code: protected pages of the range are released first.\<close>

definition release_page :: "u32 \<Rightarrow> executor \<Rightarrow> executor option" where
  "release_page p x = do { c \<leftarrow> is_code_page p x; if c then invalidate_code_page p x else Some x }"

primrec release_pages :: "nat \<Rightarrow> u32 \<Rightarrow> executor \<Rightarrow> executor option" where
  "release_pages 0 p x = Some x"
| "release_pages (Suc k) p x = Option.bind (release_page p x) (release_pages k (p + GUEST_PAGE_SIZE))"

definition load_guest :: "u32 \<Rightarrow> u8 list \<Rightarrow> executor \<Rightarrow> executor option" where
  "load_guest pa src x =
     (if GUEST_RAM_SIZE < unat pa + length src then None
      else
        let page_start = pa AND GUEST_PAGE_MASK;
            page_end = (pa + of_nat (length src) + GUEST_PAGE_SIZE - 1) AND GUEST_PAGE_MASK in
        do {
          x \<leftarrow> release_pages (unat (page_end - page_start) div 4096) page_start x;
          Some (x\<lparr>mach := set_mem (put_list src (ram (mach x)) (unat pa)) (mach x)\<rparr>)
        })"

end
