(* ===== verification/Boot16.thy ===== *)
theory Boot16
  imports Guest_Memory
begin

text \<open>
  The interpreter for the BIOS's real-mode prologue (\<open>Executor::interpret_real_mode_boot\<close> of
  \<open>src/src/cpu/executor.cpp\<close>).  The prefix loop has no bound of its own: over an address space full of
  prefixes it does not return, which is the value \<open>None\<close>, as is a device access the models leave
  undefined.  The main loop takes at most 100 steps.
\<close>

section \<open>Fetching\<close>

definition fetch_byte :: "u32 \<Rightarrow> machine \<Rightarrow> (u8 \<times> machine) option" where
  "fetch_byte pa m =
     (if unat pa < GUEST_RAM_SIZE then Some (ram m (unat pa), m)
      else if mmio m \<noteq> None then map_option (\<lambda>(v, m). (ucast v, m)) (bus_read pa 1 m)
      else Some (0xCC, m))"

definition fetch_word :: "u32 \<Rightarrow> machine \<Rightarrow> (u16 \<times> machine) option" where
  "fetch_word pa m = do {
     (lo, m) \<leftarrow> fetch_byte pa m;
     (hi, m) \<leftarrow> fetch_byte (pa + 1) m;
     Some (push_bit 8 (ucast hi) OR ucast lo, m)
   }"

definition fetch_dword :: "u32 \<Rightarrow> machine \<Rightarrow> (u32 \<times> machine) option" where
  "fetch_dword pa m = do {
     (lo, m) \<leftarrow> fetch_word pa m;
     (hi, m) \<leftarrow> fetch_word (pa + 2) m;
     Some (push_bit 16 (ucast hi) OR ucast lo, m)
   }"

abbreviation CS_BASE :: u32 where "CS_BASE \<equiv> 0xFFFF0000"

section \<open>Prefixes\<close>

record prefixes =
  pf_byte :: u8
  pf_pa :: u32
  pf_eip :: u32
  has_66 :: bool
  has_seg :: bool
  seg_base :: u32
  prefix_len :: u32

text \<open>A NOP restarts at the next address: the prefixes counted so far are added again at the end.\<close>

definition prefix_step :: "prefixes \<Rightarrow> machine \<Rightarrow> (prefixes \<times> machine) option" where
  "prefix_step p m =
     (if pf_byte p = 0x90 then do {
        let e = pf_eip p + 1;
        let pa = CS_BASE + e;
        (b, m) \<leftarrow> fetch_byte pa m;
        Some (p\<lparr>pf_byte := b, pf_pa := pa, pf_eip := e\<rparr>, m)
      } else do {
        let p' = (if pf_byte p = 0x66 then p\<lparr>has_66 := True\<rparr>
                  else if pf_byte p = 0x2E then p\<lparr>has_seg := True, seg_base := CS_BASE\<rparr> else p);
        let m' = (if pf_byte p = 0xFA then upd_ctx (\<lambda>c. c\<lparr>virtual_if := False\<rparr>) m else m);
        let n = prefix_len p' + 1;
        (b, m) \<leftarrow> fetch_byte (pf_pa p' + n) m';
        Some (p'\<lparr>pf_byte := b, prefix_len := n\<rparr>, m)
      })"

definition is_prefix :: "u8 \<Rightarrow> bool" where
  "is_prefix b \<longleftrightarrow> b = 0x66 \<or> b = 0x2E \<or> b = 0x90 \<or> b = 0xFC \<or> b = 0xFA"

partial_function (option) skip_prefixes :: "prefixes \<Rightarrow> machine \<Rightarrow> (prefixes \<times> machine) option" where
  "skip_prefixes p m =
     (if is_prefix (pf_byte p)
      then Option.bind (prefix_step p m) (\<lambda>(p, m). skip_prefixes p m)
      else Some (p, m))"

definition start_prefixes :: "u32 \<Rightarrow> machine \<Rightarrow> (prefixes \<times> machine) option" where
  "start_prefixes e m = do {
     (b, m) \<leftarrow> fetch_byte (CS_BASE + e) m;
     skip_prefixes \<lparr>pf_byte = b, pf_pa = CS_BASE + e, pf_eip = e, has_66 = False, has_seg = False,
       seg_base = CS_BASE, prefix_len = 0\<rparr> m
   }"

section \<open>Instructions\<close>

text \<open>What one step decides: go on at an offset, or stop with the function's result.\<close>

datatype boot_step = Go u32 | Stop bool

definition boot_descriptor :: "prefixes \<Rightarrow> u32 \<Rightarrow> u32 \<Rightarrow> machine \<Rightarrow> (boot_step \<times> machine) option" where
  "boot_descriptor p pa e m = do {
     (modrm, m) \<leftarrow> fetch_byte (pa + 2) m;
     let r = drop_bit 3 modrm AND 7;
     (disp, m) \<leftarrow> fetch_word (pa + 3) m;
     let desc_pa = (if has_seg p then seg_base p else CS_BASE) + ucast disp;
     (limit, m) \<leftarrow> fetch_word desc_pa m;
     (base, m) \<leftarrow> (if has_66 p then fetch_dword (desc_pa + 2) m
        else do {
          (lo, m) \<leftarrow> fetch_word (desc_pa + 2) m;
          (hi, m) \<leftarrow> fetch_byte (desc_pa + 4) m;
          Some (ucast lo OR push_bit 16 (ucast hi), m)
        });
     let m = (if r = 2 then upd_ctx (\<lambda>c. c\<lparr>gdtr_base := base, gdtr_limit := limit\<rparr>) m
              else if r = 3 then upd_ctx (\<lambda>c. c\<lparr>idtr_base := base, idtr_limit := limit\<rparr>) m else m);
     Some (Go (e + 5), m)
   }"

definition boot_0f :: "prefixes \<Rightarrow> u32 \<Rightarrow> u32 \<Rightarrow> machine \<Rightarrow> (boot_step \<times> machine) option" where
  "boot_0f p pa e m = do {
     (b1, m) \<leftarrow> fetch_byte (pa + 1) m;
     if b1 = 0x01 then boot_descriptor p pa e m
     else if b1 = 0x20 then do {
       (modrm, m) \<leftarrow> fetch_byte (pa + 2) m;
       Some (Go (e + 3), set_reg (unat (modrm AND 7)) (cr0 (ctx m)) m)
     } else if b1 = 0x22 then do {
       (modrm, m) \<leftarrow> fetch_byte (pa + 2) m;
       Some (Go (e + 3), upd_ctx (\<lambda>c. c\<lparr>cr0 := gp c (unat (modrm AND 7))\<rparr>) m)
     } else Some (Stop False, m)
   }"

definition boot_far_jmp :: "prefixes \<Rightarrow> u32 \<Rightarrow> machine \<Rightarrow> (boot_step \<times> machine) option" where
  "boot_far_jmp p pa m = do {
     (target, m) \<leftarrow> (if has_66 p then do {
         (t, m) \<leftarrow> fetch_dword (pa + 1) m; (_, m) \<leftarrow> fetch_word (pa + 5) m; Some (t, m)
       } else do {
         (t, m) \<leftarrow> fetch_word (pa + 1) m; (_, m) \<leftarrow> fetch_word (pa + 3) m; Some (ucast t, m)
       });
     Some (Stop True, upd_ctx (\<lambda>c. c\<lparr>eip := target, cr0 := cr0 c OR 1\<rparr>) m)
   }"

definition boot_insn :: "u32 \<Rightarrow> machine \<Rightarrow> (boot_step \<times> machine) option" where
  "boot_insn e m = do {
     (p, m) \<leftarrow> start_prefixes e m;
     let pa = pf_pa p + prefix_len p;
     let e = pf_eip p + prefix_len p;
     let b0 = pf_byte p;
     if b0 = 0xEB then do {
       (rel, m) \<leftarrow> fetch_byte (pa + 1) m;
       Some (Go (e + 2 + scast rel), m)
     } else if b0 = 0x0F then boot_0f p pa e m
     else if b0 = 0x0C then do {
       (imm, m) \<leftarrow> fetch_byte (pa + 1) m;
       let eax = reg GP_EAX m;
       Some (Go (e + 2), set_reg GP_EAX ((eax AND NOT 0xFF) OR ((eax AND 0xFF) OR ucast imm)) m)
     } else if b0 = 0xEA then boot_far_jmp p pa m
     else if b0 = 0x33 then do {
       (modrm, m) \<leftarrow> fetch_byte (pa + 1) m;
       if modrm = 0xC0 then Some (Go (e + 2), set_reg GP_EAX 0 m) else Some (Stop False, m)
     } else Some (Stop False, m)
   }"

primrec boot_steps :: "nat \<Rightarrow> u32 \<Rightarrow> machine \<Rightarrow> (bool \<times> machine) option" where
  "boot_steps 0 e m = Some (False, m)"
| "boot_steps (Suc k) e m =
     (case boot_insn e m of
        None \<Rightarrow> None
      | Some (Go e, m) \<Rightarrow> boot_steps k e m
      | Some (Stop ok, m) \<Rightarrow> Some (ok, m))"

definition interpret_real_mode_boot :: "machine \<Rightarrow> (bool \<times> machine) option" where
  "interpret_real_mode_boot m = boot_steps 100 0xFFF0 m"

section \<open>What a boot leaves\<close>

text \<open>Fetching changes no processor state, so every step changes only the registers its instruction names.\<close>

lemma bus_read_ctx: "bus_read pa n m = Some (v, m') \<Longrightarrow> ctx m' = ctx m \<and> tlb m' = tlb m \<and> mmio m' = mmio m"
  by (auto simp: bus_read_def split: option.splits)

lemma fetch_byte_ctx: "fetch_byte pa m = Some (b, m') \<Longrightarrow> ctx m' = ctx m"
  using bus_read_ctx by (auto simp: fetch_byte_def split: if_splits)

lemma fetch_word_ctx: "fetch_word pa m = Some (b, m') \<Longrightarrow> ctx m' = ctx m"
  using fetch_byte_ctx by (fastforce simp: fetch_word_def Option.bind_eq_Some_conv)

lemma fetch_dword_ctx: "fetch_dword pa m = Some (b, m') \<Longrightarrow> ctx m' = ctx m"
  using fetch_word_ctx by (fastforce simp: fetch_dword_def Option.bind_eq_Some_conv)

lemmas fetch_ctx = fetch_byte_ctx fetch_word_ctx fetch_dword_ctx

text \<open>The interpreter reports success only by its far jump, with protection enabled.\<close>

lemma boot_far_jmp_stop:
  "boot_far_jmp p pa m = Some (r, m') \<Longrightarrow> r = Stop True \<and> bit (cr0 (ctx m')) 0"
  by (auto simp: boot_far_jmp_def Option.bind_eq_Some_conv bit_or_iff split: if_splits)

lemma boot_0f_go: "boot_0f p pa e m = Some (r, m') \<Longrightarrow> r \<noteq> Stop True"
  by (auto simp: boot_0f_def boot_descriptor_def Let_def Option.bind_eq_Some_conv split: if_splits)

lemma boot_insn_stop:
  assumes "boot_insn e m = Some (Stop True, m')"
  shows "bit (cr0 (ctx m')) 0"
  using assms
  by (auto simp: boot_insn_def Let_def Option.bind_eq_Some_conv dest: boot_0f_go boot_far_jmp_stop split: if_splits)

lemma boot_success:
  assumes "interpret_real_mode_boot m = Some (True, m')"
  shows "bit (cr0 (ctx m')) 0"
proof -
  have "boot_steps k e m = Some (True, m') \<Longrightarrow> bit (cr0 (ctx m')) 0" for k e m
    by (induction k arbitrary: e m) (auto dest: boot_insn_stop split: option.splits boot_step.splits)
  then show ?thesis using assms by (simp add: interpret_real_mode_boot_def)
qed

text \<open>A prefix followed by a NOP: the NOP is taken twice, so the opcode after it is decoded with its
  operands, and the instruction pointer, one byte too far.\<close>

lemma nop_after_prefix:
  assumes "fetch_byte (CS_BASE + e) m = Some (0xFC, m)" and "fetch_byte (CS_BASE + (e + 1)) m = Some (0x90, m)"
    and "fetch_byte (CS_BASE + (e + 2)) m = Some (b, m)" and "\<not> is_prefix b"
  shows "\<exists>p. start_prefixes e m = Some (p, m) \<and> pf_byte p = b
    \<and> pf_pa p + prefix_len p = CS_BASE + (e + 2) + 1 \<and> pf_eip p + prefix_len p = (e + 2) + 1"
proof -
  define p where "p = \<lparr>pf_byte = 0xFC, pf_pa = CS_BASE + e, pf_eip = e, has_66 = False, has_seg = False,
     seg_base = CS_BASE, prefix_len = 0\<rparr>"
  have s1: "skip_prefixes p m = skip_prefixes (p\<lparr>pf_byte := 0x90, prefix_len := 1\<rparr>) m"
    using assms(2) by (subst skip_prefixes.simps) (simp add: p_def is_prefix_def prefix_step_def add.assoc)
  have s2: "skip_prefixes (p\<lparr>pf_byte := 0x90, prefix_len := 1\<rparr>) m =
      skip_prefixes (p\<lparr>pf_byte := 0x90, prefix_len := 1, pf_pa := CS_BASE + (e + 1), pf_eip := e + 1\<rparr>) m"
    using assms(2) by (subst skip_prefixes.simps) (simp add: p_def is_prefix_def prefix_step_def Let_def)
  have s3: "skip_prefixes (p\<lparr>pf_byte := 0x90, prefix_len := 1, pf_pa := CS_BASE + (e + 1), pf_eip := e + 1\<rparr>) m =
      skip_prefixes (p\<lparr>pf_byte := b, prefix_len := 1, pf_pa := CS_BASE + (e + 2), pf_eip := e + 2\<rparr>) m"
    using assms(3) by (subst skip_prefixes.simps) (simp add: p_def is_prefix_def prefix_step_def Let_def add.assoc)
  have s4: "skip_prefixes (p\<lparr>pf_byte := b, prefix_len := 1, pf_pa := CS_BASE + (e + 2), pf_eip := e + 2\<rparr>) m =
      Some (p\<lparr>pf_byte := b, prefix_len := 1, pf_pa := CS_BASE + (e + 2), pf_eip := e + 2\<rparr>, m)"
    using assms(4) by (subst skip_prefixes.simps) simp
  have s0: "start_prefixes e m = skip_prefixes p m" using assms(1) by (simp add: start_prefixes_def p_def)
  show ?thesis unfolding s0 s1 s2 s3 s4 by simp
qed

end
