(* ===== verification/Bcd.thy ===== *)
theory Bcd
  imports Prelude
begin

text \<open>
  The decimal adjustments that 64-bit hosts no longer have (DAA, DAS, AAA, AAS, AAM, AAD and SALC in
  \<open>src/src/cpu/privileged.cpp\<close>), on the accumulator and the flags, and the processor manual's definition of
  DAA and DAS to compare with.
\<close>

section \<open>As the emulator computes them\<close>

abbreviation FLAG_CF :: u32 where "FLAG_CF \<equiv> 0x01"
abbreviation FLAG_PF :: u32 where "FLAG_PF \<equiv> 0x04"
abbreviation FLAG_AF :: u32 where "FLAG_AF \<equiv> 0x10"
abbreviation FLAG_ZF :: u32 where "FLAG_ZF \<equiv> 0x40"
abbreviation FLAG_SF :: u32 where "FLAG_SF \<equiv> 0x80"

definition odd_parity :: "u8 \<Rightarrow> bool" where
  "odd_parity al =
     (let p = al XOR drop_bit 4 al; p = p XOR drop_bit 2 p; p = p XOR drop_bit 1 p in p AND 1 \<noteq> 0)"

definition result_flags :: "u8 \<Rightarrow> u32 \<Rightarrow> u32" where
  "result_flags al ef =
     (let ef = ef AND NOT (FLAG_SF OR FLAG_ZF OR FLAG_PF);
          ef = (if al = 0 then ef OR FLAG_ZF else ef);
          ef = (if al AND 0x80 \<noteq> 0 then ef OR FLAG_SF else ef)
      in if odd_parity al then ef else ef OR FLAG_PF)"

definition daa :: "u8 \<Rightarrow> u32 \<Rightarrow> u8 \<times> u32" where
  "daa al ef =
     (let old_cf = (ef AND FLAG_CF \<noteq> 0); old_af = (ef AND FLAG_AF \<noteq> 0);
          ef = ef AND NOT FLAG_CF;
          (al, ef) = (if al AND 0x0F > 9 \<or> old_af
             then let al = al + 6; ef = ef OR FLAG_AF in (al, if old_cf \<or> al < 6 then ef OR FLAG_CF else ef)
             else (al, ef AND NOT FLAG_AF));
          (al, ef) = (if al > 0x9F \<or> old_cf then (al + 0x60, ef OR FLAG_CF) else (al, ef))
      in (al, result_flags al ef))"

definition das :: "u8 \<Rightarrow> u32 \<Rightarrow> u8 \<times> u32" where
  "das al ef =
     (let old_cf = (ef AND FLAG_CF \<noteq> 0); old_af = (ef AND FLAG_AF \<noteq> 0);
          ef = ef AND NOT FLAG_CF;
          (al, ef) = (if al AND 0x0F > 9 \<or> old_af
             then let ef = ef OR FLAG_AF in (al - 6, if old_cf \<or> al < 6 then ef OR FLAG_CF else ef)
             else (al, ef AND NOT FLAG_AF));
          (al, ef) = (if al > 0x9F \<or> old_cf then (al - 0x60, ef OR FLAG_CF) else (al, ef))
      in (al, result_flags al ef))"

text \<open>The unpacked adjustments take and give AL and AH.\<close>

definition aaa :: "u8 \<times> u8 \<Rightarrow> u32 \<Rightarrow> (u8 \<times> u8) \<times> u32" where
  "aaa a ef =
     (let (al, ah) = a;
          ((al, ah), ef) = (if al AND 0x0F > 9 \<or> ef AND FLAG_AF \<noteq> 0 then ((al + 6, ah + 1), ef OR 0x11)
             else ((al, ah), ef AND NOT 0x11))
      in ((al AND 0x0F, ah), ef))"

definition aas :: "u8 \<times> u8 \<Rightarrow> u32 \<Rightarrow> (u8 \<times> u8) \<times> u32" where
  "aas a ef =
     (let (al, ah) = a;
          ((al, ah), ef) = (if al AND 0x0F > 9 \<or> ef AND FLAG_AF \<noteq> 0 then ((al - 6, ah - 1), ef OR 0x11)
             else ((al, ah), ef AND NOT 0x11))
      in ((al AND 0x0F, ah), ef))"

text \<open>A zero base is a divide error.\<close>

definition aam :: "u8 \<Rightarrow> u8 \<Rightarrow> u32 \<Rightarrow> ((u8 \<times> u8) \<times> u32) option" where
  "aam base al ef =
     (if base = 0 then None
      else let ah = al div base; al = al mod base in Some ((al, ah), result_flags al ef))"

definition aad :: "u8 \<Rightarrow> u8 \<times> u8 \<Rightarrow> u32 \<Rightarrow> (u8 \<times> u8) \<times> u32" where
  "aad base a ef = (let (al, ah) = a; al = ah * base + al in ((al, 0), result_flags al ef))"

definition salc :: "u32 \<Rightarrow> u8" where
  "salc ef = (if ef AND FLAG_CF \<noteq> 0 then 0xFF else 0)"

section \<open>As the processor's manual defines them\<close>

text \<open>Both corrections are decided on the original AL and carry.\<close>

definition daa_manual :: "u8 \<Rightarrow> bool \<Rightarrow> bool \<Rightarrow> u8 \<times> bool \<times> bool" where
  "daa_manual al cf af =
     (let lo = (al AND 0x0F > 9 \<or> af); hi = (al > 0x99 \<or> cf);
          r = al + (if lo then 6 else 0) + (if hi then 0x60 else 0)
      in (r, hi, lo))"

definition das_manual :: "u8 \<Rightarrow> bool \<Rightarrow> bool \<Rightarrow> u8 \<times> bool \<times> bool" where
  "das_manual al cf af =
     (let lo = (al AND 0x0F > 9 \<or> af); hi = (al > 0x99 \<or> cf);
          r = al - (if lo then 6 else 0) - (if hi then 0x60 else 0)
      in (r, hi \<or> (lo \<and> (cf \<or> al < 6)), lo))"

definition adjusted :: "u8 \<times> u32 \<Rightarrow> u8 \<times> bool \<times> bool" where
  "adjusted r = (fst r, snd r AND FLAG_CF \<noteq> 0, snd r AND FLAG_AF \<noteq> 0)"

text \<open>Sign, zero and parity (an even number of ones) are those of the result; the other flags stay.\<close>

definition ones :: "u8 \<Rightarrow> nat" where
  "ones v = length (filter (bit v) [0..<8])"

definition status_manual :: "u32 \<Rightarrow> u8 \<times> u32 \<Rightarrow> bool" where
  "status_manual ef r \<longleftrightarrow>
     (snd r AND FLAG_SF \<noteq> 0 \<longleftrightarrow> bit (fst r) 7) \<and> (snd r AND FLAG_ZF \<noteq> 0 \<longleftrightarrow> fst r = 0)
     \<and> (snd r AND FLAG_PF \<noteq> 0 \<longleftrightarrow> even (ones (fst r)))
     \<and> (\<forall>k. k \<notin> {0, 2, 4, 6, 7} \<longrightarrow> bit (snd r) k = bit ef k)"

text \<open>Where they differ from the manual.\<close>

definition daa_off :: "u8 \<Rightarrow> bool \<Rightarrow> bool" where
  "daa_off al cf \<longleftrightarrow> \<not> cf \<and> al \<ge> 0xFA"

definition das_off :: "u8 \<Rightarrow> bool \<Rightarrow> bool \<Rightarrow> bool" where
  "das_off al cf af \<longleftrightarrow> \<not> cf \<and> (0x9A \<le> al \<and> al \<le> 0x9F \<or> af \<and> (al < 6 \<or> 0xA0 \<le> al \<and> al \<le> 0xA5))"

section \<open>Comparison\<close>

text \<open>The flags of the result do not touch carry and adjust.\<close>

lemma result_flags_keep: "bit (result_flags al ef) 0 = bit ef 0" "bit (result_flags al ef) 4 = bit ef 4"
  by (simp_all add: result_flags_def Let_def bit_or_iff bit_and_iff bit_not_iff)

lemma odd_parity_ones: "odd_parity v \<longleftrightarrow> odd (ones v)"
proof -
  have "[0..<8] = [0, 1, 2, 3, 4, 5, 6, 7 :: nat]" by (simp add: upt_rec)
  then have n: "ones v = of_bool (bit v 0) + of_bool (bit v 1) + of_bool (bit v 2) + of_bool (bit v 3) + of_bool (bit v 4)
      + of_bool (bit v 5) + of_bool (bit v 6) + of_bool (bit v 7)"
    unfolding ones_def by (simp only: filter.simps) (simp del: One_nat_def)
  have "odd_parity v \<longleftrightarrow> bit (let p = v XOR drop_bit 4 v; p = p XOR drop_bit 2 p in p XOR drop_bit 1 p) 0"
    by (simp add: odd_parity_def Let_def and_one_eq odd_iff_mod_2_eq_one bit_0)
  also have "\<dots> \<longleftrightarrow> ((((bit v 0 \<noteq> bit v 4) \<noteq> (bit v 2 \<noteq> bit v 6))
      \<noteq> ((bit v 1 \<noteq> bit v 5) \<noteq> (bit v 3 \<noteq> bit v 7))))"
    by (simp add: Let_def bit_xor_iff bit_drop_bit_eq del: bit_0 One_nat_def)
  also have "\<dots> \<longleftrightarrow> odd (ones v)"
  proof -
    have o: "even (of_bool b :: nat) \<longleftrightarrow> \<not> b" for b by simp
    show ?thesis unfolding n even_add o by argo
  qed
  finally show ?thesis .
qed

lemma flag_bits: "bit FLAG_CF k \<longleftrightarrow> k = 0" "bit FLAG_PF k \<longleftrightarrow> k = 2" "bit FLAG_AF k \<longleftrightarrow> k = 4"
  "bit FLAG_ZF k \<longleftrightarrow> k = 6" "bit FLAG_SF k \<longleftrightarrow> k = 7"
proof -
  have p: "bit (push_bit n 1 :: u32) k \<longleftrightarrow> k = n \<and> k < 32" for n
    by (auto simp: bit_push_bit_iff bit_1_iff simp del: push_bit_of_1)
  have e: "FLAG_PF = push_bit 2 1" "FLAG_AF = push_bit 4 1" "FLAG_ZF = push_bit 6 1" "FLAG_SF = push_bit 7 1"
    by simp_all
  show "bit FLAG_PF k \<longleftrightarrow> k = 2" "bit FLAG_AF k \<longleftrightarrow> k = 4" "bit FLAG_ZF k \<longleftrightarrow> k = 6" "bit FLAG_SF k \<longleftrightarrow> k = 7"
    unfolding e p by auto
qed (auto simp: bit_1_iff)

lemmas flag_ops = bit_and_iff bit_or_iff bit_not_iff flag_bits

lemma result_flags_bits:
  "bit (result_flags v ef) k \<longleftrightarrow> k < 32 \<and> (if k = 2 then \<not> odd_parity v else if k = 6 then v = 0
      else if k = 7 then bit v 7 else bit ef k)"
proof -
  have s: "v AND 0x80 \<noteq> 0 \<longleftrightarrow> bit v 7" by (simp add: tst_bits)
  show ?thesis
    using bit_imp_le_length [of ef k]
    unfolding result_flags_def Let_def s by (simp only: flag_ops split: if_split) auto
qed

lemma result_status:
  assumes "\<And>k. k \<notin> {0, 4} \<Longrightarrow> bit ef' k = bit ef k"
  shows "status_manual ef (v, result_flags v ef')"
proof -
  have "bit ef' k = bit ef k" if "k \<notin> {0, 2, 4, 6, 7}" for k using assms that by simp
  then show ?thesis
    using bit_imp_le_length [of ef] by (auto simp: status_manual_def tst_bits result_flags_bits odd_parity_ones)
qed

lemma low_digit: "al AND 0x0F > 9 \<longleftrightarrow> unat al mod 16 > 9" for al :: u8
  using unat_and_mask [of al 4] by (simp add: word_less_nat_alt mask_eq_exp_minus_1)

text \<open>The comparisons of the code against those of the manual, in numbers.\<close>

lemma nat_add_6:
  fixes a :: nat
  assumes "a < 256"
  shows "(159 < (a + 6) mod 256) = (153 < a \<and> a < 250)" "((a + 6) mod 256 < 6) = (250 \<le> a)"
proof -
  have "(a + 6) mod 256 = (if a < 250 then a + 6 else a - 250)" using assms by (simp add: mod_if)
  then show "(159 < (a + 6) mod 256) = (153 < a \<and> a < 250)" "((a + 6) mod 256 < 6) = (250 \<le> a)"
    using assms by auto
qed

lemma add_6: "al + 6 > 0x9F \<longleftrightarrow> 0x99 < al \<and> al < 0xFA" "al + 6 < 6 \<longleftrightarrow> 0xFA \<le> al" for al :: u8
  using nat_add_6 [OF unat_u8 [of al]]
  by (simp_all add: word_less_nat_alt word_le_nat_alt unat_word_ariths(1))

lemma sub_6: "al - 6 > 0x9F \<longleftrightarrow> al < 6 \<or> 0xA5 < al" for al :: u8
proof -
  have "unat (al - 6) = (if unat al < 6 then unat al + 250 else unat al - 6)"
    by (simp add: unat_sub_if_size word_size)
  then show ?thesis
    by (cases "unat al < 6") (auto simp: word_less_nat_alt word_le_nat_alt)
qed

lemma nat_no_low: "\<not> 9 < a mod 16 \<Longrightarrow> (159 < a) = (153 < (a :: nat))"
  by presburger

lemma nat_low: "154 \<le> a \<Longrightarrow> a \<le> 159 \<Longrightarrow> 9 < a mod (16 :: nat)" "250 \<le> a \<Longrightarrow> a < 256 \<Longrightarrow> 9 < a mod (16 :: nat)"
  by presburger+

lemma no_low: "\<not> al AND 0x0F > 9 \<Longrightarrow> al > 0x9F \<longleftrightarrow> al > 0x99" for al :: u8
  unfolding low_digit using nat_no_low [of "unat al"] by (simp add: word_less_nat_alt)

lemma top_low: "0xFA \<le> al \<Longrightarrow> al AND 0x0F > 9" for al :: u8
  unfolding low_digit using nat_low(2) [OF _ unat_u8, of al] by (simp add: word_le_nat_alt)

lemma nat_das:
  fixes a :: nat
  assumes "9 < a mod 16 \<or> af"
  shows "((a < 6 \<or> 165 < a) = (153 < a)) = (\<not> (154 \<le> a \<and> a \<le> 159 \<or> af \<and> (a < 6 \<or> 160 \<le> a \<and> a \<le> 165)))"
proof -
  have "a < 6 \<Longrightarrow> \<not> 9 < a mod 16" "160 \<le> a \<Longrightarrow> a \<le> 165 \<Longrightarrow> \<not> 9 < a mod 16" by presburger+
  then show ?thesis using assms by (cases "a < 6"; cases "a \<le> 153"; cases "a \<le> 159"; cases "a \<le> 165") auto
qed

lemma das_high:
  "al AND 0x0F > 9 \<or> af \<Longrightarrow> (al - 6 > 0x9F) = (al > 0x99) \<longleftrightarrow> \<not> das_off al False af"
  using nat_das [of "unat al" af]
  by (simp only: low_digit sub_6 das_off_def) (simp add: word_less_nat_alt word_le_nat_alt)

lemma das_no_low: "\<not> (al AND 0x0F > 9 \<or> af) \<Longrightarrow> \<not> das_off al cf af"
  using nat_low(1) [of "unat al"] by (auto simp: low_digit das_off_def word_le_nat_alt)

text \<open>C26: DAA and DAS do what the manual says, results and flags (sign, zero and parity of the result,
  carry and adjust, the others unchanged), on every accumulator, carry and adjust, but: DAA without a carry on 0xFA to 0xFF, where adding 6 wraps around, leaves out the
  correction of the high digit; and DAS without a carry decides it on the corrected accumulator, which
  is wrong exactly for 0x9A to 0x9F, and with the adjust flag for 0 to 5 and 0xA0 to 0xA5.\<close>
theorem decimal_adjust_manual:
  "adjusted (daa al ef) = (let m = daa_manual al (bit ef 0) (bit ef 4) in
      if daa_off al (bit ef 0) then (fst m - 0x60, snd m) else m)
   \<and> (adjusted (das al ef) = das_manual al (bit ef 0) (bit ef 4) \<longleftrightarrow> \<not> das_off al (bit ef 0) (bit ef 4))
   \<and> status_manual ef (daa al ef) \<and> status_manual ef (das al ef)"
proof (intro conjI)
  define cf af where "cf = bit ef 0" and "af = bit ef 4"
  define lo where "lo \<longleftrightarrow> al AND 0x0F > 9 \<or> af"
  have t: "(ef AND FLAG_CF \<noteq> 0) = cf" "(ef AND FLAG_AF \<noteq> 0) = af" by (simp_all add: cf_def af_def tst_bits)
  have fl: "adjusted (x, result_flags y z) = (x, bit z 0, bit z 4)" for x y z
    by (simp add: adjusted_def tst_bits result_flags_keep)
  have top: "lo" if "0xFA \<le> al" using top_low [OF that] by (simp add: lo_def)
  have hi: "0x99 < al" if "0xFA \<le> al" using that by (simp add: word_less_nat_alt word_le_nat_alt)
  have d: "adjusted (daa al ef) = (let r = (if lo then al + 6 else al); hi = (r > 0x9F \<or> cf) in
      (if hi then r + 0x60 else r, hi \<or> lo \<and> (cf \<or> al + 6 < 6), lo))"
    unfolding daa_def Let_def t lo_def [symmetric]
    by (cases lo; cases cf) (auto simp: fl bit_or_iff bit_and_iff bit_not_iff)
  show "adjusted (daa al ef) = (let m = daa_manual al (bit ef 0) (bit ef 4) in
      if daa_off al (bit ef 0) then (fst m - 0x60, snd m) else m)"
    unfolding d daa_manual_def daa_off_def cf_def [symmetric] af_def [symmetric] lo_def [symmetric] Let_def
    using top hi no_low [of al]
    by (cases lo; cases cf) (auto simp: add_6 lo_def)
  have s: "adjusted (das al ef) = (let r = (if lo then al - 6 else al); hi = (r > 0x9F \<or> cf) in
      (if hi then r - 0x60 else r, hi \<or> lo \<and> (cf \<or> al < 6), lo))"
    unfolding das_def Let_def t lo_def [symmetric]
    by (cases lo; cases cf) (auto simp: fl bit_or_iff bit_and_iff bit_not_iff)
  have "(adjusted (das al ef) = das_manual al cf af) = (\<not> das_off al cf af)"
  proof (cases "lo \<and> \<not> cf")
    case True
    then have "(al - 6 > 0x9F) = (al > 0x99) \<longleftrightarrow> \<not> das_off al cf af" using das_high by (simp add: lo_def)
    then show ?thesis unfolding s das_manual_def lo_def [symmetric] Let_def
      using True by (cases "al - 6 > 0x9F"; cases "al > 0x99") auto
  next
    case False
    then show ?thesis unfolding s das_manual_def lo_def [symmetric] Let_def
      using no_low [of al] das_no_low [of al af cf] by (cases cf) (auto simp: lo_def das_off_def)
  qed
  then show "adjusted (das al ef) = das_manual al (bit ef 0) (bit ef 4) \<longleftrightarrow> \<not> das_off al (bit ef 0) (bit ef 4)"
    by (simp only: cf_def af_def)
  note st = if_True if_False simp_thms prod.case
  show "status_manual ef (daa al ef)"
    unfolding daa_def Let_def t lo_def [symmetric]
    by (cases lo; cases cf; simp only: st split: if_split; (intro conjI impI)?; rule result_status;
        simp only: flag_ops; use bit_imp_le_length [of ef] in fastforce)
  show "status_manual ef (das al ef)"
    unfolding das_def Let_def t lo_def [symmetric]
    by (cases lo; cases cf; simp only: st split: if_split; (intro conjI impI)?; rule result_status;
        simp only: flag_ops; use bit_imp_le_length [of ef] in fastforce)
qed

text \<open>Packed decimal 99 + 61 is 0xFA before the adjustment: the emulator's digits are 00, not 60.\<close>

lemma daa_99_61: "fst (daa (0x99 + 0x61) 0) = 0x00" "fst (daa_manual (0x99 + 0x61) False False) = 0x60"
  by code_simp+

end
