(* ===== verification/Insn.thy ===== *)
theory Insn
  imports Prelude
begin

text \<open>
  Decoded instructions, as far as \<open>src/src/cpu/privileged.cpp\<close> reads them.  Decoding is done by a library
  outside the repository: a decoded instruction is an argument of the handlers.  The register encodings
  are those of \<open>src/src/cpu/emitter.hpp\<close>.
\<close>

section \<open>Decoded instructions\<close>

datatype reg_name = Gp32 nat | Gp16 nat | Gp8 nat | High8 nat | Cr nat | Dr nat | Seg nat | NoReg | OtherReg

record mem_operand =
  mem_base :: reg_name
  mem_index :: reg_name
  mem_scale :: u8
  mem_disp :: "int option"

datatype operand = RegOp reg_name | MemOp mem_operand | ImmOp u64 | NoOp

datatype mnemonic = HLT | CLI | STI | CPUID | RDTSC | RDMSR | WRMSR | LGDT | LIDT | LLDT | LTR | SLDT | STR_N
  | SGDT | SIDT | MOV | INVLPG | RDPMC | WBINVD | INVD | CLTS | LMSW | SYSENTER | SYSEXIT | INT3 | INT1 | INT_N
  | INTO | OUT_P | IN_P | INSB | INSW | INSD | OUTSB | OUTSW | OUTSD | LES | LDS | DAA | DAS | AAA | AAS | AAM
  | AAD | SALC | PUSHA | PUSHAD | POPA | POPAD | BOUND | ARPL | OtherMnemonic

record insn =
  mnem :: mnemonic
  ilen :: u8
  op0 :: operand
  op1 :: operand
  op0_size :: nat
  op1_size :: nat
  visible_ops :: nat
  has_rep :: bool

text \<open>Register numbers: the 32-bit registers, and the registers the guest's other encodings name.\<close>

fun reg32_enc :: "reg_name \<Rightarrow> nat option" where
  "reg32_enc (Gp32 i) = Some i"
| "reg32_enc _ = None"

fun guest_reg_enc :: "reg_name \<Rightarrow> nat option" where
  "guest_reg_enc (Gp32 i) = Some i"
| "guest_reg_enc (Gp16 i) = Some i"
| "guest_reg_enc (Gp8 i) = Some i"
| "guest_reg_enc _ = None"

text \<open>The 32-bit register of a 16-bit one, by its distance in the library's enumeration.\<close>

fun widen16 :: "reg_name \<Rightarrow> nat option" where
  "widen16 (Gp16 i) = Some i"
| "widen16 _ = None"

end
