(* ===== verification/Privileged.thy ===== *)
theory Privileged
  imports Interrupts Trace_Links Bcd Insn
begin

text \<open>
  The instructions translated code stops at (\<open>src/src/cpu/privileged.cpp\<close>).  Decoding is done by a library:
  the decoded instruction is an argument, with the fields of it the code reads.  The host's time-stamp
  counter and the handler for emulated kernel calls are arguments too.
\<close>

section \<open>Addresses\<close>

definition compute_ea :: "mem_operand \<Rightarrow> guest_context \<Rightarrow> u32" where
  "compute_ea mo c =
     (let ea = (case mem_disp mo of Some d \<Rightarrow> word_of_int d | None \<Rightarrow> 0);
          ea = (case reg32_enc (mem_base mo) of Some i \<Rightarrow> ea + gp c i | None \<Rightarrow> ea)
      in case reg32_enc (mem_index mo) of Some i \<Rightarrow> ea + gp c i * ucast (mem_scale mo) | None \<Rightarrow> ea)"

section \<open>Memory as the handlers access it\<close>

text \<open>The bound check of the code wraps around at the end of the address space.\<close>

definition fits :: "u32 \<Rightarrow> nat \<Rightarrow> bool" where
  "fits pa n \<longleftrightarrow> pa + of_nat n \<le> of_nat GUEST_RAM_SIZE"

definition advance :: "insn \<Rightarrow> machine \<Rightarrow> machine" where
  "advance i = upd_ctx (\<lambda>c. c\<lparr>eip := eip c + ucast (ilen i)\<rparr>)"

definition page_fault :: "u32 \<Rightarrow> machine \<Rightarrow> machine option" where
  "page_fault err m = deliver_interrupt 14 (eip (ctx m)) (Some err) m"

text \<open>A read of one value; \<open>None\<close> inside when neither memory nor a device is there.\<close>

definition load_fit :: "nat \<Rightarrow> u32 \<Rightarrow> machine \<Rightarrow> (u32 option \<times> machine) option" where
  "load_fit n pa m =
     (if fits pa n then map_option (\<lambda>v. (Some v, m)) (ram_rd n pa m)
      else if mmio m \<noteq> None then map_option (\<lambda>(v, m). (Some v, m)) (bus_read pa n m)
      else Some (None, m))"

definition store_fit :: "nat \<Rightarrow> u32 \<Rightarrow> u32 \<Rightarrow> machine \<Rightarrow> machine option" where
  "store_fit n pa v m = (if fits pa n then ram_wr n pa v m else bus_write pa v n m)"

text \<open>Two values next to each other, of 2 and 4 bytes or of 4 and 2.\<close>

definition load_pair :: "nat \<Rightarrow> nat \<Rightarrow> u32 \<Rightarrow> machine \<Rightarrow> ((u32 \<times> u32) option \<times> machine) option" where
  "load_pair a b pa m =
     (if fits pa 6 then do {
        x \<leftarrow> ram_rd a pa m;
        y \<leftarrow> rd GUEST_RAM_SIZE b (ram m) (unat pa + a);
        Some (Some (x, y), m)
      } else if mmio m \<noteq> None then do {
        (x, m) \<leftarrow> bus_read pa a m;
        (y, m) \<leftarrow> bus_read (pa + of_nat a) b m;
        Some (Some (x, y), m)
      } else Some (None, m))"

definition store_pair :: "u32 \<Rightarrow> u32 \<Rightarrow> u32 \<Rightarrow> machine \<Rightarrow> machine option" where
  "store_pair pa limit base m =
     (if fits pa 6 then do {
        m \<leftarrow> ram_wr 2 pa limit m;
        map_option (\<lambda>b. set_mem b m) (wr GUEST_RAM_SIZE 4 (ram m) (unat pa + 2) base)
      } else do {
        m \<leftarrow> bus_write pa limit 2 m;
        bus_write (pa + 2) base 4 m
      })"

text \<open>The address of a memory operand, then what the instruction does there; a fault is delivered.\<close>

definition at_operand :: "mem_operand \<Rightarrow> bool \<Rightarrow> (u32 \<Rightarrow> machine \<Rightarrow> machine option) \<Rightarrow> machine \<Rightarrow> machine option" where
  "at_operand mo w f m = do {
     (pa, m) \<leftarrow> exec_translate (compute_ea mo (ctx m)) w m;
     case pa of None \<Rightarrow> page_fault (if w then 2 else 0) m | Some pa \<Rightarrow> f pa m
   }"

section \<open>Segments\<close>

definition load_segment_base :: "u16 \<Rightarrow> machine \<Rightarrow> (u32 \<times> machine) option" where
  "load_segment_base sel m =
     (if sel = 0 then Some (0, m)
      else do {
        (pa, m) \<leftarrow> exec_translate (gdtr_base (ctx m) + ucast (drop_bit 3 sel) * 8) False m;
        case pa of
          None \<Rightarrow> Some (0, m)
        | Some pa \<Rightarrow>
            if fits pa 8 then do {
              lo \<leftarrow> rd GUEST_RAM_SIZE 2 (ram m) (unat pa + 2);
              mid \<leftarrow> rd GUEST_RAM_SIZE 1 (ram m) (unat pa + 4);
              hi \<leftarrow> rd GUEST_RAM_SIZE 1 (ram m) (unat pa + 7);
              Some (lo OR push_bit 16 mid OR push_bit 24 hi, m)
            } else if mmio m \<noteq> None then do {
              (_, m) \<leftarrow> bus_read pa 1 m;
              (_, m) \<leftarrow> bus_read (pa + 1) 1 m;
              (d2, m) \<leftarrow> bus_read (pa + 2) 1 m;
              (d3, m) \<leftarrow> bus_read (pa + 3) 1 m;
              (d4, m) \<leftarrow> bus_read (pa + 4) 1 m;
              (_, m) \<leftarrow> bus_read (pa + 5) 1 m;
              (_, m) \<leftarrow> bus_read (pa + 6) 1 m;
              (d7, m) \<leftarrow> bus_read (pa + 7) 1 m;
              Some ((d2 AND 0xFF) OR push_bit 8 (d3 AND 0xFF) OR push_bit 16 (d4 AND 0xFF)
                OR push_bit 24 (d7 AND 0xFF), m)
            } else Some (0, m)
      })"

definition seg_sel :: "nat \<Rightarrow> guest_context \<Rightarrow> u16" where
  "seg_sel i c = (if i = 0 then es_sel c else if i = 1 then cs_sel c else if i = 2 then ss_sel c
     else if i = 3 then ds_sel c else if i = 4 then fs_sel c else gs_sel c)"

definition set_seg_sel :: "nat \<Rightarrow> u16 \<Rightarrow> guest_context \<Rightarrow> guest_context" where
  "set_seg_sel i v c =
     (if i = 0 then c\<lparr>es_sel := v\<rparr> else if i = 1 then c\<lparr>cs_sel := v\<rparr> else if i = 2 then c\<lparr>ss_sel := v\<rparr>
      else if i = 3 then c\<lparr>ds_sel := v\<rparr> else if i = 4 then c\<lparr>fs_sel := v\<rparr> else c\<lparr>gs_sel := v\<rparr>)"

section \<open>Processor identification and model-specific registers\<close>

definition set_regs :: "(nat \<times> u32) list \<Rightarrow> machine \<Rightarrow> machine" where
  "set_regs rs m = fold (\<lambda>(r, v). set_reg r v) rs m"

definition priv_cpuid :: "machine \<Rightarrow> machine" where
  "priv_cpuid m =
     (let leaf = reg GP_EAX m in
      if leaf = 0 then set_regs [(GP_EAX, 2), (GP_EBX, 0x756E6547), (GP_EDX, 0x49656E69), (GP_ECX, 0x6C65746E)] m
      else if leaf = 1 then set_regs [(GP_EAX, 0x683), (GP_EBX, 0), (GP_ECX, 0), (GP_EDX, 0x0383F9FF)] m
      else set_regs [(GP_EAX, 0), (GP_EBX, 0), (GP_ECX, 0), (GP_EDX, 0)] m)"

definition set_edx_eax :: "u64 \<Rightarrow> machine \<Rightarrow> machine" where
  "set_edx_eax v = set_regs [(GP_EAX, ucast v), (GP_EDX, ucast (drop_bit 32 v))]"

abbreviation MSR_TSC :: u32 where "MSR_TSC \<equiv> 0x10"
abbreviation MSR_SYSENTER_CS :: u32 where "MSR_SYSENTER_CS \<equiv> 0x174"
abbreviation MSR_SYSENTER_ESP :: u32 where "MSR_SYSENTER_ESP \<equiv> 0x175"
abbreviation MSR_SYSENTER_EIP :: u32 where "MSR_SYSENTER_EIP \<equiv> 0x176"
abbreviation MSR_MTRR_PHYSBASE0 :: u32 where "MSR_MTRR_PHYSBASE0 \<equiv> 0x200"
abbreviation MSR_MTRR_FIX64K :: u32 where "MSR_MTRR_FIX64K \<equiv> 0x250"
abbreviation MSR_MTRR_FIX16K_80000 :: u32 where "MSR_MTRR_FIX16K_80000 \<equiv> 0x258"
abbreviation MSR_MTRR_FIX16K_A0000 :: u32 where "MSR_MTRR_FIX16K_A0000 \<equiv> 0x259"
abbreviation MSR_MTRR_FIX4K_BASE :: u32 where "MSR_MTRR_FIX4K_BASE \<equiv> 0x268"
abbreviation MSR_MTRR_FIX4K_END :: u32 where "MSR_MTRR_FIX4K_END \<equiv> 0x26F"
abbreviation MSR_MTRR_DEF_TYPE :: u32 where "MSR_MTRR_DEF_TYPE \<equiv> 0xFE"
abbreviation MSR_MTRRCAP :: u32 where "MSR_MTRRCAP \<equiv> 0x2FF"

definition rdmsr :: "u64 \<Rightarrow> u32 \<Rightarrow> guest_context \<Rightarrow> u64 option" where
  "rdmsr tsc msr c =
     (if msr = MSR_SYSENTER_CS then Some (ucast (sysenter_cs c))
      else if msr = MSR_SYSENTER_ESP then Some (ucast (sysenter_esp c))
      else if msr = MSR_SYSENTER_EIP then Some (ucast (sysenter_eip c))
      else if msr = MSR_TSC then Some tsc
      else if msr = MSR_MTRR_DEF_TYPE then Some (mtrr_def_type c)
      else if msr = MSR_MTRRCAP then Some 0x508
      else if msr = MSR_MTRR_FIX64K then Some (mtrr_fix64k c)
      else if msr = MSR_MTRR_FIX16K_80000 then Some (mtrr_fix16k c 0)
      else if msr = MSR_MTRR_FIX16K_A0000 then Some (mtrr_fix16k c 1)
      else if msr \<ge> MSR_MTRR_PHYSBASE0 \<and> msr \<le> 0x20F then
        aread 8 (if msr AND 1 \<noteq> 0 then mtrr_physmask c else mtrr_physbase c) (unat (msr - MSR_MTRR_PHYSBASE0) div 2)
      else if msr \<ge> MSR_MTRR_FIX4K_BASE \<and> msr \<le> MSR_MTRR_FIX4K_END then
        aread 8 (mtrr_fix4k c) (unat (msr - MSR_MTRR_FIX4K_BASE))
      else Some 0)"

definition wrmsr :: "u32 \<Rightarrow> u64 \<Rightarrow> guest_context \<Rightarrow> guest_context option" where
  "wrmsr msr v c =
     (if msr = MSR_SYSENTER_CS then Some (c\<lparr>sysenter_cs := ucast v\<rparr>)
      else if msr = MSR_SYSENTER_ESP then Some (c\<lparr>sysenter_esp := ucast v\<rparr>)
      else if msr = MSR_SYSENTER_EIP then Some (c\<lparr>sysenter_eip := ucast v\<rparr>)
      else if msr = MSR_MTRR_DEF_TYPE then Some (c\<lparr>mtrr_def_type := v\<rparr>)
      else if msr = MSR_MTRR_FIX64K then Some (c\<lparr>mtrr_fix64k := v\<rparr>)
      else if msr = MSR_MTRR_FIX16K_80000 then Some (c\<lparr>mtrr_fix16k := (mtrr_fix16k c)(0 := v)\<rparr>)
      else if msr = MSR_MTRR_FIX16K_A0000 then Some (c\<lparr>mtrr_fix16k := (mtrr_fix16k c)(1 := v)\<rparr>)
      else if msr \<ge> MSR_MTRR_PHYSBASE0 \<and> msr \<le> 0x20F then
        let idx = unat (msr - MSR_MTRR_PHYSBASE0) div 2 in
        if msr AND 1 \<noteq> 0 then map_option (\<lambda>a. c\<lparr>mtrr_physmask := a\<rparr>) (awrite 8 (mtrr_physmask c) idx v)
        else map_option (\<lambda>a. c\<lparr>mtrr_physbase := a\<rparr>) (awrite 8 (mtrr_physbase c) idx v)
      else if msr \<ge> MSR_MTRR_FIX4K_BASE \<and> msr \<le> MSR_MTRR_FIX4K_END then
        map_option (\<lambda>a. c\<lparr>mtrr_fix4k := a\<rparr>) (awrite 8 (mtrr_fix4k c) (unat (msr - MSR_MTRR_FIX4K_BASE)) v)
      else Some c)"

definition priv_rdmsr :: "u64 \<Rightarrow> machine \<Rightarrow> machine option" where
  "priv_rdmsr tsc m = map_option (\<lambda>v. set_edx_eax v m) (rdmsr tsc (reg GP_ECX m) (ctx m))"

definition priv_wrmsr :: "machine \<Rightarrow> machine option" where
  "priv_wrmsr m =
     (let v = push_bit 32 (ucast (reg GP_EDX m)) OR ucast (reg GP_EAX m) in
      map_option (\<lambda>c. upd_ctx (\<lambda>_. c) m) (wrmsr (reg GP_ECX m) v (ctx m)))"

section \<open>Descriptor tables and system selectors\<close>

definition priv_load_table :: "(u16 \<Rightarrow> u32 \<Rightarrow> guest_context \<Rightarrow> guest_context) \<Rightarrow> insn \<Rightarrow> machine \<Rightarrow> machine option" where
  "priv_load_table upd i m =
     (case op0 i of
        MemOp mo \<Rightarrow> at_operand mo False (\<lambda>pa m. do {
            (r, m) \<leftarrow> load_pair 2 4 pa m;
            Some (advance i (case r of None \<Rightarrow> m | Some (limit, base) \<Rightarrow> upd_ctx (upd (ucast limit) base) m))
          }) m
      | _ \<Rightarrow> Some (advance i m))"

definition priv_lgdt :: "insn \<Rightarrow> machine \<Rightarrow> machine option" where
  "priv_lgdt = priv_load_table (\<lambda>l b c. c\<lparr>gdtr_limit := l, gdtr_base := b\<rparr>)"

definition priv_lidt :: "insn \<Rightarrow> machine \<Rightarrow> machine option" where
  "priv_lidt = priv_load_table (\<lambda>l b c. c\<lparr>idtr_limit := l, idtr_base := b\<rparr>)"

definition priv_store_table :: "(guest_context \<Rightarrow> u16 \<times> u32) \<Rightarrow> insn \<Rightarrow> machine \<Rightarrow> machine option" where
  "priv_store_table tab i m =
     (case op0 i of
        MemOp mo \<Rightarrow> at_operand mo True (\<lambda>pa m.
          map_option (advance i) (store_pair pa (ucast (fst (tab (ctx m)))) (snd (tab (ctx m))) m)) m
      | _ \<Rightarrow> Some (advance i m))"

definition priv_sgdt :: "insn \<Rightarrow> machine \<Rightarrow> machine option" where
  "priv_sgdt = priv_store_table (\<lambda>c. (gdtr_limit c, gdtr_base c))"

definition priv_sidt :: "insn \<Rightarrow> machine \<Rightarrow> machine option" where
  "priv_sidt = priv_store_table (\<lambda>c. (idtr_limit c, idtr_base c))"

text \<open>LLDT and LTR load 0 from a register without an encoding, or where there is no memory.\<close>

definition priv_load_sel :: "(u16 \<Rightarrow> guest_context \<Rightarrow> guest_context) \<Rightarrow> insn \<Rightarrow> machine \<Rightarrow> machine option" where
  "priv_load_sel upd i m =
     (case op0 i of
        RegOp r \<Rightarrow>
          let sel = (case guest_reg_enc r of Some k \<Rightarrow> ucast (reg k m) | None \<Rightarrow> 0) in
          Some (advance i (upd_ctx (upd sel) m))
      | MemOp mo \<Rightarrow> at_operand mo False (\<lambda>pa m. do {
            (v, m) \<leftarrow> load_fit 2 pa m;
            Some (advance i (upd_ctx (upd (case v of Some v \<Rightarrow> ucast v | None \<Rightarrow> 0)) m))
          }) m
      | _ \<Rightarrow> Some (advance i (upd_ctx (upd 0) m)))"

definition priv_lldt :: "insn \<Rightarrow> machine \<Rightarrow> machine option" where
  "priv_lldt = priv_load_sel (\<lambda>v c. c\<lparr>ldtr_sel := v\<rparr>)"

definition priv_ltr :: "insn \<Rightarrow> machine \<Rightarrow> machine option" where
  "priv_ltr = priv_load_sel (\<lambda>v c. c\<lparr>tr_sel := v\<rparr>)"

definition priv_store_sel :: "(guest_context \<Rightarrow> u16) \<Rightarrow> insn \<Rightarrow> machine \<Rightarrow> machine option" where
  "priv_store_sel sel i m =
     (case op0 i of
        RegOp r \<Rightarrow>
          Some (advance i (case guest_reg_enc r of Some k \<Rightarrow> set_reg k (ucast (sel (ctx m))) m | None \<Rightarrow> m))
      | MemOp mo \<Rightarrow> at_operand mo True (\<lambda>pa m. map_option (advance i) (store_fit 2 pa (ucast (sel (ctx m))) m)) m
      | _ \<Rightarrow> Some (advance i m))"

definition priv_sldt :: "insn \<Rightarrow> machine \<Rightarrow> machine option" where
  "priv_sldt = priv_store_sel ldtr_sel"

definition priv_str :: "insn \<Rightarrow> machine \<Rightarrow> machine option" where
  "priv_str = priv_store_sel tr_sel"

section \<open>MOV to and from control, debug and segment registers\<close>

definition get_cr :: "nat \<Rightarrow> guest_context \<Rightarrow> u32 option" where
  "get_cr n c = (if n = 0 then Some (cr0 c) else if n = 2 then Some (cr2 c) else if n = 3 then Some (cr3 c)
     else if n = 4 then Some (cr4 c) else None)"

definition set_cr :: "nat \<Rightarrow> u32 \<Rightarrow> guest_context \<Rightarrow> guest_context" where
  "set_cr n v c = (if n = 0 then c\<lparr>cr0 := v\<rparr> else if n = 2 then c\<lparr>cr2 := v\<rparr> else if n = 3 then c\<lparr>cr3 := v\<rparr>
     else if n = 4 then c\<lparr>cr4 := v\<rparr> else c)"

text \<open>Debug registers 4 and 5 are 6 and 7 unless CR4.DE is set.\<close>

definition dr_alias :: "nat \<Rightarrow> guest_context \<Rightarrow> nat" where
  "dr_alias n c = (if (n = 4 \<or> n = 5) \<and> cr4 c AND 8 = 0 then n + 2 else n)"

text \<open>CR3 flushes the TLB, CR0 the TLB and all translated code.\<close>

definition mov_to_cr :: "nat \<Rightarrow> u32 \<Rightarrow> executor \<Rightarrow> executor" where
  "mov_to_cr n v x =
     (let m = upd_ctx (set_cr n v) (mach x);
          m = (if n = 3 \<or> n = 0 then m\<lparr>tlb := tlb_flush (tlb m)\<rparr> else m);
          x = x\<lparr>mach := m\<rparr>
      in if n = 0 then flush_code x else x)"

definition any16_or_32 :: "reg_name \<Rightarrow> nat option" where
  "any16_or_32 r = (case reg32_enc r of Some g \<Rightarrow> Some g | None \<Rightarrow> widen16 r)"

text \<open>A segment register takes its value, and FS and GS their base from the descriptor table.\<close>

definition load_seg :: "nat \<Rightarrow> u16 \<Rightarrow> machine \<Rightarrow> machine option" where
  "load_seg n v m =
     (let m = upd_ctx (set_seg_sel n v) m in
      if n = 4 \<or> n = 5 then do {
        (base, m) \<leftarrow> load_segment_base v m;
        Some (upd_ctx (\<lambda>c. if n = 4 then c\<lparr>fs_base := base\<rparr> else c\<lparr>gs_base := base\<rparr>) m)
      } else Some m)"

definition mov_to_seg :: "insn \<Rightarrow> nat \<Rightarrow> machine \<Rightarrow> machine option" where
  "mov_to_seg i n m =
     (case op1 i of
        RegOp r \<Rightarrow>
          map_option (advance i) (load_seg n (case any16_or_32 r of Some g \<Rightarrow> ucast (reg g m) | None \<Rightarrow> 0) m)
      | MemOp mo \<Rightarrow> at_operand mo False (\<lambda>pa m. do {
            (v, m) \<leftarrow> (if unat pa < GUEST_RAM_SIZE then map_option (\<lambda>v. (v, m)) (ram_rd 2 pa m)
                       else if mmio m \<noteq> None then bus_read pa 2 m else Some (0, m));
            map_option (advance i) (load_seg n (ucast v) m)
          }) m
      | _ \<Rightarrow> map_option (advance i) (load_seg n 0 m))"

definition on_mach :: "(machine \<Rightarrow> machine option) \<Rightarrow> executor \<Rightarrow> executor option" where
  "on_mach f x = map_option (\<lambda>m. x\<lparr>mach := m\<rparr>) (f (mach x))"

definition priv_mov :: "insn \<Rightarrow> executor \<Rightarrow> executor option" where
  "priv_mov i x =
     (let m = mach x; c = ctx m; go = (\<lambda>x. Some (x\<lparr>mach := advance i (mach x)\<rparr>)) in
      case (op0 i, op1 i) of
        (RegOp (Cr n), RegOp (Gp32 g)) \<Rightarrow> if get_cr n c \<noteq> None then go (mov_to_cr n (reg g m) x) else go x
      | (RegOp (Gp32 g), RegOp (Cr n)) \<Rightarrow>
          (case get_cr n c of Some v \<Rightarrow> go (x\<lparr>mach := set_reg g v m\<rparr>) | None \<Rightarrow> go x)
      | (RegOp (Dr n), RegOp (Gp32 g)) \<Rightarrow>
          if n < 8 then go (x\<lparr>mach := upd_ctx (\<lambda>c. c\<lparr>dr := (dr c)(dr_alias n c := reg g m)\<rparr>) m\<rparr>) else go x
      | (RegOp (Gp32 g), RegOp (Dr n)) \<Rightarrow>
          if n < 8 then go (x\<lparr>mach := set_reg g (dr c (dr_alias n c)) m\<rparr>) else go x
      | (RegOp (Seg n), _) \<Rightarrow> on_mach (mov_to_seg i n) x
      | (RegOp r, RegOp (Seg n)) \<Rightarrow>
          (case any16_or_32 r of
             Some g \<Rightarrow> go (x\<lparr>mach := set_reg g ((reg g m AND 0xFFFF0000) OR ucast (seg_sel n c)) m\<rparr>)
           | None \<Rightarrow> go x)
      | _ \<Rightarrow> go x)"

section \<open>Calls, ports and string input and output\<close>

definition priv_sysenter :: "machine \<Rightarrow> machine option" where
  "priv_sysenter m =
     (let c = ctx m in
      if sysenter_cs c = 0 then deliver_interrupt 13 (eip c) (Some 0) m
      else Some (upd_ctx (\<lambda>c. c\<lparr>virtual_if := False, gp := (gp c)(GP_ESP := sysenter_esp c), eip := sysenter_eip c\<rparr>) m))"

definition priv_sysexit :: "machine \<Rightarrow> machine option" where
  "priv_sysexit m =
     (let c = ctx m in
      if sysenter_cs c = 0 then deliver_interrupt 13 (eip c) (Some 0) m
      else Some (upd_ctx (\<lambda>c. c\<lparr>eip := gp c GP_EDX, gp := (gp c)(GP_ESP := gp c GP_ECX)\<rparr>) m))"

definition priv_into :: "insn \<Rightarrow> machine \<Rightarrow> machine option" where
  "priv_into i m =
     (if eflags (ctx m) AND 0x800 \<noteq> 0 then deliver_interrupt 4 (eip (ctx m) + ucast (ilen i)) None m
      else Some (advance i m))"

definition low_bytes :: "nat \<Rightarrow> u32 \<Rightarrow> u32" where
  "low_bytes n v = (if n = 1 then v AND 0xFF else if n = 2 then v AND 0xFFFF else v)"

definition port_operand :: "operand \<Rightarrow> machine \<Rightarrow> u16" where
  "port_operand p m = (case p of ImmOp v \<Rightarrow> ucast v | _ \<Rightarrow> ucast (reg GP_EDX m AND 0xFFFF))"

definition port_in :: "xbox io_entry list \<Rightarrow> u16 \<Rightarrow> nat \<Rightarrow> machine \<Rightarrow> (u32 \<times> machine) option" where
  "port_in io p n m = map_option (\<lambda>(v, h). (v, m\<lparr>hw := h\<rparr>)) (io_read io p n (hw m))"

definition port_out :: "xbox io_entry list \<Rightarrow> u16 \<Rightarrow> u32 \<Rightarrow> nat \<Rightarrow> machine \<Rightarrow> machine option" where
  "port_out io p v n m = map_option (\<lambda>h. m\<lparr>hw := h\<rparr>) (io_write io p v n (hw m))"

definition priv_out :: "xbox io_entry list \<Rightarrow> insn \<Rightarrow> machine \<Rightarrow> machine option" where
  "priv_out io i m =
     (let n = op1_size i div 8 in
      map_option (advance i) (port_out io (port_operand (op0 i) m) (low_bytes n (reg GP_EAX m)) n m))"

definition priv_in :: "xbox io_entry list \<Rightarrow> insn \<Rightarrow> machine \<Rightarrow> machine option" where
  "priv_in io i m =
     (let n = op0_size i div 8 in
      map_option (\<lambda>(v, m). advance i (set_reg GP_EAX (merge_reg n (reg GP_EAX m) v) m))
        (port_in io (port_operand (op1 i) m) n m))"

text \<open>One element, then the rest; the flag tells whether the loop ran to its end.  ECX is only set at
  the end.\<close>

definition str_step :: "nat \<Rightarrow> machine \<Rightarrow> u32" where
  "str_step n m = (if eflags (ctx m) AND 0x400 \<noteq> 0 then - of_nat n else of_nat n)"

primrec ins_loop :: "xbox io_entry list \<Rightarrow> u16 \<Rightarrow> nat \<Rightarrow> u32 \<Rightarrow> nat \<Rightarrow> machine \<Rightarrow> (bool \<times> machine) option" where
  "ins_loop io p n inc 0 m = Some (True, m)"
| "ins_loop io p n inc (Suc k) m = do {
     (v, m) \<leftarrow> port_in io p n m;
     (pa, m) \<leftarrow> exec_translate (reg GP_EDI m) True m;
     case pa of
       None \<Rightarrow> map_option (\<lambda>m. (False, m)) (page_fault 2 m)
     | Some pa \<Rightarrow> do {
         m \<leftarrow> (if unat pa < GUEST_RAM_SIZE then ram_wr n pa v m else bus_write pa v n m);
         ins_loop io p n inc k (set_reg GP_EDI (reg GP_EDI m + inc) m)
       }
   }"

primrec outs_loop :: "xbox io_entry list \<Rightarrow> u16 \<Rightarrow> nat \<Rightarrow> u32 \<Rightarrow> nat \<Rightarrow> machine \<Rightarrow> (bool \<times> machine) option" where
  "outs_loop io p n inc 0 m = Some (True, m)"
| "outs_loop io p n inc (Suc k) m = do {
     (pa, m) \<leftarrow> exec_translate (reg GP_ESI m) False m;
     case pa of
       None \<Rightarrow> map_option (\<lambda>m. (False, m)) (page_fault 0 m)
     | Some pa \<Rightarrow> do {
         (v, m) \<leftarrow> (if unat pa < GUEST_RAM_SIZE then map_option (\<lambda>v. (v, m)) (ram_rd n pa m)
                    else if mmio m \<noteq> None then bus_read pa n m else Some (0, m));
         m \<leftarrow> port_out io p v n m;
         outs_loop io p n inc k (set_reg GP_ESI (reg GP_ESI m + inc) m)
       }
   }"

definition priv_string_io ::
    "(xbox io_entry list \<Rightarrow> u16 \<Rightarrow> nat \<Rightarrow> u32 \<Rightarrow> nat \<Rightarrow> machine \<Rightarrow> (bool \<times> machine) option)
      \<Rightarrow> xbox io_entry list \<Rightarrow> nat \<Rightarrow> insn \<Rightarrow> machine \<Rightarrow> machine option" where
  "priv_string_io loop io n i m =
     (let count = (if has_rep i then unat (reg GP_ECX m) else 1) in
      map_option (\<lambda>(fin, m).
          if fin then advance i (if has_rep i then set_reg GP_ECX 0 m else m) else m)
        (loop io (ucast (reg GP_EDX m)) n (str_step n m) count m))"

section \<open>Instructions a 64-bit host lacks\<close>

definition priv_les_lds :: "(u16 \<Rightarrow> guest_context \<Rightarrow> guest_context) \<Rightarrow> insn \<Rightarrow> machine \<Rightarrow> machine option" where
  "priv_les_lds upd i m =
     (case (op0 i, op1 i) of
        (RegOp r, MemOp mo) \<Rightarrow>
          (case reg32_enc r of
             None \<Rightarrow> Some (halt m)
           | Some g \<Rightarrow> at_operand mo False (\<lambda>pa m. do {
                 (v, m) \<leftarrow> load_pair 4 2 pa m;
                 let (off, sel) = (case v of Some p \<Rightarrow> p | None \<Rightarrow> (0, 0));
                 Some (advance i (upd_ctx (upd (ucast sel)) (set_reg g off m)))
               }) m)
      | _ \<Rightarrow> Some (advance i m))"

definition set_al :: "u8 \<Rightarrow> machine \<Rightarrow> machine" where
  "set_al al m = set_reg GP_EAX ((reg GP_EAX m AND NOT 0xFF) OR ucast al) m"

definition set_ax :: "u8 \<times> u8 \<Rightarrow> machine \<Rightarrow> machine" where
  "set_ax a m = set_reg GP_EAX ((reg GP_EAX m AND NOT 0xFFFF) OR ucast (fst a) OR push_bit 8 (ucast (snd a))) m"

definition get_al :: "machine \<Rightarrow> u8" where "get_al m = ucast (reg GP_EAX m)"

definition get_ah :: "machine \<Rightarrow> u8" where "get_ah m = ucast (drop_bit 8 (reg GP_EAX m))"

definition set_flags :: "u32 \<Rightarrow> machine \<Rightarrow> machine" where
  "set_flags ef = upd_ctx (\<lambda>c. c\<lparr>eflags := ef\<rparr>)"

definition priv_packed :: "(u8 \<Rightarrow> u32 \<Rightarrow> u8 \<times> u32) \<Rightarrow> machine \<Rightarrow> machine" where
  "priv_packed f m = (let (al, ef) = f (get_al m) (eflags (ctx m)) in set_flags ef (set_al al m))"

definition priv_unpacked :: "(u8 \<times> u8 \<Rightarrow> u32 \<Rightarrow> (u8 \<times> u8) \<times> u32) \<Rightarrow> machine \<Rightarrow> machine" where
  "priv_unpacked f m = (let (a, ef) = f (get_al m, get_ah m) (eflags (ctx m)) in set_flags ef (set_ax a m))"

definition imm_base :: "insn \<Rightarrow> u8" where
  "imm_base i = (case op0 i of ImmOp v \<Rightarrow> if visible_ops i \<ge> 1 then ucast v else 10 | _ \<Rightarrow> 10)"

definition priv_aam :: "insn \<Rightarrow> machine \<Rightarrow> machine option" where
  "priv_aam i m =
     (case aam (imm_base i) (get_al m) (eflags (ctx m)) of
        None \<Rightarrow> deliver_interrupt 0 (eip (ctx m)) None m
      | Some (a, ef) \<Rightarrow> Some (advance i (set_flags ef (set_ax a m))))"

text \<open>A push that faults delivers the fault and goes on with the next; the slot of ESP has the old value.\<close>

primrec pusha_words :: "u32 \<Rightarrow> nat list \<Rightarrow> u32 \<Rightarrow> machine \<Rightarrow> (u32 \<times> machine) option" where
  "pusha_words old [] sp m = Some (sp, m)"
| "pusha_words old (r # rs) sp m = do {
     let v = (if r = GP_ESP then old else reg r m);
     (pa, m) \<leftarrow> exec_translate (sp - 4) True m;
     m \<leftarrow> (case pa of
            None \<Rightarrow> page_fault 2 m
          | Some pa \<Rightarrow> if unat pa < GUEST_RAM_SIZE then ram_wr 4 pa v m else bus_write pa v 4 m);
     pusha_words old rs (sp - 4) m
   }"

definition priv_pusha :: "insn \<Rightarrow> machine \<Rightarrow> machine option" where
  "priv_pusha i m =
     map_option (\<lambda>(sp, m). advance i (set_reg GP_ESP sp m))
       (pusha_words (reg GP_ESP m) [GP_EAX, GP_ECX, GP_EDX, GP_EBX, GP_ESP, GP_EBP, GP_ESI, GP_EDI] (reg GP_ESP m) m)"

text \<open>A pop that faults gives 0 and leaves the stack pointer; no fault is raised.\<close>

primrec popa_words :: "nat list \<Rightarrow> u32 \<Rightarrow> machine \<Rightarrow> (u32 \<times> machine) option" where
  "popa_words [] sp m = Some (sp, m)"
| "popa_words (r # rs) sp m = do {
     (pa, m) \<leftarrow> exec_translate sp False m;
     (v, sp, m) \<leftarrow> (case pa of
        None \<Rightarrow> Some (0, sp, m)
      | Some pa \<Rightarrow>
          map_option (\<lambda>(v, m). (v, sp + 4, m))
            (if unat pa < GUEST_RAM_SIZE then map_option (\<lambda>v. (v, m)) (ram_rd 4 pa m)
             else if mmio m \<noteq> None then bus_read pa 4 m else Some (0, m)));
     popa_words rs sp (if r = GP_ESP then m else set_reg r v m)
   }"

definition priv_popa :: "insn \<Rightarrow> machine \<Rightarrow> machine option" where
  "priv_popa i m =
     map_option (\<lambda>(sp, m). advance i (set_reg GP_ESP sp m))
       (popa_words [GP_EDI, GP_ESI, GP_EBP, GP_ESP, GP_EBX, GP_EDX, GP_ECX, GP_EAX] (reg GP_ESP m) m)"

definition reg32_low16 :: "operand \<Rightarrow> machine \<Rightarrow> u16" where
  "reg32_low16 p m =
     (case p of RegOp r \<Rightarrow> (case reg32_enc r of Some g \<Rightarrow> ucast (reg g m) | None \<Rightarrow> 0) | _ \<Rightarrow> 0)"

text \<open>Only 32-bit register names are looked up, which the operands of ARPL never have.\<close>

definition priv_arpl :: "insn \<Rightarrow> machine \<Rightarrow> machine" where
  "priv_arpl i m =
     (let dst = reg32_low16 (op0 i) m; src = reg32_low16 (op1 i) m in
      if dst AND 3 < src AND 3 then
        let dst = (dst AND NOT 3) OR (src AND 3);
            m = upd_ctx (\<lambda>c. c\<lparr>eflags := eflags c OR 0x40\<rparr>) m;
            m = (case op0 i of
                   RegOp r \<Rightarrow> (case reg32_enc r of
                       Some g \<Rightarrow> set_reg g ((reg g m AND 0xFFFF0000) OR ucast dst) m | None \<Rightarrow> m)
                 | _ \<Rightarrow> m)
        in advance i m
      else advance i (upd_ctx (\<lambda>c. c\<lparr>eflags := eflags c AND NOT 0x40\<rparr>) m))"

section \<open>The handler\<close>

text \<open>What the handler takes from outside: the decoder, the time-stamp counter, the registered ports, and
  the handler of emulated kernel calls with its vector.\<close>

record outside =
  decode :: "u8 list \<Rightarrow> insn option"
  tsc :: u64
  ports :: "xbox io_entry list"
  hle_handler :: "(u32 \<Rightarrow> executor \<Rightarrow> (bool \<times> executor) option) option"
  hle_vector :: u8

primrec fetch_mmio :: "nat \<Rightarrow> u32 \<Rightarrow> machine \<Rightarrow> (u8 list \<times> machine) option" where
  "fetch_mmio 0 pa m = Some ([], m)"
| "fetch_mmio (Suc k) pa m = do {
     (v, m) \<leftarrow> bus_read pa 1 m;
     (bs, m) \<leftarrow> fetch_mmio k (pa + 1) m;
     Some (ucast v # bs, m)
   }"

text \<open>The bytes at EIP, at most 15; \<open>None\<close> inside when there are none.\<close>

definition priv_fetch :: "machine \<Rightarrow> (u8 list option \<times> machine) option" where
  "priv_fetch m = do {
     (pa, m) \<leftarrow> exec_translate (eip (ctx m)) False m;
     case pa of
       None \<Rightarrow> Some (None, m)
     | Some pa \<Rightarrow>
         if unat pa < GUEST_RAM_SIZE then Some (Some (get_list (min 15 (GUEST_RAM_SIZE - unat pa)) (ram m) (unat pa)), m)
         else if mmio m \<noteq> None then map_option (\<lambda>(bs, m). (Some bs, m)) (fetch_mmio 15 pa m)
         else Some (None, m)
   }"

definition priv_int :: "outside \<Rightarrow> insn \<Rightarrow> executor \<Rightarrow> executor option" where
  "priv_int env i x =
     (let vector = (case op0 i of ImmOp v \<Rightarrow> ucast v | _ \<Rightarrow> 0);
          deliver = on_mach (\<lambda>m. deliver_interrupt vector (eip (ctx m) + ucast (ilen i)) None m) in
      case hle_handler env of
        None \<Rightarrow> deliver x
      | Some h \<Rightarrow>
          if vector = hle_vector env then do {
            (ok, x) \<leftarrow> h (reg GP_EAX (mach x)) (x\<lparr>mach := advance i (mach x)\<rparr>);
            if ok then Some x
            else deliver (x\<lparr>mach := upd_ctx (\<lambda>c. c\<lparr>eip := eip c - ucast (ilen i)\<rparr>) (mach x)\<rparr>)
          } else deliver x)"

definition priv_debug :: "outside \<Rightarrow> insn \<Rightarrow> machine \<Rightarrow> machine option" where
  "priv_debug env i m =
     (if hle_handler env \<noteq> None \<and> idtr_limit (ctx m) = 0 then Some (halt (advance i m))
      else deliver_interrupt (if mnem i = INT3 then 3 else 1) (eip (ctx m) + ucast (ilen i)) None m)"

definition priv_invlpg :: "insn \<Rightarrow> machine \<Rightarrow> machine" where
  "priv_invlpg i m =
     advance i (case op0 i of MemOp mo \<Rightarrow> m\<lparr>tlb := tlb_flush_va (compute_ea mo (ctx m)) (tlb m)\<rparr> | _ \<Rightarrow> m)"

text \<open>The instructions that change the machine only.\<close>

definition priv_machine :: "outside \<Rightarrow> insn \<Rightarrow> machine \<Rightarrow> machine option" where
  "priv_machine env i m =
     (case mnem i of
        CLI \<Rightarrow> Some (advance i (upd_ctx (\<lambda>c. c\<lparr>virtual_if := False\<rparr>) m))
      | STI \<Rightarrow> Some (advance i (upd_ctx (\<lambda>c. c\<lparr>virtual_if := True\<rparr>) m))
      | CPUID \<Rightarrow> Some (advance i (priv_cpuid m))
      | RDTSC \<Rightarrow> Some (advance i (set_edx_eax (tsc env) m))
      | RDMSR \<Rightarrow> map_option (advance i) (priv_rdmsr (tsc env) m)
      | WRMSR \<Rightarrow> map_option (advance i) (priv_wrmsr m)
      | LGDT \<Rightarrow> priv_lgdt i m
      | LIDT \<Rightarrow> priv_lidt i m
      | LLDT \<Rightarrow> priv_lldt i m
      | LTR \<Rightarrow> priv_ltr i m
      | SLDT \<Rightarrow> priv_sldt i m
      | STR_N \<Rightarrow> priv_str i m
      | SGDT \<Rightarrow> priv_sgdt i m
      | SIDT \<Rightarrow> priv_sidt i m
      | INVLPG \<Rightarrow> Some (priv_invlpg i m)
      | RDPMC \<Rightarrow> Some (advance i (set_regs [(GP_EAX, 0), (GP_EDX, 0)] m))
      | WBINVD \<Rightarrow> Some (advance i m)
      | INVD \<Rightarrow> Some (advance i m)
      | CLTS \<Rightarrow> Some (advance i m)
      | LMSW \<Rightarrow> Some (advance i m)
      | SYSENTER \<Rightarrow> priv_sysenter m
      | SYSEXIT \<Rightarrow> priv_sysexit m
      | INT3 \<Rightarrow> priv_debug env i m
      | INT1 \<Rightarrow> priv_debug env i m
      | INTO \<Rightarrow> priv_into i m
      | OUT_P \<Rightarrow> priv_out (ports env) i m
      | IN_P \<Rightarrow> priv_in (ports env) i m
      | INSB \<Rightarrow> priv_string_io ins_loop (ports env) 1 i m
      | INSW \<Rightarrow> priv_string_io ins_loop (ports env) 2 i m
      | INSD \<Rightarrow> priv_string_io ins_loop (ports env) 4 i m
      | OUTSB \<Rightarrow> priv_string_io outs_loop (ports env) 1 i m
      | OUTSW \<Rightarrow> priv_string_io outs_loop (ports env) 2 i m
      | OUTSD \<Rightarrow> priv_string_io outs_loop (ports env) 4 i m
      | LES \<Rightarrow> priv_les_lds (\<lambda>v c. c\<lparr>es_sel := v\<rparr>) i m
      | LDS \<Rightarrow> priv_les_lds (\<lambda>v c. c\<lparr>ds_sel := v\<rparr>) i m
      | DAA \<Rightarrow> Some (advance i (priv_packed daa m))
      | DAS \<Rightarrow> Some (advance i (priv_packed das m))
      | AAA \<Rightarrow> Some (advance i (priv_unpacked aaa m))
      | AAS \<Rightarrow> Some (advance i (priv_unpacked aas m))
      | AAM \<Rightarrow> priv_aam i m
      | AAD \<Rightarrow> Some (advance i (priv_unpacked (aad (imm_base i)) m))
      | SALC \<Rightarrow> Some (advance i (set_al (salc (eflags (ctx m))) m))
      | PUSHA \<Rightarrow> priv_pusha i m
      | PUSHAD \<Rightarrow> priv_pusha i m
      | POPA \<Rightarrow> priv_popa i m
      | POPAD \<Rightarrow> priv_popa i m
      | BOUND \<Rightarrow> Some (advance i m)
      | ARPL \<Rightarrow> Some (priv_arpl i m)
      | _ \<Rightarrow> Some (halt m))"

definition handle_privileged :: "outside \<Rightarrow> executor \<Rightarrow> executor option" where
  "handle_privileged env x = do {
     (bs, m) \<leftarrow> priv_fetch (mach x);
     let x = x\<lparr>mach := m\<rparr>;
     case Option.bind bs (decode env) of
       None \<Rightarrow> Some (x\<lparr>mach := halt (mach x)\<rparr>)
     | Some i \<Rightarrow>
         if mnem i = MOV then priv_mov i x
         else if mnem i = INT_N then priv_int env i x
         else on_mach (priv_machine env i) x
   }"

end
