(* ===== verification/Emitter.thy ===== *)
theory Emitter
  imports Insn Traces
begin

text \<open>
  The host code emitter (\<open>src/src/cpu/emitter.hpp\<close>): the buffer of a trace under construction with its
  pending links and memory sites, and the byte sequences of the host instructions that translated code is
  made of.  In a trace the guest's registers but ESP are in the host's registers of the same number,
  R12 is the base of guest memory, R13 the guest context and R14 the address of a memory operand.

  A fixed sequence is a list of bytes; \<open>emits\<close> puts it into the buffer, \<open>None\<close> when the assertion on the
  capacity fails.  Positions are offsets from the start of the buffer.  What differs between the two
  calling conventions the code is compiled for, and the addresses of the C functions that emitted code
  calls, are in \<open>host_abi\<close>.
\<close>

section \<open>Decoded instructions\<close>

text \<open>The fields of the decoding library's structures that the emitter and the trace builder read.  Operands
  past the last are of kind \<open>X_none\<close>, as the library clears them.  EIP is no base register in 32-bit mode.\<close>

record x_mem =
  x_segment :: reg_name
  x_base :: reg_name
  x_index :: reg_name
  x_scale :: u8
  x_disp :: "u32 option"

datatype x_kind = X_reg reg_name | X_mem x_mem | X_imm u64 bool | X_ptr u32 | X_none

record x_op =
  xo_kind :: x_kind
  xo_size :: nat
  xo_write :: bool

text \<open>The mnemonic is its name, the opcode map the number of escape bytes' set: 0 the default, 1 \<open>0F\<close>,
  2 \<open>0F38\<close>, 3 \<open>0F3A\<close>.  \<open>x_imms\<close> has the offset and the size in bits of each raw immediate.\<close>

record x_insn =
  x_mnem :: string
  x_len :: nat
  x_ops :: "x_op list"
  x_visible :: nat
  x_width :: nat
  x_map :: nat
  x_opcode :: u8
  x_prefixes :: "u8 list"
  x_modrm_off :: nat
  x_modrm_reg :: u8
  x_imms :: "(nat \<times> nat) list"
  x_rep :: bool
  x_repne :: bool
  x_far :: bool
  x_tested :: u32
  x_written :: u32

definition no_operand :: x_op where
  "no_operand = \<lparr>xo_kind = X_none, xo_size = 0, xo_write = False\<rparr>"

definition op_at :: "nat \<Rightarrow> x_insn \<Rightarrow> x_op" where
  "op_at i x = (if i < length (x_ops x) then x_ops x ! i else no_operand)"

definition reg_at :: "nat \<Rightarrow> x_insn \<Rightarrow> reg_name" where
  "reg_at i x = (case xo_kind (op_at i x) of X_reg r \<Rightarrow> r | _ \<Rightarrow> NoReg)"

definition imm_at :: "nat \<Rightarrow> x_insn \<Rightarrow> u64" where
  "imm_at i x = (case xo_kind (op_at i x) of X_imm v _ \<Rightarrow> v | _ \<Rightarrow> 0)"

definition is_reg :: "x_op \<Rightarrow> bool" where
  "is_reg p \<longleftrightarrow> (case xo_kind p of X_reg _ \<Rightarrow> True | _ \<Rightarrow> False)"

definition is_mem :: "x_op \<Rightarrow> bool" where
  "is_mem p \<longleftrightarrow> (case xo_kind p of X_mem _ \<Rightarrow> True | _ \<Rightarrow> False)"

definition is_imm :: "x_op \<Rightarrow> bool" where
  "is_imm p \<longleftrightarrow> (case xo_kind p of X_imm _ _ \<Rightarrow> True | _ \<Rightarrow> False)"

definition shown_ops :: "x_insn \<Rightarrow> x_op list" where
  "shown_ops x = take (x_visible x) (x_ops x)"

abbreviation SEG_DS :: reg_name where "SEG_DS \<equiv> Seg 3"
abbreviation SEG_SS :: reg_name where "SEG_SS \<equiv> Seg 2"
abbreviation SEG_FS :: reg_name where "SEG_FS \<equiv> Seg 4"
abbreviation SEG_GS :: reg_name where "SEG_GS \<equiv> Seg 5"
abbreviation REG_ESP :: reg_name where "REG_ESP \<equiv> Gp32 4"

section \<open>The buffer\<close>

record emitter =
  ebuf :: "u8 list"
  ecap :: nat
  epaging :: bool
  efault_eip :: u32
  elinks :: "(nat \<times> u32) list"
  esites :: "(u32 \<times> u32 \<times> u8) list"

abbreviation MAX_PENDING_LINKS :: nat where "MAX_PENDING_LINKS \<equiv> 4"
abbreviation MAX_EMIT_SITES :: nat where "MAX_EMIT_SITES \<equiv> 256"

definition emitter_new :: "nat \<Rightarrow> emitter" where
  "emitter_new c = \<lparr>ebuf = [], ecap = c, epaging = False, efault_eip = 0, elinks = [], esites = []\<rparr>"

abbreviation epos :: "emitter \<Rightarrow> nat" where "epos e \<equiv> length (ebuf e)"

definition emits :: "u8 list \<Rightarrow> emitter \<Rightarrow> emitter option" where
  "emits bs e = (if epos e + length bs \<le> ecap e then Some (e\<lparr>ebuf := ebuf e @ bs\<rparr>) else None)"

text \<open>A step of emission: \<open>None\<close> when an assertion fails, else whether the operand form is supported, and the
  emitter.  A sequence of steps ends at the first that rejects.\<close>

type_synonym emit_step = "emitter \<Rightarrow> (bool \<times> emitter) option"

definition put_code :: "u8 list \<Rightarrow> emit_step" where
  "put_code bs e = map_option (Pair True) (emits bs e)"

definition reject :: emit_step where
  "reject e = Some (False, e)"

definition try_code :: "u8 list option \<Rightarrow> emit_step" where
  "try_code c = (case c of None \<Rightarrow> reject | Some bs \<Rightarrow> put_code bs)"

definition when_step :: "bool \<Rightarrow> emit_step \<Rightarrow> emit_step" where
  "when_step b s e = (if b then s e else Some (True, e))"

fun emit_all :: "emit_step list \<Rightarrow> emit_step" where
  "emit_all [] e = Some (True, e)"
| "emit_all (s # ss) e =
     (case s e of None \<Rightarrow> None | Some (False, e) \<Rightarrow> Some (False, e) | Some (True, e) \<Rightarrow> emit_all ss e)"

definition add_site :: "nat \<Rightarrow> u8 \<Rightarrow> emitter \<Rightarrow> emitter" where
  "add_site off plen e =
     (if length (esites e) < MAX_EMIT_SITES
      then e\<lparr>esites := esites e @ [(of_nat off, efault_eip e, plen)]\<rparr> else e)"

definition add_pending_link :: "nat \<Rightarrow> u32 \<Rightarrow> emitter \<Rightarrow> emitter" where
  "add_pending_link site target e =
     (if length (elinks e) < MAX_PENDING_LINKS then e\<lparr>elinks := elinks e @ [(site, target)]\<rparr> else e)"

definition le32 :: "u32 \<Rightarrow> u8 list" where
  "le32 v = [ucast v, ucast (drop_bit 8 v), ucast (drop_bit 16 v), ucast (drop_bit 24 v)]"

definition le64 :: "u64 \<Rightarrow> u8 list" where
  "le64 v = le32 (ucast v) @ le32 (ucast (drop_bit 32 v))"

section \<open>Encoding\<close>

abbreviation REX_B :: u8 where "REX_B \<equiv> 0x41"
abbreviation REX_XB :: u8 where "REX_XB \<equiv> 0x43"
abbreviation REX_R :: u8 where "REX_R \<equiv> 0x44"
abbreviation REX_RB :: u8 where "REX_RB \<equiv> 0x45"
abbreviation REX_W :: u8 where "REX_W \<equiv> 0x48"
abbreviation REX_WB :: u8 where "REX_WB \<equiv> 0x49"
abbreviation REX_WR :: u8 where "REX_WR \<equiv> 0x4C"

text \<open>The offsets of the context's fields, and the byte \<open>mod << 6 | reg << 3 | rm\<close>, which is also the form of
  the scaled-index byte.\<close>

abbreviation CTX_EFLAGS :: u8 where "CTX_EFLAGS \<equiv> 36"
abbreviation CTX_NEXT_EIP :: u8 where "CTX_NEXT_EIP \<equiv> 40"
abbreviation CTX_STOP_REASON :: u8 where "CTX_STOP_REASON \<equiv> 44"
abbreviation CTX_FS_BASE :: u8 where "CTX_FS_BASE \<equiv> 100"
abbreviation CTX_GS_BASE :: u8 where "CTX_GS_BASE \<equiv> 104"

definition gp_offset :: "nat \<Rightarrow> u8" where
  "gp_offset i = of_nat (4 * i)"

definition modrm :: "nat \<Rightarrow> nat \<Rightarrow> nat \<Rightarrow> u8" where
  "modrm md r m = push_bit 6 (of_nat md) OR push_bit 3 (of_nat r) OR of_nat m"

abbreviation R14_REG :: nat where "R14_REG \<equiv> 6"
abbreviation R13_REG :: nat where "R13_REG \<equiv> 5"

definition save_gp :: "nat \<Rightarrow> u8 \<Rightarrow> u8 list" where
  "save_gp r off = [REX_B, 0x89, modrm 1 r R13_REG, off]"

definition load_gp :: "nat \<Rightarrow> u8 \<Rightarrow> u8 list" where
  "load_gp r off = [REX_B, 0x8B, modrm 1 r R13_REG, off]"

abbreviation gp_but_esp :: "nat list" where "gp_but_esp \<equiv> [0, 1, 2, 3, 5, 6, 7]"

definition save_all_gp :: "u8 list" where
  "save_all_gp = concat (map (\<lambda>i. save_gp i (gp_offset i)) gp_but_esp)"

definition load_all_gp :: "u8 list" where
  "load_all_gp = concat (map (\<lambda>i. load_gp i (gp_offset i)) gp_but_esp)"

definition write_next_eip_imm :: "u32 \<Rightarrow> u8 list" where
  "write_next_eip_imm v = [REX_B, 0xBE] @ le32 v @ [REX_RB, 0x89, 0x75, CTX_NEXT_EIP]"

definition set_stop_reason :: "u32 \<Rightarrow> u8 list" where
  "set_stop_reason r = [REX_B, 0xC7, 0x45, CTX_STOP_REASON] @ le32 r"

definition save_eflags :: "u8 list" where
  "save_eflags = [0x9C, REX_B, 0x5E, REX_RB, 0x89, modrm 1 R14_REG R13_REG, CTX_EFLAGS]"

definition write_next_eip_gpreg :: "nat \<Rightarrow> u8 list" where
  "write_next_eip_gpreg i =
     [REX_RB, 0x8B, modrm 1 R14_REG R13_REG, gp_offset i, REX_RB, 0x89, modrm 1 R14_REG R13_REG, CTX_NEXT_EIP]"

text \<open>The guest's ESP is in its context only.\<close>

definition load_esp_to_r14 :: "u8 list" where
  "load_esp_to_r14 = [REX_RB, 0x8B, modrm 1 R14_REG R13_REG, gp_offset GP_ESP]"

definition store_r14_to_esp :: "u8 list" where
  "store_r14_to_esp = [REX_RB, 0x89, modrm 1 R14_REG R13_REG, gp_offset GP_ESP]"

definition load_esp_to_r8 :: "u8 list" where
  "load_esp_to_r8 = [REX_RB, 0x8B, modrm 1 0 R13_REG, gp_offset GP_ESP]"

definition store_r8_to_esp :: "u8 list" where
  "store_r8_to_esp = [REX_RB, 0x89, modrm 1 0 R13_REG, gp_offset GP_ESP]"

definition sub_ctx_esp :: "u8 \<Rightarrow> u8 list" where
  "sub_ctx_esp n = [0x9C, REX_B, 0x83, 0x6D, gp_offset GP_ESP, n, 0x9D]"

definition add_ctx_esp :: "u8 \<Rightarrow> u8 list" where
  "add_ctx_esp n = [0x9C, REX_B, 0x83, 0x45, gp_offset GP_ESP, n, 0x9D]"

definition save_flags_code :: "u8 list" where
  "save_flags_code = [0x9C, REX_W, 0x8D, 0x64, 0x24, 0xF8]"

definition restore_flags_code :: "u8 list" where
  "restore_flags_code = [REX_W, 0x8D, 0x64, 0x24, 0x08, 0x9D]"

section \<open>Exits\<close>

text \<open>A jump to what follows, which linking redirects, and the way back to the run loop.\<close>

definition jump_slot :: "u8 list" where
  "jump_slot = [0xE9, 0, 0, 0, 0]"

definition emit_epilog_static :: "u32 \<Rightarrow> emit_step" where
  "emit_epilog_static tgt e =
     map_option (\<lambda>x. (True, add_pending_link (epos e + 1) tgt x))
       (emits (jump_slot @ save_all_gp @ write_next_eip_imm tgt @ [0xC3]) e)"

definition epilog_dynamic :: "nat \<Rightarrow> u8 list" where
  "epilog_dynamic i = save_all_gp @ write_next_eip_gpreg i @ [0xC3]"

definition exit_to :: "u32 \<Rightarrow> u8 list" where
  "exit_to tgt = jump_slot @ write_next_eip_imm tgt @ [0xC3]"

definition conditional_code :: "u8 \<Rightarrow> u32 \<Rightarrow> u32 \<Rightarrow> u8 list" where
  "conditional_code jcc taken fallthrough =
     save_all_gp @ [0x0F, jcc + 0x10] @ le32 (of_nat (length (exit_to fallthrough)))
     @ exit_to fallthrough @ exit_to taken"

definition emit_epilog_conditional :: "u8 \<Rightarrow> u32 \<Rightarrow> u32 \<Rightarrow> emit_step" where
  "emit_epilog_conditional jcc taken fallthrough e =
     (let ft = epos e + length save_all_gp + 6; tk = ft + length (exit_to fallthrough) in
      map_option (\<lambda>x. (True, add_pending_link (tk + 1) taken (add_pending_link (ft + 1) fallthrough x)))
        (emits (conditional_code jcc taken fallthrough) e))"

section \<open>Memory operands\<close>

text \<open>An immediate that fits a signed byte.\<close>

definition fits8 :: "u32 \<Rightarrow> bool" where
  "fits8 d \<longleftrightarrow> -128 \<le> sint d \<and> sint d \<le> 127"

definition disp_bytes :: "nat \<Rightarrow> u32 \<Rightarrow> u8 list" where
  "disp_bytes md d = (if md = 1 then [ucast d] else if md = 2 then le32 d else [])"

definition scale_enc :: "u8 \<Rightarrow> nat" where
  "scale_enc s = (if s = 2 then 1 else if s = 4 then 2 else if s = 8 then 3 else 0)"

text \<open>The field of the context a segment's base is in; \<open>None\<close> for a segment that is not supported.\<close>

definition seg_ctx_offset :: "reg_name \<Rightarrow> u8 option option" where
  "seg_ctx_offset r =
     (if r = SEG_FS then Some (Some CTX_FS_BASE)
      else if r = SEG_GS then Some (Some CTX_GS_BASE)
      else if r = NoReg \<or> r = SEG_DS \<or> r = SEG_SS then Some None
      else None)"

definition ea_base_only :: "nat \<Rightarrow> u32 \<Rightarrow> u8 list" where
  "ea_base_only b d =
     (let md = (if fits8 d then 1 else 2) in
      if b = GP_ESP then
        load_esp_to_r14 @ (if d \<noteq> 0 then [REX_RB, 0x8D, modrm md R14_REG R14_REG] @ disp_bytes md d else [])
      else if d = 0 then
        if b = GP_EBP then [REX_R, 0x8D, modrm 1 R14_REG 5, 0] else [REX_R, 0x8B, modrm 3 R14_REG b]
      else [REX_R, 0x8D, modrm md R14_REG b] @ disp_bytes md d)"

definition ea_index_only :: "nat \<Rightarrow> nat \<Rightarrow> u32 \<Rightarrow> u8 list" where
  "ea_index_only i sc d = [REX_R, 0x8D, modrm 0 R14_REG 4, modrm sc i 5] @ le32 d"

definition ea_base_index :: "nat \<Rightarrow> nat \<Rightarrow> nat \<Rightarrow> u32 \<Rightarrow> u8 list" where
  "ea_base_index b i sc d =
     (let md = (if fits8 d then 1 else 2) in
      if b = GP_ESP then
        let md = (if d = 0 then 0 else md) in
        load_esp_to_r14 @ [REX_RB, 0x8D, modrm md R14_REG 4, modrm sc i R14_REG] @ disp_bytes md d
      else
        let md = (if d = 0 then if b = GP_EBP then 1 else 0 else md) in
        [REX_R, 0x8D, modrm md R14_REG 4, modrm sc i b] @ disp_bytes md d)"

text \<open>An absent displacement counts as 0.\<close>

definition ea_code :: "x_mem \<Rightarrow> u8 list option" where
  "ea_code m =
     (let d = (case x_disp m of Some d \<Rightarrow> d | None \<Rightarrow> 0) in
      if x_base m = NoReg \<and> x_index m = NoReg then Some ([REX_B, 0xB8 + of_nat R14_REG] @ le32 d)
      else if x_index m = NoReg then map_option (\<lambda>b. ea_base_only b d) (reg32_enc (x_base m))
      else case reg32_enc (x_index m) of
        None \<Rightarrow> None
      | Some i \<Rightarrow>
          if i = GP_ESP then None
          else if x_base m = NoReg then Some (ea_index_only i (scale_enc (x_scale m)) d)
          else map_option (\<lambda>b. ea_base_index b i (scale_enc (x_scale m)) d) (reg32_enc (x_base m)))"

definition ea_to_r14 :: "x_mem \<Rightarrow> u8 list option" where
  "ea_to_r14 m = do {
     seg \<leftarrow> seg_ctx_offset (x_segment m);
     c \<leftarrow> ea_code m;
     Some (c @ (case seg of Some off \<Rightarrow> [REX_RB, 0x03, modrm 1 R14_REG R13_REG, off] | None \<Rightarrow> []))
   }"

section \<open>The memory operand rewriter\<close>

text \<open>Address-size and segment prefixes are dropped, and bytes in the range of a REX prefix; the operand
  becomes \<open>[R12+R14]\<close>.\<close>

definition keep_prefix :: "u8 \<Rightarrow> bool" where
  "keep_prefix v \<longleftrightarrow>
     v \<noteq> 0x67 \<and> v \<notin> {0x26, 0x2E, 0x36, 0x3E, 0x64, 0x65} \<and> \<not> (0x40 \<le> v \<and> v \<le> 0x4F)"

definition escape_bytes :: "nat \<Rightarrow> u8 list option" where
  "escape_bytes m =
     (if m = 0 then Some [] else if m = 1 then Some [0x0F] else if m = 2 then Some [0x0F, 0x38]
      else if m = 3 then Some [0x0F, 0x3A] else None)"

definition imm_bytes :: "x_insn \<Rightarrow> u8 list \<Rightarrow> u8 list" where
  "imm_bytes x raw = concat (map (\<lambda>(off, bits). take (bits div 8) (drop off raw)) (take 2 (x_imms x)))"

definition emit_rewrite_mem_to_fastmem :: "x_insn \<Rightarrow> u8 list \<Rightarrow> bool \<Rightarrow> emit_step" where
  "emit_rewrite_mem_to_fastmem x raw esp_in_r8 = emit_all
     [put_code (filter keep_prefix (x_prefixes x) @ [if esp_in_r8 then 0x47 else 0x43]),
      try_code (map_option (\<lambda>esc.
        esc @ [x_opcode x, push_bit 3 (if esp_in_r8 then 0 else x_modrm_reg x) OR 4, 0x34] @ imm_bytes x raw)
        (escape_bytes (x_map x)))]"

section \<open>Accesses to guest memory\<close>

text \<open>These are at \<open>[R12+R14]\<close>: the form byte asks for a scaled-index byte, which is \<open>34\<close>.\<close>

definition fastmem_op :: "nat \<Rightarrow> nat \<Rightarrow> bool \<Rightarrow> u8 list" where
  "fastmem_op enc bits is_load =
     (if bits = 16 then [0x66] else [])
     @ [REX_XB, if bits = 8 then (if is_load then 0x8A else 0x88) else if is_load then 0x8B else 0x89,
        modrm 0 enc 4, 0x34]"

definition fastmem_extend :: "u8 \<Rightarrow> u8 \<Rightarrow> nat \<Rightarrow> nat \<Rightarrow> bool \<Rightarrow> u8 list" where
  "fastmem_extend op8 op16 enc src_bits esp_in_r8 =
     [if esp_in_r8 then 0x47 else 0x43, 0x0F, if src_bits = 8 then op8 else op16,
      modrm 0 (if esp_in_r8 then 0 else enc) 4, 0x34]"

definition fastmem_movzx :: "nat \<Rightarrow> nat \<Rightarrow> bool \<Rightarrow> u8 list" where
  "fastmem_movzx = fastmem_extend 0xB6 0xB7"

definition fastmem_movsx :: "nat \<Rightarrow> nat \<Rightarrow> bool \<Rightarrow> u8 list" where
  "fastmem_movsx = fastmem_extend 0xBE 0xBF"

definition fastmem_store_imm32 :: "u32 \<Rightarrow> u8 list" where
  "fastmem_store_imm32 v = [REX_XB, 0xC7, 0x04, 0x34] @ le32 v"

definition fastmem_store_imm16 :: "u16 \<Rightarrow> u8 list" where
  "fastmem_store_imm16 v = [0x66, REX_XB, 0xC7, 0x04, 0x34, ucast v, ucast (drop_bit 8 v)]"

definition fastmem_store_imm8 :: "u8 \<Rightarrow> u8 list" where
  "fastmem_store_imm8 v = [REX_XB, 0xC6, 0x04, 0x34, v]"

text \<open>Room for a call is made by padding with no-operations.\<close>

definition pad_to :: "nat \<Rightarrow> u8 list \<Rightarrow> u8 list" where
  "pad_to n bs = bs @ replicate (n - length bs) 0x90"

section \<open>Calls of C functions\<close>

datatype c_fn = Fn_translate_va_jit | Fn_read_guest_mem32 | Fn_call_mem_helper | Fn_push_mem | Fn_pop_mem
  | Fn_push_esp | Fn_pop_esp | Fn_pushad | Fn_popad | Fn_pushfd | Fn_popfd | Fn_enter | Fn_xlatb | Fn_iret
  | Fn_retf | Fn_movs | Fn_stos | Fn_lods | Fn_cmps | Fn_scas | Fn_mov_esp_from_mem | Fn_mov_esp_to_mem
  | Fn_mov_high_from_mem | Fn_mov_high_to_mem | Fn_mmio_read | Fn_mmio_write | Fn_mmio_write_imm

text \<open>The calling convention (\<open>_WIN32\<close> or System V) and where the functions are.\<close>

record host_abi =
  abi_win :: bool
  fn_addr :: "c_fn \<Rightarrow> u64"

definition call_abs :: "host_abi \<Rightarrow> c_fn \<Rightarrow> u8 list" where
  "call_abs h f =
     (if abi_win h then [REX_W, 0x83, 0xEC, 0x20] else []) @ [0x48, 0xB8] @ le64 (fn_addr h f) @ [0xFF, 0xD0]
     @ (if abi_win h then [REX_W, 0x83, 0xC4, 0x20] else [])"

definition arg0_ctx :: "host_abi \<Rightarrow> u8 list" where
  "arg0_ctx h = (if abi_win h then [REX_WR, 0x89, 0xE9] else [REX_WB, 0x8B, 0xFD])"

definition arg1_pa :: "host_abi \<Rightarrow> u8 list" where
  "arg1_pa h = (if abi_win h then [REX_R, 0x89, 0xF2] else [REX_B, 0x8B, 0xF6])"

definition arg1_imm :: "host_abi \<Rightarrow> u32 \<Rightarrow> u8 list" where
  "arg1_imm h v = (if abi_win h then [0xBA] else [0xBE]) @ le32 v"

definition arg2_imm :: "host_abi \<Rightarrow> u32 \<Rightarrow> u8 list" where
  "arg2_imm h v = (if abi_win h then [REX_B, 0xB8] else [0xBA]) @ le32 v"

definition arg3_imm :: "host_abi \<Rightarrow> u32 \<Rightarrow> u8 list" where
  "arg3_imm h v = (if abi_win h then [REX_B, 0xB9] else [0xB9]) @ le32 v"

text \<open>With paging on, the address in R14 is translated by a call; on a fault the trace is left.\<close>

definition fault_exit :: "u32 \<Rightarrow> u8 list" where
  "fault_exit fault = [REX_B, 0xC7, 0x45, CTX_NEXT_EIP] @ le32 fault @ load_all_gp @ [0x9D, 0xC3]"

definition translate_r14 :: "host_abi \<Rightarrow> bool \<Rightarrow> u32 \<Rightarrow> u8 list" where
  "translate_r14 h is_write fault =
     [0x9C] @ save_all_gp @ arg0_ctx h @ arg1_pa h @ arg2_imm h (if is_write then 1 else 0)
     @ call_abs h Fn_translate_va_jit @ [REX_B, 0x83, 0x7D, CTX_STOP_REASON, 0, 0x74, of_nat (length (fault_exit fault))]
     @ fault_exit fault @ [REX_B, 0x89, 0xC6] @ load_all_gp @ [0x9D]"

definition paging_translate :: "host_abi \<Rightarrow> bool \<Rightarrow> emit_step" where
  "paging_translate h is_write e = when_step (epaging e) (put_code (translate_r14 h is_write (efault_eip e))) e"

section \<open>Instructions that are copied\<close>

text \<open>The one-byte INC and DEC are prefixes in 64-bit mode and get their two-byte form.\<close>

definition inc_dec_form :: "x_insn \<Rightarrow> u8 option" where
  "inc_dec_form x =
     (if is_reg (op_at 0 x) then
        if x_mnem x = ''INC'' then Some 0xC0 else if x_mnem x = ''DEC'' then Some 0xC8 else None
      else None)"

definition clean_code :: "x_insn \<Rightarrow> u8 list \<Rightarrow> u8 list" where
  "clean_code x raw =
     (let verbatim = take (x_len x) raw in
      case inc_dec_form x of
        None \<Rightarrow> verbatim
      | Some form \<Rightarrow>
          (case reg32_enc (reg_at 0 x) of
             Some enc \<Rightarrow> [0xFF, form OR of_nat enc]
           | None \<Rightarrow>
               (case widen16 (reg_at 0 x) of
                  Some enc \<Rightarrow> [0x66, 0xFF, form OR of_nat enc]
                | None \<Rightarrow> verbatim)))"

definition emit_clean_insn :: "x_insn \<Rightarrow> u8 list \<Rightarrow> emit_step" where
  "emit_clean_insn x raw = put_code (clean_code x raw)"

end
