(* ===== verification/Insn_Classes.thy ===== *)
theory Insn_Classes
  imports Emitter
begin

text \<open>
  The classes of mnemonics (\<open>src/src/cpu/insn_dispatch.hpp\<close>) at the default feature level, a Pentium III:
  which mnemonics end a trace, trap, may touch memory, and which emission routine each has.  The blocks
  for higher feature levels are compiled out.
\<close>

section \<open>Classes\<close>

datatype insn_class = IC_NONE | IC_CLEAN | IC_LEA | IC_MOV_MEM | IC_ALU_MEM | IC_TEST_MEM | IC_PUSH | IC_POP
  | IC_PUSH_IMM | IC_LEAVE | IC_MOVZX_MEM | IC_MOVSX_MEM | IC_FPU_MEM | IC_SSE_MEM | IC_PUSHFD | IC_POPFD
  | IC_STRING | IC_PUSHAD | IC_POPAD | IC_FLAGMEM | IC_ENTER | IC_XLATB | IC_TERMINATOR | IC_PRIVILEGED

text \<open>The flags of the class table: whether the class has inline dispatch of memory accesses, ends the trace,
  or traps.\<close>

definition has_dispatch :: "insn_class \<Rightarrow> bool" where
  "has_dispatch c \<longleftrightarrow> c \<notin> {IC_NONE, IC_CLEAN, IC_LEA, IC_TERMINATOR, IC_PRIVILEGED}"

definition ends_trace :: "insn_class \<Rightarrow> bool" where
  "ends_trace c \<longleftrightarrow> c = IC_TERMINATOR"

definition is_privileged :: "insn_class \<Rightarrow> bool" where
  "is_privileged c \<longleftrightarrow> c = IC_PRIVILEGED"

section \<open>The mnemonics\<close>

definition terminator_names :: "string list" where
  "terminator_names = [
    ''JMP'', ''CALL'', ''RET'', ''IRETD'', ''JB'', ''JBE'', ''JCXZ'', ''JECXZ'', ''JL'', ''JLE'', ''JNB'',
    ''JNBE'', ''JNL'', ''JNLE'', ''JNO'', ''JNP'', ''JNS'', ''JNZ'', ''JO'', ''JP'', ''JS'', ''JZ'', ''LOOP'',
    ''LOOPE'', ''LOOPNE'']"

definition privileged_names :: "string list" where
  "privileged_names = [
    ''HLT'', ''LGDT'', ''LIDT'', ''LLDT'', ''LTR'', ''CLTS'', ''SGDT'', ''SIDT'', ''SLDT'', ''STR'', ''INVD'',
    ''WBINVD'', ''INVLPG'', ''RDMSR'', ''WRMSR'', ''RDTSC'', ''RDPMC'', ''IN'', ''OUT'', ''INSB'', ''INSD'',
    ''INSW'', ''OUTSB'', ''OUTSD'', ''OUTSW'', ''CLI'', ''STI'', ''LMSW'', ''CPUID'', ''INT'', ''INT3'',
    ''INT1'', ''INTO'', ''SYSENTER'', ''SYSEXIT'', ''LES'', ''LDS'', ''DAA'', ''DAS'', ''AAA'', ''AAS'',
    ''AAM'', ''AAD'', ''PUSHA'', ''PUSHAD'', ''POPA'', ''POPAD'', ''SALC'', ''BOUND'', ''ARPL'']"

definition alu_names :: "string list" where
  "alu_names = [
    ''ADD'', ''SUB'', ''AND'', ''OR'', ''XOR'', ''CMP'', ''ADC'', ''SBB'', ''INC'', ''DEC'', ''NEG'', ''NOT'',
    ''SHL'', ''SHR'', ''SAR'', ''ROL'', ''ROR'', ''RCL'', ''RCR'', ''XCHG'', ''CMPXCHG'', ''XADD'', ''SHLD'',
    ''SHRD'', ''BT'', ''BTS'', ''BTR'', ''BTC'', ''BSF'', ''BSR'', ''IMUL'', ''MUL'', ''DIV'', ''IDIV'']"

definition flagmem_names :: "string list" where
  "flagmem_names = [
    ''SETB'', ''SETBE'', ''SETL'', ''SETLE'', ''SETNB'', ''SETNBE'', ''SETNL'', ''SETNLE'', ''SETNO'',
    ''SETNP'', ''SETNS'', ''SETNZ'', ''SETO'', ''SETP'', ''SETS'', ''SETZ'', ''CMOVB'', ''CMOVBE'', ''CMOVL'',
    ''CMOVLE'', ''CMOVNB'', ''CMOVNBE'', ''CMOVNL'', ''CMOVNLE'', ''CMOVNO'', ''CMOVNP'', ''CMOVNS'',
    ''CMOVNZ'', ''CMOVO'', ''CMOVP'', ''CMOVS'', ''CMOVZ'']"

definition string_names :: "string list" where
  "string_names = [
    ''MOVSB'', ''MOVSW'', ''MOVSD'', ''STOSB'', ''STOSW'', ''STOSD'', ''LODSB'', ''LODSW'', ''LODSD'',
    ''CMPSB'', ''CMPSW'', ''CMPSD'', ''SCASB'', ''SCASW'', ''SCASD'']"

definition fpu_names :: "string list" where
  "fpu_names = [
    ''FLD'', ''FST'', ''FSTP'', ''FILD'', ''FIST'', ''FISTP'', ''FBLD'', ''FBSTP'', ''FADD'', ''FSUB'',
    ''FSUBR'', ''FMUL'', ''FDIV'', ''FDIVR'', ''FCOM'', ''FCOMP'', ''FIADD'', ''FISUB'', ''FISUBR'', ''FIMUL'',
    ''FIDIV'', ''FIDIVR'', ''FICOM'', ''FICOMP'', ''FLDCW'', ''FNSTCW'', ''FLDENV'', ''FNSTENV'', ''FNSTSW'']"

definition mmx_names :: "string list" where
  "mmx_names = [
    ''MOVD'', ''MOVQ'', ''PADDB'', ''PADDW'', ''PADDD'', ''PSUBB'', ''PSUBW'', ''PSUBD'', ''PMULLW'',
    ''PMULHW'', ''PAND'', ''PANDN'', ''POR'', ''PXOR'', ''PCMPEQB'', ''PCMPEQW'', ''PCMPEQD'', ''PCMPGTB'',
    ''PCMPGTW'', ''PCMPGTD'', ''PSLLW'', ''PSLLD'', ''PSLLQ'', ''PSRLW'', ''PSRLD'', ''PSRLQ'', ''PSRAW'',
    ''PSRAD'', ''PACKSSWB'', ''PACKSSDW'', ''PACKUSWB'', ''PUNPCKLBW'', ''PUNPCKLWD'', ''PUNPCKLDQ'',
    ''PUNPCKHBW'', ''PUNPCKHWD'', ''PUNPCKHDQ'']"

definition sse_names :: "string list" where
  "sse_names = [
    ''MOVAPS'', ''MOVUPS'', ''MOVSS'', ''MOVLPS'', ''MOVHPS'', ''MOVNTPS'', ''ADDPS'', ''ADDSS'', ''SUBPS'',
    ''SUBSS'', ''MULPS'', ''MULSS'', ''DIVPS'', ''DIVSS'', ''SQRTPS'', ''SQRTSS'', ''RCPPS'', ''RCPSS'',
    ''RSQRTPS'', ''RSQRTSS'', ''MAXPS'', ''MAXSS'', ''MINPS'', ''MINSS'', ''ANDPS'', ''ANDNPS'', ''ORPS'',
    ''XORPS'', ''CMPPS'', ''CMPSS'', ''COMISS'', ''UCOMISS'', ''CVTSI2SS'', ''CVTSS2SI'', ''CVTTSS2SI'',
    ''CVTPI2PS'', ''CVTPS2PI'', ''CVTTPS2PI'', ''SHUFPS'', ''UNPCKLPS'', ''UNPCKHPS'', ''LDMXCSR'', ''STMXCSR'']"

definition sse_mmx_names :: "string list" where
  "sse_mmx_names = [
    ''PMULHUW'', ''PSHUFW'', ''PMINUB'', ''PMAXUB'', ''PMINSW'', ''PMAXSW'', ''PAVGB'', ''PAVGW'', ''PSADBW'',
    ''MASKMOVQ'', ''MOVNTQ'']"

section \<open>The table\<close>

text \<open>The assignments that fill the table, in the order of the code: a later one overrides an earlier one.\<close>

definition class_assignments :: "(string list \<times> insn_class) list" where
  "class_assignments = [
   (terminator_names, IC_TERMINATOR), (privileged_names, IC_PRIVILEGED), ([''LEA''], IC_LEA),
   ([''MOV''], IC_MOV_MEM), (alu_names, IC_ALU_MEM), (flagmem_names, IC_FLAGMEM),
   ([''TEST''], IC_TEST_MEM), ([''PUSH''], IC_PUSH), ([''POP''], IC_POP),
   ([''LEAVE''], IC_LEAVE), ([''ENTER''], IC_ENTER), ([''XLAT''], IC_XLATB),
   ([''MOVZX''], IC_MOVZX_MEM), ([''MOVSX''], IC_MOVSX_MEM), ([''PUSHFD''], IC_PUSHFD),
   ([''POPFD''], IC_POPFD), ([''PUSHAD''], IC_PUSHAD), ([''POPAD''], IC_POPAD),
   (string_names, IC_STRING), (fpu_names, IC_FPU_MEM), (mmx_names, IC_SSE_MEM),
   (sse_names, IC_SSE_MEM), (sse_mmx_names, IC_SSE_MEM)]"

definition mnemonic_class :: "string \<Rightarrow> insn_class" where
  "mnemonic_class m =
     (case find (\<lambda>(ms, _). m \<in> set ms) (rev class_assignments) of Some (_, c) \<Rightarrow> c | None \<Rightarrow> IC_NONE)"

lemmas class_table = mnemonic_class_def class_assignments_def terminator_names_def privileged_names_def alu_names_def
  flagmem_names_def string_names_def fpu_names_def mmx_names_def sse_names_def sse_mmx_names_def

text \<open>PUSHAD and POPAD are listed as privileged first, but are emitted.\<close>

lemma pushad_popad_emitted: "mnemonic_class ''PUSHAD'' = IC_PUSHAD" "mnemonic_class ''POPAD'' = IC_POPAD"
  by (simp_all add: class_table)

end
