(* ===== verification/Codegen.thy ===== *)
theory Codegen
  imports Insn_Classes
begin

text \<open>
  The emission routines of \<open>src/src/cpu/trace_builder.cpp\<close>, one per class of instructions.  Each gets the
  decoded instruction, its bytes and whether the guest's flags must survive it, emits host code and tells
  whether it supports the operands; what it has emitted before it rejects stays in the buffer.
\<close>

section \<open>Operands\<close>

definition first_mem :: "x_insn \<Rightarrow> nat option" where
  "first_mem x = find (\<lambda>i. is_mem (op_at i x)) [0..<length (x_ops x)]"

definition emit_ea :: "x_op \<Rightarrow> emit_step" where
  "emit_ea p = (case xo_kind p of X_mem m \<Rightarrow> try_code (ea_to_r14 m) | _ \<Rightarrow> (\<lambda>_. None))"

definition is_esp :: "x_op \<Rightarrow> bool" where
  "is_esp p \<longleftrightarrow> (case xo_kind p of X_reg r \<Rightarrow> r = REG_ESP | _ \<Rightarrow> False)"

definition is_control_register :: "reg_name \<Rightarrow> bool" where
  "is_control_register r \<longleftrightarrow> (case r of Cr _ \<Rightarrow> True | _ \<Rightarrow> False)"

definition is_debug_register :: "reg_name \<Rightarrow> bool" where
  "is_debug_register r \<longleftrightarrow> (case r of Dr _ \<Rightarrow> True | _ \<Rightarrow> False)"

definition is_segment_register :: "reg_name \<Rightarrow> bool" where
  "is_segment_register r \<longleftrightarrow> (case r of Seg _ \<Rightarrow> True | _ \<Rightarrow> False)"

definition shows_reg :: "(reg_name \<Rightarrow> bool) \<Rightarrow> x_insn \<Rightarrow> bool" where
  "shows_reg P x \<longleftrightarrow> list_ex (\<lambda>p. case xo_kind p of X_reg r \<Rightarrow> P r | _ \<Rightarrow> False) (shown_ops x)"

definition jcc_short_opcode :: "string \<Rightarrow> u8" where
  "jcc_short_opcode m =
     (case map_of (zip [''JO'', ''JNO'', ''JB'', ''JNB'', ''JZ'', ''JNZ'', ''JBE'', ''JNBE'', ''JS'', ''JNS'', ''JP'', ''JNP'',
        ''JL'', ''JNL'', ''JLE'', ''JNLE''] [0..<16]) m of
        Some i \<Rightarrow> 0x70 + of_nat i | None \<Rightarrow> 0)"

section \<open>Pieces\<close>

text \<open>An access that the fault handler can replace by a call is padded to the size of one, and its place
  and size are recorded; of others only the place is.\<close>

definition patch_region :: "u8 list \<Rightarrow> emit_step" where
  "patch_region bs e =
     map_option (\<lambda>x. (True, add_site (epos e) (of_nat (length (pad_to 5 bs))) x)) (emits (pad_to 5 bs) e)"

definition with_site :: "emit_step \<Rightarrow> emit_step" where
  "with_site s e = (case s e of Some (True, x) \<Rightarrow> Some (True, add_site (epos e) 0 x) | r \<Rightarrow> r)"

definition keeping_flags :: "bool \<Rightarrow> u8 list \<Rightarrow> u8 list" where
  "keeping_flags save c = (if save then save_flags_code @ c @ restore_flags_code else c)"

definition c_call :: "host_abi \<Rightarrow> u8 list \<Rightarrow> c_fn \<Rightarrow> u8 list" where
  "c_call h args f = save_all_gp @ arg0_ctx h @ args @ call_abs h f @ load_all_gp"

definition store_imm_code :: "u32 \<Rightarrow> nat \<Rightarrow> u8 list" where
  "store_imm_code v bits =
     (if bits = 32 then fastmem_store_imm32 v else if bits = 16 then fastmem_store_imm16 (ucast v)
      else fastmem_store_imm8 (ucast v))"

definition fastmem_dispatch :: "host_abi \<Rightarrow> x_op \<Rightarrow> nat \<Rightarrow> nat \<Rightarrow> bool \<Rightarrow> emit_step" where
  "fastmem_dispatch h p enc bits is_load =
     emit_all [emit_ea p, paging_translate h (\<not> is_load), patch_region (fastmem_op enc bits is_load)]"

definition fastmem_dispatch_store_imm :: "host_abi \<Rightarrow> x_op \<Rightarrow> u32 \<Rightarrow> nat \<Rightarrow> emit_step" where
  "fastmem_dispatch_store_imm h p v bits =
     emit_all [emit_ea p, paging_translate h True, patch_region (store_imm_code v bits)]"

section \<open>LEA and MOV\<close>

definition emit_lea :: "x_insn \<Rightarrow> emit_step" where
  "emit_lea x =
     (if length (x_ops x) < 2 \<or> \<not> is_reg (op_at 0 x) \<or> \<not> is_mem (op_at 1 x) then reject
      else case reg32_enc (reg_at 0 x) of
        None \<Rightarrow> reject
      | Some dst \<Rightarrow> emit_all [emit_ea (op_at 1 x),
          put_code (if dst = GP_ESP then store_r14_to_esp else [0x44, 0x89, modrm 3 R14_REG dst])])"

definition store_gp_to_esp :: "nat \<Rightarrow> u8 list" where
  "store_gp_to_esp r = [0x41, 0x89, modrm 1 r R13_REG, gp_offset GP_ESP]"

definition load_gp_from_esp :: "nat \<Rightarrow> u8 list" where
  "load_gp_from_esp r = [0x41, 0x8B, modrm 1 r R13_REG, gp_offset GP_ESP]"

text \<open>Between registers: ESP is in the context.\<close>

definition emit_mov_regs :: "x_insn \<Rightarrow> u8 list \<Rightarrow> emit_step" where
  "emit_mov_regs x raw =
     (let dst_esp = 1 \<le> x_visible x \<and> is_esp (op_at 0 x); src_esp = 2 \<le> x_visible x \<and> is_esp (op_at 1 x) in
      if dst_esp \<and> 2 \<le> x_visible x \<and> is_imm (op_at 1 x)
      then put_code ([0x41, 0xC7, modrm 1 0 R13_REG, gp_offset GP_ESP] @ le32 (ucast (imm_at 1 x)))
      else if dst_esp \<and> \<not> src_esp
      then (case reg32_enc (reg_at 1 x) of None \<Rightarrow> reject | Some r \<Rightarrow> put_code (store_gp_to_esp r))
      else if src_esp \<and> \<not> dst_esp
      then (case reg32_enc (reg_at 0 x) of None \<Rightarrow> reject | Some r \<Rightarrow> put_code (load_gp_from_esp r))
      else if dst_esp \<and> src_esp then put_code []
      else put_code (take (x_len x) raw))"

text \<open>The second byte of a register, which no host encoding with a prefix can name.\<close>

fun high_byte_of :: "reg_name \<Rightarrow> nat option" where
  "high_byte_of (High8 i) = Some i"
| "high_byte_of _ = None"

definition emit_mov_helper :: "host_abi \<Rightarrow> x_op \<Rightarrow> u8 list \<Rightarrow> c_fn \<Rightarrow> bool \<Rightarrow> bool \<Rightarrow> emit_step" where
  "emit_mov_helper h p args f is_write save =
     emit_all [emit_ea p, paging_translate h is_write, put_code (keeping_flags save (c_call h (arg1_pa h @ args) f))]"

definition emit_mov_mem :: "host_abi \<Rightarrow> x_insn \<Rightarrow> u8 list \<Rightarrow> bool \<Rightarrow> emit_step" where
  "emit_mov_mem h x raw save =
     (if shows_reg is_segment_register x then reject
      else case first_mem x of
        None \<Rightarrow> emit_mov_regs x raw
      | Some mi \<Rightarrow>
          let oi = (if mi = 0 then 1 else 0); is_load = mi \<noteq> 0; m = op_at mi x in
          if is_imm (op_at oi x) then fastmem_dispatch_store_imm h m (ucast (imm_at oi x)) (x_width x)
          else if \<not> is_reg (op_at oi x) then reject
          else case guest_reg_enc (reg_at oi x) of
            None \<Rightarrow>
              (case high_byte_of (reg_at oi x) of
                 None \<Rightarrow> reject
               | Some r \<Rightarrow> emit_mov_helper h m (arg2_imm h (of_nat r))
                   (if is_load then Fn_mov_high_from_mem else Fn_mov_high_to_mem) (\<not> is_load) save)
          | Some enc \<Rightarrow>
              if enc = GP_ESP
              then emit_mov_helper h m [] (if is_load then Fn_mov_esp_from_mem else Fn_mov_esp_to_mem) (\<not> is_load) save
              else fastmem_dispatch h m enc (x_width x) is_load)"

section \<open>Arithmetic\<close>

text \<open>Between registers, one of them ESP: R14 stands for it.\<close>

definition opcode_len :: "x_insn \<Rightarrow> nat" where
  "opcode_len x = (if x_map x = 1 then 2 else if x_map x = 2 \<or> x_map x = 3 then 3 else 1)"

definition esp_as_r14 :: "x_insn \<Rightarrow> u8 list \<Rightarrow> u8 list" where
  "esp_as_r14 x raw =
     (let off = x_modrm_off x; form = raw ! off; r = drop_bit 3 form AND 7; m = form AND 7;
          two_regs = 2 \<le> x_visible x \<and> is_reg (op_at 0 x) \<and> is_reg (op_at 1 x);
          sub_m = (m = 4); sub_r = (r = 4 \<and> two_regs);
          rex = 0x40 OR (if sub_m then 1 else 0) OR (if sub_r then 4 else 0);
          start = off - opcode_len x in
      filter (\<lambda>b. \<not> (0x40 \<le> b \<and> b \<le> 0x4F)) (take start raw)
      @ (if rex \<noteq> 0x40 then [rex] else [])
      @ take (off - start) (drop start raw)
      @ [0xC0 OR push_bit 3 (if sub_r then 6 else r) OR (if sub_m then 6 else m)]
      @ take (x_len x - (off + 1)) (drop (off + 1) raw))"

definition emit_alu_esp_reg :: "x_insn \<Rightarrow> u8 list \<Rightarrow> emit_step" where
  "emit_alu_esp_reg x raw = emit_all
     [put_code load_esp_to_r14,
      if x_mnem x = ''INC'' \<and> is_esp (op_at 0 x) then put_code ([0x41, 0xFF, 0xC6] @ store_r14_to_esp)
      else if x_mnem x = ''DEC'' \<and> is_esp (op_at 0 x) then put_code ([0x41, 0xFF, 0xCE] @ store_r14_to_esp)
      else if x_modrm_off x = 0 \<or> drop_bit 6 (raw ! x_modrm_off x) \<noteq> 3 then reject
      else put_code (esp_as_r14 x raw
             @ (if list_ex (\<lambda>p. is_esp p \<and> xo_write p) (shown_ops x) then store_r14_to_esp else []))]"

text \<open>With a memory operand, R8 stands for ESP.  The first operand that is ESP decides whether it is written
  back.\<close>

definition emit_alu_mem :: "host_abi \<Rightarrow> x_insn \<Rightarrow> u8 list \<Rightarrow> bool \<Rightarrow> emit_step" where
  "emit_alu_mem h x raw save =
     (case first_mem x of
        None \<Rightarrow>
          if shows_reg (\<lambda>r. r = REG_ESP) x then emit_alu_esp_reg x raw
          else if x_mnem x = ''DIV'' \<or> x_mnem x = ''IDIV'' then with_site (emit_clean_insn x raw)
          else emit_clean_insn x raw
      | Some mi \<Rightarrow>
          let esp_op = find is_esp (shown_ops x); esp_in_reg = esp_op \<noteq> None;
              esp_is_dst = (case esp_op of Some p \<Rightarrow> xo_write p | None \<Rightarrow> False) in
          emit_all
            [emit_ea (op_at mi x), paging_translate h (mi = 0), when_step esp_in_reg (put_code load_esp_to_r8),
             when_step save (put_code save_flags_code),
             with_site (emit_all [emit_rewrite_mem_to_fastmem x raw esp_in_reg,
               when_step esp_is_dst (put_code store_r8_to_esp)]),
             when_step save (put_code restore_flags_code)])"

definition cmov_names :: "string list" where
  "cmov_names = [''CMOVB'', ''CMOVBE'', ''CMOVL'', ''CMOVLE'', ''CMOVNB'', ''CMOVNBE'', ''CMOVNL'', ''CMOVNLE'', ''CMOVNO'',
     ''CMOVNP'', ''CMOVNS'', ''CMOVNZ'', ''CMOVO'', ''CMOVP'', ''CMOVS'', ''CMOVZ'']"

definition emit_flagmem :: "host_abi \<Rightarrow> x_insn \<Rightarrow> u8 list \<Rightarrow> emit_step" where
  "emit_flagmem h x raw =
     (case first_mem x of
        None \<Rightarrow>
          if x_mnem x \<in> set cmov_names \<and> shows_reg (\<lambda>r. r = REG_ESP) x then emit_alu_esp_reg x raw
          else put_code (take (x_len x) raw)
      | Some mi \<Rightarrow>
          let esp_in_reg = list_ex is_esp (shown_ops x) in
          emit_all
            [emit_ea (op_at mi x), paging_translate h (mi = 0), when_step esp_in_reg (put_code load_esp_to_r8),
             with_site (emit_all [emit_rewrite_mem_to_fastmem x raw esp_in_reg,
               when_step esp_in_reg (put_code store_r8_to_esp)])])"

text \<open>TEST reads its memory operand; x87, MMX and SSE instructions write it when it comes first.\<close>

definition emit_rewritten :: "host_abi \<Rightarrow> (nat \<Rightarrow> bool) \<Rightarrow> x_insn \<Rightarrow> u8 list \<Rightarrow> bool \<Rightarrow> emit_step" where
  "emit_rewritten h is_write x raw save =
     (case first_mem x of
        None \<Rightarrow> put_code (take (x_len x) raw)
      | Some mi \<Rightarrow> emit_all
          [emit_ea (op_at mi x), paging_translate h (is_write mi), when_step save (put_code save_flags_code),
           with_site (emit_rewrite_mem_to_fastmem x raw False), when_step save (put_code restore_flags_code)])"

definition emit_test_mem :: "host_abi \<Rightarrow> x_insn \<Rightarrow> u8 list \<Rightarrow> bool \<Rightarrow> emit_step" where
  "emit_test_mem h = emit_rewritten h (\<lambda>_. False)"

definition emit_fpu_mem :: "host_abi \<Rightarrow> x_insn \<Rightarrow> u8 list \<Rightarrow> bool \<Rightarrow> emit_step" where
  "emit_fpu_mem h = emit_rewritten h (\<lambda>mi. mi = 0)"

section \<open>The stack\<close>

definition emit_enter :: "host_abi \<Rightarrow> x_insn \<Rightarrow> bool \<Rightarrow> emit_step" where
  "emit_enter h x save =
     (if x_visible x < 2 then reject
      else put_code (keeping_flags save (c_call h
        (arg1_imm h (ucast (ucast (imm_at 0 x) :: u16)) @ arg2_imm h (ucast (ucast (imm_at 1 x) :: u8))) Fn_enter)))"

definition emit_xlatb :: "host_abi \<Rightarrow> bool \<Rightarrow> emit_step" where
  "emit_xlatb h save = put_code (keeping_flags save
     (save_all_gp @ arg0_ctx h @ call_abs h Fn_xlatb @ [0x41, 0x88, 0x45, gp_offset GP_EAX] @ load_all_gp))"

text \<open>A store of one word below the top of the stack.\<close>

definition push_word :: "host_abi \<Rightarrow> u8 list \<Rightarrow> emit_step" where
  "push_word h st_code =
     emit_all [put_code (sub_ctx_esp 4 @ load_esp_to_r14), paging_translate h True, patch_region st_code]"

definition emit_push :: "host_abi \<Rightarrow> x_insn \<Rightarrow> bool \<Rightarrow> emit_step" where
  "emit_push h x save =
     (let p = op_at 0 x in
      case xo_kind p of
        X_imm v _ \<Rightarrow> push_word h (fastmem_store_imm32 (ucast v))
      | X_reg r \<Rightarrow>
          (case reg32_enc r of
             None \<Rightarrow> reject
           | Some enc \<Rightarrow>
               if enc = GP_ESP then put_code (keeping_flags save (c_call h [] Fn_push_esp))
               else push_word h (fastmem_op enc 32 False))
      | X_mem _ \<Rightarrow> emit_mov_helper h p [] Fn_push_mem False save
      | _ \<Rightarrow> reject)"

text \<open>A load of the top of the stack, then ESP is raised.\<close>

definition pop_word :: "host_abi \<Rightarrow> nat \<Rightarrow> emit_step" where
  "pop_word h enc = emit_all
     [put_code load_esp_to_r14, paging_translate h False, patch_region (fastmem_op enc 32 True),
      put_code (add_ctx_esp 4)]"

definition emit_pop :: "host_abi \<Rightarrow> x_insn \<Rightarrow> bool \<Rightarrow> emit_step" where
  "emit_pop h x save =
     (let p = op_at 0 x in
      case xo_kind p of
        X_reg r \<Rightarrow>
          (case reg32_enc r of
             None \<Rightarrow> reject
           | Some enc \<Rightarrow>
               if enc = GP_ESP then put_code (keeping_flags save (c_call h [] Fn_pop_esp)) else pop_word h enc)
      | X_mem _ \<Rightarrow> emit_mov_helper h p [] Fn_pop_mem True save
      | _ \<Rightarrow> reject)"

definition emit_pushad :: "host_abi \<Rightarrow> bool \<Rightarrow> emit_step" where
  "emit_pushad h save = put_code (keeping_flags save (c_call h [] Fn_pushad))"

definition emit_popad :: "host_abi \<Rightarrow> bool \<Rightarrow> emit_step" where
  "emit_popad h save = put_code (keeping_flags save (c_call h [] Fn_popad))"

definition emit_leave :: "host_abi \<Rightarrow> emit_step" where
  "emit_leave h = emit_all [put_code (store_gp_to_esp GP_EBP), pop_word h GP_EBP]"

definition flags_to_r14 :: "u8 list" where
  "flags_to_r14 = [0x9C, 0x41, 0x5E]"

definition flags_from_r14 :: "u8 list" where
  "flags_from_r14 = [0x41, 0x56, 0x9D]"

definition emit_pushfd :: "host_abi \<Rightarrow> bool \<Rightarrow> emit_step" where
  "emit_pushfd h save = put_code (flags_to_r14 @ keeping_flags save (c_call h (arg1_pa h) Fn_pushfd))"

definition emit_popfd :: "host_abi \<Rightarrow> emit_step" where
  "emit_popfd h = put_code (save_all_gp @ arg0_ctx h @ call_abs h Fn_popfd @ [0x50, 0x9D] @ load_all_gp)"

section \<open>String instructions\<close>

definition string_helper :: "string \<Rightarrow> (u32 \<times> c_fn) option" where
  "string_helper m = map_of
     [(''MOVSB'', 1, Fn_movs), (''MOVSW'', 2, Fn_movs), (''MOVSD'', 4, Fn_movs),
      (''STOSB'', 1, Fn_stos), (''STOSW'', 2, Fn_stos), (''STOSD'', 4, Fn_stos),
      (''LODSB'', 1, Fn_lods), (''LODSW'', 2, Fn_lods), (''LODSD'', 4, Fn_lods),
      (''CMPSB'', 1, Fn_cmps), (''CMPSW'', 2, Fn_cmps), (''CMPSD'', 4, Fn_cmps),
      (''SCASB'', 1, Fn_scas), (''SCASW'', 2, Fn_scas), (''SCASD'', 4, Fn_scas)] m"

definition rep_mode :: "x_insn \<Rightarrow> u32" where
  "rep_mode x = (if x_repne x then 2 else if x_rep x then 1 else 0)"

definition emit_string :: "host_abi \<Rightarrow> x_insn \<Rightarrow> emit_step" where
  "emit_string h x =
     (case string_helper (x_mnem x) of
        None \<Rightarrow> reject
      | Some (sz, f) \<Rightarrow> put_code (flags_to_r14 @ save_all_gp @ arg0_ctx h @ arg1_pa h @ arg2_imm h sz
          @ arg3_imm h (rep_mode x) @ call_abs h f @ [0x41, 0x89, 0xC6] @ load_all_gp @ flags_from_r14))"

section \<open>Extending loads\<close>

text \<open>Into a 16-bit register, through R14; the size of the source is not looked at.\<close>

definition movzx_16 :: "host_abi \<Rightarrow> x_op \<Rightarrow> nat \<Rightarrow> emit_step" where
  "movzx_16 h p enc = emit_all
     [emit_ea p, paging_translate h False, patch_region [0x43, 0x0F, 0xB6, modrm 0 6 4, 0x34],
      put_code ([0x81, 0xE0 OR of_nat enc] @ le32 0xFFFF0000 @ [0x44, 0x09, modrm 3 6 enc])]"

definition emit_extend :: "host_abi \<Rightarrow> (nat \<Rightarrow> nat \<Rightarrow> bool \<Rightarrow> u8 list) \<Rightarrow> (x_insn \<Rightarrow> emit_step) \<Rightarrow> x_insn \<Rightarrow> u8 list \<Rightarrow> emit_step"
where
  "emit_extend h load narrow x raw =
     (if length (x_ops x) < 2 \<or> \<not> is_reg (op_at 0 x) then reject
      else if \<not> is_mem (op_at 1 x) then
        if reg_at 0 x = REG_ESP then emit_alu_esp_reg x raw else put_code (take (x_len x) raw)
      else case reg32_enc (reg_at 0 x) of
        None \<Rightarrow> narrow x
      | Some enc \<Rightarrow>
          let to_esp = (enc = GP_ESP) in
          emit_all [emit_ea (op_at 1 x), paging_translate h False,
            patch_region (load enc (xo_size (op_at 1 x)) to_esp @ (if to_esp then store_r8_to_esp else []))])"

definition emit_movzx_mem :: "host_abi \<Rightarrow> x_insn \<Rightarrow> u8 list \<Rightarrow> emit_step" where
  "emit_movzx_mem h = emit_extend h fastmem_movzx
     (\<lambda>x. case guest_reg_enc (reg_at 0 x) of None \<Rightarrow> reject | Some enc \<Rightarrow> movzx_16 h (op_at 1 x) enc)"

definition emit_movsx_mem :: "host_abi \<Rightarrow> x_insn \<Rightarrow> u8 list \<Rightarrow> emit_step" where
  "emit_movsx_mem h = emit_extend h fastmem_movsx (\<lambda>_. reject)"

section \<open>Dispatch\<close>

text \<open>The routine of a class; \<open>None\<close> for a class without one.\<close>

fun class_handler :: "host_abi \<Rightarrow> insn_class \<Rightarrow> (x_insn \<Rightarrow> u8 list \<Rightarrow> bool \<Rightarrow> emit_step) option" where
  "class_handler h IC_CLEAN = Some (\<lambda>x raw _. emit_clean_insn x raw)"
| "class_handler h IC_LEA = Some (\<lambda>x _ _. emit_lea x)"
| "class_handler h IC_MOV_MEM = Some (emit_mov_mem h)"
| "class_handler h IC_ALU_MEM = Some (emit_alu_mem h)"
| "class_handler h IC_TEST_MEM = Some (emit_test_mem h)"
| "class_handler h IC_PUSH = Some (\<lambda>x _. emit_push h x)"
| "class_handler h IC_POP = Some (\<lambda>x _. emit_pop h x)"
| "class_handler h IC_PUSH_IMM = Some (\<lambda>x _. emit_push h x)"
| "class_handler h IC_LEAVE = Some (\<lambda>_ _ _. emit_leave h)"
| "class_handler h IC_MOVZX_MEM = Some (\<lambda>x raw _. emit_movzx_mem h x raw)"
| "class_handler h IC_MOVSX_MEM = Some (\<lambda>x raw _. emit_movsx_mem h x raw)"
| "class_handler h IC_FPU_MEM = Some (emit_fpu_mem h)"
| "class_handler h IC_SSE_MEM = Some (emit_fpu_mem h)"
| "class_handler h IC_PUSHFD = Some (\<lambda>_ _. emit_pushfd h)"
| "class_handler h IC_POPFD = Some (\<lambda>_ _ _. emit_popfd h)"
| "class_handler h IC_STRING = Some (\<lambda>x _ _. emit_string h x)"
| "class_handler h IC_PUSHAD = Some (\<lambda>_ _. emit_pushad h)"
| "class_handler h IC_POPAD = Some (\<lambda>_ _. emit_popad h)"
| "class_handler h IC_FLAGMEM = Some (\<lambda>x raw _. emit_flagmem h x raw)"
| "class_handler h IC_ENTER = Some (\<lambda>x _. emit_enter h x)"
| "class_handler h IC_XLATB = Some (\<lambda>_ _. emit_xlatb h)"
| "class_handler h IC_NONE = None"
| "class_handler h IC_TERMINATOR = None"
| "class_handler h IC_PRIVILEGED = None"

end
