(* ===== verification/Trace_Builder.thy ===== *)
theory Trace_Builder
  imports Codegen Trace_Links
begin

text \<open>
  Building a trace (\<open>TraceBuilder::build\<close> of \<open>src/src/cpu/trace_builder.cpp\<close>): the pre-scan, the liveness of the
  flags, emission and the exits; and the helper page for accesses to devices.  The decoder is a library
  outside the repository: a function of the bytes it may look at, \<open>None\<close> where they are no instruction.
\<close>

type_synonym x_decoder = "u8 list \<Rightarrow> x_insn option"

section \<open>Exits\<close>

text \<open>The target of a relative branch: the first operand that is a relative immediate.\<close>

definition relative_target :: "x_insn \<Rightarrow> u32 \<Rightarrow> u32" where
  "relative_target x after =
     (case find (\<lambda>p. case xo_kind p of X_imm _ rel \<Rightarrow> rel | _ \<Rightarrow> False) (x_ops x) of
        Some p \<Rightarrow> (case xo_kind p of X_imm v _ \<Rightarrow> after + ucast v | _ \<Rightarrow> after)
      | None \<Rightarrow> after)"

definition emit_cond_exit :: "x_insn \<Rightarrow> u32 \<Rightarrow> emit_step" where
  "emit_cond_exit x after =
     (let jcc = jcc_short_opcode (x_mnem x) in
      if jcc = 0 then emit_epilog_static (relative_target x after)
      else emit_epilog_conditional jcc (relative_target x after) after)"

definition eax_to_next_eip :: "u8 list" where
  "eax_to_next_eip = [0x41, 0x89, 0x45, CTX_NEXT_EIP]"

text \<open>The first operand that gives a target decides.  A jump through memory reads it by a call.\<close>

definition jump_through :: "host_abi \<Rightarrow> u8 list \<Rightarrow> c_fn \<Rightarrow> u8 list \<Rightarrow> u8 list" where
  "jump_through h args f ea =
     ea @ save_all_gp @ arg0_ctx h @ arg1_pa h @ args @ call_abs h f @ eax_to_next_eip @ load_all_gp @ [0xC3]"

fun emit_jmp_ops :: "host_abi \<Rightarrow> u32 \<Rightarrow> x_op list \<Rightarrow> emit_step" where
  "emit_jmp_ops h after [] = emit_epilog_static after"
| "emit_jmp_ops h after (p # ps) =
     (case xo_kind p of
        X_imm v True \<Rightarrow> emit_epilog_static (after + ucast v)
      | X_reg r \<Rightarrow>
          (case reg32_enc r of Some enc \<Rightarrow> put_code (epilog_dynamic enc) | None \<Rightarrow> emit_jmp_ops h after ps)
      | X_ptr off \<Rightarrow> emit_epilog_static off
      | X_mem m \<Rightarrow>
          (case ea_to_r14 m of
             Some ea \<Rightarrow> put_code (jump_through h [] Fn_read_guest_mem32 ea)
           | None \<Rightarrow> emit_jmp_ops h after ps)
      | _ \<Rightarrow> emit_jmp_ops h after ps)"

definition emit_jmp_exit :: "host_abi \<Rightarrow> x_insn \<Rightarrow> u32 \<Rightarrow> emit_step" where
  "emit_jmp_exit h x after = emit_jmp_ops h after (x_ops x)"

text \<open>A call pushes the address after it.\<close>

fun emit_call_ops :: "host_abi \<Rightarrow> u32 \<Rightarrow> x_op list \<Rightarrow> emit_step" where
  "emit_call_ops h after [] = emit_epilog_static after"
| "emit_call_ops h after (p # ps) =
     (case xo_kind p of
        X_imm v True \<Rightarrow> emit_all [push_word h (fastmem_store_imm32 after), emit_epilog_static (after + ucast v)]
      | X_reg r \<Rightarrow>
          (case reg32_enc r of
             Some enc \<Rightarrow> emit_all [push_word h (fastmem_store_imm32 after), put_code (epilog_dynamic enc)]
           | None \<Rightarrow> emit_call_ops h after ps)
      | X_mem m \<Rightarrow>
          (case ea_to_r14 m of
             Some ea \<Rightarrow> put_code (jump_through h (arg2_imm h after) Fn_call_mem_helper ea)
           | None \<Rightarrow> emit_call_ops h after ps)
      | _ \<Rightarrow> emit_call_ops h after ps)"

definition emit_call_exit :: "host_abi \<Rightarrow> x_insn \<Rightarrow> u32 \<Rightarrow> emit_step" where
  "emit_call_exit h x after = emit_call_ops h after (x_ops x)"

text \<open>The count that is added to ESP is cut to a byte, which the processor sign-extends.\<close>

definition emit_ret_exit :: "host_abi \<Rightarrow> u16 \<Rightarrow> emit_step" where
  "emit_ret_exit h extra = emit_all
     [put_code (save_all_gp @ load_esp_to_r14), paging_translate h False, patch_region (fastmem_op GP_EAX 32 True),
      put_code (add_ctx_esp (ucast (4 + ucast extra :: u32)) @ eax_to_next_eip @ load_gp GP_EAX (gp_offset GP_EAX)
        @ [0xC3])]"

definition ret_extra :: "x_insn \<Rightarrow> u16" where
  "ret_extra x =
     (case find is_imm (x_ops x) of
        Some p \<Rightarrow> (case xo_kind p of X_imm v _ \<Rightarrow> ucast v | _ \<Rightarrow> 0)
      | None \<Rightarrow> 0)"

definition retf_exit :: "host_abi \<Rightarrow> u16 \<Rightarrow> u8 list" where
  "retf_exit h extra =
     save_all_gp @ arg0_ctx h @ arg1_imm h (ucast extra) @ call_abs h Fn_retf @ load_all_gp @ [0xC3]"

definition iret_exit :: "host_abi \<Rightarrow> u8 list" where
  "iret_exit h =
     save_all_gp @ arg0_ctx h @ call_abs h Fn_iret @ [0x45, 0x8B, modrm 1 R14_REG R13_REG, CTX_EFLAGS]
     @ flags_from_r14 @ load_all_gp @ [0xC3]"

text \<open>LOOPE and LOOPNE leave early on the flag they test, by the near jump \<open>skip\<close> to code after the exits.\<close>

definition dec_test_ecx :: "u8 list" where
  "dec_test_ecx = [0xFF, 0xC9, 0x85, 0xC9]"

definition emit_loop_flag :: "u8 \<Rightarrow> u32 \<Rightarrow> u32 \<Rightarrow> emit_step" where
  "emit_loop_flag skip taken after = emit_all
     [put_code ([0x0F, skip] @ le32 (of_nat (length dec_test_ecx + length (conditional_code 0x75 taken after)))
        @ dec_test_ecx),
      emit_epilog_conditional 0x75 taken after, put_code [0xFF, 0xC9], emit_epilog_static after]"

definition emit_terminator :: "host_abi \<Rightarrow> x_insn \<Rightarrow> u32 \<Rightarrow> u32 \<Rightarrow> emit_step" where
  "emit_terminator h x pc after =
     (let m = x_mnem x; taken = relative_target x after in
      if m = ''RET'' then (if x_far x then put_code (retf_exit h (ret_extra x)) else emit_ret_exit h (ret_extra x))
      else if m = ''IRETD'' then put_code (iret_exit h)
      else if m = ''CALL'' then emit_call_exit h x after
      else if m = ''JMP'' then emit_jmp_exit h x after
      else if m = ''JCXZ'' \<or> m = ''JECXZ''
      then emit_all [put_code [0x85, 0xC9], emit_epilog_conditional 0x74 taken after]
      else if m = ''LOOP'' then emit_all [put_code dec_test_ecx, emit_epilog_conditional 0x75 taken after]
      else if m = ''LOOPE'' then emit_loop_flag 0x85 taken after
      else if m = ''LOOPNE'' then emit_loop_flag 0x84 taken after
      else if jcc_short_opcode m \<noteq> 0 then emit_cond_exit x after
      else emit_epilog_static pc)"

text \<open>Leaving with a reason, the address of the instruction in the context.\<close>

definition stop_exit :: "u32 \<Rightarrow> u32 \<Rightarrow> u8 list" where
  "stop_exit reason pc = save_all_gp @ save_eflags @ write_next_eip_imm pc @ set_stop_reason reason @ [0xC3]"

section \<open>Flags\<close>

text \<open>What the pre-scan keeps of an instruction: the flags it tests, those it writes, and whether its class
  has dispatch.\<close>

type_synonym insn_meta = "u32 \<times> u32 \<times> bool"

abbreviation MAX_INSN_COUNT :: nat where "MAX_INSN_COUNT \<equiv> 512"

definition ARITH_FLAGS :: u32 where
  "ARITH_FLAGS = 0x8D5"

definition decode_window :: "u8 list \<Rightarrow> u8 list" where
  "decode_window code = take 15 code"

definition page_start :: "u32 \<Rightarrow> u32" where
  "page_start a = a AND NOT 0xFFF"

primrec scan :: "nat \<Rightarrow> x_decoder \<Rightarrow> u32 \<Rightarrow> u32 \<Rightarrow> u8 list \<Rightarrow> insn_meta list" where
  "scan 0 dec base pc code = []"
| "scan (Suc n) dec base pc code =
     (if code = [] then []
      else case dec (decode_window code) of
        None \<Rightarrow> []
      | Some x \<Rightarrow>
          let c = mnemonic_class (x_mnem x); next_pc = pc + of_nat (x_len x) in
          (x_tested x, x_written x, has_dispatch c) #
          (if ends_trace c \<or> is_privileged c \<or> page_start next_pc \<noteq> base then []
           else scan n dec base next_pc (drop (x_len x) code)))"

text \<open>From the last instruction backwards: the flags live before the rest, and for each instruction whether
  it must save them.\<close>

primrec liveness :: "insn_meta list \<Rightarrow> u32 \<times> bool list" where
  "liveness [] = (0, [])"
| "liveness (i # is) =
     (let (tested, written, dispatch) = i; (live, saves) = liveness is;
          before = (live AND NOT written) OR tested in
      (before, (dispatch \<and> before AND ARITH_FLAGS \<noteq> 0) # saves))"

section \<open>Emission\<close>

text \<open>One instruction that decodes; the result tells whether the trace is complete.\<close>

definition emit_insn :: "host_abi \<Rightarrow> bool \<Rightarrow> u32 \<Rightarrow> x_insn \<Rightarrow> u8 list \<Rightarrow> emitter \<Rightarrow> (bool \<times> emitter) option" where
  "emit_insn h save pc x raw e =
     (let c = mnemonic_class (x_mnem x); finish = map_option (\<lambda>(_, e). (True, e)) in
      if ends_trace c then finish (emit_terminator h x pc (pc + of_nat (x_len x)) e)
      else if x_mnem x = ''UD2'' then finish (put_code (stop_exit STOP_INVALID_OPCODE pc) e)
      else if is_privileged c then finish (put_code (stop_exit STOP_PRIVILEGED pc) e)
      else if x_mnem x = ''MOV'' \<and> (shows_reg (\<lambda>r. is_control_register r \<or> is_debug_register r) x
              \<or> shows_reg is_segment_register x)
      then finish (put_code (stop_exit STOP_PRIVILEGED pc) e)
      else case class_handler h c of
        Some f \<Rightarrow>
          (case f x raw save e of
             None \<Rightarrow> None
           | Some (True, e) \<Rightarrow> Some (False, e)
           | Some (False, e) \<Rightarrow> finish (put_code (stop_exit STOP_INVALID_OPCODE pc) e))
      | None \<Rightarrow> map_option (\<lambda>(_, e). (False, e)) (emit_clean_insn x raw e))"

text \<open>After an instruction the trace ends when the page is left or the table of sites fills up.\<close>

definition after_insn :: "u32 \<Rightarrow> u32 \<Rightarrow> bool \<times> emitter \<Rightarrow> (bool \<times> emitter) option" where
  "after_insn base pc r =
     (let (finished, e) = r in
      if \<not> finished \<and> (page_start pc \<noteq> base \<or> MAX_EMIT_SITES - 8 \<le> length (esites e))
      then map_option (\<lambda>(_, e). (True, e)) (emit_epilog_static pc e)
      else Some (finished, e))"

text \<open>The loop: a bound of 512 instructions, and room for the largest is kept.  An exit of the loop in the
  middle leaves the trace unfinished, so that another exit follows.\<close>

primrec emit_loop :: "nat \<Rightarrow> host_abi \<Rightarrow> x_decoder \<Rightarrow> bool list \<Rightarrow> u32 \<Rightarrow> u32 \<Rightarrow> u8 list \<Rightarrow> emitter \<Rightarrow> (bool \<times> u32 \<times> emitter) option"
where
  "emit_loop 0 h dec saves base pc code e = Some (False, pc, e)"
| "emit_loop (Suc n) h dec saves base pc code e =
     (let stop = map_option (\<lambda>(_, e). (False, pc, e)) in
      if ecap e < epos e + 512 \<or> code = [] then stop (emit_epilog_static pc e)
      else case dec (decode_window code) of
        None \<Rightarrow>
          if length code < 15 then stop (emit_epilog_static pc e)
          else stop (put_code (stop_exit STOP_INVALID_OPCODE pc) e)
      | Some x \<Rightarrow>
          let next_pc = pc + of_nat (x_len x) in
          case Option.bind (emit_insn h (saves \<noteq> [] \<and> hd saves) pc x code (e\<lparr>efault_eip := pc\<rparr>))
                 (after_insn base next_pc) of
            None \<Rightarrow> None
          | Some (True, e) \<Rightarrow> Some (True, next_pc, e)
          | Some (False, e) \<Rightarrow> emit_loop n h dec (tl saves) base next_pc (drop (x_len x) code) e)"

definition emit_trace :: "host_abi \<Rightarrow> x_decoder \<Rightarrow> bool \<Rightarrow> u32 \<Rightarrow> u8 list \<Rightarrow> emitter option" where
  "emit_trace h dec paging pc code = do {
     let base = page_start pc;
     let saves = snd (liveness (scan MAX_INSN_COUNT dec base pc code));
     (finished, pc, e) \<leftarrow>
       emit_loop MAX_INSN_COUNT h dec saves base pc code ((emitter_new MAX_TRACE_BYTES)\<lparr>epaging := paging\<rparr>);
     if finished then Some e else map_option snd (emit_epilog_static pc e)
   }"

text \<open>What the run loop gets: the code, with the addresses of its links, and its sites.\<close>

definition trace_emission :: "emitter \<Rightarrow> nat \<Rightarrow> emitted" where
  "trace_emission e buf =
     \<lparr>em_code = ebuf e, em_links = map (\<lambda>(s, t). (buf + s, t)) (elinks e), em_sites = esites e\<rparr>"

section \<open>The helper page\<close>

text \<open>The page's stubs by their offsets: the number of the register and the index of the size select one.\<close>

record mmio_helpers =
  read_helpers :: "nat list"
  write_helpers :: "nat list"
  write_imm_tails :: "nat list"
  exception_exit :: nat

definition size_idx :: "nat \<Rightarrow> nat" where
  "size_idx n = (if n \<le> 1 then 0 else if n = 2 then 1 else 2)"

definition lookup_read :: "nat \<Rightarrow> nat \<Rightarrow> mmio_helpers \<Rightarrow> nat" where
  "lookup_read r n s = read_helpers s ! (3 * (r mod 8) + size_idx n)"

definition lookup_write :: "nat \<Rightarrow> nat \<Rightarrow> mmio_helpers \<Rightarrow> nat" where
  "lookup_write r n s = write_helpers s ! (3 * (r mod 8) + size_idx n)"

definition lookup_write_imm :: "nat \<Rightarrow> mmio_helpers \<Rightarrow> nat" where
  "lookup_write_imm n s = write_imm_tails s ! size_idx n"

definition shared_tail :: "host_abi \<Rightarrow> c_fn \<Rightarrow> u8 list" where
  "shared_tail h f =
     (if abi_win h then [0x48, 0x83, 0xEC, 0x28] else []) @ [0x48, 0xB8] @ le64 (fn_addr h f) @ [0xFF, 0xD0]
     @ (if abi_win h then [0x48, 0x83, 0xC4, 0x28] else []) @ load_all_gp @ restore_flags_code @ [0xC3]"

text \<open>An entry is what precedes the jump to its tail, which is at a known offset.\<close>

definition helper_entry :: "host_abi \<Rightarrow> u8 list \<Rightarrow> nat \<Rightarrow> nat \<Rightarrow> u8 list \<Rightarrow> nat \<times> u8 list" where
  "helper_entry h arg2 sz tail page =
     (let entry = save_flags_code @ save_all_gp @ arg0_ctx h @ arg1_pa h @ arg2 @ arg3_imm h (of_nat sz) @ [0xE9] in
      (length page, page @ entry @ le32 (of_nat tail - of_nat (length page + length entry + 4))))"

definition imm_arg2 :: "host_abi \<Rightarrow> u8 list" where
  "imm_arg2 h = (if abi_win h then [0x45, 0x89, 0xF8] else [0x44, 0x89, 0xFA])"

definition entries :: "(u8 list \<Rightarrow> nat \<times> u8 list) list \<Rightarrow> u8 list \<Rightarrow> nat list \<times> u8 list" where
  "entries fs page = foldl (\<lambda>(offs, page) f. let (o', page) = f page in (offs @ [o'], page)) ([], page) fs"

definition reg_entries :: "host_abi \<Rightarrow> nat \<Rightarrow> (u8 list \<Rightarrow> nat \<times> u8 list) list" where
  "reg_entries h tail =
     map (\<lambda>(r, sz). helper_entry h (arg2_imm h (of_nat r)) sz tail) (List.product [0..<8] [1, 2, 4])"

text \<open>The whole page; what exceeds its capacity is an assertion that fails.\<close>

definition generate_mmio_helpers :: "host_abi \<Rightarrow> nat \<Rightarrow> (mmio_helpers \<times> u8 list) option" where
  "generate_mmio_helpers h cap =
     (let rt = 0; wt = length (shared_tail h Fn_mmio_read); it = wt + length (shared_tail h Fn_mmio_write);
          page = shared_tail h Fn_mmio_read @ shared_tail h Fn_mmio_write @ shared_tail h Fn_mmio_write_imm;
          (rs, page) = entries (reg_entries h rt) page;
          (ws, page) = entries (reg_entries h wt) page;
          (is, page) = entries (map (\<lambda>sz. helper_entry h (imm_arg2 h) sz it) [1, 2, 4]) page;
          ex = length page; page = page @ save_all_gp @ [0xC3] in
      if length page \<le> cap
      then Some (\<lparr>read_helpers = rs, write_helpers = ws, write_imm_tails = is, exception_exit = ex\<rparr>, page)
      else None)"

section \<open>Liveness\<close>

text \<open>A flag is live before a list of instructions when one of them tests it and none before that writes it.\<close>

definition live_at :: "insn_meta list \<Rightarrow> nat \<Rightarrow> bool" where
  "live_at is f \<longleftrightarrow> (\<exists>j < length is. bit (fst (is ! j)) f \<and> (\<forall>k < j. \<not> bit (fst (snd (is ! k))) f))"

lemma live_at_Cons: "live_at (i # is) f \<longleftrightarrow> bit (fst i) f \<or> \<not> bit (fst (snd i)) f \<and> live_at is f"
  by (auto simp: live_at_def Ex_less_Suc2 All_less_Suc2)

lemma liveness_live: "f < 32 \<Longrightarrow> bit (fst (liveness is)) f \<longleftrightarrow> live_at is f"
proof (induction "is")
  case Nil
  then show ?case by (simp add: live_at_def)
next
  case (Cons i "is")
  then show ?case by (auto simp: live_at_Cons split_def Let_def bit_or_iff bit_and_iff bit_not_iff)
qed

definition arith_flag_bits :: "nat list" where
  "arith_flag_bits = [0, 2, 4, 6, 7, 11]"

lemma arith_flags_test: "v AND ARITH_FLAGS \<noteq> 0 \<longleftrightarrow> list_ex (bit v) arith_flag_bits"
proof -
  have b: "bit ARITH_FLAGS n \<longleftrightarrow> n \<in> set arith_flag_bits" if "n < 32" for n
  proof -
    have a: "ARITH_FLAGS = push_bit 0 1 OR push_bit 2 1 OR push_bit 4 1 OR push_bit 6 1 OR push_bit 7 1 OR push_bit 11 1"
      by (simp add: ARITH_FLAGS_def)
    show ?thesis
      unfolding a arith_flag_bits_def bit_or_iff bit_push_bit_iff using that by (auto simp: bit_1_iff)
  qed
  have "v AND ARITH_FLAGS \<noteq> 0 \<longleftrightarrow> (\<exists>n < 32. bit v n \<and> bit ARITH_FLAGS n)"
    unfolding bit_eq_iff [of "v AND ARITH_FLAGS" 0] by (auto simp: bit_and_iff)
  also have "\<dots> \<longleftrightarrow> (\<exists>n \<in> set arith_flag_bits. bit v n)"
  proof -
    have "n < 32" if "n \<in> set arith_flag_bits" for n using that by (auto simp: arith_flag_bits_def)
    then show ?thesis using b by blast
  qed
  finally show ?thesis by (simp add: list_ex_iff)
qed

lemma liveness_drop: "i < length is \<Longrightarrow> snd (liveness is) ! i \<longleftrightarrow> hd (snd (liveness (drop i is)))"
proof (induction "is" arbitrary: i)
  case (Cons m "is")
  then show ?case by (cases i) (simp_all add: split_def Let_def)
qed simp

text \<open>C6: The analysis of the flags is exact: an instruction keeps the flags just when its class may clobber
  them and an arithmetic flag is live before it, that is, it or a later instruction of the trace tests the flag
  and no instruction in between writes it.\<close>

theorem flags_kept_iff_live:
  assumes "i < length is"
  shows "snd (liveness is) ! i \<longleftrightarrow> snd (snd (is ! i)) \<and> list_ex (live_at (drop i is)) arith_flag_bits"
proof -
  obtain m ms where d: "drop i is = m # ms" "m = is ! i" using assms by (metis Cons_nth_drop_Suc)
  have "hd (snd (liveness (m # ms))) \<longleftrightarrow> snd (snd m) \<and> fst (liveness (m # ms)) AND ARITH_FLAGS \<noteq> 0"
    by (auto simp: split_def Let_def)
  moreover have "list_ex (bit (fst (liveness (m # ms)))) arith_flag_bits \<longleftrightarrow> list_ex (live_at (m # ms)) arith_flag_bits"
    by (simp add: arith_flag_bits_def liveness_live del: liveness.simps)
  ultimately show ?thesis unfolding liveness_drop [OF assms] d arith_flags_test by simp
qed

text \<open>A comparison, a store that may clobber the flags, a conditional jump; then \<open>ADC\<close> on its own.\<close>

theorem flags_kept_iff_live_witness:
  "snd (liveness [(0, 0x8D5, False), (0, 0, True), (0x40, 0, False)]) ! 1 \<and> snd (liveness [(1, 0x8D5, True)]) ! 0"
  using flags_kept_iff_live [of 1 "[(0, 0x8D5, False), (0, 0, True), (0x40, 0, False)]"]
    flags_kept_iff_live [of 0 "[(1, 0x8D5, True)]"]
  by (simp add: arith_flag_bits_def live_at_Cons)

end
