(* ===== verification/Fault_Handler.thy ===== *)
theory Fault_Handler
  imports Trace_Builder
begin

text \<open>
  The handler of host faults in translated code (\<open>src/src/cpu/veh_handler.cpp\<close>).  Guest memory is a 4 GB window
  of host addresses in which device ranges fault.  The handler finds the trace and the site of the fault; it
  emulates the access, or replaces it by a call to a stub of the helper page and lets it run again.  Writes to
  pages with translated code fault too and drop the traces of the page.

  The host registers of the fault are \<open>host_ctx\<close>; R13 holds the address of the executor's context.  The
  64-bit decoder is a library outside the repository.
\<close>

section \<open>Host registers\<close>

record host_ctx =
  h_regs :: "nat \<Rightarrow> u64"
  h_rip :: nat
  h_eflags :: u32

text \<open>An access violation has its kind (0 read, 1 write, 8 execute) and address.\<close>

datatype host_exn = Exn_divide | Exn_illegal | Exn_access nat nat | Exn_other

datatype veh_result = Continue_search | Continue_execution | Process_exit

text \<open>Where the window starts, the stubs of the helper page, and the decoder.\<close>

record veh_env =
  fastmem_base :: nat
  env_helpers :: mmio_helpers
  decode64 :: x_decoder

fun reg_number :: "reg_name \<Rightarrow> nat option" where
  "reg_number (Gp32 n) = Some n"
| "reg_number (Gp16 n) = Some n"
| "reg_number (Gp8 n) = Some n"
| "reg_number (High8 n) = Some n"
| "reg_number _ = None"

definition reg_ptr64 :: "reg_name \<Rightarrow> nat option" where
  "reg_ptr64 r =
     (case reg_number r of Some n \<Rightarrow> if n \<le> 8 \<and> n \<noteq> 4 then Some n else None | None \<Rightarrow> None)"

definition is_high8 :: "reg_name \<Rightarrow> bool" where
  "is_high8 r \<longleftrightarrow> (case r of High8 _ \<Rightarrow> True | _ \<Rightarrow> False)"

definition read_reg :: "reg_name \<Rightarrow> nat \<Rightarrow> host_ctx \<Rightarrow> u32" where
  "read_reg r n h =
     (case reg_ptr64 r of
        None \<Rightarrow> 0
      | Some i \<Rightarrow>
          let v = (if is_high8 r then drop_bit 8 (h_regs h i) else h_regs h i) in ucast (take_bit (8 * n) v))"

definition write_reg :: "reg_name \<Rightarrow> u32 \<Rightarrow> nat \<Rightarrow> host_ctx \<Rightarrow> host_ctx" where
  "write_reg r v n h =
     (case reg_ptr64 r of
        None \<Rightarrow> h
      | Some i \<Rightarrow>
          let old = h_regs h i;
              new = (if is_high8 r then (old AND NOT 0xFF00) OR push_bit 8 (ucast (v AND 0xFF))
                     else if n = 1 then (old AND NOT 0xFF) OR ucast (v AND 0xFF)
                     else if n = 2 then (old AND NOT 0xFFFF) OR ucast (v AND 0xFFFF)
                     else ucast v) in
          h\<lparr>h_regs := (h_regs h)(i := new)\<rparr>)"

section \<open>Flags\<close>

definition size_mask :: "nat \<Rightarrow> u32" where
  "size_mask n = (if n = 4 then 0xFFFFFFFF else push_bit (8 * n) 1 - 1)"

definition sign_mask :: "nat \<Rightarrow> u32" where
  "sign_mask n = push_bit (8 * n - 1) 1"

definition even_parity :: "u8 \<Rightarrow> bool" where
  "even_parity b =
     (let b = b XOR drop_bit 4 b; b = b XOR drop_bit 2 b; b = b XOR drop_bit 1 b in b AND 1 = 0)"

definition logical_flags :: "u32 \<Rightarrow> nat \<Rightarrow> u32" where
  "logical_flags v n =
     (let r = v AND size_mask n in
      (if r = 0 then 0x40 else 0) OR (if r AND sign_mask n \<noteq> 0 then 0x80 else 0)
      OR (if even_parity (ucast r) then 0x04 else 0))"

definition aux_flag :: "u32 \<Rightarrow> u32 \<Rightarrow> u32 \<Rightarrow> u32" where
  "aux_flag a b r = (if (a XOR b XOR r) AND 0x10 \<noteq> 0 then 0x10 else 0)"

definition add_overflow :: "u32 \<Rightarrow> u32 \<Rightarrow> u32 \<Rightarrow> nat \<Rightarrow> u32" where
  "add_overflow a b r n = (if NOT (a XOR b) AND (a XOR r) AND sign_mask n \<noteq> 0 then 0x800 else 0)"

definition sub_overflow :: "u32 \<Rightarrow> u32 \<Rightarrow> u32 \<Rightarrow> nat \<Rightarrow> u32" where
  "sub_overflow a b r n = (if (a XOR b) AND (a XOR r) AND sign_mask n \<noteq> 0 then 0x800 else 0)"

text \<open>With the carry that comes in; the plain sums have none.\<close>

definition adc_flags :: "u32 \<Rightarrow> u32 \<Rightarrow> u32 \<Rightarrow> nat \<Rightarrow> u32" where
  "adc_flags a b c n =
     (let sum = ucast a + ucast b + ucast c :: u64; r = ucast sum in
      logical_flags r n OR (if drop_bit (8 * n) sum \<noteq> 0 then 1 else 0) OR add_overflow a b r n OR aux_flag a b r)"

definition sbb_flags :: "u32 \<Rightarrow> u32 \<Rightarrow> u32 \<Rightarrow> nat \<Rightarrow> u32" where
  "sbb_flags a b c n =
     (let r = a - b - c in
      logical_flags r n OR (if (ucast a :: u64) < ucast b + ucast c then 1 else 0) OR sub_overflow a b r n
      OR aux_flag a b r)"

definition add_flags :: "u32 \<Rightarrow> u32 \<Rightarrow> nat \<Rightarrow> u32" where
  "add_flags a b n =
     (let sum = ucast a + ucast b :: u64; r = ucast sum in
      logical_flags r n OR (if drop_bit (8 * n) sum \<noteq> 0 then 1 else 0) OR add_overflow a b r n OR aux_flag a b r)"

definition sub_flags :: "u32 \<Rightarrow> u32 \<Rightarrow> nat \<Rightarrow> u32" where
  "sub_flags a b n =
     (let r = a - b in
      logical_flags r n OR (if a < b then 1 else 0) OR sub_overflow a b r n OR aux_flag a b r)"

abbreviation STATUS_MASK :: u32 where "STATUS_MASK \<equiv> 0x8D5"

definition set_status_flags :: "u32 \<Rightarrow> host_ctx \<Rightarrow> host_ctx" where
  "set_status_flags fl h = h\<lparr>h_eflags := (h_eflags h AND NOT STATUS_MASK) OR (fl AND STATUS_MASK)\<rparr>"

section \<open>Emulating an access\<close>

type_synonym emu_state = "host_ctx \<times> executor"

definition emu_read :: "u32 \<Rightarrow> nat \<Rightarrow> executor \<Rightarrow> (u32 \<times> executor) option" where
  "emu_read pa n x =
     (case mmio (mach x) of
        None \<Rightarrow> None
      | Some rs \<Rightarrow> map_option (\<lambda>(v, w). (v, x\<lparr>mach := (mach x)\<lparr>hw := w\<rparr>\<rparr>)) (mmio_read rs pa n (hw (mach x))))"

definition emu_write :: "u32 \<Rightarrow> u32 \<Rightarrow> nat \<Rightarrow> executor \<Rightarrow> executor option" where
  "emu_write pa v n x =
     (case mmio (mach x) of
        None \<Rightarrow> None
      | Some rs \<Rightarrow> map_option (\<lambda>w. x\<lparr>mach := (mach x)\<lparr>hw := w\<rparr>\<rparr>) (mmio_write rs pa v n (hw (mach x))))"

text \<open>The size of the first memory operand, four bytes if there is none.\<close>

definition op_size :: "x_insn \<Rightarrow> nat" where
  "op_size y =
     (case find is_mem (shown_ops y) of
        Some p \<Rightarrow> if xo_size p div 8 = 0 then 4 else xo_size p div 8
      | None \<Rightarrow> 4)"

definition source_value :: "x_insn \<Rightarrow> nat \<Rightarrow> host_ctx \<Rightarrow> u32" where
  "source_value y n h = (if is_reg (op_at 1 y) then read_reg (reg_at 1 y) n h else ucast (imm_at 1 y))"

text \<open>The operands in the order of the instruction, given the value in memory.\<close>

definition alu_operands :: "x_insn \<Rightarrow> nat \<Rightarrow> u32 \<Rightarrow> host_ctx \<Rightarrow> u32 \<times> u32" where
  "alu_operands y n v h =
     (if is_mem (op_at 0 y) then (v, source_value y n h) else (read_reg (reg_at 0 y) n h, v))"

definition put_result :: "x_insn \<Rightarrow> u32 \<Rightarrow> nat \<Rightarrow> u32 \<Rightarrow> emu_state \<Rightarrow> emu_state option" where
  "put_result y pa n v s =
     (let (h, x) = s in
      if is_mem (op_at 0 y) then map_option (Pair h) (emu_write pa v n x) else Some (write_reg (reg_at 0 y) v n h, x))"

text \<open>TEST takes the last register or immediate among the operands.\<close>

definition test_other :: "x_insn \<Rightarrow> nat \<Rightarrow> host_ctx \<Rightarrow> u32" where
  "test_other y n h = foldl (\<lambda>v p. case xo_kind p of
      X_reg r \<Rightarrow> read_reg r n h | X_imm u _ \<Rightarrow> ucast u | _ \<Rightarrow> v) 0 (shown_ops y)"

definition logical_result :: "string \<Rightarrow> u32 \<Rightarrow> u32 \<Rightarrow> u32" where
  "logical_result m a b = (if m = ''AND'' then a AND b else if m = ''OR'' then a OR b else a XOR b)"

definition arith_result :: "string \<Rightarrow> u32 \<Rightarrow> u32 \<Rightarrow> u32 \<Rightarrow> nat \<Rightarrow> u32 \<times> u32" where
  "arith_result m a b c n =
     (if m = ''ADD'' then (a + b, add_flags a b n)
      else if m = ''ADC'' then (a + b + c, adc_flags a b c n)
      else if m = ''SUB'' then (a - b, sub_flags a b n)
      else (a - b - c, sbb_flags a b c n))"

text \<open>A shift by the width of the type or more is undefined; \<open>count\<close> is at most 31.\<close>

definition shift_result :: "string \<Rightarrow> u32 \<Rightarrow> nat \<Rightarrow> nat \<Rightarrow> (u32 \<times> u32) option" where
  "shift_result m v count n =
     (let bits = 8 * n in
      if m = ''SHL'' then
        if bits < count then None
        else Some (push_bit count v, drop_bit (bits - count) v AND 1)
      else if m = ''SHR'' then Some (drop_bit count v, drop_bit (count - 1) v AND 1)
      else let s = signed_drop_bit (32 - bits) (push_bit (32 - bits) v) in
        Some (signed_drop_bit count s, drop_bit (count - 1) v AND 1))"

definition shift_count :: "x_insn \<Rightarrow> host_ctx \<Rightarrow> nat" where
  "shift_count y h =
     unat ((if is_reg (op_at 1 y) then read_reg (reg_at 1 y) 1 h else ucast (imm_at 1 y)) AND 0x1F)"

definition bt_result :: "string \<Rightarrow> u32 \<Rightarrow> u32 \<Rightarrow> u32 option" where
  "bt_result m v b =
     (if m = ''BTS'' then Some (v OR b) else if m = ''BTR'' then Some (v AND NOT b)
      else if m = ''BTC'' then Some (v XOR b) else None)"

text \<open>The routines by mnemonic.  Each reads memory first but the store of MOV.\<close>

definition emu_test :: "x_insn \<Rightarrow> u32 \<Rightarrow> emu_state \<Rightarrow> emu_state option" where
  "emu_test y pa s = do {
     let (h, x) = s;
     let n = op_size y;
     (v, x) \<leftarrow> emu_read pa n x;
     Some (set_status_flags (logical_flags (v AND test_other y n h) n) h, x)
   }"

definition emu_cmp :: "x_insn \<Rightarrow> u32 \<Rightarrow> emu_state \<Rightarrow> emu_state option" where
  "emu_cmp y pa s = do {
     let (h, x) = s;
     let n = op_size y;
     (v, x) \<leftarrow> emu_read pa n x;
     let (a, b) = alu_operands y n v h;
     Some (set_status_flags (sub_flags a b n) h, x)
   }"

definition emu_logical :: "x_insn \<Rightarrow> u32 \<Rightarrow> emu_state \<Rightarrow> emu_state option" where
  "emu_logical y pa s = do {
     let (h, x) = s;
     let n = op_size y;
     (v, x) \<leftarrow> emu_read pa n x;
     let (a, b) = alu_operands y n v h;
     let r = logical_result (x_mnem y) a b;
     put_result y pa n r (set_status_flags (logical_flags r n) h, x)
   }"

definition emu_arith :: "x_insn \<Rightarrow> u32 \<Rightarrow> emu_state \<Rightarrow> emu_state option" where
  "emu_arith y pa s = do {
     let (h, x) = s;
     let n = op_size y;
     (v, x) \<leftarrow> emu_read pa n x;
     let (a, b) = alu_operands y n v h;
     let (r, fl) = arith_result (x_mnem y) a b (h_eflags h AND 1) n;
     put_result y pa n r (set_status_flags fl h, x)
   }"

definition emu_bt :: "x_insn \<Rightarrow> u32 \<Rightarrow> emu_state \<Rightarrow> emu_state option" where
  "emu_bt y pa s = do {
     let (h, x) = s;
     let n = op_size y;
     (v, x) \<leftarrow> emu_read pa n x;
     let k = unat (source_value y n h AND (of_nat (8 * n) - 1));
     let h = h\<lparr>h_eflags := (h_eflags h AND NOT 1) OR (drop_bit k v AND 1)\<rparr>;
     case bt_result (x_mnem y) v (push_bit k 1) of
       Some r \<Rightarrow> map_option (Pair h) (emu_write pa r n x)
     | None \<Rightarrow> Some (h, x)
   }"

definition emu_inc_dec :: "x_insn \<Rightarrow> u32 \<Rightarrow> emu_state \<Rightarrow> emu_state option" where
  "emu_inc_dec y pa s = do {
     let (h, x) = s;
     let n = op_size y;
     (v, x) \<leftarrow> emu_read pa n x;
     let (r, fl) = (if x_mnem y = ''INC'' then (v + 1, add_flags v 1 n) else (v - 1, sub_flags v 1 n));
     let h = set_status_flags ((fl AND NOT 1) OR (h_eflags h AND 1)) h;
     map_option (Pair h) (emu_write pa r n x)
   }"

definition emu_not :: "x_insn \<Rightarrow> u32 \<Rightarrow> emu_state \<Rightarrow> emu_state option" where
  "emu_not y pa s = do {
     let (h, x) = s;
     let n = op_size y;
     (v, x) \<leftarrow> emu_read pa n x;
     map_option (Pair h) (emu_write pa (NOT v) n x)
   }"

definition emu_neg :: "x_insn \<Rightarrow> u32 \<Rightarrow> emu_state \<Rightarrow> emu_state option" where
  "emu_neg y pa s = do {
     let (h, x) = s;
     let n = op_size y;
     (v, x) \<leftarrow> emu_read pa n x;
     map_option (Pair (set_status_flags (sub_flags 0 v n) h)) (emu_write pa (- v) n x)
   }"

definition emu_mov :: "x_insn \<Rightarrow> u32 \<Rightarrow> emu_state \<Rightarrow> emu_state option" where
  "emu_mov y pa s =
     (let (h, x) = s; n = op_size y in
      if is_mem (op_at 0 y) then map_option (Pair h) (emu_write pa (source_value y n h) n x)
      else map_option (\<lambda>(v, x). (write_reg (reg_at 0 y) v n h, x)) (emu_read pa n x))"

definition emu_shift :: "x_insn \<Rightarrow> u32 \<Rightarrow> emu_state \<Rightarrow> emu_state option" where
  "emu_shift y pa s = do {
     let (h, x) = s;
     let n = op_size y;
     (v, x) \<leftarrow> emu_read pa n x;
     let count = shift_count y h;
     if count = 0 then Some (h, x)
     else do {
       (r, cf) \<leftarrow> shift_result (x_mnem y) v count n;
       let h = set_status_flags (cf OR (logical_flags r n AND NOT 1)) h;
       map_option (Pair h) (emu_write pa r n x)
     }
   }"

text \<open>The routine of a mnemonic; \<open>None\<close> for one that is not emulated.\<close>

definition emu_routine :: "string \<Rightarrow> (x_insn \<Rightarrow> u32 \<Rightarrow> emu_state \<Rightarrow> emu_state option) option" where
  "emu_routine m =
     (if m = ''TEST'' then Some emu_test
      else if m = ''CMP'' then Some emu_cmp
      else if m \<in> set [''AND'', ''OR'', ''XOR''] then Some emu_logical
      else if m \<in> set [''ADD'', ''SUB'', ''ADC'', ''SBB''] then Some emu_arith
      else if m \<in> set [''BT'', ''BTS'', ''BTR'', ''BTC''] then Some emu_bt
      else if m = ''INC'' \<or> m = ''DEC'' then Some emu_inc_dec
      else if m = ''NOT'' then Some emu_not
      else if m = ''NEG'' then Some emu_neg
      else if m = ''MOV'' then Some emu_mov
      else if m \<in> set [''SHL'', ''SHR'', ''SAR''] then Some emu_shift
      else None)"

section \<open>Traces and sites\<close>

definition covers :: "nat \<Rightarrow> trace \<Rightarrow> bool" where
  "covers rip t \<longleftrightarrow> host_code t \<noteq> 0 \<and> host_code t \<le> rip \<and> rip < host_code t + host_size t"

text \<open>The first trace in the order of the table, valid or not.\<close>

definition cached_traces :: "executor \<Rightarrow> nat list" where
  "cached_traces x = concat (map (\<lambda>p. case page_map x p of
      None \<Rightarrow> [] | Some slots \<Rightarrow> List.map_filter slots [0..<L2_SIZE]) [0..<L1_SIZE])"

definition trace_at :: "nat \<Rightarrow> executor \<Rightarrow> nat option" where
  "trace_at rip x = find (\<lambda>t. covers rip (pool x t)) (cached_traces x)"

definition rip_offset :: "nat \<Rightarrow> trace \<Rightarrow> u32" where
  "rip_offset rip t = of_nat (rip - host_code t)"

text \<open>A division's site is within eight bytes before the fault; other faults are at a site or in its region,
  16 bytes where none is recorded.\<close>

definition div_site :: "u32 \<Rightarrow> mem_site list \<Rightarrow> mem_site option" where
  "div_site off = find (\<lambda>s. host_offset s \<le> off \<and> off < host_offset s + 8)"

definition find_site :: "u32 \<Rightarrow> mem_site list \<Rightarrow> mem_site option" where
  "find_site off ss =
     (case find (\<lambda>s. host_offset s = off) ss of
        Some s \<Rightarrow> Some s
      | None \<Rightarrow> find (\<lambda>s. host_offset s \<le> off
          \<and> off < host_offset s + (if patch_len s \<noteq> 0 then ucast (patch_len s) else 16)) ss)"

section \<open>Replacing an access\<close>

datatype fast_access = Fast_load nat nat | Fast_store nat nat | Fast_store_imm u32 nat

text \<open>An access as it was emitted: register and size, or the immediate and its size.\<close>

definition decode_fastmem :: "bytes \<Rightarrow> nat \<Rightarrow> fast_access option" where
  "decode_fastmem m ip =
     (let has_66 = (m ip = 0x66); p = (if has_66 then ip + 1 else ip);
          rex = m p; opc = m (p + 1); field = (\<lambda>f. unat (drop_bit 3 f AND 7)); n = (if has_66 then 2 else 4) in
      if opc = 0x0F then
        Some (Fast_load (if rex AND 4 \<noteq> 0 then GP_ESP else field (m (p + 3)))
          (if m (p + 2) = 0xB6 \<or> m (p + 2) = 0xBE then 1 else 2))
      else let r = field (m (p + 2)) in
        if opc = 0x8B then Some (Fast_load r n)
        else if opc = 0x89 then Some (Fast_store r n)
        else if opc = 0x8A then Some (Fast_load r 1)
        else if opc = 0x88 then Some (Fast_store r 1)
        else if opc = 0xC7 then Some (Fast_store_imm (ld n m (p + 4)) n)
        else if opc = 0xC6 then Some (Fast_store_imm (ld 1 m (p + 4)) 1)
        else None)"

text \<open>The stub to call; for a stored immediate it is made, and loads the immediate into R15.\<close>

definition imm_thunk :: "u32 \<Rightarrow> nat \<Rightarrow> nat \<Rightarrow> u8 list" where
  "imm_thunk v at helper = [0x41, 0xBF] @ le32 v @ [0xE9] @ le32 (of_nat helper - of_nat (at + 6 + 5))"

definition access_stub :: "mmio_helpers \<Rightarrow> fast_access \<Rightarrow> executor \<Rightarrow> (nat \<times> executor) option" where
  "access_stub hs a x =
     (let page = helper_page (cc x) in
      case a of
        Fast_load r n \<Rightarrow> Some (page + lookup_read r n hs, x)
      | Fast_store r n \<Rightarrow> Some (page + lookup_write r n hs, x)
      | Fast_store_imm v n \<Rightarrow>
          (case cc_alloc_thunk 16 (cc x) of
             (None, _) \<Rightarrow> None
           | (Some at, c) \<Rightarrow> Some (at, x\<lparr>cc := c,
               host_mem := put_list (imm_thunk v at (page + lookup_write_imm n hs)) (host_mem x) at\<rparr>)))"

definition call_patch :: "nat \<Rightarrow> nat \<Rightarrow> nat \<Rightarrow> u8 list" where
  "call_patch rip target len = [0xE8] @ le32 (of_nat target - of_nat (rip + 5)) @ replicate (len - 5) 0x90"

definition patch_access :: "veh_env \<Rightarrow> mem_site \<Rightarrow> emu_state \<Rightarrow> veh_result \<times> emu_state" where
  "patch_access v s e =
     (let (h, x) = e; rip = h_rip h in
      case decode_fastmem (host_mem x) rip of
        None \<Rightarrow> (Continue_search, h, x)
      | Some a \<Rightarrow>
          (case access_stub (env_helpers v) a x of
             None \<Rightarrow> (Continue_search, h, x)
           | Some (target, x) \<Rightarrow> (Continue_execution, h,
               x\<lparr>host_mem := put_list (call_patch rip target (unat (patch_len s))) (host_mem x) rip\<rparr>)))"

section \<open>The handler\<close>

definition upd_exec_ctx :: "(guest_context \<Rightarrow> guest_context) \<Rightarrow> executor \<Rightarrow> executor" where
  "upd_exec_ctx f x = x\<lparr>mach := upd_ctx f (mach x)\<rparr>"

definition to_exit_stub :: "veh_env \<Rightarrow> emu_state \<Rightarrow> veh_result \<times> emu_state" where
  "to_exit_stub v e =
     (let (h, x) = e in
      (Continue_execution, h\<lparr>h_rip := helper_page (cc x) + exception_exit (env_helpers v)\<rparr>, x))"

definition veh_divide :: "veh_env \<Rightarrow> emu_state \<Rightarrow> veh_result \<times> emu_state" where
  "veh_divide v e =
     (let (h, x) = e in
      if \<not> cc_contains (h_rip h) (cc x) then (Continue_search, e)
      else case trace_at (h_rip h) x of
        None \<Rightarrow> (Continue_search, e)
      | Some t \<Rightarrow>
          (case div_site (rip_offset (h_rip h) (pool x t)) (mem_sites (pool x t)) of
             None \<Rightarrow> (Continue_search, e)
           | Some s \<Rightarrow> to_exit_stub v (h, upd_exec_ctx (\<lambda>c. c\<lparr>next_eip := site_eip s,
               stop_reason := STOP_DIVIDE_ERROR\<rparr>) x)))"

definition veh_illegal :: "veh_env \<Rightarrow> emu_state \<Rightarrow> veh_result \<times> emu_state" where
  "veh_illegal v e =
     (let (h, x) = e in
      if cc_contains (h_rip h) (cc x)
      then to_exit_stub v (h, upd_exec_ctx (\<lambda>c. c\<lparr>halted := True, stop_reason := STOP_INVALID_OPCODE\<rparr>) x)
      else (Continue_search, e))"

text \<open>An access that cannot be patched is emulated.\<close>

definition veh_emulate :: "veh_env \<Rightarrow> mem_site \<Rightarrow> emu_state \<Rightarrow> (veh_result \<times> emu_state) option" where
  "veh_emulate v s e =
     (let (h, x) = e in
      case decode64 v (get_list 15 (host_mem x) (h_rip h)) of
        None \<Rightarrow> Some (Continue_search, e)
      | Some y \<Rightarrow>
          (case emu_routine (x_mnem y) of
             Some f \<Rightarrow>
               map_option (\<lambda>(h, x). (Continue_execution, h\<lparr>h_rip := h_rip h + x_len y\<rparr>, x)) (f y (ucast (h_regs h 14)) e)
           | None \<Rightarrow> Some (to_exit_stub v (h, upd_exec_ctx (\<lambda>c. c\<lparr>halted := True,
               stop_reason := STOP_INVALID_OPCODE, next_eip := site_eip s\<rparr>) x))))"

definition veh_access :: "veh_env \<Rightarrow> nat \<Rightarrow> nat \<Rightarrow> emu_state \<Rightarrow> (veh_result \<times> emu_state) option" where
  "veh_access v kind addr e =
     (let (h, x) = e; base = fastmem_base v in
      if addr < base \<or> base + 0x100000000 \<le> addr then Some (Process_exit, e)
      else do {
        let pa = (of_nat (addr - base) :: u32);
        smc \<leftarrow> (if kind = 1 \<and> unat pa < GUEST_RAM_SIZE then is_code_page pa x else Some False);
        if smc then map_option (\<lambda>x. (Continue_execution, h, x)) (invalidate_code_page pa x)
        else if \<not> cc_contains (h_rip h) (cc x) then Some (Continue_search, e)
        else case trace_at (h_rip h) x of
          None \<Rightarrow> Some (Continue_search, e)
        | Some t \<Rightarrow>
            (case find_site (rip_offset (h_rip h) (pool x t)) (mem_sites (pool x t)) of
               None \<Rightarrow> Some (Continue_search, e)
             | Some s \<Rightarrow> if patch_len s = 0 then veh_emulate v s e else Some (patch_access v s e))
      })"

definition fastmem_veh_handler :: "veh_env \<Rightarrow> host_exn \<Rightarrow> emu_state \<Rightarrow> (veh_result \<times> emu_state) option" where
  "fastmem_veh_handler v exn e =
     (case exn of
        Exn_divide \<Rightarrow> Some (veh_divide v e)
      | Exn_illegal \<Rightarrow> Some (veh_illegal v e)
      | Exn_access kind addr \<Rightarrow> veh_access v kind addr e
      | Exn_other \<Rightarrow> Some (Continue_search, e))"

text \<open>With no executor running the fault is not the emulator's.\<close>

definition active_veh_handler ::
  "veh_env \<Rightarrow> host_exn \<Rightarrow> host_ctx \<Rightarrow> executor option \<Rightarrow> (veh_result \<times> host_ctx \<times> executor option) option" where
  "active_veh_handler v exn h act =
     (case act of
        None \<Rightarrow> Some (Continue_search, h, None)
      | Some x \<Rightarrow> map_option (\<lambda>(r, h, x). (r, h, Some x)) (fastmem_veh_handler v exn (h, x)))"

end
