(* ===== verification/Link_Safety.thy ===== *)
theory Link_Safety
  imports Fault_Handler
begin

text \<open>
  What the executor's bookkeeping guarantees: every exit of a valid trace either falls through to its exit
  stub or jumps to the code of a valid trace for the address it leaves to, further up, and what happens to
  the traces of a page that is written.
\<close>

section \<open>Passes over link slots\<close>

text \<open>Every pass rewrites a slot and at most its own displacement.\<close>

definition patch_at :: "u32 option \<Rightarrow> nat \<Rightarrow> bytes \<Rightarrow> bytes" where
  "patch_at v s h = (case v of None \<Rightarrow> h | Some v \<Rightarrow> st 4 h s v)"

definition pass :: "(link_slot \<Rightarrow> link_slot) \<Rightarrow> (link_slot \<Rightarrow> u32 option) \<Rightarrow> link_slot \<Rightarrow> bytes \<Rightarrow> link_slot \<times> bytes" where
  "pass g p lk h = (g lk, patch_at (p lk) (jmp_rel32 lk) h)"

definition patches :: "(link_slot \<Rightarrow> u32 option) \<Rightarrow> link_slot list \<Rightarrow> bytes \<Rightarrow> bytes" where
  "patches p lks h = fold (\<lambda>lk. patch_at (p lk) (jmp_rel32 lk)) lks h"

definition apart :: "nat \<Rightarrow> nat \<Rightarrow> bool" where
  "apart a b \<longleftrightarrow> a + 4 \<le> b \<or> b + 4 \<le> a"

lemma apart_sym: "apart a b \<Longrightarrow> apart b a"
  by (auto simp: apart_def)

lemma each_link_pass: "each_link (pass g p) lks h = (map g lks, patches p lks h)"
  by (induction lks arbitrary: h) (simp_all add: pass_def patches_def Let_def)

lemma ld_patch_at: "apart s r \<Longrightarrow> ld 4 (patch_at v r h) s = ld 4 h s"
  by (auto simp: patch_at_def apart_def ld_st_disjoint split: option.splits)

lemma patches_apart: "(\<And>lk. lk \<in> set lks \<Longrightarrow> apart s (jmp_rel32 lk)) \<Longrightarrow> ld 4 (patches p lks h) s = ld 4 h s"
  by (induction lks arbitrary: h) (simp_all add: patches_def ld_patch_at)

lemma patches_at:
  assumes "sorted_wrt apart (map jmp_rel32 lks)" and "lk \<in> set lks"
  shows "ld 4 (patches p lks h) (jmp_rel32 lk) = (case p lk of None \<Rightarrow> ld 4 h (jmp_rel32 lk) | Some v \<Rightarrow> v)"
  using assms
proof (induction lks arbitrary: h)
  case (Cons l lks)
  have step: "patches p (l # lks) h = patches p lks (patch_at (p l) (jmp_rel32 l) h)" by (simp add: patches_def)
  show ?case
  proof (cases "lk \<in> set lks")
    case True
    then have "apart (jmp_rel32 lk) (jmp_rel32 l)" using Cons.prems(1) by (simp add: apart_sym)
    note keep = ld_patch_at [OF this, of "p l" h]
    show ?thesis
      unfolding step using Cons.IH [of "patch_at (p l) (jmp_rel32 l) h"] Cons.prems(1) True keep
      by (cases "p lk") simp_all
  next
    case False
    then have "lk = l" using Cons.prems(2) by simp
    moreover have "apart (jmp_rel32 l) (jmp_rel32 k)" if "k \<in> set lks" for k using Cons.prems(1) that by simp
    ultimately show ?thesis
      unfolding step by (subst patches_apart) (auto simp: patch_at_def split: option.splits)
  qed
qed simp

lemma on_links_pass:
  "on_links (pass g p) t x =
     x\<lparr>pool := (pool x)(t := (pool x t)\<lparr>links := map g (links (pool x t))\<rparr>),
       host_mem := patches p (links (pool x t)) (host_mem x)\<rparr>"
  by (simp add: on_links_def each_link_pass upd_trace_def)

text \<open>The three passes of the executor.\<close>

definition cut :: "bool \<Rightarrow> link_slot \<Rightarrow> link_slot" where
  "cut b lk = (if b then lk\<lparr>linked := False\<rparr> else lk)"

lemma cut_out_pass:
  "cut_out = pass (\<lambda>lk. cut (linked lk) lk) (\<lambda>lk. if linked lk then Some 0 else None)"
  by (simp add: fun_eq_iff cut_out_def cut_link_def pass_def patch_at_def cut_def)

lemma unlink_one_pass:
  "unlink_one e = pass (\<lambda>lk. cut (linked lk \<and> target_eip lk = e) lk)
     (\<lambda>lk. if linked lk \<and> target_eip lk = e then Some 0 else None)"
  by (auto simp: fun_eq_iff unlink_one_def cut_link_def pass_def patch_at_def cut_def)

definition link_to :: "executor \<Rightarrow> u32 \<Rightarrow> link_slot \<Rightarrow> nat option" where
  "link_to x e lk =
     (if linked lk \<or> target_eip lk \<le> e then None
      else case tcache_lookup (pool x) (target_eip lk) (page_map x) of
        None \<Rightarrow> None
      | Some tgt \<Rightarrow> if valid (pool x tgt) then Some tgt else None)"

lemma link_one_pass:
  "link_one x e = pass (\<lambda>lk. if link_to x e lk = None then lk else lk\<lparr>linked := True\<rparr>)
     (\<lambda>lk. map_option (\<lambda>tgt. of_nat (host_code (pool x tgt)) - of_nat (jmp_rel32 lk + 4)) (link_to x e lk))"
  by (auto simp: fun_eq_iff link_one_def link_to_def pass_def patch_at_def patch_rel32_def split: option.splits)

section \<open>The invariant\<close>

text \<open>A slot falls through when it is not linked; when a valid trace has it linked, it jumps forward to a
  valid trace for its target.\<close>

definition slot_ok :: "executor \<Rightarrow> trace \<Rightarrow> link_slot \<Rightarrow> bool" where
  "slot_ok x tr lk \<longleftrightarrow>
     (if linked lk
      then valid tr \<longrightarrow> guest_eip tr < target_eip lk
        \<and> (\<exists>j < arena_used x. valid (pool x j) \<and> guest_eip (pool x j) = target_eip lk
            \<and> jump_target (host_mem x) (jmp_rel32 lk) = int (host_code (pool x j)))
      else ld 4 (host_mem x) (jmp_rel32 lk) = 0)"

definition in_cache :: "nat \<Rightarrow> executor \<Rightarrow> bool" where
  "in_cache s x \<longleftrightarrow> cc_base (cc x) \<le> s \<and> s + 4 \<le> cc_base (cc x) + cc_used (cc x)"

definition trace_ok :: "executor \<Rightarrow> trace \<Rightarrow> bool" where
  "trace_ok x tr \<longleftrightarrow>
     cc_base (cc x) \<le> host_code tr \<and> host_code tr \<le> cc_base (cc x) + cc_cap (cc x)
     \<and> code_pa tr = guest_eip tr
     \<and> sorted_wrt apart (map jmp_rel32 (links tr))
     \<and> (\<forall>lk \<in> set (links tr). in_cache (jmp_rel32 lk) x \<and> slot_ok x tr lk)"

definition cache_ok :: "executor \<Rightarrow> bool" where
  "cache_ok x \<longleftrightarrow> (\<forall>i < L1_SIZE. \<forall>s. page_map x i = Some s \<longrightarrow> (\<forall>j < L2_SIZE. \<forall>t. s j = Some t \<longrightarrow> t < arena_used x))"

definition links_ok :: "executor \<Rightarrow> bool" where
  "links_ok x \<longleftrightarrow>
     cc_used (cc x) \<le> cc_cap (cc x) \<and> cc_cap (cc x) \<le> CODE_CACHE_BYTES
     \<and> (\<forall>i < arena_used x. trace_ok x (pool x i))
     \<and> (\<forall>i < arena_used x. \<forall>j < arena_used x. i \<noteq> j \<longrightarrow>
          (\<forall>lk \<in> set (links (pool x i)). \<forall>lk' \<in> set (links (pool x j)). apart (jmp_rel32 lk) (jmp_rel32 lk')))
     \<and> cache_ok x"

lemma cache_okD:
  "cache_ok x \<Longrightarrow> i < L1_SIZE \<Longrightarrow> page_map x i = Some s \<Longrightarrow> j < L2_SIZE \<Longrightarrow> s j = Some t \<Longrightarrow> t < arena_used x"
  by (simp add: cache_ok_def)

text \<open>What a slot says depends on the pool through the traces' heads only.\<close>

definition same_heads :: "executor \<Rightarrow> executor \<Rightarrow> bool" where
  "same_heads x y \<longleftrightarrow> arena_used y = arena_used x \<and> cc y = cc x \<and> page_map y = page_map x
     \<and> (\<forall>i. guest_eip (pool y i) = guest_eip (pool x i) \<and> host_code (pool y i) = host_code (pool x i)
          \<and> code_pa (pool y i) = code_pa (pool x i) \<and> valid (pool y i) = valid (pool x i)
          \<and> mem_sites (pool y i) = mem_sites (pool x i)
          \<and> map jmp_rel32 (links (pool y i)) = map jmp_rel32 (links (pool x i)))"

lemma same_heads_refl [simp]: "same_heads x x"
  by (simp add: same_heads_def)

lemma same_heads_trans: "same_heads x y \<Longrightarrow> same_heads y z \<Longrightarrow> same_heads x z"
  by (simp add: same_heads_def)

lemma same_heads_lookup: "same_heads x y \<Longrightarrow> tcache_lookup (pool y) e (page_map y) = tcache_lookup (pool x) e (page_map x)"
  by (simp add: same_heads_def tcache_lookup_def split: option.split)

lemma on_links_heads:
  "(\<And>lk. jmp_rel32 (g lk) = jmp_rel32 lk) \<Longrightarrow> same_heads x (on_links (pass g p) t x)"
  by (simp add: on_links_pass same_heads_def o_def)

lemma slot_ok_heads:
  assumes "same_heads x y" and "ld 4 (host_mem y) (jmp_rel32 lk) = ld 4 (host_mem x) (jmp_rel32 lk)"
    and "valid tr' = valid tr" "guest_eip tr' = guest_eip tr"
  shows "slot_ok y tr' lk = slot_ok x tr lk"
  using assms by (simp add: slot_ok_def same_heads_def jump_target_def)

text \<open>The displacement a pass leaves in a slot, and when the pass keeps the invariant.\<close>

definition after :: "(link_slot \<Rightarrow> u32 option) \<Rightarrow> executor \<Rightarrow> link_slot \<Rightarrow> u32" where
  "after p x lk = (case p lk of None \<Rightarrow> ld 4 (host_mem x) (jmp_rel32 lk) | Some v \<Rightarrow> v)"

definition slot_after_ok :: "executor \<Rightarrow> trace \<Rightarrow> link_slot \<Rightarrow> u32 \<Rightarrow> bool" where
  "slot_after_ok x tr lk v \<longleftrightarrow>
     (if linked lk
      then valid tr \<longrightarrow> guest_eip tr < target_eip lk
        \<and> (\<exists>j < arena_used x. valid (pool x j) \<and> guest_eip (pool x j) = target_eip lk
            \<and> int (jmp_rel32 lk + 4) + sint v = int (host_code (pool x j)))
      else v = 0)"

lemma slot_ok_after: "slot_ok x tr lk = slot_after_ok x tr lk (ld 4 (host_mem x) (jmp_rel32 lk))"
  by (simp add: slot_ok_def slot_after_ok_def jump_target_def)

lemma slot_after_heads: "same_heads x y \<Longrightarrow> slot_after_ok y tr lk v = slot_after_ok x tr lk v"
  by (simp add: slot_after_ok_def same_heads_def)

lemma slot_after_trace: "slot_after_ok x (tr\<lparr>links := l\<rparr>) lk v = slot_after_ok x tr lk v"
  by (simp add: slot_after_ok_def)

lemma links_okD:
  assumes "links_ok x" and "i < arena_used x"
  shows "trace_ok x (pool x i)"
    and "\<And>j lk lk'. j < arena_used x \<Longrightarrow> i \<noteq> j \<Longrightarrow> lk \<in> set (links (pool x i)) \<Longrightarrow> lk' \<in> set (links (pool x j))
      \<Longrightarrow> apart (jmp_rel32 lk) (jmp_rel32 lk')"
  using assms by (auto simp: links_ok_def)

lemma set_map_site:
  "(\<And>lk. jmp_rel32 (g lk) = jmp_rel32 lk) \<Longrightarrow> (\<forall>lk \<in> set (map g lks). P (jmp_rel32 lk)) \<longleftrightarrow> (\<forall>lk \<in> set lks. P (jmp_rel32 lk))"
  by simp

lemma on_links_ok:
  assumes ok: "links_ok x" and t: "t < arena_used x"
    and g: "\<And>lk. jmp_rel32 (g lk) = jmp_rel32 lk"
    and s: "\<And>lk. lk \<in> set (links (pool x t)) \<Longrightarrow> slot_after_ok x (pool x t) (g lk) (after p x lk)"
  shows "links_ok (on_links (pass g p) t x)"
proof -
  define y where "y = on_links (pass g p) t x"
  define ls where "ls = links (pool x t)"
  have y: "y = x\<lparr>pool := (pool x)(t := (pool x t)\<lparr>links := map g ls\<rparr>), host_mem := patches p ls (host_mem x)\<rparr>"
    by (simp add: y_def on_links_pass ls_def)
  have h: "same_heads x y" unfolding y_def using g by (rule on_links_heads)
  note tr = links_okD(1) [OF ok t]
  have sorted: "sorted_wrt apart (map jmp_rel32 ls)" using tr by (simp add: trace_ok_def ls_def)
  have same: "map jmp_rel32 (map g ls) = map jmp_rel32 ls" by (simp add: g)
  have mine: "slot_ok y (pool y t) (g lk)" if "lk \<in> set ls" for lk
  proof -
    have "ld 4 (host_mem y) (jmp_rel32 (g lk)) = after p x lk"
      using patches_at [OF sorted that, of p "host_mem x"] by (simp add: y g after_def)
    then show ?thesis
      using s that unfolding slot_ok_after slot_after_heads [OF h] by (simp add: y slot_after_trace ls_def)
  qed
  have other: "slot_ok y (pool y i) lk" if i: "i < arena_used x" "i \<noteq> t" "lk \<in> set (links (pool x i))" for i lk
  proof -
    have "apart (jmp_rel32 lk) (jmp_rel32 lk')" if "lk' \<in> set ls" for lk'
      using links_okD(2) [OF ok i(1) t i(2,3)] that by (simp add: ls_def)
    then have "ld 4 (host_mem y) (jmp_rel32 lk) = ld 4 (host_mem x) (jmp_rel32 lk)"
      by (simp add: y patches_apart)
    then have "slot_ok y (pool y i) lk = slot_ok x (pool x i) lk"
      using i(2) by (intro slot_ok_heads [OF h]) (simp_all add: y)
    then show ?thesis using links_okD(1) [OF ok i(1)] i(3) by (simp add: trace_ok_def)
  qed
  have "trace_ok y (pool y i)" if i: "i < arena_used y" for i
  proof (cases "i = t")
    case True
    then show ?thesis
      using tr mine same by (auto simp: trace_ok_def y in_cache_def g ls_def o_def)
  next
    case False
    have "trace_ok x (pool x i)" using links_okD(1) [OF ok] i by (simp add: y)
    then show ?thesis using False other i by (auto simp: trace_ok_def in_cache_def y)
  qed
  moreover have "apart (jmp_rel32 lk) (jmp_rel32 lk')"
    if i: "i < arena_used y" "j < arena_used y" "i \<noteq> j" "lk \<in> set (links (pool y i))" "lk' \<in> set (links (pool y j))"
    for i j lk lk'
  proof -
    have "\<exists>l \<in> set (links (pool x k)). jmp_rel32 l = jmp_rel32 m" if "m \<in> set (links (pool y k))" for k m
      using that g by (auto simp: y ls_def split: if_splits)
    with i obtain l l' where "l \<in> set (links (pool x i))" "jmp_rel32 l = jmp_rel32 lk"
      "l' \<in> set (links (pool x j))" "jmp_rel32 l' = jmp_rel32 lk'" by blast
    then show ?thesis using links_okD(2) [OF ok, of i j l l'] i by (simp add: y)
  qed
  ultimately show ?thesis
    using ok unfolding y_def [symmetric] by (simp add: links_ok_def cache_ok_def y)
qed

section \<open>Linking and unlinking\<close>

lemma lookup_Some:
  assumes "tcache_lookup (pool x) e (page_map x) = Some t"
  shows "guest_eip (pool x t) = e" and "cache_ok x \<Longrightarrow> t < arena_used x"
proof -
  obtain s where s: "page_map x (l1_index e) = Some s" "s (l2_index e) = Some t" "guest_eip (pool x t) = e"
    using assms by (auto simp: tcache_lookup_def split: option.splits if_splits)
  show "guest_eip (pool x t) = e" by (rule s)
  show "cache_ok x \<Longrightarrow> t < arena_used x"
    using s l1_index_less [of e] l2_index_less [of e] unfolding cache_ok_def by blast
qed

lemma link_to_Some:
  assumes "link_to x e lk = Some tgt" and "cache_ok x"
  shows "e < target_eip lk" "tgt < arena_used x" "valid (pool x tgt)" "guest_eip (pool x tgt) = target_eip lk"
  using assms lookup_Some [of x "target_eip lk"]
  by (auto simp: link_to_def not_le split: if_splits option.splits)

lemma try_link_ok:
  assumes ok: "links_ok x" and t: "t < arena_used x"
  shows "links_ok (try_link_trace t x)" and "same_heads x (try_link_trace t x)"
proof -
  define e where "e = guest_eip (pool x t)"
  have c: "cache_ok x" using ok by (simp add: links_ok_def)
  have tr: "trace_ok x (pool x t)" by (rule links_okD(1) [OF ok t])
  show "links_ok (try_link_trace t x)"
    unfolding try_link_trace_def link_one_pass e_def [symmetric]
  proof (rule on_links_ok [OF ok t])
    fix lk
    assume lk: "lk \<in> set (links (pool x t))"
    have in_c: "in_cache (jmp_rel32 lk) x" and so: "slot_ok x (pool x t) lk" using tr lk by (auto simp: trace_ok_def)
    show "slot_after_ok x (pool x t) (if link_to x e lk = None then lk else lk\<lparr>linked := True\<rparr>)
       (after (\<lambda>lk. map_option (\<lambda>tgt. of_nat (host_code (pool x tgt)) - of_nat (jmp_rel32 lk + 4)) (link_to x e lk)) x lk)"
    proof (cases "link_to x e lk")
      case None
      then show ?thesis using so by (simp add: slot_ok_after after_def)
    next
      case (Some tgt)
      note l = link_to_Some [OF Some c]
      have "cc_base (cc x) \<le> host_code (pool x tgt)" "host_code (pool x tgt) \<le> cc_base (cc x) + cc_cap (cc x)"
        using links_okD(1) [OF ok l(2)] by (simp_all add: trace_ok_def)
      moreover have "cc_used (cc x) \<le> cc_cap (cc x)" "cc_cap (cc x) \<le> 33554432"
        using ok by (simp_all add: links_ok_def)
      ultimately have "\<bar>int (host_code (pool x tgt)) - int (jmp_rel32 lk + 4)\<bar> < 2 ^ 31"
        using in_c unfolding in_cache_def by (simp add: abs_less_iff)
      from sint_diff [OF this] show ?thesis
        using Some l by (auto simp: slot_after_ok_def after_def e_def intro!: exI [of _ tgt])
    qed
  qed simp
  show "same_heads x (try_link_trace t x)"
    unfolding try_link_trace_def link_one_pass by (rule on_links_heads) simp
qed

text \<open>Unlinking from one trace, then from all.\<close>

definition no_link_to :: "u32 \<Rightarrow> trace \<Rightarrow> bool" where
  "no_link_to e tr \<longleftrightarrow> (\<forall>lk \<in> set (links tr). linked lk \<longrightarrow> target_eip lk \<noteq> e)"

lemma cut_simps [simp]:
  "jmp_rel32 (cut b lk) = jmp_rel32 lk" "target_eip (cut b lk) = target_eip lk"
  "linked (cut b lk) \<longleftrightarrow> linked lk \<and> \<not> b"
  by (simp_all add: cut_def)

lemma cut_pass_ok:
  assumes ok: "links_ok x" and t: "t < arena_used x"
  shows "links_ok (on_links (pass (\<lambda>lk. cut (linked lk \<and> b lk) lk) (\<lambda>lk. if linked lk \<and> b lk then Some 0 else None)) t x)"
proof (rule on_links_ok [OF ok t])
  fix lk
  assume "lk \<in> set (links (pool x t))"
  then have "slot_ok x (pool x t) lk" using links_okD(1) [OF ok t] by (simp add: trace_ok_def)
  then show "slot_after_ok x (pool x t) (cut (linked lk \<and> b lk) lk)
      (after (\<lambda>lk. if linked lk \<and> b lk then Some 0 else None) x lk)"
    by (auto simp: slot_ok_after slot_after_ok_def after_def)
qed simp

lemma unlink_at_ok:
  assumes "links_ok x" and "i < arena_used x"
  shows "links_ok (unlink_at e i x)" "same_heads x (unlink_at e i x)"
    "valid (pool x i) \<Longrightarrow> no_link_to e (pool (unlink_at e i x) i)"
    "j \<noteq> i \<Longrightarrow> pool (unlink_at e i x) j = pool x j"
proof -
  define y where "y = on_links (unlink_one e) i x"
  have "links_ok y" unfolding y_def unlink_one_pass by (rule cut_pass_ok [OF assms])
  moreover have "same_heads x y" unfolding y_def unlink_one_pass by (rule on_links_heads) simp
  moreover have "no_link_to e (pool y i)" "j \<noteq> i \<Longrightarrow> pool y j = pool x j"
    by (auto simp: y_def unlink_one_pass on_links_pass no_link_to_def)
  ultimately show "links_ok (unlink_at e i x)" "same_heads x (unlink_at e i x)"
    "valid (pool x i) \<Longrightarrow> no_link_to e (pool (unlink_at e i x) i)"
    "j \<noteq> i \<Longrightarrow> pool (unlink_at e i x) j = pool x j"
    using assms(1) by (simp_all add: unlink_at_def y_def [symmetric])
qed

lemma unlink_upto:
  assumes "links_ok x" and "n \<le> arena_used x"
  shows "links_ok (fold (unlink_at e) [0..<n] x) \<and> same_heads x (fold (unlink_at e) [0..<n] x)
    \<and> (\<forall>i < n. valid (pool x i) \<longrightarrow> no_link_to e (pool (fold (unlink_at e) [0..<n] x) i))"
  using assms(2)
proof (induction n)
  case 0
  then show ?case using assms(1) by simp
next
  case (Suc n)
  define z where "z = fold (unlink_at e) [0..<n] x"
  have z: "links_ok z" "same_heads x z" "\<forall>i < n. valid (pool x i) \<longrightarrow> no_link_to e (pool z i)"
    using Suc by (simp_all add: z_def)
  have n: "n < arena_used z" and v: "valid (pool z n) = valid (pool x n)"
    using z(2) Suc.prems by (simp_all add: same_heads_def)
  note st = unlink_at_ok [OF z(1) n, where e = e]
  have "no_link_to e (pool (unlink_at e n z) i)" if "i < Suc n" "valid (pool x i)" for i
    using that z(3) st(3,4) v by (cases "i = n") auto
  then show ?case
    unfolding fold_upt_Suc z_def [symmetric] using st(1) same_heads_trans [OF z(2) st(2)] by blast
qed

lemma unlink_trace_ok:
  assumes "links_ok x"
  shows "links_ok (unlink_trace t x)" "same_heads x (unlink_trace t x)"
    "i < arena_used x \<Longrightarrow> valid (pool x i) \<Longrightarrow> no_link_to (guest_eip (pool x t)) (pool (unlink_trace t x) i)"
  using unlink_upto [OF assms order_refl, of "guest_eip (pool x t)"] by (simp_all add: unlink_trace_def)

section \<open>Invalidation\<close>

lemma invalidate_one_ok:
  assumes ok: "links_ok x" and t: "t < arena_used x"
    and no: "\<And>i. i < arena_used x \<Longrightarrow> valid (pool x i) \<Longrightarrow> no_link_to (guest_eip (pool x t)) (pool x i)"
  shows "links_ok (upd_trace t (\<lambda>tr. tr\<lparr>valid := False\<rparr>) x)"
proof -
  define y where "y = upd_trace t (\<lambda>tr. tr\<lparr>valid := False\<rparr>) x"
  have y: "y = x\<lparr>pool := (pool x)(t := (pool x t)\<lparr>valid := False\<rparr>)\<rparr>" by (simp add: y_def upd_trace_def)
  have "slot_ok y (pool y i) lk" if i: "i < arena_used x" "lk \<in> set (links (pool x i))" for i lk
  proof -
    have so: "slot_ok x (pool x i) lk" using links_okD(1) [OF ok i(1)] i(2) by (simp add: trace_ok_def)
    show ?thesis
    proof (cases "linked lk \<and> valid (pool y i)")
      case False
      then show ?thesis using so by (simp add: slot_ok_def y)
    next
      case True
      then have it: "i \<noteq> t" "valid (pool x i)" by (auto simp: y split: if_splits)
      obtain j where j: "guest_eip (pool x i) < target_eip lk" "j < arena_used x" "valid (pool x j)"
        "guest_eip (pool x j) = target_eip lk"
        "jump_target (host_mem x) (jmp_rel32 lk) = int (host_code (pool x j))"
        using so True it(2) by (auto simp: slot_ok_def)
      have "target_eip lk \<noteq> guest_eip (pool x t)"
        using no [OF i(1) it(2)] i(2) True by (simp add: no_link_to_def)
      then have "j \<noteq> t" using j(4) by auto
      then have eqs: "pool y j = pool x j" "pool y i = pool x i" "arena_used y = arena_used x"
        "host_mem y = host_mem x" using it(1) by (simp_all add: y)
      have "\<exists>j < arena_used y. valid (pool y j) \<and> guest_eip (pool y j) = target_eip lk
          \<and> jump_target (host_mem y) (jmp_rel32 lk) = int (host_code (pool y j))"
        using j eqs by (intro exI [of _ j]) simp
      then show ?thesis using j(1) True by (simp add: slot_ok_def eqs(2))
    qed
  qed
  note so = this
  have same: "links (pool y i) = links (pool x i)" "host_code (pool y i) = host_code (pool x i)"
    "code_pa (pool y i) = code_pa (pool x i)" "guest_eip (pool y i) = guest_eip (pool x i)" for i
    by (simp_all add: y)
  have "trace_ok y (pool y i)" if "i < arena_used x" for i
    using links_okD(1) [OF ok that] so [OF that] unfolding trace_ok_def in_cache_def same by (simp add: y)
  then show ?thesis
    using ok unfolding y_def [symmetric] links_ok_def cache_ok_def same by (simp add: y)
qed

text \<open>What dropping a trace changes.\<close>

definition dropped :: "nat set \<Rightarrow> executor \<Rightarrow> executor \<Rightarrow> bool" where
  "dropped T x y \<longleftrightarrow> arena_used y = arena_used x \<and> cc y = cc x \<and> page_map y = page_map x
     \<and> (\<forall>i. guest_eip (pool y i) = guest_eip (pool x i) \<and> code_pa (pool y i) = code_pa (pool x i)
          \<and> host_code (pool y i) = host_code (pool x i) \<and> mem_sites (pool y i) = mem_sites (pool x i)
          \<and> map jmp_rel32 (links (pool y i)) = map jmp_rel32 (links (pool x i))
          \<and> valid (pool y i) = (valid (pool x i) \<and> i \<notin> T))"

lemma dropped_trans: "dropped S x y \<Longrightarrow> dropped T y z \<Longrightarrow> dropped (S \<union> T) x z"
  by (auto simp: dropped_def)

lemma dropped_lookup: "dropped T x y \<Longrightarrow> tcache_lookup (pool y) e (page_map y) = tcache_lookup (pool x) e (page_map x)"
  by (simp add: dropped_def tcache_lookup_def split: option.split)

lemma dropped_heads: "same_heads x y \<Longrightarrow> dropped {} x y"
  by (simp add: dropped_def same_heads_def)

lemma drop_trace_ok:
  assumes ok: "links_ok x" and t: "t < arena_used x"
  shows "links_ok (drop_trace t x)" "dropped {t} x (drop_trace t x)"
proof -
  define u where "u = unlink_trace t x"
  define v where "v = on_links cut_out t u"
  note un = unlink_trace_ok [OF ok, where t = t, folded u_def]
  have tu: "t < arena_used u" using un(2) t by (simp add: same_heads_def)
  have v: "v = on_links (pass (\<lambda>lk. cut (linked lk \<and> True) lk) (\<lambda>lk. if linked lk \<and> True then Some 0 else None)) t u"
    unfolding v_def cut_out_pass by simp
  have vok: "links_ok v" unfolding v by (rule cut_pass_ok [OF un(1) tu])
  have uv: "same_heads u v" unfolding v by (rule on_links_heads) simp
  have xv: "same_heads x v" by (rule same_heads_trans [OF un(2) uv])
  have "no_link_to (guest_eip (pool v t)) (pool v i)" if "i < arena_used v" "valid (pool v i)" for i
  proof (cases "i = t")
    case True
    then show ?thesis by (simp add: v on_links_pass no_link_to_def)
  next
    case False
    then have "pool v i = pool u i" by (simp add: v on_links_pass)
    moreover have "i < arena_used x" "valid (pool x i)" "guest_eip (pool v t) = guest_eip (pool x t)"
      using that xv by (simp_all add: same_heads_def)
    ultimately show ?thesis using un(3) by simp
  qed
  then show "links_ok (drop_trace t x)"
    unfolding drop_trace_def u_def [symmetric] v_def [symmetric]
    using xv t by (intro invalidate_one_ok [OF vok]) (simp_all add: same_heads_def)
  show "dropped {t} x (drop_trace t x)"
    unfolding drop_trace_def u_def [symmetric] v_def [symmetric]
    using xv by (auto simp: dropped_def upd_trace_def same_heads_def)
qed

text \<open>All traces of a page's slots whose recorded code address is in the page.\<close>

definition doomed :: "u32 \<Rightarrow> page_table \<Rightarrow> nat \<Rightarrow> executor \<Rightarrow> nat set" where
  "doomed page slots n x = {t. \<exists>s < n. slots s = Some t \<and> code_pa (pool x t) AND NOT 0xFFF = page}"

lemma drop_slot_ok:
  assumes ok: "links_ok x" and t: "\<And>t. slots s = Some t \<Longrightarrow> t < arena_used x"
  shows "links_ok (drop_slot page slots s x)"
    "dropped {t. slots s = Some t \<and> code_pa (pool x t) AND NOT 0xFFF = page} x (drop_slot page slots s x)"
proof -
  have d: "dropped S x x" if "\<And>i. i \<in> S \<Longrightarrow> \<not> valid (pool x i)" for S
    using that by (auto simp: dropped_def)
  have "links_ok (drop_slot page slots s x)
    \<and> dropped {t. slots s = Some t \<and> code_pa (pool x t) AND NOT 0xFFF = page} x (drop_slot page slots s x)"
  proof (cases "slots s")
    case None
    then show ?thesis using ok d [of "{}"] by (simp add: drop_slot_def)
  next
    case (Some u)
    show ?thesis
    proof (cases "valid (pool x u) \<and> code_pa (pool x u) AND NOT 0xFFF = page")
      case True
      moreover have "{t. u = t \<and> code_pa (pool x t) AND NOT 0xFFF = page} = {u}" using True by auto
      ultimately show ?thesis using drop_trace_ok [OF ok t [OF Some]] Some by (simp add: drop_slot_def)
    next
      case False
      then show ?thesis using ok Some by (auto simp: drop_slot_def intro!: d)
    qed
  qed
  then show "links_ok (drop_slot page slots s x)"
    "dropped {t. slots s = Some t \<and> code_pa (pool x t) AND NOT 0xFFF = page} x (drop_slot page slots s x)"
    by blast+
qed

lemma drop_slots_upto:
  assumes ok: "links_ok x" and t: "\<And>s t. s < n \<Longrightarrow> slots s = Some t \<Longrightarrow> t < arena_used x"
  shows "links_ok (fold (drop_slot page slots) [0..<n] x)
    \<and> dropped (doomed page slots n x) x (fold (drop_slot page slots) [0..<n] x)"
  using t
proof (induction n)
  case 0
  then show ?case using ok by (simp add: dropped_def doomed_def)
next
  case (Suc n)
  define z where "z = fold (drop_slot page slots) [0..<n] x"
  have "\<And>s t. s < n \<Longrightarrow> slots s = Some t \<Longrightarrow> t < arena_used x" using Suc.prems less_SucI by blast
  from Suc.IH [OF this] have z: "links_ok z" "dropped (doomed page slots n x) x z" by (auto simp: z_def)
  have tn: "\<And>t. slots n = Some t \<Longrightarrow> t < arena_used z" using Suc.prems [OF lessI] z(2) by (simp add: dropped_def)
  have e: "doomed page slots n x \<union> {t. slots n = Some t \<and> code_pa (pool z t) AND NOT 0xFFF = page}
      = doomed page slots (Suc n) x"
    using z(2) by (auto simp: doomed_def dropped_def less_Suc_eq)
  then show ?case
    unfolding fold_upt_Suc z_def [symmetric] e [symmetric]
    using drop_slot_ok [OF z(1) tn] dropped_trans [OF z(2) drop_slot_ok(2) [OF z(1) tn]] by blast
qed

lemma links_ok_cong:
  assumes "host_mem y = host_mem x" "cc y = cc x" "pool y = pool x" "arena_used y = arena_used x"
    "page_map y = page_map x"
  shows "links_ok y = links_ok x"
  using assms by (simp add: links_ok_def trace_ok_def in_cache_def slot_ok_def cache_ok_def)

lemma clear_code_page_Some:
  assumes "clear_code_page pa x = Some y"
  shows "\<exists>b. y = x\<lparr>code_bitmap := b\<rparr>"
  using assms by (auto simp: clear_code_page_def Let_def)

lemma invalidate_ok:
  assumes ok: "links_ok x" and i: "invalidate_code_page pa x = Some y"
  defines "page \<equiv> pa AND GUEST_PAGE_MASK"
  shows "links_ok y"
    and "\<exists>T. dropped T x y \<and> (is_code_page page x = Some True \<longrightarrow>
        T = (case page_map x (l1_index page) of None \<Rightarrow> {} | Some s \<Rightarrow> doomed page s L2_SIZE x))"
proof -
  obtain c where c: "is_code_page page x = Some c" using i
    unfolding invalidate_code_page_def Let_def page_def [symmetric] Option.bind_eq_Some_conv by blast
  have "links_ok y \<and> (\<exists>T. dropped T x y \<and> (c \<longrightarrow>
      T = (case page_map x (l1_index page) of None \<Rightarrow> {} | Some s \<Rightarrow> doomed page s L2_SIZE x)))"
  proof (cases c)
    case False
    then have "y = x" using i c by (simp add: invalidate_code_page_def Let_def page_def)
    then show ?thesis using ok False by (auto simp: dropped_def)
  next
    case True
    obtain z where z: "clear_code_page page x = Some z"
      using i c True
      unfolding invalidate_code_page_def Let_def page_def [symmetric] by (auto simp: Option.bind_eq_Some_conv)
    define w where "w = z\<lparr>writable := (writable z)(page_no page := True)\<rparr>"
    obtain b where b: "z = x\<lparr>code_bitmap := b\<rparr>" using clear_code_page_Some [OF z] by blast
    have wx: "host_mem w = host_mem x" "cc w = cc x" "pool w = pool x" "arena_used w = arena_used x"
      "page_map w = page_map x" by (simp_all add: w_def b)
    have pm: "page_map z = page_map x" by (simp add: b)
    have wok: "links_ok w" using ok links_ok_cong [OF wx] by simp
    have y: "Some y = (case page_map x (l1_index page) of None \<Rightarrow> Some w
        | Some slots \<Rightarrow> Some (fold (drop_slot page slots) [0..<L2_SIZE] w))"
      using i c True z unfolding invalidate_code_page_def Let_def page_def [symmetric] w_def
      by (simp add: pm)
    show ?thesis
    proof (cases "page_map x (l1_index page)")
      case None
      then show ?thesis using y wok wx by (auto simp: dropped_def)
    next
      case (Some slots)
      have "t < arena_used w" if "s < L2_SIZE" "slots s = Some t" for s t
        using cache_okD [of w "l1_index page" slots s t] that wok Some wx by (simp add: links_ok_def)
      from drop_slots_upto [OF wok this, where page = page]
      have "links_ok y" "dropped (doomed page slots L2_SIZE w) w y" using y Some by auto
      moreover have "doomed page slots L2_SIZE w = doomed page slots L2_SIZE x" by (simp add: doomed_def wx)
      ultimately show ?thesis using wx Some by (auto simp: dropped_def)
    qed
  qed
  then show "links_ok y" "\<exists>T. dropped T x y \<and> (is_code_page page x = Some True \<longrightarrow>
        T = (case page_map x (l1_index page) of None \<Rightarrow> {} | Some s \<Rightarrow> doomed page s L2_SIZE x))"
    using c by auto
qed

section \<open>Patched accesses\<close>

text \<open>The fault handler rewrites the region of a patchable site, \<open>n\<close> bytes from \<open>a\<close>, which must not touch a
  displacement: regions lie in the code, apart from the displacements of every trace.\<close>

definition off_slot :: "nat \<Rightarrow> nat \<Rightarrow> nat \<Rightarrow> bool" where
  "off_slot a n s \<longleftrightarrow> s + 4 \<le> a \<or> a + n \<le> s"

definition region_start :: "trace \<Rightarrow> mem_site \<Rightarrow> nat" where
  "region_start tr s = host_code tr + unat (host_offset s)"

definition site_ok :: "executor \<Rightarrow> trace \<Rightarrow> mem_site \<Rightarrow> bool" where
  "site_ok x tr s \<longleftrightarrow>
     5 \<le> unat (patch_len s)
     \<and> region_start tr s + unat (patch_len s) \<le> cc_base (cc x) + cc_used (cc x)
     \<and> (\<forall>i < arena_used x. \<forall>p \<in> set (map jmp_rel32 (links (pool x i))).
          off_slot (region_start tr s) (unat (patch_len s)) p)"

text \<open>The slab of the thunks starts behind the code.\<close>

definition sites_ok :: "executor \<Rightarrow> bool" where
  "sites_ok x \<longleftrightarrow>
     cc_base (cc x) + cc_cap (cc x) \<le> thunk_base (cc x)
     \<and> (\<forall>i < arena_used x. \<forall>s \<in> set (mem_sites (pool x i)). patch_len s \<noteq> 0 \<longrightarrow> site_ok x (pool x i) s)"

lemma site_ok_trace: "host_code tr' = host_code tr \<Longrightarrow> site_ok x tr' s = site_ok x tr s"
  by (simp add: site_ok_def region_start_def)

lemma sites_ok_dropped:
  assumes "dropped T x y"
  shows "sites_ok y = sites_ok x"
proof -
  have "site_ok y tr s = site_ok x tr s" for tr s
    using assms by (simp only: site_ok_def dropped_def)
  then have "site_ok y (pool y i) s = site_ok x (pool x i) s" for i s
    using assms site_ok_trace [of "pool y i" "pool x i" x s] by (simp add: dropped_def)
  then show ?thesis using assms by (simp only: sites_ok_def dropped_def)
qed

lemma sites_ok_cong:
  assumes "cc y = cc x" "pool y = pool x" "arena_used y = arena_used x"
  shows "sites_ok y = sites_ok x"
  unfolding sites_ok_def site_ok_def assms ..

lemma ld_put_list_off: "off_slot a (length xs) s \<Longrightarrow> ld 4 (put_list xs h a) s = ld 4 h s"
  by (rule ld_cong) (auto simp: put_list_apply off_slot_def)

section \<open>Building\<close>

text \<open>What the run loop's builder may rely on from emission: the code fits the buffer, the displacement
  fields of its links lie inside it, apart from each other and zero, and so do the regions of its patchable
  sites, apart from those fields.\<close>

definition emitted_ok :: "nat \<Rightarrow> emitted \<Rightarrow> bool" where
  "emitted_ok buf em \<longleftrightarrow> length (em_code em) \<le> MAX_TRACE_BYTES \<and> sorted_wrt apart (map fst (em_links em))
     \<and> (\<forall>(s, tgt) \<in> set (em_links em). buf \<le> s \<and> s + 4 \<le> buf + length (em_code em)
          \<and> (\<forall>k < 4. em_code em ! (s - buf + k) = 0))
     \<and> (\<forall>(off, _, len) \<in> set (em_sites em). len \<noteq> 0 \<longrightarrow>
          5 \<le> unat len \<and> unat off + unat len \<le> length (em_code em)
          \<and> (\<forall>(s, _) \<in> set (em_links em). off_slot (buf + unat off) (unat len) s))"

definition fresh_slot :: "nat \<times> u32 \<Rightarrow> link_slot" where
  "fresh_slot p = \<lparr>jmp_rel32 = fst p, target_eip = snd p, linked = False\<rparr>"

definition kept_links :: "emitted \<Rightarrow> (nat \<times> u32) list" where
  "kept_links em = drop (length (em_links em) - MAX_LINKS) (em_links em)"

lemma fold_add_link:
  "length (links t) + length ps \<le> MAX_LINKS \<Longrightarrow>
    fold (\<lambda>(s, tgt). add_link s tgt) ps t = t\<lparr>links := links t @ map fresh_slot ps\<rparr>"
proof (induction ps arbitrary: t)
  case (Cons p ps)
  then show ?case by (cases p) (simp add: add_link_def fresh_slot_def)
qed simp

lemma add_mem_sites_keep:
  "guest_eip (fold (\<lambda>(off, geip, plen). add_mem_site off geip plen) ss t) = guest_eip t"
  "code_pa (fold (\<lambda>(off, geip, plen). add_mem_site off geip plen) ss t) = code_pa t"
  "host_code (fold (\<lambda>(off, geip, plen). add_mem_site off geip plen) ss t) = host_code t"
  "valid (fold (\<lambda>(off, geip, plen). add_mem_site off geip plen) ss t) = valid t"
  "links (fold (\<lambda>(off, geip, plen). add_mem_site off geip plen) ss t) = links t"
  by (induction ss arbitrary: t) (simp_all add: add_mem_site_def split: prod.splits)

lemma fill_trace_simps:
  "guest_eip (fill_trace e buf em t) = e" "code_pa (fill_trace e buf em t) = e"
  "host_code (fill_trace e buf em t) = buf" "valid (fill_trace e buf em t)"
  "links (fill_trace e buf em t) = map fresh_slot (kept_links em)"
  by (simp_all add: fill_trace_def Let_def add_mem_sites_keep fold_add_link kept_links_def)

lemma ld_put_list_zero:
  assumes "b \<le> s" "s + 4 \<le> b + length xs" "\<forall>k < 4. xs ! (s - b + k) = 0"
  shows "ld 4 (put_list xs h b) s = 0"
proof -
  have "ld 4 (put_list xs h b) s = ld 4 (\<lambda>_. 0) s"
  proof (rule ld_cong)
    fix i
    assume i: "s \<le> i" "i < s + 4"
    have "xs ! (s - b + (i - s)) = 0" by (rule assms(3) [rule_format]) (use i in simp)
    moreover have "s - b + (i - s) = i - b" using i assms(1) by simp
    ultimately show "put_list xs h b i = 0" using i assms(1,2) by (simp add: put_list_apply)
  qed
  then show ?thesis by simp
qed

text \<open>The invariant grows by a trace in a fresh part of the code cache.\<close>

lemma links_ok_slots:
  assumes ok: "links_ok x" and b: "cc_base c = cc_base (cc x)" "cc_cap c = cc_cap (cc x)"
    "cc_used (cc x) \<le> cc_used c" "cc_used c \<le> cc_cap c"
    and h: "\<And>i lk. i < arena_used x \<Longrightarrow> lk \<in> set (links (pool x i)) \<Longrightarrow>
      ld 4 h (jmp_rel32 lk) = ld 4 (host_mem x) (jmp_rel32 lk)"
  shows "links_ok (x\<lparr>cc := c, host_mem := h\<rparr>)"
proof -
  define y where "y = x\<lparr>cc := c, host_mem := h\<rparr>"
  have y: "pool y = pool x" "arena_used y = arena_used x" "page_map y = page_map x" "cc y = c" "host_mem y = h"
    by (simp_all add: y_def)
  have "in_cache (jmp_rel32 lk) y \<and> slot_ok y (pool x i) lk"
    if "i < arena_used x" "lk \<in> set (links (pool x i))" "in_cache (jmp_rel32 lk) x" "slot_ok x (pool x i) lk" for i lk
  proof -
    have "slot_ok y (pool x i) lk = slot_ok x (pool x i) lk"
      unfolding slot_ok_def jump_target_def y h [OF that(1,2)] by simp
    then show ?thesis using that b by (simp add: in_cache_def y)
  qed
  then have "trace_ok y (pool x i)" if "trace_ok x (pool x i)" "i < arena_used x" for i
    using that b by (auto simp: trace_ok_def y)
  then show ?thesis using ok b unfolding y_def [symmetric] by (simp add: links_ok_def cache_ok_def y)
qed

lemma links_ok_more_cache:
  assumes ok: "links_ok x" and b: "cc_base c = cc_base (cc x)" "cc_cap c = cc_cap (cc x)"
    "cc_used (cc x) \<le> cc_used c" "cc_used c \<le> cc_cap c"
    and h: "\<And>i. i < cc_base (cc x) + cc_used (cc x) \<Longrightarrow> h i = host_mem x i"
  shows "links_ok (x\<lparr>cc := c, host_mem := h\<rparr>)"
proof (rule links_ok_slots [OF ok b])
  fix i lk
  assume i: "i < arena_used x" "lk \<in> set (links (pool x i))"
  then have "in_cache (jmp_rel32 lk) x" using links_okD(1) [OF ok i(1)] by (simp add: trace_ok_def)
  then show "ld 4 h (jmp_rel32 lk) = ld 4 (host_mem x) (jmp_rel32 lk)"
    by (intro ld_cong h) (simp add: in_cache_def)
qed

lemma cache_ok_more: "cache_ok x \<Longrightarrow> page_map y = page_map x \<Longrightarrow> arena_used x \<le> arena_used y \<Longrightarrow> cache_ok y"
  unfolding cache_ok_def by (metis less_le_trans)

lemma links_ok_add_trace:
  assumes ok: "links_ok x" and tr: "trace_ok x tr"
    and fresh: "\<And>i lk lk'. i < arena_used x \<Longrightarrow> lk \<in> set (links (pool x i)) \<Longrightarrow> lk' \<in> set (links tr)
      \<Longrightarrow> apart (jmp_rel32 lk) (jmp_rel32 lk')"
    and nl: "\<And>lk. lk \<in> set (links tr) \<Longrightarrow> \<not> linked lk"
  shows "links_ok (x\<lparr>arena_used := arena_used x + 1, pool := (pool x)(arena_used x := tr)\<rparr>)"
proof -
  define n where "n = arena_used x"
  define y where "y = x\<lparr>arena_used := n + 1, pool := (pool x)(n := tr)\<rparr>"
  have y: "arena_used y = n + 1" "pool y n = tr" "\<And>i. i < n \<Longrightarrow> pool y i = pool x i" "page_map y = page_map x"
    "cc y = cc x" "host_mem y = host_mem x"
    by (simp_all add: y_def)
  have so: "slot_ok y u lk" if s: "slot_ok x u lk" for u lk
  proof (cases "linked lk \<and> valid u")
    case False
    then show ?thesis using s by (auto simp: slot_ok_def y)
  next
    case True
    then obtain j where "j < n" "valid (pool x j)" "guest_eip (pool x j) = target_eip lk" "guest_eip u < target_eip lk"
      "jump_target (host_mem x) (jmp_rel32 lk) = int (host_code (pool x j))"
      using s by (auto simp: slot_ok_def n_def)
    then show ?thesis using True unfolding slot_ok_def y(1) by (auto simp: y intro!: exI [of _ j])
  qed
  have "trace_ok y u" if "trace_ok x u" for u
    using that so by (auto simp: trace_ok_def in_cache_def y)
  then have "trace_ok y (pool y i)" if "i < n + 1" for i
    using links_okD(1) [OF ok, of i] tr that y(2,3) by (cases "i = n") (auto simp: n_def)
  moreover have "apart (jmp_rel32 lk) (jmp_rel32 lk')"
    if i: "i < n + 1" "j < n + 1" "i \<noteq> j" "lk \<in> set (links (pool y i))" "lk' \<in> set (links (pool y j))" for i j lk lk'
  proof (cases "i = n")
    case True
    then have "apart (jmp_rel32 lk') (jmp_rel32 lk)"
      using i fresh [of j lk' lk] y(2,3) by (simp add: n_def)
    then show ?thesis by (rule apart_sym)
  next
    case False
    then have "i < n" using i(1) by simp
    then show ?thesis
      using i fresh [of i lk lk'] y(2,3) links_okD(2) [OF ok, of i j lk lk']
      by (cases "j = n") (simp_all add: n_def)
  qed
  moreover have "cache_ok y" using ok y(1,4) by (intro cache_ok_more [of x y]) (simp_all add: links_ok_def n_def)
  ultimately have "links_ok y" using ok y(1,5) by (simp add: links_ok_def)
  then show ?thesis by (simp add: y_def n_def)
qed

lemma kept_links_ok:
  assumes "emitted_ok buf em"
  shows "sorted_wrt apart (map jmp_rel32 (map fresh_slot (kept_links em)))"
    and "lk \<in> set (map fresh_slot (kept_links em)) \<Longrightarrow> buf \<le> jmp_rel32 lk
      \<and> jmp_rel32 lk + 4 \<le> buf + length (em_code em) \<and> ld 4 (put_list (em_code em) h buf) (jmp_rel32 lk) = 0
      \<and> \<not> linked lk"
proof -
  have "map jmp_rel32 (map fresh_slot (kept_links em)) = drop (length (em_links em) - MAX_LINKS) (map fst (em_links em))"
    by (simp add: fresh_slot_def kept_links_def drop_map o_def)
  then show "sorted_wrt apart (map jmp_rel32 (map fresh_slot (kept_links em)))"
    using assms by (simp only: emitted_ok_def sorted_wrt_drop)
  assume "lk \<in> set (map fresh_slot (kept_links em))"
  then obtain s tgt where s: "(s, tgt) \<in> set (em_links em)" "lk = fresh_slot (s, tgt)"
    using set_drop_subset by (fastforce simp: kept_links_def)
  have "buf \<le> s" "s + 4 \<le> buf + length (em_code em)" "\<forall>k < 4. em_code em ! (s - buf + k) = 0"
    using assms s(1) by (auto simp: emitted_ok_def)
  with ld_put_list_zero [OF this] show "buf \<le> jmp_rel32 lk
      \<and> jmp_rel32 lk + 4 \<le> buf + length (em_code em) \<and> ld 4 (put_list (em_code em) h buf) (jmp_rel32 lk) = 0
      \<and> \<not> linked lk"
    by (simp add: s(2) fresh_slot_def)
qed

lemma build_ok:
  assumes ok: "links_ok x" and em: "\<And>buf. emitted_ok buf (emit buf)" and b: "build emit e n x = (r, y)"
  shows "links_ok y \<and> page_map y = page_map x \<and> (\<forall>t. r = Some t \<longrightarrow> t < arena_used y \<and> guest_eip (pool y t) = e)"
proof (cases "n = 0 \<or> fst (cc_alloc MAX_TRACE_BYTES (cc x)) = None")
  case True
  then have "r = None \<and> y = x" using b
    by (cases "cc_alloc MAX_TRACE_BYTES (cc x)"; cases "n = 0") (auto simp: build_def)
  then show ?thesis using ok by simp
next
  case False
  then obtain buf c where a: "cc_alloc MAX_TRACE_BYTES (cc x) = (Some buf, c)"
    by (cases "cc_alloc MAX_TRACE_BYTES (cc x)") auto
  define m where "m = emit buf"
  define h where "h = put_list (em_code m) (host_mem x) buf"
  note eo = em [of buf, folded m_def]
  note bl = cc_alloc_block [OF a]
  have cb: "cc_base c = cc_base (cc x)" "cc_cap c = cc_cap (cc x)" by (subst bl(5), simp)+
  have keep: "h i = host_mem x i" if "i < cc_base (cc x) + cc_used (cc x)" for i
    using that bl(1) by (simp add: h_def put_list_apply)
  have used: "cc_used (cc x) \<le> cc_used c" using bl(1,2) cb by simp
  show ?thesis
  proof (cases "arena_used x < ARENA_CAP")
    case full: False
    then have "r = None" "y = x\<lparr>cc := c, host_mem := h\<rparr>"
      using b a False by (auto simp: build_def arena_alloc_def m_def h_def Let_def)
    moreover have "links_ok (x\<lparr>cc := c, host_mem := h\<rparr>)"
      by (rule links_ok_more_cache [OF ok cb used _ keep]) (use bl(3) cb in simp_all)
    ultimately show ?thesis by simp
  next
    case True
    define c2 where "c2 = cc_shrink_last buf (length (em_code m)) c"
    define x2 where "x2 = x\<lparr>cc := c2, host_mem := h\<rparr>"
    define tr where "tr = fill_trace e buf m (pool x (arena_used x))"
    have len: "length (em_code m) \<le> 16 * 4096" using eo by (simp add: emitted_ok_def)
    note sh = cc_shrink_block [OF a len, folded c2_def]
    have c2b: "cc_base c2 = cc_base (cc x)" "cc_cap c2 = cc_cap (cc x)" by (subst sh(3), simp)+
    have y: "r = Some (arena_used x)" "y = x2\<lparr>arena_used := arena_used x2 + 1, pool := (pool x2)(arena_used x2 := tr)\<rparr>"
      using b a False True
      by (auto simp: build_def arena_alloc_def m_def h_def Let_def x2_def c2_def tr_def upd_trace_def)
    have ok2: "links_ok x2"
      unfolding x2_def by (rule links_ok_more_cache [OF ok c2b sh(4) _ keep]) (use sh(2) bl(3) c2b cb in simp_all)
    have slots: "buf \<le> jmp_rel32 lk \<and> jmp_rel32 lk + 4 \<le> buf + length (em_code m)
        \<and> ld 4 h (jmp_rel32 lk) = 0 \<and> \<not> linked lk" if "lk \<in> set (links tr)" for lk
      using kept_links_ok(2) [OF eo, of lk "host_mem x"] that by (simp add: tr_def fill_trace_simps h_def)
    have "in_cache (jmp_rel32 lk) x2 \<and> slot_ok x2 tr lk" if "lk \<in> set (links tr)" for lk
      using slots [OF that] sh(1) bl(1) c2b by (simp add: in_cache_def slot_ok_def x2_def)
    then have "trace_ok x2 tr"
      using kept_links_ok(1) [OF eo] bl(1-3) c2b cb by (simp add: trace_ok_def tr_def fill_trace_simps x2_def)
    moreover have "apart (jmp_rel32 lk) (jmp_rel32 lk')"
      if "i < arena_used x2" "lk \<in> set (links (pool x2 i))" "lk' \<in> set (links tr)" for i lk lk'
    proof -
      have "in_cache (jmp_rel32 lk) x" using links_okD(1) [OF ok, of i] that by (simp add: trace_ok_def x2_def)
      then show ?thesis using slots [OF that(3)] bl(1) by (simp add: in_cache_def apart_def)
    qed
    ultimately have "links_ok y" unfolding y(2) using slots by (intro links_ok_add_trace [OF ok2]) blast+
    then show ?thesis using y by (simp add: x2_def tr_def fill_trace_simps)
  qed
qed

text \<open>The recorded sites are among the emitted ones.\<close>

lemma fill_trace_sites:
  "s \<in> set (mem_sites (fill_trace e buf em t)) \<Longrightarrow> \<exists>off pc len. (off, pc, len) \<in> set (em_sites em)
     \<and> s = \<lparr>host_offset = off, site_eip = pc, patch_len = len\<rparr>"
proof -
  have "s \<in> set (mem_sites (fold (\<lambda>(off, geip, plen). add_mem_site off geip plen) ss u)) \<Longrightarrow> s \<in> set (mem_sites u)
      \<or> (\<exists>off pc len. (off, pc, len) \<in> set ss \<and> s = \<lparr>host_offset = off, site_eip = pc, patch_len = len\<rparr>)" for ss u
  proof (induction ss arbitrary: u)
    case (Cons p ss)
    obtain off pc len where p: "p = (off, pc, len)" by (cases p)
    from Cons.IH [of "add_mem_site off pc len u"] Cons.prems show ?case
      by (auto simp: p add_mem_site_def split: if_splits)
  qed simp
  then show "s \<in> set (mem_sites (fill_trace e buf em t)) \<Longrightarrow> \<exists>off pc len. (off, pc, len) \<in> set (em_sites em)
     \<and> s = \<lparr>host_offset = off, site_eip = pc, patch_len = len\<rparr>"
    by (fastforce simp: fill_trace_def Let_def)
qed

lemma sites_ok_add_trace:
  assumes ok: "sites_ok x" and n: "n = arena_used x"
    and c: "cc_base c = cc_base (cc x)" "cc_cap c = cc_cap (cc x)" "thunk_base c = thunk_base (cc x)"
      "cc_used (cc x) \<le> cc_used c"
    and old: "\<And>i s. i < n \<Longrightarrow> s \<in> set (mem_sites (pool x i)) \<Longrightarrow> patch_len s \<noteq> 0 \<Longrightarrow> site_ok x (pool x i) s \<Longrightarrow>
      \<forall>p \<in> set (map jmp_rel32 (links tr)). off_slot (region_start (pool x i) s) (unat (patch_len s)) p"
    and new: "\<And>s. s \<in> set (mem_sites tr) \<Longrightarrow> patch_len s \<noteq> 0 \<Longrightarrow> 5 \<le> unat (patch_len s)
        \<and> region_start tr s + unat (patch_len s) \<le> cc_base c + cc_used c
        \<and> (\<forall>i < n. \<forall>p \<in> set (map jmp_rel32 (links (pool x i))). off_slot (region_start tr s) (unat (patch_len s)) p)
        \<and> (\<forall>p \<in> set (map jmp_rel32 (links tr)). off_slot (region_start tr s) (unat (patch_len s)) p)"
    and y: "cc y = c" "arena_used y = n + 1" "pool y = (pool x)(n := tr)"
  shows "sites_ok y"
proof -
  have "site_ok y (pool y i) s" if i: "i < n + 1" "s \<in> set (mem_sites (pool y i))" "patch_len s \<noteq> 0" for i s
  proof (cases "i = n")
    case True
    have "off_slot (region_start tr s) (unat (patch_len s)) p"
      if "j < n + 1" "p \<in> set (map jmp_rel32 (links (pool y j)))" for j p
      using new [of s] i that True by (cases "j = n") (auto simp: y less_Suc_eq)
    then show ?thesis using new [of s] i True by (simp add: site_ok_def y)
  next
    case False
    then have u: "i < n" "s \<in> set (mem_sites (pool x i))" using i by (simp_all add: y)
    then have so: "site_ok x (pool x i) s" using ok i(3) by (simp add: sites_ok_def n)
    have "off_slot (region_start (pool x i) s) (unat (patch_len s)) p"
      if "j < n + 1" "p \<in> set (map jmp_rel32 (links (pool y j)))" for j p
      using old [OF u i(3) so] so that unfolding site_ok_def n [symmetric]
      by (cases "j = n") (auto simp: y less_Suc_eq)
    moreover have "5 \<le> unat (patch_len s)" "region_start (pool x i) s + unat (patch_len s) \<le> cc_base c + cc_used c"
      using so c by (simp_all add: site_ok_def)
    ultimately show ?thesis using False by (simp add: site_ok_def y)
  qed
  then show ?thesis using ok c y by (simp add: sites_ok_def)
qed

lemma site_ok_more:
  assumes "site_ok x tr s" and "cc_base c = cc_base (cc x)" and "cc_used (cc x) \<le> cc_used c"
  shows "site_ok (x\<lparr>cc := c, host_mem := h\<rparr>) tr s"
  using assms by (simp add: site_ok_def)

lemma build_sites_ok:
  assumes ok: "links_ok x" "sites_ok x" and em: "\<And>buf. emitted_ok buf (emit buf)" and b: "build emit e n x = (r, y)"
  shows "sites_ok y"
proof (cases "n = 0 \<or> fst (cc_alloc MAX_TRACE_BYTES (cc x)) = None")
  case True
  then have "y = x" using b
    by (cases "cc_alloc MAX_TRACE_BYTES (cc x)"; cases "n = 0") (auto simp: build_def)
  then show ?thesis using ok by simp
next
  case False
  then obtain buf c where a: "cc_alloc MAX_TRACE_BYTES (cc x) = (Some buf, c)"
    by (cases "cc_alloc MAX_TRACE_BYTES (cc x)") auto
  define m where "m = emit buf"
  note eo = em [of buf, folded m_def]
  note bl = cc_alloc_block [OF a]
  have cb: "cc_base c = cc_base (cc x)" "cc_cap c = cc_cap (cc x)" "thunk_base c = thunk_base (cc x)"
    by (subst bl(5), simp)+
  show ?thesis
  proof (cases "arena_used x < ARENA_CAP")
    case full: False
    then have "y = x\<lparr>cc := c, host_mem := put_list (em_code m) (host_mem x) buf\<rparr>"
      using b a False by (auto simp: build_def arena_alloc_def m_def Let_def)
    moreover have "cc_used (cc x) \<le> cc_used c" using bl(1,2) cb by simp
    ultimately show ?thesis using ok(2) cb site_ok_more [of x _ _ c] by (auto simp: sites_ok_def)
  next
    case True
    define c2 where "c2 = cc_shrink_last buf (length (em_code m)) c"
    define tr where "tr = fill_trace e buf m (pool x (arena_used x))"
    have len: "length (em_code m) \<le> 16 * 4096" using eo by (simp add: emitted_ok_def)
    note sh = cc_shrink_block [OF a len, folded c2_def]
    have c2b: "cc_base c2 = cc_base (cc x)" "cc_cap c2 = cc_cap (cc x)" "thunk_base c2 = thunk_base (cc x)"
      by (subst sh(3), simp)+
    have y: "cc y = c2" "arena_used y = arena_used x + 1" "pool y = (pool x)(arena_used x := tr)"
      using b a False True
      by (auto simp: build_def arena_alloc_def m_def Let_def c2_def tr_def upd_trace_def)
    have slots: "\<exists>q \<in> set (em_links m). p = fst q" "buf \<le> p" if "p \<in> set (map jmp_rel32 (links tr))" for p
    proof -
      have "map jmp_rel32 (links tr) = map fst (kept_links m)"
        by (simp add: tr_def fill_trace_simps fresh_slot_def o_def)
      then have "p \<in> fst ` set (kept_links m)" using that by (simp only: set_map)
      then have "p \<in> fst ` set (em_links m)"
        unfolding kept_links_def by (rule subsetD [OF image_mono [OF set_drop_subset]])
      then obtain q where q: "q \<in> set (em_links m)" "p = fst q" by blast
      then show "\<exists>q \<in> set (em_links m). p = fst q" "buf \<le> p" using eo by (auto simp: emitted_ok_def)
    qed
    show ?thesis
    proof (rule sites_ok_add_trace [OF ok(2) refl c2b sh(4) _ _ y])
      fix i s
      assume "site_ok x (pool x i) s"
      then have "region_start (pool x i) s + unat (patch_len s) \<le> buf" using bl(1) by (simp add: site_ok_def)
      then show "\<forall>p \<in> set (map jmp_rel32 (links tr)). off_slot (region_start (pool x i) s) (unat (patch_len s)) p"
        using slots(2) unfolding off_slot_def by (meson le_trans)
    next
      fix s
      assume s: "s \<in> set (mem_sites tr)" and pl: "patch_len s \<noteq> 0"
      obtain off pc where em: "(off, pc, patch_len s) \<in> set (em_sites m)" "host_offset s = off"
        using fill_trace_sites [of s e buf m] s by (fastforce simp: tr_def)
      have st: "region_start tr s = buf + unat off" by (simp add: region_start_def tr_def fill_trace_simps em(2))
      have eo3: "5 \<le> unat (patch_len s)" "unat off + unat (patch_len s) \<le> length (em_code m)"
        "\<forall>q \<in> set (em_links m). off_slot (buf + unat off) (unat (patch_len s)) (fst q)"
        using eo em(1) pl by (fastforce simp: emitted_ok_def)+
      have "off_slot (buf + unat off) (unat (patch_len s)) p"
        if i: "i < arena_used x" "p \<in> set (map jmp_rel32 (links (pool x i)))" for i p
      proof -
        have "in_cache p x" using links_okD(1) [OF ok(1) i(1)] i(2) by (auto simp: trace_ok_def)
        then show ?thesis using bl(1) by (simp add: in_cache_def off_slot_def)
      qed
      moreover have "off_slot (buf + unat off) (unat (patch_len s)) p" if "p \<in> set (map jmp_rel32 (links tr))" for p
        using slots(1) [OF that] eo3(3) by blast
      moreover have "buf + unat off + unat (patch_len s) \<le> cc_base c2 + cc_used c2" using sh(1) eo3(2) by simp
      ultimately show "5 \<le> unat (patch_len s)
        \<and> region_start tr s + unat (patch_len s) \<le> cc_base c2 + cc_used c2
        \<and> (\<forall>i < arena_used x. \<forall>p \<in> set (map jmp_rel32 (links (pool x i))).
             off_slot (region_start tr s) (unat (patch_len s)) p)
        \<and> (\<forall>p \<in> set (map jmp_rel32 (links tr)). off_slot (region_start tr s) (unat (patch_len s)) p)"
        unfolding st using eo3(1) by blast
    qed
  qed
qed

lemma cache_trace_ok:
  assumes ok: "links_ok x" and t: "t < arena_used x"
  shows "links_ok (cache_trace t x)"
proof -
  have "cache_ok (cache_trace t x)"
    unfolding cache_ok_def
  proof (intro allI impI)
    fix i s j u
    assume a: "i < L1_SIZE" "page_map (cache_trace t x) i = Some s" "j < L2_SIZE" "s j = Some u"
    have "u = t \<or> (\<exists>s'. page_map x i = Some s' \<and> s' j = Some u)"
      using a by (auto simp: cache_trace_def tcache_insert_def Let_def split: if_splits option.splits)
    then show "u < arena_used (cache_trace t x)"
      using cache_okD [of x i _ j u] a ok t by (auto simp: links_ok_def cache_trace_def)
  qed
  then show ?thesis using ok by (simp add: links_ok_def trace_ok_def in_cache_def slot_ok_def cache_trace_def)
qed

lemma flush_code_ok:
  assumes "links_ok x"
  shows "links_ok (flush_code x)"
proof -
  have "cache_ok (flush_code x)"
    by (auto simp: cache_ok_def flush_code_def clear_traces_def tcache_clear_eq)
  moreover have "cc (flush_code x) = cc_reset (cc x)" "arena_used (flush_code x) = 0"
    by (simp_all add: flush_code_def clear_traces_def split: prod.splits)
  ultimately show ?thesis using assms by (simp add: links_ok_def cc_reset_def)
qed

section \<open>Reachable bookkeeping\<close>

text \<open>What the run loop, the fault handler and the loaders do to the traces, in any order; running guest
  code changes the machine.  The handler is called with every kind of exception and, where there is a code
  cache and a guest memory, at every host address; in a patchable region, an access and the padding behind it
  or, later, the call, only the access can fault, which is at its start.\<close>

definition at_site_start :: "host_ctx \<Rightarrow> executor \<Rightarrow> bool" where
  "at_site_start h x \<longleftrightarrow>
     (\<forall>t s. trace_at (h_rip h) x = Some t \<and> find_site (rip_offset (h_rip h) (pool x t)) (mem_sites (pool x t)) = Some s
        \<and> patch_len s \<noteq> 0 \<longrightarrow> h_rip h = region_start (pool x t) s)"

inductive code_reach :: "executor \<Rightarrow> bool" where
  start: "code_reach ((executor_start m mem)\<lparr>host_mem := h\<rparr>)"
| built: "code_reach x \<Longrightarrow> (\<And>buf. emitted_ok buf (emit buf)) \<Longrightarrow> build emit e n x = (Some t, y)
    \<Longrightarrow> code_reach (cache_trace t y)"
| build_failed: "code_reach x \<Longrightarrow> (\<And>buf. emitted_ok buf (emit buf)) \<Longrightarrow> build emit e n x = (None, y)
    \<Longrightarrow> code_reach (flush_code y)"
| protected: "code_reach x \<Longrightarrow> protect_code_page pa x = Some y \<Longrightarrow> code_reach y"
| linking: "code_reach x \<Longrightarrow> t < arena_used x \<Longrightarrow> code_reach (try_link_trace t x)"
| written: "code_reach x \<Longrightarrow> invalidate_code_page pa x = Some y \<Longrightarrow> code_reach y"
| loaded: "code_reach x \<Longrightarrow> load_guest pa src x = Some y \<Longrightarrow> code_reach y"
| faulted: "code_reach x \<Longrightarrow> at_site_start h x \<Longrightarrow> fastmem_veh_handler v exn (h, x) = Some (r, h', y)
    \<Longrightarrow> code_reach y"
| ran: "code_reach x \<Longrightarrow> code_reach (x\<lparr>mach := m\<rparr>)"

lemma links_ok_bitmap [simp]:
  "links_ok (x\<lparr>code_bitmap := b\<rparr>) = links_ok x" "links_ok (x\<lparr>writable := w\<rparr>) = links_ok x"
  "links_ok (x\<lparr>mach := m\<rparr>) = links_ok x"
  by (rule links_ok_cong; simp)+

lemma protect_ok:
  assumes "links_ok x" and "protect_code_page pa x = Some y"
  shows "links_ok y"
proof -
  have "links_ok z" if "set_code_page p x = Some z" for p z
    using that assms(1) by (auto simp: set_code_page_def Let_def)
  then show ?thesis
    using assms unfolding protect_code_page_def Let_def by (auto simp: Option.bind_eq_Some_conv split: if_splits)
qed

lemma release_pages_ok: "links_ok x \<Longrightarrow> release_pages k p x = Some y \<Longrightarrow> links_ok y"
proof (induction k arbitrary: p x)
  case (Suc k)
  obtain z where z: "release_page p x = Some z" "release_pages k (p + GUEST_PAGE_SIZE) z = Some y"
    using Suc.prems(2) by (auto simp: Option.bind_eq_Some_conv)
  then have "invalidate_code_page p x = Some z \<or> z = x"
    unfolding release_page_def by (auto simp: Option.bind_eq_Some_conv split: if_splits)
  then have "links_ok z" using Suc.prems(1) invalidate_ok(1) by auto
  then show ?case by (rule Suc.IH [OF _ z(2)])
qed simp

lemma load_guest_ok:
  assumes "links_ok x" and "load_guest pa src x = Some y"
  shows "links_ok y"
proof -
  obtain k p z m where "release_pages k p x = Some z" "y = z\<lparr>mach := m\<rparr>"
    using assms(2) unfolding load_guest_def Let_def by (auto simp: Option.bind_eq_Some_conv split: if_splits)
  then show ?thesis using release_pages_ok [OF assms(1)] by simp
qed

lemma start_ok:
  "links_ok ((executor_start m mem)\<lparr>host_mem := h\<rparr>)" "sites_ok ((executor_start m mem)\<lparr>host_mem := h\<rparr>)"
  by (simp_all add: links_ok_def sites_ok_def cache_ok_def executor_start_def cc_init_def code_cache_new_def Let_def)

section \<open>Faults\<close>

text \<open>Emulating an access changes the machine only.\<close>

definition mach_only :: "executor \<Rightarrow> executor \<Rightarrow> bool" where
  "mach_only x y \<longleftrightarrow> (\<exists>m. y = x\<lparr>mach := m\<rparr>)"

lemma mach_only_refl [simp]: "mach_only x x"
  by (auto simp: mach_only_def intro: exI [of _ "mach x"])

lemma mach_only_ok: "mach_only x y \<Longrightarrow> links_ok y = links_ok x \<and> sites_ok y = sites_ok x"
  using sites_ok_cong [of y x] by (auto simp: mach_only_def)

lemma mach_only_ctx [simp]: "mach_only x (upd_exec_ctx f x)"
  by (auto simp: mach_only_def upd_exec_ctx_def)

lemma emu_read_only: "emu_read pa n x = Some p \<Longrightarrow> mach_only x (snd p)"
  by (auto simp: emu_read_def mach_only_def split: option.splits)

lemma emu_write_only: "emu_write pa v n x = Some y \<Longrightarrow> mach_only x y"
  by (auto simp: emu_write_def mach_only_def split: option.splits)

lemma mach_only_trans: "mach_only x y \<Longrightarrow> mach_only y z \<Longrightarrow> mach_only x z"
  by (auto simp: mach_only_def)

lemma put_result_only: "put_result y pa n v (h, x) = Some (h', x') \<Longrightarrow> mach_only x x'"
  by (auto simp: put_result_def dest: emu_write_only split: if_splits)

lemmas emu_only = emu_read_only emu_write_only put_result_only

lemma emu_routine_only:
  assumes "emu_routine m = Some f" and "f y pa (h, x) = Some (h', x')"
  shows "mach_only x x'"
proof -
  have k: "f \<in> {emu_test, emu_cmp, emu_logical, emu_arith, emu_bt, emu_inc_dec, emu_not, emu_neg, emu_mov, emu_shift}"
    using assms(1) by (auto simp: emu_routine_def split: if_splits)
  note only = Let_def bind_eq_Some_conv split_beta
  show ?thesis
    using k assms(2)
    by (elim insertE emptyE)
      (auto simp: emu_test_def emu_cmp_def emu_logical_def emu_arith_def emu_bt_def emu_inc_dec_def emu_not_def
        emu_neg_def emu_mov_def emu_shift_def only split: if_splits option.splits dest!: emu_only intro: mach_only_trans)
qed

lemma veh_emulate_only: "veh_emulate v s (h, x) = Some (r, h', y) \<Longrightarrow> mach_only x y"
  by (auto simp: veh_emulate_def to_exit_stub_def split: option.splits dest: emu_routine_only)

lemma trace_at_used:
  assumes "trace_at rip x = Some t" and "cache_ok x"
  shows "t < arena_used x"
proof -
  have "t \<in> set (cached_traces x)" using assms(1) by (auto simp: trace_at_def find_Some_iff)
  then obtain i where i1: "i < L1_SIZE"
      and i2: "t \<in> set (case page_map x i of None \<Rightarrow> [] | Some s \<Rightarrow> List.map_filter s [0..<L2_SIZE])"
    unfolding cached_traces_def set_concat set_map set_upt by fastforce
  then obtain s where i: "i < L1_SIZE" "page_map x i = Some s" "t \<in> set (List.map_filter s [0..<L2_SIZE])"
    by (cases "page_map x i") (simp_all del: upt_rec_numeral)
  then obtain j where "j < L2_SIZE" "s j = Some t"
    by (auto simp: map_filter_def simp del: upt_rec_numeral)
  then show ?thesis using cache_okD [OF assms(2) i(1,2)] by blast
qed

lemma find_site_in: "find_site off ss = Some s \<Longrightarrow> s \<in> set ss"
  unfolding find_site_def by (auto simp: find_Some_iff split: option.splits)

text \<open>A patch stays in its region, a new thunk in the slab.\<close>

lemma patch_access_ok:
  assumes ok: "links_ok x" "sites_ok x" and t: "t < arena_used x" and s: "s \<in> set (mem_sites (pool x t))"
    and pl: "patch_len s \<noteq> 0" and rip: "h_rip h = region_start (pool x t) s"
    and p: "patch_access v s (h, x) = (r, h', y)"
  shows "links_ok y \<and> sites_ok y"
proof (cases "y = x")
  case False
  have so: "site_ok x (pool x t) s" using ok(2) t s pl by (simp add: sites_ok_def)
  obtain a target z where a: "access_stub (env_helpers v) a x = Some (target, z)"
      and y: "y = z\<lparr>host_mem := put_list (call_patch (h_rip h) target (unat (patch_len s))) (host_mem z) (h_rip h)\<rparr>"
    using p False by (auto simp: patch_access_def Let_def split: option.splits prod.splits)
  obtain c bs at where z: "z = x\<lparr>cc := c, host_mem := put_list bs (host_mem x) at\<rparr>" and
      c: "cc_base c = cc_base (cc x)" "cc_cap c = cc_cap (cc x)" "cc_used c = cc_used (cc x)"
        "thunk_base c = thunk_base (cc x)" and at: "bs = [] \<or> thunk_base (cc x) \<le> at"
  proof (cases "z = x")
    case True
    then show ?thesis using that [of "[]" 0 "cc x"] by simp
  next
    case False
    then show ?thesis
      using a that by (auto simp: access_stub_def cc_alloc_thunk_def Let_def split: fast_access.splits if_splits)
  qed
  have used: "cc_used (cc x) \<le> cc_cap (cc x)" using ok(1) by (simp add: links_ok_def)
  let ?p = "call_patch (h_rip h) target (unat (patch_len s))"
  have "5 \<le> unat (patch_len s)" using so by (simp add: site_ok_def)
  then have len: "length ?p = unat (patch_len s)" by (simp add: call_patch_def le32_def)
  have y': "y = x\<lparr>cc := c, host_mem := host_mem y\<rparr>" by (simp add: y z)
  have "ld 4 (host_mem y) (jmp_rel32 lk) = ld 4 (host_mem x) (jmp_rel32 lk)"
    if i: "i < arena_used x" "lk \<in> set (links (pool x i))" for i lk
  proof -
    have "off_slot (h_rip h) (unat (patch_len s)) (jmp_rel32 lk)" using so i by (simp add: site_ok_def rip)
    then have "off_slot (h_rip h) (length ?p) (jmp_rel32 lk)" by (simp only: len)
    then have "ld 4 (host_mem y) (jmp_rel32 lk) = ld 4 (host_mem z) (jmp_rel32 lk)"
      by (simp add: y ld_put_list_off)
    moreover have "in_cache (jmp_rel32 lk) x" using links_okD(1) [OF ok(1) i(1)] i(2) by (simp add: trace_ok_def)
    then have "off_slot at (length bs) (jmp_rel32 lk) \<or> bs = []"
      using at used ok(2) by (auto simp: in_cache_def off_slot_def sites_ok_def)
    then have "ld 4 (host_mem z) (jmp_rel32 lk) = ld 4 (host_mem x) (jmp_rel32 lk)"
      by (auto simp: z ld_put_list_off)
    ultimately show ?thesis by simp
  qed
  then have "links_ok y"
    by (subst y') (rule links_ok_slots [OF ok(1) c(1,2)]; simp add: c used)
  moreover have "sites_ok y"
    using ok(2) c site_ok_more [of x _ _ c "host_mem y"] by (subst y') (simp add: sites_ok_def)
  ultimately show ?thesis by simp
qed (use ok in simp)

lemma fault_ok:
  assumes ok: "links_ok x" "sites_ok x" and st: "at_site_start h x"
    and f: "fastmem_veh_handler v exn (h, x) = Some (r, h', y)"
  shows "links_ok y \<and> sites_ok y"
proof (cases exn)
  case Exn_divide
  then have "mach_only x y"
    using f by (auto simp: fastmem_veh_handler_def veh_divide_def to_exit_stub_def split: if_splits option.splits)
  then show ?thesis using mach_only_ok ok by blast
next
  case Exn_illegal
  then have "mach_only x y"
    using f by (auto simp: fastmem_veh_handler_def veh_illegal_def to_exit_stub_def split: if_splits)
  then show ?thesis using mach_only_ok ok by blast
next
  case (Exn_access kind addr)
  then have "veh_access v kind addr (h, x) = Some (r, h', y)" using f by (simp add: fastmem_veh_handler_def)
  then consider "y = x" | pa where "invalidate_code_page pa x = Some y"
    | t s where "trace_at (h_rip h) x = Some t"
        "find_site (rip_offset (h_rip h) (pool x t)) (mem_sites (pool x t)) = Some s"
        "if patch_len s = 0 then veh_emulate v s (h, x) = Some (r, h', y) else patch_access v s (h, x) = (r, h', y)"
    by (auto simp: veh_access_def Let_def bind_eq_Some_conv split: if_splits option.splits)
  then show ?thesis
  proof cases
    case 1
    then show ?thesis using ok by simp
  next
    case 2
    then show ?thesis using invalidate_ok [OF ok(1) 2] sites_ok_dropped ok(2) by blast
  next
    case 3
    show ?thesis
    proof (cases "patch_len s = 0")
      case True
      then show ?thesis using 3(3) veh_emulate_only mach_only_ok ok by fastforce
    next
      case False
      have "t < arena_used x" using trace_at_used [OF 3(1)] ok(1) by (simp add: links_ok_def)
      moreover have "h_rip h = region_start (pool x t) s" using st 3(1,2) False by (simp add: at_site_start_def)
      ultimately show ?thesis
        using patch_access_ok [OF ok _ find_site_in [OF 3(2)] False] 3(3) False by simp
    qed
  qed
next
  case Exn_other
  then show ?thesis using f ok by (simp add: fastmem_veh_handler_def)
qed

section \<open>Every reachable state\<close>

lemma release_pages_sites: "links_ok x \<Longrightarrow> sites_ok x \<Longrightarrow> release_pages k p x = Some y \<Longrightarrow> sites_ok y"
proof (induction k arbitrary: p x)
  case (Suc k)
  obtain z where z: "release_page p x = Some z" "release_pages k (p + GUEST_PAGE_SIZE) z = Some y"
    using Suc.prems(3) by (auto simp: Option.bind_eq_Some_conv)
  then have "invalidate_code_page p x = Some z \<or> z = x"
    unfolding release_page_def by (auto simp: Option.bind_eq_Some_conv split: if_splits)
  then have "links_ok z \<and> sites_ok z" using Suc.prems(1,2) invalidate_ok sites_ok_dropped by blast
  then show ?case using Suc.IH z(2) by blast
qed simp

lemma reach_ok: "code_reach x \<Longrightarrow> links_ok x \<and> sites_ok x"
proof (induction rule: code_reach.induct)
  case (start m mem h)
  show ?case using start_ok by simp
next
  case (built x emit e n t y)
  then have "links_ok y" "sites_ok y" "t < arena_used y"
    using build_ok [OF _ built.hyps(2,3)] build_sites_ok [OF _ _ built.hyps(2,3)] by blast+
  moreover have "sites_ok (cache_trace t y) = sites_ok y" by (rule sites_ok_cong) (simp_all add: cache_trace_def)
  ultimately show ?case using cache_trace_ok by simp
next
  case (build_failed x emit e n y)
  then have "links_ok y" "sites_ok y"
    using build_ok [OF _ build_failed.hyps(2,3)] build_sites_ok [OF _ _ build_failed.hyps(2,3)] by blast+
  moreover from this have "sites_ok (flush_code y)"
    by (simp add: sites_ok_def flush_code_def clear_traces_def cc_reset_def split: prod.splits)
  ultimately show ?case using flush_code_ok by simp
next
  case (protected x pa y)
  have "sites_ok z" if "set_code_page p x = Some z" for p z
    using that protected.IH sites_ok_cong [of z x] by (auto simp: set_code_page_def Let_def)
  then have "sites_ok y"
    using protected.IH protected.hyps(2) sites_ok_cong unfolding protect_code_page_def Let_def
    by (auto simp: Option.bind_eq_Some_conv sites_ok_def site_ok_def split: if_splits)
  then show ?case using protected protect_ok by blast
next
  case (linking x t)
  then show ?case using try_link_ok sites_ok_dropped dropped_heads by blast
next
  case (written x pa y)
  then show ?case using invalidate_ok sites_ok_dropped by blast
next
  case (loaded x pa src y)
  obtain k p z m where "release_pages k p x = Some z" "y = z\<lparr>mach := m\<rparr>"
    using loaded.hyps(2) unfolding load_guest_def Let_def by (auto simp: Option.bind_eq_Some_conv split: if_splits)
  then show ?case
    using loaded load_guest_ok release_pages_sites sites_ok_cong [of y z] by (metis mach_only_def mach_only_ok)
next
  case (faulted x h v exn r h' y)
  then show ?case using fault_ok by blast
next
  case (ran x m)
  then show ?case using mach_only_ok [of x "x\<lparr>mach := m\<rparr>"] by (auto simp: mach_only_def)
qed

lemmas reach_links_ok = reach_ok [THEN conjunct1]

text \<open>C1: However traces are built, linked, invalidated and flushed, and whatever the fault handler does to
  their code, an exit of a valid trace either falls through to its own exit stub, back to the run loop, or is a
  jump whose displacement in host memory leads exactly to the code of a valid trace for the address it leaves to,
  which is further up: chains of linked traces are finite and always come back to the run loop.\<close>
theorem linked_exits_are_live:
  assumes "code_reach x" and "i < arena_used x" and "valid (pool x i)" and "lk \<in> set (links (pool x i))"
  shows "if linked lk
    then \<exists>j < arena_used x. valid (pool x j) \<and> guest_eip (pool x j) = target_eip lk
      \<and> guest_eip (pool x i) < guest_eip (pool x j)
      \<and> jump_target (host_mem x) (jmp_rel32 lk) = int (host_code (pool x j))
    else jump_target (host_mem x) (jmp_rel32 lk) = int (jmp_rel32 lk + 4)"
proof -
  have "slot_ok x (pool x i) lk"
    using links_okD(1) [OF reach_links_ok [OF assms(1)] assms(2)] assms(4) by (simp add: trace_ok_def)
  then have s: "if linked lk then guest_eip (pool x i) < target_eip lk
      \<and> (\<exists>j < arena_used x. valid (pool x j) \<and> guest_eip (pool x j) = target_eip lk
            \<and> jump_target (host_mem x) (jmp_rel32 lk) = int (host_code (pool x j)))
      else ld 4 (host_mem x) (jmp_rel32 lk) = 0"
    using assms(3) by (simp only: slot_ok_def simp_thms)
  show ?thesis
  proof (cases "linked lk")
    case True
    then show ?thesis using s by auto
  next
    case False
    then show ?thesis using s by (simp add: jump_target_def)
  qed
qed

lemma drop_bit_page: "drop_bit 12 (e AND GUEST_PAGE_MASK) = drop_bit 12 (e :: u32)"
proof (rule bit_eqI32)
  fix n :: nat
  show "bit (drop_bit 12 (e AND GUEST_PAGE_MASK)) n = bit (drop_bit 12 e) n"
    using bit_imp_le_length [of e "12 + n"] by (auto simp: page_masks bit_drop_bit_eq bit_push_bit_iff)
qed

lemma not_FFF: "(NOT 0xFFF :: u32) = GUEST_PAGE_MASK"
  by code_simp

text \<open>Writing to a protected code page drops exactly the cached traces whose own (virtual) address lies in the
  physical page written.\<close>

lemma written_page_drops:
  assumes "code_reach x" and "is_code_page (pa AND GUEST_PAGE_MASK) x = Some True"
    and "invalidate_code_page pa x = Some y" and "tcache_lookup (pool x) e (page_map x) = Some t"
  shows "tcache_lookup (pool y) e (page_map y) = Some t
    \<and> (valid (pool y t) \<longleftrightarrow> valid (pool x t) \<and> e AND GUEST_PAGE_MASK \<noteq> pa AND GUEST_PAGE_MASK)"
proof -
  note ok = reach_links_ok [OF assms(1)]
  define page where "page = pa AND GUEST_PAGE_MASK"
  define T where "T = (case page_map x (l1_index page) of None \<Rightarrow> {} | Some s \<Rightarrow> doomed page s L2_SIZE x)"
  have d: "dropped T x y" using invalidate_ok(2) [OF ok assms(3)] assms(2) unfolding T_def page_def by blast
  have te: "guest_eip (pool x t) = e" and tu: "t < arena_used x"
    using lookup_Some [OF assms(4)] ok by (simp_all add: links_ok_def)
  then have cp: "code_pa (pool x t) = e" using links_okD(1) [OF ok tu] by (simp add: trace_ok_def)
  have "t \<in> T \<longleftrightarrow> e AND GUEST_PAGE_MASK = page"
  proof
    assume "t \<in> T"
    then show "e AND GUEST_PAGE_MASK = page" using cp unfolding T_def doomed_def not_FFF by (auto split: option.splits)
  next
    assume e: "e AND GUEST_PAGE_MASK = page"
    then have "drop_bit 12 page = drop_bit 12 e" by (metis drop_bit_page)
    then have "l1_index page = l1_index e" by (simp add: l1_index_def)
    moreover obtain s where s: "page_map x (l1_index e) = Some s" "s (l2_index e) = Some t"
      using assms(4) by (auto simp: tcache_lookup_def split: option.splits if_splits)
    ultimately have "T = doomed page s L2_SIZE x" by (simp add: T_def)
    moreover have "t \<in> doomed page s L2_SIZE x"
      unfolding doomed_def not_FFF using s(2) e by (intro CollectI exI [of _ "l2_index e"]) (simp add: cp)
    ultimately show "t \<in> T" by simp
  qed
  moreover have "tcache_lookup (pool y) e (page_map y) = Some t"
    using assms(4) dropped_lookup [OF d] by simp
  ultimately show ?thesis using d by (simp add: dropped_def page_def)
qed

text \<open>C23: A write to a protected code page drops every cached trace of code that lies on the page, and no
  other: a trace at an address that translates into the same page (paging off, or a page mapped to itself)
  is valid afterwards exactly when it was valid and the physical page of its code is not the one written.  It
  stays in the cache either way.\<close>

theorem written_page_traces:
  assumes "code_reach x" and "is_code_page (pa AND GUEST_PAGE_MASK) x = Some True"
    and "invalidate_code_page pa x = Some y" and "tcache_lookup (pool x) e (page_map x) = Some t"
    and "exec_translate e False (mach x) = Some (Some p, m)" and "p AND GUEST_PAGE_MASK = e AND GUEST_PAGE_MASK"
  shows "tcache_lookup (pool y) e (page_map y) = Some t
    \<and> (valid (pool y t) \<longleftrightarrow> valid (pool x t) \<and> p AND GUEST_PAGE_MASK \<noteq> pa AND GUEST_PAGE_MASK)"
  using written_page_drops [OF assms(1-4)] assms(6) by simp

section \<open>Examples\<close>

text \<open>A trace that is a single jump to \<open>tgt\<close>, and the executor that has built it.\<close>

definition jmp_code :: "u32 \<Rightarrow> nat \<Rightarrow> emitted" where
  "jmp_code tgt buf = \<lparr>em_code = 0xE9 # replicate 4 0, em_links = [(buf + 1, tgt)], em_sites = []\<rparr>"

definition built_at :: "u32 \<Rightarrow> u32 \<Rightarrow> executor" where
  "built_at e tgt = (case build (jmp_code tgt) e 1 (executor_start (executor_init False) 0x10000000) of
     (_, y) \<Rightarrow> cache_trace 0 y)"

lemma jmp_code_ok: "emitted_ok buf (jmp_code tgt buf)"
  by (simp add: emitted_ok_def jmp_code_def)

lemma built_at_facts:
  "arena_used (built_at e tgt) = 1" "valid (pool (built_at e tgt) 0)" "links (pool (built_at e tgt) 0) =
    [\<lparr>jmp_rel32 = 0x10000001, target_eip = tgt, linked = False\<rparr>]" "code_bitmap (built_at e tgt) = (\<lambda>_. 0)"
  "tcache_lookup (pool (built_at e tgt)) e (page_map (built_at e tgt)) = Some 0" "code_reach (built_at e tgt)"
  "\<not> paging_enabled (mach (built_at e tgt))"
proof -
  obtain y where b: "build (jmp_code tgt) e 1 (executor_start (executor_init False) 0x10000000) = (Some 0, y)"
    and y: "arena_used y = 1" "guest_eip (pool y 0) = e" "valid (pool y 0)" "code_bitmap y = (\<lambda>_. 0)"
      "\<not> paging_enabled (mach y)" "links (pool y 0) = [\<lparr>jmp_rel32 = 0x10000001, target_eip = tgt, linked = False\<rparr>]"
    by (simp add: build_def executor_start_def cc_init_def Let_def cc_alloc_def align16_def code_cache_new_def
        arena_alloc_def upd_trace_def fill_trace_simps jmp_code_def kept_links_def fresh_slot_def
        executor_init_def guest_context_init_def paging_enabled_def)
  then have d: "built_at e tgt = cache_trace 0 y" by (simp add: built_at_def)
  then show "arena_used (built_at e tgt) = 1" "valid (pool (built_at e tgt) 0)" "links (pool (built_at e tgt) 0) =
    [\<lparr>jmp_rel32 = 0x10000001, target_eip = tgt, linked = False\<rparr>]" "code_bitmap (built_at e tgt) = (\<lambda>_. 0)"
    "tcache_lookup (pool (built_at e tgt)) e (page_map (built_at e tgt)) = Some 0"
    "\<not> paging_enabled (mach (built_at e tgt))"
    using y by (simp_all add: cache_trace_def tcache_lookup_insert paging_enabled_def)
  have "code_reach ((executor_start (executor_init False) 0x10000000)\<lparr>host_mem := \<lambda>_. 0\<rparr>)"
    by (rule code_reach.start)
  then have "code_reach (executor_start (executor_init False) 0x10000000)" by (simp add: executor_start_def)
  then show "code_reach (built_at e tgt)" unfolding d by (rule code_reach.built [OF _ jmp_code_ok b])
qed

text \<open>A trace that loads EAX and jumps on: the load faults and is patched, a second trace is built at the
  target, and the exit is linked to it.\<close>

definition load_code :: "u32 \<Rightarrow> nat \<Rightarrow> emitted" where
  "load_code tgt buf = \<lparr>em_code = [0x43, 0x8B, 0x04, 0x34, 0x90, 0xE9] @ replicate 4 0, em_links = [(buf + 6, tgt)],
     em_sites = [(0, 0x1000, 5)]\<rparr>"

definition demo_veh :: veh_env where
  "demo_veh = \<lparr>fastmem_base = 0x200000000, env_helpers = \<lparr>read_helpers = replicate 24 165, write_helpers = [],
     write_imm_tails = [], exception_exit = 0\<rparr>, decode64 = (\<lambda>_. None)\<rparr>"

definition demo_fault :: host_ctx where
  "demo_fault = \<lparr>h_regs = (\<lambda>_. 0), h_rip = 0x10000000, h_eflags = 2\<rparr>"

lemma load_code_ok: "emitted_ok buf (load_code tgt buf)"
  by (simp add: emitted_ok_def load_code_def off_slot_def nth_append)

lemma cached_traces_in:
  assumes "tcache_lookup (pool x) e (page_map x) = Some t"
  shows "t \<in> set (cached_traces x)"
proof -
  obtain s where s: "page_map x (l1_index e) = Some s" "s (l2_index e) = Some t"
    using assms by (auto simp: tcache_lookup_def split: option.splits if_splits)
  then have "t \<in> set (List.map_filter s [0..<L2_SIZE])" using l2_index_less [of e]
    by (force simp: map_filter_def image_iff simp del: upt_rec_numeral)
  moreover have "List.map_filter s [0..<L2_SIZE] \<in> (\<lambda>p. case page_map x p of None \<Rightarrow> [] | Some slots \<Rightarrow>
      List.map_filter slots [0..<L2_SIZE]) ` set [0..<L1_SIZE]"
    using l1_index_less [of e] unfolding set_upt by (intro image_eqI [of _ _ "l1_index e"]) (simp_all add: s(1))
  ultimately show ?thesis unfolding cached_traces_def set_concat set_map by blast
qed

definition load_built :: executor where
  "load_built = cache_trace 0 (snd (build (load_code 0x2000) 0x1000 1 (executor_start (executor_init False) 0x10000000)))"

lemma load_built_facts:
  "code_reach load_built" "arena_used load_built = 1" "cache_ok load_built"
  "pool load_built 0 = \<lparr>guest_eip = 0x1000, code_pa = 0x1000, host_code = 0x10000000, host_size = 10, valid = True,
     links = [\<lparr>jmp_rel32 = 0x10000006, target_eip = 0x2000, linked = False\<rparr>],
     mem_sites = [\<lparr>host_offset = 0, site_eip = 0x1000, patch_len = 5\<rparr>]\<rparr>"
  "tcache_lookup (pool load_built) 0x1000 (page_map load_built) = Some 0"
  "cc load_built = (snd (cc_init 0x10000000 CODE_CACHE_BYTES HELPER_PAGE_BYTES THUNK_SLAB_BYTES code_cache_new))\<lparr>cc_used := 16\<rparr>"
  "host_mem load_built = put_list (em_code (load_code 0x2000 0x10000000)) (\<lambda>_. 0) 0x10000000"
proof -
  obtain y where b: "build (load_code 0x2000) 0x1000 1 (executor_start (executor_init False) 0x10000000) = (Some 0, y)"
    and y: "arena_used y = 1" "pool y 0 = \<lparr>guest_eip = 0x1000, code_pa = 0x1000, host_code = 0x10000000, host_size = 10,
       valid = True, links = [\<lparr>jmp_rel32 = 0x10000006, target_eip = 0x2000, linked = False\<rparr>],
       mem_sites = [\<lparr>host_offset = 0, site_eip = 0x1000, patch_len = 5\<rparr>]\<rparr>"
      "cc y = (snd (cc_init 0x10000000 CODE_CACHE_BYTES HELPER_PAGE_BYTES THUNK_SLAB_BYTES code_cache_new))\<lparr>cc_used := 16\<rparr>"
      "host_mem y = put_list (em_code (load_code 0x2000 0x10000000)) (\<lambda>_. 0) 0x10000000"
    by (simp add: build_def executor_start_def cc_init_def Let_def cc_alloc_def align16_def code_cache_new_def
        arena_alloc_def upd_trace_def fill_trace_def load_code_def add_link_def add_mem_site_def cc_shrink_last_def)
  have d: "load_built = cache_trace 0 y" by (simp only: load_built_def b snd_conv)
  have "code_reach ((executor_start (executor_init False) 0x10000000)\<lparr>host_mem := \<lambda>_. 0\<rparr>)"
    by (rule code_reach.start)
  then have "code_reach (executor_start (executor_init False) 0x10000000)" by (simp add: executor_start_def)
  then show r: "code_reach load_built" unfolding d by (rule code_reach.built [OF _ load_code_ok b])
  from reach_links_ok [OF r] show "cache_ok load_built" by (simp add: links_ok_def)
  show "arena_used load_built = 1"
    "pool load_built 0 = \<lparr>guest_eip = 0x1000, code_pa = 0x1000, host_code = 0x10000000, host_size = 10, valid = True,
     links = [\<lparr>jmp_rel32 = 0x10000006, target_eip = 0x2000, linked = False\<rparr>],
     mem_sites = [\<lparr>host_offset = 0, site_eip = 0x1000, patch_len = 5\<rparr>]\<rparr>"
    "tcache_lookup (pool load_built) 0x1000 (page_map load_built) = Some 0"
    "cc load_built = (snd (cc_init 0x10000000 CODE_CACHE_BYTES HELPER_PAGE_BYTES THUNK_SLAB_BYTES code_cache_new))\<lparr>cc_used := 16\<rparr>"
    "host_mem load_built = put_list (em_code (load_code 0x2000 0x10000000)) (\<lambda>_. 0) 0x10000000"
    unfolding d using y by (simp_all add: cache_trace_def tcache_lookup_insert)
qed

lemma load_built_fault: "trace_at 0x10000000 load_built = Some 0"
proof -
  have c: "covers 0x10000000 (pool load_built 0)" by (simp add: covers_def load_built_facts(4))
  have "find (\<lambda>t. covers 0x10000000 (pool load_built t)) (cached_traces load_built) \<noteq> None"
    using c cached_traces_in [OF load_built_facts(5)] by (auto simp: find_None_iff)
  then obtain t where t: "trace_at 0x10000000 load_built = Some t" by (auto simp: trace_at_def)
  from trace_at_used [OF this load_built_facts(3)] show ?thesis using t by (simp add: load_built_facts(2))
qed

lemma load_patched:
  obtains y where "fastmem_veh_handler demo_veh (Exn_access 0 0x2FD000000) (demo_fault, load_built) =
      Some (Continue_execution, demo_fault, load_built\<lparr>host_mem := host_mem y\<rparr>)"
    and "y = load_built\<lparr>host_mem := host_mem y\<rparr>" and "code_reach y" and "host_mem y 0x10000000 = 0xE8"
proof -
  let ?s = "\<lparr>host_offset = 0, site_eip = 0x1000, patch_len = 5\<rparr> :: mem_site"
  define y where "y = load_built\<lparr>host_mem := put_list (call_patch 0x10000000 (helper_page (cc load_built) + 165) 5)
      (host_mem load_built) 0x10000000\<rparr>"
  have dec: "decode_fastmem (host_mem load_built) 0x10000000 = Some (Fast_load 0 4)"
    by (simp add: load_built_facts(7) load_code_def decode_fastmem_def Let_def put_list_apply)
  have site: "find_site (rip_offset 0x10000000 (pool load_built 0)) (mem_sites (pool load_built 0)) = Some ?s"
    by (simp add: load_built_facts(4) rip_offset_def find_site_def)
  have cont: "cc_contains 0x10000000 (cc load_built)"
    by (simp add: load_built_facts(6) cc_contains_def cc_init_def Let_def)
  have "fastmem_veh_handler demo_veh (Exn_access 0 0x2FD000000) (demo_fault, load_built) = Some (Continue_execution, demo_fault, y)"
    using dec site cont load_built_fault
    by (simp add: fastmem_veh_handler_def veh_access_def Let_def demo_veh_def demo_fault_def patch_access_def
        access_stub_def lookup_read_def size_idx_def y_def)
  moreover from this have "code_reach y"
    using site load_built_fault
    by (intro code_reach.faulted [OF load_built_facts(1)])
      (auto simp: at_site_start_def demo_fault_def region_start_def load_built_facts(4))
  moreover have "host_mem y 0x10000000 = 0xE8" by (simp add: y_def call_patch_def put_list_apply)
  ultimately show ?thesis using that [of y] by (simp add: y_def)
qed

lemma linked_demo:
  "\<exists>x lk. code_reach x \<and> arena_used x = 2 \<and> valid (pool x 0) \<and> links (pool x 0) = [lk]
     \<and> linked lk \<and> jmp_rel32 lk = 0x10000006 \<and> target_eip lk = 0x2000
     \<and> guest_eip (pool x 1) = 0x2000 \<and> host_code (pool x 1) = 0x10000010 \<and> host_mem x 0x10000000 = 0xE8
     \<and> guest_eip (pool x 0) = 0x1000"
proof -
  obtain y where y: "y = load_built\<lparr>host_mem := host_mem y\<rparr>" "code_reach y" "host_mem y 0x10000000 = 0xE8"
    by (rule load_patched)
  have yf: "cc y = cc load_built" "arena_used y = 1" "pool y = pool load_built" "page_map y = page_map load_built"
    by (subst y(1), simp add: load_built_facts(2))+
  obtain z where b: "build (jmp_code 0x3000) 0x2000 1 y = (Some 1, z)"
    and z: "arena_used z = 2" "pool z 0 = pool load_built 0" "guest_eip (pool z 1) = 0x2000" "valid (pool z 1)"
      "host_code (pool z 1) = 0x10000010" "host_mem z = put_list (em_code (jmp_code 0x3000 0x10000010)) (host_mem y) 0x10000010"
    by (simp add: build_def Let_def cc_alloc_def align16_def arena_alloc_def upd_trace_def fill_trace_simps yf
        load_built_facts(6) cc_init_def jmp_code_def)
  define w where "w = cache_trace 1 z"
  have wr: "code_reach w" unfolding w_def by (rule code_reach.built [OF y(2) jmp_code_ok b])
  have wf: "arena_used w = 2" "pool w = pool z" "host_mem w = host_mem z"
      "tcache_lookup (pool w) 0x2000 (page_map w) = Some 1"
    using z by (simp_all add: w_def cache_trace_def tcache_lookup_insert)
  define x where "x = try_link_trace 0 w"
  have "code_reach x" unfolding x_def by (rule code_reach.linking [OF wr]) (simp add: wf)
  moreover have "arena_used x = 2" "valid (pool x 0)" "guest_eip (pool x 0) = 0x1000" "guest_eip (pool x 1) = 0x2000" "host_code (pool x 1) = 0x10000010"
      "links (pool x 0) = [\<lparr>jmp_rel32 = 0x10000006, target_eip = 0x2000, linked = True\<rparr>]"
      "host_mem x 0x10000000 = 0xE8"
    using wf z y(3) load_built_facts(4)
    by (simp_all add: x_def try_link_trace_def on_links_def link_one_def upd_trace_def Let_def patch_rel32_def put_list_apply
        st_apply)
  ultimately show ?thesis by (intro exI [of _ x]) simp
qed

theorem linked_exits_are_live_witness:
  "\<exists>x. code_reach x \<and> host_mem x 0x10000000 = 0xE8 \<and> jump_target (host_mem x) 0x10000006 = int (host_code (pool x 1))
     \<and> valid (pool x 1) \<and> guest_eip (pool x 1) = 0x2000"
proof -
  obtain x lk where x: "code_reach x" "arena_used x = 2" "valid (pool x 0)" "links (pool x 0) = [lk]"
      "linked lk" "jmp_rel32 lk = 0x10000006" "target_eip lk = 0x2000" "guest_eip (pool x 1) = 0x2000"
      "host_code (pool x 1) = 0x10000010" "host_mem x 0x10000000 = 0xE8" "guest_eip (pool x 0) = 0x1000"
    using linked_demo by blast
  have "\<exists>j < 2. valid (pool x j) \<and> guest_eip (pool x j) = 0x2000 \<and> jump_target (host_mem x) 0x10000006 = int (host_code (pool x j))"
    using linked_exits_are_live [OF x(1), of 0 lk] x by auto
  then obtain j where j: "j < 2" "valid (pool x j)" "guest_eip (pool x j) = 0x2000"
      "jump_target (host_mem x) 0x10000006 = int (host_code (pool x j))" by blast
  then have "j = 1" using x(11) by (cases "j = 0") auto
  then show ?thesis using x j by auto
qed

text \<open>A trace at 0x10000 without paging, and the page written.\<close>

lemma protect_built:
  "\<exists>x. protect_code_page 0x10000 (built_at e tgt) = Some x \<and> is_code_page 0x10000 x = Some True
     \<and> tcache_lookup (pool x) e (page_map x) = Some 0 \<and> valid (pool x 0) \<and> mach x = mach (built_at e tgt)"
  using built_at_facts [of e tgt]
  by (simp add: protect_code_page_def is_code_page_def set_code_page_def page_no_def Let_def)

lemma written_built:
  obtains x y where "protect_code_page 0x10000 (built_at e tgt) = Some x" and "code_reach x"
    and "is_code_page (0x10000 AND GUEST_PAGE_MASK) x = Some True" and "invalidate_code_page 0x10000 x = Some y"
    and "tcache_lookup (pool x) e (page_map x) = Some 0" and "valid (pool x 0)" and "mach x = mach (built_at e tgt)"
proof -
  obtain x where x: "protect_code_page 0x10000 (built_at e tgt) = Some x" "is_code_page 0x10000 x = Some True"
    "tcache_lookup (pool x) e (page_map x) = Some 0" "valid (pool x 0)" "mach x = mach (built_at e tgt)"
    using protect_built by blast
  have r: "code_reach x" by (rule code_reach.protected [OF built_at_facts(6) x(1)])
  obtain y where y: "invalidate_code_page 0x10000 x = Some y"
    using x(2) by (cases "page_map x (l1_index 0x10000)")
      (simp_all add: invalidate_code_page_def clear_code_page_def page_no_def Let_def)
  show ?thesis using that [OF x(1) r _ y x(3-5)] x(2) by simp
qed

theorem written_page_traces_witness:
  "\<exists>x y. protect_code_page 0x10000 (built_at 0x10000 0x20000) = Some x \<and> valid (pool x 0)
    \<and> invalidate_code_page 0x10000 x = Some y \<and> \<not> valid (pool y 0)"
proof -
  obtain x y where x: "protect_code_page 0x10000 (built_at 0x10000 0x20000) = Some x" "code_reach x"
    "is_code_page (0x10000 AND GUEST_PAGE_MASK) x = Some True" "invalidate_code_page 0x10000 x = Some y"
    "tcache_lookup (pool x) 0x10000 (page_map x) = Some 0" "valid (pool x 0)" "mach x = mach (built_at 0x10000 0x20000)"
    by (rule written_built)
  have "exec_translate 0x10000 False (mach x) = Some (Some 0x10000, mach x)"
    by (simp add: x(7) exec_translate_def built_at_facts(7))
  from written_page_traces [OF x(2-5) this refl] show ?thesis using x by auto
qed

text \<open>The kernel's code translated at 0x80010000 from physical page 0x10000 stays valid when that page is written:
  the trace is recorded, and looked up, by its virtual address.\<close>

lemma aliased_trace_survives:
  "\<exists>x y. protect_code_page 0x10000 (built_at 0x80010000 0x80020000) = Some x
    \<and> invalidate_code_page 0x10000 x = Some y
    \<and> tcache_lookup (pool y) 0x80010000 (page_map y) = Some 0 \<and> valid (pool y 0)"
proof -
  obtain x y where x: "protect_code_page 0x10000 (built_at 0x80010000 0x80020000) = Some x" "code_reach x"
    "is_code_page (0x10000 AND GUEST_PAGE_MASK) x = Some True" "invalidate_code_page 0x10000 x = Some y"
    "tcache_lookup (pool x) 0x80010000 (page_map x) = Some 0" "valid (pool x 0)"
    by (rule written_built)
  from written_page_drops [OF x(2-5)] show ?thesis using x by auto
qed

end
