(* ===== verification/Privileged_Facts.thy ===== *)
theory Privileged_Facts
  imports Privileged Link_Safety
begin

text \<open>What the privileged instructions guarantee: model-specific registers, control registers and the
  caches behind them, and string input that faults half-way.\<close>

section \<open>Model-specific registers\<close>

definition variable_msr :: "u32 \<Rightarrow> bool" where
  "variable_msr n \<longleftrightarrow> MSR_MTRR_PHYSBASE0 \<le> n \<and> n \<le> 0x20F"

definition fix4k_msr :: "u32 \<Rightarrow> bool" where
  "fix4k_msr n \<longleftrightarrow> MSR_MTRR_FIX4K_BASE \<le> n \<and> n \<le> MSR_MTRR_FIX4K_END"

lemma msr_index:
  "variable_msr n \<Longrightarrow> unat (n - MSR_MTRR_PHYSBASE0) div 2 < 8"
  "fix4k_msr n \<Longrightarrow> unat (n - MSR_MTRR_FIX4K_BASE) < 8"
  by (auto simp: variable_msr_def fix4k_msr_def word_le_nat_alt unat_sub)

lemma unat_eq_iff: "unat a = unat b \<longleftrightarrow> a = (b :: u32)"
  by (simp add: word_unat_eq_iff)

lemma fix4k_inj:
  "fix4k_msr a \<Longrightarrow> fix4k_msr b \<Longrightarrow> unat (a - MSR_MTRR_FIX4K_BASE) = unat (b - MSR_MTRR_FIX4K_BASE) \<longleftrightarrow> a = b"
  by (simp add: unat_eq_iff)

lemma nat_pair: "a div 2 = b div 2 \<and> (a mod 2 = b mod 2) \<longleftrightarrow> a = (b :: nat)"
  by (metis div_mult_mod_eq)

lemma odd_msr: "n AND 1 = 0 \<longleftrightarrow> unat n mod 2 = 0" for n :: u32
  using unat_and_mask [of n 1] by (metis mask_Suc_0 mask_1 pow.simps One_nat_def power_one_right unat_eq_0)

lemma variable_inj:
  assumes "variable_msr a" "variable_msr b" "(a AND 1 = 0) = (b AND 1 = 0)"
  shows "unat (a - MSR_MTRR_PHYSBASE0) div 2 = unat (b - MSR_MTRR_PHYSBASE0) div 2 \<longleftrightarrow> a = b"
proof
  assume eq: "unat (a - MSR_MTRR_PHYSBASE0) div 2 = unat (b - MSR_MTRR_PHYSBASE0) div 2"
  have sub: "unat (n - MSR_MTRR_PHYSBASE0) = unat n - 512 \<and> 512 \<le> unat n" if "variable_msr n" for n
    using that by (auto simp: variable_msr_def word_le_nat_alt unat_sub)
  have "(unat a mod 2 = 0) = (unat b mod 2 = 0)"
    using assms(3) by (simp add: odd_msr)
  hence "unat a = unat b"
    using eq sub [OF assms(1)] sub [OF assms(2)] by presburger
  thus "a = b" by (simp add: unat_eq_iff)
qed simp

definition sysenter_msr :: "u32 \<Rightarrow> bool" where
  "sysenter_msr n \<longleftrightarrow> n = MSR_SYSENTER_CS \<or> n = MSR_SYSENTER_ESP \<or> n = MSR_SYSENTER_EIP"

definition stored_msr :: "u32 \<Rightarrow> bool" where
  "stored_msr n \<longleftrightarrow> sysenter_msr n \<or> n = MSR_MTRR_DEF_TYPE \<or> n = MSR_MTRR_FIX64K \<or> n = MSR_MTRR_FIX16K_80000
     \<or> n = MSR_MTRR_FIX16K_A0000 \<or> variable_msr n \<or> fix4k_msr n"

text \<open>What a register keeps of the 64 bits written.\<close>

definition msr_keeps :: "u32 \<Rightarrow> u64 \<Rightarrow> u64" where
  "msr_keeps n v = (if sysenter_msr n then v AND mask 32 else v)"

lemma ucast_ucast_low: "ucast (ucast (v :: u64) :: u32) = v AND mask 32"
  by (rule bit_word_eqI) (auto simp: bit_simps)

lemma not_other_msr:
  "variable_msr n \<Longrightarrow> \<not> fix4k_msr n" "fix4k_msr n \<Longrightarrow> \<not> variable_msr n"
  by (auto simp: variable_msr_def fix4k_msr_def word_le_nat_alt)

lemmas msr_kinds = variable_msr_def [symmetric] fix4k_msr_def [symmetric]

lemma msr_single [simp]:
  "variable_msr 0x174 = False" "variable_msr 0x175 = False" "variable_msr 0x176 = False" "variable_msr 0xFE = False"
  "variable_msr 0x2FF = False" "variable_msr 0x250 = False" "variable_msr 0x258 = False" "variable_msr 0x259 = False"
  "variable_msr 0x10 = False"
  "fix4k_msr 0x174 = False" "fix4k_msr 0x175 = False" "fix4k_msr 0x176 = False" "fix4k_msr 0xFE = False"
  "fix4k_msr 0x2FF = False" "fix4k_msr 0x250 = False" "fix4k_msr 0x258 = False" "fix4k_msr 0x259 = False"
  "fix4k_msr 0x10 = False"
  by (simp_all add: variable_msr_def fix4k_msr_def)

lemma variable_not_single:
  "variable_msr n \<Longrightarrow> n \<noteq> 0x174 \<and> n \<noteq> 0x175 \<and> n \<noteq> 0x176 \<and> n \<noteq> 0xFE \<and> n \<noteq> 0x2FF \<and> n \<noteq> 0x250 \<and> n \<noteq> 0x258
     \<and> n \<noteq> 0x259 \<and> n \<noteq> 0x10"
  by (intro conjI notI; simp)

lemma fix4k_not_single:
  "fix4k_msr n \<Longrightarrow> n \<noteq> 0x174 \<and> n \<noteq> 0x175 \<and> n \<noteq> 0x176 \<and> n \<noteq> 0xFE \<and> n \<noteq> 0x2FF \<and> n \<noteq> 0x250 \<and> n \<noteq> 0x258
     \<and> n \<noteq> 0x259 \<and> n \<noteq> 0x10 \<and> \<not> variable_msr n"
  using not_other_msr by (intro conjI notI; simp)

lemma wrmsr_variable:
  assumes "variable_msr n"
  shows "wrmsr n v c = Some (let i = unat (n - MSR_MTRR_PHYSBASE0) div 2 in
     if n AND 1 \<noteq> 0 then c\<lparr>mtrr_physmask := (mtrr_physmask c)(i := v)\<rparr>
     else c\<lparr>mtrr_physbase := (mtrr_physbase c)(i := v)\<rparr>)"
  unfolding wrmsr_def msr_kinds Let_def awrite_def
  using variable_not_single [OF assms] msr_index(1) [OF assms] assms
  by (cases "n AND 1 = 0") (simp_all only: if_False if_True option.map simp_thms)

lemma wrmsr_fix4k:
  assumes "fix4k_msr n"
  shows "wrmsr n v c = Some (c\<lparr>mtrr_fix4k := (mtrr_fix4k c)(unat (n - MSR_MTRR_FIX4K_BASE) := v)\<rparr>)"
  unfolding wrmsr_def msr_kinds Let_def awrite_def
  using fix4k_not_single [OF assms] msr_index(2) [OF assms] assms
  by (simp only: if_False if_True option.map simp_thms)

lemma rdmsr_variable:
  assumes "variable_msr n"
  shows "rdmsr t n c = Some ((if n AND 1 \<noteq> 0 then mtrr_physmask c else mtrr_physbase c)
     (unat (n - MSR_MTRR_PHYSBASE0) div 2))"
  unfolding rdmsr_def msr_kinds aread_def
  using variable_not_single [OF assms] msr_index(1) [OF assms] assms
  by (simp only: if_False if_True simp_thms)

lemma rdmsr_fix4k:
  assumes "fix4k_msr n"
  shows "rdmsr t n c = Some (mtrr_fix4k c (unat (n - MSR_MTRR_FIX4K_BASE)))"
  unfolding rdmsr_def msr_kinds aread_def
  using fix4k_not_single [OF assms] msr_index(2) [OF assms] assms
  by (simp only: if_False if_True simp_thms)

lemma rdmsr_single:
  "\<not> variable_msr n \<Longrightarrow> \<not> fix4k_msr n \<Longrightarrow> rdmsr t n c = Some (
     if n = MSR_SYSENTER_CS then ucast (sysenter_cs c) else if n = MSR_SYSENTER_ESP then ucast (sysenter_esp c)
     else if n = MSR_SYSENTER_EIP then ucast (sysenter_eip c) else if n = MSR_TSC then t
     else if n = MSR_MTRR_DEF_TYPE then mtrr_def_type c else if n = MSR_MTRRCAP then 0x508
     else if n = MSR_MTRR_FIX64K then mtrr_fix64k c else if n = MSR_MTRR_FIX16K_80000 then mtrr_fix16k c 0
     else if n = MSR_MTRR_FIX16K_A0000 then mtrr_fix16k c 1 else 0)"
  by (simp add: rdmsr_def msr_kinds)

lemmas rdmsr_cases = rdmsr_variable rdmsr_fix4k rdmsr_single

lemma rdmsr_wrmsr_variable:
  assumes "variable_msr n"
  shows "Option.bind (wrmsr n v c) (rdmsr t k) = (if k = n then Some v else rdmsr t k c)"
proof (cases "variable_msr k")
  case True
  thus ?thesis using assms variable_inj [OF assms True]
    by (cases "n AND 1 = 0"; cases "k AND 1 = 0") (auto simp: wrmsr_variable rdmsr_variable Let_def)
next
  case False
  thus ?thesis using assms by (cases "fix4k_msr k") (auto simp: wrmsr_variable rdmsr_fix4k rdmsr_single Let_def)
qed

lemma rdmsr_wrmsr_fix4k:
  assumes "fix4k_msr n"
  shows "Option.bind (wrmsr n v c) (rdmsr t k) = (if k = n then Some v else rdmsr t k c)"
proof (cases "fix4k_msr k")
  case True
  thus ?thesis using assms fix4k_inj [OF assms True] by (auto simp: wrmsr_fix4k rdmsr_fix4k)
next
  case False
  thus ?thesis using assms not_other_msr
    by (cases "variable_msr k") (auto simp: wrmsr_fix4k rdmsr_variable rdmsr_single)
qed

lemma rdmsr_wrmsr_single:
  assumes "\<not> variable_msr n" "\<not> fix4k_msr n"
  shows "Option.bind (wrmsr n v c) (rdmsr t k) = (if k = n \<and> stored_msr n then Some (msr_keeps n v) else rdmsr t k c)"
  using assms
  by (cases "variable_msr k"; cases "fix4k_msr k")
    (auto simp: wrmsr_def msr_kinds rdmsr_cases stored_msr_def msr_keeps_def sysenter_msr_def ucast_ucast_low)

text \<open>The model-specific registers.  A WRMSR always succeeds, and an RDMSR after it reads back what was
  written (its low 32 bits for the SYSENTER registers) from the register written, and what it read before
  from every other register; the time-stamp counter, the capability register and unknown registers keep
  nothing.\<close>

theorem msr_roundtrip:
  "Option.bind (wrmsr n v c) (rdmsr t k) = (if k = n \<and> stored_msr n then Some (msr_keeps n v) else rdmsr t k c)"
proof (cases "variable_msr n \<or> fix4k_msr n")
  case True
  moreover have "stored_msr n" "\<not> sysenter_msr n"
    using True by (auto simp: stored_msr_def sysenter_msr_def)
  ultimately show ?thesis
    by (auto simp: rdmsr_wrmsr_variable rdmsr_wrmsr_fix4k msr_keeps_def)
next
  case False
  thus ?thesis using rdmsr_wrmsr_single by blast
qed

section \<open>Control registers\<close>

lemma clear_traces_get: "trace_get (pool (clear_traces x), page_map (clear_traces x)) e = None"
  using trace_get_clear [of "(pool x, page_map x)" e] by (auto simp: clear_traces_def split: prod.split)

lemma flush_code_flushed:
  "trace_get (pool (flush_code x), page_map (flush_code x)) e = None"
  "arena_used (flush_code x) = 0" "mach (flush_code x) = mach x"
  using clear_traces_get [of x e] by (simp_all add: flush_code_def clear_traces_def split: prod.splits)

lemma advance_simps [simp]:
  "tlb (advance i m) = tlb m" "ram (advance i m) = ram m" "cr3 (ctx (advance i m)) = cr3 (ctx m)"
  "get_cr n (ctx (advance i m)) = get_cr n (ctx m)" "gp (ctx (advance i m)) = gp (ctx m)"
  "eip (ctx (advance i m)) = eip (ctx m) + ucast (ilen i)"
  by (simp_all add: advance_def upd_ctx_def get_cr_def)

text \<open>C30: A MOV to CR0 or CR3 leaves no translation behind that the tables do not give: both TLBs agree with the
  page tables the new CR3 selects.  After a MOV to CR0 no trace is found and the arena is empty; a MOV to CR3
  keeps the traces, although they are found by virtual address.\<close>

theorem mov_cr_flushes:
  assumes "op0 i = RegOp (Cr n)" and "op1 i = RegOp (Gp32 g)" and "n = 0 \<or> n = 3" and "priv_mov i x = Some x'"
  shows "get_cr n (ctx (mach x')) = Some (reg g (mach x))
    \<and> ram (mach x') = ram (mach x)
    \<and> tlb_sound (cr3 (ctx (mach x'))) (ram (mach x')) (tlb (mach x'))
    \<and> (n = 0 \<longrightarrow> (\<forall>e. trace_get (pool x', page_map x') e = None) \<and> arena_used x' = 0)
    \<and> (n = 3 \<longrightarrow> pool x' = pool x \<and> page_map x' = page_map x)"
  using assms(3)
proof
  assume n: "n = 0"
  have "x' = flush_code (x\<lparr>mach := upd_ctx (set_cr 0 (reg g (mach x))) (mach x)\<lparr>tlb := tlb_flush (tlb (mach x))\<rparr>\<rparr>)
      \<lparr>mach := advance i (upd_ctx (set_cr 0 (reg g (mach x))) (mach x)\<lparr>tlb := tlb_flush (tlb (mach x))\<rparr>)\<rparr>"
    using assms n by (simp add: priv_mov_def Let_def get_cr_def mov_to_cr_def flush_code_flushed upd_ctx_def)
  thus ?thesis
    by (simp add: n flush_code_flushed tlb_flush_sound) (simp add: upd_ctx_def get_cr_def set_cr_def)
next
  assume n: "n = 3"
  thus ?thesis using assms
    by (auto simp: priv_mov_def get_cr_def mov_to_cr_def tlb_flush_sound upd_ctx_def set_cr_def)
qed

section \<open>String input and output\<close>

text \<open>What a step of the loops keeps: all registers and the instruction pointer.\<close>

definition same_regs :: "machine \<Rightarrow> machine \<Rightarrow> bool" where
  "same_regs m m' \<longleftrightarrow> gp (ctx m') = gp (ctx m) \<and> eip (ctx m') = eip (ctx m) \<and> eflags (ctx m') = eflags (ctx m)"

lemma same_regs_refl [simp]: "same_regs m m"
  by (simp add: same_regs_def)

lemma translate_va_regs: "translate_va va w m = Some (pa, m') \<Longrightarrow> same_regs m m'"
  by (auto simp: translate_va_def same_regs_def upd_ctx_def set_fault_def set_mem_def
      split: option.splits walk.splits)

lemma exec_translate_regs: "exec_translate va w m = Some (pa, m') \<Longrightarrow> same_regs m m'"
  using translate_va_regs by (auto simp: exec_translate_def split: if_splits)

lemma memory_regs:
  "ram_wr n pa v m = Some m' \<Longrightarrow> same_regs m m'"
  "bus_write pa v n m = Some m' \<Longrightarrow> same_regs m m'"
  "bus_read pa n m = Some (u, m') \<Longrightarrow> same_regs m m'"
  "port_in io p n m = Some (u, m') \<Longrightarrow> same_regs m m'"
  "port_out io p v n m = Some m' \<Longrightarrow> same_regs m m'"
  by (auto simp: ram_wr_def bus_write_def bus_read_def port_in_def port_out_def same_regs_def set_mem_def
      split: option.splits)

lemmas keeps_regs = exec_translate_regs memory_regs

lemma push32_regs: "push32 v (e, m) = Some (e', m') \<Longrightarrow> same_regs m m'"
  using translate_va_regs memory_regs(1)
  by (auto simp: push32_def Let_def Option.bind_eq_Some_conv same_regs_def split: if_splits)

lemma push_frame_regs: "push_frame vs (e, m) = Some (e', m') \<Longrightarrow> same_regs m m'"
proof (induction vs arbitrary: e m)
  case (Cons v vs)
  then show ?case using push32_regs by (fastforce simp: Option.bind_eq_Some_conv same_regs_def)
qed simp

lemma gp_of_regs:
  "translate_va va w m = Some (pa, m') \<Longrightarrow> gp (ctx m') = gp (ctx m)"
  "push_frame vs (e, m) = Some (e', m') \<Longrightarrow> gp (ctx m') = gp (ctx m)"
  using translate_va_regs push_frame_regs unfolding same_regs_def by blast+

lemma deliver_regs:
  assumes "deliver_interrupt v r e m = Some m'" and "k \<noteq> GP_ESP"
  shows "reg k m' = reg k m"
proof (cases "ucast v * 8 + 7 > (ucast (idtr_limit (ctx m)) :: u32)")
  case True
  thus ?thesis using assms(1) by (auto simp: deliver_interrupt_def Let_def halt_def upd_ctx_def)
next
  case False
  then obtain pa m1 where 1: "(if paging_enabled m then translate_va (idtr_base (ctx m) + ucast v * 8) False m
      else Some (idtr_base (ctx m) + ucast v * 8, m)) = Some (pa, m1)"
    using assms(1) by (auto simp: deliver_interrupt_def Let_def Option.bind_eq_Some_conv split: if_splits)
  have 2: "gp (ctx m1) = gp (ctx m)"
    using 1 gp_of_regs(1) by (auto split: if_splits)
  consider "m' = halt m1" | vs esp m2 where "push_frame vs (reg GP_ESP m1, m1) = Some (esp, m2)"
      "gp (ctx m') = (gp (ctx m2))(GP_ESP := esp)"
    using assms(1) False 1
    unfolding deliver_interrupt_def Let_def
    by (auto simp: Option.bind_eq_Some_conv upd_ctx_def set_reg_def simp del: push_frame.simps append_Cons
        split: if_split_asm)
  thus ?thesis
    using gp_of_regs(2) 2 assms(2) by cases (auto simp: halt_def upd_ctx_def)
qed

text \<open>The registers after \<open>j\<close> of at most \<open>k\<close> elements, the rest given up for a fault.\<close>

definition moved :: "nat \<Rightarrow> u32 \<Rightarrow> nat \<Rightarrow> machine \<Rightarrow> bool \<Rightarrow> machine \<Rightarrow> bool" where
  "moved r inc k m fin m' \<longleftrightarrow>
     (\<exists>j. (if fin then j = k \<and> eip (ctx m') = eip (ctx m) else j < k)
       \<and> reg r m' = reg r m + of_nat j * inc \<and> (\<forall>q. q \<noteq> r \<longrightarrow> q \<noteq> GP_ESP \<longrightarrow> reg q m' = reg q m))"

lemma moved_refl: "moved r inc 0 m True m"
  by (simp add: moved_def)

lemma moved_stop: "same_regs m m1 \<Longrightarrow> page_fault e m1 = Some m' \<Longrightarrow> r \<noteq> GP_ESP \<Longrightarrow> moved r inc (Suc k) m False m'"
  unfolding moved_def same_regs_def page_fault_def
  by (rule exI [where x = 0]) (use deliver_regs in fastforce)

lemma moved_step:
  assumes "same_regs m m1" and "moved r inc k (set_reg r (reg r m1 + inc) m1) fin m'"
  shows "moved r inc (Suc k) m fin m'"
proof -
  obtain j where "if fin then j = k \<and> eip (ctx m') = eip (ctx m) else j < k"
      "reg r m' = reg r m + inc + of_nat j * inc" "\<forall>q. q \<noteq> r \<longrightarrow> q \<noteq> GP_ESP \<longrightarrow> reg q m' = reg q m"
    using assms unfolding moved_def same_regs_def by (cases fin) (auto simp: set_reg_def upd_ctx_def)
  thus ?thesis unfolding moved_def
    by (intro exI [where x = "Suc j"]) (auto simp: algebra_simps)
qed

lemma same_regs_trans: "same_regs a b \<Longrightarrow> same_regs b c \<Longrightarrow> same_regs a c"
  by (simp add: same_regs_def)

lemma ins_loop_moved: "ins_loop io p n inc k m = Some (fin, m') \<Longrightarrow> moved GP_EDI inc k m fin m'"
proof (induction k arbitrary: m)
  case 0
  thus ?case by (auto intro: moved_refl)
next
  case (Suc k)
  from Suc.prems obtain v m1 pa m2 where 1: "port_in io p n m = Some (v, m1)"
      "exec_translate (reg GP_EDI m1) True m1 = Some (pa, m2)"
    by (auto simp: Option.bind_eq_Some_conv)
  have 2: "same_regs m m2"
    using keeps_regs(1) [OF 1(2)] keeps_regs(5) [OF 1(1)] same_regs_trans by blast
  show ?case
  proof (cases pa)
    case None
    thus ?thesis using Suc.prems 1 moved_stop [OF 2] by auto
  next
    case (Some a)
    then obtain m3 where 3: "(if unat a < GUEST_RAM_SIZE then ram_wr n a v m2 else bus_write a v n m2) = Some m3"
        "ins_loop io p n inc k (set_reg GP_EDI (reg GP_EDI m3 + inc) m3) = Some (fin, m')"
      using Suc.prems 1 by (auto simp: Option.bind_eq_Some_conv)
    have "same_regs m2 m3"
      using 3(1) memory_regs(1,2) by (metis (full_types))
    thus ?thesis using moved_step [OF same_regs_trans [OF 2]] Suc.IH [OF 3(2)] by blast
  qed
qed

lemma outs_loop_moved: "outs_loop io p n inc k m = Some (fin, m') \<Longrightarrow> moved GP_ESI inc k m fin m'"
proof (induction k arbitrary: m)
  case 0
  thus ?case by (auto intro: moved_refl)
next
  case (Suc k)
  from Suc.prems obtain pa m2 where 1: "exec_translate (reg GP_ESI m) False m = Some (pa, m2)"
    by (auto simp: Option.bind_eq_Some_conv)
  note 2 = exec_translate_regs [OF 1]
  show ?case
  proof (cases pa)
    case None
    thus ?thesis using Suc.prems 1 moved_stop [OF 2] by auto
  next
    case (Some a)
    then obtain v m3 m4 where 3: "(if unat a < GUEST_RAM_SIZE then map_option (\<lambda>v. (v, m2)) (ram_rd n a m2)
          else if mmio m2 \<noteq> None then bus_read a n m2 else Some (0, m2)) = Some (v, m3)"
        "port_out io p v n m3 = Some m4"
        "outs_loop io p n inc k (set_reg GP_ESI (reg GP_ESI m4 + inc) m4) = Some (fin, m')"
      using Suc.prems 1 by (auto simp: Option.bind_eq_Some_conv)
    have "same_regs m2 m3"
      using 3(1) memory_regs(3) by (auto split: if_splits)
    thus ?thesis
      using moved_step [OF same_regs_trans [OF 2 same_regs_trans [OF _ memory_regs(5) [OF 3(2)]]]] Suc.IH [OF 3(3)]
      by blast
  qed
qed

text \<open>String input and output.  Of the elements asked for, some number is transferred, and EDI or ESI moves
  by that many.  When all are, the instruction is done: EIP is behind it and a repeat count is 0.  When an
  element faults, the count in ECX is still the full one, although EDI or ESI has moved: a restarted
  instruction transfers too many.\<close>

theorem string_io_progress:
  assumes "priv_string_io loop io n i m = Some m'"
    and "loop = ins_loop \<and> r = GP_EDI \<or> loop = outs_loop \<and> r = GP_ESI"
  defines "count \<equiv> if has_rep i then unat (reg GP_ECX m) else 1"
  shows "\<exists>j \<le> count. reg r m' = reg r m + of_nat j * str_step n m
    \<and> (\<forall>q. q \<noteq> r \<and> q \<noteq> GP_ESP \<and> q \<noteq> GP_ECX \<longrightarrow> reg q m' = reg q m)
    \<and> (if j = count then eip (ctx m') = eip (ctx m) + ucast (ilen i) \<and> reg GP_ECX m' = (if has_rep i then 0 else reg GP_ECX m)
       else reg GP_ECX m' = reg GP_ECX m)"
proof -
  obtain fin m1 where l: "loop io (ucast (reg GP_EDX m)) n (str_step n m) count m = Some (fin, m1)"
    and m': "m' = (if fin then advance i (if has_rep i then set_reg GP_ECX 0 m1 else m1) else m1)"
    using assms(1) by (auto simp: priv_string_io_def count_def)
  have "moved r (str_step n m) count m fin m1"
    using assms(2) l ins_loop_moved outs_loop_moved by blast
  then obtain j where j: "if fin then j = count \<and> eip (ctx m1) = eip (ctx m) else j < count"
      "reg r m1 = reg r m + of_nat j * str_step n m" "\<And>q. q \<noteq> r \<Longrightarrow> q \<noteq> GP_ESP \<Longrightarrow> reg q m1 = reg q m"
    unfolding moved_def by blast
  have "reg GP_ECX m1 = reg GP_ECX m" "r \<noteq> GP_ECX"
    using assms(2) j(3) by auto
  thus ?thesis
    using j m' by (intro exI [where x = j]) (cases fin; auto simp: set_reg_def upd_ctx_def)
qed

definition outsb_demo :: insn where
  "outsb_demo = \<lparr>mnem = OUTSB, ilen = 2, op0 = NoOp, op1 = NoOp, op0_size = 0, op1_size = 8, visible_ops = 0,
     has_rep = True\<rparr>"

definition outs_machine :: machine where
  "outs_machine = set_reg GP_ECX 2 (executor_init False)"

lemma outs_step:
  assumes "flat m" and "unat (reg GP_ESI m) < GUEST_RAM_SIZE"
  shows "outs_loop [] p 1 inc (Suc k) m = outs_loop [] p 1 inc k (set_reg GP_ESI (reg GP_ESI m + inc) m)"
  using assms by (simp add: exec_translate_flat ram_rd_def rd_def port_out_def)

lemma flat_set_reg [simp]: "flat (set_reg r v m) = flat m"
  by (simp add: flat_def set_reg_def upd_ctx_def paging_enabled_def)

lemma outs_machine_facts:
  "flat outs_machine" "reg GP_ECX outs_machine = 2" "reg GP_ESI outs_machine = 0" "str_step 1 outs_machine = 1"
  by (simp_all add: outs_machine_def flat_init str_step_def) (simp_all add: set_reg_def upd_ctx_def executor_init_def guest_context_init_def)

lemma outs_machine_run:
  "priv_string_io outs_loop [] 1 outsb_demo outs_machine
   = Some (advance outsb_demo (set_reg GP_ECX 0 (set_reg GP_ESI 2 (set_reg GP_ESI 1 outs_machine))))"
proof -
  have "outs_loop [] p 1 1 2 outs_machine = Some (True, set_reg GP_ESI 2 (set_reg GP_ESI 1 outs_machine))" for p
    using outs_step [of outs_machine p 1 "Suc 0"] outs_step [of "set_reg GP_ESI 1 outs_machine" p 1 0] outs_machine_facts
    by (simp add: numeral_2_eq_2 del: outs_loop.simps(2))
  thus ?thesis
    using outs_machine_facts by (simp add: priv_string_io_def outsb_demo_def del: outs_loop.simps)
qed

theorem string_io_progress_witness:
  "\<exists>m' j. priv_string_io outs_loop [] 1 outsb_demo outs_machine = Some m' \<and> j \<le> 2
    \<and> reg GP_ESI m' = of_nat j \<and> reg GP_ECX m' = (if j = 2 then 0 else 2)"
proof -
  have c: "reg GP_ECX outs_machine = 2" "reg GP_ESI outs_machine = 0" "str_step 1 outs_machine = 1" "has_rep outsb_demo"
    by (simp_all add: outs_machine_def outsb_demo_def str_step_def executor_init_def guest_context_init_def set_reg_def upd_ctx_def)
  show ?thesis
    using string_io_progress [OF outs_machine_run, where r = GP_ESI] outs_machine_run c by (auto split: if_splits)
qed

theorem mov_cr_flushes_witness:
  "\<exists>x'. priv_mov \<lparr>mnem = MOV, ilen = 3, op0 = RegOp (Cr 3), op1 = RegOp (Gp32 0), op0_size = 32, op1_size = 32,
      visible_ops = 2, has_rep = False\<rparr> (built_at 0x80010000 0x80020000) = Some x'
    \<and> tlb_sound (cr3 (ctx (mach x'))) (ram (mach x')) (tlb (mach x')) \<and> pool x' = pool (built_at 0x80010000 0x80020000)"
proof -
  let ?i = "\<lparr>mnem = MOV, ilen = 3, op0 = RegOp (Cr 3), op1 = RegOp (Gp32 0), op0_size = 32, op1_size = 32,
      visible_ops = 2, has_rep = False\<rparr>"
  have "\<exists>x'. priv_mov ?i (built_at 0x80010000 0x80020000) = Some x'"
    by (simp add: priv_mov_def Let_def)
  then obtain x' where x': "priv_mov ?i (built_at 0x80010000 0x80020000) = Some x'" ..
  show ?thesis
    using mov_cr_flushes [OF _ _ _ x', where n = 3 and g = 0] x' by auto
qed

end
