(* ===== verification/Run.thy ===== *)
theory Run
  imports Privileged Block_Copy
begin

text \<open>
  The executor's run loop (\<open>Executor::run\<close> of \<open>src/src/cpu/executor.cpp\<close>): interrupts at trace boundaries,
  fetch and translation of code, building and linking traces, dispatch, detection of spinning loops, the
  periodic tick and the stops of translated code.  The code that runs outside is a parameter: the decoder and
  emitter (what \<open>build\<close> leaves), the dispatch of host code, the callbacks and the host's clock.  Diagnostic
  output is not modelled, but the translations made for it are: they fill the TLB and set the fault registers.
\<close>

section \<open>State\<close>

record hooks =
  irq_check :: "(xbox \<Rightarrow> bool) option"
  irq_ack :: "(xbox \<Rightarrow> u8 \<times> xbox) option"
  tick_fn :: "(xbox \<Rightarrow> xbox option) option"
  tick_fn_burst :: "(xbox \<Rightarrow> xbox option) option"
  tick_period :: u32
  world :: outside
  emission :: "u32 \<Rightarrow> bytes \<Rightarrow> nat \<Rightarrow> machine \<Rightarrow> nat \<Rightarrow> emitted"
  dispatch :: "nat \<Rightarrow> executor \<Rightarrow> executor option"
  clock :: "nat \<Rightarrow> u64"

text \<open>The executor with its counters, the locals of \<open>run\<close> and its static variables.\<close>

record run_state =
  exec :: executor
  pending_irq :: u32
  tick_counter :: u32
  steps :: nat
  prev_trace :: "nat option"
  spin_eip :: u32
  spin_count :: u32
  stale_eip :: u32
  stale_count :: u32
  prev_eip2 :: u32
  cycle2_count :: u32
  pf_log_count :: nat
  eip_sample_count :: nat

abbreviation SPIN_THRESHOLD :: u32 where "SPIN_THRESHOLD \<equiv> 16"
abbreviation HLT_MAX_TICKS :: nat where "HLT_MAX_TICKS \<equiv> 1024"

abbreviation gm :: "run_state \<Rightarrow> machine" where "gm s \<equiv> mach (exec s)"
abbreviation cur_eip :: "run_state \<Rightarrow> u32" where "cur_eip s \<equiv> eip (ctx (gm s))"

definition upd_gm :: "(machine \<Rightarrow> machine) \<Rightarrow> run_state \<Rightarrow> run_state" where
  "upd_gm f s = s\<lparr>exec := (exec s)\<lparr>mach := f (mach (exec s))\<rparr>\<rparr>"

definition on_gm :: "(machine \<Rightarrow> machine option) \<Rightarrow> run_state \<Rightarrow> run_state option" where
  "on_gm f s = map_option (\<lambda>m. upd_gm (\<lambda>_. m) s) (f (gm s))"

definition on_hw :: "(xbox \<Rightarrow> xbox option) \<Rightarrow> machine \<Rightarrow> machine option" where
  "on_hw f m = map_option (\<lambda>h. m\<lparr>hw := h\<rparr>) (f (hw m))"

definition count_step :: "run_state \<Rightarrow> run_state" where
  "count_step s = s\<lparr>steps := steps s + 1\<rparr>"

definition break_chain :: "run_state \<Rightarrow> run_state" where
  "break_chain s = s\<lparr>prev_trace := None\<rparr>"

text \<open>One way round the loop goes on or leaves it.\<close>

datatype iter = Next run_state | Leave run_state

section \<open>Interrupts\<close>

definition raise_line :: "nat \<Rightarrow> run_state \<Rightarrow> run_state" where
  "raise_line l s = s\<lparr>pending_irq := pending_irq s OR push_bit l 1\<rparr>"

definition has_irq :: "hooks \<Rightarrow> run_state \<Rightarrow> bool" where
  "has_irq h s = (case irq_check h of Some f \<Rightarrow> f (hw (gm s)) | None \<Rightarrow> pending_irq s \<noteq> 0)"

text \<open>The lowest pending line of the bitmap; the search does not end when there is none.\<close>

definition take_line :: "u32 \<Rightarrow> (u8 \<times> u32) option" where
  "take_line bits =
     map_option (\<lambda>l. (0x20 + of_nat l, bits AND NOT (push_bit l 1))) (find (\<lambda>l. bit bits l) [0..<32])"

definition acknowledge :: "hooks \<Rightarrow> run_state \<Rightarrow> (u8 \<times> run_state) option" where
  "acknowledge h s =
     (case irq_ack h of
        Some f \<Rightarrow> let (v, x) = f (hw (gm s)) in Some (v, upd_gm (\<lambda>m. m\<lparr>hw := x\<rparr>) s)
      | None \<Rightarrow> map_option (\<lambda>(v, bits). (v, s\<lparr>pending_irq := bits\<rparr>)) (take_line (pending_irq s)))"

definition run_irq :: "hooks \<Rightarrow> run_state \<Rightarrow> run_state option" where
  "run_irq h s =
     (if has_irq h s \<and> virtual_if (ctx (gm s)) then do {
        (vector, s) \<leftarrow> acknowledge h s;
        s \<leftarrow> on_gm (\<lambda>m. deliver_interrupt vector (eip (ctx m)) None m) s;
        Some (break_chain s)
      } else Some s)"

section \<open>Code for the trace builder\<close>

primrec fetch_words :: "u32 \<Rightarrow> nat \<Rightarrow> nat list \<Rightarrow> bytes \<Rightarrow> machine \<Rightarrow> (bytes \<times> machine) option" where
  "fetch_words pa len [] b m = Some (b, m)"
| "fetch_words pa len (i # is) b m = do {
     let n = min 4 (len - i);
     (v, m) \<leftarrow> bus_read (pa + of_nat i) n m;
     fetch_words pa len is (st n b i v) m
   }"

text \<open>The bytes from an address on, and how many there are.  A page with fewer than 15 bytes left is
  continued on the next one.\<close>

definition code_window :: "u32 \<Rightarrow> u32 \<Rightarrow> machine \<Rightarrow> ((bytes \<times> nat) \<times> machine) option" where
  "code_window e pa m =
     (if unat pa < GUEST_RAM_SIZE then
        let page_remain = unat (0x1000 - (pa AND 0xFFF)); here = (\<lambda>m i. ram m (unat pa + i)) in
        if \<not> paging_enabled m then Some ((here m, GUEST_RAM_SIZE - unat pa), m)
        else if page_remain \<ge> 15 then Some ((here m, page_remain), m)
        else do {
          (next_pa, m') \<leftarrow> translate_va ((e OR 0xFFF) + 1) False m;
          if next_pa \<noteq> PA_FAULT \<and> unat next_pa < GUEST_RAM_SIZE
          then Some ((\<lambda>i. if i < page_remain then here m i else ram m' (unat next_pa + (i - page_remain)), 15), m')
          else Some ((here m', page_remain), m')
        }
      else if mmio m \<noteq> None then
        let fetch_len = unat (4096 - (pa AND 0xFFF)) in
        map_option (\<lambda>(b, m). ((b, fetch_len), m))
          (fetch_words pa fetch_len (map (\<lambda>k. 4 * k) [0..<(fetch_len + 3) div 4]) (\<lambda>_. 0) m)
      else Some ((\<lambda>_. 0, 0), m))"

text \<open>Building; a failure flushes all translated code and is tried again once.\<close>

definition build_or_flush :: "hooks \<Rightarrow> u32 \<Rightarrow> bytes \<times> nat \<Rightarrow> run_state \<Rightarrow> nat option \<times> run_state" where
  "build_or_flush h e code s =
     (let bld = (\<lambda>s. let (t, x) = build (emission h e (fst code) (snd code) (gm s)) e (snd code) (exec s) in
            (t, s\<lparr>exec := x\<rparr>));
          (t, s) = bld s
      in case t of
           Some t \<Rightarrow> (Some t, s)
         | None \<Rightarrow> bld (break_chain (s\<lparr>exec := flush_code (exec s)\<rparr>)))"

definition valid_trace :: "u32 \<Rightarrow> executor \<Rightarrow> nat option" where
  "valid_trace e x =
     (case tcache_lookup (pool x) e (page_map x) of
        Some t \<Rightarrow> if valid (pool x t) then Some t else None | None \<Rightarrow> None)"

definition find_or_build :: "hooks \<Rightarrow> u32 \<Rightarrow> u32 \<Rightarrow> run_state \<Rightarrow> (nat option \<times> run_state) option" where
  "find_or_build h e pa s =
     (case valid_trace e (exec s) of
        Some t \<Rightarrow> Some (Some t, s)
      | None \<Rightarrow> do {
          (code, m) \<leftarrow> code_window e pa (gm s);
          case build_or_flush h e code (upd_gm (\<lambda>_. m) s) of
            (None, s) \<Rightarrow> Some (None, s)
          | (Some t, s) \<Rightarrow>
              let x = cache_trace t (exec s) in
              map_option (\<lambda>x. (Some t, s\<lparr>exec := x\<rparr>))
                (if unat pa < GUEST_RAM_SIZE then protect_code_page pa x else Some x)
        })"

definition link_around :: "nat \<Rightarrow> run_state \<Rightarrow> run_state" where
  "link_around t s =
     (let x = try_link_trace t (exec s);
          x = (case prev_trace s of
                 Some p \<Rightarrow> if valid (pool x p) then try_link_trace p x else x | None \<Rightarrow> x)
      in s\<lparr>exec := x\<rparr>)"

definition run_trace :: "hooks \<Rightarrow> u32 \<Rightarrow> nat \<Rightarrow> run_state \<Rightarrow> run_state option" where
  "run_trace h e t s =
     (let s = upd_gm (upd_ctx (\<lambda>c. c\<lparr>eip := e, stop_reason := STOP_NONE\<rparr>)) (link_around t s) in
      map_option (\<lambda>x. count_step (upd_gm (upd_ctx (\<lambda>c. c\<lparr>eip := next_eip c\<rparr>)) (s\<lparr>exec := x\<rparr>)))
        (dispatch h (host_code (pool (exec s) t)) (exec s)))"

section \<open>Translations made for diagnostics\<close>

definition probe :: "u32 \<Rightarrow> machine \<Rightarrow> machine option" where
  "probe va m = map_option snd (exec_translate va False m)"

primrec probes :: "u32 list \<Rightarrow> machine \<Rightarrow> machine option" where
  "probes [] m = Some m"
| "probes (va # vas) m = Option.bind (probe va m) (probes vas)"

text \<open>Every 2^20 steps, five times; the first time more is shown.\<close>

definition sample_eip :: "run_state \<Rightarrow> run_state option" where
  "sample_eip s =
     (if steps s mod 2 ^ 20 = 0 \<and> eip_sample_count s < 5 then
        let ebp = reg GP_EBP (gm s);
            more = (if eip_sample_count s = 0
              then [0x00023F47, 0x0001E3F0, ebp - 0x14, ebp - 8, ebp - 4, 0, 4] else [])
        in on_gm (probes (cur_eip s # more)) (s\<lparr>eip_sample_count := eip_sample_count s + 1\<rparr>)
      else Some s)"

section \<open>Spinning loops\<close>

text \<open>What looking at a loop's code comes to: nothing yet, a counter was set, the scan is given up, or the
  run loop itself is left.\<close>

datatype scan = Look_on | Handled | Give_up | Leave_run

definition code_byte :: "u32 \<Rightarrow> nat \<Rightarrow> machine \<Rightarrow> u8 option" where
  "code_byte pa off m =
     (let a = pa + of_nat off in if unat a < GUEST_RAM_SIZE then Some (ram m (unat a)) else None)"

primrec has_byte :: "u8 list \<Rightarrow> u32 \<Rightarrow> nat list \<Rightarrow> machine \<Rightarrow> bool option" where
  "has_byte bs pa [] m = Some False"
| "has_byte bs pa (k # ks) m =
     (case code_byte pa k m of
        None \<Rightarrow> None | Some b \<Rightarrow> if b \<in> set bs then Some True else has_byte bs pa ks m)"

text \<open>CMP with an immediate, SUB of a counter, DEC of a local at one offset.\<close>

definition scan_at :: "u32 \<Rightarrow> nat \<Rightarrow> machine \<Rightarrow> (scan \<times> machine) option" where
  "scan_at pa off m = do {
     b \<leftarrow> code_byte pa off m;
     if b = 0x3D \<and> off + 5 \<le> 28 then
       map_option (\<lambda>imm. (Handled, set_reg GP_EAX imm m)) (ram_rd 4 (pa + of_nat off + 1) m)
     else if b = 0x81 \<and> off + 6 \<le> 28 then do {
       modrm \<leftarrow> code_byte pa (off + 1) m;
       if modrm AND 0xF8 = 0xF8 then
         map_option (\<lambda>imm. (Handled, set_reg (unat (modrm AND 7)) imm m)) (ram_rd 4 (pa + of_nat off + 2) m)
       else Some (Look_on, m)
     } else if b = 0x83 \<and> off + 3 \<le> 28 then do {
       modrm \<leftarrow> code_byte pa (off + 1) m;
       let r = unat (modrm AND 7);
       if modrm AND 0xF8 = 0xF8 then
         map_option (\<lambda>imm. (Handled, set_reg r (scast imm) m)) (code_byte pa (off + 2) m)
       else if modrm AND 0xF8 = 0xE8 then
         if reg r m > SPIN_THRESHOLD * 2 then Some (Give_up, m)
         else map_option (\<lambda>st. if st then (Give_up, m) else (Handled, set_reg r 1 m))
           (has_byte [0x88, 0x89] pa [0..<off] m)
       else Some (Look_on, m)
     } else if b = 0xFF \<and> off + 3 \<le> 28 then do {
       modrm \<leftarrow> code_byte pa (off + 1) m;
       if modrm = 0x4D then do {
         disp \<leftarrow> code_byte pa (off + 2) m;
         let addr = reg GP_EBP m + scast disp;
         map_option (\<lambda>m. (Handled, m)) (if fits addr 4 then ram_wr 4 addr 1 m else Some m)
       } else Some (Look_on, m)
     } else Some (Look_on, m)
   }"

primrec scan_offsets :: "u32 \<Rightarrow> nat list \<Rightarrow> machine \<Rightarrow> (bool \<times> machine) option" where
  "scan_offsets pa [] m = Some (False, m)"
| "scan_offsets pa (off # offs) m =
     (case scan_at pa off m of
        None \<Rightarrow> None
      | Some (Look_on, m) \<Rightarrow> scan_offsets pa offs m
      | Some (r, m) \<Rightarrow> Some (r = Handled, m))"

definition dec_of :: "u8 \<Rightarrow> nat option" where
  "dec_of b = (if 0x48 \<le> b \<and> b \<le> 0x4F then Some (unat (b - 0x48)) else None)"

text \<open>\<open>MOV reg, [ESP + disp]; DEC reg\<close>, with a displacement or without.  The \<open>break\<close> on a large counter
  is not inside a loop of the scan: it leaves the run loop.\<close>

definition scan_stack_counter :: "u32 \<Rightarrow> machine \<Rightarrow> (scan \<times> machine) option" where
  "scan_stack_counter pa m = do {
     b0 \<leftarrow> code_byte pa 0 m;
     if b0 = 0x8B then do {
       modrm \<leftarrow> code_byte pa 1 m;
       let r = unat (drop_bit 3 modrm AND 7);
       if modrm AND 0xC7 = 0x44 then do {
         sib \<leftarrow> code_byte pa 2 m;
         if sib = 0x24 then do {
           disp \<leftarrow> code_byte pa 3 m;
           b4 \<leftarrow> code_byte pa 4 m;
           if dec_of b4 = Some r then
             if reg r m > SPIN_THRESHOLD * 2 then Some (Leave_run, m)
             else let m = set_reg r 1 m in
               map_option (\<lambda>(_, m). (Handled, m)) (write_guest_block (reg GP_ESP m + ucast disp) [1, 0, 0, 0] m)
           else Some (Look_on, m)
         } else Some (Look_on, m)
       } else if modrm AND 0xC7 = 0x04 then do {
         sib \<leftarrow> code_byte pa 2 m;
         if sib = 0x24 then do {
           b3 \<leftarrow> code_byte pa 3 m;
           if dec_of b3 = Some r then
             let m = set_reg r 1 m in
             map_option (\<lambda>(_, m). (Handled, m)) (write_guest_block (reg GP_ESP m) [1, 0, 0, 0] m)
           else Some (Look_on, m)
         } else Some (Look_on, m)
       } else Some (Look_on, m)
     } else Some (Look_on, m)
   }"

definition skip_loop :: "u32 \<Rightarrow> machine \<Rightarrow> (scan \<times> machine) option" where
  "skip_loop pa m =
     (if fits pa 32 then do {
        (handled, m) \<leftarrow> scan_offsets pa [0..<24] m;
        if handled then Some (Handled, m)
        else do {
          b0 \<leftarrow> code_byte pa 0 m;
          case dec_of b0 of
            Some r \<Rightarrow> Some (Handled, set_reg r 1 m)
          | None \<Rightarrow> if fits pa 12 then scan_stack_counter pa m else Some (Look_on, m)
        }
      } else Some (Look_on, m))"

text \<open>A loop nothing was found in yields when kernel calls are emulated and it stores nothing.\<close>

definition store_opcodes :: "u8 list" where
  "store_opcodes = [0x88, 0x89, 0xA2, 0xA3, 0xC6, 0xC7, 0xAA, 0xAB]"

definition hle :: "hooks \<Rightarrow> bool" where
  "hle h \<longleftrightarrow> hle_handler (world h) \<noteq> None"

definition yield_loop :: "hooks \<Rightarrow> u32 \<Rightarrow> machine \<Rightarrow> machine option" where
  "yield_loop h pa m =
     (if hle h then
        map_option (\<lambda>store. if store then m else halt m)
          (if fits pa 32 then has_byte store_opcodes pa [0..<28] m else Some False)
      else Some m)"

definition count_stale :: "hooks \<Rightarrow> u32 \<Rightarrow> run_state \<Rightarrow> run_state" where
  "count_stale h e s =
     (if hle h then
        if stale_eip s = e then
          let s = s\<lparr>stale_count := stale_count s + 1\<rparr> in
          if stale_count s \<ge> 64 then (upd_gm halt s)\<lparr>stale_count := 0\<rparr> else s
        else s\<lparr>stale_eip := e, stale_count := 1\<rparr>
      else s)"

definition spin_hit :: "hooks \<Rightarrow> u32 \<Rightarrow> u32 \<Rightarrow> run_state \<Rightarrow> iter option" where
  "spin_hit h e pa s = do {
     (r, m) \<leftarrow> skip_loop pa (gm s);
     let s = upd_gm (\<lambda>_. m) s;
     if r = Leave_run then Some (Leave s)
     else do {
       s \<leftarrow> (if r = Handled then Some s else on_gm (yield_loop h pa) s);
       Some (Next ((count_stale h e s)\<lparr>spin_count := 0\<rparr>))
     }
   }"

section \<open>Ticks\<close>

text \<open>A null callback is not called unless the code does so; then the model is undefined.\<close>

primrec repeat_tick :: "(xbox \<Rightarrow> xbox option) option \<Rightarrow> nat \<Rightarrow> machine \<Rightarrow> machine option" where
  "repeat_tick f 0 m = Some m"
| "repeat_tick f (Suc n) m = (case f of None \<Rightarrow> None | Some g \<Rightarrow> Option.bind (on_hw g m) (repeat_tick f n))"

definition periodic_tick :: "hooks \<Rightarrow> run_state \<Rightarrow> run_state option" where
  "periodic_tick h s =
     (if tick_period h = 0 then Some s
      else let s = s\<lparr>tick_counter := tick_counter s + 1\<rparr> in
        if tick_counter s \<ge> tick_period h then on_gm (repeat_tick (tick_fn h) 1) (s\<lparr>tick_counter := 0\<rparr>)
        else Some s)"

text \<open>Two traces that call each other over and over get 100 ticks.\<close>

definition cycle_check :: "hooks \<Rightarrow> u32 \<Rightarrow> run_state \<Rightarrow> run_state option" where
  "cycle_check h e s =
     (let s = s\<lparr>spin_count := 0\<rparr> in
      map_option (\<lambda>s. s\<lparr>prev_eip2 := e\<rparr>)
        (if cur_eip s = prev_eip2 s \<and> cur_eip s \<noteq> e then
           let s = s\<lparr>cycle2_count := cycle2_count s + 1\<rparr> in
           if cycle2_count s \<ge> 100 then
             let s = s\<lparr>cycle2_count := 0\<rparr> in
             if tick_fn h \<noteq> None then on_gm (repeat_tick (tick_fn_burst h) 100) s else Some s
           else Some s
         else Some (s\<lparr>cycle2_count := 0\<rparr>)))"

definition spin_check :: "hooks \<Rightarrow> u32 \<Rightarrow> u32 \<Rightarrow> run_state \<Rightarrow> iter option" where
  "spin_check h e pa s =
     (if cur_eip s = e then
        if spin_eip s = e then
          let s = s\<lparr>spin_count := spin_count s + 1\<rparr> in
          if spin_count s \<ge> SPIN_THRESHOLD then spin_hit h e pa s else Some (Next s)
        else Some (Next (s\<lparr>spin_eip := e, spin_count := 1\<rparr>))
      else map_option Next (cycle_check h e s))"

section \<open>The stops of translated code\<close>

text \<open>Ticks until an interrupt is pending, at most so many; then the processor stays halted.\<close>

definition line_up :: "hooks \<Rightarrow> machine \<Rightarrow> bool" where
  "line_up h m \<longleftrightarrow> (case irq_check h of Some f \<Rightarrow> f (hw m) | None \<Rightarrow> False)"

primrec hlt_wait :: "hooks \<Rightarrow> nat \<Rightarrow> machine \<Rightarrow> machine option" where
  "hlt_wait h 0 m = Some (if line_up h m then m else halt m)"
| "hlt_wait h (Suc k) m =
     (if line_up h m then Some m else Option.bind (repeat_tick (tick_fn h) 1 m) (hlt_wait h k))"

text \<open>Every halt the handler leaves is taken for the HLT instruction, one byte long.\<close>

definition resume_hlt :: "hooks \<Rightarrow> machine \<Rightarrow> machine option" where
  "resume_hlt h m = hlt_wait h HLT_MAX_TICKS (upd_ctx (\<lambda>c. c\<lparr>eip := eip c + 1, halted := False\<rparr>) m)"

definition stop_privileged :: "hooks \<Rightarrow> run_state \<Rightarrow> run_state option" where
  "stop_privileged h s =
     map_option count_step (Option.bind
       (handle_privileged ((world h)\<lparr>tsc := clock h (steps s)\<rparr>) (exec s))
       (\<lambda>x. let s = break_chain (s\<lparr>exec := x\<rparr>) in
            if halted (ctx (mach x)) then on_gm (resume_hlt h) s else Some s))"

text \<open>The first 50 faults are shown, with the code and the gate translated before the delivery.\<close>

definition stop_page_fault :: "run_state \<Rightarrow> run_state option" where
  "stop_page_fault s =
     (let s = count_step (break_chain s) in do {
        s \<leftarrow> (if pf_log_count s < 50
          then on_gm (probes [cur_eip s, idtr_base (ctx (gm s)) + 14 * 8]) (s\<lparr>pf_log_count := pf_log_count s + 1\<rparr>)
          else Some s);
        on_gm (\<lambda>m. deliver_interrupt 14 (eip (ctx m)) (Some (pf_error_code (ctx m))) m) s
      })"

definition stop_vector :: "u8 \<Rightarrow> run_state \<Rightarrow> run_state option" where
  "stop_vector v s = on_gm (\<lambda>m. deliver_interrupt v (eip (ctx m)) None m) (break_chain s)"

definition handle_stop :: "hooks \<Rightarrow> run_state \<Rightarrow> iter option" where
  "handle_stop h s =
     (let r = stop_reason (ctx (gm s)) in
      if r = STOP_PRIVILEGED then map_option Next (stop_privileged h s)
      else if r = STOP_PAGE_FAULT then map_option Next (stop_page_fault s)
      else if r = STOP_DIVIDE_ERROR then map_option (\<lambda>s. Next (count_step s)) (stop_vector 0 s)
      else if r = STOP_INVALID_OPCODE then
        if hle h \<and> idtr_limit (ctx (gm s)) = 0 then Some (Leave (upd_gm halt (break_chain s)))
        else map_option Next (stop_vector 6 s)
      else if cur_eip s = 0xFFFFFFFF then Some (Leave (upd_gm halt s))
      else Some (Next s))"

section \<open>The loop\<close>

definition bad_jump :: "hooks \<Rightarrow> u32 \<Rightarrow> bool" where
  "bad_jump h e \<longleftrightarrow> hle h \<and> of_nat GUEST_RAM_SIZE \<le> e \<and> e < 0xF0000000"

definition fetch_fault :: "u32 \<Rightarrow> run_state \<Rightarrow> run_state option" where
  "fetch_fault e s =
     map_option (\<lambda>s. count_step (break_chain s))
       (on_gm (\<lambda>m. deliver_interrupt 14 e (Some (pf_error_code (ctx m) OR 0x10)) m) s)"

text \<open>After a trace has run: diagnostics, spinning loops, the tick, its stop.\<close>

definition after_trace :: "hooks \<Rightarrow> u32 \<Rightarrow> u32 \<Rightarrow> nat \<Rightarrow> run_state \<Rightarrow> iter option" where
  "after_trace h e pa t s = do {
     s \<leftarrow> sample_eip s;
     r \<leftarrow> spin_check h e pa (s\<lparr>prev_trace := Some t\<rparr>);
     case r of
       Leave s \<Rightarrow> Some (Leave s)
     | Next s \<Rightarrow> Option.bind (periodic_tick h s) (handle_stop h)
   }"

definition run_iter :: "hooks \<Rightarrow> run_state \<Rightarrow> iter option" where
  "run_iter h s = do {
     s \<leftarrow> run_irq h s;
     let e = cur_eip s;
     if bad_jump h e then Some (Leave (upd_gm halt s))
     else do {
       (pa, m) \<leftarrow> exec_translate e False (gm s);
       let s = upd_gm (\<lambda>_. m) s;
       case pa of
         None \<Rightarrow> map_option Next (fetch_fault e s)
       | Some pa \<Rightarrow> do {
           (t, s) \<leftarrow> find_or_build h e pa s;
           case t of
             None \<Rightarrow> Some (Leave s)
           | Some t \<Rightarrow> Option.bind (run_trace h e t s) (after_trace h e pa t)
         }
     }
   }"

text \<open>The loop over a budget of steps, 0 for none, with fuel; the step counter stays far below \<open>2 ^ 64\<close>.\<close>

datatype run_end = Ran run_state | Undefined | Unfinished

definition run_done :: "nat \<Rightarrow> run_state \<Rightarrow> bool" where
  "run_done n s \<longleftrightarrow> halted (ctx (gm s)) \<or> n \<noteq> 0 \<and> n \<le> steps s"

primrec run_loop :: "nat \<Rightarrow> hooks \<Rightarrow> nat \<Rightarrow> run_state \<Rightarrow> run_end" where
  "run_loop 0 h n s = (if run_done n s then Ran s else Unfinished)"
| "run_loop (Suc k) h n s =
     (if run_done n s then Ran s
      else case run_iter h s of
        None \<Rightarrow> Undefined
      | Some (Leave s) \<Rightarrow> Ran s
      | Some (Next s) \<Rightarrow> run_loop k h n s)"

definition run_start :: "u32 \<Rightarrow> run_state \<Rightarrow> run_state" where
  "run_start e s =
     (upd_gm (upd_ctx (\<lambda>c. c\<lparr>eip := e, halted := False\<rparr>)) s)
       \<lparr>steps := 0, prev_trace := None, spin_eip := 0, spin_count := 0, stale_eip := 0, stale_count := 0\<rparr>"

definition run :: "nat \<Rightarrow> hooks \<Rightarrow> u32 \<Rightarrow> nat \<Rightarrow> run_state \<Rightarrow> run_end" where
  "run fuel h e n s = run_loop fuel h n (run_start e s)"

text \<open>The callbacks \<open>xbox_setup\<close> registers with the executor.\<close>

definition xbox_hooks :: "outside \<Rightarrow> (u32 \<Rightarrow> bytes \<Rightarrow> nat \<Rightarrow> machine \<Rightarrow> nat \<Rightarrow> emitted)
    \<Rightarrow> (nat \<Rightarrow> executor \<Rightarrow> executor option) \<Rightarrow> (nat \<Rightarrow> u64) \<Rightarrow> hooks" where
  "xbox_hooks w em d c =
     \<lparr>irq_check = Some (\<lambda>x. pic_irq_check (hw_pic x)),
      irq_ack = Some (\<lambda>x. let (v, p) = pic_irq_ack (hw_pic x) in (v, set_pic p x)),
      tick_fn = Some hw_tick_callback, tick_fn_burst = Some (\<lambda>x. Some (hw_tick_burst_callback x)),
      tick_period = 1024, world = w, emission = em, dispatch = d, clock = c\<rparr>"

end
