(* ===== verification/Run_Facts.thy ===== *)
theory Run_Facts
  imports Run
begin

text \<open>What the run loop guarantees: its budget, waking from HLT, and what a halt comes to.\<close>

section \<open>Steps are counted\<close>

lemma upd_gm_simps [simp]:
  "steps (upd_gm f s) = steps s" "gm (upd_gm f s) = f (gm s)" "pool (exec (upd_gm f s)) = pool (exec s)"
  "upd_gm g (upd_gm f s) = upd_gm (\<lambda>m. g (f m)) s" "spin_eip (upd_gm f s) = spin_eip s"
  "spin_count (upd_gm f s) = spin_count s" "prev_trace (upd_gm f s) = prev_trace s"
  by (simp_all add: upd_gm_def)

lemma count_simps [simp]:
  "steps (count_step s) = steps s + 1" "gm (count_step s) = gm s" "steps (break_chain s) = steps s"
  "gm (break_chain s) = gm s"
  by (simp_all add: count_step_def break_chain_def)

lemma on_gm_steps: "on_gm f s = Some s' \<Longrightarrow> steps s' = steps s"
  by (auto simp: on_gm_def)

lemma acknowledge_steps: "acknowledge h s = Some (v, s') \<Longrightarrow> steps s' = steps s"
  by (auto simp: acknowledge_def Let_def split: option.splits prod.splits)

lemma run_irq_steps: "run_irq h s = Some s' \<Longrightarrow> steps s' = steps s"
  by (auto simp: run_irq_def Option.bind_eq_Some_conv dest!: acknowledge_steps on_gm_steps split: if_splits)

lemma fetch_fault_steps: "fetch_fault e s = Some s' \<Longrightarrow> steps s' = steps s + 1"
  by (auto simp: fetch_fault_def dest!: on_gm_steps)

lemma build_or_flush_steps: "build_or_flush h e code s = (t, s') \<Longrightarrow> steps s' = steps s"
  by (auto simp: build_or_flush_def Let_def split: prod.splits option.splits)

lemma find_or_build_steps:
  assumes "find_or_build h e pa s = Some (t, s')"
  shows "steps s' = steps s"
proof (cases "valid_trace e (exec s)")
  case None
  then obtain code m where c: "code_window e pa (gm s) = Some (code, m)"
    using assms by (auto simp: find_or_build_def Option.bind_eq_Some_conv)
  obtain t1 s1 where b: "build_or_flush h e code (upd_gm (\<lambda>_. m) s) = (t1, s1)" by fastforce
  show ?thesis
    using assms None c b build_or_flush_steps [OF b]
    by (cases t1) (auto simp: find_or_build_def Let_def)
qed (use assms in \<open>simp add: find_or_build_def\<close>)

lemma run_trace_steps: "run_trace h e t s = Some s' \<Longrightarrow> steps s' = steps s + 1"
  by (auto simp: run_trace_def link_around_def Let_def)

lemma sample_steps: "sample_eip s = Some s' \<Longrightarrow> steps s' = steps s"
  by (auto simp: sample_eip_def Let_def dest!: on_gm_steps split: if_splits)

lemma count_stale_steps [simp]: "steps (count_stale h e s) = steps s"
  by (simp add: count_stale_def Let_def)

fun iter_state :: "iter \<Rightarrow> run_state" where
  "iter_state (Next s) = s"
| "iter_state (Leave s) = s"

lemma spin_hit_steps: "spin_hit h e pa s = Some r \<Longrightarrow> steps (iter_state r) = steps s"
  by (auto simp: spin_hit_def Let_def Option.bind_eq_Some_conv dest!: on_gm_steps split: if_splits)

lemma cycle_check_steps: "cycle_check h e s = Some s' \<Longrightarrow> steps s' = steps s"
  by (auto simp: cycle_check_def Let_def dest!: on_gm_steps split: if_splits)

lemma spin_check_steps: "spin_check h e pa s = Some r \<Longrightarrow> steps (iter_state r) = steps s"
  by (auto simp: spin_check_def Let_def dest!: spin_hit_steps cycle_check_steps split: if_splits)

lemma periodic_tick_steps: "periodic_tick h s = Some s' \<Longrightarrow> steps s' = steps s"
  by (auto simp: periodic_tick_def Let_def dest!: on_gm_steps split: if_splits)

lemma stop_steps:
  "stop_privileged h s = Some s' \<Longrightarrow> steps s' = steps s + 1"
  "stop_page_fault s = Some s' \<Longrightarrow> steps s' = steps s + 1"
  "stop_vector v s = Some s' \<Longrightarrow> steps s' = steps s"
  by (auto simp: stop_privileged_def stop_page_fault_def stop_vector_def Let_def Option.bind_eq_Some_conv
      dest!: on_gm_steps split: if_splits)

lemma handle_stop_steps: "handle_stop h s = Some r \<Longrightarrow> steps s \<le> steps (iter_state r) \<and> steps (iter_state r) \<le> steps s + 1"
  by (auto simp: handle_stop_def Let_def dest!: stop_steps split: if_splits)

lemma after_trace_steps:
  "after_trace h e pa t s = Some r \<Longrightarrow> steps s \<le> steps (iter_state r) \<and> steps (iter_state r) \<le> steps s + 1"
proof -
  assume "after_trace h e pa t s = Some r"
  then obtain s1 r1 where 1: "sample_eip s = Some s1" "spin_check h e pa (s1\<lparr>prev_trace := Some t\<rparr>) = Some r1"
    and 2: "(case r1 of Leave s \<Rightarrow> Some (Leave s) | Next s \<Rightarrow> Option.bind (periodic_tick h s) (handle_stop h)) = Some r"
    by (auto simp: after_trace_def Option.bind_eq_Some_conv)
  have "steps (iter_state r1) = steps s"
    using sample_steps [OF 1(1)] spin_check_steps [OF 1(2)] by simp
  thus ?thesis using 2
    by (cases r1) (auto simp: Option.bind_eq_Some_conv dest!: periodic_tick_steps handle_stop_steps)
qed

lemma run_iter_steps:
  assumes "run_iter h s = Some r"
  shows "steps s \<le> steps (iter_state r)" "steps (iter_state r) \<le> steps s + 2" "r = Next s' \<Longrightarrow> steps s < steps s'"
proof -
  obtain s1 where 1: "run_irq h s = Some s1" using assms by (auto simp: run_iter_def Option.bind_eq_Some_conv)
  have "(steps s \<le> steps (iter_state r) \<and> steps (iter_state r) \<le> steps s + 2) \<and> (\<forall>s'. r = Next s' \<longrightarrow> steps s < steps s')"
  proof (cases "bad_jump h (cur_eip s1)")
    case True
    thus ?thesis using assms 1 run_irq_steps [OF 1] by (auto simp: run_iter_def Let_def)
  next
    case False
    with assms 1 obtain pa m where 2: "exec_translate (cur_eip s1) False (gm s1) = Some (pa, m)"
      by (auto simp: run_iter_def Let_def Option.bind_eq_Some_conv)
    show ?thesis
    proof (cases pa)
      case None
      thus ?thesis using assms 1 2 False run_irq_steps [OF 1] by (auto simp: run_iter_def Let_def dest!: fetch_fault_steps)
    next
      case (Some a)
      with assms 1 2 False obtain t s2 where 3: "find_or_build h (cur_eip s1) a (upd_gm (\<lambda>_. m) s1) = Some (t, s2)"
        by (auto simp: run_iter_def Let_def Option.bind_eq_Some_conv)
      have 4: "steps s2 = steps s" using find_or_build_steps [OF 3] run_irq_steps [OF 1] by simp
      show ?thesis
      proof (cases t)
        case None
        thus ?thesis using assms 1 2 3 4 False Some by (auto simp: run_iter_def Let_def)
      next
        case (Some t')
        with assms 1 2 3 False \<open>pa = Some a\<close> obtain s3 where 5: "run_trace h (cur_eip s1) t' s2 = Some s3"
            "after_trace h (cur_eip s1) a t' s3 = Some r"
          by (auto simp: run_iter_def Let_def Option.bind_eq_Some_conv)
        have "steps s < steps (iter_state r)" "steps (iter_state r) \<le> steps s + 2"
          using run_trace_steps [OF 5(1)] after_trace_steps [OF 5(2)] 4 by simp_all
        thus ?thesis by (metis iter_state.simps(1) less_imp_le)
      qed
    qed
  qed
  thus "steps s \<le> steps (iter_state r)" "steps (iter_state r) \<le> steps s + 2" "r = Next s' \<Longrightarrow> steps s < steps s'"
    by blast+
qed

lemma run_loop_budget:
  assumes "0 < n" "n \<le> k + steps s" "steps s \<le> n + 1"
  shows "run_loop k h n s \<noteq> Unfinished \<and> (run_loop k h n s = Ran s' \<longrightarrow> steps s' \<le> n + 1)"
  using assms(2,3)
proof (induction k arbitrary: s)
  case 0
  thus ?case using assms(1) by (auto simp: run_done_def)
next
  case (Suc k)
  show ?case
  proof (cases "run_done n s")
    case True
    thus ?thesis using Suc.prems by auto
  next
    case False
    hence lt: "steps s < n" using assms(1) by (auto simp: run_done_def)
    show ?thesis
    proof (cases "run_iter h s")
      case (Some r)
      have st: "steps (iter_state r) \<le> n + 1" using run_iter_steps(2) [OF Some] lt by simp
      show ?thesis
      proof (cases r)
        case (Next s1)
        have "steps s < steps s1" by (rule run_iter_steps(3) [OF Some Next])
        thus ?thesis using Suc.IH [of s1] Suc.prems False Some Next st by simp
      qed (use False Some st in auto)
    qed (use False in auto)
  qed
qed

lemma run_ends:
  assumes "0 < n" and "n \<le> fuel"
  shows "run fuel h e n s \<noteq> Unfinished \<and> (run fuel h e n s = Ran s' \<longrightarrow> steps s' \<le> n + 1)"
  unfolding run_def using assms by (intro run_loop_budget) (simp_all add: run_start_def)

text \<open>C31: A run with a budget ends: every way round the loop that goes on counts a step.  With as much fuel
  as the budget the loop is never cut short, and it ends at most one step past the budget, since a stop
  after the last trace is counted too.\<close>

theorem run_budget:
  assumes "0 < n" and "n \<le> fuel"
  shows "run fuel h e n s \<noteq> Unfinished \<and> (run fuel h e n s = Ran s' \<longrightarrow> steps s' \<le> n + 1)"
  by (rule run_ends [OF assms])

definition idle_world :: outside where
  "idle_world = \<lparr>decode = (\<lambda>_. None), tsc = 0, ports = [], hle_handler = None, hle_vector = 0\<rparr>"

definition idle_hooks :: hooks where
  "idle_hooks = xbox_hooks idle_world (\<lambda>_ _ _ _ _. \<lparr>em_code = [], em_links = [], em_sites = []\<rparr>) (\<lambda>_. Some) (\<lambda>_. 0)"

definition idle_state :: run_state where
  "idle_state = \<lparr>exec = executor_start (executor_init False) 0x10000000, pending_irq = 0, tick_counter = 0, steps = 7,
     prev_trace = Some 0, spin_eip = 0, spin_count = 0, stale_eip = 0, stale_count = 0, prev_eip2 = 0,
     cycle2_count = 0, pf_log_count = 0, eip_sample_count = 0\<rparr>"

theorem run_budget_witness:
  "run 1000 idle_hooks 0x1000 1000 idle_state \<noteq> Unfinished"
  using run_budget [of 1000 1000] by simp

section \<open>HLT and the timer\<close>

text \<open>The timer is \<open>k\<close> ticks from its interrupt; the line is neither masked nor in service.\<close>

definition timer_at :: "nat \<Rightarrow> xbox \<Rightarrow> bool" where
  "timer_at k s \<longleftrightarrow> (let c = ch (hw_pit s) 0 in
     enabled c \<and> (pmode c = 2 \<or> pmode c = 3) \<and> 0 < k \<and> k \<le> pit_period (reload c) \<and> pcount c = of_nat k)"

definition line0_open :: "pic_pair \<Rightarrow> bool" where
  "line0_open p \<longleftrightarrow> \<not> bit (imr (master p)) 0 \<and> \<not> bit (isr (master p)) 0"

text \<open>What the other devices do to the interrupt controller.\<close>

definition keeps_line0 :: "pic_pair \<Rightarrow> pic_pair \<Rightarrow> bool" where
  "keeps_line0 p p' \<longleftrightarrow> imr (master p') = imr (master p) \<and> isr (master p') = isr (master p)
     \<and> bit (irr (master p')) 0 = bit (irr (master p)) 0"

lemma keeps_line0_trans: "keeps_line0 a b \<Longrightarrow> keeps_line0 b c \<Longrightarrow> keeps_line0 a c"
  by (simp add: keeps_line0_def)

lemma keeps_line0_refl [simp]: "keeps_line0 p p"
  by (simp add: keeps_line0_def)

lemma keeps_raise: "0 < l \<Longrightarrow> keeps_line0 p (raise_irq l p)"
  by (simp add: keeps_line0_def raise_irq_def pic_raise_def bit_or_iff)

lemma keeps_lower: "0 < l \<Longrightarrow> keeps_line0 p (lower_irq l p)"
  by (simp add: keeps_line0_def lower_irq_def pic_lower_def bit_and_iff bit_not_iff Let_def)

lemma keeps_nv2a: "keeps_line0 p (nv2a_irq_callback level p)"
  by (simp add: nv2a_irq_callback_def keeps_raise keeps_lower)

lemma keeps_tick_fifo:
  assumes "fifo_quiet (nv e)" and "tick_fifo N e = Some e'"
  shows "nv_pic e' = nv_pic e"
proof (cases "push_enabled (nv e) \<and> fifo_get (nv e) = pfifo_regs (nv e) (CACHE1_DMA_PUT div 4)")
  case True
  thus ?thesis using tick_fifo_idle [of e N] assms(2) by (auto simp: set_status_def upd_pfifo_def)
next
  case False
  hence "tick_fifo N e = Some e" using assms(1) by (auto simp: fifo_quiet_def tick_fifo_def Let_def)
  thus ?thesis using assms(2) by simp
qed

lemma quiet_tick_pit:
  assumes "quiet_unmapped s" and "hw_tick_callback s = Some s'"
  shows "hw_pit s' = fst (pit_tick 1 (hw_pit s, hw_pic s)) \<and> keeps_line0 (snd (pit_tick 1 (hw_pit s, hw_pic s))) (hw_pic s')"
proof -
  define s1 where "s1 = tick_rtc (tick_usb (tick_nv2a (tick_pit s)))"
  have pit: "hw_pit s1 = fst (pit_tick 1 (hw_pit s, hw_pic s))"
    by (simp add: s1_def tick_rtc_def tick_usb_def tick_nv2a_def tick_pit_def set_pic_def Let_def split: prod.split)
  have "hw_pic (tick_pit s) = snd (pit_tick 1 (hw_pit s, hw_pic s))"
    by (simp add: tick_pit_def set_pic_def split: prod.split)
  moreover have "keeps_line0 (hw_pic t) (hw_pic (tick_nv2a t))" for t
    by (simp add: tick_nv2a_def nv_tick_timer_def update_irq_def Let_def keeps_nv2a)
  moreover have "keeps_line0 (hw_pic t) (hw_pic (tick_rtc (tick_usb t)))" for t
    by (auto simp: tick_rtc_def tick_usb_def set_pic_def keeps_raise Let_def split: prod.split)
  ultimately have pic: "keeps_line0 (snd (pit_tick 1 (hw_pit s, hw_pic s))) (hw_pic s1)"
    unfolding s1_def by (metis keeps_line0_trans)
  have q: "fifo_quiet (nv (hw_env s1))" "\<not> fastmem_nv2a (nv (hw_env s1))"
    using assms(1)
    by (simp_all add: s1_def quiet_unmapped_def tick_devices_env tick_devices_rest tick_pit_env nv_tick_timer_def
        update_irq_def Let_def fifo_quiet_def push_enabled_def)
  obtain e where e: "tick_fifo GUEST_RAM_SIZE (hw_env s1) = Some e" "s' = tick_acpi (tick_count (s1\<lparr>hw_env := e\<rparr>))"
    using assms(2) q(2) unfolding hw_tick_callback_def Let_def s1_def [symmetric]
    by (auto simp: nv_lift_def Option.bind_eq_Some_conv)
  have "hw_pit s' = hw_pit s1" "hw_pic s' = nv_pic e"
    by (simp_all add: e(2) tick_acpi_def tick_count_def set_ram_def Let_def)
  thus ?thesis using pit pic keeps_tick_fifo [OF q(1) e(1)] by simp
qed

lemma timer_tick:
  assumes "quiet_unmapped s" and "timer_at k s" and "line0_open (hw_pic s)"
  obtains s' where "hw_tick_callback s = Some s'" "quiet_unmapped s'" "line0_open (hw_pic s')"
    "if k = 1 then bit (irr (master (hw_pic s'))) 0 else timer_at (k - 1) s'"
proof -
  define c where "c = ch (hw_pit s) 0"
  have c: "enabled c" "pmode c = 2 \<or> pmode c = 3" "0 < k" "k \<le> pit_period (reload c)" "pcount c = of_nat k"
    using assms(2) by (simp_all add: timer_at_def c_def Let_def)
  obtain s' where s': "hw_tick_callback s = Some s'" "quiet_unmapped s'"
    using quiet_tick [OF assms(1)] by blast
  have step: "pit_tick 1 (hw_pit s, hw_pic s) = (let (c', p') = pit_step (c, hw_pic s) in
      ((hw_pit s)\<lparr>ch := (ch (hw_pit s))(0 := c')\<rparr>, p'))"
    using c(1) by (simp add: pit_tick_def c_def [symmetric])
  have "line0_open (hw_pic s') \<and> (if k = 1 then bit (irr (master (hw_pic s'))) 0 else timer_at (k - 1) s')"
    using quiet_tick_pit [OF assms(1) s'(1)] assms(3) c pit_step_count [OF c(2-5), of "hw_pic s"]
    unfolding step
    by (cases "k = 1") (auto simp: keeps_line0_def line0_open_def timer_at_def Let_def raise_irq_def pic_raise_def bit_or_iff)
  thus thesis using s' that by blast
qed

lemma line0_pending: "line0_open p \<Longrightarrow> bit (irr (master p)) 0 \<Longrightarrow> pic_irq_check p"
proof -
  assume "line0_open p" "bit (irr (master p)) 0"
  hence "bit (pending_bits (master p)) 0"
    by (simp add: line0_open_def bit_pending_bits requested_def)
  moreover have "\<not> bit (line_bit 2) 0" by simp
  ultimately show ?thesis
    unfolding pic_irq_check_def pair_has_pending_def pic_has_pending_def
    by (metis bit_0_eq bot_apply bot_bool_def)
qed

lemma hw_ticks_first: "hw_ticks (Suc n) s = Option.bind (hw_tick_callback s) (hw_ticks n)"
proof (induction n)
  case (Suc n)
  thus ?case by (cases "hw_tick_callback s") simp_all
qed simp

lemma hlt_wait_wakes:
  assumes "quiet_unmapped (hw m)" and "timer_at k (hw m)" and "line0_open (hw_pic (hw m))" and "k \<le> n"
    and "h = xbox_hooks w em d c"
  shows "\<exists>j \<le> k. \<exists>m'. hlt_wait h n m = Some m' \<and> line_up h m' \<and> ctx m' = ctx m
    \<and> hw_ticks j (hw m) = Some (hw m')"
  using assms(1-4)
proof (induction n arbitrary: k m)
  case 0
  thus ?case by (simp add: timer_at_def Let_def)
next
  case (Suc n)
  have h: "line_up h x = pic_irq_check (hw_pic (hw x))" "tick_fn h = Some hw_tick_callback" for x
    by (simp_all add: assms(5) xbox_hooks_def line_up_def)
  show ?case
  proof (cases "line_up h m")
    case True
    thus ?thesis by (intro exI [where x = 0]) simp
  next
    case False
    obtain s' where s': "hw_tick_callback (hw m) = Some s'" "quiet_unmapped s'" "line0_open (hw_pic s')"
        "if k = 1 then bit (irr (master (hw_pic s'))) 0 else timer_at (k - 1) s'"
      using timer_tick [OF Suc.prems(1-3)] by blast
    define m1 where "m1 = m\<lparr>hw := s'\<rparr>"
    have step: "hlt_wait h (Suc n) m = hlt_wait h n m1"
      using False s'(1) h(2) by (simp add: on_hw_def m1_def)
    have k: "0 < k" using Suc.prems(2) by (simp add: timer_at_def Let_def)
    have "\<exists>j \<le> k - 1. \<exists>m'. hlt_wait h n m1 = Some m' \<and> line_up h m' \<and> ctx m' = ctx m1 \<and> hw_ticks j (hw m1) = Some (hw m')"
    proof (cases "k = 1")
      case True
      hence "line_up h m1" using s'(3,4) line0_pending by (simp add: h(1) m1_def)
      thus ?thesis by (intro exI [where x = 0]) (cases n; simp)
    next
      case False
      thus ?thesis using Suc.IH [of m1 "k - 1"] s' Suc.prems(4) by (simp add: m1_def)
    qed
    then obtain j m' where "j \<le> k - 1" "hlt_wait h n m1 = Some m'" "line_up h m'" "ctx m' = ctx m1" "hw_ticks j (hw m1) = Some (hw m')"
      by blast
    thus ?thesis using step k s'(1)
      by (intro exI [where x = "Suc j"]) (auto simp: hw_ticks_first m1_def simp del: hw_ticks.simps(2))
  qed
qed

text \<open>C32: A processor halted by HLT wakes by the timer.  In a machine whose NV2A register window is not
  committed and whose pusher has no work, with channel 0 of the timer in a periodic mode, at most 1024 ticks
  from its next output, and line 0 unmasked and not in service, the wait ends with an interrupt pending after
  no more ticks than the timer needed, behind the HLT and not halted; no register changes.\<close>

theorem hlt_wakes:
  assumes "fifo_quiet (nv (hw_env (hw m)))" and "\<not> fastmem_nv2a (nv (hw_env (hw m)))"
    and "unat (tick_accum (hw m)) < 716" and "timer_at k (hw m)" and "line0_open (hw_pic (hw m))"
    and "k \<le> HLT_MAX_TICKS" and "h = xbox_hooks w em d c"
  shows "\<exists>j \<le> k. \<exists>m'. resume_hlt h m = Some m' \<and> pic_irq_check (hw_pic (hw m')) \<and> hw_ticks j (hw m) = Some (hw m')
    \<and> ctx m' = (ctx m)\<lparr>eip := eip (ctx m) + 1, halted := False\<rparr>"
proof -
  let ?m = "upd_ctx (\<lambda>c. c\<lparr>eip := eip c + 1, halted := False\<rparr>) m"
  have "hw ?m = hw m" by (simp add: upd_ctx_def)
  then obtain j m' where "j \<le> k" "hlt_wait h HLT_MAX_TICKS ?m = Some m'" "line_up h m'" "ctx m' = ctx ?m"
      "hw_ticks j (hw m) = Some (hw m')"
    using hlt_wait_wakes [of ?m k HLT_MAX_TICKS h w em d c] assms by (auto simp: quiet_unmapped_def)
  thus ?thesis
    by (intro exI [where x = j] exI [where x = m'] conjI)
      (simp_all add: resume_hlt_def assms(7) line_up_def xbox_hooks_def upd_ctx_def)
qed

definition hlt_demo :: machine where
  "hlt_demo = (executor_init False)\<lparr>hw := set_pic (pic_pair_new\<lparr>master := (master pic_pair_new)\<lparr>imr := 0, isr := 0\<rparr>\<rparr>)
     ((xbox_setup False)\<lparr>hw_pit := pit_demo\<rparr>)\<rparr>"

theorem hlt_wakes_witness:
  "\<exists>j \<le> 3. \<exists>m'. resume_hlt idle_hooks hlt_demo = Some m' \<and> pic_irq_check (hw_pic (hw m'))
    \<and> hw_ticks j (hw hlt_demo) = Some (hw m')"
proof -
  have "fifo_quiet (nv (hw_env (hw hlt_demo)))" "\<not> fastmem_nv2a (nv (hw_env (hw hlt_demo)))"
      "unat (tick_accum (hw hlt_demo)) < 716"
    by (simp_all add: hlt_demo_def set_pic_def xbox_setup_def nv2a_new_def fifo_quiet_def)
  moreover have "timer_at 3 (hw hlt_demo)"
    using pit_demo_fields by (simp add: hlt_demo_def set_pic_def timer_at_def Let_def pit_period_def)
  moreover have "line0_open (hw_pic (hw hlt_demo))"
    by (simp add: hlt_demo_def set_pic_def line0_open_def)
  ultimately show ?thesis
    using hlt_wakes [of hlt_demo 3, OF _ _ _ _ _ _ idle_hooks_def] by auto
qed

section \<open>Halts other than HLT\<close>

text \<open>A stop at bytes that do not decode, or at an instruction the handler does not know, is treated like HLT:
  with an interrupt pending the machine goes on one byte further, inside the instruction, not halted.\<close>

theorem unknown_instruction_resumes:
  assumes "priv_fetch (gm s) = Some (Some bs, m)"
    and "case decode (world h) bs of None \<Rightarrow> True | Some i \<Rightarrow> mnem i = HLT \<or> mnem i = OtherMnemonic"
    and "line_up h m"
  shows "\<exists>s'. stop_privileged h s = Some s' \<and> prev_trace s' = None \<and> steps s' = steps s + 1
    \<and> gm s' = upd_ctx (\<lambda>c. c\<lparr>eip := eip c + 1, halted := False\<rparr>) m"
proof -
  let ?w = "(world h)\<lparr>tsc := clock h (steps s)\<rparr>"
  have p: "handle_privileged ?w (exec s) = Some ((exec s)\<lparr>mach := halt m\<rparr>)"
    using assms(1,2) by (cases "decode (world h) bs") (auto simp: handle_privileged_def on_mach_def priv_machine_def)
  have "resume_hlt h (halt m) = Some (upd_ctx (\<lambda>c. c\<lparr>eip := eip c + 1, halted := False\<rparr>) m)"
  proof -
    have "line_up h (upd_ctx f m) = line_up h m" for f by (simp add: line_up_def upd_ctx_def split: option.split)
    moreover have "upd_ctx (\<lambda>c. c\<lparr>eip := eip c + 1, halted := False\<rparr>) (halt m)
        = upd_ctx (\<lambda>c. c\<lparr>eip := eip c + 1, halted := False\<rparr>) m"
      by (simp add: upd_ctx_def halt_def)
    ultimately show ?thesis
      using assms(3) by (simp add: resume_hlt_def numeral_eq_Suc)
  qed
  thus ?thesis
    using p by (simp add: stop_privileged_def on_gm_def break_chain_def count_step_def upd_gm_def halt_def upd_ctx_def)
qed

definition unknown_hooks :: hooks where
  "unknown_hooks = idle_hooks\<lparr>irq_check := Some (\<lambda>_. True)\<rparr>"

theorem unknown_instruction_resumes_witness:
  "\<exists>s'. stop_privileged unknown_hooks idle_state = Some s' \<and> eip (ctx (gm s')) = 1 \<and> \<not> halted (ctx (gm s'))"
proof -
  have g: "gm idle_state = executor_init False"
    by (simp add: idle_state_def executor_start_def)
  have e: "eip (ctx (executor_init False)) = 0"
    by (simp add: executor_init_def guest_context_init_def)
  have "priv_fetch (gm idle_state)
      = Some (Some (get_list 15 (ram (executor_init False)) 0), executor_init False)"
    unfolding g priv_fetch_def exec_translate_flat [OF flat_init] by (simp add: e)
  moreover have "decode (world unknown_hooks) bs = None" for bs
    by (simp add: unknown_hooks_def idle_hooks_def xbox_hooks_def idle_world_def)
  moreover have "line_up unknown_hooks m" for m
    by (simp add: line_up_def unknown_hooks_def)
  ultimately show ?thesis
    using unknown_instruction_resumes [where s = idle_state and h = unknown_hooks] e
    by (auto simp: upd_ctx_def)
qed

section \<open>A countdown on the stack\<close>

lemma scan_nothing:
  assumes "\<And>off. off < 24 \<Longrightarrow> \<exists>b. code_byte pa off m = Some b \<and> b \<noteq> 0x3D \<and> b \<noteq> 0x81 \<and> b \<noteq> 0x83 \<and> b \<noteq> 0xFF"
    and "set offs \<subseteq> {..<24}"
  shows "scan_offsets pa offs m = Some (False, m)"
  using assms(2)
proof (induction offs)
  case (Cons off offs)
  then obtain b where "code_byte pa off m = Some b" "b \<noteq> 0x3D" "b \<noteq> 0x81" "b \<noteq> 0x83" "b \<noteq> 0xFF"
    using assms(1) [of off] by auto
  hence "scan_at pa off m = Some (Look_on, m)" by (simp add: scan_at_def)
  thus ?case using Cons by simp
qed simp

text \<open>A loop that counts a slot of the stack down with \<open>MOV reg, [ESP + disp]; DEC reg\<close> leaves the run loop
  at its 16th turn while the counter is above 32: neither halted nor out of budget, without the tick that
  was due.\<close>

lemma stack_countdown_leaves:
  assumes "\<And>off. off < 24 \<Longrightarrow> \<exists>b. code_byte pa off (gm s) = Some b \<and> b \<noteq> 0x3D \<and> b \<noteq> 0x81 \<and> b \<noteq> 0x83 \<and> b \<noteq> 0xFF"
    and "fits pa 32" "fits pa 12" "code_byte pa 0 (gm s) = Some 0x8B" "code_byte pa 1 (gm s) = Some 0x44"
    and "code_byte pa 2 (gm s) = Some 0x24" "code_byte pa 4 (gm s) = Some 0x48"
    and "reg GP_EAX (gm s) > 32" "cur_eip s = e" "spin_eip s = e" "spin_count s = 15"
  shows "\<exists>s'. spin_check h e pa s = Some (Leave s') \<and> gm s' = gm s \<and> steps s' = steps s"
proof -
  obtain d where d: "code_byte pa 3 (gm s) = Some d" using assms(1) [of 3] by auto
  have "scan_offsets pa [0..<24] (gm s) = Some (False, gm s)"
    by (rule scan_nothing [OF assms(1)]) auto
  hence "skip_loop pa (gm s) = Some (Leave_run, gm s)"
    using assms d by (simp add: skip_loop_def scan_stack_counter_def dec_of_def)
  thus ?thesis
    using assms by (simp add: spin_check_def spin_hit_def Let_def)
qed

end
