(* ===== verification/Pe_Loader.thy ===== *)
theory Pe_Loader
  imports Prelude
begin

text \<open>
  The PE image loader (\<open>src/src/xbox/pe_loader.hpp\<close>): \<open>load_pe\<close> and \<open>resolve_export_by_ordinal\<close>.

  A file is the list of its bytes; \<open>None\<close> stands for a file that cannot be opened, allocated for or read.
  Every access to the file buffer and to guest memory is checked against the size of the object;
  \<open>None\<close> as the result of a loader is an access outside of one of them.  The 32-bit sums the code
  compares are 32-bit sums here; the sums in which \<open>sizeof\<close> makes the type \<open>size_t\<close>, and pointer
  arithmetic, are on \<open>nat\<close>.

  \<open>load_pe\<close> reads the entry point from the file buffer after the buffer was freed.  The
  parameter \<open>freed\<close> is what the freed memory holds.
\<close>

section \<open>Checked buffers\<close>

definition file_bytes :: "u8 list \<Rightarrow> bytes" where
  "file_bytes f = (\<lambda>i. if i < length f then f ! i else 0)"

definition file_rd :: "nat \<Rightarrow> u8 list \<Rightarrow> nat \<Rightarrow> u32 option" where
  "file_rd n f a = rd (length f) n (file_bytes f) a"

definition fill_in :: "nat \<Rightarrow> nat \<Rightarrow> u8 \<Rightarrow> bytes \<Rightarrow> nat \<Rightarrow> bytes option" where
  "fill_in N n v m a = (if a + n \<le> N then Some (fill_bytes n v m a) else None)"

text \<open>\<open>memcpy(m + a, f + s, n)\<close> from a file buffer into a memory of \<open>N\<close> bytes.\<close>

definition copy_in :: "nat \<Rightarrow> nat \<Rightarrow> u8 list \<Rightarrow> nat \<Rightarrow> bytes \<Rightarrow> nat \<Rightarrow> bytes option" where
  "copy_in N n f s m a =
     (if s + n \<le> length f \<and> a + n \<le> N then Some (copy_bytes n (file_bytes f) s m a) else None)"

text \<open>\<open>(uint32_t)file_size\<close>\<close>

definition file_size32 :: "u8 list \<Rightarrow> u32" where
  "file_size32 f = of_nat (length f)"

section \<open>The headers\<close>

abbreviation DOS_MAGIC :: u32 where "DOS_MAGIC \<equiv> 0x5A4D"
abbreviation PE_SIG :: u32 where "PE_SIG \<equiv> 0x00004550"
abbreviation MACHINE_I386 :: u32 where "MACHINE_I386 \<equiv> 0x014C"
abbreviation PE32_MAGIC :: u32 where "PE32_MAGIC \<equiv> 0x010B"
abbreviation SIZEOF_DOS :: nat where "SIZEOF_DOS \<equiv> 64"
abbreviation SIZEOF_COFF :: nat where "SIZEOF_COFF \<equiv> 20"
abbreviation SIZEOF_OPT :: nat where "SIZEOF_OPT \<equiv> 0x60"
abbreviation SIZEOF_SECTION :: nat where "SIZEOF_SECTION \<equiv> 40"

text \<open>The offsets of the fields the loaders use, in \<open>DosHeader\<close>, \<open>CoffHeader\<close>, \<open>OptionalHeader32\<close>
  and \<open>SectionHeader\<close>.\<close>

definition dos_magic :: "u8 list \<Rightarrow> u32 option" where "dos_magic f = file_rd 2 f 0"
definition dos_lfanew :: "u8 list \<Rightarrow> u32 option" where "dos_lfanew f = file_rd 4 f 0x3C"

definition coff_at :: "u32 \<Rightarrow> nat" where "coff_at pe = unat pe + 4"
definition coff_machine :: "u8 list \<Rightarrow> u32 \<Rightarrow> u32 option" where
  "coff_machine f pe = file_rd 2 f (coff_at pe)"
definition coff_sections :: "u8 list \<Rightarrow> u32 \<Rightarrow> u32 option" where
  "coff_sections f pe = file_rd 2 f (coff_at pe + 2)"
definition coff_opt_size :: "u8 list \<Rightarrow> u32 \<Rightarrow> u32 option" where
  "coff_opt_size f pe = file_rd 2 f (coff_at pe + 0x10)"

definition opt_at :: "u32 \<Rightarrow> nat" where "opt_at pe = unat pe + 4 + SIZEOF_COFF"
definition opt_magic :: "u8 list \<Rightarrow> u32 \<Rightarrow> u32 option" where
  "opt_magic f pe = file_rd 2 f (opt_at pe)"
definition opt_entry :: "bytes \<Rightarrow> u32 \<Rightarrow> u32" where
  "opt_entry b pe = ld 4 b (opt_at pe + 0x10)"
definition opt_image_base :: "u8 list \<Rightarrow> u32 \<Rightarrow> u32 option" where
  "opt_image_base f pe = file_rd 4 f (opt_at pe + 0x1C)"
definition opt_image_size :: "u8 list \<Rightarrow> u32 \<Rightarrow> u32 option" where
  "opt_image_size f pe = file_rd 4 f (opt_at pe + 0x38)"
definition opt_header_size :: "u8 list \<Rightarrow> u32 \<Rightarrow> u32 option" where
  "opt_header_size f pe = file_rd 4 f (opt_at pe + 0x3C)"

record section_header =
  virtual_size :: u32
  virtual_address :: u32
  size_of_raw_data :: u32
  pointer_to_raw_data :: u32

definition section_at :: "u8 list \<Rightarrow> nat \<Rightarrow> section_header option" where
  "section_at f e = do {
     vsize \<leftarrow> file_rd 4 f (e + 0x08);
     va \<leftarrow> file_rd 4 f (e + 0x0C);
     rsize \<leftarrow> file_rd 4 f (e + 0x10);
     roff \<leftarrow> file_rd 4 f (e + 0x14);
     Some \<lparr>virtual_size = vsize, virtual_address = va, size_of_raw_data = rsize,
       pointer_to_raw_data = roff\<rparr>
   }"

text \<open>\<open>sect_offset\<close> and \<open>entry_off\<close>, both truncated to 32 bits.\<close>

definition section_table :: "u32 \<Rightarrow> u32 \<Rightarrow> u32" where
  "section_table pe opt_size = of_nat (unat pe + 4 + SIZEOF_COFF + unat opt_size)"

definition section_entry :: "u32 \<Rightarrow> nat \<Rightarrow> u32" where
  "section_entry sect i = of_nat (unat sect + i * SIZEOF_SECTION)"

section \<open>Loading\<close>

text \<open>How much of a section is copied from the file.\<close>

definition copy_size :: "u8 list \<Rightarrow> section_header \<Rightarrow> u32" where
  "copy_size f s =
     (let cs = (if size_of_raw_data s < virtual_size s then size_of_raw_data s else virtual_size s);
          roff = pointer_to_raw_data s in
      if roff + cs > file_size32 f
      then (if file_size32 f > roff then file_size32 f - roff else 0)
      else cs)"

text \<open>The body of the section loop of \<open>load_pe\<close>; \<open>continue\<close> leaves the memory as it is.\<close>

definition load_section :: "nat \<Rightarrow> u32 \<Rightarrow> u8 list \<Rightarrow> section_header \<Rightarrow> bytes \<Rightarrow> bytes option" where
  "load_section N base f s m =
     (if base + virtual_address s + virtual_size s > of_nat N then Some m
      else if copy_size f s > 0
      then copy_in N (unat (copy_size f s)) f (unat (pointer_to_raw_data s)) m
        (unat base + unat (virtual_address s))
      else Some m)"

text \<open>The loop over the table: \<open>n\<close> entries are left from entry \<open>i\<close>; an entry that ends past the
  file leaves the loop.\<close>

primrec section_loop ::
  "(section_header \<Rightarrow> bytes \<Rightarrow> bytes option) \<Rightarrow> u8 list \<Rightarrow> u32 \<Rightarrow> nat \<Rightarrow> nat \<Rightarrow> bytes \<Rightarrow> bytes option" where
  "section_loop body f sect 0 i m = Some m"
| "section_loop body f sect (Suc n) i m =
     (let e = unat (section_entry sect i) in
      if e + SIZEOF_SECTION > unat (file_size32 f) then Some m
      else do {
        s \<leftarrow> section_at f e;
        m \<leftarrow> body s m;
        section_loop body f sect n (Suc i) m
      })"

record load_result =
  lr_ok :: bool
  lr_entry_point :: u32
  lr_image_base :: u32
  lr_image_size :: u32
  lr_num_sections :: u32

definition load_failed :: load_result where
  "load_failed = \<lparr>lr_ok = False, lr_entry_point = 0, lr_image_base = 0, lr_image_size = 0,
     lr_num_sections = 0\<rparr>"

text \<open>\<open>load_pe\<close> after the header checks: the image is zeroed, the headers are copied, then the sections.\<close>

definition place_image :: "nat \<Rightarrow> u8 list \<Rightarrow> u32 \<Rightarrow> u32 \<Rightarrow> u32 \<Rightarrow> bytes \<Rightarrow> bytes option" where
  "place_image N f at image_size hdr_size m = do {
     m \<leftarrow> fill_in N (unat image_size) 0 m (unat at);
     copy_in N (unat (if hdr_size > file_size32 f then file_size32 f else hdr_size)) f 0 m (unat at)
   }"

definition load_pe :: "nat \<Rightarrow> bytes \<Rightarrow> u8 list option \<Rightarrow> bytes \<Rightarrow> (load_result \<times> bytes) option" where
  "load_pe N freed file m =
     (case file of None \<Rightarrow> Some (load_failed, m) | Some f \<Rightarrow>
      if length f < SIZEOF_DOS then Some (load_failed, m) else do {
      magic \<leftarrow> dos_magic f;
      if magic \<noteq> DOS_MAGIC then Some (load_failed, m) else do {
      pe \<leftarrow> dos_lfanew f;
      if unat pe + 4 + SIZEOF_COFF > unat (file_size32 f) then Some (load_failed, m) else do {
      sig \<leftarrow> file_rd 4 f (unat pe);
      if sig \<noteq> PE_SIG then Some (load_failed, m) else do {
      machine \<leftarrow> coff_machine f pe;
      if machine \<noteq> MACHINE_I386 then Some (load_failed, m) else do {
      opt_size \<leftarrow> coff_opt_size f pe;
      if unat opt_size < SIZEOF_OPT then Some (load_failed, m) else do {
      omagic \<leftarrow> opt_magic f pe;
      if omagic \<noteq> PE32_MAGIC then Some (load_failed, m) else do {
      base \<leftarrow> opt_image_base f pe;
      isize \<leftarrow> opt_image_size f pe;
      hsize \<leftarrow> opt_header_size f pe;
      if base + isize > of_nat N then Some (load_failed, m) else do {
      m \<leftarrow> place_image N f base isize hsize m;
      n \<leftarrow> coff_sections f pe;
      m \<leftarrow> section_loop (load_section N base f) f (section_table pe opt_size) (unat n) 0 m;
      Some (\<lparr>lr_ok = True, lr_entry_point = base + opt_entry freed pe, lr_image_base = base,
        lr_image_size = isize, lr_num_sections = n\<rparr>, m)
      }}}}}}}})"

section \<open>Exports\<close>

text \<open>The headers are read again, from guest memory of \<open>N\<close> bytes, without any bound of the code's own.\<close>

definition resolve_export_by_ordinal :: "nat \<Rightarrow> bytes \<Rightarrow> u32 \<Rightarrow> u32 \<Rightarrow> u32 option" where
  "resolve_export_by_ordinal N m base ordinal = do {
     magic \<leftarrow> rd N 2 m (unat base);
     if magic \<noteq> DOS_MAGIC then Some 0 else do {
     pe \<leftarrow> rd N 4 m (unat base + 0x3C);
     sig \<leftarrow> rd N 4 m (unat base + unat pe);
     if sig \<noteq> PE_SIG then Some 0 else do {
     dirs \<leftarrow> rd N 4 m (unat base + opt_at pe + 0x5C);
     if dirs = 0 then Some 0 else do {
     export_rva \<leftarrow> rd N 4 m (unat base + opt_at pe + 0x60);
     export_size \<leftarrow> rd N 4 m (unat base + opt_at pe + 0x64);
     if export_rva = 0 \<or> export_size = 0 then Some 0 else do {
     ordinal_base \<leftarrow> rd N 4 m (unat base + unat export_rva + 0x10);
     functions \<leftarrow> rd N 4 m (unat base + unat export_rva + 0x14);
     let index = ordinal - ordinal_base;
     if index \<ge> functions then Some 0 else do {
     table \<leftarrow> rd N 4 m (unat base + unat export_rva + 0x1C);
     func_rva \<leftarrow> rd N 4 m (unat base + unat table + unat (index * 4));
     Some (base + func_rva)
     }}}}}
   }"

section \<open>What an image is\<close>

text \<open>The description of an image without any 32-bit arithmetic: its header fields and its sections.\<close>

record pe_image =
  im_base :: u32
  im_size :: u32
  im_headers :: u32
  im_table :: u32
  im_sections :: "section_header list"

definition raw_size :: "section_header \<Rightarrow> nat" where
  "raw_size s = min (unat (size_of_raw_data s)) (unat (virtual_size s))"

text \<open>A section lies in the file and in the image.\<close>

definition section_ok :: "u8 list \<Rightarrow> u32 \<Rightarrow> section_header \<Rightarrow> bool" where
  "section_ok f isz s \<longleftrightarrow>
     unat (pointer_to_raw_data s) + raw_size s \<le> length f \<and>
     unat (virtual_address s) + unat (virtual_size s) \<le> unat isz"

definition pe_file :: "u8 list \<Rightarrow> u32 \<Rightarrow> pe_image \<Rightarrow> bool" where
  "pe_file f pe im \<longleftrightarrow>
     length f < 2 ^ 31 \<and> SIZEOF_DOS \<le> length f \<and>
     dos_magic f = Some DOS_MAGIC \<and> dos_lfanew f = Some pe \<and>
     file_rd 4 f (unat pe) = Some PE_SIG \<and> coff_machine f pe = Some MACHINE_I386 \<and>
     opt_at pe + SIZEOF_OPT \<le> length f \<and> opt_magic f pe = Some PE32_MAGIC \<and>
     opt_image_base f pe = Some (im_base im) \<and> opt_image_size f pe = Some (im_size im) \<and>
     opt_header_size f pe = Some (im_headers im) \<and>
     (case (coff_opt_size f pe, coff_sections f pe) of
        (Some k, Some n) \<Rightarrow> SIZEOF_OPT \<le> unat k \<and> im_table im = section_table pe k \<and>
          unat n = length (im_sections im)
      | _ \<Rightarrow> False) \<and>
     unat (im_headers im) \<le> length f \<and> im_headers im \<le> im_size im \<and>
     unat (im_table im) + SIZEOF_SECTION * length (im_sections im) \<le> length f \<and>
     list_all (\<lambda>i. section_at f (unat (im_table im) + SIZEOF_SECTION * i) = Some (im_sections im ! i))
       [0..<length (im_sections im)] \<and>
     list_all (section_ok f (im_size im)) (im_sections im)"

text \<open>The byte of the image at an offset: from the last section that covers it, from the headers,
  or zero.\<close>

definition covers :: "nat \<Rightarrow> section_header \<Rightarrow> bool" where
  "covers x s \<longleftrightarrow> unat (virtual_address s) \<le> x \<and> x < unat (virtual_address s) + raw_size s"

definition image_byte :: "u8 list \<Rightarrow> pe_image \<Rightarrow> nat \<Rightarrow> u8" where
  "image_byte f im x =
     (case find (covers x) (rev (im_sections im)) of
        Some s \<Rightarrow> f ! (unat (pointer_to_raw_data s) + (x - unat (virtual_address s)))
      | None \<Rightarrow> if x < unat (im_headers im) then f ! x else 0)"

section \<open>The section loop\<close>

definition place_section :: "u8 list \<Rightarrow> nat \<Rightarrow> section_header \<Rightarrow> bytes \<Rightarrow> bytes" where
  "place_section f at s m =
     copy_bytes (raw_size s) (file_bytes f) (unat (pointer_to_raw_data s)) m (at + unat (virtual_address s))"

lemma file_size32_unat: "length f < 2 ^ 31 \<Longrightarrow> unat (file_size32 f) = length f"
  by (simp add: file_size32_def unsigned_of_nat take_bit_nat_eq_self)

lemma unat_of_nat_32: "n < 4294967296 \<Longrightarrow> unat (of_nat n :: u32) = n"
  by (simp add: unsigned_of_nat take_bit_nat_eq_self)

lemma unat_plus: "unat (a :: u32) + unat b < 4294967296 \<Longrightarrow> unat (a + b) = unat a + unat b"
  by (simp add: unat_word_ariths)

lemma copy_size_ok:
  assumes f: "length f < 2 ^ 31" and s: "section_ok f isz s"
  shows "unat (copy_size f s) = raw_size s"
proof -
  let ?cs = "if size_of_raw_data s < virtual_size s then size_of_raw_data s else virtual_size s"
  have cs: "unat ?cs = raw_size s" by (simp add: raw_size_def word_less_nat_alt)
  have fit: "unat (pointer_to_raw_data s) + unat ?cs \<le> length f"
    using s cs by (simp add: section_ok_def)
  then have "unat (pointer_to_raw_data s + ?cs) = unat (pointer_to_raw_data s) + unat ?cs"
    using f by (intro unat_plus) simp
  then have "\<not> pointer_to_raw_data s + ?cs > file_size32 f"
    using fit file_size32_unat [OF f] by (simp add: word_less_nat_alt)
  then have "copy_size f s = ?cs" by (simp only: copy_size_def Let_def if_False)
  then show ?thesis using cs by simp
qed

lemma copy_bytes_0 [simp]: "copy_bytes 0 src s m a = m"
  by (rule ext) (auto simp: copy_bytes_def)

lemma load_section_ok:
  assumes f: "length f < 2 ^ 31" and s: "section_ok f isz s"
    and N: "unat base + unat isz \<le> N" "N < 2 ^ 32"
  shows "load_section N base f s m = Some (place_section f (unat base) s m)"
proof -
  have va: "unat (virtual_address s) + unat (virtual_size s) \<le> unat isz"
    and raw: "unat (pointer_to_raw_data s) + raw_size s \<le> length f" "raw_size s \<le> unat (virtual_size s)"
    using s by (simp_all add: section_ok_def raw_size_def)
  have b: "unat (base + virtual_address s) = unat base + unat (virtual_address s)"
    by (rule unat_plus) (use va N in simp)
  have "unat (base + virtual_address s + virtual_size s) =
      unat (base + virtual_address s) + unat (virtual_size s)"
    by (rule unat_plus) (use va N b in simp)
  then have "\<not> base + virtual_address s + virtual_size s > of_nat N"
    using va N b by (simp add: word_less_nat_alt unsigned_of_nat take_bit_nat_eq_self)
  moreover have "copy_size f s > 0 \<longleftrightarrow> raw_size s > 0"
    using copy_size_ok [OF f s] by (simp add: word_less_nat_alt)
  ultimately show ?thesis
    using va N raw by (simp add: load_section_def copy_size_ok [OF f s] copy_in_def place_section_def)
qed

lemma section_loop_fold:
  assumes f: "length f < 2 ^ 31" and fit: "unat t + SIZEOF_SECTION * length ss \<le> length f"
    and sec: "\<And>i. i < length ss \<Longrightarrow> section_at f (unat t + SIZEOF_SECTION * i) = Some (ss ! i)"
    and body: "\<And>s m. s \<in> set ss \<Longrightarrow> body s m = Some (g s m)"
    and i: "i + n = length ss"
  shows "section_loop body f t n i m = Some (fold g (drop i ss) m)"
  using i
proof (induction n arbitrary: i m)
  case 0
  then show ?case by simp
next
  case (Suc n)
  have i: "i < length ss" using Suc.prems by simp
  have "SIZEOF_SECTION * i + SIZEOF_SECTION \<le> SIZEOF_SECTION * length ss"
    using i by simp
  then have e: "unat t + i * SIZEOF_SECTION + SIZEOF_SECTION \<le> length f" using fit by simp
  have entry: "unat (section_entry t i) = unat t + i * SIZEOF_SECTION"
    unfolding section_entry_def by (rule unat_of_nat_32) (use e f in simp)
  have "section_at f (unat (section_entry t i)) = Some (ss ! i)"
    using sec [OF i] by (simp add: entry mult.commute)
  moreover have "\<not> unat (section_entry t i) + SIZEOF_SECTION > unat (file_size32 f)"
    using e by (simp add: entry file_size32_unat [OF f])
  ultimately show ?case
    using Suc.IH [of "Suc i"] Suc.prems i body [of "ss ! i"]
    by (simp add: Cons_nth_drop_Suc [symmetric] Let_def)
qed

lemma fold_place_sections:
  "fold (place_section f at) ss m i =
     (case find (covers (i - at)) (rev ss) of
        Some s \<Rightarrow> if at \<le> i then file_bytes f (unat (pointer_to_raw_data s) + (i - at - unat (virtual_address s)))
          else m i
      | None \<Rightarrow> m i)"
proof (induction ss rule: rev_induct)
  case Nil
  then show ?case by simp
next
  case (snoc s ss)
  show ?case
    using snoc.IH
    by (cases "at \<le> i"; cases "covers (i - at) s")
      (auto simp: place_section_def copy_bytes_def covers_def split: option.splits)
qed

section \<open>Loading a well-formed image\<close>

definition loaded_image :: "u8 list \<Rightarrow> pe_image \<Rightarrow> nat \<Rightarrow> bytes \<Rightarrow> bytes" where
  "loaded_image f im at m =
     (\<lambda>i. if at \<le> i \<and> i < at + unat (im_size im) then image_byte f im (i - at) else m i)"

lemma find_last_Some: "find P (rev xs) = Some x \<Longrightarrow> x \<in> set xs \<and> P x"
  by (metis find_Some_iff nth_mem set_rev)

lemma place_image_ok:
  assumes pe: "pe_file f pe im" and N: "at + unat (im_size im) \<le> N" and a: "unat a = at"
  shows "place_image N f a (im_size im) (im_headers im) m =
    Some (copy_bytes (unat (im_headers im)) (file_bytes f) 0 (fill_bytes (unat (im_size im)) 0 m at) at)"
proof -
  have h: "unat (im_headers im) \<le> length f" "unat (im_headers im) \<le> unat (im_size im)"
    and f: "length f < 2 ^ 31"
    using pe by (simp_all add: pe_file_def word_le_nat_alt)
  have "\<not> im_headers im > file_size32 f"
    using h file_size32_unat [OF f] by (simp add: word_less_nat_alt)
  then show ?thesis using h N a by (simp add: place_image_def fill_in_def copy_in_def)
qed

lemma pe_file_loop:
  assumes pe: "pe_file f pe im"
    and body: "\<And>s m. s \<in> set (im_sections im) \<Longrightarrow> section_ok f (im_size im) s \<Longrightarrow> body s m = Some (g s m)"
  shows "section_loop body f (im_table im) (length (im_sections im)) 0 m = Some (fold g (im_sections im) m)"
proof -
  have ok: "list_all (section_ok f (im_size im)) (im_sections im)"
    and at: "list_all (\<lambda>i. section_at f (unat (im_table im) + SIZEOF_SECTION * i) = Some (im_sections im ! i))
      [0..<length (im_sections im)]"
    and f: "length f < 2 ^ 31" "unat (im_table im) + SIZEOF_SECTION * length (im_sections im) \<le> length f"
    using pe by (simp_all add: pe_file_def)
  have "section_loop body f (im_table im) (length (im_sections im)) 0 m = Some (fold g (drop 0 (im_sections im)) m)"
  proof (rule section_loop_fold [OF f])
    show "section_at f (unat (im_table im) + SIZEOF_SECTION * i) = Some (im_sections im ! i)"
      if "i < length (im_sections im)" for i
      using at that by (simp add: list_all_length)
    show "body s m = Some (g s m)" if "s \<in> set (im_sections im)" for s m
      using body [OF that] ok that by (simp add: list_all_iff)
  qed simp
  then show ?thesis by simp
qed

lemma placed_image:
  assumes pe: "pe_file f pe im"
  shows "fold (place_section f at) (im_sections im)
      (copy_bytes (unat (im_headers im)) (file_bytes f) 0 (fill_bytes (unat (im_size im)) 0 m at) at)
    = loaded_image f im at m"
proof
  fix i
  have h: "unat (im_headers im) \<le> length f" "unat (im_headers im) \<le> unat (im_size im)"
    and ok: "list_all (section_ok f (im_size im)) (im_sections im)"
    using pe by (simp_all add: pe_file_def word_le_nat_alt)
  show "fold (place_section f at) (im_sections im)
      (copy_bytes (unat (im_headers im)) (file_bytes f) 0 (fill_bytes (unat (im_size im)) 0 m at) at) i
    = loaded_image f im at m i"
  proof (cases "find (covers (i - at)) (rev (im_sections im))")
    case None
    then show ?thesis
      using h by (auto simp: fold_place_sections loaded_image_def image_byte_def copy_bytes_def fill_bytes_def file_bytes_def)
  next
    case (Some s)
    then have "s \<in> set (im_sections im)" and c: "covers (i - at) s" using find_last_Some by fastforce+
    then have "section_ok f (im_size im) s" using ok by (simp add: list_all_iff)
    then have b: "i - at < unat (im_size im)" and r: "unat (pointer_to_raw_data s) + (i - at - unat (virtual_address s)) < length f"
      using c by (auto simp: section_ok_def covers_def raw_size_def)
    show ?thesis
      using Some b r h by (auto simp: fold_place_sections loaded_image_def image_byte_def copy_bytes_def fill_bytes_def file_bytes_def)
  qed
qed

lemma file_rd_Some: "file_rd n f a = Some v \<Longrightarrow> a + n \<le> length f"
  by (simp add: file_rd_def rd_def split: if_splits)

text \<open>C36: A well-formed image that fits in guest memory is loaded without an access outside of
  the file buffer or guest memory, and every byte of memory is known afterwards: inside the image the
  byte of the last section that covers it, of the headers, or zero; outside of it what it was.  The
  entry point is computed from the freed file buffer.\<close>

theorem load_pe_image:
  assumes "pe_file f pe im" and "unat (im_base im) + unat (im_size im) \<le> N" and "N < 2 ^ 32"
  shows "load_pe N freed (Some f) m =
    Some (\<lparr>lr_ok = True, lr_entry_point = im_base im + opt_entry freed pe, lr_image_base = im_base im,
        lr_image_size = im_size im, lr_num_sections = of_nat (length (im_sections im))\<rparr>,
      loaded_image f im (unat (im_base im)) m)"
proof -
  have f: "length f < 2 ^ 31" "SIZEOF_DOS \<le> length f" and o: "opt_at pe + SIZEOF_OPT \<le> length f"
    using assms(1) by (simp_all add: pe_file_def)
  obtain k n where k: "coff_opt_size f pe = Some k" "coff_sections f pe = Some n" "SIZEOF_OPT \<le> unat k"
      "im_table im = section_table pe k" "unat n = length (im_sections im)"
    using assms(1) by (auto simp: pe_file_def split: option.splits)
  have e: "\<not> unat pe + 4 + SIZEOF_COFF > unat (file_size32 f)"
    using o file_size32_unat [OF f(1)] by (simp add: opt_at_def)
  have fit: "\<not> im_base im + im_size im > of_nat N"
    using assms(2,3) unat_plus [of "im_base im" "im_size im"]
    by (simp add: word_less_nat_alt unsigned_of_nat take_bit_nat_eq_self)
  have loop: "section_loop (load_section N (im_base im) f) f (section_table pe k) (length (im_sections im)) 0 b =
      Some (fold (place_section f (unat (im_base im))) (im_sections im) b)" for b
    using pe_file_loop [OF assms(1), where body = "load_section N (im_base im) f"] k(4,5)
      load_section_ok [OF f(1) _ assms(2,3)] by simp
  have n: "of_nat (length (im_sections im)) = n" by (simp flip: k(5))
  show ?thesis
    using assms(1) f(2) e fit k(3)
    by (simp add: load_pe_def k(1,2) loop n place_image_ok [OF assms(1,2) refl] placed_image [OF assms(1)] pe_file_def)
qed

text \<open>A file of 288 bytes: one section of three bytes at offset 0x10 of an image of 0x20 bytes,
  four bytes of headers.\<close>

definition put_fields :: "(nat \<times> nat \<times> u32) list \<Rightarrow> bytes \<Rightarrow> bytes" where
  "put_fields = fold (\<lambda>(n, a, v) b. st n b a v)"

definition pe_demo_bytes :: "u32 \<Rightarrow> bytes" where
  "pe_demo_bytes base = put_fields
     [(2, 0, 0x5A4D), (4, 0x3C, 64), (4, 64, 0x4550),
      (2, 68, 0x14C), (2, 70, 1), (2, 84, 0x60),
      (2, 88, 0x10B), (4, 0x68, 0x11), (4, 0x74, base), (4, 0x90, 0x20), (4, 0x94, 4),
      (4, 192, 3), (4, 196, 0x10), (4, 200, 3), (4, 204, 240),
      (4, 240, 0x090807)] (\<lambda>_. 0)"

definition pe_demo :: "u32 \<Rightarrow> u8 list" where
  "pe_demo base = get_list 288 (pe_demo_bytes base) 0"

definition pe_demo_image :: "u32 \<Rightarrow> pe_image" where
  "pe_demo_image base = \<lparr>im_base = base, im_size = 0x20, im_headers = 4, im_table = 184,
     im_sections = [\<lparr>virtual_size = 3, virtual_address = 0x10, size_of_raw_data = 3,
       pointer_to_raw_data = 240\<rparr>]\<rparr>"

lemma file_rd_get_list: "a + n \<le> L \<Longrightarrow> file_rd n (get_list L b 0) a = Some (ld n b a)"
  by (auto simp: file_rd_def file_bytes_def get_list_def intro!: ld_cong)

lemma ld_put_list_other: "a + n \<le> b \<or> b + length xs \<le> a \<Longrightarrow> ld n (put_list xs m b) a = ld n m a"
  by (rule ld_cong) (auto simp: put_list_apply)

lemma pe_demo_rd: "a + n \<le> 288 \<Longrightarrow> file_rd n (pe_demo base) a = Some (ld n (pe_demo_bytes base) a)"
  by (simp add: pe_demo_def file_rd_get_list)

lemma pe_demo_fields:
  "ld 2 (pe_demo_bytes base) 0 = 0x5A4D" "ld 4 (pe_demo_bytes base) 0x3C = 64" "ld 4 (pe_demo_bytes base) 64 = 0x4550"
  "ld 2 (pe_demo_bytes base) 68 = 0x14C" "ld 2 (pe_demo_bytes base) 70 = 1" "ld 2 (pe_demo_bytes base) 84 = 0x60"
  "ld 2 (pe_demo_bytes base) 88 = 0x10B" "ld 4 (pe_demo_bytes base) 116 = base" "ld 4 (pe_demo_bytes base) 144 = 0x20"
  "ld 4 (pe_demo_bytes base) 148 = 4" "ld 4 (pe_demo_bytes base) 192 = 3" "ld 4 (pe_demo_bytes base) 196 = 0x10"
  "ld 4 (pe_demo_bytes base) 200 = 3" "ld 4 (pe_demo_bytes base) 204 = 240" "ld 4 (pe_demo_bytes base) 104 = 0x11"
  by (simp_all add: pe_demo_bytes_def put_fields_def ld_st_disjoint ld_st_same)

lemma pe_demo_file: "pe_file (pe_demo base) 64 (pe_demo_image base)"
  by (simp add: pe_file_def dos_magic_def dos_lfanew_def coff_machine_def coff_opt_size_def coff_sections_def
      opt_magic_def opt_image_base_def opt_image_size_def opt_header_size_def coff_at_def opt_at_def
      pe_demo_rd pe_demo_fields section_at_def section_ok_def raw_size_def section_table_def
      pe_demo_image_def) (simp add: pe_demo_def)

theorem load_pe_image_witness:
  "pe_file (pe_demo 0x100) 64 (pe_demo_image 0x100) \<and>
   (\<exists>r m. load_pe 4096 (pe_demo_bytes 0x100) (Some (pe_demo 0x100)) (\<lambda>_. 0xFF) = Some (r, m) \<and> lr_ok r \<and>
      lr_entry_point r = 0x111 \<and> m 0x110 = 7 \<and> m 0x112 = 9 \<and> m 0x113 = 0 \<and> m 0x120 = 0xFF)"
proof -
  have "load_pe 4096 (pe_demo_bytes 0x100) (Some (pe_demo 0x100)) (\<lambda>_. 0xFF) =
    Some (\<lparr>lr_ok = True, lr_entry_point = im_base (pe_demo_image 0x100) + opt_entry (pe_demo_bytes 0x100) 64,
        lr_image_base = im_base (pe_demo_image 0x100), lr_image_size = im_size (pe_demo_image 0x100),
        lr_num_sections = of_nat (length (im_sections (pe_demo_image 0x100)))\<rparr>,
      loaded_image (pe_demo 0x100) (pe_demo_image 0x100) (unat (im_base (pe_demo_image 0x100))) (\<lambda>_. 0xFF))"
    by (rule load_pe_image [OF pe_demo_file]) (simp_all add: pe_demo_image_def)
  moreover have "im_base (pe_demo_image 0x100) + opt_entry (pe_demo_bytes 0x100) 64 = 0x111"
    by (simp add: pe_demo_image_def opt_entry_def opt_at_def pe_demo_fields)
  moreover have "loaded_image (pe_demo 0x100) (pe_demo_image 0x100) (unat (im_base (pe_demo_image 0x100))) (\<lambda>_. 0xFF) i =
      (if i = 0x110 then 7 else if i = 0x112 then 9 else if i = 0x113 then 0 else 0xFF)"
    if "i \<in> {0x110, 0x112, 0x113, 0x120}" for i
    using that by (auto simp: loaded_image_def pe_demo_image_def image_byte_def covers_def raw_size_def
      pe_demo_def get_list_def pe_demo_bytes_def put_fields_def st_apply)
  ultimately show ?thesis using pe_demo_file by simp
qed

text \<open>The check on the end of a section is on a 32-bit sum.  A virtual address close to \<open>2 ^ 32\<close> passes
  it, and the section is written outside of guest memory.\<close>

lemma section_wraps_outside:
  assumes "base + va + 3 \<le> of_nat N" and "N < unat base + unat va" and "length f < 2 ^ 31" and "3 \<le> length f"
  shows "load_section N base f
    \<lparr>virtual_size = 3, virtual_address = va, size_of_raw_data = 3, pointer_to_raw_data = 0\<rparr> m = None"
proof -
  have "unat (file_size32 f) = length f" using assms(3) by (rule file_size32_unat)
  then have "copy_size f \<lparr>virtual_size = 3, virtual_address = va, size_of_raw_data = 3, pointer_to_raw_data = 0\<rparr> = 3"
    using assms(4) by (simp add: copy_size_def word_less_nat_alt)
  then show ?thesis using assms by (simp add: load_section_def copy_in_def)
qed

end
