(* ===== verification/Kernel_Boot.thy ===== *)
theory Kernel_Boot
  imports Paging Pe_Loader
begin

text \<open>
  Booting nboxkrnl (\<open>src/src/xbox/nboxkrnl_boot.hpp\<close>): the image is loaded at its address less
  \<open>0x80000000\<close>, page tables of large pages are set up, and the processor enters with paging on.
  The entry point is read from the freed file buffer, as in \<open>load_pe\<close>; the messages are left out.
\<close>

abbreviation KERNEL_VA_BASE :: u32 where "KERNEL_VA_BASE \<equiv> 0x80400000"
abbreviation KERNEL_VA_OFFSET :: u32 where "KERNEL_VA_OFFSET \<equiv> 0x80000000"
abbreviation PAGE_DIR_PA :: nat where "PAGE_DIR_PA \<equiv> 0xF000"
abbreviation STACK_VA :: u32 where "STACK_VA \<equiv> 0x80430000"

section \<open>Page tables and processor state\<close>

definition identity_pde :: "nat \<Rightarrow> u32" where
  "identity_pde i = (of_nat i * 0x00400000) OR 0xE3"

definition mirror_pde :: "nat \<Rightarrow> u32" where
  "mirror_pde i = (0x80000000 + of_nat i * 0x00400000) OR 0xE3"

text \<open>\<open>for (i = 0; i < n; ++i) p[i] = g(i)\<close> on the 32-bit words from address \<open>a\<close>.\<close>

definition put_dwords :: "(nat \<Rightarrow> u32) \<Rightarrow> nat \<Rightarrow> nat \<Rightarrow> bytes \<Rightarrow> bytes" where
  "put_dwords g n a m = fold (\<lambda>i m. st 4 m (a + 4 * i) (g i)) [0..<n] m"

definition setup_page_tables :: "bytes \<Rightarrow> bytes" where
  "setup_page_tables m =
     (let m = fill_bytes 0x1000 0 m PAGE_DIR_PA;
          m = put_dwords identity_pde 32 PAGE_DIR_PA m;
          m = put_dwords mirror_pde 32 (PAGE_DIR_PA + 4 * 0x200) m
      in st 4 m (PAGE_DIR_PA + 4 * 0x300) (of_nat PAGE_DIR_PA OR 0x63))"

definition setup_cpu_state :: "guest_context \<Rightarrow> guest_context" where
  "setup_cpu_state c = c\<lparr>cr0 := 0x80000021, cr3 := of_nat PAGE_DIR_PA, cr4 := 0x00000610,
     cs_sel := 0x08, ds_sel := 0x10, ss_sel := 0x10, es_sel := 0x10, gs_sel := 0x10, fs_sel := 0x18,
     fs_base := 0, gs_base := 0, gp := (gp c)(GP_ESP := STACK_VA, GP_EBP := STACK_VA),
     eflags := 0x00000002, virtual_if := False\<rparr>"

section \<open>Booting\<close>

text \<open>The body of the section loop: the destination is a 32-bit sum here.\<close>

definition boot_section :: "u32 \<Rightarrow> u8 list \<Rightarrow> section_header \<Rightarrow> bytes \<Rightarrow> bytes option" where
  "boot_section load_pa f s m =
     (let dest_pa = load_pa + virtual_address s in
      if dest_pa + virtual_size s > of_nat GUEST_RAM_SIZE then Some m
      else if copy_size f s > 0
      then copy_in GUEST_RAM_SIZE (unat (copy_size f s)) f (unat (pointer_to_raw_data s)) m (unat dest_pa)
      else Some m)"

record boot_config =
  kernel_pe :: "u8 list option"
  boot_keys :: "u8 list option"

definition key_bytes :: "boot_config \<Rightarrow> u8 list" where
  "key_bytes cfg = (case boot_keys cfg of None \<Rightarrow> replicate 32 0 | Some ks \<Rightarrow> take 32 ks)"

definition finish_boot :: "boot_config \<Rightarrow> bytes \<Rightarrow> machine \<Rightarrow> machine" where
  "finish_boot cfg b m =
     set_mem (put_list (key_bytes cfg) (setup_page_tables b) (unat (STACK_VA - KERNEL_VA_OFFSET)))
       (upd_ctx setup_cpu_state m)"

text \<open>The value is the entry point, 0 for a refused file.  There is no check of the file's length
  before the headers are read.\<close>

definition boot_nboxkrnl :: "bytes \<Rightarrow> boot_config \<Rightarrow> machine \<Rightarrow> (u32 \<times> machine) option" where
  "boot_nboxkrnl freed cfg m =
     (case kernel_pe cfg of None \<Rightarrow> Some (0, m) | Some f \<Rightarrow> do {
      magic \<leftarrow> dos_magic f;
      if magic \<noteq> DOS_MAGIC then Some (0, m) else do {
      pe \<leftarrow> dos_lfanew f;
      sig \<leftarrow> file_rd 4 f (unat pe);
      if sig \<noteq> PE_SIG then Some (0, m) else do {
      machine \<leftarrow> coff_machine f pe;
      if machine \<noteq> MACHINE_I386 then Some (0, m) else do {
      omagic \<leftarrow> opt_magic f pe;
      if omagic \<noteq> PE32_MAGIC then Some (0, m) else do {
      base \<leftarrow> opt_image_base f pe;
      isize \<leftarrow> opt_image_size f pe;
      hsize \<leftarrow> opt_header_size f pe;
      if base < KERNEL_VA_BASE then Some (0, m) else do {
      let load_pa = base - KERNEL_VA_OFFSET;
      if load_pa + isize > of_nat GUEST_RAM_SIZE then Some (0, m) else do {
      b \<leftarrow> place_image GUEST_RAM_SIZE f load_pa isize hsize (ram m);
      opt_size \<leftarrow> coff_opt_size f pe;
      n \<leftarrow> coff_sections f pe;
      b \<leftarrow> section_loop (boot_section load_pa f) f (section_table pe opt_size) (unat n) 0 b;
      Some (base + opt_entry freed pe, finish_boot cfg b m)
      }}}}}}})"

section \<open>The address space it sets up\<close>

lemma pde_of_boot: "unat (pde_addr 0xF000 va) = 0xF000 + 4 * unat (take_bit 10 (drop_bit 22 va))"
  using entry_addr_unat(1) [of "0xF000" va] by (simp add: alias_pa_def)

lemma put_dwords_Suc: "put_dwords g (Suc n) a m = st 4 (put_dwords g n a m) (a + 4 * n) (g n)"
  by (simp add: put_dwords_def)

lemma put_dwords_other: "j < a \<or> a + 4 * n \<le> j \<Longrightarrow> put_dwords g n a m j = m j"
  by (induction n) (auto simp: put_dwords_Suc, simp_all add: put_dwords_def)

lemma ld_put_dwords: "i < n \<Longrightarrow> ld 4 (put_dwords g n a m) (a + 4 * i) = g i"
proof (induction n)
  case (Suc n)
  then show ?case by (cases "i = n") (auto simp: put_dwords_Suc ld_st_disjoint)
qed simp

lemma ld_put_dwords_other: "b + k \<le> a \<or> a + 4 * n \<le> b \<Longrightarrow> ld k (put_dwords g n a m) b = ld k m b"
  by (rule ld_cong) (auto simp: put_dwords_other)

lemma setup_pde:
  assumes "i < 32"
  shows "ld 4 (setup_page_tables m) (PAGE_DIR_PA + 4 * i) = identity_pde i"
    and "ld 4 (setup_page_tables m) (PAGE_DIR_PA + 4 * (0x200 + i)) = mirror_pde i"
proof -
  show "ld 4 (setup_page_tables m) (PAGE_DIR_PA + 4 * i) = identity_pde i"
    using assms unfolding setup_page_tables_def Let_def
    by (subst ld_st_disjoint) (auto simp: ld_put_dwords_other ld_put_dwords)
  have "PAGE_DIR_PA + 4 * (0x200 + i) = (PAGE_DIR_PA + 4 * 0x200) + 4 * i" by simp
  then show "ld 4 (setup_page_tables m) (PAGE_DIR_PA + 4 * (0x200 + i)) = mirror_pde i"
    using assms unfolding setup_page_tables_def Let_def
    by (simp only:) (subst ld_st_disjoint, auto simp: ld_put_dwords)
qed

lemma setup_page_tables_other:
  "j < PAGE_DIR_PA \<or> PAGE_DIR_PA + 0x1000 \<le> j \<Longrightarrow> setup_page_tables m j = m j"
  by (auto simp: setup_page_tables_def Let_def fill_bytes_def put_dwords_other)

text \<open>A large page is found at its own address, through the mirror at the alias.\<close>

lemma pde_bits:
  fixes x y :: u32
  assumes "x = push_bit 22 y"
  shows "bit (x OR 0xE3) 0" "bit (x OR 0xE3) 1" "bit (x OR 0xE3) 7" "push_bit 22 (drop_bit 22 (x OR 0xE3)) = x"
proof -
  have E3: "bit (0xE3 :: u32) n \<longleftrightarrow> n \<in> {0, 1, 5, 6, 7}" for n
  proof -
    have "(0xE3 :: u32) = 2 ^ 0 OR (2 ^ 1 OR (2 ^ 5 OR (2 ^ 6 OR 2 ^ 7)))" by simp
    then show ?thesis by (simp only: bit_or_iff bit_exp_iff) auto
  qed
  show "bit (x OR 0xE3) 0" "bit (x OR 0xE3) 1" "bit (x OR 0xE3) 7" by (simp_all add: bit_or_iff E3)
  show "push_bit 22 (drop_bit 22 (x OR 0xE3)) = x"
    by (rule bit_word_eqI) (auto simp: assms bit_push_bit_iff bit_drop_bit_eq bit_or_iff E3)
qed

lemma boot_lookup:
  assumes t: "\<And>i. i < 0x1000 \<Longrightarrow> b (PAGE_DIR_PA + i) = setup_page_tables m (PAGE_DIR_PA + i)"
    and va: "va < 0x08000000 \<or> 0x80000000 \<le> va \<and> va < 0x88000000"
  shows "pt_lookup 0xF000 b va w = Some (alias_pa va)"
proof -
  define j where "j = unat (take_bit 10 (drop_bit 22 va))"
  have d: "take_bit 10 (drop_bit 22 va) = drop_bit 22 va"
    by (rule bit_word_eqI) (auto simp: bit_take_bit_iff bit_drop_bit_eq dest: bit_u32)
  have "unat (drop_bit 22 va) = unat va div 2 ^ 22" 
    by (subst unat_drop_bit_eq) (rule drop_bit_eq_div)
  then have u: "j = unat va div 4194304" by (simp add: j_def d)
  have j: "j < 32 \<or> (\<exists>i < 32. j = 0x200 + i)"
    using va
  proof (elim disjE)
    assume "va < 0x08000000"
    then have "unat va < 32 * 4194304" by (simp add: word_less_nat_alt)
    then show ?thesis unfolding u by (simp add: less_mult_imp_div_less)
  next
    assume "0x80000000 \<le> va \<and> va < 0x88000000"
    then have "unat va < 544 * 4194304" "0x200 * 4194304 \<le> unat va"
      by (simp_all add: word_less_nat_alt word_le_nat_alt)
    then have "unat va div 4194304 < 544" "0x200 \<le> unat va div 4194304"
      by (simp_all add: less_mult_imp_div_less less_eq_div_iff_mult_less_eq)
    then show ?thesis unfolding u by (intro disjI2 exI [where x = "unat va div 4194304 - 0x200"]) simp
  qed
  have w: "drop_bit 22 va = of_nat j" by (simp add: j_def d)
  have "ld 4 b (PAGE_DIR_PA + 4 * j) = ld 4 (setup_page_tables m) (PAGE_DIR_PA + 4 * j)"
  proof (rule ld_cong)
    fix a assume "PAGE_DIR_PA + 4 * j \<le> a" "a < PAGE_DIR_PA + 4 * j + 4"
    moreover have "j < 1024" using j by auto
    ultimately have "a - PAGE_DIR_PA < 0x1000" "PAGE_DIR_PA + (a - PAGE_DIR_PA) = a" by simp_all
    then show "b a = setup_page_tables m a" using t [of "a - PAGE_DIR_PA"] by (simp only:)
  qed
  also have "\<dots> = push_bit 22 (drop_bit 22 va) OR 0xE3"
    using j
  proof (elim disjE exE conjE)
    assume "j < 32"
    then show ?thesis using setup_pde(1) [of j m] by (simp add: identity_pde_def w push_bit_eq_mult)
  next
    fix i assume "i < 32" "j = 0x200 + i"
    then show ?thesis
      using setup_pde(2) [of i m] by (simp add: mirror_pde_def w push_bit_eq_mult distrib_right)
  qed
  finally have b: "ld 4 b (PAGE_DIR_PA + 4 * j) = push_bit 22 (drop_bit 22 va) OR 0xE3" .
  have a: "unat (pde_addr 0xF000 va) = PAGE_DIR_PA + 4 * j" by (simp add: pde_of_boot j_def)
  have va': "push_bit 22 (drop_bit 22 va) OR take_bit 22 va = va"
    by (rule bit_word_eqI) (auto simp: bit_or_iff bit_push_bit_iff bit_drop_bit_eq bit_take_bit_iff)
  have in_ram: "\<not> GUEST_RAM_SIZE < PAGE_DIR_PA + 4 * j + 4" using j by auto
  show ?thesis
    unfolding pt_lookup_eq Let_def a b pde_bits(4) [OF refl]
    using in_ram pde_bits(1-3) [OF refl, of "drop_bit 22 va"] va' by (simp del: bit_0)
qed

section \<open>The booted kernel\<close>

lemma boot_section_ok:
  assumes f: "length f < 2 ^ 31" and s: "section_ok f isz s"
    and N: "unat a + unat isz \<le> GUEST_RAM_SIZE"
  shows "boot_section a f s m = Some (place_section f (unat a) s m)"
proof -
  have va: "unat (virtual_address s) + unat (virtual_size s) \<le> unat isz"
    and raw: "unat (pointer_to_raw_data s) + raw_size s \<le> length f" "raw_size s \<le> unat (virtual_size s)"
    using s by (simp_all add: section_ok_def raw_size_def)
  have b: "unat (a + virtual_address s) = unat a + unat (virtual_address s)"
    by (rule unat_plus) (use va N in simp)
  have "unat (a + virtual_address s + virtual_size s) = unat (a + virtual_address s) + unat (virtual_size s)"
    by (rule unat_plus) (use va N b in simp)
  then have "\<not> a + virtual_address s + virtual_size s > of_nat GUEST_RAM_SIZE"
    using va N b by (simp add: word_less_nat_alt)
  moreover have "copy_size f s > 0 \<longleftrightarrow> raw_size s > 0"
    using copy_size_ok [OF f s] by (simp add: word_less_nat_alt)
  ultimately show ?thesis
    using va N raw b
    by (simp add: boot_section_def Let_def copy_size_ok [OF f s] copy_in_def place_section_def)
qed

lemma length_key_bytes: "length (key_bytes cfg) \<le> 32"
  by (simp add: key_bytes_def split: option.split)

text \<open>The image is in memory, but for the keys where the two overlap.\<close>

definition booted :: "u8 list \<Rightarrow> pe_image \<Rightarrow> boot_config \<Rightarrow> machine \<Rightarrow> machine" where
  "booted f im cfg m =
     finish_boot cfg (loaded_image f im (unat (im_base im - KERNEL_VA_OFFSET)) (ram m)) m"

definition kernel_fits :: "pe_image \<Rightarrow> bool" where
  "kernel_fits im \<longleftrightarrow> KERNEL_VA_BASE \<le> im_base im \<and>
     unat (im_base im - KERNEL_VA_OFFSET) + unat (im_size im) \<le> GUEST_RAM_SIZE"

lemma boot_image:
  assumes "pe_file f pe im" and "kernel_fits im" and "kernel_pe cfg = Some f"
  shows "boot_nboxkrnl freed cfg m = Some (im_base im + opt_entry freed pe, booted f im cfg m)"
proof -
  have f: "length f < 2 ^ 31" using assms(1) by (simp add: pe_file_def)
  obtain k n where k: "coff_opt_size f pe = Some k" "coff_sections f pe = Some n"
      "im_table im = section_table pe k" "unat n = length (im_sections im)"
    using assms(1) by (auto simp: pe_file_def split: option.splits)
  define a where "a = im_base im - KERNEL_VA_OFFSET"
  have N: "unat a + unat (im_size im) \<le> GUEST_RAM_SIZE" and b: "\<not> im_base im < KERNEL_VA_BASE"
    using assms(2) by (simp_all add: kernel_fits_def a_def not_less)
  have fit: "\<not> a + im_size im > of_nat GUEST_RAM_SIZE"
    using N unat_plus [of a "im_size im"] by (simp add: word_less_nat_alt)
  have loop: "section_loop (boot_section a f) f (section_table pe k) (length (im_sections im)) 0 d =
      Some (fold (place_section f (unat a)) (im_sections im) d)" for d
    using pe_file_loop [OF assms(1), where body = "boot_section a f"] k(3) boot_section_ok [OF f _ N] by simp
  show ?thesis
    using assms(1) b fit
    by (simp add: boot_nboxkrnl_def assms(3) k(1,2) loop place_image_ok [OF assms(1) N refl] booted_def
      placed_image [OF assms(1)] pe_file_def Let_def flip: a_def)
qed

lemma finish_boot_tables:
  assumes "i < 0x1000"
  shows "ram (finish_boot cfg b m) (PAGE_DIR_PA + i) = setup_page_tables b (PAGE_DIR_PA + i)"
  using assms by (simp add: finish_boot_def put_list_apply)

lemma finish_boot_above:
  assumes "0x10000 \<le> i"
  shows "ram (finish_boot cfg b m) i =
    (if 0x430000 \<le> i \<and> i < 0x430000 + length (key_bytes cfg) then key_bytes cfg ! (i - 0x430000) else b i)"
  using assms by (simp add: finish_boot_def put_list_apply setup_page_tables_other)

lemma booted_map:
  assumes "0x80000000 \<le> va" "va < 0x88000000"
  shows "pt_lookup (cr3 (ctx (booted f im cfg m))) (ram (booted f im cfg m)) va w = Some (va - 0x80000000)"
proof -
  have "cr3 (ctx (booted f im cfg m)) = 0xF000" by (simp add: booted_def finish_boot_def setup_cpu_state_def)
  then show ?thesis
    using boot_lookup [of "ram (booted f im cfg m)" "loaded_image f im (unat (im_base im - KERNEL_VA_OFFSET)) (ram m)" va w]
      assms by (simp add: booted_def finish_boot_tables alias_pa_def)
qed

lemma booted_byte:
  assumes "kernel_fits im" and x: "x < unat (im_size im)"
  defines "pa \<equiv> im_base im + of_nat x - 0x80000000"
  shows "pt_lookup (cr3 (ctx (booted f im cfg m))) (ram (booted f im cfg m)) (im_base im + of_nat x) w = Some pa"
    and "ram (booted f im cfg m) (unat pa) =
      (if 0x430000 \<le> unat pa \<and> unat pa < 0x430000 + length (key_bytes cfg)
       then key_bytes cfg ! (unat pa - 0x430000) else image_byte f im x)"
proof -
  have base: "0x80400000 \<le> unat (im_base im)"
    using assms(1) by (simp add: kernel_fits_def word_le_nat_alt)
  then have a: "unat (im_base im - KERNEL_VA_OFFSET) = unat (im_base im) - 0x80000000"
    by (subst unat_sub) (simp_all add: word_le_nat_alt)
  have hi: "unat (im_base im) - 0x80000000 + unat (im_size im) \<le> GUEST_RAM_SIZE"
    using assms(1) unfolding kernel_fits_def a by simp
  have va: "unat (im_base im + of_nat x) = unat (im_base im) + x"
    using x base hi unat_plus [of "im_base im" "of_nat x"] by (simp add: unat_of_nat_32)
  have pa: "unat pa = unat (im_base im) - 0x80000000 + x"
    using base va unfolding pa_def by (subst unat_sub) (simp_all add: word_le_nat_alt)
  show "pt_lookup (cr3 (ctx (booted f im cfg m))) (ram (booted f im cfg m)) (im_base im + of_nat x) w = Some pa"
    unfolding pa_def using base hi va x by (intro booted_map) (simp_all add: word_le_nat_alt word_less_nat_alt)
  show "ram (booted f im cfg m) (unat pa) =
      (if 0x430000 \<le> unat pa \<and> unat pa < 0x430000 + length (key_bytes cfg)
       then key_bytes cfg ! (unat pa - 0x430000) else image_byte f im x)"
  proof -
    define n where "n = unat (im_base im) - 0x80000000"
    then have n: "unat (im_base im) = 0x80000000 + n" using base by simp
    show ?thesis
      unfolding booted_def using base x hi by (subst finish_boot_above) (simp_all add: loaded_image_def pa a n)
  qed
qed

lemma booted_key:
  assumes "j < length (key_bytes cfg)"
  shows "pt_lookup (cr3 (ctx (booted f im cfg m))) (ram (booted f im cfg m)) (STACK_VA + of_nat j) w = Some (0x430000 + of_nat j)"
    and "ram (booted f im cfg m) (unat (0x430000 + of_nat j :: u32)) = key_bytes cfg ! j"
proof -
  have j: "j < 32" using assms length_key_bytes [of cfg] by simp
  have u: "unat (c + of_nat j :: u32) = unat c + j" if "unat c \<le> 0x80430000" for c
    using that j unat_plus [of c "of_nat j"] by (simp add: unat_of_nat_32)
  have "pt_lookup (cr3 (ctx (booted f im cfg m))) (ram (booted f im cfg m)) (STACK_VA + of_nat j) w =
      Some (STACK_VA + of_nat j - 0x80000000)"
    using j u [of STACK_VA] by (intro booted_map) (simp_all add: word_le_nat_alt word_less_nat_alt)
  then show "pt_lookup (cr3 (ctx (booted f im cfg m))) (ram (booted f im cfg m)) (STACK_VA + of_nat j) w = Some (0x430000 + of_nat j)"
    by simp
  show "ram (booted f im cfg m) (unat (0x430000 + of_nat j :: u32)) = key_bytes cfg ! j"
    using assms u [of "0x430000"] by (simp add: booted_def finish_boot_above)
qed

text \<open>The stack pointer at entry; \<open>stack_pa\<close> is where the keys are put.\<close>

lemma booted_stack: "reg GP_ESP (booted f im cfg m) = STACK_VA" "STACK_VA - KERNEL_VA_OFFSET = 0x430000"
  by (simp_all add: booted_def finish_boot_def setup_cpu_state_def)


definition boot_demo :: boot_config where
  "boot_demo = \<lparr>kernel_pe = Some (pe_demo 0x80400000), boot_keys = None\<rparr>"

lemma boot_demo_fits: "kernel_fits (pe_demo_image 0x80400000)" "kernel_pe boot_demo = Some (pe_demo 0x80400000)"
  by (simp_all add: kernel_fits_def pe_demo_image_def boot_demo_def)


end
