(* ===== verification/Xbe_Loader.thy ===== *)
theory Xbe_Loader
  imports Paging Pe_Loader
begin

text \<open>
  The XBE loader (\<open>src/src/xbox/hle/xbe_loader.hpp\<close>) with the kernel data exports of
  \<open>src/src/xbox/hle/hle_kernel.hpp\<close>: title decoding, the stub table of the high-level kernel, the data
  page, and \<open>load_xbe\<close>.

  The globals \<open>HLE_STUB_BASE\<close> and \<open>KDATA_BASE\<close> are the record \<open>hle_bases\<close>.  As in \<open>Pe_Loader\<close> the
  sums the code takes on 32 bits wrap, the ones on \<open>size_t\<close> are on \<open>nat\<close>, and \<open>None\<close> is an access
  outside guest memory or the file.  Messages are left out.
\<close>

section \<open>Titles\<close>

fun ucs2_to_utf8 :: "u16 list \<Rightarrow> u8 list" where
  "ucs2_to_utf8 [] = []"
| "ucs2_to_utf8 (w # ws) =
     (if w = 0 then []
      else (if w < 0x80 then [ucast w]
            else if w < 0x800 then [0xC0 OR ucast (drop_bit 6 w), 0x80 OR ucast (w AND 0x3F)]
            else [0xE0 OR ucast (drop_bit 12 w), 0x80 OR ucast (drop_bit 6 w AND 0x3F), 0x80 OR ucast (w AND 0x3F)])
        @ ucs2_to_utf8 ws)"

section \<open>The high-level kernel's memory\<close>

abbreviation MAX_KERNEL_ORDINALS :: nat where "MAX_KERNEL_ORDINALS \<equiv> 379"
abbreviation HLE_INT_VECTOR :: u8 where "HLE_INT_VECTOR \<equiv> 0x20"
abbreviation HLE_STUB_SIZE :: nat where "HLE_STUB_SIZE \<equiv> 8"
abbreviation KDATA_SIZE :: nat where "KDATA_SIZE \<equiv> 0x1000"

record hle_bases =
  stub_base :: u32
  kdata_base :: u32

definition default_bases :: hle_bases where
  "default_bases = \<lparr>stub_base = 0x00080000, kdata_base = 0x00081000\<rparr>"

definition write_stub :: "nat \<Rightarrow> u32 \<Rightarrow> bytes \<Rightarrow> bytes" where
  "write_stub a ord m =
     (st 4 (m(a := 0xB8)) (a + 1) ord)(a + 5 := 0xCD, a + 6 := HLE_INT_VECTOR, a + 7 := 0xC3)"

definition write_hle_stubs :: "hle_bases \<Rightarrow> bytes \<Rightarrow> bytes option" where
  "write_hle_stubs h m =
     (if unat (stub_base h) + MAX_KERNEL_ORDINALS * HLE_STUB_SIZE \<le> GUEST_RAM_SIZE
      then Some (fold (\<lambda>ord. write_stub (unat (stub_base h) + ord * HLE_STUB_SIZE) (of_nat ord))
        [0..<MAX_KERNEL_ORDINALS] m)
      else None)"

definition hle_stub_addr :: "hle_bases \<Rightarrow> u32 \<Rightarrow> u32" where
  "hle_stub_addr h ord = stub_base h + ord * of_nat HLE_STUB_SIZE"

text \<open>The data exports by ordinal, with their offsets in the data page.\<close>

definition kdata_table :: "(u32 \<times> u32) list" where
  "kdata_table =
     [(156, 0x000), (322, 0x004), (324, 0x00C), (164, 0x014), (326, 0x018),
      (40, 0x060), (41, 0x064), (42, 0x094), (88, 0x0B0), (89, 0x0B1),
      (120, 0x0B4), (154, 0x0C0), (157, 0x0CC), (162, 0x0D0), (356, 0x0E4),
      (357, 0x0E8), (102, 0x168), (16, 0x188), (22, 0x1A8), (30, 0x1C8), (31, 0x1E8),
      (64, 0x208), (70, 0x228), (71, 0x248), (240, 0x268), (245, 0x288), (249, 0x2A8),
      (259, 0x2C8), (321, 0x2E8), (323, 0x2F8), (325, 0x308), (353, 0x318), (354, 0x328),
      (355, 0x428)]"

definition kernel_data_addr :: "hle_bases \<Rightarrow> u32 \<Rightarrow> u32" where
  "kernel_data_addr h ord = (case map_of kdata_table ord of Some off \<Rightarrow> kdata_base h + off | None \<Rightarrow> 0)"

definition write_guest_ansi_string :: "bytes \<Rightarrow> u32 \<Rightarrow> u32 \<Rightarrow> string \<Rightarrow> bytes option" where
  "write_guest_ansi_string m str_va buf_va txt = do {
     let len = of_nat (length txt);
     m \<leftarrow> wr GUEST_RAM_SIZE 2 m (unat str_va) len;
     m \<leftarrow> wr GUEST_RAM_SIZE 2 m (unat str_va + 2) (len + 1);
     m \<leftarrow> wr GUEST_RAM_SIZE 4 m (unat str_va + 4) buf_va;
     (if unat buf_va + length txt + 1 \<le> GUEST_RAM_SIZE
      then Some (put_list (ascii txt @ [0]) m (unat buf_va)) else None)
   }"

text \<open>Each part after a backslash.\<close>

definition backslashed :: "string list \<Rightarrow> string" where
  "backslashed ps = concat (map (\<lambda>p. CHR 0x5C # p) ps)"

definition init_kernel_data :: "hle_bases \<Rightarrow> bytes \<Rightarrow> bytes option" where
  "init_kernel_data h m = do {
     let k = kdata_base h;
     m \<leftarrow> fill_in GUEST_RAM_SIZE KDATA_SIZE 0 m (unat k);
     m \<leftarrow> wr GUEST_RAM_SIZE 4 m (unat k) 1;
     m \<leftarrow> wr GUEST_RAM_SIZE 4 m (unat (k + 0x004)) 0x20;
     m \<leftarrow> wr GUEST_RAM_SIZE 1 m (unat (k + 0x004) + 4) 0xA1;
     m \<leftarrow> wr GUEST_RAM_SIZE 1 m (unat (k + 0x004) + 5) 0xD4;
     m \<leftarrow> wr GUEST_RAM_SIZE 4 m (unat (k + 0x00C)) 1;
     m \<leftarrow> wr GUEST_RAM_SIZE 4 m (unat (k + 0x00C) + 4) (5838 OR push_bit 16 1);
     m \<leftarrow> wr GUEST_RAM_SIZE 4 m (unat (k + 0x014)) 0;
     m \<leftarrow> write_guest_ansi_string m (k + 0x018) (k + 0x020) 
       (backslashed [''Device'', ''Harddisk0'', ''Partition2'', ''xboxdash.xbe'']);
     m \<leftarrow> wr GUEST_RAM_SIZE 4 m (unat (k + 0x060)) 3;
     m \<leftarrow> write_guest_ansi_string m (k + 0x064) (k + 0x06C) ''XXXXXX'';
     m \<leftarrow> write_guest_ansi_string m (k + 0x094) (k + 0x09C) ''123456'';
     m \<leftarrow> wr GUEST_RAM_SIZE 1 m (unat (k + 0x0B0)) 0;
     m \<leftarrow> wr GUEST_RAM_SIZE 1 m (unat (k + 0x0B1)) 1;
     m \<leftarrow> wr GUEST_RAM_SIZE 4 m (unat (k + 0x0CC)) 10000;
     wr GUEST_RAM_SIZE 4 m (unat (k + 0x0E4)) 1
   }"

section \<open>Loading an XBE\<close>

abbreviation XBE_MAGIC :: u32 where "XBE_MAGIC \<equiv> 0x48454258"
abbreviation SIZEOF_XBE_HEADER :: nat where "SIZEOF_XBE_HEADER \<equiv> 0x178"
abbreviation SIZEOF_XBE_SECTION :: nat where "SIZEOF_XBE_SECTION \<equiv> 56"
abbreviation SIZEOF_CERTIFICATE :: nat where "SIZEOF_CERTIFICATE \<equiv> 0x1D0"
abbreviation SIZEOF_TLS :: nat where "SIZEOF_TLS \<equiv> 24"

abbreviation XOR_EP_DEBUG :: u32 where "XOR_EP_DEBUG \<equiv> 0x94859D4B"
abbreviation XOR_EP_RETAIL :: u32 where "XOR_EP_RETAIL \<equiv> 0xA8FC57AB"
abbreviation XOR_KT_DEBUG :: u32 where "XOR_KT_DEBUG \<equiv> 0xEFB1F152"
abbreviation XOR_KT_RETAIL :: u32 where "XOR_KT_RETAIL \<equiv> 0x5B6D40B6"

definition decode_xor :: "u32 \<Rightarrow> u32 \<Rightarrow> u32 \<Rightarrow> u32 \<Rightarrow> u32 \<Rightarrow> u32" where
  "decode_xor encoded retail_key debug_key base image_end =
     (let v = encoded XOR retail_key in
      if v \<ge> base \<and> v < image_end then v
      else let v = encoded XOR debug_key in
        if v \<ge> base \<and> v < image_end then v else encoded XOR retail_key)"

record xbe_info =
  xi_entry_point :: u32
  xi_base_address :: u32
  xi_image_size :: u32
  xi_stack_size :: u32
  xi_kernel_thunk_va :: u32
  xi_num_sections :: u32
  xi_tls_addr :: u32
  xi_hle_stub_base :: u32
  xi_kdata_base :: u32
  xi_valid :: bool
  xi_title :: "u8 list"

definition no_xbe :: xbe_info where
  "no_xbe = \<lparr>xi_entry_point = 0, xi_base_address = 0, xi_image_size = 0, xi_stack_size = 0,
     xi_kernel_thunk_va = 0, xi_num_sections = 0, xi_tls_addr = 0, xi_hle_stub_base = 0,
     xi_kdata_base = 0, xi_valid = False, xi_title = []\<rparr>"

text \<open>The header fields; the size check makes all of them readable.\<close>

definition xbe_field :: "u8 list \<Rightarrow> nat \<Rightarrow> u32" where
  "xbe_field f off = ld 4 (file_bytes f) off"

abbreviation "xbe_base f \<equiv> xbe_field f 0x104"
abbreviation "xbe_header_size f \<equiv> xbe_field f 0x108"
abbreviation "xbe_image_size f \<equiv> xbe_field f 0x10C"
abbreviation "xbe_certificate f \<equiv> xbe_field f 0x118"
abbreviation "xbe_num_sections f \<equiv> xbe_field f 0x11C"
abbreviation "xbe_sections_addr f \<equiv> xbe_field f 0x120"

definition xbe_image_end :: "u8 list \<Rightarrow> u32" where
  "xbe_image_end f = xbe_base f + xbe_image_size f"

definition title_words :: "bytes \<Rightarrow> nat \<Rightarrow> u16 list" where
  "title_words b a = map (\<lambda>i. ucast (ld 2 b (a + 2 * i))) [0..<40]"

definition xbe_title :: "u8 list \<Rightarrow> u8 list" where
  "xbe_title f =
     (if xbe_certificate f \<noteq> 0 then
        let cert_off = unat (xbe_certificate f - xbe_base f) in
        if cert_off + SIZEOF_CERTIFICATE \<le> length f
        then ucs2_to_utf8 (title_words (file_bytes f) (cert_off + 0x0C)) else []
      else [])"

definition xbe_info_of :: "u8 list \<Rightarrow> xbe_info" where
  "xbe_info_of f = no_xbe\<lparr>
     xi_entry_point := decode_xor (xbe_field f 0x128) XOR_EP_RETAIL XOR_EP_DEBUG (xbe_base f) (xbe_image_end f),
     xi_kernel_thunk_va := decode_xor (xbe_field f 0x158) XOR_KT_RETAIL XOR_KT_DEBUG (xbe_base f) (xbe_image_end f),
     xi_base_address := xbe_base f, xi_stack_size := xbe_field f 0x130,
     xi_num_sections := xbe_num_sections f, xi_tls_addr := xbe_field f 0x12C, xi_title := xbe_title f\<rparr>"

definition xbe_copy_size :: "u8 list \<Rightarrow> u32 \<Rightarrow> u32 \<Rightarrow> u32 \<Rightarrow> u32" where
  "xbe_copy_size f roff rsz vsz =
     (let cs = (if unat (roff + rsz) > length f
                then (if length f > unat roff then of_nat (length f - unat roff) else 0) else rsz)
      in if cs > vsz then vsz else cs)"

definition load_xbe_section :: "u8 list \<Rightarrow> nat \<Rightarrow> bytes \<Rightarrow> bytes option" where
  "load_xbe_section f e m = do {
     va \<leftarrow> file_rd 4 f (e + 0x04);
     vsz \<leftarrow> file_rd 4 f (e + 0x08);
     roff \<leftarrow> file_rd 4 f (e + 0x0C);
     rsz \<leftarrow> file_rd 4 f (e + 0x10);
     if va + vsz > of_nat GUEST_RAM_SIZE then Some m
     else do {
       m \<leftarrow> fill_in GUEST_RAM_SIZE (unat vsz) 0 m (unat va);
       let cs = xbe_copy_size f roff rsz vsz;
       if cs > 0 then copy_in GUEST_RAM_SIZE (unat cs) f (unat roff) m (unat va) else Some m
     }
   }"

primrec load_xbe_sections :: "u8 list \<Rightarrow> nat \<Rightarrow> nat \<Rightarrow> nat \<Rightarrow> bytes \<Rightarrow> bytes option" where
  "load_xbe_sections f t 0 i m = Some m"
| "load_xbe_sections f t (Suc n) i m =
     Option.bind (load_xbe_section f (t + i * SIZEOF_XBE_SECTION) m) (load_xbe_sections f t n (Suc i))"

text \<open>The headers and sections: \<open>Inl\<close> is the return with the image refused, \<open>Inr\<close> goes on.\<close>

definition map_xbe :: "u8 list \<Rightarrow> bytes \<Rightarrow> (bytes + bytes) option" where
  "map_xbe f m =
     (if xbe_base f + xbe_header_size f > of_nat GUEST_RAM_SIZE then Some (Inl m)
      else do {
        let n = (if unat (xbe_header_size f) > length f then length f else unat (xbe_header_size f));
        m \<leftarrow> copy_in GUEST_RAM_SIZE n f 0 m (unat (xbe_base f));
        let t = unat (xbe_sections_addr f - xbe_base f);
        if t + unat (xbe_num_sections f) * SIZEOF_XBE_SECTION > length f then Some (Inl m)
        else map_option Inr (load_xbe_sections f t (unat (xbe_num_sections f)) 0 m)
      })"

text \<open>Where the stubs and the data page go: above the image, when they fit.\<close>

definition page_align :: "u32 \<Rightarrow> u32" where
  "page_align x = (x + 0xFFF) AND NOT 0xFFF"

definition place_hle :: "u32 \<Rightarrow> hle_bases \<Rightarrow> hle_bases" where
  "place_hle image_end h =
     (let stubs_needed = of_nat (MAX_KERNEL_ORDINALS * HLE_STUB_SIZE);
          b = page_align image_end in
      if b + stubs_needed + 0x1000 < of_nat GUEST_RAM_SIZE
      then \<lparr>stub_base = b, kdata_base = page_align (b + stubs_needed)\<rparr>
      else h)"

definition resolve_import :: "hle_bases \<Rightarrow> u32 \<Rightarrow> u32" where
  "resolve_import h entry =
     (let ordinal = entry AND 0x7FFFFFFF; data_va = kernel_data_addr h ordinal in
      if data_va \<noteq> 0 then data_va else hle_stub_addr h ordinal)"

function resolve_thunks :: "hle_bases \<Rightarrow> u32 \<Rightarrow> bytes \<Rightarrow> bytes option" where
  "resolve_thunks h off m =
     (if off + 4 > of_nat GUEST_RAM_SIZE then Some m
      else if unat off + 4 > GUEST_RAM_SIZE then None
      else let entry = ld 4 m (unat off) in
        if entry = 0 then Some m
        else resolve_thunks h (off + 4)
          (if entry AND 0x80000000 \<noteq> 0 then st 4 m (unat off) (resolve_import h entry) else m))"
  by pat_completeness auto
termination
  by (relation "measure (\<lambda>(_, off, _). GUEST_RAM_SIZE - unat off)") (auto simp: unat_plus)

declare resolve_thunks.simps [simp del]

definition clear_tls_index :: "u32 \<Rightarrow> u32 \<Rightarrow> bytes \<Rightarrow> bytes option" where
  "clear_tls_index base tls_addr m =
     (if tls_addr \<noteq> 0 \<and> unat tls_addr + SIZEOF_TLS \<le> GUEST_RAM_SIZE then
        let ix = ld 4 m (unat tls_addr + 8) in
        if ix \<ge> base \<and> ix + 4 \<le> of_nat GUEST_RAM_SIZE then wr GUEST_RAM_SIZE 4 m (unat ix) 0 else Some m
      else Some m)"

definition load_xbe :: "u8 list \<Rightarrow> hle_bases \<times> bytes \<Rightarrow> (xbe_info \<times> hle_bases \<times> bytes) option" where
  "load_xbe f = (\<lambda>(h, m).
     if length f < SIZEOF_XBE_HEADER then Some (no_xbe, h, m)
     else if xbe_field f 0 \<noteq> XBE_MAGIC then Some (no_xbe, h, m)
     else let info = xbe_info_of f in
       case map_xbe f m of
         None \<Rightarrow> None
       | Some (Inl m) \<Rightarrow> Some (info, h, m)
       | Some (Inr m) \<Rightarrow> do {
           let h = place_hle (xbe_image_end f) h;
           m \<leftarrow> write_hle_stubs h m;
           m \<leftarrow> init_kernel_data h m;
           m \<leftarrow> (if xi_kernel_thunk_va info + 4 \<le> of_nat GUEST_RAM_SIZE
                 then resolve_thunks h (xi_kernel_thunk_va info) m else Some m);
           m \<leftarrow> clear_tls_index (xbe_base f) (xi_tls_addr info) m;
           Some (info\<lparr>xi_hle_stub_base := stub_base h, xi_kdata_base := kdata_base h, xi_valid := True\<rparr>, h, m)
         })"

text \<open>\<open>read_xbe_title\<close>: a seek takes the offset as a signed number, so one past \<open>2 ^ 31\<close> fails on a
  32-bit \<open>long\<close>; either way nothing is read there.\<close>

definition read_xbe_title :: "u8 list option \<Rightarrow> u8 list" where
  "read_xbe_title file =
     (case file of None \<Rightarrow> []
      | Some f \<Rightarrow>
        if length f < SIZEOF_XBE_HEADER \<or> xbe_field f 0 \<noteq> XBE_MAGIC \<or> xbe_certificate f = 0 then []
        else let cert_off = unat (xbe_certificate f - xbe_base f) in
          if length f < cert_off + SIZEOF_CERTIFICATE then []
          else ucs2_to_utf8 (title_words (file_bytes f) (cert_off + 0x0C)))"

section \<open>The placement of the stubs and the data page\<close>

definition bases_ok :: "hle_bases \<Rightarrow> bool" where
  "bases_ok h \<longleftrightarrow>
     unat (stub_base h) + MAX_KERNEL_ORDINALS * HLE_STUB_SIZE \<le> unat (kdata_base h) \<and>
     unat (kdata_base h) + KDATA_SIZE \<le> GUEST_RAM_SIZE"

lemma default_bases_ok: "bases_ok default_bases"
  by (simp add: bases_ok_def default_bases_def)

text \<open>Rounding up to a page.\<close>

lemma page_align_unat:
  assumes "unat x \<le> 0xFFFFF000"
  shows "unat (page_align x) = (unat x + 4095) div 4096 * 4096"
proof -
  let ?y = "x + 0xFFF"
  have "NOT (0xFFF :: u32) = 0xFFFFF000" by simp
  then have "page_align x = push_bit 12 (drop_bit 12 ?y)"
    by (simp only: page_align_def page_masks(1))
  also have "\<dots> = ?y - take_bit 12 ?y" by (metis add_diff_cancel_right' bits_ident)
  finally have p: "page_align x = ?y - take_bit 12 ?y" .
  have t: "unat (take_bit 12 ?y) = unat ?y mod 4096"
    using unat_and_mask [of ?y 12] by (simp add: take_bit_eq_mask)
  have "unat (page_align x) = unat ?y - unat ?y mod 4096"
    unfolding p by (subst unat_sub) (simp_all only: word_le_nat_alt t mod_less_eq_dividend)
  moreover have "unat ?y = unat x + 4095" using assms unat_plus [of x "0xFFF"] by simp
  ultimately show ?thesis by (simp add: minus_mod_eq_div_mult)
qed

lemma place_hle_unat:
  assumes "unat e \<le> GUEST_RAM_SIZE"
  shows "place_hle e h =
    (if (unat e + 4095) div 4096 * 4096 + 7128 < GUEST_RAM_SIZE
     then \<lparr>stub_base = of_nat ((unat e + 4095) div 4096 * 4096),
       kdata_base = of_nat ((unat e + 4095) div 4096 * 4096 + 4096)\<rparr>
     else h)"
proof -
  define b where "b = page_align e"
  define n where "n = (unat e + 4095) div 4096"
  have b: "unat b = n * 4096" using page_align_unat [of e] assms by (simp add: b_def n_def)
  have n: "n \<le> 32768" using assms by (simp add: n_def)
  have s: "unat (b + of_nat (MAX_KERNEL_ORDINALS * HLE_STUB_SIZE) + 0x1000) = n * 4096 + 7128"
    using b n unat_plus [of b "3032"] unat_plus [of "b + 3032" "0x1000"] by simp
  have k: "unat (b + of_nat (MAX_KERNEL_ORDINALS * HLE_STUB_SIZE)) = n * 4096 + 3032"
    using b n unat_plus [of b "3032"] by simp
  then have d: "unat (page_align (b + of_nat (MAX_KERNEL_ORDINALS * HLE_STUB_SIZE))) = n * 4096 + 4096"
    using n by (subst page_align_unat) simp_all
  have w: "v = of_nat k" if "unat v = k" for v :: u32 and k using that by (metis word_nat_cases unat_of_nat_32 word_unat_eq_iff unat_u32)
  have "b + of_nat (MAX_KERNEL_ORDINALS * HLE_STUB_SIZE) + 0x1000 < of_nat GUEST_RAM_SIZE \<longleftrightarrow>
      n * 4096 + 7128 < GUEST_RAM_SIZE"
    unfolding word_less_nat_alt s by simp
  then show ?thesis
    unfolding place_hle_def Let_def b_def [symmetric] n_def [symmetric] w [OF d]
    by (simp only: w [OF b])
qed

lemma place_hle_ok:
  assumes "unat e \<le> GUEST_RAM_SIZE" and "bases_ok h"
  shows "bases_ok (place_hle e h)"
proof -
  define n where "n = (unat e + 4095) div 4096"
  have u: "unat (of_nat (n * 4096) :: u32) = n * 4096" "unat (of_nat (n * 4096 + 4096) :: u32) = n * 4096 + 4096"
    if "n * 4096 + 7128 < GUEST_RAM_SIZE"
    using that by (simp_all only: unat_of_nat_32)
  show ?thesis
  proof (cases "n * 4096 + 7128 < GUEST_RAM_SIZE")
    case True
    then have "n < 32767" by simp
    then show ?thesis
      unfolding place_hle_unat [OF assms(1)] n_def [symmetric] bases_ok_def if_P [OF True] hle_bases.simps u [OF True]
      by simp
  next
    case False
    show ?thesis unfolding place_hle_unat [OF assms(1)] n_def [symmetric] if_not_P [OF False] by (rule assms(2))
  qed
qed

section \<open>The tick counter of a moved data page\<close>

lemma ke_tick_offset: "map_of kdata_table 156 = Some 0"
  by (simp add: kdata_table_def)

lemma tick_count_ram:
  "hw_ram (tick_count s) =
    (if tick_accum s + 1 \<ge> 716 then st 4 (hw_ram s) KE_TICK_ADDR (ld 4 (hw_ram s) KE_TICK_ADDR + 1) else hw_ram s)"
  by (simp add: tick_count_def set_ram_def Let_def)

text \<open>Once an image reaches past the fixed address the periodic tick counts at, the loader places
  the data page above the image: the counter the image imports never changes with a tick, and each due
  tick increments four bytes of the image itself.\<close>

theorem tick_misses_moved_counter:
  assumes "KE_TICK_ADDR + 4 \<le> unat image_end" and "unat image_end + 0x2000 \<le> GUEST_RAM_SIZE"
  defines "h \<equiv> place_hle image_end default_bases"
  shows "unat image_end \<le> unat (kernel_data_addr h 156) \<and>
    (\<forall>s. ld 4 (hw_ram (tick_count s)) (unat (kernel_data_addr h 156)) =
        ld 4 (hw_ram s) (unat (kernel_data_addr h 156))) \<and>
    (\<forall>s. tick_accum s + 1 \<ge> 716 \<longrightarrow>
        ld 4 (hw_ram (tick_count s)) KE_TICK_ADDR = ld 4 (hw_ram s) KE_TICK_ADDR + 1)"
proof -
  define n where "n = (unat image_end + 4095) div 4096"
  have "unat image_end + 4095 < 32767 * 4096" using assms(2) by simp
  then have "n < 32767" unfolding n_def by (rule less_mult_imp_div_less)
  then have n: "unat image_end \<le> n * 4096" "n * 4096 + 7128 < GUEST_RAM_SIZE"
    by (simp_all add: n_def)
  have "kdata_base h = of_nat (n * 4096 + 4096)"
    using n(2) assms(2) by (simp add: h_def place_hle_unat flip: n_def)
  moreover have "unat (of_nat (n * 4096 + 4096) :: u32) = n * 4096 + 4096"
    by (rule unat_of_nat_32) (use n(2) in simp)
  ultimately have k: "unat (kernel_data_addr h 156) = n * 4096 + 4096"
    by (simp only: kernel_data_addr_def ke_tick_offset option.case add_0_right)
  show ?thesis
    using n assms(1) unfolding k by (auto simp: tick_count_ram ld_st_disjoint)
qed

theorem tick_misses_moved_counter_witness:
  "0x100000 \<le> unat (kernel_data_addr (place_hle 0x100000 default_bases) 156) \<and>
   (\<forall>s. ld 4 (hw_ram (tick_count s)) (unat (kernel_data_addr (place_hle 0x100000 default_bases) 156)) =
      ld 4 (hw_ram s) (unat (kernel_data_addr (place_hle 0x100000 default_bases) 156)))"
  using tick_misses_moved_counter [of "0x100000"] by simp

section \<open>The stubs\<close>

definition stub_code :: "u32 \<Rightarrow> u8 list" where
  "stub_code ord = [0xB8, ucast ord, ucast (drop_bit 8 ord), ucast (drop_bit 16 ord), ucast (drop_bit 24 ord),
     0xCD, HLE_INT_VECTOR, 0xC3]"

lemma length_stub_code: "length (stub_code ord) = 8"
  by (simp add: stub_code_def)

lemma write_stub_list: "write_stub a ord m = put_list (stub_code ord) m a"
proof
  fix i
  consider "i < a" | "a + 8 \<le> i" | k where "k < 8" "i = a + k" by (metis le_add_diff_inverse nat_add_left_cancel_less not_le)
  then show "write_stub a ord m i = put_list (stub_code ord) m a i"
  proof cases
    case 3
    then have "k = 0 \<or> k = 1 \<or> k = 2 \<or> k = 3 \<or> k = 4 \<or> k = 5 \<or> k = 6 \<or> k = 7" by arith
    then show ?thesis
      by (elim disjE) (simp_all add: 3 write_stub_def put_list_apply st_apply stub_code_def)
  qed (simp_all add: write_stub_def put_list_apply st_apply stub_code_def)
qed

lemma write_stub_other: "i < a \<or> a + 8 \<le> i \<Longrightarrow> write_stub a ord m i = m i"
  by (simp only: write_stub_list put_list_apply length_stub_code) auto

lemma stubs_upto:
  assumes "k < n"
  shows "get_list 8 (fold (\<lambda>ord. write_stub (a + ord * 8) (of_nat ord)) [0..<n] m) (a + k * 8) = stub_code (of_nat k)"
  using assms
proof (induction n)
  case (Suc n)
  let ?m = "fold (\<lambda>ord. write_stub (a + ord * 8) (of_nat ord)) [0..<n] m"
  show ?case
  proof (cases "k = n")
    case True
    have "get_list 8 (write_stub (a + n * 8) (of_nat n) ?m) (a + n * 8) = stub_code (of_nat n)"
      using get_list_put_list [of "stub_code (of_nat n)" ?m "a + n * 8"]
      by (simp only: write_stub_list length_stub_code)
    then show ?thesis by (simp add: True)
  next
    case False
    then have "k < n" using Suc.prems by simp
    then have "get_list 8 (write_stub (a + n * 8) (of_nat n) ?m) (a + k * 8) = get_list 8 ?m (a + k * 8)"
      by (auto simp: get_list_def write_stub_other)
    then show ?thesis using Suc.IH [OF \<open>k < n\<close>] by simp
  qed
qed simp

lemma stubs_other:
  assumes "i < a \<or> a + n * 8 \<le> i"
  shows "fold (\<lambda>ord. write_stub (a + ord * 8) (of_nat ord)) [0..<n] m i = m i"
  using assms by (induction n) (auto simp: write_stub_other)

lemma write_hle_stubs_ok:
  assumes "bases_ok h"
  obtains m' where "write_hle_stubs h m = Some m'"
    and "\<And>k. k < MAX_KERNEL_ORDINALS \<Longrightarrow> get_list 8 m' (unat (stub_base h) + k * 8) = stub_code (of_nat k)"
    and "\<And>i. i < unat (stub_base h) \<or> unat (stub_base h) + 3032 \<le> i \<Longrightarrow> m' i = m i"
proof -
  have "unat (stub_base h) + MAX_KERNEL_ORDINALS * HLE_STUB_SIZE \<le> GUEST_RAM_SIZE"
    using assms by (simp add: bases_ok_def)
  then show ?thesis
    using that stubs_upto [where n = MAX_KERNEL_ORDINALS and a = "unat (stub_base h)" and m = m]
      stubs_other [where n = MAX_KERNEL_ORDINALS and a = "unat (stub_base h)" and m = m]
    by (simp add: write_hle_stubs_def del: upt.simps fold_simps)
qed

section \<open>The data page\<close>

text \<open>What a step inside the data page at \<open>k\<close> leaves alone.\<close>

definition page_only :: "nat \<Rightarrow> bytes \<Rightarrow> bytes option \<Rightarrow> bool" where
  "page_only k m r \<longleftrightarrow> (\<exists>m'. r = Some m' \<and> (\<forall>i. i < k \<or> k + KDATA_SIZE \<le> i \<longrightarrow> m' i = m i))"

lemma page_only_bind:
  "page_only k m r \<Longrightarrow> (\<And>m'. page_only k m' (f m')) \<Longrightarrow> page_only k m (Option.bind r f)"
  by (fastforce simp: page_only_def)

lemma page_only_wr:
  "k + KDATA_SIZE \<le> GUEST_RAM_SIZE \<Longrightarrow> k \<le> a \<Longrightarrow> a + n \<le> k + KDATA_SIZE \<Longrightarrow> page_only k m (wr GUEST_RAM_SIZE n m a v)"
  by (simp add: page_only_def)

lemma page_only_fill:
  "k + KDATA_SIZE \<le> GUEST_RAM_SIZE \<Longrightarrow> page_only k m (fill_in GUEST_RAM_SIZE KDATA_SIZE v m k)"
  by (simp add: page_only_def fill_in_def fill_bytes_def)

lemma page_only_string:
  assumes "k + KDATA_SIZE \<le> GUEST_RAM_SIZE" and "k \<le> unat s" "unat s + 8 \<le> k + KDATA_SIZE"
    and "k \<le> unat b" "unat b + length t + 1 \<le> k + KDATA_SIZE"
  shows "page_only k m (write_guest_ansi_string m s b t)"
proof -
  have "page_only k m' (if unat b + length t + 1 \<le> GUEST_RAM_SIZE then Some (put_list (ascii t @ [0]) m' (unat b)) else None)"
    for m' using assms by (auto simp: page_only_def put_list_apply)
  then show ?thesis
    unfolding write_guest_ansi_string_def Let_def
    by (intro page_only_bind page_only_wr) (use assms in simp_all)
qed

lemma init_kernel_data_page:
  assumes "bases_ok h"
  shows "page_only (unat (kdata_base h)) m (init_kernel_data h m)"
proof -
  let ?k = "kdata_base h"
  have k: "unat ?k + KDATA_SIZE \<le> GUEST_RAM_SIZE" using assms by (simp add: bases_ok_def)
  have off: "unat (?k + c) = unat ?k + unat c" if "unat c < KDATA_SIZE" for c
    using k that by (intro unat_plus) simp
  show ?thesis
    unfolding init_kernel_data_def Let_def
    by (intro page_only_bind page_only_wr page_only_fill page_only_string)
      (use k in \<open>simp_all add: off backslashed_def\<close>)
qed

section \<open>Imports\<close>

lemma resolve_thunks_table:
  assumes "\<And>k. k < n \<Longrightarrow> ld 4 m (unat a + 4 * k) \<noteq> 0" and "ld 4 m (unat a + 4 * n) = 0"
    and "unat a + 4 * n + 4 \<le> GUEST_RAM_SIZE"
  shows "\<exists>m'. resolve_thunks h a m = Some m' \<and>
    (\<forall>k < n. ld 4 m' (unat a + 4 * k) =
      (let e = ld 4 m (unat a + 4 * k) in if e AND 0x80000000 \<noteq> 0 then resolve_import h e else e)) \<and>
    (\<forall>i. i < unat a \<or> unat a + 4 * n \<le> i \<longrightarrow> m' i = m i)"
  using assms
proof (induction n arbitrary: a m)
  case 0
  have "unat (a + 4) = unat a + 4" using 0 unat_plus [of a 4] by simp
  then have "\<not> a + 4 > of_nat GUEST_RAM_SIZE" using 0 by (simp add: word_less_nat_alt)
  then show ?case using 0 by (subst resolve_thunks.simps) (simp add: Let_def)
next
  case (Suc n)
  have a4: "unat (a + 4) = unat a + 4" using Suc.prems(3) unat_plus [of a 4] by simp
  have go: "\<not> a + 4 > of_nat GUEST_RAM_SIZE" using Suc.prems(3) a4 by (simp add: word_less_nat_alt)
  define e where "e = ld 4 m (unat a)"
  define v where "v = (if e AND 0x80000000 \<noteq> 0 then resolve_import h e else e)"
  define m1 where "m1 = (if e AND 0x80000000 \<noteq> 0 then st 4 m (unat a) (resolve_import h e) else m)"
  have e: "e \<noteq> 0" using Suc.prems(1) [of 0] by (simp add: e_def)
  have rec: "resolve_thunks h a m = resolve_thunks h (a + 4) m1"
    using go Suc.prems(3) e by (subst resolve_thunks.simps) (simp add: Let_def m1_def e_def)
  have m1: "ld 4 m1 b = ld 4 m b" if "unat a + 4 \<le> b" for b
    using that by (simp add: m1_def ld_st_disjoint)
  have m1a: "ld 4 m1 (unat a) = v" by (simp add: m1_def v_def e_def)
  have "\<exists>m'. resolve_thunks h (a + 4) m1 = Some m' \<and>
      (\<forall>k < n. ld 4 m' (unat (a + 4) + 4 * k) =
        (let e = ld 4 m1 (unat (a + 4) + 4 * k) in if e AND 0x80000000 \<noteq> 0 then resolve_import h e else e)) \<and>
      (\<forall>i. i < unat (a + 4) \<or> unat (a + 4) + 4 * n \<le> i \<longrightarrow> m' i = m1 i)"
  proof (rule Suc.IH)
    show "ld 4 m1 (unat (a + 4) + 4 * k) \<noteq> 0" if "k < n" for k
      using that Suc.prems(1) [of "Suc k"] by (simp add: m1 a4 add.assoc)
    show "ld 4 m1 (unat (a + 4) + 4 * n) = 0" using Suc.prems(2) by (simp add: m1 a4 add.assoc)
    show "unat (a + 4) + 4 * n + 4 \<le> GUEST_RAM_SIZE" using Suc.prems(3) by (simp add: a4)
  qed
  then obtain m' where m': "resolve_thunks h (a + 4) m1 = Some m'"
    and tab: "\<And>k. k < n \<Longrightarrow> ld 4 m' (unat a + 4 + 4 * k) =
        (let e = ld 4 m (unat a + 4 + 4 * k) in if e AND 0x80000000 \<noteq> 0 then resolve_import h e else e)"
    and other: "\<And>i. i < unat a + 4 \<or> unat a + 4 + 4 * n \<le> i \<Longrightarrow> m' i = m1 i"
    by (auto simp: a4 m1)
  have first: "ld 4 m' (unat a) = v" using m1a by (metis ld_cong other)
  have "ld 4 m' (unat a + 4 * k) =
      (let e = ld 4 m (unat a + 4 * k) in if e AND 0x80000000 \<noteq> 0 then resolve_import h e else e)" if "k < Suc n" for k
  proof (cases k)
    case 0
    then show ?thesis using first by (simp add: v_def e_def Let_def)
  next
    case (Suc j)
    then show ?thesis using tab [of j] that by (simp add: algebra_simps)
  qed
  moreover have "m' i = m i" if "i < unat a \<or> unat a + 4 * Suc n \<le> i" for i
    using that other [of i] by (auto simp: m1_def)
  ultimately show ?case using rec m' by auto
qed

text \<open>A range of memory that the stubs and the data page leave alone.\<close>

definition clear_of_hle :: "hle_bases \<Rightarrow> nat \<Rightarrow> nat \<Rightarrow> bool" where
  "clear_of_hle h a n \<longleftrightarrow>
     (a + n \<le> unat (stub_base h) \<or> unat (stub_base h) + 3032 \<le> a) \<and>
     (a + n \<le> unat (kdata_base h) \<or> unat (kdata_base h) + KDATA_SIZE \<le> a)"

lemma hle_memory:
  assumes h: "bases_ok h"
  obtains m1 m2 where "write_hle_stubs h m = Some m1" and "init_kernel_data h m1 = Some m2"
    and "\<And>k. k < MAX_KERNEL_ORDINALS \<Longrightarrow> get_list 8 m2 (unat (stub_base h) + k * 8) = stub_code (of_nat k)"
    and "\<And>a n i. clear_of_hle h a n \<Longrightarrow> a \<le> i \<Longrightarrow> i < a + n \<Longrightarrow> m2 i = m i"
proof -
  obtain m1 where m1: "write_hle_stubs h m = Some m1"
    and st: "\<And>k. k < MAX_KERNEL_ORDINALS \<Longrightarrow> get_list 8 m1 (unat (stub_base h) + k * 8) = stub_code (of_nat k)"
    and o1: "\<And>i. i < unat (stub_base h) \<or> unat (stub_base h) + 3032 \<le> i \<Longrightarrow> m1 i = m i"
    using write_hle_stubs_ok [OF h] by metis
  obtain m2 where m2: "init_kernel_data h m1 = Some m2"
    and o2: "\<And>i. i < unat (kdata_base h) \<or> unat (kdata_base h) + KDATA_SIZE \<le> i \<Longrightarrow> m2 i = m1 i"
    using init_kernel_data_page [OF h, of m1] by (auto simp: page_only_def)
  have "get_list 8 m2 (unat (stub_base h) + k * 8) = stub_code (of_nat k)" if "k < MAX_KERNEL_ORDINALS" for k
  proof -
    have "unat (stub_base h) + k * 8 + 8 \<le> unat (kdata_base h)" using h that by (simp add: bases_ok_def)
    then have "get_list 8 m2 (unat (stub_base h) + k * 8) = get_list 8 m1 (unat (stub_base h) + k * 8)"
      by (simp add: get_list_def o2)
    then show ?thesis using st [OF that] by simp
  qed
  moreover have "m2 i = m i" if "clear_of_hle h a n" "a \<le> i" "i < a + n" for a n i
    using that o1 [of i] o2 [of i] by (auto simp: clear_of_hle_def)
  ultimately show ?thesis using that m1 m2 by blast
qed

lemma resolved_import:
  assumes "bases_ok h" and "clear_of_hle h a (4 * n + 4)"
    and st: "\<And>k. k < MAX_KERNEL_ORDINALS \<Longrightarrow> get_list 8 m (unat (stub_base h) + k * 8) = stub_code (of_nat k)"
    and other: "\<And>i. i < a \<or> a + 4 * n \<le> i \<Longrightarrow> m' i = m i"
    and ord: "ord = e AND 0x7FFFFFFF"
  shows "case map_of kdata_table ord of
      Some off \<Rightarrow> resolve_import h e = kdata_base h + off
    | None \<Rightarrow> unat ord < MAX_KERNEL_ORDINALS \<longrightarrow> get_list 8 m' (unat (resolve_import h e)) = stub_code ord"
proof -
  have K: "unat (kdata_base h) + 0x1000 \<le> GUEST_RAM_SIZE" "3032 \<le> unat (kdata_base h)"
    and S: "unat (stub_base h) + 3032 \<le> unat (kdata_base h)"
    using assms(1) by (auto simp: bases_ok_def)
  show ?thesis
  proof (cases "map_of kdata_table ord")
    case None
    have "get_list 8 m' (unat (resolve_import h e)) = stub_code ord" if o: "unat ord < MAX_KERNEL_ORDINALS"
    proof -
      have "resolve_import h e = stub_base h + ord * 8"
        using None by (simp add: resolve_import_def Let_def kernel_data_addr_def hle_stub_addr_def flip: ord)
      moreover have "unat (ord * 8) = unat ord * 8" using o by (simp add: unat_word_ariths)
      ultimately have u: "unat (resolve_import h e) = unat (stub_base h) + unat ord * 8"
        using o S K unat_plus [of "stub_base h" "ord * 8"] by simp
      then have "unat (resolve_import h e) + 8 \<le> a \<or> a + 4 * n \<le> unat (resolve_import h e)"
        using o assms(2) unfolding clear_of_hle_def by linarith
      then have "get_list 8 m' (unat (resolve_import h e)) = get_list 8 m (unat (resolve_import h e))"
        by (auto simp: get_list_def other)
      then show ?thesis using st [OF o] by (simp add: u)
    qed
    then show ?thesis using None by simp
  next
    case (Some off)
    then have "unat off < 0x1000" by (auto simp: kdata_table_def split: if_splits dest: map_of_SomeD)
    then have "kdata_base h + off \<noteq> 0"
      using K unat_plus [of "kdata_base h" off] by auto
    then show ?thesis using Some by (simp add: resolve_import_def Let_def kernel_data_addr_def flip: ord)
  qed
qed

text \<open>C35: Every kernel import of a loaded title by ordinal is resolved: the slots of the thunk table that
  hold one hold afterwards the address in the data page of a data export, and otherwise, below ordinal
  379, the address of code that puts the ordinal in EAX and traps.  (A title without a thread-local
  storage directory, whose thunk table ends with a zero and keeps clear of the stubs and the data
  page.)\<close>

theorem load_xbe_imports:
  fixes f :: "u8 list" and h :: hle_bases
  defines "h' \<equiv> place_hle (xbe_image_end f) h" and "a \<equiv> xi_kernel_thunk_va (xbe_info_of f)"
  assumes "SIZEOF_XBE_HEADER \<le> length f" and "xbe_field f 0 = XBE_MAGIC" and "xi_tls_addr (xbe_info_of f) = 0"
    and "map_xbe f m = Some (Inr b)" and "bases_ok h'"
    and "\<And>k. k < n \<Longrightarrow> ld 4 b (unat a + 4 * k) \<noteq> 0" and "ld 4 b (unat a + 4 * n) = 0"
    and "unat a + 4 * n + 4 \<le> GUEST_RAM_SIZE" and "clear_of_hle h' (unat a) (4 * n + 4)"
  shows "\<exists>info m'. load_xbe f (h, m) = Some (info, h', m') \<and> xi_valid info \<and>
    (\<forall>k < n. let e = ld 4 b (unat a + 4 * k); v = ld 4 m' (unat a + 4 * k); ord = e AND 0x7FFFFFFF in
      e AND 0x80000000 \<noteq> 0 \<longrightarrow>
      (case map_of kdata_table ord of
         Some off \<Rightarrow> v = kdata_base h' + off
       | None \<Rightarrow> unat ord < MAX_KERNEL_ORDINALS \<longrightarrow> get_list 8 m' (unat v) = stub_code ord))"
proof -
  obtain m1 m2 where m1: "write_hle_stubs h' b = Some m1" and m2: "init_kernel_data h' m1 = Some m2"
    and st: "\<And>k. k < MAX_KERNEL_ORDINALS \<Longrightarrow> get_list 8 m2 (unat (stub_base h') + k * 8) = stub_code (of_nat k)"
    and clear: "\<And>a n i. clear_of_hle h' a n \<Longrightarrow> a \<le> i \<Longrightarrow> i < a + n \<Longrightarrow> m2 i = b i"
    using hle_memory [OF assms(7)] by metis
  have slot: "ld 4 m2 (unat a + 4 * k) = ld 4 b (unat a + 4 * k)" if "k \<le> n" for k
    using that by (intro ld_cong clear [OF assms(11)]) auto
  have "\<exists>m'. resolve_thunks h' a m2 = Some m' \<and>
      (\<forall>k < n. ld 4 m' (unat a + 4 * k) =
        (let e = ld 4 m2 (unat a + 4 * k) in if e AND 0x80000000 \<noteq> 0 then resolve_import h' e else e)) \<and>
      (\<forall>i. i < unat a \<or> unat a + 4 * n \<le> i \<longrightarrow> m' i = m2 i)"
    by (rule resolve_thunks_table) (use assms(8-10) slot in simp_all)
  then obtain m' where m': "resolve_thunks h' a m2 = Some m'"
    and res: "\<And>k. k < n \<Longrightarrow> ld 4 m' (unat a + 4 * k) =
      (let e = ld 4 m2 (unat a + 4 * k) in if e AND 0x80000000 \<noteq> 0 then resolve_import h' e else e)"
    and other: "\<And>i. i < unat a \<or> unat a + 4 * n \<le> i \<Longrightarrow> m' i = m2 i"
    by blast
  have a4: "unat (a + 4) = unat a + 4" using assms(10) unat_plus [of a 4] by simp
  then have go: "a + 4 \<le> of_nat GUEST_RAM_SIZE" using assms(10) by (simp add: word_le_nat_alt)
  have "load_xbe f (h, m) = Some ((xbe_info_of f)\<lparr>xi_hle_stub_base := stub_base h', xi_kdata_base := kdata_base h', xi_valid := True\<rparr>, h', m')"
    using assms(3-6) go by (simp add: load_xbe_def Let_def m1 m2 m' clear_tls_index_def not_less flip: h'_def a_def)
  moreover have "case map_of kdata_table ord of
         Some off \<Rightarrow> v = kdata_base h' + off
       | None \<Rightarrow> unat ord < MAX_KERNEL_ORDINALS \<longrightarrow> get_list 8 m' (unat v) = stub_code ord"
    if k: "k < n" and e: "e = ld 4 b (unat a + 4 * k)" "e AND 0x80000000 \<noteq> 0"
      and v: "v = ld 4 m' (unat a + 4 * k)" and ord: "ord = e AND 0x7FFFFFFF" for k e v ord
  proof -
    have "v = resolve_import h' e" using res [OF k] slot [of k] k e v by (simp add: Let_def)
    then show ?thesis using resolved_import [OF assms(7,11) st other ord] by (simp only:)
  qed
  ultimately show ?thesis by (auto simp: Let_def)
qed

text \<open>A title of 0x190 bytes without sections; its thunk table in the headers imports ordinals 1 and 156.\<close>

definition xbe_demo_bytes :: bytes where
  "xbe_demo_bytes = put_fields
     [(4, 0, 0x48454258), (4, 0x104, 0x10000), (4, 0x108, 0x190), (4, 0x10C, 0x1000),
      (4, 0x120, 0x10000), (4, 0x158, 0x5B6C4136), (4, 0x180, 0x80000001), (4, 0x184, 0x8000009C)] (\<lambda>_. 0)"

definition xbe_demo :: "u8 list" where
  "xbe_demo = get_list 0x190 xbe_demo_bytes 0"

lemma xbe_demo_field: "off + 4 \<le> 0x190 \<Longrightarrow> xbe_field xbe_demo off = ld 4 xbe_demo_bytes off"
  unfolding xbe_field_def xbe_demo_def by (auto simp: file_bytes_def get_list_def intro!: ld_cong)

lemma xbe_demo_fields:
  "xbe_field xbe_demo 0 = 0x48454258" "xbe_field xbe_demo 0x104 = 0x10000" "xbe_field xbe_demo 0x108 = 0x190"
  "xbe_field xbe_demo 0x10C = 0x1000" "xbe_field xbe_demo 0x118 = 0" "xbe_field xbe_demo 0x11C = 0"
  "xbe_field xbe_demo 0x120 = 0x10000" "xbe_field xbe_demo 0x12C = 0" "xbe_field xbe_demo 0x158 = 0x5B6C4136"
  by (simp_all add: xbe_demo_field xbe_demo_bytes_def put_fields_def ld_st_disjoint)

lemma length_xbe_demo: "length xbe_demo = 0x190"
  by (simp add: xbe_demo_def)

definition xbe_demo_memory :: bytes where
  "xbe_demo_memory = copy_bytes 0x190 (file_bytes xbe_demo) 0 (\<lambda>_. 0) 0x10000"

lemma xbe_demo_mapped: "map_xbe xbe_demo (\<lambda>_. 0) = Some (Inr xbe_demo_memory)"
  by (simp add: map_xbe_def xbe_demo_fields length_xbe_demo copy_in_def xbe_demo_memory_def)

lemma ld_shift: "ld n (\<lambda>i. m (i - c)) (c + a) = ld n m a"
  by (induction n arbitrary: a) (simp_all flip: add_Suc_right)

lemma xbe_demo_table:
  "ld 4 xbe_demo_memory 0x10180 = 0x80000001" "ld 4 xbe_demo_memory 0x10184 = 0x8000009C"
  "ld 4 xbe_demo_memory 0x10188 = 0"
proof -
  have "ld 4 xbe_demo_memory (0x10000 + off) = ld 4 xbe_demo_bytes off" if "off + 4 \<le> 0x190" for off
  proof -
    have "ld 4 xbe_demo_memory (0x10000 + off) = ld 4 (\<lambda>i. xbe_demo_bytes (i - 0x10000)) (0x10000 + off)"
      using that by (intro ld_cong) (auto simp: xbe_demo_memory_def copy_bytes_def file_bytes_def xbe_demo_def get_list_def)
    also have "\<dots> = ld 4 xbe_demo_bytes off" by (rule ld_shift)
    finally show ?thesis .
  qed
  from this [of "0x180"] this [of "0x184"] this [of "0x188"]
  show "ld 4 xbe_demo_memory 0x10180 = 0x80000001" "ld 4 xbe_demo_memory 0x10184 = 0x8000009C"
    "ld 4 xbe_demo_memory 0x10188 = 0"
    by (simp_all add: xbe_demo_bytes_def put_fields_def ld_st_disjoint)
qed

lemma xbe_demo_info: "xi_kernel_thunk_va (xbe_info_of xbe_demo) = 0x10180" "xi_tls_addr (xbe_info_of xbe_demo) = 0"
  by (simp_all add: xbe_info_of_def decode_xor_def xbe_demo_fields xbe_image_end_def)

lemma xbe_demo_bases:
  "place_hle (xbe_image_end xbe_demo) default_bases = \<lparr>stub_base = 0x11000, kdata_base = 0x12000\<rparr>"
  by (simp add: xbe_image_end_def xbe_demo_fields place_hle_unat)

theorem load_xbe_imports_witness:
  "\<exists>info m'. load_xbe xbe_demo (default_bases, \<lambda>_. 0) = Some (info, \<lparr>stub_base = 0x11000, kdata_base = 0x12000\<rparr>, m') \<and>
     get_list 8 m' (unat (ld 4 m' 0x10180)) = [0xB8, 1, 0, 0, 0, 0xCD, 0x20, 0xC3] \<and> ld 4 m' 0x10184 = 0x12000"
proof -
  have ok: "bases_ok \<lparr>stub_base = 0x11000, kdata_base = 0x12000\<rparr>" by (simp add: bases_ok_def)
  obtain info m' where r: "load_xbe xbe_demo (default_bases, \<lambda>_. 0) =
      Some (info, place_hle (xbe_image_end xbe_demo) default_bases, m')"
    and s: "\<forall>k < 2. let e = ld 4 xbe_demo_memory (unat (xi_kernel_thunk_va (xbe_info_of xbe_demo)) + 4 * k);
          v = ld 4 m' (unat (xi_kernel_thunk_va (xbe_info_of xbe_demo)) + 4 * k); ord = e AND 0x7FFFFFFF in
      e AND 0x80000000 \<noteq> 0 \<longrightarrow>
      (case map_of kdata_table ord of
         Some off \<Rightarrow> v = kdata_base (place_hle (xbe_image_end xbe_demo) default_bases) + off
       | None \<Rightarrow> unat ord < MAX_KERNEL_ORDINALS \<longrightarrow> get_list 8 m' (unat v) = stub_code ord)"
  proof -
    have "ld 4 xbe_demo_memory (unat (xi_kernel_thunk_va (xbe_info_of xbe_demo)) + 4 * k) \<noteq> 0" if "k < 2" for k
      using that xbe_demo_table by (auto simp: xbe_demo_info less_2_cases_iff)
    then show ?thesis
      using load_xbe_imports [where f = xbe_demo and h = default_bases and m = "\<lambda>_. 0" and b = xbe_demo_memory and n = 2]
        that ok xbe_demo_table
      by (auto simp: xbe_demo_fields xbe_demo_info xbe_demo_mapped xbe_demo_bases length_xbe_demo clear_of_hle_def)
  qed
  have k: "map_of kdata_table 1 = None" "map_of kdata_table 156 = Some 0" by (simp_all add: kdata_table_def)
  show ?thesis
    using r s [rule_format, of 0] s [rule_format, of 1]
    by (simp add: xbe_demo_bases xbe_demo_info xbe_demo_table k stub_code_def)
qed

section \<open>Decoding\<close>

text \<open>An address encoded with the retail key is recovered; one encoded with the debug key too,
  unless the retail key makes another address of the image of it.\<close>

lemma decode_xor_retail:
  "base \<le> v \<Longrightarrow> v < e \<Longrightarrow> decode_xor (v XOR k) k d base e = v"
  by (simp add: decode_xor_def xor.assoc)

lemma decode_xor_debug:
  "base \<le> v \<Longrightarrow> v < e \<Longrightarrow> \<not> (base \<le> v XOR d XOR k \<and> v XOR d XOR k < e) \<Longrightarrow>
    decode_xor (v XOR d) k d base e = v"
  by (auto simp: decode_xor_def xor.assoc)

text \<open>A reference reader of UTF-8 up to three bytes a character.\<close>

fun utf8_units :: "u8 list \<Rightarrow> u16 list" where
  "utf8_units [] = []"
| "utf8_units (a # bs) =
     (if a < 0x80 then ucast a # utf8_units bs
      else if a < 0xE0 then
        (case bs of b # bs \<Rightarrow> (push_bit 6 (ucast (take_bit 5 a)) OR ucast (take_bit 6 b)) # utf8_units bs | [] \<Rightarrow> [])
      else (case bs of b # c # bs \<Rightarrow>
          (push_bit 12 (ucast (take_bit 4 a)) OR push_bit 6 (ucast (take_bit 6 b)) OR ucast (take_bit 6 c)) # utf8_units bs
        | _ \<Rightarrow> []))"

lemma less_exp_drop:
  fixes w :: "'a::len word"
  assumes "unat (2 ^ n :: 'a word) = 2 ^ n"
  shows "w < 2 ^ n \<longleftrightarrow> drop_bit n w = 0"
proof -
  have "w < 2 ^ n \<longleftrightarrow> unat w div 2 ^ n = 0" by (simp add: word_less_nat_alt div_eq_0_iff assms)
  also have "unat w div 2 ^ n = unat (drop_bit n w)" by (subst unat_drop_bit_eq) (rule drop_bit_eq_div [symmetric])
  finally show ?thesis by (simp add: word_unat_eq_iff)
qed

lemma below_E0: "\<not> bit a 5 \<Longrightarrow> a < 0xE0" for a :: u8
proof (rule ccontr)
  assume b: "\<not> bit a 5" and "\<not> a < 0xE0"
  then have "224 \<le> unat a" "unat a < 256" by (simp_all add: word_less_nat_alt)
  then have "unat a div 32 = 7" by (intro div_nat_eqI) simp_all
  moreover have "bit a 5 \<longleftrightarrow> odd (unat a div 2 ^ 5)"
    unfolding bit_iff_odd [symmetric] by (simp add: bit_unsigned_iff)
  ultimately show False using b by simp
qed

lemma not_below_E0: "bit a 5 \<Longrightarrow> bit a 6 \<Longrightarrow> bit a 7 \<Longrightarrow> \<not> a < 0xE0" for a :: u8
proof
  assume b: "bit a 5" "bit a 6" "bit a 7" and "a < 0xE0"
  define q where "q = unat a div 32"
  have "q < 7" using \<open>a < 0xE0\<close> by (simp add: q_def word_less_nat_alt less_mult_imp_div_less)
  have "bit (unat a) 5" "bit (unat a) 6" "bit (unat a) 7" using b by (simp_all add: bit_unsigned_iff)
  then have "odd q" "odd (q div 2)" "odd (q div 4)"
    by (simp_all add: bit_iff_odd q_def div_mult2_eq [symmetric])
  moreover have "q = 0 \<or> q = 1 \<or> q = 2 \<or> q = 3 \<or> q = 4 \<or> q = 5 \<or> q = 6" using \<open>q < 7\<close> by arith
  ultimately show False by (elim disjE) simp_all
qed

lemma lead_bits:
  "bit (0x80 :: u8) n \<longleftrightarrow> n = 7" "bit (0xC0 :: u8) n \<longleftrightarrow> n = 6 \<or> n = 7" "bit (0xE0 :: u8) n \<longleftrightarrow> n = 5 \<or> n = 6 \<or> n = 7"
proof -
  have e: "(0x80 :: u8) = 2 ^ 7" "(0xC0 :: u8) = 2 ^ 6 OR 2 ^ 7" "(0xE0 :: u8) = 2 ^ 5 OR (2 ^ 6 OR 2 ^ 7)" by simp_all
  show "bit (0x80 :: u8) n \<longleftrightarrow> n = 7" "bit (0xC0 :: u8) n \<longleftrightarrow> n = 6 \<or> n = 7" "bit (0xE0 :: u8) n \<longleftrightarrow> n = 5 \<or> n = 6 \<or> n = 7"
    unfolding e by (simp_all only: bit_or_iff bit_exp_iff) auto
qed

lemma mask_3F: "w AND 0x3F = take_bit 6 (w :: u16)"
  by (simp add: take_bit_eq_mask mask_eq_exp_minus_1)

lemma not_below_80: "bit a 7 \<Longrightarrow> \<not> a < 0x80" for a :: u8
  using less_exp_drop [where n = 7 and w = a] by (auto simp: bit_drop_bit_eq dest!: arg_cong [where f = "\<lambda>w. bit w 0"])

lemmas unit_bits = bit_or_iff bit_push_bit_iff bit_drop_bit_eq bit_take_bit_iff bit_unsigned_iff lead_bits mask_3F

text \<open>The encoded title reads back as its characters up to the first null.\<close>

lemma low_unit_bits:
  fixes w :: u16
  shows "w < 0x80 \<Longrightarrow> bit w i \<Longrightarrow> i < 7" "w < 0x800 \<Longrightarrow> bit w i \<Longrightarrow> i < 11"
proof -
  have hi: "i < n" if "drop_bit n w = 0" "bit w i" for n
  proof (rule ccontr)
    assume "\<not> i < n"
    then have "bit (drop_bit n w) (i - n) = bit w i" by (simp add: bit_drop_bit_eq)
    then show False using that by simp
  qed
  show "w < 0x80 \<Longrightarrow> bit w i \<Longrightarrow> i < 7" using less_exp_drop [where n = 7 and w = w] hi [of 7] by simp
  show "w < 0x800 \<Longrightarrow> bit w i \<Longrightarrow> i < 11" using less_exp_drop [where n = 11 and w = w] hi [of 11] by simp
qed

lemma one_byte: "w < 0x80 \<Longrightarrow> ucast (ucast w :: u8) = w" for w :: u16
  by (rule bit_word_eqI) (fastforce simp: bit_unsigned_iff dest: low_unit_bits(1))

lemma unit_bit_cases:
  fixes n :: nat
  obtains "n < 6" | k where "n = 6 + k" "k < 6" | k where "n = 12 + k"
  by (metis add.commute add_less_cancel_left le_add_diff_inverse not_less numeral_Bit0)

lemma two_bytes:
  fixes w :: u16
  assumes "w < 0x800"
  shows "push_bit 6 (ucast (take_bit 5 (0xC0 OR ucast (drop_bit 6 w) :: u8))) OR
    ucast (take_bit 6 (0x80 OR ucast (w AND 0x3F) :: u8)) = w"
proof (rule bit_word_eqI)
  fix n assume "n < LENGTH(16)"
  then show "bit (push_bit 6 (ucast (take_bit 5 (0xC0 OR ucast (drop_bit 6 w) :: u8))) OR
    ucast (take_bit 6 (0x80 OR ucast (w AND 0x3F) :: u8)) :: u16) n = bit w n"
    using low_unit_bits(2) [OF assms, of n]
    by (cases rule: unit_bit_cases [of n]) (auto simp: unit_bits)
qed

lemma three_bytes:
  fixes w :: u16
  shows "push_bit 12 (ucast (take_bit 4 (0xE0 OR ucast (drop_bit 12 w) :: u8))) OR
    push_bit 6 (ucast (take_bit 6 (0x80 OR ucast (drop_bit 6 w AND 0x3F) :: u8))) OR
    ucast (take_bit 6 (0x80 OR ucast (w AND 0x3F) :: u8)) = w"
proof (rule bit_word_eqI)
  fix n assume "n < LENGTH(16)"
  then show "bit (push_bit 12 (ucast (take_bit 4 (0xE0 OR ucast (drop_bit 12 w) :: u8))) OR
    push_bit 6 (ucast (take_bit 6 (0x80 OR ucast (drop_bit 6 w AND 0x3F) :: u8))) OR
    ucast (take_bit 6 (0x80 OR ucast (w AND 0x3F) :: u8)) :: u16) n = bit w n"
    by (cases rule: unit_bit_cases [of n]) (auto simp: unit_bits)
qed

text \<open>The encoded title reads back as its characters up to the first null.\<close>

lemma ucs2_utf8_roundtrip: "utf8_units (ucs2_to_utf8 ws) = takeWhile (\<lambda>w. w \<noteq> 0) ws"
proof (induction ws)
  case (Cons w ws)
  consider "w = 0" | "w \<noteq> 0" "w < 0x80" | "w \<noteq> 0" "\<not> w < 0x80" "w < 0x800"
    | "w \<noteq> 0" "\<not> w < 0x80" "\<not> w < 0x800" by blast
  then show ?case
  proof cases
    case 2
    then have "\<not> bit (ucast w :: u8) 7" using low_unit_bits(1) [of w 7] by (auto simp: bit_unsigned_iff)
    have "drop_bit 7 (ucast w :: u8) = 0"
      by (rule bit_word_eqI) (use 2 low_unit_bits(1) [of w] in \<open>fastforce simp: unit_bits\<close>)
    then have "(ucast w :: u8) < 0x80" using less_exp_drop [where n = 7 and w = "ucast w :: u8"] by simp
    then show ?thesis using 2 Cons.IH one_byte [of w] by simp
  next
    case 3
    have "\<not> (0xC0 OR ucast (drop_bit 6 w) :: u8) < 0x80"
      by (rule not_below_80) (simp add: unit_bits)
    moreover have "(0xC0 OR ucast (drop_bit 6 w) :: u8) < 0xE0"
      by (rule below_E0) (use 3 low_unit_bits(2) [of w 11] in \<open>auto simp: unit_bits\<close>)
    ultimately show ?thesis using 3 Cons.IH two_bytes [of w] by simp
  next
    case 4
    have "\<not> (0xE0 OR ucast (drop_bit 12 w) :: u8) < 0x80"
      by (rule not_below_80) (simp add: unit_bits)
    moreover have "\<not> (0xE0 OR ucast (drop_bit 12 w) :: u8) < 0xE0"
      by (rule not_below_E0) (simp_all add: unit_bits)
    ultimately show ?thesis using 4 Cons.IH three_bytes [of w] by simp
  qed simp
qed simp

end
