(* ===== verification/Nbox_Io.thy ===== *)
theory Nbox_Io
  imports Block_Copy Xbe_Loader "HOL-Library.AList" "HOL-Library.Multiset"
begin

text \<open>
  The file I/O service of nboxkrnl (\<open>IoSystem\<close> of \<open>src/src/xbox/nboxkrnl_io.hpp\<close>): packets from the
  guest kernel, the queues between the emulation thread and the worker thread, and the processing of
  requests on host files.

  The host file system is an association list from paths to nodes, whose order is the order in which a
  directory is listed.  A handle holds the path of its file and what its stream (a \<open>std::fstream\<close>) has
  been given and not yet written to the file: how much of a write the stream keeps is an argument
  (\<open>keep\<close>); positioning the stream or destroying it writes the rest.  Names are resolved without
  symbolic links.  The outcome of each \<open>try_lock\<close> is an argument (\<open>lock\<close>), and so are the bytes of buffers
  the code does not initialise (\<open>junk\<close>).  \<open>None\<close> is an access outside of an object.
\<close>

section \<open>Host files\<close>

type_synonym name = "u8 list"
type_synonym path = "name list"

datatype node = Directory | Regular bool "u8 list"

type_synonym host_fs = "(path \<times> node) list"

definition fs_names :: "host_fs \<Rightarrow> path \<Rightarrow> name list" where
  "fs_names fs p = map (last \<circ> fst) (filter (\<lambda>(q, _). q \<noteq> [] \<and> butlast q = p) fs)"

definition fs_exists :: "host_fs \<Rightarrow> path \<Rightarrow> bool" where
  "fs_exists fs p \<longleftrightarrow> p = [] \<or> map_of fs p \<noteq> None"

definition fs_is_dir :: "host_fs \<Rightarrow> path \<Rightarrow> bool" where
  "fs_is_dir fs p \<longleftrightarrow> p = [] \<or> map_of fs p = Some Directory"

definition fs_content :: "host_fs \<Rightarrow> path \<Rightarrow> u8 list" where
  "fs_content fs p = (case map_of fs p of Some (Regular _ c) \<Rightarrow> c | _ \<Rightarrow> [])"

definition fs_writable :: "host_fs \<Rightarrow> path \<Rightarrow> bool" where
  "fs_writable fs p = (case map_of fs p of Some (Regular w _) \<Rightarrow> w | _ \<Rightarrow> False)"

definition fs_readable :: "host_fs \<Rightarrow> path \<Rightarrow> bool" where
  "fs_readable fs p \<longleftrightarrow> p \<noteq> [] \<and> fs_exists fs p \<and> \<not> fs_is_dir fs p"

definition fs_put :: "path \<Rightarrow> node \<Rightarrow> host_fs \<Rightarrow> host_fs" where
  "fs_put p n fs = AList.update p n fs"

text \<open>\<open>create_directories\<close>: whether the directory was created.\<close>

definition prefixes_of :: "path \<Rightarrow> path list" where
  "prefixes_of p = map (\<lambda>n. take n p) [1..<Suc (length p)]"

definition create_directories :: "path \<Rightarrow> host_fs \<Rightarrow> bool \<times> host_fs" where
  "create_directories p fs =
     (if fs_is_dir fs p \<or> list_ex (fs_readable fs) (prefixes_of p) then (False, fs)
      else (True, fold (\<lambda>q fs. if fs_exists fs q then fs else fs_put q Directory fs) (prefixes_of p) fs))"

text \<open>An output stream on a path: it creates or truncates the file.\<close>

definition create_file :: "path \<Rightarrow> host_fs \<Rightarrow> bool \<times> host_fs" where
  "create_file p fs =
     (if p = [] \<or> \<not> fs_is_dir fs (butlast p) \<or> fs_is_dir fs p \<or> (fs_exists fs p \<and> \<not> fs_writable fs p)
      then (False, fs)
      else (True, fs_put p (Regular True []) fs))"

section \<open>Paths\<close>

abbreviation BACKSLASH :: u8 where "BACKSLASH \<equiv> 0x5C"
abbreviation SLASH :: u8 where "SLASH \<equiv> 0x2F"
abbreviation DOT :: u8 where "DOT \<equiv> 0x2E"

text \<open>\<open>path.find_first_of(c, from)\<close>; the length of the text when there is none.\<close>

definition find_from :: "u8 \<Rightarrow> u8 list \<Rightarrow> nat \<Rightarrow> nat" where
  "find_from c xs from = from + length (takeWhile (\<lambda>x. x \<noteq> c) (drop from xs))"

definition parse_path :: "u8 list \<Rightarrow> u32 \<Rightarrow> u8 list" where
  "parse_path path dev =
     (let dev_pos = find_from BACKSLASH path 1 in
      if length path \<le> dev_pos then []
      else let pos = min (length path) (find_from BACKSLASH path (dev_pos + 1));
               pos = (if dev \<noteq> 0 then min (length path) (find_from BACKSLASH path (pos + 1)) else pos);
               rest = (if pos + 1 < length path then drop (pos + 1) path else [])
        in map (\<lambda>c. if c = BACKSLASH then SLASH else c) rest)"

fun split_on :: "u8 \<Rightarrow> u8 list \<Rightarrow> path" where
  "split_on c [] = [[]]"
| "split_on c (x # xs) =
     (if x = c then [] # split_on c xs
      else case split_on c xs of [] \<Rightarrow> [[x]] | p # ps \<Rightarrow> (x # p) # ps)"

text \<open>The components the search looks at: empty ones, the root and \<open>.\<close> are skipped.\<close>

definition path_components :: "u8 list \<Rightarrow> path" where
  "path_components rel = filter (\<lambda>c. c \<noteq> [] \<and> c \<noteq> [DOT]) (split_on SLASH rel)"

definition same_name :: "name \<Rightarrow> name \<Rightarrow> bool" where
  "same_name a b \<longleftrightarrow> map to_lower a = map to_lower b"

primrec find_components :: "host_fs \<Rightarrow> path \<Rightarrow> path \<Rightarrow> path option" where
  "find_components fs current [] = Some current"
| "find_components fs current (c # cs) =
     (case find (\<lambda>n. same_name n c) (fs_names fs current) of
        None \<Rightarrow> None
      | Some n \<Rightarrow> find_components fs (current @ [n]) cs)"

definition find_file_ci :: "host_fs \<Rightarrow> path \<Rightarrow> u8 list \<Rightarrow> path option" where
  "find_file_ci fs base rel = find_components fs base (path_components rel)"

text \<open>How the host resolves \<open>fs::path(base) / relative\<close>: an absolute name replaces the base, and
  \<open>..\<close> leaves a directory.\<close>

definition join_path :: "path \<Rightarrow> u8 list \<Rightarrow> path" where
  "join_path base rel =
     fold (\<lambda>c p. if c = [DOT, DOT] then butlast p else p @ [c]) (path_components rel)
       (if rel \<noteq> [] \<and> hd rel = SLASH then [] else base)"

text \<open>\<open>std::to_string\<close> of an unsigned number.\<close>

fun decimal :: "nat \<Rightarrow> u8 list" where
  "decimal n = (if n < 10 then [of_nat (48 + n)] else decimal (n div 10) @ [of_nat (48 + n mod 10)])"

declare decimal.simps [simp del]

section \<open>Requests\<close>

abbreviation IO_SUPERSEDE :: u32 where "IO_SUPERSEDE \<equiv> 0"
abbreviation IO_OPEN :: u32 where "IO_OPEN \<equiv> 1"
abbreviation IO_CREATE :: u32 where "IO_CREATE \<equiv> 2"
abbreviation IO_OPEN_IF :: u32 where "IO_OPEN_IF \<equiv> 3"
abbreviation IO_OVERWRITE :: u32 where "IO_OVERWRITE \<equiv> 4"
abbreviation IO_OVERWRITE_IF :: u32 where "IO_OVERWRITE_IF \<equiv> 5"

definition io_get_type :: "u32 \<Rightarrow> u32" where "io_get_type t = t AND 0xF0000000"
definition io_get_flags :: "u32 \<Rightarrow> u32" where "io_get_flags t = t AND 0x007FFFF8"
definition io_get_disposition :: "u32 \<Rightarrow> u32" where "io_get_disposition t = t AND 0x00000007"
definition io_get_dev :: "u32 \<Rightarrow> u32" where "io_get_dev t = drop_bit 23 t AND 0x1F"

abbreviation REQ_OPEN :: u32 where "REQ_OPEN \<equiv> 0x10000000"
abbreviation REQ_REMOVE :: u32 where "REQ_REMOVE \<equiv> 0x20000000"
abbreviation REQ_CLOSE :: u32 where "REQ_CLOSE \<equiv> 0x30000000"
abbreviation REQ_READ :: u32 where "REQ_READ \<equiv> 0x40000000"
abbreviation REQ_WRITE :: u32 where "REQ_WRITE \<equiv> 0x50000000"

abbreviation INFO_OPENED :: u32 where "INFO_OPENED \<equiv> 1"
abbreviation INFO_CREATED :: u32 where "INFO_CREATED \<equiv> 2"
abbreviation INFO_OVERWRITTEN :: u32 where "INFO_OVERWRITTEN \<equiv> 3"
abbreviation INFO_EXISTS :: u32 where "INFO_EXISTS \<equiv> 4"
abbreviation INFO_NOT_EXISTS :: u32 where "INFO_NOT_EXISTS \<equiv> 5"

abbreviation STATUS_SUCCESS :: u32 where "STATUS_SUCCESS \<equiv> 0"
abbreviation STATUS_IO_DEVICE_ERROR :: u32 where "STATUS_IO_DEVICE_ERROR \<equiv> 0xC0000185"
abbreviation STATUS_ACCESS_DENIED :: u32 where "STATUS_ACCESS_DENIED \<equiv> 0xC0000022"
abbreviation STATUS_FILE_IS_A_DIRECTORY :: u32 where "STATUS_FILE_IS_A_DIRECTORY \<equiv> 0xC00000BA"
abbreviation STATUS_NOT_A_DIRECTORY :: u32 where "STATUS_NOT_A_DIRECTORY \<equiv> 0xC0000103"
abbreviation STATUS_OBJECT_NAME_NOT_FOUND :: u32 where "STATUS_OBJECT_NAME_NOT_FOUND \<equiv> 0xC0000034"

abbreviation IO_FLAG_MUST_BE_DIR :: u32 where "IO_FLAG_MUST_BE_DIR \<equiv> 0x10"
abbreviation IO_FLAG_MUST_NOT_BE_DIR :: u32 where "IO_FLAG_MUST_NOT_BE_DIR \<equiv> 0x20"

abbreviation DEV_CDROM :: u32 where "DEV_CDROM \<equiv> 0"
abbreviation DEV_PARTITION0 :: u32 where "DEV_PARTITION0 \<equiv> 2"
abbreviation DEV_PARTITION1 :: u32 where "DEV_PARTITION1 \<equiv> 3"
abbreviation DEV_PARTITION5 :: u32 where "DEV_PARTITION5 \<equiv> 7"
abbreviation NUM_OF_DEVS :: nat where "NUM_OF_DEVS \<equiv> 10"
abbreviation FIRST_FREE_HANDLE :: u32 where "FIRST_FREE_HANDLE \<equiv> 10"

text \<open>\<open>InfoBlockOc\<close>, whose \<open>id\<close> and \<open>ready\<close> stay 0 until the answer.\<close>

record info_block =
  ib_status :: u32
  ib_info :: u32
  ib_file_size :: u32
  ib_free_clusters :: u32
  ib_time :: u32

record host_request =
  rq_id :: u32
  rq_type :: u32
  rq_offset :: u64
  rq_address :: u32
  rq_path :: "u8 list"
  rq_size :: u32
  rq_handle :: u32
  rq_timestamp :: u32
  rq_info :: info_block
  rq_attributes :: u32
  rq_desired_access :: u32
  rq_create_options :: u32
  rq_buffer :: "u8 list"

text \<open>An open file: its path and whether it is open for writing; where the bytes its stream still keeps
  belong in the file, and these bytes.\<close>

record file_info =
  fi_stream :: "(path \<times> bool) option"
  fi_pending :: "nat \<times> u8 list"
  fi_relative_path :: "u8 list"
  fi_is_directory :: bool

record io_system =
  dvd_dir :: path
  hdd_dir :: path
  io_title :: "u8 list"
  io_title_id :: u32
  io_title_ready :: bool
  handle_map :: "(u32 \<Rightarrow> file_info option) arr"
  work_queue :: "host_request list"
  pending_vec :: "host_request list"
  completed_map :: "u32 \<Rightarrow> host_request option"
  in_work :: "host_request option"
  pending_flag :: bool
  has_pending_packets :: bool
  host_files :: host_fs

section \<open>Opening\<close>

text \<open>A device that is not the disc is a partition directory; device 1 has the number \<open>2 ^ 32 - 1\<close>.\<close>

definition device_dir :: "io_system \<Rightarrow> u32 \<Rightarrow> path" where
  "device_dir s dev =
     (if dev = DEV_CDROM then dvd_dir s
      else hdd_dir s @ [ascii ''Partition'' @ decimal (unat (dev - DEV_PARTITION0))])"

definition no_info :: info_block where
  "no_info = \<lparr>ib_status = 0, ib_info = 0, ib_file_size = 0, ib_free_clusters = 0, ib_time = 0\<rparr>"

text \<open>Writing at an offset of a file: a gap is filled with zeros.\<close>

definition overwrite :: "nat \<Rightarrow> u8 list \<Rightarrow> u8 list \<Rightarrow> u8 list" where
  "overwrite off d c =
     (if d = [] then c else take off (c @ replicate (off - length c) 0) @ d @ drop (off + length d) c)"

definition fs_overwrite :: "path \<Rightarrow> nat \<Rightarrow> u8 list \<Rightarrow> host_fs \<Rightarrow> host_fs" where
  "fs_overwrite p off d fs = (if d = [] then fs else fs_put p (Regular True (overwrite off d (fs_content fs p))) fs)"

text \<open>What a stream keeps is written to its file when it is positioned or destroyed.\<close>

definition settle :: "file_info \<Rightarrow> host_fs \<Rightarrow> host_fs" where
  "settle fi fs =
     (case fi_stream fi of
        Some (p, True) \<Rightarrow> fs_overwrite p (fst (fi_pending fi)) (snd (fi_pending fi)) fs
      | _ \<Rightarrow> fs)"

definition settle_entry :: "file_info option \<Rightarrow> host_fs \<Rightarrow> host_fs" where
  "settle_entry f = (case f of None \<Rightarrow> id | Some fi \<Rightarrow> settle fi)"

text \<open>An entry of the table of handles is replaced: the stream of the old one is destroyed.\<close>

definition put_handle :: "u32 \<Rightarrow> u32 \<Rightarrow> file_info option \<Rightarrow> io_system \<Rightarrow> io_system option" where
  "put_handle dev h fi s = do {
     fis \<leftarrow> aread NUM_OF_DEVS (handle_map s) (unat dev);
     hm \<leftarrow> awrite NUM_OF_DEVS (handle_map s) (unat dev) (fis(h := fi));
     Some (s\<lparr>handle_map := hm, host_files := settle_entry (fis h) (host_files s)\<rparr>)
   }"

definition get_handle :: "u32 \<Rightarrow> u32 \<Rightarrow> io_system \<Rightarrow> file_info option option" where
  "get_handle dev h s = map_option (\<lambda>fis. fis h) (aread NUM_OF_DEVS (handle_map s) (unat dev))"

text \<open>The information of a file that was opened or made: the fabricated times are the request's.\<close>

definition opened_info :: "host_request \<Rightarrow> u32 \<Rightarrow> nat \<Rightarrow> info_block" where
  "opened_info rq info n = \<lparr>ib_status = STATUS_SUCCESS, ib_info = info, ib_file_size = of_nat n,
     ib_free_clusters = 0x7FFFF, ib_time = rq_timestamp rq\<rparr>"

definition failed_info :: "u32 \<Rightarrow> u32 \<Rightarrow> info_block" where
  "failed_info status info = no_info\<lparr>ib_status := status, ib_info := info\<rparr>"

definition open_stream :: "host_fs \<Rightarrow> path \<Rightarrow> (path \<times> bool) option" where
  "open_stream fs p =
     (if fs_writable fs p then Some (p, True) else if fs_readable fs p then Some (p, False) else None)"

definition open_existing :: "host_request \<Rightarrow> u32 \<Rightarrow> u8 list \<Rightarrow> path \<Rightarrow> io_system \<Rightarrow> (info_block \<times> io_system) option" where
  "open_existing rq dev rel p s =
     (let flags = io_get_flags (rq_type rq); disposition = io_get_disposition (rq_type rq);
          is_dir = fs_is_dir (host_files s) p in
      if flags AND IO_FLAG_MUST_BE_DIR \<noteq> 0 \<and> \<not> is_dir
      then Some (failed_info STATUS_NOT_A_DIRECTORY INFO_EXISTS, s)
      else if flags AND IO_FLAG_MUST_NOT_BE_DIR \<noteq> 0 \<and> is_dir
      then Some (failed_info STATUS_FILE_IS_A_DIRECTORY INFO_EXISTS, s)
      else if disposition = IO_OPEN \<or> disposition = IO_OPEN_IF then
        let n = (if is_dir then 0 else length (fs_content (host_files s) p));
            fi = \<lparr>fi_stream = (if is_dir then None else open_stream (host_files s) p),
                  fi_pending = (0, []), fi_relative_path = rel, fi_is_directory = is_dir\<rparr> in
        map_option (Pair (opened_info rq INFO_OPENED n)) (put_handle dev (rq_handle rq) (Some fi) s)
      else if disposition = IO_CREATE
      then Some (failed_info STATUS_ACCESS_DENIED INFO_EXISTS, s)
      else
        let w = \<not> is_dir \<and> fs_writable (host_files s) p;
            s = (if w then s\<lparr>host_files := fs_put p (Regular True []) (host_files s)\<rparr> else s);
            fi = \<lparr>fi_stream = (if w then Some (p, True) else None),
                  fi_pending = (0, []), fi_relative_path = rel, fi_is_directory = is_dir\<rparr> in
        map_option (Pair (opened_info rq (if disposition = IO_SUPERSEDE then 0 else INFO_OVERWRITTEN) 0))
          (put_handle dev (rq_handle rq) (Some fi) s))"

definition open_missing :: "host_request \<Rightarrow> u32 \<Rightarrow> u8 list \<Rightarrow> io_system \<Rightarrow> (info_block \<times> io_system) option" where
  "open_missing rq dev rel s =
     (let disposition = io_get_disposition (rq_type rq) in
      if disposition = IO_CREATE \<or> disposition = IO_SUPERSEDE \<or> disposition = IO_OPEN_IF
         \<or> disposition = IO_OVERWRITE_IF then
        let p = join_path (device_dir s dev) rel;
            is_dir = rq_attributes rq AND 0x10 \<noteq> 0;
            (created, fs) =
              (if is_dir then create_directories p (host_files s)
               else create_file p (snd (create_directories (butlast p) (host_files s))));
            s = s\<lparr>host_files := fs\<rparr> in
        if created \<or> fs_exists fs p then
          let fi = \<lparr>fi_stream = (if is_dir then None else if fs_writable fs p then Some (p, True) else None),
                    fi_pending = (0, []), fi_relative_path = rel, fi_is_directory = is_dir\<rparr> in
          map_option (Pair (opened_info rq INFO_CREATED 0)) (put_handle dev (rq_handle rq) (Some fi) s)
        else Some (failed_info STATUS_IO_DEVICE_ERROR INFO_NOT_EXISTS, s)
      else Some (failed_info STATUS_OBJECT_NAME_NOT_FOUND INFO_NOT_EXISTS, s))"

definition process_open :: "host_request \<Rightarrow> u32 \<Rightarrow> io_system \<Rightarrow> (host_request \<times> io_system) option" where
  "process_open rq dev s =
     (let rel = parse_path (rq_path rq) dev in
      map_option (\<lambda>(i, s). (rq\<lparr>rq_info := i\<rparr>, s))
        (case find_file_ci (host_files s) (device_dir s dev) rel of
           Some p \<Rightarrow> open_existing rq dev rel p s
         | None \<Rightarrow> open_missing rq dev rel s))"

section \<open>Reading, writing and closing\<close>

text \<open>The title of an XBE in a buffer of \<open>n\<close> bytes; the check on its certificate is on a 32-bit sum.\<close>

definition extract_xbe_title :: "u8 list \<Rightarrow> nat \<Rightarrow> io_system \<Rightarrow> io_system option" where
  "extract_xbe_title d n s =
     (if n < 0x178 then Some s
      else do {
        magic \<leftarrow> file_rd 4 d 0;
        if magic \<noteq> XBE_MAGIC then Some s
        else do {
          base_addr \<leftarrow> file_rd 4 d 0x104;
          cert_addr \<leftarrow> file_rd 4 d 0x118;
          let cert_off = cert_addr - base_addr;
          if unat (cert_off + 0x0C + 80) > n then Some s
          else do {
            rid \<leftarrow> file_rd 4 d (unat cert_off + 0x08);
            _ \<leftarrow> file_rd 4 d (unat cert_off + 0x0C + 76);
            let title = ucs2_to_utf8 (title_words (file_bytes d) (unat cert_off + 0x0C));
            Some (if title \<noteq> [] then s\<lparr>io_title_id := rid, io_title := title, io_title_ready := True\<rparr>
                  else s\<lparr>io_title_id := rid\<rparr>)
          }
        }
      })"

text \<open>The first sixteen bytes of a FATX superblock.\<close>

definition superblock :: "u32 \<Rightarrow> u8 list" where
  "superblock dev = get_list 16
     (st 4 (st 4 (st 4 (st 4 (\<lambda>_. 0) 0 0x58544146) 4 (0x12345678 + dev)) 8 32) 12 1) 0"

definition raw_read :: "host_request \<Rightarrow> u32 \<Rightarrow> host_request" where
  "raw_read rq dev =
     (let n = unat (rq_size rq) in
      rq\<lparr>rq_buffer :=
           (if dev \<ge> DEV_PARTITION1 \<and> dev \<le> DEV_PARTITION5 \<and> rq_offset rq = 0 \<and> n \<ge> 16
            then superblock dev @ replicate (n - 16) 0 else replicate n 0),
         rq_info := failed_info STATUS_SUCCESS (rq_size rq)\<rparr>)"

text \<open>The stream of a handle is positioned; what it kept is in the file.\<close>

definition seek_stream :: "u32 \<Rightarrow> u32 \<Rightarrow> file_info \<Rightarrow> io_system \<Rightarrow> io_system" where
  "seek_stream dev h fi s =
     s\<lparr>host_files := settle fi (host_files s),
       handle_map := (handle_map s)(unat dev := (handle_map s (unat dev))(h := Some (fi\<lparr>fi_pending := (0, [])\<rparr>)))\<rparr>"

definition stream_read :: "host_request \<Rightarrow> u32 \<Rightarrow> file_info \<Rightarrow> io_system \<Rightarrow> (host_request \<times> io_system) option" where
  "stream_read rq dev fi s =
     (case fi_stream fi of
        None \<Rightarrow> Some (rq\<lparr>rq_info := failed_info STATUS_IO_DEVICE_ERROR 0\<rparr>, s)
      | Some (p, _) \<Rightarrow>
          let s = seek_stream dev (rq_handle rq) fi s in
          if sint (rq_offset rq) < 0 then Some (rq\<lparr>rq_info := failed_info STATUS_IO_DEVICE_ERROR 0\<rparr>, s)
          else let d = take (unat (rq_size rq)) (drop (unat (rq_offset rq)) (fs_content (host_files s) p));
                   n = length d;
                   rq = rq\<lparr>rq_buffer := d @ drop n (rq_buffer rq),
                          rq_info := failed_info STATUS_SUCCESS (of_nat n), rq_size := of_nat n\<rparr> in
            if dev = DEV_CDROM \<and> rq_offset rq = 0 \<and> n \<ge> 0x178 \<and> \<not> io_title_ready s
            then map_option (Pair rq) (extract_xbe_title (rq_buffer rq) n s)
            else Some (rq, s))"

text \<open>The stream keeps the last \<open>keep\<close> bytes of what it is given, or all of it when that is less.\<close>

definition stream_write :: "nat \<Rightarrow> host_request \<Rightarrow> u32 \<Rightarrow> file_info \<Rightarrow> io_system \<Rightarrow> host_request \<times> io_system" where
  "stream_write keep rq dev fi s =
     (case fi_stream fi of
        None \<Rightarrow> (rq\<lparr>rq_info := failed_info STATUS_IO_DEVICE_ERROR 0\<rparr>, s)
      | Some (p, w) \<Rightarrow>
          let s = seek_stream dev (rq_handle rq) fi s in
          if sint (rq_offset rq) < 0 \<or> (\<not> w \<and> rq_size rq \<noteq> 0)
          then (rq\<lparr>rq_info := failed_info STATUS_IO_DEVICE_ERROR 0\<rparr>, s)
          else let d = take (unat (rq_size rq)) (rq_buffer rq); n = length d - keep;
                   off = unat (rq_offset rq); fi = fi\<lparr>fi_pending := (off + n, drop n d)\<rparr> in
            (rq\<lparr>rq_info := failed_info STATUS_SUCCESS (rq_size rq)\<rparr>,
             s\<lparr>host_files := fs_overwrite p off (take n d) (host_files s),
               handle_map := (handle_map s)(unat dev :=
                 (handle_map s (unat dev))(rq_handle rq := Some fi))\<rparr>))"

definition process_other ::
  "nat \<Rightarrow> host_request \<Rightarrow> u32 \<Rightarrow> u32 \<Rightarrow> io_system \<Rightarrow> (host_request \<times> io_system) option" where
  "process_other keep rq io_type dev s =
     (case get_handle dev (rq_handle rq) s of
        None \<Rightarrow> None
      | Some None \<Rightarrow>
          if rq_handle rq < FIRST_FREE_HANDLE \<and> io_type = REQ_READ then Some (raw_read rq dev, s)
          else if rq_handle rq < FIRST_FREE_HANDLE \<and> io_type = REQ_WRITE
          then Some (rq\<lparr>rq_info := failed_info STATUS_SUCCESS (rq_size rq)\<rparr>, s)
          else if rq_handle rq < FIRST_FREE_HANDLE \<and> io_type = REQ_CLOSE
          then Some (rq\<lparr>rq_info := failed_info STATUS_SUCCESS 0\<rparr>, s)
          else Some (rq\<lparr>rq_info := failed_info STATUS_IO_DEVICE_ERROR 0\<rparr>, s)
      | Some (Some fi) \<Rightarrow>
          if io_type = REQ_CLOSE
          then map_option (Pair (rq\<lparr>rq_info := failed_info STATUS_SUCCESS 0\<rparr>)) (put_handle dev (rq_handle rq) None s)
          else if io_type = REQ_READ then stream_read rq dev fi s
          else if io_type = REQ_WRITE then Some (stream_write keep rq dev fi s)
          else if io_type = REQ_REMOVE then Some (rq\<lparr>rq_info := failed_info STATUS_SUCCESS 0\<rparr>, s)
          else Some (rq\<lparr>rq_info := failed_info STATUS_IO_DEVICE_ERROR 0\<rparr>, s))"

section \<open>Packets\<close>

definition new_request :: "u32 \<Rightarrow> u32 \<Rightarrow> host_request" where
  "new_request rid t = \<lparr>rq_id = rid, rq_type = t, rq_offset = 0, rq_address = 0, rq_path = [], rq_size = 0,
     rq_handle = 0, rq_timestamp = 0, rq_info = no_info, rq_attributes = 0, rq_desired_access = 0,
     rq_create_options = 0, rq_buffer = []\<rparr>"

text \<open>A buffer of \<open>n\<close> bytes after a block read that delivered \<open>bs\<close>.\<close>

definition buffer_after :: "nat \<Rightarrow> bytes \<Rightarrow> u8 list \<Rightarrow> u8 list" where
  "buffer_after n junk bs = bs @ map junk [length bs..<n]"

definition ld8 :: "bytes \<Rightarrow> nat \<Rightarrow> u64" where
  "ld8 m a = ucast (ld 4 m a) OR push_bit 32 (ucast (ld 4 m (a + 4)))"

definition enqueue :: "bool \<Rightarrow> host_request \<Rightarrow> io_system \<Rightarrow> io_system" where
  "enqueue lock rq s =
     (if lock then s\<lparr>work_queue := work_queue s @ [rq], pending_flag := True\<rparr>
      else s\<lparr>pending_vec := pending_vec s @ [rq], has_pending_packets := True\<rparr>)"

abbreviation SIZEOF_REQUEST :: nat where "SIZEOF_REQUEST \<equiv> 44"
abbreviation SIZEOF_INFO :: nat where "SIZEOF_INFO \<equiv> 16"
abbreviation SIZEOF_INFO_OC :: nat where "SIZEOF_INFO_OC \<equiv> 36"

text \<open>The request a packet asks for.  The length of a path plus one is a 32-bit sum: \<open>2 ^ 32 - 1\<close> makes
  an empty buffer whose terminator is written outside.\<close>

definition unpack_request :: "(nat \<Rightarrow> bytes) \<Rightarrow> bytes \<Rightarrow> machine \<Rightarrow> (host_request \<times> machine) option" where
  "unpack_request junk b m =
     (let rid = ld 4 b 0; t = ld 4 b 4; ty = io_get_type t; rq = new_request rid t in
      if ty = REQ_OPEN then
        let n = ld 4 b 16 in
        if n = 0xFFFFFFFF then None
        else map_option (\<lambda>(_, bs, m).
            (rq\<lparr>rq_offset := ucast (ld 4 b 8), rq_size := n, rq_handle := ld 4 b 20, rq_timestamp := ld 4 b 32,
                rq_attributes := ld 4 b 28, rq_desired_access := ld 4 b 36, rq_create_options := ld 4 b 40,
                rq_path := buffer_after (unat n) (junk 1) bs\<rparr>, m))
          (read_guest_block (ld 4 b 24) (unat n) m)
      else if ty = REQ_READ \<or> ty = REQ_WRITE then
        let n = ld 4 b 16;
            rq = rq\<lparr>rq_offset := ld8 b 8, rq_address := ld 4 b 20, rq_size := n, rq_handle := ld 4 b 24,
                    rq_timestamp := ld 4 b 28, rq_buffer := buffer_after (unat n) (junk 1) []\<rparr> in
        if ty = REQ_WRITE
        then map_option (\<lambda>(_, bs, m). (rq\<lparr>rq_buffer := buffer_after (unat n) (junk 1) bs\<rparr>, m))
          (read_guest_block (ld 4 b 20) (unat n) m)
        else Some (rq, m)
      else Some (rq\<lparr>rq_handle := ld 4 b 8\<rparr>, m))"

text \<open>Whether the packet could be read is not looked at.\<close>

definition submit_io_packet ::
  "(nat \<Rightarrow> bytes) \<Rightarrow> bool \<Rightarrow> u32 \<Rightarrow> io_system \<times> machine \<Rightarrow> (io_system \<times> machine) option" where
  "submit_io_packet junk lock va = (\<lambda>(s, m).
     case read_guest_block va SIZEOF_REQUEST m of
       None \<Rightarrow> None
     | Some (_, bs, m) \<Rightarrow>
         map_option (\<lambda>(rq, m). (enqueue lock rq s, m))
           (unpack_request junk (file_bytes (buffer_after SIZEOF_REQUEST (junk 0) bs)) m))"

definition flush_pending_packets :: "bool \<Rightarrow> io_system \<Rightarrow> io_system" where
  "flush_pending_packets lock s =
     (if pending_vec s \<noteq> [] \<and> lock
      then s\<lparr>work_queue := work_queue s @ pending_vec s, pending_vec := [], has_pending_packets := False,
             pending_flag := True\<rparr>
      else s)"

text \<open>The answer written back: the whole block for an open, its header otherwise.\<close>

definition answer_header :: "info_block \<Rightarrow> bytes" where
  "answer_header i = st 4 (st 4 (st 4 (st 4 (\<lambda>_. 0) 0 0) 4 (ib_status i)) 8 (ib_info i)) 12 1"

definition answer_block :: "host_request \<Rightarrow> u8 list" where
  "answer_block rq =
     (let i = rq_info rq in
      if io_get_type (rq_type rq) = REQ_OPEN
      then get_list SIZEOF_INFO_OC
        (st 4 (st 4 (st 4 (st 4 (st 4 (answer_header i) 16 (ib_file_size i)) 20 (ib_free_clusters i))
          24 (ib_time i)) 28 (ib_time i)) 32 (ib_time i)) 0
      else get_list SIZEOF_INFO (answer_header i) 0)"

definition query_io_packet ::
  "bytes \<Rightarrow> bool \<Rightarrow> u32 \<Rightarrow> io_system \<times> machine \<Rightarrow> (io_system \<times> machine) option" where
  "query_io_packet junk lock va = (\<lambda>(s, m).
     if \<not> lock then Some (s, m)
     else case read_guest_block va SIZEOF_INFO_OC m of
       None \<Rightarrow> None
     | Some (_, bs, m) \<Rightarrow>
         let rid = ld 4 (file_bytes (buffer_after SIZEOF_INFO_OC junk bs)) 0 in
         (case completed_map s rid of
            None \<Rightarrow> Some (s, m)
          | Some rq \<Rightarrow> do {
              (_, m) \<leftarrow> (if io_get_type (rq_type rq) = REQ_READ \<and> ib_status (rq_info rq) = STATUS_SUCCESS
                         then write_guest_block (rq_address rq) (take (unat (rq_size rq)) (rq_buffer rq)) m
                         else Some (True, m));
              (_, m) \<leftarrow> write_guest_block va (answer_block rq) m;
              Some (s\<lparr>completed_map := (completed_map s)(rid := None)\<rparr>, m)
            }))"

section \<open>The worker\<close>

text \<open>\<open>init\<close>: the directories of the partitions are made.\<close>

definition io_init :: "path \<Rightarrow> path \<Rightarrow> host_fs \<Rightarrow> io_system" where
  "io_init disc hdd fs =
     \<lparr>dvd_dir = disc, hdd_dir = hdd, io_title = [], io_title_id = 0, io_title_ready = False,
      handle_map = (\<lambda>_ _. None), work_queue = [], pending_vec = [], completed_map = (\<lambda>_. None), in_work = None,
      pending_flag = False, has_pending_packets = False,
      host_files = fold (\<lambda>i fs. snd (create_directories (hdd @ [ascii ''Partition'' @ decimal i]) fs)) [0..<6] fs\<rparr>"

text \<open>The worker's turn with the queue's lock held: it takes the first request, or waits again.\<close>

definition worker_take :: "io_system \<Rightarrow> io_system" where
  "worker_take s =
     (if \<not> pending_flag s \<or> in_work s \<noteq> None then s
      else case work_queue s of
        [] \<Rightarrow> s\<lparr>pending_flag := False\<rparr>
      | rq # rqs \<Rightarrow> s\<lparr>work_queue := rqs, in_work := Some rq\<rparr>)"

text \<open>It processes the request and enters it among the completed ones, unless its number is there.\<close>

definition worker_finish :: "nat \<Rightarrow> io_system \<Rightarrow> io_system option" where
  "worker_finish keep s =
     (case in_work s of
        None \<Rightarrow> Some s
      | Some rq \<Rightarrow>
          let ty = io_get_type (rq_type rq); dev = io_get_dev (rq_type rq) in
          map_option (\<lambda>(rq, s). s\<lparr>in_work := None,
              completed_map := (if completed_map s (rq_id rq) = None
                then (completed_map s)(rq_id rq := Some rq) else completed_map s)\<rparr>)
            (if ty = REQ_OPEN then process_open rq dev s else process_other keep rq ty dev s))"

text \<open>A stop request, seen by the worker between two requests: the streams of all open handles are
  destroyed, in an order (\<open>order\<close>, pairs of a device and a handle) the containers choose.\<close>

definition worker_stop :: "(nat \<times> u32) list \<Rightarrow> io_system \<Rightarrow> io_system" where
  "worker_stop order s = s\<lparr>has_pending_packets := False, work_queue := [], completed_map := (\<lambda>_. None),
     handle_map := (\<lambda>i. if i < NUM_OF_DEVS then (\<lambda>_. None) else handle_map s i), pending_vec := [],
     host_files := fold (\<lambda>(dev, h). settle_entry (handle_map s dev h)) order (host_files s)\<rparr>"

end
