(* ===== verification/Nbox_Io_Facts.thy ===== *)
theory Nbox_Io_Facts
  imports Nbox_Io
begin

text \<open>
  What the file service promises: where a request is at any moment, which accesses stay inside the table
  of devices, what a read after a write delivers, and which file a name finds.
\<close>

section \<open>Where a request is\<close>

definition outstanding :: "io_system \<Rightarrow> u32 list" where
  "outstanding s = map rq_id (pending_vec s @ work_queue s) @ (case in_work s of None \<Rightarrow> [] | Some rq \<Rightarrow> [rq_id rq])"

text \<open>The numbers of the requests held: as often as requests carry them.\<close>

definition held :: "io_system \<Rightarrow> u32 multiset" where
  "held s = mset (outstanding s) + mset_set (dom (completed_map s))"

lemma count_held: "count (held s) n = count (mset (outstanding s)) n + (if completed_map s n = None then 0 else 1)"
  by (auto simp: held_def count_mset_set')

text \<open>What processing a request leaves alone.\<close>

definition same_queues :: "io_system \<Rightarrow> io_system \<Rightarrow> bool" where
  "same_queues s s' \<longleftrightarrow> work_queue s' = work_queue s \<and> pending_vec s' = pending_vec s \<and>
     completed_map s' = completed_map s \<and> in_work s' = in_work s \<and> pending_flag s' = pending_flag s \<and>
     has_pending_packets s' = has_pending_packets s"

named_theorems queues \<open>a step that keeps the queues\<close>

lemma put_handle_queues [queues]: "put_handle dev h fi s = Some s' \<Longrightarrow> same_queues s s'"
  by (auto simp: put_handle_def same_queues_def bind_eq_Some_conv)

lemma extract_queues [queues]: "extract_xbe_title d n s = Some s' \<Longrightarrow> same_queues s s'"
  by (auto simp: extract_xbe_title_def same_queues_def Let_def split: if_splits bind_splits)

lemma files_queues: "same_queues (s\<lparr>host_files := fs\<rparr>) s' \<Longrightarrow> same_queues s s'"
  by (simp add: same_queues_def)

lemma same_queues_refl [simp]: "same_queues s s"
  by (simp add: same_queues_def)

lemma seek_stream_queues [simp]: "same_queues s (seek_stream dev h fi s)"
  by (simp add: same_queues_def seek_stream_def)

lemma same_queues_trans: "same_queues s t \<Longrightarrow> same_queues t u \<Longrightarrow> same_queues s u"
  by (simp add: same_queues_def)

lemma stream_read_kept:
  assumes "stream_read rq dev fi s = Some (rq', s')"
  shows "same_queues s s' \<and> rq_id rq' = rq_id rq"
proof (cases "fi_stream fi")
  case (Some x)
  define t where "t = seek_stream dev (rq_handle rq) fi s"
  have "same_queues s t" by (simp add: t_def)
  then show ?thesis
    using assms Some same_queues_trans [OF _ extract_queues]
    by (auto simp: stream_read_def Let_def split: prod.splits if_splits simp flip: t_def)
qed (use assms in \<open>auto simp: stream_read_def\<close>)

lemma stream_write_kept:
  assumes "stream_write keep rq dev fi s = (rq', s')"
  shows "same_queues s s' \<and> rq_id rq' = rq_id rq"
  using assms by (auto simp: stream_write_def Let_def same_queues_def seek_stream_def split: option.splits if_splits)

lemma open_existing_queues [queues]: "open_existing rq dev rel p s = Some (i, s') \<Longrightarrow> same_queues s s'"
  by (auto simp: open_existing_def Let_def split: if_splits dest: queues files_queues)

lemma open_missing_queues [queues]: "open_missing rq dev rel s = Some (i, s') \<Longrightarrow> same_queues s s'"
  by (auto simp: open_missing_def Let_def same_queues_def split: if_splits prod.splits dest!: queues files_queues)

lemma process_open_kept:
  "process_open rq dev s = Some (rq', s') \<Longrightarrow> same_queues s s' \<and> rq_id rq' = rq_id rq"
  by (auto simp: process_open_def Let_def split: option.splits dest: queues)

lemma process_other_kept:
  "process_other keep rq ty dev s = Some (rq', s') \<Longrightarrow> same_queues s s' \<and> rq_id rq' = rq_id rq"
  by (auto simp: process_other_def raw_read_def Let_def split: if_splits option.splits
      dest!: queues stream_read_kept stream_write_kept)

lemma same_queues_facts:
  "same_queues s s' \<Longrightarrow> outstanding s' = outstanding s \<and> completed_map s' = completed_map s \<and> in_work s' = in_work s"
  by (simp add: same_queues_def outstanding_def)

lemma worker_finish_cases:
  assumes "worker_finish keep s = Some s'"
  obtains "in_work s = None" "s' = s"
    | rq rq' s1 where "in_work s = Some rq" "rq_id rq' = rq_id rq" "same_queues s s1"
      "s' = s1\<lparr>in_work := None, completed_map := (if completed_map s (rq_id rq) = None
        then (completed_map s)(rq_id rq := Some rq') else completed_map s)\<rparr>"
proof (cases "in_work s")
  case None
  then have "s' = s" using assms by (simp add: worker_finish_def)
  with None show ?thesis by (rule that(1))
next
  case (Some rq)
  define r where "r = (if io_get_type (rq_type rq) = REQ_OPEN then process_open rq (io_get_dev (rq_type rq)) s
      else process_other keep rq (io_get_type (rq_type rq)) (io_get_dev (rq_type rq)) s)"
  define g where "g = (\<lambda>(rq :: host_request, s :: io_system). s\<lparr>in_work := None,
      completed_map := (if completed_map s (rq_id rq) = None
        then (completed_map s)(rq_id rq := Some rq) else completed_map s)\<rparr>)"
  have "map_option g r = Some s'"
    using assms unfolding worker_finish_def Some option.case Let_def r_def g_def .
  then obtain p where p: "r = Some p" "s' = g p" by (cases r) simp_all
  obtain rq' s1 where rs: "p = (rq', s1)" by (cases p)
  have r: "r = Some (rq', s1)"
    and s': "s' = s1\<lparr>in_work := None, completed_map := (if completed_map s1 (rq_id rq') = None
        then (completed_map s1)(rq_id rq' := Some rq') else completed_map s1)\<rparr>"
    by (simp_all only: p rs g_def split_conv)
  have k: "same_queues s s1 \<and> rq_id rq' = rq_id rq"
  proof (cases "io_get_type (rq_type rq) = REQ_OPEN")
    case True
    then have "process_open rq (io_get_dev (rq_type rq)) s = Some (rq', s1)" using r by (simp add: r_def)
    then show ?thesis by (rule process_open_kept)
  next
    case False
    then have "process_other keep rq (io_get_type (rq_type rq)) (io_get_dev (rq_type rq)) s = Some (rq', s1)"
      using r by (simp add: r_def)
    then show ?thesis by (rule process_other_kept)
  qed
  then have c: "completed_map s1 = completed_map s" by (simp add: same_queues_def)
  show ?thesis
  proof (rule that(2) [OF Some])
    show "rq_id rq' = rq_id rq" "same_queues s s1" using k by simp_all
    show "s' = s1\<lparr>in_work := None, completed_map := (if completed_map s (rq_id rq) = None
        then (completed_map s)(rq_id rq := Some rq') else completed_map s)\<rparr>"
      using k unfolding s' c by simp
  qed
qed

text \<open>The number a submitted packet carries.\<close>

definition packet_id :: "bytes \<Rightarrow> u32 \<Rightarrow> machine \<Rightarrow> u32" where
  "packet_id junk va m = (case read_guest_block va SIZEOF_REQUEST m of
     None \<Rightarrow> 0 | Some (_, bs, _) \<Rightarrow> ld 4 (file_bytes (buffer_after SIZEOF_REQUEST junk bs)) 0)"

lemma unpack_request_id: "unpack_request junk b m = Some (rq, m') \<Longrightarrow> rq_id rq = ld 4 b 0"
  by (auto simp: unpack_request_def new_request_def Let_def split: if_splits)

lemma submit_held:
  assumes "submit_io_packet junk lock va (s, m) = Some (s', m')"
  shows "held s' = add_mset (packet_id (junk 0) va m) (held s)" and "completed_map s' = completed_map s"
proof -
  obtain ok bs m1 where r: "read_guest_block va SIZEOF_REQUEST m = Some (ok, bs, m1)"
    using assms by (auto simp: submit_io_packet_def split: option.splits)
  obtain rq where u: "unpack_request junk (file_bytes (buffer_after SIZEOF_REQUEST (junk 0) bs)) m1 = Some (rq, m')"
    and s': "s' = enqueue lock rq s"
    using assms by (auto simp: submit_io_packet_def r)
  have "rq_id rq = packet_id (junk 0) va m"
    using unpack_request_id [OF u] by (simp add: packet_id_def r)
  then show "held s' = add_mset (packet_id (junk 0) va m) (held s)" and "completed_map s' = completed_map s"
    by (auto simp: s' enqueue_def held_def outstanding_def)
qed

lemma flush_held:
  "held (flush_pending_packets lock s) = held s" "completed_map (flush_pending_packets lock s) = completed_map s"
  by (simp_all add: flush_pending_packets_def held_def outstanding_def)

lemma take_held: "held (worker_take s) = held s" "completed_map (worker_take s) = completed_map s"
  by (auto simp: worker_take_def held_def outstanding_def split: list.splits)

text \<open>A request that is finished is entered among the completed ones, or dropped because one with its
  number is there.\<close>

lemma finish_held:
  assumes "worker_finish keep s = Some s'" and rq: "in_work s = Some rq"
  shows "if completed_map s (rq_id rq) = None
    then held s' = held s \<and> dom (completed_map s') = insert (rq_id rq) (dom (completed_map s))
    else held s = add_mset (rq_id rq) (held s') \<and> completed_map s' = completed_map s"
  using assms(1)
proof (cases rule: worker_finish_cases)
  case (2 rq1 rq' s1)
  then have "outstanding s = outstanding s' @ [rq_id rq]" "rq1 = rq"
    using rq by (auto simp: outstanding_def same_queues_def)
  with 2 rq show ?thesis
    by (cases "completed_map s (rq_id rq)") (auto simp: multiset_eq_iff count_held)
qed (use rq in simp)

text \<open>What it means that a query answers the request number \<open>n\<close>: it is the number in the guest's block,
  a request with it is completed, and the guest is given the data of a successful read and the answer,
  as far as the pages they go to are there.\<close>

definition answers :: "bytes \<Rightarrow> bool \<Rightarrow> u32 \<Rightarrow> io_system \<Rightarrow> machine \<Rightarrow> machine \<Rightarrow> u32 \<Rightarrow> bool" where
  "answers junk lock va s m m' n \<longleftrightarrow> lock \<and>
     (\<exists>ok bs m1 rq m2 ok1 ok2.
        read_guest_block va SIZEOF_INFO_OC m = Some (ok, bs, m1)
        \<and> n = ld 4 (file_bytes (buffer_after SIZEOF_INFO_OC junk bs)) 0 \<and> completed_map s n = Some rq
        \<and> (if io_get_type (rq_type rq) = REQ_READ \<and> ib_status (rq_info rq) = STATUS_SUCCESS
           then write_guest_block (rq_address rq) (take (unat (rq_size rq)) (rq_buffer rq)) m1 = Some (ok1, m2)
           else m2 = m1)
        \<and> write_guest_block va (answer_block rq) m2 = Some (ok2, m'))"

lemma query_cases:
  assumes "query_io_packet junk lock va (s, m) = Some (s', m')"
  obtains n where "answers junk lock va s m m' n" "s' = s\<lparr>completed_map := (completed_map s)(n := None)\<rparr>"
    | "\<And>n. \<not> answers junk lock va s m m' n" "s' = s"
proof (cases lock)
  case True
  then obtain ok bs m1 where r: "read_guest_block va SIZEOF_INFO_OC m = Some (ok, bs, m1)"
    using assms by (auto simp: query_io_packet_def split: option.splits)
  define n where "n = ld 4 (file_bytes (buffer_after SIZEOF_INFO_OC junk bs)) 0"
  show ?thesis
  proof (cases "completed_map s n")
    case None
    then have "s' = s" using assms True by (simp add: query_io_packet_def r Let_def flip: n_def)
    moreover have "\<not> answers junk lock va s m m' k" for k using None by (auto simp: answers_def r n_def)
    ultimately show ?thesis by (rule that(2) [rotated])
  next
    case (Some rq)
    obtain m2 ok1 ok2 where "if io_get_type (rq_type rq) = REQ_READ \<and> ib_status (rq_info rq) = STATUS_SUCCESS
           then write_guest_block (rq_address rq) (take (unat (rq_size rq)) (rq_buffer rq)) m1 = Some (ok1, m2)
           else m2 = m1" "write_guest_block va (answer_block rq) m2 = Some (ok2, m')"
      and s': "s' = s\<lparr>completed_map := (completed_map s)(n := None)\<rparr>"
      using assms True Some unfolding query_io_packet_def
      by (simp add: r Let_def flip: n_def) (auto split: bind_splits if_splits)
    then have "answers junk lock va s m m' n" using True r Some unfolding answers_def n_def by blast
    with s' show ?thesis by (rule that(1) [rotated])
  qed
next
  case False
  then show ?thesis using assms by (intro that(2)) (simp_all add: query_io_packet_def answers_def)
qed

text \<open>What has become of the requests so far.\<close>

record io_log =
  lg_submitted :: "u32 multiset"
  lg_answered :: "u32 multiset"
  lg_dropped :: "u32 multiset"
  lg_cancelled :: "u32 multiset"

definition empty_log :: io_log where
  "empty_log = \<lparr>lg_submitted = {#}, lg_answered = {#}, lg_dropped = {#}, lg_cancelled = {#}\<rparr>"

text \<open>The states the service reaches, whatever the guest submits and the machine does between two steps:
  a request is dropped when the worker finishes it and one with its number is among the completed ones,
  and a stop cancels what is held and ends the worker.\<close>

inductive io_reach :: "io_system \<Rightarrow> bool \<Rightarrow> io_log \<Rightarrow> bool" where
  start: "io_reach (io_init disc hdd fs) True empty_log"
| submit: "io_reach s w l \<Longrightarrow> submit_io_packet junk lock va (s, m) = Some (s', m') \<Longrightarrow>
    io_reach s' w (l\<lparr>lg_submitted := add_mset (packet_id (junk 0) va m) (lg_submitted l)\<rparr>)"
| flush: "io_reach s w l \<Longrightarrow> io_reach (flush_pending_packets lock s) w l"
| answer: "io_reach s w l \<Longrightarrow> query_io_packet jk lock va (s, m) = Some (s', m') \<Longrightarrow>
    answers jk lock va s m m' n \<Longrightarrow> io_reach s' w (l\<lparr>lg_answered := add_mset n (lg_answered l)\<rparr>)"
| no_answer: "io_reach s w l \<Longrightarrow> query_io_packet jk lock va (s, m) = Some (s', m') \<Longrightarrow>
    (\<And>n. \<not> answers jk lock va s m m' n) \<Longrightarrow> io_reach s' w l"
| take_one: "io_reach s True l \<Longrightarrow> io_reach (worker_take s) True l"
| finish: "io_reach s True l \<Longrightarrow> in_work s = Some rq \<Longrightarrow> completed_map s (rq_id rq) = None \<Longrightarrow>
    worker_finish keep s = Some s' \<Longrightarrow> io_reach s' True l"
| drop: "io_reach s True l \<Longrightarrow> in_work s = Some rq \<Longrightarrow> completed_map s (rq_id rq) \<noteq> None \<Longrightarrow>
    worker_finish keep s = Some s' \<Longrightarrow>
    io_reach s' True (l\<lparr>lg_dropped := add_mset (rq_id rq) (lg_dropped l)\<rparr>)"
| stop: "io_reach s True l \<Longrightarrow> in_work s = None \<Longrightarrow>
    io_reach (worker_stop order s) False (l\<lparr>lg_cancelled := lg_cancelled l + held s\<rparr>)"

definition conserved :: "io_system \<Rightarrow> io_log \<Rightarrow> bool" where
  "conserved s l \<longleftrightarrow> lg_submitted l = lg_answered l + lg_dropped l + lg_cancelled l + held s \<and>
     (\<forall>n. n \<in># lg_dropped l \<longrightarrow> completed_map s n \<noteq> None \<or> n \<in># lg_answered l \<or> n \<in># lg_cancelled l)"

lemma io_reach_conserved: "io_reach s w l \<Longrightarrow> conserved s l"
proof (induction rule: io_reach.induct)
  case (start disc hdd fs)
  then show ?case by (simp add: conserved_def held_def outstanding_def io_init_def empty_log_def)
next
  case (submit s w l junk lock va m s' m')
  then show ?case using submit_held [OF submit(2)] by (simp add: conserved_def)
next
  case (flush s w l lock)
  then show ?case using flush_held [of lock s] by (simp add: conserved_def)
next
  case (answer s w l jk lock va m s' m' n)
  from answer(2) obtain n' where n': "answers jk lock va s m m' n'" "s' = s\<lparr>completed_map := (completed_map s)(n' := None)\<rparr>"
    by (rule query_cases) (use answer(3) in auto)
  have n: "n' = n" "completed_map s n \<noteq> None" using answer(3) n'(1) by (auto simp: answers_def)
  have "held s = add_mset n (held s')"
    using n by (auto simp: n'(2) multiset_eq_iff count_held outstanding_def)
  then show ?case using answer.IH n by (auto simp: conserved_def n'(2))
next
  case (no_answer s w l jk lock va m s' m')
  from no_answer(2) have "s' = s" by (rule query_cases) (use no_answer(3) in auto)
  then show ?case using no_answer.IH by simp
next
  case (take_one s l)
  then show ?case using take_held [of s] by (simp add: conserved_def)
next
  case (finish s l rq keep s')
  then show ?case using finish_held [OF finish(4,2)] by (auto simp: conserved_def dom_def set_eq_iff)
next
  case (drop s l rq keep s')
  then show ?case using finish_held [OF drop(4,2)] by (auto simp: conserved_def)
next
  case (stop s l order)
  have "held (worker_stop order s) = {#}"
    using stop(2) by (simp add: held_def outstanding_def worker_stop_def)
  then show ?case using stop.IH by (auto simp: conserved_def held_def worker_stop_def)
qed

text \<open>C33: No request is lost: at every moment, whatever numbers the packets carry and also when the
  worker has been stopped, the requests submitted are, counted by their numbers, exactly those answered
  (the answer written to the guest), those dropped, those cancelled by a stop and those held in the retry
  buffer, in the queue, by the worker or among the completed ones; a request is dropped only when its
  number is submitted twice.  When no number is submitted twice, none is dropped, none is answered twice,
  and each is held in one place at most.\<close>

theorem requests_conserved:
  assumes "io_reach s w l"
  shows "lg_submitted l = lg_answered l + lg_dropped l + lg_cancelled l + held s
    \<and> (\<forall>n \<in># lg_dropped l. 2 \<le> count (lg_submitted l) n)
    \<and> ((\<forall>n. count (lg_submitted l) n \<le> 1) \<longrightarrow>
        lg_dropped l = {#} \<and> (\<forall>n. count (lg_answered l) n + count (held s) n \<le> 1))"
proof -
  have c: "lg_submitted l = lg_answered l + lg_dropped l + lg_cancelled l + held s"
    and d: "\<And>n. n \<in># lg_dropped l \<Longrightarrow> completed_map s n \<noteq> None \<or> n \<in># lg_answered l \<or> n \<in># lg_cancelled l"
    using io_reach_conserved [OF assms] unfolding conserved_def by blast+
  have n: "count (lg_submitted l) n =
      count (lg_answered l) n + count (lg_dropped l) n + count (lg_cancelled l) n + count (held s) n" for n
    by (simp add: c)
  have two: "2 \<le> count (lg_submitted l) n" if "n \<in># lg_dropped l" for n
  proof -
    have "0 < count (lg_dropped l) n" using that by simp
    moreover have "0 < count (held s) n \<or> 0 < count (lg_answered l) n \<or> 0 < count (lg_cancelled l) n"
      using d [OF that] by (auto simp: count_held)
    ultimately show ?thesis using n [of n] by linarith
  qed
  have one: "lg_dropped l = {#} \<and> (\<forall>n. count (lg_answered l) n + count (held s) n \<le> 1)"
    if "\<forall>n. count (lg_submitted l) n \<le> 1"
  proof (intro conjI allI)
    show "lg_dropped l = {#}"
    proof (rule ccontr)
      assume "lg_dropped l \<noteq> {#}"
      then obtain n where "n \<in># lg_dropped l" by (meson multiset_nonemptyE)
      from two [OF this] that [rule_format, of n] show False by linarith
    qed
    show "count (lg_answered l) n + count (held s) n \<le> 1" for n
      using n [of n] that [rule_format, of n] by linarith
  qed
  show ?thesis using c two one by blast
qed

text \<open>A request through its whole life: the guest submits a close of a raw partition, the worker takes and
  finishes it, and the guest finds the answer.\<close>

lemma ld_from: "ld n (\<lambda>i. m (a + i)) k = ld n m (a + k)"
proof (induction n arbitrary: k)
  case (Suc n)
  show ?case using Suc [of "Suc k"] by simp
qed simp

lemma block_field:
  assumes "k + 4 \<le> n"
  shows "ld 4 (file_bytes (buffer_after n junk (get_list n m a))) k = ld 4 m (a + k)"
proof -
  have "ld 4 (file_bytes (buffer_after n junk (get_list n m a))) k = ld 4 (\<lambda>i. m (a + i)) k"
    by (rule ld_cong) (use assms in \<open>simp add: file_bytes_def buffer_after_def get_list_def nth_append\<close>)
  also have "\<dots> = ld 4 m (a + k)" by (rule ld_from)
  finally show ?thesis .
qed

definition life_machine :: machine where
  "life_machine = set_mem (st 4 (st 4 (st 4 (st 4 (\<lambda>_. 0) 0x1000 7) 0x1004 0x31800000) 0x1008 5) 0x2000 7)
     (executor_init False)"

definition life_request :: host_request where
  "life_request = (new_request 7 0x31800000)\<lparr>rq_handle := 5\<rparr>"

lemma life_flat: "flat life_machine"
  using flat_init [of False] by (simp add: life_machine_def flat_def paging_enabled_def set_mem_def)

lemma life_fields:
  "ld 4 (ram life_machine) 0x1000 = 7" "ld 4 (ram life_machine) 0x1004 = 0x31800000"
  "ld 4 (ram life_machine) 0x1008 = 5" "ld 4 (ram life_machine) 0x2000 = 7"
  by (simp_all add: life_machine_def ld_st_same ld_st_disjoint)

lemma life_submit:
  "packet_id junk 0x1000 life_machine = 7"
  "submit_io_packet (\<lambda>_. junk) True 0x1000 (s, life_machine) = Some (enqueue True life_request s, life_machine)"
  using read_block_flat [OF life_flat, of "0x1000" 44]
  by (simp_all add: packet_id_def submit_io_packet_def block_field life_fields unpack_request_def io_get_type_def
      new_request_def life_request_def Let_def)

theorem requests_conserved_witness:
  "\<exists>s l. io_reach s True l \<and> lg_submitted l = {#7#} \<and> lg_answered l = {#7#} \<and> held s = {#}"
proof -
  define s1 where "s1 = enqueue True life_request (io_init [] [] [])"
  have 1: "io_reach s1 True (empty_log\<lparr>lg_submitted := {#7#}\<rparr>)"
    using submit [OF start life_submit(2)] by (simp add: s1_def life_submit(1) empty_log_def)
  have 2: "io_reach (worker_take s1) True (empty_log\<lparr>lg_submitted := {#7#}\<rparr>)" using 1 by (rule take_one)
  have w: "in_work (worker_take s1) = Some life_request" "completed_map (worker_take s1) = (\<lambda>_. None)"
    "handle_map (worker_take s1) = (\<lambda>_ _. None)"
    by (simp_all add: s1_def worker_take_def enqueue_def io_init_def)
  obtain s2 rq where s2: "worker_finish 0 (worker_take s1) = Some s2" "completed_map s2 = [7 \<mapsto> rq]" "rq_type rq = 0x31800000"
    using w by (simp add: worker_finish_def process_other_def get_handle_def aread_def life_request_def
        new_request_def io_get_type_def io_get_dev_def Let_def)
  have 3: "io_reach s2 True (empty_log\<lparr>lg_submitted := {#7#}\<rparr>)"
    using finish [OF 2 w(1) _ s2(1)] w(2) by simp
  obtain s3 m' where q: "query_io_packet (\<lambda>_. 0) True 0x2000 (s2, life_machine) = Some (s3, m')"
    and a: "answers (\<lambda>_. 0) True 0x2000 s2 life_machine m' 7"
  proof -
    have r: "read_guest_block 0x2000 36 life_machine = Some (True, get_list 36 (ram life_machine) 0x2000, life_machine)"
      using read_block_flat [OF life_flat, of "0x2000" 36] by simp
    have l: "length (answer_block rq) = 16" using s2(3) by (simp add: answer_block_def get_list_def io_get_type_def Let_def)
    obtain m2 where "write_guest_block 0x2000 (answer_block rq) life_machine = Some (True, m2)"
      using write_block_flat [OF life_flat, of "0x2000" "answer_block rq"] l by simp
    then show ?thesis
      using that r s2(2,3)
      by (auto simp: query_io_packet_def answers_def block_field life_fields io_get_type_def Let_def)
  qed
  have "io_reach s3 True (empty_log\<lparr>lg_submitted := {#7#}, lg_answered := {#7#}\<rparr>)"
    using answer [OF 3 q a] by (simp add: empty_log_def)
  with requests_conserved [OF this] show ?thesis by (intro exI) (auto simp: empty_log_def)
qed

text \<open>A packet that had to wait in the retry buffer is overtaken by one submitted after it.\<close>

lemma retried_packet_overtaken:
  assumes "work_queue s = []" and "pending_vec s = []"
  shows "work_queue (flush_pending_packets True (enqueue True b (enqueue False a s))) = [b, a]"
  using assms by (simp add: enqueue_def flush_pending_packets_def)

section \<open>Device numbers\<close>

lemma get_handle_in: "get_handle dev h s \<noteq> None \<longleftrightarrow> unat dev < NUM_OF_DEVS"
  by (simp add: get_handle_def aread_def)

lemma put_handle_in: "put_handle dev h fi s \<noteq> None \<longleftrightarrow> unat dev < NUM_OF_DEVS"
  by (auto simp: put_handle_def aread_def awrite_def bind_eq_Some_conv)

lemma io_get_dev_range: "unat (io_get_dev t) < 32"
  using unat_and_mask_less [of "drop_bit 23 t" 5] by (simp add: io_get_dev_def mask_eq_exp_minus_1)

lemma process_open_total: "unat dev < NUM_OF_DEVS \<Longrightarrow> process_open rq dev s \<noteq> None"
  using put_handle_in [of dev]
  by (auto simp: process_open_def open_existing_def open_missing_def Let_def split: option.splits prod.splits)

text \<open>When the title may be looked for in the data that was read.\<close>

definition title_read :: "host_request \<Rightarrow> io_system \<Rightarrow> bool" where
  "title_read rq s \<longleftrightarrow> io_get_type (rq_type rq) = REQ_READ \<and> io_get_dev (rq_type rq) = DEV_CDROM \<and> \<not> io_title_ready s"

lemma stream_read_total: "dev \<noteq> DEV_CDROM \<or> io_title_ready s \<Longrightarrow> stream_read rq dev fi s \<noteq> None"
  by (auto simp: stream_read_def Let_def seek_stream_def split: option.splits prod.splits)

lemma process_other_total:
  assumes "unat dev < NUM_OF_DEVS" and "ty = REQ_READ \<longrightarrow> dev \<noteq> DEV_CDROM \<or> io_title_ready s"
  shows "process_other keep rq ty dev s \<noteq> None"
  using assms get_handle_in [of dev "rq_handle rq" s] put_handle_in [of dev "rq_handle rq" None s] stream_read_total [of dev s rq]
  by (auto simp: process_other_def split: option.splits)

text \<open>The device number of a packet has five bits and the table of devices ten entries: a request
  for one of the ten devices is always processed (but for the search of a title in the first page read
  from the disc), and every other request than an open is, for a number of ten or more, an access
  outside the table.\<close>

theorem worker_device_bounds:
  assumes "in_work s = Some rq"
  shows "(unat (io_get_dev (rq_type rq)) < NUM_OF_DEVS \<and> \<not> title_read rq s \<longrightarrow> worker_finish keep s \<noteq> None) \<and>
    (NUM_OF_DEVS \<le> unat (io_get_dev (rq_type rq)) \<and> io_get_type (rq_type rq) \<noteq> REQ_OPEN \<longrightarrow> worker_finish keep s = None) \<and>
    unat (io_get_dev (rq_type rq)) < 32"
proof (intro conjI impI)
  assume "unat (io_get_dev (rq_type rq)) < NUM_OF_DEVS \<and> \<not> title_read rq s"
  then show "worker_finish keep s \<noteq> None"
    using process_open_total [of "io_get_dev (rq_type rq)" rq s]
      process_other_total [of "io_get_dev (rq_type rq)" "io_get_type (rq_type rq)" s keep rq]
    by (auto simp: worker_finish_def assms Let_def title_read_def)
next
  assume "NUM_OF_DEVS \<le> unat (io_get_dev (rq_type rq)) \<and> io_get_type (rq_type rq) \<noteq> REQ_OPEN"
  moreover from this have "get_handle (io_get_dev (rq_type rq)) (rq_handle rq) s = None"
    using get_handle_in [of "io_get_dev (rq_type rq)" "rq_handle rq" s] by auto
  ultimately show "worker_finish keep s = None" by (simp add: worker_finish_def assms Let_def process_other_def)
next
  show "unat (io_get_dev (rq_type rq)) < 32" by (rule io_get_dev_range)
qed

definition io_demo :: "u32 \<Rightarrow> io_system" where
  "io_demo t = (io_init [] [] [])\<lparr>in_work := Some (new_request 1 t)\<rparr>"

theorem worker_device_bounds_witness: "worker_finish 0 (io_demo 0x35000000) = None"
  using worker_device_bounds [of "io_demo 0x35000000" "new_request 1 0x35000000"]
  by (simp add: io_demo_def new_request_def io_get_dev_def io_get_type_def)

section \<open>What was written is read back\<close>

lemma overwrite_range: "take (length d) (drop off (overwrite off d c)) = d"
proof (cases "d = []")
  case False
  have "length (take off (c @ replicate (off - length c) 0)) = off" by simp
  then have "drop off (take off (c @ replicate (off - length c) 0) @ d @ drop (off + length d) c) =
      d @ drop (off + length d) c" by (metis append_eq_conv_conj)
  then show ?thesis using False by (simp add: overwrite_def)
qed (simp add: overwrite_def)

lemma overwrite_other:
  assumes "i < off \<or> off + length d \<le> i" and "i < length c"
  shows "i < length (overwrite off d c) \<and> overwrite off d c ! i = c ! i"
  using assms by (auto simp: overwrite_def nth_append)

lemma map_of_fs_put: "map_of (fs_put p n fs) = (map_of fs)(p \<mapsto> n)"
  by (simp add: fs_put_def update_conv')

lemma fs_content_put: "fs_content (fs_put p (Regular w c) fs) q = (if q = p then c else fs_content fs q)"
  by (simp add: fs_content_def map_of_fs_put)

text \<open>A write in two parts, the second where the first ends, is the write of the whole.\<close>

lemma overwrite_append: "overwrite (off + length a) b (overwrite off a c) = overwrite off (a @ b) c"
proof (cases "a = [] \<or> b = []")
  case False
  define e where "e = take off (c @ replicate (off - length c) 0)"
  have e: "length e = off" by (simp add: e_def)
  have 1: "overwrite off a c = e @ a @ drop (off + length a) c" using False by (simp add: overwrite_def e_def)
  have 2: "overwrite (off + length a) b (e @ a @ r) = e @ a @ b @ drop (length b) r" for r
    using False e by (simp add: overwrite_def)
  have 3: "overwrite off (a @ b) c = e @ (a @ b) @ drop (off + length (a @ b)) c"
    using False by (simp add: overwrite_def e_def)
  show ?thesis unfolding 1 2 3 by (simp add: add.commute add.left_commute)
qed (auto simp: overwrite_def)

lemma fs_content_overwrite:
  "fs_content (fs_overwrite p off d fs) q = (if q = p then overwrite off d (fs_content fs p) else fs_content fs q)"
  by (auto simp: fs_overwrite_def fs_content_put overwrite_def)

text \<open>A read through a handle of the file, once the stream has nothing to write that would change it.\<close>

definition reads_back :: "nat \<Rightarrow> host_request \<Rightarrow> u32 \<Rightarrow> io_system \<Rightarrow> u8 list \<Rightarrow> bool" where
  "reads_back keep rq dev s d \<longleftrightarrow> (\<exists>rq' s'. process_other keep rq REQ_READ dev s = Some (rq', s')
     \<and> ib_status (rq_info rq') = STATUS_SUCCESS \<and> rq_buffer rq' = d \<and> ib_info (rq_info rq') = rq_size rq)"

lemma reads_backI:
  assumes h: "get_handle dev (rq_handle rq) s = Some (Some fi)" "fi_stream fi = Some (p, w)"
    and pos: "0 \<le> sint (rq_offset rq)" and t: "dev \<noteq> DEV_CDROM \<or> io_title_ready s"
    and n: "length (rq_buffer rq) = unat (rq_size rq)" "length d = unat (rq_size rq)"
    and d: "take (unat (rq_size rq)) (drop (unat (rq_offset rq)) (fs_content (settle fi (host_files s)) p)) = d"
  shows "reads_back keep rq dev s d"
proof -
  define s1 where "s1 = seek_stream dev (rq_handle rq) fi s"
  have s1: "host_files s1 = settle fi (host_files s)" "io_title_ready s1 = io_title_ready s"
    by (simp_all add: s1_def seek_stream_def)
  have "\<not> (dev = DEV_CDROM \<and> rq_offset rq = 0 \<and> length d \<ge> 0x178 \<and> \<not> io_title_ready s1)"
    using t s1 by auto
  then have "stream_read rq dev fi s = Some (rq\<lparr>rq_buffer := d @ drop (length d) (rq_buffer rq),
    rq_info := failed_info STATUS_SUCCESS (of_nat (length d)), rq_size := of_nat (length d)\<rparr>, s1)"
    unfolding stream_read_def h(2) option.case split_conv Let_def s1_def [symmetric] s1(1) d using pos by auto
  then show ?thesis
    using h n by (simp add: reads_back_def process_other_def failed_info_def no_info_def)
qed

text \<open>What a write leaves: the part the stream has passed on is in the file, the rest is kept.\<close>

lemma write_leaves:
  assumes w: "get_handle dev (rq_handle rq) s = Some (Some fi)" and fw: "fi_stream fi = Some (p, True)"
    and buf: "length (rq_buffer rq) = unat (rq_size rq)" and pos: "0 \<le> sint (rq_offset rq)"
  obtains rq1 s1 fi1 where "process_other keep rq REQ_WRITE dev s = Some (rq1, s1)"
    "ib_status (rq_info rq1) = STATUS_SUCCESS" "ib_info (rq_info rq1) = rq_size rq"
    "get_handle dev (rq_handle rq) s1 = Some (Some fi1)" "fi_stream fi1 = Some (p, True)"
    "take (unat (rq_size rq)) (drop (unat (rq_offset rq)) (fs_content (settle fi1 (host_files s1)) p)) = rq_buffer rq"
    "\<And>dev' h'. unat dev' \<noteq> unat dev \<or> h' \<noteq> rq_handle rq \<Longrightarrow> get_handle dev' h' s1 = get_handle dev' h' s"
    "io_title_ready s1 = io_title_ready s"
proof -
  define d where "d = rq_buffer rq"
  define n where "n = length d - keep"
  define off where "off = unat (rq_offset rq)"
  define s0 where "s0 = seek_stream dev (rq_handle rq) fi s"
  define fi1 where "fi1 = fi\<lparr>fi_pending := (off + n, drop n d)\<rparr>"
  define s1 where "s1 = s0\<lparr>host_files := fs_overwrite p off (take n d) (host_files s0),
    handle_map := (handle_map s0)(unat dev := (handle_map s0 (unat dev))(rq_handle rq := Some fi1))\<rparr>"
  have dev: "unat dev < NUM_OF_DEVS" using get_handle_in [of dev "rq_handle rq" s] w by simp
  have 1: "process_other keep rq REQ_WRITE dev s = Some (rq\<lparr>rq_info := failed_info STATUS_SUCCESS (rq_size rq)\<rparr>, s1)"
    using w fw pos buf
    by (simp add: process_other_def stream_write_def Let_def s1_def fi1_def off_def n_def d_def flip: s0_def)
  have g: "get_handle dev (rq_handle rq) s1 = Some (Some fi1)"
    "get_handle dev' h' s1 = get_handle dev' h' s" if "unat dev' \<noteq> unat dev \<or> h' \<noteq> rq_handle rq" for dev' h'
    using dev that by (auto simp: get_handle_def s1_def s0_def seek_stream_def aread_def)
  have "length (take n d) = n" by (simp add: n_def)
  then have "fs_content (settle fi1 (host_files s1)) p = overwrite off (take n d @ drop n d) (fs_content (host_files s0) p)"
    using fw overwrite_append [of off "take n d" "drop n d" "fs_content (host_files s0) p"]
    by (simp add: settle_def fi1_def s1_def fs_content_overwrite)
  then have c: "take (unat (rq_size rq)) (drop off (fs_content (settle fi1 (host_files s1)) p)) = d"
    using overwrite_range [where off = off and d = d and c = "fs_content (host_files s0) p"] buf by (simp add: d_def)
  show ?thesis
  proof (rule that [OF 1])
    show "get_handle dev (rq_handle rq) s1 = Some (Some fi1)"
      using dev by (simp add: get_handle_def s1_def aread_def)
    show "get_handle dev' h' s1 = get_handle dev' h' s" if "unat dev' \<noteq> unat dev \<or> h' \<noteq> rq_handle rq" for dev' h'
      using g(2) that .
  qed (use fw c in \<open>simp_all add: fi1_def s1_def s0_def seek_stream_def failed_info_def no_info_def off_def d_def\<close>)
qed

text \<open>A close writes what its stream keeps.\<close>

lemma close_settles:
  assumes "get_handle dev (rq_handle rc) s = Some (Some fi)"
  obtains rc' s' where "process_other keep rc REQ_CLOSE dev s = Some (rc', s')"
    "host_files s' = settle fi (host_files s)" "io_title_ready s' = io_title_ready s"
    "\<And>dev' h'. unat dev' \<noteq> unat dev \<or> h' \<noteq> rq_handle rc \<Longrightarrow> get_handle dev' h' s' = get_handle dev' h' s"
proof -
  have dev: "unat dev < NUM_OF_DEVS" using get_handle_in [of dev "rq_handle rc" s] assms by simp
  have fi: "handle_map s (unat dev) (rq_handle rc) = Some fi"
    using assms dev by (simp add: get_handle_def aread_def)
  show ?thesis
    using that dev assms fi
    by (simp add: process_other_def put_handle_def aread_def awrite_def settle_entry_def get_handle_def)
qed

text \<open>C37: A write through an open handle succeeds, and whatever part of it the stream of the handle keeps
  back (\<open>keep\<close>): a read of the same range through the same handle delivers exactly the bytes written, all
  of them; and so does, once the handle is closed, a read through any other handle of the same file, even
  of another device, whose own stream keeps nothing.  Reads from the disc are covered once the title is
  known.\<close>

theorem write_then_read:
  assumes w: "get_handle dev (rq_handle rq) s = Some (Some fi)" and fw: "fi_stream fi = Some (p, True)"
    and buf: "length (rq_buffer rq) = unat (rq_size rq)" and pos: "0 \<le> sint (rq_offset rq)"
    and same: "rq_offset rr = rq_offset rq" "rq_size rr = rq_size rq" "length (rq_buffer rr) = unat (rq_size rr)"
    and t: "dev' \<noteq> DEV_CDROM \<or> io_title_ready s"
  shows "\<exists>rq1 s1. process_other keep rq REQ_WRITE dev s = Some (rq1, s1)
    \<and> ib_status (rq_info rq1) = STATUS_SUCCESS \<and> ib_info (rq_info rq1) = rq_size rq
    \<and> (dev' = dev \<and> rq_handle rr = rq_handle rq \<longrightarrow> reads_back keep rr dev s1 (rq_buffer rq))
    \<and> ((dev' \<noteq> dev \<or> rq_handle rr \<noteq> rq_handle rq) \<and> rq_handle rc = rq_handle rq
       \<and> (\<exists>fi' w'. get_handle dev' (rq_handle rr) s = Some (Some fi') \<and> fi_stream fi' = Some (p, w')
            \<and> snd (fi_pending fi') = [])
       \<longrightarrow> (\<exists>rc' s2. process_other keep rc REQ_CLOSE dev s1 = Some (rc', s2) \<and> reads_back keep rr dev' s2 (rq_buffer rq)))"
proof (rule write_leaves [OF w fw buf pos, of keep])
  fix rq1 s1 fi1
  assume ok: "process_other keep rq REQ_WRITE dev s = Some (rq1, s1)" "ib_status (rq_info rq1) = STATUS_SUCCESS"
    "ib_info (rq_info rq1) = rq_size rq"
    and s1: "get_handle dev (rq_handle rq) s1 = Some (Some fi1)" "fi_stream fi1 = Some (p, True)"
    "take (unat (rq_size rq)) (drop (unat (rq_offset rq)) (fs_content (settle fi1 (host_files s1)) p)) = rq_buffer rq"
    "\<And>dev' h'. unat dev' \<noteq> unat dev \<or> h' \<noteq> rq_handle rq \<Longrightarrow> get_handle dev' h' s1 = get_handle dev' h' s"
    "io_title_ready s1 = io_title_ready s"
  have here: "reads_back keep rr dev s1 (rq_buffer rq)" if "dev' = dev" "rq_handle rr = rq_handle rq"
    using s1 same pos t buf that by (intro reads_backI [of dev rr s1 fi1 p True]) simp_all
  have there: "\<exists>rc' s2. process_other keep rc REQ_CLOSE dev s1 = Some (rc', s2) \<and> reads_back keep rr dev' s2 (rq_buffer rq)"
    if other: "dev' \<noteq> dev \<or> rq_handle rr \<noteq> rq_handle rq" "rq_handle rc = rq_handle rq"
    and h': "get_handle dev' (rq_handle rr) s = Some (Some fi')" "fi_stream fi' = Some (p, w')" "snd (fi_pending fi') = []" for fi' w'
  proof -
    have c: "get_handle dev (rq_handle rc) s1 = Some (Some fi1)" using s1(1) other(2) by simp
    have ne: "unat dev' \<noteq> unat dev \<or> rq_handle rr \<noteq> rq_handle rq" using other(1) by (simp add: word_unat_eq_iff)
    show ?thesis
    proof (rule close_settles [OF c, of keep])
      fix rc' s2
      assume s2: "process_other keep rc REQ_CLOSE dev s1 = Some (rc', s2)" "host_files s2 = settle fi1 (host_files s1)"
        "io_title_ready s2 = io_title_ready s1"
        "\<And>dev' h'. unat dev' \<noteq> unat dev \<or> h' \<noteq> rq_handle rc \<Longrightarrow> get_handle dev' h' s2 = get_handle dev' h' s1"
      have "settle fi' fs = fs" for fs
        using h'(2,3) by (auto simp: settle_def fs_overwrite_def split: option.splits bool.splits)
      moreover have "get_handle dev' (rq_handle rr) s2 = Some (Some fi')"
        using s2(4) [of dev' "rq_handle rr"] s1(4) [of dev' "rq_handle rr"] ne other(2) h'(1) by simp
      ultimately have "reads_back keep rr dev' s2 (rq_buffer rq)"
        using s1 s2 same pos t buf h' by (intro reads_backI [of dev' rr s2 fi' p w']) simp_all
      with s2(1) show ?thesis by blast
    qed
  qed
  show ?thesis by (intro exI [of _ rq1] exI [of _ s1] conjI) (use ok here there in \<open>blast+\<close>)
qed

definition rw_file :: file_info where
  "rw_file = \<lparr>fi_stream = Some ([[1]], True), fi_pending = (0, []), fi_relative_path = [1], fi_is_directory = False\<rparr>"

definition rw_demo :: io_system where
  "rw_demo = (io_init [] [] [])\<lparr>host_files := [([[1]], Regular True [9, 9, 9, 9])],
     handle_map := (\<lambda>_ h. if h = 20 \<or> h = 30 then Some rw_file else None)\<rparr>"

definition rw_write :: host_request where
  "rw_write = (new_request 1 REQ_WRITE)\<lparr>rq_handle := 20, rq_offset := 1, rq_size := 2, rq_buffer := [7, 8]\<rparr>"

definition rw_read :: host_request where
  "rw_read = (new_request 2 REQ_READ)\<lparr>rq_handle := 30, rq_offset := 1, rq_size := 2, rq_buffer := [0, 0]\<rparr>"

definition rw_close :: host_request where
  "rw_close = (new_request 3 REQ_CLOSE)\<lparr>rq_handle := 20\<rparr>"

theorem write_then_read_witness:
  "\<exists>rq1 s1 rc' s2. process_other 2 rw_write REQ_WRITE 3 rw_demo = Some (rq1, s1)
    \<and> process_other 2 rw_close REQ_CLOSE 3 s1 = Some (rc', s2) \<and> reads_back 2 rw_read 4 s2 [7, 8]"
proof -
  have d: "get_handle 3 20 rw_demo = Some (Some rw_file)" "get_handle 4 30 rw_demo = Some (Some rw_file)"
    "fi_stream rw_file = Some ([[1]], True)" "snd (fi_pending rw_file) = []"
    by (simp_all add: rw_demo_def rw_file_def get_handle_def)
  have q: "rq_handle rw_write = 20" "rq_handle rw_read = 30" "rq_handle rw_close = 20" "rq_offset rw_write = 1"
    "rq_offset rw_read = 1" "rq_size rw_write = 2" "rq_size rw_read = 2" "rq_buffer rw_write = [7, 8]"
    "length (rq_buffer rw_read) = 2"
    by (simp_all add: rw_write_def rw_read_def rw_close_def new_request_def)
  show ?thesis
    using write_then_read [where rq = rw_write and rr = rw_read and rc = rw_close and s = rw_demo and dev = 3
        and dev' = 4 and p = "[[1]]" and fi = rw_file and keep = 2] d q by auto
qed

text \<open>Until then another handle may find the bytes from before: the stream is never told to pass them on.\<close>

lemma unflushed_write_unseen:
  "\<exists>rq1 s1. process_other 2 rw_write REQ_WRITE 3 rw_demo = Some (rq1, s1) \<and> reads_back 2 rw_read 4 s1 [9, 9]"
  by (simp add: reads_back_def process_other_def stream_write_def stream_read_def seek_stream_def get_handle_def
      settle_def fs_overwrite_def fs_content_def Let_def rw_write_def rw_read_def rw_demo_def rw_file_def
      new_request_def failed_info_def no_info_def io_init_def)

section \<open>Which file a name finds\<close>

lemma find_components_Some:
  "find_components fs base cs = Some p \<Longrightarrow>
    \<exists>ns. p = base @ ns \<and> list_all2 same_name ns cs \<and> (\<forall>k < length ns. ns ! k \<in> set (fs_names fs (base @ take k ns)))"
proof (induction cs arbitrary: base)
  case (Cons c cs)
  then obtain n where n: "find (\<lambda>n. same_name n c) (fs_names fs base) = Some n"
    and r: "find_components fs (base @ [n]) cs = Some p"
    by (auto split: option.splits)
  obtain ns where ns: "p = base @ [n] @ ns" "list_all2 same_name ns cs"
    "\<forall>k < length ns. ns ! k \<in> set (fs_names fs (base @ [n] @ take k ns))"
    using Cons.IH [OF r] by auto
  have "n \<in> set (fs_names fs base)" "same_name n c" using n by (auto simp: find_Some_iff)
  then have "\<forall>k < length (n # ns). (n # ns) ! k \<in> set (fs_names fs (base @ take k (n # ns)))"
    using ns(3) by (auto simp: nth_Cons' take_Cons')
  then show ?case using ns(1,2) \<open>same_name n c\<close> by (intro exI [of _ "n # ns"]) simp
qed simp

lemma find_unique:
  assumes "n \<in> set ns" and "P n" and "\<And>x. x \<in> set ns \<Longrightarrow> P x \<Longrightarrow> x = n"
  shows "find P ns = Some n"
proof -
  obtain x where "find P ns = Some x" using assms(1,2) by (cases "find P ns") (auto simp: find_None_iff)
  moreover from this have "x = n" using assms(3) by (auto simp: find_Some_iff)
  ultimately show ?thesis by simp
qed

text \<open>The names of a directory differ in more than case.\<close>

definition case_distinct :: "host_fs \<Rightarrow> bool" where
  "case_distinct fs \<longleftrightarrow> (\<forall>p. \<forall>a \<in> set (fs_names fs p). \<forall>b \<in> set (fs_names fs p). same_name a b \<longrightarrow> a = b)"

lemma find_components_complete:
  assumes "case_distinct fs"
  shows "list_all2 same_name ns cs \<Longrightarrow> \<forall>k < length ns. ns ! k \<in> set (fs_names fs (base @ take k ns)) \<Longrightarrow>
    find_components fs base cs = Some (base @ ns)"
proof (induction cs arbitrary: base ns)
  case (Cons c cs)
  then obtain n ms where ns: "ns = n # ms" and sn: "same_name n c" and ms: "list_all2 same_name ms cs"
    by (auto simp: list_all2_Cons2)
  have n: "n \<in> set (fs_names fs base)" using Cons.prems(2) ns by fastforce
  have "find (\<lambda>x. same_name x c) (fs_names fs base) = Some n"
    by (rule find_unique [where P = "\<lambda>x. same_name x c", OF n sn]) (use assms n sn in \<open>auto simp: case_distinct_def same_name_def\<close>)
  moreover have "find_components fs (base @ [n]) cs = Some ((base @ [n]) @ ms)"
  proof (rule Cons.IH [OF ms], intro allI impI)
    fix k assume "k < length ms"
    then show "ms ! k \<in> set (fs_names fs ((base @ [n]) @ take k ms))"
      using Cons.prems(2) [rule_format, of "Suc k"] by (simp add: ns)
  qed
  ultimately show ?case by (simp add: ns)
qed simp

text \<open>A name is looked up without regard to case.  What is found lies below the directory of the
  device, is named component by component as asked for but for case, and is there; and where no two names
  of a directory differ in case only, every file that matches is found.\<close>

theorem find_file_ci_correct:
  "(\<forall>p. find_file_ci fs base rel = Some p \<longrightarrow>
     (\<exists>ns. p = base @ ns \<and> list_all2 same_name ns (path_components rel) \<and>
        (\<forall>k < length ns. ns ! k \<in> set (fs_names fs (base @ take k ns))))) \<and>
   (case_distinct fs \<longrightarrow>
     (\<forall>ns. list_all2 same_name ns (path_components rel) \<and>
        (\<forall>k < length ns. ns ! k \<in> set (fs_names fs (base @ take k ns))) \<longrightarrow>
        find_file_ci fs base rel = Some (base @ ns)))"
  unfolding find_file_ci_def using find_components_Some find_components_complete by metis

definition ci_demo :: host_fs where
  "ci_demo = [([ascii ''D''], Directory), ([ascii ''D'', ascii ''Save''], Directory),
     ([ascii ''D'', ascii ''Save'', ascii ''Game.xbe''], Regular True [])]"

lemma ci_demo_components: "path_components (ascii ''SAVE/game.XBE'') = [ascii ''SAVE'', ascii ''game.XBE'']"
  by code_simp

theorem find_file_ci_correct_witness:
  "find_file_ci ci_demo [ascii ''D''] (ascii ''SAVE/game.XBE'') = Some [ascii ''D'', ascii ''Save'', ascii ''Game.xbe'']"
proof -
  have n: "fs_names ci_demo p = (if p = [] then [ascii ''D''] else if p = [ascii ''D''] then [ascii ''Save'']
      else if p = [ascii ''D'', ascii ''Save''] then [ascii ''Game.xbe''] else [])" for p
    by (auto simp: fs_names_def ci_demo_def)
  have "case_distinct ci_demo" by (simp add: case_distinct_def n)
  moreover have "same_name (ascii ''Save'') (ascii ''SAVE'')" "same_name (ascii ''Game.xbe'') (ascii ''game.XBE'')"
    by code_simp+
  ultimately show ?thesis
    using find_file_ci_correct [of ci_demo "[ascii ''D'']" "ascii ''SAVE/game.XBE''"]
    by (auto simp: ci_demo_components n less_Suc_eq dest!: spec [where x = "[ascii ''Save'', ascii ''Game.xbe'']"])
qed

text \<open>A name that does not exist is created where the host resolves it: with \<open>..\<close>, outside the
  directory of the device.\<close>

lemma created_outside:
  "join_path (base @ [d]) (ascii ''../x'') = base @ [ascii ''x'']"
proof -
  have "path_components (ascii ''../x'') = [[DOT, DOT], ascii ''x'']" by code_simp
  moreover have "hd (ascii ''../x'') \<noteq> SLASH" "ascii ''x'' \<noteq> [DOT, DOT]" by code_simp+
  ultimately show ?thesis by (simp add: join_path_def)
qed

end
