(* ===== verification/Nbox_Host.thy ===== *)
theory Nbox_Host
  imports Nbox_Io_Facts
begin

text \<open>
  The host ports of nboxkrnl (\<open>src/src/xbox/nboxkrnl_host.hpp\<close>) and its key file
  (\<open>src/src/xbox/nboxkrnl_keys.hpp\<close>).

  The clock is an argument: \<open>now\<close> are the microseconds since the ports were registered.  So is
  \<open>acpi_ticks\<close>, the conversion of microseconds to ACPI timer ticks, which the code does in double
  precision.  The text of debug and abort messages is left out; the read of a debug string is not, since it
  translates guest addresses.
\<close>

section \<open>The clock\<close>

record host_state =
  last_clock_us :: u64
  lost_clock_increment :: u64
  cached_clock_increment :: u64
  cached_acpi_time :: u64
  host_xbe_path :: "u8 list"
  host_io :: "io_system option"

definition calculate_clock_increment :: "u64 \<Rightarrow> host_state \<Rightarrow> u64 \<times> host_state" where
  "calculate_clock_increment now s =
     (let elapsed = now - last_clock_us s;
          lost = lost_clock_increment s + elapsed * 10;
          actual = lost div 10000 * 10000
      in (actual, s\<lparr>last_clock_us := now, lost_clock_increment := lost - actual\<rparr>))"

section \<open>The ports\<close>

abbreviation PORT_DBG_STR :: u16 where "PORT_DBG_STR \<equiv> 0x200"
abbreviation PORT_MACHINE_TYPE :: u16 where "PORT_MACHINE_TYPE \<equiv> 0x201"
abbreviation PORT_ABORT :: u16 where "PORT_ABORT \<equiv> 0x202"
abbreviation PORT_CLOCK_INC_LOW :: u16 where "PORT_CLOCK_INC_LOW \<equiv> 0x203"
abbreviation PORT_CLOCK_INC_HIGH :: u16 where "PORT_CLOCK_INC_HIGH \<equiv> 0x204"
abbreviation PORT_BOOT_TIME_MS :: u16 where "PORT_BOOT_TIME_MS \<equiv> 0x205"
abbreviation PORT_IO_START :: u16 where "PORT_IO_START \<equiv> 0x206"
abbreviation PORT_IO_RETRY :: u16 where "PORT_IO_RETRY \<equiv> 0x207"
abbreviation PORT_IO_QUERY :: u16 where "PORT_IO_QUERY \<equiv> 0x208"
abbreviation PORT_IO_CHECK_ENQUEUE :: u16 where "PORT_IO_CHECK_ENQUEUE \<equiv> 0x20A"
abbreviation PORT_XBE_PATH_LENGTH :: u16 where "PORT_XBE_PATH_LENGTH \<equiv> 0x20D"
abbreviation PORT_XBE_PATH_ADDR :: u16 where "PORT_XBE_PATH_ADDR \<equiv> 0x20E"
abbreviation PORT_ACPI_TIME_LOW :: u16 where "PORT_ACPI_TIME_LOW \<equiv> 0x20F"
abbreviation PORT_ACPI_TIME_HIGH :: u16 where "PORT_ACPI_TIME_HIGH \<equiv> 0x210"
abbreviation CONSOLE_XBOX :: u32 where "CONSOLE_XBOX \<equiv> 0"

definition nboxkrnl_host_read :: "(u64 \<Rightarrow> u64) \<Rightarrow> u64 \<Rightarrow> u16 \<Rightarrow> host_state \<Rightarrow> u32 \<times> host_state" where
  "nboxkrnl_host_read acpi_ticks now port s =
     (if port = PORT_MACHINE_TYPE then (CONSOLE_XBOX, s)
      else if port = PORT_CLOCK_INC_LOW then
        let (inc, s) = calculate_clock_increment now s in (ucast inc, s\<lparr>cached_clock_increment := inc\<rparr>)
      else if port = PORT_CLOCK_INC_HIGH then (ucast (drop_bit 32 (cached_clock_increment s)), s)
      else if port = PORT_BOOT_TIME_MS then (ucast (now div 1000), s)
      else if port = PORT_IO_CHECK_ENQUEUE then
        ((case host_io s of Some io \<Rightarrow> if has_pending_packets io then 1 else 0 | None \<Rightarrow> 0), s)
      else if port = PORT_XBE_PATH_LENGTH then (of_nat (length (host_xbe_path s)), s)
      else if port = PORT_ACPI_TIME_LOW then
        (ucast (acpi_ticks now), s\<lparr>cached_acpi_time := acpi_ticks now\<rparr>)
      else if port = PORT_ACPI_TIME_HIGH then (ucast (drop_bit 32 (cached_acpi_time s)), s)
      else (0, s))"

text \<open>An operation on the file service, when there is one.\<close>

definition with_io ::
  "(io_system \<times> machine \<Rightarrow> (io_system \<times> machine) option) \<Rightarrow> host_state \<times> machine \<Rightarrow> (host_state \<times> machine) option" where
  "with_io f = (\<lambda>(s, m).
     case host_io s of
       None \<Rightarrow> Some (s, m)
     | Some io \<Rightarrow> map_option (\<lambda>(io, m). (s\<lparr>host_io := Some io\<rparr>, m)) (f (io, m)))"

definition nboxkrnl_host_write ::
  "(nat \<Rightarrow> bytes) \<Rightarrow> bool \<Rightarrow> u16 \<Rightarrow> u32 \<Rightarrow> host_state \<times> machine \<Rightarrow> (host_state \<times> machine) option" where
  "nboxkrnl_host_write junk lock port v = (\<lambda>(s, m).
     if port = PORT_DBG_STR then map_option (\<lambda>(_, _, m). (s, m)) (read_guest_block v 512 m)
     else if port = PORT_ABORT then Some (s, upd_ctx (\<lambda>c. c\<lparr>halted := True\<rparr>) m)
     else if port = PORT_IO_START then with_io (submit_io_packet junk lock v) (s, m)
     else if port = PORT_IO_RETRY then with_io (\<lambda>(io, m). Some (flush_pending_packets lock io, m)) (s, m)
     else if port = PORT_IO_QUERY then with_io (query_io_packet (junk 0) lock v) (s, m)
     else if port = PORT_XBE_PATH_ADDR then
       (if host_xbe_path s \<noteq> []
        then map_option (\<lambda>(_, m). (s, m)) (write_guest_block v (host_xbe_path s) m) else Some (s, m))
     else Some (s, m))"

text \<open>The ports both callbacks are registered at.\<close>

definition host_ports :: "u16 list" where
  "host_ports = map of_nat [0x200..<0x211]"

section \<open>The key file\<close>

abbreviation KEY_SIZE :: nat where "KEY_SIZE \<equiv> 32"

definition keys_are_zero :: "u8 list \<Rightarrow> bool" where
  "keys_are_zero ks \<longleftrightarrow> list_all (\<lambda>k. k = 0) (take KEY_SIZE ks)"

definition default_keys :: "u8 list" where
  "default_keys = replicate KEY_SIZE 0"

definition eeprom_key :: "u8 list \<Rightarrow> u8 list" where "eeprom_key ks = take 16 ks"
definition certificate_key :: "u8 list \<Rightarrow> u8 list" where "certificate_key ks = drop 16 ks"

text \<open>Whether the file was accepted, and the keys afterwards.\<close>

definition load_keys :: "u8 list option \<Rightarrow> u8 list \<Rightarrow> bool \<times> u8 list" where
  "load_keys file old =
     (case file of None \<Rightarrow> (False, old)
      | Some f \<Rightarrow> if length f \<noteq> KEY_SIZE then (False, old) else (True, f))"

section \<open>The clock loses nothing\<close>

text \<open>Reading the two halves of the increment at the time \<open>now\<close>.\<close>

definition read_increment :: "(u64 \<Rightarrow> u64) \<Rightarrow> u64 \<Rightarrow> host_state \<Rightarrow> u64 \<times> host_state" where
  "read_increment acpi_ticks now s =
     (let (lo, s) = nboxkrnl_host_read acpi_ticks now PORT_CLOCK_INC_LOW s;
          (hi, s) = nboxkrnl_host_read acpi_ticks now PORT_CLOCK_INC_HIGH s
      in (push_bit 32 (ucast hi) OR ucast lo, s))"

fun read_increments :: "(u64 \<Rightarrow> u64) \<Rightarrow> u64 list \<Rightarrow> host_state \<Rightarrow> u64 list \<times> host_state" where
  "read_increments acpi_ticks [] s = ([], s)"
| "read_increments acpi_ticks (t # ts) s =
     (let (i, s) = read_increment acpi_ticks t s; (is, s) = read_increments acpi_ticks ts s in (i # is, s))"

lemma halves_join: "push_bit 32 (ucast (ucast (drop_bit 32 x) :: u32)) OR ucast (ucast x :: u32) = (x :: u64)"
proof (rule bit_word_eqI)
  fix n assume "n < LENGTH(64)"
  then show "bit (push_bit 32 (ucast (ucast (drop_bit 32 x) :: u32)) OR ucast (ucast x :: u32) :: u64) n = bit x n"
    by (cases "n < 32") (auto simp: bit_or_iff bit_push_bit_iff bit_ucast_iff bit_drop_bit_eq)
qed

lemma read_increment_eq:
  "read_increment acpi_ticks t s =
    (let (i, s) = calculate_clock_increment t s in (i, s\<lparr>cached_clock_increment := i\<rparr>))"
  by (simp add: read_increment_def nboxkrnl_host_read_def Let_def halves_join split: prod.splits)

text \<open>No 64-bit sum overflows below this time: some 58,000 years.\<close>

abbreviation CLOCK_END :: nat where "CLOCK_END \<equiv> 10 ^ 18"

definition clock_ok :: "host_state \<Rightarrow> bool" where
  "clock_ok s \<longleftrightarrow> unat (lost_clock_increment s) < 10000 \<and> unat (last_clock_us s) < CLOCK_END"

lemma unat_u64_small: "n < 2 ^ 64 \<Longrightarrow> unat (of_nat n :: u64) = n"
  by (simp add: unsigned_of_nat take_bit_nat_eq_self)

lemma clock_step:
  assumes "clock_ok s" and "last_clock_us s \<le> t" and "unat t < CLOCK_END"
    and "calculate_clock_increment t s = (i, s')"
  shows "clock_ok s' \<and> last_clock_us s' = t \<and> 10000 dvd unat i \<and>
    unat i + unat (lost_clock_increment s') = 10 * (unat t - unat (last_clock_us s)) + unat (lost_clock_increment s)"
proof -
  define e where "e = unat t - unat (last_clock_us s)"
  define l where "l = unat (lost_clock_increment s) + e * 10"
  have "unat (t - last_clock_us s) = e" using assms(2) by (simp add: e_def unat_sub word_le_nat_alt)
  then have t: "t - last_clock_us s = of_nat e" by (metis of_nat_unat ucast_id)
  have "e < 10 ^ 18" using assms(3) by (simp add: e_def)
  then have small: "l < 2 ^ 64" using assms(1) by (simp add: l_def clock_ok_def)
  have lost: "lost_clock_increment s + (t - last_clock_us s) * 10 = of_nat l"
    by (simp add: t l_def)
  have ul: "unat (of_nat l :: u64) = l" using small by (rule unat_u64_small)
  have "unat (of_nat l div 10000 :: u64) = l div 10000" by (simp add: unat_div ul)
  then have "(of_nat l div 10000 :: u64) = of_nat (l div 10000)" by (metis of_nat_unat ucast_id)
  then have q: "(of_nat l div 10000 * 10000 :: u64) = of_nat (l div 10000 * 10000)" by simp
  have "(i, s') = (of_nat (l div 10000 * 10000), s\<lparr>last_clock_us := t, lost_clock_increment := of_nat l - of_nat (l div 10000 * 10000)\<rparr>)"
    using assms(4) unfolding calculate_clock_increment_def Let_def lost q by (rule sym)
  then have i: "i = of_nat (l div 10000 * 10000)" and s': "lost_clock_increment s' = of_nat l - of_nat (l div 10000 * 10000)"
    "last_clock_us s' = t"
    by (simp_all del: of_nat_mult)
  have ui: "unat i = l div 10000 * 10000" unfolding i by (rule unat_u64_small) (use small in linarith)
  have "(of_nat l - of_nat (l div 10000 * 10000) :: u64) = of_nat (l mod 10000)"
    by (metis add_diff_cancel_left' div_mult_mod_eq of_nat_add)
  then have us: "unat (lost_clock_increment s') = l mod 10000"
    unfolding s' by (simp only:) (rule unat_u64_small, simp)
  show ?thesis using ui us assms(3) by (simp add: clock_ok_def s' l_def e_def)
qed

text \<open>However often the guest kernel reads its clock, at any times that do not go backwards: the
  64-bit increments it puts together from the two ports are whole milliseconds, and their sum differs from
  the time passed, in units of 100 ns, by less than one millisecond, which is not lost but kept.\<close>

theorem clock_increments_exact:
  assumes "clock_ok s" and "sorted (last_clock_us s # ts)" and "list_all (\<lambda>t. unat t < CLOCK_END) ts"
    and "read_increments acpi_ticks ts s = (is, s')"
  shows "list_all (\<lambda>i. 10000 dvd unat i) is \<and> unat (lost_clock_increment s') < 10000 \<and>
    sum_list (map unat is) + unat (lost_clock_increment s') =
      10 * (unat (last (last_clock_us s # ts)) - unat (last_clock_us s)) + unat (lost_clock_increment s)"
  using assms
proof (induction ts arbitrary: s "is")
  case Nil
  then show ?case by (simp add: clock_ok_def)
next
  case (Cons t ts)
  obtain i s1 where c: "calculate_clock_increment t s = (i, s1)" by fastforce
  define s2 where "s2 = s1\<lparr>cached_clock_increment := i\<rparr>"
  obtain js where r: "read_increments acpi_ticks ts s2 = (js, s')" and "is": "is = i # js"
    using Cons.prems(4) by (auto simp: read_increment_eq c Let_def s2_def split: prod.splits)
  have st: "clock_ok s1 \<and> last_clock_us s1 = t \<and> 10000 dvd unat i \<and>
      unat i + unat (lost_clock_increment s1) = 10 * (unat t - unat (last_clock_us s)) + unat (lost_clock_increment s)"
    by (rule clock_step [OF Cons.prems(1) _ _ c]) (use Cons.prems(2,3) in simp_all)
  then have s2: "clock_ok s2" "last_clock_us s2 = t" "lost_clock_increment s2 = lost_clock_increment s1"
    by (auto simp: s2_def clock_ok_def)
  have ih: "list_all (\<lambda>i. 10000 dvd unat i) js \<and> unat (lost_clock_increment s') < 10000 \<and>
      sum_list (map unat js) + unat (lost_clock_increment s') =
        10 * (unat (last (t # ts)) - unat t) + unat (lost_clock_increment s1)"
    using Cons.IH [OF s2(1) _ _ r] Cons.prems(2,3) by (simp add: s2(2,3))
  have "last (t # ts) \<in> set (t # ts)" by simp
  then have "t \<le> last (t # ts)" using Cons.prems(2) by (auto simp: sorted_wrt.simps)
  moreover have "last_clock_us s \<le> t" using Cons.prems(2) by simp
  ultimately have "unat (last_clock_us s) \<le> unat t" "unat t \<le> unat (last (t # ts))"
    by (simp_all add: word_le_nat_alt)
  moreover have "last (last_clock_us s # t # ts) = last (t # ts)" by simp
  ultimately have "sum_list (map unat js) + unat i + unat (lost_clock_increment s') =
      10 * (unat (last (last_clock_us s # t # ts)) - unat (last_clock_us s)) + unat (lost_clock_increment s)"
    using st ih by (simp only:) linarith
  then show ?case using st ih by (simp add: "is")
qed

definition clock_demo :: host_state where
  "clock_demo = \<lparr>last_clock_us = 0, lost_clock_increment = 0, cached_clock_increment = 0, cached_acpi_time = 0,
     host_xbe_path = [], host_io = None\<rparr>"

theorem clock_increments_exact_witness:
  "sum_list (map unat (fst (read_increments (\<lambda>u. u) [1500, 2600] clock_demo))) +
     unat (lost_clock_increment (snd (read_increments (\<lambda>u. u) [1500, 2600] clock_demo))) = 26000"
  using clock_increments_exact [of clock_demo "[1500, 2600]" "\<lambda>u. u" "fst (read_increments (\<lambda>u. u) [1500, 2600] clock_demo)"
      "snd (read_increments (\<lambda>u. u) [1500, 2600] clock_demo)"]
  by (auto simp: clock_demo_def clock_ok_def simp del: read_increments.simps)

text \<open>A key file is accepted when it has 32 bytes, and is split where the kernel expects its two keys.\<close>

lemma load_keys_split: "load_keys (Some f) old = (True, ks) \<Longrightarrow> eeprom_key ks @ certificate_key ks = f \<and> length ks = 32"
  by (auto simp: load_keys_def eeprom_key_def certificate_key_def split: if_splits)

end
