(* ===== verification/Sha1.thy ===== *)
theory Sha1
  imports Prelude
begin

text \<open>
  SHA-1 and HMAC of the high-level kernel (\<open>sha1_detail\<close> of \<open>src/src/xbox/hle/hle_kernel.hpp\<close>), the
  standard they implement (FIPS 180-4, RFC 2104), and the proof that they do.

  A block is the buffer of 64 bytes.  \<open>junk\<close> is what the buffer holds that \<open>sha1_init\<close> leaves
  uninitialised.
\<close>

section \<open>The code\<close>

type_synonym sha1_state = "u32 \<times> u32 \<times> u32 \<times> u32 \<times> u32"

record sha1_ctx =
  sha_state :: sha1_state
  sha_count :: u64
  sha_buffer :: bytes

definition rol32 :: "u32 \<Rightarrow> nat \<Rightarrow> u32" where
  "rol32 v n = push_bit n v OR drop_bit (32 - n) v"

definition be_word :: "bytes \<Rightarrow> nat \<Rightarrow> u32" where
  "be_word b a =
     push_bit 24 (ucast (b a)) OR push_bit 16 (ucast (b (a + 1))) OR
     push_bit 8 (ucast (b (a + 2))) OR ucast (b (a + 3))"

definition message_words :: "bytes \<Rightarrow> u32 arr" where
  "message_words block =
     (let w = fold (\<lambda>i w. w(i := be_word block (i * 4))) [0..<16] (\<lambda>_. 0) in
      fold (\<lambda>i w. w(i := rol32 (w (i - 3) XOR w (i - 8) XOR w (i - 14) XOR w (i - 16)) 1)) [16..<80] w)"

definition sha1_step :: "u32 arr \<Rightarrow> nat \<Rightarrow> sha1_state \<Rightarrow> sha1_state" where
  "sha1_step w i = (\<lambda>(a, b, c, d, e).
     let (f, k) =
       (if i < 20 then ((b AND c) OR (NOT b AND d), 0x5A827999)
        else if i < 40 then (b XOR c XOR d, 0x6ED9EBA1)
        else if i < 60 then ((b AND c) OR (b AND d) OR (c AND d), 0x8F1BBCDC)
        else (b XOR c XOR d, 0xCA62C1D6))
     in (rol32 a 5 + f + e + k + w i, a, rol32 b 30, c, d))"

definition sha1_transform :: "bytes \<Rightarrow> sha1_state \<Rightarrow> sha1_state" where
  "sha1_transform block s =
     (case (s, fold (sha1_step (message_words block)) [0..<80] s) of
        ((s0, s1, s2, s3, s4), (a, b, c, d, e)) \<Rightarrow> (s0 + a, s1 + b, s2 + c, s3 + d, s4 + e))"

definition sha1_init :: "bytes \<Rightarrow> sha1_ctx" where
  "sha1_init junk =
     \<lparr>sha_state = (0x67452301, 0xEFCDAB89, 0x98BADCFE, 0x10325476, 0xC3D2E1F0),
      sha_count = 0, sha_buffer = junk\<rparr>"

definition sha1_byte :: "u8 \<Rightarrow> sha1_state \<times> bytes \<times> nat \<Rightarrow> sha1_state \<times> bytes \<times> nat" where
  "sha1_byte x = (\<lambda>(s, buf, idx).
     let buf = buf(idx := x) in
     if idx + 1 = 64 then (sha1_transform buf s, buf, 0) else (s, buf, idx + 1))"

definition sha1_update :: "u8 list \<Rightarrow> sha1_ctx \<Rightarrow> sha1_ctx" where
  "sha1_update data c =
     (case fold sha1_byte data (sha_state c, sha_buffer c, unat (sha_count c AND 63)) of
        (s, buf, _) \<Rightarrow> \<lparr>sha_state = s, sha_count = sha_count c + of_nat (length data), sha_buffer = buf\<rparr>)"

text \<open>\<open>while ((ctx->count & 63) != 56)\<close> one zero byte.\<close>

definition sha1_room :: "sha1_ctx \<Rightarrow> nat" where
  "sha1_room c = (let n = unat (sha_count c AND 63) in if n \<le> 56 then 56 - n else 120 - n)"

lemma count_succ: "unat ((n + 1) AND 63 :: u64) = Suc (unat (n AND 63)) mod 64"
proof -
  have m: "(63 :: u64) = mask 6" by (simp add: mask_eq_exp_minus_1)
  have "unat (n + 1) = Suc (unat n) mod 2 ^ 64" by (simp add: unat_word_ariths)
  then show ?thesis unfolding m unat_and_mask by (simp add: mod_mod_cancel mod_Suc_eq)
qed

lemma unat_eq_iff_56: "unat x = 56 \<longleftrightarrow> x = (56 :: u64)"
  using word_unat_eq_iff [of x 56] by simp

lemma sha1_update_count [simp]: "sha_count (sha1_update xs c) = sha_count c + of_nat (length xs)"
  by (simp add: sha1_update_def split: prod.split)

lemma sha1_room_zero:
  assumes "sha_count c AND 63 \<noteq> 56"
  shows "sha1_room (sha1_update [0] c) < sha1_room c"
proof -
  have "unat (sha_count c AND 63) \<noteq> 56" using assms by (simp add: unat_eq_iff_56)
  moreover have "unat (sha_count c AND 63) < 64"
    using unat_and_mask_less [of "sha_count c" 6] by (simp add: mask_eq_exp_minus_1)
  ultimately show ?thesis by (auto simp: sha1_room_def Let_def count_succ mod_Suc)
qed

function sha1_pad :: "sha1_ctx \<Rightarrow> sha1_ctx" where
  "sha1_pad c = (if sha_count c AND 63 = 56 then c else sha1_pad (sha1_update [0] c))"
  by pat_completeness auto
termination by (relation "measure sha1_room") (auto simp: sha1_room_zero)

declare sha1_pad.simps [simp del]

text \<open>\<open>len_be\<close> and the digest, most significant byte first.\<close>

definition len_be :: "u64 \<Rightarrow> u8 list" where
  "len_be bits = map (\<lambda>i. ucast (drop_bit (8 * (7 - i)) bits)) [0..<8]"

definition word_be :: "u32 \<Rightarrow> u8 list" where
  "word_be v = [ucast (drop_bit 24 v), ucast (drop_bit 16 v), ucast (drop_bit 8 v), ucast v]"

definition state_bytes :: "sha1_state \<Rightarrow> u8 list" where
  "state_bytes = (\<lambda>(a, b, c, d, e). concat (map word_be [a, b, c, d, e]))"

definition sha1_finish :: "sha1_ctx \<Rightarrow> sha1_ctx" where
  "sha1_finish c = sha1_update (len_be (sha_count c * 8)) (sha1_pad (sha1_update [0x80] c))"

definition sha1_final :: "sha1_ctx \<Rightarrow> u8 list" where
  "sha1_final c = state_bytes (sha_state (sha1_finish c))"

text \<open>\<open>hmac_sha1\<close>: a null or empty part is left out, which is what updating with no bytes does.\<close>

definition hmac_pad :: "u8 \<Rightarrow> bytes \<Rightarrow> u8 list" where
  "hmac_pad x k = map (\<lambda>i. k i XOR x) [0..<64]"

definition hmac_key :: "bytes \<Rightarrow> u8 list \<Rightarrow> bytes" where
  "hmac_key junk key =
     (if length key > 64 then put_list (sha1_final (sha1_update key (sha1_init junk))) (\<lambda>_. 0) 0
      else put_list key (\<lambda>_. 0) 0)"

definition hmac_sha1 :: "bytes \<Rightarrow> u8 list \<Rightarrow> u8 list \<Rightarrow> u8 list \<Rightarrow> u8 list" where
  "hmac_sha1 junk key data1 data2 =
     (let k = hmac_key junk key;
          c = sha1_update (hmac_pad 0x36 k) (sha1_init junk);
          c = (if data1 \<noteq> [] then sha1_update data1 c else c);
          c = (if data2 \<noteq> [] then sha1_update data2 c else c);
          inner = sha1_final c;
          c = sha1_update (hmac_pad 0x5C k) (sha1_init junk)
      in sha1_final (sha1_update inner c))"

section \<open>The standard\<close>

text \<open>Numbers are written most significant byte first.\<close>

definition be_number :: "u8 list \<Rightarrow> nat" where
  "be_number = foldl (\<lambda>n b. 256 * n + unat b) 0"

definition be_bytes :: "nat \<Rightarrow> nat \<Rightarrow> u8 list" where
  "be_bytes k n = map (\<lambda>i. of_nat (n div 256 ^ (k - 1 - i))) [0..<k]"

definition ROTL :: "nat \<Rightarrow> u32 \<Rightarrow> u32" where "ROTL = word_rotl"
definition Ch :: "u32 \<Rightarrow> u32 \<Rightarrow> u32 \<Rightarrow> u32" where "Ch x y z = (x AND y) XOR (NOT x AND z)"
definition Parity :: "u32 \<Rightarrow> u32 \<Rightarrow> u32 \<Rightarrow> u32" where "Parity x y z = x XOR y XOR z"
definition Maj :: "u32 \<Rightarrow> u32 \<Rightarrow> u32 \<Rightarrow> u32" where "Maj x y z = (x AND y) XOR (x AND z) XOR (y AND z)"

definition sha_f :: "nat \<Rightarrow> u32 \<Rightarrow> u32 \<Rightarrow> u32 \<Rightarrow> u32" where
  "sha_f t = (if t \<le> 19 then Ch else if t \<le> 39 then Parity else if t \<le> 59 then Maj else Parity)"

definition sha_K :: "nat \<Rightarrow> u32" where
  "sha_K t = (if t \<le> 19 then 0x5A827999 else if t \<le> 39 then 0x6ED9EBA1
     else if t \<le> 59 then 0x8F1BBCDC else 0xCA62C1D6)"

fun sha_W :: "u8 list \<Rightarrow> nat \<Rightarrow> u32" where
  "sha_W block t =
     (if t < 16 then of_nat (be_number (take 4 (drop (4 * t) block)))
      else ROTL 1 (sha_W block (t - 3) XOR sha_W block (t - 8) XOR sha_W block (t - 14) XOR sha_W block (t - 16)))"

declare sha_W.simps [simp del]

definition sha_round :: "u8 list \<Rightarrow> nat \<Rightarrow> sha1_state \<Rightarrow> sha1_state" where
  "sha_round block t = (\<lambda>(a, b, c, d, e).
     (ROTL 5 a + sha_f t b c d + e + sha_K t + sha_W block t, a, ROTL 30 b, c, d))"

definition sha_compress :: "u8 list \<Rightarrow> sha1_state \<Rightarrow> sha1_state" where
  "sha_compress block H =
     (case (H, fold (sha_round block) [0..<80] H) of
        ((h0, h1, h2, h3, h4), (a, b, c, d, e)) \<Rightarrow> (a + h0, b + h1, c + h2, d + h3, e + h4))"

definition sha_H0 :: sha1_state where
  "sha_H0 = (0x67452301, 0xEFCDAB89, 0x98BADCFE, 0x10325476, 0xC3D2E1F0)"

definition sha_padded :: "u8 list \<Rightarrow> u8 list" where
  "sha_padded msg = msg @ [0x80] @ replicate ((119 - length msg mod 64) mod 64) 0 @ be_bytes 8 (8 * length msg)"

fun sha_blocks :: "u8 list \<Rightarrow> u8 list list" where
  "sha_blocks xs = (if length xs < 64 then [] else take 64 xs # sha_blocks (drop 64 xs))"

declare sha_blocks.simps [simp del]

definition sha_hash :: "u8 list \<Rightarrow> sha1_state" where
  "sha_hash xs = fold sha_compress (sha_blocks xs) sha_H0"

definition SHA1 :: "u8 list \<Rightarrow> u8 list" where
  "SHA1 msg = (case sha_hash (sha_padded msg) of (a, b, c, d, e) \<Rightarrow>
     concat (map (\<lambda>w. be_bytes 4 (unat w)) [a, b, c, d, e]))"

definition HMAC_SHA1 :: "u8 list \<Rightarrow> u8 list \<Rightarrow> u8 list" where
  "HMAC_SHA1 key txt =
     (let K = (if length key > 64 then SHA1 key else key); K0 = K @ replicate (64 - length K) 0 in
      SHA1 (map (\<lambda>b. b XOR 0x5C) K0 @ SHA1 (map (\<lambda>b. b XOR 0x36) K0 @ txt)))"

section \<open>A block\<close>

lemma rol32_ROTL:
  assumes "n < 32"
  shows "rol32 v n = ROTL n v"
proof (rule bit_eqI32)
  fix i :: nat
  assume i: "i < 32"
  show "bit (rol32 v n) i = bit (ROTL n v) i"
  proof (cases "n \<le> i")
    case True
    then have "(i + 32 - n) mod 32 = i - n" using i by (metis Nat.add_diff_assoc2 less_imp_diff_less mod_add_self2 mod_less)
    then show ?thesis
      using i True by (auto simp: rol32_def ROTL_def bit_word_rotl_iff bit_or_iff bit_push_bit_iff bit_drop_bit_eq dest: bit_imp_le_length)
  next
    case False
    then have "(i + 32 - n) mod 32 = 32 - n + i" using assms by simp
    then show ?thesis
      using i False by (auto simp: rol32_def ROTL_def bit_word_rotl_iff bit_or_iff bit_push_bit_iff bit_drop_bit_eq
          mod_less [OF assms] add.commute [of i])
  qed
qed

lemma sha_f_Ch: "(b AND c) OR (NOT b AND d) = Ch b c d"
  by (rule bit_word_eqI) (auto simp: Ch_def bit_or_iff bit_and_iff bit_xor_iff bit_not_iff)

lemma sha_f_Maj: "(b AND c) OR (b AND d) OR (c AND d) = Maj b c d"
  by (rule bit_word_eqI) (auto simp: Maj_def bit_or_iff bit_and_iff bit_xor_iff)

lemma be_word_sum:
  "be_word m a = of_nat (be_number [m a, m (a + 1), m (a + 2), m (a + 3)])"
proof -
  have "be_word m a = push_bit 24 (ucast (m a)) + (push_bit 16 (ucast (m (a + 1))) +
     (push_bit 8 (ucast (m (a + 2))) + ucast (m (a + 3))))"
    unfolding be_word_def
    by (subst disjunctive_add_eq_or, rule bit_eqI32,
        fastforce simp: bit_and_iff bit_or_iff bit_push_bit_iff bit_ucast_iff dest: bit_imp_le_length)+
      (rule refl)
  also have "\<dots> = of_nat (be_number [m a, m (a + 1), m (a + 2), m (a + 3)])"
    by (simp add: be_number_def push_bit_eq_mult algebra_simps)
  finally show ?thesis .
qed

text \<open>The message schedule.\<close>

lemma block_word:
  assumes "t < 16"
  shows "be_word b (t * 4) = sha_W (get_list 64 b 0) t"
proof -
  have "take 4 (drop (4 * t) (get_list 64 b 0)) = [b (4 * t), b (4 * t + 1), b (4 * t + 2), b (4 * t + 3)]"
    using assms by (intro nth_equalityI) (auto simp: get_list_def nth_Cons' less_Suc_eq numeral_eq_Suc)
  then show ?thesis using assms by (subst sha_W.simps) (simp add: be_word_sum mult.commute)
qed

lemma first_words:
  "n \<le> 16 \<Longrightarrow> i < n \<Longrightarrow> fold (\<lambda>i w. w(i := be_word b (i * 4))) [0..<n] w0 i = be_word b (i * 4)"
  by (induction n) (auto simp: less_Suc_eq)

lemma later_words:
  assumes "\<And>i. i < 16 \<Longrightarrow> w i = sha_W blk i"
  shows "16 \<le> n \<Longrightarrow> \<forall>i < n. fold (\<lambda>i w. w(i := rol32 (w (i - 3) XOR w (i - 8) XOR w (i - 14) XOR w (i - 16)) 1))
    [16..<n] w i = sha_W blk i"
proof (induction n rule: nat_induct_at_least)
  case base
  then show ?case using assms by simp
next
  case (Suc n)
  then show ?case by (auto simp: less_Suc_eq rol32_ROTL sha_W.simps [of blk n])
qed

lemma message_words_W:
  assumes "i < 80"
  shows "message_words b i = sha_W (get_list 64 b 0) i"
proof -
  have "\<forall>i < 80. message_words b i = sha_W (get_list 64 b 0) i"
    unfolding message_words_def Let_def
    by (rule later_words, rule trans [OF first_words block_word]) simp_all
  then show ?thesis using assms by blast
qed

lemma sha1_step_round:
  "w i = sha_W blk i \<Longrightarrow> sha1_step w i s = sha_round blk i s"
  by (auto simp: sha1_step_def sha_round_def sha_f_def sha_K_def Parity_def rol32_ROTL sha_f_Ch sha_f_Maj
      split: prod.split)

lemma sha1_transform_compress: "sha1_transform b s = sha_compress (get_list 64 b 0) s"
proof -
  have "fold (sha1_step (message_words b)) [0..<80] s = fold (sha_round (get_list 64 b 0)) [0..<80] s"
    by (rule fold_cong) (auto intro!: sha1_step_round message_words_W)
  then show ?thesis
    by (simp add: sha1_transform_def sha_compress_def add.commute split: prod.split)
qed

section \<open>Streaming\<close>

text \<open>What a context has absorbed.\<close>

definition absorbed :: "sha1_ctx \<Rightarrow> u8 list \<Rightarrow> bool" where
  "absorbed c xs \<longleftrightarrow> sha_state c = sha_hash xs \<and> sha_count c = of_nat (length xs) \<and>
     get_list (length xs mod 64) (sha_buffer c) 0 = drop (length xs div 64 * 64) xs"

lemma sha_blocks_snoc:
  "sha_blocks (xs @ [x]) =
    sha_blocks xs @ (if Suc (length xs) mod 64 = 0 then [drop (length xs div 64 * 64) xs @ [x]] else [])"
proof (induction xs rule: sha_blocks.induct)
  case (1 xs)
  show ?case
  proof (cases "length xs < 64")
    case True
    then consider "length xs = 63" | "length xs < 63" by linarith
    then show ?thesis
      by cases (simp_all add: sha_blocks.simps [of xs] sha_blocks.simps [of "xs @ [x]"] sha_blocks.simps [of "[]"])
  next
    case False
    define n where "n = length xs - 64"
    then have n: "length xs = n + 64" using False by simp
    have "(65 + n) mod 64 = Suc n mod 64" using mod_add_self2 [of "Suc n" 64] by simp
    moreover have "(n + 64) div 64 * 64 = n div 64 * 64 + 64" using div_add_self2 [of 64 n] by simp
    ultimately show ?thesis
      using 1 False
      by (auto simp: sha_blocks.simps [of xs] sha_blocks.simps [of "xs @ [x]"] n)
  qed
qed

definition absorbing :: "sha1_state \<times> bytes \<times> nat \<Rightarrow> u8 list \<Rightarrow> bool" where
  "absorbing = (\<lambda>(s, buf, idx) xs. s = sha_hash xs \<and> idx = length xs mod 64 \<and>
     get_list idx buf 0 = drop (length xs div 64 * 64) xs)"

lemma absorbing_byte:
  assumes "absorbing t xs"
  shows "absorbing (sha1_byte x t) (xs @ [x])"
proof -
  obtain s buf idx where t: "t = (s, buf, idx)" by (cases t)
  have a: "s = sha_hash xs" "idx = length xs mod 64" "get_list idx buf 0 = drop (length xs div 64 * 64) xs"
    using assms by (auto simp: absorbing_def t)
  have g: "get_list (Suc idx) (buf(idx := x)) 0 = drop (length xs div 64 * 64) xs @ [x]"
  proof -
    have "get_list (Suc idx) (buf(idx := x)) 0 = get_list idx (buf(idx := x)) 0 @ [x]" by (simp add: get_list_def)
    also have "get_list idx (buf(idx := x)) 0 = get_list idx buf 0"
      unfolding get_list_def by (rule map_cong) auto
    finally show ?thesis by (simp only: a(3))
  qed
  show ?thesis
  proof (cases "idx + 1 = 64")
    case True
    have m: "Suc (length xs) mod 64 = 0" using True a(2) by (simp add: mod_Suc)
    then have "Suc (length xs) div 64 * 64 = Suc (length xs)" by (metis mod_0_imp_dvd dvd_div_mult_self)
    with m show ?thesis
      using True g a by (simp add: t sha1_byte_def Let_def absorbing_def sha1_transform_compress
          sha_hash_def sha_blocks_snoc get_list_def)
  next
    case False
    then have m: "Suc (length xs) mod 64 = Suc idx" using a(2) by (simp add: mod_Suc)
    then have "Suc (length xs) div 64 = length xs div 64" by (simp add: div_Suc)
    with m show ?thesis
      using False g a by (simp add: t sha1_byte_def Let_def absorbing_def sha_hash_def sha_blocks_snoc)
  qed
qed

lemma absorbing_bytes: "absorbing t xs \<Longrightarrow> absorbing (fold sha1_byte ys t) (xs @ ys)"
proof (induction ys arbitrary: t xs)
  case (Cons y ys)
  then show ?case using Cons.IH [OF absorbing_byte [OF Cons.prems]] by simp
qed simp

lemma count_index: "unat (of_nat n AND 63 :: u64) = n mod 64"
proof -
  have "unat (of_nat n AND mask 6 :: u64) = n mod 64" unfolding unat_and_mask by (simp add: unat_of_nat mod_mod_cancel)
  then show ?thesis by (simp add: mask_eq_exp_minus_1)
qed

lemma absorbed_init: "absorbed (sha1_init junk) []"
  by (simp add: absorbed_def sha1_init_def sha_hash_def sha_H0_def sha_blocks.simps get_list_def)

lemma absorbed_update:
  assumes "absorbed c xs"
  shows "absorbed (sha1_update ys c) (xs @ ys)"
proof -
  have "absorbing (sha_state c, sha_buffer c, unat (sha_count c AND 63)) xs"
    using assms by (simp add: absorbed_def absorbing_def count_index)
  from absorbing_bytes [OF this, of ys] show ?thesis
    using assms by (auto simp: absorbed_def absorbing_def sha1_update_def split: prod.splits)
qed

definition zeros_to :: "nat \<Rightarrow> nat" where
  "zeros_to n = (if n mod 64 \<le> 56 then 56 - n mod 64 else 120 - n mod 64)"

lemma zeros_to_Suc: "n mod 64 \<noteq> 56 \<Longrightarrow> zeros_to n = Suc (zeros_to (Suc n))"
  by (auto simp: zeros_to_def mod_Suc)

lemma zeros_to_standard: "zeros_to (Suc n) = (119 - n mod 64) mod 64"
proof -
  have r: "n mod 64 < 64" by simp
  show ?thesis
  proof (cases "n mod 64 \<le> 55")
    case True
    then have "119 - n mod 64 = 55 - n mod 64 + 64" by simp
    then have "(119 - n mod 64) mod 64 = 55 - n mod 64" by (metis mod_add_self2 mod_less less_imp_diff_less numeral_less_iff semiring_norm(76) semiring_norm(78) semiring_norm(80) semiring_norm(81))
    then show ?thesis using True by (simp add: zeros_to_def mod_Suc)
  next
    case False
    then show ?thesis using r by (simp add: zeros_to_def mod_Suc)
  qed
qed

lemma absorbed_pad: "absorbed c xs \<Longrightarrow> absorbed (sha1_pad c) (xs @ replicate (zeros_to (length xs)) 0)"
proof (induction c arbitrary: xs rule: sha1_pad.induct)
  case (1 c)
  have c: "sha_count c AND 63 = 56 \<longleftrightarrow> length xs mod 64 = 56"
    using 1(2) count_index [of "length xs"] unat_eq_iff_56 [of "sha_count c AND 63"] by (simp add: absorbed_def)
  show ?case
  proof (cases "length xs mod 64 = 56")
    case True
    then have "sha1_pad c = c" "zeros_to (length xs) = 0" using c by (simp_all add: sha1_pad.simps zeros_to_def)
    then show ?thesis using 1(2) by simp
  next
    case False
    then have "absorbed (sha1_pad (sha1_update [0] c)) ((xs @ [0]) @ replicate (zeros_to (length (xs @ [0]))) 0)"
      using 1(1) c absorbed_update [OF 1(2)] by blast
    moreover have "sha1_pad c = sha1_pad (sha1_update [0] c)" using False c by (simp add: sha1_pad.simps [of c])
    ultimately show ?thesis using zeros_to_Suc [OF False] by simp
  qed
qed

lemma byte_of_number: "(ucast (drop_bit k (of_nat n :: u64)) :: u8) = of_nat (n div 2 ^ k)" if "k + 8 \<le> 64"
  using that by (intro bit_eqI8)
    (simp add: bit_ucast_iff bit_drop_bit_eq bit_of_nat_iff flip: drop_bit_eq_div)

lemma byte_of_word: "(ucast (drop_bit k (w :: u32)) :: u8) = of_nat (unat w div 2 ^ k)"
proof -
  have "unat (drop_bit k w) = unat w div 2 ^ k" by (subst unat_drop_bit_eq) (rule drop_bit_eq_div)
  then show ?thesis by (metis of_nat_unat)
qed

lemma len_be_bytes: "len_be (of_nat n * 8) = be_bytes 8 (8 * n)"
proof -
  have "len_be (of_nat (8 * n)) = be_bytes 8 (8 * n)"
    unfolding len_be_def be_bytes_def
    by (rule map_cong) (simp_all add: byte_of_number power_mult del: of_nat_mult)
  then show ?thesis by (simp add: mult.commute)
qed

lemma word_be_bytes: "word_be w = be_bytes 4 (unat w)"
proof -
  have "[0..<4] = [0, 1, 2, 3 :: nat]" by (simp add: upt_conv_Cons)
  then show ?thesis
    using byte_of_word [of 24 w] byte_of_word [of 16 w] byte_of_word [of 8 w] byte_of_word [of 0 w]
    by (simp add: word_be_def be_bytes_def)
qed

lemma sha1_final_absorbed:
  assumes "absorbed c msg"
  shows "sha1_final c = SHA1 msg"
proof -
  have "sha_count c = of_nat (length msg)" using assms by (simp add: absorbed_def)
  then have "absorbed (sha1_finish c) (sha_padded msg)"
    unfolding sha1_finish_def sha_padded_def
    using absorbed_update [OF absorbed_pad [OF absorbed_update [OF assms, of "[0x80]"]]]
    by (simp add: len_be_bytes zeros_to_standard)
  then show ?thesis
    by (auto simp: sha1_final_def SHA1_def absorbed_def state_bytes_def word_be_bytes split: prod.split)
qed

text \<open>Hashing in pieces, whatever the buffer held before.\<close>

theorem sha1_streaming:
  "sha1_final (fold sha1_update parts (sha1_init junk)) = SHA1 (concat parts)"
proof -
  have "absorbed c xs \<Longrightarrow> absorbed (fold sha1_update parts c) (xs @ concat parts)" for c xs
  proof (induction parts arbitrary: c xs)
    case (Cons p ps)
    then show ?case using Cons.IH [OF absorbed_update [OF Cons.prems, of p]] by simp
  qed simp
  from this [OF absorbed_init] show ?thesis by (simp add: sha1_final_absorbed)
qed

lemma hmac_key_block:
  "hmac_pad x (hmac_key junk key) =
    (let K = (if length key > 64 then SHA1 key else key) in map (\<lambda>b. b XOR x) (K @ replicate (64 - length K) 0))"
proof -
  have H: "hmac_key junk key = put_list (if length key > 64 then SHA1 key else key) (\<lambda>_. 0) 0"
    using sha1_streaming [of "[key]"] by (simp add: hmac_key_def)
  have "length (SHA1 key) = 20" by (simp add: SHA1_def be_bytes_def split: prod.split)
  then have "length (if length key > 64 then SHA1 key else key) \<le> 64" by simp
  then show ?thesis
    unfolding H Let_def hmac_pad_def
    by (intro nth_equalityI) (auto simp: put_list_apply nth_append)
qed

theorem hmac_sha1_correct: "hmac_sha1 junk key d1 d2 = HMAC_SHA1 key (d1 @ d2)"
proof -
  have u: "sha1_update [] c = c" for c by (simp add: sha1_update_def)
  have i: "sha1_final (sha1_update b (sha1_update a (sha1_init junk))) = SHA1 (a @ b)" for a b
    using sha1_streaming [of "[a, b]"] by simp
  have j: "sha1_final (sha1_update c (sha1_update b (sha1_update a (sha1_init junk)))) = SHA1 (a @ b @ c)" for a b c
    using sha1_streaming [of "[a, b, c]"] by simp
  have "(if d \<noteq> [] then sha1_update d c else c) = sha1_update d c" for d c by (simp add: u)
  then show ?thesis
    by (simp only: hmac_sha1_def HMAC_SHA1_def Let_def i j hmac_key_block)
qed

end
