(* ===== verification/Rc4.thy ===== *)
theory Rc4
  imports Prelude
begin

text \<open>
  RC4 as the program has it twice: \<open>XcRC4Key\<close> and \<open>XcRC4Crypt\<close> of the high-level kernel
  (\<open>src/src/xbox/hle/hle_kernel.hpp\<close>), on a context of 258 bytes in guest memory, and \<open>rc4_crypt\<close> of
  \<open>src/src/xbox/hle/bootstrap.hpp\<close>, on a table of its own.  Both are the cipher \<open>rc4_apply\<close>.
\<close>

section \<open>The code\<close>

definition swap_at :: "nat \<Rightarrow> nat \<Rightarrow> bytes \<Rightarrow> bytes" where
  "swap_at a b m = (let tmp = m a; m = m(a := m b) in m(b := tmp))"

text \<open>In guest memory: the context is at \<open>c\<close>, its table first, then the two indices.\<close>

definition rc4_mix :: "nat \<Rightarrow> nat \<Rightarrow> nat \<Rightarrow> nat \<Rightarrow> bytes \<times> u8 \<Rightarrow> bytes \<times> u8" where
  "rc4_mix c kp kl i = (\<lambda>(m, j).
     let j = j + m (c + i) + m (kp + i mod kl) in (swap_at (c + i) (c + unat j) m, j))"

definition xc_rc4_key :: "nat \<Rightarrow> nat option \<Rightarrow> nat \<Rightarrow> bytes \<Rightarrow> bytes" where
  "xc_rc4_key c key kl m =
     (let m = fold (\<lambda>i m. m(c + i := of_nat i)) [0..<256] m;
          m = (case key of Some kp \<Rightarrow> fst (fold (rc4_mix c kp kl) [0..<256] (m, 0)) | None \<Rightarrow> m)
      in m(c + 256 := 0, c + 257 := 0))"

definition rc4_byte :: "nat \<Rightarrow> nat \<Rightarrow> nat \<Rightarrow> bytes \<times> u8 \<times> u8 \<Rightarrow> bytes \<times> u8 \<times> u8" where
  "rc4_byte c d k = (\<lambda>(m, si, sj).
     let si = si + 1; sj = sj + m (c + unat si); m = swap_at (c + unat si) (c + unat sj) m
     in (m(d + k := m (d + k) XOR m (c + unat (m (c + unat si) + m (c + unat sj)))), si, sj))"

definition xc_rc4_crypt :: "nat \<Rightarrow> nat \<Rightarrow> nat \<Rightarrow> bytes \<Rightarrow> bytes" where
  "xc_rc4_crypt c n d m =
     (case fold (rc4_byte c d) [0..<n] (m, m (c + 256), m (c + 257)) of
        (m, si, sj) \<Rightarrow> m(c + 256 := si, c + 257 := sj))"

text \<open>With a table of its own; the indices are \<open>int\<close>s reduced with \<open>& 0xFF\<close>.\<close>

definition boot_mix :: "u8 list \<Rightarrow> nat \<Rightarrow> bytes \<times> nat \<Rightarrow> bytes \<times> nat" where
  "boot_mix key i = (\<lambda>(S, j).
     let j = (j + unat (S i) + unat (key ! (i mod length key))) mod 256 in (swap_at i j S, j))"

definition boot_byte :: "u8 \<Rightarrow> u8 list \<times> bytes \<times> nat \<times> nat \<Rightarrow> u8 list \<times> bytes \<times> nat \<times> nat" where
  "boot_byte x = (\<lambda>(out, S, si, j).
     let si = (si + 1) mod 256; j = (j + unat (S si)) mod 256; S = swap_at si j S
     in (out @ [x XOR S ((unat (S si) + unat (S j)) mod 256)], S, si, j))"

definition rc4_crypt :: "u8 list \<Rightarrow> u8 list \<Rightarrow> u8 list" where
  "rc4_crypt key data =
     (let S = fst (fold (boot_mix key) [0..<256] (\<lambda>i. of_nat i, 0)) in
      fst (fold boot_byte data ([], S, 0, 0)))"

section \<open>The cipher\<close>

type_synonym rc4 = "bytes \<times> u8 \<times> u8"

definition rc4_next :: "rc4 \<Rightarrow> u8 \<times> rc4" where
  "rc4_next = (\<lambda>(S, i, j).
     let i = i + 1; j = j + S (unat i); S = swap_at (unat i) (unat j) S
     in (S (unat (S (unat i) + S (unat j))), S, i, j))"

fun rc4_apply :: "u8 list \<Rightarrow> rc4 \<Rightarrow> u8 list \<times> rc4" where
  "rc4_apply [] t = ([], t)"
| "rc4_apply (x # xs) t =
     (let (z, t) = rc4_next t; (ys, t) = rc4_apply xs t in ((x XOR z) # ys, t))"

definition rc4_mix_key :: "u8 list \<Rightarrow> nat \<Rightarrow> bytes \<times> u8 \<Rightarrow> bytes \<times> u8" where
  "rc4_mix_key key i = (\<lambda>(S, j). let j = j + S i + key ! (i mod length key) in (swap_at i (unat j) S, j))"

definition rc4_schedule :: "u8 list \<Rightarrow> rc4" where
  "rc4_schedule key =
     ((if key = [] then (\<lambda>i. of_nat i) else fst (fold (rc4_mix_key key) [0..<256] (\<lambda>i. of_nat i, 0))), 0, 0)"

lemma rc4_apply_snoc:
  "rc4_apply (xs @ [x]) t =
    (let (ys, t) = rc4_apply xs t; (z, t) = rc4_next t in (ys @ [x XOR z], t))"
  by (induction xs arbitrary: t) (auto simp: Let_def split: prod.split)

lemma length_rc4_apply [simp]: "length (fst (rc4_apply xs t)) = length xs"
  by (induction xs arbitrary: t) (simp_all add: Let_def case_prod_beta)

text \<open>The key stream does not depend on the data, so applying it twice gives the data back.\<close>

lemma rc4_apply_twice: "fst (rc4_apply (fst (rc4_apply xs t)) t) = xs"
  by (induction xs arbitrary: t) (simp_all add: Let_def case_prod_beta xor.assoc)

lemma rc4_apply_state: "length xs = length ys \<Longrightarrow> snd (rc4_apply xs t) = snd (rc4_apply ys t)"
  by (induction xs ys arbitrary: t rule: list_induct2) (simp_all add: Let_def case_prod_beta)

section \<open>In guest memory\<close>

text \<open>The table at \<open>c\<close> and a memory that differs from another in the two ranges only.\<close>

definition table_at :: "nat \<Rightarrow> bytes \<Rightarrow> bytes \<Rightarrow> bool" where
  "table_at c m S \<longleftrightarrow> (\<forall>i < 256. m (c + i) = S i)"

lemma table_swap:
  "table_at c m S \<Longrightarrow> i < 256 \<Longrightarrow> j < 256 \<Longrightarrow> table_at c (swap_at (c + i) (c + j) m) (swap_at i j S)"
  by (auto simp: table_at_def swap_at_def Let_def)

lemma table_other: "table_at c m S \<Longrightarrow> a < c \<or> c + 256 \<le> a \<Longrightarrow> table_at c (m(a := v)) S"
  by (auto simp: table_at_def)

lemma table_read: "table_at c m S \<Longrightarrow> m (c + unat (x :: u8)) = S (unat x)"
  by (simp add: table_at_def)

lemma swap_other: "a \<noteq> i \<Longrightarrow> a \<noteq> j \<Longrightarrow> swap_at i j m a = m a"
  by (simp add: swap_at_def Let_def)

definition apart_from :: "nat \<Rightarrow> nat \<Rightarrow> nat \<Rightarrow> bool" where
  "apart_from c d n \<longleftrightarrow> d + n \<le> c \<or> c + 258 \<le> d"

lemma rc4_bytes_ram:
  assumes ap: "apart_from c d n" and t: "table_at c m S"
  shows "k \<le> n \<Longrightarrow> fold (rc4_byte c d) [0..<k] (m, i, j) = (m', i', j') \<Longrightarrow>
    \<exists>S'. rc4_apply (get_list k m d) (S, i, j) = (get_list k m' d, S', i', j') \<and> table_at c m' S' \<and>
      (\<forall>a. (a < c \<or> c + 256 \<le> a) \<and> (a < d \<or> d + k \<le> a) \<longrightarrow> m' a = m a)"
proof (induction k arbitrary: m' i' j')
  case 0
  then show ?case using t by (simp add: get_list_def)
next
  case (Suc k)
  obtain m1 i1 j1 where f: "fold (rc4_byte c d) [0..<k] (m, i, j) = (m1, i1, j1)" by (metis prod_cases3)
  then obtain S1 where r: "rc4_apply (get_list k m d) (S, i, j) = (get_list k m1 d, S1, i1, j1)"
      and t1: "table_at c m1 S1" and o: "\<And>a. (a < c \<or> c + 256 \<le> a) \<Longrightarrow> (a < d \<or> d + k \<le> a) \<Longrightarrow> m1 a = m a"
    using Suc.IH [of m1 i1 j1] Suc.prems(1) by auto
  define si where "si = i1 + 1"
  define sj where "sj = j1 + S1 (unat si)"
  define S2 where "S2 = swap_at (unat si) (unat sj) S1"
  define m2 where "m2 = swap_at (c + unat si) (c + unat sj) m1"
  define z where "z = S2 (unat (S2 (unat si) + S2 (unat sj)))"
  have t2: "table_at c m2 S2" unfolding m2_def S2_def by (rule table_swap [OF t1]) simp_all
  have dk: "d + k < c \<or> c + 258 \<le> d + k" using ap Suc.prems(1) by (auto simp: apart_from_def)
  have in_c: "m2 a = m1 a" if "a < c \<or> c + 256 \<le> a" for a
  proof -
    have "unat si < 256" "unat sj < 256" by simp_all
    then have "a \<noteq> c + unat si" "a \<noteq> c + unat sj" using that by linarith+
    then show ?thesis unfolding m2_def by (rule swap_other)
  qed
  have "rc4_byte c d k (m1, i1, j1) = (m2(d + k := m2 (d + k) XOR z), si, sj)"
    by (simp add: rc4_byte_def Let_def table_read [OF t1] table_read [OF t2] z_def flip: si_def sj_def m2_def)
  moreover have "rc4_byte c d k (m1, i1, j1) = (m', i', j')"
    using Suc.prems(2) by (simp add: f del: upt_Suc add: upt_Suc_append)
  ultimately have m': "m' = m2(d + k := m1 (d + k) XOR z)" "i' = si" "j' = sj"
    using in_c [of "d + k"] dk by auto
  have keep: "get_list k m' d = get_list k m1 d"
  proof -
    have "m' (d + l) = m1 (d + l)" if "l < k" for l
    proof -
      have "d + l < c \<or> c + 256 \<le> d + l" using ap Suc.prems(1) that by (auto simp: apart_from_def)
      then show ?thesis using that by (simp add: m' in_c)
    qed
    then show ?thesis by (simp add: get_list_def)
  qed
  have "get_list (Suc k) m d = get_list k m d @ [m1 (d + k)]" using o [of "d + k"] dk by (auto simp: get_list_def)
  moreover have "get_list (Suc k) m' d = get_list k m1 d @ [m1 (d + k) XOR z]"
    using keep by (simp add: get_list_def m'(1))
  moreover have "rc4_next (S1, i1, j1) = (z, S2, si, sj)"
    by (simp add: rc4_next_def Let_def z_def S2_def flip: si_def sj_def)
  ultimately have "rc4_apply (get_list (Suc k) m d) (S, i, j) = (get_list (Suc k) m' d, S2, i', j')"
    by (simp add: rc4_apply_snoc r m')
  moreover have "table_at c m' S2" unfolding m'(1) by (rule table_other [OF t2]) (use dk in auto)
  moreover have "\<forall>a. (a < c \<or> c + 256 \<le> a) \<and> (a < d \<or> d + Suc k \<le> a) \<longrightarrow> m' a = m a"
    using in_c o by (auto simp: m'(1))
  ultimately show ?case by blast
qed

text \<open>The context of a cipher state: its table and its indices.\<close>

definition context_at :: "nat \<Rightarrow> bytes \<Rightarrow> rc4 \<Rightarrow> bool" where
  "context_at c m = (\<lambda>(S, i, j). table_at c m S \<and> m (c + 256) = i \<and> m (c + 257) = j)"

lemma xc_rc4_crypt_apply:
  assumes ap: "apart_from c d n" and t: "context_at c m t"
  shows "get_list n (xc_rc4_crypt c n d m) d = fst (rc4_apply (get_list n m d) t)"
    and "context_at c (xc_rc4_crypt c n d m) (snd (rc4_apply (get_list n m d) t))"
    and "(a < c \<or> c + 258 \<le> a) \<and> (a < d \<or> d + n \<le> a) \<Longrightarrow> xc_rc4_crypt c n d m a = m a"
proof -
  obtain S i j where tt: "t = (S, i, j)" by (cases t)
  then have c: "table_at c m S" "m (c + 256) = i" "m (c + 257) = j" using t by (auto simp: context_at_def)
  obtain m' i' j' where f: "fold (rc4_byte c d) [0..<n] (m, i, j) = (m', i', j')" by (metis prod_cases3)
  from rc4_bytes_ram [OF ap c(1) le_refl f] obtain S' where
    r: "rc4_apply (get_list n m d) (S, i, j) = (get_list n m' d, S', i', j')" and t': "table_at c m' S'"
    and o: "\<forall>a. (a < c \<or> c + 256 \<le> a) \<and> (a < d \<or> d + n \<le> a) \<longrightarrow> m' a = m a" by blast
  have x: "xc_rc4_crypt c n d m = m'(c + 256 := i', c + 257 := j')"
    by (simp add: xc_rc4_crypt_def c f)
  have "get_list n (m'(c + 256 := i', c + 257 := j')) d = get_list n m' d"
    unfolding get_list_def by (rule map_cong) (use ap in \<open>auto simp: apart_from_def\<close>)
  then show "get_list n (xc_rc4_crypt c n d m) d = fst (rc4_apply (get_list n m d) t)" by (simp add: x tt r)
  show "context_at c (xc_rc4_crypt c n d m) (snd (rc4_apply (get_list n m d) t))"
    using t' by (simp add: x tt r context_at_def table_at_def)
  show "(a < c \<or> c + 258 \<le> a) \<and> (a < d \<or> d + n \<le> a) \<Longrightarrow> xc_rc4_crypt c n d m a = m a"
    using o by (auto simp: x)
qed

text \<open>Setting the key.\<close>

lemma fill_identity:
  "n \<le> 256 \<Longrightarrow> fold (\<lambda>i m. m(c + i := of_nat i)) [0..<n] m a =
    (if c \<le> a \<and> a < c + n then of_nat (a - c) else m a)"
  by (induction n) auto

lemma rc4_mix_ram:
  assumes ap: "kp + kl \<le> c \<or> c + 256 \<le> kp" and kl: "0 < kl" and t: "table_at c m S"
  shows "n \<le> 256 \<Longrightarrow> fold (rc4_mix c kp kl) [0..<n] (m, 0) = (m', j') \<Longrightarrow>
    \<exists>S'. fold (rc4_mix_key (get_list kl m kp)) [0..<n] (S, 0) = (S', j') \<and> table_at c m' S' \<and>
      (\<forall>a. a < c \<or> c + 256 \<le> a \<longrightarrow> m' a = m a)"
proof (induction n arbitrary: m' j')
  case 0
  then show ?case using t by simp
next
  case (Suc n)
  obtain m1 j1 where f: "fold (rc4_mix c kp kl) [0..<n] (m, 0) = (m1, j1)" by (metis surj_pair)
  then obtain S1 where r: "fold (rc4_mix_key (get_list kl m kp)) [0..<n] (S, 0) = (S1, j1)"
      and t1: "table_at c m1 S1" and o: "\<And>a. a < c \<or> c + 256 \<le> a \<Longrightarrow> m1 a = m a"
    using Suc.IH [of m1 j1] Suc.prems(1) by auto
  have l: "n mod kl < kl" using kl by simp
  then have "m1 (kp + n mod kl) = get_list kl m kp ! (n mod kl)"
    using o [of "kp + n mod kl"] ap by (auto simp: get_list_def)
  moreover have "m1 (c + n) = S1 n" using t1 Suc.prems(1) by (simp add: table_at_def)
  moreover define j2 where "j2 = j1 + S1 n + get_list kl m kp ! (n mod kl)"
  ultimately have "rc4_mix c kp kl n (m1, j1) = (swap_at (c + n) (c + unat j2) m1, j2)"
    by (simp add: rc4_mix_def Let_def)
  moreover have "rc4_mix c kp kl n (m1, j1) = (m', j')"
    using Suc.prems(2) by (simp add: f del: upt_Suc add: upt_Suc_append)
  ultimately have m': "m' = swap_at (c + n) (c + unat j2) m1" "j' = j2" by auto
  have u: "unat j2 < 256" by simp
  have "fold (rc4_mix_key (get_list kl m kp)) [0..<Suc n] (S, 0) = (swap_at n (unat j2) S1, j')"
    using r by (simp add: rc4_mix_key_def Let_def j2_def m'(2) del: upt_Suc add: upt_Suc_append)
  moreover have "table_at c m' (swap_at n (unat j2) S1)"
    unfolding m'(1) by (rule table_swap [OF t1]) (use Suc.prems(1) u in auto)
  moreover have "\<forall>a. a < c \<or> c + 256 \<le> a \<longrightarrow> m' a = m a"
  proof (intro allI impI)
    fix a assume a: "a < c \<or> c + 256 \<le> a"
    then have "a \<noteq> c + n" "a \<noteq> c + unat j2" using u Suc.prems(1) by linarith+
    then show "m' a = m a" unfolding m'(1) using o [OF a] by (simp add: swap_other)
  qed
  ultimately show ?case by blast
qed

lemma xc_rc4_key_schedule:
  assumes ap: "kp + kl \<le> c \<or> c + 258 \<le> kp" and kl: "0 < kl"
  shows "context_at c (xc_rc4_key c (Some kp) kl m) (rc4_schedule (get_list kl m kp))"
    and "a < c \<or> c + 258 \<le> a \<Longrightarrow> xc_rc4_key c (Some kp) kl m a = m a"
proof -
  define m0 where "m0 = fold (\<lambda>i m. m(c + i := of_nat i)) [0..<256] m"
  have m0: "m0 a = (if c \<le> a \<and> a < c + 256 then of_nat (a - c) else m a)" for a
    unfolding m0_def by (rule fill_identity) simp
  have t: "table_at c m0 (\<lambda>i. of_nat i)" by (simp add: table_at_def m0)
  have k: "get_list kl m0 kp = get_list kl m kp"
    unfolding get_list_def by (rule map_cong) (use ap in \<open>auto simp: m0\<close>)
  obtain m' j' where f: "fold (rc4_mix c kp kl) [0..<256] (m0, 0) = (m', j')" by (metis surj_pair)
  have "kp + kl \<le> c \<or> c + 256 \<le> kp" using ap by auto
  from rc4_mix_ram [OF this kl t le_refl f] obtain S' where
    r: "fold (rc4_mix_key (get_list kl m kp)) [0..<256] (\<lambda>i. of_nat i, 0) = (S', j')"
    and t': "table_at c m' S'" and o: "\<forall>a. a < c \<or> c + 256 \<le> a \<longrightarrow> m' a = m0 a"
    unfolding k by blast
  have x: "xc_rc4_key c (Some kp) kl m = m'(c + 256 := 0, c + 257 := 0)"
    unfolding xc_rc4_key_def Let_def m0_def [symmetric] by (simp add: f)
  have "get_list kl m kp \<noteq> []" using kl by (simp add: get_list_def)
  then have "rc4_schedule (get_list kl m kp) = (S', 0, 0)" by (simp only: rc4_schedule_def if_False r fst_conv)
  then show "context_at c (xc_rc4_key c (Some kp) kl m) (rc4_schedule (get_list kl m kp))"
    using t' by (simp add: x context_at_def table_at_def)
  show "a < c \<or> c + 258 \<le> a \<Longrightarrow> xc_rc4_key c (Some kp) kl m a = m a"
    using o by (auto simp: x m0)
qed

section \<open>The boot loader's\<close>

lemma mod_unat: "(unat (a :: u8) + unat b) mod 256 = unat (a + b)"
  by (simp add: unat_word_ariths)

lemma unat_Suc8: "Suc (unat (a :: u8)) mod 256 = unat (a + 1)"
  by (simp add: unat_word_ariths)

lemma boot_mix_step: "boot_mix key i (map_prod id unat t) = map_prod id unat (rc4_mix_key key i t)"
proof -
  obtain S j where t: "t = (S, j)" by (cases t)
  have "(unat j + unat (S i) + unat (key ! (i mod length key))) mod 256 = unat (j + S i + key ! (i mod length key))"
    by (simp add: unat_word_ariths mod_add_left_eq)
  then show ?thesis by (simp add: t boot_mix_def rc4_mix_key_def Let_def)
qed

lemma boot_mix_schedule:
  "fold (boot_mix key) is (map_prod id unat t) = map_prod id unat (fold (rc4_mix_key key) is t)"
  by (induction "is" arbitrary: t) (simp_all add: boot_mix_step)

lemma boot_byte_apply:
  "fold boot_byte xs (out, S, unat i, unat j) =
    (case rc4_apply xs (S, i, j) of (ys, S', i', j') \<Rightarrow> (out @ ys, S', unat i', unat j'))"
proof (induction xs arbitrary: out S i j)
  case (Cons x xs)
  obtain z S1 i1 j1 where n: "rc4_next (S, i, j) = (z, S1, i1, j1)" by (metis prod_cases4)
  have "boot_byte x (out, S, unat i, unat j) = (out @ [x XOR z], S1, unat i1, unat j1)"
    using n by (auto simp: boot_byte_def rc4_next_def Let_def mod_unat unat_Suc8)
  then show ?case by (simp add: Cons.IH n Let_def split: prod.split)
qed simp

lemma rc4_crypt_apply:
  assumes "key \<noteq> []"
  shows "rc4_crypt key data = fst (rc4_apply data (rc4_schedule key))"
proof -
  define t where "t = fold (rc4_mix_key key) [0..<256] (\<lambda>i. of_nat i, 0)"
  have "fold (boot_mix key) [0..<256] (\<lambda>i. of_nat i, 0) = map_prod id unat t"
    using boot_mix_schedule [of key "[0..<256]" "(\<lambda>i. of_nat i, 0)"] by (simp only: t_def map_prod_simp id_apply unat_0)
  moreover have "rc4_schedule key = (fst t, 0, 0)" using assms by (simp only: rc4_schedule_def t_def if_False)
  ultimately show ?thesis
    using boot_byte_apply [of data "[]" "fst t" 0 0]
    by (simp add: rc4_crypt_def Let_def split: prod.split)
qed

text \<open>Decrypting twice with one key.\<close>

lemma rc4_crypt_twice: "key \<noteq> [] \<Longrightarrow> rc4_crypt key (rc4_crypt key data) = data"
  by (simp add: rc4_crypt_apply rc4_apply_twice)

end
