(* ===== verification/Hle_Ordinals.thy ===== *)
theory Hle_Ordinals
  imports Prelude
begin

text \<open>
  The ordinals of the kernel exports the high-level kernel names (\<open>enum KernelOrdinal\<close> of
  \<open>src/src/xbox/hle/hle_kernel.hpp\<close>).
\<close>

abbreviation (input) ORD_AvGetSavedDataAddress :: u32 where "ORD_AvGetSavedDataAddress \<equiv> 1"
abbreviation (input) ORD_AvSendTVEncoderOption :: u32 where "ORD_AvSendTVEncoderOption \<equiv> 2"
abbreviation (input) ORD_AvSetDisplayMode :: u32 where "ORD_AvSetDisplayMode \<equiv> 3"
abbreviation (input) ORD_AvSetSavedDataAddress :: u32 where "ORD_AvSetSavedDataAddress \<equiv> 4"
abbreviation (input) ORD_DbgBreakPoint :: u32 where "ORD_DbgBreakPoint \<equiv> 5"
abbreviation (input) ORD_DbgPrint :: u32 where "ORD_DbgPrint \<equiv> 8"
abbreviation (input) ORD_HalReadSMCTrayState :: u32 where "ORD_HalReadSMCTrayState \<equiv> 9"
abbreviation (input) ORD_ExAcquireReadWriteLockExclusive :: u32 where "ORD_ExAcquireReadWriteLockExclusive \<equiv> 12"
abbreviation (input) ORD_ExAcquireReadWriteLockShared :: u32 where "ORD_ExAcquireReadWriteLockShared \<equiv> 13"
abbreviation (input) ORD_ExAllocatePool :: u32 where "ORD_ExAllocatePool \<equiv> 14"
abbreviation (input) ORD_ExAllocatePoolWithTag :: u32 where "ORD_ExAllocatePoolWithTag \<equiv> 15"
abbreviation (input) ORD_ExFreePool :: u32 where "ORD_ExFreePool \<equiv> 17"
abbreviation (input) ORD_ExInitializeReadWriteLock :: u32 where "ORD_ExInitializeReadWriteLock \<equiv> 18"
abbreviation (input) ORD_ExQueryPoolBlockSize :: u32 where "ORD_ExQueryPoolBlockSize \<equiv> 23"
abbreviation (input) ORD_ExQueryNonVolatileSetting :: u32 where "ORD_ExQueryNonVolatileSetting \<equiv> 24"
abbreviation (input) ORD_ExSaveNonVolatileSetting :: u32 where "ORD_ExSaveNonVolatileSetting \<equiv> 29"
abbreviation (input) ORD_FscSetCacheSize :: u32 where "ORD_FscSetCacheSize \<equiv> 37"
abbreviation (input) ORD_HalGetInterruptVector :: u32 where "ORD_HalGetInterruptVector \<equiv> 44"
abbreviation (input) ORD_HalReadSMBusValue :: u32 where "ORD_HalReadSMBusValue \<equiv> 45"
abbreviation (input) ORD_HalReadWritePCISpace :: u32 where "ORD_HalReadWritePCISpace \<equiv> 46"
abbreviation (input) ORD_HalRegisterShutdownNotification :: u32 where "ORD_HalRegisterShutdownNotification \<equiv> 47"
abbreviation (input) ORD_HalReturnToFirmware :: u32 where "ORD_HalReturnToFirmware \<equiv> 49"
abbreviation (input) ORD_HalWriteSMBusValue :: u32 where "ORD_HalWriteSMBusValue \<equiv> 50"
abbreviation (input) ORD_InterlockedCompareExchange :: u32 where "ORD_InterlockedCompareExchange \<equiv> 51"
abbreviation (input) ORD_InterlockedDecrement :: u32 where "ORD_InterlockedDecrement \<equiv> 52"
abbreviation (input) ORD_InterlockedIncrement :: u32 where "ORD_InterlockedIncrement \<equiv> 53"
abbreviation (input) ORD_InterlockedExchange :: u32 where "ORD_InterlockedExchange \<equiv> 54"
abbreviation (input) ORD_InterlockedExchangeAdd :: u32 where "ORD_InterlockedExchangeAdd \<equiv> 55"
abbreviation (input) ORD_IoCreateDevice :: u32 where "ORD_IoCreateDevice \<equiv> 65"
abbreviation (input) ORD_IoCreateFile :: u32 where "ORD_IoCreateFile \<equiv> 66"
abbreviation (input) ORD_IoCreateSymbolicLink :: u32 where "ORD_IoCreateSymbolicLink \<equiv> 67"
abbreviation (input) ORD_IoDeleteDevice :: u32 where "ORD_IoDeleteDevice \<equiv> 68"
abbreviation (input) ORD_IoDeleteSymbolicLink :: u32 where "ORD_IoDeleteSymbolicLink \<equiv> 69"
abbreviation (input) ORD_IoDismountVolume :: u32 where "ORD_IoDismountVolume \<equiv> 90"
abbreviation (input) ORD_IoDismountVolumeByName :: u32 where "ORD_IoDismountVolumeByName \<equiv> 91"
abbreviation (input) ORD_KeBugCheck :: u32 where "ORD_KeBugCheck \<equiv> 95"
abbreviation (input) ORD_KeBugCheckEx :: u32 where "ORD_KeBugCheckEx \<equiv> 96"
abbreviation (input) ORD_KeCancelTimer :: u32 where "ORD_KeCancelTimer \<equiv> 97"
abbreviation (input) ORD_KeConnectInterrupt :: u32 where "ORD_KeConnectInterrupt \<equiv> 98"
abbreviation (input) ORD_KeDelayExecutionThread :: u32 where "ORD_KeDelayExecutionThread \<equiv> 99"
abbreviation (input) ORD_KeEnterCriticalRegion :: u32 where "ORD_KeEnterCriticalRegion \<equiv> 101"
abbreviation (input) ORD_KeGetCurrentIrql :: u32 where "ORD_KeGetCurrentIrql \<equiv> 103"
abbreviation (input) ORD_KeGetCurrentThread :: u32 where "ORD_KeGetCurrentThread \<equiv> 104"
abbreviation (input) ORD_KeInitializeApc :: u32 where "ORD_KeInitializeApc \<equiv> 105"
abbreviation (input) ORD_KeInitializeDpc :: u32 where "ORD_KeInitializeDpc \<equiv> 107"
abbreviation (input) ORD_KeInitializeEvent :: u32 where "ORD_KeInitializeEvent \<equiv> 108"
abbreviation (input) ORD_KeInitializeInterrupt :: u32 where "ORD_KeInitializeInterrupt \<equiv> 109"
abbreviation (input) ORD_KeInitializeMutant :: u32 where "ORD_KeInitializeMutant \<equiv> 110"
abbreviation (input) ORD_KeInitializeQueue :: u32 where "ORD_KeInitializeQueue \<equiv> 111"
abbreviation (input) ORD_KeInitializeSemaphore :: u32 where "ORD_KeInitializeSemaphore \<equiv> 112"
abbreviation (input) ORD_KeInitializeTimerEx :: u32 where "ORD_KeInitializeTimerEx \<equiv> 113"
abbreviation (input) ORD_KeInsertQueueDpc :: u32 where "ORD_KeInsertQueueDpc \<equiv> 119"
abbreviation (input) ORD_KeLeaveCriticalRegion :: u32 where "ORD_KeLeaveCriticalRegion \<equiv> 122"
abbreviation (input) ORD_KeQueryPerformanceCounter :: u32 where "ORD_KeQueryPerformanceCounter \<equiv> 126"
abbreviation (input) ORD_KeQueryPerformanceFrequency :: u32 where "ORD_KeQueryPerformanceFrequency \<equiv> 127"
abbreviation (input) ORD_KeQuerySystemTime :: u32 where "ORD_KeQuerySystemTime \<equiv> 128"
abbreviation (input) ORD_KeRaiseIrqlToDpcLevel :: u32 where "ORD_KeRaiseIrqlToDpcLevel \<equiv> 129"
abbreviation (input) ORD_KeReleaseMutant :: u32 where "ORD_KeReleaseMutant \<equiv> 131"
abbreviation (input) ORD_KeReleaseSemaphore :: u32 where "ORD_KeReleaseSemaphore \<equiv> 132"
abbreviation (input) ORD_KeResetEvent :: u32 where "ORD_KeResetEvent \<equiv> 138"
abbreviation (input) ORD_KeSetBasePriorityThread :: u32 where "ORD_KeSetBasePriorityThread \<equiv> 143"
abbreviation (input) ORD_KeSetEvent :: u32 where "ORD_KeSetEvent \<equiv> 145"
abbreviation (input) ORD_KeSetTimer :: u32 where "ORD_KeSetTimer \<equiv> 149"
abbreviation (input) ORD_KeSetTimerEx :: u32 where "ORD_KeSetTimerEx \<equiv> 150"
abbreviation (input) ORD_KeStallExecutionProcessor :: u32 where "ORD_KeStallExecutionProcessor \<equiv> 151"
abbreviation (input) ORD_KeTickCount :: u32 where "ORD_KeTickCount \<equiv> 156"
abbreviation (input) ORD_KeWaitForMultipleObjects :: u32 where "ORD_KeWaitForMultipleObjects \<equiv> 158"
abbreviation (input) ORD_KeWaitForSingleObject :: u32 where "ORD_KeWaitForSingleObject \<equiv> 159"
abbreviation (input) ORD_KfRaiseIrql :: u32 where "ORD_KfRaiseIrql \<equiv> 160"
abbreviation (input) ORD_KfLowerIrql :: u32 where "ORD_KfLowerIrql \<equiv> 161"
abbreviation (input) ORD_KiUnlockDispatcherDatabase :: u32 where "ORD_KiUnlockDispatcherDatabase \<equiv> 163"
abbreviation (input) ORD_LaunchDataPage :: u32 where "ORD_LaunchDataPage \<equiv> 164"
abbreviation (input) ORD_MmAllocateContiguousMemory :: u32 where "ORD_MmAllocateContiguousMemory \<equiv> 165"
abbreviation (input) ORD_MmAllocateContiguousMemoryEx :: u32 where "ORD_MmAllocateContiguousMemoryEx \<equiv> 166"
abbreviation (input) ORD_MmAllocateSystemMemory :: u32 where "ORD_MmAllocateSystemMemory \<equiv> 167"
abbreviation (input) ORD_MmClaimGpuInstanceMemory :: u32 where "ORD_MmClaimGpuInstanceMemory \<equiv> 168"
abbreviation (input) ORD_MmCreateKernelStack :: u32 where "ORD_MmCreateKernelStack \<equiv> 169"
abbreviation (input) ORD_MmDeleteKernelStack :: u32 where "ORD_MmDeleteKernelStack \<equiv> 170"
abbreviation (input) ORD_MmFreeContiguousMemory :: u32 where "ORD_MmFreeContiguousMemory \<equiv> 171"
abbreviation (input) ORD_MmFreeSystemMemory :: u32 where "ORD_MmFreeSystemMemory \<equiv> 172"
abbreviation (input) ORD_MmGetPhysicalAddress :: u32 where "ORD_MmGetPhysicalAddress \<equiv> 173"
abbreviation (input) ORD_MmIsAddressValid :: u32 where "ORD_MmIsAddressValid \<equiv> 174"
abbreviation (input) ORD_MmLockUnlockBufferPages :: u32 where "ORD_MmLockUnlockBufferPages \<equiv> 175"
abbreviation (input) ORD_MmMapIoSpace :: u32 where "ORD_MmMapIoSpace \<equiv> 177"
abbreviation (input) ORD_MmPersistContiguousMemory :: u32 where "ORD_MmPersistContiguousMemory \<equiv> 178"
abbreviation (input) ORD_MmQueryStatistics :: u32 where "ORD_MmQueryStatistics \<equiv> 181"
abbreviation (input) ORD_MmSetAddressProtect :: u32 where "ORD_MmSetAddressProtect \<equiv> 182"
abbreviation (input) ORD_MmUnmapIoSpace :: u32 where "ORD_MmUnmapIoSpace \<equiv> 183"
abbreviation (input) ORD_NtAllocateVirtualMemory :: u32 where "ORD_NtAllocateVirtualMemory \<equiv> 184"
abbreviation (input) ORD_NtClearEvent :: u32 where "ORD_NtClearEvent \<equiv> 186"
abbreviation (input) ORD_NtClose :: u32 where "ORD_NtClose \<equiv> 187"
abbreviation (input) ORD_NtCreateEvent :: u32 where "ORD_NtCreateEvent \<equiv> 189"
abbreviation (input) ORD_NtCreateFile :: u32 where "ORD_NtCreateFile \<equiv> 190"
abbreviation (input) ORD_NtCreateMutant :: u32 where "ORD_NtCreateMutant \<equiv> 192"
abbreviation (input) ORD_NtCreateSemaphore :: u32 where "ORD_NtCreateSemaphore \<equiv> 193"
abbreviation (input) ORD_NtDeviceIoControlFile :: u32 where "ORD_NtDeviceIoControlFile \<equiv> 196"
abbreviation (input) ORD_NtDuplicateObject :: u32 where "ORD_NtDuplicateObject \<equiv> 197"
abbreviation (input) ORD_NtFlushBuffersFile :: u32 where "ORD_NtFlushBuffersFile \<equiv> 198"
abbreviation (input) ORD_NtFreeVirtualMemory :: u32 where "ORD_NtFreeVirtualMemory \<equiv> 199"
abbreviation (input) ORD_NtOpenFile :: u32 where "ORD_NtOpenFile \<equiv> 202"
abbreviation (input) ORD_NtQueryInformationFile :: u32 where "ORD_NtQueryInformationFile \<equiv> 211"
abbreviation (input) ORD_NtQueryFullAttributesFile :: u32 where "ORD_NtQueryFullAttributesFile \<equiv> 210"
abbreviation (input) ORD_NtQueryVolumeInformationFile :: u32 where "ORD_NtQueryVolumeInformationFile \<equiv> 218"
abbreviation (input) ORD_NtReadFile :: u32 where "ORD_NtReadFile \<equiv> 219"
abbreviation (input) ORD_NtSetEvent :: u32 where "ORD_NtSetEvent \<equiv> 225"
abbreviation (input) ORD_NtSetInformationFile :: u32 where "ORD_NtSetInformationFile \<equiv> 226"
abbreviation (input) ORD_NtWaitForSingleObject :: u32 where "ORD_NtWaitForSingleObject \<equiv> 233"
abbreviation (input) ORD_NtWaitForSingleObjectEx :: u32 where "ORD_NtWaitForSingleObjectEx \<equiv> 234"
abbreviation (input) ORD_NtWaitForMultipleObjectsEx :: u32 where "ORD_NtWaitForMultipleObjectsEx \<equiv> 235"
abbreviation (input) ORD_NtWriteFile :: u32 where "ORD_NtWriteFile \<equiv> 236"
abbreviation (input) ORD_NtYieldExecution :: u32 where "ORD_NtYieldExecution \<equiv> 238"
abbreviation (input) ORD_ObReferenceObjectByHandle :: u32 where "ORD_ObReferenceObjectByHandle \<equiv> 246"
abbreviation (input) ORD_ObfDereferenceObject :: u32 where "ORD_ObfDereferenceObject \<equiv> 250"
abbreviation (input) ORD_ObfReferenceObject :: u32 where "ORD_ObfReferenceObject \<equiv> 251"
abbreviation (input) ORD_PsCreateSystemThread :: u32 where "ORD_PsCreateSystemThread \<equiv> 254"
abbreviation (input) ORD_PsCreateSystemThreadEx :: u32 where "ORD_PsCreateSystemThreadEx \<equiv> 255"
abbreviation (input) ORD_PsTerminateSystemThread :: u32 where "ORD_PsTerminateSystemThread \<equiv> 258"
abbreviation (input) ORD_RtlAnsiStringToUnicodeString :: u32 where "ORD_RtlAnsiStringToUnicodeString \<equiv> 260"
abbreviation (input) ORD_RtlCompareMemory :: u32 where "ORD_RtlCompareMemory \<equiv> 268"
abbreviation (input) ORD_RtlCopyUnicodeString :: u32 where "ORD_RtlCopyUnicodeString \<equiv> 273"
abbreviation (input) ORD_RtlCreateUnicodeString :: u32 where "ORD_RtlCreateUnicodeString \<equiv> 274"
abbreviation (input) ORD_RtlEnterCriticalSection :: u32 where "ORD_RtlEnterCriticalSection \<equiv> 277"
abbreviation (input) ORD_RtlEnterCriticalSectionAndRegion :: u32 where "ORD_RtlEnterCriticalSectionAndRegion \<equiv> 278"
abbreviation (input) ORD_RtlEqualString :: u32 where "ORD_RtlEqualString \<equiv> 279"
abbreviation (input) ORD_RtlFillMemory :: u32 where "ORD_RtlFillMemory \<equiv> 284"
abbreviation (input) ORD_RtlFreeAnsiString :: u32 where "ORD_RtlFreeAnsiString \<equiv> 286"
abbreviation (input) ORD_RtlFreeUnicodeString :: u32 where "ORD_RtlFreeUnicodeString \<equiv> 287"
abbreviation (input) ORD_RtlInitAnsiString :: u32 where "ORD_RtlInitAnsiString \<equiv> 289"
abbreviation (input) ORD_RtlInitUnicodeString :: u32 where "ORD_RtlInitUnicodeString \<equiv> 290"
abbreviation (input) ORD_RtlInitializeCriticalSection :: u32 where "ORD_RtlInitializeCriticalSection \<equiv> 291"
abbreviation (input) ORD_RtlLeaveCriticalSection :: u32 where "ORD_RtlLeaveCriticalSection \<equiv> 294"
abbreviation (input) ORD_RtlLeaveCriticalSectionAndRegion :: u32 where "ORD_RtlLeaveCriticalSectionAndRegion \<equiv> 295"
abbreviation (input) ORD_RtlMoveMemory :: u32 where "ORD_RtlMoveMemory \<equiv> 298"
abbreviation (input) ORD_RtlNtStatusToDosError :: u32 where "ORD_RtlNtStatusToDosError \<equiv> 301"
abbreviation (input) ORD_RtlTryEnterCriticalSection :: u32 where "ORD_RtlTryEnterCriticalSection \<equiv> 306"
abbreviation (input) ORD_RtlUnicodeStringToAnsiString :: u32 where "ORD_RtlUnicodeStringToAnsiString \<equiv> 308"
abbreviation (input) ORD_RtlZeroMemory :: u32 where "ORD_RtlZeroMemory \<equiv> 320"
abbreviation (input) ORD_XboxHardwareInfo :: u32 where "ORD_XboxHardwareInfo \<equiv> 322"
abbreviation (input) ORD_XboxKrnlVersion :: u32 where "ORD_XboxKrnlVersion \<equiv> 324"
abbreviation (input) ORD_XeImageFileName :: u32 where "ORD_XeImageFileName \<equiv> 326"
abbreviation (input) ORD_XeLoadSection :: u32 where "ORD_XeLoadSection \<equiv> 327"
abbreviation (input) ORD_XeUnloadSection :: u32 where "ORD_XeUnloadSection \<equiv> 328"
abbreviation (input) ORD_PhyGetLinkState :: u32 where "ORD_PhyGetLinkState \<equiv> 252"
abbreviation (input) ORD_PhyInitialize :: u32 where "ORD_PhyInitialize \<equiv> 253"
abbreviation (input) ORD_XcSHAInit :: u32 where "ORD_XcSHAInit \<equiv> 335"
abbreviation (input) ORD_XcSHAUpdate :: u32 where "ORD_XcSHAUpdate \<equiv> 336"
abbreviation (input) ORD_XcSHAFinal :: u32 where "ORD_XcSHAFinal \<equiv> 337"
abbreviation (input) ORD_XcRC4Key :: u32 where "ORD_XcRC4Key \<equiv> 338"
abbreviation (input) ORD_XcRC4Crypt :: u32 where "ORD_XcRC4Crypt \<equiv> 339"
abbreviation (input) ORD_XcHMAC :: u32 where "ORD_XcHMAC \<equiv> 340"
abbreviation (input) ORD_ExReadWriteRefurbInfo :: u32 where "ORD_ExReadWriteRefurbInfo \<equiv> 25"
abbreviation (input) ORD_ExReleaseReadWriteLock :: u32 where "ORD_ExReleaseReadWriteLock \<equiv> 28"
abbreviation (input) ORD_IoBuildSynchronousFsdRequest :: u32 where "ORD_IoBuildSynchronousFsdRequest \<equiv> 62"
abbreviation (input) ORD_IoInvalidDeviceRequest :: u32 where "ORD_IoInvalidDeviceRequest \<equiv> 74"
abbreviation (input) ORD_IoStartNextPacket :: u32 where "ORD_IoStartNextPacket \<equiv> 81"
abbreviation (input) ORD_IoStartPacket :: u32 where "ORD_IoStartPacket \<equiv> 83"
abbreviation (input) ORD_IoSynchronousDeviceIoControlRequest :: u32 where "ORD_IoSynchronousDeviceIoControlRequest \<equiv> 84"
abbreviation (input) ORD_IoSynchronousFsdRequest :: u32 where "ORD_IoSynchronousFsdRequest \<equiv> 85"
abbreviation (input) ORD_IofCallDriver :: u32 where "ORD_IofCallDriver \<equiv> 86"
abbreviation (input) ORD_IofCompleteRequest :: u32 where "ORD_IofCompleteRequest \<equiv> 87"
abbreviation (input) ORD_KeDisconnectInterrupt :: u32 where "ORD_KeDisconnectInterrupt \<equiv> 100"
abbreviation (input) ORD_KeQueryBasePriorityThread :: u32 where "ORD_KeQueryBasePriorityThread \<equiv> 124"
abbreviation (input) ORD_KeRemoveQueueDpc :: u32 where "ORD_KeRemoveQueueDpc \<equiv> 137"
abbreviation (input) ORD_KeRestoreFloatingPointState :: u32 where "ORD_KeRestoreFloatingPointState \<equiv> 139"
abbreviation (input) ORD_KeSaveFloatingPointState :: u32 where "ORD_KeSaveFloatingPointState \<equiv> 142"
abbreviation (input) ORD_KeSynchronizeExecution :: u32 where "ORD_KeSynchronizeExecution \<equiv> 153"
abbreviation (input) ORD_MmLockUnlockPhysicalPage :: u32 where "ORD_MmLockUnlockPhysicalPage \<equiv> 176"
abbreviation (input) ORD_MmQueryAddressProtect :: u32 where "ORD_MmQueryAddressProtect \<equiv> 179"
abbreviation (input) ORD_MmQueryAllocationSize :: u32 where "ORD_MmQueryAllocationSize \<equiv> 180"
abbreviation (input) ORD_NtDeleteFile :: u32 where "ORD_NtDeleteFile \<equiv> 195"
abbreviation (input) ORD_NtFsControlFile :: u32 where "ORD_NtFsControlFile \<equiv> 200"
abbreviation (input) ORD_NtOpenSymbolicLinkObject :: u32 where "ORD_NtOpenSymbolicLinkObject \<equiv> 203"
abbreviation (input) ORD_NtQueryDirectoryFile :: u32 where "ORD_NtQueryDirectoryFile \<equiv> 207"
abbreviation (input) ORD_NtQuerySymbolicLinkObject :: u32 where "ORD_NtQuerySymbolicLinkObject \<equiv> 215"
abbreviation (input) ORD_NtQueryVirtualMemory :: u32 where "ORD_NtQueryVirtualMemory \<equiv> 217"
abbreviation (input) ORD_NtReleaseMutant :: u32 where "ORD_NtReleaseMutant \<equiv> 221"
abbreviation (input) ORD_NtReleaseSemaphore :: u32 where "ORD_NtReleaseSemaphore \<equiv> 222"
abbreviation (input) ORD_NtResumeThread :: u32 where "ORD_NtResumeThread \<equiv> 224"
abbreviation (input) ORD_NtSetSystemTime :: u32 where "ORD_NtSetSystemTime \<equiv> 228"
abbreviation (input) ORD_NtSignalAndWaitForSingleObjectEx :: u32 where "ORD_NtSignalAndWaitForSingleObjectEx \<equiv> 230"
abbreviation (input) ORD_ObReferenceObjectByName :: u32 where "ORD_ObReferenceObjectByName \<equiv> 247"
abbreviation (input) ORD_RtlCompareMemoryUlong :: u32 where "ORD_RtlCompareMemoryUlong \<equiv> 269"
abbreviation (input) ORD_RtlRaiseException :: u32 where "ORD_RtlRaiseException \<equiv> 302"
abbreviation (input) ORD_RtlTimeFieldsToTime :: u32 where "ORD_RtlTimeFieldsToTime \<equiv> 304"
abbreviation (input) ORD_RtlTimeToTimeFields :: u32 where "ORD_RtlTimeToTimeFields \<equiv> 305"
abbreviation (input) ORD_RtlUnwind :: u32 where "ORD_RtlUnwind \<equiv> 312"
abbreviation (input) ORD_RtlUpcaseUnicodeChar :: u32 where "ORD_RtlUpcaseUnicodeChar \<equiv> 313"
abbreviation (input) ORD_XcVerifyPKCS1Signature :: u32 where "ORD_XcVerifyPKCS1Signature \<equiv> 344"
abbreviation (input) ORD_XcModExp :: u32 where "ORD_XcModExp \<equiv> 345"
abbreviation (input) ORD_HalIsResetOrShutdownPending :: u32 where "ORD_HalIsResetOrShutdownPending \<equiv> 358"
abbreviation (input) ORD_IoMarkIrpMustComplete :: u32 where "ORD_IoMarkIrpMustComplete \<equiv> 359"
abbreviation (input) ORD_HalInitiateShutdown :: u32 where "ORD_HalInitiateShutdown \<equiv> 360"
abbreviation (input) ORD_HalEnableSecureTrayEject :: u32 where "ORD_HalEnableSecureTrayEject \<equiv> 365"
abbreviation (input) ORD_XcDESKeyParity :: u32 where "ORD_XcDESKeyParity \<equiv> 346"
abbreviation (input) ORD_XcKeyTable :: u32 where "ORD_XcKeyTable \<equiv> 347"
abbreviation (input) ORD_XcBlockCrypt :: u32 where "ORD_XcBlockCrypt \<equiv> 348"
abbreviation (input) ORD_XcBlockCryptCBC :: u32 where "ORD_XcBlockCryptCBC \<equiv> 349"
abbreviation (input) ORD_HalBootSMCVideoMode :: u32 where "ORD_HalBootSMCVideoMode \<equiv> 356"

end
