(* ===== verification/Hle_Kernel.thy ===== *)
theory Hle_Kernel
  imports Hle_Ordinals Xbe_Heap Interrupts Pe_Loader
begin

text \<open>
  The high-level kernel (\<open>src/src/xbox/hle/hle_kernel.hpp\<close>): the calling convention, the calls that only
  return a constant, and the calls for memory, threads, deferred calls, synchronisation and information.

  A call works on the machine and the kernel's heap.  \<open>None\<close> is an access outside guest memory.  The code
  compares 32-bit sums with the size of guest memory, so the check passes for a structure that starts
  just below 4 GB; then the access is outside.  Messages are left out.
\<close>

type_synonym hle_state = "machine \<times> xbe_heap"

text \<open>The world a call can see: the host's files, its time-stamp counter, the registered ports.\<close>

record hle_env =
  he_disk :: disk
  he_tsc :: u64
  he_ports :: "xbox io_entry list"

section \<open>Guest memory\<close>

definition ram_fits :: "u32 \<Rightarrow> u32 \<Rightarrow> bool" where
  "ram_fits p n \<longleftrightarrow> p + n \<le> of_nat GUEST_RAM_SIZE"

definition on_mem :: "(bytes \<Rightarrow> bytes option) \<Rightarrow> hle_state \<Rightarrow> hle_state option" where
  "on_mem f = (\<lambda>(m, h). map_option (\<lambda>b. (set_mem b m, h)) (f (ram m)))"

definition if_fits :: "u32 \<Rightarrow> u32 \<Rightarrow> (bytes \<Rightarrow> bytes option) \<Rightarrow> bytes \<Rightarrow> bytes option" where
  "if_fits p n f m = (if ram_fits p n then f m else Some m)"

text \<open>Fields of a structure at \<open>p\<close>: offset, width and value of each \<open>memcpy\<close>.\<close>

primrec store_fields :: "(nat \<times> nat \<times> u32) list \<Rightarrow> u32 \<Rightarrow> bytes \<Rightarrow> bytes option" where
  "store_fields [] p m = Some m"
| "store_fields (x # xs) p m =
     (case x of (off, n, v) \<Rightarrow> Option.bind (wr GUEST_RAM_SIZE n m (unat p + off) v) (store_fields xs p))"

definition field64 :: "nat \<Rightarrow> u64 \<Rightarrow> (nat \<times> nat \<times> u32) list" where
  "field64 off v = [(off, 4, ucast v), (off + 4, 4, ucast (drop_bit 32 v))]"

definition ram_fill :: "u32 \<Rightarrow> u32 \<Rightarrow> u8 \<Rightarrow> bytes \<Rightarrow> bytes option" where
  "ram_fill p n v m = fill_in GUEST_RAM_SIZE (unat n) v m (unat p)"

text \<open>\<open>if (p + 4 <= GUEST_RAM_SIZE) memcpy(ram + p, &v, 4)\<close>, and the load, which leaves 0.\<close>

definition out32 :: "u32 \<Rightarrow> u32 \<Rightarrow> bytes \<Rightarrow> bytes option" where
  "out32 p v = if_fits p 4 (store_fields [(0, 4, v)] p)"

definition in32 :: "u32 \<Rightarrow> bytes \<Rightarrow> u32 option" where
  "in32 p m = (if ram_fits p 4 then rd GUEST_RAM_SIZE 4 m (unat p) else Some 0)"

definition load64 :: "bytes \<Rightarrow> u32 \<Rightarrow> u64 option" where
  "load64 m p = do {
     lo \<leftarrow> rd GUEST_RAM_SIZE 4 m (unat p);
     hi \<leftarrow> rd GUEST_RAM_SIZE 4 m (unat p + 4);
     Some (ucast lo OR push_bit 32 (ucast hi))
   }"

section \<open>The calling convention\<close>

definition stack_arg :: "nat \<Rightarrow> hle_state \<Rightarrow> u32 option" where
  "stack_arg i s = in32 (reg GP_ESP (fst s) + 4 + of_nat i * 4) (ram (fst s))"

definition stdcall_cleanup :: "nat \<Rightarrow> hle_state \<Rightarrow> hle_state option" where
  "stdcall_cleanup n s =
     (if n = 0 then Some s
      else do {
        let esp = reg GP_ESP (fst s);
        ret_addr \<leftarrow> in32 esp (ram (fst s));
        let new_esp = esp + 4 * of_nat n;
        on_mem (out32 new_esp ret_addr) (set_reg GP_ESP new_esp (fst s), snd s)
      })"

definition ret_eax :: "u32 \<Rightarrow> hle_state \<Rightarrow> hle_state" where
  "ret_eax v = (\<lambda>(m, h). (set_reg GP_EAX v m, h))"

definition halt_cpu :: "hle_state \<Rightarrow> hle_state" where
  "halt_cpu = (\<lambda>(m, h). (upd_ctx (\<lambda>c. c\<lparr>halted := True\<rparr>) m, h))"

definition leave_call :: "u32 \<Rightarrow> nat \<Rightarrow> hle_state \<Rightarrow> hle_state option" where
  "leave_call v n s = stdcall_cleanup n (ret_eax v s)"

section \<open>Calls that return a constant\<close>

text \<open>The value for EAX when there is one, the number of arguments, and whether the processor is halted.\<close>

datatype hle_stub = Stub (stub_ordinal: u32) (stub_result: "u32 option") (stub_args: nat) (stub_halts: bool)

definition run_stub :: "hle_stub \<Rightarrow> hle_state \<Rightarrow> hle_state option" where
  "run_stub b s =
     map_option (\<lambda>s. if stub_halts b then halt_cpu s else s)
       (stdcall_cleanup (stub_args b) (case stub_result b of Some v \<Rightarrow> ret_eax v s | None \<Rightarrow> s))"

definition display_stubs :: "hle_stub list" where
  "display_stubs =
     [Stub ORD_AvGetSavedDataAddress (Some 0) 0 False,
      Stub ORD_AvSetDisplayMode None 6 False,
      Stub ORD_AvSetSavedDataAddress None 1 False,
      Stub ORD_DbgPrint (Some 0) 0 False]"

definition free_stubs :: "hle_stub list" where
  "free_stubs =
     [Stub ORD_ExFreePool None 1 False,
      Stub ORD_MmFreeContiguousMemory None 1 False,
      Stub ORD_MmPersistContiguousMemory None 3 False]"

definition free_virtual_stubs :: "hle_stub list" where
  "free_virtual_stubs =
     [Stub ORD_NtFreeVirtualMemory (Some 0) 4 False]"

definition smbus_write_stubs :: "hle_stub list" where
  "smbus_write_stubs =
     [Stub ORD_HalWriteSMBusValue (Some 0) 4 False,
      Stub ORD_HalRegisterShutdownNotification None 2 False]"

definition timer_stubs :: "hle_stub list" where
  "timer_stubs =
     [Stub ORD_KeGetCurrentThread (Some 0x00060000) 0 False,
      Stub ORD_KeCancelTimer (Some 0) 1 False]"

definition section_stubs :: "hle_stub list" where
  "section_stubs =
     [Stub ORD_XeLoadSection (Some 0) 1 False]"

definition ke_object_stubs :: "hle_stub list" where
  "ke_object_stubs =
     [Stub ORD_ExQueryPoolBlockSize (Some 0x1000) 1 False,
      Stub ORD_KeInitializeEvent None 3 False,
      Stub ORD_KeInitializeMutant None 2 False,
      Stub ORD_KeInitializeSemaphore None 3 False,
      Stub ORD_KeInitializeTimerEx None 2 False,
      Stub ORD_KeSetEvent (Some 0) 3 False,
      Stub ORD_KeResetEvent (Some 0) 1 False,
      Stub ORD_KeReleaseMutant (Some 0) 2 False,
      Stub ORD_KeReleaseSemaphore (Some 0) 4 False,
      Stub ORD_KeWaitForSingleObject (Some 0) 5 True,
      Stub ORD_KeWaitForMultipleObjects (Some 0) 8 True]"

definition nt_object_stubs :: "hle_stub list" where
  "nt_object_stubs =
     [Stub ORD_NtSetEvent (Some 0) 2 False,
      Stub ORD_NtClearEvent (Some 0) 1 False,
      Stub ORD_NtWaitForSingleObject (Some 0) 3 True,
      Stub ORD_NtWaitForMultipleObjectsEx (Some 0) 5 True]"

definition dereference_stubs :: "hle_stub list" where
  "dereference_stubs =
     [Stub ORD_ObfDereferenceObject None 1 False]"

definition unmap_stubs :: "hle_stub list" where
  "unmap_stubs =
     [Stub ORD_MmUnmapIoSpace None 2 False]"

definition device_stubs :: "hle_stub list" where
  "device_stubs =
     [Stub ORD_IoCreateSymbolicLink (Some 0) 2 False,
      Stub ORD_IoDeleteDevice None 1 False,
      Stub ORD_IoDeleteSymbolicLink (Some 0) 1 False,
      Stub ORD_KeGetCurrentIrql (Some 0) 0 False,
      Stub ORD_KeDelayExecutionThread (Some 0) 3 True,
      Stub ORD_KeEnterCriticalRegion None 0 False]"

definition interrupt_stubs :: "hle_stub list" where
  "interrupt_stubs =
     [Stub ORD_KeConnectInterrupt (Some 1) 1 False,
      Stub ORD_KeInitializeInterrupt None 7 False,
      Stub ORD_KeStallExecutionProcessor None 1 False]"

definition irql_stubs :: "hle_stub list" where
  "irql_stubs =
     [Stub ORD_KeRaiseIrqlToDpcLevel (Some 0) 0 False,
      Stub ORD_KfLowerIrql None 0 False,
      Stub ORD_MmLockUnlockBufferPages None 3 False,
      Stub ORD_KeBugCheck None 0 True,
      Stub ORD_KeBugCheckEx None 5 True]"

definition dismount_stubs :: "hle_stub list" where
  "dismount_stubs =
     [Stub ORD_IoDismountVolumeByName (Some 0) 1 False]"

definition lock_stubs :: "hle_stub list" where
  "lock_stubs =
     [Stub ORD_ExInitializeReadWriteLock None 1 False,
      Stub ORD_FscSetCacheSize (Some 0) 1 False,
      Stub ORD_NtDeviceIoControlFile (Some 0) 10 False]"

definition stack_stubs :: "hle_stub list" where
  "stack_stubs =
     [Stub ORD_MmDeleteKernelStack None 2 False]"

definition free_system_stubs :: "hle_stub list" where
  "free_system_stubs =
     [Stub ORD_MmFreeSystemMemory (Some 0) 2 False]"

definition yield_stubs :: "hle_stub list" where
  "yield_stubs =
     [Stub ORD_MmSetAddressProtect None 3 False,
      Stub ORD_NtYieldExecution (Some 0) 0 True,
      Stub ORD_NtFlushBuffersFile (Some 0) 2 False]"

definition reference_stubs :: "hle_stub list" where
  "reference_stubs =
     [Stub ORD_ObfReferenceObject None 1 False]"

definition free_string_stubs :: "hle_stub list" where
  "free_string_stubs =
     [Stub ORD_RtlFreeAnsiString None 1 False,
      Stub ORD_RtlFreeUnicodeString None 1 False]"

definition region_stubs :: "hle_stub list" where
  "region_stubs =
     [Stub ORD_KeLeaveCriticalRegion None 0 False,
      Stub ORD_KeInitializeQueue None 2 False,
      Stub ORD_ExSaveNonVolatileSetting (Some 0) 4 False]"

definition wait_stubs :: "hle_stub list" where
  "wait_stubs =
     [Stub ORD_NtWaitForSingleObjectEx (Some 0) 4 True,
      Stub ORD_XeUnloadSection (Some 0) 1 False,
      Stub ORD_IoDismountVolume (Some 0) 1 False,
      Stub ORD_AvSendTVEncoderOption None 4 False,
      Stub ORD_DbgBreakPoint None 0 False,
      Stub ORD_ExAcquireReadWriteLockExclusive None 1 False,
      Stub ORD_ExAcquireReadWriteLockShared None 1 False]"

definition apc_stubs :: "hle_stub list" where
  "apc_stubs =
     [Stub ORD_KeInitializeApc None 7 False]"

definition priority_stubs :: "hle_stub list" where
  "priority_stubs =
     [Stub ORD_KeSetBasePriorityThread (Some 0) 2 False,
      Stub ORD_KfRaiseIrql (Some 0) 0 False,
      Stub ORD_KiUnlockDispatcherDatabase None 0 False]"

definition io_manager_stubs :: "hle_stub list" where
  "io_manager_stubs =
     [Stub ORD_IoBuildSynchronousFsdRequest (Some 0) 6 False,
      Stub ORD_IoInvalidDeviceRequest (Some 0xC0000010) 2 False,
      Stub ORD_IoStartNextPacket None 2 False,
      Stub ORD_IoStartPacket None 4 False,
      Stub ORD_IoSynchronousDeviceIoControlRequest (Some 0) 7 False,
      Stub ORD_IoSynchronousFsdRequest (Some 0) 4 False,
      Stub ORD_IofCallDriver (Some 0) 0 False,
      Stub ORD_IofCompleteRequest None 0 False,
      Stub ORD_IoMarkIrpMustComplete (Some 0) 1 False,
      Stub ORD_KeDisconnectInterrupt None 1 False,
      Stub ORD_KeQueryBasePriorityThread (Some 8) 1 False,
      Stub ORD_KeRemoveQueueDpc (Some 0) 1 False,
      Stub ORD_KeRestoreFloatingPointState (Some 0) 1 False,
      Stub ORD_KeSaveFloatingPointState (Some 0) 1 False,
      Stub ORD_KeSynchronizeExecution (Some 1) 3 False,
      Stub ORD_MmLockUnlockPhysicalPage (Some 0) 2 False,
      Stub ORD_MmQueryAddressProtect (Some 0x04) 1 False,
      Stub ORD_MmQueryAllocationSize (Some 0x1000) 1 False,
      Stub ORD_NtDeleteFile (Some 0) 1 False,
      Stub ORD_NtFsControlFile (Some 0xC0000002) 10 False,
      Stub ORD_NtOpenSymbolicLinkObject (Some 0xC0000034) 2 False]"

definition link_stubs :: "hle_stub list" where
  "link_stubs =
     [Stub ORD_NtQuerySymbolicLinkObject (Some 0xC0000008) 3 False]"

definition mutant_stubs :: "hle_stub list" where
  "mutant_stubs =
     [Stub ORD_NtReleaseMutant (Some 0) 2 False]"

definition time_stubs :: "hle_stub list" where
  "time_stubs =
     [Stub ORD_NtSetSystemTime (Some 0) 2 False,
      Stub ORD_NtSignalAndWaitForSingleObjectEx (Some 0) 5 False,
      Stub ORD_ObReferenceObjectByName (Some 0xC0000034) 8 False,
      Stub ORD_ExReadWriteRefurbInfo (Some 0) 3 False,
      Stub ORD_ExReleaseReadWriteLock None 1 False,
      Stub ORD_HalIsResetOrShutdownPending (Some 0) 0 False,
      Stub ORD_HalInitiateShutdown None 0 True,
      Stub ORD_HalEnableSecureTrayEject None 0 False]"

definition exception_stubs :: "hle_stub list" where
  "exception_stubs =
     [Stub ORD_RtlRaiseException None 1 True]"

definition unwind_stubs :: "hle_stub list" where
  "unwind_stubs =
     [Stub ORD_RtlUnwind None 4 False]"

definition signature_stubs :: "hle_stub list" where
  "signature_stubs =
     [Stub ORD_XcVerifyPKCS1Signature (Some 1) 3 False]"

definition network_stubs :: "hle_stub list" where
  "network_stubs =
     [Stub ORD_PhyGetLinkState (Some 0) 1 False,
      Stub ORD_PhyInitialize (Some 0) 1 False]"

definition hle_stubs :: "hle_stub list" where
  "hle_stubs = concat [display_stubs, free_stubs, free_virtual_stubs, smbus_write_stubs, timer_stubs, section_stubs, ke_object_stubs, nt_object_stubs, dereference_stubs, unmap_stubs, device_stubs, interrupt_stubs, irql_stubs, dismount_stubs, lock_stubs, stack_stubs, free_system_stubs, yield_stubs, reference_stubs, free_string_stubs, region_stubs, wait_stubs, apc_stubs, priority_stubs, io_manager_stubs, link_stubs, mutant_stubs, time_stubs, exception_stubs, unwind_stubs, signature_stubs, network_stubs]"

section \<open>Memory\<close>

text \<open>\<open>heap->alloc(n, align)\<close>, and \<open>memset(ram + addr, 0, clear)\<close> when it succeeds.\<close>

definition alloc_clear :: "u32 \<Rightarrow> u32 \<Rightarrow> u32 \<Rightarrow> hle_state \<Rightarrow> (u32 \<times> hle_state) option" where
  "alloc_clear n align clear = (\<lambda>(m, h).
     let (a, h) = heap_alloc n align h in
     if a \<noteq> 0 then map_option (Pair a) (on_mem (ram_fill a clear 0) (m, h)) else Some (0, (m, h)))"

definition allocate_contiguous :: "hle_state \<Rightarrow> hle_state option" where
  "allocate_contiguous s = do {
     n \<leftarrow> stack_arg 0 s;
     (a, s) \<leftarrow> alloc_clear n 0x1000 n s;
     leave_call a 1 s
   }"

definition allocate_contiguous_ex :: "hle_state \<Rightarrow> hle_state option" where
  "allocate_contiguous_ex s = do {
     n \<leftarrow> stack_arg 0 s;
     align \<leftarrow> stack_arg 3 s;
     (a, s) \<leftarrow> alloc_clear n (if align < 0x1000 then 0x1000 else align) n s;
     leave_call a 5 s
   }"

definition allocate_pool_with_tag :: "hle_state \<Rightarrow> hle_state option" where
  "allocate_pool_with_tag s = do {
     n \<leftarrow> stack_arg 0 s;
     (a, s) \<leftarrow> alloc_clear n 0x1000 n s;
     leave_call a 2 s
   }"

definition get_physical_address :: "hle_state \<Rightarrow> hle_state option" where
  "get_physical_address s = Option.bind (stack_arg 0 s) (\<lambda>va. leave_call va 1 s)"

definition allocate_virtual_memory :: "hle_state \<Rightarrow> hle_state option" where
  "allocate_virtual_memory s = do {
     base_ptr \<leftarrow> stack_arg 0 s;
     size_ptr \<leftarrow> stack_arg 2 s;
     n \<leftarrow> in32 size_ptr (ram (fst s));
     let (a, h) = heap_alloc n 0x1000 (snd s);
     let s = (fst s, h);
     s \<leftarrow> (if a \<noteq> 0 \<and> ram_fits base_ptr 4
           then on_mem (\<lambda>m. Option.bind (store_fields [(0, 4, a)] base_ptr m) (ram_fill a n 0)) s else Some s);
     s \<leftarrow> (if a \<noteq> 0 then on_mem (out32 size_ptr n) s else Some s);
     leave_call (if a \<noteq> 0 then 0 else 0xC0000017) 5 s
   }"

definition map_io_space :: "hle_state \<Rightarrow> hle_state option" where
  "map_io_space s = Option.bind (stack_arg 0 s) (\<lambda>phys. leave_call phys 4 s)"

definition claim_gpu_instance_memory :: "hle_state \<Rightarrow> hle_state option" where
  "claim_gpu_instance_memory s = do {
     n \<leftarrow> stack_arg 0 s;
     pad_ptr \<leftarrow> stack_arg 1 s;
     let claimed = (if n > 0 then n else 0x1000);
     (a, s) \<leftarrow> alloc_clear claimed 0x1000 n s;
     (m, h) \<leftarrow> on_mem (out32 pad_ptr 0) s;
     let h = h\<lparr>gpu_instance_base := a, gpu_instance_size := claimed\<rparr>;
     let m = (if nv2a_linked h
              then m\<lparr>hw := set_nv ((nv (hw_env (hw m)))\<lparr>pramin_ram := True, pramin_ram_base := a,
                pramin_ram_size := claimed\<rparr>) (hw m)\<rparr> else m);
     leave_call a 2 (m, h)
   }"

definition create_kernel_stack :: "hle_state \<Rightarrow> hle_state option" where
  "create_kernel_stack s = do {
     n \<leftarrow> stack_arg 0 s;
     let n = (if n = 0 then 0x10000 else n);
     let (a, h) = heap_alloc n 0x1000 (snd s);
     leave_call (if a \<noteq> 0 then a + n else 0) 2 (fst s, h)
   }"

definition allocate_system_memory :: "hle_state \<Rightarrow> hle_state option" where
  "allocate_system_memory s = do {
     n \<leftarrow> stack_arg 0 s;
     (a, s) \<leftarrow> alloc_clear (if n > 0 then n else 0x1000) 0x1000 n s;
     leave_call a 2 s
   }"

definition is_address_valid :: "hle_state \<Rightarrow> hle_state option" where
  "is_address_valid s = Option.bind (stack_arg 0 s) (\<lambda>va. leave_call (if va < of_nat GUEST_RAM_SIZE then 1 else 0) 1 s)"

definition query_statistics :: "hle_state \<Rightarrow> hle_state option" where
  "query_statistics s = do {
     p \<leftarrow> stack_arg 0 s;
     let total = of_nat (GUEST_RAM_SIZE div 0x1000);
     s \<leftarrow> on_mem (if_fits p 0x24 (\<lambda>m. Option.bind (ram_fill p 0x24 0 m)
       (store_fields [(0x04, 4, total), (0x0C, 4, total div 2)] p))) s;
     leave_call 0 1 s
   }"

definition query_virtual_memory :: "hle_state \<Rightarrow> hle_state option" where
  "query_virtual_memory s = do {
     info_ptr \<leftarrow> stack_arg 1 s;
     info_len \<leftarrow> stack_arg 2 s;
     s \<leftarrow> (if ram_fits info_ptr info_len \<and> info_len \<ge> 28 then do {
            s \<leftarrow> on_mem (ram_fill info_ptr info_len 0) s;
            va \<leftarrow> stack_arg 0 s;
            let base = va AND NOT 0xFFF;
            on_mem (store_fields [(0, 4, base), (4, 4, base), (8, 4, 0x04), (12, 4, 0x1000), (16, 4, 0x1000),
              (20, 4, 0x04), (24, 4, 0x20000)] info_ptr) s
          } else Some s);
     leave_call 0 4 s
   }"

section \<open>Handles\<close>

definition nt_close :: "hle_state \<Rightarrow> hle_state option" where
  "nt_close s = do {
     n \<leftarrow> stack_arg 0 s;
     leave_call 0 1 (fst s, snd (close_host_file n (snd s)))
   }"

text \<open>The three calls that make an object all give out a handle of their own.\<close>

definition create_fake_handle :: "u32 \<Rightarrow> nat \<Rightarrow> hle_state \<Rightarrow> hle_state option" where
  "create_fake_handle v n s = do {
     handle_ptr \<leftarrow> stack_arg 0 s;
     s \<leftarrow> on_mem (out32 handle_ptr v) s;
     leave_call 0 n s
   }"

definition nt_create_event :: "hle_state \<Rightarrow> hle_state option" where
  "nt_create_event = create_fake_handle 0x100 5"

definition nt_create_mutant :: "hle_state \<Rightarrow> hle_state option" where
  "nt_create_mutant = create_fake_handle 0x104 4"

definition nt_create_semaphore :: "hle_state \<Rightarrow> hle_state option" where
  "nt_create_semaphore = create_fake_handle 0x108 5"

definition reference_object_by_handle :: "hle_state \<Rightarrow> hle_state option" where
  "reference_object_by_handle s = do {
     obj_out \<leftarrow> stack_arg 4 s;
     s \<leftarrow> (if ram_fits obj_out 4 then do {
            (a, s) \<leftarrow> alloc_clear 0x100 0x1000 0x100 s;
            on_mem (store_fields [(0, 4, a)] obj_out) s
          } else Some s);
     leave_call 0 6 s
   }"

definition duplicate_object :: "hle_state \<Rightarrow> hle_state option" where
  "duplicate_object s = do {
     source \<leftarrow> stack_arg 0 s;
     target_ptr \<leftarrow> stack_arg 1 s;
     s \<leftarrow> on_mem (out32 target_ptr source) s;
     leave_call 0 3 s
   }"

definition io_create_device :: "hle_state \<Rightarrow> hle_state option" where
  "io_create_device s = do {
     ext_size \<leftarrow> stack_arg 1 s;
     dev_obj_pp \<leftarrow> stack_arg 5 s;
     (a, s) \<leftarrow> alloc_clear (0xB8 + ext_size) 0x1000 (0xB8 + ext_size) s;
     s \<leftarrow> on_mem (out32 dev_obj_pp a) s;
     s \<leftarrow> (if a \<noteq> 0 \<and> ram_fits a 0x2C
           then on_mem (store_fields [(0x28, 4, if ext_size > 0 then a + 0xB8 else 0)] a) s else Some s);
     leave_call 0 6 s
   }"

definition io_create_file :: "hle_state \<Rightarrow> hle_state option" where
  "io_create_file s = do {
     handle_ptr \<leftarrow> stack_arg 0 s;
     let (n, h) = take_handle (snd s);
     s \<leftarrow> on_mem (out32 handle_ptr n) (fst s, h);
     leave_call 0 14 s
   }"

section \<open>Information\<close>

definition read_smbus_value :: "hle_state \<Rightarrow> hle_state option" where
  "read_smbus_value s = do {
     data_ptr \<leftarrow> stack_arg 3 s;
     s \<leftarrow> on_mem (out32 data_ptr 0) s;
     leave_call 0 4 s
   }"

definition setting_value :: "u32 \<Rightarrow> u32" where
  "setting_value i =
     (if i = 0x04 then 0x00000100 else if i = 0x07 then 1 else if i = 0x103 then 0x00000100
      else if i = 0x104 then 0x00000001 else 0)"

definition query_nonvolatile_setting :: "hle_state \<Rightarrow> hle_state option" where
  "query_nonvolatile_setting s = do {
     value_index \<leftarrow> stack_arg 0 s;
     type_ptr \<leftarrow> stack_arg 1 s;
     value_ptr \<leftarrow> stack_arg 2 s;
     value_len \<leftarrow> stack_arg 3 s;
     result_ptr \<leftarrow> stack_arg 4 s;
     s \<leftarrow> on_mem (out32 type_ptr 4) s;
     s \<leftarrow> on_mem (if 4 \<le> value_len then out32 value_ptr (setting_value value_index) else Some) s;
     s \<leftarrow> on_mem (out32 result_ptr 4) s;
     leave_call 0 5 s
   }"

definition dos_errors :: "(u32 \<times> u32) list" where
  "dos_errors = [(0x00000000, 0), (0xC0000034, 2), (0xC000003A, 3), (0xC0000035, 183), (0xC0000022, 5),
     (0xC0000008, 6), (0xC000000D, 87), (0xC0000017, 8), (0xC0000002, 1)]"

definition dos_error :: "u32 \<Rightarrow> u32" where
  "dos_error status =
     (case map_of dos_errors status of Some e \<Rightarrow> e | None \<Rightarrow> if drop_bit 30 status \<noteq> 0 then 317 else 0)"

definition nt_status_to_dos_error :: "hle_state \<Rightarrow> hle_state option" where
  "nt_status_to_dos_error s = Option.bind (stack_arg 0 s) (\<lambda>status. leave_call (dos_error status) 1 s)"

definition read_tray_state :: "hle_state \<Rightarrow> hle_state option" where
  "read_tray_state s = do {
     state_ptr \<leftarrow> stack_arg 0 s;
     count_ptr \<leftarrow> stack_arg 1 s;
     s \<leftarrow> on_mem (out32 state_ptr 0x10) s;
     s \<leftarrow> on_mem (out32 count_ptr 0) s;
     leave_call 0 2 s
   }"

definition get_interrupt_vector :: "hle_state \<Rightarrow> hle_state option" where
  "get_interrupt_vector s = do {
     irql_ptr \<leftarrow> stack_arg 1 s;
     s \<leftarrow> on_mem (out32 irql_ptr 0) s;
     level \<leftarrow> stack_arg 0 s;
     leave_call (level + 0x30) 2 s
   }"

text \<open>The dump of the stack reads frames along EBP, then words from ESP.\<close>

primrec walk_frames :: "nat \<Rightarrow> u32 \<Rightarrow> bytes \<Rightarrow> unit option" where
  "walk_frames 0 ebp m = Some ()"
| "walk_frames (Suc k) ebp m =
     (if ebp > 0 \<and> ram_fits ebp 8 then do {
        saved \<leftarrow> rd GUEST_RAM_SIZE 4 m (unat ebp);
        ret_addr \<leftarrow> rd GUEST_RAM_SIZE 4 m (unat ebp + 4);
        if saved \<le> ebp then Some () else walk_frames k saved m
      } else Some ())"

primrec walk_stack :: "nat \<Rightarrow> u32 \<Rightarrow> bytes \<Rightarrow> unit option" where
  "walk_stack 0 p m = Some ()"
| "walk_stack (Suc k) p m =
     (if ram_fits p 4 then Option.bind (rd GUEST_RAM_SIZE 4 m (unat p)) (\<lambda>_. walk_stack k (p + 4) m) else Some ())"

definition stop_thread :: "hle_state \<Rightarrow> hle_state" where
  "stop_thread = (\<lambda>(m, h). (upd_ctx (\<lambda>c. c\<lparr>eip := 0xFFFFFFFF, halted := True\<rparr>) m, h))"

definition return_to_firmware :: "hle_state \<Rightarrow> hle_state option" where
  "return_to_firmware s = do {
     reason \<leftarrow> stack_arg 0 s;
     _ \<leftarrow> walk_frames 10 (reg GP_EBP (fst s)) (ram (fst s));
     _ \<leftarrow> walk_stack 16 (reg GP_ESP (fst s)) (ram (fst s));
     map_option stop_thread (stdcall_cleanup 1 s)
   }"

definition query_performance_counter :: "hle_env \<Rightarrow> hle_state \<Rightarrow> hle_state option" where
  "query_performance_counter env = (\<lambda>(m, h).
     Some (set_reg GP_EDX (ucast (drop_bit 32 (he_tsc env))) (set_reg GP_EAX (ucast (he_tsc env)) m), h))"

definition query_performance_frequency :: "hle_state \<Rightarrow> hle_state option" where
  "query_performance_frequency = (\<lambda>(m, h).
     let freq = 733333333 :: u64 in
     Some (set_reg GP_EDX (ucast (drop_bit 32 freq)) (set_reg GP_EAX (ucast freq) m), h))"

definition query_system_time :: "hle_env \<Rightarrow> hle_state \<Rightarrow> hle_state option" where
  "query_system_time env s = do {
     p \<leftarrow> stack_arg 0 s;
     s \<leftarrow> on_mem (if_fits p 8 (store_fields (field64 0 (he_tsc env div 10)) p)) s;
     stdcall_cleanup 1 s
   }"

definition time_fields_to_time :: "hle_state \<Rightarrow> hle_state option" where
  "time_fields_to_time s = do {
     p \<leftarrow> stack_arg 1 s;
     s \<leftarrow> on_mem (if_fits p 8 (store_fields (field64 0 127488000000000000) p)) s;
     leave_call 1 2 s
   }"

definition time_to_time_fields :: "hle_state \<Rightarrow> hle_state option" where
  "time_to_time_fields s = do {
     p \<leftarrow> stack_arg 1 s;
     s \<leftarrow> on_mem (if_fits p 16 (\<lambda>m. Option.bind (ram_fill p 16 0 m)
       (store_fields [(0, 2, 2004), (2, 2, 1), (4, 2, 1)] p))) s;
     stdcall_cleanup 2 s
   }"

section \<open>Threads and deferred calls\<close>

definition initialize_dpc :: "hle_state \<Rightarrow> hle_state option" where
  "initialize_dpc s = do {
     p \<leftarrow> stack_arg 0 s;
     routine \<leftarrow> stack_arg 1 s;
     start_ctx \<leftarrow> stack_arg 2 s;
     s \<leftarrow> on_mem (if_fits p 0x1C (\<lambda>m. Option.bind (ram_fill p 0x1C 0 m)
       (store_fields [(0, 1, 19), (0x0C, 4, routine), (0x10, 4, start_ctx)] p))) s;
     stdcall_cleanup 3 s
   }"

text \<open>What the object at \<open>p\<close> asks to be run; no routine, nothing to run.\<close>

definition queue_dpc :: "u32 \<Rightarrow> u32 \<Rightarrow> hle_state \<Rightarrow> hle_state option" where
  "queue_dpc p timer_va s =
     (if ram_fits p 0x1C then do {
        routine \<leftarrow> rd GUEST_RAM_SIZE 4 (ram (fst s)) (unat p + 0x0C);
        start_ctx \<leftarrow> rd GUEST_RAM_SIZE 4 (ram (fst s)) (unat p + 0x10);
        Some (fst s, if routine \<noteq> 0 then (snd s)\<lparr>pending_dpcs := pending_dpcs (snd s) @
          [\<lparr>dpc_routine = routine, dpc_context = start_ctx, dpc_va = p, dpc_timer_va = timer_va\<rparr>]\<rparr> else snd s)
      } else Some s)"

definition set_timer :: "hle_state \<Rightarrow> hle_state option" where
  "set_timer s = do {
     timer_va \<leftarrow> stack_arg 0 s;
     p \<leftarrow> stack_arg 3 s;
     s \<leftarrow> (if p \<noteq> 0 then queue_dpc p timer_va s else Some s);
     leave_call 0 4 s
   }"

definition set_timer_ex :: "hle_state \<Rightarrow> hle_state option" where
  "set_timer_ex s = do {
     timer_va \<leftarrow> stack_arg 0 s;
     p \<leftarrow> stack_arg 4 s;
     s \<leftarrow> (if p \<noteq> 0 then queue_dpc p timer_va s else Some s);
     leave_call 0 5 s
   }"

definition insert_queue_dpc :: "hle_state \<Rightarrow> hle_state option" where
  "insert_queue_dpc s = do {
     p \<leftarrow> stack_arg 0 s;
     s \<leftarrow> queue_dpc p 0 s;
     leave_call 1 3 s
   }"

definition queue_thread :: "u32 \<Rightarrow> u32 \<Rightarrow> hle_state \<Rightarrow> hle_state" where
  "queue_thread routine start_ctx = (\<lambda>(m, h). (m, h\<lparr>pending_threads := pending_threads h @
     [\<lparr>start_routine = routine, start_context = start_ctx\<rparr>]\<rparr>))"

definition create_system_thread :: "hle_state \<Rightarrow> hle_state option" where
  "create_system_thread s = do {
     handle_ptr \<leftarrow> stack_arg 0 s;
     routine \<leftarrow> stack_arg 5 s;
     start_ctx \<leftarrow> stack_arg 6 s;
     let (n, h) = take_handle (snd s);
     s \<leftarrow> on_mem (out32 handle_ptr n) (fst s, h);
     leave_call 0 7 (queue_thread routine start_ctx s)
   }"

definition create_system_thread_ex :: "hle_state \<Rightarrow> hle_state option" where
  "create_system_thread_ex s = do {
     handle_ptr \<leftarrow> stack_arg 0 s;
     tid_ptr \<leftarrow> stack_arg 4 s;
     routine \<leftarrow> stack_arg 5 s;
     start_ctx \<leftarrow> stack_arg 6 s;
     let (n, h) = take_handle (snd s);
     s \<leftarrow> on_mem (out32 handle_ptr n) (fst s, h);
     s \<leftarrow> (if tid_ptr \<noteq> 0 then on_mem (out32 tid_ptr n) s else Some s);
     leave_call 0 10 (queue_thread routine start_ctx s)
   }"

definition terminate_system_thread :: "hle_state \<Rightarrow> hle_state option" where
  "terminate_system_thread s = map_option (\<lambda>s. ret_eax 0 (stop_thread s)) (stdcall_cleanup 1 s)"

text \<open>\<open>NtReleaseSemaphore\<close> and \<open>NtResumeThread\<close> report a previous count of 0.\<close>

definition out32_unless_null :: "u32 \<Rightarrow> u32 \<Rightarrow> bytes \<Rightarrow> bytes option" where
  "out32_unless_null p v = (if p \<noteq> 0 then out32 p v else Some)"

definition release_semaphore :: "hle_state \<Rightarrow> hle_state option" where
  "release_semaphore s = do {
     prev_ptr \<leftarrow> stack_arg 2 s;
     s \<leftarrow> on_mem (out32_unless_null prev_ptr 0) s;
     leave_call 0 3 s
   }"

definition resume_thread :: "hle_state \<Rightarrow> hle_state option" where
  "resume_thread s = do {
     prev_ptr \<leftarrow> stack_arg 1 s;
     s \<leftarrow> on_mem (out32_unless_null prev_ptr 0) s;
     leave_call 0 2 s
   }"

section \<open>Critical sections\<close>

definition change_section :: "(nat \<times> nat \<times> u32) list \<Rightarrow> hle_state \<Rightarrow> hle_state option" where
  "change_section fs s = do {
     cs \<leftarrow> stack_arg 0 s;
     on_mem (if_fits cs 0x18 (store_fields fs cs)) s
   }"

definition enter_critical_section :: "hle_state \<Rightarrow> hle_state option" where
  "enter_critical_section s = Option.bind (change_section [(0x04, 4, 0), (0x08, 4, 1)] s) (stdcall_cleanup 1)"

definition leave_critical_section :: "hle_state \<Rightarrow> hle_state option" where
  "leave_critical_section s =
     Option.bind (change_section [(0x04, 4, - 1), (0x08, 4, 0), (0x0C, 4, 0)] s) (stdcall_cleanup 1)"

definition initialize_critical_section :: "hle_state \<Rightarrow> hle_state option" where
  "initialize_critical_section s = do {
     cs \<leftarrow> stack_arg 0 s;
     s \<leftarrow> on_mem (if_fits cs 0x18 (\<lambda>m. Option.bind (ram_fill cs 0x18 0 m) (store_fields [(0x04, 4, - 1)] cs))) s;
     stdcall_cleanup 1 s
   }"

definition try_enter_critical_section :: "hle_state \<Rightarrow> hle_state option" where
  "try_enter_critical_section s =
     Option.bind (change_section [(0x04, 4, 0), (0x08, 4, 1)] s) (leave_call 1 1)"

definition enter_critical_section_and_region :: "hle_state \<Rightarrow> hle_state option" where
  "enter_critical_section_and_region s =
     Option.bind (change_section [(0x04, 4, 0), (0x08, 4, 1)] s) (stdcall_cleanup 1)"

definition leave_critical_section_and_region :: "hle_state \<Rightarrow> hle_state option" where
  "leave_critical_section_and_region s =
     Option.bind (change_section [(0x04, 4, - 1), (0x08, 4, 0)] s) (stdcall_cleanup 1)"

section \<open>Interlocked operations\<close>

text \<open>What is at \<open>p\<close> is replaced by \<open>f\<close> of it; the value is what was there, 0 for an address out of range.\<close>

definition exchange_with :: "(u32 \<Rightarrow> u32) \<Rightarrow> u32 \<Rightarrow> hle_state \<Rightarrow> (u32 \<times> hle_state) option" where
  "exchange_with f p s =
     (if ram_fits p 4 then do {
        old \<leftarrow> rd GUEST_RAM_SIZE 4 (ram (fst s)) (unat p);
        s \<leftarrow> on_mem (store_fields [(0, 4, f old)] p) s;
        Some (old, s)
      } else Some (0, s))"

definition interlocked_compare_exchange :: "hle_state \<Rightarrow> hle_state option" where
  "interlocked_compare_exchange s = do {
     p \<leftarrow> stack_arg 0 s;
     new \<leftarrow> stack_arg 1 s;
     comparand \<leftarrow> stack_arg 2 s;
     (old, s) \<leftarrow> exchange_with (\<lambda>v. if v = comparand then new else v) p s;
     leave_call old 3 s
   }"

text \<open>The result of these two is the new value, and 0 for an address out of range.\<close>

definition interlocked_step :: "u32 \<Rightarrow> hle_state \<Rightarrow> hle_state option" where
  "interlocked_step d s = do {
     p \<leftarrow> stack_arg 0 s;
     (old, s) \<leftarrow> exchange_with (\<lambda>v. v + d) p s;
     leave_call (if ram_fits p 4 then old + d else 0) 1 s
   }"

definition interlocked_decrement :: "hle_state \<Rightarrow> hle_state option" where
  "interlocked_decrement = interlocked_step (- 1)"

definition interlocked_increment :: "hle_state \<Rightarrow> hle_state option" where
  "interlocked_increment = interlocked_step 1"

definition interlocked_exchange :: "hle_state \<Rightarrow> hle_state option" where
  "interlocked_exchange s = do {
     p \<leftarrow> stack_arg 0 s;
     new \<leftarrow> stack_arg 1 s;
     (old, s) \<leftarrow> exchange_with (\<lambda>_. new) p s;
     leave_call old 2 s
   }"

definition interlocked_exchange_add :: "hle_state \<Rightarrow> hle_state option" where
  "interlocked_exchange_add s = do {
     p \<leftarrow> stack_arg 0 s;
     v \<leftarrow> stack_arg 1 s;
     (old, s) \<leftarrow> exchange_with (\<lambda>x. x + v) p s;
     leave_call old 2 s
   }"

section \<open>PCI configuration\<close>

text \<open>Through the ports of the configuration mechanism, four bytes at a time; the address register goes
  on before each access but the first.\<close>

definition port_write :: "hle_env \<Rightarrow> u16 \<Rightarrow> u32 \<Rightarrow> nat \<Rightarrow> hle_state \<Rightarrow> hle_state option" where
  "port_write env port v n = (\<lambda>(m, h). map_option (\<lambda>x. (m\<lparr>hw := x\<rparr>, h)) (io_write (he_ports env) port v n (hw m)))"

definition port_read :: "hle_env \<Rightarrow> u16 \<Rightarrow> nat \<Rightarrow> hle_state \<Rightarrow> (u32 \<times> hle_state) option" where
  "port_read env port n = (\<lambda>(m, h). map_option (\<lambda>(v, x). (v, (m\<lparr>hw := x\<rparr>, h))) (io_read (he_ports env) port n (hw m)))"

definition config_chunk :: "hle_env \<Rightarrow> bool \<Rightarrow> u16 \<Rightarrow> u32 \<Rightarrow> nat \<Rightarrow> nat \<Rightarrow> hle_state \<Rightarrow> hle_state option" where
  "config_chunk env is_write port buf off chunk s =
     (if is_write then do {
        v \<leftarrow> rd GUEST_RAM_SIZE chunk (ram (fst s)) (unat buf + off);
        port_write env port v chunk s
      } else do {
        (v, s) \<leftarrow> port_read env port chunk s;
        on_mem (store_fields [(off, chunk, v)] buf) s
      })"

fun config_loop :: "hle_env \<Rightarrow> bool \<Rightarrow> u16 \<Rightarrow> u32 \<Rightarrow> u32 \<Rightarrow> nat \<Rightarrow> nat \<Rightarrow> hle_state \<Rightarrow> hle_state option" where
  "config_loop env is_write port buf cfg off remaining s =
     (if remaining = 0 then Some s
      else do {
        s \<leftarrow> config_chunk env is_write port buf off (min 4 remaining) s;
        if remaining \<le> 4 then Some s
        else do {
          s \<leftarrow> port_write env 0x0CF8 (cfg + 4) 4 s;
          config_loop env is_write port buf (cfg + 4) (off + 4) (remaining - 4) s
        }
      })"

declare config_loop.simps [simp del]

definition pci_config_address :: "u32 \<Rightarrow> u32 \<Rightarrow> u32 \<Rightarrow> u32" where
  "pci_config_address bus slot r =
     0x80000000 OR push_bit 16 (bus AND 0xFF) OR push_bit 11 (slot AND 0x1F) OR (r AND 0xFC)"

definition read_write_pci_space :: "hle_env \<Rightarrow> hle_state \<Rightarrow> hle_state option" where
  "read_write_pci_space env s = do {
     bus \<leftarrow> stack_arg 0 s;
     slot \<leftarrow> stack_arg 1 s;
     r \<leftarrow> stack_arg 2 s;
     buf \<leftarrow> stack_arg 3 s;
     len \<leftarrow> stack_arg 4 s;
     is_write \<leftarrow> stack_arg 5 s;
     let cfg = pci_config_address bus slot r;
     s \<leftarrow> port_write env 0x0CF8 cfg 4 s;
     s \<leftarrow> (if ram_fits buf len
           then config_loop env (is_write \<noteq> 0) (0x0CFC + ucast (r AND 3)) buf cfg 0 (unat len) s else Some s);
     stdcall_cleanup 6 s
   }"

end
