(* ===== verification/Hle_Rtl.thy ===== *)
theory Hle_Rtl
  imports Hle_Kernel
begin

text \<open>
  The run-time library calls of the high-level kernel (\<open>src/src/xbox/hle/hle_kernel.hpp\<close>): strings and
  blocks of memory.  The searches for the end of a string count in 16 bits and need not end; they are
  partial functions.  \<open>memcpy\<close> of ranges that overlap is undefined.
\<close>

section \<open>Blocks of memory\<close>

definition ram_move :: "u32 \<Rightarrow> u32 \<Rightarrow> u32 \<Rightarrow> bytes \<Rightarrow> bytes option" where
  "ram_move dst src n m =
     (if unat src + unat n \<le> GUEST_RAM_SIZE \<and> unat dst + unat n \<le> GUEST_RAM_SIZE
      then Some (copy_bytes (unat n) m (unat src) m (unat dst)) else None)"

definition ram_copy :: "u32 \<Rightarrow> u32 \<Rightarrow> u32 \<Rightarrow> bytes \<Rightarrow> bytes option" where
  "ram_copy dst src n m =
     (if unat dst + unat n \<le> unat src \<or> unat src + unat n \<le> unat dst then ram_move dst src n m else None)"

primrec match_len :: "bytes \<Rightarrow> u32 \<Rightarrow> u32 \<Rightarrow> nat \<Rightarrow> u32 \<Rightarrow> u32" where
  "match_len m a b 0 i = i"
| "match_len m a b (Suc n) i =
     (if a + i \<ge> of_nat GUEST_RAM_SIZE \<or> b + i \<ge> of_nat GUEST_RAM_SIZE then i
      else if m (unat (a + i)) \<noteq> m (unat (b + i)) then i
      else match_len m a b n (i + 1))"

definition rtl_compare_memory :: "hle_state \<Rightarrow> hle_state option" where
  "rtl_compare_memory s = do {
     src1 \<leftarrow> stack_arg 0 s;
     src2 \<leftarrow> stack_arg 1 s;
     len \<leftarrow> stack_arg 2 s;
     leave_call (match_len (ram (fst s)) src1 src2 (unat len) 0) 3 s
   }"

definition rtl_move_memory :: "hle_state \<Rightarrow> hle_state option" where
  "rtl_move_memory s = do {
     dst \<leftarrow> stack_arg 0 s;
     src \<leftarrow> stack_arg 1 s;
     len \<leftarrow> stack_arg 2 s;
     s \<leftarrow> (if ram_fits dst len \<and> ram_fits src len \<and> len > 0 then on_mem (ram_move dst src len) s else Some s);
     stdcall_cleanup 3 s
   }"

definition rtl_fill_memory :: "hle_state \<Rightarrow> hle_state option" where
  "rtl_fill_memory s = do {
     dst \<leftarrow> stack_arg 0 s;
     len \<leftarrow> stack_arg 1 s;
     v \<leftarrow> stack_arg 2 s;
     s \<leftarrow> (if ram_fits dst len \<and> len > 0 then on_mem (ram_fill dst len (ucast (v AND 0xFF))) s else Some s);
     stdcall_cleanup 3 s
   }"

definition rtl_zero_memory :: "hle_state \<Rightarrow> hle_state option" where
  "rtl_zero_memory s = do {
     dst \<leftarrow> stack_arg 0 s;
     len \<leftarrow> stack_arg 1 s;
     s \<leftarrow> (if ram_fits dst len \<and> len > 0 then on_mem (ram_fill dst len 0) s else Some s);
     stdcall_cleanup 2 s
   }"

text \<open>The loop of \<open>RtlCompareMemoryUlong\<close>: \<open>n\<close> words are left from offset \<open>i\<close>.\<close>

primrec match_ulong :: "bytes \<Rightarrow> u32 \<Rightarrow> u32 \<Rightarrow> nat \<Rightarrow> u32 \<Rightarrow> u32 option" where
  "match_ulong m p v 0 i = Some i"
| "match_ulong m p v (Suc n) i = do {
     x \<leftarrow> rd GUEST_RAM_SIZE 4 m (unat p + unat i);
     if x \<noteq> v then Some i else match_ulong m p v n (i + 4)
   }"

definition rtl_compare_memory_ulong :: "hle_state \<Rightarrow> hle_state option" where
  "rtl_compare_memory_ulong s = do {
     p \<leftarrow> stack_arg 0 s;
     len \<leftarrow> stack_arg 1 s;
     v \<leftarrow> stack_arg 2 s;
     matched \<leftarrow> (if ram_fits p len then match_ulong (ram (fst s)) p v (unat len div 4) 0 else Some 0);
     leave_call matched 3 s
   }"

section \<open>Strings\<close>

text \<open>The counter has 16 bits, the addresses 32.\<close>

definition ansi_more :: "bytes \<Rightarrow> u32 \<Rightarrow> u16 \<Rightarrow> bool" where
  "ansi_more m src len \<longleftrightarrow> src + ucast len < of_nat GUEST_RAM_SIZE \<and> m (unat (src + ucast len)) \<noteq> 0"

partial_function (option) ansi_len :: "bytes \<Rightarrow> u32 \<Rightarrow> u16 \<Rightarrow> u16 option" where
  "ansi_len m src len = (if ansi_more m src len then ansi_len m src (len + 1) else Some len)"

definition wide_char :: "bytes \<Rightarrow> u32 \<Rightarrow> u32" where
  "wide_char m p = ld 2 m (unat p)"

definition wide_more :: "bytes \<Rightarrow> u32 \<Rightarrow> u16 \<Rightarrow> bool" where
  "wide_more m src len \<longleftrightarrow>
     src + ucast len + 1 < of_nat GUEST_RAM_SIZE \<and> wide_char m (src + ucast len) \<noteq> 0"

partial_function (option) wide_len :: "bytes \<Rightarrow> u32 \<Rightarrow> u16 \<Rightarrow> u16 option" where
  "wide_len m src len =
     (if wide_more m src len then wide_len m src (len + 2) else Some len)"

definition in_guest :: "u32 \<Rightarrow> bool" where
  "in_guest p \<longleftrightarrow> p \<noteq> 0 \<and> p < of_nat GUEST_RAM_SIZE"

text \<open>\<open>{ Length, MaxLength, Buffer }\<close> at \<open>p\<close>.\<close>

definition put_string :: "u32 \<Rightarrow> u16 \<Rightarrow> u16 \<Rightarrow> u32 \<Rightarrow> bytes \<Rightarrow> bytes option" where
  "put_string p len max_len buf = if_fits p 8 (store_fields [(0, 2, ucast len), (2, 2, ucast max_len), (4, 4, buf)] p)"

definition get_string :: "u32 \<Rightarrow> bytes \<Rightarrow> (u32 \<times> u32) option" where
  "get_string p m =
     (if ram_fits p 8 then do {
        len \<leftarrow> rd GUEST_RAM_SIZE 2 m (unat p);
        buf \<leftarrow> rd GUEST_RAM_SIZE 4 m (unat p + 4);
        Some (len, buf)
      } else Some (0, 0))"

definition rtl_init_ansi_string :: "hle_state \<Rightarrow> hle_state option" where
  "rtl_init_ansi_string s = do {
     dest \<leftarrow> stack_arg 0 s;
     src \<leftarrow> stack_arg 1 s;
     len \<leftarrow> (if in_guest src then ansi_len (ram (fst s)) src 0 else Some 0);
     s \<leftarrow> on_mem (put_string dest len (len + 1) src) s;
     stdcall_cleanup 2 s
   }"

definition rtl_init_unicode_string :: "hle_state \<Rightarrow> hle_state option" where
  "rtl_init_unicode_string s = do {
     dest \<leftarrow> stack_arg 0 s;
     src \<leftarrow> stack_arg 1 s;
     len \<leftarrow> (if in_guest src then wide_len (ram (fst s)) src 0 else Some 0);
     s \<leftarrow> on_mem (put_string dest len (len + 2) src) s;
     stdcall_cleanup 2 s
   }"

definition rtl_create_unicode_string :: "hle_state \<Rightarrow> hle_state option" where
  "rtl_create_unicode_string s = do {
     dest \<leftarrow> stack_arg 0 s;
     src \<leftarrow> stack_arg 1 s;
     len \<leftarrow> (if in_guest src then wide_len (ram (fst s)) src 0 else Some 0);
     let (buf, h) = heap_alloc (ucast len + 2) 0x1000 (snd s);
     let s = (fst s, h);
     s \<leftarrow> (if buf \<noteq> 0 \<and> ram_fits src (ucast len) then on_mem (ram_copy buf src (ucast len + 2)) s else Some s);
     s \<leftarrow> on_mem (put_string dest len (len + 2) buf) s;
     leave_call 1 2 s
   }"

definition rtl_equal_string :: "hle_state \<Rightarrow> hle_state option" where
  "rtl_equal_string s = do {
     s1 \<leftarrow> stack_arg 0 s;
     s2 \<leftarrow> stack_arg 1 s;
     (len1, buf1) \<leftarrow> get_string s1 (ram (fst s));
     (len2, buf2) \<leftarrow> get_string s2 (ram (fst s));
     eq \<leftarrow> (if len1 = len2 \<and> len1 > 0 \<and> ram_fits buf1 len1 \<and> ram_fits buf2 len2
           then if unat buf1 + unat len1 \<le> GUEST_RAM_SIZE \<and> unat buf2 + unat len2 \<le> GUEST_RAM_SIZE
             then Some (get_list (unat len1) (ram (fst s)) (unat buf1) = get_list (unat len1) (ram (fst s)) (unat buf2))
             else None
           else Some (len1 = len2));
     leave_call (if eq then 1 else 0) 3 s
   }"

text \<open>The copying loops of the conversions go byte by byte through the memory they change.\<close>

primrec steps_opt :: "(nat \<Rightarrow> 'a \<Rightarrow> 'a option) \<Rightarrow> nat list \<Rightarrow> 'a \<Rightarrow> 'a option" where
  "steps_opt f [] x = Some x"
| "steps_opt f (i # is) x = Option.bind (f i x) (steps_opt f is)"

definition widen_char :: "u32 \<Rightarrow> u32 \<Rightarrow> nat \<Rightarrow> bytes \<Rightarrow> bytes option" where
  "widen_char src dst i m = do {
     v \<leftarrow> rd GUEST_RAM_SIZE 1 m (unat src + i);
     wr GUEST_RAM_SIZE 2 m (unat dst + i * 2) v
   }"

definition narrow_char :: "u32 \<Rightarrow> u32 \<Rightarrow> nat \<Rightarrow> bytes \<Rightarrow> bytes option" where
  "narrow_char src dst i m = do {
     v \<leftarrow> rd GUEST_RAM_SIZE 2 m (unat src + i * 2);
     wr GUEST_RAM_SIZE 1 m (unat dst + i) (v AND 0xFF)
   }"

definition ansi_to_unicode :: "hle_state \<Rightarrow> hle_state option" where
  "ansi_to_unicode s = do {
     dest \<leftarrow> stack_arg 0 s;
     src \<leftarrow> stack_arg 1 s;
     (src_len, src_buf) \<leftarrow> get_string src (ram (fst s));
     let uni_len = src_len * 2;
     let (uni_buf, h) = heap_alloc (uni_len + 2) 0x1000 (snd s);
     let s = (fst s, h);
     s \<leftarrow> (if uni_buf \<noteq> 0 \<and> ram_fits src_buf src_len
           then on_mem (\<lambda>m. Option.bind (steps_opt (widen_char src_buf uni_buf) [0..<unat src_len] m)
             (store_fields [(unat uni_len, 2, 0)] uni_buf)) s
           else Some s);
     s \<leftarrow> on_mem (put_string dest (ucast uni_len) (ucast (uni_len + 2)) uni_buf) s;
     leave_call 0 3 s
   }"

definition unicode_to_ansi :: "hle_state \<Rightarrow> hle_state option" where
  "unicode_to_ansi s = do {
     dest \<leftarrow> stack_arg 0 s;
     src \<leftarrow> stack_arg 1 s;
     (src_len, src_buf) \<leftarrow> get_string src (ram (fst s));
     let ansi_len = src_len div 2;
     let (ansi_buf, h) = heap_alloc (ansi_len + 1) 0x1000 (snd s);
     let s = (fst s, h);
     s \<leftarrow> (if ansi_buf \<noteq> 0 \<and> ram_fits src_buf src_len
           then on_mem (\<lambda>m. Option.bind (steps_opt (narrow_char src_buf ansi_buf) [0..<unat ansi_len] m)
             (store_fields [(unat ansi_len, 1, 0)] ansi_buf)) s
           else Some s);
     s \<leftarrow> on_mem (put_string dest (ucast ansi_len) (ucast (ansi_len + 1)) ansi_buf) s;
     leave_call 0 3 s
   }"

definition copy_unicode_string :: "hle_state \<Rightarrow> hle_state option" where
  "copy_unicode_string s = do {
     dest \<leftarrow> stack_arg 0 s;
     src \<leftarrow> stack_arg 1 s;
     s \<leftarrow> (if ram_fits src 8 \<and> ram_fits dest 8 then do {
            let m = ram (fst s);
            src_len \<leftarrow> rd GUEST_RAM_SIZE 2 m (unat src);
            src_buf \<leftarrow> rd GUEST_RAM_SIZE 4 m (unat src + 4);
            dest_max \<leftarrow> rd GUEST_RAM_SIZE 2 m (unat dest + 2);
            dest_buf \<leftarrow> rd GUEST_RAM_SIZE 4 m (unat dest + 4);
            let n = (if src_len < dest_max then src_len else dest_max);
            s \<leftarrow> (if ram_fits src_buf n \<and> ram_fits dest_buf n then on_mem (ram_copy dest_buf src_buf n) s else Some s);
            on_mem (store_fields [(0, 2, n)] dest) s
          } else Some s);
     stdcall_cleanup 2 s
   }"

definition upcase_unicode_char :: "hle_state \<Rightarrow> hle_state option" where
  "upcase_unicode_char s = do {
     c \<leftarrow> stack_arg 0 s;
     leave_call (if 0x61 \<le> c \<and> c \<le> 0x7A then c - 32 else c) 1 s
   }"

end
