(* ===== verification/Hle_Files.thy ===== *)
theory Hle_Files
  imports Hle_Rtl
begin

text \<open>
  The file calls of the high-level kernel (\<open>src/src/xbox/hle/hle_kernel.hpp\<close>), over the mounts and the
  open files of \<open>Xbe_Heap\<close>.
\<close>

abbreviation HLE_NAME_NOT_FOUND :: u32 where "HLE_NAME_NOT_FOUND \<equiv> 0xC0000034"
abbreviation HLE_INVALID_HANDLE :: u32 where "HLE_INVALID_HANDLE \<equiv> 0xC0000008"
abbreviation HLE_END_OF_FILE :: u32 where "HLE_END_OF_FILE \<equiv> 0xC0000011"
abbreviation HLE_NO_MORE_FILES :: u32 where "HLE_NO_MORE_FILES \<equiv> 0x80000006"

text \<open>The path in an \<open>OBJECT_ATTRIBUTES\<close>; empty when a part of it is out of range.\<close>

definition read_object_name :: "u32 \<Rightarrow> bytes \<Rightarrow> u8 list option" where
  "read_object_name attrs m =
     (if \<not> ram_fits attrs 12 then Some []
      else do {
        name_ptr \<leftarrow> rd GUEST_RAM_SIZE 4 m (unat attrs + 4);
        if name_ptr = 0 \<or> \<not> ram_fits name_ptr 8 then Some []
        else do {
          len \<leftarrow> rd GUEST_RAM_SIZE 2 m (unat name_ptr);
          buf \<leftarrow> rd GUEST_RAM_SIZE 4 m (unat name_ptr + 4);
          if buf = 0 \<or> \<not> ram_fits buf len then Some []
          else if unat buf + unat len \<le> GUEST_RAM_SIZE then Some (get_list (unat len) m (unat buf))
          else None
        }
      })"

text \<open>\<open>IO_STATUS_BLOCK\<close>\<close>

definition put_iosb :: "u32 \<Rightarrow> u32 \<Rightarrow> u32 \<Rightarrow> bytes \<Rightarrow> bytes option" where
  "put_iosb p status info = if_fits p 8 (store_fields [(0, 4, status), (4, 4, info)] p)"

text \<open>The end of both calls that open a file.\<close>

definition opened :: "u32 \<Rightarrow> u32 \<Rightarrow> u32 \<Rightarrow> u32 \<Rightarrow> nat \<Rightarrow> hle_state \<Rightarrow> hle_state option" where
  "opened handle_ptr iosb_ptr n status args s = do {
     s \<leftarrow> on_mem (out32 handle_ptr n) s;
     s \<leftarrow> on_mem (put_iosb iosb_ptr status (if status = 0 then 1 else 0)) s;
     leave_call status args s
   }"

definition nt_open_file :: "hle_env \<Rightarrow> hle_state \<Rightarrow> hle_state option" where
  "nt_open_file env s = do {
     handle_ptr \<leftarrow> stack_arg 0 s;
     attrs \<leftarrow> stack_arg 2 s;
     iosb_ptr \<leftarrow> stack_arg 3 s;
     name \<leftarrow> read_object_name attrs (ram (fst s));
     let p = translate_path (snd s) name;
     let (n, h) = (if p \<noteq> [] then open_host_file (he_disk env) p (snd s) else (0, snd s));
     opened handle_ptr iosb_ptr n (if n \<noteq> 0 then 0 else HLE_NAME_NOT_FOUND) 6 (fst s, h)
   }"

text \<open>A name that is a mount point itself.\<close>

definition is_device_open :: "u8 list \<Rightarrow> xbe_heap \<Rightarrow> bool" where
  "is_device_open name h \<longleftrightarrow>
     list_ex (\<lambda>mp. strnicmp_eq (length (xbox_prefix mp)) name (xbox_prefix mp) \<and>
       length name = length (xbox_prefix mp)) (mounts h)"

definition create_file_handle :: "hle_env \<Rightarrow> u8 list \<Rightarrow> u32 \<Rightarrow> u32 \<Rightarrow> xbe_heap \<Rightarrow> (u32 \<times> u32) \<times> xbe_heap" where
  "create_file_handle env name disp opts h =
     (let p = translate_path h name; open_only = (disp = 1 \<or> disp = 4); is_dir = opts AND 1 \<noteq> 0 in
      if p = [] then ((0, HLE_NAME_NOT_FOUND), h)
      else let (n, h) = open_host_file (he_disk env) p h in
        if n \<noteq> 0 then ((n, 0), h)
        else if is_device_open name h \<or> is_dir \<or> \<not> open_only
        then let (n, h) = take_handle h in ((n, 0), h)
        else ((0, HLE_NAME_NOT_FOUND), h))"

definition nt_create_file :: "hle_env \<Rightarrow> hle_state \<Rightarrow> hle_state option" where
  "nt_create_file env s = do {
     handle_ptr \<leftarrow> stack_arg 0 s;
     attrs \<leftarrow> stack_arg 2 s;
     iosb_ptr \<leftarrow> stack_arg 3 s;
     disp \<leftarrow> stack_arg 7 s;
     opts \<leftarrow> stack_arg 8 s;
     name \<leftarrow> read_object_name attrs (ram (fst s));
     let ((n, status), h) = create_file_handle env name disp opts (snd s);
     opened handle_ptr iosb_ptr n status 9 (fst s, h)
   }"

text \<open>\<open>fread\<close> of at most \<open>n\<close> bytes into guest memory: how many there were.\<close>

definition read_stream :: "u32 \<Rightarrow> u32 \<Rightarrow> u8 list \<times> nat \<Rightarrow> bytes \<Rightarrow> (nat \<times> bytes) option" where
  "read_stream buf n = (\<lambda>(c, at) m.
     let xs = take (unat n) (drop at c) in
     if unat buf + length xs \<le> GUEST_RAM_SIZE then Some (length xs, put_list xs m (unat buf)) else None)"

definition clamp_length :: "u32 \<Rightarrow> u32 \<Rightarrow> u32" where
  "clamp_length buf n =
     (if \<not> ram_fits buf n then if buf < of_nat GUEST_RAM_SIZE then of_nat GUEST_RAM_SIZE - buf else 0 else n)"

definition read_position :: "u32 \<Rightarrow> u32 \<Rightarrow> u32 \<Rightarrow> host_file \<Rightarrow> hle_state \<Rightarrow> (u32 \<times> hle_state) option" where
  "read_position n buf len f = (\<lambda>(m, h).
     case hf_fp f of
       None \<Rightarrow> Some (0, m, put_file n f h)
     | Some x \<Rightarrow>
         if len > 0 then do {
           (k, b) \<leftarrow> read_stream buf len x (ram m);
           Some (of_nat k, set_mem b m, put_file n (f\<lparr>hf_fp := Some (fst x, snd x + k)\<rparr>) h)
         } else Some (0, m, put_file n f h))"

text \<open>From the position given, or the one the file has.\<close>

definition read_host_file :: "u32 \<Rightarrow> u32 \<Rightarrow> u32 \<Rightarrow> u32 \<Rightarrow> host_file \<Rightarrow> hle_state \<Rightarrow> (u32 \<times> hle_state) option" where
  "read_host_file n off_ptr buf len f s = do {
     f \<leftarrow> (if off_ptr \<noteq> 0 \<and> ram_fits off_ptr 8
           then map_option (\<lambda>pos. seek_file pos f) (load64 (ram (fst s)) off_ptr) else Some f);
     read_position n buf (clamp_length buf len) f s
   }"

definition nt_read_file :: "hle_state \<Rightarrow> hle_state option" where
  "nt_read_file s = do {
     n \<leftarrow> stack_arg 0 s;
     iosb_ptr \<leftarrow> stack_arg 4 s;
     buf \<leftarrow> stack_arg 5 s;
     len \<leftarrow> stack_arg 6 s;
     off_ptr \<leftarrow> stack_arg 7 s;
     (status, bytes_read, s) \<leftarrow>
       (case open_files (snd s) n of
          None \<Rightarrow> Some (0, 0, s)
        | Some f \<Rightarrow>
            if hf_fp f = None then Some (HLE_INVALID_HANDLE, 0, s)
            else map_option (\<lambda>(k, s). (if k > 0 then 0 else HLE_END_OF_FILE, k, s))
              (read_host_file n off_ptr buf len f s));
     s \<leftarrow> on_mem (put_iosb iosb_ptr status bytes_read) s;
     leave_call status 8 s
   }"

definition nt_write_file :: "hle_state \<Rightarrow> hle_state option" where
  "nt_write_file s = do {
     iosb_ptr \<leftarrow> stack_arg 4 s;
     len \<leftarrow> stack_arg 6 s;
     s \<leftarrow> on_mem (put_iosb iosb_ptr 0 len) s;
     leave_call 0 8 s
   }"

definition nt_set_information_file :: "hle_state \<Rightarrow> hle_state option" where
  "nt_set_information_file s = do {
     n \<leftarrow> stack_arg 0 s;
     info_ptr \<leftarrow> stack_arg 2 s;
     info_class \<leftarrow> stack_arg 4 s;
     s \<leftarrow> (case open_files (snd s) n of
            Some f \<Rightarrow>
              if hf_fp f \<noteq> None \<and> info_class = 14 \<and> ram_fits info_ptr 8
              then map_option (\<lambda>pos. (fst s, put_file n (seek_file pos f) (snd s))) (load64 (ram (fst s)) info_ptr)
              else Some s
          | None \<Rightarrow> Some s);
     leave_call 0 5 s
   }"

definition round_page :: "u64 \<Rightarrow> u64" where
  "round_page v = (v + 0xFFF) AND NOT 0xFFF"

definition file_information :: "host_file \<Rightarrow> u32 \<Rightarrow> u32 \<Rightarrow> u32 \<Rightarrow> bytes \<Rightarrow> bytes option" where
  "file_information f info_class p len m =
     (if info_class = 5 then
        if ram_fits p 24 \<and> len \<ge> 24 then
          Option.bind (ram_fill p 24 0 m)
            (store_fields (field64 0 (round_page (hf_size f)) @ field64 8 (hf_size f) @ [(16, 4, 1)]) p)
        else Some m
      else if info_class = 14 then
        if ram_fits p 8 \<and> len \<ge> 8
        then store_fields (field64 0 (case hf_fp f of Some (c, at) \<Rightarrow> of_nat at | None \<Rightarrow> 0)) p m
        else Some m
      else if ram_fits p len \<and> len > 0 then ram_fill p len 0 m else Some m)"

definition nt_query_information_file :: "hle_state \<Rightarrow> hle_state option" where
  "nt_query_information_file s = do {
     n \<leftarrow> stack_arg 0 s;
     iosb_ptr \<leftarrow> stack_arg 1 s;
     info_ptr \<leftarrow> stack_arg 2 s;
     info_len \<leftarrow> stack_arg 3 s;
     info_class \<leftarrow> stack_arg 4 s;
     s \<leftarrow> on_mem (case open_files (snd s) n of
            Some f \<Rightarrow> file_information f info_class info_ptr info_len | None \<Rightarrow> Some) s;
     s \<leftarrow> on_mem (put_iosb iosb_ptr 0 0) s;
     leave_call 0 5 s
   }"

definition nt_query_volume_information_file :: "hle_state \<Rightarrow> hle_state option" where
  "nt_query_volume_information_file s = do {
     iosb_ptr \<leftarrow> stack_arg 1 s;
     p \<leftarrow> stack_arg 2 s;
     len \<leftarrow> stack_arg 3 s;
     info_class \<leftarrow> stack_arg 4 s;
     s \<leftarrow> (if ram_fits p len \<and> len > 0 then on_mem (ram_fill p len 0) s else Some s);
     let total = 8 * 1024 * 1024 * 1024 div (512 * 8);
     s \<leftarrow> (if info_class = 3 \<and> len \<ge> 24 \<and> ram_fits p 24
           then on_mem (store_fields (field64 0 total @ field64 8 (total div 2) @ [(16, 4, 8), (20, 4, 512)]) p) s
           else Some s);
     s \<leftarrow> on_mem (put_iosb iosb_ptr 0 0) s;
     leave_call 0 5 s
   }"

definition network_open_information :: "u64 \<Rightarrow> u32 \<Rightarrow> bytes \<Rightarrow> bytes option" where
  "network_open_information n p =
     if_fits p 56 (\<lambda>m. Option.bind (ram_fill p 56 0 m)
       (store_fields (field64 32 (round_page n) @ field64 40 n @ [(48, 4, 0x80)]) p))"

definition nt_query_full_attributes_file :: "hle_env \<Rightarrow> hle_state \<Rightarrow> hle_state option" where
  "nt_query_full_attributes_file env s = do {
     attrs \<leftarrow> stack_arg 0 s;
     info_ptr \<leftarrow> stack_arg 1 s;
     name \<leftarrow> read_object_name attrs (ram (fst s));
     let p = translate_path (snd s) name;
     case (if p \<noteq> [] then he_disk env p else None) of
       Some (Host_file c) \<Rightarrow>
         Option.bind (on_mem (network_open_information (file_size64 c) info_ptr) s) (leave_call 0 2)
     | _ \<Rightarrow> leave_call HLE_NAME_NOT_FOUND 2 s
   }"

definition nt_query_directory_file :: "hle_state \<Rightarrow> hle_state option" where
  "nt_query_directory_file s = do {
     iosb_ptr \<leftarrow> stack_arg 4 s;
     s \<leftarrow> on_mem (put_iosb iosb_ptr HLE_NO_MORE_FILES 0) s;
     leave_call HLE_NO_MORE_FILES 9 s
   }"

end
