(* ===== verification/Hle_Crypto.thy ===== *)
theory Hle_Crypto
  imports Hle_Rtl Sha1 Rc4
begin

text \<open>
  The cryptographic calls of the high-level kernel (\<open>src/src/xbox/hle/hle_kernel.hpp\<close>).  DES and modular
  exponentiation are stubs in the code: they clear their result or copy their input.  \<open>junk\<close> is what an
  uninitialised buffer holds.
\<close>

definition xc_mod_exp :: "hle_state \<Rightarrow> hle_state option" where
  "xc_mod_exp s = do {
     p \<leftarrow> stack_arg 0 s;
     len \<leftarrow> stack_arg 4 s;
     s \<leftarrow> (if ram_fits p len \<and> len > 0 then on_mem (ram_fill p len 0) s else Some s);
     leave_call 0 5 s
   }"

text \<open>Odd parity: the low bit of a byte makes its number of ones odd.\<close>

definition parity_byte :: "u8 \<Rightarrow> u8" where
  "parity_byte x =
     (let b = x AND 0xFE; p = b XOR drop_bit 4 b; p = p XOR drop_bit 2 p; p = p XOR drop_bit 1 p
      in b OR (NOT p AND 1))"

definition set_parity :: "u32 \<Rightarrow> nat \<Rightarrow> bytes \<Rightarrow> bytes option" where
  "set_parity p n m =
     (if n = 0 \<or> unat p + n \<le> GUEST_RAM_SIZE
      then Some (fold (\<lambda>i m. m(unat p + i := parity_byte (m (unat p + i)))) [0..<n] m) else None)"

definition xc_des_key_parity :: "hle_state \<Rightarrow> hle_state option" where
  "xc_des_key_parity s = do {
     p \<leftarrow> stack_arg 0 s;
     len \<leftarrow> stack_arg 1 s;
     s \<leftarrow> (if ram_fits p len then on_mem (set_parity p (unat len)) s else Some s);
     stdcall_cleanup 2 s
   }"

definition xc_key_table :: "hle_state \<Rightarrow> hle_state option" where
  "xc_key_table s = do {
     p \<leftarrow> stack_arg 1 s;
     s \<leftarrow> on_mem (if_fits p 128 (ram_fill p 128 0)) s;
     stdcall_cleanup 3 s
   }"

definition xc_block_crypt :: "hle_state \<Rightarrow> hle_state option" where
  "xc_block_crypt s = do {
     dst \<leftarrow> stack_arg 1 s;
     src \<leftarrow> stack_arg 2 s;
     s \<leftarrow> (if ram_fits dst 8 \<and> ram_fits src 8 then on_mem (ram_copy dst src 8) s else Some s);
     stdcall_cleanup 5 s
   }"

definition xc_block_crypt_cbc :: "hle_state \<Rightarrow> hle_state option" where
  "xc_block_crypt_cbc s = do {
     len \<leftarrow> stack_arg 1 s;
     dst \<leftarrow> stack_arg 2 s;
     src \<leftarrow> stack_arg 3 s;
     s \<leftarrow> (if ram_fits dst len \<and> ram_fits src len \<and> len > 0 then on_mem (ram_copy dst src len) s else Some s);
     stdcall_cleanup 7 s
   }"

section \<open>SHA-1\<close>

text \<open>The context in guest memory: the state, the count, the buffer; 116 bytes with what follows.\<close>

definition state_fields :: "sha1_state \<Rightarrow> (nat \<times> nat \<times> u32) list" where
  "state_fields = (\<lambda>(a, b, c, d, e). [(0, 4, a), (4, 4, b), (8, 4, c), (12, 4, d), (16, 4, e)])"

definition load_sha1 :: "bytes \<Rightarrow> nat \<Rightarrow> sha1_ctx" where
  "load_sha1 m p =
     \<lparr>sha_state = (ld 4 m p, ld 4 m (p + 4), ld 4 m (p + 8), ld 4 m (p + 12), ld 4 m (p + 16)),
      sha_count = ucast (ld 4 m (p + 20)) OR push_bit 32 (ucast (ld 4 m (p + 24))),
      sha_buffer = (\<lambda>i. m (p + 28 + i))\<rparr>"

definition store_sha1 :: "u32 \<Rightarrow> sha1_ctx \<Rightarrow> bytes \<Rightarrow> bytes option" where
  "store_sha1 p c m =
     map_option (\<lambda>m. copy_bytes 64 (sha_buffer c) 0 m (unat p + 28))
       (store_fields (state_fields (sha_state c) @ field64 20 (sha_count c)) p m)"

definition inside :: "u32 \<Rightarrow> nat \<Rightarrow> bool" where
  "inside p n \<longleftrightarrow> unat p + n \<le> GUEST_RAM_SIZE"

definition sha_init_mem :: "bytes \<Rightarrow> u32 \<Rightarrow> bytes \<Rightarrow> bytes option" where
  "sha_init_mem junk p m =
     Option.bind (ram_fill p 116 0 m) (store_fields (state_fields (sha_state (sha1_init junk))) p)"

definition xc_sha_init :: "bytes \<Rightarrow> hle_state \<Rightarrow> hle_state option" where
  "xc_sha_init junk s = do {
     p \<leftarrow> stack_arg 0 s;
     s \<leftarrow> on_mem (if_fits p 116 (sha_init_mem junk p)) s;
     stdcall_cleanup 1 s
   }"

text \<open>The context is read before the data is looked at, and written back in any case.\<close>

definition sha_update_mem :: "u32 \<Rightarrow> u32 \<Rightarrow> u32 \<Rightarrow> bytes \<Rightarrow> bytes option" where
  "sha_update_mem p data_ptr dlen m =
     (if inside p 92 then
        let c = load_sha1 m (unat p) in
        if ram_fits data_ptr dlen \<and> dlen > 0 then
          if inside data_ptr (unat dlen)
          then store_sha1 p (sha1_update (get_list (unat dlen) m (unat data_ptr)) c) m
          else None
        else store_sha1 p c m
      else None)"

definition xc_sha_update :: "hle_state \<Rightarrow> hle_state option" where
  "xc_sha_update s = do {
     p \<leftarrow> stack_arg 0 s;
     data_ptr \<leftarrow> stack_arg 1 s;
     dlen \<leftarrow> stack_arg 2 s;
     s \<leftarrow> on_mem (if_fits p 116 (sha_update_mem p data_ptr dlen)) s;
     stdcall_cleanup 3 s
   }"

definition put_digest :: "u32 \<Rightarrow> u8 list \<Rightarrow> bytes \<Rightarrow> bytes option" where
  "put_digest p xs m = (if inside p (length xs) then Some (put_list xs m (unat p)) else None)"

definition xc_sha_final :: "hle_state \<Rightarrow> hle_state option" where
  "xc_sha_final s = do {
     p \<leftarrow> stack_arg 0 s;
     digest_ptr \<leftarrow> stack_arg 1 s;
     s \<leftarrow> (if ram_fits p 116 \<and> ram_fits digest_ptr 20
           then if inside p 92
             then on_mem (\<lambda>m. put_digest digest_ptr (sha1_final (load_sha1 m (unat p))) m) s else None
           else Some s);
     stdcall_cleanup 2 s
   }"

text \<open>A pointer out of range is null; a part that is null or empty is left out.\<close>

definition hmac_part :: "u32 \<Rightarrow> u32 \<Rightarrow> bytes \<Rightarrow> u8 list option" where
  "hmac_part p n m =
     (if ram_fits p n \<and> n > 0 then if inside p (unat n) then Some (get_list (unat n) m (unat p)) else None
      else Some [])"

definition xc_hmac :: "bytes \<Rightarrow> hle_state \<Rightarrow> hle_state option" where
  "xc_hmac junk s = do {
     key_ptr \<leftarrow> stack_arg 0 s;
     key_len \<leftarrow> stack_arg 1 s;
     d1_ptr \<leftarrow> stack_arg 2 s;
     d1_len \<leftarrow> stack_arg 3 s;
     d2_ptr \<leftarrow> stack_arg 4 s;
     d2_len \<leftarrow> stack_arg 5 s;
     dig_ptr \<leftarrow> stack_arg 6 s;
     s \<leftarrow> (if ram_fits key_ptr key_len \<and> ram_fits dig_ptr 20 then do {
            let m = ram (fst s);
            key \<leftarrow> hmac_part key_ptr key_len m;
            d1 \<leftarrow> hmac_part d1_ptr d1_len m;
            d2 \<leftarrow> hmac_part d2_ptr d2_len m;
            on_mem (put_digest dig_ptr (hmac_sha1 junk key d1 d2)) s
          } else on_mem (if_fits dig_ptr 20 (ram_fill dig_ptr 20 0)) s);
     stdcall_cleanup 7 s
   }"

section \<open>RC4\<close>

definition xc_rc4_key_call :: "hle_state \<Rightarrow> hle_state option" where
  "xc_rc4_key_call s = do {
     p \<leftarrow> stack_arg 0 s;
     key_len \<leftarrow> stack_arg 1 s;
     key_ptr \<leftarrow> stack_arg 2 s;
     let keyed = ram_fits key_ptr key_len \<and> key_len > 0;
     s \<leftarrow> on_mem (if_fits p 258 (\<lambda>m.
       if inside p 258 \<and> (keyed \<longrightarrow> inside key_ptr (min 256 (unat key_len)))
       then Some (xc_rc4_key (unat p) (if keyed then Some (unat key_ptr) else None) (unat key_len) m) else None)) s;
     stdcall_cleanup 3 s
   }"

definition xc_rc4_crypt_call :: "hle_state \<Rightarrow> hle_state option" where
  "xc_rc4_crypt_call s = do {
     p \<leftarrow> stack_arg 0 s;
     dlen \<leftarrow> stack_arg 1 s;
     data_ptr \<leftarrow> stack_arg 2 s;
     s \<leftarrow> (if ram_fits p 258 \<and> ram_fits data_ptr dlen
           then if inside p 258 \<and> inside data_ptr (unat dlen)
             then on_mem (\<lambda>m. Some (xc_rc4_crypt (unat p) (unat dlen) (unat data_ptr) m)) s else None
           else Some s);
     stdcall_cleanup 3 s
   }"

end
