(* ===== verification/Hle_Dispatch.thy ===== *)
theory Hle_Dispatch
  imports Hle_Files Hle_Crypto Xbe_Loader Privileged
begin

text \<open>
  The dispatch of kernel calls (\<open>default_hle_handler\<close> of \<open>src/src/xbox/hle/hle_kernel.hpp\<close>): the two
  tables of calls, the handler the processor's \<open>INT\<close> goes to, and what every call keeps.
\<close>

section \<open>The tables\<close>

definition hle_calls :: "bytes \<Rightarrow> hle_env \<Rightarrow> (u32 \<times> (hle_state \<Rightarrow> hle_state option)) list" where
  "hle_calls junk env =
     [(ORD_ExAllocatePool, allocate_contiguous),
      (ORD_MmAllocateContiguousMemory, allocate_contiguous),
      (ORD_MmAllocateContiguousMemoryEx, allocate_contiguous_ex),
      (ORD_MmGetPhysicalAddress, get_physical_address),
      (ORD_NtAllocateVirtualMemory, allocate_virtual_memory),
      (ORD_NtClose, nt_close),
      (ORD_HalReadSMBusValue, read_smbus_value),
      (ORD_ExQueryNonVolatileSetting, query_nonvolatile_setting),
      (ORD_RtlNtStatusToDosError, nt_status_to_dos_error),
      (ORD_HalReturnToFirmware, return_to_firmware),
      (ORD_KeInitializeDpc, initialize_dpc),
      (ORD_KeQueryPerformanceCounter, query_performance_counter env),
      (ORD_KeQueryPerformanceFrequency, query_performance_frequency),
      (ORD_KeQuerySystemTime, query_system_time env),
      (ORD_KeSetTimer, set_timer),
      (ORD_KeSetTimerEx, set_timer_ex),
      (ORD_PsCreateSystemThread, create_system_thread),
      (ORD_PsCreateSystemThreadEx, create_system_thread_ex),
      (ORD_PsTerminateSystemThread, terminate_system_thread),
      (ORD_RtlEnterCriticalSection, enter_critical_section),
      (ORD_RtlLeaveCriticalSection, leave_critical_section),
      (ORD_RtlInitializeCriticalSection, initialize_critical_section),
      (ORD_RtlInitAnsiString, rtl_init_ansi_string),
      (ORD_ExAllocatePoolWithTag, allocate_pool_with_tag),
      (ORD_NtCreateEvent, nt_create_event),
      (ORD_NtCreateMutant, nt_create_mutant),
      (ORD_NtCreateSemaphore, nt_create_semaphore),
      (ORD_ObReferenceObjectByHandle, reference_object_by_handle),
      (ORD_InterlockedCompareExchange, interlocked_compare_exchange),
      (ORD_InterlockedDecrement, interlocked_decrement),
      (ORD_InterlockedIncrement, interlocked_increment),
      (ORD_InterlockedExchange, interlocked_exchange),
      (ORD_MmMapIoSpace, map_io_space),
      (ORD_RtlInitUnicodeString, rtl_init_unicode_string),
      (ORD_RtlCompareMemory, rtl_compare_memory),
      (ORD_RtlMoveMemory, rtl_move_memory),
      (ORD_RtlFillMemory, rtl_fill_memory),
      (ORD_RtlZeroMemory, rtl_zero_memory),
      (ORD_RtlEqualString, rtl_equal_string),
      (ORD_IoCreateDevice, io_create_device),
      (ORD_IoCreateFile, io_create_file),
      (ORD_HalGetInterruptVector, get_interrupt_vector),
      (ORD_NtOpenFile, nt_open_file env),
      (ORD_NtReadFile, nt_read_file),
      (ORD_NtSetInformationFile, nt_set_information_file),
      (ORD_NtQueryInformationFile, nt_query_information_file),
      (ORD_NtQueryVolumeInformationFile, nt_query_volume_information_file),
      (ORD_HalReadSMCTrayState, read_tray_state),
      (ORD_NtCreateFile, nt_create_file env),
      (ORD_NtQueryFullAttributesFile, nt_query_full_attributes_file env),
      (ORD_MmClaimGpuInstanceMemory, claim_gpu_instance_memory),
      (ORD_MmCreateKernelStack, create_kernel_stack),
      (ORD_MmAllocateSystemMemory, allocate_system_memory),
      (ORD_MmIsAddressValid, is_address_valid),
      (ORD_MmQueryStatistics, query_statistics),
      (ORD_NtDuplicateObject, duplicate_object),
      (ORD_RtlAnsiStringToUnicodeString, ansi_to_unicode),
      (ORD_RtlUnicodeStringToAnsiString, unicode_to_ansi),
      (ORD_RtlTryEnterCriticalSection, try_enter_critical_section),
      (ORD_RtlEnterCriticalSectionAndRegion, enter_critical_section_and_region),
      (ORD_RtlLeaveCriticalSectionAndRegion, leave_critical_section_and_region),
      (ORD_RtlCopyUnicodeString, copy_unicode_string),
      (ORD_RtlCreateUnicodeString, rtl_create_unicode_string),
      (ORD_InterlockedExchangeAdd, interlocked_exchange_add),
      (ORD_HalReadWritePCISpace, read_write_pci_space env),
      (ORD_KeInsertQueueDpc, insert_queue_dpc),
      (ORD_NtWriteFile, nt_write_file),
      (ORD_NtQueryDirectoryFile, nt_query_directory_file),
      (ORD_NtQueryVirtualMemory, query_virtual_memory),
      (ORD_NtReleaseSemaphore, release_semaphore),
      (ORD_NtResumeThread, resume_thread),
      (ORD_RtlCompareMemoryUlong, rtl_compare_memory_ulong),
      (ORD_RtlTimeFieldsToTime, time_fields_to_time),
      (ORD_RtlTimeToTimeFields, time_to_time_fields),
      (ORD_RtlUpcaseUnicodeChar, upcase_unicode_char),
      (ORD_XcModExp, xc_mod_exp),
      (ORD_XcDESKeyParity, xc_des_key_parity),
      (ORD_XcKeyTable, xc_key_table),
      (ORD_XcBlockCrypt, xc_block_crypt),
      (ORD_XcBlockCryptCBC, xc_block_crypt_cbc),
      (ORD_XcSHAInit, xc_sha_init junk),
      (ORD_XcSHAUpdate, xc_sha_update),
      (ORD_XcSHAFinal, xc_sha_final),
      (ORD_XcRC4Key, xc_rc4_key_call),
      (ORD_XcRC4Crypt, xc_rc4_crypt_call),
      (ORD_XcHMAC, xc_hmac junk)]"

definition stub_table :: "(u32 \<times> hle_stub) list" where
  "stub_table = map (\<lambda>b. (stub_ordinal b, b)) hle_stubs"

section \<open>The handler\<close>

text \<open>Entering and leaving critical sections over and over yields.\<close>

definition count_spins :: "u32 \<Rightarrow> hle_state \<Rightarrow> hle_state" where
  "count_spins ordinal = (\<lambda>(m, h).
     if ordinal = ORD_RtlEnterCriticalSection \<or> ordinal = ORD_RtlLeaveCriticalSection then
       if cs_spins h + 1 > 200 then halt_cpu (m, h\<lparr>cs_spins := 0\<rparr>)
       else (m, h\<lparr>cs_spins := cs_spins h + 1\<rparr>)
     else (m, h\<lparr>cs_spins := 0\<rparr>))"

definition unknown_call :: "hle_state \<Rightarrow> hle_state" where
  "unknown_call = (\<lambda>(m, h).
     (upd_ctx (\<lambda>c. c\<lparr>halted := True, stop_reason := STOP_INVALID_OPCODE\<rparr>) (set_reg GP_EAX 0xC0000002 m), h))"

definition hle_call :: "bytes \<Rightarrow> hle_env \<Rightarrow> u32 \<Rightarrow> hle_state \<Rightarrow> hle_state option" where
  "hle_call junk env ordinal s =
     (case map_of stub_table ordinal of
        Some b \<Rightarrow> run_stub b s
      | None \<Rightarrow>
          (case map_of (hle_calls junk env) ordinal of
             Some f \<Rightarrow> f s
           | None \<Rightarrow> Some (unknown_call s)))"

text \<open>The return address is read for a message.\<close>

definition default_hle_handler :: "bytes \<Rightarrow> hle_env \<Rightarrow> u32 \<Rightarrow> executor \<Rightarrow> (bool \<times> executor) option" where
  "default_hle_handler junk env ordinal x = do {
     _ \<leftarrow> in32 (reg GP_ESP (mach x)) (ram (mach x));
     (m, h) \<leftarrow> hle_call junk env ordinal (count_spins ordinal (mach x, hle_user x));
     Some (True, x\<lparr>mach := m, hle_user := h\<rparr>)
   }"

section \<open>What every call keeps\<close>

text \<open>A call of \<open>n\<close> arguments: they are popped, the return address the call leaves at the old top of the
  stack stands at the new one (0 when the old one is no memory), where the \<open>RET\<close> of the stub takes it,
  the registers a caller relies on are as before, and of the rest of the context only whether the
  processor is halted may change.\<close>

definition same_cpu :: "guest_context \<Rightarrow> guest_context \<Rightarrow> bool" where
  "same_cpu c c' \<longleftrightarrow> c'\<lparr>gp := gp c, halted := halted c\<rparr> = c"

definition popped :: "nat \<Rightarrow> guest_context \<Rightarrow> machine \<Rightarrow> bool" where
  "popped n c m \<longleftrightarrow>
     (let c' = ctx m; esp = gp c GP_ESP; new_esp = esp + 4 * of_nat n in
      gp c' GP_ESP = new_esp \<and>
      (ram_fits new_esp 4 \<longrightarrow> in32 new_esp (ram m) = in32 esp (ram m)) \<and>
      (\<forall>r. r \<noteq> GP_EAX \<and> r \<noteq> GP_EDX \<and> r \<noteq> GP_ESP \<longrightarrow> gp c' r = gp c r) \<and>
      same_cpu c c')"

lemma same_cpu_refl [simp]: "same_cpu c c"
  by (simp add: same_cpu_def)

lemma same_cpu_regs [simp]: "same_cpu c (d\<lparr>gp := g\<rparr>) = same_cpu c d" "same_cpu c (d\<lparr>halted := h\<rparr>) = same_cpu c d"
    "same_cpu (c\<lparr>gp := g\<rparr>) d = same_cpu c d"
  by (simp_all add: same_cpu_def) (cases c; cases d; simp)

lemma same_cpu_trans:
  assumes "same_cpu c d" and "same_cpu d e"
  shows "same_cpu c e"
proof -
  have "e\<lparr>gp := gp c, halted := halted c\<rparr> = (e\<lparr>gp := gp d, halted := halted d\<rparr>)\<lparr>gp := gp c, halted := halted c\<rparr>"
    by simp
  with assms show ?thesis unfolding same_cpu_def by metis
qed

lemma same_cpu_eip: "same_cpu c d \<Longrightarrow> same_cpu (c\<lparr>eip := v\<rparr>) (d\<lparr>eip := v\<rparr>)"
  unfolding same_cpu_def by (cases c; cases d) simp

definition pops :: "nat \<Rightarrow> (hle_state \<Rightarrow> hle_state option) \<Rightarrow> bool" where
  "pops n f \<longleftrightarrow> (\<forall>s s'. f s = Some s' \<longrightarrow> popped n (ctx (fst s)) (fst s'))"

lemma popsI: "(\<And>s s'. f s = Some s' \<Longrightarrow> popped n (ctx (fst s)) (fst s')) \<Longrightarrow> pops n f"
  by (simp add: pops_def)

lemma popsD: "pops n f \<Longrightarrow> f s = Some s' \<Longrightarrow> popped n (ctx (fst s)) (fst s')"
  unfolding pops_def by blast

lemma on_mem_keeps: "on_mem f s = Some s' \<Longrightarrow> ctx (fst s') = ctx (fst s) \<and> snd s' = snd s"
  by (auto simp: on_mem_def set_mem_def split: prod.splits)

lemma cleanup_ctx:
  "stdcall_cleanup n s = Some s' \<Longrightarrow>
    ctx (fst s') = (ctx (fst s))\<lparr>gp := (gp (ctx (fst s)))(GP_ESP := gp (ctx (fst s)) GP_ESP + 4 * of_nat n)\<rparr> \<and> snd s' = snd s"
  by (cases s) (auto simp: stdcall_cleanup_def set_reg_def upd_ctx_def bind_eq_Some_conv Let_def dest!: on_mem_keeps split: if_splits)

lemma ret_eax_ctx [simp]:
  "ctx (fst (ret_eax v s)) = (ctx (fst s))\<lparr>gp := (gp (ctx (fst s)))(GP_EAX := v)\<rparr>" "snd (ret_eax v s) = snd s"
  by (cases s; simp add: ret_eax_def set_reg_def upd_ctx_def)+

text \<open>The return address moves up over the arguments.\<close>

lemma cleanup_moves:
  assumes "stdcall_cleanup n s = Some s'" and "n \<le> 100"
    and fits: "ram_fits (gp (ctx (fst s)) GP_ESP + 4 * of_nat n) 4"
  shows "in32 (gp (ctx (fst s)) GP_ESP + 4 * of_nat n) (ram (fst s')) = in32 (gp (ctx (fst s)) GP_ESP) (ram (fst s'))"
proof (cases "n = 0")
  case False
  define esp where "esp = gp (ctx (fst s)) GP_ESP"
  define b where "b = esp + 4 * of_nat n"
  obtain ra where ra: "in32 esp (ram (fst s)) = Some ra"
    and w: "wr GUEST_RAM_SIZE 4 (ram (fst s)) (unat b) ra = Some (ram (fst s'))"
    using assms(1) False fits
    by (cases s) (auto simp: stdcall_cleanup_def on_mem_def out32_def if_fits_def set_reg_def upd_ctx_def set_mem_def
        set_ram_def bind_eq_Some_conv Let_def b_def esp_def)
  then have m': "ram (fst s') = st 4 (ram (fst s)) (unat b) ra" and b: "unat b + 4 \<le> GUEST_RAM_SIZE"
    by (auto simp: wr_def split: if_splits)
  have new: "in32 b (ram (fst s')) = Some ra"
    using b fits by (simp add: in32_def rd_def m' ld_st_same b_def esp_def)
  have "in32 esp (ram (fst s')) = Some ra"
  proof (cases "ram_fits esp 4")
    case True
    then have e: "unat esp + 4 \<le> GUEST_RAM_SIZE" "ra = ld 4 (ram (fst s)) (unat esp)"
      using ra by (auto simp: in32_def rd_def split: if_splits)
    have "unat b = unat esp + 4 * n"
      using e(1) assms(2) by (simp add: b_def unat_word_ariths unat_of_nat)
    then show ?thesis using True e False by (simp add: in32_def rd_def m' ld_st_disjoint)
  next
    case False
    then show ?thesis using ra by (simp add: in32_def)
  qed
  with new show ?thesis by (simp add: b_def esp_def)
qed simp

lemma cleanup_popped: "stdcall_cleanup n s = Some s' \<Longrightarrow> n \<le> 100 \<longrightarrow> popped n (ctx (fst s)) (fst s')"
  using cleanup_ctx cleanup_moves by (auto simp: popped_def Let_def)

lemma leave_call_popped: "leave_call v n s = Some s' \<Longrightarrow> n \<le> 100 \<longrightarrow> popped n (ctx (fst s)) (fst s')"
  using cleanup_popped [of n "ret_eax v s" s'] by (auto simp: leave_call_def popped_def Let_def)

lemma alloc_clear_keeps: "alloc_clear n align k s = Some y \<Longrightarrow> ctx (fst (snd y)) = ctx (fst s)"
  by (cases s) (auto simp: alloc_clear_def Let_def dest!: on_mem_keeps split: if_splits prod.splits)

lemma exchange_keeps: "exchange_with f p s = Some y \<Longrightarrow> ctx (fst (snd y)) = ctx (fst s)"
  by (auto simp: exchange_with_def bind_eq_Some_conv dest!: on_mem_keeps split: if_splits)

lemma queue_dpc_keeps: "queue_dpc p t s = Some s' \<Longrightarrow> ctx (fst s') = ctx (fst s)"
  by (auto simp: queue_dpc_def bind_eq_Some_conv split: if_splits)

lemma port_write_keeps: "port_write env p v n s = Some s' \<Longrightarrow> ctx (fst s') = ctx (fst s)"
  by (cases s) (auto simp: port_write_def)

lemma port_read_keeps: "port_read env p n s = Some y \<Longrightarrow> ctx (fst (snd y)) = ctx (fst s)"
  by (cases s) (auto simp: port_read_def)

lemma config_chunk_keeps: "config_chunk env w port buf off n s = Some s' \<Longrightarrow> ctx (fst s') = ctx (fst s)"
  by (auto simp: config_chunk_def bind_eq_Some_conv dest!: on_mem_keeps port_write_keeps port_read_keeps split: if_splits)

lemma config_loop_keeps: "config_loop env w port buf cfg off n s = Some s' \<Longrightarrow> ctx (fst s') = ctx (fst s)"
proof (induction env w port buf cfg off n s rule: config_loop.induct)
  case (1 env w port buf cfg off n s)
  show ?case
  proof (cases "n = 0")
    case True
    then show ?thesis using 1(2) by (simp add: config_loop.simps)
  next
    case n: False
    then obtain s1 where s1: "config_chunk env w port buf off (min 4 n) s = Some s1"
      using 1(2) by (auto simp: config_loop.simps [of env w port buf cfg off n s] bind_eq_Some_conv)
    show ?thesis
    proof (cases "n \<le> 4")
      case True
      then show ?thesis using 1(2) n s1 config_chunk_keeps [OF s1]
        by (simp add: config_loop.simps [of env w port buf cfg off n s])
    next
      case False
      then obtain s2 where s2: "port_write env 0x0CF8 (cfg + 4) 4 s1 = Some s2"
          and l: "config_loop env w port buf (cfg + 4) (off + 4) (n - 4) s2 = Some s'"
        using 1(2) n s1 by (auto simp: config_loop.simps [of env w port buf cfg off n s] bind_eq_Some_conv)
      from 1(1) [OF n s1 False s2 l] show ?thesis
        using config_chunk_keeps [OF s1] port_write_keeps [OF s2] by simp
    qed
  qed
qed

lemma change_section_keeps: "change_section fs s = Some s' \<Longrightarrow> ctx (fst s') = ctx (fst s)"
  by (auto simp: change_section_def bind_eq_Some_conv dest!: on_mem_keeps)

lemma opened_popped: "opened a b n v k s = Some s' \<Longrightarrow> k \<le> 100 \<longrightarrow> popped k (ctx (fst s)) (fst s')"
  by (auto simp: opened_def bind_eq_Some_conv dest!: on_mem_keeps leave_call_popped)

lemma read_position_keeps: "read_position n buf len f s = Some y \<Longrightarrow> ctx (fst (snd y)) = ctx (fst s)"
  by (cases s; cases "hf_fp f")
    (auto simp: read_position_def bind_eq_Some_conv set_mem_def case_prod_beta split: if_splits)

lemma read_host_file_keeps: "read_host_file n off buf len f s = Some y \<Longrightarrow> ctx (fst (snd y)) = ctx (fst s)"
  by (auto simp: read_host_file_def bind_eq_Some_conv dest: read_position_keeps)

lemma queue_thread_ctx [simp]: "ctx (fst (queue_thread a b s)) = ctx (fst s)"
  by (cases s) (simp add: queue_thread_def)

lemmas call_steps = on_mem_keeps alloc_clear_keeps exchange_keeps queue_dpc_keeps port_write_keeps config_loop_keeps
  change_section_keeps read_host_file_keeps leave_call_popped cleanup_popped opened_popped

lemmas call_parts = create_fake_handle_def interlocked_step_def

lemma memory_calls_pop:
  "pops 1 allocate_contiguous"
  "pops 5 allocate_contiguous_ex"
  "pops 1 get_physical_address"
  "pops 5 allocate_virtual_memory"
  "pops 2 allocate_pool_with_tag"
  "pops 4 map_io_space"
  "pops 2 claim_gpu_instance_memory"
  "pops 2 create_kernel_stack"
  "pops 2 allocate_system_memory"
  "pops 1 is_address_valid"
  "pops 1 query_statistics"
  "pops 4 query_virtual_memory"
  unfolding allocate_contiguous_def allocate_contiguous_ex_def get_physical_address_def allocate_virtual_memory_def allocate_pool_with_tag_def map_io_space_def claim_gpu_instance_memory_def create_kernel_stack_def allocate_system_memory_def is_address_valid_def query_statistics_def query_virtual_memory_def
  by (rule popsI, auto simp: bind_eq_Some_conv call_parts Let_def case_prod_beta dest!: call_steps
    split: if_splits option.splits host_entry.splits)+

lemma handle_calls_pop:
  "pops 1 nt_close"
  "pops 5 nt_create_event"
  "pops 4 nt_create_mutant"
  "pops 5 nt_create_semaphore"
  "pops 6 reference_object_by_handle"
  "pops 6 io_create_device"
  "pops 14 io_create_file"
  "pops 3 duplicate_object"
  unfolding nt_close_def nt_create_event_def nt_create_mutant_def nt_create_semaphore_def reference_object_by_handle_def io_create_device_def io_create_file_def duplicate_object_def
  by (rule popsI, auto simp: bind_eq_Some_conv call_parts Let_def case_prod_beta dest!: call_steps
    split: if_splits option.splits host_entry.splits)+

lemma information_calls_pop:
  "pops 4 read_smbus_value"
  "pops 5 query_nonvolatile_setting"
  "pops 1 nt_status_to_dos_error"
  "pops 1 (query_system_time env)"
  "pops 2 get_interrupt_vector"
  "pops 2 read_tray_state"
  "pops 6 (read_write_pci_space env)"
  "pops 2 time_fields_to_time"
  "pops 2 time_to_time_fields"
  unfolding read_smbus_value_def query_nonvolatile_setting_def nt_status_to_dos_error_def query_system_time_def get_interrupt_vector_def read_tray_state_def read_write_pci_space_def time_fields_to_time_def time_to_time_fields_def
  by (rule popsI, auto simp: bind_eq_Some_conv call_parts Let_def case_prod_beta dest!: call_steps
    split: if_splits option.splits host_entry.splits)+

lemma counter_calls_pop:
  "pops 0 (query_performance_counter env)"
  "pops 0 query_performance_frequency"
  unfolding query_performance_counter_def query_performance_frequency_def
  by (rule popsI, auto simp: popped_def set_reg_def upd_ctx_def Let_def)+

lemma thread_calls_pop:
  "pops 3 initialize_dpc"
  "pops 4 set_timer"
  "pops 5 set_timer_ex"
  "pops 7 create_system_thread"
  "pops 10 create_system_thread_ex"
  "pops 3 insert_queue_dpc"
  "pops 3 release_semaphore"
  "pops 2 resume_thread"
  unfolding initialize_dpc_def set_timer_def set_timer_ex_def create_system_thread_def create_system_thread_ex_def insert_queue_dpc_def release_semaphore_def resume_thread_def
  by (rule popsI, auto simp: bind_eq_Some_conv call_parts Let_def case_prod_beta dest!: call_steps
    split: if_splits option.splits host_entry.splits)+

lemma section_calls_pop:
  "pops 1 enter_critical_section"
  "pops 1 leave_critical_section"
  "pops 1 initialize_critical_section"
  "pops 3 interlocked_compare_exchange"
  "pops 1 interlocked_decrement"
  "pops 1 interlocked_increment"
  "pops 2 interlocked_exchange"
  "pops 1 try_enter_critical_section"
  "pops 1 enter_critical_section_and_region"
  "pops 1 leave_critical_section_and_region"
  "pops 2 interlocked_exchange_add"
  unfolding enter_critical_section_def leave_critical_section_def initialize_critical_section_def interlocked_compare_exchange_def interlocked_decrement_def interlocked_increment_def interlocked_exchange_def try_enter_critical_section_def enter_critical_section_and_region_def leave_critical_section_and_region_def interlocked_exchange_add_def
  by (rule popsI, auto simp: bind_eq_Some_conv call_parts Let_def case_prod_beta dest!: call_steps
    split: if_splits option.splits host_entry.splits)+

lemma string_calls_pop:
  "pops 2 rtl_init_ansi_string"
  "pops 2 rtl_init_unicode_string"
  "pops 3 rtl_compare_memory"
  "pops 3 rtl_move_memory"
  "pops 3 rtl_fill_memory"
  "pops 2 rtl_zero_memory"
  "pops 3 rtl_equal_string"
  "pops 3 ansi_to_unicode"
  "pops 3 unicode_to_ansi"
  "pops 2 copy_unicode_string"
  "pops 2 rtl_create_unicode_string"
  "pops 3 rtl_compare_memory_ulong"
  "pops 1 upcase_unicode_char"
  unfolding rtl_init_ansi_string_def rtl_init_unicode_string_def rtl_compare_memory_def rtl_move_memory_def rtl_fill_memory_def rtl_zero_memory_def rtl_equal_string_def ansi_to_unicode_def unicode_to_ansi_def copy_unicode_string_def rtl_create_unicode_string_def rtl_compare_memory_ulong_def upcase_unicode_char_def
  by (rule popsI, auto simp: bind_eq_Some_conv call_parts Let_def case_prod_beta dest!: call_steps
    split: if_splits option.splits host_entry.splits)+

lemma open_calls_pop:
  "pops 6 (nt_open_file env)"
  "pops 9 (nt_create_file env)"
  "pops 2 (nt_query_full_attributes_file env)"
  unfolding nt_open_file_def nt_create_file_def nt_query_full_attributes_file_def
  by (rule popsI, auto simp: bind_eq_Some_conv call_parts Let_def case_prod_beta dest!: call_steps
    split: if_splits option.splits host_entry.splits)+

lemma transfer_calls_pop:
  "pops 8 nt_read_file"
  "pops 8 nt_write_file"
  unfolding nt_read_file_def nt_write_file_def
  by (rule popsI, auto simp: bind_eq_Some_conv call_parts Let_def case_prod_beta dest!: call_steps
    split: if_splits option.splits host_entry.splits)+

lemma file_information_calls_pop:
  "pops 5 nt_set_information_file"
  "pops 5 nt_query_information_file"
  unfolding nt_set_information_file_def nt_query_information_file_def
  by (rule popsI, auto simp: bind_eq_Some_conv call_parts Let_def case_prod_beta dest!: call_steps
    split: if_splits option.splits host_entry.splits)+

lemma directory_calls_pop:
  "pops 5 nt_query_volume_information_file"
  "pops 9 nt_query_directory_file"
  unfolding nt_query_volume_information_file_def nt_query_directory_file_def
  by (rule popsI, auto simp: bind_eq_Some_conv call_parts Let_def case_prod_beta dest!: call_steps
    split: if_splits option.splits host_entry.splits)+

lemmas file_calls_pop = open_calls_pop transfer_calls_pop file_information_calls_pop directory_calls_pop

lemma crypto_calls_pop:
  "pops 5 xc_mod_exp"
  "pops 2 xc_des_key_parity"
  "pops 3 xc_key_table"
  "pops 5 xc_block_crypt"
  "pops 7 xc_block_crypt_cbc"
  "pops 1 (xc_sha_init junk)"
  "pops 3 xc_sha_update"
  "pops 2 xc_sha_final"
  "pops 3 xc_rc4_key_call"
  "pops 3 xc_rc4_crypt_call"
  "pops 7 (xc_hmac junk)"
  unfolding xc_mod_exp_def xc_des_key_parity_def xc_key_table_def xc_block_crypt_def xc_block_crypt_cbc_def xc_sha_init_def xc_sha_update_def xc_sha_final_def xc_rc4_key_call_def xc_rc4_crypt_call_def xc_hmac_def
  by (rule popsI, auto simp: bind_eq_Some_conv call_parts Let_def case_prod_beta dest!: call_steps
    split: if_splits option.splits host_entry.splits)+


lemma popped_stopped:
  "popped n (ctx (fst s)) (fst s') \<Longrightarrow> popped n ((ctx (fst s))\<lparr>eip := 0xFFFFFFFF\<rparr>) (fst (stop_thread s'))"
  by (cases s') (simp add: popped_def stop_thread_def upd_ctx_def Let_def same_cpu_eip)

lemma popped_ret_eax: "popped n c (fst s) \<Longrightarrow> popped n c (fst (ret_eax v s))"
  by (cases s) (simp add: popped_def ret_eax_def set_reg_def upd_ctx_def Let_def)

lemma ending_calls_pop:
  "return_to_firmware s = Some s' \<Longrightarrow> popped 1 ((ctx (fst s))\<lparr>eip := 0xFFFFFFFF\<rparr>) (fst s')"
  "terminate_system_thread s = Some s' \<Longrightarrow> popped 1 ((ctx (fst s))\<lparr>eip := 0xFFFFFFFF\<rparr>) (fst s')"
  by (auto simp: return_to_firmware_def terminate_system_thread_def bind_eq_Some_conv
      intro!: popped_ret_eax popped_stopped dest!: cleanup_popped)

lemma popped_trans: "popped 0 c m \<Longrightarrow> popped n (ctx m) m' \<Longrightarrow> popped n c m'"
  using same_cpu_trans [of c "ctx m" "ctx m'"] by (simp add: popped_def Let_def)

lemma stub_pops:
  assumes "stub_args b \<le> 100"
  shows "pops (stub_args b) (run_stub b)"
proof (rule popsI)
  fix s s'
  assume r: "run_stub b s = Some s'"
  define s0 where "s0 = (case stub_result b of Some v \<Rightarrow> ret_eax v s | None \<Rightarrow> s)"
  have s0: "popped 0 (ctx (fst s)) (fst s0)" by (auto simp: s0_def popped_def Let_def split: option.split)
  obtain s1 where s1: "stdcall_cleanup (stub_args b) s0 = Some s1" "s' = (if stub_halts b then halt_cpu s1 else s1)"
    using r by (auto simp: run_stub_def s0_def)
  have "popped (stub_args b) (ctx (fst s0)) (fst s1)" using cleanup_popped [OF s1(1)] assms by simp
  with s0 have "popped (stub_args b) (ctx (fst s)) (fst s1)" by (rule popped_trans)
  then show "popped (stub_args b) (ctx (fst s)) (fst s')"
    by (cases s1) (auto simp: s1(2) halt_cpu_def upd_ctx_def popped_def Let_def)
qed

text \<open>The number of arguments of each call of the second table.\<close>

definition call_args :: "(u32 \<times> nat) list" where
  "call_args =
     [(ORD_ExAllocatePool, 1), (ORD_MmAllocateContiguousMemory, 1), (ORD_MmAllocateContiguousMemoryEx, 5),
      (ORD_MmGetPhysicalAddress, 1), (ORD_NtAllocateVirtualMemory, 5), (ORD_NtClose, 1),
      (ORD_HalReadSMBusValue, 4), (ORD_ExQueryNonVolatileSetting, 5), (ORD_RtlNtStatusToDosError, 1),
      (ORD_HalReturnToFirmware, 1), (ORD_KeInitializeDpc, 3), (ORD_KeQueryPerformanceCounter, 0),
      (ORD_KeQueryPerformanceFrequency, 0), (ORD_KeQuerySystemTime, 1), (ORD_KeSetTimer, 4),
      (ORD_KeSetTimerEx, 5), (ORD_PsCreateSystemThread, 7), (ORD_PsCreateSystemThreadEx, 10),
      (ORD_PsTerminateSystemThread, 1), (ORD_RtlEnterCriticalSection, 1), (ORD_RtlLeaveCriticalSection, 1),
      (ORD_RtlInitializeCriticalSection, 1), (ORD_RtlInitAnsiString, 2), (ORD_ExAllocatePoolWithTag, 2),
      (ORD_NtCreateEvent, 5), (ORD_NtCreateMutant, 4), (ORD_NtCreateSemaphore, 5),
      (ORD_ObReferenceObjectByHandle, 6), (ORD_InterlockedCompareExchange, 3), (ORD_InterlockedDecrement, 1),
      (ORD_InterlockedIncrement, 1), (ORD_InterlockedExchange, 2), (ORD_MmMapIoSpace, 4),
      (ORD_RtlInitUnicodeString, 2), (ORD_RtlCompareMemory, 3), (ORD_RtlMoveMemory, 3),
      (ORD_RtlFillMemory, 3), (ORD_RtlZeroMemory, 2), (ORD_RtlEqualString, 3),
      (ORD_IoCreateDevice, 6), (ORD_IoCreateFile, 14), (ORD_HalGetInterruptVector, 2),
      (ORD_NtOpenFile, 6), (ORD_NtReadFile, 8), (ORD_NtSetInformationFile, 5),
      (ORD_NtQueryInformationFile, 5), (ORD_NtQueryVolumeInformationFile, 5), (ORD_HalReadSMCTrayState, 2),
      (ORD_NtCreateFile, 9), (ORD_NtQueryFullAttributesFile, 2), (ORD_MmClaimGpuInstanceMemory, 2),
      (ORD_MmCreateKernelStack, 2), (ORD_MmAllocateSystemMemory, 2), (ORD_MmIsAddressValid, 1),
      (ORD_MmQueryStatistics, 1), (ORD_NtDuplicateObject, 3), (ORD_RtlAnsiStringToUnicodeString, 3),
      (ORD_RtlUnicodeStringToAnsiString, 3), (ORD_RtlTryEnterCriticalSection, 1), (ORD_RtlEnterCriticalSectionAndRegion, 1),
      (ORD_RtlLeaveCriticalSectionAndRegion, 1), (ORD_RtlCopyUnicodeString, 2), (ORD_RtlCreateUnicodeString, 2),
      (ORD_InterlockedExchangeAdd, 2), (ORD_HalReadWritePCISpace, 6), (ORD_KeInsertQueueDpc, 3),
      (ORD_NtWriteFile, 8), (ORD_NtQueryDirectoryFile, 9), (ORD_NtQueryVirtualMemory, 4),
      (ORD_NtReleaseSemaphore, 3), (ORD_NtResumeThread, 2), (ORD_RtlCompareMemoryUlong, 3),
      (ORD_RtlTimeFieldsToTime, 2), (ORD_RtlTimeToTimeFields, 2), (ORD_RtlUpcaseUnicodeChar, 1),
      (ORD_XcModExp, 5), (ORD_XcDESKeyParity, 2), (ORD_XcKeyTable, 3),
      (ORD_XcBlockCrypt, 5), (ORD_XcBlockCryptCBC, 7), (ORD_XcSHAInit, 1),
      (ORD_XcSHAUpdate, 3), (ORD_XcSHAFinal, 2), (ORD_XcRC4Key, 3),
      (ORD_XcRC4Crypt, 3), (ORD_XcHMAC, 7)]"

definition hle_args :: "u32 \<Rightarrow> nat" where
  "hle_args ordinal =
     (case map_of stub_table ordinal of
        Some b \<Rightarrow> stub_args b
      | None \<Rightarrow> (case map_of call_args ordinal of Some n \<Rightarrow> n | None \<Rightarrow> 0))"

text \<open>Two calls end the thread: they leave the instruction pointer where no code is.\<close>

definition ends_thread :: "u32 \<Rightarrow> bool" where
  "ends_thread ordinal \<longleftrightarrow> ordinal = ORD_HalReturnToFirmware \<or> ordinal = ORD_PsTerminateSystemThread"

definition call_pops :: "u32 \<times> (hle_state \<Rightarrow> hle_state option) \<Rightarrow> u32 \<times> nat \<Rightarrow> bool" where
  "call_pops = (\<lambda>(i, f) (j, n). i = j \<and> (\<forall>s s'. f s = Some s' \<longrightarrow>
     popped n (if ends_thread i then (ctx (fst s))\<lparr>eip := 0xFFFFFFFF\<rparr> else ctx (fst s)) (fst s')))"

lemma call_popsI: "\<not> ends_thread i \<Longrightarrow> pops n f \<Longrightarrow> call_pops (i, f) (i, n)"
  by (simp add: call_pops_def pops_def)

lemma ending_popsI:
  "call_pops (ORD_HalReturnToFirmware, return_to_firmware) (ORD_HalReturnToFirmware, 1)"
  "call_pops (ORD_PsTerminateSystemThread, terminate_system_thread) (ORD_PsTerminateSystemThread, 1)"
  by (auto simp: call_pops_def ends_thread_def dest!: ending_calls_pop)

lemma calls_pop: "list_all2 call_pops (hle_calls junk env) call_args"
  unfolding hle_calls_def call_args_def
  by (simp only: list_all2_Cons list_all2_Nil2 simp_thms)
    (intro conjI; (rule ending_popsI | rule call_popsI memory_calls_pop handle_calls_pop information_calls_pop
      counter_calls_pop thread_calls_pop section_calls_pop string_calls_pop file_calls_pop crypto_calls_pop
      | simp add: ends_thread_def)+)

definition call_context :: "u32 \<Rightarrow> guest_context \<Rightarrow> guest_context" where
  "call_context ordinal c = (if ends_thread ordinal then c\<lparr>eip := 0xFFFFFFFF\<rparr> else c)"

lemma call_popsD:
  "call_pops (i, f) (i, n) \<Longrightarrow> f s = Some s' \<Longrightarrow> popped n (call_context i (ctx (fst s))) (fst s')"
  unfolding call_pops_def call_context_def by (simp only: prod.case)

lemma map_of_pops:
  "list_all2 call_pops fs ns \<Longrightarrow> map_of fs i = Some f \<Longrightarrow>
    \<exists>n. map_of ns i = Some n \<and> call_pops (i, f) (i, n)"
proof (induction fs ns rule: list_all2_induct)
  case (Cons x xs y ys)
  have "fst x = fst y" using Cons(1) by (cases x; cases y) (simp add: call_pops_def)
  then show ?case using Cons by (cases x; cases y) (cases "fst x = i"; simp)
qed simp

lemma stub_table_ordinal: "map_of stub_table i = Some b \<Longrightarrow> stub_ordinal b = i"
  by (auto simp: stub_table_def dest!: map_of_SomeD)

definition hle_handled :: "u32 \<Rightarrow> bool" where
  "hle_handled ordinal \<longleftrightarrow> map_of stub_table ordinal \<noteq> None \<or> map_of call_args ordinal \<noteq> None"

lemma stubs_return: "b \<in> set hle_stubs \<Longrightarrow> \<not> ends_thread (stub_ordinal b)"
proof -
  have "list_all (\<lambda>b. \<not> ends_thread (stub_ordinal b)) hle_stubs" by code_simp
  then show "b \<in> set hle_stubs \<Longrightarrow> \<not> ends_thread (stub_ordinal b)" by (simp add: list_all_iff)
qed

lemma stubs_small: "b \<in> set hle_stubs \<Longrightarrow> stub_args b \<le> 100"
proof -
  have "list_all (\<lambda>b. stub_args b \<le> 100) hle_stubs" by code_simp
  then show "b \<in> set hle_stubs \<Longrightarrow> stub_args b \<le> 100" by (simp add: list_all_iff)
qed

lemma count_spins_popped: "popped 0 (ctx (fst s)) (fst (count_spins i s))"
  by (cases s) (auto simp: count_spins_def halt_cpu_def upd_ctx_def popped_def Let_def)

lemma popped_call_trans:
  "popped 0 c m \<Longrightarrow> popped n (call_context i (ctx m)) m' \<Longrightarrow> popped n (call_context i c) m'"
  by (auto simp: popped_def call_context_def Let_def intro: same_cpu_trans same_cpu_eip split: if_splits)

lemma hle_calls_ordinals: "map fst (hle_calls junk env) = map fst call_args"
  by (simp only: hle_calls_def call_args_def list.map fst_conv)

lemma hle_call_popped:
  assumes c: "hle_call junk env i s = Some s'" and h: "hle_handled i"
  shows "popped (hle_args i) (call_context i (ctx (fst s))) (fst s')"
proof (cases "map_of stub_table i")
  case None
  obtain f where f: "map_of (hle_calls junk env) i = Some f"
  proof -
    have "map_of (hle_calls junk env) i \<noteq> None"
      using h None hle_calls_ordinals [of junk env]
      by (simp add: hle_handled_def map_of_eq_None_iff) (metis list.set_map)
    then show ?thesis using that by blast
  qed
  from map_of_pops [OF calls_pop f] obtain n where n: "map_of call_args i = Some n" "call_pops (i, f) (i, n)" by blast
  moreover have "f s = Some s'" using c None f by (simp add: hle_call_def)
  ultimately show ?thesis using None by (simp add: hle_args_def call_popsD)
next
  case (Some b)
  then have "b \<in> set hle_stubs" by (auto simp: stub_table_def dest: map_of_SomeD)
  then have "\<not> ends_thread i" using stubs_return [of b] stub_table_ordinal [OF Some] by simp
  moreover have "popped (stub_args b) (ctx (fst s)) (fst s')"
    using c Some stubs_small [OF \<open>b \<in> set hle_stubs\<close>] by (intro popsD [OF stub_pops]) (simp_all add: hle_call_def)
  ultimately show ?thesis using Some by (simp add: hle_args_def call_context_def)
qed

text \<open>The processor with this kernel behind vector 0x20.\<close>

definition with_hle :: "bytes \<Rightarrow> hle_env \<Rightarrow> outside \<Rightarrow> outside" where
  "with_hle junk env w = w\<lparr>hle_handler := Some (default_hle_handler junk env), hle_vector := HLE_INT_VECTOR\<rparr>"

text \<open>C11: The calling convention.  When a stub's \<open>INT 0x20\<close> comes back from a call the kernel has, the
  arguments are popped, the return address stands at the new top of the stack as at the old one, for the
  \<open>RET\<close> of the stub, EBX, ESI, EDI, EBP and ECX and the whole rest of the context but the halt flag are as
  they were, and execution goes on after the instruction, unless the call ends the thread.  For a call the
  kernel does not have the halt flag is set and the stop reason is that of an invalid instruction.\<close>

theorem hle_call_convention:
  assumes "op0 i = ImmOp 0x20"
    and "priv_int (with_hle junk env w) i x = Some x'"
    and ordinal: "ordinal = reg GP_EAX (mach x)"
  shows "if hle_handled ordinal
    then popped (hle_args ordinal) (call_context ordinal (ctx (advance i (mach x)))) (mach x')
    else halted (ctx (mach x')) \<and> stop_reason (ctx (mach x')) = STOP_INVALID_OPCODE"
proof -
  define s where "s = count_spins ordinal (advance i (mach x), hle_user x)"
  have "(ucast (0x20 :: u32) :: u8) = HLE_INT_VECTOR" by simp
  then obtain m h where c: "hle_call junk env ordinal s = Some (m, h)" and x': "x' = x\<lparr>mach := m, hle_user := h\<rparr>"
    using assms by (auto simp: priv_int_def with_hle_def default_hle_handler_def bind_eq_Some_conv Let_def s_def)
  have s: "popped 0 (ctx (advance i (mach x))) (fst s)"
    using count_spins_popped [of "(advance i (mach x), hle_user x)"] by (simp add: s_def)
  show ?thesis
  proof (cases "hle_handled ordinal")
    case True
    from popped_call_trans [OF s hle_call_popped [OF c True]] show ?thesis using True by (simp add: x')
  next
    case False
    have "map_of (hle_calls junk env) ordinal = None"
      using False hle_calls_ordinals [of junk env] by (simp add: hle_handled_def map_of_eq_None_iff) (metis list.set_map)
    then show ?thesis
      using False c by (cases s) (auto simp: hle_handled_def hle_call_def unknown_call_def upd_ctx_def x')
  qed
qed

definition quiet_env :: hle_env where
  "quiet_env = \<lparr>he_disk = (\<lambda>_. None), he_tsc = 0, he_ports = []\<rparr>"

definition int_20 :: insn where
  "int_20 = \<lparr>mnem = INT_N, ilen = 2, op0 = ImmOp 0x20, op1 = NoOp, op0_size = 8, op1_size = 0,
     visible_ops = 1, has_rep = False\<rparr>"

definition no_world :: outside where
  "no_world = \<lparr>decode = (\<lambda>_. None), tsc = 0, ports = [], hle_handler = None, hle_vector = 0\<rparr>"

definition wait_demo :: executor where
  "wait_demo = executor_start (set_regs [(GP_EAX, ORD_KeWaitForSingleObject), (GP_ESP, 0x1000)] (executor_init True)) 0x100000"

lemma wait_call: "map_of stub_table ORD_KeWaitForSingleObject = Some (Stub ORD_KeWaitForSingleObject (Some 0) 5 True)"
  by code_simp

theorem hle_call_convention_witness:
  "\<exists>x'. priv_int (with_hle (\<lambda>_. 0) quiet_env no_world) int_20 wait_demo = Some x' \<and>
     popped 5 (ctx (advance int_20 (mach wait_demo))) (mach x') \<and>
     in32 0x1014 (ram (mach x')) = in32 0x1000 (ram (mach x'))"
proof -
  have e: "reg GP_EAX (mach wait_demo) = ORD_KeWaitForSingleObject" "reg GP_ESP (mach wait_demo) = 0x1000"
    by (simp_all add: wait_demo_def executor_start_def set_regs_def set_reg_def upd_ctx_def)
  have "\<exists>x'. priv_int (with_hle (\<lambda>_. 0) quiet_env no_world) int_20 wait_demo = Some x'"
    using e by (simp add: priv_int_def with_hle_def int_20_def default_hle_handler_def advance_def upd_ctx_def
        in32_def ram_fits_def count_spins_def hle_call_def wait_call run_stub_def stdcall_cleanup_def ret_eax_def
        set_reg_def on_mem_def out32_def if_fits_def halt_cpu_def Let_def)
  then obtain x' where x': "priv_int (with_hle (\<lambda>_. 0) quiet_env no_world) int_20 wait_demo = Some x'" by blast
  have h: "hle_handled ORD_KeWaitForSingleObject" "hle_args ORD_KeWaitForSingleObject = 5"
    "\<not> ends_thread ORD_KeWaitForSingleObject"
    by (simp_all add: hle_handled_def hle_args_def wait_call ends_thread_def)
  have "op0 int_20 = ImmOp 0x20" by (simp add: int_20_def)
  from hle_call_convention [OF this x' e(1) [symmetric]]
  have p: "popped 5 (ctx (advance int_20 (mach wait_demo))) (mach x')" using h by (simp add: call_context_def)
  moreover have "gp (ctx (advance int_20 (mach wait_demo))) GP_ESP = 0x1000"
    using e(2) by (simp add: advance_def upd_ctx_def)
  ultimately show ?thesis using x' by (auto simp: popped_def Let_def ram_fits_def)
qed

end
