(* ===== verification/Hle_Facts.thy ===== *)
theory Hle_Facts
  imports Hle_Dispatch Nbox_Host
begin

text \<open>
  What the high-level kernel's calls guarantee: the ranges its allocator gives out, strings, files, and
  the cryptographic contexts in guest memory.
\<close>

section \<open>The allocator\<close>

lemma clear_low_unat: "unat (w AND NOT (2 ^ k - 1) :: u32) = unat w div 2 ^ k * 2 ^ k"
proof -
  have "(w AND NOT (mask k)) OR take_bit k w = w" "(w AND NOT (mask k)) AND take_bit k w = 0"
    by (rule bit_word_eqI, auto simp: bit_or_iff bit_and_iff bit_not_iff bit_mask_iff bit_take_bit_iff)+
  then have "(w AND NOT (mask k)) + take_bit k w = w" by (simp add: disjunctive_add_eq_or)
  then have "w AND NOT (mask k) = w - take_bit k w" by (simp add: eq_diff_eq)
  then have "w AND NOT (2 ^ k - 1) = w - take_bit k w" by (simp add: mask_eq_exp_minus_1)
  moreover have t: "unat (take_bit k w) = unat w mod 2 ^ k"
    using unat_and_mask [of w k] by (simp add: take_bit_eq_mask)
  moreover have "unat (w - take_bit k w) = unat w - unat (take_bit k w)"
    by (rule unat_sub) (simp add: word_le_nat_alt t)
  ultimately show ?thesis by (simp add: minus_mod_eq_div_mult)
qed

text \<open>The heap between its limits.\<close>

definition heap_sane :: "xbe_heap \<Rightarrow> bool" where
  "heap_sane h \<longleftrightarrow> next_alloc h \<le> heap_limit h \<and> unat (heap_limit h) \<le> GUEST_RAM_SIZE"

lemma new_heap_sane: "heap_sane new_heap"
  by (simp add: heap_sane_def new_heap_def)

lemma align_up_unat:
  assumes "k < 32" and "unat a + 2 ^ k \<le> 2 ^ 32"
  shows "unat (align_up (2 ^ k) a) = (unat a + 2 ^ k - 1) div 2 ^ k * 2 ^ k"
proof -
  have "(2 :: nat) ^ k < 2 ^ 32" using assms(1) by (rule power_strict_increasing) simp
  then have m: "unat (of_nat (2 ^ k - 1) :: u32) = 2 ^ k - 1" by (intro unat_of_nat_32) simp
  have "(2 ^ k - 1 :: u32) = of_nat (2 ^ k - 1)" by (simp add: of_nat_diff)
  then have "unat (a + (2 ^ k - 1)) = unat a + (2 ^ k - 1)"
    using assms(2) m unat_plus [of a "2 ^ k - 1"] by simp
  then show ?thesis using clear_low_unat [of "a + (2 ^ k - 1)" k] by (simp add: align_up_def add_diff_eq)
qed

lemma round_up_bounds: "0 < q \<Longrightarrow> a \<le> (a + q - 1) div q * q \<and> (a + q - 1) div q * q < a + q" for a q :: nat
proof -
  assume q: "0 < q"
  have "(a + q - 1) div q * q + (a + q - 1) mod q = a + q - 1" by simp
  moreover have "(a + q - 1) mod q < q" using q by simp
  ultimately show ?thesis using q by linarith
qed

text \<open>One allocation, of at most 2 GB, aligned to at most 16 MB.\<close>

lemma heap_alloc_result:
  assumes h: "heap_sane h" and k: "k \<le> 24" and n: "unat n \<le> 2 ^ 31"
  obtains "heap_alloc n (2 ^ k) h = (0, h)"
  | a where "heap_alloc n (2 ^ k) h = (a, h\<lparr>next_alloc := a + n\<rparr>)" "2 ^ k dvd unat a"
      "unat (next_alloc h) \<le> unat a" "unat a + unat n \<le> unat (heap_limit h)" "unat (a + n) = unat a + unat n"
proof -
  define a where "a = align_up (2 ^ k) (next_alloc h)"
  have le: "unat (next_alloc h) \<le> unat (heap_limit h)" "unat (heap_limit h) \<le> 0x8000000"
    using h by (simp_all add: heap_sane_def word_le_nat_alt)
  have p: "(2 :: nat) ^ k \<le> 2 ^ 24" using k by (intro power_increasing) simp_all
  have ua: "unat a = (unat (next_alloc h) + 2 ^ k - 1) div 2 ^ k * 2 ^ k"
    unfolding a_def by (rule align_up_unat) (use k p le in \<open>simp_all\<close>)
  have b: "unat (next_alloc h) \<le> unat a" "unat a < unat (next_alloc h) + 2 ^ k"
    using round_up_bounds [of "2 ^ k" "unat (next_alloc h)"] by (simp_all add: ua)
  show ?thesis
  proof (cases "a + n > heap_limit h")
    case True
    then show ?thesis using that(1) by (simp add: heap_alloc_def Let_def flip: a_def)
  next
    case False
    moreover have u: "unat (a + n) = unat a + unat n" by (rule unat_plus) (use b p le n in simp)
    ultimately have "unat a + unat n \<le> unat (heap_limit h)" by (simp add: word_le_nat_alt not_less)
    moreover have "2 ^ k dvd unat a" by (simp add: ua)
    ultimately show ?thesis
      using False b u by (intro that(2) [of a]) (simp_all add: heap_alloc_def Let_def flip: a_def)
  qed
qed

text \<open>A sequence of requests: the ranges that are given out, each with the alignment it was asked for.\<close>

fun heap_allocs :: "(u32 \<times> nat) list \<Rightarrow> xbe_heap \<Rightarrow> (nat \<times> nat \<times> nat) list" where
  "heap_allocs [] h = []"
| "heap_allocs ((n, k) # rs) h =
     (let (a, h) = heap_alloc n (2 ^ k) h; gs = heap_allocs rs h in if a = 0 then gs else (unat a, unat n, k) # gs)"

lemma heap_allocs_above:
  assumes "heap_sane h" and "list_all (\<lambda>(n, k). unat n \<le> 2 ^ 31 \<and> k \<le> 24) rs"
  shows "sorted_wrt (\<lambda>(a, n, _) (b, _). a + n \<le> b) (heap_allocs rs h) \<and>
    (\<forall>(a, n, k) \<in> set (heap_allocs rs h). 2 ^ k dvd a \<and> unat (next_alloc h) \<le> a \<and> a + n \<le> unat (heap_limit h))"
  using assms
proof (induction rs arbitrary: h)
  case (Cons r rs)
  obtain n k where r: "r = (n, k)" by (cases r)
  have q: "unat n \<le> 2 ^ 31" "k \<le> 24" "list_all (\<lambda>(n, k). unat n \<le> 2 ^ 31 \<and> k \<le> 24) rs"
    using Cons.prems(2) r by auto
  show ?case
  proof (rule heap_alloc_result [OF Cons.prems(1) q(2,1)])
    assume "heap_alloc n (2 ^ k) h = (0, h)"
    then show ?thesis using Cons.IH [OF Cons.prems(1) q(3)] by (simp add: r)
  next
    fix a assume a: "heap_alloc n (2 ^ k) h = (a, h\<lparr>next_alloc := a + n\<rparr>)" "unat (next_alloc h) \<le> unat a"
      "unat a + unat n \<le> unat (heap_limit h)" "unat (a + n) = unat a + unat n" "2 ^ k dvd unat a"
    define h' where "h' = h\<lparr>next_alloc := a + n\<rparr>"
    have "heap_sane h'" using Cons.prems(1) a by (simp add: heap_sane_def h'_def word_le_nat_alt)
    note ih = Cons.IH [OF this q(3)]
    have n': "unat (next_alloc h') = unat a + unat n" "heap_limit h' = heap_limit h" using a(4) by (simp_all add: h'_def)
    have e: "heap_allocs (r # rs) h = (if a = 0 then heap_allocs rs h' else (unat a, unat n, k) # heap_allocs rs h')"
      by (simp add: r a(1) Let_def h'_def)
    show ?thesis unfolding e using ih a(2,3,5) by (auto simp: n' split: if_splits)
  qed
qed simp

text \<open>C14: The ranges the kernel gives out never meet.  Any sequence of requests of at most 2 GB each, at
  alignments of powers of two up to 16 MB, is served, where it is served, by ranges at the alignment
  asked for, above what was given out before, each after the one before it, and inside guest memory.\<close>

theorem heap_ranges_apart:
  assumes "heap_sane h" and "list_all (\<lambda>(n, k). unat n \<le> 2 ^ 31 \<and> k \<le> 24) rs"
  shows "sorted_wrt (\<lambda>(a, n, _) (b, _). a + n \<le> b) (heap_allocs rs h) \<and>
    (\<forall>(a, n, k) \<in> set (heap_allocs rs h). 2 ^ k dvd a \<and> unat (next_alloc h) \<le> a \<and> a + n \<le> GUEST_RAM_SIZE)"
  using heap_allocs_above [OF assms] assms(1) by (fastforce simp: heap_sane_def)

theorem heap_ranges_apart_witness:
  "heap_allocs [(0x800, 12), (0x10, 12)] new_heap = [(0x1000000, 0x800, 12), (0x1001000, 0x10, 12)] \<and>
   sorted_wrt (\<lambda>(a, n, _) (b, _). a + n \<le> b) (heap_allocs [(0x800, 12), (0x10, 12)] new_heap)"
  using heap_ranges_apart [OF new_heap_sane, of "[(0x800, 12), (0x10, 12)]"]
  by (simp add: heap_alloc_def align_up_def new_heap_def)

text \<open>A request so large that its end passes 4 GB is granted, and clearing it leaves guest memory.\<close>

lemma allocation_wraps:
  assumes "stack_arg 0 (m, h) = Some n" and "heap_sane h" and "0x1000 dvd unat (next_alloc h)" and "next_alloc h \<noteq> 0"
    and "2 ^ 32 \<le> unat (next_alloc h) + unat n"
  shows "allocate_contiguous (m, h) = None"
proof -
  define a where "a = next_alloc h"
  have le: "unat a \<le> unat (heap_limit h)" "unat (heap_limit h) \<le> 0x8000000"
    using assms(2) by (simp_all add: heap_sane_def word_le_nat_alt a_def)
  have "unat (align_up (2 ^ 12) a) = (unat a + 2 ^ 12 - 1) div 2 ^ 12 * 2 ^ 12"
    by (rule align_up_unat) (use le in simp_all)
  also have "\<dots> = unat a" using assms(3) by (auto simp: a_def elim!: dvdE)
  finally have al: "align_up 0x1000 a = a" by (simp add: word_unat_eq_iff)
  define t where "t = unat a + unat n"
  have nn: "unat n < 4294967296" and pw: "(2 :: nat) ^ 32 = 4294967296" by simp_all
  have t: "2 ^ 32 \<le> t" "t - 2 ^ 32 \<le> unat a" "t - 2 ^ 32 < 2 ^ 32"
    using assms(5) le nn unfolding pw t_def a_def by linarith+
  have "unat (a + n) = t mod 2 ^ 32" by (simp add: unat_word_ariths t_def)
  also have "\<dots> = t - 2 ^ 32" using t by (simp add: le_mod_geq)
  finally have "\<not> heap_limit h < a + n" using le t by (simp add: word_less_nat_alt)
  then have g: "heap_alloc n 0x1000 h = (a, h\<lparr>next_alloc := a + n\<rparr>)"
    by (simp add: heap_alloc_def Let_def al flip: a_def)
  have "\<not> unat a + unat n \<le> GUEST_RAM_SIZE" using t by (simp add: t_def)
  then have "ram_fill a n 0 b = None" for b using t le by (simp add: ram_fill_def fill_in_def t_def)
  then show ?thesis using assms(1,4) g by (simp add: allocate_contiguous_def alloc_clear_def on_mem_def a_def)
qed

section \<open>The end of a string\<close>

lemma ansi_len_stops:
  assumes "ansi_len m src i = Some n"
  shows "\<not> ansi_more m src n"
proof (rule ansi_len.raw_induct [where P = "\<lambda>m src i n. \<not> ansi_more m src n", OF _ assms])
  fix f m src i n
  assume "\<And>m src i n. f m src i = Some n \<Longrightarrow> \<not> ansi_more m src n"
    and "(if ansi_more m src i then f m src (i + 1) else Some i) = Some n"
  then show "\<not> ansi_more m src n" by (cases "ansi_more m src i") auto
qed

lemma ansi_len_from:
  assumes "\<And>j. j < n \<Longrightarrow> ansi_more m src (of_nat j)" and "\<not> ansi_more m src (of_nat n)" and "i \<le> n"
  shows "ansi_len m src (of_nat i) = Some (of_nat n)"
  using assms(3)
proof (induction "n - i" arbitrary: i)
  case 0
  then show ?case using assms(2) by (simp add: ansi_len.simps)
next
  case (Suc k)
  then have "ansi_len m src (of_nat (Suc i)) = Some (of_nat n)" by (intro Suc.hyps(1)) auto
  then show ?case using assms(1) [of i] Suc by (simp add: ansi_len.simps [of m src "of_nat i"] add.commute)
qed

text \<open>A string of C at an address: its characters, then a zero, all in guest memory.\<close>

definition c_string :: "bytes \<Rightarrow> nat \<Rightarrow> u8 list \<Rightarrow> bool" where
  "c_string m a xs \<longleftrightarrow> get_list (length xs) m a = xs \<and> 0 \<notin> set xs \<and> m (a + length xs) = 0 \<and> a + length xs < GUEST_RAM_SIZE"

lemma ansi_more_at:
  assumes "j < 65536" and "unat src + j < GUEST_RAM_SIZE"
  shows "ansi_more m src (of_nat j) \<longleftrightarrow> m (unat src + j) \<noteq> 0"
proof -
  have "unat (ucast (of_nat j :: u16) :: u32) = j"
    using assms(1) by (simp add: unsigned_ucast_eq unsigned_of_nat take_bit_nat_eq_self)
  then have "unat (src + ucast (of_nat j :: u16)) = unat src + j" using assms(2) by (subst unat_plus) simp_all
  then show ?thesis using assms(2) by (simp add: ansi_more_def word_less_nat_alt)
qed

lemma ansi_len_string:
  assumes "c_string m (unat src) xs" and "length xs < 65536"
  shows "ansi_len m src 0 = Some (of_nat (length xs))"
proof -
  have "ansi_more m src (of_nat j)" if "j < length xs" for j
  proof -
    have "get_list (length xs) m (unat src) ! j = xs ! j" using assms(1) by (simp add: c_string_def)
    then have "m (unat src + j) = xs ! j" using that by (simp add: get_list_def)
    then have "m (unat src + j) \<noteq> 0" using assms(1) that by (metis c_string_def nth_mem)
    then show ?thesis using assms that by (subst ansi_more_at) (auto simp: c_string_def)
  qed
  moreover have "\<not> ansi_more m src (of_nat (length xs))" using assms by (subst ansi_more_at) (auto simp: c_string_def)
  ultimately show ?thesis using ansi_len_from [of "length xs" m src 0] by simp
qed

lemma ansi_len_none:
  assumes "\<And>i. i < 65536 \<Longrightarrow> unat src + i < GUEST_RAM_SIZE \<and> m (unat src + i) \<noteq> 0"
  shows "ansi_len m src 0 = None"
proof (rule ccontr)
  assume "ansi_len m src 0 \<noteq> None"
  then obtain n where "\<not> ansi_more m src n" using ansi_len_stops by blast
  moreover have "ansi_more m src (of_nat (unat n))" using assms [of "unat n"] by (subst ansi_more_at) simp_all
  ultimately show False by simp
qed

text \<open>\<open>RtlInitAnsiString\<close> describes a string of up to 65535 characters as it is: its length, its length
  with the zero, which is 0 for the longest, and its address.  A string of 65536 characters or more has no
  such description, and the call does not return: the 16-bit counter goes round.\<close>

theorem rtl_init_ansi_string_ends:
  assumes "stack_arg 0 s = Some dest" and "stack_arg 1 s = Some src" and "in_guest src"
  shows "(\<forall>xs. c_string (ram (fst s)) (unat src) xs \<and> length xs < 65536 \<longrightarrow>
      rtl_init_ansi_string s =
        Option.bind (on_mem (put_string dest (of_nat (length xs)) (of_nat (length xs + 1)) src) s) (stdcall_cleanup 2)) \<and>
    ((\<forall>i < 65536. unat src + i < GUEST_RAM_SIZE \<and> ram (fst s) (unat src + i) \<noteq> 0) \<longrightarrow> rtl_init_ansi_string s = None)"
  using assms ansi_len_string ansi_len_none by (auto simp: rtl_init_ansi_string_def add.commute)

definition string_machine :: "bytes \<Rightarrow> machine" where
  "string_machine b = set_mem (st 4 (st 4 b 0x1004 0x3000) 0x1008 0x4000) (set_reg GP_ESP 0x1000 (executor_init False))"

lemma string_machine_args:
  "stack_arg 0 (string_machine b, h) = Some 0x3000" "stack_arg 1 (string_machine b, h) = Some 0x4000"
  "\<not> (0x1004 \<le> i \<and> i < 0x100C) \<Longrightarrow> ram (string_machine b) i = b i"
proof -
  show "stack_arg 0 (string_machine b, h) = Some 0x3000" "stack_arg 1 (string_machine b, h) = Some 0x4000"
    by (simp_all add: string_machine_def stack_arg_def in32_def ram_fits_def set_mem_def set_ram_def set_reg_def upd_ctx_def
        rd_def ld_st_disjoint)
  show "ram (string_machine b) i = b i" if "\<not> (0x1004 \<le> i \<and> i < 0x100C)"
    using that by (cases "i < 0x1004") (simp_all add: string_machine_def set_mem_def set_ram_def)
qed

theorem rtl_init_ansi_string_ends_witness:
  "rtl_init_ansi_string (string_machine (\<lambda>_. 0x41), new_heap) = None \<and>
   rtl_init_ansi_string (string_machine (\<lambda>_. 0), new_heap) =
     Option.bind (on_mem (put_string 0x3000 0 1 0x4000) (string_machine (\<lambda>_. 0), new_heap)) (stdcall_cleanup 2)"
proof -
  have m: "ram (string_machine b) (unat (0x4000 :: u32) + i) = b (0x4000 + i)" for b i
    using string_machine_args(3) [of "0x4000 + i" b] by simp
  have "in_guest 0x4000" by (simp add: in_guest_def)
  note r = rtl_init_ansi_string_ends [OF string_machine_args(1,2) this]
  have "rtl_init_ansi_string (string_machine (\<lambda>_. 0x41), new_heap) = None"
    by (rule r [THEN conjunct2, rule_format]) (simp only: fst_conv m, simp)
  moreover have "c_string (ram (fst (string_machine (\<lambda>_. 0), new_heap))) (unat (0x4000 :: u32)) []"
    using m [of "\<lambda>_. 0" 0] by (simp add: c_string_def get_list_def)
  ultimately show ?thesis
    using r [THEN conjunct1, rule_format, of "\<lambda>_. 0" new_heap "[]"] by simp
qed

section \<open>Ciphers and digests in guest memory\<close>

text \<open>C39: The kernel's RC4 is the boot loader's.  Setting a key with \<open>XcRC4Key\<close> and running \<open>XcRC4Crypt\<close>
  over data, with the key and the data outside the context, leaves there what \<open>rc4_crypt\<close> of the BIOS boot
  makes of that data with that key, and changes nothing but the context and the data.\<close>

theorem xc_rc4_is_rc4_crypt:
  assumes "0 < kl" and "kp + kl \<le> c \<or> c + 258 \<le> kp" and "d + n \<le> c \<or> c + 258 \<le> d"
  shows "let m' = xc_rc4_crypt c n d (xc_rc4_key c (Some kp) kl m) in
    get_list n m' d = rc4_crypt (get_list kl m kp) (get_list n m d) \<and>
    (\<forall>a. (a < c \<or> c + 258 \<le> a) \<and> (a < d \<or> d + n \<le> a) \<longrightarrow> m' a = m a)"
proof -
  define m1 where "m1 = xc_rc4_key c (Some kp) kl m"
  note key = xc_rc4_key_schedule [where m = m, OF assms(2,1), folded m1_def]
  have ap: "apart_from c d n" using assms(3) by (simp add: apart_from_def)
  note crypt = xc_rc4_crypt_apply [OF ap key(1)]
  have "get_list n m1 d = get_list n m d"
    unfolding get_list_def by (rule map_cong) (use assms(3) key(2) in auto)
  moreover have "get_list kl m kp \<noteq> []" using assms(1) by (simp add: get_list_def)
  ultimately show ?thesis using crypt(1,3) key(2) by (simp add: rc4_crypt_apply flip: m1_def)
qed

theorem xc_rc4_is_rc4_crypt_witness:
  "get_list 2 (xc_rc4_crypt 0x2000 2 0x1000 (xc_rc4_key 0x2000 (Some 0x1800) 1 (\<lambda>_. 7))) 0x1000 = rc4_crypt [7] [7, 7]"
proof -
  have "get_list 1 (\<lambda>_. 7) 0x1800 = [7]" "get_list 2 (\<lambda>_. 7) 0x1000 = [7, 7]"
    by (simp_all add: get_list_def numeral_2_eq_2)
  then show ?thesis using xc_rc4_is_rc4_crypt [of 1 "0x1800" "0x2000" "0x1000" 2 "\<lambda>_. 7"] by (simp add: Let_def del: One_nat_def)
qed

text \<open>The part of a context that counts is kept by storing it.\<close>

lemma absorbed_same:
  assumes "sha_state c = sha_state c'" and "sha_count c = sha_count c'" and "\<And>i. i < 64 \<Longrightarrow> sha_buffer c i = sha_buffer c' i"
  shows "absorbed c xs = absorbed c' xs"
proof -
  have "get_list (length xs mod 64) (sha_buffer c) 0 = get_list (length xs mod 64) (sha_buffer c') 0"
    unfolding get_list_def
  proof (rule map_cong)
    fix i assume "i \<in> set [0..<length xs mod 64]"
    then have "i < 64" using mod_less_divisor [of 64 "length xs"] by (simp del: mod_less_divisor)
    then show "sha_buffer c (0 + i) = sha_buffer c' (0 + i)" using assms(3) by simp
  qed simp
  then show ?thesis using assms(1,2) by (simp add: absorbed_def)
qed

lemma inside_fits: "inside p (unat n) \<Longrightarrow> ram_fits p n"
  unfolding inside_def ram_fits_def by (simp add: word_le_nat_alt unat_plus)

text \<open>A context's words, one after the other.\<close>

definition put_context :: "nat \<Rightarrow> sha1_state \<Rightarrow> u64 \<Rightarrow> bytes \<Rightarrow> bytes" where
  "put_context p = (\<lambda>(a, b, c, d, e) n m. st 4 (st 4 (st 4 (st 4 (st 4 (st 4 (st 4 m p a) (p + 4) b) (p + 8) c)
     (p + 12) d) (p + 16) e) (p + 20) (ucast n)) (p + 24) (ucast (drop_bit 32 n)))"

lemma put_context_other: "i < p \<or> p + 28 \<le> i \<Longrightarrow> put_context p t n m i = m i"
  by (cases t, erule disjE) (simp_all only: put_context_def prod.case st_other, simp_all)

lemma put_context_words:
  assumes "t = (a, b, c, d, e)"
  shows "ld 4 (put_context p t n m) p = a" "ld 4 (put_context p t n m) (p + 4) = b"
    "ld 4 (put_context p t n m) (p + 8) = c" "ld 4 (put_context p t n m) (p + 12) = d"
    "ld 4 (put_context p t n m) (p + 16) = e" "ld 4 (put_context p t n m) (p + 20) = (ucast n :: u32)"
    "ld 4 (put_context p t n m) (p + 24) = (ucast (drop_bit 32 n) :: u32)"
  unfolding put_context_def assms prod.case by (simp_all add: ld_st_disjoint)

lemma put_context_load:
  assumes "m' = copy_bytes 64 buf 0 (put_context p t n m) (p + 28)"
  shows "sha_state (load_sha1 m' p) = t" "sha_count (load_sha1 m' p) = n"
    "i < 64 \<Longrightarrow> sha_buffer (load_sha1 m' p) i = buf i"
    "i < p \<or> p + 92 \<le> i \<Longrightarrow> m' i = m i"
proof -
  obtain a b c d e where t: "t = (a, b, c, d, e)" by (cases t)
  have low: "ld 4 m' (p + k) = ld 4 (put_context p t n m) (p + k)" if "k + 4 \<le> 28" for k
    using that by (intro ld_cong) (auto simp: assms copy_bytes_def)
  note w = put_context_words [OF t, of p n m]
  show "sha_state (load_sha1 m' p) = t"
    using low [of 0] low [of 4] low [of 8] low [of 12] low [of 16] w by (simp add: load_sha1_def t)
  show "sha_count (load_sha1 m' p) = n"
    using low [of 20] low [of 24] w halves_join [of n] by (simp add: load_sha1_def or.commute)
  show "i < 64 \<Longrightarrow> sha_buffer (load_sha1 m' p) i = buf i"
    by (simp add: load_sha1_def assms copy_bytes_def)
  show "i < p \<or> p + 92 \<le> i \<Longrightarrow> m' i = m i"
    using put_context_other [of i p t n m] by (auto simp: assms copy_bytes_def)
qed

lemma store_sha1_load:
  assumes "inside p 116"
  obtains m' where "store_sha1 p c m = Some m'" "\<And>xs. absorbed (load_sha1 m' (unat p)) xs = absorbed c xs"
    "\<And>i. i < unat p \<or> unat p + 92 \<le> i \<Longrightarrow> m' i = m i"
proof -
  define m' where "m' = copy_bytes 64 (sha_buffer c) 0 (put_context (unat p) (sha_state c) (sha_count c) m) (unat p + 28)"
  obtain a b d e f where st: "sha_state c = (a, b, d, e, f)" by (metis prod_cases5)
  have "store_sha1 p c m = Some m'"
    using assms by (simp add: store_sha1_def st state_fields_def field64_def inside_def m'_def put_context_def)
  moreover note put_context_load [OF m'_def]
  moreover from this have "absorbed (load_sha1 m' (unat p)) xs = absorbed c xs" for xs
    by (intro absorbed_same) simp_all
  ultimately show ?thesis using that by blast
qed

lemma st_zero: "(\<And>i. a \<le> i \<Longrightarrow> i < a + n \<Longrightarrow> m i = 0) \<Longrightarrow> st n m a 0 = m"
  by (auto simp: st_apply)

lemma sha_init_mem_absorbed:
  fixes junk :: bytes
  assumes "inside p 116"
  obtains m' where "sha_init_mem junk p m = Some m'" "absorbed (load_sha1 m' (unat p)) []"
    "\<And>i. i < unat p \<or> unat p + 116 \<le> i \<Longrightarrow> m' i = m i"
proof -
  define P where "P = unat p"
  have P: "P + 116 \<le> GUEST_RAM_SIZE" using assms by (simp add: inside_def P_def)
  define m0 where "m0 = fill_bytes 116 0 m P"
  define q where "q = put_context P (sha_state (sha1_init junk)) 0 m0"
  have z: "q i = 0" if "P + 20 \<le> i" "i < P + 116" for i
  proof (cases "P + 28 \<le> i")
    case True
    then show ?thesis using that by (simp add: q_def put_context_other m0_def fill_bytes_def)
  next
    case False
    then show ?thesis using that by (simp add: q_def put_context_def sha1_init_def st_apply)
  qed
  have q: "copy_bytes 64 (\<lambda>_. 0) 0 q (P + 28) = q"
    using z by (auto simp: copy_bytes_def)
  have "ram_fill p 116 0 m = Some m0"
    using P by (simp add: ram_fill_def fill_in_def m0_def flip: P_def)
  moreover have "store_fields (state_fields (sha_state (sha1_init junk))) p m0 = Some q"
    using P by (simp add: sha1_init_def state_fields_def q_def put_context_def st_zero fill_bytes_def m0_def flip: P_def)
  ultimately have "sha_init_mem junk p m = Some q" by (simp add: sha_init_mem_def)
  moreover note load = put_context_load [OF q [symmetric, unfolded q_def], folded q_def]
  have "absorbed (load_sha1 q P) [] = absorbed (sha1_init junk) []"
    using load(1,2) by (simp add: absorbed_def sha1_init_def get_list_def)
  moreover have "q i = m i" if "i < P \<or> P + 116 \<le> i" for i
  proof -
    have "q i = m0 i" unfolding q_def by (rule put_context_other) (use that in auto)
    then show ?thesis using that by (auto simp: m0_def fill_bytes_def)
  qed
  ultimately show ?thesis using that absorbed_init by (simp add: P_def)
qed

text \<open>Several parts of a message, one \<open>XCSHAUpdate\<close> each.\<close>

primrec sha_updates :: "u32 \<Rightarrow> (u32 \<times> u32) list \<Rightarrow> bytes \<Rightarrow> bytes option" where
  "sha_updates p [] m = Some m"
| "sha_updates p (x # xs) m = Option.bind (sha_update_mem p (fst x) (snd x) m) (sha_updates p xs)"

definition part_bytes :: "bytes \<Rightarrow> u32 \<times> u32 \<Rightarrow> u8 list" where
  "part_bytes m x = get_list (unat (snd x)) m (unat (fst x))"

definition part_apart :: "u32 \<Rightarrow> u32 \<times> u32 \<Rightarrow> bool" where
  "part_apart p x \<longleftrightarrow> inside (fst x) (unat (snd x)) \<and>
     (unat (fst x) + unat (snd x) \<le> unat p \<or> unat p + 116 \<le> unat (fst x))"

lemma part_bytes_kept:
  assumes "part_apart p x" and "\<And>i. i < unat p \<or> unat p + 116 \<le> i \<Longrightarrow> m' i = m i"
  shows "part_bytes m' x = part_bytes m x"
  unfolding part_bytes_def get_list_def by (rule map_cong) (use assms in \<open>auto simp: part_apart_def\<close>)

lemma parts_kept:
  assumes "\<forall>x \<in> set parts. part_apart p x" and "\<And>i. i < unat p \<or> unat p + 116 \<le> i \<Longrightarrow> m' i = m i"
  shows "map (part_bytes m') parts = map (part_bytes m) parts"
proof (rule map_cong [OF refl])
  fix x assume "x \<in> set parts"
  then have "part_apart p x" using assms(1) by blast
  then show "part_bytes m' x = part_bytes m x" using assms(2) by (rule part_bytes_kept)
qed

lemma sha_update_mem_absorbed:
  assumes "inside p 116" and "part_apart p x" and "absorbed (load_sha1 m (unat p)) xs"
  obtains m' where "sha_update_mem p (fst x) (snd x) m = Some m'"
    "absorbed (load_sha1 m' (unat p)) (xs @ part_bytes m x)"
    "\<And>i. i < unat p \<or> unat p + 116 \<le> i \<Longrightarrow> m' i = m i"
proof -
  define c where "c = (if snd x = 0 then load_sha1 m (unat p) else sha1_update (part_bytes m x) (load_sha1 m (unat p)))"
  have a: "absorbed c (xs @ part_bytes m x)"
    using absorbed_update [OF assms(3)] assms(3) by (simp add: c_def part_bytes_def get_list_def)
  have i: "inside p 92" "inside (fst x) (unat (snd x))" using assms(1,2) by (simp_all add: inside_def part_apart_def)
  have u: "sha_update_mem p (fst x) (snd x) m = store_sha1 p c m"
    using i inside_fits [OF i(2)] by (simp add: sha_update_mem_def c_def part_bytes_def Let_def word_gt_0)
  obtain m' where m': "store_sha1 p c m = Some m'" "\<And>xs. absorbed (load_sha1 m' (unat p)) xs = absorbed c xs"
    "\<And>i. i < unat p \<or> unat p + 92 \<le> i \<Longrightarrow> m' i = m i"
    using store_sha1_load [OF assms(1)] by metis
  show ?thesis
  proof (rule that [of m'])
    show "m' i = m i" if "i < unat p \<or> unat p + 116 \<le> i" for i using that m'(3) [of i] by auto
  qed (use m'(1,2) a u in simp_all)
qed

lemma sha_updates_absorbed:
  assumes "inside p 116"
  shows "\<forall>x \<in> set parts. part_apart p x \<Longrightarrow> absorbed (load_sha1 m (unat p)) xs \<Longrightarrow>
    \<exists>m'. sha_updates p parts m = Some m' \<and> absorbed (load_sha1 m' (unat p)) (xs @ concat (map (part_bytes m) parts)) \<and>
      (\<forall>i. i < unat p \<or> unat p + 116 \<le> i \<longrightarrow> m' i = m i)"
proof (induction parts arbitrary: m xs)
  case (Cons x parts)
  have x: "part_apart p x" "\<forall>x \<in> set parts. part_apart p x" using Cons.prems(1) by simp_all
  obtain m1 where 1: "sha_update_mem p (fst x) (snd x) m = Some m1" "absorbed (load_sha1 m1 (unat p)) (xs @ part_bytes m x)"
      and keep: "\<And>i. i < unat p \<or> unat p + 116 \<le> i \<Longrightarrow> m1 i = m i"
    using sha_update_mem_absorbed [OF assms x(1) Cons.prems(2)] by metis
  have k: "map (part_bytes m1) parts = map (part_bytes m) parts" using x(2) keep by (rule parts_kept)
  show ?case using Cons.IH [OF x(2) 1(2), unfolded k] 1(1) keep by auto
qed simp

text \<open>C12: A digest made in guest memory is SHA-1 of the message: \<open>XcSHAInit\<close>, one \<open>XcSHAUpdate\<close> for
  each part, the parts in RAM and apart from the context, and \<open>XcSHAFinal\<close> of the context leave SHA-1 of
  the parts one after the other, whatever the buffer held, and no byte outside the context has changed.\<close>

theorem sha_in_guest_memory:
  assumes "inside p 116" and "\<forall>x \<in> set parts. part_apart p x"
  shows "\<exists>m'. Option.bind (sha_init_mem junk p m) (sha_updates p parts) = Some m' \<and>
    sha1_final (load_sha1 m' (unat p)) = SHA1 (concat (map (part_bytes m) parts)) \<and>
    (\<forall>i. i < unat p \<or> unat p + 116 \<le> i \<longrightarrow> m' i = m i)"
proof -
  obtain m0 where 0: "sha_init_mem junk p m = Some m0" "absorbed (load_sha1 m0 (unat p)) []"
      and keep: "\<And>i. i < unat p \<or> unat p + 116 \<le> i \<Longrightarrow> m0 i = m i"
    using sha_init_mem_absorbed [OF assms(1)] by metis
  have k: "map (part_bytes m0) parts = map (part_bytes m) parts" using assms(2) keep by (rule parts_kept)
  obtain m' where m': "sha_updates p parts m0 = Some m'" "absorbed (load_sha1 m' (unat p)) (concat (map (part_bytes m) parts))"
      "\<forall>i. i < unat p \<or> unat p + 116 \<le> i \<longrightarrow> m' i = m0 i"
    using sha_updates_absorbed [OF assms 0(2), unfolded k] by auto
  show ?thesis using 0(1) m'(1,3) keep sha1_final_absorbed [OF m'(2)] by auto
qed

theorem sha_in_guest_memory_witness:
  "\<exists>m'. Option.bind (sha_init_mem (\<lambda>_. 0xCC) 0x2000 (\<lambda>i. 0x61)) (sha_updates 0x2000 [(0x1000, 2), (0x3000, 0), (0x5000, 1)]) = Some m' \<and>
    sha1_final (load_sha1 m' 0x2000) = SHA1 [0x61, 0x61, 0x61]"
proof -
  have "get_list 1 (\<lambda>i. 0x61) 0x5000 = [0x61]" "get_list 2 (\<lambda>i. 0x61) 0x1000 = [0x61, 0x61]"
    by (simp_all add: get_list_def numeral_2_eq_2)
  moreover have "inside 0x2000 116" by (simp add: inside_def)
  moreover have "\<forall>x \<in> set [(0x1000, 2), (0x3000, 0), (0x5000, 1)]. part_apart 0x2000 x" by (simp add: inside_def part_apart_def)
  ultimately show ?thesis
    using sha_in_guest_memory [of "0x2000" "[(0x1000, 2), (0x3000, 0), (0x5000, 1)]" "\<lambda>_. 0xCC" "\<lambda>i. 0x61"]
    by (auto simp: part_bytes_def get_list_def [of 0])
qed

end
