(* ===== verification/Bootstrap.thy ===== *)
theory Bootstrap
  imports Hle_Dispatch Nbox_Host Kernel_Boot Boot16 Run
begin

text \<open>
  Booting (\<open>src/src/xbox/hle/bootstrap.hpp\<close>): finding the files, the system with its threads, and the
  boot modes: a title on the high-level kernel, a BIOS image, a title on a kernel image, and \<open>nboxkrnl\<close>;
  \<open>auto_boot\<close> tries them in turn.  The scheduler is in \<open>Scheduler\<close>.

  Messages are left out.  The host grants the executor's allocations: \<open>committed\<close> and \<open>code_mem\<close> say
  what it grants.  \<open>freed\<close> is what a released file buffer holds.  \<open>None\<close> is an access out of bounds or a
  failed assertion.
\<close>

section \<open>Files\<close>

record boot_paths =
  xbe_path :: "u8 list"
  bios_path :: "u8 list"
  mcpx_path :: "u8 list"
  xiso_path :: "u8 list"
  kernel_path :: "u8 list"
  nboxkrnl_path :: "u8 list"
  rc4_key_path :: "u8 list"
  inner_key_path :: "u8 list"
  dump_kernel_path :: "u8 list"

definition is_nboxkrnl :: "boot_paths \<Rightarrow> bool" where
  "is_nboxkrnl c \<longleftrightarrow> xbe_path c \<noteq> [] \<and> nboxkrnl_path c \<noteq> []"

definition is_hle :: "boot_paths \<Rightarrow> bool" where
  "is_hle c \<longleftrightarrow> xbe_path c \<noteq> [] \<and> kernel_path c = [] \<and> nboxkrnl_path c = []"

definition is_lle :: "boot_paths \<Rightarrow> bool" where
  "is_lle c \<longleftrightarrow> bios_path c \<noteq> []"

definition is_lle_kernel :: "boot_paths \<Rightarrow> bool" where
  "is_lle_kernel c \<longleftrightarrow> xbe_path c \<noteq> [] \<and> kernel_path c \<noteq> []"

text \<open>\<open>fopen(path, "rb")\<close>: the contents of a file.\<close>

definition host_bytes :: "disk \<Rightarrow> u8 list \<Rightarrow> u8 list option" where
  "host_bytes d p = (case d p of Some (Host_file c) \<Rightarrow> Some c | _ \<Rightarrow> None)"

definition probe_file :: "disk \<Rightarrow> u8 list \<Rightarrow> bool" where
  "probe_file d p \<longleftrightarrow> host_bytes d p \<noteq> None"

fun probe_path :: "disk \<Rightarrow> u8 list \<Rightarrow> string list \<Rightarrow> u8 list" where
  "probe_path d base [] = []"
| "probe_path d base (c # cs) =
     (let full = base @ CH_SLASH # ascii c in if probe_file d full then full else probe_path d base cs)"

definition scan_boot_files :: "disk \<Rightarrow> u8 list \<Rightarrow> boot_paths \<Rightarrow> boot_paths" where
  "scan_boot_files d root c = c\<lparr>
     nboxkrnl_path := probe_path d root [''nboxkrnl.exe'', ''nboxkrnl/nboxkrnl.exe''],
     kernel_path := probe_path d root
       [''xboxkrnl.exe'', ''xboxkrnl_5838.exe'', ''xboxkrnl_5960.exe'', ''xboxkrnl_4627.exe''],
     xbe_path := probe_path d root
       [''xbox dash orig_5960/xboxdash.xbe'', ''xboxdash.xbe'', ''dashboard/xboxdash.xbe''],
     bios_path := probe_path d root
       [''bios.bin'', ''xbox5838.bin'', ''xbox5960.bin'', ''xbox4627.bin'', ''xbox4034.bin'',
        ''complex_4627.bin'', ''complex_5838.bin'', ''xboxrom.bin''],
     mcpx_path := probe_path d root [''mcpx_1.0.bin'', ''mcpx_1.1.bin'', ''mcpx.bin''],
     rc4_key_path := probe_path d root [''rc4_key.bin'', ''mcpx_key.bin'']\<rparr>"

text \<open>The length is a 32-bit \<open>long\<close>; a file that is empty or too long reads as nothing.\<close>

definition read_file_to_vec :: "disk \<Rightarrow> u8 list \<Rightarrow> u8 list" where
  "read_file_to_vec d p = (case host_bytes d p of Some c \<Rightarrow> if length c < 2 ^ 31 then c else [] | None \<Rightarrow> [])"

section \<open>The system\<close>

record thread_slot =
  ts_gp :: "u32 arr"
  ts_eip :: u32
  ts_eflags :: u32
  ts_fs_base :: u32
  ts_alive :: bool

text \<open>The executor with its ports and whether the kernel's handler is installed, the addresses of the
  stubs (variables of the namespace \<open>xbe\<close>), and the system's own fields.  The heap is the executor's
  \<open>hle_user\<close>.\<close>

record xbox_system =
  sys_run :: run_state
  sys_ports :: "xbox io_entry list"
  sys_hle :: bool
  sys_bases :: hle_bases
  sys_info :: xbe_info
  running :: bool
  started :: bool
  entry_eip :: u32
  threads :: "thread_slot list"
  current_thread :: int

abbreviation sys_exec :: "xbox_system \<Rightarrow> executor" where "sys_exec s \<equiv> exec (sys_run s)"
abbreviation sys_mach :: "xbox_system \<Rightarrow> machine" where "sys_mach s \<equiv> mach (sys_exec s)"
abbreviation sys_heap :: "xbox_system \<Rightarrow> xbe_heap" where "sys_heap s \<equiv> hle_user (sys_exec s)"

definition upd_exec :: "(executor \<Rightarrow> executor) \<Rightarrow> xbox_system \<Rightarrow> xbox_system" where
  "upd_exec f s = s\<lparr>sys_run := (sys_run s)\<lparr>exec := f (sys_exec s)\<rparr>\<rparr>"

definition upd_sys :: "(machine \<Rightarrow> machine) \<Rightarrow> xbox_system \<Rightarrow> xbox_system" where
  "upd_sys f = upd_exec (\<lambda>x. x\<lparr>mach := f (mach x)\<rparr>)"

definition upd_heap :: "(xbe_heap \<Rightarrow> xbe_heap) \<Rightarrow> xbox_system \<Rightarrow> xbox_system" where
  "upd_heap f = upd_exec (\<lambda>x. x\<lparr>hle_user := f (hle_user x)\<rparr>)"

definition sys_mem :: "(bytes \<Rightarrow> bytes option) \<Rightarrow> xbox_system \<Rightarrow> xbox_system option" where
  "sys_mem f s = map_option (\<lambda>b. upd_sys (set_mem b) s) (f (ram (sys_mach s)))"

text \<open>\<open>xbox_setup(*sys.exec)\<close>: new devices and a new bus, \<open>Executor::init\<close>, and the ports, which are
  added to what the executor's table has.\<close>

definition setup_system :: "bool \<Rightarrow> nat \<Rightarrow> xbox_system \<Rightarrow> xbox_system option" where
  "setup_system committed code_mem s = do {
     t \<leftarrow> register_all port_list (sys_ports s);
     Some ((upd_exec (\<lambda>x. x\<lparr>mach := executor_init committed,
         cc := snd (cc_init code_mem CODE_CACHE_BYTES HELPER_PAGE_BYTES THUNK_SLAB_BYTES (cc x))\<rparr>) s)
       \<lparr>sys_ports := t\<rparr>)
   }"

section \<open>A title on the high-level kernel\<close>

abbreviation BOOT_STACK_TOP :: u32 where "BOOT_STACK_TOP \<equiv> 0x00B00000"
abbreviation BOOT_FS_BASE :: u32 where "BOOT_FS_BASE \<equiv> 0x00D00000"

definition setup_kpcr :: "u32 \<Rightarrow> u32 \<Rightarrow> bytes \<Rightarrow> bytes option" where
  "setup_kpcr fs stack_top m = do {
     let kthread = fs + 0x1000;
     m \<leftarrow> fill_in GUEST_RAM_SIZE 0x2000 0 m (unat fs);
     m \<leftarrow> store_fields [(0x00, 4, 0xFFFFFFFF), (0x04, 4, stack_top), (0x08, 4, stack_top - 0x10000), (0x18, 4, fs),
       (0x1C, 4, fs), (0x20, 4, fs + 0x28), (0x28, 4, kthread)] fs m;
     m \<leftarrow> store_fields [(0x28, 4, kthread + 0x200)] kthread m;
     fill_in GUEST_RAM_SIZE 0x100 0 m (unat kthread + 0x200)
   }"

text \<open>The stack, the flags and the segment bases a title starts with.\<close>

definition title_context :: "guest_context \<Rightarrow> guest_context" where
  "title_context c = c\<lparr>gp := (gp c)(GP_ESP := BOOT_STACK_TOP), eflags := 0x00000202, fs_base := BOOT_FS_BASE,
     gs_base := 0\<rparr>"

definition title_stack :: "xbox_system \<Rightarrow> xbox_system option" where
  "title_stack s = do {
     s \<leftarrow> sys_mem (store_fields [(0, 4, 0xFFFFFFFF)] BOOT_STACK_TOP) s;
     sys_mem (setup_kpcr BOOT_FS_BASE BOOT_STACK_TOP) (upd_sys (upd_ctx title_context) s)
   }"

text \<open>The stubs are written once more: the title's sections may have overwritten them.\<close>

definition enter_title :: "xbox_system \<Rightarrow> xbox_system option" where
  "enter_title s = Option.bind (title_stack s) (\<lambda>s. sys_mem (write_hle_stubs (sys_bases s)) s)"

text \<open>Whether the title is accepted, and the system with it in place.\<close>

definition load_title :: "disk \<Rightarrow> u8 list \<Rightarrow> xbox_system \<Rightarrow> (bool \<times> xbox_system) option" where
  "load_title d p s =
     (let f = read_file_to_vec d p in
      if f = [] then Some (False, s)
      else do {
        x \<leftarrow> load_guest 0x1000 f (sys_exec s);
        let s = upd_exec (\<lambda>_. x) s;
        (info, h, m) \<leftarrow> load_xbe f (sys_bases s, ram (sys_mach s));
        Some (xi_valid info, (upd_sys (set_mem m) s)\<lparr>sys_info := info, sys_bases := h\<rparr>)
      })"

definition mount_title_media :: "boot_paths \<Rightarrow> xbe_heap \<Rightarrow> xbe_heap" where
  "mount_title_media c h =
     (if xiso_path c \<noteq> []
      then add_mount (ascii (backslashed [''Device'', ''CdRom0''])) (directory_of (xiso_path c))
        (mount_drive (ascii (backslashed [''??'', ''D:''])) 0x44 (directory_of (xiso_path c)) h)
      else mount_drive (ascii (backslashed [''??'', ''D:''])) 0x44 (xbe_directory h) h)"

definition mount_partitions :: "xbe_heap \<Rightarrow> xbe_heap" where
  "mount_partitions h =
     (let dir = xbe_directory h; part1 = dir @ ascii ''/TDATA'';
          h = mount_drive (ascii (backslashed [''??'', ''C:''])) 0x43 dir h;
          h = add_mount (ascii (backslashed [''Device'', ''Harddisk0'', ''partition2''])) dir h;
          h = add_mount (ascii (backslashed [''Device'', ''Harddisk0'', ''Partition2''])) dir h;
          h = mount_drive (ascii (backslashed [''??'', ''E:''])) 0x45 part1 h;
          h = add_mount (ascii (backslashed [''Device'', ''Harddisk0'', ''partition1''])) part1 h;
          h = add_mount (ascii (backslashed [''Device'', ''Harddisk0'', ''Partition1''])) part1 h;
          h = mount_drive (ascii (backslashed [''??'', ''T:''])) 0x54 dir h;
          h = mount_drive (ascii (backslashed [''??'', ''Y:''])) 0x59 dir h;
          h = mount_drive (ascii (backslashed [''??'', ''Z:''])) 0x5A dir h;
          h = add_mount (ascii ''CDROM0:'') dir h
      in add_mount (ascii (backslashed [''Device'', ''CdRom0''])) dir h)"

text \<open>The directory of the host behind partition 1 is created as well.\<close>

definition boot_hle :: "disk \<Rightarrow> bool \<Rightarrow> nat \<Rightarrow> boot_paths \<Rightarrow> xbox_system \<Rightarrow> (bool \<times> xbox_system) option" where
  "boot_hle d committed code_mem c s = do {
     s \<leftarrow> setup_system committed code_mem s;
     (ok, s) \<leftarrow> load_title d (xbe_path c) s;
     if \<not> ok then Some (False, s)
     else do {
       s \<leftarrow> enter_title s;
       let s = upd_heap (\<lambda>h. (mount_partitions (mount_title_media c (set_xbe_path (xbe_path c) (heap_reset h))))
         \<lparr>nv2a_linked := True\<rparr>) s;
       Some (True, s\<lparr>sys_hle := True, entry_eip := xi_entry_point (sys_info s), running := True\<rparr>)
     }
   }"

section \<open>A BIOS image\<close>

abbreviation BL2_LOAD_ADDR :: u32 where "BL2_LOAD_ADDR \<equiv> 0x00090000"
abbreviation BL2_SIZE :: nat where "BL2_SIZE \<equiv> 0x6000"
abbreviation MCPX_KEY_OFF :: nat where "MCPX_KEY_OFF \<equiv> 0x1A5"
abbreviation MCPX_KEY_LEN :: nat where "MCPX_KEY_LEN \<equiv> 16"

definition upd_flash :: "(flash_state \<Rightarrow> flash_state) \<Rightarrow> xbox_system \<Rightarrow> xbox_system" where
  "upd_flash f = upd_sys (\<lambda>m. m\<lparr>hw := (hw m)\<lparr>hw_flash := f (hw_flash (hw m))\<rparr>\<rparr>)"

abbreviation sys_flash :: "xbox_system \<Rightarrow> flash_state" where
  "sys_flash s \<equiv> hw_flash (hw (sys_mach s))"

text \<open>The same bytes in each of the four copies of the image.\<close>

definition put_copies :: "u8 list \<Rightarrow> nat \<Rightarrow> bytes \<Rightarrow> bytes" where
  "put_copies xs off b = fold (\<lambda>k b. put_list xs b (k * 0x40000 + off)) [0..<4] b"

definition restore_inner_key :: "u8 list \<Rightarrow> flash_state \<Rightarrow> flash_state" where
  "restore_inner_key key f = f\<lparr>data := put_copies key 0x3FF9C (data f)\<rparr>"

definition bypass_hash :: "flash_state \<Rightarrow> flash_state" where
  "bypass_hash f =
     (if data f 0x3D7AC = 0x0F \<and> data f (0x3D7AC + 1) = 0x84
      then f\<lparr>data := put_copies (replicate 6 0x90) 0x3D7AC (data f)\<rparr> else f)"

definition patch_bios :: "disk \<Rightarrow> boot_paths \<Rightarrow> flash_state \<Rightarrow> flash_state" where
  "patch_bios d c f =
     (let key = read_file_to_vec d (inner_key_path c) in
      if inner_key_path c \<noteq> [] \<and> length key = 16 then restore_inner_key key f else bypass_hash f)"

text \<open>Both scans are made of the whole flash only (\<open>FLASH_SIZE\<close> bytes), so no sum wraps.  An entry is a
  \<open>JMP\<close> with at least five calls in the next 8 KB.\<close>

definition branch_target :: "bytes \<Rightarrow> u32 \<Rightarrow> u32" where
  "branch_target b off = off + 5 + ld 4 b (unat off + 1)"

definition call_count :: "bytes \<Rightarrow> u32 \<Rightarrow> nat" where
  "call_count b off =
     (let check_end = min (off + 0x2000) FLASH_SIZE in
      length (filter (\<lambda>ci. b ci = 0xE8 \<and> off \<le> branch_target b (of_nat ci) \<and> branch_target b (of_nat ci) < check_end)
        [unat off..<unat check_end - 5]))"

definition is_code_entry :: "bytes \<Rightarrow> u32 \<Rightarrow> bool" where
  "is_code_entry b off \<longleftrightarrow>
     b (unat off) = 0xE9 \<and> off < branch_target b off \<and> branch_target b off < FLASH_SIZE - 0x200 \<and> 5 \<le> call_count b off"

definition find_2bl_code_entry :: "bytes \<Rightarrow> u32" where
  "find_2bl_code_entry b =
     (case find (is_code_entry b) (map (\<lambda>i. FLASH_SIZE - 0x10000 + 0x10 * of_nat i) [0..<0xFE0]) of
        Some off \<Rightarrow> off | None \<Rightarrow> 0)"

definition is_bios_pre_decrypted :: "bytes \<Rightarrow> bool" where
  "is_bios_pre_decrypted b \<longleftrightarrow> list_ex (\<lambda>i. get_list 9 b i = ascii ''Microsoft'') [0..<BL2_SIZE - 8]"

text \<open>The key: from its file, else from the MCPX ROM.  The outer option is whether booting goes on.\<close>

definition boot_key :: "disk \<Rightarrow> boot_paths \<Rightarrow> flash_state \<Rightarrow> u8 list option option \<times> flash_state" where
  "boot_key d c f =
     (if rc4_key_path c \<noteq> [] then
        let key = read_file_to_vec d (rc4_key_path c) in
        if length key = MCPX_KEY_LEN then (Some (Some key), f) else (None, f)
      else if mcpx_path c \<noteq> [] then
        let (ok, f) = load_mcpx (host_bytes d (mcpx_path c)) f in
        if ok then (Some (Some (get_list MCPX_KEY_LEN (mcpx_rom f) MCPX_KEY_OFF)), f) else (None, f)
      else (Some None, f))"

text \<open>The copy is decrypted in place.\<close>

definition decrypt_2bl :: "u8 list \<Rightarrow> xbox_system \<Rightarrow> xbox_system" where
  "decrypt_2bl key s =
     upd_sys (\<lambda>m. set_mem (put_list (rc4_crypt key (get_list BL2_SIZE (data (sys_flash s)) 0)) (ram m) (unat BL2_LOAD_ADDR)) m) s"

text \<open>The last part: where to start, \<open>None\<close> when no entry is found.\<close>

definition lle_entry :: "bool \<Rightarrow> bool \<Rightarrow> xbox_system \<Rightarrow> xbox_system option" where
  "lle_entry pre_decrypted have_key s =
     (if pre_decrypted then
        let entry_off = find_2bl_code_entry (data (sys_flash s)) in
        if entry_off = 0 then None
        else Some ((upd_sys (set_reg GP_ESP 0x00090000) s)\<lparr>entry_eip := FLASH_BASE + entry_off\<rparr>)
      else if have_key
      then Some ((upd_sys (set_reg GP_ESP (BL2_LOAD_ADDR - 4)) s)\<lparr>entry_eip := BL2_LOAD_ADDR\<rparr>)
      else Some (s\<lparr>entry_eip := eip (ctx (sys_mach s))\<rparr>))"

definition enter_bios :: "bool \<Rightarrow> bool \<Rightarrow> xbox_system \<Rightarrow> (bool \<times> xbox_system) option" where
  "enter_bios pre_decrypted have_key s = do {
     (ok, m) \<leftarrow> interpret_real_mode_boot (sys_mach s);
     let s = upd_sys (\<lambda>_. m) s;
     Some (if \<not> ok then (False, s)
           else case lle_entry pre_decrypted have_key s of
             None \<Rightarrow> (False, s)
           | Some s \<Rightarrow> (True, s\<lparr>running := True\<rparr>))
   }"

definition boot_lle :: "disk \<Rightarrow> bool \<Rightarrow> nat \<Rightarrow> boot_paths \<Rightarrow> xbox_system \<Rightarrow> (bool \<times> xbox_system) option" where
  "boot_lle d committed code_mem c s = do {
     s \<leftarrow> setup_system committed code_mem s;
     let (ok, f) = load_bios (host_bytes d (bios_path c)) (sys_flash s);
     if \<not> ok then Some (False, upd_flash (\<lambda>_. f) s)
     else do {
       let (key, f) = boot_key d c (patch_bios d c f);
       let s = upd_flash (\<lambda>_. f) s;
       case key of
         None \<Rightarrow> Some (False, s)
       | Some key \<Rightarrow>
           let pre_decrypted = is_bios_pre_decrypted (data f);
               s = (case key of Some k \<Rightarrow> if pre_decrypted then s else decrypt_2bl k s | None \<Rightarrow> s) in
           enter_bios pre_decrypted (key \<noteq> None) s
     }
   }"

section \<open>A kernel in guest memory\<close>

text \<open>Every page of guest memory; the first that starts a kernel is written out when that is asked for.\<close>

definition kernel_at :: "bytes \<Rightarrow> u32 \<Rightarrow> bool" where
  "kernel_at m pa \<longleftrightarrow>
     (let p = unat pa; e = ld 4 m (p + 0x3C); q = p + unat e in
      m p = 0x4D \<and> m (p + 1) = 0x5A \<and>
      e \<noteq> 0 \<and> e < 0x1000 \<and> pa + e + 0x100 < of_nat GUEST_RAM_SIZE \<and>
      ld 4 m q = 0x00004550 \<and> ld 2 m (q + 4) = 0x014C \<and>
      0x10000 \<le> ld 4 m (q + 24 + 56) \<and> ld 4 m (q + 24 + 56) \<le> 0x400000)"

definition kernel_dump :: "bytes \<Rightarrow> u32 \<Rightarrow> u8 list" where
  "kernel_dump m pa =
     (let sz = ld 4 m (unat pa + unat (ld 4 m (unat pa + 0x3C)) + 24 + 56);
          sz = (if pa + sz > of_nat GUEST_RAM_SIZE then of_nat GUEST_RAM_SIZE - pa else sz)
      in get_list (unat sz) m (unat pa))"

primrec scan_kernels :: "bool \<Rightarrow> bytes \<Rightarrow> u32 \<Rightarrow> u32 list \<Rightarrow> u32 \<times> u8 list option" where
  "scan_kernels dump m found [] = (found, None)"
| "scan_kernels dump m found (pa # ps) =
     (if kernel_at m pa then
        let found = (if found = 0 then pa else found) in
        if dump then (found, Some (kernel_dump m pa)) else scan_kernels dump m found ps
      else scan_kernels dump m found ps)"

definition scan_and_dump_kernel :: "bytes \<Rightarrow> bool \<Rightarrow> u32 \<times> u8 list option" where
  "scan_and_dump_kernel m dump = scan_kernels dump m 0 (map (\<lambda>i. 0x1000 * of_nat i) [0..<GUEST_RAM_SIZE div 0x1000])"

section \<open>A title on a kernel image\<close>

text \<open>One import: a stub of an ordinal that is no data export and that the kernel exports is replaced.\<close>

definition relink_import :: "hle_bases \<Rightarrow> u32 \<Rightarrow> u32 \<Rightarrow> bytes \<Rightarrow> bytes option" where
  "relink_import h base off m =
     (let va = ld 4 m (unat off) in
      if va \<ge> stub_base h \<and> va < stub_base h + of_nat (MAX_KERNEL_ORDINALS * HLE_STUB_SIZE) then
        let ordinal = (va - stub_base h) div of_nat HLE_STUB_SIZE in
        if kernel_data_addr h ordinal \<noteq> 0 then Some m
        else do {
          real_va \<leftarrow> resolve_export_by_ordinal GUEST_RAM_SIZE m base ordinal;
          Some (if real_va \<noteq> 0 then st 4 m (unat off) real_va else m)
        }
      else Some m)"

function relink_imports :: "hle_bases \<Rightarrow> u32 \<Rightarrow> u32 \<Rightarrow> bytes \<Rightarrow> bytes option" where
  "relink_imports h base off m =
     (if off + 4 > of_nat GUEST_RAM_SIZE then Some m
      else if unat off + 4 > GUEST_RAM_SIZE then None
      else if ld 4 m (unat off) = 0 then Some m
      else Option.bind (relink_import h base off m) (relink_imports h base (off + 4)))"
  by pat_completeness auto
termination
  by (relation "measure (\<lambda>(_, _, off, _). GUEST_RAM_SIZE - unat off)") (auto simp: unat_plus)

declare relink_imports.simps [simp del]

definition mount_xiso :: "boot_paths \<Rightarrow> xbe_heap \<Rightarrow> xbe_heap" where
  "mount_xiso c h =
     (if xiso_path c \<noteq> []
      then add_mount (ascii (backslashed [''Device'', ''CdRom0''])) (directory_of (xiso_path c))
        (add_mount (ascii (backslashed [''??'', ''D:''])) (directory_of (xiso_path c)) h)
      else h)"

definition load_kernel_image :: "disk \<Rightarrow> bytes \<Rightarrow> u8 list \<Rightarrow> xbox_system \<Rightarrow> (load_result \<times> xbox_system) option" where
  "load_kernel_image d freed p s = do {
     (r, m) \<leftarrow> load_pe GUEST_RAM_SIZE freed (host_bytes d p) (ram (sys_mach s));
     Some (r, upd_sys (set_mem m) s)
   }"

definition boot_lle_kernel ::
  "disk \<Rightarrow> bytes \<Rightarrow> bool \<Rightarrow> nat \<Rightarrow> boot_paths \<Rightarrow> xbox_system \<Rightarrow> (bool \<times> xbox_system) option" where
  "boot_lle_kernel d freed committed code_mem c s = do {
     s \<leftarrow> setup_system committed code_mem s;
     (krnl, s) \<leftarrow> load_kernel_image d freed (kernel_path c) s;
     if \<not> lr_ok krnl then Some (False, s)
     else do {
       (ok, s) \<leftarrow> load_title d (xbe_path c) s;
       if \<not> ok then Some (False, s)
       else do {
         s \<leftarrow> sys_mem (relink_imports (sys_bases s) (lr_image_base krnl) (xi_kernel_thunk_va (sys_info s))) s;
         s \<leftarrow> title_stack s;
         let s = upd_heap (\<lambda>h. mount_xiso c (set_xbe_path (xbe_path c) (heap_reset h))) s;
         Some (True, s\<lparr>sys_hle := True, entry_eip := xi_entry_point (sys_info s), running := True\<rparr>)
       }
     }
   }"

section \<open>nboxkrnl\<close>

text \<open>\<open>std::filesystem::path\<close> as the host takes it apart: the file name is what follows the last
  separator, the extension what follows its last dot, when that is not its first character.\<close>

definition file_name_of :: "u8 list \<Rightarrow> u8 list" where
  "file_name_of p = rev (takeWhile (\<lambda>c. \<not> is_sep c) (rev p))"

definition extension_of :: "u8 list \<Rightarrow> u8 list" where
  "extension_of p =
     (let n = file_name_of p; stem = rev (tl (dropWhile (\<lambda>c. c \<noteq> 0x2E) (rev n))) in
      if 0x2E \<in> set n \<and> n \<noteq> [0x2E, 0x2E] \<and> stem \<noteq> [] then drop (length stem) n else [])"

text \<open>The partitions' directories; a name taken by a file is an error.\<close>

primrec make_partitions :: "path \<Rightarrow> nat list \<Rightarrow> host_fs \<Rightarrow> bool \<times> host_fs" where
  "make_partitions hdd [] fs = (True, fs)"
| "make_partitions hdd (i # is) fs =
     (let p = hdd @ [ascii ''Partition'' @ decimal i]; fs' = snd (create_directories p fs) in
      if fs_is_dir fs' p then make_partitions hdd is fs' else (False, fs'))"

text \<open>\<open>title_dir\<close> is the directory of the title as the host resolves it.\<close>

definition setup_paths :: "path \<Rightarrow> path \<Rightarrow> u8 list \<Rightarrow> host_state \<times> io_system \<Rightarrow> bool \<times> host_state \<times> io_system" where
  "setup_paths title_dir hdd input = (\<lambda>(h, io).
     let (made, fs) = make_partitions hdd [0..<6] (host_files io); io = io\<lparr>host_files := fs\<rparr>;
         ext = map to_lower (extension_of input); cd = ascii (backslashed [''Device'', ''CdRom0'', '''']) in
     if \<not> made then (False, h, io)
     else if ext = ascii ''.xbe''
     then (True, h\<lparr>host_xbe_path := cd @ file_name_of input\<rparr>, io\<lparr>dvd_dir := title_dir, hdd_dir := hdd\<rparr>)
     else if ext = ascii ''.iso'' \<or> ext = ascii ''.xiso''
     then (False, h\<lparr>host_xbe_path := cd @ ascii ''default.xbe''\<rparr>, io\<lparr>dvd_dir := [], hdd_dir := hdd\<rparr>)
     else (False, h, io))"

record nboxkrnl_state =
  nb_host :: host_state
  nb_io :: io_system
  nb_keys :: "u8 list"

text \<open>The ports' callbacks work on the host's state (\<open>Nbox_Host\<close>); \<open>host_entry\<close> is the entry they have in
  the executor's table.  The worker is started by \<open>io_init\<close>.\<close>

definition boot_nboxkrnl_system ::
  "(u16 \<Rightarrow> xbox io_entry) \<Rightarrow> path \<Rightarrow> path \<Rightarrow> disk \<Rightarrow> bytes \<Rightarrow> bool \<Rightarrow> nat \<Rightarrow> boot_paths
    \<Rightarrow> xbox_system \<times> nboxkrnl_state \<Rightarrow> (bool \<times> xbox_system \<times> nboxkrnl_state) option" where
  "boot_nboxkrnl_system host_entry title_dir hdd d freed committed code_mem c = (\<lambda>(s, n). do {
     s \<leftarrow> setup_system committed code_mem s;
     let n = n\<lparr>nb_keys := default_keys\<rparr>;
         (ok, h, io) = setup_paths title_dir hdd (xbe_path c) (nb_host n, nb_io n);
         n = n\<lparr>nb_host := h, nb_io := io\<rparr> in
     if \<not> ok then Some (False, s, n)
     else do {
       let io = io_init (dvd_dir io) (hdd_dir io) (host_files io);
       let n = n\<lparr>nb_host := h\<lparr>host_io := Some io\<rparr>, nb_io := io\<rparr>;
       t \<leftarrow> register_all (map host_entry host_ports) (sys_ports s);
       let s = s\<lparr>sys_ports := t\<rparr>;
       (entry, m) \<leftarrow> boot_nboxkrnl freed
         \<lparr>kernel_pe = host_bytes d (kernel_path c), boot_keys = Some (nb_keys n)\<rparr> (sys_mach s);
       let s = upd_sys (\<lambda>_. m) s;
       Some (if entry = 0 then (False, s, n)
             else (True, (upd_sys (upd_ctx (\<lambda>c. c\<lparr>eip := entry\<rparr>)) s)\<lparr>entry_eip := entry, running := True\<rparr>, n))
     }
   })"

section \<open>Trying one mode after the other\<close>

datatype boot_mode = Boot_None | Boot_nboxkrnl | Boot_lle | Boot_hle

text \<open>What of the host the modes see.\<close>

record boot_env =
  be_disk :: disk
  be_freed :: bytes
  be_committed :: bool
  be_code_mem :: nat
  be_host_entry :: "u16 \<Rightarrow> xbox io_entry"
  be_title_dir :: path
  be_hdd :: path

definition try_hle :: "boot_env \<Rightarrow> boot_paths \<Rightarrow> xbox_system \<Rightarrow> (boot_mode \<times> xbox_system) option" where
  "try_hle e c s =
     (if xbe_path c \<noteq> []
      then map_option (\<lambda>(ok, s). (if ok then Boot_hle else Boot_None, s))
        (boot_hle (be_disk e) (be_committed e) (be_code_mem e) c s)
      else Some (Boot_None, s))"

definition try_lle :: "boot_env \<Rightarrow> boot_paths \<Rightarrow> xbox_system \<Rightarrow> (boot_mode \<times> xbox_system) option" where
  "try_lle e c s =
     (if bios_path c \<noteq> [] then do {
        (ok, s) \<leftarrow> boot_lle (be_disk e) (be_committed e) (be_code_mem e) c s;
        if ok then Some (Boot_lle, s) else try_hle e c s
      } else try_hle e c s)"

definition auto_boot ::
  "boot_env \<Rightarrow> boot_paths \<Rightarrow> xbox_system \<times> nboxkrnl_state \<Rightarrow> (boot_mode \<times> xbox_system \<times> nboxkrnl_state) option" where
  "auto_boot e c = (\<lambda>(s, n).
     if nboxkrnl_path c \<noteq> [] \<and> xbe_path c \<noteq> [] then do {
       (ok, s, n) \<leftarrow> boot_nboxkrnl_system (be_host_entry e) (be_title_dir e) (be_hdd e) (be_disk e) (be_freed e)
         (be_committed e) (be_code_mem e) (c\<lparr>kernel_path := nboxkrnl_path c\<rparr>) (s, n);
       if ok then Some (Boot_nboxkrnl, s, n)
       else map_option (\<lambda>(r, s). (r, s, n)) (try_lle e c s)
     } else map_option (\<lambda>(r, s). (r, s, n)) (try_lle e c s))"

end
