(* ===== verification/Scheduler.thy ===== *)
theory Scheduler
  imports Bootstrap Run_Facts Privileged_Facts
begin

text \<open>
  The cooperative scheduler (\<open>run_step\<close> of \<open>src/src/xbox/hle/bootstrap.hpp\<close>) and the loop of the
  emulation thread (\<open>src/src/xbox/emu_thread.hpp\<close>).  A step promotes new threads, runs the deferred calls
  that are due, and runs the current thread until it yields.

  \<open>h\<close> is what \<open>Executor::run\<close> calls, \<open>n\<close> the budget of a run, which is positive: by \<open>run_ends\<close> a run then
  ends within \<open>n\<close> iterations.  A deferred call may queue another, so their loop has a bound of its own, \<open>k\<close>.
\<close>

section \<open>Thread slots\<close>

definition save_thread :: "int \<Rightarrow> xbox_system \<Rightarrow> xbox_system" where
  "save_thread i s =
     (if i < 0 \<or> int (length (threads s)) \<le> i then s
      else let c = ctx (sys_mach s) in
        s\<lparr>threads := (threads s)[nat i := (threads s ! nat i)
          \<lparr>ts_gp := gp c, ts_eip := eip c, ts_eflags := eflags c, ts_fs_base := fs_base c\<rparr>]\<rparr>)"

definition load_context :: "thread_slot \<Rightarrow> guest_context \<Rightarrow> guest_context" where
  "load_context t c = c\<lparr>gp := ts_gp t, eip := ts_eip t, eflags := ts_eflags t, fs_base := ts_fs_base t\<rparr>"

definition restore_thread :: "int \<Rightarrow> xbox_system \<Rightarrow> xbox_system" where
  "restore_thread i s =
     (if i < 0 \<or> int (length (threads s)) \<le> i then s
      else upd_sys (upd_ctx (load_context (threads s ! nat i))) s)"

text \<open>\<open>from\<close> is never negative where this is called.\<close>

definition next_alive_thread :: "thread_slot list \<Rightarrow> int \<Rightarrow> int" where
  "next_alive_thread ts from =
     (let idx = (\<lambda>i. (from + int i) mod int (length ts)) in
      case find (\<lambda>i. ts_alive (ts ! nat (idx i))) [1..<Suc (length ts)] of
        Some i \<Rightarrow> idx i
      | None \<Rightarrow> -1)"

section \<open>New threads\<close>

abbreviation THREAD_STACK_SIZE :: u32 where "THREAD_STACK_SIZE \<equiv> 0x10000"

definition new_slot :: "u32 \<Rightarrow> u32 \<Rightarrow> u32 \<Rightarrow> thread_slot" where
  "new_slot esp start fs =
     \<lparr>ts_gp = (\<lambda>_. 0)(GP_ESP := esp), ts_eip = start, ts_eflags = 0x00000202, ts_fs_base = fs, ts_alive = True\<rparr>"

text \<open>The thread returns to the stub of \<open>HalReturnToFirmware\<close>, with its argument above.\<close>

definition promote_thread :: "pending_thread \<Rightarrow> xbox_system \<Rightarrow> xbox_system option" where
  "promote_thread t s = do {
     let (base, heap) = heap_alloc THREAD_STACK_SIZE 0x1000 (sys_heap s);
     let s = upd_heap (\<lambda>_. heap) s;
     let esp = (if base \<noteq> 0 then base + THREAD_STACK_SIZE else 0x00C00000);
     let halt_ret = hle_stub_addr (sys_bases s) ORD_HalReturnToFirmware;
     let fs = (if threads s = [] then BOOT_FS_BASE else ts_fs_base (threads s ! 0));
     s \<leftarrow> sys_mem (out32 (esp - 4) (start_context t)) s;
     s \<leftarrow> sys_mem (out32 (esp - 8) halt_ret) s;
     Some (s\<lparr>threads := threads s @ [new_slot (esp - 8) (start_routine t) fs]\<rparr>)
   }"

primrec promote_all :: "pending_thread list \<Rightarrow> xbox_system \<Rightarrow> xbox_system option" where
  "promote_all [] s = Some s"
| "promote_all (t # ts) s = Option.bind (promote_thread t s) (promote_all ts)"

definition promote_pending :: "xbox_system \<Rightarrow> xbox_system option" where
  "promote_pending s =
     promote_all (pending_threads (sys_heap s)) (upd_heap (\<lambda>h. h\<lparr>pending_threads := []\<rparr>) s)"

definition start_main :: "xbox_system \<Rightarrow> xbox_system" where
  "start_main s =
     (let c = ctx (sys_mach s);
          s = (if threads s = []
               then s\<lparr>threads := [\<lparr>ts_gp = gp c, ts_eip = (if started s then eip c else entry_eip s),
                   ts_eflags = eflags c, ts_fs_base = fs_base c, ts_alive = True\<rparr>], current_thread := 0\<rparr>
               else s)
      in s\<lparr>started := True\<rparr>)"

section \<open>Runs\<close>

datatype 'a outcome = Done 'a | Undef | Endless

primrec and_then :: "'a outcome \<Rightarrow> ('a \<Rightarrow> 'b outcome) \<Rightarrow> 'b outcome" where
  "and_then (Done x) f = f x"
| "and_then Undef f = Undef"
| "and_then Endless f = Endless"

definition defined :: "'a option \<Rightarrow> 'a outcome" where
  "defined x = (case x of Some y \<Rightarrow> Done y | None \<Rightarrow> Undef)"

text \<open>\<open>exec->run(e, n)\<close> after the processor is set going.\<close>

definition unhalt :: "xbox_system \<Rightarrow> xbox_system" where
  "unhalt = upd_sys (upd_ctx (\<lambda>c. c\<lparr>halted := False, stop_reason := STOP_NONE\<rparr>))"

definition exec_run :: "hooks \<Rightarrow> nat \<Rightarrow> u32 \<Rightarrow> xbox_system \<Rightarrow> xbox_system outcome" where
  "exec_run h n e s =
     (case run n h e n (sys_run s) of
        Ran r \<Rightarrow> Done (s\<lparr>sys_run := r\<rparr>)
      | Undefined \<Rightarrow> Undef
      | Unfinished \<Rightarrow> Endless)"

text \<open>Deferred calls run on whatever stack the processor has.\<close>

primrec push_words :: "u32 list \<Rightarrow> xbox_system \<Rightarrow> xbox_system option" where
  "push_words [] s = Some s"
| "push_words (v # vs) s =
     (let esp = reg GP_ESP (sys_mach s) - 4 in
      Option.bind (sys_mem (out32 esp v) s) (\<lambda>s. push_words vs (upd_sys (set_reg GP_ESP esp) s)))"

definition fire_dpc :: "hooks \<Rightarrow> nat \<Rightarrow> pending_dpc \<Rightarrow> xbox_system \<Rightarrow> xbox_system outcome" where
  "fire_dpc h n d s =
     and_then (defined (push_words [0, dpc_timer_va d, dpc_context d, dpc_va d, 0xFFFFFFFF] s))
       (\<lambda>s. exec_run h n (dpc_routine d) (unhalt s))"

primrec fire_dpcs :: "nat \<Rightarrow> hooks \<Rightarrow> nat \<Rightarrow> xbox_system \<Rightarrow> xbox_system outcome" where
  "fire_dpcs 0 h n s = (if pending_dpcs (sys_heap s) = [] then Done s else Endless)"
| "fire_dpcs (Suc k) h n s =
     (case pending_dpcs (sys_heap s) of
        [] \<Rightarrow> Done s
      | d # ds \<Rightarrow> and_then (fire_dpc h n d (upd_heap (\<lambda>h. h\<lparr>pending_dpcs := ds\<rparr>) s)) (fire_dpcs k h n))"

section \<open>A step\<close>

definition wire_pramin :: "xbox_system \<Rightarrow> xbox_system" where
  "wire_pramin s =
     (let v = nv (hw_env (hw (sys_mach s))); h = sys_heap s in
      if gpu_instance_base h \<noteq> 0 \<and> \<not> pramin_ram v
      then upd_sys (\<lambda>m. m\<lparr>hw := set_nv (v\<lparr>pramin_ram := True, pramin_ram_base := gpu_instance_base h,
        pramin_ram_size := gpu_instance_size h\<rparr>) (hw m)\<rparr>) s
      else s)"

text \<open>The thread to run, -1 when there is none.\<close>

definition pick_thread :: "xbox_system \<Rightarrow> int" where
  "pick_thread s =
     (let cur = current_thread s in
      if cur < 0 \<or> int (length (threads s)) \<le> cur \<or> \<not> ts_alive (threads s ! nat cur)
      then next_alive_thread (threads s) (if cur \<ge> 0 then cur else 0) else cur)"

definition stop_system :: "xbox_system \<Rightarrow> bool \<times> xbox_system" where
  "stop_system s = (False, s\<lparr>running := False\<rparr>)"

definition thread_exited :: "xbox_system \<Rightarrow> bool" where
  "thread_exited s \<longleftrightarrow>
     (let c = ctx (sys_mach s) in
      halted c \<and> (eip c = 0xFFFFFFFF \<or> eip c = hle_stub_addr (sys_bases s) ORD_HalReturnToFirmware))"

definition kill_thread :: "int \<Rightarrow> xbox_system \<Rightarrow> xbox_system" where
  "kill_thread i s = s\<lparr>threads := (threads s)[nat i := (threads s ! nat i)\<lparr>ts_alive := False\<rparr>]\<rparr>"

definition leave_thread :: "int \<Rightarrow> xbox_system \<Rightarrow> (bool \<times> xbox_system) option" where
  "leave_thread cur s = do {
     s \<leftarrow> promote_pending (kill_thread cur s);
     let nxt = next_alive_thread (threads s) cur;
     Some (if nxt < 0 then stop_system s else (True, restore_thread nxt (s\<lparr>current_thread := nxt\<rparr>)))
   }"

definition yield_thread :: "int \<Rightarrow> xbox_system \<Rightarrow> bool \<times> xbox_system" where
  "yield_thread cur s =
     (let c = ctx (sys_mach s); nxt = next_alive_thread (threads s) cur;
          s = (if (halted c \<or> 1 < length (threads s)) \<and> nxt \<ge> 0 \<and> nxt \<noteq> cur then s\<lparr>current_thread := nxt\<rparr> else s)
      in if eip c \<ge> of_nat GUEST_RAM_SIZE \<and> eip c < 0xF0000000 then stop_system s else (True, s))"

text \<open>What follows the run of thread \<open>cur\<close>.\<close>

definition after_run :: "int \<Rightarrow> xbox_system \<Rightarrow> (bool \<times> xbox_system) option" where
  "after_run cur s =
     (let s = save_thread cur s; sr = stop_reason (ctx (sys_mach s)) in
      if sr = STOP_INVALID_OPCODE \<or> sr = STOP_DIVIDE_ERROR then Some (stop_system s)
      else if thread_exited s then leave_thread cur s
      else Some (yield_thread cur s))"

definition run_thread :: "hooks \<Rightarrow> nat \<Rightarrow> xbox_system \<Rightarrow> (bool \<times> xbox_system) outcome" where
  "run_thread h n s =
     (let cur = pick_thread s in
      if cur < 0 then Done (stop_system s)
      else let s = unhalt (restore_thread cur (s\<lparr>current_thread := cur\<rparr>)) in
        and_then (exec_run h n (eip (ctx (sys_mach s))) s) (\<lambda>s. defined (after_run cur s)))"

definition run_step :: "nat \<Rightarrow> hooks \<Rightarrow> nat \<Rightarrow> xbox_system \<Rightarrow> (bool \<times> xbox_system) outcome" where
  "run_step k h n s =
     (if \<not> running s then Done (False, s)
      else and_then (defined (promote_pending s))
        (\<lambda>s. and_then (fire_dpcs k h n (start_main s)) (\<lambda>s. run_thread h n (wire_pramin s))))"


section \<open>Threads and the rest of the system\<close>

lemma upd_exec_simps [simp]:
  "threads (upd_exec f s) = threads s" "current_thread (upd_exec f s) = current_thread s"
  "running (upd_exec f s) = running s" "started (upd_exec f s) = started s" "entry_eip (upd_exec f s) = entry_eip s"
  "sys_bases (upd_exec f s) = sys_bases s" "sys_ports (upd_exec f s) = sys_ports s" "sys_hle (upd_exec f s) = sys_hle s"
  "sys_info (upd_exec f s) = sys_info s" "sys_exec (upd_exec f s) = f (sys_exec s)"
  by (simp_all add: upd_exec_def)

lemma upd_sys_simps [simp]:
  "threads (upd_sys f s) = threads s" "current_thread (upd_sys f s) = current_thread s"
  "running (upd_sys f s) = running s" "started (upd_sys f s) = started s" "entry_eip (upd_sys f s) = entry_eip s"
  "sys_bases (upd_sys f s) = sys_bases s" "sys_ports (upd_sys f s) = sys_ports s" "sys_hle (upd_sys f s) = sys_hle s"
  "sys_info (upd_sys f s) = sys_info s" "sys_mach (upd_sys f s) = f (sys_mach s)" "sys_heap (upd_sys f s) = sys_heap s"
  by (simp_all add: upd_sys_def)

lemma upd_heap_simps [simp]:
  "threads (upd_heap g s) = threads s" "current_thread (upd_heap g s) = current_thread s"
  "running (upd_heap g s) = running s" "started (upd_heap g s) = started s" "entry_eip (upd_heap g s) = entry_eip s"
  "sys_bases (upd_heap g s) = sys_bases s" "sys_ports (upd_heap g s) = sys_ports s" "sys_hle (upd_heap g s) = sys_hle s"
  "sys_info (upd_heap g s) = sys_info s" "sys_mach (upd_heap g s) = sys_mach s" "sys_heap (upd_heap g s) = g (sys_heap s)"
  by (simp_all add: upd_heap_def)

text \<open>What every part but the choice of a thread keeps: the threads and which is current.\<close>

definition same_threads :: "xbox_system \<Rightarrow> xbox_system \<Rightarrow> bool" where
  "same_threads s s' \<longleftrightarrow>
     threads s' = threads s \<and> current_thread s' = current_thread s \<and> running s' = running s \<and> sys_bases s' = sys_bases s"

lemma same_threads_refl [simp]: "same_threads s s"
  by (simp add: same_threads_def)

lemma same_threads_trans: "same_threads s t \<Longrightarrow> same_threads t u \<Longrightarrow> same_threads s u"
  by (simp add: same_threads_def)

lemma sys_mem_threads: "sys_mem f s = Some s' \<Longrightarrow> same_threads s s' \<and> sys_heap s' = sys_heap s"
  by (auto simp: sys_mem_def same_threads_def)

lemma exec_run_threads: "exec_run h n e s = Done s' \<Longrightarrow> same_threads s s'"
  by (auto simp: exec_run_def same_threads_def split: run_end.splits)

lemma unhalt_threads [simp]: "same_threads s (unhalt s)"
  by (simp add: unhalt_def same_threads_def)

lemma and_then_Done: "and_then x f = Done y \<longleftrightarrow> (\<exists>z. x = Done z \<and> f z = Done y)"
  by (cases x) auto

lemma defined_Done [simp]: "defined x = Done y \<longleftrightarrow> x = Some y"
  by (cases x) (auto simp: defined_def)

lemma defined_Endless [simp]: "defined x \<noteq> Endless"
  by (cases x) (auto simp: defined_def)

lemma push_words_threads: "push_words vs s = Some s' \<Longrightarrow> same_threads s s'"
proof (induction vs arbitrary: s)
  case (Cons v vs)
  then obtain s1 where "sys_mem (out32 (reg GP_ESP (sys_mach s) - 4) v) s = Some s1"
      and "push_words vs (upd_sys (set_reg GP_ESP (reg GP_ESP (sys_mach s) - 4)) s1) = Some s'"
    by (auto simp: Let_def bind_eq_Some_conv)
  with Cons.IH sys_mem_threads show ?case by (fastforce simp: same_threads_def)
qed simp

lemma fire_dpc_threads: "fire_dpc h n d s = Done s' \<Longrightarrow> same_threads s s'"
  unfolding fire_dpc_def and_then_Done defined_Done
  by (blast intro: same_threads_trans push_words_threads unhalt_threads exec_run_threads)

lemma fire_dpcs_threads: "fire_dpcs k h n s = Done s' \<Longrightarrow> same_threads s s' \<and> pending_dpcs (sys_heap s') = []"
proof (induction k arbitrary: s)
  case 0
  then show ?case by (auto split: if_splits)
next
  case (Suc k)
  show ?case
  proof (cases "pending_dpcs (sys_heap s)")
    case (Cons d ds)
    define t where "t = upd_heap (\<lambda>h. h\<lparr>pending_dpcs := ds\<rparr>) s"
    obtain s1 where "fire_dpc h n d t = Done s1" "fire_dpcs k h n s1 = Done s'"
      using Suc.prems Cons by (auto simp: and_then_Done t_def)
    moreover have "same_threads s t" by (simp add: t_def same_threads_def)
    ultimately show ?thesis using Suc.IH fire_dpc_threads same_threads_trans by blast
  qed (use Suc.prems in auto)
qed

lemma wire_pramin_threads [simp]: "same_threads s (wire_pramin s)"
  by (simp add: wire_pramin_def same_threads_def Let_def)

section \<open>New threads go to the end\<close>

definition grown :: "xbox_system \<Rightarrow> xbox_system \<Rightarrow> bool" where
  "grown s s' \<longleftrightarrow> (\<exists>ts. threads s' = threads s @ ts \<and> list_all ts_alive ts) \<and>
     current_thread s' = current_thread s \<and> running s' = running s \<and> sys_bases s' = sys_bases s"

lemma grown_trans: "grown s t \<Longrightarrow> grown t u \<Longrightarrow> grown s u"
  unfolding grown_def by (metis append.assoc list_all_append)

lemma promote_thread_grown: "promote_thread t s = Some s' \<Longrightarrow> grown s s'"
  by (auto simp: promote_thread_def grown_def bind_eq_Some_conv Let_def case_prod_beta same_threads_def new_slot_def
      dest!: sys_mem_threads)

lemma promote_all_grown: "promote_all ts s = Some s' \<Longrightarrow> grown s s'"
proof (induction ts arbitrary: s)
  case Nil
  then show ?case by (simp add: grown_def)
next
  case (Cons t ts)
  then show ?case by (auto simp: bind_eq_Some_conv intro: grown_trans promote_thread_grown)
qed

lemma promote_pending_grown: "promote_pending s = Some s' \<Longrightarrow> grown s s'"
  unfolding promote_pending_def by (drule promote_all_grown) (simp add: grown_def)

section \<open>A step runs one thread\<close>

text \<open>The slot has the registers of the context.\<close>

definition holds :: "thread_slot \<Rightarrow> guest_context \<Rightarrow> bool" where
  "holds t c \<longleftrightarrow> ts_gp t = gp c \<and> ts_eip t = eip c \<and> ts_eflags t = eflags c \<and> ts_fs_base t = fs_base c"

definition current_alive :: "xbox_system \<Rightarrow> bool" where
  "current_alive s \<longleftrightarrow> 0 \<le> current_thread s \<and> nat (current_thread s) < length (threads s) \<and>
     ts_alive (threads s ! nat (current_thread s))"

lemma pick_current: "current_alive s \<Longrightarrow> pick_thread s = current_thread s"
  by (auto simp: current_alive_def pick_thread_def Let_def)

lemma grown_current:
  assumes "grown s t" and "current_alive s"
  shows "current_alive t" and "i < length (threads s) \<Longrightarrow> threads t ! i = threads s ! i"
  using assms by (auto simp: grown_def current_alive_def nth_append)

lemma same_threads_current: "same_threads s t \<Longrightarrow> current_alive s \<Longrightarrow> current_alive t"
  by (simp add: same_threads_def current_alive_def)

lemma start_main_threads: "threads s \<noteq> [] \<Longrightarrow> same_threads s (start_main s)"
  by (simp add: start_main_def same_threads_def Let_def)

lemma restored_context:
  assumes "current_alive s"
  shows "holds (threads s ! nat (current_thread s)) (ctx (sys_mach (unhalt (restore_thread (current_thread s) s))))"
    and "\<not> halted (ctx (sys_mach (unhalt (restore_thread (current_thread s) s))))"
    and "stop_reason (ctx (sys_mach (unhalt (restore_thread (current_thread s) s)))) = STOP_NONE"
  using assms by (auto simp: current_alive_def restore_thread_def unhalt_def upd_ctx_def load_context_def holds_def)

lemma restore_threads [simp]: "same_threads s (restore_thread i s)"
  by (simp add: restore_thread_def same_threads_def)

lemma save_thread_slots:
  assumes "0 \<le> cur" "nat cur < length (threads s)"
  shows "i \<noteq> nat cur \<Longrightarrow> threads (save_thread cur s) ! i = threads s ! i"
    and "holds (threads (save_thread cur s) ! nat cur) (ctx (sys_mach s))"
    and "length (threads (save_thread cur s)) = length (threads s)"
    and "sys_mach (save_thread cur s) = sys_mach s"
    and "ts_alive (threads (save_thread cur s) ! nat cur) = ts_alive (threads s ! nat cur)"
  using assms by (auto simp: save_thread_def holds_def Let_def)

text \<open>What \<open>after_run\<close> does to the slots, whichever way it goes.\<close>

lemma after_run_slots:
  assumes a: "after_run cur s = Some (b, s')" and cur: "0 \<le> cur" "nat cur < length (threads s)"
  shows "i < length (threads s) \<Longrightarrow> i \<noteq> nat cur \<Longrightarrow> threads s' ! i = threads s ! i"
    and "holds (threads s' ! nat cur) (ctx (sys_mach s))"
    and "length (threads s) \<le> length (threads s')"
proof -
  define t where "t = save_thread cur s"
  note sv = save_thread_slots [OF cur, folded t_def]
  have "(\<forall>i < length (threads s). i \<noteq> nat cur \<longrightarrow> threads s' ! i = threads s ! i) \<and>
      holds (threads s' ! nat cur) (ctx (sys_mach s)) \<and> length (threads s) \<le> length (threads s')"
  proof (cases "thread_exited t \<and> stop_reason (ctx (sys_mach t)) \<noteq> STOP_INVALID_OPCODE \<and>
      stop_reason (ctx (sys_mach t)) \<noteq> STOP_DIVIDE_ERROR")
    case False
    then have "threads s' = threads t"
      using a by (auto simp: after_run_def Let_def stop_system_def yield_thread_def simp flip: t_def split: if_splits)
    then show ?thesis using sv by auto
  next
    case True
    then obtain u where u: "promote_pending (kill_thread cur t) = Some u" and s': "threads s' = threads u"
      using a by (fastforce simp: after_run_def leave_thread_def Let_def stop_system_def bind_eq_Some_conv
          restore_thread_def simp flip: t_def split: if_splits)
    obtain ts where "threads u = threads (kill_thread cur t) @ ts"
      using promote_pending_grown [OF u] by (auto simp: grown_def)
    then show ?thesis using sv cur by (auto simp: s' kill_thread_def nth_append holds_def)
  qed
  then show "i < length (threads s) \<Longrightarrow> i \<noteq> nat cur \<Longrightarrow> threads s' ! i = threads s ! i"
    and "holds (threads s' ! nat cur) (ctx (sys_mach s))" and "length (threads s) \<le> length (threads s')"
    by blast+
qed

text \<open>The parts of a step.\<close>

lemma run_step_parts:
  assumes r: "run_step k h n s = Done (b, s')" and s: "running s" "current_alive s"
  obtains u v where "grown s u" "current_alive u" "current_thread u = current_thread s"
    "exec_run h n (eip (ctx (sys_mach (unhalt (restore_thread (current_thread u) u)))))
       (unhalt (restore_thread (current_thread u) u)) = Done v"
    "after_run (current_thread u) v = Some (b, s')"
proof -
  obtain s1 s2 where 1: "promote_pending s = Some s1" and 2: "fire_dpcs k h n (start_main s1) = Done s2"
      and 3: "run_thread h n (wire_pramin s2) = Done (b, s')"
    using r s by (auto simp: run_step_def and_then_Done)
  define u where "u = wire_pramin s2"
  have g: "grown s s1" by (rule promote_pending_grown [OF 1])
  then have c1: "current_alive s1" by (rule grown_current(1)) (rule s(2))
  then have "threads s1 \<noteq> []" by (auto simp: current_alive_def)
  then have su: "same_threads s1 u"
    using fire_dpcs_threads [OF 2] start_main_threads wire_pramin_threads same_threads_trans unfolding u_def by blast
  then have cu: "current_alive u" using c1 by (rule same_threads_current)
  have gu: "grown s u" "current_thread u = current_thread s"
    using g su by (auto simp: grown_def same_threads_def)
  have "u\<lparr>current_thread := current_thread u\<rparr> = u" by simp
  then have "and_then (exec_run h n (eip (ctx (sys_mach (unhalt (restore_thread (current_thread u) u)))))
       (unhalt (restore_thread (current_thread u) u))) (\<lambda>v. defined (after_run (current_thread u) v)) = Done (b, s')"
    using 3 cu pick_current [OF cu] by (simp add: run_thread_def Let_def current_alive_def flip: u_def)
  then show ?thesis using that gu cu by (auto simp: and_then_Done)
qed

text \<open>C10: A thread's registers are its own.  A step of the scheduler, whatever threads are created and
  whatever deferred calls are run before it on whatever stack, resumes the current thread with exactly the
  registers, EIP, EFLAGS and FS base its slot holds, and leaves in the slot those the run ends with; no
  other thread's slot changes.\<close>

theorem thread_step:
  assumes "run_step k h n s = Done (b, s')" and "running s" and "current_alive s"
  shows "\<exists>u v. holds (threads s ! nat (current_thread s)) (ctx (sys_mach u)) \<and> \<not> halted (ctx (sys_mach u)) \<and>
    exec_run h n (ts_eip (threads s ! nat (current_thread s))) u = Done v \<and>
    holds (threads s' ! nat (current_thread s)) (ctx (sys_mach v)) \<and>
    (\<forall>i < length (threads s). i \<noteq> nat (current_thread s) \<longrightarrow> threads s' ! i = threads s ! i)"
proof -
  obtain u v where g: "grown s u" and c: "current_alive u" and cs: "current_thread u = current_thread s"
    and e: "exec_run h n (eip (ctx (sys_mach (unhalt (restore_thread (current_thread u) u)))))
      (unhalt (restore_thread (current_thread u) u)) = Done v"
    and a: "after_run (current_thread u) v = Some (b, s')"
    using run_step_parts [OF assms] .
  define w where "w = unhalt (restore_thread (current_thread u) u)"
  have keep: "threads u ! i = threads s ! i" if "i < length (threads s)" for i
    by (rule grown_current(2) [OF g assms(3) that])
  have in_s: "nat (current_thread s) < length (threads s)" using assms(3) by (simp add: current_alive_def)
  have h: "holds (threads s ! nat (current_thread s)) (ctx (sys_mach w))" "\<not> halted (ctx (sys_mach w))"
    using restored_context [OF c] keep [OF in_s] by (simp_all add: cs w_def)
  have "same_threads u v"
    using exec_run_threads [OF e] restore_threads unhalt_threads same_threads_trans by blast
  then have v: "threads v = threads u" by (simp add: same_threads_def)
  have cur: "0 \<le> current_thread u" "nat (current_thread u) < length (threads v)"
    using c v by (simp_all add: current_alive_def)
  note sl = after_run_slots [OF a cur]
  have "length (threads s) \<le> length (threads v)" using g by (auto simp: v grown_def)
  then have "threads s' ! i = threads s ! i" if "i < length (threads s)" "i \<noteq> nat (current_thread s)" for i
    using sl(1) [of i] that keep [of i] by (simp add: cs v)
  moreover have "exec_run h n (ts_eip (threads s ! nat (current_thread s))) w = Done v"
    using e h(1) by (simp add: holds_def flip: w_def)
  ultimately show ?thesis using h sl(2) by (auto simp: cs)
qed

section \<open>Round robin\<close>

lemma next_alive_flags:
  assumes "map ts_alive ts = map ts_alive us"
  shows "next_alive_thread ts from = next_alive_thread us from"
proof -
  have l: "length ts = length us" using assms by (metis length_map)
  have "ts_alive (ts ! i) = ts_alive (us ! i)" if "i < length us" for i
    using that assms l by (metis nth_map)
  moreover have "nat ((from + int i) mod int (length us)) < length us" if "us \<noteq> []" for i
    using that by (simp add: nat_less_iff)
  ultimately have "find (\<lambda>i. ts_alive (ts ! nat ((from + int i) mod int (length us)))) [1..<Suc (length us)] =
      find (\<lambda>i. ts_alive (us ! nat ((from + int i) mod int (length us)))) [1..<Suc (length us)]"
    by (cases "us = []") (auto intro: find_cong)
  then show ?thesis by (simp only: next_alive_thread_def Let_def l)
qed

lemma cyclic_distance:
  fixes f n j :: int
  assumes "0 \<le> f" "f < n" "0 \<le> j" "j < n"
  shows "(f + (j - f) mod n) mod n = j"
  using assms by (metis mod_add_right_eq add_diff_cancel_left' add.commute diff_add_cancel mod_pos_pos_trivial)

text \<open>The next living thread is no further away than any other living one.\<close>

lemma next_alive:
  assumes f: "0 \<le> f" "f < int (length ts)" and j: "j < length ts" "ts_alive (ts ! j)" "int j \<noteq> f"
  obtains i where "1 \<le> i" "int i \<le> (int j - f) mod int (length ts)"
    "next_alive_thread ts f = (f + int i) mod int (length ts)" "ts_alive (ts ! nat (next_alive_thread ts f))"
proof -
  define n where "n = int (length ts)"
  define d where "d = nat ((int j - f) mod n)"
  define P where "P = (\<lambda>i. ts_alive (ts ! nat ((f + int i) mod n)))"
  have n: "0 < n" using j by (cases ts) (auto simp: n_def)
  have d: "int d = (int j - f) mod n" using n by (simp add: d_def)
  have "(f + int d) mod n = int j" using cyclic_distance [of f n "int j"] f j by (simp add: d n_def)
  then have Pd: "P d" using j by (simp add: P_def)
  have "d \<noteq> 0"
  proof
    assume "d = 0"
    then have "f mod n = int j" using \<open>(f + int d) mod n = int j\<close> by simp
    then show False using f j by (simp add: n_def)
  qed
  moreover have "d < length ts" using n d by (metis n_def of_nat_less_iff pos_mod_bound)
  ultimately have "d \<in> set [1..<Suc (length ts)]" by auto
  then obtain i where i: "find P [1..<Suc (length ts)] = Some i"
    using Pd by (cases "find P [1..<Suc (length ts)]") (auto simp: find_None_iff)
  then obtain m where m: "m < length ts" "i = Suc m" "P i" "\<forall>m' < m. \<not> P (Suc m')"
    by (auto simp: find_Some_iff simp del: upt_Suc)
  have "\<not> d < i"
  proof
    assume "d < i"
    then have "d - 1 < m" "Suc (d - 1) = d" using \<open>d \<noteq> 0\<close> m by auto
    then show False using m(4) Pd by metis
  qed
  then have le: "int i \<le> (int j - f) mod n" using d by linarith
  have nx: "next_alive_thread ts f = (f + int i) mod n"
    using i by (simp add: next_alive_thread_def Let_def P_def n_def del: upt_Suc)
  have "ts_alive (ts ! nat (next_alive_thread ts f))" using m(3) by (simp add: nx P_def)
  then show ?thesis using that [of i] m(2) le nx by (simp add: n_def)
qed

lemma next_alive_self:
  assumes f: "0 \<le> f" "f < int (length ts)" "ts_alive (ts ! nat f)"
  shows "0 \<le> next_alive_thread ts f" "next_alive_thread ts f < int (length ts)"
    "ts_alive (ts ! nat (next_alive_thread ts f))"
proof -
  define P where "P = (\<lambda>i. ts_alive (ts ! nat ((f + int i) mod int (length ts))))"
  have "(f + int (length ts)) mod int (length ts) = f" using f by simp
  then have "P (length ts)" using f by (simp add: P_def)
  moreover have "length ts \<in> set [1..<Suc (length ts)]" using f by auto
  ultimately obtain i where i: "find P [1..<Suc (length ts)] = Some i"
    by (cases "find P [1..<Suc (length ts)]") (auto simp: find_None_iff)
  then have "P i" by (auto simp: find_Some_iff)
  moreover have "next_alive_thread ts f = (f + int i) mod int (length ts)"
    using i by (simp add: next_alive_thread_def Let_def P_def del: upt_Suc)
  moreover have "0 < int (length ts)" using f by linarith
  ultimately show "0 \<le> next_alive_thread ts f" "next_alive_thread ts f < int (length ts)"
    "ts_alive (ts ! nat (next_alive_thread ts f))"
    using f by (simp_all add: P_def)
qed

text \<open>A step in which no thread ends and none is made passes the turn on.\<close>

definition alive_flags :: "xbox_system \<Rightarrow> bool list" where
  "alive_flags s = map ts_alive (threads s)"

lemma exit_not_alive:
  assumes a: "after_run c v = Some (True, s')" and c: "0 \<le> c" "nat c < length (threads v)"
    and x: "thread_exited (save_thread c v)"
  shows "\<not> ts_alive (threads s' ! nat c)"
proof -
  define t where "t = save_thread c v"
  have len: "length (threads t) = length (threads v)" unfolding t_def by (rule save_thread_slots(3) [OF c])
  have "stop_reason (ctx (sys_mach t)) \<noteq> STOP_INVALID_OPCODE \<and> stop_reason (ctx (sys_mach t)) \<noteq> STOP_DIVIDE_ERROR"
    using a by (auto simp: after_run_def Let_def stop_system_def simp flip: t_def split: if_splits)
  then have "leave_thread c t = Some (True, s')"
    using a x by (simp add: after_run_def Let_def flip: t_def)
  then obtain w where w: "promote_pending (kill_thread c t) = Some w" and "threads s' = threads w"
    by (auto simp: leave_thread_def bind_eq_Some_conv Let_def stop_system_def restore_thread_def split: if_splits)
  moreover have "threads w ! nat c = threads (kill_thread c t) ! nat c"
    using promote_pending_grown [OF w] c len by (auto simp: grown_def nth_append kill_thread_def)
  ultimately show ?thesis using c len by (simp add: kill_thread_def)
qed

lemma step_passes_turn:
  assumes r: "run_step k h n s = Done (True, s')" and s: "running s" "current_alive s"
    and f: "alive_flags s' = alive_flags s" and two: "1 < length (threads s)"
  shows "current_thread s' = next_alive_thread (threads s) (current_thread s)" and "running s'"
proof -
  obtain u v where g: "grown s u" and c: "current_alive u" and cs: "current_thread u = current_thread s"
    and e: "exec_run h n (eip (ctx (sys_mach (unhalt (restore_thread (current_thread u) u)))))
      (unhalt (restore_thread (current_thread u) u)) = Done v"
    and a: "after_run (current_thread u) v = Some (True, s')"
    using run_step_parts [OF r s] .
  have uv: "same_threads u v"
    using exec_run_threads [OF e] restore_threads unhalt_threads same_threads_trans by blast
  define t where "t = save_thread (current_thread u) v"
  have cur: "0 \<le> current_thread u" "nat (current_thread u) < length (threads v)"
    using c uv by (simp_all add: current_alive_def same_threads_def)
  note sv = save_thread_slots [OF cur, folded t_def]
  have len: "length (threads s') = length (threads s)" using f by (metis alive_flags_def length_map)
  have s0: "0 \<le> current_thread s" "nat (current_thread s) < length (threads s)"
    "ts_alive (threads s ! nat (current_thread s))" using s(2) by (simp_all add: current_alive_def)
  have "length (threads u) = length (threads s)"
    using after_run_slots(3) [OF a cur] len g uv by (auto simp: grown_def same_threads_def)
  then have tu: "threads u = threads s" using g by (auto simp: grown_def)
  have "ts_alive (threads s' ! nat (current_thread u))"
    using f s0 len by (metis alive_flags_def cs nth_map)
  then have "\<not> thread_exited t" using exit_not_alive [OF a cur] by (auto simp: t_def)
  then have y: "yield_thread (current_thread u) t = (True, s')"
    using a by (auto simp: after_run_def Let_def stop_system_def simp flip: t_def split: if_splits)
  have flags: "map ts_alive (threads t) = map ts_alive (threads s)"
  proof (rule nth_equalityI)
    show "length (map ts_alive (threads t)) = length (map ts_alive (threads s))"
      using sv(3) uv tu by (simp add: same_threads_def)
    fix i assume "i < length (map ts_alive (threads t))"
    then show "map ts_alive (threads t) ! i = map ts_alive (threads s) ! i"
      using sv(1,3,5) uv tu by (cases "i = nat (current_thread u)") (auto simp: same_threads_def)
  qed
  have nx: "next_alive_thread (threads t) (current_thread s) = next_alive_thread (threads s) (current_thread s)"
    by (rule next_alive_flags [OF flags])
  have "0 \<le> next_alive_thread (threads s) (current_thread s)" by (rule next_alive_self(1)) (use s0 in auto)
  moreover have "1 < length (threads t)" "current_thread t = current_thread s" "running t"
    using sv(3) uv tu two cs g s(1) by (auto simp: same_threads_def t_def save_thread_def grown_def Let_def)
  ultimately show "current_thread s' = next_alive_thread (threads s) (current_thread s)" and "running s'"
    using y by (auto simp: yield_thread_def Let_def cs nx stop_system_def split: if_splits)
qed

definition turns_left :: "nat \<Rightarrow> xbox_system \<Rightarrow> nat" where
  "turns_left j s = nat ((int j - current_thread s) mod int (length (threads s)))"

lemma turn_comes_closer:
  assumes r: "run_step k h n s = Done (True, s')" and s: "running s" "current_alive s"
    and f: "alive_flags s' = alive_flags s"
    and j: "j < length (threads s)" "ts_alive (threads s ! j)" "current_thread s \<noteq> int j"
  shows "running s'" "current_alive s'" "turns_left j s' < turns_left j s"
proof -
  define N where "N = int (length (threads s))"
  have c: "0 \<le> current_thread s" "current_thread s < N" "ts_alive (threads s ! nat (current_thread s))"
    using s(2) by (auto simp: current_alive_def N_def)
  have len: "length (threads s') = length (threads s)" using f by (metis alive_flags_def length_map)
  have "1 < length (threads s)" using j c by (simp add: N_def)
  note turn = step_passes_turn [OF r s f this]
  note self = next_alive_self [OF c [unfolded N_def]]
  obtain i where i: "1 \<le> i" "int i \<le> (int j - current_thread s) mod N"
      "current_thread s' = (current_thread s + int i) mod N"
    using next_alive [OF c(1,2) [unfolded N_def] j(1,2)] j(3) turn(1) by (auto simp: N_def)
  show "running s'" by (rule turn(2))
  have "nat (current_thread s') < length (threads s)" using self turn(1) by simp
  then have "ts_alive (threads s' ! nat (current_thread s')) = ts_alive (threads s ! nat (current_thread s'))"
    using f len by (metis alive_flags_def nth_map)
  then show "current_alive s'" using self turn(1) len by (simp add: current_alive_def)
  have "(int j - current_thread s') mod N = ((int j - current_thread s) mod N - int i) mod N"
    unfolding i(3) by (simp add: mod_diff_left_eq mod_diff_right_eq diff_diff_eq)
  moreover have "(int j - current_thread s) mod N < N" using c by (intro pos_mod_bound) linarith
  ultimately have "(int j - current_thread s') mod N = (int j - current_thread s) mod N - int i"
    using i(1,2) by simp
  then show "turns_left j s' < turns_left j s" using i(1,2) len by (simp add: turns_left_def N_def)
qed

text \<open>C13: The scheduler is fair.  While no thread ends and none is made, every living thread has its turn
  within as many steps as there are threads.\<close>

theorem round_robin:
  assumes steps: "\<And>i. i < length (threads (S 0)) \<Longrightarrow>
      run_step k h n (S i) = Done (True, S (Suc i)) \<and> alive_flags (S (Suc i)) = alive_flags (S 0)"
    and start: "running (S 0)" "current_alive (S 0)"
    and j: "j < length (threads (S 0))" "ts_alive (threads (S 0) ! j)"
  shows "\<exists>i < length (threads (S 0)). current_thread (S i) = int j"
proof (rule ccontr)
  assume no: "\<not> (\<exists>i < length (threads (S 0)). current_thread (S i) = int j)"
  define N where "N = length (threads (S 0))"
  have inv: "i \<le> N \<Longrightarrow> running (S i) \<and> current_alive (S i) \<and> alive_flags (S i) = alive_flags (S 0) \<and>
      turns_left j (S i) + i \<le> turns_left j (S 0)" for i
  proof (induction i)
    case (Suc i)
    then have ih: "running (S i)" "current_alive (S i)" "alive_flags (S i) = alive_flags (S 0)"
      "turns_left j (S i) + i \<le> turns_left j (S 0)" by auto
    have st: "run_step k h n (S i) = Done (True, S (Suc i))" "alive_flags (S (Suc i)) = alive_flags (S i)"
      using steps [of i] Suc.prems ih(3) by (simp_all add: N_def)
    have "length (threads (S i)) = N" using ih(3) by (metis N_def alive_flags_def length_map)
    moreover have "ts_alive (threads (S i) ! j)" using ih(3) j calculation by (metis N_def alive_flags_def nth_map)
    moreover have "current_thread (S i) \<noteq> int j" using no Suc.prems by (auto simp: N_def)
    ultimately show ?case
      using turn_comes_closer [OF st(1) ih(1,2) st(2), of j] st(2) ih(3,4) j(1) by (simp add: N_def)
  qed (use start in simp)
  have "turns_left j (S 0) < N" using j by (cases "threads (S 0)") (simp_all add: turns_left_def N_def nat_less_iff)
  then show False using inv [of N] by simp
qed

section \<open>Two threads that find no code\<close>

text \<open>A processor without devices, at an address where nothing is: a run leaves everything as it is.\<close>

definition bare_hooks :: hooks where
  "bare_hooks = \<lparr>irq_check = None, irq_ack = None, tick_fn = None, tick_fn_burst = None, tick_period = 1024,
     world = no_world, emission = (\<lambda>_ _ _ _ _. \<lparr>em_code = [], em_links = [], em_sites = []\<rparr>),
     dispatch = (\<lambda>_. Some), clock = (\<lambda>_. 0)\<rparr>"

lemma bare_world: "hle_handler (world bare_hooks) = None"
  by (simp add: bare_hooks_def no_world_def)

abbreviation nowhere :: u32 where "nowhere \<equiv> 0xFE000000"

definition bare_run :: "run_state \<Rightarrow> bool" where
  "bare_run r \<longleftrightarrow> pending_irq r = 0 \<and> machine.mmio (gm r) = None \<and> \<not> paging_enabled (gm r) \<and>
     trace_get (pool (exec r), page_map (exec r)) nowhere = None"

lemma bare_run_loop:
  assumes "bare_run r"
  shows "\<exists>r'. run 1 bare_hooks nowhere 1 r = Ran r' \<and> bare_run r' \<and> hle_user (exec r') = hle_user (exec r) \<and>
    ctx (gm r') = (ctx (gm r))\<lparr>eip := nowhere, halted := False\<rparr>"
proof -
  define s where "s = run_start nowhere r"
  have s: "pending_irq s = 0" "machine.mmio (gm s) = None" "\<not> paging_enabled (gm s)"
    "trace_get (pool (exec s), page_map (exec s)) nowhere = None" "hle_user (exec s) = hle_user (exec r)"
    "ctx (gm s) = (ctx (gm r))\<lparr>eip := nowhere, halted := False\<rparr>" "steps s = 0"
    using assms by (simp_all add: s_def run_start_def bare_run_def upd_gm_def upd_ctx_def paging_enabled_def)
  define r' where "r' = break_chain (s\<lparr>exec := flush_code (exec s)\<rparr>)"
  have i: "run_irq bare_hooks s = Some s" by (simp add: run_irq_def has_irq_def bare_hooks_def s)
  have t: "exec_translate nowhere False (gm s) = Some (Some nowhere, gm s)"
    using s(3) by (simp add: exec_translate_def alias_pa_def)
  have u: "upd_gm (\<lambda>_. gm s) s = s" by (simp add: upd_gm_def)
  have v: "valid_trace nowhere (exec s) = None" using s(4) by (simp add: valid_trace_def trace_get_def)
  have f: "find_or_build bare_hooks nowhere nowhere s = Some (None, r')"
    by (simp add: find_or_build_def v code_window_def s u build_or_flush_def build_def r'_def Let_def break_chain_def)
  have "run_iter bare_hooks s = Some (Leave r')"
    by (simp add: run_iter_def i s bad_jump_def hle_def bare_world t u f Let_def)
  moreover have "\<not> run_done 1 s" using s by (simp add: run_done_def)
  ultimately have "run 1 bare_hooks nowhere 1 r = Ran r'" by (simp add: run_def s_def)
  moreover have "bare_run r'" "hle_user (exec r') = hle_user (exec r)" "ctx (gm r') = ctx (gm s)"
    using s flush_code_flushed [of "exec s"]
    by (simp_all add: r'_def break_chain_def bare_run_def paging_enabled_def flush_code_def clear_traces_def split: prod.splits)
  ultimately show ?thesis using s(6) by auto
qed

definition idle_pair :: "xbox_system \<Rightarrow> bool" where
  "idle_pair s \<longleftrightarrow> running s \<and> bare_run (sys_run s) \<and> pending_threads (sys_heap s) = [] \<and>
     pending_dpcs (sys_heap s) = [] \<and> gpu_instance_base (sys_heap s) = 0 \<and> length (threads s) = 2 \<and>
     list_all (\<lambda>t. ts_alive t \<and> ts_eip t = nowhere) (threads s) \<and> (current_thread s = 0 \<or> current_thread s = 1)"

lemma idle_pair_current: "idle_pair s \<Longrightarrow> current_alive s"
  by (auto simp: idle_pair_def current_alive_def list_all_length)

lemma bare_run_context:
  "bare_run (sys_run s) \<Longrightarrow> cr0 c = cr0 (ctx (sys_mach s)) \<Longrightarrow> bare_run (sys_run (upd_sys (upd_ctx (\<lambda>_. c)) s))"
  by (simp add: bare_run_def upd_sys_def upd_exec_def upd_ctx_def paging_enabled_def)

lemma idle_pair_step:
  assumes p: "idle_pair s"
  shows "\<exists>s'. run_step 0 bare_hooks 1 s = Done (True, s') \<and> idle_pair s' \<and> alive_flags s' = alive_flags s"
proof -
  define cur where "cur = current_thread s"
  define t where "t = threads s ! nat cur"
  have c: "cur = 0 \<or> cur = 1" "nat cur < length (threads s)" "length (threads s) = 2"
    and ts: "\<And>i. i < 2 \<Longrightarrow> ts_alive (threads s ! i) \<and> ts_eip (threads s ! i) = nowhere"
    using p by (auto simp: idle_pair_def cur_def list_all_length)
  have te: "ts_alive t" "ts_eip t = nowhere" using ts [of "nat cur"] c by (auto simp: t_def)
  define s1 where "s1 = s\<lparr>started := True\<rparr>"
  define s2 where "s2 = unhalt (restore_thread cur s1)"
  have "upd_heap (\<lambda>h. h\<lparr>pending_threads := []\<rparr>) s = s" using p by (simp add: idle_pair_def upd_heap_def upd_exec_def)
  then have pp: "promote_pending s = Some s" using p by (simp add: promote_pending_def idle_pair_def)
  have sm: "start_main s = s1" using c by (auto simp: start_main_def s1_def Let_def)
  have wp: "wire_pramin s1 = s1" using p by (simp add: wire_pramin_def idle_pair_def s1_def)
  have pk: "pick_thread s1 = cur" using idle_pair_current [OF p]
    by (auto simp: pick_thread_def s1_def cur_def current_alive_def Let_def)
  have e2: "eip (ctx (sys_mach s2)) = nowhere" "cr0 (ctx (sys_mach s2)) = cr0 (ctx (sys_mach s))"
    "stop_reason (ctx (sys_mach s2)) = STOP_NONE"
    using c te by (auto simp: s2_def s1_def unhalt_def restore_thread_def upd_ctx_def load_context_def t_def)
  have "bare_run (sys_run s2)"
    using p e2 by (simp add: idle_pair_def bare_run_def s2_def s1_def unhalt_def restore_thread_def upd_sys_def upd_exec_def
        upd_ctx_def paging_enabled_def load_context_def)
  then obtain r where r: "run 1 bare_hooks nowhere 1 (sys_run s2) = Ran r" "bare_run r"
      "hle_user (exec r) = hle_user (sys_exec s2)" "ctx (gm r) = (ctx (sys_mach s2))\<lparr>eip := nowhere, halted := False\<rparr>"
    using bare_run_loop by blast
  define s3 where "s3 = s2\<lparr>sys_run := r\<rparr>"
  have x: "exec_run bare_hooks 1 nowhere s2 = Done s3" by (simp add: exec_run_def r s3_def del: One_nat_def)
  have st3: "same_threads s1 s3" using exec_run_threads [OF x] restore_threads unhalt_threads same_threads_trans
    unfolding s2_def by blast
  define s4 where "s4 = save_thread cur s3"
  have c3: "0 \<le> cur" "nat cur < length (threads s3)" using c st3 by (auto simp: same_threads_def s1_def)
  note sv = save_thread_slots [OF c3, folded s4_def]
  have ctx4: "eip (ctx (sys_mach s4)) = nowhere" "\<not> halted (ctx (sys_mach s4))" "stop_reason (ctx (sys_mach s4)) = STOP_NONE"
    using sv(4) r(4) e2 by (simp_all add: s3_def)
  have al: "ts_alive (threads s4 ! i)" "ts_eip (threads s4 ! i) = nowhere" if "i < 2" for i
  proof -
    have "threads s3 = threads s" using st3 by (simp add: same_threads_def s1_def)
    then show "ts_alive (threads s4 ! i)" "ts_eip (threads s4 ! i) = nowhere"
      using sv(1,2,5) ts [OF that] r(4) by (cases "i = nat cur"; auto simp: holds_def s3_def)+
  qed
  have len4: "length (threads s4) = 2" using sv(3) st3 c by (simp add: same_threads_def s1_def)
  obtain nxt where nxt: "nxt = next_alive_thread (threads s4) cur" "0 \<le> nxt" "nxt < 2"
    using next_alive_self [of cur "threads s4"] al c len4 by auto
  define s5 where "s5 = (if nxt \<noteq> cur then s4\<lparr>current_thread := nxt\<rparr> else s4)"
  have "after_run cur s3 = Some (True, s5)"
    unfolding after_run_def Let_def s4_def [symmetric]
    by (simp add: ctx4 thread_exited_def yield_thread_def len4 flip: nxt(1)) (auto simp: s5_def nxt(2))
  moreover have "s1\<lparr>current_thread := cur\<rparr> = s1" by (simp add: s1_def cur_def)
  ultimately have "run_thread bare_hooks 1 s1 = Done (True, s5)"
    using c x e2 by (auto simp: run_thread_def pk Let_def simp flip: s2_def)
  moreover have dp: "pending_dpcs (sys_heap s1) = []" "running s" using p by (simp_all add: s1_def idle_pair_def)
  ultimately have "run_step 0 bare_hooks 1 s = Done (True, s5)"
    using dp by (simp add: run_step_def pp sm wp defined_def del: One_nat_def)
  moreover have "sys_heap s5 = sys_heap s" "sys_run s5 = r" "running s5"
    using r(3) st3 p by (auto simp: s5_def s4_def s3_def s2_def s1_def save_thread_def unhalt_def restore_thread_def
        same_threads_def idle_pair_def Let_def)
  moreover have "current_thread s5 = 0 \<or> current_thread s5 = 1"
    using nxt c st3 by (auto simp: s5_def s4_def save_thread_def same_threads_def s1_def cur_def Let_def)
  moreover have "threads s5 = threads s4" by (simp add: s5_def)
  moreover have "alive_flags s4 = alive_flags s"
    unfolding alive_flags_def by (rule nth_equalityI) (use al ts len4 c in auto)
  ultimately show ?thesis using p r(2) al len4
    by (auto simp: idle_pair_def list_all_length alive_flags_def)
qed

definition idle_demo :: xbox_system where
  "idle_demo = \<lparr>sys_run = \<lparr>exec = executor_start ((executor_init False)\<lparr>mmio := None\<rparr>) 0x10000000, pending_irq = 0,
       tick_counter = 0, steps = 0, prev_trace = None, spin_eip = 0, spin_count = 0, stale_eip = 0, stale_count = 0,
       prev_eip2 = 0, cycle2_count = 0, pf_log_count = 0, eip_sample_count = 0\<rparr>,
     sys_ports = [], sys_hle = False, sys_bases = default_bases, sys_info = no_xbe, running = True, started = True,
     entry_eip = 0, threads = [new_slot 0x1000 nowhere 0, new_slot 0x2000 nowhere 0], current_thread = 0\<rparr>"

lemma idle_demo_pair: "idle_pair idle_demo"
  by (simp add: idle_pair_def idle_demo_def bare_run_def executor_start_def executor_init_def new_heap_def new_slot_def
      paging_enabled_def trace_get_def tcache_lookup_def guest_context_init_def)

theorem thread_step_witness:
  "\<exists>u v b s'. run_step 0 bare_hooks 1 idle_demo = Done (b, s') \<and> gp (ctx (sys_mach u)) GP_ESP = 0x1000 \<and>
     exec_run bare_hooks 1 nowhere u = Done v \<and> threads s' ! 1 = new_slot 0x2000 nowhere 0"
proof -
  obtain s' where s': "run_step 0 bare_hooks 1 idle_demo = Done (True, s')" using idle_pair_step [OF idle_demo_pair] by blast
  have "running idle_demo" by (simp add: idle_demo_def)
  note step = thread_step [OF s' this idle_pair_current [OF idle_demo_pair]]
  have d: "current_thread idle_demo = 0" "threads idle_demo ! 0 = new_slot 0x1000 nowhere 0"
    "threads idle_demo ! 1 = new_slot 0x2000 nowhere 0" "length (threads idle_demo) = 2"
    by (simp_all add: idle_demo_def)
  obtain u v where "holds (new_slot 0x1000 nowhere 0) (ctx (sys_mach u))"
      and r: "exec_run bare_hooks 1 nowhere u = Done v"
      and k: "\<forall>i < 2. i \<noteq> 0 \<longrightarrow> threads s' ! i = threads idle_demo ! i"
    using step unfolding d nat_0 by (auto simp: new_slot_def)
  then have "gp (ctx (sys_mach u)) = (\<lambda>_. 0)(GP_ESP := 0x1000)" by (simp add: holds_def new_slot_def)
  then have "gp (ctx (sys_mach u)) GP_ESP = 0x1000" by simp
  moreover have "threads s' ! 1 = new_slot 0x2000 nowhere 0" using k d(3) by simp
  ultimately show ?thesis using s' r by blast
qed

primrec idle_steps :: "nat \<Rightarrow> xbox_system" where
  "idle_steps 0 = idle_demo"
| "idle_steps (Suc i) = (case run_step 0 bare_hooks 1 (idle_steps i) of Done (_, s) \<Rightarrow> s | _ \<Rightarrow> idle_demo)"

lemma idle_steps_pair: "idle_pair (idle_steps i) \<and> alive_flags (idle_steps i) = alive_flags idle_demo"
proof (induction i)
  case (Suc i)
  then show ?case using idle_pair_step [of "idle_steps i"] by auto
qed (simp add: idle_demo_pair)

theorem round_robin_witness: "\<exists>i < 2. current_thread (idle_steps i) = 1"
proof -
  have two: "length (threads (idle_steps 0)) = 2" by (simp add: idle_demo_def)
  have "run_step 0 bare_hooks 1 (idle_steps i) = Done (True, idle_steps (Suc i)) \<and>
      alive_flags (idle_steps (Suc i)) = alive_flags (idle_steps 0)" for i
    using idle_steps_pair [of i] idle_pair_step [of "idle_steps i"] idle_steps_pair [of "Suc i"] by auto
  moreover have "running (idle_steps 0)" "current_alive (idle_steps 0)"
    using idle_pair_current [OF idle_demo_pair] by (simp_all add: idle_demo_def)
  moreover have "ts_alive (threads (idle_steps 0) ! 1)" by (simp add: idle_demo_def new_slot_def)
  ultimately show ?thesis using round_robin [of idle_steps 0 bare_hooks 1 1] two by simp
qed

end
