(* ===== verification/Boot_Facts.thy ===== *)
theory Boot_Facts
  imports Scheduler
begin

text \<open>
  What booting and scheduling guarantee, and where they do not: a mode that fails leaves no second try, a
  step returns when no deferred call is due, and the state a title starts in.
\<close>

section \<open>One mode only\<close>

lemma register_all_Some: "register_all es t = Some t' \<Longrightarrow> t' = t @ es"
  by (induction es arbitrary: t) (auto simp: register_io_def bind_eq_Some_conv split: if_splits, fastforce)

lemma register_all_full: "MAX_IO_PORTS < length t + length es \<Longrightarrow> es \<noteq> [] \<Longrightarrow> length t \<le> MAX_IO_PORTS \<Longrightarrow>
  register_all es t = None"
proof (induction es arbitrary: t)
  case (Cons e es)
  then show ?case by (cases "es = []") (auto simp: register_io_def)
qed simp

lemma register_all_length: "register_all es t = Some t' \<Longrightarrow> length t \<le> MAX_IO_PORTS \<Longrightarrow> length t' \<le> MAX_IO_PORTS"
  by (induction es arbitrary: t) (auto simp: register_io_def bind_eq_Some_conv split: if_splits)

lemma length_port_list: "length port_list = 72"
proof -
  have "length port_list = length port_numbers" by (metis io_ports_eq length_map)
  then show ?thesis by (simp add: port_numbers_def)
qed

lemma setup_system_ports: "setup_system committed mem s = Some s' \<Longrightarrow> sys_ports s' = sys_ports s @ port_list"
  by (auto simp: setup_system_def bind_eq_Some_conv dest: register_all_Some)

lemma second_setup: "setup_system committed mem s = Some s' \<Longrightarrow> length (sys_ports s') \<le> length (sys_ports t)
    \<Longrightarrow> length (sys_ports t) \<le> MAX_IO_PORTS \<Longrightarrow> setup_system committed' mem' t = None"
  using setup_system_ports [of committed mem s s'] length_port_list register_all_full [of "sys_ports t" port_list]
  by (cases "port_list = []") (auto simp: setup_system_def)

lemma set_flash_ports [simp]: "sys_ports (upd_flash f s) = sys_ports s"
  by (simp add: upd_flash_def)

lemma decrypt_ports [simp]: "sys_ports (decrypt_2bl k s) = sys_ports s"
  by (simp add: decrypt_2bl_def)

lemma lle_entry_ports: "lle_entry p k s = Some s' \<Longrightarrow> sys_ports s' = sys_ports s"
  by (auto simp: lle_entry_def Let_def split: if_splits)

lemma enter_bios_ports: "enter_bios p k s = Some (b, s') \<Longrightarrow> sys_ports s' = sys_ports s"
  by (auto simp: enter_bios_def bind_eq_Some_conv Let_def split: if_splits option.splits dest!: lle_entry_ports)

lemma boot_lle_ports: "boot_lle d committed mem c s = Some (b, s') \<Longrightarrow> \<exists>u. setup_system committed mem s = Some u \<and> sys_ports s' = sys_ports u"
  by (auto simp: boot_lle_def bind_eq_Some_conv Let_def case_prod_beta split: if_splits option.splits dest!: enter_bios_ports)

lemma boot_nboxkrnl_ports:
  "boot_nboxkrnl_system he td hdd d freed committed mem c (s, n) = Some (b, s', n') \<Longrightarrow>
    \<exists>u t. setup_system committed mem s = Some u \<and> (sys_ports s' = sys_ports u \<or>
      register_all (map he host_ports) (sys_ports u) = Some (sys_ports s'))"
  by (auto simp: boot_nboxkrnl_system_def bind_eq_Some_conv Let_def case_prod_beta split: if_splits)

text \<open>There is no second try.  The executor's port table has room for the machine's ports once, and
  every boot mode starts by registering them again: when the first mode that \<open>auto_boot\<close> tries fails
  and another is left, the next one's registration fails the assertion on the table's size.\<close>

theorem auto_boot_no_second_try:
  assumes "xbe_path c \<noteq> []" and "sys_ports s = []"
    and "if nboxkrnl_path c \<noteq> []
      then boot_nboxkrnl_system (be_host_entry e) (be_title_dir e) (be_hdd e) (be_disk e) (be_freed e)
        (be_committed e) (be_code_mem e) (c\<lparr>kernel_path := nboxkrnl_path c\<rparr>) (s, n) = Some (False, s', n')
      else bios_path c \<noteq> [] \<and> boot_lle (be_disk e) (be_committed e) (be_code_mem e) c s = Some (False, s')"
  shows "auto_boot e c (s, n) = None"
proof -
  obtain u where u: "setup_system (be_committed e) (be_code_mem e) s = Some u"
    and p: "length (sys_ports u) \<le> length (sys_ports s')" "length (sys_ports s') \<le> MAX_IO_PORTS"
  proof (cases "nboxkrnl_path c = []")
    case True
    then show ?thesis using that assms(2,3) boot_lle_ports setup_system_ports length_port_list by fastforce
  next
    case False
    then obtain u where u: "setup_system (be_committed e) (be_code_mem e) s = Some u"
        and "sys_ports s' = sys_ports u \<or> register_all (map (be_host_entry e) host_ports) (sys_ports u) = Some (sys_ports s')"
      using assms(3) by (auto dest: boot_nboxkrnl_ports)
    moreover have "length (sys_ports u) \<le> MAX_IO_PORTS" using setup_system_ports [OF u] assms(2) length_port_list by simp
    ultimately show ?thesis
      using that [OF u] register_all_Some [of _ "sys_ports u" "sys_ports s'"] register_all_length [of _ "sys_ports u" "sys_ports s'"]
      by (metis le_add1 length_append order_refl)
  qed
  have no: "setup_system committed mem s' = None" for committed mem by (rule second_setup [OF u p])
  have h: "try_hle e c s' = None" using assms(1) by (simp add: try_hle_def boot_hle_def no)
  then have "try_lle e c s' = None" by (simp add: try_lle_def boot_lle_def no)
  then show ?thesis using assms(1,3) h by (cases "nboxkrnl_path c = []") (simp_all add: auto_boot_def try_lle_def)
qed

definition fresh_system :: xbox_system where
  "fresh_system = \<lparr>sys_run = \<lparr>exec = executor_start (executor_init False) 0, pending_irq = 0,
       tick_counter = 0, steps = 0, prev_trace = None, spin_eip = 0, spin_count = 0, stale_eip = 0, stale_count = 0,
       prev_eip2 = 0, cycle2_count = 0, pf_log_count = 0, eip_sample_count = 0\<rparr>,
     sys_ports = [], sys_hle = False, sys_bases = default_bases, sys_info = no_xbe, running = False, started = False,
     entry_eip = 0, threads = [], current_thread = -1\<rparr>"

definition no_paths :: boot_paths where
  "no_paths = \<lparr>xbe_path = [], bios_path = [], mcpx_path = [], xiso_path = [], kernel_path = [], nboxkrnl_path = [],
     rc4_key_path = [], inner_key_path = [], dump_kernel_path = []\<rparr>"

definition empty_env :: boot_env where
  "empty_env = \<lparr>be_disk = (\<lambda>_. None), be_freed = (\<lambda>_. 0), be_committed = False, be_code_mem = 0,
     be_host_entry = debug_entry, be_title_dir = [], be_hdd = []\<rparr>"

definition nbox_demo :: nboxkrnl_state where
  "nbox_demo = \<lparr>nb_host = clock_demo, nb_io = io_init [] [] [], nb_keys = []\<rparr>"

text \<open>A BIOS that is not there, and a title.\<close>

theorem auto_boot_no_second_try_witness:
  "auto_boot empty_env (no_paths\<lparr>xbe_path := ascii ''a.xbe'', bios_path := ascii ''b''\<rparr>) (fresh_system, nbox_demo) = None"
proof -
  have "setup_system False 0 fresh_system \<noteq> None"
    using register_all_fits [of "[]" port_list] length_port_list by (simp add: setup_system_def fresh_system_def)
  then have "\<exists>s'. boot_lle (\<lambda>_. None) False 0 (no_paths\<lparr>xbe_path := ascii ''a.xbe'', bios_path := ascii ''b''\<rparr>) fresh_system =
      Some (False, s')"
    by (auto simp: boot_lle_def host_bytes_def load_bios_def)
  then obtain s' where "boot_lle (be_disk empty_env) (be_committed empty_env) (be_code_mem empty_env)
      (no_paths\<lparr>xbe_path := ascii ''a.xbe'', bios_path := ascii ''b''\<rparr>) fresh_system = Some (False, s')"
    by (auto simp: empty_env_def)
  then show ?thesis
    by (intro auto_boot_no_second_try [where s' = s']) (simp_all add: no_paths_def fresh_system_def ascii_def)
qed

section \<open>A step that returns\<close>

lemma and_then_returns: "x \<noteq> Endless \<Longrightarrow> (\<And>y. x = Done y \<Longrightarrow> f y \<noteq> Endless) \<Longrightarrow> and_then x f \<noteq> Endless"
  by (cases x) auto

lemma promote_all_dpcs: "promote_all ts s = Some s' \<Longrightarrow> pending_dpcs (sys_heap s') = pending_dpcs (sys_heap s)"
proof (induction ts arbitrary: s)
  case (Cons t ts)
  obtain s1 where 1: "promote_thread t s = Some s1" and 2: "promote_all ts s1 = Some s'"
    using Cons.prems by (auto simp: bind_eq_Some_conv)
  have "pending_dpcs (sys_heap s1) = pending_dpcs (sys_heap s)"
    using 1 by (auto simp: promote_thread_def bind_eq_Some_conv Let_def case_prod_beta heap_alloc_def dest!: sys_mem_threads)
  then show ?case using Cons.IH [OF 2] by simp
qed simp

lemma promote_pending_dpcs: "promote_pending s = Some s' \<Longrightarrow> pending_dpcs (sys_heap s') = pending_dpcs (sys_heap s)"
  unfolding promote_pending_def by (drule promote_all_dpcs) simp

text \<open>A step returns when no deferred call is due: whatever the threads run, the run of the current one
  ends with its budget, and there is no other loop.\<close>

theorem run_step_returns:
  assumes "0 < n" and "pending_dpcs (sys_heap s) = []"
  shows "run_step k h n s \<noteq> Endless"
proof -
  have r: "exec_run h n e t \<noteq> Endless" for e t
    using run_ends [OF assms(1) le_refl, of h e "sys_run t"] by (simp add: exec_run_def split: run_end.split)
  have t: "run_thread h n t \<noteq> Endless" for t
    by (simp add: run_thread_def Let_def and_then_returns [OF r])
  have d: "fire_dpcs k h n (start_main u) = Done (start_main u)" if "promote_pending s = Some u" for u
  proof -
    have "pending_dpcs (sys_heap u) = []" using promote_pending_dpcs [OF that] assms(2) by simp
    then have "pending_dpcs (sys_heap (start_main u)) = []" by (simp add: start_main_def Let_def)
    then show ?thesis by (cases k) simp_all
  qed
  show ?thesis
    by (cases "promote_pending s") (simp_all add: run_step_def defined_def d t)
qed

theorem run_step_returns_witness: "run_step 0 bare_hooks 1 idle_demo \<noteq> Endless"
  by (rule run_step_returns) (simp_all add: idle_demo_def executor_start_def new_heap_def)

section \<open>A deferred call for ever\<close>

text \<open>The loop over the deferred calls has no end when each call leaves one due: a timer whose call sets the
  timer again, for instance, since \<open>KeSetTimer\<close> makes its call due at once.\<close>

lemma fire_dpcs_endless:
  assumes "\<And>s. R s \<Longrightarrow> \<exists>d ds s'. pending_dpcs (sys_heap s) = d # ds \<and>
      fire_dpc h n d (upd_heap (\<lambda>h. h\<lparr>pending_dpcs := ds\<rparr>) s) = Done s' \<and> R s'" and "R s"
  shows "fire_dpcs k h n s = Endless"
  using assms(2)
proof (induction k arbitrary: s)
  case 0
  then show ?case using assms(1) by fastforce
next
  case (Suc k)
  then show ?case using assms(1) [OF Suc.prems] by auto
qed

section \<open>What a step leaves\<close>

text \<open>A system that can take a step: before its first, with no thread yet, or with a living thread current.\<close>

definition thread_ready :: "xbox_system \<Rightarrow> bool" where
  "thread_ready s \<longleftrightarrow> current_alive s \<or> threads s = [] \<and> pending_threads (sys_heap s) = []"

lemma next_alive_ok:
  assumes "0 \<le> next_alive_thread ts f"
  shows "next_alive_thread ts f < int (length ts)" "ts_alive (ts ! nat (next_alive_thread ts f))"
proof -
  obtain i where i: "find (\<lambda>i. ts_alive (ts ! nat ((f + int i) mod int (length ts)))) [1..<Suc (length ts)] = Some i"
    using assms by (auto simp: next_alive_thread_def Let_def split: option.splits)
  then have nx: "next_alive_thread ts f = (f + int i) mod int (length ts)" by (simp add: next_alive_thread_def Let_def del: upt_Suc)
  show "ts_alive (ts ! nat (next_alive_thread ts f))" using i by (auto simp: nx find_Some_iff)
  have "ts \<noteq> []" using i by (cases ts) (auto simp: find_Some_iff simp del: upt_Suc)
  then show "next_alive_thread ts f < int (length ts)" by (simp add: nx)
qed

definition step_result_ok :: "bool \<times> xbox_system \<Rightarrow> bool" where
  "step_result_ok = (\<lambda>(b, s). if b then running s \<and> current_alive s else \<not> running s)"

lemma leave_thread_ok:
  assumes "leave_thread cur s = Some r" and "running s"
  shows "step_result_ok r"
proof -
  obtain u where u: "promote_pending (kill_thread cur s) = Some u"
    and r: "r = (let nxt = next_alive_thread (threads u) cur in
      if nxt < 0 then stop_system u else (True, restore_thread nxt (u\<lparr>current_thread := nxt\<rparr>)))"
    using assms(1) by (auto simp: leave_thread_def bind_eq_Some_conv Let_def)
  have "running u" using promote_pending_grown [OF u] assms(2) by (simp add: grown_def kill_thread_def)
  then show ?thesis using next_alive_ok [of "threads u" cur]
    by (auto simp: r step_result_ok_def Let_def stop_system_def restore_thread_def current_alive_def)
qed

lemma yield_thread_ok:
  assumes "current_alive s" and "current_thread s = cur" and "running s"
  shows "step_result_ok (yield_thread cur s)"
  using assms next_alive_ok [of "threads s" cur]
  by (auto simp: yield_thread_def step_result_ok_def Let_def stop_system_def current_alive_def)

lemma after_run_ok:
  assumes "after_run cur s = Some r" and "current_alive s" and "current_thread s = cur" and "running s"
  shows "step_result_ok r"
proof -
  define t where "t = save_thread cur s"
  have c: "0 \<le> cur" "nat cur < length (threads s)" using assms(2,3) by (simp_all add: current_alive_def)
  note sv = save_thread_slots [OF c, folded t_def]
  have t: "current_thread t = cur" "running t" using assms(3,4) by (simp_all add: t_def save_thread_def Let_def)
  then have "current_alive t" using assms(2,3) sv(3,5) by (simp add: current_alive_def)
  then have "step_result_ok (yield_thread cur t)" using t by (intro yield_thread_ok)
  moreover have "step_result_ok (stop_system t)" by (simp add: step_result_ok_def stop_system_def)
  ultimately show ?thesis using assms(1) leave_thread_ok t(2)
    by (auto simp: after_run_def Let_def simp flip: t_def split: if_splits)
qed

lemma start_main_ready: "current_alive s \<or> threads s = [] \<Longrightarrow> current_alive (start_main s)"
  by (auto simp: start_main_def current_alive_def Let_def)

lemma promote_pending_ready: "promote_pending s = Some u \<Longrightarrow> thread_ready s \<Longrightarrow> current_alive u \<or> threads u = []"
  using promote_pending_grown grown_current(1) by (auto simp: thread_ready_def promote_pending_def)

text \<open>C15: A step leaves a system that can take another, or one that is stopped.  Whatever the guest does,
  when the step says to go on the system is running and its current thread is one of the slots and alive,
  and when it says to stop the system is not running.\<close>

theorem run_step_well_formed:
  assumes "run_step k h n s = Done (b, s')" and "thread_ready s" and "running s"
  shows "if b then running s' \<and> current_alive s' else \<not> running s'"
proof -
  obtain s1 s2 where 1: "promote_pending s = Some s1" and 2: "fire_dpcs k h n (start_main s1) = Done s2"
      and 3: "run_thread h n (wire_pramin s2) = Done (b, s')"
    using assms(1,3) by (auto simp: run_step_def and_then_Done)
  define u where "u = wire_pramin s2"
  have su: "same_threads (start_main s1) u"
    using fire_dpcs_threads [OF 2] wire_pramin_threads same_threads_trans unfolding u_def by blast
  have c: "current_alive u"
    using same_threads_current [OF su] start_main_ready promote_pending_ready [OF 1 assms(2)] by blast
  have ru: "running u"
    using su promote_pending_grown [OF 1] assms(3) by (simp add: same_threads_def grown_def start_main_def Let_def)
  have "u\<lparr>current_thread := current_thread u\<rparr> = u" by simp
  then obtain v where v: "exec_run h n (eip (ctx (sys_mach (unhalt (restore_thread (current_thread u) u)))))
       (unhalt (restore_thread (current_thread u) u)) = Done v" and a: "after_run (current_thread u) v = Some (b, s')"
    using 3 c pick_current [OF c] by (auto simp: run_thread_def Let_def current_alive_def and_then_Done simp flip: u_def)
  have "same_threads u v" using exec_run_threads [OF v] restore_threads unhalt_threads same_threads_trans by blast
  then have "current_alive v" "current_thread v = current_thread u" "running v"
    using same_threads_current c ru by (auto simp: same_threads_def)
  then show ?thesis using after_run_ok [OF a] by (simp add: step_result_ok_def)
qed

theorem run_step_well_formed_witness:
  "\<exists>s'. run_step 0 bare_hooks 1 idle_demo = Done (True, s') \<and> running s' \<and> current_alive s'"
proof -
  obtain s' where s': "run_step 0 bare_hooks 1 idle_demo = Done (True, s')" using idle_pair_step [OF idle_demo_pair] by blast
  moreover have "thread_ready idle_demo" "running idle_demo"
    using idle_pair_current [OF idle_demo_pair] by (simp_all add: thread_ready_def idle_demo_def)
  ultimately show ?thesis using run_step_well_formed [OF s'] by auto
qed

section \<open>The state a title starts in\<close>

text \<open>The processor control region and the thread behind it, at the two pages from \<open>fs\<close>.\<close>

definition kpcr_words :: "nat \<Rightarrow> (nat \<times> u32) list" where
  "kpcr_words fs =
     [(fs, 0xFFFFFFFF), (fs + 0x04, BOOT_STACK_TOP), (fs + 0x08, BOOT_STACK_TOP - 0x10000), (fs + 0x18, BOOT_FS_BASE),
      (fs + 0x1C, BOOT_FS_BASE), (fs + 0x20, BOOT_FS_BASE + 0x28), (fs + 0x28, BOOT_FS_BASE + 0x1000),
      (fs + 0x1028, BOOT_FS_BASE + 0x1200)]"

lemma setup_kpcr_memory:
  obtains m' where "setup_kpcr BOOT_FS_BASE BOOT_STACK_TOP m = Some m'"
    "list_all (\<lambda>(a, v). ld 4 m' a = v) (kpcr_words 0xD00000)" "\<And>i. i < 0xD00000 \<or> 0xD02000 \<le> i \<Longrightarrow> m' i = m i"
proof -
  define m0 where "m0 = fill_bytes 0x2000 0 m 0xD00000"
  define m1 where "m1 = st 4 (st 4 (st 4 (st 4 (st 4 (st 4 (st 4 m0 0xD00000 0xFFFFFFFF) 0xD00004 0xB00000) 0xD00008 0xAF0000)
    0xD00018 0xD00000) 0xD0001C 0xD00000) 0xD00020 0xD00028) 0xD00028 0xD01000"
  define m2 where "m2 = st 4 m1 0xD01028 0xD01200"
  define m' where "m' = fill_bytes 0x100 0 m2 0xD01200"
  have "setup_kpcr BOOT_FS_BASE BOOT_STACK_TOP m = Some m'"
    by (simp add: setup_kpcr_def fill_in_def Let_def m0_def m1_def m2_def m'_def)
  moreover have "ld 4 m' a = ld 4 m2 a" if "a + 4 \<le> 0xD01200" for a
    using that by (intro ld_cong) (simp add: m'_def fill_bytes_def)
  then have "list_all (\<lambda>(a, v). ld 4 m' a = v) (kpcr_words 0xD00000)"
    by (simp add: kpcr_words_def m2_def m1_def ld_st_disjoint)
  moreover have "m' i = m i" if "i < 0xD00000 \<or> 0xD02000 \<le> i" for i
    using that by (elim disjE) (simp_all add: m'_def fill_bytes_def m2_def m1_def m0_def)
  ultimately show ?thesis by (rule that)
qed

lemma title_stack_memory:
  obtains s' where "title_stack s = Some s'" "ld 4 (ram (sys_mach s')) 0xB00000 = 0xFFFFFFFF"
    "ctx (sys_mach s') = title_context (ctx (sys_mach s))" "sys_bases s' = sys_bases s"
    "list_all (\<lambda>(a, v). ld 4 (ram (sys_mach s')) a = v) (kpcr_words 0xD00000)"
    "\<And>i. \<not> (0xB00000 \<le> i \<and> i < 0xB00004) \<Longrightarrow> i < 0xD00000 \<or> 0xD02000 \<le> i \<Longrightarrow> ram (sys_mach s') i = ram (sys_mach s) i"
proof -
  define m where "m = st 4 (ram (sys_mach s)) 0xB00000 0xFFFFFFFF"
  obtain m' where m': "setup_kpcr BOOT_FS_BASE BOOT_STACK_TOP m = Some m'"
      "list_all (\<lambda>(a, v). ld 4 m' a = v) (kpcr_words 0xD00000)" and keep: "\<And>i. i < 0xD00000 \<or> 0xD02000 \<le> i \<Longrightarrow> m' i = m i"
    using setup_kpcr_memory [of m] by metis
  define u where "u = upd_sys (upd_ctx title_context) (upd_sys (set_mem m) s)"
  have u: "sys_mem (store_fields [(0, 4, 0xFFFFFFFF)] BOOT_STACK_TOP) s = Some (upd_sys (set_mem m) s)"
    "ram (sys_mach u) = m" "ctx (sys_mach u) = title_context (ctx (sys_mach s))" "sys_bases u = sys_bases s"
    by (simp_all add: sys_mem_def m_def u_def set_mem_def set_ram_def upd_ctx_def)
  have "title_stack s = Some (upd_sys (set_mem m') u)"
    using u(1,2) m'(1) by (simp add: title_stack_def sys_mem_def flip: u_def)
  moreover have "ld 4 m' 0xB00000 = ld 4 m 0xB00000" by (intro ld_cong keep) simp
  moreover have "m' i = ram (sys_mach s) i" if "\<not> (0xB00000 \<le> i \<and> i < 0xB00004)" "i < 0xD00000 \<or> 0xD02000 \<le> i" for i
    using that keep [of i] by (auto simp: m_def not_le not_less)
  ultimately show ?thesis using that [of "upd_sys (set_mem m') u"] m'(2) u by (simp add: set_mem_def set_ram_def m_def)
qed

text \<open>The stubs clear of the stack's top word and of the control region.\<close>

definition stubs_clear :: "hle_bases \<Rightarrow> bool" where
  "stubs_clear h \<longleftrightarrow> (let b = unat (stub_base h); e = b + 3032 in
     (e \<le> 0xB00000 \<or> 0xB00004 \<le> b) \<and> (e \<le> 0xD00000 \<or> 0xD02000 \<le> b))"

text \<open>C16: What a title finds when it starts.  The stack is at its top, where a return address is found that
  ends the thread; FS points to a processor control region whose exception chain is at its end, whose self
  pointer is itself and whose current thread is the one behind it; every ordinal's stub is in place; and
  nothing else of memory has changed since the image was loaded.\<close>

theorem title_start:
  assumes "bases_ok (sys_bases s)" and "stubs_clear (sys_bases s)"
  shows "\<exists>s'. enter_title s = Some s' \<and> (let c = ctx (sys_mach s'); m = ram (sys_mach s'); b = unat (stub_base (sys_bases s)) in
    gp c GP_ESP = BOOT_STACK_TOP \<and> ld 4 m 0xB00000 = 0xFFFFFFFF \<and> fs_base c = BOOT_FS_BASE \<and> eflags c = 0x202 \<and>
    list_all (\<lambda>(a, v). ld 4 m a = v) (kpcr_words 0xD00000) \<and>
    (\<forall>k < MAX_KERNEL_ORDINALS. get_list 8 m (b + k * 8) = stub_code (of_nat k)) \<and>
    (\<forall>i. (i < b \<or> b + 3032 \<le> i) \<and> (i < 0xB00000 \<or> 0xB00004 \<le> i) \<and> (i < 0xD00000 \<or> 0xD02000 \<le> i) \<longrightarrow>
      m i = ram (sys_mach s) i))"
proof -
  obtain s1 where s1: "title_stack s = Some s1" "ld 4 (ram (sys_mach s1)) 0xB00000 = 0xFFFFFFFF"
      "ctx (sys_mach s1) = title_context (ctx (sys_mach s))" "sys_bases s1 = sys_bases s"
      "list_all (\<lambda>(a, v). ld 4 (ram (sys_mach s1)) a = v) (kpcr_words 0xD00000)"
    and k1: "\<And>i. \<not> (0xB00000 \<le> i \<and> i < 0xB00004) \<Longrightarrow> i < 0xD00000 \<or> 0xD02000 \<le> i \<Longrightarrow>
      ram (sys_mach s1) i = ram (sys_mach s) i"
    using title_stack_memory [of s] by metis
  define b where "b = unat (stub_base (sys_bases s))"
  obtain m' where m': "write_hle_stubs (sys_bases s) (ram (sys_mach s1)) = Some m'"
      "\<And>k. k < MAX_KERNEL_ORDINALS \<Longrightarrow> get_list 8 m' (b + k * 8) = stub_code (of_nat k)"
    and k2: "\<And>i. i < b \<or> b + 3032 \<le> i \<Longrightarrow> m' i = ram (sys_mach s1) i"
    using write_hle_stubs_ok [OF assms(1), of "ram (sys_mach s1)"] unfolding b_def by metis
  have same: "ld 4 m' a = ld 4 (ram (sys_mach s1)) a" if "a + 4 \<le> b \<or> b + 3032 \<le> a" for a
    by (intro ld_cong k2) (use that in auto)
  have "ld 4 m' 0xB00000 = 0xFFFFFFFF" using assms(2) same [of "0xB00000"] s1(2) by (auto simp: stubs_clear_def Let_def simp flip: b_def)
  moreover have "list_all (\<lambda>(a, v). ld 4 m' a = v) (kpcr_words 0xD00000)"
  proof -
    have "b + 3032 \<le> 0xD00000 \<or> 0xD02000 \<le> b" using assms(2) by (simp add: stubs_clear_def Let_def flip: b_def)
    then have "ld 4 m' (0xD00000 + k) = ld 4 (ram (sys_mach s1)) (0xD00000 + k)" if "k + 4 \<le> 0x2000" for k
      using that by (intro same) auto
    from this [of 0] this [of 4] this [of 8] this [of "0x18"] this [of "0x1C"] this [of "0x20"] this [of "0x28"] this [of "0x1028"]
    show ?thesis using s1(5) by (simp add: kpcr_words_def)
  qed
  moreover have "enter_title s = Some (upd_sys (set_mem m') s1)" by (simp add: enter_title_def s1 sys_mem_def m'(1))
  moreover have "m' i = ram (sys_mach s) i"
    if "i < b \<or> b + 3032 \<le> i" "i < 0xB00000 \<or> 0xB00004 \<le> i" "i < 0xD00000 \<or> 0xD02000 \<le> i" for i
    using that k1 [of i] k2 [of i] by (simp add: not_le not_less)
  ultimately show ?thesis using m'(2) s1(3) by (simp add: Let_def set_mem_def set_ram_def title_context_def flip: b_def)
qed

theorem title_start_witness:
  "\<exists>s'. enter_title fresh_system = Some s' \<and> gp (ctx (sys_mach s')) GP_ESP = BOOT_STACK_TOP \<and>
     ld 4 (ram (sys_mach s')) 0xB00000 = 0xFFFFFFFF \<and> get_list 8 (ram (sys_mach s')) (0x80000 + 3 * 8) = stub_code 3"
proof -
  have b: "sys_bases fresh_system = default_bases" "unat (stub_base default_bases) = 0x80000"
    by (simp_all add: fresh_system_def default_bases_def)
  have ok: "bases_ok default_bases" "stubs_clear default_bases"
    by (simp_all add: bases_ok_def stubs_clear_def default_bases_def)
  obtain s' where s': "enter_title fresh_system = Some s'" "gp (ctx (sys_mach s')) GP_ESP = BOOT_STACK_TOP"
      "ld 4 (ram (sys_mach s')) 0xB00000 = 0xFFFFFFFF"
    and stubs: "\<forall>k < MAX_KERNEL_ORDINALS. get_list 8 (ram (sys_mach s')) (0x80000 + k * 8) = stub_code (of_nat k)"
    using title_start [of fresh_system] ok unfolding b Let_def by blast
  have "get_list 8 (ram (sys_mach s')) (0x80000 + 3 * 8) = stub_code (of_nat 3)" by (rule stubs [rule_format]) simp
  then show ?thesis using s' by auto
qed

text \<open>A run that ends outside RAM and below the flash ends the system: the mirror of RAM at \<open>0x80000000\<close>,
  where kernels are linked, counts as outside.\<close>

lemma after_run_outside_ram:
  assumes "after_run cur s = Some r" and "of_nat GUEST_RAM_SIZE \<le> eip (ctx (sys_mach s))" and "eip (ctx (sys_mach s)) < 0xF0000000"
    and "eip (ctx (sys_mach s)) \<noteq> hle_stub_addr (sys_bases s) ORD_HalReturnToFirmware" and "0 \<le> cur" "nat cur < length (threads s)"
  shows "\<not> fst r \<and> \<not> running (snd r)"
proof -
  define t where "t = save_thread cur s"
  have t: "sys_mach t = sys_mach s" "sys_bases t = sys_bases s" by (simp_all add: t_def save_thread_def Let_def)
  have "eip (ctx (sys_mach s)) \<noteq> 0xFFFFFFFF" using assms(3) by auto
  then show ?thesis using assms(1,2,3,4)
    by (auto simp: after_run_def Let_def thread_exited_def yield_thread_def stop_system_def t simp flip: t_def split: if_splits)
qed

end
