(* ===== verification/Emu_Thread.thy ===== *)
theory Emu_Thread
  imports Scheduler
begin

text \<open>
  The emulation thread and the thread that controls it (\<open>src/src/xbox/emu_thread.hpp\<close>).  They share three
  flags and a condition variable; \<open>stop\<close> and \<open>resume\<close> store a flag and notify without taking the mutex,
  which only the worker locks, so the mutex is no part of the state.

  A state says where each of the two is; a step is one load, store or call of either of them.  \<open>k\<close> and \<open>h\<close>
  are the scheduler's.
\<close>

abbreviation STEPS_PER_ITER :: nat where "STEPS_PER_ITER \<equiv> 4000000"

text \<open>The worker: at the loop's test, at the two loads of the predicate, about to block with the predicate
  false, blocked, past the wait, at its slice of work, waiting for 10 ms, at the three stores that say it has
  halted (EIP, EAX, the flag) and the one that stops the system, at its end.\<close>

datatype worker_at =
  No_worker | Loop_top | Test_stop | Test_paused | To_sleep | Asleep | Awake | At_work | Nap
  | Store_eip | Store_eax | Store_flag | Store_running | Ended

datatype ui_at = Ui_idle | Resuming | Stopping | Joining

record emu_thread =
  emu_sys :: "xbox_system option"
  emu_mode :: boot_mode
  stop_flag :: bool
  paused_flag :: bool
  halted_flag :: bool
  halt_eip :: u32
  halt_eax :: u32
  worker :: worker_at
  ui :: ui_at

definition emu_fresh :: emu_thread where
  "emu_fresh = \<lparr>emu_sys = None, emu_mode = Boot_None, stop_flag = False, paused_flag = False, halted_flag = False,
     halt_eip = 0, halt_eax = 0, worker = No_worker, ui = Ui_idle\<rparr>"

definition emu_running :: "emu_thread \<Rightarrow> bool" where
  "emu_running e \<longleftrightarrow> worker e \<noteq> No_worker \<and> \<not> stop_flag e \<and> \<not> paused_flag e \<and> \<not> halted_flag e"

section \<open>The worker\<close>

text \<open>A halt is reported by one store after the other, each a step of its own, so that the other thread may
  look in between.\<close>

definition halt_emu :: "xbox_system \<Rightarrow> emu_thread \<Rightarrow> emu_thread" where
  "halt_emu s e = e\<lparr>emu_sys := Some s, worker := Store_eip\<rparr>"

definition store_halt :: "emu_thread \<Rightarrow> emu_thread" where
  "store_halt e =
     (case emu_sys e of
        None \<Rightarrow> e
      | Some s \<Rightarrow>
          (case worker e of
             Store_eip \<Rightarrow> e\<lparr>halt_eip := eip (ctx (sys_mach s)), worker := Store_eax\<rparr>
           | Store_eax \<Rightarrow> e\<lparr>halt_eax := reg GP_EAX (sys_mach s), worker := Store_flag\<rparr>
           | Store_flag \<Rightarrow> e\<lparr>halted_flag := True, worker := Store_running\<rparr>
           | Store_running \<Rightarrow> e\<lparr>emu_sys := Some (s\<lparr>running := False\<rparr>), worker := Ended\<rparr>
           | _ \<Rightarrow> e))"

definition halt_stores :: "worker_at set" where
  "halt_stores = {Store_eip, Store_eax, Store_flag, Store_running}"

definition emu_go_on :: "xbox_system \<Rightarrow> emu_thread \<Rightarrow> emu_thread" where
  "emu_go_on s e = e\<lparr>emu_sys := Some s, worker := Loop_top\<rparr>"

definition nbox_slice :: "hooks \<Rightarrow> xbox_system \<Rightarrow> (bool \<times> xbox_system) outcome" where
  "nbox_slice h s =
     (let s = upd_sys (upd_ctx (\<lambda>c. c\<lparr>halted := False\<rparr>)) s in
      and_then (exec_run h STEPS_PER_ITER (eip (ctx (sys_mach s))) s)
        (\<lambda>s. Done (\<not> (halted (ctx (sys_mach s)) \<and> eip (ctx (sys_mach s)) = 0xFFFFFFFF), s)))"

definition work_slice :: "nat \<Rightarrow> hooks \<Rightarrow> emu_thread \<Rightarrow> emu_thread outcome" where
  "work_slice k h e =
     (case emu_sys e of
        None \<Rightarrow> Done (e\<lparr>worker := Nap\<rparr>)
      | Some s \<Rightarrow>
          if \<not> running s then Done (e\<lparr>worker := Nap\<rparr>)
          else and_then (if emu_mode e = Boot_nboxkrnl then nbox_slice h s else run_step k h STEPS_PER_ITER s)
            (\<lambda>(b, s). Done (if b then emu_go_on s e else halt_emu s e)))"

text \<open>What the worker does next; it does nothing of itself where it waits, before it starts and after it
  has ended.\<close>

definition worker_next :: "nat \<Rightarrow> hooks \<Rightarrow> emu_thread \<Rightarrow> emu_thread outcome" where
  "worker_next k h e =
     (case worker e of
        Loop_top \<Rightarrow> Done (e\<lparr>worker := if stop_flag e then Ended else Test_stop\<rparr>)
      | Test_stop \<Rightarrow> Done (e\<lparr>worker := if stop_flag e then Awake else Test_paused\<rparr>)
      | Test_paused \<Rightarrow> Done (e\<lparr>worker := if paused_flag e then To_sleep else Awake\<rparr>)
      | To_sleep \<Rightarrow> Done (e\<lparr>worker := Asleep\<rparr>)
      | Awake \<Rightarrow> Done (e\<lparr>worker := if stop_flag e then Ended else At_work\<rparr>)
      | At_work \<Rightarrow> work_slice k h e
      | w \<Rightarrow> if w \<in> halt_stores then Done (store_halt e) else Undef)"

section \<open>The controlling thread\<close>

definition start_emu :: "xbox_system option \<Rightarrow> boot_mode \<Rightarrow> emu_thread \<Rightarrow> emu_thread" where
  "start_emu s m e = e\<lparr>emu_sys := s, emu_mode := m, stop_flag := False, paused_flag := False, halted_flag := False,
     worker := Loop_top\<rparr>"

text \<open>\<open>notify_one\<close> wakes the worker where it waits and is lost where it does not.\<close>

definition notify :: "emu_thread \<Rightarrow> emu_thread" where
  "notify e = (case worker e of
     Asleep \<Rightarrow> e\<lparr>worker := Test_stop\<rparr> | Nap \<Rightarrow> e\<lparr>worker := Loop_top\<rparr> | _ \<Rightarrow> e)"

text \<open>The calls, and the joining, which waits for the worker's end.\<close>

inductive ui_step :: "emu_thread \<Rightarrow> emu_thread \<Rightarrow> bool" where
  Start: "ui e = Ui_idle \<Longrightarrow> worker e = No_worker \<Longrightarrow> ui_step e (start_emu s m e)"
| Pause: "ui e = Ui_idle \<Longrightarrow> ui_step e (e\<lparr>paused_flag := True\<rparr>)"
| Resume: "ui e = Ui_idle \<Longrightarrow> ui_step e (e\<lparr>paused_flag := False, ui := Resuming\<rparr>)"
| Resumed: "ui e = Resuming \<Longrightarrow> ui_step e (notify (e\<lparr>ui := Ui_idle\<rparr>))"
| Stop: "ui e = Ui_idle \<Longrightarrow> ui_step e (e\<lparr>stop_flag := True, ui := Stopping\<rparr>)"
| Stopped: "ui e = Stopping \<Longrightarrow> ui_step e (notify (e\<lparr>ui := Joining\<rparr>))"
| Join: "ui e = Joining \<Longrightarrow> worker e = Ended \<Longrightarrow> ui_step e (e\<lparr>worker := No_worker, ui := Ui_idle\<rparr>)"
| Unjoined: "ui e = Joining \<Longrightarrow> worker e = No_worker \<Longrightarrow> ui_step e (e\<lparr>ui := Ui_idle\<rparr>)"

section \<open>The two together\<close>

text \<open>The library may wake a waiting thread at any time, and need not.\<close>

datatype emu_event = By_ui | By_worker | Timeout | Spurious

inductive emu_step :: "nat \<Rightarrow> hooks \<Rightarrow> emu_event \<Rightarrow> emu_thread \<Rightarrow> emu_thread \<Rightarrow> bool" for k h where
  Ui: "ui_step e e' \<Longrightarrow> emu_step k h By_ui e e'"
| Worker: "worker_next k h e = Done e' \<Longrightarrow> emu_step k h By_worker e e'"
| Timeout: "worker e = Nap \<Longrightarrow> emu_step k h Timeout e (e\<lparr>worker := Loop_top\<rparr>)"
| Spurious: "worker e = Asleep \<Longrightarrow> emu_step k h Spurious e (e\<lparr>worker := Test_stop\<rparr>)"

inductive emu_run :: "nat \<Rightarrow> hooks \<Rightarrow> emu_event list \<Rightarrow> emu_thread \<Rightarrow> emu_thread \<Rightarrow> bool" for k h where
  Here: "emu_run k h [] e e"
| More: "emu_run k h xs e e' \<Longrightarrow> emu_step k h x e' e'' \<Longrightarrow> emu_run k h (xs @ [x]) e e''"

inductive_cases ui_stepE: "ui_step e e'"
inductive_cases emu_stepE: "emu_step k h x e e'"

section \<open>A halt is final\<close>

text \<open>How far the report has come at each of the stores.\<close>

definition halt_kept :: "emu_thread \<Rightarrow> bool" where
  "halt_kept e \<longleftrightarrow>
     (halted_flag e \<longrightarrow> worker e \<in> {Store_running, Ended, No_worker}) \<and>
     (worker e \<in> halt_stores \<or> halted_flag e \<longrightarrow>
       (\<exists>s. emu_sys e = Some s \<and>
         (worker e \<in> {Store_eax, Store_flag, Store_running} \<or> halted_flag e \<longrightarrow> halt_eip e = eip (ctx (sys_mach s))) \<and>
         (worker e \<in> {Store_flag, Store_running} \<or> halted_flag e \<longrightarrow> halt_eax e = reg GP_EAX (sys_mach s)) \<and>
         (worker e = Store_running \<longrightarrow> halted_flag e) \<and>
         (halted_flag e \<and> worker e \<noteq> Store_running \<longrightarrow> \<not> running s)))"

lemma halt_kept_ui: "ui_step e e' \<Longrightarrow> halt_kept e \<Longrightarrow> halt_kept e'"
  by (erule ui_step.cases) (auto simp: halt_kept_def halt_stores_def start_emu_def notify_def split: worker_at.splits)

lemma work_slice_end:
  assumes "work_slice k h e = Done e'"
  obtains "e' = e\<lparr>worker := Nap\<rparr>" | s where "e' = emu_go_on s e" | s where "e' = halt_emu s e"
  using assms by (auto simp: work_slice_def and_then_Done split: option.splits if_splits)

lemma halt_kept_worker:
  assumes "worker_next k h e = Done e'" and "halt_kept e"
  shows "halt_kept e'"
proof (cases "worker e = At_work")
  case True
  then have "work_slice k h e = Done e'" "\<not> halted_flag e" using assms by (auto simp: worker_next_def halt_kept_def)
  then show ?thesis by (auto simp: halt_kept_def halt_stores_def emu_go_on_def halt_emu_def elim!: work_slice_end)
next
  case False
  then show ?thesis
    using assms by (auto simp: worker_next_def store_halt_def halt_kept_def halt_stores_def split: worker_at.splits if_splits)
qed

lemma halt_kept_step: "emu_step k h x e e' \<Longrightarrow> halt_kept e \<Longrightarrow> halt_kept e'"
proof (induction rule: emu_step.cases)
  case (Ui e e')
  then show ?case by (simp add: halt_kept_ui)
next
  case (Worker e e')
  then show ?case by (simp add: halt_kept_worker)
qed (auto simp: halt_kept_def halt_stores_def)

text \<open>C17: A halt is final and is reported as it was.  In every state that the two threads reach, in
  whatever order their steps come, a set \<open>halted_flag\<close> means that the worker is at the store that stops the
  system or at its end, that \<open>halt_eip\<close> and \<open>halt_eax\<close>, which it stores before the flag, one step each, are the
  processor's EIP and EAX, and, once the worker is done, that the system is no longer running.\<close>

theorem emu_halt_is_final:
  assumes "emu_run k h xs emu_fresh e" and "halted_flag e"
  shows "worker e \<in> {Store_running, Ended, No_worker} \<and>
    (\<exists>s. emu_sys e = Some s \<and> halt_eip e = eip (ctx (sys_mach s)) \<and> halt_eax e = reg GP_EAX (sys_mach s) \<and>
       (worker e \<noteq> Store_running \<longrightarrow> \<not> running s))"
proof -
  have "emu_run k h xs e0 e \<Longrightarrow> halt_kept e0 \<Longrightarrow> halt_kept e" for e0
    by (induction rule: emu_run.induct) (auto intro: halt_kept_step)
  then have "halt_kept e" using assms(1) by (auto simp: halt_kept_def halt_stores_def emu_fresh_def)
  then show ?thesis using assms(2) by (auto simp: halt_kept_def)
qed

text \<open>A system whose only thread is dead halts in its first slice.\<close>

definition dead_demo :: xbox_system where
  "dead_demo = idle_demo\<lparr>threads := [(new_slot 0x1000 nowhere 0)\<lparr>ts_alive := False\<rparr>]\<rparr>"

lemma dead_demo_step: "run_step k h n dead_demo = Done (False, dead_demo\<lparr>running := False, started := True\<rparr>)"
proof -
  have d: "pending_threads (sys_heap dead_demo) = []" "pending_dpcs (sys_heap dead_demo) = []"
    "gpu_instance_base (sys_heap dead_demo) = 0" "running dead_demo" "current_thread dead_demo = 0"
    "threads dead_demo = [(new_slot 0x1000 nowhere 0)\<lparr>ts_alive := False\<rparr>]"
    by (simp_all add: dead_demo_def idle_demo_def executor_start_def new_heap_def)
  have "upd_heap (\<lambda>h. h\<lparr>pending_threads := []\<rparr>) dead_demo = dead_demo"
    using d(1) by (simp add: upd_heap_def upd_exec_def)
  then have "promote_pending dead_demo = Some dead_demo" using d(1) by (simp add: promote_pending_def)
  moreover have "fire_dpcs k h n (start_main dead_demo) = Done (start_main dead_demo)"
    by (cases k) (simp_all add: start_main_def d Let_def)
  moreover have "wire_pramin (start_main dead_demo) = start_main dead_demo"
    by (simp add: wire_pramin_def start_main_def d Let_def)
  moreover have "run_thread h n (start_main dead_demo) = Done (False, dead_demo\<lparr>running := False, started := True\<rparr>)"
    by (simp add: run_thread_def pick_thread_def start_main_def d Let_def next_alive_thread_def stop_system_def upt_conv_Cons)
  ultimately show ?thesis using d(4) by (simp add: run_step_def defined_def)
qed

theorem emu_halt_is_final_witness:
  "\<exists>e s. emu_run 0 bare_hooks ([By_ui] @ replicate 8 By_worker) emu_fresh e \<and> halted_flag e \<and>
     worker e = Store_running \<and> emu_sys e = Some s \<and> halt_eip e = eip (ctx (sys_mach s)) \<and>
     halt_eax e = reg GP_EAX (sys_mach s)"
proof -
  define e0 where "e0 = start_emu (Some dead_demo) Boot_hle emu_fresh"
  define s where "s = dead_demo\<lparr>running := False, started := True\<rparr>"
  define e1 where "e1 = halt_emu s e0"
  define e2 where "e2 = store_halt e1"
  define e3 where "e3 = store_halt e2"
  define e4 where "e4 = store_halt e3"
  have r: "running dead_demo" by (simp add: dead_demo_def idle_demo_def)
  have "emu_step 0 bare_hooks By_ui emu_fresh e0"
    unfolding e0_def by (intro emu_step.Ui ui_step.Start) (simp_all add: emu_fresh_def)
  with emu_run.Here have 1: "emu_run 0 bare_hooks ([] @ [By_ui]) emu_fresh e0" by (rule emu_run.More)
  have n: "worker_next 0 bare_hooks e0 = Done (e0\<lparr>worker := Test_stop\<rparr>)"
    "worker_next 0 bare_hooks (e0\<lparr>worker := Test_stop\<rparr>) = Done (e0\<lparr>worker := Test_paused\<rparr>)"
    "worker_next 0 bare_hooks (e0\<lparr>worker := Test_paused\<rparr>) = Done (e0\<lparr>worker := Awake\<rparr>)"
    "worker_next 0 bare_hooks (e0\<lparr>worker := Awake\<rparr>) = Done (e0\<lparr>worker := At_work\<rparr>)"
    "worker_next 0 bare_hooks (e0\<lparr>worker := At_work\<rparr>) = Done e1"
    by (simp_all add: worker_next_def work_slice_def e0_def start_emu_def emu_fresh_def r dead_demo_step halt_emu_def s_def e1_def)
  have w: "worker e1 = Store_eip" "emu_sys e1 = Some s" "worker e2 = Store_eax" "emu_sys e2 = Some s" "worker e3 = Store_flag"
      "worker e4 = Store_running" "halted_flag e4"
    by (simp_all add: e4_def e3_def e2_def e1_def store_halt_def halt_emu_def)
  then have m: "worker_next 0 bare_hooks e1 = Done e2" "worker_next 0 bare_hooks e2 = Done e3" "worker_next 0 bare_hooks e3 = Done e4"
    by (simp_all add: worker_next_def halt_stores_def flip: e2_def e3_def e4_def)
  note st = n [THEN emu_step.Worker] m [THEN emu_step.Worker]
  have "emu_run 0 bare_hooks ([By_ui] @ replicate 8 By_worker) emu_fresh e4"
    using 1 [THEN emu_run.More, OF st(1), THEN emu_run.More, OF st(2), THEN emu_run.More, OF st(3), THEN emu_run.More,
      OF st(4), THEN emu_run.More, OF st(5), THEN emu_run.More, OF st(6), THEN emu_run.More, OF st(7), THEN emu_run.More,
      OF st(8)] by (simp add: numeral_eq_Suc)
  then show ?thesis using emu_halt_is_final [of 0 bare_hooks "[By_ui] @ replicate 8 By_worker" e4] w by auto
qed

section \<open>Stopping\<close>

text \<open>How far the worker is from its end when it has been told to stop and is not paused.\<close>

definition stop_rank :: "emu_thread \<Rightarrow> nat" where
  "stop_rank e = (case worker e of
     No_worker \<Rightarrow> 0 | Ended \<Rightarrow> 0 | Loop_top \<Rightarrow> 1 | Awake \<Rightarrow> 1 | Test_stop \<Rightarrow> 2 | Test_paused \<Rightarrow> 2 | Nap \<Rightarrow> 2
   | Store_running \<Rightarrow> 1 | Store_flag \<Rightarrow> 2 | Store_eax \<Rightarrow> 3 | Store_eip \<Rightarrow> 4 | At_work \<Rightarrow> 5 | To_sleep \<Rightarrow> 7 | Asleep \<Rightarrow> 6)"

definition stopping :: "emu_thread \<Rightarrow> bool" where
  "stopping e \<longleftrightarrow> stop_flag e \<and> ui e = Joining \<and> \<not> paused_flag e \<and> worker e \<notin> {To_sleep, Asleep, No_worker} \<and>
     (worker e \<in> halt_stores \<longrightarrow> emu_sys e \<noteq> None)"

text \<open>Stopping a worker that is not paused ends.  Once the flag is stored and the notification sent,
  with the worker neither blocked nor about to block, every step of the worker, and every time-out, brings
  it nearer to its end, which is at most five steps away; a step is always possible until then unless the
  guest's slice itself does not return; and at the end the call returns.\<close>

theorem emu_stop_ends:
  assumes "stopping e"
  shows "stop_rank e \<le> 5 \<and>
    (\<forall>x e'. x \<noteq> By_ui \<and> emu_step k h x e e' \<longrightarrow> stopping e' \<and> stop_rank e' < stop_rank e) \<and>
    (if stop_rank e = 0 then emu_step k h By_ui e (e\<lparr>worker := No_worker, ui := Ui_idle\<rparr>)
     else (\<exists>x e'. x \<noteq> By_ui \<and> emu_step k h x e e') \<or> worker e = At_work \<and> (\<forall>e'. work_slice k h e \<noteq> Done e'))"
proof (intro conjI)
  have w: "worker e \<in> {Ended, Loop_top, Awake, Test_stop, Test_paused, Nap, At_work} \<union> halt_stores"
    using assms by (cases "worker e") (auto simp: stopping_def halt_stores_def)
  then show "stop_rank e \<le> 5" by (auto simp: stop_rank_def halt_stores_def)
  have slice: "stopping e' \<and> stop_rank e' < 5" if "work_slice k h e = Done e'" for e'
    using that assms by (auto simp: stopping_def stop_rank_def halt_stores_def emu_go_on_def halt_emu_def elim!: work_slice_end)
  have stores: "stopping (store_halt e) \<and> stop_rank (store_halt e) < stop_rank e" if "worker e \<in> halt_stores"
    using that assms
    by (cases "worker e"; cases "emu_sys e") (simp_all add: store_halt_def stopping_def stop_rank_def halt_stores_def)
  have "stopping e' \<and> stop_rank e' < stop_rank e" if "worker_next k h e = Done e'" for e'
  proof (cases "worker e \<in> halt_stores")
    case True
    then have "e' = store_halt e" using that by (auto simp: worker_next_def halt_stores_def)
    then show ?thesis using stores True by simp
  next
    case False
    then show ?thesis using that assms slice [of e']
      by (cases "worker e") (auto simp: worker_next_def stopping_def stop_rank_def halt_stores_def)
  qed
  then show "\<forall>x e'. x \<noteq> By_ui \<and> emu_step k h x e e' \<longrightarrow> stopping e' \<and> stop_rank e' < stop_rank e"
    using assms by (auto simp: stopping_def stop_rank_def halt_stores_def elim!: emu_stepE)
  show "if stop_rank e = 0 then emu_step k h By_ui e (e\<lparr>worker := No_worker, ui := Ui_idle\<rparr>)
     else (\<exists>x e'. x \<noteq> By_ui \<and> emu_step k h x e e') \<or> worker e = At_work \<and> (\<forall>e'. work_slice k h e \<noteq> Done e')"
  proof (cases "worker e = Ended")
    case True
    then show ?thesis using assms by (auto simp: stop_rank_def stopping_def intro: emu_step.Ui ui_step.Join)
  next
    case False
    have "\<exists>e'. worker_next k h e = Done e'" if "worker e \<noteq> Nap" "\<not> (worker e = At_work \<and> (\<forall>e'. work_slice k h e \<noteq> Done e'))"
      using that False w by (auto simp: worker_next_def halt_stores_def)
    then have "(\<exists>x e'. x \<noteq> By_ui \<and> emu_step k h x e e') \<or> worker e = At_work \<and> (\<forall>e'. work_slice k h e \<noteq> Done e')"
      using emu_step.Worker [of k h e] emu_step.Timeout [of e k h] by blast
    moreover have "stop_rank e \<noteq> 0" using False w by (auto simp: stop_rank_def halt_stores_def)
    ultimately show ?thesis by simp
  qed
qed

theorem emu_stop_ends_witness:
  "\<exists>e'. emu_step 0 bare_hooks By_worker (emu_fresh\<lparr>stop_flag := True, ui := Joining, worker := Test_stop\<rparr>) e' \<and>
     stopping e' \<and> stop_rank e' < 2"
proof -
  define e where "e = emu_fresh\<lparr>stop_flag := True, ui := Joining, worker := Test_stop\<rparr>"
  have "stopping e" "stop_rank e = 2" by (simp_all add: stopping_def stop_rank_def halt_stores_def e_def emu_fresh_def)
  moreover have "emu_step 0 bare_hooks By_worker e (e\<lparr>worker := Awake\<rparr>)"
    by (rule emu_step.Worker) (simp add: worker_next_def e_def)
  ultimately show ?thesis using emu_stop_ends [of e 0 bare_hooks] unfolding e_def [symmetric] by fastforce
qed

text \<open>Nothing but a spurious wake-up can happen any more.\<close>

definition stuck :: "nat \<Rightarrow> hooks \<Rightarrow> emu_thread \<Rightarrow> bool" where
  "stuck k h e \<longleftrightarrow> (\<forall>x e'. emu_step k h x e e' \<longrightarrow> x = Spurious)"

text \<open>C18: Stopping a paused worker may hang.  A notification sent after the worker has found the pause
  flag set and before it blocks is lost, since the flag is stored and the notification sent without the
  mutex: the two threads can reach a state, without any spurious wake-up, in which \<open>stop\<close> waits for the
  worker, the worker is blocked although the stop flag is set, and nothing but a spurious wake-up can happen.\<close>

theorem emu_stop_can_hang:
  "\<exists>xs e. emu_run k h xs emu_fresh e \<and> Spurious \<notin> set xs \<and> ui e = Joining \<and> stop_flag e \<and> worker e = Asleep \<and>
     stuck k h e"
proof -
  define e0 where "e0 = start_emu None Boot_hle emu_fresh"
  define e1 where "e1 = e0\<lparr>worker := Test_paused\<rparr>"
  define e2 where "e2 = e1\<lparr>paused_flag := True, worker := To_sleep\<rparr>"
  define e3 where "e3 = e2\<lparr>stop_flag := True, ui := Joining\<rparr>"
  have "ui_step emu_fresh e0" unfolding e0_def by (rule ui_step.Start) (simp_all add: emu_fresh_def)
  then have a: "emu_run k h ([] @ [By_ui]) emu_fresh e0" by (rule emu_run.More [OF emu_run.Here emu_step.Ui])
  have w: "worker_next k h e0 = Done (e0\<lparr>worker := Test_stop\<rparr>)"
    "worker_next k h (e0\<lparr>worker := Test_stop\<rparr>) = Done e1"
    "worker_next k h (e1\<lparr>paused_flag := True\<rparr>) = Done e2"
    "worker_next k h e3 = Done (e3\<lparr>worker := Asleep\<rparr>)"
    by (simp_all add: worker_next_def e3_def e2_def e1_def e0_def start_emu_def emu_fresh_def)
  note ws = w [THEN emu_step.Worker]
  have "ui_step e1 (e1\<lparr>paused_flag := True\<rparr>)"
    by (rule ui_step.Pause) (simp add: e1_def e0_def start_emu_def emu_fresh_def)
  note p = this [THEN emu_step.Ui]
  have "ui_step e2 (e2\<lparr>stop_flag := True, ui := Stopping\<rparr>)"
    by (rule ui_step.Stop) (simp add: e2_def e1_def e0_def start_emu_def emu_fresh_def)
  note s = this [THEN emu_step.Ui]
  have "ui_step (e2\<lparr>stop_flag := True, ui := Stopping\<rparr>) e3"
    using ui_step.Stopped [of "e2\<lparr>stop_flag := True, ui := Stopping\<rparr>"] by (simp add: notify_def e3_def e2_def)
  note t = this [THEN emu_step.Ui]
  define e where "e = e3\<lparr>worker := Asleep\<rparr>"
  have st: "ui e = Joining" "worker e = Asleep" "stop_flag e" by (simp_all add: e_def e3_def)
  moreover have "stuck k h e"
    unfolding stuck_def using st by (auto simp: worker_next_def halt_stores_def elim!: emu_stepE ui_stepE)
  ultimately show ?thesis
    using a [THEN emu_run.More, OF ws(1), THEN emu_run.More, OF ws(2), THEN emu_run.More, OF p, THEN emu_run.More,
      OF ws(3), THEN emu_run.More, OF s, THEN emu_run.More, OF t, THEN emu_run.More, OF ws(4)]
    by (intro exI [of _ "[By_ui, By_worker, By_worker, By_ui, By_worker, By_ui, By_ui, By_worker]"] exI [of _ e])
      (auto simp: e_def)
qed

end
