(* ===== verification/Codegen_Facts.thy ===== *)
theory Codegen_Facts
  imports Link_Safety
begin

text \<open>
  What emission guarantees: the code of a trace fits its buffer, so that no assertion on the capacity can fail;
  its links are displacement fields inside the code, apart from each other and zero; its memory sites are inside
  the code too, the fault handler can decode those that it may replace by a call, and their regions are apart
  from the links.  So built traces meet what
  the bookkeeping of links relies on.
\<close>

section \<open>Bounds on steps\<close>

text \<open>The bytes of a region are an access the fault handler knows, wherever they are in memory.\<close>

definition holds_at :: "bytes \<Rightarrow> nat \<Rightarrow> u8 list \<Rightarrow> bool" where
  "holds_at m a bs \<longleftrightarrow> (\<forall>i < length bs. m (a + i) = bs ! i)"

definition region_ok :: "u8 list \<Rightarrow> bool" where
  "region_ok bs \<longleftrightarrow> 5 \<le> length bs \<and> (\<forall>m a. holds_at m a bs \<longrightarrow> decode_fastmem m a \<noteq> None)"

definition link_in :: "emitter \<Rightarrow> nat \<Rightarrow> bool" where
  "link_in e s \<longleftrightarrow> s + 4 \<le> epos e \<and> (\<forall>k < 4. ebuf e ! (s + k) = 0)"

definition site_in :: "emitter \<Rightarrow> u32 \<times> u32 \<times> u8 \<Rightarrow> bool" where
  "site_in e s \<longleftrightarrow>
     (let (off, _, len) = s in
      unat off + unat len \<le> epos e \<and> (len \<noteq> 0 \<longrightarrow> region_ok (take (unat len) (drop (unat off) (ebuf e)))))"

definition off_links :: "emitter \<Rightarrow> u32 \<times> u32 \<times> u8 \<Rightarrow> bool" where
  "off_links e s \<longleftrightarrow>
     (let (off, _, len) = s in len \<noteq> 0 \<longrightarrow> (\<forall>r \<in> fst ` set (elinks e). off_slot (unat off) (unat len) r))"

definition emitter_ok :: "emitter \<Rightarrow> bool" where
  "emitter_ok e \<longleftrightarrow>
     epos e \<le> ecap e \<and> ecap e \<le> MAX_TRACE_BYTES \<and> sorted_wrt (\<lambda>a b. a + 4 \<le> b) (map fst (elinks e))
     \<and> (\<forall>(s, _) \<in> set (elinks e). link_in e s) \<and> (\<forall>s \<in> set (esites e). site_in e s \<and> off_links e s)"

definition takes :: "nat \<Rightarrow> emit_step \<Rightarrow> bool" where
  "takes k s \<longleftrightarrow> (\<forall>e. emitter_ok e \<and> epos e + k \<le> ecap e \<longrightarrow>
     (\<exists>b x. s e = Some (b, x) \<and> emitter_ok x \<and> ecap x = ecap e \<and> epos e \<le> epos x \<and> epos x \<le> epos e + k))"

lemma takesD:
  assumes "takes k s" and "emitter_ok e" and "epos e + k \<le> ecap e"
  obtains b x where "s e = Some (b, x)" and "emitter_ok x" and "ecap x = ecap e" and "epos e \<le> epos x"
    and "epos x \<le> epos e + k"
  using assms unfolding takes_def by blast

lemma takes_mono: "takes k s \<Longrightarrow> k \<le> n \<Longrightarrow> takes n s"
  unfolding takes_def by (meson add_le_mono1 add_left_mono le_trans)

lemma takes_done [simp]: "takes k (\<lambda>e. Some (b, e))" "takes k reject"
  by (auto simp: takes_def reject_def)

lemma link_in_append: "link_in e s \<Longrightarrow> link_in (e\<lparr>ebuf := ebuf e @ bs\<rparr>) s"
  by (auto simp: link_in_def nth_append)

lemma site_in_append: "site_in e s \<Longrightarrow> site_in (e\<lparr>ebuf := ebuf e @ bs\<rparr>) s"
  by (auto simp: site_in_def split: prod.splits)

lemma off_links_keep [simp]:
  "off_links (e\<lparr>ebuf := b\<rparr>) s = off_links e s" "off_links (e\<lparr>efault_eip := f\<rparr>) s = off_links e s"
  by (simp_all add: off_links_def)

lemma ok_append:
  "emitter_ok e \<Longrightarrow> epos e + length bs \<le> ecap e \<Longrightarrow> emitter_ok (e\<lparr>ebuf := ebuf e @ bs\<rparr>)"
  unfolding emitter_ok_def using link_in_append site_in_append by fastforce

lemma emits_some: "epos e + length bs \<le> ecap e \<Longrightarrow> emits bs e = Some (e\<lparr>ebuf := ebuf e @ bs\<rparr>)"
  by (simp add: emits_def)

lemma takes_put [simp]: "length bs \<le> k \<Longrightarrow> takes k (put_code bs)"
  by (auto simp: takes_def put_code_def emits_some ok_append)

lemma takes_try [simp]: "(\<And>bs. c = Some bs \<Longrightarrow> length bs \<le> k) \<Longrightarrow> takes k (try_code c)"
  by (simp add: try_code_def split: option.splits)

lemma takes_when [simp]: "(b \<Longrightarrow> takes k s) \<Longrightarrow> takes k (when_step b s)"
  by (cases b) (auto simp: takes_def when_step_def)

lemma takes_Cons: "takes a s \<Longrightarrow> takes b (emit_all ss) \<Longrightarrow> takes (a + b) (emit_all (s # ss))"
proof (unfold takes_def [of "a + b"], intro allI impI, elim conjE)
  fix e assume s: "takes a s" and ss: "takes b (emit_all ss)" and e: "emitter_ok e" "epos e + (a + b) \<le> ecap e"
  obtain r x where x: "s e = Some (r, x)" "emitter_ok x" "ecap x = ecap e" "epos e \<le> epos x" "epos x \<le> epos e + a"
    using takesD [OF s e(1)] e(2) by auto
  then have "epos x + b \<le> ecap x" using e(2) by simp
  from takesD [OF ss x(2) this] obtain r' y where "emit_all ss x = Some (r', y)" "emitter_ok y" "ecap y = ecap x"
    "epos x \<le> epos y" "epos y \<le> epos x + b" by blast
  then show "\<exists>b' y. emit_all (s # ss) e = Some (b', y) \<and> emitter_ok y \<and> ecap y = ecap e \<and> epos e \<le> epos y
      \<and> epos y \<le> epos e + (a + b)"
    using x by (cases r) auto
qed

text \<open>A sequence takes what its steps take.\<close>

lemma takes_all: "list_all2 takes ks ss \<Longrightarrow> sum_list ks \<le> k \<Longrightarrow> takes k (emit_all ss)"
proof (induction ks ss arbitrary: k rule: list_all2_induct)
  case Nil
  then show ?case by (simp add: takes_def)
next
  case (Cons a ks s ss)
  then have "a + sum_list ks \<le> k" by simp
  then show ?case by (rule takes_mono [OF takes_Cons [OF Cons(1) Cons(3) [OF order_refl]]])
qed

lemma takes_if: "(b \<Longrightarrow> takes k s) \<Longrightarrow> (\<not> b \<Longrightarrow> takes k t) \<Longrightarrow> takes k (if b then s else t)"
  by simp

lemma takes_opt:
  "(c = None \<Longrightarrow> takes k s) \<Longrightarrow> (\<And>v. c = Some v \<Longrightarrow> takes k (f v)) \<Longrightarrow> takes k (case c of None \<Rightarrow> s | Some v \<Rightarrow> f v)"
  by (cases c) simp_all

lemma takes_unless: "(\<not> b \<Longrightarrow> takes k s) \<Longrightarrow> (b \<Longrightarrow> takes k t) \<Longrightarrow> takes k (if \<not> b then s else t)"
  by simp

lemmas takes_cases = takes_unless takes_if takes_opt

section \<open>Sites and links\<close>

lemma site_in_add: "site_in (add_site off len e) s = site_in e s"
  by (simp add: site_in_def add_site_def split: prod.splits)

lemma off_links_add: "off_links (add_site off len e) s = off_links e s"
  by (simp add: off_links_def add_site_def)

lemma links_before: "emitter_ok e \<Longrightarrow> r \<in> fst ` set (elinks e) \<Longrightarrow> r + 4 \<le> epos e"
  by (fastforce simp: emitter_ok_def link_in_def)

lemma sites_before: "emitter_ok e \<Longrightarrow> (off, pc, len) \<in> set (esites e) \<Longrightarrow> unat off + unat len \<le> epos e"
  by (fastforce simp: emitter_ok_def site_in_def)

lemma ok_add_site:
  assumes "emitter_ok e" and "off + unat len \<le> epos e"
    and "len \<noteq> 0 \<Longrightarrow> region_ok (take (unat len) (drop off (ebuf e)))"
    and "\<And>r. len \<noteq> 0 \<Longrightarrow> r \<in> fst ` set (elinks e) \<Longrightarrow> r + 4 \<le> off"
  shows "emitter_ok (add_site off len e)"
proof -
  have "off < 2 ^ 32" using assms(1,2) by (simp add: emitter_ok_def)
  then have "unat (of_nat off :: u32) = off" by (simp add: unat_of_nat take_bit_nat_eq_self)
  then have "site_in e (of_nat off, efault_eip e, len) \<and> off_links e (of_nat off, efault_eip e, len)"
    using assms(2-4) by (auto simp: site_in_def off_links_def off_slot_def)
  moreover have "link_in (add_site off len e) s = link_in e s" for s by (simp add: link_in_def add_site_def)
  ultimately show ?thesis
    using assms(1) site_in_add [of off len e] off_links_add [of off len e] unfolding emitter_ok_def
    by (auto simp: add_site_def)
qed

lemma epos_add [simp]:
  "ebuf (add_site off len e) = ebuf e" "ecap (add_site off len e) = ecap e"
  "ebuf (add_pending_link s t e) = ebuf e" "ecap (add_pending_link s t e) = ecap e"
  by (simp_all add: add_site_def add_pending_link_def)

lemma takes_with_site [simp]:
  assumes "takes k s"
  shows "takes k (with_site s)"
  unfolding takes_def
proof (intro allI impI, elim conjE)
  fix e assume e: "emitter_ok e" "epos e + k \<le> ecap e"
  obtain b x where x: "s e = Some (b, x)" "emitter_ok x" "ecap x = ecap e" "epos e \<le> epos x" "epos x \<le> epos e + k"
    using takesD [OF assms e] .
  then have "emitter_ok (add_site (epos e) 0 x)" by (intro ok_add_site) auto
  then show "\<exists>b x. with_site s e = Some (b, x) \<and> emitter_ok x \<and> ecap x = ecap e \<and> epos e \<le> epos x \<and> epos x \<le> epos e + k"
    using x by (cases b) (auto simp: with_site_def)
qed

lemma takes_region [simp]:
  assumes "region_ok (pad_to 5 bs)" and "length (pad_to 5 bs) \<le> k" and "k < 256"
  shows "takes k (patch_region bs)"
  unfolding takes_def
proof (intro allI impI, elim conjE)
  fix e assume e: "emitter_ok e" "epos e + k \<le> ecap e"
  let ?x = "e\<lparr>ebuf := ebuf e @ pad_to 5 bs\<rparr>" and ?n = "of_nat (length (pad_to 5 bs)) :: u8"
  have fits: "epos e + length (pad_to 5 bs) \<le> ecap e" using e(2) assms(2) by simp
  have n: "unat ?n = length (pad_to 5 bs)" using assms(2,3) by (simp add: unat_of_nat)
  have "emitter_ok (add_site (epos e) ?n ?x)"
  proof (rule ok_add_site)
    show "emitter_ok ?x" using ok_append [OF e(1) fits] .
    show "epos e + unat ?n \<le> epos ?x" unfolding n by simp
    show "region_ok (take (unat ?n) (drop (epos e) (ebuf ?x)))" unfolding n using assms(1) by simp
    show "r + 4 \<le> epos e" if "r \<in> fst ` set (elinks ?x)" for r using links_before [OF e(1)] that by simp
  qed
  then show "\<exists>b x. patch_region bs e = Some (b, x) \<and> emitter_ok x \<and> ecap x = ecap e \<and> epos e \<le> epos x
      \<and> epos x \<le> epos e + k"
    using assms(2) by (auto simp: patch_region_def emits_some [OF fits])
qed

lemma ok_add_link:
  assumes "emitter_ok e" and "link_in e s" and "\<And>r. r \<in> fst ` set (elinks e) \<Longrightarrow> r + 4 \<le> s"
    and "\<And>off pc len. (off, pc, len) \<in> set (esites e) \<Longrightarrow> unat off + unat len \<le> s"
  shows "emitter_ok (add_pending_link s t e)"
proof -
  have "off_links (add_pending_link s t e) p" if "p \<in> set (esites e)" "off_links e p" for p
    using that assms(4) [of "fst p" "fst (snd p)" "snd (snd p)"]
    by (auto simp: off_links_def add_pending_link_def off_slot_def split_beta)
  then show ?thesis
    using assms(1-3) unfolding emitter_ok_def add_pending_link_def
    by (auto simp: sorted_wrt_append link_in_def site_in_def split: prod.splits)
qed

section \<open>Exits\<close>

lemma len_gp [simp]: "length save_all_gp = 28" "length load_all_gp = 28"
  by (simp_all add: save_all_gp_def load_all_gp_def save_gp_def load_gp_def)

lemma len_le [simp]: "length (le32 v) = 4" "length (le64 w) = 8"
  by (simp_all add: le32_def le64_def)

lemma len_exit [simp]:
  "length jump_slot = 5" "length (write_next_eip_imm v) = 10" "length (exit_to t) = 16"
  "length (conditional_code j t f) = 66" "length (set_stop_reason r) = 8" "length save_eflags = 7"
  "length (epilog_dynamic i) = 37" "length (stop_exit r pc) = 54"
  by (simp_all add: jump_slot_def write_next_eip_imm_def exit_to_def conditional_code_def set_stop_reason_def
      save_eflags_def epilog_dynamic_def write_next_eip_gpreg_def stop_exit_def)

text \<open>The displacement of a jump slot anywhere in the code.\<close>

lemma nth_after: "(xs @ ys) ! (length xs + k) = ys ! k"
  by simp

lemma slot_zero:
  assumes "bs = pre @ 0xE9 # 0 # 0 # 0 # 0 # post" and "n = length pre + 1"
  shows "link_in (e\<lparr>ebuf := ebuf e @ bs\<rparr>) (epos e + n)"
proof -
  have "(ebuf e @ bs) ! (epos e + n + k) = 0" if "k < 4" for k
    using that nth_after [of "ebuf e @ pre @ [0xE9]" "0 # 0 # 0 # 0 # post" k] unfolding assms
    by (auto simp: less_Suc_eq numeral_nat ac_simps)
  then show ?thesis by (simp add: link_in_def assms)
qed

lemma takes_static [simp]: "44 \<le> k \<Longrightarrow> takes k (emit_epilog_static t)"
proof (rule takes_mono [of 44], unfold takes_def, intro allI impI, elim conjE)
  fix e assume e: "emitter_ok e" "epos e + 44 \<le> ecap e"
  let ?bs = "jump_slot @ save_all_gp @ write_next_eip_imm t @ [0xC3]" and ?x = "e\<lparr>ebuf := ebuf e @ jump_slot @ save_all_gp @ write_next_eip_imm t @ [0xC3]\<rparr>"
  have fits: "epos e + length ?bs \<le> ecap e" using e(2) by simp
  have "link_in ?x (epos e + 1)" by (rule slot_zero [of _ "[]"]) (simp_all add: jump_slot_def)
  moreover have "emitter_ok ?x" using ok_append [OF e(1) fits] .
  moreover have "r + 4 \<le> epos e + 1" if "r \<in> fst ` set (elinks ?x)" for r using links_before [OF e(1)] that by fastforce
  moreover have "unat off + unat len \<le> epos e + 1" if "(off, pc, len) \<in> set (esites ?x)" for off pc len
    using sites_before [OF e(1), of off pc len] that by simp
  ultimately have "emitter_ok (add_pending_link (epos e + 1) t ?x)" by (intro ok_add_link) auto
  then show "\<exists>b x. emit_epilog_static t e = Some (b, x) \<and> emitter_ok x \<and> ecap x = ecap e \<and> epos e \<le> epos x
      \<and> epos x \<le> epos e + 44"
    using fits by (auto simp: emit_epilog_static_def emits_some)
qed

lemma link_in_pending: "link_in (add_pending_link s t e) r = link_in e r"
  by (simp add: link_in_def)

lemma pending_keeps_sites: "esites (add_pending_link s t e) = esites e"
  by (simp add: add_pending_link_def)

lemma pending_sites: "set (elinks (add_pending_link s t e)) \<subseteq> insert (s, t) (set (elinks e))"
  by (auto simp: add_pending_link_def)

lemma takes_conditional [simp]: "66 \<le> k \<Longrightarrow> takes k (emit_epilog_conditional j t f)"
proof (rule takes_mono [of 66], unfold takes_def, intro allI impI, elim conjE)
  fix e assume e: "emitter_ok e" "epos e + 66 \<le> ecap e"
  let ?x = "e\<lparr>ebuf := ebuf e @ conditional_code j t f\<rparr>"
  have fits: "epos e + length (conditional_code j t f) \<le> ecap e" using e(2) by simp
  have ft: "link_in ?x (epos e + 35)"
    by (rule slot_zero [of _ "save_all_gp @ [0x0F, j + 0x10] @ le32 (of_nat (length (exit_to f)))"])
      (simp_all add: conditional_code_def exit_to_def jump_slot_def)
  have tk: "link_in ?x (epos e + 51)"
    by (rule slot_zero [of _ "save_all_gp @ [0x0F, j + 0x10] @ le32 (of_nat (length (exit_to f))) @ exit_to f"])
      (simp_all add: conditional_code_def exit_to_def jump_slot_def)
  have before: "r + 4 \<le> epos e + 35" if "r \<in> fst ` set (elinks ?x)" for r using links_before [OF e(1)] that by fastforce
  have sites: "unat off + unat len \<le> epos e + n" if "(off, pc, len) \<in> set (esites e)" for off pc len n
    using sites_before [OF e(1), of off pc len] that by simp
  have 1: "emitter_ok (add_pending_link (epos e + 35) f ?x)"
    using ok_append [OF e(1) fits] ft before sites by (intro ok_add_link) auto
  have "r + 4 \<le> epos e + 51" if "r \<in> fst ` set (elinks (add_pending_link (epos e + 35) f ?x))" for r
    using that before pending_sites [of "epos e + 35" f ?x] by fastforce
  then have "emitter_ok (add_pending_link (epos e + 51) t (add_pending_link (epos e + 35) f ?x))"
    using ok_add_link [OF 1] tk sites [where n = 51] by (simp add: link_in_pending pending_keeps_sites)
  then show "\<exists>b x. emit_epilog_conditional j t f e = Some (b, x) \<and> emitter_ok x \<and> ecap x = ecap e \<and> epos e \<le> epos x
      \<and> epos x \<le> epos e + 66"
    using fits by (auto simp: emit_epilog_conditional_def emits_some Let_def add.commute [of _ "epos e"])
qed

section \<open>Pieces\<close>

lemma len_calls [simp]:
  "length (call_abs h g) = (if abi_win h then 20 else 12)" "length (arg0_ctx h) = 3" "length (arg1_pa h) = 3"
  "length (arg1_imm h v) = 5" "length (arg2_imm h v) = (if abi_win h then 6 else 5)"
  "length (arg3_imm h v) = (if abi_win h then 6 else 5)"
  by (simp_all add: call_abs_def arg0_ctx_def arg1_pa_def arg1_imm_def arg2_imm_def arg3_imm_def)

lemma len_stack [simp]:
  "length load_esp_to_r14 = 4" "length store_r14_to_esp = 4" "length load_esp_to_r8 = 4" "length store_r8_to_esp = 4"
  "length (sub_ctx_esp n) = 7" "length (add_ctx_esp n) = 7" "length save_flags_code = 6" "length restore_flags_code = 6"
  "length (load_gp i off) = 4" "length (store_gp_to_esp i) = 4" "length (load_gp_from_esp i) = 4"
  "length flags_to_r14 = 3" "length flags_from_r14 = 3"
  by (simp_all add: load_esp_to_r14_def store_r14_to_esp_def load_esp_to_r8_def store_r8_to_esp_def sub_ctx_esp_def
      add_ctx_esp_def save_flags_code_def restore_flags_code_def load_gp_def store_gp_to_esp_def load_gp_from_esp_def
      flags_to_r14_def flags_from_r14_def)

lemma len_translate: "length (translate_r14 h w v) \<le> 140"
  by (simp add: translate_r14_def fault_exit_def)

lemma takes_translate [simp]: "140 \<le> k \<Longrightarrow> takes k (paging_translate h w)"
proof (rule takes_mono [of 140], unfold takes_def, intro allI impI, elim conjE)
  fix e assume e: "emitter_ok e" "epos e + 140 \<le> ecap e"
  have "takes 140 (when_step (epaging e) (put_code (translate_r14 h w (efault_eip e))))"
    using len_translate by simp
  from takesD [OF this e] show "\<exists>b x. paging_translate h w e = Some (b, x) \<and> emitter_ok x \<and> ecap x = ecap e
      \<and> epos e \<le> epos x \<and> epos x \<le> epos e + 140"
    unfolding paging_translate_def by metis
qed

lemma len_ea_code [simp]:
  "12 \<le> n \<Longrightarrow> length (ea_base_only b d) \<le> n" "12 \<le> n \<Longrightarrow> length (ea_index_only i sc d) \<le> n"
  "12 \<le> n \<Longrightarrow> length (ea_base_index b i sc d) \<le> n"
  by (simp_all add: ea_base_only_def ea_index_only_def ea_base_index_def disp_bytes_def Let_def)

lemma len_ea: "ea_to_r14 m = Some bs \<Longrightarrow> length bs \<le> 16"
  by (auto simp: ea_to_r14_def ea_code_def Let_def bind_eq_Some_conv split: if_splits option.splits)

lemma takes_ea [simp]:
  assumes "is_mem p" and "16 \<le> k"
  shows "takes k (emit_ea p)"
proof -
  obtain m where "xo_kind p = X_mem m" using assms(1) by (auto simp: is_mem_def split: x_kind.splits)
  moreover have "length bs \<le> k" if "ea_to_r14 m = Some bs" for bs using len_ea [OF that] assms(2) by simp
  ultimately show ?thesis by (simp add: emit_ea_def)
qed

section \<open>Accesses decode\<close>

lemma holds_at_Cons [simp]: "holds_at m a (b # bs) \<longleftrightarrow> m a = b \<and> holds_at m (a + 1) bs"
proof
  assume h: "holds_at m a (b # bs)"
  then have "m (a + 0) = b" by (force simp: holds_at_def)
  moreover have "m (a + 1 + i) = bs ! i" if "i < length bs" for i
    using h that unfolding holds_at_def by (force dest: spec [of _ "Suc i"])
  ultimately show "m a = b \<and> holds_at m (a + 1) bs" by (simp add: holds_at_def)
next
  assume "m a = b \<and> holds_at m (a + 1) bs"
  then show "holds_at m a (b # bs)" by (auto simp: holds_at_def nth_Cons' gr0_conv_Suc)
qed

lemma holds_at_append: "holds_at m a (xs @ ys) \<longleftrightarrow> holds_at m a xs \<and> holds_at m (a + length xs) ys"
  by (induction xs arbitrary: a) (auto simp: holds_at_def [of _ _ "[]"])

lemma modrm_field: "enc < 8 \<Longrightarrow> unat (drop_bit 3 (modrm 0 enc 4) AND 7) = enc"
proof -
  assume "enc < 8"
  then have "enc \<in> {0, 1, 2, 3, 4, 5, 6, 7}" by auto
  then show ?thesis by (auto simp: modrm_def)
qed

lemma offsets: "a + 2 = Suc (Suc a)" "a + 3 = Suc (Suc (Suc a))" "a + 4 = Suc (Suc (Suc (Suc a)))"
  "a + 5 = Suc (Suc (Suc (Suc (Suc a))))" for a :: nat
  by simp_all

lemma ld_offsets:
  "ld 2 m a = ucast (m a) OR push_bit 8 (ucast (m (Suc a)))"
  "ld 4 m a = ucast (m a) OR push_bit 8 (ucast (m (Suc a)) OR push_bit 8 (ucast (m (Suc (Suc a)))
     OR push_bit 8 (ucast (m (Suc (Suc (Suc a)))))))"
  by (simp_all add: numeral_nat)

lemma ld_le32:
  assumes "holds_at m a (le32 v)"
  shows "ld 4 m a = v"
proof -
  have "ucast (ucast v :: u8) OR push_bit 8 (ucast (ucast (drop_bit 8 v) :: u8)
      OR push_bit 8 (ucast (ucast (drop_bit 16 v) :: u8) OR push_bit 8 (ucast (ucast (drop_bit 24 v) :: u8)))) = v"
    (is "?w = v")
  proof (rule bit_word_eqI)
    fix n assume "n < LENGTH(32)"
    then consider "n < 8" | "8 \<le> n" "n < 16" | "16 \<le> n" "n < 24" | "24 \<le> n" "n < 32" by force
    then show "bit ?w n = bit v n" by cases (auto simp: bit_simps)
  qed
  then show ?thesis using assms by (simp add: le32_def ld_offsets)
qed

lemma ld2_bytes: "m a = ucast (v :: u16) \<Longrightarrow> m (Suc a) = ucast (drop_bit 8 v) \<Longrightarrow> ld 2 m a = ucast v"
  unfolding ld_offsets by (simp, rule bit_word_eqI) (auto simp: bit_simps not_less dest: bit_imp_le_length)

lemma decode_op:
  assumes "holds_at m a (fastmem_op enc bits is_load)" and "enc < 8" and "bits \<in> {8, 16, 32}"
  shows "decode_fastmem m a = Some ((if is_load then Fast_load else Fast_store) enc (bits div 8))"
proof -
  consider "bits = 8" | "bits = 16" | "bits = 32" using assms(3) by auto
  then show ?thesis
    using assms(1) modrm_field [OF assms(2)]
    by cases (cases is_load; simp add: fastmem_op_def decode_fastmem_def Let_def offsets)+
qed

lemma decode_store:
  assumes "holds_at m a (store_imm_code v bits)" and "bits \<in> {8, 16, 32}"
  shows "decode_fastmem m a = Some (Fast_store_imm (take_bit bits v) (bits div 8))"
proof -
  consider "bits = 8" | "bits = 16" | "bits = 32" using assms(2) by auto
  then show ?thesis
  proof cases
    case 1
    have "ucast (ucast v :: u8) = take_bit 8 v" by (rule bit_word_eqI) (auto simp: bit_simps)
    then show ?thesis using assms(1) 1
      by (simp add: store_imm_code_def fastmem_store_imm8_def decode_fastmem_def Let_def offsets)
  next
    case 2
    have "ucast (ucast v :: u16) = take_bit 16 v" by (rule bit_word_eqI) (auto simp: bit_simps)
    moreover have "ld 2 m (a + 5) = ucast (ucast v :: u16)" using assms(1) 2
      by (intro ld2_bytes) (simp_all add: store_imm_code_def fastmem_store_imm16_def offsets)
    ultimately show ?thesis using assms(1) 2
      by (simp add: store_imm_code_def fastmem_store_imm16_def decode_fastmem_def Let_def offsets)
  next
    case 3
    then have "ld 4 m (a + 4) = v" using assms(1)
      by (intro ld_le32) (simp add: store_imm_code_def fastmem_store_imm32_def offsets)
    then show ?thesis using assms(1) 3
      by (simp add: store_imm_code_def fastmem_store_imm32_def decode_fastmem_def Let_def offsets)
  qed
qed

lemma decode_extend:
  assumes "holds_at m a (fastmem_extend o8 o16 enc bits to_esp)" and "enc < 8" and "bits = 8 \<or> bits = 16"
    and "(o8, o16) = (0xB6, 0xB7) \<or> (o8, o16) = (0xBE, 0xBF)" and "to_esp \<longleftrightarrow> enc = GP_ESP"
  shows "decode_fastmem m a = Some (Fast_load enc (bits div 8))"
  using assms(1,3-5) modrm_field [OF assms(2)]
  by (elim disjE; cases to_esp; simp add: fastmem_extend_def decode_fastmem_def Let_def offsets)

lemma region_okI:
  assumes "\<And>m a. holds_at m a bs \<Longrightarrow> decode_fastmem m a \<noteq> None"
  shows "region_ok (pad_to 5 bs)"
  using assms by (auto simp: region_ok_def pad_to_def holds_at_append)

lemma regions_ok [simp]:
  "region_ok (pad_to 5 (fastmem_op enc bits is_load))" "region_ok (pad_to 5 (fastmem_store_imm32 v))"
  "region_ok (pad_to 5 [0x43, 0x0F, 0xB6, f, g])" "region_ok (pad_to 5 (fastmem_extend o8 o16 enc bits e @ cs))"
  by (rule region_okI; simp add: fastmem_op_def fastmem_store_imm32_def fastmem_extend_def decode_fastmem_def Let_def
      split: if_splits)+

lemma store_region_ok [simp]: "region_ok (pad_to 5 (store_imm_code v bits))"
  unfolding store_imm_code_def fastmem_store_imm32_def fastmem_store_imm16_def fastmem_store_imm8_def
  by (rule region_okI) (simp add: decode_fastmem_def Let_def split: if_splits)

lemma len_regions [simp]:
  "9 \<le> k \<Longrightarrow> length (pad_to 5 (fastmem_op enc bits is_load)) \<le> k" "9 \<le> k \<Longrightarrow> length (pad_to 5 (store_imm_code v bits)) \<le> k"
  "9 \<le> k \<Longrightarrow> length (pad_to 5 (fastmem_store_imm32 v)) \<le> k" "9 \<le> k \<Longrightarrow> length (pad_to 5 [b0, b1, b2, b3, b4 :: u8]) \<le> k"
  "9 \<le> k \<Longrightarrow> length cs \<le> 4 \<Longrightarrow> length (pad_to 5 (fastmem_extend o8 o16 enc bits e @ cs)) \<le> k"
  by (simp_all add: pad_to_def fastmem_op_def store_imm_code_def fastmem_store_imm32_def fastmem_store_imm16_def
      fastmem_store_imm8_def fastmem_extend_def)

section \<open>The routines\<close>

text \<open>What the decoding library documents: an instruction has 1 to 15 bytes, of those it was given; the form
  byte is one of them, there are at most 14 prefixes, and an immediate has at most 64 bits.\<close>

definition well_decoded :: "u8 list \<Rightarrow> x_insn \<Rightarrow> bool" where
  "well_decoded code x \<longleftrightarrow>
     1 \<le> x_len x \<and> x_len x \<le> 15 \<and> x_len x \<le> length code \<and> x_modrm_off x < x_len x
     \<and> length (x_prefixes x) \<le> 14 \<and> list_all (\<lambda>(_, bits). bits \<le> 64) (x_imms x)"

lemma len_keeping: "length c \<le> n \<Longrightarrow> length (keeping_flags save c) \<le> n + 12"
  by (simp add: keeping_flags_def)

lemma len_c_call: "length args \<le> n \<Longrightarrow> length (c_call h args f) \<le> n + 79"
  by (simp add: c_call_def)

lemma len_kept_call [simp]: "length args + 91 \<le> k \<Longrightarrow> length (keeping_flags save (c_call h args f)) \<le> k"
  using len_keeping [OF len_c_call [OF order_refl]] by (rule le_trans) simp

lemma len_imms:
  assumes "list_all (\<lambda>(_, bits). bits \<le> 64) (x_imms x)"
  shows "length (imm_bytes x raw) \<le> 16"
proof -
  have d: "min m (b div 8) \<le> 8" if "b \<le> 64" for m b :: nat using that by linarith
  have 2: "take 2 xs = (case xs of [] \<Rightarrow> [] | a # xs \<Rightarrow> (case xs of [] \<Rightarrow> [a] | b # _ \<Rightarrow> [a, b]))" for xs :: "'a list"
    by (simp add: numeral_2_eq_2 split: list.splits)
  show ?thesis
    using assms unfolding imm_bytes_def 2 by (fastforce split: list.splits dest!: d intro: add_le_mono [of _ 8 _ 8, simplified])
qed

lemma takes_rewrite:
  assumes "well_decoded code x" and "40 \<le> k"
  shows "takes k (emit_rewrite_mem_to_fastmem x raw esp)"
proof -
  have "length (imm_bytes x raw) \<le> 16" using assms(1) by (intro len_imms) (simp add: well_decoded_def)
  moreover have "length esc \<le> 2" if "escape_bytes (x_map x) = Some esc" for esc
    using that by (auto simp: escape_bytes_def split: if_splits)
  ultimately have 2: "takes 21 (try_code (map_option (\<lambda>esc. esc @ [x_opcode x, f, 0x34] @ imm_bytes x raw)
      (escape_bytes (x_map x))))" for f
    by (intro takes_try) (fastforce simp: add.commute)
  have "length (filter keep_prefix (x_prefixes x)) \<le> 14"
    by (rule le_trans [OF length_filter_le]) (use assms(1) in \<open>simp add: well_decoded_def\<close>)
  then have 1: "takes 15 (put_code (filter keep_prefix (x_prefixes x) @ [rex]))" for rex by (intro takes_put) simp
  show ?thesis
    unfolding emit_rewrite_mem_to_fastmem_def using assms(2) 1 2 by (intro takes_all [of "[15, 21]"]) simp_all
qed

lemma takes_clean: "well_decoded code x \<Longrightarrow> 15 \<le> k \<Longrightarrow> takes k (emit_clean_insn x raw)"
  unfolding emit_clean_insn_def
  by (rule takes_put) (simp add: clean_code_def Let_def well_decoded_def min_def split: option.splits)

lemma takes_copy: "well_decoded code x \<Longrightarrow> 15 \<le> k \<Longrightarrow> takes k (put_code (take (x_len x) raw))"
  by (rule takes_put) (simp add: well_decoded_def min_def)

lemma len_reencoded:
  fixes raw :: "u8 list"
  assumes "s \<le> f" and "f < n" and "n \<le> 15"
  shows "length (filter P (take s raw) @ (if c then [r] else []) @ take (f - s) (drop s raw) @ [b]
    @ take (n - (f + 1)) (drop (f + 1) raw)) \<le> 16"
proof -
  have "length (filter P (take s raw)) \<le> s" by (rule le_trans [OF length_filter_le]) simp
  moreover have "length (take (f - s) (drop s raw)) \<le> f - s" "length (take (n - (f + 1)) (drop (f + 1) raw)) \<le> n - (f + 1)"
    by simp_all
  moreover have "length (if c then [r] else []) \<le> 1" by simp
  ultimately show ?thesis using assms unfolding length_append by simp
qed

lemma len_esp_as_r14: "well_decoded code x \<Longrightarrow> length (esp_as_r14 x raw) \<le> 16"
  unfolding esp_as_r14_def Let_def by (rule len_reencoded) (simp_all add: well_decoded_def)

lemma takes_alu_esp: "well_decoded code x \<Longrightarrow> 30 \<le> k \<Longrightarrow> takes k (emit_alu_esp_reg x raw)"
  unfolding emit_alu_esp_reg_def using len_esp_as_r14 [of code x raw] by (intro takes_all [of "[4, 20]"]) auto

lemma takes_mov_helper [simp]:
  "is_mem p \<Longrightarrow> length args \<le> 9 \<Longrightarrow> 260 \<le> k \<Longrightarrow> takes k (emit_mov_helper h p args f w save)"
  unfolding emit_mov_helper_def by (rule takes_all [of "[16, 140, 103]"]) simp_all

lemma takes_dispatch [simp]:
  "is_mem p \<Longrightarrow> 165 \<le> k \<Longrightarrow> takes k (fastmem_dispatch h p enc bits l)"
  "is_mem p \<Longrightarrow> 165 \<le> k \<Longrightarrow> takes k (fastmem_dispatch_store_imm h p v bits)"
  unfolding fastmem_dispatch_def fastmem_dispatch_store_imm_def
  by (rule takes_all [of "[16, 140, 9]"]; simp)+

lemma takes_push_word [simp]:
  "160 \<le> k \<Longrightarrow> takes k (push_word h (fastmem_op enc bits l))" "160 \<le> k \<Longrightarrow> takes k (push_word h (fastmem_store_imm32 v))"
  unfolding push_word_def by (rule takes_all [of "[11, 140, 9]"]; simp)+

lemma takes_pop_word [simp]: "160 \<le> k \<Longrightarrow> takes k (pop_word h enc)"
  unfolding pop_word_def by (rule takes_all [of "[4, 140, 9, 7]"]) simp_all

lemma first_mem_is: "first_mem x = Some i \<Longrightarrow> is_mem (op_at i x)"
  by (auto simp: first_mem_def find_Some_iff)

lemma takes_lea: "takes 24 (emit_lea x)"
  unfolding emit_lea_def by (auto intro!: takes_all [of "[16, 4]"] split: option.splits)

text \<open>What a well-decoded instruction gives.\<close>

lemmas takes_decoded = takes_rewrite takes_clean takes_copy takes_alu_esp

lemma takes_mov_regs:
  assumes "well_decoded code x"
  shows "takes 260 (emit_mov_regs x raw)"
  unfolding emit_mov_regs_def Let_def
  by (intro takes_cases takes_copy [OF assms]) (simp_all (no_asm))

lemma takes_mov_mem:
  assumes "well_decoded code x"
  shows "takes 260 (emit_mov_mem h x raw save)"
  unfolding emit_mov_mem_def Let_def
  by (intro takes_cases) (use first_mem_is takes_mov_regs [OF assms] in simp_all)

lemma takes_alu_mem:
  assumes "well_decoded code x"
  shows "takes 260 (emit_alu_mem h x raw save)"
proof (cases "first_mem x")
  case None
  then show ?thesis by (simp add: emit_alu_mem_def takes_decoded [OF assms])
next
  case (Some i)
  have "takes 50 (emit_all [emit_rewrite_mem_to_fastmem x raw b, when_step c (put_code store_r8_to_esp)])" for b c
    by (intro takes_all [of "[40, 4]"]) (simp_all add: takes_rewrite [OF assms])
  then show ?thesis
    using Some by (auto simp: emit_alu_mem_def Let_def first_mem_is intro!: takes_all [of "[16, 140, 4, 6, 50, 6]"])
qed

lemma takes_flagmem:
  assumes "well_decoded code x"
  shows "takes 260 (emit_flagmem h x raw)"
proof (cases "first_mem x")
  case None
  then show ?thesis by (simp add: emit_flagmem_def takes_decoded [OF assms])
next
  case (Some i)
  have "takes 50 (emit_all [emit_rewrite_mem_to_fastmem x raw b, when_step c (put_code store_r8_to_esp)])" for b c
    by (intro takes_all [of "[40, 4]"]) (simp_all add: takes_rewrite [OF assms])
  then show ?thesis
    using Some by (auto simp: emit_flagmem_def Let_def first_mem_is intro!: takes_all [of "[16, 140, 4, 50]"])
qed

lemma takes_rewritten:
  assumes "well_decoded code x"
  shows "takes 260 (emit_rewritten h w x raw save)"
  unfolding emit_rewritten_def
  by (intro takes_cases takes_all [of "[16, 140, 6, 40, 6]"]) (simp_all add: first_mem_is takes_decoded [OF assms])

lemma region_plain: "takes 9 (patch_region (fastmem_extend o8 o16 enc bits e))"
  by (rule takes_region) (use regions_ok(4) [of o8 o16 enc bits e "[]"] len_regions(5) [of 9 "[]" o8 o16 enc bits e]
    in simp_all)

lemma takes_extend:
  assumes "well_decoded code x" and "load = fastmem_extend o8 o16" and "is_mem (op_at 1 x) \<Longrightarrow> takes 260 (narrow x)"
  shows "takes 260 (emit_extend h load narrow x raw)"
  unfolding emit_extend_def assms(2) Let_def
  by (intro takes_cases takes_all [of "[16, 140, 9]"]) (simp_all (no_asm_simp) add: assms(3) region_plain takes_decoded [OF assms(1)] del: One_nat_def)

lemma takes_movzx_16: "is_mem p \<Longrightarrow> takes 260 (movzx_16 h p enc)"
  unfolding movzx_16_def by (rule takes_all [of "[16, 140, 9, 9]"]) simp_all

lemma takes_push_pop:
  "takes 260 (emit_push h x save)" "takes 260 (emit_pop h x save)" "takes 260 (emit_leave h)"
proof -
  have "is_mem p" if "xo_kind p = X_mem m" for p m using that by (simp add: is_mem_def)
  then show "takes 260 (emit_push h x save)" "takes 260 (emit_pop h x save)"
    by (auto simp: emit_push_def emit_pop_def Let_def split: x_kind.splits option.splits)
  show "takes 260 (emit_leave h)" unfolding emit_leave_def by (rule takes_all [of "[4, 160]"]) simp_all
qed

lemma takes_helper_calls:
  "takes 260 (emit_enter h x save)" "takes 260 (emit_xlatb h save)" "takes 260 (emit_pushad h save)"
  "takes 260 (emit_popad h save)" "takes 260 (emit_pushfd h save)" "takes 260 (emit_popfd h)" "takes 260 (emit_string h x)"
  by (simp_all add: emit_enter_def emit_xlatb_def emit_pushad_def emit_popad_def emit_pushfd_def emit_popfd_def
      emit_string_def keeping_flags_def c_call_def split: option.split)

text \<open>Whatever the class, its routine takes at most 260 bytes of a well-decoded instruction.\<close>

lemma takes_handler:
  assumes "class_handler h c = Some f" and "well_decoded code x"
  shows "takes 260 (f x raw save)"
proof -
  have lea: "takes 260 (emit_lea x)" using takes_mono [OF takes_lea] by simp
  have zx: "takes 260 (emit_movzx_mem h x raw)" unfolding emit_movzx_mem_def
    by (rule takes_extend [OF assms(2), of _ "0xB6" "0xB7"])
      (auto simp: fastmem_movzx_def takes_movzx_16 split: option.split)
  have sx: "takes 260 (emit_movsx_mem h x raw)" unfolding emit_movsx_mem_def
    by (rule takes_extend [OF assms(2), of _ "0xBE" "0xBF"]) (simp_all add: fastmem_movsx_def)
  note b = lea zx sx takes_decoded [OF assms(2)] takes_mov_mem [OF assms(2)] takes_alu_mem [OF assms(2)]
    takes_flagmem [OF assms(2)] takes_rewritten [OF assms(2)] takes_push_pop takes_helper_calls
  show ?thesis
    using assms(1) by (cases c) (auto simp: b emit_test_mem_def emit_fpu_mem_def)
qed

section \<open>Terminators\<close>

lemma takes_jmp: "takes 160 (emit_jmp_ops h a ps)"
proof (induction ps)
  case (Cons p ps)
  have m: "takes 160 (case ea_to_r14 m of Some ea \<Rightarrow> put_code (jump_through h [] Fn_read_guest_mem32 ea)
      | None \<Rightarrow> emit_jmp_ops h a ps)" for m
    using Cons by (cases "ea_to_r14 m") (auto simp: jump_through_def eax_to_next_eip_def dest!: len_ea)
  show ?case
    using Cons m by (auto split: x_kind.split bool.split option.split)
qed simp

lemma takes_call: "takes 210 (emit_call_ops h a ps)"
proof (induction ps)
  case (Cons p ps)
  have m: "takes 210 (case ea_to_r14 m of Some ea \<Rightarrow> put_code (jump_through h (arg2_imm h a) Fn_call_mem_helper ea)
      | None \<Rightarrow> emit_call_ops h a ps)" for m
    using Cons by (cases "ea_to_r14 m") (auto simp: jump_through_def eax_to_next_eip_def dest!: len_ea)
  have "takes 210 (emit_all [push_word h (fastmem_store_imm32 a), emit_epilog_static t])"
    "takes 210 (emit_all [push_word h (fastmem_store_imm32 a), put_code (epilog_dynamic i)])" for t i
    by (rule takes_all [of "[160, 44]"]; simp)+
  then show ?case
    using Cons m by (auto split: x_kind.split bool.split option.split)
qed simp

lemma takes_ret: "takes 260 (emit_ret_exit h n)"
  unfolding emit_ret_exit_def by (rule takes_all [of "[32, 140, 9, 16]"]) (simp_all add: eax_to_next_eip_def)

lemma takes_loop_flag: "takes 260 (emit_loop_flag s t a)"
  unfolding emit_loop_flag_def by (rule takes_all [of "[10, 66, 2, 44]"]) (simp_all add: dec_test_ecx_def)

lemma takes_terminator: "takes 260 (emit_terminator h x pc a)"
proof -
  have "takes 260 (emit_jmp_exit h x a)" "takes 260 (emit_call_exit h x a)"
    using takes_mono [OF takes_jmp] takes_mono [OF takes_call] by (simp_all add: emit_jmp_exit_def emit_call_exit_def)
  moreover have "takes 260 (put_code (retf_exit h n))" "takes 260 (put_code (iret_exit h))" for n
    by (simp_all add: retf_exit_def iret_exit_def)
  moreover have "takes 260 (emit_all [put_code bs, emit_epilog_conditional c t a])" if "length bs \<le> 4" for bs c t
    using that by (intro takes_all [of "[4, 66]"]) simp_all
  moreover have "takes 260 (emit_cond_exit x a)" by (simp add: emit_cond_exit_def Let_def)
  ultimately show ?thesis
    unfolding emit_terminator_def Let_def using takes_ret takes_loop_flag
    by (intro takes_cases) (simp_all (no_asm_simp) add: dec_test_ecx_def)
qed

section \<open>The loop\<close>

text \<open>The same for one result.\<close>

definition fits :: "nat \<Rightarrow> emitter \<Rightarrow> (bool \<times> emitter) option \<Rightarrow> bool" where
  "fits k e r \<longleftrightarrow>
     (\<exists>b x. r = Some (b, x) \<and> emitter_ok x \<and> ecap x = ecap e \<and> epos e \<le> epos x \<and> epos x \<le> epos e + k)"

lemma takes_fits: "takes k s \<longleftrightarrow> (\<forall>e. emitter_ok e \<and> epos e + k \<le> ecap e \<longrightarrow> fits k e (s e))"
  by (simp add: takes_def fits_def)

lemma fits_cases:
  "(b \<Longrightarrow> fits k e r) \<Longrightarrow> (\<not> b \<Longrightarrow> fits k e s) \<Longrightarrow> fits k e (if b then r else s)"
  "(c = None \<Longrightarrow> fits k e r) \<Longrightarrow> (\<And>v. c = Some v \<Longrightarrow> fits k e (f v)) \<Longrightarrow> fits k e (case c of None \<Rightarrow> r | Some v \<Rightarrow> f v)"
  by (simp_all split: option.split)

lemma takes_finish: "takes k s \<Longrightarrow> takes k (\<lambda>e. map_option (\<lambda>(_, e). (b, e)) (s e))"
  unfolding takes_def by (fastforce simp: split_def)

lemma takes_insn:
  assumes "well_decoded code x"
  shows "takes 320 (emit_insn h save pc x code)"
proof -
  have stop: "takes k (\<lambda>e. map_option (\<lambda>(_, e). (b, e)) (put_code (stop_exit r pc) e))" if "54 \<le> k" for k b r
    using that by (intro takes_finish) simp
  have last: "takes 320 (\<lambda>e. map_option (\<lambda>(_, e). (True, e)) (emit_terminator h x pc a e))" for a
    using takes_mono [OF takes_terminator] by (intro takes_finish) simp
  have clean: "takes 320 (\<lambda>e. map_option (\<lambda>(_, e). (False, e)) (emit_clean_insn x code e))"
    by (intro takes_finish takes_clean [OF assms]) simp
  have handler: "takes 320 (\<lambda>e. case f x code save e of None \<Rightarrow> None | Some (True, e) \<Rightarrow> Some (False, e)
      | Some (False, e) \<Rightarrow> map_option (\<lambda>(_, e). (True, e)) (put_code (stop_exit STOP_INVALID_OPCODE pc) e))"
    if f: "class_handler h c = Some f" for f c
    unfolding takes_def
  proof (intro allI impI, elim conjE)
    fix e assume e: "emitter_ok e" "epos e + 320 \<le> ecap e"
    have fits: "epos e + 260 \<le> ecap e" using e(2) by simp
    obtain b y where y: "f x code save e = Some (b, y)" "emitter_ok y" "ecap y = ecap e" "epos e \<le> epos y" "epos y \<le> epos e + 260"
      using takesD [OF takes_handler [OF f assms] e(1) fits] .
    have "epos y + 54 \<le> ecap y" using y e(2) by simp
    then obtain z where "put_code (stop_exit STOP_INVALID_OPCODE pc) y = Some (True, z)" "emitter_ok z" "ecap z = ecap y"
        "epos y \<le> epos z" "epos z \<le> epos y + 54"
      using takesD [OF takes_put [of "stop_exit STOP_INVALID_OPCODE pc" 54] y(2)] by (auto simp: put_code_def emits_def)
    then show "\<exists>b z. (case f x code save e of None \<Rightarrow> None | Some (True, e) \<Rightarrow> Some (False, e)
        | Some (False, e) \<Rightarrow> map_option (\<lambda>(_, e). (True, e)) (put_code (stop_exit STOP_INVALID_OPCODE pc) e)) = Some (b, z)
        \<and> emitter_ok z \<and> ecap z = ecap e \<and> epos e \<le> epos z \<and> epos z \<le> epos e + 320"
      using y by (cases b) auto
  qed
  show ?thesis
    unfolding takes_fits
  proof (intro allI impI)
    fix e assume e: "emitter_ok e \<and> epos e + 320 \<le> ecap e"
    have use: "fits 320 e (s e)" if "takes 320 s" for s using that e unfolding takes_fits by blast
    show "fits 320 e (emit_insn h save pc x code e)"
      unfolding emit_insn_def Let_def
      by (intro fits_cases use [OF last] use [OF clean] use [OF stop] use [OF handler]; simp (no_asm))
  qed
qed

lemma takes_insn_after:
  assumes "well_decoded code x"
  shows "takes 364 (\<lambda>e. Option.bind (emit_insn h save pc x code e) (after_insn base npc))"
  unfolding takes_def
proof (intro allI impI, elim conjE)
  fix e assume e: "emitter_ok e" "epos e + 364 \<le> ecap e"
  have fits: "epos e + 320 \<le> ecap e" using e(2) by simp
  obtain b y where y: "emit_insn h save pc x code e = Some (b, y)" "emitter_ok y" "ecap y = ecap e" "epos e \<le> epos y"
      "epos y \<le> epos e + 320"
    using takesD [OF takes_insn [OF assms] e(1) fits] .
  have "epos y + 44 \<le> ecap y" using y e(2) by simp
  from takesD [OF takes_static [OF order_refl] y(2) this] obtain r z where
    "emit_epilog_static npc y = Some (r, z)" "emitter_ok z" "ecap z = ecap y" "epos y \<le> epos z" "epos z \<le> epos y + 44" .
  then show "\<exists>b z. Option.bind (emit_insn h save pc x code e) (after_insn base npc) = Some (b, z) \<and> emitter_ok z
      \<and> ecap z = ecap e \<and> epos e \<le> epos z \<and> epos z \<le> epos e + 364"
    using y by (auto simp: after_insn_def)
qed

definition decoder_ok :: "x_decoder \<Rightarrow> bool" where
  "decoder_ok dec \<longleftrightarrow> (\<forall>code x. dec code = Some x \<longrightarrow> well_decoded code x)"

lemma decoder_okD: "decoder_ok dec \<Longrightarrow> dec (decode_window code) = Some x \<Longrightarrow> well_decoded code x"
  by (fastforce simp: decoder_ok_def well_decoded_def decode_window_def)

text \<open>The invariant of the loop: there is room for two exits.  An instruction is only translated when there
  are 512 bytes, and it takes at most 364 with the exit after it.\<close>

lemma emit_loop_steps:
  "ecap e < epos e + 512 \<or> code = [] \<Longrightarrow>
    emit_loop (Suc n) h dec saves base pc code e = map_option (\<lambda>(_, e). (False, pc, e)) (emit_epilog_static pc e)"
  "\<not> (ecap e < epos e + 512 \<or> code = []) \<Longrightarrow> dec (decode_window code) = None \<Longrightarrow>
    emit_loop (Suc n) h dec saves base pc code e = map_option (\<lambda>(_, e). (False, pc, e))
      ((if length code < 15 then emit_epilog_static pc else put_code (stop_exit STOP_INVALID_OPCODE pc)) e)"
  "\<not> (ecap e < epos e + 512 \<or> code = []) \<Longrightarrow> dec (decode_window code) = Some x \<Longrightarrow>
    Option.bind (emit_insn h (saves \<noteq> [] \<and> hd saves) pc x code (e\<lparr>efault_eip := pc\<rparr>))
      (after_insn base (pc + of_nat (x_len x))) = Some (b, y) \<Longrightarrow>
    emit_loop (Suc n) h dec saves base pc code e =
      (if b then Some (True, pc + of_nat (x_len x), y)
       else emit_loop n h dec (tl saves) base (pc + of_nat (x_len x)) (drop (x_len x) code) y)"
  unfolding emit_loop.simps Let_def by (simp_all only: if_True if_False option.case split: bool.split) simp_all

definition loop_fits :: "emitter \<Rightarrow> (bool \<times> u32 \<times> emitter) option \<Rightarrow> bool" where
  "loop_fits e r \<longleftrightarrow>
     (\<exists>b p x. r = Some (b, p, x) \<and> emitter_ok x \<and> ecap x = ecap e \<and> (b \<or> epos x + 44 \<le> ecap x))"

lemma loop_stops:
  assumes "takes 54 s" and "emitter_ok e" and "epos e + 148 \<le> ecap e"
  shows "loop_fits e (map_option (\<lambda>(_, e). (False, pc, e)) (s e))"
proof -
  have "epos e + 54 \<le> ecap e" using assms(3) by simp
  from takesD [OF assms(1,2) this] obtain b x where "s e = Some (b, x)" "emitter_ok x" "ecap x = ecap e"
    "epos x \<le> epos e + 54" .
  then show ?thesis using assms(3) by (auto simp: loop_fits_def)
qed

lemma emit_loop_fits:
  assumes "decoder_ok dec" and "emitter_ok e" and "epos e + 148 \<le> ecap e"
  shows "loop_fits e (emit_loop n h dec saves base pc code e)"
  using assms(2,3)
proof (induction n arbitrary: saves pc code e)
  case 0
  then show ?case by (auto simp: loop_fits_def)
next
  case (Suc n)
  note stop = loop_stops [OF _ Suc.prems]
  have 1: "takes 54 (emit_epilog_static pc)" "takes 54 (put_code (stop_exit STOP_INVALID_OPCODE pc))" by simp_all
  consider "ecap e < epos e + 512 \<or> code = []" | "\<not> (ecap e < epos e + 512 \<or> code = [])" "dec (decode_window code) = None"
    | x where "\<not> (ecap e < epos e + 512 \<or> code = [])" "dec (decode_window code) = Some x" by (cases "dec (decode_window code)") blast+
  then show ?case
  proof cases
    case 1
    show ?thesis unfolding emit_loop_steps(1) [OF 1] by (rule stop) simp
  next
    case 2
    show ?thesis unfolding emit_loop_steps(2) [where dec = dec, OF 2] by (rule stop) simp
  next
    case 3
    let ?e = "e\<lparr>efault_eip := pc\<rparr>" and ?npc = "pc + of_nat (x_len x)"
    have "emitter_ok ?e" using Suc.prems(1) by (simp add: emitter_ok_def link_in_def site_in_def)
    moreover have "epos ?e + 364 \<le> ecap ?e" using 3(1) by simp
    ultimately obtain b y where y: "Option.bind (emit_insn h (saves \<noteq> [] \<and> hd saves) pc x code ?e) (after_insn base ?npc) = Some (b, y)"
        "emitter_ok y" "ecap y = ecap ?e" "epos y \<le> epos ?e + 364"
      using takesD [OF takes_insn_after [OF decoder_okD [OF assms(1) 3(2)]]] by metis
    have "epos y + 148 \<le> ecap y" using y(3,4) 3(1) by simp
    from Suc.IH [OF y(2) this] show ?thesis
      unfolding emit_loop_steps(3) [where dec = dec, OF 3 y(1)] using y(2,3) by (auto simp: loop_fits_def)
  qed
qed

lemma emit_trace_ok:
  assumes "decoder_ok dec"
  shows "\<exists>e. emit_trace h dec paging pc code = Some e \<and> emitter_ok e"
proof -
  let ?e = "(emitter_new MAX_TRACE_BYTES)\<lparr>epaging := paging\<rparr>"
  let ?loop = "emit_loop MAX_INSN_COUNT h dec (snd (liveness (scan MAX_INSN_COUNT dec (page_start pc) pc code)))
      (page_start pc) pc code ?e"
  have "emitter_ok ?e" "epos ?e + 148 \<le> ecap ?e" by (simp_all add: emitter_new_def emitter_ok_def)
  from emit_loop_fits [OF assms this] obtain b p x where
    x: "?loop = Some (b, p, x)" "emitter_ok x" "b \<or> epos x + 44 \<le> ecap x" unfolding loop_fits_def by blast
  have t: "emit_trace h dec paging pc code = (if b then Some x else map_option snd (emit_epilog_static p x))"
    unfolding emit_trace_def Let_def x(1) by simp
  show ?thesis
  proof (cases b)
    case True
    then show ?thesis using x(2) t by simp
  next
    case False
    then have "epos x + 44 \<le> ecap x" using x(3) by simp
    from takesD [OF takes_static [OF order_refl] x(2) this] obtain r y where "emit_epilog_static p x = Some (r, y)" "emitter_ok y" .
    then show ?thesis using t False by simp
  qed
qed

lemma emitter_emitted:
  assumes "emitter_ok e"
  shows "emitted_ok buf (trace_emission e buf)"
proof -
  have "sorted_wrt apart (map (\<lambda>(s, t). buf + s) (elinks e))"
    using assms by (auto simp: emitter_ok_def apart_def sorted_wrt_map split_def elim!: sorted_wrt_mono_rel [rotated])
  moreover have "link_in e s" if "(s, t) \<in> set (elinks e)" for s t using assms that by (auto simp: emitter_ok_def)
  moreover have site: "site_in e (off, pc, len)" "off_links e (off, pc, len)" if "(off, pc, len) \<in> set (esites e)"
    for off pc len using assms that by (auto simp: emitter_ok_def)
  moreover have "5 \<le> unat len \<and> unat off + unat len \<le> epos e" if "(off, pc, len) \<in> set (esites e)" "len \<noteq> 0"
    for off pc len using site(1) [OF that(1)] that(2) by (auto simp: site_in_def region_ok_def)
  moreover have "off_slot (buf + unat off) (unat len) (buf + r)"
    if "(off, pc, len) \<in> set (esites e)" "len \<noteq> 0" "(r, t) \<in> set (elinks e)" for off pc len r t
  proof -
    have "off_slot (unat off) (unat len) r" using site(2) [OF that(1)] that(2,3) by (force simp: off_links_def)
    then show ?thesis by (auto simp: off_slot_def)
  qed
  ultimately show ?thesis
    using assms by (fastforce simp: emitted_ok_def trace_emission_def emitter_ok_def comp_def split_def link_in_def)
qed

section \<open>What is built\<close>

text \<open>The builder as the run loop's emission: paging as it is in the context.\<close>

definition built_emitter :: "host_abi \<Rightarrow> x_decoder \<Rightarrow> u32 \<Rightarrow> bytes \<Rightarrow> nat \<Rightarrow> machine \<Rightarrow> emitter" where
  "built_emitter h dec pc code n m = the (emit_trace h dec (cr0 (ctx m) AND 0x80000000 \<noteq> 0) pc (get_list n code 0))"

definition translator :: "host_abi \<Rightarrow> x_decoder \<Rightarrow> u32 \<Rightarrow> bytes \<Rightarrow> nat \<Rightarrow> machine \<Rightarrow> nat \<Rightarrow> emitted" where
  "translator h dec pc code n m = trace_emission (built_emitter h dec pc code n m)"

lemma translator_ok: "decoder_ok dec \<Longrightarrow> emitted_ok buf (translator h dec pc code n m buf)"
  using emit_trace_ok [of dec h "cr0 (ctx m) AND 0x80000000 \<noteq> 0" pc "get_list n code 0"] emitter_emitted
  by (auto simp: translator_def built_emitter_def)

text \<open>With this builder every run of translating, linking and invalidating stays within the reachable states of
  the bookkeeping, so what holds of its links holds of translated guest code.\<close>

lemma translated_reach:
  assumes "decoder_ok dec" and "code_reach x" and "build (translator h dec pc code k m) e n x = (Some t, y)"
  shows "code_reach (cache_trace t y)"
  by (rule code_reach.built [OF assms(2) translator_ok [OF assms(1)] assms(3)])

text \<open>C2: Translation always succeeds and stays in its buffer.  Whatever the guest's code, the calling
  convention and the paging mode, no assertion of the emitter can fail: the largest instruction with its exits
  takes less than the 512 bytes that are kept free.  The code is at most the buffer's 64 KB, and its links are
  displacement fields of four zero bytes inside it, apart from each other: the contract that the bookkeeping of
  links relies on.\<close>

theorem translation_fits_buffer:
  assumes "decoder_ok dec"
  shows "\<exists>e. emit_trace h dec paging pc code = Some e \<and> emitted_ok buf (trace_emission e buf)"
  using emit_trace_ok [OF assms] emitter_emitted by blast

text \<open>C4: Every memory site of a trace that is recorded as patchable is an access that the fault handler
  decodes: wherever the trace is put, the handler finds the register, the size and the direction of the access,
  or its immediate, and there is room for the call that replaces it.\<close>

theorem patchable_sites_decode:
  assumes "decoder_ok dec" and "emit_trace h dec paging pc code = Some e" and "(off, pc', len) \<in> set (esites e)"
    and "len \<noteq> 0" and "holds_at m a (ebuf e)"
  shows "5 \<le> len \<and> unat off + unat len \<le> length (ebuf e) \<and> decode_fastmem m (a + unat off) \<noteq> None"
proof -
  have "site_in e (off, pc', len)"
    using emit_trace_ok [OF assms(1), of h paging pc code] assms(2,3) by (auto simp: emitter_ok_def)
  then have r: "unat off + unat len \<le> epos e" "region_ok (take (unat len) (drop (unat off) (ebuf e)))"
    using assms(4) by (simp_all add: site_in_def)
  have "holds_at m (a + unat off) (take (unat len) (drop (unat off) (ebuf e)))"
    using assms(5) r(1) by (auto simp: holds_at_def add.assoc)
  then show ?thesis using r by (simp add: region_ok_def word_le_nat_alt)
qed

section \<open>An example\<close>

text \<open>A decoder for \<open>MOV [EBX], EAX\<close> and \<open>RET\<close>, and the code made of the two.\<close>

definition demo_insn :: "string \<Rightarrow> x_op list \<Rightarrow> nat \<Rightarrow> x_insn" where
  "demo_insn m ps n = \<lparr>x_mnem = m, x_len = n, x_ops = ps, x_visible = length ps, x_width = 32, x_map = 0, x_opcode = 0x89,
     x_prefixes = [], x_modrm_off = n - 1, x_modrm_reg = 0, x_imms = [], x_rep = False, x_repne = False, x_far = False,
     x_tested = 0, x_written = 0\<rparr>"

definition demo_decoder :: x_decoder where
  "demo_decoder code =
     (if take 2 code = [0x89, 0x03] then
        Some (demo_insn ''MOV''
          [\<lparr>xo_kind = X_mem \<lparr>x_segment = SEG_DS, x_base = Gp32 3, x_index = NoReg, x_scale = 0, x_disp = None\<rparr>,
            xo_size = 32, xo_write = True\<rparr>, \<lparr>xo_kind = X_reg (Gp32 0), xo_size = 32, xo_write = False\<rparr>] 2)
      else if take 1 code = [0xC3] then Some (demo_insn ''RET'' [] 1) else None)"

definition demo_abi :: host_abi where
  "demo_abi = \<lparr>abi_win = True, fn_addr = (\<lambda>_. 0x140001000)\<rparr>"

lemma demo_decoder_ok: "decoder_ok demo_decoder"
  by (auto simp: decoder_ok_def demo_decoder_def demo_insn_def well_decoded_def split: if_splits dest: arg_cong [of _ _ length])

lemma demo_classes: "mnemonic_class ''MOV'' = IC_MOV_MEM" "mnemonic_class ''RET'' = IC_TERMINATOR"
  by code_simp+

lemma demo_decodes:
  "demo_decoder (decode_window [0x89, 0x03, 0xC3]) = Some (demo_insn ''MOV''
    [\<lparr>xo_kind = X_mem \<lparr>x_segment = SEG_DS, x_base = Gp32 3, x_index = NoReg, x_scale = 0, x_disp = None\<rparr>,
      xo_size = 32, xo_write = True\<rparr>, \<lparr>xo_kind = X_reg (Gp32 0), xo_size = 32, xo_write = False\<rparr>] 2)"
  "demo_decoder (decode_window [0xC3]) = Some (demo_insn ''RET'' [] 1)"
  by (simp_all add: demo_decoder_def decode_window_def)

lemmas demo_emission = emit_insn_def demo_insn_def emit_mov_mem_def first_mem_def op_at_def shown_ops_def
  reg_at_def is_mem_def is_reg_def is_imm_def shows_reg_def fastmem_dispatch_def emit_ea_def ea_to_r14_def ea_code_def
  ea_base_only_def try_code_def put_code_def emits_def paging_translate_def when_step_def patch_region_def
  seg_ctx_offset_def emit_terminator_def emit_ret_exit_def ret_extra_def is_control_register_def
  is_debug_register_def is_segment_register_def

lemma demo_mov:
  "Option.bind (emit_insn demo_abi save 0x1000 (demo_insn ''MOV''
    [\<lparr>xo_kind = X_mem \<lparr>x_segment = SEG_DS, x_base = Gp32 3, x_index = NoReg, x_scale = 0, x_disp = None\<rparr>,
      xo_size = 32, xo_write = True\<rparr>, \<lparr>xo_kind = X_reg (Gp32 0), xo_size = 32, xo_write = False\<rparr>] 2) code
    ((emitter_new MAX_TRACE_BYTES)\<lparr>efault_eip := 0x1000\<rparr>)) (after_insn 0x1000 0x1002)
   = Some (False, (emitter_new MAX_TRACE_BYTES)\<lparr>efault_eip := 0x1000,
       ebuf := [0x44, 0x8B, 0xF3, 0x43, 0x89, 0x04, 0x34, 0x90], esites := [(3, 0x1000, 5)]\<rparr>)"
  by (simp add: demo_emission demo_classes ends_trace_def is_privileged_def emitter_new_def Let_def modrm_def
      fastmem_op_def pad_to_def add_site_def after_insn_def page_start_def)

lemma demo_ret:
  assumes "ebuf e = [0x44, 0x8B, 0xF3, 0x43, 0x89, 0x04, 0x34, 0x90]" and "ecap e = MAX_TRACE_BYTES" and "\<not> epaging e"
    and "length (esites e) = 1"
  obtains x bs s where "Option.bind (emit_insn demo_abi save 0x1002 (demo_insn ''RET'' [] 1) code e) (after_insn 0x1000 0x1003) =
      Some (True, x)" and "ebuf x = ebuf e @ bs" and "esites x = esites e @ [s]"
  using assms
  by (simp add: demo_emission demo_classes ends_trace_def is_privileged_def Let_def modrm_def fastmem_op_def pad_to_def
      add_site_def after_insn_def eax_to_next_eip_def del: append.append_Cons)

lemma demo_trace:
  obtains e where "emit_trace demo_abi demo_decoder False 0x1000 [0x89, 0x03, 0xC3] = Some e"
    and "esites e ! 0 = (3, 0x1000, 5)" and "0 < length (esites e)" and "take 8 (ebuf e) = [0x44, 0x8B, 0xF3, 0x43, 0x89, 0x04, 0x34, 0x90]"
proof -
  let ?saves = "snd (liveness (scan MAX_INSN_COUNT demo_decoder 0x1000 0x1000 [0x89, 0x03, 0xC3]))"
  let ?e0 = "(emitter_new MAX_TRACE_BYTES)\<lparr>epaging := False\<rparr>"
  let ?e1 = "(emitter_new MAX_TRACE_BYTES)\<lparr>efault_eip := 0x1000,
       ebuf := [0x44, 0x8B, 0xF3, 0x43, 0x89, 0x04, 0x34, 0x90], esites := [(3, 0x1000, 5)]\<rparr>"
  obtain x bs s where x: "Option.bind (emit_insn demo_abi (tl ?saves \<noteq> [] \<and> hd (tl ?saves)) 0x1002 (demo_insn ''RET'' [] 1) [0xC3]
      (?e1\<lparr>efault_eip := 0x1002\<rparr>)) (after_insn 0x1000 0x1003) = Some (True, x)"
      and k: "ebuf x = ebuf ?e1 @ bs" "esites x = esites ?e1 @ [s]"
    by (rule demo_ret [of "?e1\<lparr>efault_eip := 0x1002\<rparr>"]) (simp_all add: emitter_new_def)
  have 2: "emit_loop (Suc 510) demo_abi demo_decoder (tl ?saves) 0x1000 0x1002 [0xC3] ?e1 = Some (True, 0x1003, x)"
    using x by (subst emit_loop_steps(3) [where dec = demo_decoder, OF _ demo_decodes(2)]) (auto simp: emitter_new_def demo_insn_def)
  have "?e0\<lparr>efault_eip := 0x1000\<rparr> = (emitter_new MAX_TRACE_BYTES)\<lparr>efault_eip := 0x1000\<rparr>" by (simp add: emitter_new_def)
  then have "emit_loop (Suc 511) demo_abi demo_decoder ?saves 0x1000 0x1000 [0x89, 0x03, 0xC3] ?e0 = Some (True, 0x1003, x)"
    using demo_mov 2 by (subst emit_loop_steps(3) [where dec = demo_decoder, OF _ demo_decodes(1)]) (auto simp: emitter_new_def demo_insn_def)
  then have "emit_trace demo_abi demo_decoder False 0x1000 [0x89, 0x03, 0xC3] = Some x"
    by (simp add: emit_trace_def Let_def page_start_def)
  moreover have "esites x ! 0 = (3, 0x1000, 5)" "0 < length (esites x)" unfolding k(2) by simp_all
  moreover have "take 8 (ebuf x) = [0x44, 0x8B, 0xF3, 0x43, 0x89, 0x04, 0x34, 0x90]" unfolding k(1) by simp
  ultimately show ?thesis by (rule that)
qed

theorem translation_fits_buffer_witness:
  "\<exists>e. emit_trace demo_abi demo_decoder False 0x1000 [0x89, 0x03, 0xC3] = Some e \<and> emitted_ok 0 (trace_emission e 0)"
  using translation_fits_buffer [OF demo_decoder_ok] .

definition list_mem :: "u8 list \<Rightarrow> bytes" where
  "list_mem bs i = (if i < length bs then bs ! i else 0)"

theorem patchable_sites_decode_witness:
  "\<exists>e. emit_trace demo_abi demo_decoder False 0x1000 [0x89, 0x03, 0xC3] = Some e \<and>
     decode_fastmem (list_mem (ebuf e)) 3 \<noteq> None"
proof -
  obtain e where e: "emit_trace demo_abi demo_decoder False 0x1000 [0x89, 0x03, 0xC3] = Some e"
    "esites e ! 0 = (3, 0x1000, 5)" "0 < length (esites e)" by (rule demo_trace)
  have "(3, 0x1000, 5) \<in> set (esites e)" using e(2,3) by (metis nth_mem)
  moreover have "holds_at (list_mem (ebuf e)) 0 (ebuf e)" by (simp add: holds_at_def list_mem_def)
  ultimately show ?thesis using patchable_sites_decode [OF demo_decoder_ok e(1), of 3 "0x1000" 5 _ 0] e(1) by auto
qed

section \<open>Accesses and their stubs\<close>

text \<open>The bytes that are emitted for an access, and the accesses there are.\<close>

fun access_bytes :: "fast_access \<Rightarrow> u8 list" where
  "access_bytes (Fast_load r n) = fastmem_op r (8 * n) True"
| "access_bytes (Fast_store r n) = fastmem_op r (8 * n) False"
| "access_bytes (Fast_store_imm v n) = store_imm_code v (8 * n)"

fun access_valid :: "fast_access \<Rightarrow> bool" where
  "access_valid (Fast_load r n) \<longleftrightarrow> r < 8 \<and> n \<in> {1, 2, 4}"
| "access_valid (Fast_store r n) \<longleftrightarrow> r < 8 \<and> n \<in> {1, 2, 4}"
| "access_valid (Fast_store_imm v n) \<longleftrightarrow> take_bit (8 * n) v = v \<and> n \<in> {1, 2, 4}"

lemma access_decodes:
  assumes "access_valid acc" and "holds_at m a (access_bytes acc)"
  shows "decode_fastmem m a = Some acc"
proof (cases acc)
  case (Fast_load r n)
  then have "8 * n \<in> {8, 16, 32}" "r < 8" using assms(1) by auto
  from decode_op [of m a r "8 * n" True, OF _ this(2,1)] show ?thesis using assms(2) Fast_load by simp
next
  case (Fast_store r n)
  then have "8 * n \<in> {8, 16, 32}" "r < 8" using assms(1) by auto
  from decode_op [of m a r "8 * n" False, OF _ this(2,1)] show ?thesis using assms(2) Fast_store by simp
next
  case (Fast_store_imm v n)
  then have "8 * n \<in> {8, 16, 32}" using assms(1) by auto
  from decode_store [of m a v "8 * n", OF _ this] show ?thesis using assms Fast_store_imm by simp
qed

text \<open>C5: The fault handler reads an access back from the host instruction exactly as the emitter wrote it,
  for every register, size and immediate and wherever the instruction is.\<close>

theorem fastmem_roundtrip:
  assumes "access_valid acc" and "holds_at m a (access_bytes acc)"
  shows "decode_fastmem m a = Some acc"
  by (rule access_decodes [OF assms])

theorem fastmem_roundtrip_witness:
  "decode_fastmem (list_mem [0x66, 0x43, 0xC7, 0x04, 0x34, 0x34, 0x12]) 0 = Some (Fast_store_imm 0x1234 2)"
  by (rule fastmem_roundtrip)
    (simp_all add: store_imm_code_def fastmem_store_imm16_def list_mem_def holds_at_def less_Suc_eq)

text \<open>A zero-extending byte load from a device register, once it is replaced by a call, no longer extends:
  the handler takes it for a plain byte load, whose stub merges the byte into the register, so the upper 24
  bits keep what they were.\<close>

theorem movzx_from_device:
  assumes "enc < 8" and "enc \<noteq> GP_ESP" and "holds_at mem a (fastmem_movzx enc 8 False)"
    and "decode_fastmem mem a = Some (Fast_load r n)" and "mmio_dispatch_read pa r n m = Some m'"
  shows "reg enc m' AND NOT 0xFF = reg enc m AND NOT 0xFF"
proof -
  have "decode_fastmem mem a = Some (Fast_load enc 1)"
    using decode_extend [of mem a "0xB6" "0xB7" enc 8 False] assms(1-3) by (simp add: fastmem_movzx_def)
  then have "r = enc" "n = 1" using assms(4) by simp_all
  then obtain v x where x: "m' = set_reg enc (merge_reg 1 (reg enc x) v) x" "reg enc x = reg enc m"
    using assms(5) by (auto simp: mmio_dispatch_read_def bind_eq_Some_conv bus_read_def split: if_splits option.splits)
  have high: "0xFFFFFF00 = NOT (0xFF :: u32)" by simp
  have "((w AND 0xFFFFFF00) OR (v AND 0xFF)) AND NOT 0xFF = w AND NOT 0xFF" for w :: u32
    unfolding high by (rule bit_word_eqI) (auto simp: bit_simps)
  then show ?thesis using x by (simp add: set_reg_def upd_ctx_def merge_reg_def)
qed

theorem movzx_from_device_witness:
  "\<exists>m'. mmio_dispatch_read 0x1000 1 1 (set_reg 1 0x12345678 (executor_init False)) = Some m' \<and>
     reg 1 m' AND NOT 0xFF = 0x12345600"
proof -
  let ?m = "set_reg 1 0x12345678 (executor_init False)" and ?mem = "list_mem (fastmem_movzx 1 8 False)"
  obtain m' where m': "mmio_dispatch_read 0x1000 1 1 ?m = Some m'"
    by (simp add: mmio_dispatch_read_def ram_rd_def rd_def)
  have h: "holds_at ?mem 0 (fastmem_movzx 1 8 False)" by (simp add: holds_at_def list_mem_def)
  have "decode_fastmem ?mem 0 = Some (Fast_load 1 1)"
    using decode_extend [of ?mem 0 "0xB6" "0xB7" 1 8 False] h by (simp add: fastmem_movzx_def)
  from movzx_from_device [OF _ _ h this m'] have "reg 1 m' AND NOT 0xFF = reg 1 ?m AND NOT 0xFF" by simp
  then show ?thesis using m' by (simp add: set_reg_def upd_ctx_def)
qed

section \<open>The helper page\<close>

lemma entries_snoc: "entries (fs @ [f]) page = (let (offs, p) = entries fs page; (x, p) = f p in (offs @ [x], p))"
  by (simp add: entries_def split_def Let_def)

text \<open>Stubs are put one after the other, each where the list of offsets says.\<close>

lemma entries_placed:
  assumes "\<And>f p. f \<in> set fs \<Longrightarrow> \<exists>ext. f p = (length p, p @ ext) \<and> length ext = k"
  shows "\<exists>offs p. entries fs page = (offs, p) \<and> length offs = length fs \<and> length p = length page + k * length fs
    \<and> take (length page) p = page
    \<and> (\<forall>i < length fs. \<exists>pre suf. length pre = offs ! i \<and> p = snd ((fs ! i) pre) @ suf)"
  using assms
proof (induction fs rule: rev_induct)
  case Nil
  then show ?case by (simp add: entries_def)
next
  case (snoc f fs)
  obtain offs p where p: "entries fs page = (offs, p)" "length offs = length fs" "length p = length page + k * length fs"
      "take (length page) p = page" "\<forall>i < length fs. \<exists>pre suf. length pre = offs ! i \<and> p = snd ((fs ! i) pre) @ suf"
    using snoc.IH snoc.prems by auto
  obtain ext where e: "f p = (length p, p @ ext)" "length ext = k" using snoc.prems [of f p] by auto
  have "\<exists>pre suf. length pre = (offs @ [length p]) ! i \<and> p @ ext = snd (((fs @ [f]) ! i) pre) @ suf" if "i < Suc (length fs)" for i
  proof (cases "i < length fs")
    case True
    then obtain pre suf where "length pre = offs ! i" "p = snd ((fs ! i) pre) @ suf" using p(5) by blast
    then show ?thesis using True p(2) by (intro exI [of _ pre] exI [of _ "suf @ ext"]) (simp add: nth_append)
  next
    case False
    then show ?thesis using that p(2) e(1) by (intro exI [of _ p] exI [of _ "[]"]) (simp add: nth_append)
  qed
  then show ?case using p(1-4) e by (simp add: entries_snoc)
qed

lemma helper_entry_ext:
  "\<exists>ext. helper_entry h arg2 n tail p = (length p, p @ ext) \<and> length ext = (if abi_win h then 51 else 50) + length arg2"
  by (simp add: helper_entry_def Let_def)

lemma reg_entries_len:
  assumes "f \<in> set (reg_entries h tail)"
  shows "\<exists>ext. f p = (length p, p @ ext) \<and> length ext = (if abi_win h then 57 else 55)"
proof -
  obtain r n where "f = helper_entry h (arg2_imm h (of_nat r)) n tail" using assms by (auto simp: reg_entries_def)
  then show ?thesis using helper_entry_ext [of h "arg2_imm h (of_nat r)" n tail p] by auto
qed

lemma reg_entries_placed:
  "\<exists>offs p. entries (reg_entries h tail) page = (offs, p) \<and> length offs = length (reg_entries h tail)
    \<and> length p = length page + (if abi_win h then 57 else 55) * length (reg_entries h tail)
    \<and> take (length page) p = page
    \<and> (\<forall>i < length (reg_entries h tail). \<exists>pre suf. length pre = offs ! i \<and> p = snd ((reg_entries h tail ! i) pre) @ suf)"
  by (rule entries_placed) (erule reg_entries_len)

lemma reg_entries_nth:
  assumes "r < 8" and "n \<in> {1, 2, 4}"
  shows "reg_entries h tail ! (3 * r + size_idx n) = helper_entry h (arg2_imm h (of_nat r)) n tail"
proof -
  let ?k = "3 * r + size_idx n"
  have k: "?k < 24" "?k div 3 = r" "?k mod 3 = size_idx n" "[1, 2, 4] ! size_idx n = n" using assms by (auto simp: size_idx_def)
  then have "List.product [0..<8] [1, 2, 4] ! ?k = (r, n)" by (simp add: product_nth assms(1))
  then show ?thesis using k(1) by (simp add: reg_entries_def)
qed

lemma len_tail: "length (shared_tail h f) = (if abi_win h then 55 else 47)"
  by (simp add: shared_tail_def)

text \<open>What a list of stubs put behind a page leaves of the page, and where each stub is afterwards.\<close>

definition placed :: "u8 list \<Rightarrow> (u8 list \<Rightarrow> nat \<times> u8 list) list \<Rightarrow> nat list \<Rightarrow> bool" where
  "placed page fs offs \<longleftrightarrow> (\<forall>i < length fs. \<exists>pre suf. length pre = offs ! i \<and> page = snd ((fs ! i) pre) @ suf)"

lemma placed_more:
  assumes "placed p fs offs"
  shows "placed (p @ q) fs offs"
  unfolding placed_def
proof (intro allI impI)
  fix i assume "i < length fs"
  then obtain pre suf where "length pre = offs ! i" "p = snd ((fs ! i) pre) @ suf" using assms unfolding placed_def by blast
  then show "\<exists>pre suf. length pre = offs ! i \<and> p @ q = snd ((fs ! i) pre) @ suf"
    by (intro exI [of _ pre] exI [of _ "suf @ q"]) simp
qed

lemma reg_entries_page:
  obtains offs q where "entries (reg_entries h tail) page = (offs, page @ q)"
    and "length q = (if abi_win h then 57 else 55) * 24" and "placed (page @ q) (reg_entries h tail) offs"
proof -
  have n: "length (reg_entries h tail) = 24" by (simp add: reg_entries_def)
  obtain offs p where p: "entries (reg_entries h tail) page = (offs, p)" "take (length page) p = page"
      "length p = length page + (if abi_win h then 57 else 55) * 24" "placed p (reg_entries h tail) offs"
    using reg_entries_placed [of h tail page] unfolding placed_def n by auto
  moreover have "p = page @ drop (length page) p" by (metis p(2) append_take_drop_id)
  ultimately show ?thesis using that [of offs "drop (length page) p"] by simp
qed

definition tails :: "host_abi \<Rightarrow> u8 list" where
  "tails h = shared_tail h Fn_mmio_read @ shared_tail h Fn_mmio_write @ shared_tail h Fn_mmio_write_imm"

definition write_tail :: "host_abi \<Rightarrow> nat" where
  "write_tail h = length (shared_tail h Fn_mmio_read)"

definition imm_tail :: "host_abi \<Rightarrow> nat" where
  "imm_tail h = write_tail h + length (shared_tail h Fn_mmio_write)"

definition imm_entries :: "host_abi \<Rightarrow> (u8 list \<Rightarrow> nat \<times> u8 list) list" where
  "imm_entries h = map (\<lambda>n. helper_entry h (imm_arg2 h) n (imm_tail h)) [1, 2, 4]"

text \<open>The page in its parts.\<close>

lemma helper_page:
  obtains rs ws ts ex q where "generate_mmio_helpers h HELPER_PAGE_BYTES =
      Some (\<lparr>read_helpers = rs, write_helpers = ws, write_imm_tails = ts, exception_exit = ex\<rparr>, tails h @ q)"
    and "length (tails h @ q) \<le> HELPER_PAGE_BYTES" and "placed (tails h @ q) (reg_entries h 0) rs"
    and "placed (tails h @ q) (reg_entries h (write_tail h)) ws" and "placed (tails h @ q) (imm_entries h) ts"
proof -
  obtain rs q1 where 1: "entries (reg_entries h 0) (tails h) = (rs, tails h @ q1)" "length q1 = (if abi_win h then 57 else 55) * 24"
      "placed (tails h @ q1) (reg_entries h 0) rs" by (rule reg_entries_page)
  obtain ws q2 where 2: "entries (reg_entries h (write_tail h)) (tails h @ q1) = (ws, (tails h @ q1) @ q2)"
      "length q2 = (if abi_win h then 57 else 55) * 24" "placed ((tails h @ q1) @ q2) (reg_entries h (write_tail h)) ws"
    by (rule reg_entries_page)
  let ?p = "(tails h @ q1) @ q2"
  have im: "\<exists>ext. f p = (length p, p @ ext) \<and> length ext = (if abi_win h then 54 else 53)" if "f \<in> set (imm_entries h)" for f p
    using that helper_entry_ext [of h "imm_arg2 h"] by (auto simp: imm_arg2_def imm_entries_def)
  have n: "length (imm_entries h) = 3" by (simp add: imm_entries_def)
  obtain ts p3 where 3: "entries (imm_entries h) ?p = (ts, p3)" "length p3 = length ?p + (if abi_win h then 54 else 53) * 3"
      "take (length ?p) p3 = ?p" "placed p3 (imm_entries h) ts"
    using entries_placed [of "imm_entries h" "if abi_win h then 54 else 53" ?p] im unfolding n placed_def by auto
  define q3 where "q3 = drop (length ?p) p3"
  have p3: "p3 = ?p @ q3" unfolding q3_def by (metis 3(3) append_take_drop_id)
  let ?q = "q1 @ q2 @ q3 @ save_all_gp @ [0xC3]"
  have len: "length (tails h @ ?q) \<le> HELPER_PAGE_BYTES"
    using 1(2) 2(2) 3(2) p3 by (simp add: tails_def len_tail split: if_splits)
  have g: "generate_mmio_helpers h HELPER_PAGE_BYTES =
      Some (\<lparr>read_helpers = rs, write_helpers = ws, write_imm_tails = ts, exception_exit = length p3\<rparr>, tails h @ ?q)"
    unfolding generate_mmio_helpers_def Let_def
    using 1(1) 2(1) 3(1) len unfolding p3 tails_def write_tail_def imm_tail_def imm_entries_def by simp
  show ?thesis
    using that [OF g len] placed_more [OF 1(3), of "q2 @ q3 @ save_all_gp @ [0xC3]"]
      placed_more [OF 2(3), of "q3 @ save_all_gp @ [0xC3]"] placed_more [OF 3(4), of "save_all_gp @ [0xC3]"]
    by (simp add: p3)
qed

text \<open>What a stub should do: save the flags and the registers, pass the context, the physical address, a third
  argument and the size, jump to code that calls the function (putting the stack back as far as it was lowered),
  loads the registers and the flags and returns.\<close>

definition code_at :: "u8 list \<Rightarrow> nat \<Rightarrow> u8 list \<Rightarrow> bool" where
  "code_at page a bs \<longleftrightarrow> take (length bs) (drop a page) = bs"

definition stub_calls :: "host_abi \<Rightarrow> u8 list \<Rightarrow> nat \<Rightarrow> u8 list \<Rightarrow> nat \<Rightarrow> c_fn \<Rightarrow> bool" where
  "stub_calls h page a arg2 n f \<longleftrightarrow> (\<exists>d t k.
     let entry = save_flags_code @ save_all_gp @ arg0_ctx h @ arg1_pa h @ arg2 @ arg3_imm h (of_nat n) @ [0xE9] @ le32 d in
     code_at page a entry \<and> int (a + length entry) + sint d = int t \<and>
     code_at page t ((if abi_win h then [0x48, 0x83, 0xEC, k] else []) @ [0x48, 0xB8] @ le64 (fn_addr h f)
       @ [0xFF, 0xD0] @ (if abi_win h then [0x48, 0x83, 0xC4, k] else []) @ load_all_gp @ restore_flags_code @ [0xC3]))"

lemma code_at_split: "page = pre @ bs @ suf \<Longrightarrow> length pre = a \<Longrightarrow> code_at page a bs"
  by (auto simp: code_at_def)

lemma placed_calls:
  assumes p: "placed page fs offs" and i: "i < length fs" and f: "fs ! i = helper_entry h arg2 n t"
    and t: "code_at page t (shared_tail h f)" "t < 0x1000" and len: "length page \<le> 0x1000"
  shows "stub_calls h page (offs ! i) arg2 n f"
proof -
  obtain pre suf where pre: "length pre = offs ! i" "page = snd (helper_entry h arg2 n t pre) @ suf"
    using p i f unfolding placed_def by auto
  let ?e = "save_flags_code @ save_all_gp @ arg0_ctx h @ arg1_pa h @ arg2 @ arg3_imm h (of_nat n) @ [0xE9]"
  let ?d = "of_nat t - of_nat (length pre + length ?e + 4) :: u32"
  have page: "page = pre @ (?e @ le32 ?d) @ suf" using pre(2) by (simp add: helper_entry_def Let_def)
  then have l: "length pre + length ?e + 4 \<le> length page" by simp
  have "\<bar>int t - int (length pre + length ?e + 4)\<bar> < 2 ^ 31" using l len t(2) by simp
  then have d: "sint ?d = int t - int (length pre + length ?e + 4)" by (rule sint_diff)
  have "code_at page (offs ! i) (?e @ le32 ?d)" using page pre(1) by (rule code_at_split)
  moreover have "int (offs ! i + length (?e @ le32 ?d)) + sint ?d = int t" unfolding d using pre(1) by simp
  ultimately show ?thesis
    unfolding stub_calls_def Let_def using t(1) unfolding shared_tail_def by (intro exI [of _ ?d] exI [of _ t] exI [of _ "0x28"]) simp
qed

text \<open>C7: The helper page holds what it should: all 51 stubs, the shared tails and the exit stub fit its 4 KB
  under either calling convention, and the stub that is looked up for a read into a register, for a write of a
  register and for a write of an immediate, with a size, passes that register (or the immediate in R15) and that
  size to the function that reads, to the one that writes and to the one that writes immediates, in this order.\<close>

theorem helper_stubs_call:
  assumes "r < 8" and "n \<in> {1, 2, 4}"
  shows "\<exists>hs page. generate_mmio_helpers h HELPER_PAGE_BYTES = Some (hs, page) \<and> length page \<le> HELPER_PAGE_BYTES \<and>
    stub_calls h page (lookup_read r n hs) (arg2_imm h (of_nat r)) n Fn_mmio_read \<and>
    stub_calls h page (lookup_write r n hs) (arg2_imm h (of_nat r)) n Fn_mmio_write \<and>
    stub_calls h page (lookup_write_imm n hs) (imm_arg2 h) n Fn_mmio_write_imm"
proof -
  obtain rs ws ts ex q where g: "generate_mmio_helpers h HELPER_PAGE_BYTES =
      Some (\<lparr>read_helpers = rs, write_helpers = ws, write_imm_tails = ts, exception_exit = ex\<rparr>, tails h @ q)"
    and len: "length (tails h @ q) \<le> HELPER_PAGE_BYTES" and p: "placed (tails h @ q) (reg_entries h 0) rs"
    "placed (tails h @ q) (reg_entries h (write_tail h)) ws" "placed (tails h @ q) (imm_entries h) ts"
    by (rule helper_page)
  have i: "3 * r + size_idx n < length (reg_entries h t)" for t using assms by (auto simp: reg_entries_def size_idx_def)
  have k: "size_idx n < length (imm_entries h)" "imm_entries h ! size_idx n = helper_entry h (imm_arg2 h) n (imm_tail h)"
    using assms(2) by (auto simp: imm_entries_def size_idx_def)
  have t: "code_at (tails h @ q) 0 (shared_tail h Fn_mmio_read)" "code_at (tails h @ q) (write_tail h) (shared_tail h Fn_mmio_write)"
    "code_at (tails h @ q) (imm_tail h) (shared_tail h Fn_mmio_write_imm)"
    by (simp_all add: code_at_def tails_def write_tail_def imm_tail_def)
  have small: "write_tail h < 0x1000" "imm_tail h < 0x1000" by (simp_all add: write_tail_def imm_tail_def len_tail)
  have m: "r mod 8 = r" using assms(1) by simp
  show ?thesis
    using g len placed_calls [OF p(1) i reg_entries_nth [OF assms] t(1)]
      placed_calls [OF p(2) i reg_entries_nth [OF assms] t(2) small(1)] placed_calls [OF p(3) k t(3) small(2)]
    by (intro exI [of _ "\<lparr>read_helpers = rs, write_helpers = ws, write_imm_tails = ts, exception_exit = ex\<rparr>"]
          exI [of _ "tails h @ q"]) (simp add: lookup_read_def lookup_write_def lookup_write_imm_def m)
qed

theorem helper_stubs_call_witness:
  "\<exists>hs page. generate_mmio_helpers demo_abi HELPER_PAGE_BYTES = Some (hs, page) \<and> length page \<le> HELPER_PAGE_BYTES \<and>
    stub_calls demo_abi page (lookup_read 3 2 hs) (arg2_imm demo_abi (of_nat 3)) 2 Fn_mmio_read \<and>
    stub_calls demo_abi page (lookup_write 3 2 hs) (arg2_imm demo_abi (of_nat 3)) 2 Fn_mmio_write \<and>
    stub_calls demo_abi page (lookup_write_imm 2 hs) (imm_arg2 demo_abi) 2 Fn_mmio_write_imm"
  by (rule helper_stubs_call) simp_all

end
