(* ===== verification/Host_Code.thy ===== *)
theory Host_Code
  imports Fault_Handler
begin

text \<open>
  The meaning of emitted code.  A small part of the host's instruction set in 64-bit mode, as its manual gives
  it: the moves, address computations and additions that address synthesis and the exit of a return are made of,
  with prefixes and operand forms decoded from the bytes.  What the emitter puts out for a memory operand then
  computes the operand's address in the guest, and what it puts out for RET leaves to the return address.
\<close>

section \<open>Host state\<close>

text \<open>The 16 registers, cut to 32 bits, the words of the guest context that R13 points to, by offset, the
  guest's memory that R12 points to, the flags and what is pushed.\<close>

record host =
  hr :: "nat \<Rightarrow> u32"
  hctx :: "nat \<Rightarrow> u32"
  hguest :: bytes
  hflags :: u32
  hstack :: "u32 list"

datatype h_operand = H_reg nat | H_mem "nat option" "(nat \<times> nat) option" u32

section \<open>Decoding operands\<close>

definition rex_r :: "u8 \<Rightarrow> nat" where "rex_r rex = (if bit rex 2 then 8 else 0)"
definition rex_x :: "u8 \<Rightarrow> nat" where "rex_x rex = (if bit rex 1 then 8 else 0)"
definition rex_b :: "u8 \<Rightarrow> nat" where "rex_b rex = (if bit rex 0 then 8 else 0)"

definition f_mod :: "u8 \<Rightarrow> nat" where "f_mod f = unat (drop_bit 6 f)"
definition f_reg :: "u8 \<Rightarrow> nat" where "f_reg f = unat (drop_bit 3 f AND 7)"
definition f_rm :: "u8 \<Rightarrow> nat" where "f_rm f = unat (f AND 7)"

definition imm32 :: "u8 list \<Rightarrow> (u32 \<times> u8 list) option" where
  "imm32 bs =
     (case bs of
        b0 # b1 # b2 # b3 # bs \<Rightarrow>
          Some (ucast b0 OR push_bit 8 (ucast b1) OR push_bit 16 (ucast b2) OR push_bit 24 (ucast b3), bs)
      | _ \<Rightarrow> None)"

definition imm8 :: "u8 list \<Rightarrow> (u32 \<times> u8 list) option" where
  "imm8 bs = (case bs of b # bs \<Rightarrow> Some (scast b, bs) | [] \<Rightarrow> None)"

text \<open>The displacement after the form: none, a byte or four.\<close>

definition displacement :: "nat \<Rightarrow> bool \<Rightarrow> u8 list \<Rightarrow> (u32 \<times> u8 list) option" where
  "displacement md no_base bs =
     (if md = 1 then imm8 bs else if md = 2 \<or> no_base then imm32 bs else Some (0, bs))"

text \<open>The register field and the other operand.  Without a scaled index, mode 0 with base 5 is relative to the
  instruction, which is not used.\<close>

definition operands :: "u8 \<Rightarrow> u8 list \<Rightarrow> (nat \<times> h_operand \<times> u8 list) option" where
  "operands rex bs =
     (case bs of
        [] \<Rightarrow> None
      | f # bs \<Rightarrow>
          let r = f_reg f + rex_r rex in
          if f_mod f = 3 then Some (r, H_reg (f_rm f + rex_b rex), bs)
          else if f_rm f = 4 then
            (case bs of
               [] \<Rightarrow> None
             | g # bs \<Rightarrow>
                 let i = f_reg g + rex_x rex; no_base = (f_mod f = 0 \<and> f_rm g = 5) in
                 map_option (\<lambda>(d, bs). (r, H_mem (if no_base then None else Some (f_rm g + rex_b rex))
                     (if i = 4 then None else Some (i, f_mod g)) d, bs))
                   (displacement (f_mod f) no_base bs))
          else if f_mod f = 0 \<and> f_rm f = 5 then None
          else map_option (\<lambda>(d, bs). (r, H_mem (Some (f_rm f + rex_b rex)) None d, bs)) (displacement (f_mod f) False bs))"

definition h_address :: "h_operand \<Rightarrow> host \<Rightarrow> u32" where
  "h_address p s =
     (case p of
        H_reg _ \<Rightarrow> 0
      | H_mem b i d \<Rightarrow>
          (case b of Some b \<Rightarrow> hr s b | None \<Rightarrow> 0) + (case i of Some (i, sc) \<Rightarrow> push_bit sc (hr s i) | None \<Rightarrow> 0) + d)"

text \<open>Memory is the context's, at a displacement from R13, and, for reading, the guest's, at an unscaled index
  from R12.\<close>

fun h_value :: "h_operand \<Rightarrow> host \<Rightarrow> u32 option" where
  "h_value (H_reg r) s = Some (hr s r)"
| "h_value (H_mem (Some b) None d) s = (if b = 13 then Some (hctx s (unat d)) else None)"
| "h_value (H_mem (Some b) (Some (i, sc)) d) s =
     (if b = 12 \<and> sc = 0 \<and> d = 0 then Some (ld 4 (hguest s) (unat (hr s i))) else None)"
| "h_value (H_mem None _ _) s = None"

fun h_put :: "h_operand \<Rightarrow> u32 \<Rightarrow> host \<Rightarrow> host option" where
  "h_put (H_reg r) v s = Some (s\<lparr>hr := (hr s)(r := v)\<rparr>)"
| "h_put (H_mem (Some b) None d) v s = (if b = 13 then Some (s\<lparr>hctx := (hctx s)(unat d := v)\<rparr>) else None)"
| "h_put (H_mem _ _ _) v s = None"

section \<open>Instructions\<close>

definition h_flags :: "u32 \<Rightarrow> host \<Rightarrow> host" where
  "h_flags fl s = s\<lparr>hflags := (hflags s AND NOT STATUS_MASK) OR (fl AND STATUS_MASK)\<rparr>"

definition h_rex :: "u8 \<Rightarrow> u8 \<Rightarrow> u8 list \<Rightarrow> host \<Rightarrow> (host \<times> u8 list) option" where
  "h_rex rex opc bs s =
     (if opc = 0x8B then do {
        (r, p, bs) \<leftarrow> operands rex bs;
        v \<leftarrow> h_value p s;
        Some (s\<lparr>hr := (hr s)(r := v)\<rparr>, bs)
      }
      else if opc = 0x89 then do {
        (r, p, bs) \<leftarrow> operands rex bs;
        s \<leftarrow> h_put p (hr s r) s;
        Some (s, bs)
      }
      else if opc = 0x8D then do {
        (r, p, bs) \<leftarrow> operands rex bs;
        Some (s\<lparr>hr := (hr s)(r := h_address p s)\<rparr>, bs)
      }
      else if opc = 0x03 then do {
        (r, p, bs) \<leftarrow> operands rex bs;
        v \<leftarrow> h_value p s;
        Some (h_flags (add_flags (hr s r) v 4) (s\<lparr>hr := (hr s)(r := hr s r + v)\<rparr>), bs)
      }
      else if opc = 0x83 then do {
        (r, p, bs) \<leftarrow> operands rex bs;
        (i, bs) \<leftarrow> imm8 bs;
        v \<leftarrow> h_value p s;
        if r = 0 then map_option (\<lambda>s. (h_flags (add_flags v i 4) s, bs)) (h_put p (v + i) s)
        else if r = 5 then map_option (\<lambda>s. (h_flags (sub_flags v i 4) s, bs)) (h_put p (v - i) s)
        else None
      }
      else if 0xB8 \<le> opc \<and> opc \<le> 0xBF then do {
        (i, bs) \<leftarrow> imm32 bs;
        Some (s\<lparr>hr := (hr s)(f_rm opc + rex_b rex := i)\<rparr>, bs)
      }
      else None)"

fun h_step :: "u8 list \<Rightarrow> host \<Rightarrow> (host \<times> u8 list) option" where
  "h_step [] s = None"
| "h_step (b # bs) s =
     (if b = 0x9C then Some (s\<lparr>hstack := hflags s # hstack s\<rparr>, bs)
      else if b = 0x9D then
        (case hstack s of [] \<Rightarrow> None | v # vs \<Rightarrow> Some (s\<lparr>hflags := v, hstack := vs\<rparr>, bs))
      else if b = 0x90 then Some (s, bs)
      else if 0x40 \<le> b \<and> b \<le> 0x4F then (case bs of [] \<Rightarrow> None | opc # bs \<Rightarrow> h_rex b opc bs s)
      else None)"

text \<open>A stretch of code: each instruction has a byte at least, so that its length is enough fuel.\<close>

primrec h_run :: "nat \<Rightarrow> u8 list \<Rightarrow> host \<Rightarrow> host option" where
  "h_run 0 bs s = (if bs = [] then Some s else None)"
| "h_run (Suc n) bs s = (if bs = [] then Some s else Option.bind (h_step bs s) (\<lambda>(s, bs). h_run n bs s))"

definition h_exec :: "u8 list \<Rightarrow> host \<Rightarrow> host option" where
  "h_exec bs = h_run (length bs) bs"

section \<open>Addresses of the guest\<close>

definition guest_reg :: "nat \<Rightarrow> host \<Rightarrow> u32" where
  "guest_reg i s = (if i = GP_ESP then hctx s 16 else hr s i)"

definition opt_reg :: "reg_name \<Rightarrow> host \<Rightarrow> u32" where
  "opt_reg r s = (case reg32_enc r of Some i \<Rightarrow> guest_reg i s | None \<Rightarrow> 0)"

definition guest_offset :: "x_mem \<Rightarrow> host \<Rightarrow> u32" where
  "guest_offset m s =
     opt_reg (x_base m) s + opt_reg (x_index m) s * ucast (x_scale m) + (case x_disp m of Some d \<Rightarrow> d | None \<Rightarrow> 0)"

text \<open>FS and GS have bases; the other segments are flat.\<close>

definition segment_base :: "x_mem \<Rightarrow> host \<Rightarrow> u32 option" where
  "segment_base m s =
     (if x_segment m = SEG_FS then Some (hctx s 100) else if x_segment m = SEG_GS then Some (hctx s 104) else None)"

definition guest_address :: "x_mem \<Rightarrow> host \<Rightarrow> u32" where
  "guest_address m s = guest_offset m s + (case segment_base m s of Some b \<Rightarrow> b | None \<Rightarrow> 0)"

text \<open>Operands of 32-bit code: registers by number, a scale with the index.\<close>

definition mem_operand_ok :: "x_mem \<Rightarrow> bool" where
  "mem_operand_ok m \<longleftrightarrow>
     (\<forall>i. x_base m = Gp32 i \<longrightarrow> i < 8) \<and> (\<forall>i. x_index m = Gp32 i \<longrightarrow> i < 8)
     \<and> (x_index m \<noteq> NoReg \<longrightarrow> x_scale m \<in> {1, 2, 4, 8})"

section \<open>Code in sequence\<close>

lemma imm32_append: "imm32 bs = Some (v, r) \<Longrightarrow> imm32 (bs @ ys) = Some (v, r @ ys) \<and> length r < length bs"
  by (auto simp: imm32_def split: list.splits)

lemma imm8_append: "imm8 bs = Some (v, r) \<Longrightarrow> imm8 (bs @ ys) = Some (v, r @ ys) \<and> length r < length bs"
  by (auto simp: imm8_def split: list.splits)

lemma displacement_append:
  "displacement md nb bs = Some (v, r) \<Longrightarrow> displacement md nb (bs @ ys) = Some (v, r @ ys) \<and> length r \<le> length bs"
  using imm32_append [of bs v r ys] imm8_append [of bs v r ys] by (auto simp: displacement_def split: if_splits)

lemma operands_append:
  assumes "operands rex bs = Some (n, p, r)"
  shows "operands rex (bs @ ys) = Some (n, p, r @ ys) \<and> length r < length bs"
proof -
  obtain f cs where bs: "bs = f # cs" using assms by (cases bs) (simp_all add: operands_def)
  consider "f_mod f = 3" | "f_mod f \<noteq> 3" "f_rm f = 4" | "f_mod f \<noteq> 3" "f_rm f \<noteq> 4" by blast
  then show ?thesis
  proof cases
    case 1
    then show ?thesis using assms bs by (auto simp: operands_def Let_def)
  next
    case 2
    then obtain g ds where cs: "cs = g # ds" using assms bs by (cases cs) (simp_all add: operands_def Let_def)
    let ?nb = "f_mod f = 0 \<and> f_rm g = 5"
    obtain d where d: "displacement (f_mod f) ?nb ds = Some (d, r)" using assms bs cs 2 by (auto simp: operands_def Let_def)
    show ?thesis using assms bs cs 2 d displacement_append [OF d, of ys] by (simp add: operands_def Let_def less_Suc_eq_le)
  next
    case 3
    then obtain d where d: "displacement (f_mod f) False cs = Some (d, r)" using assms bs
      by (auto simp: operands_def Let_def split: if_splits)
    show ?thesis using assms bs 3 d displacement_append [OF d, of ys]
      by (simp add: operands_def Let_def less_Suc_eq_le split: if_splits)
  qed
qed

lemma h_rex_append:
  assumes "h_rex rex opc bs s = Some (t, r)"
  shows "h_rex rex opc (bs @ ys) s = Some (t, r @ ys) \<and> length r < length bs"
proof -
  consider "opc = 0x8B \<or> opc = 0x89 \<or> opc = 0x8D \<or> opc = 0x03" | "opc = 0x83"
    | "opc \<notin> {0x8B, 0x89, 0x8D, 0x03, 0x83}" "0xB8 \<le> opc \<and> opc \<le> 0xBF"
    using assms by (auto simp: h_rex_def split: if_splits)
  then show ?thesis
  proof cases
    case 1
    then obtain n p q where o: "operands rex bs = Some (n, p, q)" using assms
      by (auto simp: h_rex_def bind_eq_Some_conv)
    show ?thesis using 1 assms operands_append [OF o, of ys] by (auto simp: h_rex_def o bind_eq_Some_conv)
  next
    case 2
    then obtain n p q i q' where o: "operands rex bs = Some (n, p, q)" "imm8 q = Some (i, q')" using assms
      by (auto simp: h_rex_def bind_eq_Some_conv)
    show ?thesis using 2 assms operands_append [OF o(1), of ys] imm8_append [OF o(2), of ys]
      by (auto simp: h_rex_def o bind_eq_Some_conv split: if_splits)
  next
    case 3
    then obtain i q where o: "imm32 bs = Some (i, q)" using assms by (auto simp: h_rex_def bind_eq_Some_conv)
    show ?thesis using 3 assms imm32_append [OF o, of ys] by (simp add: h_rex_def o)
  qed
qed

lemma h_step_append:
  "h_step bs s = Some (t, r) \<Longrightarrow> h_step (bs @ ys) s = Some (t, r @ ys) \<and> length r < length bs"
  by (cases bs) (auto dest: h_rex_append [where ys = ys] split: if_splits list.splits)

lemma h_run_enough: "length bs \<le> n \<Longrightarrow> h_run n bs s = h_exec bs s"
proof (induction n arbitrary: bs s rule: less_induct)
  case (less n)
  show ?case
  proof (cases bs)
    case Nil
    then show ?thesis by (cases n) (simp_all add: h_exec_def)
  next
    case (Cons b bs')
    then obtain k where n: "n = Suc k" using less.prems by (cases n) auto
    show ?thesis
    proof (cases "h_step bs s")
      case None
      then show ?thesis using Cons n by (simp add: h_exec_def del: h_step.simps)
    next
      case (Some tr)
      obtain t r where tr: "tr = (t, r)" by (cases tr)
      have r: "length r < length bs" using h_step_append [OF Some [unfolded tr]] by blast
      then have "h_run k r t = h_exec r t" "h_run (length bs') r t = h_exec r t"
        using less.IH [of k r t] less.IH [of "length bs'" r t] less.prems Cons n by simp_all
      then show ?thesis using Some tr Cons n by (simp add: h_exec_def del: h_step.simps)
    qed
  qed
qed

lemma h_exec_Nil [simp]: "h_exec [] s = Some s"
  by (simp add: h_exec_def)

lemma h_exec_step:
  assumes "bs \<noteq> []"
  shows "h_exec bs s = Option.bind (h_step bs s) (\<lambda>(t, r). h_exec r t)"
proof (cases "h_step bs s")
  case None
  then show ?thesis using assms by (cases bs) (simp_all add: h_exec_def del: h_step.simps)
next
  case (Some tr)
  obtain t r where tr: "tr = (t, r)" by (cases tr)
  have "length r < length bs" using h_step_append [OF Some [unfolded tr]] by blast
  then have "h_run (length (tl bs)) r t = h_exec r t" using assms by (intro h_run_enough) simp
  then show ?thesis using assms Some tr by (cases bs) (simp_all add: h_exec_def del: h_step.simps)
qed

lemma h_exec_append: "h_exec xs s = Some t \<Longrightarrow> h_exec (xs @ ys) s = h_exec ys t"
proof (induction xs arbitrary: s rule: length_induct)
  case (1 xs)
  show ?case
  proof (cases "xs = []")
    case True
    then show ?thesis using "1.prems" by simp
  next
    case False
    then obtain u r where u: "h_step xs s = Some (u, r)" "h_exec r u = Some t"
      using "1.prems" h_exec_step [OF False, of s] by (auto simp: bind_eq_Some_conv)
    have a: "h_step (xs @ ys) s = Some (u, r @ ys)" "length r < length xs" using h_step_append [OF u(1)] by blast+
    have "h_exec (xs @ ys) s = h_exec (r @ ys) u" using h_exec_step [of "xs @ ys" s] False a(1) by simp
    then show ?thesis using "1.IH" a(2) u(2) by simp
  qed
qed

section \<open>Forms\<close>

lemma fields_joined:
  fixes x y z :: u8
  assumes "take_bit 2 x = x" and "take_bit 3 y = y" and "take_bit 3 z = z"
  shows "drop_bit 6 (push_bit 6 x OR push_bit 3 y OR z) = x" "take_bit 3 (drop_bit 3 (push_bit 6 x OR push_bit 3 y OR z)) = y"
    "take_bit 3 (push_bit 6 x OR push_bit 3 y OR z) = z"
proof -
  have b: "bit x n \<Longrightarrow> n < 2" "bit y n \<Longrightarrow> n < 3" "bit z n \<Longrightarrow> n < 3" for n
    using assms by (metis bit_take_bit_iff)+
  show "drop_bit 6 (push_bit 6 x OR push_bit 3 y OR z) = x"
    by (rule bit_word_eqI) (use b in \<open>fastforce simp: bit_simps\<close>)
  show "take_bit 3 (drop_bit 3 (push_bit 6 x OR push_bit 3 y OR z)) = y"
    by (rule bit_word_eqI) (use b in \<open>fastforce simp: bit_simps\<close>)
  show "take_bit 3 (push_bit 6 x OR push_bit 3 y OR z) = z"
    by (rule bit_word_eqI) (use b in \<open>fastforce simp: bit_simps\<close>)
qed

lemma modrm_parts [simp]:
  assumes "md < 4" and "r < 8" and "m < 8"
  shows "f_mod (modrm md r m) = md" "f_reg (modrm md r m) = r" "f_rm (modrm md r m) = m"
proof -
  have t: "take_bit 2 (of_nat md :: u8) = of_nat md" "take_bit 3 (of_nat r :: u8) = of_nat r" "take_bit 3 (of_nat m :: u8) = of_nat m"
    using assms by (simp_all add: take_bit_of_nat take_bit_nat_eq_self)
  have u: "unat (of_nat md :: u8) = md" "unat (of_nat r :: u8) = r" "unat (of_nat m :: u8) = m"
    using assms by (simp_all add: unat_of_nat take_bit_nat_eq_self)
  have 7: "w AND 7 = take_bit 3 w" for w :: u8 by (simp add: take_bit_eq_mask mask_eq_exp_minus_1)
  note f = fields_joined [OF t]
  show "f_mod (modrm md r m) = md" "f_reg (modrm md r m) = r" "f_rm (modrm md r m) = m"
    unfolding f_mod_def f_reg_def f_rm_def modrm_def 7 f u by (rule refl)+
qed

lemma imm32_le [simp]: "imm32 (le32 v @ bs) = Some (v, bs)" "imm32 (le32 v) = Some (v, [])"
proof -
  have "ucast (ucast v :: u8) OR push_bit 8 (ucast (ucast (drop_bit 8 v) :: u8))
      OR push_bit 16 (ucast (ucast (drop_bit 16 v) :: u8)) OR push_bit 24 (ucast (ucast (drop_bit 24 v) :: u8)) = v"
    (is "?w = v")
  proof (rule bit_word_eqI)
    fix n assume "n < LENGTH(32)"
    then consider "n < 8" | "8 \<le> n" "n < 16" | "16 \<le> n" "n < 24" | "24 \<le> n" "n < 32" by force
    then show "bit ?w n = bit v n" by cases (auto simp: bit_simps)
  qed
  then show "imm32 (le32 v @ bs) = Some (v, bs)" "imm32 (le32 v) = Some (v, [])" by (simp_all add: imm32_def le32_def or.assoc)
qed

lemma fits8_scast: "fits8 d \<Longrightarrow> scast (ucast d :: u8) = d"
proof -
  assume "fits8 d"
  then have "signed_take_bit 7 (sint d) = sint d" by (intro signed_take_bit_int_eq_self) (simp_all add: fits8_def)
  moreover have "(ucast d :: u8) = word_of_int (sint d)"
    unfolding scast_eq [symmetric] by (rule bit_word_eqI) (auto simp: bit_simps min_def)
  moreover have "sint (word_of_int (sint d) :: u8) = signed_take_bit 7 (sint d)" by (subst signed_of_int) simp
  ultimately have "sint (ucast d :: u8) = sint d" by (simp only:)
  then show ?thesis by (simp add: scast_eq)
qed

lemma rex_bits [simp]:
  "rex_r 0x41 = 0" "rex_x 0x41 = 0" "rex_b 0x41 = 8" "rex_r 0x44 = 8" "rex_x 0x44 = 0" "rex_b 0x44 = 0"
  "rex_r 0x45 = 8" "rex_x 0x45 = 0" "rex_b 0x45 = 8" "rex_r 0x43 = 0" "rex_x 0x43 = 8" "rex_b 0x43 = 8"
  by (simp_all add: rex_r_def rex_x_def rex_b_def)

text \<open>The displacement is what the mode says: none, a byte that extends to it, or the word.\<close>

definition disp_fits :: "nat \<Rightarrow> u32 \<Rightarrow> bool" where
  "disp_fits md d \<longleftrightarrow> md = 0 \<and> d = 0 \<or> md = 1 \<and> fits8 d \<or> md = 2"

lemma displacement_bytes: "disp_fits md d \<Longrightarrow> displacement md False (disp_bytes md d @ bs) = Some (d, bs)"
  by (auto simp: disp_fits_def displacement_def disp_bytes_def imm8_def fits8_scast)

lemma operands_reg: "r < 8 \<Longrightarrow> m < 8 \<Longrightarrow> operands rex (modrm 3 r m # bs) = Some (r + rex_r rex, H_reg (m + rex_b rex), bs)"
  by (simp add: operands_def)

lemma operands_base:
  "r < 8 \<Longrightarrow> m < 8 \<Longrightarrow> m \<noteq> 4 \<Longrightarrow> md \<noteq> 0 \<Longrightarrow> disp_fits md d \<Longrightarrow>
    operands rex (modrm md r m # disp_bytes md d @ bs) = Some (r + rex_r rex, H_mem (Some (m + rex_b rex)) None d, bs)"
  using displacement_bytes [of md d bs] by (auto simp: operands_def disp_fits_def)

lemma operands_index:
  "r < 8 \<Longrightarrow> sc < 4 \<Longrightarrow> i < 8 \<Longrightarrow> i \<noteq> 4 \<Longrightarrow> rex_x rex = 0 \<Longrightarrow> b < 8 \<Longrightarrow> disp_fits md d \<Longrightarrow> \<not> (md = 0 \<and> b = 5) \<Longrightarrow>
    operands rex (modrm md r 4 # modrm sc i b # disp_bytes md d @ bs) =
      Some (r + rex_r rex, H_mem (Some (b + rex_b rex)) (Some (i, sc)) d, bs)"
  using displacement_bytes [of md d bs] by (auto simp: operands_def disp_fits_def)

lemma operands_index_only:
  "r < 8 \<Longrightarrow> sc < 4 \<Longrightarrow> i < 8 \<Longrightarrow> i \<noteq> 4 \<Longrightarrow> rex_x rex = 0 \<Longrightarrow>
    operands rex (modrm 0 r 4 # modrm sc i 5 # le32 d @ bs) = Some (r + rex_r rex, H_mem None (Some (i, sc)) d, bs)"
  by (simp add: operands_def displacement_def)

text \<open>Instructions on R14, and on words of the context.\<close>

definition set_r14 :: "u32 \<Rightarrow> host \<Rightarrow> host" where
  "set_r14 v s = s\<lparr>hr := (hr s)(14 := v)\<rparr>"

lemma set_r14_simps [simp]:
  "hr (set_r14 v s) = (hr s)(14 := v)" "hctx (set_r14 v s) = hctx s" "hflags (set_r14 v s) = hflags s"
  "set_r14 v (set_r14 w s) = set_r14 v s"
  by (simp_all add: set_r14_def)

lemma exec_load_esp: "h_exec (load_esp_to_r14 @ bs) s = h_exec bs (set_r14 (hctx s 16) s)"
proof -
  have "operands 0x45 (modrm 1 6 5 # 16 # bs) = Some (14, H_mem (Some 13) None 16, bs)"
    using operands_base [of 6 5 1 16 "0x45" bs] by (simp add: disp_fits_def fits8_def disp_bytes_def)
  then show ?thesis
    by (simp add: h_exec_step load_esp_to_r14_def h_rex_def set_r14_def gp_offset_def)
qed

lemma exec_add_segment:
  assumes "off = CTX_FS_BASE \<or> off = CTX_GS_BASE"
  shows "h_exec [REX_RB, 0x03, modrm 1 R14_REG R13_REG, off] s =
    Some (h_flags (add_flags (hr s 14) (hctx s (unat off)) 4) (set_r14 (hr s 14 + hctx s (unat off)) s))"
proof -
  have "scast off = (ucast off :: u32)" using assms by auto
  then have "operands 0x45 [modrm 1 6 5, off] = Some (14, H_mem (Some 13) None (ucast off), [])"
    by (simp add: operands_def displacement_def imm8_def)
  then show ?thesis using assms by (auto simp: h_exec_step h_rex_def set_r14_def)
qed

section \<open>Address synthesis\<close>

lemma disp_fits_mode: "disp_fits (if fits8 d then 1 else 2) d"
  by (simp add: disp_fits_def)

lemma exec_base_only:
  assumes "b < 8"
  shows "h_exec (ea_base_only b d) s = Some (set_r14 (guest_reg b s + d) s)"
proof (cases "b = GP_ESP")
  case True
  have "operands 0x45 (modrm md 6 6 # disp_bytes md d) = Some (14, H_mem (Some 14) None d, [])"
    if "md = (if fits8 d then 1 else 2)" for md
    using operands_base [of 6 6 md d "0x45" "[]"] disp_fits_mode [of d] that by (simp split: if_splits)
  then show ?thesis using True
    by (simp add: ea_base_only_def Let_def exec_load_esp exec_load_esp [of "[]", simplified] h_exec_step h_rex_def set_r14_def
        h_address_def guest_reg_def)
next
  case False
  have o: "operands 0x44 (modrm md 6 b # disp_bytes md d) = Some (14, H_mem (Some b) None d, [])"
    if "md \<noteq> 0" "disp_fits md d" for md
    using operands_base [of 6 b md d "0x44" "[]"] that assms False by simp
  have "operands 0x44 [modrm 1 6 5, 0] = Some (14, H_mem (Some 5) None 0, [])"
    using operands_base [of 6 5 1 0 "0x44" "[]"] by (simp add: disp_fits_def fits8_def disp_bytes_def)
  moreover have "operands 0x44 [modrm 3 6 b] = Some (14, H_reg b, [])" using operands_reg [of 6 b "0x44" "[]"] assms by simp
  ultimately show ?thesis
    using False o [OF _ disp_fits_mode]
    by (simp add: ea_base_only_def Let_def h_exec_step h_rex_def set_r14_def h_address_def guest_reg_def)
qed

lemma scale_shift: "sc \<in> {1, 2, 4, 8} \<Longrightarrow> scale_enc sc < 4 \<and> push_bit (scale_enc sc) v = v * (ucast sc :: u32)"
  by (auto simp: scale_enc_def push_bit_eq_mult)

lemma exec_index_only:
  assumes "i < 8" and "i \<noteq> 4" and "sc < 4"
  shows "h_exec (ea_index_only i sc d) s = Some (set_r14 (push_bit sc (hr s i) + d) s)"
proof -
  have "operands 0x44 (modrm 0 6 4 # modrm sc i 5 # le32 d) = Some (14, H_mem None (Some (i, sc)) d, [])"
    using operands_index_only [of 6 sc i "0x44" d "[]"] assms by simp
  then show ?thesis by (simp add: ea_index_only_def h_exec_step h_rex_def set_r14_def h_address_def)
qed

lemma exec_base_index:
  assumes "b < 8" and "i < 8" and "i \<noteq> 4" and "sc < 4"
  shows "h_exec (ea_base_index b i sc d) s = Some (set_r14 (guest_reg b s + push_bit sc (hr s i) + d) s)"
proof (cases "b = GP_ESP")
  case True
  let ?md = "if d = 0 then 0 else if fits8 d then 1 else 2"
  have "disp_fits ?md d" by (simp add: disp_fits_def)
  then have o: "operands 0x45 (modrm ?md 6 4 # modrm sc i 6 # disp_bytes ?md d) = Some (14, H_mem (Some 14) (Some (i, sc)) d, [])"
    using operands_index [of 6 sc i "0x45" 6 ?md d "[]"] assms by simp
  have c: "ea_base_index b i sc d = load_esp_to_r14 @ 0x45 # 0x8D # modrm ?md 6 4 # modrm sc i 6 # disp_bytes ?md d"
    using True by (simp add: ea_base_index_def Let_def)
  show ?thesis using True assms o
    unfolding c exec_load_esp by (simp add: h_exec_step h_rex_def set_r14_def h_address_def guest_reg_def)
next
  case False
  let ?md = "if d = 0 then if b = GP_EBP then 1 else 0 else if fits8 d then 1 else 2"
  have "disp_fits ?md d" by (simp add: disp_fits_def fits8_def)
  then have o: "operands 0x44 (modrm ?md 6 4 # modrm sc i b # disp_bytes ?md d) = Some (14, H_mem (Some b) (Some (i, sc)) d, [])"
    using operands_index [of 6 sc i "0x44" b ?md d "[]"] assms by simp
  have c: "ea_base_index b i sc d = 0x44 # 0x8D # modrm ?md 6 4 # modrm sc i b # disp_bytes ?md d"
    using False by (simp add: ea_base_index_def Let_def)
  show ?thesis using False o unfolding c by (simp add: h_exec_step h_rex_def set_r14_def h_address_def guest_reg_def)
qed

lemma exec_ea_code:
  assumes "ea_code m = Some bs" and "mem_operand_ok m"
  shows "h_exec bs s = Some (set_r14 (guest_offset m s) s)"
proof -
  let ?d = "case x_disp m of Some d \<Rightarrow> d | None \<Rightarrow> 0"
  have reg: "reg32_enc r = Some i \<longleftrightarrow> r = Gp32 i" for r i by (cases r) auto
  consider "x_base m = NoReg" "x_index m = NoReg" | b where "x_base m = Gp32 b" "x_index m = NoReg"
    | i where "x_base m = NoReg" "x_index m = Gp32 i" "i \<noteq> 4" | b i where "x_base m = Gp32 b" "x_index m = Gp32 i" "i \<noteq> 4"
    using assms(1) unfolding ea_code_def Let_def by (auto simp: reg split: if_splits option.splits)
  then show ?thesis
  proof cases
    case 1
    then have "bs = [0x41, 0xBE] @ le32 ?d" using assms(1) by (simp add: ea_code_def Let_def)
    then show ?thesis using 1
      by (simp add: h_exec_step h_rex_def f_rm_def set_r14_def guest_offset_def opt_reg_def split: option.split)
  next
    case 2
    then have "bs = ea_base_only b ?d" "b < 8" using assms by (auto simp: ea_code_def Let_def mem_operand_ok_def)
    then show ?thesis using 2 exec_base_only by (simp add: guest_offset_def opt_reg_def)
  next
    case 3
    then have b: "bs = ea_index_only i (scale_enc (x_scale m)) ?d" "i < 8" "x_scale m \<in> {1, 2, 4, 8}"
      using assms by (auto simp: ea_code_def Let_def mem_operand_ok_def)
    then show ?thesis using 3 exec_index_only [OF b(2) 3(3)] scale_shift [OF b(3)]
      by (simp add: guest_offset_def opt_reg_def guest_reg_def)
  next
    case 4
    then have b: "bs = ea_base_index b i (scale_enc (x_scale m)) ?d" "b < 8" "i < 8" "x_scale m \<in> {1, 2, 4, 8}"
      using assms by (auto simp: ea_code_def Let_def mem_operand_ok_def)
    then show ?thesis using 4 exec_base_index [OF b(2,3) 4(3)] scale_shift [OF b(4)]
      by (simp add: guest_offset_def opt_reg_def guest_reg_def [of i])
  qed
qed

text \<open>C3: The code emitted for a memory operand leaves in R14 the operand's address in the guest: base, scaled
  index and displacement in 32-bit arithmetic, ESP taken from the context, plus the base of FS or GS.  It
  changes no other register, no word of the context and nothing on the stack.  The flags survive when the
  segment is flat; with FS or GS they become those of the addition of the segment base.\<close>

theorem ea_to_r14_address:
  assumes "ea_to_r14 m = Some bs" and "mem_operand_ok m"
  shows "h_exec bs s = Some (case segment_base m s of
      None \<Rightarrow> set_r14 (guest_address m s) s
    | Some b \<Rightarrow> h_flags (add_flags (guest_offset m s) b 4) (set_r14 (guest_address m s) s))"
proof -
  obtain seg c where e: "seg_ctx_offset (x_segment m) = Some seg" "ea_code m = Some c"
    and bs: "bs = c @ (case seg of Some off \<Rightarrow> [REX_RB, 0x03, modrm 1 R14_REG R13_REG, off] | None \<Rightarrow> [])"
    using assms(1) by (auto simp: ea_to_r14_def bind_eq_Some_conv)
  note c = exec_ea_code [OF e(2) assms(2), of s]
  consider "seg = None" "segment_base m s = None" | "seg = Some CTX_FS_BASE" "segment_base m s = Some (hctx s 100)"
    | "seg = Some CTX_GS_BASE" "segment_base m s = Some (hctx s 104)"
    using e(1) by (auto simp: seg_ctx_offset_def segment_base_def split: if_splits)
  then show ?thesis
  proof cases
    case 1
    then show ?thesis using c bs by (simp add: guest_address_def)
  next
    case 2
    then show ?thesis using h_exec_append [OF c] bs exec_add_segment [of CTX_FS_BASE]
      by (simp add: guest_address_def set_r14_def h_flags_def)
  next
    case 3
    then show ?thesis using h_exec_append [OF c] bs exec_add_segment [of CTX_GS_BASE]
      by (simp add: guest_address_def set_r14_def h_flags_def)
  qed
qed

text \<open>\<open>[ESP + ESI*4 + 8]\<close>, and the thread's block at \<open>FS:[0x24]\<close>.\<close>

definition esp_operand :: x_mem where
  "esp_operand = \<lparr>x_segment = SEG_SS, x_base = Gp32 4, x_index = Gp32 6, x_scale = 4, x_disp = Some 8\<rparr>"

definition fs_operand :: x_mem where
  "fs_operand = \<lparr>x_segment = SEG_FS, x_base = NoReg, x_index = NoReg, x_scale = 0, x_disp = Some 0x24\<rparr>"

definition demo_host :: host where
  "demo_host = \<lparr>hr = (\<lambda>i. of_nat i), hctx = (\<lambda>i. if i = 16 then 0xD0000 else if i = 100 then 0x80000000 else 0),
     hguest = (\<lambda>_. 0), hflags = 0x41, hstack = []\<rparr>"

theorem ea_to_r14_address_witness:
  "(case ea_to_r14 esp_operand of Some bs \<Rightarrow> h_exec bs demo_host | None \<Rightarrow> None) = Some (set_r14 0xD0020 demo_host)
   \<and> map_option hflags (case ea_to_r14 fs_operand of Some bs \<Rightarrow> h_exec bs demo_host | None \<Rightarrow> None) = Some 0x84"
proof -
  obtain c where c: "ea_to_r14 esp_operand = Some c"
    by (simp add: ea_to_r14_def ea_code_def seg_ctx_offset_def esp_operand_def)
  obtain d where d: "ea_to_r14 fs_operand = Some d"
    by (simp add: ea_to_r14_def ea_code_def seg_ctx_offset_def fs_operand_def)
  have "h_exec c demo_host = Some (set_r14 0xD0020 demo_host)"
    using ea_to_r14_address [OF c, of demo_host]
    by (simp add: mem_operand_ok_def esp_operand_def segment_base_def guest_address_def guest_offset_def opt_reg_def
        guest_reg_def demo_host_def)
  moreover have "map_option hflags (h_exec d demo_host) = Some 0x84"
    using ea_to_r14_address [OF d, of demo_host]
    by (simp add: mem_operand_ok_def fs_operand_def segment_base_def guest_address_def guest_offset_def opt_reg_def
        demo_host_def h_flags_def add_flags_def logical_flags_def size_mask_def sign_mask_def even_parity_def
        add_overflow_def aux_flag_def Let_def)
  ultimately show ?thesis using c d by simp
qed

section \<open>Returning\<close>

text \<open>The flags around the addition are kept, and the count is a signed byte.\<close>

lemma exec_add_ctx_esp:
  "h_exec (add_ctx_esp n @ bs) s = h_exec bs (s\<lparr>hctx := (hctx s)(16 := hctx s 16 + scast n)\<rparr>)"
proof -
  have "operands 0x41 (modrm 1 0 5 # 16 # n # bs) = Some (0, H_mem (Some 13) None 16, n # bs)" for bs
    using operands_base [of 0 5 1 16 "0x41" "n # bs"] by (simp add: disp_fits_def fits8_def disp_bytes_def)
  moreover have "modrm 1 0 5 = 0x45" by (simp add: modrm_def)
  ultimately show ?thesis
    by (simp add: h_exec_step add_ctx_esp_def gp_offset_def h_rex_def imm8_def h_flags_def)
qed

text \<open>A register stored to its slot of the context, and loaded from it.\<close>

lemma operands_ctx:
  assumes "r < 8"
  shows "operands 0x41 (modrm 1 r 5 # off # bs) = Some (r, H_mem (Some 13) None (scast off), bs)"
  using assms by (simp add: operands_def displacement_def imm8_def)

lemma exec_save_gp:
  "r < 8 \<Longrightarrow> h_exec (save_gp r off @ bs) s = h_exec bs (s\<lparr>hctx := (hctx s)(unat (scast off :: u32) := hr s r)\<rparr>)"
  using operands_ctx [of r off bs] by (simp add: h_exec_step save_gp_def h_rex_def)

lemma exec_load_gp:
  "r < 8 \<Longrightarrow> h_exec (load_gp r off @ bs) s = h_exec bs (s\<lparr>hr := (hr s)(r := hctx s (unat (scast off :: u32)))\<rparr>)"
  using operands_ctx [of r off bs] by (simp add: h_exec_step load_gp_def h_rex_def)

definition saved :: "host \<Rightarrow> host" where
  "saved s = s\<lparr>hctx := (hctx s)(0 := hr s 0, 4 := hr s 1, 8 := hr s 2, 12 := hr s 3, 20 := hr s 5, 24 := hr s 6, 28 := hr s 7)\<rparr>"

lemma exec_save_all: "h_exec (save_all_gp @ bs) s = h_exec bs (saved s)"
  by (simp add: save_all_gp_def exec_save_gp gp_offset_def saved_def)

text \<open>A word of the guest at R14 loaded into EAX, in its patchable region.\<close>

lemma exec_load_eax:
  "h_exec (pad_to 5 (fastmem_op GP_EAX 32 True) @ bs) s =
     h_exec bs (s\<lparr>hr := (hr s)(0 := ld 4 (hguest s) (unat (hr s 14)))\<rparr>)"
proof -
  have "f_mod 0x34 = 0" "f_reg 0x34 = 6" "f_rm 0x34 = 4" by (simp_all add: f_mod_def f_reg_def f_rm_def)
  then have "operands 0x43 (modrm 0 0 4 # 0x34 # bs) = Some (0, H_mem (Some 12) (Some (14, 0)) 0, bs)" for bs
    by (simp add: operands_def displacement_def)
  then show ?thesis by (simp add: h_exec_step pad_to_def fastmem_op_def h_rex_def)
qed

lemma exec_eax_to_next: "h_exec (eax_to_next_eip @ bs) s = h_exec bs (s\<lparr>hctx := (hctx s)(40 := hr s 0)\<rparr>)"
  using exec_save_gp [of 0 40 bs s] by (simp add: eax_to_next_eip_def save_gp_def modrm_def)

text \<open>The bytes of arguments that a return pops.\<close>

definition ret_pops :: "x_insn \<Rightarrow> u16 \<Rightarrow> bool" where
  "ret_pops x n \<longleftrightarrow>
     (case filter is_imm (x_ops x) of [] \<Rightarrow> n = 0 | p # _ \<Rightarrow> \<exists>b. xo_kind p = X_imm (ucast n) b)"

lemma ret_extra_pops: "ret_pops x n \<Longrightarrow> ret_extra x = n"
proof -
  have "find P xs = (case filter P xs of [] \<Rightarrow> None | p # _ \<Rightarrow> Some p)" for P and xs :: "x_op list"
    by (induction xs) auto
  moreover have "ucast (ucast n :: u64) = n" by (rule bit_word_eqI) (simp add: bit_simps)
  ultimately show "ret_pops x n \<Longrightarrow> ret_extra x = n"
    by (auto simp: ret_pops_def ret_extra_def split: list.splits)
qed

lemma byte_count: "scast (ucast (4 + ucast n :: u32) :: u8) = (4 + ucast n :: u32) \<longleftrightarrow> n < (124 :: u16)"
proof -
  let ?w = "4 + ucast n :: u32"
  have "uint ?w = 4 + uint n" using uint_lt2p [of n] by (simp add: uint_word_ariths uint_up_ucast is_up)
  then have w: "sint ?w = 4 + uint n" using uint_lt2p [of n] by (simp add: sint_uint signed_take_bit_int_eq_self)
  have "scast (ucast ?w :: u8) = ?w \<longleftrightarrow> fits8 ?w"
  proof
    assume e: "scast (ucast ?w :: u8) = ?w"
    have "sint (scast (ucast ?w :: u8) :: u32) = sint (ucast ?w :: u8)" by (simp add: sint_up_scast is_up)
    then show "fits8 ?w" using e sint_ge [of "ucast ?w :: u8"] sint_lt [of "ucast ?w :: u8"] by (simp add: fits8_def)
  qed (rule fits8_scast)
  also have "\<dots> \<longleftrightarrow> n < 124" using w uint_ge_0 [of n] by (auto simp: fits8_def word_less_def)
  finally show ?thesis .
qed

text \<open>C40: The code emitted for a near RET with paging off, run by the host to its own RET, leaves to the guest's
  return address: the word at the guest's ESP is in the context as the next EIP.  The registers have their
  values, which are also saved to the context, and flags, host stack and guest memory are as before.  ESP is
  raised by the return address and the arguments exactly when these take fewer than 124 bytes: the sum is
  added as a signed byte.\<close>

theorem ret_exit_pops:
  assumes "x_mnem x = ''RET''" and "\<not> x_far x" and "ret_pops x n" and "\<not> epaging e"
    and "emit_terminator h x pc after e = Some (b, y)"
  shows "\<exists>code t. ebuf y = ebuf e @ code @ [0xC3] \<and> h_exec code s = Some t \<and>
    hctx t 40 = ld 4 (hguest s) (unat (hctx s 16)) \<and>
    (\<forall>r \<in> {0, 1, 2, 3, 5, 6, 7}. hr t r = hr s r \<and> hctx t (4 * r) = hr s r) \<and>
    hflags t = hflags s \<and> hstack t = hstack s \<and> hguest t = hguest s \<and>
    (hctx t 16 = hctx s 16 + (4 + ucast n) \<longleftrightarrow> n < 124)"
proof -
  let ?k = "ucast (4 + ucast n :: u32) :: u8"
  let ?pre = "save_all_gp @ load_esp_to_r14 @ pad_to 5 (fastmem_op GP_EAX 32 True)"
  let ?code = "?pre @ add_ctx_esp ?k @ eax_to_next_eip @ load_gp GP_EAX (gp_offset GP_EAX)"
  have "emit_ret_exit h n e = Some (b, y)"
    using assms(1,2,5) ret_extra_pops [OF assms(3)] by (simp add: emit_terminator_def)
  then have buf: "ebuf y = ebuf e @ ?code @ [0xC3]"
    using assms(4)
    by (auto simp: emit_ret_exit_def put_code_def emits_def patch_region_def paging_translate_def when_step_def
        add_site_def split: if_splits)
  define v where "v = ld 4 (hguest s) (unat (hctx s 16))"
  define t where "t = (let u = saved s in
      u\<lparr>hr := (hr s)(14 := hctx s 16, 0 := hr s 0), hctx := (hctx u)(16 := hctx s 16 + scast ?k, 40 := v)\<rparr>)"
  have "h_exec ?code s = Some t"
    by (simp add: exec_save_all exec_load_esp exec_load_eax exec_add_ctx_esp exec_eax_to_next
        exec_load_gp [where bs = "[]", simplified] t_def Let_def saved_def set_r14_def v_def gp_offset_def
        fun_upd_twist)
  moreover have "hctx t 16 = hctx s 16 + (4 + ucast n) \<longleftrightarrow> n < 124"
    using byte_count [of n] by (simp add: t_def Let_def)
  ultimately show ?thesis using buf by (intro exI [of _ ?code] exI [of _ t]) (simp add: t_def Let_def saved_def v_def)
qed

text \<open>RET 8 with the return address 0x12345678.\<close>

definition ret_demo :: x_insn where
  "ret_demo = \<lparr>x_mnem = ''RET'', x_len = 3, x_ops = [\<lparr>xo_kind = X_imm 8 False, xo_size = 16, xo_write = False\<rparr>],
     x_visible = 1, x_width = 32, x_map = 0, x_opcode = 0xC2, x_prefixes = [], x_modrm_off = 0, x_modrm_reg = 0,
     x_imms = [(1, 16)], x_rep = False, x_repne = False, x_far = False, x_tested = 0, x_written = 0\<rparr>"

theorem ret_exit_pops_witness:
  "\<exists>code t. h_exec code (demo_host\<lparr>hguest := st 4 (\<lambda>_. 0) 0xD0000 0x12345678\<rparr>) = Some t \<and>
     hctx t 40 = 0x12345678 \<and> hctx t 16 = 0xD000C"
proof -
  let ?s = "demo_host\<lparr>hguest := st 4 (\<lambda>_. 0) 0xD0000 0x12345678\<rparr>"
  let ?h = "\<lparr>abi_win = True, fn_addr = (\<lambda>_. 0)\<rparr>"
  obtain b y where "emit_terminator ?h ret_demo 0x1000 0x1003 (emitter_new MAX_TRACE_BYTES) = Some (b, y)"
    by (simp add: emit_terminator_def ret_demo_def emit_ret_exit_def put_code_def emits_def patch_region_def
        paging_translate_def when_step_def add_site_def emitter_new_def save_all_gp_def save_gp_def load_gp_def
        load_esp_to_r14_def pad_to_def fastmem_op_def add_ctx_esp_def eax_to_next_eip_def)
  from ret_exit_pops [OF _ _ _ _ this, of 8 ?s] show ?thesis
    by (auto simp: ret_demo_def ret_pops_def is_imm_def emitter_new_def demo_host_def)
qed

end
