(* ===== verification/Fault_Facts.thy ===== *)
theory Fault_Facts
  imports Codegen_Facts String_Ops
begin

text \<open>
  What the fault handler does to an access: the call it puts in place leads to the stub made for the access, and
  the flags it computes for an emulated comparison are those of the helpers of translated code.
\<close>

section \<open>The call\<close>

lemma holds_at_put_list: "holds_at (put_list bs m a) a bs"
  by (simp add: holds_at_def put_list_apply)

lemma call_patch_target:
  assumes "\<bar>int target - int (rip + 5)\<bar> < 2 ^ 31"
  shows "put_list (call_patch rip target len) m rip rip = 0xE8"
    and "jump_target (put_list (call_patch rip target len) m rip) (rip + 1) = int target"
proof -
  let ?m = "put_list (call_patch rip target len) m rip"
  have h: "holds_at ?m rip (call_patch rip target len)" by (rule holds_at_put_list)
  then show "?m rip = 0xE8" by (simp add: call_patch_def)
  have "holds_at ?m (rip + 1) (le32 (of_nat target - of_nat (rip + 5)))"
    using h by (simp add: call_patch_def holds_at_append)
  then show "jump_target ?m (rip + 1) = int target"
    using sint_diff [OF assms] by (simp add: jump_target_def ld_le32 add.commute)
qed

text \<open>C8: A faulting load of a register is replaced by a call of the stub for that register and size: after the
  handler the host instruction at the fault is a call whose displacement leads to it, the program goes on
  there, and nothing else of the processor's state has changed.\<close>

theorem patched_load_calls_stub:
  assumes "access_valid (Fast_load r n)" and "holds_at (host_mem x) (h_rip h) (access_bytes (Fast_load r n))"
    and "\<bar>int (helper_page (cc x) + lookup_read r n (env_helpers v)) - int (h_rip h + 5)\<bar> < 2 ^ 31"
  shows "\<exists>y. patch_access v s (h, x) = (Continue_execution, h, y) \<and> host_mem y (h_rip h) = 0xE8 \<and>
    jump_target (host_mem y) (h_rip h + 1) = int (helper_page (cc x) + lookup_read r n (env_helpers v))"
  using access_decodes [OF assms(1,2)] call_patch_target [OF assms(3)]
  by (simp add: patch_access_def access_stub_def Let_def)

text \<open>A load of BX at \<open>0x10001000\<close> and a helper page whose read stubs are at offset 165.\<close>

definition fault_env :: veh_env where
  "fault_env = \<lparr>fastmem_base = 0x200000000, env_helpers = \<lparr>read_helpers = replicate 24 165, write_helpers = [],
     write_imm_tails = [], exception_exit = 0\<rparr>, decode64 = (\<lambda>_. None)\<rparr>"

definition faulting :: executor where
  "faulting = (executor_start (executor_init False) 0x10000000)
     \<lparr>host_mem := put_list (access_bytes (Fast_load 3 2)) (\<lambda>_. 0x90) 0x10001000\<rparr>"

theorem patched_load_calls_stub_witness:
  "\<exists>y. patch_access fault_env \<lparr>host_offset = 0x1000, site_eip = 0, patch_len = 5\<rparr>
      (\<lparr>h_regs = (\<lambda>_. 0), h_rip = 0x10001000, h_eflags = 2\<rparr>, faulting) =
      (Continue_execution, \<lparr>h_regs = (\<lambda>_. 0), h_rip = 0x10001000, h_eflags = 2\<rparr>, y) \<and> host_mem y 0x10001000 = 0xE8"
proof -
  let ?h = "\<lparr>h_regs = (\<lambda>_. 0), h_rip = 0x10001000, h_eflags = 2\<rparr>" and ?s = "\<lparr>host_offset = 0x1000, site_eip = 0, patch_len = 5\<rparr>"
  have "holds_at (host_mem faulting) (h_rip ?h) (access_bytes (Fast_load 3 2))"
    using holds_at_put_list by (simp add: faulting_def del: access_bytes.simps)
  moreover have "\<bar>int (helper_page (cc faulting) + lookup_read 3 2 (env_helpers fault_env)) - int (h_rip ?h + 5)\<bar> < 2 ^ 31"
    by (simp add: faulting_def executor_start_def cc_init_def code_cache_new_def lookup_read_def size_idx_def fault_env_def)
  ultimately show ?thesis using patched_load_calls_stub [of 3 2 faulting ?h fault_env ?s] by auto
qed

section \<open>Flags\<close>

lemma size_mask_elem: "n \<in> {1, 2, 4} \<Longrightarrow> size_mask n = elem_mask n"
  by (auto simp: size_mask_def elem_mask_def)

lemma sign_test: "x AND sign_mask n \<noteq> 0 \<longleftrightarrow> bit x (8 * n - 1)"
  by (simp add: sign_mask_def bit_iff_and_push_bit_not_eq_0)

lemma sixteen_test: "x AND 0x10 \<noteq> 0 \<longleftrightarrow> bit x 4" for x :: u32
  using bit_iff_and_push_bit_not_eq_0 [of x 4] by simp

text \<open>C9: The flags of a subtraction are computed twice in the program, by the fault handler for an emulated
  instruction and by the helpers for CMPS and SCAS.  The two agree on operands of one, two or four bytes.\<close>

theorem emulated_sub_flags:
  assumes "n \<in> {1, 2, 4}" and "take_bit (8 * n) a = a" and "take_bit (8 * n) b = b"
  shows "sub_flags a b n = compute_sub_flags a b n"
proof -
  let ?r = "a - b"
  obtain k where k0: "8 * n - 1 = k" by blast
  have k: "elem_sign n = k" "k < 8 * n" "4 < 8 * n" "8 * n \<le> 32" using assms(1) k0 by (auto simp: elem_sign_def)
  have m: "x AND elem_mask n = take_bit (8 * n) x" for x using elem_mask_take assms(1) by blast
  have par: "even_parity (ucast (take_bit (8 * n) ?r)) \<longleftrightarrow> fold_parity (take_bit (8 * n) ?r) AND 1 = 0"
    by (simp add: even_parity_def fold_parity_def Let_def)
  have bits: "bit (take_bit (8 * n) ?r) k = bit ?r k" "bit (take_bit (8 * n) ?r) 4 = bit ?r 4"
    using k by (simp_all add: bit_take_bit_iff)
  have aux: "(a XOR b XOR ?r) AND 0x10 \<noteq> 0 \<longleftrightarrow> (a XOR b XOR take_bit (8 * n) ?r) AND 0x10 \<noteq> 0"
    unfolding sixteen_test bit_xor_iff bits ..
  have sgn: "take_bit (8 * n) ?r AND sign_mask n \<noteq> 0 \<longleftrightarrow> drop_bit k (take_bit (8 * n) ?r) AND 1 \<noteq> 0"
    unfolding sign_test k0 by (simp add: drop_bit_odd)
  have ovf: "(a XOR b) AND (a XOR ?r) AND sign_mask n \<noteq> 0 \<longleftrightarrow>
      drop_bit k a AND 1 \<noteq> drop_bit k b AND 1 \<and> drop_bit k a AND 1 \<noteq> drop_bit k (take_bit (8 * n) ?r) AND 1"
    unfolding and.assoc [symmetric] sign_test k0 by (auto simp: drop_bit_odd bit_and_iff bit_xor_iff bits)
  show ?thesis
    unfolding sub_flags_def compute_sub_flags_def logical_flags_def size_mask_elem [OF assms(1)] m k(1) assms(2,3) Let_def
      sgn par aux_flag_def aux sub_overflow_def ovf flag_if_def
    by (simp add: ac_simps)
qed

theorem emulated_sub_flags_witness: "sub_flags 0x80 0x01 1 = compute_sub_flags 0x80 0x01 1"
  by (rule emulated_sub_flags) (simp_all add: take_bit_eq_mod)

text \<open>An emulated comparison of a two-byte device register with a negative byte immediate always reports a
  borrow: the immediate is used with its sign extended to 32 bits while the register's value is 16 bits wide.
  So the register that equals the immediate compares below it.\<close>

theorem cmp_word_with_negative_byte:
  assumes "take_bit 16 a = a" and "0xFFFFFF80 \<le> b"
  shows "bit (sub_flags a b 2) 0"
proof -
  have "unat a < 2 ^ 16" using assms(1) by (metis take_bit_nat_less_exp unsigned_take_bit_eq)
  then have "a < b" using assms(2) by (simp add: word_less_nat_alt word_le_nat_alt)
  then show ?thesis by (simp add: sub_flags_def Let_def bit_or_iff)
qed

theorem cmp_word_with_negative_byte_witness: "bit (sub_flags 0xFFFE 0xFFFFFFFE 2) 0"
  by (rule cmp_word_with_negative_byte) (simp_all add: take_bit_eq_mod)

end
