(* ===== verification/Spec2Isabelle.thy ===== *)
theory Spec2Isabelle
  imports Prelude Pic Pit Address_Map Ioapic Legacy Pci Usb Flash Smbus Ide Apu Pgraph Nv2a Nv2aFifo
    Bus Setup Guest Lookup_Cache Paging Guest_Memory Interrupts String_Ops
    Block_Copy Code_Cache Traces Trace_Links Boot16 Bcd Insn Privileged Privileged_Facts Run Run_Facts
    Pe_Loader Kernel_Boot Xbe_Loader Nbox_Io Nbox_Io_Facts Nbox_Host
    Sha1 Rc4 Xbe_Heap Hle_Ordinals Hle_Kernel Hle_Rtl Hle_Files Hle_Crypto Hle_Dispatch Hle_Facts
    Bootstrap Scheduler Boot_Facts Emu_Thread
    Emitter Insn_Classes Codegen Trace_Builder Fault_Handler Link_Safety Codegen_Facts Host_Code
    Fault_Facts
begin
text \<open>
  A verification library for Xermu, an emulator of the original Xbox: an x86 processor run by translation
  (\<open>src/src/cpu\<close>) on a model of the console's chips (\<open>src/src/xbox\<close>).  All paths below are under \<open>src/src\<close>.


  The program.  \<open>Executor::run\<close> takes guest code in traces: it looks a trace up by guest address, builds it when
  missing, links its exits, jumps into it and looks at how it stopped.  Translated code calls helpers for memory,
  strings and returns; what it cannot do stops it, and the run loop decodes and performs the instruction
  (\<open>handle_privileged\<close>).  Addresses go through a software TLB and the guest's page tables; a physical address is
  guest RAM or a window of a device on the bus.  Every 1024 traces the devices tick; they raise lines of the
  8259 pair, whose interrupts the run loop delivers through the guest's IDT at trace boundaries.  The NV2A takes
  its commands from a push buffer in guest memory.


  The theories, with the files they model.

  Devices: \<open>Pic\<close> (\<open>xbox/pic.hpp\<close>), \<open>Pit\<close> (\<open>pit.hpp\<close>), \<open>Ioapic\<close> (\<open>ioapic.hpp\<close>), \<open>Legacy\<close> (\<open>misc_io.hpp\<close>,
  \<open>acpi.hpp\<close>, \<open>cmos.hpp\<close>), \<open>Pci\<close> (\<open>pci.hpp\<close>), \<open>Usb\<close> (\<open>usb.hpp\<close>), \<open>Flash\<close> (\<open>flash.hpp\<close>), \<open>Smbus\<close> (\<open>smbus.hpp\<close>),
  \<open>Ide\<close> (\<open>ide.hpp\<close>), \<open>Apu\<close> (\<open>apu.hpp\<close>), \<open>Pgraph\<close> (\<open>pgraph.hpp\<close>), \<open>Nv2a\<close> and \<open>Nv2aFifo\<close> (\<open>nv2a.hpp\<close>,
  \<open>nv2a_thread.hpp\<close>), \<open>Address_Map\<close> (\<open>address_map.hpp\<close>, \<open>ram_mirror.hpp\<close>).  One record per chip with the fields
  of its C++ struct, one function per port or register handler.

  The machine: \<open>Bus\<close> (\<open>cpu/mmio.hpp\<close> and the port table of \<open>cpu/executor.hpp\<close>), \<open>Setup\<close> (\<open>xbox/setup.hpp\<close>: all
  chips as one state, the tables \<open>xbox_setup\<close> fills, the two tick callbacks).

  The processor: \<open>Guest\<close> (\<open>cpu/context.hpp\<close>, the TLB of \<open>cpu/trace_builder.hpp\<close>), \<open>Lookup_Cache\<close> (the contract of
  caches in front of a table), \<open>Paging\<close> (\<open>translate_va\<close> of \<open>cpu/executor.cpp\<close>, \<open>translate_va_jit\<close> of
  \<open>cpu/jit_helpers.cpp\<close>), \<open>Guest_Memory\<close> and \<open>String_Ops\<close> (\<open>cpu/jit_helpers.cpp\<close>), \<open>Interrupts\<close>
  (\<open>deliver_interrupt\<close>), \<open>Block_Copy\<close>, \<open>Boot16\<close> (the real-mode boot interpreter), \<open>Bcd\<close>, \<open>Insn\<close> and \<open>Privileged\<close>
  (\<open>cpu/privileged.cpp\<close>).

  Translation: \<open>Emitter\<close> (\<open>cpu/emitter.hpp\<close>), \<open>Insn_Classes\<close> (\<open>cpu/insn_dispatch.hpp\<close>), \<open>Codegen\<close> (the handlers
  \<open>emit_handler_*\<close> of \<open>cpu/trace_builder.cpp\<close>), \<open>Trace_Builder\<close> (\<open>TraceBuilder::build\<close> and
  \<open>generate_mmio_helpers\<close> there), \<open>Fault_Handler\<close> (\<open>cpu/veh_handler.cpp\<close>).  A fixed sequence of host
  instructions is a list of bytes, a routine that records links or sites a step on the emitter.

  Translated code: \<open>Code_Cache\<close> (\<open>cpu/code_cache.hpp\<close>), \<open>Traces\<close> (\<open>cpu/trace.hpp\<close>), \<open>Trace_Links\<close> (building,
  linking, page protection and invalidation in \<open>cpu/executor.cpp\<close>, what \<open>build\<close> records), \<open>Run\<close> (\<open>Executor::run\<close>).

  Loaders and the host side of the kernel replacement: \<open>Pe_Loader\<close> (\<open>xbox/pe_loader.hpp\<close>), \<open>Kernel_Boot\<close>
  (\<open>xbox/nboxkrnl_boot.hpp\<close>), \<open>Nbox_Io\<close> (\<open>xbox/nboxkrnl_io.hpp\<close>: packets, queues and the worker over a model
  of the host's files and of what their streams keep back), \<open>Nbox_Host\<close> (\<open>xbox/nboxkrnl_host.hpp\<close>, \<open>nboxkrnl_keys.hpp\<close>), \<open>Xbe_Loader\<close>
  (\<open>xbox/hle/xbe_loader.hpp\<close>, the exports of \<open>hle_kernel.hpp\<close>).

  The emulated kernel (\<open>xbox/hle/hle_kernel.hpp\<close>): \<open>Xbe_Heap\<close> (heap, handles, host files), \<open>Hle_Ordinals\<close>,
  \<open>Hle_Kernel\<close>, \<open>Hle_Rtl\<close>, \<open>Hle_Files\<close>, \<open>Sha1\<close>, \<open>Rc4\<close>, \<open>Hle_Crypto\<close> (the calls, by kind) and \<open>Hle_Dispatch\<close>
  (\<open>default_hle_handler\<close>).

  The system: \<open>Bootstrap\<close> (the boot modes of \<open>xbox/hle/bootstrap.hpp\<close>, \<open>nboxkrnl_paths.hpp\<close>), \<open>Scheduler\<close>
  (\<open>run_step\<close> there), \<open>Emu_Thread\<close> (\<open>xbox/emu_thread.hpp\<close>).

  \<open>Prelude\<close> holds what they share: the word types, byte memories with little-endian loads and stores, checked
  array accesses.  \<open>Link_Safety\<close>, \<open>Privileged_Facts\<close>, \<open>Run_Facts\<close>, \<open>Nbox_Io_Facts\<close>, \<open>Hle_Facts\<close>, \<open>Boot_Facts\<close>,
  \<open>Codegen_Facts\<close> and \<open>Fault_Facts\<close> hold proofs only.  \<open>Host_Code\<close> is a semantics of the few host instructions
  that memory operands and the exits of returns are made of: a specification, with the proofs that rest on it.


  Conventions.  Machine integers are words of their width, so arithmetic wraps as in C++; comparisons that the
  code makes in 32 bits are made in 32 bits.  A C array is a function with its length in the accesses: reading or
  writing past the end is \<open>None\<close>, as is every other undefined behaviour, so a result \<open>Some\<close> says that the code
  stayed in bounds.  Guest RAM is a byte memory of 128 MB.  Handlers are functions on the state of all devices;
  pointers between devices are fields of that state.  Loops are recursive functions: over a list or a number when
  the code's bound is one, with a termination proof (\<open>read_guest_block\<close>), as a partial function when they need not
  end (the prefixes of \<open>Boot16\<close>), or with fuel: \<open>run_loop\<close>, for which \<open>run_ends\<close> shows that the budget of steps
  is enough fuel; \<open>drain\<close>, whose bound is shown where the loop ends and unboundedness where it does not;
  \<open>fire_dpcs\<close>, the loop over deferred calls, which may go round for ever (\<open>fire_dpcs_endless\<close>) and has its fuel as
  a hypothesis of what rests on it; and \<open>h_run\<close> of \<open>Host_Code\<close>, with the length of the code.  The 512 of
  \<open>emit_loop\<close> is the code's own bound on a trace.


  What the lemmas show.

  The caches: \<open>Lookup_Cache\<close> states as locales what a cache promises and that a cache filled from a table stays
  sound; the TLB (\<open>Paging\<close>) and the trace cache (\<open>Traces\<close>) interpret it.  So translation refines the guest's page
  tables, which are given as a function on memory in unbounded arithmetic, and block copies refine the bytes there.

  Links: \<open>links_ok\<close> is kept by every operation on traces, and, since the sites the fault handler patches lie apart
  from the exits (\<open>sites_ok\<close>), by its patches and thunks, so in any reachable state a linked exit is a jump whose
  bytes lead to the code of a valid trace further up.  Buses: the windows of the devices are disjoint and the ports
  distinct, so the locale \<open>decoder\<close> gives that the order of attachment is irrelevant.

  Devices: the functional behaviour of the handlers on every branch, invariants over arbitrary guest writes, round
  trips of configuration, storage and registers, rates of timers in closed form.  The push buffer: a tick drains a
  well-formed buffer to PUT; and in every state the machine reaches by aligned accesses to the chip, ticks, the
  wiring of its memory and anything that happens elsewhere (\<open>hw_step\<close> of \<open>Setup\<close>) the interrupt register reflects
  its blocks.

  Processor: delivery and IRET are inverse, the flags helpers decode to order and equality, string instructions fill
  and copy what they should, decimal adjustment equals the manual but on the operands listed, runs with a budget
  end, HLT wakes by the timer.

  Translation: whatever the guest's code, emission stays in its buffer, and what it records of links and sites
  meets the hypotheses of \<open>Link_Safety\<close>.  The emitted address of a memory operand is the guest's; the fault handler
  reads back the access the emitter wrote and calls the stub for it; the analysis of the flags is exact.

  Kernel and system: loaded images are known byte by byte, imports resolve to their stubs, a call keeps its
  convention, the file service accounts for every request and reads back what was written, SHA-1 on contexts in guest memory is SHA-1, each
  thread has its own registers and its turn, the two host threads keep their protocol, every store of it a step.  Where the code does not do
  what it should, the theorem says what it does.


  Not modelled.  The instruction decoders are a third-party library: the decoded instruction is a parameter, with
  \<open>decoder_ok\<close> as the contract (the length of an instruction is within the bytes given, its fields lie in it).
  Emitted code runs on the host; in \<open>Run\<close> its dispatch is a parameter, so that no theorem relates whole traces to
  the guest's instructions.  Parameters too are the addresses of C functions, the host's clock, time-stamp counter
  and files, and the outcome of locks.  Left out: the Vulkan renderer and its shaders, windows, menus and command
  lines, memory mapping and protection by the operating system (the model keeps what was asked for), the test
  programs, the blocks compiled out for other processors, and diagnostic output, but for the translations it makes,
  which change the TLB and the fault registers.
\<close>

end
